(* ===== verification/Py_Float.thy ===== *)
theory Py_Float
  imports Complex_Main "HOL-Library.Log_Nat"
begin

section \<open>Python floats\<close>

text \<open>
  The controllers compute with Python's \<open>float\<close>: CPU quantities, utilisation ratios, clock
  readings and configured ratios are IEEE binary64 numbers. A float is modelled by the rational
  number it denotes, and every arithmetic operation of the source is the exact rational result
  rounded to 53 significant bits, ties to even (\<open>fl\<close>). The exponent range is not
  bounded: overflow to infinity, subnormal numbers, NaN and the sign of zero are not modelled. The
  quantities handled lie between \<open>1e-9\<close> and \<open>1e19\<close>, far from both ends. The only
  infinity the source creates itself, \<open>math.inf\<close> as a sort key, is the constructor
  \<open>PosInf\<close> of \<open>xfloat\<close> below.

  The lemmas show what the proofs use of rounding: it is monotone, odd, idempotent and exact
  on integers up to \<open>2 ^ 53\<close> in absolute value.
\<close>

type_synonym flt = rat

text \<open>Round to the nearest integer, ties to even.\<close>

definition round_half_even :: "rat \<Rightarrow> int" where
  "round_half_even x =
     (let f = \<lfloor>x\<rfloor>; d = x - of_int f in
      if d < 1/2 then f else if 1/2 < d then f + 1 else if even f then f else f + 1)"

text \<open>The exponent \<open>e\<close> with \<open>2 powi e \<le> \<bar>x\<bar> < 2 powi (e + 1)\<close>.\<close>

definition bin_exp :: "rat \<Rightarrow> int" where
  "bin_exp x =
     (let (a, b) = quotient_of \<bar>x\<bar>; e = bitlen a - bitlen b
      in if 2 powi e \<le> \<bar>x\<bar> then e else e - 1)"

text \<open>The binary64 number nearest to an exact rational.\<close>

definition fl :: "rat \<Rightarrow> flt" where
  "fl x = (if x = 0 then 0
           else let u = 2 powi (bin_exp x - 52) in of_int (round_half_even (x / u)) * u)"

subsection \<open>Rounding\<close>

lemma round_half_even_of_int [simp]: "round_half_even (of_int n) = n"
  by (simp add: round_half_even_def)

lemma round_half_even_bounds:
  "\<lfloor>x\<rfloor> \<le> round_half_even x \<and> round_half_even x \<le> \<lfloor>x\<rfloor> + 1"
  by (simp add: round_half_even_def Let_def)

lemma round_half_even_mono:
  assumes "x \<le> y" shows "round_half_even x \<le> round_half_even y"
proof (cases "\<lfloor>x\<rfloor> = \<lfloor>y\<rfloor>")
  case True
  with assms show ?thesis by (auto simp: round_half_even_def Let_def)
next
  case False
  moreover have "\<lfloor>x\<rfloor> \<le> \<lfloor>y\<rfloor>" using assms by (rule floor_mono)
  ultimately have "\<lfloor>x\<rfloor> + 1 \<le> \<lfloor>y\<rfloor>" by linarith
  then show ?thesis using round_half_even_bounds [of x] round_half_even_bounds [of y] by linarith
qed

lemma round_half_even_minus: "round_half_even (- x) = - round_half_even x"
proof (cases "of_int \<lfloor>x\<rfloor> = x")
  case True
  then show ?thesis by (metis of_int_minus round_half_even_of_int)
next
  case False
  let ?f = "\<lfloor>x\<rfloor>"
  have lt: "of_int ?f < x" "x < of_int ?f + 1" using False of_int_floor_le [of x] by (linarith, linarith)
  then have fm: "\<lfloor>- x\<rfloor> = - ?f - 1" by (intro floor_unique) simp_all
  consider "x - of_int ?f < 1/2" | "1/2 < x - of_int ?f" | "x = of_int ?f + 1/2" by linarith
  then show ?thesis
  proof cases
    case 3
    then have "- x - of_int (- ?f - 1) = 1/2" "x - of_int ?f = 1/2" by simp_all
    then show ?thesis by (simp add: round_half_even_def Let_def fm del: of_int_diff of_int_minus)
  qed (simp_all add: round_half_even_def Let_def fm)
qed

lemma powi_2_pos: "(0::rat) < 2 powi e" by simp

lemma powi_2_less_iff: "(2::rat) powi a < 2 powi b \<longleftrightarrow> a < b"
  by (metis linorder_not_less power_int_increasing power_int_strict_increasing one_le_numeral
      one_less_numeral_iff semiring_norm(76))

lemma bin_exp_bounds:
  assumes "x \<noteq> 0"
  shows "2 powi (bin_exp x) \<le> \<bar>x\<bar> \<and> \<bar>x\<bar> < 2 powi (bin_exp x + 1)"
proof -
  obtain a b where q: "quotient_of \<bar>x\<bar> = (a, b)" by (cases "quotient_of \<bar>x\<bar>")
  then have x: "\<bar>x\<bar> = of_int a / of_int b" and b: "0 < b"
    by (simp_all add: quotient_of_div quotient_of_denom_pos)
  with assms have a: "0 < a" by (metis abs_le_zero_iff divide_nonpos_pos leI of_int_0_less_iff of_int_le_0_iff)
  let ?e = "bitlen a - bitlen b"
  have bound: "2 powi (bitlen n - 1) \<le> (of_int n :: rat) \<and> (of_int n :: rat) < 2 powi (bitlen n)"
    if "0 < n" for n
  proof -
    from that have l: "1 \<le> bitlen n" by (simp add: bitlen_alt_def)
    have "2 powi (bitlen n - 1) = (of_int (2 ^ nat (bitlen n - 1)) :: rat)"
      using l by (simp add: power_int_def)
    moreover have "2 powi (bitlen n) = (of_int (2 ^ nat (bitlen n)) :: rat)"
      using l by (simp add: power_int_def)
    ultimately show ?thesis using bitlen_bounds [OF that] by (simp only: of_int_le_iff of_int_less_iff)
  qed
  have up: "\<bar>x\<bar> < 2 powi (?e + 1)"
  proof -
    have "of_int a / of_int b < (2 powi bitlen a :: rat) / 2 powi (bitlen b - 1)"
      using bound [OF a] bound [OF b] b a by (intro frac_less) auto
    also have "\<dots> = 2 powi (?e + 1)" by (simp add: power_int_diff power_int_add)
    finally show ?thesis using x by simp
  qed
  have low: "2 powi (?e - 1) \<le> \<bar>x\<bar>"
  proof -
    have "2 powi (?e - 1) = (2 powi (bitlen a - 1) :: rat) / 2 powi bitlen b"
      by (simp add: power_int_diff)
    also have "\<dots> \<le> of_int a / of_int b"
      using bound [OF a] bound [OF b] b a by (intro frac_le) auto
    finally show ?thesis using x by simp
  qed
  show ?thesis using up low by (simp add: bin_exp_def q Let_def)
qed

lemma bin_exp_unique:
  assumes "2 powi e \<le> \<bar>x\<bar>" "\<bar>x\<bar> < 2 powi (e + 1)"
  shows "bin_exp x = e"
proof -
  have "0 < \<bar>x\<bar>" using assms(1) powi_2_pos [of e] by linarith
  then have "x \<noteq> 0" by simp
  from bin_exp_bounds [OF this] assms
  have "2 powi e < (2::rat) powi (bin_exp x + 1)" "2 powi (bin_exp x) < (2::rat) powi (e + 1)"
    by linarith+
  then show ?thesis by (simp add: powi_2_less_iff)
qed

lemma bin_exp_minus [simp]: "bin_exp (- x) = bin_exp x"
  by (simp add: bin_exp_def)

lemma fl_0 [simp]: "fl 0 = 0" by (simp add: fl_def)

lemma fl_minus: "fl (- x) = - fl x"
  by (simp add: fl_def Let_def round_half_even_minus)

lemma fl_exact:
  assumes "x = of_int m * 2 powi k" "\<bar>m\<bar> \<le> 2 ^ 53"
  shows "fl x = x"
proof (cases "x = 0")
  case False
  let ?e = "bin_exp x"
  have m0: "m \<noteq> 0" using False assms(1) by auto
  have ax: "\<bar>x\<bar> = of_int \<bar>m\<bar> * 2 powi k" using assms(1) by (simp add: abs_mult)
  have "(of_int \<bar>m\<bar> :: rat) \<le> of_int (2 ^ 53)" using assms(2) by (simp only: of_int_le_iff)
  then have "\<bar>x\<bar> \<le> 2 ^ 53 * 2 powi k" using ax by (simp add: mult_right_mono)
  also have "\<dots> = 2 powi (53 + k)" by (simp add: power_int_add)
  finally have le: "\<bar>x\<bar> \<le> 2 powi (53 + k)" .
  have "\<exists>n. x / 2 powi (?e - 52) = of_int n"
  proof (cases "\<bar>x\<bar> = 2 powi (53 + k)")
    case True
    then have "?e = 53 + k" by (intro bin_exp_unique) (simp_all add: powi_2_less_iff)
    then have u: "2 powi (53 + k) = (2 ^ 52 :: rat) * 2 powi (?e - 52)" by (simp add: power_int_add)
    have "x = 2 powi (53 + k) \<or> x = - (2 powi (53 + k))" using True by linarith
    then have "x / 2 powi (?e - 52) = of_int (2 ^ 52) \<or> x / 2 powi (?e - 52) = of_int (- (2 ^ 52))"
      unfolding u using powi_2_pos [of "?e - 52"] by (auto simp: field_simps simp del: powi_2_pos)
    then show ?thesis by blast
  next
    case f: False
    with le have "\<bar>x\<bar> < 2 powi (53 + k)" by simp
    then have "2 powi ?e < (2::rat) powi (53 + k)" using bin_exp_bounds [OF False] by linarith
    then have ek: "?e - 52 \<le> k" by (simp add: powi_2_less_iff)
    have "x / 2 powi (?e - 52) = of_int m * (2 powi (k - (?e - 52)))"
      by (subst power_int_diff) (simp_all add: assms(1))
    also have "\<dots> = of_int (m * 2 ^ nat (k - (?e - 52)))" using ek by (simp add: power_int_def)
    finally show ?thesis by blast
  qed
  then obtain n where "x / 2 powi (?e - 52) = of_int n" ..
  then show ?thesis using False by (simp add: fl_def Let_def) (metis nonzero_eq_divide_eq powi_2_pos less_irrefl)
qed simp

lemma fl_of_int [simp]: "\<bar>n\<bar> \<le> 2 ^ 53 \<Longrightarrow> fl (of_int n) = of_int n"
  by (rule fl_exact [of _ n 0]) simp_all

lemma fl_numeral [simp]: "(numeral n :: int) \<le> 2 ^ 53 \<Longrightarrow> fl (numeral n) = numeral n"
  using fl_of_int [of "numeral n"] by simp

lemma fl_1 [simp]: "fl 1 = 1" using fl_of_int [of 1] by simp

lemma fl_pos_bounds:
  assumes "0 < x"
  shows "2 powi (bin_exp x) \<le> fl x \<and> fl x \<le> 2 powi (bin_exp x + 1)"
proof -
  let ?u = "2 powi (bin_exp x - 52) :: rat"
  have b: "2 powi (bin_exp x) \<le> x" "x < 2 powi (bin_exp x + 1)"
    using bin_exp_bounds [of x] assms by auto
  have u1: "2 powi (bin_exp x) = of_int (2 ^ 52) * ?u" and u2: "2 powi (bin_exp x + 1) = of_int (2 ^ 53) * ?u"
    by (simp_all add: power_int_diff power_int_add)
  have "of_int (2 ^ 52) \<le> x / ?u" "x / ?u \<le> of_int (2 ^ 53)"
    using b unfolding u1 u2 by (simp_all only: pos_le_divide_eq pos_divide_le_eq powi_2_pos less_imp_le)
  then have "2 ^ 52 \<le> round_half_even (x / ?u)" "round_half_even (x / ?u) \<le> 2 ^ 53"
    by (metis round_half_even_mono round_half_even_of_int)+
  then have "of_int (2 ^ 52) \<le> (of_int (round_half_even (x / ?u)) :: rat)"
    "(of_int (round_half_even (x / ?u)) :: rat) \<le> of_int (2 ^ 53)" by (simp_all only: of_int_le_iff)
  then show ?thesis unfolding u1 u2 using assms
    by (auto simp: fl_def Let_def simp del: of_int_power of_int_numeral intro!: mult_right_mono)
qed

lemma fl_mono_pos:
  assumes "0 < x" "x \<le> y" shows "fl x \<le> fl y"
proof -
  have y: "0 < y" using assms by simp
  have "2 powi (bin_exp x) < (2::rat) powi (bin_exp y + 1)"
    using bin_exp_bounds [of x] bin_exp_bounds [of y] assms y by auto
  then have "bin_exp x \<le> bin_exp y" by (simp add: powi_2_less_iff)
  then consider "bin_exp x = bin_exp y" | "bin_exp x + 1 \<le> bin_exp y" by linarith
  then show ?thesis
  proof cases
    case 1
    let ?u = "2 powi (bin_exp x - 52) :: rat"
    have "round_half_even (x / ?u) \<le> round_half_even (y / ?u)"
      using assms(2) by (intro round_half_even_mono divide_right_mono) simp_all
    then show ?thesis using assms y 1 by (simp add: fl_def Let_def)
  next
    case 2
    have "fl x \<le> 2 powi (bin_exp x + 1)" using fl_pos_bounds [OF assms(1)] by simp
    also have "\<dots> \<le> 2 powi (bin_exp y)" using 2 by (simp add: power_int_increasing)
    also have "\<dots> \<le> fl y" using fl_pos_bounds [OF y] by simp
    finally show ?thesis .
  qed
qed

lemma fl_nonneg: "0 \<le> x \<Longrightarrow> 0 \<le> fl x"
  using fl_pos_bounds [of x] powi_2_pos [of "bin_exp x"] by (cases "x = 0") (force, linarith)

lemma fl_mono: assumes "x \<le> y" shows "fl x \<le> fl y"
proof -
  consider "0 < x" | "x \<le> 0" "0 \<le> y" | "y < 0" using assms by linarith
  then show ?thesis
  proof cases
    case 1 then show ?thesis using assms by (rule fl_mono_pos)
  next
    case 2
    then have "0 \<le> fl (- x)" "0 \<le> fl y" by (simp_all add: fl_nonneg)
    then show ?thesis by (simp add: fl_minus)
  next
    case 3
    then have "fl (- y) \<le> fl (- x)" using assms by (intro fl_mono_pos) simp_all
    then show ?thesis by (simp add: fl_minus)
  qed
qed

lemma fl_nonpos: "x \<le> 0 \<Longrightarrow> fl x \<le> 0"
  using fl_mono [of x 0] by simp

lemma fl_idem [simp]: "fl (fl x) = fl x"
proof (cases "x = 0")
  case False
  let ?u = "2 powi (bin_exp x - 52) :: rat" and ?m = "round_half_even (x / 2 powi (bin_exp x - 52))"
  have u2: "2 powi (bin_exp x + 1) = of_int (2 ^ 53) * ?u"
    by (simp add: power_int_diff power_int_add)
  have "\<bar>x\<bar> \<le> of_int (2 ^ 53) * ?u"
    using bin_exp_bounds [OF False] unfolding u2 by linarith
  then have "x / ?u \<le> of_int (2 ^ 53)" "of_int (- (2 ^ 53)) \<le> x / ?u"
    unfolding pos_divide_le_eq [OF powi_2_pos] pos_le_divide_eq [OF powi_2_pos]
    by (simp_all only: of_int_minus abs_le_iff) linarith+
  then have "?m \<le> 2 ^ 53" "- (2 ^ 53) \<le> ?m"
    by (metis round_half_even_mono round_half_even_of_int)+
  then show ?thesis using False by (intro fl_exact [of _ ?m "bin_exp x - 52"]) (simp_all add: fl_def Let_def)
qed simp

subsection \<open>The operations\<close>

definition fi :: "int \<Rightarrow> flt" where
  \<comment> \<open>\<open>float(n)\<close> of an int\<close>
  "fi n = fl (of_int n)"

definition fadd :: "flt \<Rightarrow> flt \<Rightarrow> flt" where
  "fadd a b = fl (a + b)"

definition fsub :: "flt \<Rightarrow> flt \<Rightarrow> flt" where
  "fsub a b = fl (a - b)"

definition fmul :: "flt \<Rightarrow> flt \<Rightarrow> flt" where
  "fmul a b = fl (a * b)"

definition fdiv :: "flt \<Rightarrow> flt \<Rightarrow> flt" where
  \<comment> \<open>true division; also \<open>int / int\<close>, which Python rounds once\<close>
  "fdiv a b = fl (a / b)"

definition ftrunc :: "flt \<Rightarrow> int" where
  \<comment> \<open>\<open>int(x)\<close>: towards zero\<close>
  "ftrunc x = (if 0 \<le> x then \<lfloor>x\<rfloor> else \<lceil>x\<rceil>)"

definition fceil :: "flt \<Rightarrow> int" where
  \<comment> \<open>\<open>math.ceil(x)\<close>\<close>
  "fceil x = \<lceil>x\<rceil>"

text \<open>
  \<open>sum()\<close> over floats. Since Python 3.12 the built-in keeps a compensation term
  (Neumaier's summation) and adds it at the end; a sum of ints is exact.
\<close>

fun neumaier :: "flt \<Rightarrow> flt \<Rightarrow> flt list \<Rightarrow> flt" where
  "neumaier s c [] = (if c = 0 then s else fadd s c)"
| "neumaier s c (x # xs) =
     (let t = fadd s x;
          c' = (if \<bar>x\<bar> \<le> \<bar>s\<bar> then fadd c (fadd (fsub s t) x)
                else fadd c (fadd (fsub x t) s))
      in neumaier t c' xs)"

definition fsum :: "flt list \<Rightarrow> flt" where
  "fsum xs = neumaier 0 0 xs"

lemmas flt_ops = fi_def fadd_def fsub_def fmul_def fdiv_def

lemma fi_0 [simp]: "fi 0 = 0"
  by (simp add: fi_def)

lemma fi_mono: "m \<le> n \<Longrightarrow> fi m \<le> fi n"
  by (simp add: fi_def fl_mono)

lemma fsub_nonneg: "b \<le> a \<Longrightarrow> 0 \<le> fsub a b"
  by (simp add: fsub_def fl_nonneg)

lemma fsub_mono1: "a \<le> a' \<Longrightarrow> fsub a b \<le> fsub a' b"
  by (simp add: fsub_def fl_mono)

lemma fadd_nonneg: "0 \<le> a \<Longrightarrow> 0 \<le> b \<Longrightarrow> 0 \<le> fadd a b"
  by (simp add: fadd_def fl_nonneg)

lemma fmul_nonneg: "0 \<le> a \<Longrightarrow> 0 \<le> b \<Longrightarrow> 0 \<le> fmul a b"
  by (simp add: fmul_def fl_nonneg)

lemma fdiv_nonneg: "0 \<le> a \<Longrightarrow> 0 \<le> b \<Longrightarrow> 0 \<le> fdiv a b"
  by (simp add: fdiv_def fl_nonneg)

lemma fdiv_mono: "0 \<le> c \<Longrightarrow> a \<le> b \<Longrightarrow> fdiv a c \<le> fdiv b c"
  by (simp add: fdiv_def fl_mono divide_right_mono)

text \<open>A sum of integers small enough stays exact under the compensated summation.\<close>

lemma neumaier_ints:
  assumes "\<forall>n \<in> set ns. 0 \<le> n" "0 \<le> m" "m + sum_list ns \<le> 2 ^ 53"
  shows "neumaier (of_int m) 0 (map of_int ns) = of_int (m + sum_list ns)"
  using assms
proof (induction ns arbitrary: m)
  case (Cons n ns)
  have n: "0 \<le> n" using Cons.prems(1) by simp
  have "0 \<le> sum_list ns" using Cons.prems(1) by (intro sum_list_nonneg) simp
  then have le: "m + n \<le> 2 ^ 53" using Cons.prems(3) by simp
  have t: "fadd (of_int m) (of_int n) = of_int (m + n)"
    unfolding fadd_def of_int_add [symmetric] using le n Cons.prems(2) by (intro fl_of_int) simp
  have c: "fsub (of_int m) (of_int (m + n)) = of_int (- n)" "fsub (of_int n) (of_int (m + n)) = of_int (- m)"
    unfolding fsub_def of_int_diff [symmetric] using le n Cons.prems(2)
    by (subst fl_of_int; simp)+
  have z: "fadd 0 (fadd (of_int (- k)) (of_int k)) = 0" for k
    by (simp add: fadd_def)
  show ?case using Cons.IH [of "m + n"] Cons.prems n
    by (simp only: list.map neumaier.simps Let_def t c z if_cancel) (simp add: add.assoc)
qed simp

lemma fsum_Nil [simp]: "fsum [] = 0"
  by (simp add: fsum_def)

lemma fsum_ints:
  "\<forall>n \<in> set ns. 0 \<le> n \<Longrightarrow> sum_list ns \<le> 2 ^ 53 \<Longrightarrow> fsum (map of_int ns) = of_int (sum_list ns)"
  using neumaier_ints [of ns 0] by (simp add: fsum_def)

subsection \<open>Floats with infinities, as sort keys\<close>

datatype xfloat = NegInf | Fin flt | PosInf

instantiation xfloat :: linorder
begin

definition less_eq_xfloat :: "xfloat \<Rightarrow> xfloat \<Rightarrow> bool" where
  "a \<le> b = (case a of NegInf \<Rightarrow> True | PosInf \<Rightarrow> b = PosInf
            | Fin x \<Rightarrow> (case b of NegInf \<Rightarrow> False | PosInf \<Rightarrow> True | Fin y \<Rightarrow> x \<le> y))"

definition less_xfloat :: "xfloat \<Rightarrow> xfloat \<Rightarrow> bool" where
  "(a :: xfloat) < b = (a \<le> b \<and> \<not> b \<le> a)"

instance
  by standard (auto simp: less_eq_xfloat_def less_xfloat_def split: xfloat.splits)

end

fun xneg :: "xfloat \<Rightarrow> xfloat" where
  "xneg NegInf = PosInf"
| "xneg (Fin x) = Fin (- x)"
| "xneg PosInf = NegInf"

lemma xneg_antimono: "xneg a \<le> xneg b \<longleftrightarrow> b \<le> a"
  by (cases a; cases b) (auto simp: less_eq_xfloat_def)

lemma fceil_mono: "a \<le> b \<Longrightarrow> fceil a \<le> fceil b"
  by (simp add: fceil_def ceiling_mono)

end
