(* ===== verification/Py_Base.thy ===== *)
theory Py_Base
  imports Py_Float "HOL-Library.AList" "HOL-Library.Char_ord" "HOL-Library.List_Lexorder"
    "HOL-Library.Product_Lexorder" "HOL-Library.Multiset"
begin

section \<open>Python values shared by all components\<close>

text \<open>
  Exceptions as values, dictionaries with insertion order, stable sorting, string tests and the
  \<open>for attempt in range(n)\<close> loop. Components import this theory, so that their definitions
  are written over the same few operations and their proofs over the same few facts.
\<close>

named_theorems dict_simps \<open>lookup, keys and update of dictionaries\<close>

subsection \<open>Exceptions\<close>

datatype exc = ApiError int | ValueError | AttributeError | KeyError | OtherError

type_synonym 'a res = "exc + 'a"

definition bind_res :: "'a res \<Rightarrow> ('a \<Rightarrow> 'b res) \<Rightarrow> 'b res" where
  "bind_res r f = (case r of Inl e \<Rightarrow> Inl e | Inr x \<Rightarrow> f x)"

lemma bind_res_simps [simp]:
  "bind_res (Inl e) f = Inl e" "bind_res (Inr x) f = f x"
  by (simp_all add: bind_res_def)

lemma bind_res_Inr_iff: "bind_res r f = Inr y \<longleftrightarrow> (\<exists>x. r = Inr x \<and> f x = Inr y)"
  by (cases r) simp_all

subsection \<open>Strings\<close>

definition endswith :: "string \<Rightarrow> string \<Rightarrow> bool" where
  "endswith s suf \<longleftrightarrow> length suf \<le> length s \<and> drop (length s - length suf) s = suf"

definition startswith :: "string \<Rightarrow> string \<Rightarrow> bool" where
  "startswith s pre \<longleftrightarrow> take (length pre) s = pre"

fun contains_str :: "string \<Rightarrow> string \<Rightarrow> bool" where
  \<comment> \<open>\<open>sub in s\<close>\<close>
  "contains_str sub [] = (sub = [])"
| "contains_str sub (c # s) = (startswith (c # s) sub \<or> contains_str sub s)"

definition lower_char :: "char \<Rightarrow> char" where
  "lower_char c = (if 65 \<le> (of_char c :: nat) \<and> (of_char c :: nat) \<le> 90 then char_of ((of_char c :: nat) + 32) else c)"

definition lower :: "string \<Rightarrow> string" where
  "lower s = map lower_char s"

definition drop_end :: "nat \<Rightarrow> 'a list \<Rightarrow> 'a list" where
  \<comment> \<open>\<open>s[:-n]\<close> for \<open>n > 0\<close>\<close>
  "drop_end n s = take (length s - n) s"

lemma endswith_append [simp]: "endswith (s @ suf) suf"
  by (simp add: endswith_def)

lemma drop_end_append [simp]: "drop_end (length suf) (s @ suf) = s"
  by (simp add: drop_end_def)

lemma endswith_drop_end: "endswith s suf \<Longrightarrow> s = drop_end (length suf) s @ suf"
  by (simp add: endswith_def drop_end_def) (metis append_take_drop_id)

subsection \<open>Dictionaries\<close>

text \<open>
  A \<open>dict\<close> keeps its keys in insertion order, and the source iterates over it in that order,
  so it is an association list: \<open>map_of\<close> looks a key up, \<open>AList.update\<close> overwrites in
  place or appends, \<open>AList.delete\<close> removes.
\<close>

type_synonym ('k, 'v) dict = "('k \<times> 'v) list"

definition dget :: "('k, 'v) dict \<Rightarrow> 'k \<Rightarrow> 'v option" where
  "dget d k = map_of d k"

definition dget_or :: "('k, 'v) dict \<Rightarrow> 'k \<Rightarrow> 'v \<Rightarrow> 'v" where
  "dget_or d k v = (case dget d k of None \<Rightarrow> v | Some x \<Rightarrow> x)"

definition dset :: "'k \<Rightarrow> 'v \<Rightarrow> ('k, 'v) dict \<Rightarrow> ('k, 'v) dict" where
  "dset k v d = AList.update k v d"

definition ddel :: "'k \<Rightarrow> ('k, 'v) dict \<Rightarrow> ('k, 'v) dict" where
  "ddel k d = AList.delete k d"

definition dkeys :: "('k, 'v) dict \<Rightarrow> 'k list" where
  "dkeys d = map fst d"

definition dvals :: "('k, 'v) dict \<Rightarrow> 'v list" where
  "dvals d = map snd d"

text \<open>\<open>d[k] = d.get(k, 0) + n\<close> and \<open>d.setdefault(k, []).append(v)\<close>.\<close>

definition dbump :: "'k \<Rightarrow> 'v :: monoid_add \<Rightarrow> ('k, 'v) dict \<Rightarrow> ('k, 'v) dict" where
  "dbump k n d = dset k (dget_or d k 0 + n) d"

definition dappend :: "'k \<Rightarrow> 'v \<Rightarrow> ('k, 'v list) dict \<Rightarrow> ('k, 'v list) dict" where
  "dappend k v d = dset k (dget_or d k [] @ [v]) d"

fun group_by :: "('a \<Rightarrow> 'k) \<Rightarrow> 'a list \<Rightarrow> ('k, 'a list) dict \<Rightarrow> ('k, 'a list) dict" where
  "group_by f [] d = d"
| "group_by f (x # xs) d = group_by f xs (dappend (f x) x d)"

fun count_by :: "('a \<Rightarrow> 'k) \<Rightarrow> ('a \<Rightarrow> 'v :: monoid_add) \<Rightarrow> 'a list \<Rightarrow> ('k, 'v) dict \<Rightarrow> ('k, 'v) dict" where
  "count_by f w [] d = d"
| "count_by f w (x # xs) d = count_by f w xs (dbump (f x) (w x) d)"

text \<open>
  The contract the components rely on: what a lookup returns after a store, where a new key goes,
  and that exactly the keys are bound. Grouping and counting are proved from it once.
\<close>

locale ordered_dict =
  fixes get :: "'d \<Rightarrow> 'k \<Rightarrow> 'v option"
    and put :: "'k \<Rightarrow> 'v \<Rightarrow> 'd \<Rightarrow> 'd"
    and keys :: "'d \<Rightarrow> 'k list"
  assumes get_put: "get (put k v d) j = (if j = k then Some v else get d j)"
    and keys_put: "keys (put k v d) = (if k \<in> set (keys d) then keys d else keys d @ [k])"
    and get_keys: "get d k \<noteq> None \<longleftrightarrow> k \<in> set (keys d)"
begin

lemma get_put_same: "get (put k v d) k = Some v"
  by (simp add: get_put)

lemma get_put_other: "j \<noteq> k \<Longrightarrow> get (put k v d) j = get d j"
  by (simp add: get_put)

lemma set_keys_put: "set (keys (put k v d)) = insert k (set (keys d))"
  by (auto simp: keys_put)

lemma distinct_keys_put: "distinct (keys d) \<Longrightarrow> distinct (keys (put k v d))"
  by (simp add: keys_put)

text \<open>A dictionary updated at \<open>f x\<close> for every \<open>x\<close> of a list, from the value held before.\<close>

lemma get_fold_upd:
  "get (fold (\<lambda>x d. put (f x) (h x (get d (f x))) d) xs d) k =
     fold (\<lambda>x o'. Some (h x o')) (filter (\<lambda>x. f x = k) xs) (get d k)"
  by (induction xs arbitrary: d) (auto simp: get_put)

lemma set_keys_fold_upd:
  "set (keys (fold (\<lambda>x d. put (f x) (h x (get d (f x))) d) xs d)) = set (keys d) \<union> f ` set xs"
  by (induction xs arbitrary: d) (auto simp: set_keys_put)

lemma distinct_keys_fold_upd:
  "distinct (keys d) \<Longrightarrow> distinct (keys (fold (\<lambda>x d. put (f x) (h x (get d (f x))) d) xs d))"
  by (induction xs arbitrary: d) (auto simp: distinct_keys_put)

end

lemma dkeys_dset: "dkeys (dset k v d) = (if k \<in> set (dkeys d) then dkeys d else dkeys d @ [k])"
  unfolding dkeys_def dset_def by (induction d) auto

lemma dset_new: "k \<notin> set (dkeys d) \<Longrightarrow> dset k v d = d @ [(k, v)]"
  unfolding dkeys_def dset_def by (induction d) auto

interpretation pd: ordered_dict dget dset dkeys
proof unfold_locales
  show "dget (dset k v d) j = (if j = k then Some v else dget d j)" for k v d and j :: 'a
    by (simp add: dget_def dset_def update_conv')
  show "dkeys (dset k v d) = (if k \<in> set (dkeys d) then dkeys d else dkeys d @ [k])" for k v and d :: "('a, 'b) dict"
    by (rule dkeys_dset)
  show "dget d k \<noteq> None \<longleftrightarrow> k \<in> set (dkeys d)" for d and k :: 'a
    by (simp add: dget_def dkeys_def map_of_eq_None_iff)
qed

declare pd.get_put [dict_simps] pd.set_keys_put [dict_simps] pd.distinct_keys_put [dict_simps]

lemma dget_Nil [simp]: "dget [] k = None"
  by (simp add: dget_def)

lemma dget_Cons [dict_simps]: "dget ((j, v) # d) k = (if j = k then Some v else dget d k)"
  by (simp add: dget_def)

lemma dget_or_Nil [simp]: "dget_or [] k v = v"
  by (simp add: dget_or_def)

lemma dkeys_Nil [simp]: "dkeys [] = []"
  by (simp add: dkeys_def)

lemma dget_or_dset [dict_simps]: "dget_or (dset k v d) j u = (if j = k then v else dget_or d j u)"
  by (simp add: dget_or_def dict_simps)

lemma dget_dbump [dict_simps]: "dget (dbump k n d) j = (if j = k then Some (dget_or d k 0 + n) else dget d j)"
  by (simp add: dbump_def dict_simps)

lemma dget_or_dbump [dict_simps]: "dget_or (dbump k n d) j 0 = (if j = k then dget_or d k 0 + n else dget_or d j 0)"
  by (simp add: dget_or_def dict_simps)

lemma dget_dappend [dict_simps]: "dget (dappend k v d) j = (if j = k then Some (dget_or d k [] @ [v]) else dget d j)"
  by (simp add: dappend_def dict_simps)

lemma dget_ddel [dict_simps]: "dget (ddel k d) j = (if j = k then None else dget d j)"
  by (simp add: dget_def ddel_def delete_conv')

lemma group_by_fold:
  "group_by f xs d = fold (\<lambda>x d. dset (f x) ((case dget d (f x) of None \<Rightarrow> [] | Some ys \<Rightarrow> ys) @ [x]) d) xs d"
  by (induction xs arbitrary: d) (simp_all add: dappend_def dget_or_def)

lemma count_by_fold:
  "count_by f w xs d = fold (\<lambda>x d. dset (f x) ((case dget d (f x) of None \<Rightarrow> 0 | Some n \<Rightarrow> n) + w x) d) xs d"
  by (induction xs arbitrary: d) (simp_all add: dbump_def dget_or_def)

lemma fold_append_Some:
  "fold (\<lambda>x o'. Some ((case o' of None \<Rightarrow> [] | Some ys \<Rightarrow> ys) @ [x])) xs (Some ys) = Some (ys @ xs)"
  by (induction xs arbitrary: ys) simp_all

lemma dget_group_by:
  "dget (group_by f xs []) k = (if k \<in> f ` set xs then Some (filter (\<lambda>x. f x = k) xs) else None)"
proof -
  have "dget (group_by f xs []) k =
      fold (\<lambda>x o'. Some ((case o' of None \<Rightarrow> [] | Some ys \<Rightarrow> ys) @ [x])) (filter (\<lambda>x. f x = k) xs) None"
    unfolding group_by_fold
    by (simp add: pd.get_fold_upd [where h = "\<lambda>x o'. (case o' of None \<Rightarrow> [] | Some ys \<Rightarrow> ys) @ [x]"])
  also have "\<dots> = (if filter (\<lambda>x. f x = k) xs = [] then None else Some (filter (\<lambda>x. f x = k) xs))"
    by (cases "filter (\<lambda>x. f x = k) xs") (simp_all add: fold_append_Some)
  finally show ?thesis by (auto simp: filter_empty_conv)
qed

lemma set_dkeys_group_by: "set (dkeys (group_by f xs [])) = f ` set xs"
  by (simp add: group_by_fold
      pd.set_keys_fold_upd [where h = "\<lambda>x o'. (case o' of None \<Rightarrow> [] | Some ys \<Rightarrow> ys) @ [x]"])

lemma distinct_dkeys_group_by: "distinct (dkeys (group_by f xs []))"
  by (simp add: group_by_fold
      pd.distinct_keys_fold_upd [where h = "\<lambda>x o'. (case o' of None \<Rightarrow> [] | Some ys \<Rightarrow> ys) @ [x]"])

lemma group_by_entry:
  assumes "(k, ys) \<in> set (group_by f xs [])"
  shows "ys = filter (\<lambda>x. f x = k) xs" "k \<in> f ` set xs"
proof -
  have "dget (group_by f xs []) k = Some ys"
    using assms distinct_dkeys_group_by [of f xs] by (simp add: dget_def dkeys_def)
  then show "ys = filter (\<lambda>x. f x = k) xs" "k \<in> f ` set xs"
    by (auto simp: dget_group_by split: if_splits)
qed

lemma dget_or_count_by:
  fixes w :: "'a \<Rightarrow> 'v :: monoid_add"
  shows "dget_or (count_by f w xs d) k 0 = dget_or d k 0 + sum_list (map w (filter (\<lambda>x. f x = k) xs))"
  by (induction xs arbitrary: d) (auto simp: dict_simps add.assoc)

subsection \<open>Sorting\<close>

text \<open>
  \<open>sorted(xs, key=f)\<close> is stable, as \<open>sort_key\<close> is; with \<open>reverse=True\<close> equal
  elements keep their order too.
\<close>

definition sorted_by :: "('a \<Rightarrow> 'b :: linorder) \<Rightarrow> 'a list \<Rightarrow> 'a list" where
  "sorted_by f xs = sort_key f xs"

definition sorted_by_desc :: "('a \<Rightarrow> 'b :: linorder) \<Rightarrow> 'a list \<Rightarrow> 'a list" where
  "sorted_by_desc f xs = rev (sort_key f (rev xs))"

lemma mset_sorted_by [simp]: "mset (sorted_by f xs) = mset xs"
  by (simp add: sorted_by_def)

lemma mset_sorted_by_desc [simp]: "mset (sorted_by_desc f xs) = mset xs"
  by (simp add: sorted_by_desc_def)

lemma set_sorted_by [simp]: "set (sorted_by f xs) = set xs"
  by (simp add: sorted_by_def)

lemma set_sorted_by_desc [simp]: "set (sorted_by_desc f xs) = set xs"
  by (simp add: sorted_by_desc_def)

lemma length_sorted_by [simp]: "length (sorted_by f xs) = length xs"
  by (simp add: sorted_by_def)

lemma length_sorted_by_desc [simp]: "length (sorted_by_desc f xs) = length xs"
  by (simp add: sorted_by_desc_def)

lemma distinct_map_sorted_by [simp]: "distinct (map g (sorted_by f xs)) = distinct (map g xs)"
  by (metis mset_eq_imp_distinct_iff mset_map mset_sorted_by)

lemma sorted_sorted_by [simp]: "sorted (map f (sorted_by f xs))"
  by (simp add: sorted_by_def)

lemma sorted_sorted_by_desc: "sorted_wrt (\<ge>) (map f (sorted_by_desc f xs))"
  by (simp add: sorted_by_desc_def rev_map [symmetric] sorted_wrt_rev)

text \<open>The iteration order of a \<open>sorted(set)\<close> of strings.\<close>

definition sorted_set :: "string set \<Rightarrow> string list" where
  "sorted_set A = sorted_list_of_set A"

subsection \<open>Bounded retries\<close>

text \<open>
  \<open>for attempt in range(n): body\<close>, where the body may \<open>continue\<close>, return or raise. A loop
  that runs out of attempts falls through (\<open>Again\<close>).
\<close>

datatype 'a attempt = Again | Return 'a | Raise exc

fun for_attempts :: "(nat \<Rightarrow> 's \<Rightarrow> 'a attempt \<times> 's) \<Rightarrow> nat list \<Rightarrow> 's \<Rightarrow> 'a attempt \<times> 's" where
  "for_attempts body [] s = (Again, s)"
| "for_attempts body (i # is) s =
     (case body i s of
        (Again, s') \<Rightarrow> for_attempts body is s'
      | (r, s') \<Rightarrow> (r, s'))"

lemma for_attempts_result:
  assumes "\<And>i s. i \<in> set is \<Longrightarrow> fst (body i s) \<noteq> Again \<Longrightarrow> Q (fst (body i s)) (snd (body i s))"
    and "fst (for_attempts body is s) \<noteq> Again"
  shows "Q (fst (for_attempts body is s)) (snd (for_attempts body is s))"
  using assms
proof (induction "is" arbitrary: s)
  case (Cons i "is")
  show ?case
  proof (cases "fst (body i s) = Again")
    case True
    then have e: "for_attempts body (i # is) s = for_attempts body is (snd (body i s))" by (cases "body i s") simp
    show ?thesis unfolding e by (rule Cons.IH) (use Cons.prems e in auto)
  next
    case False
    then have "for_attempts body (i # is) s = body i s" by (cases "body i s") (auto split: attempt.split)
    then show ?thesis using Cons.prems(1) [of i s] False by simp
  qed
qed simp

text \<open>
  The contract of a loop body: it spends at most \<open>k\<close> units and keeps an invariant. The loop
  then spends at most \<open>k\<close> times the number of attempts, and if every body that is the last one
  decides, so does the loop.
\<close>

locale attempt_body =
  fixes body :: "nat \<Rightarrow> 's \<Rightarrow> 'a attempt \<times> 's"
    and cost :: "'s \<Rightarrow> nat"
    and k :: nat
    and inv :: "'s \<Rightarrow> bool"
  assumes cost_body: "cost (snd (body i s)) \<le> cost s + k"
    and inv_body: "inv s \<Longrightarrow> inv (snd (body i s))"
begin

lemma cost_loop: "cost (snd (for_attempts body is s)) \<le> cost s + k * length is"
proof (induction "is" arbitrary: s)
  case (Cons i "is")
  have "cost (snd (body i s)) \<le> cost s + k" by (rule cost_body)
  moreover have "cost (snd (for_attempts body is (snd (body i s)))) \<le> cost (snd (body i s)) + k * length is"
    by (rule Cons.IH)
  ultimately show ?case by (auto split: prod.splits attempt.splits)
qed simp

lemma inv_loop: "inv s \<Longrightarrow> inv (snd (for_attempts body is s))"
proof (induction "is" arbitrary: s)
  case (Cons i "is")
  then have "inv (snd (body i s))" by (simp add: inv_body)
  then show ?case using Cons.IH [of "snd (body i s)"] by (auto split: prod.splits attempt.splits)
qed simp

lemma decided_loop:
  assumes "is \<noteq> []" "\<And>s. fst (body (last is) s) \<noteq> Again"
  shows "fst (for_attempts body is s) \<noteq> Again"
  using assms
proof (induction "is" arbitrary: s)
  case (Cons i "is")
  show ?case
  proof (cases "is = []")
    case True
    then show ?thesis using Cons.prems(2) [of s] by (auto split: prod.splits attempt.splits)
  next
    case False
    then show ?thesis using Cons.IH Cons.prems(2) by (auto split: prod.splits attempt.splits)
  qed
qed simp

end

subsection \<open>Lists\<close>

lemma sum_list_filter_split:
  fixes f :: "'a \<Rightarrow> 'b :: comm_monoid_add"
  shows "sum_list (map f (filter P xs)) + sum_list (map f (filter (\<lambda>x. \<not> P x) xs)) = sum_list (map f xs)"
  by (induction xs) (auto simp: algebra_simps)

lemma distinct_map_filter_eq:
  "distinct (map f xs) \<Longrightarrow> x \<in> set xs \<Longrightarrow> y \<in> set xs \<Longrightarrow> f x = f y \<Longrightarrow> x = y"
  by (auto simp: distinct_map dest: inj_onD)

lemma card_names_filter:
  "distinct (map f xs) \<Longrightarrow> card (f ` {x \<in> set xs. P x}) = length (filter P xs)"
  by (metis distinct_card distinct_map_filter length_map list.set_map set_filter)

text \<open>Folds whose steps keep an invariant; the second needs the keys of the elements to be distinct.\<close>

lemma fold_inv: "I s \<Longrightarrow> (\<And>x s. x \<in> set xs \<Longrightarrow> I s \<Longrightarrow> I (g x s)) \<Longrightarrow> I (fold g xs s)"
  by (induction xs arbitrary: s) auto

lemma fold_fresh_inv:
  assumes "distinct (map f xs)" "I s" "\<forall>x \<in> set xs. f x \<notin> T s"
    and "\<And>x s. x \<in> set xs \<Longrightarrow> f x \<notin> T s \<Longrightarrow> I s \<Longrightarrow> I (g x s) \<and> T (g x s) \<subseteq> insert (f x) (T s)"
  shows "I (fold g xs s)"
  using assms
proof (induction xs arbitrary: s)
  case (Cons x xs)
  have gx: "I (g x s)" "T (g x s) \<subseteq> insert (f x) (T s)" using Cons.prems(2,3) Cons.prems(4) [of x s] by auto
  have "I (fold g xs (g x s))"
  proof (rule Cons.IH)
    have "f y \<noteq> f x" if "y \<in> set xs" for y using Cons.prems(1) that by (auto simp: image_iff)
    then show "\<forall>y \<in> set xs. f y \<notin> T (g x s)" using gx(2) Cons.prems(3) by auto
  qed (use Cons.prems gx in auto)
  then show ?case by simp
qed simp

lemma length_filter_mono:
  "(\<And>x. x \<in> set xs \<Longrightarrow> P x \<Longrightarrow> Q x) \<Longrightarrow> length (filter P xs) \<le> length (filter Q xs)"
proof (induction xs)
  case (Cons x xs)
  then show ?case using Cons.prems [of x] by auto
qed simp

lemma length_filter_add1:
  assumes "distinct (map f xs)" "x \<in> set xs" "\<not> P x" "Q x" "\<And>y. y \<in> set xs \<Longrightarrow> P y \<Longrightarrow> Q y"
  shows "Suc (length (filter P xs)) \<le> length (filter Q xs)"
  using assms
proof (induction xs)
  case (Cons y xs)
  have mono: "length (filter P xs) \<le> length (filter Q xs)"
    using Cons.prems(5) by (intro length_filter_mono) simp
  show ?case
  proof (cases "x = y")
    case True then show ?thesis using Cons.prems mono by auto
  next
    case False
    then have "Suc (length (filter P xs)) \<le> length (filter Q xs)" using Cons by auto
    then show ?thesis using Cons.prems(5) [of y] by auto
  qed
qed simp

lemma sorted_wrt_distinct_keys:
  "distinct (map fst gs) \<Longrightarrow> (\<And>g a h b. (g, a) \<in> set gs \<Longrightarrow> (h, b) \<in> set gs \<Longrightarrow> g \<noteq> h \<Longrightarrow> R (g, a) (h, b))
     \<Longrightarrow> sorted_wrt R gs"
proof (induction gs)
  case (Cons x gs)
  obtain g a where x: "x = (g, a)" by (cases x)
  have "sorted_wrt R gs" using Cons by auto
  moreover have "R x y" if "y \<in> set gs" for y
  proof (cases y)
    case (Pair h b)
    have "h \<noteq> g" using Cons.prems(1) that Pair x by (auto simp: image_iff)
    then show ?thesis using Cons.prems(2) [of g a h b] that Pair x by auto
  qed
  ultimately show ?case by simp
qed simp

end
