(* ===== verification/Py_Text.thy ===== *)
theory Py_Text
  imports Py_Base
begin

section \<open>Numbers as text\<close>

text \<open>
  \<open>int(s)\<close> and \<open>float(s)\<close> of a string, as the environment variables and the Kubernetes
  quantities are read, and \<open>str(n)\<close> of a natural number. \<open>None\<close> is the
  \<open>ValueError\<close>. Strings are ASCII. The literals \<open>inf\<close> and \<open>nan\<close>, which
  \<open>float\<close> accepts and a Kubernetes quantity never is, count as errors here.
\<close>

definition is_space :: "char \<Rightarrow> bool" where
  "is_space c = (let n = (of_char c :: nat) in n = 32 \<or> (9 \<le> n \<and> n \<le> 13) \<or> (28 \<le> n \<and> n \<le> 31))"

definition is_digit :: "char \<Rightarrow> bool" where
  "is_digit c = (let n = (of_char c :: nat) in 48 \<le> n \<and> n \<le> 57)"

definition digit_val :: "char \<Rightarrow> int" where
  "digit_val c = int (of_char c) - 48"

definition strip :: "string \<Rightarrow> string" where
  "strip s = rev (dropWhile is_space (rev (dropWhile is_space s)))"

text \<open>Digits, with single underscores allowed between two of them.\<close>

fun digits_us :: "string \<Rightarrow> int list option" where
  "digits_us [] = None"
| "digits_us [c] = (if is_digit c then Some [digit_val c] else None)"
| "digits_us (c # d # s) =
     (if \<not> is_digit c then None
      else map_option ((#) (digit_val c)) (if d = CHR ''_'' then digits_us s else digits_us (d # s)))"

definition digits_value :: "int list \<Rightarrow> int" where
  "digits_value ds = foldl (\<lambda>a d. 10 * a + d) 0 ds"

fun split_sign :: "string \<Rightarrow> int \<times> string" where
  "split_sign (CHR ''-'' # s) = (-1, s)"
| "split_sign (CHR ''+'' # s) = (1, s)"
| "split_sign s = (1, s)"

definition signed_int :: "string \<Rightarrow> int option" where
  "signed_int s = (let (sg, u) = split_sign s in map_option (\<lambda>ds. sg * digits_value ds) (digits_us u))"

definition py_int :: "string \<Rightarrow> int option" where
  "py_int s = signed_int (strip s)"

text \<open>Split at the first character that satisfies \<open>p\<close>, without it.\<close>

definition split_at :: "(char \<Rightarrow> bool) \<Rightarrow> string \<Rightarrow> string \<times> string option" where
  "split_at p s = (takeWhile (\<lambda>c. \<not> p c) s,
     (case dropWhile (\<lambda>c. \<not> p c) s of [] \<Rightarrow> None | _ # r \<Rightarrow> Some r))"

definition mantissa :: "string \<Rightarrow> (int \<times> nat) option" where
  \<comment> \<open>the digits as an integer, and how many of them follow the point\<close>
  "mantissa s =
     (case split_at (\<lambda>c. c = CHR ''.'') s of
        (ip, None) \<Rightarrow> map_option (\<lambda>ds. (digits_value ds, 0)) (digits_us ip)
      | (ip, Some fp) \<Rightarrow>
          (if ip = [] \<and> fp = [] then None
           else case (if ip = [] then Some [] else digits_us ip) of
                  None \<Rightarrow> None
                | Some a \<Rightarrow>
                    (case (if fp = [] then Some [] else digits_us fp) of
                       None \<Rightarrow> None
                     | Some b \<Rightarrow> Some (digits_value (a @ b), length b))))"

definition py_float :: "string \<Rightarrow> flt option" where
  "py_float s =
     (let (sg, u) = split_sign (strip s); (m, ex) = split_at (\<lambda>c. c = CHR ''e'' \<or> c = CHR ''E'') u in
      case mantissa m of
        None \<Rightarrow> None
      | Some (v, k) \<Rightarrow>
          (case (case ex of None \<Rightarrow> Some 0 | Some x \<Rightarrow> signed_int x) of
             None \<Rightarrow> None
           | Some e \<Rightarrow> Some (fl (of_int (sg * v) * 10 powi (e - int k)))))"

text \<open>\<open>str(n)\<close> for \<open>n \<ge> 0\<close>.\<close>

fun str_nat :: "nat \<Rightarrow> string" where
  "str_nat n = (if n < 10 then [char_of (n + 48)] else str_nat (n div 10) @ [char_of (n mod 10 + 48)])"

declare str_nat.simps [simp del]

definition str_int :: "int \<Rightarrow> string" where
  "str_int n = (if n < 0 then CHR ''-'' # str_nat (nat (- n)) else str_nat (nat n))"

subsection \<open>Reading back what \<open>str\<close> prints\<close>

lemma of_char_digit: "n < 10 \<Longrightarrow> (of_char (char_of (n + 48 :: nat) :: char) :: nat) = n + 48"
  by (simp add: of_char_of)

lemma is_digit_char_of: "n < 10 \<Longrightarrow> is_digit (char_of (n + 48 :: nat))"
  by (simp add: is_digit_def of_char_digit)

lemma digit_val_char_of: "n < 10 \<Longrightarrow> digit_val (char_of (n + 48 :: nat)) = int n"
  by (simp add: digit_val_def of_char_digit)

lemma is_digit_not: 
  "is_digit c \<Longrightarrow> \<not> is_space c" "is_digit c \<Longrightarrow> c \<noteq> CHR ''_''" "is_digit c \<Longrightarrow> c \<noteq> CHR ''-''"
  "is_digit c \<Longrightarrow> c \<noteq> CHR ''+''" "is_digit c \<Longrightarrow> c \<noteq> CHR ''.''" "is_digit c \<Longrightarrow> c \<noteq> CHR ''e''" "is_digit c \<Longrightarrow> c \<noteq> CHR ''E''"
  by (auto simp: is_digit_def is_space_def Let_def)

lemma digits_us_digits: "s \<noteq> [] \<Longrightarrow> \<forall>c \<in> set s. is_digit c \<Longrightarrow> digits_us s = Some (map digit_val s)"
  by (induction s rule: digits_us.induct) (auto dest: is_digit_not(2))

lemma digits_value_snoc: "digits_value (ds @ [d]) = 10 * digits_value ds + d"
  by (simp add: digits_value_def)

lemma str_nat_digits: "str_nat n \<noteq> [] \<and> (\<forall>c \<in> set (str_nat n). is_digit c)"
proof (induction n rule: str_nat.induct)
  case (1 n)
  then show ?case by (cases "n < 10") (auto simp: str_nat.simps [of n] is_digit_char_of)
qed

lemma digits_value_str_nat: "digits_value (map digit_val (str_nat n)) = int n"
proof (induction n rule: str_nat.induct)
  case (1 n)
  show ?case
  proof (cases "n < 10")
    case True
    then show ?thesis by (simp add: str_nat.simps [of n] digit_val_char_of digits_value_def)
  next
    case False
    have "int n = 10 * int (n div 10) + int (n mod 10)"
      using mult_div_mod_eq [of 10 n] by (metis of_nat_add of_nat_mult of_nat_numeral)
    with False "1" show ?thesis
      by (simp add: str_nat.simps [of n] digits_value_snoc digit_val_char_of)
  qed
qed

lemma strip_no_space: "s \<noteq> [] \<Longrightarrow> \<not> is_space (hd s) \<Longrightarrow> \<not> is_space (last s) \<Longrightarrow> strip s = s"
  by (simp add: strip_def dropWhile_eq_self_iff [THEN iffD2] hd_rev)

lemma split_sign_digit: "s \<noteq> [] \<Longrightarrow> is_digit (hd s) \<Longrightarrow> split_sign s = (1, s)"
  by (cases s rule: split_sign.cases) (auto dest: is_digit_not)

lemma split_at_none: "\<forall>c \<in> set s. \<not> p c \<Longrightarrow> split_at p s = (s, None)"
  by (simp add: split_at_def takeWhile_eq_all_conv [THEN iffD2] dropWhile_eq_Nil_conv [THEN iffD2])

lemma str_nat_hd_last: "is_digit (hd (str_nat n))" "is_digit (last (str_nat n))" "str_nat n \<noteq> []"
  using str_nat_digits [of n] by auto

lemma strip_str_nat [simp]: "strip (str_nat n) = str_nat n"
  using str_nat_hd_last [of n] by (intro strip_no_space) (auto dest: is_digit_not)

theorem py_int_str_nat: "py_int (str_nat n) = Some (int n)"
  using str_nat_digits [of n] str_nat_hd_last [of n]
  by (simp add: py_int_def signed_int_def split_sign_digit digits_us_digits digits_value_str_nat)

theorem py_float_str_nat: "py_float (str_nat n) = Some (fi (int n))"
proof -
  have e: "split_at (\<lambda>c. c = CHR ''e'' \<or> c = CHR ''E'') (str_nat n) = (str_nat n, None)"
    using str_nat_digits [of n] by (intro split_at_none) (auto dest: is_digit_not)
  have d: "split_at (\<lambda>c. c = CHR ''.'') (str_nat n) = (str_nat n, None)"
    using str_nat_digits [of n] by (intro split_at_none) (auto dest: is_digit_not)
  show ?thesis
    using str_nat_digits [of n] str_nat_hd_last [of n]
    by (simp add: py_float_def mantissa_def split_sign_digit e d digits_us_digits digits_value_str_nat fi_def)
qed

lemma str_nat_snoc_last:
  assumes "str_nat n = s @ t" "t \<noteq> []" shows "is_digit (last t)"
  using assms str_nat_hd_last(2) [of n] by simp

section \<open>Splitting and joining\<close>

fun split_on :: "char \<Rightarrow> string \<Rightarrow> string list" where
  \<comment> \<open>\<open>s.split(c)\<close>\<close>
  "split_on c [] = [[]]"
| "split_on c (x # xs) =
     (if x = c then [] # split_on c xs
      else case split_on c xs of [] \<Rightarrow> [[x]] | p # ps \<Rightarrow> (x # p) # ps)"

fun join_on :: "char \<Rightarrow> string list \<Rightarrow> string" where
  \<comment> \<open>\<open>c.join(parts)\<close>\<close>
  "join_on c [] = []"
| "join_on c [p] = p"
| "join_on c (p # q # ps) = p @ c # join_on c (q # ps)"

lemma split_on_ne [simp]: "split_on c s \<noteq> []"
  by (induction s) (auto split: list.splits)

lemma join_split [simp]: "join_on c (split_on c s) = s"
proof (induction s)
  case (Cons x s)
  obtain p ps where s: "split_on c s = p # ps" by (cases "split_on c s") auto
  with Cons.IH show ?case by (cases ps) auto
qed simp

lemma split_on_plain: "c \<notin> set s \<Longrightarrow> split_on c s = [s]"
  by (induction s) auto

lemma split_on_append:
  "c \<notin> set v \<Longrightarrow> split_on c (u @ v) = butlast (split_on c u) @ [last (split_on c u) @ v]"
proof (induction u)
  case (Cons x u)
  obtain p ps where "split_on c u = p # ps" by (cases "split_on c u") auto
  with Cons show ?case by (cases ps) auto
qed (simp add: split_on_plain)

lemma set_last_split: "set (last (split_on c s)) \<subseteq> set s"
proof (induction s)
  case (Cons x s)
  obtain p ps where "split_on c s = p # ps" by (cases "split_on c s") auto
  with Cons show ?case by (cases ps) auto
qed simp

lemma split_on_Cons: "split_on c (p @ c # s) = butlast (split_on c p) @ last (split_on c p) # split_on c s"
proof (induction p)
  case (Cons x p)
  obtain q qs where "split_on c p = q # qs" by (cases "split_on c p") auto
  with Cons show ?case by (cases qs) auto
qed simp

lemma split_join: "ps \<noteq> [] \<Longrightarrow> \<forall>p \<in> set ps. c \<notin> set p \<Longrightarrow> split_on c (join_on c ps) = ps"
  by (induction c ps rule: join_on.induct) (auto simp: split_on_plain split_on_Cons)

end
