(* ===== verification/Kube.thy ===== *)
theory Kube
  imports Py_Text
begin

section \<open>Kubernetes objects and the API server\<close>

text \<open>
  The objects the controllers read through the lightkube client, with the fields the source
  reads, and the API server itself. An absent string and the empty string are both falsy and the
  source always tests truth (\<open>x or ""\<close>), so both are \<open>[]\<close>; an absent list or map is
  the empty one for the same reason. A requests map is given by the three entries that are read; the
  \<open>nvidia.com/gpu\<close> entry is an integer, as the server validates extended resources.
  Timestamps are microseconds since the epoch, in UTC.

  The server, the clock and the other writers of the cluster are not code of the repository: they
  are an environment \<open>env\<close>, which answers every call with a result or an exception that
  may depend on the whole history of calls. An operation appends its call, with the answer, to the
  trace. A theorem about the calls of a controller therefore holds for every behaviour of the
  server and of concurrent writers.
\<close>

record Taint =
  taint_key :: string
  taint_value :: string
  taint_effect :: string

record Toleration =
  tol_key :: string
  tol_operator :: string
  tol_value :: string
  tol_effect :: string

record MatchExpr =
  expr_key :: string
  expr_operator :: string
  expr_values :: "string list"

record ObjectMeta =
  meta_name :: string
  meta_namespace :: string
  resource_version :: string
  meta_labels :: "(string, string) dict"
  meta_annotations :: "(string, string) dict"
  owner_kinds :: "string list"
  creation_ts :: "int option"
  deletion_ts :: "int option"

record Container =
  req_cpu :: "string option"
  req_memory :: "string option"
  req_gpu :: "int option"

record Condition =
  cond_type :: string
  cond_status :: string
  cond_reason :: string
  cond_message :: string

record PodSpec =
  spec_node_name :: string
  containers :: "Container list"
  tolerations :: "Toleration list"
  node_selector :: "(string, string) dict"
  affinity_terms :: "MatchExpr list list"
  scheduling_gates :: "string list"

record PodStatus =
  phase :: string
  status_start_time :: "int option"
  conditions :: "Condition list"

record Pod =
  pod_meta :: "ObjectMeta option"
  pod_spec :: "PodSpec option"
  pod_status :: "PodStatus option"

record Node =
  node_meta :: "ObjectMeta option"
  spec_taints :: "Taint list"
  status_cpu :: "string option"
  status_memory :: "string option"
  status_gpu :: "int option"

text \<open>\<open>(x.metadata and x.metadata.labels) or {}\<close>, and the same for annotations.\<close>

definition labels_of :: "ObjectMeta option \<Rightarrow> (string, string) dict" where
  "labels_of m = (case m of None \<Rightarrow> [] | Some x \<Rightarrow> meta_labels x)"

definition annotations_of :: "ObjectMeta option \<Rightarrow> (string, string) dict" where
  "annotations_of m = (case m of None \<Rightarrow> [] | Some x \<Rightarrow> meta_annotations x)"

definition name_of :: "ObjectMeta option \<Rightarrow> string res" where
  \<comment> \<open>\<open>x.metadata.name\<close>: raises when there is no metadata\<close>
  "name_of m = (case m of None \<Rightarrow> Inl AttributeError | Some x \<Rightarrow> Inr (meta_name x))"

definition pod_phase :: "Pod \<Rightarrow> string" where
  "pod_phase pod = (case pod_status pod of None \<Rightarrow> [] | Some s \<Rightarrow> phase s)"

subsection \<open>Patches\<close>

text \<open>
  The three kinds of patch the controllers send to a node. A JSON patch is a list of operations;
  a merge patch carries the resource version it is conditional on, annotations (\<open>None\<close>
  deletes the key) and the taint list that replaces the current one (\<open>Some None\<close> is
  \<open>null\<close>); a strategic patch adds annotations.
\<close>

datatype json_op = TestResourceVersion string | AppendTaint Taint | CreateTaints "Taint list"

record merge_body =
  mb_resource_version :: "string option"
  mb_annotations :: "(string \<times> string option) list"
  mb_taints :: "Taint list option option"

datatype patch = JsonPatch "json_op list" | MergePatch merge_body | StrategicPatch merge_body

subsection \<open>Calls and the trace\<close>

datatype event =
    EvGetNode string "Node res"
  | EvPatchNode string patch "unit res"
  | EvListNodes "Node list res"
  | EvListPools "ObjectMeta option list res"
  | EvListNamespaces "ObjectMeta option list res"
  | EvListPods "Pod list res"
  | EvSleep nat
  | EvTime flt
  | EvUtcNow int
  | EvGauge string "(string list \<times> flt) list"
  | EvSet string flt
  | EvInc string "string list" int
  | EvTouch string
  | EvNewClient

type_synonym trace = "event list" \<comment> \<open>newest first\<close>

record env =
  get_node_r :: "trace \<Rightarrow> string \<Rightarrow> Node res"
  patch_node_r :: "trace \<Rightarrow> string \<Rightarrow> patch \<Rightarrow> unit res"
  list_nodes_r :: "trace \<Rightarrow> Node list res"
  list_pools_r :: "trace \<Rightarrow> ObjectMeta option list res"
  list_namespaces_r :: "trace \<Rightarrow> ObjectMeta option list res"
  list_pods_r :: "trace \<Rightarrow> Pod list res"
  time_r :: "trace \<Rightarrow> flt"
  utcnow_r :: "trace \<Rightarrow> int"
  monotonic_r :: "trace \<Rightarrow> string option \<Rightarrow> flt" \<comment> \<open>the reading for a group, or before the first\<close>

definition get_node :: "env \<Rightarrow> string \<Rightarrow> trace \<Rightarrow> Node res \<times> trace" where
  "get_node E n tr = (get_node_r E tr n, EvGetNode n (get_node_r E tr n) # tr)"

definition patch_node :: "env \<Rightarrow> string \<Rightarrow> patch \<Rightarrow> trace \<Rightarrow> unit res \<times> trace" where
  "patch_node E n p tr = (patch_node_r E tr n p, EvPatchNode n p (patch_node_r E tr n p) # tr)"

definition list_nodes :: "env \<Rightarrow> trace \<Rightarrow> Node list res \<times> trace" where
  "list_nodes E tr = (list_nodes_r E tr, EvListNodes (list_nodes_r E tr) # tr)"

definition list_pools :: "env \<Rightarrow> trace \<Rightarrow> ObjectMeta option list res \<times> trace" where
  "list_pools E tr = (list_pools_r E tr, EvListPools (list_pools_r E tr) # tr)"

definition list_namespaces :: "env \<Rightarrow> trace \<Rightarrow> ObjectMeta option list res \<times> trace" where
  "list_namespaces E tr = (list_namespaces_r E tr, EvListNamespaces (list_namespaces_r E tr) # tr)"

definition list_pods :: "env \<Rightarrow> trace \<Rightarrow> Pod list res \<times> trace" where
  "list_pods E tr = (list_pods_r E tr, EvListPods (list_pods_r E tr) # tr)"

definition read_time :: "env \<Rightarrow> trace \<Rightarrow> flt \<times> trace" where
  "read_time E tr = (time_r E tr, EvTime (time_r E tr) # tr)"

definition utc_now :: "env \<Rightarrow> trace \<Rightarrow> int \<times> trace" where
  "utc_now E tr = (utcnow_r E tr, EvUtcNow (utcnow_r E tr) # tr)"

definition emit :: "event \<Rightarrow> trace \<Rightarrow> trace" where
  "emit e tr = e # tr"

lemmas api_defs = get_node_def patch_node_def list_nodes_def list_pools_def list_namespaces_def
  list_pods_def read_time_def utc_now_def emit_def

text \<open>The patches of a trace, and the calls among its events.\<close>

fun patches :: "trace \<Rightarrow> (string \<times> patch) list" where
  "patches [] = []"
| "patches (EvPatchNode n p r # tr) = (n, p) # patches tr"
| "patches (_ # tr) = patches tr"

fun is_api_call :: "event \<Rightarrow> bool" where
  "is_api_call (EvGetNode _ _) = True"
| "is_api_call (EvPatchNode _ _ _) = True"
| "is_api_call (EvListNodes _) = True"
| "is_api_call (EvListPools _) = True"
| "is_api_call (EvListNamespaces _) = True"
| "is_api_call (EvListPods _) = True"
| "is_api_call _ = False"

definition api_calls :: "trace \<Rightarrow> nat" where
  "api_calls tr = length (filter is_api_call tr)"

lemma api_calls_simps [simp]:
  "api_calls [] = 0"
  "api_calls (e # tr) = (if is_api_call e then Suc (api_calls tr) else api_calls tr)"
  by (simp_all add: api_calls_def)

text \<open>
  A trace is justified when every patch comes right after the read of the same node on which it is
  based; \<open>P name node p\<close> says what the patch must be for the node that was read.
\<close>

fun based_on :: "(string \<Rightarrow> Node \<Rightarrow> patch \<Rightarrow> bool) \<Rightarrow> string \<Rightarrow> patch \<Rightarrow> trace \<Rightarrow> bool" where
  "based_on P name p (EvGetNode n (Inr node) # tr) = (n = name \<and> P name node p)"
| "based_on P name p tr = False"

fun each_patch :: "(string \<Rightarrow> patch \<Rightarrow> trace \<Rightarrow> bool) \<Rightarrow> trace \<Rightarrow> bool" where
  \<comment> \<open>every patch of the trace satisfies \<open>Q\<close> with the trace that came before it\<close>
  "each_patch Q [] = True"
| "each_patch Q (EvPatchNode n p r # tr) = (Q n p tr \<and> each_patch Q tr)"
| "each_patch Q (e # tr) = each_patch Q tr"

abbreviation justified :: "(string \<Rightarrow> Node \<Rightarrow> patch \<Rightarrow> bool) \<Rightarrow> trace \<Rightarrow> bool" where
  "justified P \<equiv> each_patch (based_on P)"

definition adds :: "('e list \<Rightarrow> bool) \<Rightarrow> 'e list \<Rightarrow> 'e list \<Rightarrow> bool" where
  \<comment> \<open>the second trace is the first with new events on top, and the new events satisfy \<open>Q\<close>\<close>
  "adds Q tr tr' \<longleftrightarrow> (\<exists>es. tr' = es @ tr \<and> Q es)"

definition stable :: "(string \<Rightarrow> patch \<Rightarrow> trace \<Rightarrow> bool) \<Rightarrow> bool" where
  \<comment> \<open>the condition on a patch looks at the events after some point only\<close>
  "stable Q \<longleftrightarrow> (\<forall>n p es tr. Q n p es \<longrightarrow> Q n p (es @ tr))"

lemma stable_based_on: "stable (based_on P)"
  unfolding stable_def
proof (intro allI impI)
  fix n p es tr assume "based_on P n p es"
  then show "based_on P n p (es @ tr)" by (auto elim!: based_on.elims)
qed

lemma stable_const: "stable (\<lambda>n p tr. C n p)"
  by (simp add: stable_def)

lemma stable_or: "stable Q \<Longrightarrow> stable R \<Longrightarrow> stable (\<lambda>n p tr. Q n p tr \<or> R n p tr)"
  by (auto simp: stable_def)

lemma stable_and: "stable Q \<Longrightarrow> stable R \<Longrightarrow> stable (\<lambda>n p tr. Q n p tr \<and> R n p tr)"
  by (auto simp: stable_def)

lemmas stable_intros = stable_based_on stable_const stable_or stable_and

lemma each_patch_append: "stable Q \<Longrightarrow> each_patch Q es \<Longrightarrow> each_patch Q fs \<Longrightarrow> each_patch Q (es @ fs)"
  by (induction Q es rule: each_patch.induct) (auto simp: stable_def)

lemma each_patch_mono: "each_patch Q es \<Longrightarrow> (\<And>n p tr. Q n p tr \<Longrightarrow> R n p tr) \<Longrightarrow> each_patch R es"
  by (induction Q es rule: each_patch.induct) auto

lemma based_on_mono: "based_on P n p tr \<Longrightarrow> (\<And>m node q. P m node q \<Longrightarrow> Q m node q) \<Longrightarrow> based_on Q n p tr"
  by (auto elim!: based_on.elims)

lemma adds_refl: "Q [] \<Longrightarrow> adds Q tr tr"
  by (simp add: adds_def)

lemma adds_event: "Q [e] \<Longrightarrow> adds Q tr (e # tr)"
  by (simp add: adds_def)

lemma adds_trans:
  assumes "stable Q" "adds (each_patch Q) a b" "adds (each_patch Q) b c" shows "adds (each_patch Q) a c"
  using assms unfolding adds_def by (metis append.assoc each_patch_append)

lemma adds_mono:
  "adds (each_patch Q) a b \<Longrightarrow> (\<And>n p tr. Q n p tr \<Longrightarrow> R n p tr) \<Longrightarrow> adds (each_patch R) a b"
  unfolding adds_def using each_patch_mono by blast

lemma justified_adds_mono:
  "adds (justified P) a b \<Longrightarrow> (\<And>n node p. P n node p \<Longrightarrow> Q n node p) \<Longrightarrow> adds (justified Q) a b"
  by (erule adds_mono, erule based_on_mono)

lemma adds_emit: "\<not> (\<exists>n p r. e = EvPatchNode n p r) \<Longrightarrow> adds (each_patch Q) tr (e # tr)"
  by (cases e) (auto simp: adds_def)

lemma each_patch_patches:
  "each_patch (\<lambda>n p tr. C n p) es \<longleftrightarrow> (\<forall>(n, p) \<in> set (patches es). C n p)"
  by (induction es rule: patches.induct) auto

text \<open>
  The same for the traces of the other programs, whose events differ: \<open>k\<close> picks the calls of interest
  and \<open>Q\<close> is what each of them must satisfy with the events before it.
\<close>

fun each_call :: "('e \<Rightarrow> 'k option) \<Rightarrow> ('k \<Rightarrow> 'e list \<Rightarrow> bool) \<Rightarrow> 'e list \<Rightarrow> bool" where
  "each_call k Q [] = True"
| "each_call k Q (e # tr) = ((case k e of None \<Rightarrow> True | Some n \<Rightarrow> Q n tr) \<and> each_call k Q tr)"

definition stable_call :: "('k \<Rightarrow> 'e list \<Rightarrow> bool) \<Rightarrow> bool" where
  "stable_call Q \<longleftrightarrow> (\<forall>n es tr. Q n es \<longrightarrow> Q n (es @ tr))"

lemma stable_callI: "(\<And>n es tr. Q n es \<Longrightarrow> Q n (es @ tr)) \<Longrightarrow> stable_call Q"
  by (simp add: stable_call_def)

lemma each_call_append: "stable_call Q \<Longrightarrow> each_call k Q es \<Longrightarrow> each_call k Q fs \<Longrightarrow> each_call k Q (es @ fs)"
  by (induction es) (auto simp: stable_call_def split: option.splits)

lemma each_call_none: "(\<And>e. e \<in> set es \<Longrightarrow> k e = None) \<Longrightarrow> each_call k Q es"
  by (induction es) auto

lemma each_call_mono: "each_call k Q es \<Longrightarrow> (\<And>n tr. Q n tr \<Longrightarrow> R n tr) \<Longrightarrow> each_call k R es"
  by (induction es) (auto split: option.splits)

lemma each_call_app: "each_call k Q (es @ tr) \<Longrightarrow> each_call k Q tr"
  by (induction es) auto

definition count_calls :: "('e \<Rightarrow> 'k option) \<Rightarrow> 'e list \<Rightarrow> nat" where
  "count_calls k tr = length (filter (\<lambda>e. k e \<noteq> None) tr)"

lemma count_calls_simps [simp]:
  "count_calls k [] = 0"
  "count_calls k (e # tr) = (if k e = None then count_calls k tr else Suc (count_calls k tr))"
  "count_calls k (es @ tr) = count_calls k es + count_calls k tr"
  by (simp_all add: count_calls_def)

definition total_seconds :: "int \<Rightarrow> flt" where
  \<comment> \<open>\<open>timedelta.total_seconds()\<close> of a difference in microseconds\<close>
  "total_seconds us = fdiv (of_int us) 1000000"

lemma total_seconds_mono: "a \<le> b \<Longrightarrow> total_seconds a \<le> total_seconds b"
  by (simp add: total_seconds_def fdiv_mono)

lemma total_seconds_whole: "\<bar>n\<bar> \<le> 2 ^ 53 \<Longrightarrow> total_seconds (n * 1000000) = of_int n"
  by (simp add: total_seconds_def fdiv_def)

end
