(* ===== verification/Compactor_Models.thy ===== *)
theory Compactor_Models
  imports Kube
begin

section \<open>Node compactor: data models and resource parsing (\<open>models.py\<close>)\<close>

text \<open>
  The configuration read from the environment, the lightweight pod and the computed node state,
  their derived quantities, and the parsing of Kubernetes CPU and memory quantities.
\<close>

subsection \<open>Annotation keys and configuration\<close>

definition ANNOTATION_CAPACITY_RESERVED :: string where
  "ANNOTATION_CAPACITY_RESERVED = ''node-compactor.osdc.io/capacity-reserved''"

definition ANNOTATION_DO_NOT_DISRUPT :: string where
  "ANNOTATION_DO_NOT_DISRUPT = ''karpenter.sh/do-not-disrupt''"

definition LABEL_NODE_FLEET :: string where
  "LABEL_NODE_FLEET = ''node-fleet''"

definition DEFAULTS :: "(string, string) dict" where
  "DEFAULTS =
    [(''COMPACTOR_INTERVAL'', ''20''),
     (''COMPACTOR_MAX_UPTIME_HOURS'', ''48''),
     (''COMPACTOR_NODEPOOL_LABEL'', ''osdc.io/node-compactor''),
     (''COMPACTOR_TAINT_KEY'', ''node-compactor.osdc.io/consolidating''),
     (''COMPACTOR_MIN_NODES'', ''1''),
     (''COMPACTOR_DRY_RUN'', ''false''),
     (''COMPACTOR_TAINT_COOLDOWN'', ''300''),
     (''COMPACTOR_MIN_NODE_AGE'', ''900''),
     (''COMPACTOR_FLEET_COOLDOWN'', ''120''),
     (''COMPACTOR_TAINT_RATE'', ''0.3''),
     (''COMPACTOR_SPARE_CAPACITY_NODES'', ''3''),
     (''COMPACTOR_SPARE_CAPACITY_RATIO'', ''0.15''),
     (''COMPACTOR_SPARE_CAPACITY_THRESHOLD'', ''0.4''),
     (''COMPACTOR_CAPACITY_RESERVATION_NODES'', ''0''),
     (''COMPACTOR_PEAK_WINDOW_SECONDS'', ''1800''),
     (''COMPACTOR_PENDING_POD_MAX_AGE_SECONDS'', ''14400''),
     (''COMPACTOR_PENDING_POD_MIN_AGE_SECONDS'', ''0'')]"

record Config =
  interval :: int
  max_uptime_hours :: int
  nodepool_label :: string
  cfg_taint_key :: string
  min_nodes :: int
  dry_run :: bool
  taint_cooldown :: int
  min_node_age :: int
  fleet_cooldown :: int
  taint_rate :: flt
  spare_capacity_nodes :: int
  spare_capacity_ratio :: flt
  spare_capacity_threshold :: flt
  capacity_reservation_nodes :: int
  peak_window_seconds :: int
  pending_pod_max_age_seconds :: int
  pending_pod_min_age_seconds :: int

definition env_str :: "(string \<Rightarrow> string option) \<Rightarrow> string \<Rightarrow> string" where
  \<comment> \<open>the local function \<open>env\<close>: the environment variable or its default\<close>
  "env_str environ key = (case environ key of Some v \<Rightarrow> v | None \<Rightarrow> dget_or DEFAULTS key [])"

definition env_int :: "(string \<Rightarrow> string option) \<Rightarrow> string \<Rightarrow> int res" where
  "env_int environ key = (case py_int (env_str environ key) of None \<Rightarrow> Inl ValueError | Some n \<Rightarrow> Inr n)"

definition env_float :: "(string \<Rightarrow> string option) \<Rightarrow> string \<Rightarrow> flt res" where
  "env_float environ key = (case py_float (env_str environ key) of None \<Rightarrow> Inl ValueError | Some x \<Rightarrow> Inr x)"

definition check_config :: "Config \<Rightarrow> Config res" where
  "check_config cfg =
     (if peak_window_seconds cfg < 0 then Inl ValueError
      else if pending_pod_max_age_seconds cfg \<le> 0 then Inl ValueError
      else if pending_pod_min_age_seconds cfg < 0 then Inl ValueError
      else if pending_pod_max_age_seconds cfg \<le> pending_pod_min_age_seconds cfg then Inl ValueError
      else Inr cfg)"

definition from_env :: "(string \<Rightarrow> string option) \<Rightarrow> Config res" where
  "from_env environ =
     bind_res (env_int environ ''COMPACTOR_INTERVAL'') (\<lambda>v_interval.
     bind_res (env_int environ ''COMPACTOR_MAX_UPTIME_HOURS'') (\<lambda>v_uptime.
     bind_res (env_int environ ''COMPACTOR_MIN_NODES'') (\<lambda>v_min.
     bind_res (env_int environ ''COMPACTOR_TAINT_COOLDOWN'') (\<lambda>v_cooldown.
     bind_res (env_int environ ''COMPACTOR_MIN_NODE_AGE'') (\<lambda>v_age.
     bind_res (env_int environ ''COMPACTOR_FLEET_COOLDOWN'') (\<lambda>v_fleet.
     bind_res (env_float environ ''COMPACTOR_TAINT_RATE'') (\<lambda>v_rate.
     bind_res (env_int environ ''COMPACTOR_SPARE_CAPACITY_NODES'') (\<lambda>v_spare.
     bind_res (env_float environ ''COMPACTOR_SPARE_CAPACITY_RATIO'') (\<lambda>v_ratio.
     bind_res (env_float environ ''COMPACTOR_SPARE_CAPACITY_THRESHOLD'') (\<lambda>v_thr.
     bind_res (env_int environ ''COMPACTOR_CAPACITY_RESERVATION_NODES'') (\<lambda>v_res.
     bind_res (env_int environ ''COMPACTOR_PEAK_WINDOW_SECONDS'') (\<lambda>v_peak.
     bind_res (env_int environ ''COMPACTOR_PENDING_POD_MAX_AGE_SECONDS'') (\<lambda>v_pmax.
     bind_res (env_int environ ''COMPACTOR_PENDING_POD_MIN_AGE_SECONDS'') (\<lambda>v_pmin.
       check_config
         \<lparr>interval = v_interval, max_uptime_hours = v_uptime,
          nodepool_label = env_str environ ''COMPACTOR_NODEPOOL_LABEL'',
          cfg_taint_key = env_str environ ''COMPACTOR_TAINT_KEY'',
          min_nodes = v_min,
          dry_run = (lower (env_str environ ''COMPACTOR_DRY_RUN'') \<in> {''true'', ''1'', ''yes''}),
          taint_cooldown = v_cooldown, min_node_age = v_age, fleet_cooldown = v_fleet,
          taint_rate = v_rate, spare_capacity_nodes = v_spare, spare_capacity_ratio = v_ratio,
          spare_capacity_threshold = v_thr, capacity_reservation_nodes = v_res,
          peak_window_seconds = v_peak, pending_pod_max_age_seconds = v_pmax,
          pending_pod_min_age_seconds = v_pmin\<rparr>))))))))))))))"

subsection \<open>Pods and node states\<close>

record PodInfo =
  pi_name :: string
  pi_namespace :: string
  cpu_request :: flt
  memory_request :: int
  pi_node_name :: string
  is_daemonset :: bool
  start_time :: "int option"
  gpu_request :: int
  is_phantom :: bool

record NodeState =
  ns_name :: string
  nodepool :: string
  allocatable_cpu :: flt
  allocatable_memory :: int
  creation_time :: int
  allocatable_gpu :: int
  pods :: "PodInfo list"
  is_tainted :: bool
  is_reserved :: bool
  node_taints :: "Taint list"
  ns_labels :: "(string, string) dict"
  ns_annotations :: "(string, string) dict"

definition workload_pods :: "NodeState \<Rightarrow> PodInfo list" where
  "workload_pods ns = filter (\<lambda>p. \<not> is_daemonset p) (pods ns)"

definition workload_pod_count :: "NodeState \<Rightarrow> nat" where
  "workload_pod_count ns = length (workload_pods ns)"

definition daemonset_cpu :: "NodeState \<Rightarrow> flt" where
  "daemonset_cpu ns = fsum (map cpu_request (filter is_daemonset (pods ns)))"

definition daemonset_memory :: "NodeState \<Rightarrow> int" where
  "daemonset_memory ns = sum_list (map memory_request (filter is_daemonset (pods ns)))"

definition daemonset_gpu :: "NodeState \<Rightarrow> int" where
  "daemonset_gpu ns = sum_list (map gpu_request (filter is_daemonset (pods ns)))"

definition cpu_used :: "NodeState \<Rightarrow> flt" where
  "cpu_used ns = fsum (map cpu_request (workload_pods ns))"

definition memory_used :: "NodeState \<Rightarrow> int" where
  "memory_used ns = sum_list (map memory_request (workload_pods ns))"

definition total_cpu_used :: "NodeState \<Rightarrow> flt" where
  "total_cpu_used ns = fsum (map cpu_request (pods ns))"

definition total_memory_used :: "NodeState \<Rightarrow> int" where
  "total_memory_used ns = sum_list (map memory_request (pods ns))"

definition gpu_used :: "NodeState \<Rightarrow> int" where
  "gpu_used ns = sum_list (map gpu_request (workload_pods ns))"

definition total_gpu_used :: "NodeState \<Rightarrow> int" where
  "total_gpu_used ns = sum_list (map gpu_request (pods ns))"

definition cpu_utilization :: "NodeState \<Rightarrow> flt" where
  "cpu_utilization ns = (if allocatable_cpu ns \<le> 0 then 0 else fdiv (cpu_used ns) (allocatable_cpu ns))"

definition memory_utilization :: "NodeState \<Rightarrow> flt" where
  "memory_utilization ns =
     (if allocatable_memory ns \<le> 0 then 0
      else fdiv (of_int (memory_used ns)) (of_int (allocatable_memory ns)))"

definition gpu_utilization :: "NodeState \<Rightarrow> flt" where
  "gpu_utilization ns =
     (if allocatable_gpu ns \<le> 0 then 0
      else fdiv (of_int (gpu_used ns)) (of_int (allocatable_gpu ns)))"

definition utilization :: "NodeState \<Rightarrow> flt" where
  "utilization ns =
     (let v = max (cpu_utilization ns) (memory_utilization ns)
      in if 0 < allocatable_gpu ns then max v (gpu_utilization ns) else v)"

text \<open>The properties that read the clock take the reading as an argument.\<close>

definition uptime_seconds :: "int \<Rightarrow> NodeState \<Rightarrow> flt" where
  "uptime_seconds now ns = total_seconds (now - creation_time ns)"

definition uptime_hours :: "int \<Rightarrow> NodeState \<Rightarrow> flt" where
  "uptime_hours now ns = fdiv (uptime_seconds now ns) 3600"

definition pod_ages :: "int \<Rightarrow> NodeState \<Rightarrow> flt list" where
  "pod_ages now ns =
     List.map_filter (\<lambda>p. map_option (\<lambda>t. total_seconds (now - t)) (start_time p)) (workload_pods ns)"

definition youngest_pod_age_seconds :: "int \<Rightarrow> NodeState \<Rightarrow> xfloat" where
  "youngest_pod_age_seconds now ns =
     (case pod_ages now ns of [] \<Rightarrow> PosInf | a # as \<Rightarrow> Fin (fold min as a))"

subsection \<open>Resource parsing\<close>

definition parse_cpu :: "string \<Rightarrow> flt" where
  "parse_cpu s =
     (if endswith s ''m''
      then (case py_float (drop_end 1 s) of None \<Rightarrow> 0 | Some x \<Rightarrow> fdiv x 1000)
      else if endswith s ''n''
      then (case py_float (drop_end 1 s) of None \<Rightarrow> 0 | Some x \<Rightarrow> fdiv x 1000000000)
      else (case py_float s of None \<Rightarrow> 0 | Some x \<Rightarrow> x))"

definition memory_suffixes :: "(string, int) dict" where
  "memory_suffixes =
     [(''Ki'', 1024), (''Mi'', 1024 ^ 2), (''Gi'', 1024 ^ 3), (''Ti'', 1024 ^ 4),
      (''K'', 1000), (''M'', 1000 ^ 2), (''G'', 1000 ^ 3), (''T'', 1000 ^ 4)]"

definition parse_memory :: "string \<Rightarrow> int" where
  "parse_memory s =
     (case find (\<lambda>(suf, _). endswith s suf) memory_suffixes of
        Some (suf, multiplier) \<Rightarrow>
          (case py_float (drop_end (length suf) s) of None \<Rightarrow> 0 | Some x \<Rightarrow> ftrunc (fmul x (fi multiplier)))
      | None \<Rightarrow> (case py_int s of None \<Rightarrow> 0 | Some n \<Rightarrow> n))"

definition is_daemonset_pod :: "Pod \<Rightarrow> bool" where
  "is_daemonset_pod pod =
     (case pod_meta pod of None \<Rightarrow> False | Some m \<Rightarrow> ''DaemonSet'' \<in> set (owner_kinds m))"

definition spec_containers :: "Pod \<Rightarrow> Container list" where
  \<comment> \<open>the containers the loops range over, none when the pod has no spec\<close>
  "spec_containers pod = (case pod_spec pod of None \<Rightarrow> [] | Some sp \<Rightarrow> containers sp)"

definition pod_cpu_request :: "Pod \<Rightarrow> flt" where
  "pod_cpu_request pod =
     foldl (\<lambda>total c. case req_cpu c of None \<Rightarrow> total | Some q \<Rightarrow> fadd total (parse_cpu q)) 0 (spec_containers pod)"

definition pod_memory_request :: "Pod \<Rightarrow> int" where
  "pod_memory_request pod =
     foldl (\<lambda>total c. case req_memory c of None \<Rightarrow> total | Some q \<Rightarrow> total + parse_memory q) 0 (spec_containers pod)"

definition pod_gpu_request :: "Pod \<Rightarrow> int" where
  "pod_gpu_request pod =
     foldl (\<lambda>total c. case req_gpu c of None \<Rightarrow> total | Some n \<Rightarrow> total + n) 0 (spec_containers pod)"

definition pod_to_podinfo :: "Pod \<Rightarrow> PodInfo" where
  "pod_to_podinfo pod =
     \<lparr>pi_name = (case pod_meta pod of None \<Rightarrow> [] | Some m \<Rightarrow> meta_name m),
      pi_namespace = (case pod_meta pod of None \<Rightarrow> [] | Some m \<Rightarrow> meta_namespace m),
      cpu_request = pod_cpu_request pod, memory_request = pod_memory_request pod,
      pi_node_name = [], is_daemonset = False, start_time = None,
      gpu_request = pod_gpu_request pod, is_phantom = False\<rparr>"

definition node_view_without_taint :: "NodeState \<Rightarrow> string \<Rightarrow> NodeState" where
  "node_view_without_taint ns key = ns\<lparr>node_taints := filter (\<lambda>t. taint_key t \<noteq> key) (node_taints ns)\<rparr>"

lemmas usage_defs = daemonset_cpu_def daemonset_memory_def daemonset_gpu_def cpu_used_def
  memory_used_def gpu_used_def total_cpu_used_def total_memory_used_def total_gpu_used_def

subsection \<open>Properties\<close>

definition wf_states :: "(string, NodeState) dict \<Rightarrow> bool" where
  \<comment> \<open>what \<open>build_node_states\<close> builds: every node is stored under its name\<close>
  "wf_states states \<longleftrightarrow> distinct (dkeys states) \<and> (\<forall>(k, n) \<in> set states. ns_name n = k)"

lemma wf_states_distinct: "wf_states states \<Longrightarrow> distinct (map ns_name (dvals states))"
proof -
  assume w: "wf_states states"
  then have "map ns_name (dvals states) = dkeys states"
    by (auto simp: wf_states_def dvals_def dkeys_def)
  then show ?thesis using w by (simp add: wf_states_def)
qed

lemma total_memory_split: "total_memory_used ns = memory_used ns + daemonset_memory ns"
  using sum_list_filter_split [of memory_request is_daemonset "pods ns"]
  by (simp add: usage_defs workload_pods_def)

lemma total_gpu_split: "total_gpu_used ns = gpu_used ns + daemonset_gpu ns"
  using sum_list_filter_split [of gpu_request is_daemonset "pods ns"]
  by (simp add: usage_defs workload_pods_def)

lemma node_view_simps [simp]:
  "ns_name (node_view_without_taint ns k) = ns_name ns"
  "pods (node_view_without_taint ns k) = pods ns"
  "ns_labels (node_view_without_taint ns k) = ns_labels ns"
  "allocatable_cpu (node_view_without_taint ns k) = allocatable_cpu ns"
  "allocatable_memory (node_view_without_taint ns k) = allocatable_memory ns"
  "allocatable_gpu (node_view_without_taint ns k) = allocatable_gpu ns"
  by (simp_all add: node_view_without_taint_def)

lemma utilization_ge:
  "cpu_utilization ns \<le> utilization ns" "memory_utilization ns \<le> utilization ns"
  "0 < allocatable_gpu ns \<Longrightarrow> gpu_utilization ns \<le> utilization ns"
  by (auto simp: utilization_def Let_def)

lemma endswith_last: "endswith s suf \<Longrightarrow> suf \<noteq> [] \<Longrightarrow> last s = last suf"
  by (metis endswith_drop_end last_appendR)

lemma last_str_nat: "is_digit (last (str_nat n))"
  by (rule str_nat_hd_last)

lemma endswith_same_length: "length a = length b \<Longrightarrow> endswith (s @ a) b \<longleftrightarrow> a = b"
  by (auto simp: endswith_def)

lemma endswith_digit: "is_digit c \<Longrightarrow> endswith ((s @ [c]) @ a) b \<Longrightarrow> length b = Suc (length a) \<Longrightarrow> is_digit (hd b)"
  by (auto simp: endswith_def)

lemma str_nat_snoc: "\<exists>s c. str_nat n = s @ [c] \<and> is_digit c"
  using str_nat_hd_last(2,3) [of n] by (metis append_butlast_last_id)

lemma parse_memory_find:
  assumes "(suf, m) \<in> set memory_suffixes"
  shows "find (\<lambda>(s, _). endswith (str_nat n @ suf) s) memory_suffixes = Some (suf, m)"
proof -
  obtain s c where sc: "str_nat n = s @ [c]" "is_digit c" using str_nat_snoc by blast
  have two: "\<not> endswith (str_nat n @ [x]) [a, b]" if "\<not> is_digit a" for a b x
    using endswith_digit [of c s "[x]" "[a, b]"] sc that by auto
  have d: "\<not> is_digit CHR ''K''" "\<not> is_digit CHR ''M''" "\<not> is_digit CHR ''G''" "\<not> is_digit CHR ''T''"
    by (simp_all add: is_digit_def)
  have one: "endswith (str_nat n @ [x, y]) [z] \<longleftrightarrow> y = z" "endswith (str_nat n @ [x]) [z] \<longleftrightarrow> x = z"
    "endswith (str_nat n @ [x, y]) [z, w] \<longleftrightarrow> x = z \<and> y = w" for x y z w
    using endswith_same_length [of "[y]" "[z]" "str_nat n @ [x]"] endswith_same_length [of "[x]" "[z]" "str_nat n"]
      endswith_same_length [of "[x, y]" "[z, w]" "str_nat n"] by simp_all
  from assms have "suf \<in> {''Ki'', ''Mi'', ''Gi'', ''Ti'', ''K'', ''M'', ''G'', ''T''}"
    "map_of memory_suffixes suf = Some m"
    by (auto simp: memory_suffixes_def)
  then show ?thesis
    by (elim insertE emptyE) (simp_all add: memory_suffixes_def two d one)
qed

end
