(* ===== verification/Compactor_Peak.thy ===== *)
theory Compactor_Peak
  imports Compactor_Models
begin

section \<open>Node compactor: sliding-window peak tracker (\<open>peak_window.py\<close>)\<close>

text \<open>
  Per group, the samples \<open>(time, bin-pack minimum)\<close> of the last \<open>window_seconds\<close>. The
  monotonic clock is read once per call; the reading is an argument.
\<close>

type_synonym PeakHistory = "(string, (flt \<times> int) list) dict"

definition keep_recent :: "flt \<Rightarrow> (flt \<times> int) list \<Rightarrow> (flt \<times> int) list" where
  "keep_recent cutoff h = filter (\<lambda>(t, v). cutoff \<le> t) h"

fun prune_keys :: "flt \<Rightarrow> string list \<Rightarrow> PeakHistory \<Rightarrow> PeakHistory" where
  "prune_keys cutoff [] h = h"
| "prune_keys cutoff (k # ks) h =
     (let vs = keep_recent cutoff (dget_or h k []); h1 = dset k vs h
      in prune_keys cutoff ks (if vs = [] then ddel k h1 else h1))"

definition prune_stale_peak_history :: "flt \<Rightarrow> int \<Rightarrow> PeakHistory \<Rightarrow> PeakHistory" where
  "prune_stale_peak_history now window_seconds h =
     (let cutoff = fsub now (fi window_seconds) in prune_keys cutoff (dkeys h) h)"

definition last_entries :: "int \<Rightarrow> 'a list \<Rightarrow> 'a list" where
  \<comment> \<open>\<open>xs[-n:]\<close> for \<open>n > 0\<close>\<close>
  "last_entries n xs = drop (length xs - nat n) xs"

definition max_entries :: "int \<Rightarrow> int \<Rightarrow> int" where
  "max_entries interv window_seconds = max 64 (window_seconds div max 1 interv + 60)"

definition update_peak_history ::
  "flt \<Rightarrow> PeakHistory \<Rightarrow> string \<Rightarrow> int \<Rightarrow> int \<Rightarrow> int \<Rightarrow> int res \<times> PeakHistory" where
  "update_peak_history now h group_name current_min interv window_seconds =
     (let history = dget_or h group_name [] @ [(now, current_min)];
          cutoff = fsub now (fi window_seconds);
          history' = last_entries (max_entries interv window_seconds) (keep_recent cutoff history);
          h' = dset group_name history' h
      in (case map snd history' of [] \<Rightarrow> Inl ValueError | v # vs \<Rightarrow> Inr (fold max vs v), h'))"

subsection \<open>Lemmas\<close>

lemma dget_prune_keys:
  "dget (prune_keys cutoff ks h) k =
     (if k \<in> set ks
      then (let vs = keep_recent cutoff (dget_or h k []) in if vs = [] then None else Some vs)
      else dget h k)"
proof (induction ks arbitrary: h)
  case (Cons j ks)
  show ?case
  proof (cases "j = k")
    case True
    have idem: "keep_recent cutoff (keep_recent cutoff vs) = keep_recent cutoff vs" for vs
      by (simp add: keep_recent_def)
    have [simp]: "keep_recent cutoff [] = []" by (simp add: keep_recent_def)
    show ?thesis using True
      by (auto simp: Cons.IH Let_def dict_simps dget_ddel dget_or_def idem)
  next
    case False
    then show ?thesis by (auto simp: Cons.IH Let_def dict_simps dget_ddel dget_or_def)
  qed
qed simp

lemma dget_prune:
  "dget (prune_stale_peak_history now w h) k =
     (case dget h k of None \<Rightarrow> None
      | Some vs \<Rightarrow> (let ws = keep_recent (fsub now (fi w)) vs in if ws = [] then None else Some ws))"
proof (cases "dget h k")
  case None
  then have "k \<notin> set (dkeys h)" using pd.get_keys [of h k] by simp
  then show ?thesis using None by (simp add: prune_stale_peak_history_def dget_prune_keys)
next
  case (Some vs)
  then have "k \<in> set (dkeys h)" using pd.get_keys [of h k] by simp
  then show ?thesis using Some by (simp add: prune_stale_peak_history_def dget_prune_keys dget_or_def)
qed

lemma fold_max_eq: "fold max vs v = Max (insert v (set vs))" for v :: "'a :: linorder"
  by (metis Max.set_eq_fold list.simps(15))

lemma last_entries_snoc: "0 < n \<Longrightarrow> \<exists>ys. last_entries n (xs @ [x]) = ys @ [x]"
  by (auto simp: last_entries_def)

lemma set_last_entries: "set (last_entries n xs) \<subseteq> set xs"
  by (simp add: last_entries_def set_drop_subset)

lemma length_last_entries: "0 \<le> n \<Longrightarrow> int (length (last_entries n xs)) \<le> n"
  by (simp add: last_entries_def)

lemma last_entries_all: "int (length xs) \<le> n \<Longrightarrow> last_entries n xs = xs"
  by (simp add: last_entries_def)

lemma max_entries_pos: "64 \<le> max_entries i w"
  by (simp add: max_entries_def)

lemma cutoff_le_now: "fl now = now \<Longrightarrow> 0 \<le> w \<Longrightarrow> fsub now (fi w) \<le> now"
  using fl_mono [of "now - fi w" now] fi_mono [of 0 w] by (simp add: fsub_def)

lemma update_peak_eq:
  assumes "fl now = now" "0 \<le> w"
  shows "\<exists>ys. update_peak_history now h g m i w =
           (Inr (Max (insert m (snd ` set ys))), dset g (ys @ [(now, m)]) h)
         \<and> ys = drop (length (keep_recent (fsub now (fi w)) (dget_or h g [])) + 1 - nat (max_entries i w))
                  (keep_recent (fsub now (fi w)) (dget_or h g []))"
proof -
  let ?k = "keep_recent (fsub now (fi w)) (dget_or h g [])"
  let ?n = "max_entries i w"
  have k: "keep_recent (fsub now (fi w)) (dget_or h g [] @ [(now, m)]) = ?k @ [(now, m)]"
    using cutoff_le_now [OF assms] by (simp add: keep_recent_def)
  have "0 < nat ?n" using max_entries_pos [of i w] by simp
  then have l: "last_entries ?n (?k @ [(now, m)]) = drop (length ?k + 1 - nat ?n) ?k @ [(now, m)]"
    by (simp add: last_entries_def)
  have mx: "(case map snd (ys @ [(now, m)]) of [] \<Rightarrow> Inl ValueError | v # vs \<Rightarrow> Inr (fold max vs v)) =
      (Inr (Max (insert m (snd ` set ys))) :: int res)" for ys
    by (cases ys) (simp_all add: fold_max_eq insert_commute)
  show ?thesis unfolding update_peak_history_def Let_def k l mx by blast
qed

end
