(* ===== verification/Bin_Packing.thy ===== *)
theory Bin_Packing
  imports Py_Base
begin

section \<open>Greedy placement into bins\<close>

text \<open>
  The placement loops of the repository share a shape: a bin says whether an item fits
  (\<open>fits\<close>), and placing the item takes its requests off the bin (\<open>use\<close>). The loops are
  generic in the two operations; the locale states what they promise and holds the lemmas once.
\<close>

fun first_fit :: "('b \<Rightarrow> 'p \<Rightarrow> bool) \<Rightarrow> ('b \<Rightarrow> 'p \<Rightarrow> 'b) \<Rightarrow> 'p \<Rightarrow> 'b list \<Rightarrow> 'b list option" where
  \<comment> \<open>\<open>for b in bins: if fits: use; placed = True; break\<close>\<close>
  "first_fit fits use p [] = None"
| "first_fit fits use p (b # bs) =
     (if fits b p then Some (use b p # bs) else map_option ((#) b) (first_fit fits use p bs))"

fun first_fit_all :: "('b \<Rightarrow> 'p \<Rightarrow> bool) \<Rightarrow> ('b \<Rightarrow> 'p \<Rightarrow> 'b) \<Rightarrow> 'p list \<Rightarrow> 'b list \<Rightarrow> 'b list option" where
  \<comment> \<open>\<open>for pod in pods\<close>: the first that is not placed ends the loop\<close>
  "first_fit_all fits use [] bs = Some bs"
| "first_fit_all fits use (p # ps) bs =
     (case first_fit fits use p bs of None \<Rightarrow> None | Some bs' \<Rightarrow> first_fit_all fits use ps bs')"

fun fits_seq :: "('b \<Rightarrow> 'p \<Rightarrow> bool) \<Rightarrow> ('b \<Rightarrow> 'p \<Rightarrow> 'b) \<Rightarrow> 'b \<Rightarrow> 'p list \<Rightarrow> bool" where
  \<comment> \<open>the items fit the bin one after the other\<close>
  "fits_seq fits use b [] = True"
| "fits_seq fits use b (p # ps) = (fits b p \<and> fits_seq fits use (use b p) ps)"

definition schedule :: "('b \<Rightarrow> 'p \<Rightarrow> bool) \<Rightarrow> ('b \<Rightarrow> 'p \<Rightarrow> 'b) \<Rightarrow> 'b list \<Rightarrow> 'p list list \<Rightarrow> bool" where
  \<comment> \<open>one load per bin, each of which fits its bin\<close>
  "schedule fits use bs loads \<longleftrightarrow> list_all2 (fits_seq fits use) bs loads"

lemma fits_seq_append:
  "fits_seq fits use b (ps @ qs) \<longleftrightarrow> fits_seq fits use b ps \<and> fits_seq fits use (foldl use b ps) qs"
  by (induction ps arbitrary: b) simp_all

lemma first_fit_cases:
  assumes "first_fit fits use p bs = Some bs'"
  obtains us b vs where "bs = us @ b # vs" "bs' = us @ use b p # vs" "fits b p"
  using assms
proof (induction bs arbitrary: bs' thesis)
  case (Cons c bs)
  show ?case
  proof (cases "fits c p")
    case True
    then show ?thesis using Cons.prems(1) [of "[]" c bs] Cons.prems(2) by simp
  next
    case False
    with Cons.prems(2) obtain cs where cs: "first_fit fits use p bs = Some cs" "bs' = c # cs" by auto
    show ?thesis
      by (rule Cons.IH [OF _ cs(1)]) (use Cons.prems(1) [of "c # _"] cs(2) in auto)
  qed
qed simp

lemma first_fit_None_iff: "first_fit fits use p bs = None \<longleftrightarrow> (\<forall>b \<in> set bs. \<not> fits b p)"
  by (induction bs) auto

lemma first_fit_length: "first_fit fits use p bs = Some bs' \<Longrightarrow> length bs' = length bs"
  by (erule first_fit_cases) simp

lemma first_fit_append:
  "first_fit fits use p bs = Some bs' \<Longrightarrow> first_fit fits use p (bs @ cs) = Some (bs' @ cs)"
  by (induction bs arbitrary: bs') (auto split: if_splits)

lemma first_fit_all_append:
  "first_fit_all fits use ps bs = Some bs' \<Longrightarrow> first_fit_all fits use ps (bs @ cs) = Some (bs' @ cs)"
  by (induction ps arbitrary: bs) (auto simp: first_fit_append split: option.splits)

text \<open>
  A state of a greedy loop: the bins it holds are the start bins with some loads taken off, and the
  loads hold exactly the items placed so far.
\<close>

definition loaded :: "('b \<Rightarrow> 'p \<Rightarrow> bool) \<Rightarrow> ('b \<Rightarrow> 'p \<Rightarrow> 'b) \<Rightarrow> 'b list \<Rightarrow> 'b list \<Rightarrow> 'p list list \<Rightarrow> bool" where
  "loaded fits use start now loads \<longleftrightarrow>
     schedule fits use start loads \<and> now = map2 (foldl use) start loads"

lemma loaded_start: "loaded fits use bs bs (map (\<lambda>_. []) bs)"
  by (simp add: loaded_def schedule_def list_all2_map2 list.rel_refl zip_map2 map2_map_map flip: map_map)
    (induction bs; simp)

lemma loaded_length: "loaded fits use bs bs' loads \<Longrightarrow> length loads = length bs \<and> length bs' = length bs"
  by (auto simp: loaded_def schedule_def dest: list_all2_lengthD)

lemma loaded_use:
  assumes "loaded fits use bs bs' loads" "i < length bs" "fits (bs' ! i) p"
  shows "loaded fits use bs (bs'[i := use (bs' ! i) p]) (loads[i := loads ! i @ [p]])"
proof -
  have len: "length loads = length bs" "length bs' = length bs" using loaded_length [OF assms(1)] by simp_all
  have now: "bs' = map2 (foldl use) bs loads" and sch: "list_all2 (fits_seq fits use) bs loads"
    using assms(1) by (simp_all add: loaded_def schedule_def)
  have bi: "bs' ! i = foldl use (bs ! i) (loads ! i)" using assms(2) len by (simp add: now)
  have "fits_seq fits use (bs ! i) (loads ! i @ [p])"
    using assms(2,3) sch bi len by (simp add: fits_seq_append list_all2_conv_all_nth)
  then have "list_all2 (fits_seq fits use) bs (loads[i := loads ! i @ [p]])"
    using sch len assms(2) by (auto simp: list_all2_conv_all_nth nth_list_update)
  moreover have "bs'[i := use (bs' ! i) p] = map2 (foldl use) bs (loads[i := loads ! i @ [p]])"
    using len bi assms(2) by (intro nth_equalityI) (auto simp: now nth_list_update)
  ultimately show ?thesis by (simp add: loaded_def schedule_def)
qed

lemma mset_concat_update:
  "i < length ls \<Longrightarrow> mset (concat (ls[i := ls ! i @ [p]])) = add_mset p (mset (concat ls))"
  by (induction ls arbitrary: i) (auto simp: nth_Cons split: nat.splits)

lemma first_fit_loaded:
  assumes "loaded fits use bs now loads" "first_fit fits use p now = Some now'"
  shows "\<exists>loads'. loaded fits use bs now' loads' \<and> mset (concat loads') = add_mset p (mset (concat loads))"
proof -
  obtain us b vs where s: "now = us @ b # vs" "now' = us @ use b p # vs" "fits b p"
    using assms(2) by (rule first_fit_cases)
  let ?i = "length us"
  have i: "?i < length bs" "?i < length loads" using loaded_length [OF assms(1)] s(1) by simp_all
  have "loaded fits use bs (now[?i := use (now ! ?i) p]) (loads[?i := loads ! ?i @ [p]])"
    using assms(1) i(1) s by (intro loaded_use) simp_all
  then show ?thesis using s mset_concat_update [OF i(2)] by (intro exI conjI) simp_all
qed

lemma first_fit_all_loaded:
  assumes "loaded fits use bs now loads" "first_fit_all fits use ps now = Some now'"
  shows "\<exists>loads'. loaded fits use bs now' loads' \<and> mset (concat loads') = mset ps + mset (concat loads)"
  using assms
proof (induction ps arbitrary: now loads)
  case (Cons p ps)
  then obtain now1 where f: "first_fit fits use p now = Some now1" "first_fit_all fits use ps now1 = Some now'"
    by (auto split: option.splits)
  obtain loads1 where "loaded fits use bs now1 loads1" "mset (concat loads1) = add_mset p (mset (concat loads))"
    using first_fit_loaded [OF Cons.prems(1) f(1)] by blast
  with Cons.IH [OF _ f(2)] show ?case by force
qed auto

theorem first_fit_all_schedule:
  assumes "first_fit_all fits use ps bs = Some bs'"
  shows "\<exists>loads. schedule fits use bs loads \<and> mset (concat loads) = mset ps"
proof -
  have "mset (concat (map (\<lambda>_. [] :: 'a list) bs)) = {#}" by (induction bs) simp_all
  then show ?thesis
    using first_fit_all_loaded [OF loaded_start assms] by (auto simp: loaded_def)
qed

subsection \<open>The contract of a bin\<close>

text \<open>
  \<open>ok\<close> is what a bin keeps (no resource overdrawn), and \<open>size\<close>/\<open>room\<close> a resource
  counted in whole units: an item that fits takes at most the room there is, and exactly its size.
\<close>

locale resource_bin =
  fixes fits :: "'b \<Rightarrow> 'p \<Rightarrow> bool"
    and use :: "'b \<Rightarrow> 'p \<Rightarrow> 'b"
    and ok :: "'b \<Rightarrow> bool"
    and room :: "'b \<Rightarrow> int"
    and size :: "'p \<Rightarrow> int"
  assumes use_ok: "ok b \<Longrightarrow> fits b p \<Longrightarrow> ok (use b p)"
    and room_use: "room (use b p) = room b - size p"
    and fits_room: "fits b p \<Longrightarrow> size p \<le> room b"
begin

lemma first_fit_ok:
  assumes "\<forall>b \<in> set bs. ok b" "first_fit fits use p bs = Some bs'"
  shows "\<forall>b \<in> set bs'. ok b"
  using assms(2) by (rule first_fit_cases) (use assms(1) in \<open>auto simp: use_ok\<close>)

lemma first_fit_all_ok:
  "\<forall>b \<in> set bs. ok b \<Longrightarrow> first_fit_all fits use ps bs = Some bs' \<Longrightarrow> \<forall>b \<in> set bs'. ok b"
proof (induction ps arbitrary: bs)
  case (Cons p ps)
  then obtain bs1 where "first_fit fits use p bs = Some bs1" "first_fit_all fits use ps bs1 = Some bs'"
    by (auto split: option.splits)
  then show ?case using Cons.IH [of bs1] Cons.prems(1) first_fit_ok by blast
qed simp

lemma room_foldl: "room (foldl use b ps) = room b - sum_list (map size ps)"
  by (induction ps arbitrary: b) (simp_all add: room_use)

lemma fits_seq_room:
  assumes "fits_seq fits use b ps" "ps \<noteq> []"
  shows "sum_list (map size ps) \<le> room b"
proof -
  obtain qs q where ps: "ps = qs @ [q]" using assms(2) by (cases ps rule: rev_cases) auto
  then have "fits (foldl use b qs) q" using assms(1) by (simp add: fits_seq_append)
  then have "size q \<le> room b - sum_list (map size qs)" using fits_room by (simp flip: room_foldl)
  then show ?thesis by (simp add: ps)
qed

lemma schedule_room:
  assumes "schedule fits use bs loads" "i < length bs" "loads ! i \<noteq> []"
  shows "sum_list (map size (loads ! i)) \<le> room (bs ! i)"
  using assms by (auto simp: schedule_def list_all2_conv_all_nth intro: fits_seq_room)

lemma fits_seq_ok: "ok b \<Longrightarrow> fits_seq fits use b ps \<Longrightarrow> ok (foldl use b ps)"
  by (induction ps arbitrary: b) (auto simp: use_ok)

end

end
