(* ===== verification/Compactor_Fit.thy ===== *)
theory Compactor_Fit
  imports Compactor_Models Bin_Packing
begin

section \<open>Node compactor: the fit check (\<open>fit.py\<close>)\<close>

text \<open>
  \<open>_pods_fit_on_nodes\<close>: first-fit decreasing of the pods onto the capacity that is left on the
  nodes. The bin and its two operations are shared with the bin-packing of \<open>packing.py\<close>, whose
  loops repeat the same test and the same three subtractions.
\<close>

record bin =
  cpu_remaining :: flt
  mem_remaining :: int
  gpu_remaining :: int

definition bin_fits :: "bin \<Rightarrow> PodInfo \<Rightarrow> bool" where
  "bin_fits b p \<longleftrightarrow>
     cpu_request p \<le> cpu_remaining b \<and> memory_request p \<le> mem_remaining b
     \<and> (gpu_request p = 0 \<or> gpu_request p \<le> gpu_remaining b)"

definition bin_use :: "bin \<Rightarrow> PodInfo \<Rightarrow> bin" where
  "bin_use b p = \<lparr>cpu_remaining = fsub (cpu_remaining b) (cpu_request p),
                  mem_remaining = mem_remaining b - memory_request p,
                  gpu_remaining = gpu_remaining b - gpu_request p\<rparr>"

definition free_bin :: "NodeState \<Rightarrow> bin" where
  "free_bin node = \<lparr>cpu_remaining = fsub (allocatable_cpu node) (total_cpu_used node),
                    mem_remaining = allocatable_memory node - total_memory_used node,
                    gpu_remaining = allocatable_gpu node - total_gpu_used node\<rparr>"

definition sort_pods :: "PodInfo list \<Rightarrow> PodInfo list" where
  "sort_pods ps = sorted_by_desc (\<lambda>p. (gpu_request p, cpu_request p)) ps"

definition pods_fit_on_nodes :: "PodInfo list \<Rightarrow> NodeState list \<Rightarrow> bool" where
  "pods_fit_on_nodes ps ns =
     (if ps = [] then True
      else if ns = [] then False
      else first_fit_all bin_fits bin_use (sort_pods ps) (map free_bin ns) \<noteq> None)"

definition bin_ok :: "bin \<Rightarrow> bool" where
  "bin_ok b \<longleftrightarrow> 0 \<le> cpu_remaining b \<and> 0 \<le> mem_remaining b \<and> 0 \<le> gpu_remaining b"

lemma mset_sort_pods [simp]: "mset (sort_pods ps) = mset ps"
  by (simp add: sort_pods_def)

lemma bin_use_ok: "bin_ok b \<Longrightarrow> bin_fits b p \<Longrightarrow> bin_ok (bin_use b p)"
  by (auto simp: bin_ok_def bin_fits_def bin_use_def fsub_nonneg)

text \<open>Memory is an integer number of bytes, so for it the contract holds without rounding.\<close>

interpretation bin: resource_bin bin_fits bin_use bin_ok mem_remaining memory_request
  by (unfold_locales, erule (1) bin_use_ok, simp_all add: bin_use_def bin_fits_def)

lemma pods_fit_Nil [simp]: "pods_fit_on_nodes [] nodes"
  by (simp add: pods_fit_on_nodes_def)

lemma pods_fit_append:
  assumes "pods_fit_on_nodes ps ns" shows "pods_fit_on_nodes ps (ns @ ms)"
  using assms by (auto simp: pods_fit_on_nodes_def dest: first_fit_all_append split: if_splits)

lemma pods_fit_schedule:
  assumes "pods_fit_on_nodes ps ns" "ps \<noteq> []"
  shows "\<exists>loads. schedule bin_fits bin_use (map free_bin ns) loads \<and> mset (concat loads) = mset ps"
proof -
  obtain bs where "first_fit_all bin_fits bin_use (sort_pods ps) (map free_bin ns) = Some bs"
    using assms by (auto simp: pods_fit_on_nodes_def split: if_splits)
  from first_fit_all_schedule [OF this] show ?thesis by simp
qed

end
