(* ===== verification/Compactor_Taints.thy ===== *)
theory Compactor_Taints
  imports Compactor_Fit
begin

section \<open>Node compactor: taints and pending pods (\<open>taints.py\<close>)\<close>

text \<open>
  Whether a pending pod could run on a node (tolerations, node selector, required node affinity,
  resources), which tainted nodes to release for the pending pods, and the two retry loops that add
  and remove the compactor's taint.
\<close>

subsection \<open>Scheduling constraints\<close>

definition INSTANCE_TYPE_TAINT_KEY :: string where
  "INSTANCE_TYPE_TAINT_KEY = ''instance-type''"

definition IGNORED_TAINT_KEYS :: "string list" where
  "IGNORED_TAINT_KEYS =
    [''node-init.osdc.io/cache-enforcer'',
     ''node-init.osdc.io/registry-mirror'',
     ''node-init.osdc.io/perf-tuning'',
     ''node-init.osdc.io/algif-mitigation'',
     ''node-init.osdc.io/dirtyfrag-mitigation'',
     ''karpenter.sh/unregistered'',
     ''node.kubernetes.io/not-ready'',
     ''node.kubernetes.io/unreachable'',
     ''node.kubernetes.io/network-unavailable'',
     ''node.kubernetes.io/unschedulable'',
     ''node.kubernetes.io/memory-pressure'',
     ''node.kubernetes.io/disk-pressure'',
     ''node.kubernetes.io/pid-pressure'']"

definition toleration_matches_taint :: "Toleration \<Rightarrow> Taint \<Rightarrow> bool" where
  "toleration_matches_taint tol t =
     (if tol_effect tol \<noteq> [] \<and> tol_effect tol \<noteq> taint_effect t then False
      else let operator = (if tol_operator tol = [] then ''Equal'' else tol_operator tol) in
        if tol_key tol = [] then operator = ''Exists''
        else if tol_key tol \<noteq> taint_key t then False
        else if operator = ''Exists'' then True
        else if operator = ''Equal'' then tol_value tol = taint_value t
        else False)"

definition int_rel :: "(int \<Rightarrow> int \<Rightarrow> bool) \<Rightarrow> string \<Rightarrow> string list \<Rightarrow> bool" where
  \<comment> \<open>the two \<open>try\<close> blocks: false on \<open>ValueError\<close> and \<open>IndexError\<close>\<close>
  "int_rel rel node_value values =
     (case py_int node_value of None \<Rightarrow> False
      | Some a \<Rightarrow> (case values of [] \<Rightarrow> False
                 | v # _ \<Rightarrow> (case py_int v of None \<Rightarrow> False | Some b \<Rightarrow> rel a b)))"

definition expression_matches :: "(string, string) dict \<Rightarrow> MatchExpr \<Rightarrow> bool" where
  "expression_matches labels e =
     (let node_value = dget labels (expr_key e); operator = expr_operator e; values = expr_values e in
      if operator = ''In'' then (case node_value of None \<Rightarrow> False | Some v \<Rightarrow> v \<in> set values)
      else if operator = ''NotIn'' then (case node_value of None \<Rightarrow> True | Some v \<Rightarrow> v \<notin> set values)
      else if operator = ''Exists'' then expr_key e \<in> set (dkeys labels)
      else if operator = ''DoesNotExist'' then expr_key e \<notin> set (dkeys labels)
      else if operator = ''Gt'' then
        (case node_value of None \<Rightarrow> False | Some v \<Rightarrow> int_rel (\<lambda>a b. b < a) v values)
      else if operator = ''Lt'' then
        (case node_value of None \<Rightarrow> False | Some v \<Rightarrow> int_rel (\<lambda>a b. a < b) v values)
      else True)"

definition all_expressions_match :: "MatchExpr list \<Rightarrow> (string, string) dict \<Rightarrow> bool" where
  "all_expressions_match expressions labels = list_all (expression_matches labels) expressions"

definition any_term_matches :: "MatchExpr list list \<Rightarrow> (string, string) dict \<Rightarrow> bool" where
  "any_term_matches terms labels = list_ex (\<lambda>term. all_expressions_match term labels) terms"

definition taint_tolerated :: "Toleration list \<Rightarrow> Taint \<Rightarrow> bool" where
  \<comment> \<open>one round of the loop over the node's taints\<close>
  "taint_tolerated tols t \<longleftrightarrow>
     taint_key t \<in> set IGNORED_TAINT_KEYS
     \<or> taint_effect t \<notin> {''NoSchedule'', ''NoExecute''}
     \<or> list_ex (\<lambda>tol. toleration_matches_taint tol t) tols"

definition pod_constraints_match :: "Pod \<Rightarrow> NodeState \<Rightarrow> bool" where
  "pod_constraints_match pod ns =
     (case pod_spec pod of
        None \<Rightarrow> node_taints ns = []
      | Some spec \<Rightarrow>
          list_all (taint_tolerated (tolerations spec)) (node_taints ns)
          \<and> list_all (\<lambda>(k, v). dget (ns_labels ns) k = Some v) (node_selector spec)
          \<and> (affinity_terms spec = [] \<or> any_term_matches (affinity_terms spec) (ns_labels ns)))"

definition pod_fits_resources :: "Pod \<Rightarrow> NodeState \<Rightarrow> bool" where
  "pod_fits_resources pod ns =
     (if fsub (allocatable_cpu ns) (total_cpu_used ns) < pod_cpu_request pod then False
      else if allocatable_memory ns - total_memory_used ns < pod_memory_request pod then False
      else if 0 < pod_gpu_request pod then
        (if allocatable_gpu ns = 0 then False
         else \<not> allocatable_gpu ns - total_gpu_used ns < pod_gpu_request pod)
      else True)"

definition pod_matches_node :: "Pod \<Rightarrow> NodeState \<Rightarrow> bool" where
  "pod_matches_node pod ns \<longleftrightarrow> pod_constraints_match pod ns \<and> pod_fits_resources pod ns"

subsection \<open>Burst absorption\<close>

fun untaint_until_fit :: "PodInfo list \<Rightarrow> NodeState list \<Rightarrow> NodeState list \<Rightarrow> NodeState list" where
  \<comment> \<open>the loop that grows \<open>candidate_nodes\<close>; its second argument is what it holds so far\<close>
  "untaint_until_fit infos cand [] = cand"
| "untaint_until_fit infos cand (t # ts) =
     (if pods_fit_on_nodes infos (cand @ [t]) then cand @ [t]
      else untaint_until_fit infos (cand @ [t]) ts)"

definition tainted_nodes :: "(string, NodeState) dict \<Rightarrow> NodeState list" where
  "tainted_nodes states = filter is_tainted (dvals states)"

definition untainted_match :: "Config \<Rightarrow> Pod \<Rightarrow> NodeState \<Rightarrow> bool" where
  \<comment> \<open>\<open>_pod_matches_node\<close> on the node's view without the compactor taint\<close>
  "untainted_match cfg pod t \<longleftrightarrow> pod_matches_node pod (node_view_without_taint t (cfg_taint_key cfg))"

definition compatible_pending :: "Config \<Rightarrow> (string, NodeState) dict \<Rightarrow> Pod list \<Rightarrow> Pod list" where
  "compatible_pending cfg states pending =
     filter (\<lambda>pod. list_ex (untainted_match cfg pod) (tainted_nodes states)) pending"

definition compatible_tainted :: "Config \<Rightarrow> (string, NodeState) dict \<Rightarrow> Pod list \<Rightarrow> NodeState list" where
  "compatible_tainted cfg states pending =
     filter (\<lambda>t. list_ex (\<lambda>pod. untainted_match cfg pod t) (compatible_pending cfg states pending))
       (tainted_nodes states)"

definition burst_nodes :: "Config \<Rightarrow> (string, NodeState) dict \<Rightarrow> Pod list \<Rightarrow> NodeState list" where
  \<comment> \<open>the candidate nodes at the end of the loop\<close>
  "burst_nodes cfg states pending =
     untaint_until_fit (map pod_to_podinfo (compatible_pending cfg states pending)) []
       (sorted_by_desc utilization (compatible_tainted cfg states pending))"

definition check_pending_pods ::
  "Config \<Rightarrow> (string, NodeState) dict \<Rightarrow> Pod list \<Rightarrow> string set \<times> nat" where
  "check_pending_pods cfg states pending =
     (if pending = [] then ({}, 0)
      else if tainted_nodes states = [] then ({}, 0)
      else if compatible_pending cfg states pending = [] then ({}, 0)
      else if compatible_tainted cfg states pending = [] then ({}, 0)
      else (set (map ns_name (burst_nodes cfg states pending)),
            length (compatible_pending cfg states pending)))"

subsection \<open>Adding and removing the taint\<close>

definition finish :: "'a \<Rightarrow> 'a attempt \<times> trace \<Rightarrow> 'a res \<times> trace" where
  \<comment> \<open>the outcome of a function whose body is a retry loop; \<open>d\<close> is returned on falling through\<close>
  "finish d r = (case r of (Again, tr) \<Rightarrow> (Inr d, tr) | (Return x, tr) \<Rightarrow> (Inr x, tr) | (Raise e, tr) \<Rightarrow> (Inl e, tr))"

definition misses_instance_taint :: "Node \<Rightarrow> bool" where
  "misses_instance_taint node \<longleftrightarrow>
     dget_or (labels_of (node_meta node)) INSTANCE_TYPE_TAINT_KEY [] \<noteq> []
     \<and> INSTANCE_TYPE_TAINT_KEY \<notin> set (map taint_key (spec_taints node))"

definition compactor_taint :: "string \<Rightarrow> Taint" where
  "compactor_taint key = \<lparr>taint_key = key, taint_value = ''true'', taint_effect = ''NoSchedule''\<rparr>"

definition taint_patch :: "string \<Rightarrow> Node \<Rightarrow> string \<Rightarrow> patch" where
  "taint_patch key node rv =
     JsonPatch [TestResourceVersion rv,
       if spec_taints node \<noteq> [] then AppendTaint (compactor_taint key) else CreateTaints [compactor_taint key]]"

definition apply_taint_body ::
  "env \<Rightarrow> string \<Rightarrow> string \<Rightarrow> nat \<Rightarrow> nat \<Rightarrow> trace \<Rightarrow> unit attempt \<times> trace" where
  "apply_taint_body E name key max_retries attempt tr =
     (case get_node E name tr of
        (Inl e, tr1) \<Rightarrow> (Raise e, tr1)
      | (Inr node, tr1) \<Rightarrow>
          (if key \<in> set (map taint_key (spec_taints node)) then (Return (), tr1)
           else if misses_instance_taint node then
             (if Suc attempt < max_retries then (Again, emit (EvSleep 2) tr1) else (Return (), tr1))
           else case node_meta node of
               None \<Rightarrow> (Raise AttributeError, tr1)
             | Some m \<Rightarrow>
                 (case patch_node E name (taint_patch key node (resource_version m)) tr1 of
                    (Inr _, tr2) \<Rightarrow> (Return (), tr2)
                  | (Inl e, tr2) \<Rightarrow>
                      (if e \<in> {ApiError 409, ApiError 422} \<and> Suc attempt < max_retries
                       then (Again, tr2) else (Raise e, tr2)))))"

definition apply_taint :: "env \<Rightarrow> string \<Rightarrow> string \<Rightarrow> bool \<Rightarrow> nat \<Rightarrow> trace \<Rightarrow> unit res \<times> trace" where
  "apply_taint E name key dry max_retries tr =
     (if dry then (Inr (), tr)
      else finish () (for_attempts (apply_taint_body E name key max_retries) [0..<max_retries] tr))"

definition untaint_patch :: "string \<Rightarrow> Node \<Rightarrow> string \<Rightarrow> patch" where
  "untaint_patch key node rv =
     (let new_taints = filter (\<lambda>t. taint_key t \<noteq> key) (spec_taints node) in
      MergePatch \<lparr>mb_resource_version = Some rv, mb_annotations = [],
        mb_taints = Some (if new_taints = [] then None else Some new_taints)\<rparr>)"

definition remove_taint_body ::
  "env \<Rightarrow> string \<Rightarrow> string \<Rightarrow> nat \<Rightarrow> nat \<Rightarrow> trace \<Rightarrow> unit attempt \<times> trace" where
  "remove_taint_body E name key max_retries attempt tr =
     (case get_node E name tr of
        (Inl e, tr1) \<Rightarrow> (Raise e, tr1)
      | (Inr node, tr1) \<Rightarrow>
          (if misses_instance_taint node then
             (if Suc attempt < max_retries then (Again, emit (EvSleep 1) tr1) else (Return (), tr1))
           else case node_meta node of
               None \<Rightarrow> (Raise AttributeError, tr1)
             | Some m \<Rightarrow>
                 (case patch_node E name (untaint_patch key node (resource_version m)) tr1 of
                    (Inr _, tr2) \<Rightarrow> (Return (), tr2)
                  | (Inl e, tr2) \<Rightarrow>
                      (if e = ApiError 409 \<and> Suc attempt < max_retries
                       then (Again, tr2) else (Raise e, tr2)))))"

definition remove_taint :: "env \<Rightarrow> string \<Rightarrow> string \<Rightarrow> bool \<Rightarrow> nat \<Rightarrow> trace \<Rightarrow> unit res \<times> trace" where
  "remove_taint E name key dry max_retries tr =
     (if dry then (Inr (), tr)
      else finish () (for_attempts (remove_taint_body E name key max_retries) [0..<max_retries] tr))"

fun cleanup_nodes :: "env \<Rightarrow> string \<Rightarrow> Node list \<Rightarrow> nat \<Rightarrow> trace \<Rightarrow> nat res \<times> trace" where
  "cleanup_nodes E key [] n tr = (Inr n, tr)"
| "cleanup_nodes E key (node # nodes) n tr =
     (if key \<in> set (map taint_key (spec_taints node)) then
        (case name_of (node_meta node) of
           Inl e \<Rightarrow> (Inl e, tr)
         | Inr name \<Rightarrow>
             (case remove_taint E name key False 3 tr of
                (Inl e, tr1) \<Rightarrow> (Inl e, tr1)
              | (Inr _, tr1) \<Rightarrow> cleanup_nodes E key nodes (Suc n) tr1))
      else cleanup_nodes E key nodes n tr)"

definition cleanup_stale_taints :: "env \<Rightarrow> Config \<Rightarrow> trace \<Rightarrow> nat res \<times> trace" where
  \<comment> \<open>the result is the count that is logged\<close>
  "cleanup_stale_taints E cfg tr =
     (case list_nodes E tr of
        (Inl e, tr1) \<Rightarrow> (Inl e, tr1)
      | (Inr nodes, tr1) \<Rightarrow> cleanup_nodes E (cfg_taint_key cfg) nodes 0 tr1)"

end
