(* ===== verification/Compactor_Packing.thy ===== *)
theory Compactor_Packing
  imports Compactor_Peak Compactor_Taints
begin

section \<open>Node compactor: pending pods and packing (\<open>pending.py\<close>, \<open>packing.py\<close>)\<close>

text \<open>
  Which pending pods count for a group, how many nodes the pods of a group need, which nodes are
  reserved, and which nodes to taint and to untaint. The clock is read once per call of a function
  and handed down: \<open>now\<close> is \<open>datetime.now(UTC)\<close> in microseconds, \<open>mclk\<close> the monotonic
  clock, read once for pruning and once per group.
\<close>

subsection \<open>Pending pods of a group\<close>

definition fits_empty_node :: "flt \<Rightarrow> int \<Rightarrow> int \<Rightarrow> NodeState \<Rightarrow> bool" where
  "fits_empty_node cpu_req mem_req gpu_req node =
     (if fsub (allocatable_cpu node) (daemonset_cpu node) < cpu_req then False
      else if allocatable_memory node - daemonset_memory node < mem_req then False
      else if 0 < gpu_req \<and> allocatable_gpu node - daemonset_gpu node < gpu_req then False
      else True)"

definition pending_pod_counts :: "int \<Rightarrow> NodeState list \<Rightarrow> string \<Rightarrow> int \<Rightarrow> int \<Rightarrow> Pod \<Rightarrow> bool" where
  \<comment> \<open>the pod survives every \<open>continue\<close> of the loop\<close>
  "pending_pod_counts now grp key min_age max_age pod =
     (case pod_meta pod of
        None \<Rightarrow> False
      | Some m \<Rightarrow>
          (case creation_ts m of
             None \<Rightarrow> False
           | Some ts \<Rightarrow>
               (let age = total_seconds (now - ts) in
                if age < of_int min_age \<or> of_int max_age < age then False
                else if \<not> list_ex (\<lambda>node. pod_constraints_match pod (node_view_without_taint node key)) grp
                then False
                else list_ex (fits_empty_node (pod_cpu_request pod) (pod_memory_request pod) (pod_gpu_request pod))
                       grp)))"

definition pending_pods_for_group ::
  "int \<Rightarrow> Pod list \<Rightarrow> NodeState list \<Rightarrow> string \<Rightarrow> int \<Rightarrow> int \<Rightarrow> PodInfo list" where
  "pending_pods_for_group now pending grp key min_age max_age =
     (if pending = [] \<or> grp = [] then []
      else map pod_to_podinfo (filter (pending_pod_counts now grp key min_age max_age) pending))"

subsection \<open>Bin-packing\<close>

definition empty_bin :: "NodeState \<Rightarrow> bin" where
  "empty_bin node = \<lparr>cpu_remaining = fsub (allocatable_cpu node) (daemonset_cpu node),
                     mem_remaining = allocatable_memory node - daemonset_memory node,
                     gpu_remaining = allocatable_gpu node - daemonset_gpu node\<rparr>"

definition by_capacity :: "NodeState list \<Rightarrow> NodeState list" where
  "by_capacity ns = sorted_by_desc allocatable_cpu ns"

fun pack_loop :: "bin list \<Rightarrow> nat \<Rightarrow> PodInfo list \<Rightarrow> nat" where
  "pack_loop bins nodes_used [] = max nodes_used 1"
| "pack_loop bins nodes_used (p # ps) =
     (case first_fit bin_fits bin_use p (take nodes_used bins) of
        Some used \<Rightarrow> pack_loop (used @ drop nodes_used bins) nodes_used ps
      | None \<Rightarrow>
          (if nodes_used < length bins
           then pack_loop (bins[nodes_used := bin_use (bins ! nodes_used) p]) (Suc nodes_used) ps
           else length bins))"

definition bin_pack_min_nodes :: "PodInfo list \<Rightarrow> NodeState list \<Rightarrow> nat" where
  "bin_pack_min_nodes ps ns =
     (if ps = [] \<or> ns = [] then 0
      else pack_loop (map empty_bin (by_capacity ns)) 0 (sort_pods ps))"

subsection \<open>Capacity reservation\<close>

definition reservation_key :: "int \<Rightarrow> NodeState \<Rightarrow> flt \<times> xfloat \<times> flt" where
  "reservation_key now n = (utilization n, xneg (youngest_pod_age_seconds now n), - uptime_seconds now n)"

definition select_in_pool :: "Config \<Rightarrow> int \<Rightarrow> NodeState list \<Rightarrow> string set" where
  "select_in_pool cfg now ns =
     set (map ns_name (take (nat (capacity_reservation_nodes cfg))
       (sorted_by (reservation_key now)
         (filter (\<lambda>n. uptime_hours now n < of_int (max_uptime_hours cfg)) ns))))"

fun select_pools :: "Config \<Rightarrow> int \<Rightarrow> (string, NodeState list) dict \<Rightarrow> (string, string set) dict \<Rightarrow> (string, string set) dict" where
  "select_pools cfg now [] result = result"
| "select_pools cfg now ((pool_name, ns) # rest) result =
     (let selected = select_in_pool cfg now ns in
      select_pools cfg now rest (if selected = {} then result else dset pool_name selected result))"

definition select_reserved_nodes ::
  "int \<Rightarrow> (string, NodeState list) dict \<Rightarrow> Config \<Rightarrow> (string, string set) dict" where
  "select_reserved_nodes now groups cfg =
     (if capacity_reservation_nodes cfg \<le> 0 then []
      else select_pools cfg now (group_by nodepool (concat (dvals groups)) []) [])"

subsection \<open>Taint decisions\<close>

record decision =
  to_taint :: "string set"
  to_untaint :: "string set"
  mandatory_untaint :: "string set"
  rate_limited :: "string set"

definition no_decision :: decision where
  "no_decision = \<lparr>to_taint = {}, to_untaint = {}, mandatory_untaint = {}, rate_limited = {}\<rparr>"

definition add_untaint :: "string \<Rightarrow> decision \<Rightarrow> decision" where
  "add_untaint n d = d\<lparr>to_untaint := insert n (to_untaint d)\<rparr>"

definition add_mandatory :: "string \<Rightarrow> decision \<Rightarrow> decision" where
  "add_mandatory n d = d\<lparr>to_untaint := insert n (to_untaint d),
                         mandatory_untaint := insert n (mandatory_untaint d)\<rparr>"

definition count_spare_nodes :: "NodeState list \<Rightarrow> string option \<Rightarrow> string set \<Rightarrow> flt \<Rightarrow> nat" where
  "count_spare_nodes pool_nodes exclude_node tainting threshold =
     length (filter (\<lambda>n. \<not> (exclude_node = Some (ns_name n)) \<and> \<not> (is_tainted n \<or> ns_name n \<in> tainting)
                        \<and> utilization n \<le> threshold) pool_nodes)"

definition real_pods :: "NodeState \<Rightarrow> PodInfo list" where
  "real_pods n = filter (\<lambda>p. \<not> is_phantom p) (workload_pods n)"

definition group_pods :: "Config \<Rightarrow> int \<Rightarrow> Pod list \<Rightarrow> NodeState list \<Rightarrow> PodInfo list" where
  \<comment> \<open>\<open>all_workload_pods\<close>\<close>
  "group_pods cfg now pending grp =
     concat (map real_pods grp)
     @ (if pending \<noteq> [] then
          pending_pods_for_group now pending grp (cfg_taint_key cfg) (pending_pod_min_age_seconds cfg)
            (pending_pod_max_age_seconds cfg)
        else [])"

definition required_spare :: "Config \<Rightarrow> NodeState list \<Rightarrow> int" where
  "required_spare cfg grp =
     max (spare_capacity_nodes cfg) (fceil (fmul (fi (int (length grp))) (spare_capacity_ratio cfg)))"

definition max_new_taints :: "Config \<Rightarrow> int \<Rightarrow> int" where
  "max_new_taints cfg surplus = max 1 (fceil (fmul (fi surplus) (taint_rate cfg)))"

definition taint_priority :: "Config \<Rightarrow> int \<Rightarrow> NodeState \<Rightarrow> int \<times> flt \<times> int \<times> flt \<times> xfloat" where
  "taint_priority cfg now node =
     (let is_old = (if of_int (max_uptime_hours cfg) < uptime_hours now node then 1 else 0) in
      (- is_old, allocatable_cpu node, allocatable_gpu node, utilization node,
       xneg (youngest_pod_age_seconds now node)))"

definition skipped_node :: "Config \<Rightarrow> int \<Rightarrow> string set \<Rightarrow> NodeState \<Rightarrow> bool" where
  \<comment> \<open>reserved or too young: not a candidate\<close>
  "skipped_node cfg now reserved node \<longleftrightarrow>
     ns_name node \<in> reserved \<or> uptime_seconds now node < of_int (min_node_age cfg)"

definition untaint_all :: "NodeState list \<Rightarrow> decision \<Rightarrow> decision" where
  \<comment> \<open>\<open>for node in nodes: if node.is_tainted: mandatory untaint\<close>\<close>
  "untaint_all nodes d = fold (\<lambda>n d. if is_tainted n then add_mandatory (ns_name n) d else d) nodes d"

record candidate_loop =
  cl_decision :: decision
  taint_count :: int
  new_taint_count :: int
  conditionally_remaining :: "NodeState list"

definition taint_candidate ::
  "Config \<Rightarrow> NodeState list \<Rightarrow> int \<Rightarrow> NodeState list \<Rightarrow> NodeState \<Rightarrow> candidate_loop \<Rightarrow> candidate_loop" where
  \<comment> \<open>one round of the loop over the candidates\<close>
  "taint_candidate cfg grp surplus definitely_remaining node c =
     (let d = cl_decision c; name = ns_name node;
          remaining = definitely_remaining @ conditionally_remaining c in
      if surplus \<le> taint_count c then
        (if is_tainted node then c\<lparr>cl_decision := add_mandatory name d\<rparr> else c)
      else if real_pods node \<noteq> [] \<and> \<not> pods_fit_on_nodes (real_pods node) remaining then
        c\<lparr>conditionally_remaining := conditionally_remaining c @ [node],
          cl_decision := (if is_tainted node then add_untaint name d else d)\<rparr>
      else if \<not> is_tainted node \<and> max_new_taints cfg surplus \<le> new_taint_count c then
        c\<lparr>conditionally_remaining := conditionally_remaining c @ [node],
          cl_decision := d\<lparr>rate_limited := insert name (rate_limited d)\<rparr>\<rparr>
      else if 0 < required_spare cfg grp
          \<and> int (count_spare_nodes grp (Some name) (to_taint d) (spare_capacity_threshold cfg))
              < required_spare cfg grp then
        c\<lparr>conditionally_remaining := conditionally_remaining c @ [node],
          cl_decision := (if is_tainted node then add_untaint name d else d)\<rparr>
      else
        c\<lparr>cl_decision := d\<lparr>to_taint := insert name (to_taint d)\<rparr>,
          taint_count := taint_count c + 1,
          new_taint_count := (if is_tainted node then new_taint_count c else new_taint_count c + 1)\<rparr>)"

fun recover_spare :: "int \<Rightarrow> NodeState list \<Rightarrow> int \<Rightarrow> decision \<Rightarrow> decision" where
  \<comment> \<open>untaint low-utilisation nodes until the spare requirement is met\<close>
  "recover_spare required [] current d = d"
| "recover_spare required (n # ns) current d =
     (if required \<le> current then d
      else recover_spare required ns (current + 1)
             ((add_mandatory (ns_name n) d)\<lparr>to_taint := to_taint d - {ns_name n}\<rparr>))"

definition tainted_low :: "Config \<Rightarrow> NodeState list \<Rightarrow> decision \<Rightarrow> NodeState list" where
  "tainted_low cfg grp d =
     sorted_by utilization
       (filter (\<lambda>n. is_tainted n \<and> ns_name n \<notin> to_untaint d \<and> utilization n \<le> spare_capacity_threshold cfg) grp)"

definition spare_recovery :: "Config \<Rightarrow> NodeState list \<Rightarrow> decision \<Rightarrow> decision" where
  "spare_recovery cfg grp d =
     (if 0 < required_spare cfg grp then
        (let current = int (count_spare_nodes grp None (to_taint d) (spare_capacity_threshold cfg)) in
         if current < required_spare cfg grp
         then recover_spare (required_spare cfg grp) (tainted_low cfg grp d) current d
         else d)
      else d)"

definition taint_candidates :: "Config \<Rightarrow> int \<Rightarrow> string set \<Rightarrow> NodeState list \<Rightarrow> NodeState list" where
  "taint_candidates cfg now reserved grp =
     sorted_by (taint_priority cfg now) (filter (\<lambda>n. \<not> skipped_node cfg now reserved n) grp)"

definition candidate_pass ::
  "Config \<Rightarrow> int \<Rightarrow> string set \<Rightarrow> NodeState list \<Rightarrow> int \<Rightarrow> decision \<Rightarrow> candidate_loop" where
  "candidate_pass cfg now reserved grp surplus d =
     (let candidates = taint_candidates cfg now reserved grp;
          d1 = untaint_all (filter (skipped_node cfg now reserved) grp) d in
      fold (taint_candidate cfg grp surplus (drop (nat surplus) candidates)) candidates
        \<lparr>cl_decision = d1, taint_count = 0, new_taint_count = 0, conditionally_remaining = []\<rparr>)"

definition taint_group ::
  "Config \<Rightarrow> int \<Rightarrow> string set \<Rightarrow> NodeState list \<Rightarrow> int \<Rightarrow> decision \<Rightarrow> decision" where
  \<comment> \<open>the body of the loop over the groups, from the surplus on\<close>
  "taint_group cfg now reserved grp min_needed d =
     (let surplus = int (length grp) - min_needed in
      if surplus \<le> 0 then untaint_all grp d
      else spare_recovery cfg grp (cl_decision (candidate_pass cfg now reserved grp surplus d)))"

fun taint_groups ::
  "Config \<Rightarrow> int \<Rightarrow> (string \<Rightarrow> flt) \<Rightarrow> string set \<Rightarrow> Pod list \<Rightarrow> (string, NodeState list) dict
   \<Rightarrow> PeakHistory option \<Rightarrow> decision \<Rightarrow> decision res \<times> PeakHistory option" where
  "taint_groups cfg now mclk reserved pending [] hist d = (Inr d, hist)"
| "taint_groups cfg now mclk reserved pending ((group_name, grp) # rest) hist d =
     (let current_min = int (bin_pack_min_nodes (group_pods cfg now pending grp) grp) in
      case (case hist of
              None \<Rightarrow> (Inr current_min, None)
            | Some h \<Rightarrow>
                (case update_peak_history (mclk group_name) h group_name current_min (interval cfg)
                        (peak_window_seconds cfg) of (r, h') \<Rightarrow> (r, Some h'))) of
        (Inl e, hist') \<Rightarrow> (Inl e, hist')
      | (Inr peak_min, hist') \<Rightarrow>
          taint_groups cfg now mclk reserved pending rest hist'
            (taint_group cfg now reserved grp (max peak_min (min_nodes cfg)) d))"

definition compute_taints ::
  "int \<Rightarrow> flt \<Rightarrow> (string \<Rightarrow> flt) \<Rightarrow> (string, NodeState) dict \<Rightarrow> Config \<Rightarrow> string set
   \<Rightarrow> (NodeState \<Rightarrow> string) option \<Rightarrow> PeakHistory option \<Rightarrow> Pod list
   \<Rightarrow> decision res \<times> PeakHistory option" where
  "compute_taints now prune_time mclk states cfg reserved group_key hist pending =
     (if states = [] then (Inr no_decision, hist)
      else
        let key_fn = (case group_key of None \<Rightarrow> nodepool | Some f \<Rightarrow> f);
            groups = group_by key_fn (dvals states) [];
            hist1 = map_option (prune_stale_peak_history prune_time (peak_window_seconds cfg)) hist
        in taint_groups cfg now mclk reserved pending groups hist1 no_decision)"

end
