(* ===== verification/Compactor_Groups.thy ===== *)
theory Compactor_Groups
  imports Compactor_Packing
begin

section \<open>Node compactor: lemmas about the decision for one group\<close>

text \<open>
  The loops of \<open>compute_taints\<close> for one group, one lemma per invariant: first for one candidate, then
  for the pass over all candidates, then for the group with the spare-capacity recovery.
\<close>

abbreviation names :: "NodeState list \<Rightarrow> string set" where
  "names ns \<equiv> ns_name ` set ns"

definition decision_on :: "string set \<Rightarrow> decision \<Rightarrow> decision" where
  "decision_on A d = \<lparr>to_taint = to_taint d \<inter> A, to_untaint = to_untaint d \<inter> A,
     mandatory_untaint = mandatory_untaint d \<inter> A, rate_limited = rate_limited d \<inter> A\<rparr>"

definition touched :: "decision \<Rightarrow> string set" where
  "touched d = to_taint d \<union> to_untaint d \<union> mandatory_untaint d \<union> rate_limited d"

definition consistent :: "decision \<Rightarrow> bool" where
  "consistent d \<longleftrightarrow> mandatory_untaint d \<subseteq> to_untaint d \<and> to_taint d \<inter> to_untaint d = {}
     \<and> to_taint d \<inter> rate_limited d = {} \<and> to_untaint d \<inter> rate_limited d = {}"

definition effective_spare :: "NodeState list \<Rightarrow> decision \<Rightarrow> flt \<Rightarrow> nat" where
  "effective_spare grp d threshold =
     length (filter (\<lambda>n. \<not> (is_tainted n \<and> ns_name n \<notin> to_untaint d \<or> ns_name n \<in> to_taint d)
                        \<and> utilization n \<le> threshold) grp)"

subsection \<open>The simple loops\<close>

lemma add_simps [simp]:
  "to_taint (add_untaint a d) = to_taint d" "to_taint (add_mandatory a d) = to_taint d"
  "rate_limited (add_untaint a d) = rate_limited d" "rate_limited (add_mandatory a d) = rate_limited d"
  "to_untaint (add_untaint a d) = insert a (to_untaint d)" "to_untaint (add_mandatory a d) = insert a (to_untaint d)"
  "mandatory_untaint (add_untaint a d) = mandatory_untaint d"
  "mandatory_untaint (add_mandatory a d) = insert a (mandatory_untaint d)"
  by (simp_all add: add_untaint_def add_mandatory_def)

lemma untaint_all_eq:
  "untaint_all ns d = d\<lparr>to_untaint := to_untaint d \<union> names (filter is_tainted ns),
     mandatory_untaint := mandatory_untaint d \<union> names (filter is_tainted ns)\<rparr>"
  unfolding untaint_all_def
  by (induction ns arbitrary: d) (auto simp: add_mandatory_def)

lemma recover_spare_taint:
  "to_taint (recover_spare r ns c d) \<subseteq> to_taint d \<and> rate_limited (recover_spare r ns c d) = rate_limited d"
  by (induction r ns c d rule: recover_spare.induct) auto

lemma recover_spare_frame:
  "names ns \<inter> A = {} \<Longrightarrow> decision_on A (recover_spare r ns c d) = decision_on A d"
  by (induction r ns c d rule: recover_spare.induct) (auto simp: decision_on_def)

lemma recover_spare_consistent:
  "consistent d \<Longrightarrow> names ns \<inter> rate_limited d = {} \<Longrightarrow> consistent (recover_spare r ns c d)"
proof (induction r ns c d rule: recover_spare.induct)
  case (2 r n ns c d)
  let ?d = "(add_mandatory (ns_name n) d)\<lparr>to_taint := to_taint d - {ns_name n}\<rparr>"
  have "consistent ?d" using "2.prems" by (auto simp: consistent_def)
  moreover have "names ns \<inter> rate_limited ?d = {}" using "2.prems" by auto
  ultimately show ?case using "2.IH" "2.prems" by simp
qed simp

lemma recover_spare_untaint:
  "to_untaint (recover_spare r ns c d) \<subseteq> to_untaint d \<union> names ns \<and> to_untaint d \<subseteq> to_untaint (recover_spare r ns c d)"
  by (induction r ns c d rule: recover_spare.induct) auto

lemma set_tainted_low:
  "set (tainted_low cfg grp d) =
     {n \<in> set grp. is_tainted n \<and> ns_name n \<notin> to_untaint d \<and> utilization n \<le> spare_capacity_threshold cfg}"
  by (simp add: tainted_low_def)

lemma set_taint_candidates:
  "set (taint_candidates cfg now reserved grp) = {n \<in> set grp. \<not> skipped_node cfg now reserved n}"
  by (simp add: taint_candidates_def)

lemma distinct_taint_candidates:
  "distinct (map ns_name grp) \<Longrightarrow> distinct (map ns_name (taint_candidates cfg now reserved grp))"
  by (simp add: taint_candidates_def distinct_map_filter)

lemma same_name: "distinct (map ns_name grp) \<Longrightarrow> n \<in> set grp \<Longrightarrow> m \<in> set grp \<Longrightarrow> ns_name n = ns_name m \<Longrightarrow> n = m"
  by (rule distinct_map_filter_eq)

lemma count_spare_exclude:
  "count_spare_nodes grp (Some a) T thr = count_spare_nodes grp None (insert a T) thr"
  unfolding count_spare_nodes_def by (intro arg_cong [of _ _ length] filter_cong) auto

lemma count_spare_antimono:
  "T \<subseteq> T' \<Longrightarrow> count_spare_nodes grp None T' thr \<le> count_spare_nodes grp None T thr"
  unfolding count_spare_nodes_def by (intro length_filter_mono) auto

lemma count_le_effective:
  "count_spare_nodes grp None (to_taint d) thr \<le> effective_spare grp d thr"
  unfolding count_spare_nodes_def effective_spare_def by (intro length_filter_mono) auto

lemma recover_spare_effective:
  assumes "distinct (map ns_name grp)" "distinct (map ns_name ns)" "consistent d"
    "\<forall>n \<in> set ns. n \<in> set grp \<and> is_tainted n \<and> ns_name n \<notin> to_untaint d \<and> utilization n \<le> thr"
    "c \<le> int (effective_spare grp d thr)" "names ns \<inter> rate_limited d = {}"
  shows "required \<le> int (effective_spare grp (recover_spare required ns c d) thr)
       \<or> names ns \<subseteq> to_untaint (recover_spare required ns c d)"
  using assms
proof (induction required ns c d rule: recover_spare.induct)
  case (2 r n ns c d)
  let ?d = "(add_mandatory (ns_name n) d)\<lparr>to_taint := to_taint d - {ns_name n}\<rparr>"
  show ?case
  proof (cases "r \<le> c")
    case False
    have n: "n \<in> set grp" "is_tainted n" "ns_name n \<notin> to_untaint d" "utilization n \<le> thr" using "2.prems"(4) by auto
    have d': "consistent ?d" using "2.prems"(3,6) by (auto simp: consistent_def)
    have "Suc (effective_spare grp d thr) \<le> effective_spare grp ?d thr"
      unfolding effective_spare_def using "2.prems"(1) n by (intro length_filter_add1 [of ns_name]) auto
    then have c: "c + 1 \<le> int (effective_spare grp ?d thr)" using "2.prems"(5) by linarith
    have ns: "\<forall>m \<in> set ns. m \<in> set grp \<and> is_tainted m \<and> ns_name m \<notin> to_untaint ?d \<and> utilization m \<le> thr"
      using "2.prems"(2,4) by auto (metis image_eqI)
    have "ns_name n \<in> to_untaint (recover_spare r ns (c + 1) ?d)"
      using recover_spare_untaint [of r ns "c + 1" ?d] by auto
    then show ?thesis using "2.IH" [OF False "2.prems"(1) _ d' ns c] "2.prems"(2,6) False by auto
  qed (use "2.prems" in simp)
qed simp

subsection \<open>One candidate\<close>

lemma candidate_touched:
  "touched (cl_decision (taint_candidate cfg grp surplus dr node c)) \<subseteq> insert (ns_name node) (touched (cl_decision c))"
  by (auto simp: taint_candidate_def Let_def touched_def split: if_splits)

lemma candidate_frame:
  "ns_name node \<notin> A \<Longrightarrow>
     decision_on A (cl_decision (taint_candidate cfg grp surplus dr node c)) = decision_on A (cl_decision c)"
  by (auto simp: taint_candidate_def Let_def decision_on_def split: if_splits)

lemma candidate_consistent:
  "ns_name node \<notin> touched (cl_decision c) \<Longrightarrow> consistent (cl_decision c)
     \<Longrightarrow> consistent (cl_decision (taint_candidate cfg grp surplus dr node c))"
  by (auto simp: taint_candidate_def Let_def touched_def consistent_def split: if_splits)

lemma candidate_rate_limited:
  "rate_limited (cl_decision (taint_candidate cfg grp surplus dr node c))
     \<subseteq> rate_limited (cl_decision c) \<union> (if is_tainted node then {} else {ns_name node})"
  by (auto simp: taint_candidate_def Let_def split: if_splits)

lemma candidate_untaint:
  "to_untaint (cl_decision (taint_candidate cfg grp surplus dr node c))
     \<subseteq> to_untaint (cl_decision c) \<union> (if is_tainted node then {ns_name node} else {})"
  by (auto simp: taint_candidate_def Let_def split: if_splits)

lemma candidate_count:
  assumes "ns_name node \<in> N" "ns_name node \<notin> to_taint (cl_decision c)" "finite N"
    and "taint_count c = int (card (to_taint (cl_decision c) \<inter> N)) \<and> taint_count c \<le> surplus"
  shows "taint_count (taint_candidate cfg grp surplus dr node c)
           = int (card (to_taint (cl_decision (taint_candidate cfg grp surplus dr node c)) \<inter> N))
       \<and> taint_count (taint_candidate cfg grp surplus dr node c) \<le> surplus"
  using assms by (simp add: taint_candidate_def Let_def)

lemma candidate_new_count:
  assumes "ns_name node \<in> N \<longleftrightarrow> \<not> is_tainted node" "ns_name node \<notin> to_taint (cl_decision c)" "finite N"
    and "new_taint_count c = int (card (to_taint (cl_decision c) \<inter> N)) \<and> new_taint_count c \<le> max_new_taints cfg surplus"
  shows "new_taint_count (taint_candidate cfg grp surplus dr node c)
           = int (card (to_taint (cl_decision (taint_candidate cfg grp surplus dr node c)) \<inter> N))
       \<and> new_taint_count (taint_candidate cfg grp surplus dr node c) \<le> max_new_taints cfg surplus"
  using assms by (auto simp: taint_candidate_def Let_def)

lemma candidate_spare:
  assumes "to_taint (cl_decision c) \<inter> N = {} \<or> required_spare cfg grp \<le> 0
      \<or> required_spare cfg grp \<le> int (count_spare_nodes grp None (to_taint (cl_decision c)) (spare_capacity_threshold cfg))"
  shows "to_taint (cl_decision (taint_candidate cfg grp surplus dr node c)) \<inter> N = {} \<or> required_spare cfg grp \<le> 0
      \<or> required_spare cfg grp \<le> int (count_spare_nodes grp None
            (to_taint (cl_decision (taint_candidate cfg grp surplus dr node c))) (spare_capacity_threshold cfg))"
  using assms by (auto simp: taint_candidate_def Let_def count_spare_exclude)

lemma candidate_fit:
  assumes "distinct (map ns_name grp)" "node \<in> set grp"
    and "\<forall>n \<in> set grp. ns_name n \<in> to_taint (cl_decision c) \<longrightarrow>
           pods_fit_on_nodes (real_pods n) (dr @ conditionally_remaining c)"
  shows "\<forall>n \<in> set grp. ns_name n \<in> to_taint (cl_decision (taint_candidate cfg grp surplus dr node c)) \<longrightarrow>
           pods_fit_on_nodes (real_pods n)
             (dr @ conditionally_remaining (taint_candidate cfg grp surplus dr node c))"
proof (intro ballI impI)
  fix n
  let ?c' = "taint_candidate cfg grp surplus dr node c"
  assume n: "n \<in> set grp" "ns_name n \<in> to_taint (cl_decision ?c')"
  show "pods_fit_on_nodes (real_pods n) (dr @ conditionally_remaining ?c')"
  proof (cases "ns_name n \<in> to_taint (cl_decision c)")
    case True
    then have "pods_fit_on_nodes (real_pods n) (dr @ conditionally_remaining c)" using assms(3) n(1) by blast
    moreover from pods_fit_append [OF this, of "[node]"]
    have "pods_fit_on_nodes (real_pods n) (dr @ conditionally_remaining c @ [node])" by simp
    ultimately show ?thesis by (simp add: taint_candidate_def Let_def)
  next
    case False
    then have "ns_name n = ns_name node" using n(2) by (auto simp: taint_candidate_def Let_def split: if_splits)
    then have "n = node" using same_name [OF assms(1) n(1) assms(2)] by simp
    then show ?thesis using n(2) False by (auto simp: taint_candidate_def Let_def split: if_splits)
  qed
qed

subsection \<open>The pass over the candidates of a group\<close>

lemma touched_untaint_all: "touched (untaint_all ns d) \<subseteq> touched d \<union> names ns"
  by (auto simp: untaint_all_eq touched_def)

lemma to_taint_untaint_all [simp]: "to_taint (untaint_all ns d) = to_taint d"
  by (simp add: untaint_all_eq)

lemma rate_limited_untaint_all [simp]: "rate_limited (untaint_all ns d) = rate_limited d"
  by (simp add: untaint_all_eq)

lemma consistent_untaint_all:
  "consistent d \<Longrightarrow> touched d \<inter> names ns = {} \<Longrightarrow> consistent (untaint_all ns d)"
  by (auto simp: consistent_def untaint_all_eq touched_def)

lemma frame_untaint_all: "names ns \<inter> A = {} \<Longrightarrow> decision_on A (untaint_all ns d) = decision_on A d"
  by (auto simp: decision_on_def untaint_all_eq)

text \<open>
  An invariant of the candidate loop: it holds at the start, and a candidate that the decision
  does not mention yet keeps it.
\<close>

lemma candidate_pass_inv:
  fixes cfg now reserved grp surplus d
  defines "dr \<equiv> drop (nat surplus) (taint_candidates cfg now reserved grp)"
  assumes dist: "distinct (map ns_name grp)" and fresh: "touched d \<inter> names grp = {}"
    and start: "I \<lparr>cl_decision = untaint_all (filter (skipped_node cfg now reserved) grp) d,
                   taint_count = 0, new_taint_count = 0, conditionally_remaining = []\<rparr>"
    and step: "\<And>n c. n \<in> set grp \<Longrightarrow> \<not> skipped_node cfg now reserved n \<Longrightarrow>
                 ns_name n \<notin> touched (cl_decision c) \<Longrightarrow> I c \<Longrightarrow> I (taint_candidate cfg grp surplus dr n c)"
  shows "I (candidate_pass cfg now reserved grp surplus d)"
  unfolding candidate_pass_def Let_def
proof (rule fold_fresh_inv [where f = ns_name and T = "\<lambda>c. touched (cl_decision c)"])
  show "distinct (map ns_name (taint_candidates cfg now reserved grp))"
    using dist by (rule distinct_taint_candidates)
  let ?sk = "filter (skipped_node cfg now reserved) grp"
  have "ns_name n \<notin> touched (untaint_all ?sk d)" if n: "n \<in> set grp" "\<not> skipped_node cfg now reserved n" for n
  proof
    assume "ns_name n \<in> touched (untaint_all ?sk d)"
    then have "ns_name n \<in> touched d \<union> names ?sk" by (rule subsetD [OF touched_untaint_all])
    moreover have "ns_name n \<notin> touched d" using fresh n(1) by blast
    ultimately obtain m where "m \<in> set grp" "skipped_node cfg now reserved m" "ns_name n = ns_name m" by auto
    then show False using same_name [OF dist n(1), of m] n(2) by simp
  qed
  then show "\<forall>x \<in> set (taint_candidates cfg now reserved grp). ns_name x \<notin> touched (cl_decision
     \<lparr>cl_decision = untaint_all (filter (skipped_node cfg now reserved) grp) d,
      taint_count = 0, new_taint_count = 0, conditionally_remaining = []\<rparr>)"
    by (simp add: set_taint_candidates)
qed (use start step candidate_touched in \<open>auto simp: set_taint_candidates dr_def\<close>)

lemma candidate_pass_frame:
  assumes "names grp \<inter> A = {}"
  shows "decision_on A (cl_decision (candidate_pass cfg now reserved grp surplus d)) = decision_on A d"
  unfolding candidate_pass_def Let_def
proof (rule fold_inv [where I = "\<lambda>c. decision_on A (cl_decision c) = decision_on A d"])
  have "names (filter (skipped_node cfg now reserved) grp) \<inter> A = {}" using assms by auto
  then show "decision_on A (cl_decision \<lparr>cl_decision = untaint_all (filter (skipped_node cfg now reserved) grp) d,
      taint_count = 0, new_taint_count = 0, conditionally_remaining = []\<rparr>) = decision_on A d"
    by (simp add: frame_untaint_all)
next
  fix n and c :: candidate_loop assume "n \<in> set (taint_candidates cfg now reserved grp)" "decision_on A (cl_decision c) = decision_on A d"
  moreover from this(1) have "ns_name n \<notin> A" using assms by (auto simp: set_taint_candidates)
  ultimately show "decision_on A (cl_decision (taint_candidate cfg grp surplus
      (drop (nat surplus) (taint_candidates cfg now reserved grp)) n c)) = decision_on A d"
    by (simp add: candidate_frame)
qed

lemma fresh_to_taint: "touched d \<inter> N = {} \<Longrightarrow> to_taint d \<inter> N = {}"
  by (auto simp: touched_def)

lemma not_touched: "a \<notin> touched d \<Longrightarrow> a \<notin> to_taint d"
  by (simp add: touched_def)

lemma pass_taint_count:
  assumes "distinct (map ns_name grp)" "touched d \<inter> names grp = {}" "0 \<le> surplus"
  shows "int (card (to_taint (cl_decision (candidate_pass cfg now reserved grp surplus d)) \<inter> names grp)) \<le> surplus"
proof -
  have "taint_count c = int (card (to_taint (cl_decision c) \<inter> names grp)) \<and> taint_count c \<le> surplus"
    if "c = candidate_pass cfg now reserved grp surplus d" for c
    unfolding that
    by (rule candidate_pass_inv [where I = "\<lambda>c. taint_count c = int (card (to_taint (cl_decision c) \<inter> names grp))
          \<and> taint_count c \<le> surplus", OF assms(1,2)])
      (use assms(3) in \<open>simp add: fresh_to_taint [OF assms(2)]\<close>, rule candidate_count, auto dest: not_touched)
  then show ?thesis by auto
qed

lemma pass_new_count:
  assumes "distinct (map ns_name grp)" "touched d \<inter> names grp = {}"
  shows "int (card (to_taint (cl_decision (candidate_pass cfg now reserved grp surplus d))
               \<inter> names (filter (\<lambda>n. \<not> is_tainted n) grp))) \<le> max_new_taints cfg surplus"
proof -
  let ?N = "names (filter (\<lambda>n. \<not> is_tainted n) grp)"
  have z: "touched d \<inter> ?N = {}" using assms(2) by auto
  have m: "ns_name n \<in> ?N \<longleftrightarrow> \<not> is_tainted n" if "n \<in> set grp" for n
    using same_name [OF assms(1) that] that by auto
  have "new_taint_count c = int (card (to_taint (cl_decision c) \<inter> ?N)) \<and> new_taint_count c \<le> max_new_taints cfg surplus"
    if "c = candidate_pass cfg now reserved grp surplus d" for c
    unfolding that
    by (rule candidate_pass_inv [where I = "\<lambda>c. new_taint_count c = int (card (to_taint (cl_decision c) \<inter> ?N))
          \<and> new_taint_count c \<le> max_new_taints cfg surplus", OF assms])
      (use fresh_to_taint [OF z] in \<open>simp add: max_new_taints_def\<close>, rule candidate_new_count [OF m],
       auto dest: not_touched)
  then show ?thesis by auto
qed

lemma pass_consistent:
  assumes "distinct (map ns_name grp)" "touched d \<inter> names grp = {}" "consistent d"
  shows "consistent (cl_decision (candidate_pass cfg now reserved grp surplus d))"
proof (rule candidate_pass_inv [where I = "\<lambda>c. consistent (cl_decision c)", OF assms(1,2)])
  have "touched d \<inter> names (filter (skipped_node cfg now reserved) grp) = {}" using assms(2) by auto
  then show "consistent (cl_decision \<lparr>cl_decision = untaint_all (filter (skipped_node cfg now reserved) grp) d,
      taint_count = 0, new_taint_count = 0, conditionally_remaining = []\<rparr>)"
    using assms(3) by (simp add: consistent_untaint_all)
qed (rule candidate_consistent)

lemma candidate_eligible:
  "to_taint (cl_decision c) \<subseteq> T \<Longrightarrow> ns_name n \<in> T \<Longrightarrow>
     to_taint (cl_decision (taint_candidate cfg grp surplus dr n c)) \<subseteq> T"
  by (auto simp: taint_candidate_def Let_def split: if_splits)

lemma pass_eligible:
  assumes "distinct (map ns_name grp)" "touched d \<inter> names grp = {}"
  shows "to_taint (cl_decision (candidate_pass cfg now reserved grp surplus d))
           \<subseteq> to_taint d \<union> names (filter (\<lambda>n. \<not> skipped_node cfg now reserved n) grp)"
  by (rule candidate_pass_inv [where I = "\<lambda>c. to_taint (cl_decision c)
        \<subseteq> to_taint d \<union> names (filter (\<lambda>n. \<not> skipped_node cfg now reserved n) grp)", OF assms])
    (simp, rule candidate_eligible, auto)

lemma candidate_untaint_in:
  "to_untaint (cl_decision c) \<subseteq> T \<Longrightarrow> (is_tainted n \<Longrightarrow> ns_name n \<in> T) \<Longrightarrow>
     to_untaint (cl_decision (taint_candidate cfg grp surplus dr n c)) \<subseteq> T"
  using candidate_untaint [of cfg grp surplus dr n c] by (auto split: if_splits)

lemma pass_untaint:
  assumes "distinct (map ns_name grp)" "touched d \<inter> names grp = {}"
  shows "to_untaint (cl_decision (candidate_pass cfg now reserved grp surplus d))
           \<subseteq> to_untaint d \<union> names (filter is_tainted grp)"
  by (rule candidate_pass_inv [where I = "\<lambda>c. to_untaint (cl_decision c)
        \<subseteq> to_untaint d \<union> names (filter is_tainted grp)", OF assms])
    (force simp: untaint_all_eq, rule candidate_untaint_in, auto)

lemma candidate_rate_limited_in:
  "rate_limited (cl_decision c) \<subseteq> T \<Longrightarrow> (\<not> is_tainted n \<Longrightarrow> ns_name n \<in> T) \<Longrightarrow>
     rate_limited (cl_decision (taint_candidate cfg grp surplus dr n c)) \<subseteq> T"
  using candidate_rate_limited [of cfg grp surplus dr n c] by (auto split: if_splits)

lemma pass_rate_limited:
  assumes "distinct (map ns_name grp)" "touched d \<inter> names grp = {}"
  shows "rate_limited (cl_decision (candidate_pass cfg now reserved grp surplus d))
           \<subseteq> rate_limited d \<union> names (filter (\<lambda>n. \<not> is_tainted n) grp)"
  by (rule candidate_pass_inv [where I = "\<lambda>c. rate_limited (cl_decision c)
        \<subseteq> rate_limited d \<union> names (filter (\<lambda>n. \<not> is_tainted n) grp)", OF assms])
    (simp, rule candidate_rate_limited_in, auto)

lemma pass_spare:
  fixes cfg now reserved grp surplus d
  defines "c \<equiv> candidate_pass cfg now reserved grp surplus d"
  assumes "distinct (map ns_name grp)" "touched d \<inter> names grp = {}"
  shows "to_taint (cl_decision c) \<inter> names grp = {} \<or> required_spare cfg grp \<le> 0
    \<or> required_spare cfg grp \<le> int (count_spare_nodes grp None (to_taint (cl_decision c)) (spare_capacity_threshold cfg))"
  unfolding c_def
  by (rule candidate_pass_inv [where I = "\<lambda>c. to_taint (cl_decision c) \<inter> names grp = {} \<or> required_spare cfg grp \<le> 0
      \<or> required_spare cfg grp \<le> int (count_spare_nodes grp None (to_taint (cl_decision c)) (spare_capacity_threshold cfg))",
      OF assms(2,3)])
    (simp add: fresh_to_taint [OF assms(3)], rule candidate_spare)

lemma pass_fit:
  fixes cfg now reserved grp surplus d
  defines "dr \<equiv> drop (nat surplus) (taint_candidates cfg now reserved grp)"
    and "c \<equiv> candidate_pass cfg now reserved grp surplus d"
  assumes "distinct (map ns_name grp)" "touched d \<inter> names grp = {}"
  shows "\<forall>n \<in> set grp. ns_name n \<in> to_taint (cl_decision c) \<longrightarrow>
    pods_fit_on_nodes (real_pods n) (dr @ conditionally_remaining c)"
  unfolding c_def
proof (rule candidate_pass_inv [where I = "\<lambda>c. \<forall>n \<in> set grp. ns_name n \<in> to_taint (cl_decision c) \<longrightarrow>
      pods_fit_on_nodes (real_pods n) (dr @ conditionally_remaining c)", OF assms(3,4)])
  show "\<forall>n \<in> set grp. ns_name n \<in> to_taint (cl_decision \<lparr>cl_decision = untaint_all (filter (skipped_node cfg now reserved) grp) d,
      taint_count = 0, new_taint_count = 0, conditionally_remaining = []\<rparr>) \<longrightarrow>
    pods_fit_on_nodes (real_pods n) (dr @ conditionally_remaining \<lparr>cl_decision = untaint_all (filter (skipped_node cfg now reserved) grp) d,
      taint_count = 0, new_taint_count = 0, conditionally_remaining = []\<rparr>)"
    using fresh_to_taint [OF assms(4)] by auto
qed (unfold dr_def, rule candidate_fit [OF assms(3)])

subsection \<open>One group\<close>

lemma low_names_rate_limited:
  assumes "distinct (map ns_name grp)" "R \<inter> names grp = {}"
    "rate_limited d \<subseteq> R \<union> names (filter (\<lambda>n. \<not> is_tainted n) grp)"
  shows "names (tainted_low cfg grp d) \<inter> rate_limited d = {}"
proof -
  have "ns_name n \<noteq> ns_name m" if "n \<in> set grp" "m \<in> set grp" "is_tainted n" "\<not> is_tainted m" for n m
    using same_name [OF assms(1) that(1,2)] that by auto
  then show ?thesis using assms(2,3) by (fastforce simp: set_tainted_low)
qed

lemma names_tainted_low: "names (tainted_low cfg grp d) \<subseteq> names (filter is_tainted grp)"
  by (auto simp: set_tainted_low)

lemma spare_recovery_taint:
  "to_taint (spare_recovery cfg grp d) \<subseteq> to_taint d \<and> rate_limited (spare_recovery cfg grp d) = rate_limited d"
  using recover_spare_taint by (simp add: spare_recovery_def Let_def)

lemma spare_recovery_untaint:
  "to_untaint (spare_recovery cfg grp d) \<subseteq> to_untaint d \<union> names (filter is_tainted grp)"
proof -
  have "to_untaint (recover_spare r (tainted_low cfg grp d) c d) \<subseteq> to_untaint d \<union> names (filter is_tainted grp)" for r c
    using recover_spare_untaint [of r "tainted_low cfg grp d" c d] names_tainted_low [of cfg grp d] by blast
  then show ?thesis by (auto simp: spare_recovery_def Let_def)
qed

lemma spare_recovery_frame:
  assumes "names grp \<inter> A = {}" shows "decision_on A (spare_recovery cfg grp d) = decision_on A d"
proof -
  have "names (tainted_low cfg grp d) \<inter> A = {}" using assms by (auto simp: set_tainted_low)
  then show ?thesis by (simp add: spare_recovery_def Let_def recover_spare_frame)
qed

lemma taint_group_frame:
  "names grp \<inter> A = {} \<Longrightarrow> decision_on A (taint_group cfg now reserved grp m d) = decision_on A d"
  by (simp add: taint_group_def Let_def frame_untaint_all spare_recovery_frame candidate_pass_frame)

lemma taint_group_consistent:
  assumes "distinct (map ns_name grp)" "touched d \<inter> names grp = {}" "consistent d"
  shows "consistent (taint_group cfg now reserved grp m d)"
proof -
  have "consistent (spare_recovery cfg grp (cl_decision (candidate_pass cfg now reserved grp s d)))" for s
  proof -
    let ?d = "cl_decision (candidate_pass cfg now reserved grp s d)"
    have c: "consistent ?d" using assms by (rule pass_consistent)
    have "rate_limited d \<inter> names grp = {}" using assms(2) by (auto simp: touched_def)
    from low_names_rate_limited [OF assms(1) this pass_rate_limited [OF assms(1,2)]]
    show ?thesis using c by (simp add: spare_recovery_def Let_def recover_spare_consistent)
  qed
  then show ?thesis using assms by (simp add: taint_group_def Let_def consistent_untaint_all)
qed

lemma taint_group_untaint:
  assumes "distinct (map ns_name grp)" "touched d \<inter> names grp = {}"
  shows "to_untaint (taint_group cfg now reserved grp m d) \<subseteq> to_untaint d \<union> names (filter is_tainted grp)"
proof -
  have "to_untaint (spare_recovery cfg grp (cl_decision (candidate_pass cfg now reserved grp s d)))
      \<subseteq> to_untaint d \<union> names (filter is_tainted grp)" for s
    using spare_recovery_untaint [of cfg grp "cl_decision (candidate_pass cfg now reserved grp s d)"]
      pass_untaint [OF assms, of cfg now reserved s] by blast
  then show ?thesis by (auto simp: taint_group_def Let_def untaint_all_eq)
qed

lemma taint_group_eligible:
  assumes "distinct (map ns_name grp)" "touched d \<inter> names grp = {}"
  shows "to_taint (taint_group cfg now reserved grp m d)
           \<subseteq> to_taint d \<union> names (filter (\<lambda>n. \<not> skipped_node cfg now reserved n) grp)"
proof -
  have "to_taint (spare_recovery cfg grp (cl_decision (candidate_pass cfg now reserved grp s d)))
      \<subseteq> to_taint d \<union> names (filter (\<lambda>n. \<not> skipped_node cfg now reserved n) grp)" for s
    using spare_recovery_taint [of cfg grp "cl_decision (candidate_pass cfg now reserved grp s d)"]
      pass_eligible [OF assms, of cfg now reserved s] by blast
  then show ?thesis by (auto simp: taint_group_def Let_def)
qed

lemma taint_group_surplus:
  assumes "distinct (map ns_name grp)" "touched d \<inter> names grp = {}"
  shows "int (card (to_taint (taint_group cfg now reserved grp m d) \<inter> names grp)) \<le> max 0 (int (length grp) - m)"
proof (cases "int (length grp) - m \<le> 0")
  case True
  then show ?thesis using fresh_to_taint [OF assms(2)] by (simp add: taint_group_def)
next
  case False
  let ?d = "cl_decision (candidate_pass cfg now reserved grp (int (length grp) - m) d)"
  have "card (to_taint (spare_recovery cfg grp ?d) \<inter> names grp) \<le> card (to_taint ?d \<inter> names grp)"
    using spare_recovery_taint [of cfg grp ?d] by (intro card_mono) auto
  then show ?thesis using False pass_taint_count [OF assms, of "int (length grp) - m" cfg now reserved]
    by (simp add: taint_group_def)
qed

lemma taint_group_new_taints:
  assumes "distinct (map ns_name grp)" "touched d \<inter> names grp = {}"
  shows "int (card (to_taint (taint_group cfg now reserved grp m d) \<inter> names (filter (\<lambda>n. \<not> is_tainted n) grp)))
           \<le> (if int (length grp) \<le> m then 0 else max_new_taints cfg (int (length grp) - m))"
proof (cases "int (length grp) - m \<le> 0")
  case True
  have "touched d \<inter> names (filter (\<lambda>n. \<not> is_tainted n) grp) = {}" using assms(2) by auto
  from fresh_to_taint [OF this] show ?thesis using True by (simp add: taint_group_def)
next
  case False
  let ?d = "cl_decision (candidate_pass cfg now reserved grp (int (length grp) - m) d)"
  let ?N = "names (filter (\<lambda>n. \<not> is_tainted n) grp)"
  have "card (to_taint (spare_recovery cfg grp ?d) \<inter> ?N) \<le> card (to_taint ?d \<inter> ?N)"
    using spare_recovery_taint [of cfg grp ?d] by (intro card_mono) auto
  then show ?thesis using False pass_new_count [OF assms, of cfg now reserved "int (length grp) - m"]
    by (simp add: taint_group_def)
qed

lemma taint_group_spare:
  assumes "distinct (map ns_name grp)" "touched d \<inter> names grp = {}"
  shows "to_taint (taint_group cfg now reserved grp m d) \<inter> names grp = {} \<or> required_spare cfg grp \<le> 0
    \<or> required_spare cfg grp \<le> int (count_spare_nodes grp None
         (to_taint (taint_group cfg now reserved grp m d)) (spare_capacity_threshold cfg))"
proof (cases "int (length grp) - m \<le> 0")
  case True
  then show ?thesis using fresh_to_taint [OF assms(2)] by (simp add: taint_group_def)
next
  case False
  let ?d = "cl_decision (candidate_pass cfg now reserved grp (int (length grp) - m) d)"
  have t: "to_taint (spare_recovery cfg grp ?d) \<subseteq> to_taint ?d" using spare_recovery_taint by blast
  have g: "taint_group cfg now reserved grp m d = spare_recovery cfg grp ?d" using False by (simp add: taint_group_def)
  show ?thesis unfolding g
    using pass_spare [OF assms, of cfg now reserved "int (length grp) - m"]
      count_spare_antimono [OF t, of grp "spare_capacity_threshold cfg"] t by fastforce
qed

lemma taint_group_recovery:
  assumes "distinct (map ns_name grp)" "touched d \<inter> names grp = {}" "consistent d" "m < int (length grp)"
  shows "required_spare cfg grp \<le> int (effective_spare grp (taint_group cfg now reserved grp m d) (spare_capacity_threshold cfg))
    \<or> (\<forall>n \<in> set grp. is_tainted n \<and> utilization n \<le> spare_capacity_threshold cfg \<longrightarrow>
         ns_name n \<in> to_untaint (taint_group cfg now reserved grp m d))"
proof -
  let ?d = "cl_decision (candidate_pass cfg now reserved grp (int (length grp) - m) d)"
  let ?thr = "spare_capacity_threshold cfg" and ?req = "required_spare cfg grp"
  let ?c = "int (count_spare_nodes grp None (to_taint ?d) ?thr)"
  let ?low = "tainted_low cfg grp ?d"
  have g: "taint_group cfg now reserved grp m d = spare_recovery cfg grp ?d" using assms(4) by (simp add: taint_group_def)
  have eff: "?c \<le> int (effective_spare grp ?d ?thr)" using count_le_effective by simp
  show ?thesis
  proof (cases "0 < ?req \<and> ?c < ?req")
    case False
    then have "spare_recovery cfg grp ?d = ?d" by (auto simp: spare_recovery_def Let_def)
    moreover have "?req \<le> int (effective_spare grp ?d ?thr)" using False eff by linarith
    ultimately show ?thesis by (simp add: g)
  next
    case True
    then have r: "spare_recovery cfg grp ?d = recover_spare ?req ?low ?c ?d" by (simp add: spare_recovery_def)
    have "rate_limited d \<inter> names grp = {}" using assms(2) by (auto simp: touched_def)
    from low_names_rate_limited [OF assms(1) this pass_rate_limited [OF assms(1,2)]]
    have lr: "names ?low \<inter> rate_limited ?d = {}" .
    have "distinct (map ns_name ?low)" using assms(1) by (simp add: tainted_low_def distinct_map_filter)
    from recover_spare_effective [OF assms(1) this pass_consistent [OF assms(1,2,3)] _ eff lr, of ?req]
    have "?req \<le> int (effective_spare grp (recover_spare ?req ?low ?c ?d) ?thr)
        \<or> names ?low \<subseteq> to_untaint (recover_spare ?req ?low ?c ?d)"
      by (auto simp: set_tainted_low)
    moreover have "ns_name n \<in> to_untaint (recover_spare ?req ?low ?c ?d)"
      if "names ?low \<subseteq> to_untaint (recover_spare ?req ?low ?c ?d)" "n \<in> set grp" "is_tainted n" "utilization n \<le> ?thr" for n
      using that recover_spare_untaint [of ?req ?low ?c ?d] by (cases "ns_name n \<in> to_untaint ?d") (auto simp: set_tainted_low)
    ultimately show ?thesis unfolding g r by blast
  qed
qed

end
