(* ===== verification/Compactor_Decisions.thy ===== *)
theory Compactor_Decisions
  imports Compactor_Groups
begin

section \<open>Node compactor: what a computed decision guarantees\<close>

text \<open>
  From one group to all: the groups are disjoint, so the final decision restricted to the names of
  a group is the decision the loop took for that group. The theorems state what this gives for the
  nodes of a group after \<open>compute_taints\<close>.
\<close>

subsection \<open>All groups\<close>

definition peak_ok :: "Config \<Rightarrow> (string \<Rightarrow> flt) \<Rightarrow> PeakHistory option \<Rightarrow> bool" where
  \<comment> \<open>no peak tracking, or a clock that reads binary64 numbers and a window that is not negative\<close>
  "peak_ok cfg mclk hist \<longleftrightarrow> hist = None \<or> 0 \<le> peak_window_seconds cfg \<and> (\<forall>g. fl (mclk g) = mclk g)"

definition group_fn :: "(NodeState \<Rightarrow> string) option \<Rightarrow> NodeState \<Rightarrow> string" where
  "group_fn group_key = (case group_key of None \<Rightarrow> nodepool | Some f \<Rightarrow> f)"

definition group_of :: "(NodeState \<Rightarrow> string) option \<Rightarrow> (string, NodeState) dict \<Rightarrow> string \<Rightarrow> NodeState list" where
  \<comment> \<open>the nodes of a group, in the order of the dictionary\<close>
  "group_of group_key states g = filter (\<lambda>n. group_fn group_key n = g) (dvals states)"

definition disjoint_groups :: "(string \<times> NodeState list) list \<Rightarrow> bool" where
  "disjoint_groups gs \<longleftrightarrow> sorted_wrt (\<lambda>a b. names (snd a) \<inter> names (snd b) = {}) gs
     \<and> (\<forall>(g, grp) \<in> set gs. distinct (map ns_name grp))"

lemma distinct_group_of: "wf_states states \<Longrightarrow> distinct (map ns_name (group_of gk states g))"
  by (simp add: group_of_def distinct_map_filter wf_states_distinct)

lemma disjoint_group_by:
  assumes "distinct (map ns_name ns)"
  shows "disjoint_groups (group_by f ns [])"
proof -
  let ?gs = "group_by f ns []"
  have e: "grp = filter (\<lambda>x. f x = g) ns" if "(g, grp) \<in> set ?gs" for g grp
    using group_by_entry(1) [OF that] .
  have "names a \<inter> names b = {}" if ab: "(g, a) \<in> set ?gs" "(h, b) \<in> set ?gs" "g \<noteq> h" for g h a b
    unfolding e [OF ab(1)] e [OF ab(2)] using ab(3) distinct_map_filter_eq [OF assms] by auto
  then have "sorted_wrt (\<lambda>a b. names (snd a) \<inter> names (snd b) = {}) ?gs"
    using distinct_dkeys_group_by [of f ns] by (intro sorted_wrt_distinct_keys) (auto simp: dkeys_def)
  moreover have "distinct (map ns_name grp)" if "(g, grp) \<in> set ?gs" for g grp
    unfolding e [OF that] using assms by (simp add: distinct_map_filter)
  ultimately show ?thesis by (auto simp: disjoint_groups_def)
qed

definition recent_samples :: "Config \<Rightarrow> flt \<Rightarrow> PeakHistory option \<Rightarrow> string \<Rightarrow> (flt \<times> int) list" where
  \<comment> \<open>the samples of a group that still count at time \<open>t\<close>\<close>
  "recent_samples cfg t hist g =
     (case hist of None \<Rightarrow> []
      | Some h \<Rightarrow>
          (let k = keep_recent (fsub t (fi (peak_window_seconds cfg))) (dget_or h g []) in
           drop (length k + 1 - nat (max_entries (interval cfg) (peak_window_seconds cfg))) k))"

definition peak_bound :: "Config \<Rightarrow> flt \<Rightarrow> PeakHistory option \<Rightarrow> string \<Rightarrow> int \<Rightarrow> bool" where
  "peak_bound cfg t hist g p \<longleftrightarrow> (\<forall>v \<in> snd ` set (recent_samples cfg t hist g). v \<le> p)"

lemma peak_bound_mono: "peak_bound cfg t hist g p \<Longrightarrow> p \<le> q \<Longrightarrow> peak_bound cfg t hist g q"
  by (fastforce simp: peak_bound_def)

definition same_samples :: "string \<Rightarrow> PeakHistory option \<Rightarrow> PeakHistory option \<Rightarrow> bool" where
  \<comment> \<open>the two histories agree on every group but one\<close>
  "same_samples g hist hist' \<longleftrightarrow> (\<forall>k cfg t. k \<noteq> g \<longrightarrow> recent_samples cfg t hist' k = recent_samples cfg t hist k)"

lemma peak_step:
  assumes "peak_ok cfg mclk hist"
  obtains p hist' where "m \<le> p" "peak_bound cfg (mclk g) hist g p"
    "(case hist of None \<Rightarrow> (Inr m, None)
      | Some h \<Rightarrow> (case update_peak_history (mclk g) h g m (interval cfg) (peak_window_seconds cfg) of
                    (r, h') \<Rightarrow> (r, Some h'))) = (Inr p, hist')"
    "peak_ok cfg mclk hist'" "same_samples g hist hist'"
proof (cases hist)
  case None
  then show ?thesis using that [of m None]
    by (simp add: peak_ok_def peak_bound_def recent_samples_def same_samples_def)
next
  case (Some h)
  then have ok: "fl (mclk g) = mclk g" "0 \<le> peak_window_seconds cfg" using assms by (auto simp: peak_ok_def)
  let ?ys = "recent_samples cfg (mclk g) hist g"
  from update_peak_eq [OF ok, of h g m "interval cfg"] have u:
    "update_peak_history (mclk g) h g m (interval cfg) (peak_window_seconds cfg) =
       (Inr (Max (insert m (snd ` set ?ys))), dset g (?ys @ [(mclk g, m)]) h)"
    using Some by (simp add: recent_samples_def Let_def)
  moreover have "peak_ok cfg mclk (Some h')" for h' using assms Some by (simp add: peak_ok_def)
  moreover have "same_samples g hist (Some (dset g xs h))" for xs
    using Some by (simp add: same_samples_def recent_samples_def dict_simps)
  moreover have "peak_bound cfg (mclk g) hist g (Max (insert m (snd ` set ?ys)))" by (auto simp: peak_bound_def intro: Max_ge)
  ultimately show ?thesis
    using that [of "Max (insert m (snd ` set ?ys))" "Some (dset g (?ys @ [(mclk g, m)]) h)"] Some by simp
qed

lemma taint_groups_step:
  assumes "peak_ok cfg mclk hist"
  obtains p hist' where "int (bin_pack_min_nodes (group_pods cfg now pending grp) grp) \<le> p"
    "peak_bound cfg (mclk g) hist g p" "peak_ok cfg mclk hist'" "same_samples g hist hist'"
    "taint_groups cfg now mclk reserved pending ((g, grp) # rest) hist d =
       taint_groups cfg now mclk reserved pending rest hist' (taint_group cfg now reserved grp (max p (min_nodes cfg)) d)"
proof -
  let ?m = "int (bin_pack_min_nodes (group_pods cfg now pending grp) grp)"
  from peak_step [OF assms, where m = ?m and g = g] obtain p hist' where
    "?m \<le> p" "peak_bound cfg (mclk g) hist g p" "(case hist of None \<Rightarrow> (Inr ?m, None)
      | Some h \<Rightarrow> (case update_peak_history (mclk g) h g ?m (interval cfg) (peak_window_seconds cfg) of
                    (r, h') \<Rightarrow> (r, Some h'))) = (Inr p, hist')" "peak_ok cfg mclk hist'" "same_samples g hist hist'" .
  then show ?thesis using that [of p hist'] by simp
qed

lemma taint_groups_frame:
  assumes "peak_ok cfg mclk hist" "\<forall>(g, grp) \<in> set gs. names grp \<inter> A = {}"
  shows "\<exists>d'. fst (taint_groups cfg now mclk reserved pending gs hist d) = Inr d' \<and> decision_on A d' = decision_on A d"
  using assms
proof (induction gs arbitrary: hist d)
  case (Cons x gs)
  obtain g grp where x: "x = (g, grp)" by (cases x)
  from taint_groups_step [OF Cons.prems(1)] obtain p hist' where s: "peak_ok cfg mclk hist'"
    "taint_groups cfg now mclk reserved pending (x # gs) hist d =
       taint_groups cfg now mclk reserved pending gs hist' (taint_group cfg now reserved grp (max p (min_nodes cfg)) d)"
    unfolding x by blast
  have "names grp \<inter> A = {}" "\<forall>(g, grp) \<in> set gs. names grp \<inter> A = {}" using Cons.prems(2) x by auto
  then show ?case using Cons.IH [OF s(1), of "taint_group cfg now reserved grp (max p (min_nodes cfg)) d"]
    by (simp only: s(2) taint_group_frame)
qed simp

lemma touched_on: "touched (decision_on A d) = touched d \<inter> A"
  by (auto simp: touched_def decision_on_def)

lemma touched_group: "touched (taint_group cfg now reserved grp m d) \<subseteq> touched d \<union> names grp"
proof -
  have "decision_on (- names grp) (taint_group cfg now reserved grp m d) = decision_on (- names grp) d"
    by (rule taint_group_frame) auto
  then have "touched (taint_group cfg now reserved grp m d) \<inter> (- names grp) = touched d \<inter> (- names grp)"
    by (metis touched_on)
  then show ?thesis by blast
qed

lemma taint_groups_member:
  assumes "peak_ok cfg mclk hist" "disjoint_groups gs" "consistent d"
    "\<forall>(g, grp) \<in> set gs. touched d \<inter> names grp = {}" "(g, grp) \<in> set gs" "distinct (map fst gs)"
  shows "\<exists>m d0 d'. int (bin_pack_min_nodes (group_pods cfg now pending grp) grp) \<le> m \<and> min_nodes cfg \<le> m
     \<and> peak_bound cfg (mclk g) hist g m
     \<and> touched d0 \<inter> names grp = {} \<and> consistent d0
     \<and> fst (taint_groups cfg now mclk reserved pending gs hist d) = Inr d'
     \<and> decision_on (names grp) d' = decision_on (names grp) (taint_group cfg now reserved grp m d0)"
  using assms
proof (induction gs arbitrary: hist d)
  case (Cons x gs)
  obtain g1 grp1 where x: "x = (g1, grp1)" by (cases x)
  from taint_groups_step [OF Cons.prems(1)] obtain p hist' where p: "peak_ok cfg mclk hist'"
    "int (bin_pack_min_nodes (group_pods cfg now pending grp1) grp1) \<le> p"
    "peak_bound cfg (mclk g1) hist g1 p" "same_samples g1 hist hist'"
    and s: "taint_groups cfg now mclk reserved pending (x # gs) hist d =
       taint_groups cfg now mclk reserved pending gs hist' (taint_group cfg now reserved grp1 (max p (min_nodes cfg)) d)"
    unfolding x by metis
  let ?d = "taint_group cfg now reserved grp1 (max p (min_nodes cfg)) d"
  have dist: "distinct (map ns_name grp1)" and rest: "disjoint_groups gs"
    and dj': "\<forall>b \<in> set gs. names grp1 \<inter> names (snd b) = {}"
    using Cons.prems(2) by (auto simp: disjoint_groups_def x)
  have dj: "\<forall>(g, grp) \<in> set gs. names grp1 \<inter> names grp = {}" using dj' by fastforce
  have fresh: "touched d \<inter> names grp1 = {}" using Cons.prems(4) x by auto
  have c: "consistent ?d" using taint_group_consistent [OF dist fresh Cons.prems(3)] .
  show ?case
  proof (cases "(g, grp) \<in> set gs")
    case True
    have "\<forall>(g, grp) \<in> set gs. touched ?d \<inter> names grp = {}"
    proof (intro ballI, clarify)
      fix h b assume hb: "(h, b) \<in> set gs"
      have "touched d \<inter> names b = {}" "names grp1 \<inter> names b = {}" using Cons.prems(4) dj hb by fastforce+
      then show "touched ?d \<inter> names b = {}" using touched_group [of cfg now reserved grp1 "max p (min_nodes cfg)" d] by blast
    qed
    moreover have "g \<noteq> g1" "distinct (map fst gs)" using Cons.prems(6) True x by (auto simp: image_iff)
    moreover from this have "peak_bound cfg (mclk g) hist' g m = peak_bound cfg (mclk g) hist g m" for m
      using p(4) by (simp add: peak_bound_def same_samples_def)
    ultimately show ?thesis using Cons.IH [OF p(1) rest c _ True] unfolding s by simp
  next
    case False
    then have g: "grp = grp1" "g = g1" using Cons.prems(5) x by simp_all
    have "\<forall>(h, b) \<in> set gs. names b \<inter> names grp1 = {}" using dj by (simp add: Int_commute)
    from taint_groups_frame [OF p(1) this, of now reserved pending ?d] obtain d' where
      "fst (taint_groups cfg now mclk reserved pending gs hist' ?d) = Inr d'"
      "decision_on (names grp1) d' = decision_on (names grp1) ?d" by blast
    moreover have "int (bin_pack_min_nodes (group_pods cfg now pending grp1) grp1) \<le> max p (min_nodes cfg)"
      "min_nodes cfg \<le> max p (min_nodes cfg)" using p(2) by auto
    moreover have "peak_bound cfg (mclk g1) hist g1 (max p (min_nodes cfg))"
      using peak_bound_mono [OF p(3)] by simp
    ultimately show ?thesis unfolding g s using fresh Cons.prems(3) by blast
  qed
qed simp

lemma compute_taints_group:
  assumes "wf_states states" "peak_ok cfg mclk hist"
    and "grp = group_of gk states g" "grp \<noteq> []"
    and "fst (compute_taints now pt mclk states cfg reserved gk hist pending) = Inr d"
  obtains m d0 where "peak_bound cfg (mclk g) (map_option (prune_stale_peak_history pt (peak_window_seconds cfg)) hist) g m"
    "int (bin_pack_min_nodes (group_pods cfg now pending grp) grp) \<le> m" "min_nodes cfg \<le> m"
    "touched d0 \<inter> names grp = {}" "consistent d0" "distinct (map ns_name grp)"
    "decision_on (names grp) d = decision_on (names grp) (taint_group cfg now reserved grp m d0)"
proof -
  let ?gs = "group_by (group_fn gk) (dvals states) []"
  let ?h = "map_option (prune_stale_peak_history pt (peak_window_seconds cfg)) hist"
  have ne: "states \<noteq> []" using assms(3,4) by (auto simp: dvals_def group_of_def)
  have e: "compute_taints now pt mclk states cfg reserved gk hist pending =
      taint_groups cfg now mclk reserved pending ?gs ?h no_decision"
    using ne by (simp add: compute_taints_def group_fn_def Let_def)
  have ok: "peak_ok cfg mclk ?h" using assms(2) by (auto simp: peak_ok_def)
  have "dget ?gs g = Some grp"
    using assms(4) by (auto simp: dget_group_by assms(3) group_of_def filter_empty_conv)
  then have gin: "(g, grp) \<in> set ?gs" by (simp add: dget_def map_of_SomeD)
  have dj: "disjoint_groups ?gs" using assms(1) by (intro disjoint_group_by wf_states_distinct)
  have nd: "consistent no_decision" "\<forall>(g, grp) \<in> set ?gs. touched no_decision \<inter> names grp = {}"
    by (auto simp: consistent_def touched_def no_decision_def)
  have dn: "distinct (map fst ?gs)" using distinct_dkeys_group_by by (simp add: dkeys_def)
  from taint_groups_member [OF ok dj nd gin dn, of now pending reserved] obtain m d0 d' where *: "peak_bound cfg (mclk g) ?h g m"
     "int (bin_pack_min_nodes (group_pods cfg now pending grp) grp) \<le> m"
     "min_nodes cfg \<le> m" "touched d0 \<inter> names grp = {}" "consistent d0"
     "fst (taint_groups cfg now mclk reserved pending ?gs ?h no_decision) = Inr d'"
     "decision_on (names grp) d' = decision_on (names grp) (taint_group cfg now reserved grp m d0)" by blast
  have "d = d'" using *(6) assms(5) e by simp
  then show ?thesis using that [OF *(1-5)] *(7) assms(1,3) by (simp add: distinct_group_of)
qed

lemma compute_taints_total:
  assumes "peak_ok cfg mclk hist"
  shows "\<exists>d. fst (compute_taints now pt mclk states cfg reserved gk hist pending) = Inr d
     \<and> touched d \<subseteq> names (dvals states)"
proof (cases "states = []")
  case True
  then show ?thesis by (simp add: compute_taints_def touched_def no_decision_def)
next
  case False
  let ?gs = "group_by (group_fn gk) (dvals states) []"
  let ?h = "map_option (prune_stale_peak_history pt (peak_window_seconds cfg)) hist"
  have ok: "peak_ok cfg mclk ?h" using assms by (auto simp: peak_ok_def)
  have "\<forall>(g, grp) \<in> set ?gs. names grp \<inter> - names (dvals states) = {}"
    using group_by_entry(1) [of _ _ "group_fn gk" "dvals states"] by fastforce
  from taint_groups_frame [OF ok this, of now reserved pending no_decision] obtain d where
    d: "fst (taint_groups cfg now mclk reserved pending ?gs ?h no_decision) = Inr d"
    "decision_on (- names (dvals states)) d = decision_on (- names (dvals states)) no_decision" by blast
  from d(2) have "touched d \<inter> - names (dvals states) = touched no_decision \<inter> - names (dvals states)"
    by (metis touched_on)
  then have "touched d \<subseteq> names (dvals states)" by (auto simp: touched_def no_decision_def)
  then show ?thesis using d(1) False by (simp add: compute_taints_def group_fn_def Let_def)
qed

subsection \<open>What a computed decision guarantees\<close>

lemma decision_onD:
  assumes "decision_on A d = decision_on A e"
  shows "to_taint d \<inter> A = to_taint e \<inter> A" "to_untaint d \<inter> A = to_untaint e \<inter> A"
    "mandatory_untaint d \<inter> A = mandatory_untaint e \<inter> A" "rate_limited d \<inter> A = rate_limited e \<inter> A"
  using assms by (simp_all add: decision_on_def)

lemma count_spare_on:
  "T \<inter> names grp = T' \<inter> names grp \<Longrightarrow> count_spare_nodes grp x T thr = count_spare_nodes grp x T' thr"
  unfolding count_spare_nodes_def by (intro arg_cong [of _ _ length] filter_cong) auto

lemma effective_spare_on:
  assumes "decision_on (names grp) d = decision_on (names grp) e"
  shows "effective_spare grp d thr = effective_spare grp e thr"
  unfolding effective_spare_def using decision_onD [OF assms]
  by (intro arg_cong [of _ _ length] filter_cong) auto

lemma group_cases:
  assumes "n \<in> set (dvals states)"
  shows "n \<in> set (group_of gk states (group_fn gk n))" "group_of gk states (group_fn gk n) \<noteq> []"
  using assms by (auto simp: group_of_def filter_empty_conv)

lemma consistent_on:
  assumes "touched d \<subseteq> N" "\<And>x. x \<in> N \<Longrightarrow> \<exists>A e. x \<in> A \<and> consistent e \<and> decision_on A d = decision_on A e"
  shows "consistent d"
proof -
  have "(x \<in> mandatory_untaint d \<longrightarrow> x \<in> to_untaint d) \<and> \<not> (x \<in> to_taint d \<and> x \<in> to_untaint d)
      \<and> \<not> (x \<in> to_taint d \<and> x \<in> rate_limited d) \<and> \<not> (x \<in> to_untaint d \<and> x \<in> rate_limited d)" for x
  proof (cases "x \<in> N")
    case True
    from assms(2) [OF this] obtain A e where "x \<in> A" "consistent e" "decision_on A d = decision_on A e" by blast
    then show ?thesis using decision_onD [of A d e] by (auto simp: consistent_def)
  qed (use assms(1) in \<open>auto simp: touched_def\<close>)
  then show ?thesis unfolding consistent_def by blast
qed

lemma max_new_taints_mono: "0 \<le> taint_rate cfg \<Longrightarrow> a \<le> b \<Longrightarrow> max_new_taints cfg a \<le> max_new_taints cfg b"
  unfolding max_new_taints_def
  by (intro max.mono order_refl fceil_mono) (simp add: fmul_def fl_mono fi_mono mult_right_mono)

lemma recent_prune:
  assumes "pt \<le> t"
  shows "recent_samples cfg t (map_option (prune_stale_peak_history pt (peak_window_seconds cfg)) hist) g
           = recent_samples cfg t hist g"
proof -
  have "fsub pt w \<le> fsub t w" for w using assms by (simp add: fsub_def fl_mono)
  then have "keep_recent (fsub t w) (keep_recent (fsub pt w) vs) = keep_recent (fsub t w) vs" for w vs
    by (fastforce simp: keep_recent_def intro: filter_cong order_trans)
  moreover have "keep_recent c [] = []" for c by (simp add: keep_recent_def)
  ultimately have "keep_recent (fsub t w) (dget_or (prune_stale_peak_history pt (peak_window_seconds cfg) h) g [])
      = keep_recent (fsub t w) (dget_or h g [])" if "w = fi (peak_window_seconds cfg)" for h w
    using that by (auto simp: dget_or_def dget_prune Let_def split: option.splits) metis
  then show ?thesis by (simp add: recent_samples_def split: option.split)
qed

end
