(* ===== verification/Compactor_Phantom.thy ===== *)
theory Compactor_Phantom
  imports Compactor_Taints
begin

section \<open>Node compactor: phantom load (\<open>phantom.py\<close>)\<close>

text \<open>
  Pending pods that are about to be scheduled are placed on nodes as phantom pods, on the least
  utilised compatible untainted node whose phantom load stays below the cap. The node objects are
  mutated in place; here the dictionary of node states is passed through the loop.
\<close>

definition PHANTOM_MAX_PENDING_SECONDS :: flt where "PHANTOM_MAX_PENDING_SECONDS = 120"

definition PHANTOM_MIN_PENDING_SECONDS :: flt where "PHANTOM_MIN_PENDING_SECONDS = 30"

definition PHANTOM_LOAD_CAP :: flt where "PHANTOM_LOAD_CAP = fl (3 / 10)"

record phantom_loop =
  pl_states :: "(string, NodeState) dict"
  phantom_cpu :: "(string, flt) dict"
  phantom_memory :: "(string, int) dict"
  phantom_gpu :: "(string, int) dict"
  placed_count :: nat
  target_nodes :: "string set"

definition phantom_age_ok :: "int \<Rightarrow> Pod \<Rightarrow> bool" where
  \<comment> \<open>the pod survives the two \<open>continue\<close>s of the age filter\<close>
  "phantom_age_ok now pod =
     (case pod_meta pod of
        None \<Rightarrow> True
      | Some m \<Rightarrow>
          (case creation_ts m of
             None \<Rightarrow> True
           | Some ts \<Rightarrow>
               (let age = total_seconds (now - ts) in
                \<not> age < PHANTOM_MIN_PENDING_SECONDS \<and> \<not> PHANTOM_MAX_PENDING_SECONDS < age)))"

definition phantom_under_cap :: "phantom_loop \<Rightarrow> flt \<Rightarrow> int \<Rightarrow> int \<Rightarrow> NodeState \<Rightarrow> bool" where
  "phantom_under_cap l cpu_req mem_req gpu_req c =
     (let name = ns_name c in
      \<not> (0 < allocatable_cpu c
         \<and> PHANTOM_LOAD_CAP < fdiv (fadd (dget_or (phantom_cpu l) name 0) cpu_req) (allocatable_cpu c))
      \<and> \<not> (0 < allocatable_memory c
         \<and> PHANTOM_LOAD_CAP < fdiv (of_int (dget_or (phantom_memory l) name 0 + mem_req)) (of_int (allocatable_memory c)))
      \<and> \<not> (0 < allocatable_gpu c
         \<and> PHANTOM_LOAD_CAP < fdiv (of_int (dget_or (phantom_gpu l) name 0 + gpu_req)) (of_int (allocatable_gpu c))))"

definition phantom_info :: "nat \<Rightarrow> Pod \<Rightarrow> string \<Rightarrow> PodInfo" where
  "phantom_info placed pod node_name =
     \<lparr>pi_name = ''phantom-'' @ (case pod_meta pod of None \<Rightarrow> str_nat placed | Some m \<Rightarrow> meta_name m),
      pi_namespace = (case pod_meta pod of None \<Rightarrow> ''unknown'' | Some m \<Rightarrow> meta_namespace m),
      cpu_request = pod_cpu_request pod, memory_request = pod_memory_request pod,
      pi_node_name = node_name, is_daemonset = False, start_time = None,
      gpu_request = pod_gpu_request pod, is_phantom = True\<rparr>"

definition add_pod :: "PodInfo \<Rightarrow> string \<Rightarrow> (string, NodeState) dict \<Rightarrow> (string, NodeState) dict" where
  \<comment> \<open>\<open>node_states[name].pods.append(p)\<close>\<close>
  "add_pod p name states =
     (case dget states name of None \<Rightarrow> states | Some ns \<Rightarrow> dset name (ns\<lparr>pods := pods ns @ [p]\<rparr>) states)"

definition place_phantom :: "Pod \<Rightarrow> NodeState \<Rightarrow> phantom_loop \<Rightarrow> phantom_loop" where
  "place_phantom pod c l =
     (let name = ns_name c in
      l\<lparr>pl_states := add_pod (phantom_info (placed_count l) pod name) name (pl_states l),
        phantom_cpu := dset name (fadd (dget_or (phantom_cpu l) name 0) (pod_cpu_request pod)) (phantom_cpu l),
        phantom_memory := dset name (dget_or (phantom_memory l) name 0 + pod_memory_request pod) (phantom_memory l),
        phantom_gpu := dset name (dget_or (phantom_gpu l) name 0 + pod_gpu_request pod) (phantom_gpu l),
        placed_count := Suc (placed_count l), target_nodes := insert name (target_nodes l)\<rparr>)"

definition phantom_candidates :: "Pod \<Rightarrow> (string, NodeState) dict \<Rightarrow> NodeState list" where
  "phantom_candidates pod states =
     sorted_by utilization (filter (pod_matches_node pod) (filter (\<lambda>ns. \<not> is_tainted ns) (dvals states)))"

definition phantom_step :: "int \<Rightarrow> Pod \<Rightarrow> phantom_loop \<Rightarrow> phantom_loop" where
  \<comment> \<open>one round of the loop over the pending pods\<close>
  "phantom_step now pod l =
     (if \<not> phantom_age_ok now pod then l
      else case find (phantom_under_cap l (pod_cpu_request pod) (pod_memory_request pod) (pod_gpu_request pod))
                  (phantom_candidates pod (pl_states l)) of
             None \<Rightarrow> l
           | Some c \<Rightarrow> place_phantom pod c l)"

definition phantom_start :: "(string, NodeState) dict \<Rightarrow> phantom_loop" where
  "phantom_start states = \<lparr>pl_states = states, phantom_cpu = [], phantom_memory = [], phantom_gpu = [],
     placed_count = 0, target_nodes = {}\<rparr>"

definition pool_phantom :: "(string, NodeState) dict \<Rightarrow> (string, int) dict" where
  \<comment> \<open>phantom pods per pool, pools without any left out\<close>
  "pool_phantom states =
     count_by nodepool (\<lambda>ns. int (length (filter is_phantom (pods ns))))
       (filter (\<lambda>ns. filter is_phantom (pods ns) \<noteq> []) (dvals states)) []"

definition apply_pending_phantom_load ::
  "env \<Rightarrow> (string, NodeState) dict \<Rightarrow> Pod list \<Rightarrow> trace \<Rightarrow> (string, NodeState) dict \<times> trace" where
  "apply_pending_phantom_load E states pending tr =
     (if pending = [] \<or> states = [] then (states, tr)
      else case utc_now E tr of
        (now, tr1) \<Rightarrow>
          (if filter (\<lambda>ns. \<not> is_tainted ns) (dvals states) = [] then (states, tr1)
           else
             let states' = pl_states (fold (phantom_step now) pending (phantom_start states)) in
             (states', emit (EvGauge ''compactor_phantom_load_pods''
                (map (\<lambda>(pool, n). ([pool], fi n)) (pool_phantom states'))) tr1)))"

subsection \<open>Properties\<close>

lemma dkeys_add_pod [simp]: "dkeys (add_pod p name states) = dkeys states"
  by (auto simp: add_pod_def dkeys_dset pd.get_keys [symmetric] split: option.split)

lemma dget_add_pod:
  "dget (add_pod p name states) k =
     (if k = name then map_option (\<lambda>ns. ns\<lparr>pods := pods ns @ [p]\<rparr>) (dget states k) else dget states k)"
  by (auto simp: add_pod_def dict_simps split: option.split)

lemma wf_states_get: "wf_states states \<Longrightarrow> n \<in> set (dvals states) \<longleftrightarrow> dget states (ns_name n) = Some n"
proof -
  assume w: "wf_states states"
  have "n \<in> set (dvals states) \<longleftrightarrow> (ns_name n, n) \<in> set states"
    using w by (force simp: wf_states_def dvals_def)
  then show ?thesis using w by (simp add: wf_states_def dget_def dkeys_def)
qed

lemma wf_states_iff: "wf_states states \<longleftrightarrow> distinct (dkeys states) \<and> (\<forall>k n. dget states k = Some n \<longrightarrow> ns_name n = k)"
  unfolding wf_states_def by (auto simp: dget_def dkeys_def dest: map_of_SomeD) 

lemma wf_add_pod: "wf_states states \<Longrightarrow> wf_states (add_pod p name states)"
  by (auto simp: wf_states_iff dget_add_pod)

text \<open>
  The invariant of the placement loop, against the states it started from. Every node keeps its
  fields and its pods, and gains phantom pods only, none if it carries the taint; the memory and GPU
  accounts are the sums over the phantom pods, and on a node with capacity the account is below the cap.
\<close>

definition phantoms :: "NodeState \<Rightarrow> PodInfo list" where
  "phantoms ns = filter is_phantom (pods ns)"

definition load_under_cap :: "int \<Rightarrow> int \<Rightarrow> bool" where
  "load_under_cap load alloc \<longleftrightarrow> 0 < alloc \<longrightarrow> fdiv (of_int load) (of_int alloc) \<le> PHANTOM_LOAD_CAP"

definition cpu_under_cap :: "PodInfo list \<Rightarrow> flt \<Rightarrow> bool" where
  "cpu_under_cap ph alloc \<longleftrightarrow> 0 < alloc \<longrightarrow> fdiv (foldl fadd 0 (map cpu_request ph)) alloc \<le> PHANTOM_LOAD_CAP"

definition phantom_node :: "NodeState \<Rightarrow> NodeState \<Rightarrow> bool" where
  \<comment> \<open>what the loop may have done to a node\<close>
  "phantom_node ns ns' \<longleftrightarrow>
     (\<exists>ph. ns' = ns\<lparr>pods := pods ns @ ph\<rparr> \<and> (\<forall>p \<in> set ph. is_phantom p \<and> \<not> is_daemonset p \<and> pi_node_name p = ns_name ns)
        \<and> (is_tainted ns \<longrightarrow> ph = [])
        \<and> (ph \<noteq> [] \<longrightarrow> load_under_cap (sum_list (map memory_request ph)) (allocatable_memory ns)
                     \<and> load_under_cap (sum_list (map gpu_request ph)) (allocatable_gpu ns)
                     \<and> cpu_under_cap ph (allocatable_cpu ns)
                     \<and> total_memory_used ns' \<le> allocatable_memory ns))"

definition phantom_inv :: "(string, NodeState) dict \<Rightarrow> phantom_loop \<Rightarrow> bool" where
  "phantom_inv states l \<longleftrightarrow> wf_states (pl_states l) \<and> dkeys (pl_states l) = dkeys states
     \<and> (\<forall>k ns. dget states k = Some ns \<longrightarrow> (\<exists>ns'. dget (pl_states l) k = Some ns' \<and> phantom_node ns ns'
          \<and> dget_or (phantom_memory l) k 0 = sum_list (map memory_request (drop (length (pods ns)) (pods ns')))
          \<and> dget_or (phantom_gpu l) k 0 = sum_list (map gpu_request (drop (length (pods ns)) (pods ns')))
          \<and> dget_or (phantom_cpu l) k 0 = foldl fadd 0 (map cpu_request (drop (length (pods ns)) (pods ns')))))"

lemma phantom_inv_start: "wf_states states \<Longrightarrow> phantom_inv states (phantom_start states)"
  unfolding phantom_inv_def phantom_start_def phantom_node_def by (auto intro!: exI [of _ "[]"])

lemma place_phantom_inv:
  assumes inv: "phantom_inv states l" and c: "c \<in> set (phantom_candidates pod (pl_states l))"
    and cap: "phantom_under_cap l (pod_cpu_request pod) (pod_memory_request pod) (pod_gpu_request pod) c"
  shows "phantom_inv states (place_phantom pod c l)"
proof -
  let ?name = "ns_name c" and ?p = "phantom_info (placed_count l) pod (ns_name c)"
  have w: "wf_states (pl_states l)" using inv by (simp add: phantom_inv_def)
  have m: "c \<in> set (dvals (pl_states l))" "\<not> is_tainted c" "pod_fits_resources pod c"
    using c by (auto simp: phantom_candidates_def pod_matches_node_def)
  then have g: "dget (pl_states l) ?name = Some c" using wf_states_get [OF w] by simp
  have mem: "pod_memory_request pod \<le> allocatable_memory c - total_memory_used c"
    using m(3) by (auto simp: pod_fits_resources_def split: if_splits)
  have p: "is_phantom ?p" "\<not> is_daemonset ?p" "pi_node_name ?p = ?name"
    "memory_request ?p = pod_memory_request pod" "cpu_request ?p = pod_cpu_request pod" "gpu_request ?p = pod_gpu_request pod"
    by (simp_all add: phantom_info_def)
  have "\<exists>ns'. dget (pl_states (place_phantom pod c l)) k = Some ns' \<and> phantom_node ns ns'
      \<and> dget_or (phantom_memory (place_phantom pod c l)) k 0 = sum_list (map memory_request (drop (length (pods ns)) (pods ns')))
      \<and> dget_or (phantom_gpu (place_phantom pod c l)) k 0 = sum_list (map gpu_request (drop (length (pods ns)) (pods ns')))
      \<and> dget_or (phantom_cpu (place_phantom pod c l)) k 0 = foldl fadd 0 (map cpu_request (drop (length (pods ns)) (pods ns')))"
    if k: "dget states k = Some ns" for k ns
  proof -
    from inv k obtain ns' where ns': "dget (pl_states l) k = Some ns'" "phantom_node ns ns'"
      "dget_or (phantom_memory l) k 0 = sum_list (map memory_request (drop (length (pods ns)) (pods ns')))"
      "dget_or (phantom_gpu l) k 0 = sum_list (map gpu_request (drop (length (pods ns)) (pods ns')))"
      "dget_or (phantom_cpu l) k 0 = foldl fadd 0 (map cpu_request (drop (length (pods ns)) (pods ns')))"
      unfolding phantom_inv_def by blast
    show ?thesis
    proof (cases "k = ?name")
      case False
      then show ?thesis using ns' by (simp add: place_phantom_def Let_def dget_add_pod dict_simps)
    next
      case True
      then have cn: "ns' = c" using ns'(1) g by simp
      from ns'(2) obtain ph where ph: "c = ns\<lparr>pods := pods ns @ ph\<rparr>"
        "\<forall>p \<in> set ph. is_phantom p \<and> \<not> is_daemonset p \<and> pi_node_name p = ns_name ns"
        unfolding phantom_node_def cn by blast
      have fields: "ns_name ns = ?name" "allocatable_memory ns = allocatable_memory c"
        "allocatable_gpu ns = allocatable_gpu c" "allocatable_cpu ns = allocatable_cpu c" "is_tainted ns = is_tainted c" "pods c = pods ns @ ph"
        using arg_cong [OF ph(1), of ns_name] arg_cong [OF ph(1), of allocatable_memory]
          arg_cong [OF ph(1), of allocatable_gpu] arg_cong [OF ph(1), of allocatable_cpu] arg_cong [OF ph(1), of is_tainted] arg_cong [OF ph(1), of pods] by simp_all
      have acc: "dget_or (phantom_memory l) ?name 0 = sum_list (map memory_request ph)"
        "dget_or (phantom_gpu l) ?name 0 = sum_list (map gpu_request ph)"
        "dget_or (phantom_cpu l) ?name 0 = foldl fadd 0 (map cpu_request ph)"
        using ns'(3-5) True cn fields(6) by simp_all
      have "load_under_cap (sum_list (map memory_request (ph @ [?p]))) (allocatable_memory ns)"
        "load_under_cap (sum_list (map gpu_request (ph @ [?p]))) (allocatable_gpu ns)"
        "cpu_under_cap (ph @ [?p]) (allocatable_cpu ns)"
        using cap acc p(4-6) fields(2-4)
        by (auto simp: load_under_cap_def cpu_under_cap_def phantom_under_cap_def Let_def)
      moreover have "total_memory_used (c\<lparr>pods := pods c @ [?p]\<rparr>) \<le> allocatable_memory ns"
        using mem p(4) fields(2) by (simp add: total_memory_used_def)
      moreover have "c\<lparr>pods := pods c @ [?p]\<rparr> = ns\<lparr>pods := pods ns @ (ph @ [?p])\<rparr>"
        by (subst ph(1)) (simp add: fields(6))
      ultimately have "phantom_node ns (c\<lparr>pods := pods c @ [?p]\<rparr>)"
        unfolding phantom_node_def using ph(2) p(1-3) m(2) fields(1,5)
        by (intro exI [of _ "ph @ [?p]"]) auto
      then show ?thesis using True g acc p(4-6) fields(6)
        by (simp add: place_phantom_def Let_def dget_add_pod dict_simps)
    qed
  qed
  moreover have "wf_states (pl_states (place_phantom pod c l))" "dkeys (pl_states (place_phantom pod c l)) = dkeys states"
    using w inv by (simp_all add: place_phantom_def Let_def wf_add_pod phantom_inv_def)
  ultimately show ?thesis unfolding phantom_inv_def by blast
qed

lemma phantom_step_inv: "phantom_inv states l \<Longrightarrow> phantom_inv states (phantom_step now pod l)"
  unfolding phantom_step_def
  by (auto split: option.split intro!: place_phantom_inv simp: find_Some_iff) 

lemma phantom_loop_inv: "wf_states states \<Longrightarrow> phantom_inv states (fold (phantom_step now) pending (phantom_start states))"
  by (rule fold_inv) (auto intro: phantom_inv_start phantom_step_inv)

text \<open>The phantom load changes nothing but the pod lists: the nodes and their order stay, a node
  keeps the pods it had and gains phantom pods only, none when it is tainted; the phantom pods of a
  node together stay below the cap in CPU, memory and GPUs, and they never make the requests on the
  node exceed its memory.\<close>

lemma phantom_load_sound_lemma:
  assumes "wf_states states" "apply_pending_phantom_load E states pending tr = (states', tr')"
  shows "wf_states states' \<and> dkeys states' = dkeys states
    \<and> (\<forall>k ns. dget states k = Some ns \<longrightarrow> (\<exists>ns'. dget states' k = Some ns' \<and> phantom_node ns ns'))"
proof -
  have base: "phantom_node ns ns" for ns by (auto simp: phantom_node_def intro!: exI [of _ "[]"])
  have "states' = states \<or> (\<exists>now. states' = pl_states (fold (phantom_step now) pending (phantom_start states)))"
    using assms(2) by (auto simp: apply_pending_phantom_load_def Let_def utc_now_def split: if_splits)
  then show ?thesis
  proof
    assume "states' = states" then show ?thesis using assms(1) base by blast
  next
    assume "\<exists>now. states' = pl_states (fold (phantom_step now) pending (phantom_start states))"
    then obtain now where "states' = pl_states (fold (phantom_step now) pending (phantom_start states))" by blast
    then show ?thesis using phantom_loop_inv [OF assms(1), of now pending] unfolding phantom_inv_def by blast
  qed
qed
text \<open>Pods outside the window of 30 to 120 seconds add no phantom load.\<close>

lemma phantom_filter_fold:
  "fold (phantom_step now) pending l = fold (phantom_step now) (filter (phantom_age_ok now) pending) l"
  by (induction pending arbitrary: l) (simp_all add: phantom_step_def)

end
