(* ===== verification/Compactor_Discovery.thy ===== *)
theory Compactor_Discovery
  imports Compactor_Phantom
begin

section \<open>Node compactor: discovery (\<open>discovery.py\<close>)\<close>

text \<open>
  Which nodes are managed, and the snapshot of their state: allocatable resources, taints, the pods
  that run on them and the pending pods that wait for capacity. A list call returns its whole list or
  raises. The counters that are only logged are left out.
\<close>

definition NODEPOOL_LABEL :: string where "NODEPOOL_LABEL = ''karpenter.sh/nodepool''"

fun managed_pools :: "string \<Rightarrow> ObjectMeta option list \<Rightarrow> string set" where
  "managed_pools label [] = {}"
| "managed_pools label (np # nps) =
     (case np of
        Some m \<Rightarrow> (if dget (meta_labels m) label = Some ''true'' then insert (meta_name m) (managed_pools label nps)
                   else managed_pools label nps)
      | None \<Rightarrow> managed_pools label nps)"

fun nodes_of_pools :: "string set \<Rightarrow> Node list \<Rightarrow> (string, string) dict \<Rightarrow> (string, string) dict res" where
  "nodes_of_pools pools [] acc = Inr acc"
| "nodes_of_pools pools (node # nodes) acc =
     (let pool = dget_or (labels_of (node_meta node)) NODEPOOL_LABEL [] in
      if pool \<in> pools then
        bind_res (name_of (node_meta node)) (\<lambda>name. nodes_of_pools pools nodes (dset name pool acc))
      else nodes_of_pools pools nodes acc)"

definition discover_managed_nodes :: "env \<Rightarrow> Config \<Rightarrow> trace \<Rightarrow> (string, string) dict res \<times> trace" where
  "discover_managed_nodes E cfg tr =
     (case list_pools E tr of
        (Inl e, tr1) \<Rightarrow> (if e = ApiError 404 then Inr [] else Inl e, tr1)
      | (Inr nps, tr1) \<Rightarrow>
          (let pools = managed_pools (nodepool_label cfg) nps in
           if pools = {} then (Inr [], tr1)
           else case list_nodes E tr1 of
               (Inl e, tr2) \<Rightarrow> (Inl e, tr2)
             | (Inr nodes, tr2) \<Rightarrow> (nodes_of_pools pools nodes [], tr2)))"

definition node_state :: "Config \<Rightarrow> string \<Rightarrow> ObjectMeta \<Rightarrow> Node \<Rightarrow> int \<Rightarrow> NodeState" where
  "node_state cfg name m node creation =
     \<lparr>ns_name = name,
      nodepool = dget_or (meta_labels m) NODEPOOL_LABEL ''unknown'',
      allocatable_cpu = parse_cpu (case status_cpu node of None \<Rightarrow> ''0'' | Some q \<Rightarrow> q),
      allocatable_memory = parse_memory (case status_memory node of None \<Rightarrow> ''0'' | Some q \<Rightarrow> q),
      creation_time = creation,
      allocatable_gpu = (case status_gpu node of None \<Rightarrow> 0 | Some n \<Rightarrow> n),
      pods = [],
      is_tainted = list_ex (\<lambda>t. taint_key t = cfg_taint_key cfg) (spec_taints node),
      is_reserved = (dget (meta_annotations m) ANNOTATION_CAPACITY_RESERVED = Some ''true''),
      node_taints = spec_taints node,
      ns_labels = meta_labels m,
      ns_annotations = meta_annotations m\<rparr>"

fun build_nodes ::
  "env \<Rightarrow> Config \<Rightarrow> string set \<Rightarrow> Node list \<Rightarrow> (string, NodeState) dict \<Rightarrow> trace \<Rightarrow> (string, NodeState) dict res \<times> trace"
where
  "build_nodes E cfg managed [] acc tr = (Inr acc, tr)"
| "build_nodes E cfg managed (node # nodes) acc tr =
     (case node_meta node of
        None \<Rightarrow> (Inl AttributeError, tr)
      | Some m \<Rightarrow>
          (if meta_name m \<notin> managed then build_nodes E cfg managed nodes acc tr
           else case (case creation_ts m of Some c \<Rightarrow> (c, tr) | None \<Rightarrow> utc_now E tr) of
             (creation, tr1) \<Rightarrow>
               build_nodes E cfg managed nodes
                 (dset (meta_name m) (node_state cfg (meta_name m) m node creation) acc) tr1))"

definition terminating :: "ObjectMeta option list \<Rightarrow> string set" where
  \<comment> \<open>the namespaces with a deletion timestamp\<close>
  "terminating nss = set (List.map_filter (\<lambda>m. case m of None \<Rightarrow> None
      | Some x \<Rightarrow> if deletion_ts x \<noteq> None then Some (meta_name x) else None) nss)"

definition volume_wait :: "Condition list \<Rightarrow> bool" where
  "volume_wait cs = list_ex (\<lambda>c. cond_type c = ''PodScheduled'' \<and> cond_status c = ''False'' \<and> cond_message c \<noteq> []
       \<and> (contains_str ''persistentvolumeclaim'' (lower (cond_message c)) \<or> contains_str ''bound'' (lower (cond_message c)))) cs"

definition deleted :: "Pod \<Rightarrow> bool" where
  "deleted pod = (case pod_meta pod of None \<Rightarrow> False | Some m \<Rightarrow> deletion_ts m \<noteq> None)"

definition pod_node_name :: "Pod \<Rightarrow> string" where
  \<comment> \<open>empty when there is no spec or no node\<close>
  "pod_node_name pod = (case pod_spec pod of None \<Rightarrow> [] | Some s \<Rightarrow> spec_node_name s)"

definition waits_for_capacity :: "Config \<Rightarrow> int \<Rightarrow> string set \<Rightarrow> Pod \<Rightarrow> bool" where
  \<comment> \<open>a pending pod survives every exclusion filter\<close>
  "waits_for_capacity cfg now dying pod =
     (if pod_node_name pod \<noteq> [] then False
      else if deleted pod then False
      else if (case pod_spec pod of None \<Rightarrow> False | Some s \<Rightarrow> scheduling_gates s \<noteq> []) then False
      else if is_daemonset_pod pod then False
      else if (case pod_meta pod of None \<Rightarrow> False
               | Some m \<Rightarrow> (case creation_ts m of None \<Rightarrow> False
                          | Some ts \<Rightarrow> total_seconds (now - ts) < of_int (pending_pod_min_age_seconds cfg))) then False
      else if (case pod_meta pod of None \<Rightarrow> False
               | Some m \<Rightarrow> meta_namespace m \<noteq> [] \<and> meta_namespace m \<in> dying) then False
      else if volume_wait (case pod_status pod of None \<Rightarrow> [] | Some s \<Rightarrow> conditions s) then False
      else True)"

definition running_info :: "Pod \<Rightarrow> ObjectMeta \<Rightarrow> PodInfo" where
  "running_info pod m =
     \<lparr>pi_name = meta_name m, pi_namespace = meta_namespace m,
      cpu_request = pod_cpu_request pod, memory_request = pod_memory_request pod,
      pi_node_name = pod_node_name pod, is_daemonset = is_daemonset_pod pod,
      start_time = (case pod_status pod of None \<Rightarrow> None | Some s \<Rightarrow> status_start_time s),
      gpu_request = pod_gpu_request pod, is_phantom = False\<rparr>"

definition counts_on_node :: "(string, NodeState) dict \<Rightarrow> Pod \<Rightarrow> bool" where
  \<comment> \<open>a pod that is not pending is added to its node\<close>
  "counts_on_node states pod \<longleftrightarrow>
     pod_node_name pod \<noteq> [] \<and> pod_node_name pod \<in> set (dkeys states)
     \<and> pod_phase pod \<notin> {''Succeeded'', ''Failed''} \<and> \<not> deleted pod"

fun collect_pods ::
  "Config \<Rightarrow> int \<Rightarrow> string set \<Rightarrow> Pod list \<Rightarrow> (string, NodeState) dict \<Rightarrow> Pod list
   \<Rightarrow> ((string, NodeState) dict \<times> Pod list) res" where
  "collect_pods cfg now dying [] states pending = Inr (states, pending)"
| "collect_pods cfg now dying (pod # ps) states pending =
     (if pod_phase pod = ''Pending'' then
        collect_pods cfg now dying ps states (if waits_for_capacity cfg now dying pod then pending @ [pod] else pending)
      else if \<not> counts_on_node states pod then collect_pods cfg now dying ps states pending
      else case pod_meta pod of
          None \<Rightarrow> Inl AttributeError
        | Some m \<Rightarrow> collect_pods cfg now dying ps (add_pod (running_info pod m) (pod_node_name pod) states) pending)"

definition build_node_states ::
  "env \<Rightarrow> Config \<Rightarrow> (string, string) dict \<Rightarrow> trace \<Rightarrow> ((string, NodeState) dict \<times> Pod list) res \<times> trace" where
  "build_node_states E cfg managed tr =
     (if managed = [] then (Inr ([], []), tr)
      else case list_nodes E tr of
          (Inl e, tr1) \<Rightarrow> (Inl e, tr1)
        | (Inr nodes, tr1) \<Rightarrow>
            (case build_nodes E cfg (set (dkeys managed)) nodes [] tr1 of
               (Inl e, tr2) \<Rightarrow> (Inl e, tr2)
             | (Inr states, tr2) \<Rightarrow>
                 (case list_namespaces E tr2 of
                    (Inl e, tr3) \<Rightarrow> (Inl e, tr3)
                  | (Inr nss, tr3) \<Rightarrow>
                      (case utc_now E tr3 of
                         (now, tr4) \<Rightarrow>
                           (case list_pods E tr4 of
                              (Inl e, tr5) \<Rightarrow> (Inl e, tr5)
                            | (Inr ps, tr5) \<Rightarrow> (collect_pods cfg now (terminating nss) ps states [], tr5))))))"

subsection \<open>Properties\<close>

definition counted :: "(string, NodeState) dict \<Rightarrow> string \<Rightarrow> Pod list \<Rightarrow> Pod list" where
  \<comment> \<open>the pods of the list that are added to the node\<close>
  "counted states k ps =
     filter (\<lambda>p. pod_phase p \<noteq> ''Pending'' \<and> counts_on_node states p \<and> pod_node_name p = k) ps"

definition info_of :: "Pod \<Rightarrow> PodInfo" where
  "info_of p = running_info p (the (pod_meta p))"

lemma counts_on_node_add_pod [simp]: "counts_on_node (add_pod p k states) q = counts_on_node states q"
  by (simp add: counts_on_node_def)

lemma counted_add_pod [simp]: "counted (add_pod p k states) = counted states"
  by (simp add: counted_def fun_eq_iff)

text \<open>The pod loop files every pod exactly once: the pending list is extended, in order, by the
  pending pods that pass all exclusion filters, every node by the pods that run on it, and nothing
  else changes. It raises exactly when a pod to be counted has no metadata.\<close>

lemma collect_pods_exact_lemma:
  "(case collect_pods cfg now dying ps states pending of
      Inl e \<Rightarrow> e = AttributeError \<and> (\<exists>p k. p \<in> set (counted states k ps) \<and> pod_meta p = None)
    | Inr (states', pending') \<Rightarrow>
        pending' = pending @ filter (\<lambda>p. pod_phase p = ''Pending'' \<and> waits_for_capacity cfg now dying p) ps
        \<and> dkeys states' = dkeys states
        \<and> (\<forall>k p. p \<in> set (counted states k ps) \<longrightarrow> pod_meta p \<noteq> None)
        \<and> (\<forall>k. dget states' k = map_option (\<lambda>ns. ns\<lparr>pods := pods ns @ map info_of (counted states k ps)\<rparr>) (dget states k)))"
proof (induction cfg now dying ps states pending rule: collect_pods.induct)
  case (1 cfg now dying states pending)
  then show ?case by (auto simp: counted_def option.map_id0 intro: option.map_ident [symmetric] split: option.split)
next
  case (2 cfg now dying pod ps states pending)
  consider "pod_phase pod = ''Pending''" | "pod_phase pod \<noteq> ''Pending''" "\<not> counts_on_node states pod"
    | "pod_phase pod \<noteq> ''Pending''" "counts_on_node states pod" by blast
  then show ?case
  proof cases
    case 1
    then have "counted states k (pod # ps) = counted states k ps" for k by (simp add: counted_def)
    then show ?thesis using "2.IH"(1) [OF 1] 1 by (auto split: sum.splits)
  next
    case 2
    then have "counted states k (pod # ps) = counted states k ps" for k by (simp add: counted_def)
    then show ?thesis using "2.IH"(2) 2 by (auto split: sum.splits)
  next
    case 3
    let ?k = "pod_node_name pod"
    have c: "counted states k (pod # ps) = (if k = ?k then pod # counted states k ps else counted states k ps)" for k
      using 3 by (auto simp: counted_def)
    show ?thesis
    proof (cases "pod_meta pod")
      case None
      have "pod \<in> set (counted states ?k (pod # ps))" by (simp add: c)
      then have "\<exists>p k. p \<in> set (counted states k (pod # ps)) \<and> pod_meta p = None" using None by blast
      then show ?thesis using 3 None by simp
    next
      case (Some m)
      then have i: "running_info pod m = info_of pod" by (simp add: info_of_def)
      have g: "dget (add_pod (info_of pod) ?k states) k =
          (if k = ?k then map_option (\<lambda>ns. ns\<lparr>pods := pods ns @ [info_of pod]\<rparr>) (dget states k) else dget states k)" for k
        by (rule dget_add_pod)
      have IH: "case collect_pods cfg now dying ps (add_pod (info_of pod) ?k states) pending of
            Inl e \<Rightarrow> e = AttributeError \<and> (\<exists>p k. p \<in> set (counted states k ps) \<and> pod_meta p = None)
          | Inr (states', pending') \<Rightarrow>
              pending' = pending @ filter (\<lambda>p. pod_phase p = ''Pending'' \<and> waits_for_capacity cfg now dying p) ps
              \<and> dkeys states' = dkeys states
              \<and> (\<forall>k p. p \<in> set (counted states k ps) \<longrightarrow> pod_meta p \<noteq> None)
              \<and> (\<forall>k. dget states' k = map_option (\<lambda>ns. ns\<lparr>pods := pods ns @ map info_of (counted states k ps)\<rparr>)
                    (dget (add_pod (info_of pod) ?k states) k))"
        using "2.IH"(3) [OF 3(1) _ Some] 3(2) unfolding i counted_add_pod dkeys_add_pod by simp
      have e: "collect_pods cfg now dying (pod # ps) states pending =
          collect_pods cfg now dying ps (add_pod (info_of pod) ?k states) pending"
        using 3 Some i by simp
      show ?thesis
      proof (cases "collect_pods cfg now dying ps (add_pod (info_of pod) ?k states) pending")
        case (Inl x)
        then obtain p k where "x = AttributeError" "p \<in> set (counted states k ps)" "pod_meta p = None" using IH by auto
        moreover from this(2) have "p \<in> set (counted states k (pod # ps))" by (auto simp: c)
        ultimately show ?thesis unfolding e Inl by auto
      next
        case (Inr y)
        obtain st pend where y: "y = (st, pend)" by (cases y)
        have r: "pend = pending @ filter (\<lambda>p. pod_phase p = ''Pending'' \<and> waits_for_capacity cfg now dying p) ps"
          "dkeys st = dkeys states" "\<And>k p. p \<in> set (counted states k ps) \<Longrightarrow> pod_meta p \<noteq> None"
          "\<And>k. dget st k = map_option (\<lambda>ns. ns\<lparr>pods := pods ns @ map info_of (counted states k ps)\<rparr>)
                    (dget (add_pod (info_of pod) ?k states) k)"
          using IH unfolding Inr y by auto
        have "dget st k = map_option (\<lambda>ns. ns\<lparr>pods := pods ns @ map info_of (counted states k (pod # ps))\<rparr>) (dget states k)" for k
          unfolding r(4) g c by (cases "dget states k"; cases "k = ?k") simp_all
        moreover have "pod_meta p \<noteq> None" if "p \<in> set (counted states k (pod # ps))" for k p
          using that r(3) [of p k] Some unfolding c by (auto split: if_splits)
        ultimately show ?thesis unfolding e Inr y using r(1,2) 3(1) by auto
      qed
    qed
  qed
qed
lemma build_nodes_inv:
  assumes "build_nodes E cfg managed nodes acc tr = (Inr states, tr')"
    and "wf_states acc" "set (dkeys acc) \<subseteq> managed" "\<forall>k ns. dget acc k = Some ns \<longrightarrow> pods ns = []"
  shows "wf_states states \<and> set (dkeys states) \<subseteq> managed \<and> (\<forall>k ns. dget states k = Some ns \<longrightarrow> pods ns = [])"
  using assms
proof (induction E cfg managed nodes acc tr rule: build_nodes.induct)
  case (2 E cfg managed node nodes acc tr)
  obtain m where m: "node_meta node = Some m" using "2.prems"(1) by (cases "node_meta node") auto
  show ?case
  proof (cases "meta_name m \<in> managed")
    case False
    then show ?thesis using "2.IH"(1) [OF m] "2.prems" m by simp
  next
    case True
    obtain creation tr1 where c: "(case creation_ts m of Some c \<Rightarrow> (c, tr) | None \<Rightarrow> utc_now E tr) = (creation, tr1)"
      by (cases "case creation_ts m of Some c \<Rightarrow> (c, tr) | None \<Rightarrow> utc_now E tr") auto
    let ?acc = "dset (meta_name m) (node_state cfg (meta_name m) m node creation) acc"
    have "build_nodes E cfg managed nodes ?acc tr1 = (Inr states, tr')" using "2.prems"(1) m True c by simp
    moreover have "wf_states ?acc"
      using "2.prems"(2) by (auto simp: wf_states_iff dict_simps node_state_def)
    moreover have "set (dkeys ?acc) \<subseteq> managed" using "2.prems"(3) True by (auto simp: pd.set_keys_put)
    moreover have "\<forall>k ns. dget ?acc k = Some ns \<longrightarrow> pods ns = []"
      using "2.prems"(4) by (auto simp: dict_simps node_state_def)
    ultimately show ?thesis using "2.IH"(2) [OF m _ c [symmetric]] True by blast
  qed
qed auto

text \<open>The snapshot is well formed: every node is stored under its own name, is one of the managed
  nodes, and holds only real pods that are assigned to it.\<close>

lemma build_node_states_wf_lemma:
  assumes "build_node_states E cfg managed tr = (Inr (states, pending), tr')"
  shows "wf_states states \<and> set (dkeys states) \<subseteq> set (dkeys managed)
    \<and> (\<forall>k ns p. dget states k = Some ns \<and> p \<in> set (pods ns) \<longrightarrow> pi_node_name p = k \<and> \<not> is_phantom p)"
proof (cases "managed = []")
  case True
  then show ?thesis using assms by (simp add: build_node_states_def wf_states_def)
next
  case False
  from assms False obtain nodes tr1 st tr2 now nss ps where
    b: "build_nodes E cfg (set (dkeys managed)) nodes [] tr1 = (Inr st, tr2)"
    and c: "collect_pods cfg now (terminating nss) ps st [] = Inr (states, pending)"
    by (auto simp: build_node_states_def split: prod.splits sum.splits)
  have st: "wf_states st" "set (dkeys st) \<subseteq> set (dkeys managed)" "\<forall>k ns. dget st k = Some ns \<longrightarrow> pods ns = []"
    using build_nodes_inv [OF b] by (auto simp: wf_states_def)
  have d: "dkeys states = dkeys st"
    "\<And>k. dget states k = map_option (\<lambda>ns. ns\<lparr>pods := pods ns @ map info_of (counted st k ps)\<rparr>) (dget st k)"
    using collect_pods_exact_lemma [where cfg = cfg and now = now and dying = "terminating nss" and ps = ps and states = st
        and pending = "[]"] unfolding c by auto
  have "wf_states states" using st(1) d by (auto simp: wf_states_iff)
  moreover have "pi_node_name (info_of p) = k \<and> \<not> is_phantom (info_of p)" if "p \<in> set (counted st k ps)" for p k
    using that by (auto simp: counted_def info_of_def running_info_def)
  ultimately show ?thesis using st d by auto
qed
end
