(* ===== verification/Compactor_Patching.thy ===== *)
theory Compactor_Patching
  imports Compactor_Taints
begin

section \<open>Node compactor: what the taint patches and the burst absorption guarantee\<close>

text \<open>
  The two retry loops are interpretations of the contract of a retry body: they spend a bounded number
  of API calls, and every patch they send is based on the read just before it. The burst absorption
  takes the shortest prefix of the compatible tainted nodes that fits the pending pods.
\<close>

subsection \<open>Adding the taint\<close>

definition apply_ok :: "string \<Rightarrow> string \<Rightarrow> string \<Rightarrow> Node \<Rightarrow> patch \<Rightarrow> bool" where
  \<comment> \<open>the patch adds exactly the taint to the version that was read, which did not carry it\<close>
  "apply_ok name key n node p \<longleftrightarrow> n = name \<and> key \<notin> set (map taint_key (spec_taints node))
     \<and> \<not> misses_instance_taint node
     \<and> (\<exists>m. node_meta node = Some m \<and> p = taint_patch key node (resource_version m))"

definition remove_ok :: "string \<Rightarrow> string \<Rightarrow> string \<Rightarrow> Node \<Rightarrow> patch \<Rightarrow> bool" where
  \<comment> \<open>the patch replaces the taints of the version that was read by those with another key\<close>
  "remove_ok name key n node p \<longleftrightarrow> n = name \<and> \<not> misses_instance_taint node
     \<and> (\<exists>m. node_meta node = Some m \<and> p = untaint_patch key node (resource_version m))"

lemma apply_body_adds:
  "adds (justified (apply_ok name key)) tr (snd (apply_taint_body E name key k i tr))"
  by (auto simp: apply_taint_body_def api_defs adds_def apply_ok_def split: sum.split option.split)

lemma apply_body_cost: "api_calls (snd (apply_taint_body E name key k i tr)) \<le> api_calls tr + 2"
  by (auto simp: apply_taint_body_def api_defs split: sum.split option.split)

lemma remove_body_adds:
  "adds (justified (remove_ok name key)) tr (snd (remove_taint_body E name key k i tr))"
  by (auto simp: remove_taint_body_def api_defs adds_def remove_ok_def split: sum.split option.split)

lemma remove_body_cost: "api_calls (snd (remove_taint_body E name key k i tr)) \<le> api_calls tr + 2"
  by (auto simp: remove_taint_body_def api_defs split: sum.split option.split)

interpretation apply_loop: attempt_body "apply_taint_body E name key k" api_calls 2
  "adds (justified (apply_ok name key)) tr0" for E name key k tr0
  by unfold_locales (rule apply_body_cost, erule adds_trans [OF stable_based_on], rule apply_body_adds)

interpretation remove_loop: attempt_body "remove_taint_body E name key k" api_calls 2
  "adds (justified (remove_ok name key)) tr0" for E name key k tr0
  by unfold_locales (rule remove_body_cost, erule adds_trans [OF stable_based_on], rule remove_body_adds)

lemma finish_trace [simp]: "snd (finish d r) = snd r"
  by (auto simp: finish_def split: prod.split attempt.split)

lemma last_upt: "0 < n \<Longrightarrow> last [0..<n] = n - 1"
  by (cases n) simp_all

lemma apply_body_decides: "0 < k \<Longrightarrow> fst (apply_taint_body E name key k (last [0..<k]) s) \<noteq> Again"
  by (auto simp: last_upt apply_taint_body_def api_defs split: sum.split option.split)

lemma remove_body_decides: "0 < k \<Longrightarrow> fst (remove_taint_body E name key k (last [0..<k]) s) \<noteq> Again"
  by (auto simp: last_upt remove_taint_body_def api_defs split: sum.split option.split)

lemma api_calls_adds:
  "adds Q tr tr' \<Longrightarrow> api_calls tr \<le> api_calls tr'"
  by (auto simp: adds_def api_calls_def)

text \<open>Whatever the server answers and whoever else writes to the node, \<open>apply_taint\<close> only ever
  sends patches that follow a read of the node, that are conditional on the version read, and that
  add exactly the compactor's taint, and it makes at most two calls per attempt; a dry run makes none.\<close>

lemma apply_taint_patches_lemma:
  "adds (justified (apply_ok name key)) tr (snd (apply_taint E name key dry k tr))
   \<and> api_calls (snd (apply_taint E name key dry k tr)) \<le> api_calls tr + (if dry then 0 else 2 * k)"
proof -
  let ?loop = "for_attempts (apply_taint_body E name key k) [0..<k] tr"
  have "adds (justified (apply_ok name key)) tr tr" by (simp add: adds_refl)
  then have "adds (justified (apply_ok name key)) tr (snd ?loop)" by (rule apply_loop.inv_loop)
  moreover have "api_calls (snd ?loop) \<le> api_calls tr + 2 * length [0..<k]" by (rule apply_loop.cost_loop)
  ultimately show ?thesis by (simp add: apply_taint_def adds_refl)
qed
definition apply_outcome :: "string \<Rightarrow> string \<Rightarrow> unit res \<Rightarrow> trace \<Rightarrow> bool" where
  "apply_outcome name key r tr \<longleftrightarrow>
     (case tr of
        EvPatchNode n p a # _ \<Rightarrow> n = name \<and> r = a
      | EvGetNode n (Inl e) # _ \<Rightarrow> n = name \<and> r = Inl e
      | EvGetNode n (Inr node) # _ \<Rightarrow> n = name \<and>
          (r = Inr () \<and> (key \<in> set (map taint_key (spec_taints node)) \<or> misses_instance_taint node)
           \<or> r = Inl AttributeError \<and> node_meta node = None)
      | _ \<Rightarrow> False)"

lemma apply_body_outcome:
  "case fst (apply_taint_body E name key k i s) of Again \<Rightarrow> True
   | Return x \<Rightarrow> apply_outcome name key (Inr x) (snd (apply_taint_body E name key k i s))
   | Raise e \<Rightarrow> apply_outcome name key (Inl e) (snd (apply_taint_body E name key k i s))"
  by (auto simp: apply_taint_body_def api_defs apply_outcome_def split: sum.split option.split)

subsection \<open>Removing the taint\<close>

text \<open>\<open>remove_taint\<close> only ever sends patches that follow a read of the node, carry the resource
  version read, and replace the taint list by the taints with another key, all of them, in order.\<close>

lemma remove_taint_patches_lemma:
  "adds (justified (remove_ok name key)) tr (snd (remove_taint E name key dry k tr))
   \<and> api_calls (snd (remove_taint E name key dry k tr)) \<le> api_calls tr + (if dry then 0 else 2 * k)"
proof -
  let ?loop = "for_attempts (remove_taint_body E name key k) [0..<k] tr"
  have "adds (justified (remove_ok name key)) tr tr" by (simp add: adds_refl)
  then have "adds (justified (remove_ok name key)) tr (snd ?loop)" by (rule remove_loop.inv_loop)
  moreover have "api_calls (snd ?loop) \<le> api_calls tr + 2 * length [0..<k]" by (rule remove_loop.cost_loop)
  ultimately show ?thesis by (simp add: remove_taint_def adds_refl)
qed
definition released :: "string \<Rightarrow> trace \<Rightarrow> bool" where
  \<comment> \<open>the last call patched the node, or read it with its instance-type taint missing\<close>
  "released name tr \<longleftrightarrow>
     (case tr of
        EvPatchNode n p (Inr _) # _ \<Rightarrow> n = name
      | EvGetNode n (Inr node) # _ \<Rightarrow> n = name \<and> misses_instance_taint node
      | _ \<Rightarrow> False)"

lemma remove_body_released:
  "case fst (remove_taint_body E name key k i s) of
     Return x \<Rightarrow> released name (snd (remove_taint_body E name key k i s)) | _ \<Rightarrow> True"
  by (auto simp: remove_taint_body_def api_defs released_def split: sum.split option.split)

lemma remove_taint_released:
  assumes "0 < k" "remove_taint E name key False k tr = (Inr (), tr')"
  shows "released name tr'"
proof -
  let ?loop = "for_attempts (remove_taint_body E name key k) [0..<k] tr"
  let ?Q = "\<lambda>a tr'. case a of Return x \<Rightarrow> released name tr' | _ \<Rightarrow> True"
  have d: "fst ?loop \<noteq> Again"
    using assms(1) remove_body_decides by (intro remove_loop.decided_loop) auto
  have "?Q (fst ?loop) (snd ?loop)"
    using remove_body_released d by (intro for_attempts_result [where Q = ?Q])
  then show ?thesis using assms(2) d
    by (cases ?loop) (auto simp: remove_taint_def finish_def split: attempt.splits)
qed

text \<open>Which nodes the start-up and shutdown clean-up touches: those that carry the taint, each once.\<close>

definition cleanup_ok :: "string \<Rightarrow> Node list \<Rightarrow> string \<Rightarrow> Node \<Rightarrow> patch \<Rightarrow> bool" where
  "cleanup_ok key nodes n node p \<longleftrightarrow> remove_ok n key n node p
     \<and> (\<exists>x \<in> set nodes. key \<in> set (map taint_key (spec_taints x)) \<and> name_of (node_meta x) = Inr n)"

lemma cleanup_nodes_adds:
  "adds (justified (cleanup_ok key nodes)) tr (snd (cleanup_nodes E key nodes k tr))
   \<and> api_calls (snd (cleanup_nodes E key nodes k tr))
       \<le> api_calls tr + 6 * length (filter (\<lambda>n. key \<in> set (map taint_key (spec_taints n))) nodes)"
proof (induction E key nodes k tr rule: cleanup_nodes.induct)
  case (2 E key node nodes n tr)
  have "cleanup_ok key nodes x y p \<Longrightarrow> cleanup_ok key (node # nodes) x y p" for x y p
    by (auto simp: cleanup_ok_def)
  then have mono: "adds (justified (cleanup_ok key nodes)) a b \<Longrightarrow> adds (justified (cleanup_ok key (node # nodes))) a b" for a b
    using justified_adds_mono by blast
  show ?case
  proof (cases "key \<in> set (map taint_key (spec_taints node))")
    case False
    then show ?thesis using "2.IH"(2) mono by auto
  next
    case True
    show ?thesis
    proof (cases "name_of (node_meta node)")
      case (Inl e)
      then show ?thesis using True by (simp add: adds_refl)
    next
      case (Inr name)
      obtain r tr1 where r: "remove_taint E name key False 3 tr = (r, tr1)" by (cases "remove_taint E name key False 3 tr")
      have "adds (justified (remove_ok name key)) tr tr1" "api_calls tr1 \<le> api_calls tr + 6"
        using remove_taint_patches_lemma [of name key tr E False 3] r by auto
      moreover have "remove_ok name key x y p \<Longrightarrow> cleanup_ok key (node # nodes) x y p" for x y p
        using True Inr by (auto simp: cleanup_ok_def remove_ok_def)
      ultimately have a: "adds (justified (cleanup_ok key (node # nodes))) tr tr1" "api_calls tr1 \<le> api_calls tr + 6"
        using justified_adds_mono by blast+
      show ?thesis
      proof (cases r)
        case (Inl e)
        then show ?thesis using True Inr r a by simp
      next
        case r': (Inr u)
        from "2.IH"(1) [OF True Inr r [symmetric] r']
        show ?thesis using True Inr r r' a mono by (auto intro: adds_trans [OF stable_based_on])
      qed
    qed
  qed
qed (simp add: adds_refl)

subsection \<open>Burst absorption\<close>

lemma untaint_until_fit_prefix:
  "\<exists>k \<le> length ts. untaint_until_fit infos cand ts = cand @ take k ts
     \<and> (pods_fit_on_nodes infos (cand @ take k ts) \<or> k = length ts)
     \<and> (\<forall>j < k. 0 < j \<longrightarrow> \<not> pods_fit_on_nodes infos (cand @ take j ts))
     \<and> (ts \<noteq> [] \<longrightarrow> 0 < k)"
proof (induction infos cand ts rule: untaint_until_fit.induct)
  case (2 infos cand t ts)
  show ?case
  proof (cases "pods_fit_on_nodes infos (cand @ [t])")
    case True
    then show ?thesis by (intro exI [of _ 1]) auto
  next
    case False
    from "2.IH" [OF this] obtain k where k: "k \<le> length ts"
      "untaint_until_fit infos (cand @ [t]) ts = (cand @ [t]) @ take k ts"
      "pods_fit_on_nodes infos ((cand @ [t]) @ take k ts) \<or> k = length ts"
      "\<forall>j < k. 0 < j \<longrightarrow> \<not> pods_fit_on_nodes infos ((cand @ [t]) @ take j ts)" by blast
    have "\<not> pods_fit_on_nodes infos (cand @ take j (t # ts))" if "j < Suc k" "0 < j" for j
      using that k(4) False by (cases j; cases "j - 1") auto
    then show ?thesis using k False by (intro exI [of _ "Suc k"]) auto
  qed
qed simp

end
