(* ===== verification/Compactor_Reservations.thy ===== *)
theory Compactor_Reservations
  imports Compactor_Patching
begin

section \<open>Node compactor: capacity reservations (\<open>reservations.py\<close>)\<close>

text \<open>
  The two annotations that keep Karpenter from deleting a node. Our own marker says that the
  \<open>do-not-disrupt\<close> annotation is ours; it is removed only together with the marker.
\<close>

definition reserve_patch :: patch where
  "reserve_patch = StrategicPatch \<lparr>mb_resource_version = None,
     mb_annotations = [(ANNOTATION_CAPACITY_RESERVED, Some ''true''), (ANNOTATION_DO_NOT_DISRUPT, Some ''true'')],
     mb_taints = None\<rparr>"

definition is_api_error :: "exc \<Rightarrow> bool" where
  "is_api_error e = (case e of ApiError _ \<Rightarrow> True | _ \<Rightarrow> False)"

definition apply_reservation :: "env \<Rightarrow> string \<Rightarrow> bool \<Rightarrow> trace \<Rightarrow> bool res \<times> trace" where
  "apply_reservation E name dry tr =
     (if dry then (Inr True, tr)
      else case patch_node E name reserve_patch tr of
          (Inr _, tr1) \<Rightarrow> (Inr True, tr1)
        | (Inl e, tr1) \<Rightarrow> (if is_api_error e then Inr False else Inl e, tr1))"

definition owned :: "Node \<Rightarrow> bool" where
  \<comment> \<open>the node carries our marker\<close>
  "owned node \<longleftrightarrow> dget (annotations_of (node_meta node)) ANNOTATION_CAPACITY_RESERVED = Some ''true''"

definition unreserve_patch :: "string \<Rightarrow> patch" where
  "unreserve_patch rv = MergePatch \<lparr>mb_resource_version = Some rv,
     mb_annotations = [(ANNOTATION_CAPACITY_RESERVED, None), (ANNOTATION_DO_NOT_DISRUPT, None)],
     mb_taints = None\<rparr>"

definition remove_reservation_body :: "env \<Rightarrow> string \<Rightarrow> nat \<Rightarrow> trace \<Rightarrow> bool attempt \<times> trace" where
  "remove_reservation_body E name attempt tr =
     (case get_node E name tr of
        (Inl e, tr1) \<Rightarrow> (if e = ApiError 404 then Return True else Raise e, tr1)
      | (Inr node, tr1) \<Rightarrow>
          (if \<not> owned node then (Return True, tr1)
           else case node_meta node of
               None \<Rightarrow> (Raise AttributeError, tr1)
             | Some m \<Rightarrow>
                 (case patch_node E name (unreserve_patch (resource_version m)) tr1 of
                    (Inr _, tr2) \<Rightarrow> (Return True, tr2)
                  | (Inl e, tr2) \<Rightarrow>
                      (if e = ApiError 404 then Return True
                       else if e = ApiError 409 then Again
                       else Raise e, tr2))))"

definition remove_reservation :: "env \<Rightarrow> string \<Rightarrow> bool \<Rightarrow> nat \<Rightarrow> trace \<Rightarrow> bool res \<times> trace" where
  "remove_reservation E name dry max_retries tr =
     (if dry then (Inr True, tr)
      else finish False (for_attempts (remove_reservation_body E name) [0..<max_retries] tr))"

fun each_node :: "(string \<Rightarrow> trace \<Rightarrow> bool res \<times> trace) \<Rightarrow> string list \<Rightarrow> string list \<Rightarrow> trace \<Rightarrow> string list res \<times> trace" where
  \<comment> \<open>the loops that collect the names for which the call returned true\<close>
  "each_node f [] acc tr = (Inr acc, tr)"
| "each_node f (n # ns) acc tr =
     (case f n tr of
        (Inl e, tr1) \<Rightarrow> (Inl e, tr1)
      | (Inr b, tr1) \<Rightarrow> each_node f ns (if b then acc @ [n] else acc) tr1)"

definition reconcile_reservations ::
  "env \<Rightarrow> NodeState list \<Rightarrow> string set \<Rightarrow> bool \<Rightarrow> trace \<Rightarrow> (string list \<times> string list) res \<times> trace" where
  "reconcile_reservations E ns desired dry tr =
     (let current = set (map ns_name (filter is_reserved ns)) in
      case each_node (\<lambda>n. apply_reservation E n dry) (sorted_set (desired - current)) [] tr of
        (Inl e, tr1) \<Rightarrow> (Inl e, tr1)
      | (Inr added, tr1) \<Rightarrow>
          (case each_node (\<lambda>n. remove_reservation E n dry 3) (sorted_set (current - desired)) [] tr1 of
             (Inl e, tr2) \<Rightarrow> (Inl e, tr2)
           | (Inr removed, tr2) \<Rightarrow> (Inr (added, removed), tr2)))"

fun unreserve_all :: "env \<Rightarrow> Node list \<Rightarrow> nat \<Rightarrow> nat \<Rightarrow> trace \<Rightarrow> (nat \<times> nat) res \<times> trace" where
  "unreserve_all E [] done_n failed tr = (Inr (done_n, failed), tr)"
| "unreserve_all E (node # nodes) done_n failed tr =
     (if owned node then
        (case name_of (node_meta node) of
           Inl e \<Rightarrow> (Inl e, tr)
         | Inr name \<Rightarrow>
             (case remove_reservation E name False 3 tr of
                (Inr True, tr1) \<Rightarrow> unreserve_all E nodes (Suc done_n) failed tr1
              | (_, tr1) \<Rightarrow> unreserve_all E nodes done_n (Suc failed) tr1))
      else unreserve_all E nodes done_n failed tr)"

definition cleanup_reservations :: "env \<Rightarrow> trace \<Rightarrow> (nat \<times> nat) res \<times> trace" where
  "cleanup_reservations E tr =
     (case list_nodes E tr of
        (Inl e, tr1) \<Rightarrow> (Inl e, tr1)
      | (Inr nodes, tr1) \<Rightarrow> unreserve_all E nodes 0 0 tr1)"

subsection \<open>Properties\<close>

definition unreserve_ok :: "string \<Rightarrow> string \<Rightarrow> Node \<Rightarrow> patch \<Rightarrow> bool" where
  \<comment> \<open>the node read carried our marker, and the patch is conditional on the version read\<close>
  "unreserve_ok name n node p \<longleftrightarrow> n = name \<and> owned node
     \<and> (\<exists>m. node_meta node = Some m \<and> p = unreserve_patch (resource_version m))"

lemma unreserve_body_adds:
  "adds (justified (unreserve_ok name)) tr (snd (remove_reservation_body E name i tr))"
  by (auto simp: remove_reservation_body_def api_defs adds_def unreserve_ok_def split: sum.split option.split)

lemma unreserve_body_cost: "api_calls (snd (remove_reservation_body E name i tr)) \<le> api_calls tr + 2"
  by (auto simp: remove_reservation_body_def api_defs split: sum.split option.split)

interpretation unreserve_loop: attempt_body "remove_reservation_body E name" api_calls 2
  "adds (justified (unreserve_ok name)) tr0" for E name tr0
  by unfold_locales (rule unreserve_body_cost, erule adds_trans [OF stable_based_on], rule unreserve_body_adds)

text \<open>\<open>remove_reservation\<close> deletes the \<open>do-not-disrupt\<close> annotation only from a node that it has
  just read with our ownership marker, conditionally on the version read, and together with the marker.\<close>

lemma remove_reservation_patches_lemma:
  "adds (justified (unreserve_ok name)) tr (snd (remove_reservation E name dry k tr))
   \<and> api_calls (snd (remove_reservation E name dry k tr)) \<le> api_calls tr + (if dry then 0 else 2 * k)"
proof -
  let ?loop = "for_attempts (remove_reservation_body E name) [0..<k] tr"
  have "adds (justified (unreserve_ok name)) tr tr" by (simp add: adds_refl)
  then have "adds (justified (unreserve_ok name)) tr (snd ?loop)" by (rule unreserve_loop.inv_loop)
  moreover have "api_calls (snd ?loop) \<le> api_calls tr + 2 * length [0..<k]" by (rule unreserve_loop.cost_loop)
  ultimately show ?thesis by (simp add: remove_reservation_def adds_refl)
qed
text \<open>What a patch of \<open>reconcile_reservations\<close> may be.\<close>

definition reservation_patch_ok :: "string set \<Rightarrow> string set \<Rightarrow> string \<Rightarrow> patch \<Rightarrow> trace \<Rightarrow> bool" where
  "reservation_patch_ok add rem n p tr \<longleftrightarrow>
     n \<in> add \<and> p = reserve_patch \<or> n \<in> rem \<and> based_on (unreserve_ok n) n p tr"

lemma stable_reservation_patch_ok: "stable (reservation_patch_ok add rem)"
proof -
  have "based_on (unreserve_ok n) n p es \<Longrightarrow> based_on (unreserve_ok n) n p (es @ tr)" for n p es tr
    using stable_based_on [of "unreserve_ok n"] by (simp add: stable_def)
  then show ?thesis by (auto simp: stable_def reservation_patch_ok_def)
qed

lemma apply_reservation_adds:
  "n \<in> add \<Longrightarrow> adds (each_patch (reservation_patch_ok add rem)) tr (snd (apply_reservation E n dry tr))"
  by (auto simp: apply_reservation_def api_defs adds_def reservation_patch_ok_def split: sum.split)

lemma remove_reservation_adds:
  assumes "n \<in> rem"
  shows "adds (each_patch (reservation_patch_ok add rem)) tr (snd (remove_reservation E n dry k tr))"
proof -
  have "adds (justified (unreserve_ok n)) tr (snd (remove_reservation E n dry k tr))"
    using remove_reservation_patches_lemma by blast
  then show ?thesis
  proof (rule adds_mono)
    fix m p s assume b: "based_on (unreserve_ok n) m p s"
    then have "m = n" by (auto elim!: based_on.elims simp: unreserve_ok_def)
    then show "reservation_patch_ok add rem m p s" using b assms by (simp add: reservation_patch_ok_def)
  qed
qed

lemma each_node_adds:
  assumes "\<And>n tr. n \<in> set ns \<Longrightarrow> adds (each_patch Q) tr (snd (f n tr))" "stable Q"
  shows "adds (each_patch Q) tr (snd (each_node f ns acc tr))"
  using assms
proof (induction f ns acc tr rule: each_node.induct)
  case (2 f n ns acc tr)
  obtain r tr1 where f: "f n tr = (r, tr1)" by (cases "f n tr")
  have a: "adds (each_patch Q) tr tr1" using "2.prems"(1) [of n tr] f by simp
  show ?case
  proof (cases r)
    case (Inr b)
    have "adds (each_patch Q) tr1 (snd (each_node f ns (if b then acc @ [n] else acc) tr1))"
      by (rule "2.IH" [OF f [symmetric] Inr]) (use "2.prems" in auto)
    from adds_trans [OF "2.prems"(2) a this] show ?thesis using f Inr by simp
  qed (use f a in auto)
qed (simp add: adds_refl)

lemma each_node_result:
  "fst (each_node f ns acc tr) = Inr xs \<Longrightarrow> set xs \<subseteq> set acc \<union> set ns"
proof (induction f ns acc tr rule: each_node.induct)
  case (2 f n ns acc tr)
  obtain r tr1 where f: "f n tr = (r, tr1)" by (cases "f n tr")
  with "2.prems" obtain b where r: "r = Inr b" by (cases r) auto
  then have "fst (each_node f ns (if b then acc @ [n] else acc) tr1) = Inr xs" using "2.prems" f by simp
  from "2.IH" [OF f [symmetric] r this] show ?case by (auto split: if_splits)
qed simp

lemma each_node_all:
  "(\<And>n tr. f n tr = (Inr True, tr)) \<Longrightarrow> each_node f ns acc tr = (Inr (acc @ ns), tr)"
  by (induction ns arbitrary: acc) simp_all

lemma set_sorted_set: "set (sorted_set A) \<subseteq> A"
  by (cases "finite A") (simp_all add: sorted_set_def)

text \<open>Reconciling the reservations reserves only nodes that are wanted and not yet reserved, removes
  the annotations only from nodes that carry the marker and are no longer wanted, reports only those,
  and in a dry run makes no call at all while it reports every one of them.\<close>

lemma reconcile_reservations_patches_lemma:
  fixes ns desired
  defines "current \<equiv> set (map ns_name (filter is_reserved ns))"
  assumes "reconcile_reservations E ns desired dry tr = (r, tr')"
  shows "adds (each_patch (reservation_patch_ok (desired - current) (current - desired))) tr tr'
    \<and> (dry \<longrightarrow> tr' = tr \<and> r = Inr (sorted_set (desired - current), sorted_set (current - desired)))
    \<and> (\<forall>added removed. r = Inr (added, removed) \<longrightarrow>
         set added \<subseteq> desired - current \<and> set removed \<subseteq> current - desired)"
proof -
  let ?Q = "reservation_patch_ok (desired - current) (current - desired)"
  let ?add = "sorted_set (desired - current)" and ?rem = "sorted_set (current - desired)"
  note cur = current_def [symmetric, unfolded set_map set_filter]
  let ?f1 = "\<lambda>n. apply_reservation E n dry" and ?f2 = "\<lambda>n. remove_reservation E n dry 3"
  obtain r1 tr1 where f1: "each_node ?f1 ?add [] tr = (r1, tr1)" by (cases "each_node ?f1 ?add [] tr")
  obtain r2 tr2 where f2: "each_node ?f2 ?rem [] tr1 = (r2, tr2)" by (cases "each_node ?f2 ?rem [] tr1")
  have "adds (each_patch ?Q) tr (snd (each_node ?f1 ?add [] tr))"
    using set_sorted_set by (intro each_node_adds apply_reservation_adds stable_reservation_patch_ok) auto
  then have a1: "adds (each_patch ?Q) tr tr1" using f1 by simp
  have "adds (each_patch ?Q) tr1 (snd (each_node ?f2 ?rem [] tr1))"
    using set_sorted_set by (intro each_node_adds remove_reservation_adds stable_reservation_patch_ok) auto
  from adds_trans [OF stable_reservation_patch_ok a1 this] have a2: "adds (each_patch ?Q) tr tr2" using f2 by simp
  have e: "reconcile_reservations E ns desired dry tr =
      (case r1 of Inl e \<Rightarrow> (Inl e, tr1) | Inr added \<Rightarrow>
        (case r2 of Inl e \<Rightarrow> (Inl e, tr2) | Inr removed \<Rightarrow> (Inr (added, removed), tr2)))"
    unfolding reconcile_reservations_def current_def [symmetric] Let_def f1 using f2 by (auto split: sum.split)
  have dry: "dry \<Longrightarrow> ?f1 n s = (Inr True, s) \<and> ?f2 n s = (Inr True, s)" for n s
    by (simp add: apply_reservation_def remove_reservation_def)
  have "r1 = Inr ?add \<and> tr1 = tr \<and> r2 = Inr ?rem \<and> tr2 = tr" if "dry"
    using f1 f2 each_node_all [of ?f1 ?add "[]" tr] each_node_all [of ?f2 ?rem "[]" tr] dry that by auto
  moreover have "r1 = Inr xs \<Longrightarrow> set xs \<subseteq> desired - current" for xs
    using each_node_result [of ?f1 ?add "[]" tr xs] f1 set_sorted_set by auto
  moreover have "r2 = Inr xs \<Longrightarrow> set xs \<subseteq> current - desired" for xs
    using each_node_result [of ?f2 ?rem "[]" tr1 xs] f2 set_sorted_set by auto
  ultimately show ?thesis using assms(2) a1 a2 unfolding e by (auto split: sum.splits)
qed
lemma owned_name: "owned node \<Longrightarrow> \<exists>n. name_of (node_meta node) = Inr n"
  by (cases "node_meta node") (auto simp: owned_def annotations_of_def name_of_def)

lemma unreserve_all_counts:
  "\<exists>c f. fst (unreserve_all E ns done_n failed tr) = Inr (c, f) \<and> c + f = done_n + failed + length (filter owned ns)"
proof (induction E ns done_n failed tr rule: unreserve_all.induct)
  case (2 E node nodes done_n failed tr)
  show ?case
  proof (cases "owned node")
    case True
    from owned_name [OF this] obtain n where n: "name_of (node_meta node) = Inr n" by blast
    obtain r tr1 where r: "remove_reservation E n False 3 tr = (r, tr1)" by (cases "remove_reservation E n False 3 tr")
    show ?thesis using "2.IH" True n r by (cases r; cases "projr r") (auto split: bool.splits)
  next
    case False
    then show ?thesis using "2.IH" by simp
  qed
qed simp

end
