(* ===== verification/Compactor_Reconcile.thy ===== *)
theory Compactor_Reconcile
  imports Compactor_Decisions Compactor_Discovery Compactor_Reservations
begin

section \<open>Node compactor: the reconcile cycle and the main loop (\<open>compactor.py\<close>, \<open>metrics.py\<close>)\<close>

text \<open>
  One cycle observes the cluster, decides, and acts. The state that survives a cycle is a record:
  when nodes were last tainted, when fleets last had a burst, and the peak history. The order in which
  Python iterates over a set is a parameter \<open>ord\<close>. Metrics and the health file are events of the
  trace.
\<close>

subsection \<open>State\<close>

record rstate =
  taint_times :: "(string, flt) dict"
  fleet_cooldown_times :: "(string, flt) dict option"
  peak_history :: "PeakHistory option"

definition fleet_group_key :: "NodeState \<Rightarrow> string" where
  "fleet_group_key ns =
     (let v = dget_or (ns_labels ns) LABEL_NODE_FLEET [] in if v \<noteq> [] then v else nodepool ns)"

definition refresh_gauge ::
  "(string, string list set) dict \<Rightarrow> string \<Rightarrow> (string list, flt) dict
   \<Rightarrow> string list set \<times> (string list, flt) dict \<times> (string, string list set) dict" where
  \<comment> \<open>the label sets to remove, the values to set, and the new table of known labels\<close>
  "refresh_gauge known name current =
     (let previous = dget_or known name {} in
      (previous - set (dkeys current), current, dset name (set (dkeys current)) known))"

definition gauge :: "string \<Rightarrow> (string list \<times> flt) list \<Rightarrow> trace \<Rightarrow> trace" where
  "gauge name current tr = emit (EvGauge name current) tr"

definition per_key :: "(string, int) dict \<Rightarrow> (string list \<times> flt) list" where
  "per_key d = map (\<lambda>(k, n). ([k], fi n)) d"

subsection \<open>Observing\<close>

definition utilization_series :: "(string, string) dict \<Rightarrow> (string, NodeState) dict \<Rightarrow> (string list \<times> flt) list" where
  "utilization_series managed states =
     concat (map (\<lambda>(name, ns).
       let pool = dget_or managed name ''unknown'' in
       (if 0 < allocatable_cpu ns
        then [([name, pool, ''cpu''], fdiv (total_cpu_used ns) (allocatable_cpu ns))] else [])
       @ (if 0 < allocatable_memory ns
        then [([name, pool, ''memory''], fdiv (of_int (total_memory_used ns)) (of_int (allocatable_memory ns)))] else [])
       @ (if 0 < allocatable_gpu ns
        then [([name, pool, ''gpu''], fdiv (of_int (total_gpu_used ns)) (of_int (allocatable_gpu ns)))] else [])) states)"

fun record_fleet_cooldown ::
  "env \<Rightarrow> (string, NodeState) dict \<Rightarrow> string list \<Rightarrow> (string, flt) dict \<Rightarrow> trace \<Rightarrow> (string, flt) dict \<times> trace" where
  "record_fleet_cooldown E states [] tms tr = (tms, tr)"
| "record_fleet_cooldown E states (n # ns) tms tr =
     (case dget states n of
        None \<Rightarrow> record_fleet_cooldown E states ns tms tr
      | Some s \<Rightarrow>
          (case read_time E tr of
             (t, tr1) \<Rightarrow> record_fleet_cooldown E states ns (dset (fleet_group_key s) t tms) tr1))"

definition reserved_of :: "(string, string set) dict \<Rightarrow> string set" where
  "reserved_of pool_reserved = \<Union> (set (dvals pool_reserved))"

definition reserved_counts :: "(string, NodeState list) dict \<Rightarrow> string set \<Rightarrow> (string list \<times> flt) list" where
  "reserved_counts pool_groups reserved =
     map (\<lambda>(pool, ns). ([pool], fi (int (length (filter (\<lambda>n. ns_name n \<in> reserved) ns))))) pool_groups"

definition fleets :: "(string, NodeState) dict \<Rightarrow> (string, NodeState list) dict" where
  "fleets states = group_by fleet_group_key (dvals states) []"

definition emit_incs :: "string \<Rightarrow> (string, int) dict \<Rightarrow> trace \<Rightarrow> trace" where
  "emit_incs name counts tr = fold (\<lambda>(k, n). emit (EvInc name [k] n)) counts tr"

definition emit_rate_limited ::
  "(string set \<Rightarrow> string list) \<Rightarrow> (string, string) dict \<Rightarrow> (string, NodeState) dict \<Rightarrow> string set \<Rightarrow> trace \<Rightarrow> trace" where
  "emit_rate_limited ord managed states limited tr =
     emit_incs ''compactor_rate_limit_blocks''
       (count_by (\<lambda>n. case dget states n of None \<Rightarrow> dget_or managed n ''unknown'' | Some s \<Rightarrow> nodepool s)
          (\<lambda>_. 1) (ord limited) []) tr"

definition emit_spare :: "Config \<Rightarrow> (string, NodeState list) dict \<Rightarrow> string set \<Rightarrow> trace \<Rightarrow> trace" where
  "emit_spare cfg fleet_groups desired_taint tr =
     gauge ''compactor_spare_capacity_required'' (map (\<lambda>(k, ns). ([k], fi (required_spare cfg ns))) fleet_groups)
       (gauge ''compactor_spare_capacity_nodes''
          (map (\<lambda>(k, ns). ([k], fi (int (count_spare_nodes ns None desired_taint (spare_capacity_threshold cfg))))) fleet_groups)
          tr)"

subsection \<open>Cooldowns\<close>

definition fleet_surplus :: "(string, NodeState) dict \<Rightarrow> string \<Rightarrow> string set \<Rightarrow> nat \<times> nat" where
  \<comment> \<open>how many nodes of the fleet are tainted or about to be, and how many nodes it has\<close>
  "fleet_surplus states fleet desired_taint =
     (let fleet_nodes = filter (\<lambda>n. fleet_group_key n = fleet) (dvals states) in
      (length (filter (\<lambda>n. ns_name n \<in> desired_taint \<or> is_tainted n) fleet_nodes), length fleet_nodes))"

definition effective_cooldown :: "Config \<Rightarrow> nat \<Rightarrow> nat \<Rightarrow> int" where
  "effective_cooldown cfg surplus size_f =
     (if fmul (fi (int size_f)) (1 / 2) < of_nat surplus then fleet_cooldown cfg div 2 else fleet_cooldown cfg)"

fun fleet_cooldown_loop ::
  "Config \<Rightarrow> (string, NodeState) dict \<Rightarrow> (string, flt) dict \<Rightarrow> flt \<Rightarrow> string list
   \<Rightarrow> string set \<times> string set \<Rightarrow> string set \<times> string set" where
  "fleet_cooldown_loop cfg states tms now [] (taint, blocked) = (taint, blocked)"
| "fleet_cooldown_loop cfg states tms now (n # ns) (taint, blocked) =
     (case dget states n of
        None \<Rightarrow> fleet_cooldown_loop cfg states tms now ns (taint, blocked)
      | Some s \<Rightarrow>
          (case dget tms (fleet_group_key s) of
             None \<Rightarrow> fleet_cooldown_loop cfg states tms now ns (taint, blocked)
           | Some t \<Rightarrow>
               (case fleet_surplus states (fleet_group_key s) taint of
                  (surplus, size_f) \<Rightarrow>
                    (if fsub now t < of_int (effective_cooldown cfg surplus size_f)
                     then fleet_cooldown_loop cfg states tms now ns (taint - {n}, insert n blocked)
                     else fleet_cooldown_loop cfg states tms now ns (taint, blocked)))))"

definition fleet_of :: "(string, NodeState) dict \<Rightarrow> string \<Rightarrow> string list" where
  "fleet_of states n = (case dget states n of None \<Rightarrow> [] | Some s \<Rightarrow> [fleet_group_key s])"

definition apply_fleet_cooldown ::
  "(string set \<Rightarrow> string list) \<Rightarrow> Config \<Rightarrow> (string, NodeState) dict \<Rightarrow> (string, flt) dict option \<Rightarrow> flt
   \<Rightarrow> string set \<Rightarrow> trace \<Rightarrow> string set \<times> trace" where
  "apply_fleet_cooldown ord cfg states fleet_times now desired_taint tr =
     (case fleet_times of
        None \<Rightarrow> (desired_taint, tr)
      | Some tms \<Rightarrow>
          (if fleet_cooldown cfg \<le> 0 then (desired_taint, tr)
           else case fleet_cooldown_loop cfg states tms now (ord desired_taint) (desired_taint, {}) of
             (taint, blocked) \<Rightarrow>
               (let tr1 = emit_incs ''compactor_fleet_cooldown_blocks_total''
                            (count_by (\<lambda>k. k) (\<lambda>_. 1) (concat (map (fleet_of states) (ord blocked))) []) tr in
                (taint, gauge ''compactor_fleet_cooldown_remaining_seconds''
                   (map (\<lambda>(k, t). ([k], max 0 (fsub (fi (fleet_cooldown cfg)) (fsub now t)))) tms) tr1))))"

definition cooldown_blocked ::
  "(string set \<Rightarrow> string list) \<Rightarrow> Config \<Rightarrow> (string, flt) dict \<Rightarrow> flt \<Rightarrow> string set \<Rightarrow> string set" where
  "cooldown_blocked ord cfg tms now A =
     set (filter (\<lambda>n. fsub now (dget_or tms n 0) < of_int (taint_cooldown cfg)) (ord A))"

subsection \<open>Acting\<close>

definition untaint_action :: "string set \<Rightarrow> string set \<Rightarrow> string \<Rightarrow> string" where
  "untaint_action burst mandatory n =
     (if n \<in> burst then ''burst_untaint'' else if n \<in> mandatory then ''mandatory_untaint'' else ''untaint'')"

definition operation_metric :: "string \<Rightarrow> unit res \<Rightarrow> trace \<Rightarrow> trace" where
  \<comment> \<open>success, nothing when the node is gone, or error\<close>
  "operation_metric action r tr =
     (case r of
        Inr _ \<Rightarrow> emit (EvInc ''node_compactor_taint_operations_total'' [action, ''success''] 1) tr
      | Inl e \<Rightarrow> (if e = ApiError 404 then tr
                 else emit (EvInc ''node_compactor_taint_operations_total'' [action, ''error''] 1) tr))"

fun untaint_loop ::
  "env \<Rightarrow> Config \<Rightarrow> (string, NodeState) dict \<Rightarrow> string set \<Rightarrow> string set \<Rightarrow> string list \<Rightarrow> trace \<Rightarrow> trace" where
  "untaint_loop E cfg states burst mandatory [] tr = tr"
| "untaint_loop E cfg states burst mandatory (n # ns) tr =
     (case dget states n of
        None \<Rightarrow> untaint_loop E cfg states burst mandatory ns tr
      | Some s \<Rightarrow>
          (if \<not> is_tainted s then untaint_loop E cfg states burst mandatory ns tr
           else case remove_taint E n (cfg_taint_key cfg) (dry_run cfg) 3 tr of
             (r, tr1) \<Rightarrow>
               untaint_loop E cfg states burst mandatory ns
                 (operation_metric (untaint_action burst mandatory n) r tr1)))"

fun taint_loop ::
  "env \<Rightarrow> Config \<Rightarrow> (string, NodeState) dict \<Rightarrow> string list \<Rightarrow> (string, flt) dict \<Rightarrow> trace \<Rightarrow> (string, flt) dict \<times> trace" where
  "taint_loop E cfg states [] tms tr = (tms, tr)"
| "taint_loop E cfg states (n # ns) tms tr =
     (case dget states n of
        None \<Rightarrow> taint_loop E cfg states ns tms tr
      | Some s \<Rightarrow>
          (if is_tainted s then taint_loop E cfg states ns tms tr
           else case apply_taint E n (cfg_taint_key cfg) (dry_run cfg) 5 tr of
             (Inr u, tr1) \<Rightarrow>
               (case read_time E tr1 of
                  (t, tr2) \<Rightarrow> taint_loop E cfg states ns (dset n t tms) (operation_metric ''taint'' (Inr u) tr2))
           | (Inl e, tr1) \<Rightarrow> taint_loop E cfg states ns tms (operation_metric ''taint'' (Inl e) tr1)))"

definition tainted_per_fleet ::
  "(string, NodeState) dict \<Rightarrow> string set \<Rightarrow> string set \<Rightarrow> (string, int) dict" where
  "tainted_per_fleet states taint untaint =
     count_by (\<lambda>(name, ns). fleet_group_key ns) (\<lambda>_. 1)
       (filter (\<lambda>(name, ns). (is_tainted ns \<or> name \<in> taint) \<and> name \<notin> untaint) states) []"

text \<open>The cycle from the computed decision on: burst, cooldowns, patches, reservations.\<close>

definition act ::
  "env \<Rightarrow> (string set \<Rightarrow> string list) \<Rightarrow> Config \<Rightarrow> (string, NodeState) dict \<Rightarrow> string set \<Rightarrow> string set
   \<Rightarrow> decision \<Rightarrow> rstate \<Rightarrow> trace \<Rightarrow> unit res \<times> rstate \<times> trace" where
  "act E ord cfg states reserved burst d st tr =
     (let desired_untaint = to_untaint d \<union> burst;
          desired_taint = to_taint d - burst in
      case read_time E tr of (now_fleet, tr1) \<Rightarrow>
      case apply_fleet_cooldown ord cfg states (fleet_cooldown_times st) now_fleet desired_taint tr1 of (taint, tr2) \<Rightarrow>
      let tr3 = gauge ''node_compactor_tainted_nodes'' (per_key (tainted_per_fleet states taint desired_untaint)) tr2 in
      case read_time E tr3 of (now, tr4) \<Rightarrow>
      let blocked = cooldown_blocked ord cfg (taint_times st) now (desired_untaint - (burst \<union> mandatory_untaint d));
          untaint = desired_untaint - blocked;
          tr5 = (if blocked = {} then tr4 else emit (EvInc ''node_compactor_cooldown_blocks_total'' [] (int (card blocked))) tr4);
          tr6 = untaint_loop E cfg states burst (mandatory_untaint d) (ord untaint) tr5 in
      case taint_loop E cfg states (ord taint) (taint_times st) tr6 of (tms, tr7) \<Rightarrow>
      let st' = st\<lparr>taint_times := tms\<rparr> in
      if 0 < capacity_reservation_nodes cfg then
        (case reconcile_reservations E (dvals states) reserved (dry_run cfg) tr7 of
           (Inl e, tr8) \<Rightarrow> (Inl e, st', tr8)
         | (Inr _, tr8) \<Rightarrow> (Inr (), st', tr8))
      else (Inr (), st', tr7))"

text \<open>The cycle from the node states on: phantom load, gauges, burst check, reservation, decision.\<close>

definition decide_and_act ::
  "env \<Rightarrow> (string set \<Rightarrow> string list) \<Rightarrow> Config \<Rightarrow> (string, string) dict \<Rightarrow> (string, NodeState) dict \<Rightarrow> Pod list
   \<Rightarrow> rstate \<Rightarrow> trace \<Rightarrow> unit res \<times> rstate \<times> trace" where
  "decide_and_act E ord cfg managed states0 pending st tr =
     (case apply_pending_phantom_load E states0 pending tr of (states, tr1) \<Rightarrow>
      let tr2 = gauge ''node_compactor_workload_pods''
                  (per_key (count_by fleet_group_key (\<lambda>ns. int (workload_pod_count ns)) (dvals states) []))
                  (gauge ''node_compactor_node_utilization_ratio'' (utilization_series managed states) tr1) in
      case check_pending_pods cfg states pending of (burst, compatible) \<Rightarrow>
      let tr3 = emit (EvSet ''node_compactor_pending_pods_compatible'' (fi (int compatible))) tr2 in
      case (case fleet_cooldown_times st of
              None \<Rightarrow> (None, tr3)
            | Some tms \<Rightarrow>
                (case record_fleet_cooldown E states (ord burst) tms tr3 of (tms', tr') \<Rightarrow> (Some tms', tr'))) of
        (fleet_times, tr4) \<Rightarrow>
      let st1 = st\<lparr>fleet_cooldown_times := fleet_times\<rparr>;
          fleet_groups = fleets states;
          pool_groups = group_by nodepool (dvals states) [];
          tr5 = gauge ''node_compactor_managed_nodes'' (map (\<lambda>(k, ns). ([k], fi (int (length ns)))) fleet_groups) tr4 in
      case utc_now E tr5 of (now, tr6) \<Rightarrow>
      let reserved = (if 0 < capacity_reservation_nodes cfg
                      then reserved_of (select_reserved_nodes now pool_groups cfg) else {});
          tr7 = gauge ''compactor_reserved_nodes''
                  (if 0 < capacity_reservation_nodes cfg then reserved_counts pool_groups reserved else []) tr6 in
      case compute_taints now (monotonic_r E tr7 None) (\<lambda>g. monotonic_r E tr7 (Some g)) states cfg reserved
             (Some fleet_group_key) (peak_history st) pending of
        (Inl e, hist) \<Rightarrow> (Inl e, st1\<lparr>peak_history := hist\<rparr>, tr7)
      | (Inr d, hist) \<Rightarrow>
          (let tr8 = (if rate_limited d = {} then tr7 else emit_rate_limited ord managed states (rate_limited d) tr7);
               tr9 = emit_spare cfg fleet_groups (to_taint d) tr8 in
           act E ord cfg states reserved burst d (st1\<lparr>peak_history := hist\<rparr>) tr9))"

definition reconcile ::
  "env \<Rightarrow> (string set \<Rightarrow> string list) \<Rightarrow> Config \<Rightarrow> rstate \<Rightarrow> trace \<Rightarrow> unit res \<times> rstate \<times> trace" where
  "reconcile E ord cfg st tr =
     (case discover_managed_nodes E cfg (emit (EvTouch ''/tmp/healthy'') tr) of
        (Inl e, tr1) \<Rightarrow> (Inl e, st, tr1)
      | (Inr managed, tr1) \<Rightarrow>
          (if managed = [] then
             (Inr (), st, gauge ''node_compactor_tainted_nodes'' [] (gauge ''node_compactor_workload_pods'' []
                (gauge ''node_compactor_node_utilization_ratio'' [] (gauge ''node_compactor_managed_nodes'' [] tr1))))
           else case build_node_states E cfg managed tr1 of
               (Inl e, tr2) \<Rightarrow> (Inl e, st, tr2)
             | (Inr (states, pending), tr2) \<Rightarrow>
                 (if states = [] then
                    (Inr (), st, gauge ''node_compactor_tainted_nodes'' [] (gauge ''node_compactor_workload_pods'' []
                       (gauge ''node_compactor_node_utilization_ratio'' [] tr2)))
                  else decide_and_act E ord cfg managed states pending st tr2)))"

subsection \<open>The main loop\<close>

definition cycle :: "env \<Rightarrow> (string set \<Rightarrow> string list) \<Rightarrow> Config \<Rightarrow> rstate \<Rightarrow> trace \<Rightarrow> rstate \<times> trace" where
  \<comment> \<open>the body of \<open>while not shutdown\<close>, without the sleep\<close>
  "cycle E ord cfg st tr =
     (case reconcile E ord cfg st tr of
        (Inr _, st', tr1) \<Rightarrow> (st', emit (EvInc ''node_compactor_reconcile_cycles_total'' [''success''] 1) tr1)
      | (Inl e, st', tr1) \<Rightarrow>
          (let tr2 = emit (EvInc ''node_compactor_reconcile_cycles_total'' [''error''] 1) tr1 in
           (st', if e = ApiError 401 then emit EvNewClient tr2 else tr2)))"

fun cycles :: "env \<Rightarrow> (string set \<Rightarrow> string list) \<Rightarrow> Config \<Rightarrow> nat \<Rightarrow> rstate \<Rightarrow> trace \<Rightarrow> rstate \<times> trace" where
  \<comment> \<open>\<open>n\<close> rounds of the loop: the signal arrives during the sleep after the last\<close>
  "cycles E ord cfg 0 st tr = (st, tr)"
| "cycles E ord cfg (Suc n) st tr = (case cycle E ord cfg st tr of (st', tr') \<Rightarrow> cycles E ord cfg n st' tr')"

definition start_state :: rstate where
  "start_state = \<lparr>taint_times = [], fleet_cooldown_times = Some [], peak_history = Some []\<rparr>"

definition shutdown :: "env \<Rightarrow> Config \<Rightarrow> trace \<Rightarrow> trace" where
  \<comment> \<open>both clean-ups run, whatever the first one raised\<close>
  "shutdown E cfg tr = snd (cleanup_reservations E (snd (cleanup_stale_taints E cfg tr)))"

definition main :: "env \<Rightarrow> (string set \<Rightarrow> string list) \<Rightarrow> (string \<Rightarrow> string option) \<Rightarrow> nat \<Rightarrow> trace \<Rightarrow> int res \<times> trace" where
  "main E ord environ n tr =
     (case from_env environ of
        Inl e \<Rightarrow> (Inl e, tr)
      | Inr cfg \<Rightarrow> (Inr 0, shutdown E cfg (snd (cycles E ord cfg n start_state (emit EvNewClient tr)))))"

end
