(* ===== verification/Compactor_Cycle.thy ===== *)
theory Compactor_Cycle
  imports Compactor_Reconcile
begin

section \<open>Node compactor: what a reconcile cycle guarantees\<close>

text \<open>
  Every patch of a cycle is one of four kinds, on a managed node, and based on the read just before
  it; the lemmas follow the stages of the cycle. The order of a set iteration is any order.
\<close>

definition iterates :: "(string set \<Rightarrow> string list) \<Rightarrow> bool" where
  \<comment> \<open>\<open>ord\<close> lists each element of a finite set once\<close>
  "iterates ord \<longleftrightarrow> (\<forall>A. (finite A \<longrightarrow> set (ord A) = A \<and> distinct (ord A)) \<and> (infinite A \<longrightarrow> ord A = []))"

lemma iterates_sorted_set: "iterates sorted_set"
  by (simp add: iterates_def sorted_set_def)

lemma iterates_subset: "iterates ord \<Longrightarrow> set (ord A) \<subseteq> A"
  by (cases "finite A") (auto simp: iterates_def)

lemma iterates_set: "iterates ord \<Longrightarrow> finite A \<Longrightarrow> set (ord A) = A"
  by (simp add: iterates_def)

subsection \<open>Events that are not patches\<close>

lemma gauge_adds: "adds (each_patch Q) tr (gauge name cur tr)"
  unfolding gauge_def emit_def by (rule adds_emit) simp

lemma emit_inc_adds: "adds (each_patch Q) tr (emit (EvInc name l n) tr)"
  unfolding emit_def by (rule adds_emit) simp

lemma emit_incs_adds: "stable Q \<Longrightarrow> adds (each_patch Q) tr (emit_incs name counts tr)"
proof (induction counts arbitrary: tr)
  case Nil then show ?case by (simp add: emit_incs_def adds_refl)
next
  case (Cons x counts)
  obtain k n where x: "x = (k, n)" by (cases x)
  have "emit_incs name (x # counts) tr = emit_incs name counts (emit (EvInc name [k] n) tr)"
    by (simp add: emit_incs_def x)
  then show ?case using adds_trans [OF Cons.prems emit_inc_adds Cons.IH [OF Cons.prems]] by simp
qed

lemma operation_metric_adds: "adds (each_patch Q) tr (operation_metric a r tr)"
  by (auto simp: operation_metric_def emit_inc_adds adds_refl split: sum.split)

lemma read_time_adds: "read_time E tr = (t, tr') \<Longrightarrow> adds (each_patch Q) tr tr'"
  by (auto simp: read_time_def intro!: adds_emit)

lemma utc_now_adds: "utc_now E tr = (t, tr') \<Longrightarrow> adds (each_patch Q) tr tr'"
  by (auto simp: utc_now_def intro!: adds_emit)

lemma list_adds:
  "list_nodes E tr = (a, tr') \<Longrightarrow> adds (each_patch Q) tr tr'" "list_pools E tr = (b, tr') \<Longrightarrow> adds (each_patch Q) tr tr'"
  "list_namespaces E tr = (c, tr') \<Longrightarrow> adds (each_patch Q) tr tr'" "list_pods E tr = (f, tr') \<Longrightarrow> adds (each_patch Q) tr tr'"
  by (auto simp: list_nodes_def list_pools_def list_namespaces_def list_pods_def intro!: adds_emit)

subsection \<open>The two loops that patch\<close>

definition untaint_ok :: "string set \<Rightarrow> string \<Rightarrow> bool \<Rightarrow> string \<Rightarrow> patch \<Rightarrow> trace \<Rightarrow> bool" where
  "untaint_ok A key dry n p tr \<longleftrightarrow> \<not> dry \<and> n \<in> A \<and> based_on (remove_ok n key) n p tr"

definition taint_ok :: "string set \<Rightarrow> string \<Rightarrow> bool \<Rightarrow> string \<Rightarrow> patch \<Rightarrow> trace \<Rightarrow> bool" where
  "taint_ok A key dry n p tr \<longleftrightarrow> \<not> dry \<and> n \<in> A \<and> based_on (apply_ok n key) n p tr"

lemma stable_loops: "stable (untaint_ok A key dry)" "stable (taint_ok A key dry)"
proof -
  have "based_on P n p es \<Longrightarrow> based_on P n p (es @ tr)" for P n p es tr
    using stable_based_on [of P] by (simp add: stable_def)
  then show "stable (untaint_ok A key dry)" "stable (taint_ok A key dry)"
    by (simp_all add: stable_def untaint_ok_def taint_ok_def)
qed

lemma based_on_name: "based_on (remove_ok a key) n p tr \<Longrightarrow> n = a" "based_on (apply_ok a key) n p tr \<Longrightarrow> n = a"
  by (auto elim!: based_on.elims simp: remove_ok_def apply_ok_def)

lemma remove_taint_adds:
  assumes "n \<in> A" "remove_taint E n key dry k tr = (r, tr')"
  shows "adds (each_patch (untaint_ok A key dry)) tr tr'"
proof (cases dry)
  case True
  then show ?thesis using assms(2) by (simp add: remove_taint_def adds_refl)
next
  case False
  have "adds (justified (remove_ok n key)) tr tr'" using remove_taint_patches_lemma [of n key tr E dry k] assms(2) by simp
  then show ?thesis
    by (rule adds_mono) (use based_on_name(1) assms(1) False in \<open>fastforce simp: untaint_ok_def\<close>)
qed

lemma apply_taint_adds:
  assumes "n \<in> A" "apply_taint E n key dry k tr = (r, tr')"
  shows "adds (each_patch (taint_ok A key dry)) tr tr'"
proof (cases dry)
  case True
  then show ?thesis using assms(2) by (simp add: apply_taint_def adds_refl)
next
  case False
  have "adds (justified (apply_ok n key)) tr tr'" using apply_taint_patches_lemma [of n key tr E dry k] assms(2) by simp
  then show ?thesis
    by (rule adds_mono) (use based_on_name(2) assms(1) False in \<open>fastforce simp: taint_ok_def\<close>)
qed

definition tainted_names :: "(string, NodeState) dict \<Rightarrow> bool \<Rightarrow> string set" where
  \<comment> \<open>the names stored with a node that does (or does not) carry the taint\<close>
  "tainted_names states b = {n. \<exists>s. dget states n = Some s \<and> is_tainted s = b}"

lemma untaint_loop_adds:
  assumes "set ns \<inter> tainted_names states True \<subseteq> A"
  shows "adds (each_patch (untaint_ok A (cfg_taint_key cfg) (dry_run cfg))) tr (untaint_loop E cfg states burst mand ns tr)"
  using assms
proof (induction ns arbitrary: tr)
  case (Cons n ns)
  have rest: "set ns \<inter> tainted_names states True \<subseteq> A" using Cons.prems by auto
  show ?case
  proof (cases "n \<in> tainted_names states True")
    case True
    then obtain s where s: "dget states n = Some s" "is_tainted s" by (auto simp: tainted_names_def)
    obtain r tr1 where r: "remove_taint E n (cfg_taint_key cfg) (dry_run cfg) 3 tr = (r, tr1)" by fastforce
    have "n \<in> A" using True Cons.prems by auto
    note adds_trans [OF stable_loops(1) adds_trans [OF stable_loops(1) remove_taint_adds [OF this r] operation_metric_adds]
      Cons.IH [OF rest]]
    then show ?thesis using s r by simp
  next
    case False
    then show ?thesis using Cons.IH [OF rest] by (auto simp: tainted_names_def split: option.split)
  qed
qed (simp add: adds_refl)

lemma taint_loop_adds:
  assumes "set ns \<inter> tainted_names states False \<subseteq> A"
  shows "adds (each_patch (taint_ok A (cfg_taint_key cfg) (dry_run cfg))) tr (snd (taint_loop E cfg states ns tms tr))"
  using assms
proof (induction ns arbitrary: tr tms)
  case (Cons n ns)
  have rest: "set ns \<inter> tainted_names states False \<subseteq> A" using Cons.prems by auto
  show ?case
  proof (cases "n \<in> tainted_names states False")
    case True
    then obtain s where s: "dget states n = Some s" "\<not> is_tainted s" by (auto simp: tainted_names_def)
    obtain r tr1 where r: "apply_taint E n (cfg_taint_key cfg) (dry_run cfg) 5 tr = (r, tr1)" by fastforce
    have "n \<in> A" using True Cons.prems by auto
    note a = apply_taint_adds [OF this r]
    show ?thesis
    proof (cases r)
      case (Inl e)
      then show ?thesis
        using s r adds_trans [OF stable_loops(2) adds_trans [OF stable_loops(2) a operation_metric_adds] Cons.IH [OF rest]]
        by simp
    next
      case (Inr u)
      obtain t tr2 where t: "read_time E tr1 = (t, tr2)" by fastforce
      note b = adds_trans [OF stable_loops(2) a read_time_adds [OF t]]
      show ?thesis
        using s r Inr t adds_trans [OF stable_loops(2) adds_trans [OF stable_loops(2) b operation_metric_adds] Cons.IH [OF rest]]
        by simp
    qed
  next
    case False
    then show ?thesis using Cons.IH [OF rest] by (auto simp: tainted_names_def split: option.split)
  qed
qed (simp add: adds_refl)

subsection \<open>Cooldowns\<close>

definition fleet_cooled ::
  "Config \<Rightarrow> (string, NodeState) dict \<Rightarrow> (string, flt) dict \<Rightarrow> flt \<Rightarrow> string set \<Rightarrow> string \<Rightarrow> bool" where
  \<comment> \<open>the fleet of the node had no burst, or its cooldown, halved only when more than half of the fleet is
      tainted or about to be, has passed; the set ranges over what the loop may still hold\<close>
  "fleet_cooled cfg states tms now taint n \<longleftrightarrow>
     (\<forall>s t. dget states n = Some s \<and> dget tms (fleet_group_key s) = Some t \<longrightarrow>
        (\<exists>T \<subseteq> taint. case fleet_surplus states (fleet_group_key s) T of
           (surplus, size_f) \<Rightarrow> of_int (effective_cooldown cfg surplus size_f) \<le> fsub now t))"

lemma fleet_cooled_mono: "fleet_cooled cfg states tms now T n \<Longrightarrow> T \<subseteq> U \<Longrightarrow> fleet_cooled cfg states tms now U n"
  unfolding fleet_cooled_def by (meson order_trans)

lemma fleet_cooldown_loop_sound:
  assumes "fleet_cooldown_loop cfg states tms now ns (taint, blocked) = (taint', blocked')"
  shows "taint' \<subseteq> taint \<and> (\<forall>n \<in> set ns \<inter> taint'. fleet_cooled cfg states tms now taint n)"
  using assms
proof (induction ns arbitrary: taint blocked)
  case (Cons n ns)
  have skip: ?case
    if "fleet_cooldown_loop cfg states tms now ns (taint, blocked) = (taint', blocked')"
      "fleet_cooled cfg states tms now taint n"
    using Cons.IH [OF that(1)] that(2) by auto
  show ?case
  proof (cases "dget states n")
    case None
    then show ?thesis using Cons.prems by (intro skip) (simp_all add: fleet_cooled_def)
  next
    case (Some s)
    show ?thesis
    proof (cases "dget tms (fleet_group_key s)")
      case None
      then show ?thesis using Cons.prems Some by (intro skip) (simp_all add: fleet_cooled_def)
    next
      case t: (Some t)
      obtain surplus size_f where f: "fleet_surplus states (fleet_group_key s) taint = (surplus, size_f)" by fastforce
      show ?thesis
      proof (cases "fsub now t < of_int (effective_cooldown cfg surplus size_f)")
        case False
        then have "fleet_cooled cfg states tms now taint n"
          using Some t f unfolding fleet_cooled_def by (auto intro!: exI [of _ taint])
        then show ?thesis using Cons.prems Some t f False by (intro skip) simp_all
      next
        case True
        then have r: "fleet_cooldown_loop cfg states tms now ns (taint - {n}, insert n blocked) = (taint', blocked')"
          using Cons.prems Some t f by simp
        show ?thesis using Cons.IH [OF r] fleet_cooled_mono [of cfg states tms now "taint - {n}" _ taint] by auto
      qed
    qed
  qed
qed simp

lemma apply_fleet_cooldown_sound:
  assumes "apply_fleet_cooldown ord cfg states fleet_times now taint tr = (taint', tr')" "iterates ord" "finite taint"
    and "stable Q"
  shows "taint' \<subseteq> taint \<and> adds (each_patch Q) tr tr'
    \<and> (\<forall>tms n. fleet_times = Some tms \<and> 0 < fleet_cooldown cfg \<and> n \<in> taint' \<longrightarrow> fleet_cooled cfg states tms now taint n)"
proof (cases "\<exists>tms. fleet_times = Some tms \<and> 0 < fleet_cooldown cfg")
  case False
  then show ?thesis using assms(1) by (auto simp: apply_fleet_cooldown_def adds_refl split: option.splits if_splits)
next
  case True
  then obtain tms where f: "fleet_times = Some tms" "0 < fleet_cooldown cfg" by blast
  obtain tt bb where l: "fleet_cooldown_loop cfg states tms now (ord taint) (taint, {}) = (tt, bb)" by fastforce
  have t: "taint' = tt" and tr': "adds (each_patch Q) tr tr'"
    using assms(1,4) f l
    by (auto simp: apply_fleet_cooldown_def Let_def intro: adds_trans [OF _ emit_incs_adds gauge_adds])
  show ?thesis using fleet_cooldown_loop_sound [OF l] iterates_set [OF assms(2,3)] f t tr' by auto
qed

lemma cooldown_blocked_iff:
  "iterates ord \<Longrightarrow> finite A \<Longrightarrow>
     n \<in> cooldown_blocked ord cfg tms now A \<longleftrightarrow> n \<in> A \<and> fsub now (dget_or tms n 0) < of_int (taint_cooldown cfg)"
  by (auto simp: cooldown_blocked_def iterates_set)

subsection \<open>Acting on a decision\<close>

definition untaint_due :: "Config \<Rightarrow> rstate \<Rightarrow> string set \<Rightarrow> decision \<Rightarrow> flt \<Rightarrow> string \<Rightarrow> bool" where
  \<comment> \<open>a wanted untaint that is urgent, or whose cooldown has passed\<close>
  "untaint_due cfg st burst d now n \<longleftrightarrow> n \<in> to_untaint d \<union> burst
     \<and> (n \<in> burst \<union> mandatory_untaint d \<or> of_int (taint_cooldown cfg) \<le> fsub now (dget_or (taint_times st) n 0))"

definition taint_due :: "Config \<Rightarrow> (string, NodeState) dict \<Rightarrow> rstate \<Rightarrow> string set \<Rightarrow> decision \<Rightarrow> flt \<Rightarrow> string \<Rightarrow> bool" where
  \<comment> \<open>a wanted taint on a node that is not released in this cycle and whose fleet has cooled down\<close>
  "taint_due cfg states st burst d now n \<longleftrightarrow> n \<in> to_taint d - burst
     \<and> (\<forall>tms. fleet_cooldown_times st = Some tms \<and> 0 < fleet_cooldown cfg
          \<longrightarrow> fleet_cooled cfg states tms now (to_taint d - burst) n)"

definition act_ok ::
  "Config \<Rightarrow> (string, NodeState) dict \<Rightarrow> rstate \<Rightarrow> string set \<Rightarrow> string set \<Rightarrow> decision \<Rightarrow> flt \<Rightarrow> flt
   \<Rightarrow> string \<Rightarrow> patch \<Rightarrow> trace \<Rightarrow> bool" where
  "act_ok cfg states st reserved burst d now_fleet now n p tr \<longleftrightarrow>
     untaint_ok {n \<in> tainted_names states True. untaint_due cfg st burst d now n} (cfg_taint_key cfg) (dry_run cfg) n p tr
     \<or> taint_ok {n \<in> tainted_names states False. taint_due cfg states st burst d now_fleet n} (cfg_taint_key cfg) (dry_run cfg) n p tr
     \<or> 0 < capacity_reservation_nodes cfg \<and> \<not> dry_run cfg
       \<and> reservation_patch_ok (reserved - ns_name ` {s \<in> set (dvals states). is_reserved s})
           (ns_name ` {s \<in> set (dvals states). is_reserved s} - reserved) n p tr"

lemma stable_act_ok: "stable (act_ok cfg states st reserved burst d now_fleet now)"
  unfolding act_ok_def [abs_def]
  by (intro stable_or stable_and stable_loops stable_reservation_patch_ok stable_const)

text \<open>Acting on a decision, whatever the server answers and in whatever order sets are iterated: a
  node is patched only to remove the compactor's taint when that is wanted and either urgent (burst or
  mandatory) or at least \<open>taint_cooldown\<close> seconds after it was tainted; or to add it when that is
  wanted, the node is not being released for a burst, and its fleet's burst cooldown has passed; or to
  reconcile a reservation. The two clock readings are the same for all nodes.\<close>

lemma act_patches_lemma:
  assumes "act E ord cfg states reserved burst d st tr = (r, st', tr')"
    and "iterates ord" "finite (to_taint d)" "finite (to_untaint d)" "finite burst"
  shows "\<exists>now_fleet now. adds (each_patch (act_ok cfg states st reserved burst d now_fleet now)) tr tr'"
proof -
  let ?key = "cfg_taint_key cfg" and ?du = "to_untaint d \<union> burst" and ?dt = "to_taint d - burst"
  let ?ex = "burst \<union> mandatory_untaint d"
  obtain now_fleet tr1 where t1: "read_time E tr = (now_fleet, tr1)" by fastforce
  obtain taint tr2 where f: "apply_fleet_cooldown ord cfg states (fleet_cooldown_times st) now_fleet ?dt tr1 = (taint, tr2)"
    by fastforce
  define tr3 where "tr3 = gauge ''node_compactor_tainted_nodes'' (per_key (tainted_per_fleet states taint ?du)) tr2"
  obtain now tr4 where t4: "read_time E tr3 = (now, tr4)" by fastforce
  define blocked where "blocked = cooldown_blocked ord cfg (taint_times st) now (?du - ?ex)"
  define tr5 where "tr5 = (if blocked = {} then tr4 else emit (EvInc ''node_compactor_cooldown_blocks_total'' [] (int (card blocked))) tr4)"
  define tr6 where "tr6 = untaint_loop E cfg states burst (mandatory_untaint d) (ord (?du - blocked)) tr5"
  obtain tms tr7 where l: "taint_loop E cfg states (ord taint) (taint_times st) tr6 = (tms, tr7)" by fastforce
  let ?Q = "act_ok cfg states st reserved burst d now_fleet now"
  note tr = adds_trans [OF stable_act_ok [of cfg states st reserved burst d now_fleet now]]
  have fin: "finite ?dt" "finite (?du - ?ex)" "finite ?du" using assms(3-5) by auto
  have a2: "taint \<subseteq> ?dt" "adds (each_patch ?Q) tr1 tr2"
    "\<And>tms n. fleet_cooldown_times st = Some tms \<Longrightarrow> 0 < fleet_cooldown cfg \<Longrightarrow> n \<in> taint \<Longrightarrow>
       fleet_cooled cfg states tms now_fleet ?dt n"
    using apply_fleet_cooldown_sound [OF f assms(2) fin(1) stable_act_ok] by blast+
  have a5: "adds (each_patch ?Q) tr tr5"
  proof -
    have "adds (each_patch ?Q) tr4 tr5" by (simp add: tr5_def emit_inc_adds adds_refl)
    with tr [OF tr [OF tr [OF read_time_adds [OF t1] a2(2)] gauge_adds] read_time_adds [OF t4 [unfolded tr3_def]]]
    show ?thesis by (rule tr)
  qed
  have "untaint_due cfg st burst d now n" if "n \<in> ?du - blocked" for n
    using that cooldown_blocked_iff [OF assms(2) fin(2), of n cfg "taint_times st" now]
    by (auto simp: untaint_due_def blocked_def not_less)
  then have "set (ord (?du - blocked)) \<inter> tainted_names states True
      \<subseteq> {n \<in> tainted_names states True. untaint_due cfg st burst d now n}"
    using iterates_subset [OF assms(2)] by blast
  then have a6: "adds (each_patch ?Q) tr5 tr6"
    unfolding tr6_def by (rule adds_mono [OF untaint_loop_adds]) (simp add: act_ok_def)
  have "taint_due cfg states st burst d now_fleet n" if "n \<in> taint" for n
    using that a2(1,3) by (auto simp: taint_due_def)
  then have "set (ord taint) \<inter> tainted_names states False
      \<subseteq> {n \<in> tainted_names states False. taint_due cfg states st burst d now_fleet n}"
    using iterates_subset [OF assms(2)] by blast
  from taint_loop_adds [OF this, of cfg tr6 E "taint_times st"]
  have a7: "adds (each_patch ?Q) tr6 tr7" unfolding l by (simp, elim adds_mono) (simp add: act_ok_def)
  have e: "act E ord cfg states reserved burst d st tr =
     (if 0 < capacity_reservation_nodes cfg then
        (case reconcile_reservations E (dvals states) reserved (dry_run cfg) tr7 of
           (Inl e, tr8) \<Rightarrow> (Inl e, st\<lparr>taint_times := tms\<rparr>, tr8)
         | (Inr _, tr8) \<Rightarrow> (Inr (), st\<lparr>taint_times := tms\<rparr>, tr8))
      else (Inr (), st\<lparr>taint_times := tms\<rparr>, tr7))"
    unfolding act_def Let_def t1 prod.case f tr3_def [symmetric] t4
    unfolding blocked_def [symmetric] tr5_def [symmetric]
    unfolding tr6_def [symmetric] l prod.case by (rule refl)
  have a: "adds (each_patch ?Q) tr tr7" by (rule tr [OF tr [OF a5 a6] a7])
  show ?thesis
  proof (cases "0 < capacity_reservation_nodes cfg")
    case False
    then show ?thesis using assms(1) a unfolding e by auto
  next
    case True
    obtain r8 tr8 where r8: "reconcile_reservations E (dvals states) reserved (dry_run cfg) tr7 = (r8, tr8)" by fastforce
    note rr = reconcile_reservations_patches_lemma [OF r8]
    have "adds (each_patch ?Q) tr7 tr8"
    proof (cases "dry_run cfg")
      case True
      then show ?thesis using rr by (simp add: adds_refl)
    next
      case False
      then show ?thesis
        by (rule_tac adds_mono [OF conjunct1 [OF rr]]) (use True in \<open>simp add: act_ok_def image_def\<close>)
    qed
    from tr [OF a this] show ?thesis using assms(1) True r8 unfolding e by (auto split: sum.splits)
  qed
qed
subsection \<open>The whole cycle\<close>

definition cycle_ok :: "Config \<Rightarrow> string set \<Rightarrow> string \<Rightarrow> patch \<Rightarrow> trace \<Rightarrow> bool" where
  \<comment> \<open>not a dry run, a managed node, and one of the four kinds of patch\<close>
  "cycle_ok cfg managed n p tr \<longleftrightarrow> \<not> dry_run cfg \<and> n \<in> managed
     \<and> (based_on (remove_ok n (cfg_taint_key cfg)) n p tr \<or> based_on (apply_ok n (cfg_taint_key cfg)) n p tr
        \<or> 0 < capacity_reservation_nodes cfg \<and> (p = reserve_patch \<or> based_on (unreserve_ok n) n p tr))"

lemma stable_cycle_ok: "stable (cycle_ok cfg managed)"
proof -
  have "based_on P n p es \<Longrightarrow> based_on P n p (es @ tr)" for P n p es tr
    using stable_based_on [of P] by (simp add: stable_def)
  then show ?thesis by (auto simp: stable_def cycle_ok_def)
qed

lemma act_ok_cycle_ok:
  assumes "act_ok cfg states st reserved burst d t1 t2 n p tr" "wf_states states"
    "set (dkeys states) \<subseteq> managed" "reserved \<subseteq> names (dvals states)"
  shows "cycle_ok cfg managed n p tr"
proof -
  have t: "m \<in> tainted_names states b \<Longrightarrow> m \<in> managed" for m b
    using pd.get_keys [of states m] assms(3) by (auto simp: tainted_names_def)
  have "names (dvals states) = set (dkeys states)"
    using assms(2) by (force simp: wf_states_def dvals_def dkeys_def)
  then have r: "m \<in> names (dvals states) \<Longrightarrow> m \<in> managed" for m using assms(3) by blast
  have c: "ns_name ` {s \<in> set (dvals states). is_reserved s} \<subseteq> names (dvals states)" by auto
  show ?thesis using assms(1) unfolding act_ok_def
  proof (elim disjE)
    assume "untaint_ok {n \<in> tainted_names states True. untaint_due cfg st burst d t2 n} (cfg_taint_key cfg) (dry_run cfg) n p tr"
    then show ?thesis by (auto simp: untaint_ok_def cycle_ok_def dest: t)
  next
    assume "taint_ok {n \<in> tainted_names states False. taint_due cfg states st burst d t1 n} (cfg_taint_key cfg) (dry_run cfg) n p tr"
    then show ?thesis by (auto simp: taint_ok_def cycle_ok_def dest: t)
  next
    assume a: "0 < capacity_reservation_nodes cfg \<and> \<not> dry_run cfg \<and>
      reservation_patch_ok (reserved - ns_name ` {s \<in> set (dvals states). is_reserved s})
        (ns_name ` {s \<in> set (dvals states). is_reserved s} - reserved) n p tr"
    then have "n \<in> names (dvals states)" using c assms(4) by (auto simp: reservation_patch_ok_def)
    then show ?thesis using a r by (auto simp: reservation_patch_ok_def cycle_ok_def)
  qed
qed

lemma taint_groups_touched:
  "fst (taint_groups cfg now mclk reserved pending gs hist d) = Inr d' \<Longrightarrow>
     touched d' \<subseteq> touched d \<union> (\<Union>(g, grp) \<in> set gs. names grp)"
proof (induction cfg now mclk reserved pending gs hist d rule: taint_groups.induct)
  case (2 cfg now mclk reserved pending g grp rest hist d)
  let ?m = "int (bin_pack_min_nodes (group_pods cfg now pending grp) grp)"
  obtain r hist' where r: "(case hist of None \<Rightarrow> (Inr ?m, None)
      | Some h \<Rightarrow> (case update_peak_history (mclk g) h g ?m (interval cfg) (peak_window_seconds cfg) of
                    (r, h') \<Rightarrow> (r, Some h'))) = (r, hist')" by fastforce
  then obtain p where p: "r = Inr p" using "2.prems" by (cases r) (auto simp: Let_def)
  have "fst (taint_groups cfg now mclk reserved pending rest hist'
      (taint_group cfg now reserved grp (max p (min_nodes cfg)) d)) = Inr d'"
    using "2.prems" unfolding taint_groups.simps Let_def r p by simp
  from "2.IH" [OF refl r [symmetric] p this] show ?case using touched_group [of cfg now reserved grp "max p (min_nodes cfg)" d]
    by auto
qed simp

lemma compute_taints_touched:
  assumes "fst (compute_taints now pt mclk states cfg reserved gk hist pending) = Inr d"
  shows "touched d \<subseteq> names (dvals states)"
proof (cases "states = []")
  case True
  then show ?thesis using assms by (auto simp: compute_taints_def touched_def no_decision_def)
next
  case False
  let ?gs = "group_by (group_fn gk) (dvals states) []"
  have "fst (taint_groups cfg now mclk reserved pending ?gs
      (map_option (prune_stale_peak_history pt (peak_window_seconds cfg)) hist) no_decision) = Inr d"
    using assms False by (simp add: compute_taints_def group_fn_def Let_def)
  from taint_groups_touched [OF this] have "touched d \<subseteq> (\<Union>(g, grp) \<in> set ?gs. names grp)"
    by (auto simp: touched_def no_decision_def)
  moreover have "names grp \<subseteq> names (dvals states)" if "(g, grp) \<in> set ?gs" for g grp
    using group_by_entry(1) [OF that] by auto
  ultimately show ?thesis by blast
qed

lemma dvals_dset: "set (dvals (dset k v d)) \<subseteq> insert v (set (dvals d))"
  by (induction d) (auto simp: dset_def dvals_def)

lemma reserved_of_Nil [simp]: "reserved_of [] = {}"
  by (simp add: reserved_of_def dvals_def)

lemma select_pools_names:
  "x \<in> reserved_of (select_pools cfg now gs acc) \<Longrightarrow> x \<in> reserved_of acc \<or> x \<in> names (concat (dvals gs))"
proof (induction cfg now gs acc rule: select_pools.induct)
  case (2 cfg now q ns rest result)
  let ?S = "select_in_pool cfg now ns"
  let ?r = "if ?S = {} then result else dset q ?S result"
  have "select_pools cfg now ((q, ns) # rest) result = select_pools cfg now rest ?r" by (simp add: Let_def)
  with "2.IH" [OF refl] "2.prems" have "x \<in> reserved_of ?r \<or> x \<in> names (concat (dvals rest))" by simp
  moreover have "x \<in> reserved_of ?r \<Longrightarrow> x \<in> reserved_of result \<or> x \<in> ?S"
    using dvals_dset [of q ?S result] by (auto simp: reserved_of_def split: if_splits)
  moreover have "x \<in> ?S \<Longrightarrow> x \<in> names ns" by (auto simp: select_in_pool_def dest: in_set_takeD)
  ultimately show ?case by (auto simp: dvals_def)
qed simp

lemma concat_group_by: "set (concat (dvals (group_by f xs []))) = set xs"
proof -
  have "x \<in> set (concat (dvals (group_by f xs [])))" if "x \<in> set xs" for x
  proof -
    have "dget (group_by f xs []) (f x) = Some (filter (\<lambda>y. f y = f x) xs)" using that by (simp add: dget_group_by)
    then have "(f x, filter (\<lambda>y. f y = f x) xs) \<in> set (group_by f xs [])" by (simp add: dget_def map_of_SomeD)
    then show ?thesis using that by (force simp: dvals_def)
  qed
  moreover have "y \<in> set xs" if "y \<in> set (concat (dvals (group_by f xs [])))" for y
    using that group_by_entry(1) [of _ _ f xs] by (fastforce simp: dvals_def)
  ultimately show ?thesis by blast
qed

lemma select_reserved_names:
  "reserved_of (select_reserved_nodes now (group_by f ns []) cfg) \<subseteq> names ns"
proof
  let ?all = "concat (dvals (group_by f ns []))"
  fix x assume "x \<in> reserved_of (select_reserved_nodes now (group_by f ns []) cfg)"
  then have "x \<in> reserved_of (select_pools cfg now (group_by nodepool ?all []) [])"
    by (simp add: select_reserved_nodes_def split: if_splits)
  from select_pools_names [OF this] have "x \<in> names (concat (dvals (group_by nodepool ?all [])))" by simp
  then show "x \<in> names ns" by (simp only: concat_group_by)
qed

lemma names_dkeys: "wf_states states \<Longrightarrow> names (dvals states) = set (dkeys states)"
  by (force simp: wf_states_def dvals_def dkeys_def)

lemma record_fleet_cooldown_adds:
  "stable Q \<Longrightarrow> adds (each_patch Q) tr (snd (record_fleet_cooldown E states ns tms tr))"
proof (induction ns arbitrary: tms tr)
  case (Cons n ns)
  show ?case
  proof (cases "dget states n")
    case (Some s)
    obtain t tr1 where t: "read_time E tr = (t, tr1)" by fastforce
    show ?thesis
      using adds_trans [OF Cons.prems read_time_adds [OF t] Cons.IH [OF Cons.prems]] Some t by simp
  qed (use Cons in simp)
qed (simp add: adds_refl)

lemma phantom_adds:
  "stable Q \<Longrightarrow> apply_pending_phantom_load E states pending tr = (states', tr') \<Longrightarrow> adds (each_patch Q) tr tr'"
  by (auto simp: apply_pending_phantom_load_def utc_now_def emit_def Let_def adds_def split: if_splits)

lemma decide_and_act_adds:
  assumes "wf_states states0" "set (dkeys states0) \<subseteq> M" "iterates ord"
    and "decide_and_act E ord cfg managed states0 pending st tr = (r, st', tr')"
  shows "adds (each_patch (cycle_ok cfg M)) tr tr'"
proof -
  let ?Q = "cycle_ok cfg M"
  note T = adds_trans [OF stable_cycle_ok [of cfg M]]
  obtain states tr1 where ph: "apply_pending_phantom_load E states0 pending tr = (states, tr1)" by fastforce
  obtain burst compatible where cp: "check_pending_pods cfg states pending = (burst, compatible)" by fastforce
  let ?tr2 = "gauge ''node_compactor_workload_pods''
                  (per_key (count_by fleet_group_key (\<lambda>ns. int (workload_pod_count ns)) (dvals states) []))
                  (gauge ''node_compactor_node_utilization_ratio'' (utilization_series managed states) tr1)"
  define tr3 where "tr3 = emit (EvSet ''node_compactor_pending_pods_compatible'' (fi (int compatible))) ?tr2"
  obtain fleet_times tr4 where fl: "(case fleet_cooldown_times st of
              None \<Rightarrow> (None, tr3)
            | Some tms \<Rightarrow>
                (case record_fleet_cooldown E states (ord burst) tms tr3 of (tms', tr') \<Rightarrow> (Some tms', tr'))) = (fleet_times, tr4)"
    by fastforce
  define tr5 where "tr5 = gauge ''node_compactor_managed_nodes'' (map (\<lambda>(k, ns). ([k], fi (int (length ns)))) (fleets states)) tr4"
  obtain now tr6 where u: "utc_now E tr5 = (now, tr6)" by fastforce
  let ?pg = "group_by nodepool (dvals states) []"
  define reserved where "reserved = (if 0 < capacity_reservation_nodes cfg
      then reserved_of (select_reserved_nodes now ?pg cfg) else {})"
  define tr7 where "tr7 = gauge ''compactor_reserved_nodes''
                  (if 0 < capacity_reservation_nodes cfg then reserved_counts ?pg reserved else []) tr6"
  obtain dr hist where ct: "compute_taints now (monotonic_r E tr7 None) (\<lambda>g. monotonic_r E tr7 (Some g)) states cfg reserved
             (Some fleet_group_key) (peak_history st) pending = (dr, hist)" by fastforce
  have wf: "wf_states states" "dkeys states = dkeys states0" using phantom_load_sound_lemma [OF assms(1) ph] by auto
  have a3: "adds (each_patch ?Q) tr tr3"
    unfolding tr3_def emit_def
    by (rule T [OF T [OF T [OF phantom_adds [OF stable_cycle_ok ph] gauge_adds] gauge_adds] adds_emit]) simp
  have "adds (each_patch ?Q) tr3 tr4"
    using fl record_fleet_cooldown_adds [OF stable_cycle_ok [of cfg M], of tr3 E states "ord burst"]
    by (auto simp: adds_refl split: option.splits prod.splits) (metis snd_conv)
  from T [OF T [OF T [OF T [OF a3 this] gauge_adds] utc_now_adds [OF u [unfolded tr5_def]]] gauge_adds]
  have a7: "adds (each_patch ?Q) tr tr7" unfolding tr7_def .
  have res: "reserved \<subseteq> names (dvals states)"
    using select_reserved_names [of now nodepool "dvals states" cfg] by (simp add: reserved_def)
  let ?st1 = "st\<lparr>fleet_cooldown_times := fleet_times\<rparr>"
  have e: "decide_and_act E ord cfg managed states0 pending st tr =
      (case dr of Inl e \<Rightarrow> (Inl e, ?st1\<lparr>peak_history := hist\<rparr>, tr7)
       | Inr d \<Rightarrow> act E ord cfg states reserved burst d (?st1\<lparr>peak_history := hist\<rparr>)
           (emit_spare cfg (fleets states) (to_taint d)
             (if rate_limited d = {} then tr7 else emit_rate_limited ord managed states (rate_limited d) tr7)))"
    unfolding decide_and_act_def Let_def ph prod.case cp
    unfolding tr3_def [symmetric] fl prod.case tr5_def [symmetric] u reserved_def [symmetric]
    unfolding tr7_def [symmetric] ct prod.case by (cases dr) simp_all
  show ?thesis
  proof (cases dr)
    case (Inl x)
    then show ?thesis using assms(4) a7 unfolding e by simp
  next
    case (Inr d)
    define tr9 where "tr9 = emit_spare cfg (fleets states) (to_taint d)
             (if rate_limited d = {} then tr7 else emit_rate_limited ord managed states (rate_limited d) tr7)"
    have "adds (each_patch ?Q) tr7 (if rate_limited d = {} then tr7 else emit_rate_limited ord managed states (rate_limited d) tr7)"
      by (simp add: adds_refl emit_rate_limited_def emit_incs_adds [OF stable_cycle_ok])
    from T [OF T [OF T [OF a7 this] gauge_adds] gauge_adds]
    have a9: "adds (each_patch ?Q) tr tr9" unfolding tr9_def emit_spare_def .
    have "touched d \<subseteq> names (dvals states)" using compute_taints_touched ct Inr by (metis fst_conv)
    then have fin: "finite (to_taint d)" "finite (to_untaint d)"
      by (auto simp: touched_def intro: finite_subset)
    have fb: "finite burst" using cp by (auto simp: check_pending_pods_def split: if_splits)
    have "act E ord cfg states reserved burst d (?st1\<lparr>peak_history := hist\<rparr>) tr9 = (r, st', tr')"
      using assms(4) Inr unfolding e tr9_def by simp
    from act_patches_lemma [OF this assms(3) fin fb] obtain t1 t2 where
      "adds (each_patch (act_ok cfg states (?st1\<lparr>peak_history := hist\<rparr>) reserved burst d t1 t2)) tr9 tr'" by blast
    then have "adds (each_patch ?Q) tr9 tr'"
      by (rule adds_mono) (erule act_ok_cycle_ok [OF _ wf(1) _ res], use wf(2) assms(2) in simp)
    then show ?thesis by (rule T [OF a9])
  qed
qed

lemma discover_adds:
  "stable Q \<Longrightarrow> discover_managed_nodes E cfg tr = (r, tr') \<Longrightarrow> adds (each_patch Q) tr tr'"
  by (auto simp: discover_managed_nodes_def list_pools_def list_nodes_def Let_def adds_def split: sum.splits if_splits)

lemma build_nodes_adds:
  "stable Q \<Longrightarrow> adds (each_patch Q) tr (snd (build_nodes E cfg M nodes acc tr))"
proof (induction E cfg M nodes acc tr rule: build_nodes.induct)
  case (2 E cfg M node nodes acc tr)
  show ?case
  proof (cases "node_meta node")
    case (Some m)
    obtain c tr1 where c: "(case creation_ts m of Some c \<Rightarrow> (c, tr) | None \<Rightarrow> utc_now E tr) = (c, tr1)" by fastforce
    then have a: "adds (each_patch Q) tr tr1"
      by (auto simp: adds_refl split: option.splits intro: utc_now_adds)
    show ?thesis
    proof (cases "meta_name m \<in> M")
      case True
      then show ?thesis
        using adds_trans [OF "2.prems" a "2.IH"(2) [OF Some _ c [symmetric] "2.prems"]] Some c by simp
    next
      case False
      then show ?thesis using "2.IH"(1) [OF Some _ "2.prems"] Some by simp
    qed
  qed (simp add: adds_refl)
qed (simp add: adds_refl)

lemma build_node_states_adds:
  assumes "stable Q" "build_node_states E cfg managed tr = (r, tr')"
  shows "adds (each_patch Q) tr tr'"
proof (cases "managed = []")
  case True
  then show ?thesis using assms(2) by (auto simp: build_node_states_def adds_refl)
next
  case False
  obtain a tr1 where n: "list_nodes E tr = (a, tr1)" by fastforce
  note T = adds_trans [OF assms(1)]
  show ?thesis
  proof (cases a)
    case (Inl e)
    then show ?thesis using assms(2) False n list_adds(1) [OF n] by (simp add: build_node_states_def)
  next
    case (Inr nodes)
    obtain b tr2 where b: "build_nodes E cfg (set (dkeys managed)) nodes [] tr1 = (b, tr2)" by fastforce
    have t2: "adds (each_patch Q) tr tr2"
      using T [OF list_adds(1) [OF n] build_nodes_adds [OF assms(1), of tr1 E cfg "set (dkeys managed)" nodes "[]"]] b by simp
    obtain c tr3 where c: "list_namespaces E tr2 = (c, tr3)" by fastforce
    obtain now tr4 where u: "utc_now E tr3 = (now, tr4)" by fastforce
    obtain f tr5 where f: "list_pods E tr4 = (f, tr5)" by fastforce
    note t3 = T [OF t2 list_adds(3) [OF c]]
    note t5 = T [OF T [OF t3 utc_now_adds [OF u]] list_adds(4) [OF f]]
    show ?thesis using assms(2) False n Inr b c u f t2 t3 t5
      by (auto simp: build_node_states_def split: sum.splits)
  qed
qed

definition managed_set :: "(string, string) dict res \<Rightarrow> string set" where
  "managed_set r = (case r of Inl _ \<Rightarrow> {} | Inr managed \<Rightarrow> set (dkeys managed))"

text \<open>Everything a cycle writes.\<close>

lemma reconcile_patches_lemma:
  assumes "iterates ord" "reconcile E ord cfg st tr = (r, st', tr')"
  shows "adds (each_patch (cycle_ok cfg (managed_set (fst (discover_managed_nodes E cfg (EvTouch ''/tmp/healthy'' # tr)))))) tr tr'"
proof -
  obtain m tr1 where m: "discover_managed_nodes E cfg (EvTouch ''/tmp/healthy'' # tr) = (m, tr1)" by fastforce
  let ?Q = "cycle_ok cfg (managed_set m)"
  note T = adds_trans [OF stable_cycle_ok [of cfg "managed_set m"]]
  have a1: "adds (each_patch ?Q) tr tr1"
    by (rule T [OF adds_emit discover_adds [OF stable_cycle_ok m]]) simp
  have "adds (each_patch ?Q) tr tr'"
  proof (cases m)
    case (Inl e)
    then show ?thesis using assms(2) m a1 by (simp add: reconcile_def emit_def)
  next
    case (Inr managed)
    show ?thesis
    proof (cases "managed = []")
      case True
      then have e: "tr' = gauge ''node_compactor_tainted_nodes'' [] (gauge ''node_compactor_workload_pods'' []
          (gauge ''node_compactor_node_utilization_ratio'' [] (gauge ''node_compactor_managed_nodes'' [] tr1)))"
        using assms(2) m Inr by (simp add: reconcile_def emit_def)
      show ?thesis unfolding e
        by (rule T [OF T [OF T [OF T [OF a1 gauge_adds] gauge_adds] gauge_adds] gauge_adds])
    next
      case False
      obtain b tr2 where b: "build_node_states E cfg managed tr1 = (b, tr2)" by fastforce
      note a2 = T [OF a1 build_node_states_adds [OF stable_cycle_ok b]]
      show ?thesis
      proof (cases b)
        case b': (Inl e)
        then show ?thesis using assms(2) m Inr False b a2 by (simp add: reconcile_def emit_def)
      next
        case b': (Inr sp)
        obtain states pending where sp: "sp = (states, pending)" by fastforce
        show ?thesis
        proof (cases "states = []")
          case True
          then have e: "tr' = gauge ''node_compactor_tainted_nodes'' [] (gauge ''node_compactor_workload_pods'' []
              (gauge ''node_compactor_node_utilization_ratio'' [] tr2))"
            using assms(2) m Inr False b b' sp by (simp add: reconcile_def emit_def)
          show ?thesis unfolding e by (rule T [OF T [OF T [OF a2 gauge_adds] gauge_adds] gauge_adds])
        next
          case nonempty: False
          have d: "decide_and_act E ord cfg managed states pending st tr2 = (r, st', tr')"
            using assms(2) m Inr False b b' sp nonempty by (simp add: reconcile_def emit_def)
          have w: "wf_states states" "set (dkeys states) \<subseteq> managed_set m"
            using build_node_states_wf_lemma [of E cfg managed tr1 states pending tr2] b b' sp Inr
            by (auto simp: managed_set_def)
          show ?thesis by (rule T [OF a2 decide_and_act_adds [OF w assms(1) d]])
        qed
      qed
    qed
  qed
  then show ?thesis using m by simp
qed

lemma patches_append: "patches (es @ tr) = patches es @ patches tr"
  by (induction es rule: patches.induct) auto

lemma each_patch_none: "each_patch (\<lambda>n p tr. False) es \<Longrightarrow> patches es = []"
  by (induction es rule: patches.induct) auto

lemma patches_adds_none: "adds (each_patch (\<lambda>n p tr. False)) tr tr' \<Longrightarrow> patches tr' = patches tr"
  unfolding adds_def using each_patch_none by (auto simp: patches_append)

subsection \<open>The gauges\<close>

definition refreshed :: "(string list \<Rightarrow> flt option) \<Rightarrow> string list set \<Rightarrow> (string list, flt) dict \<Rightarrow> string list \<Rightarrow> flt option" where
  \<comment> \<open>the series of a gauge after the removals and the settings\<close>
  "refreshed series stale current l =
     (case dget current l of Some v \<Rightarrow> Some v | None \<Rightarrow> if l \<in> stale then None else series l)"

lemma dget_set_eq: "dget d l = None \<longleftrightarrow> l \<notin> set (dkeys d)"
  using pd.get_keys [of d l] by auto

text \<open>A retry loop that only meets a node without its instance-type taint.\<close>

lemma gives_up_loop:
  assumes "\<And>tr. get_node_r E tr name = Inr node" "misses_instance_taint node"
    "key \<notin> set (map taint_key (spec_taints node))" "i < k"
  shows "\<exists>tr'. for_attempts (apply_taint_body E name key k) [i..<k] tr = (Return (), tr') \<and> patches tr' = patches tr
     \<and> (\<exists>rest. tr' = EvGetNode name (Inr node) # rest)"
  using assms(4)
proof (induction "k - i" arbitrary: i tr)
  case (Suc d)
  have u: "[i..<k] = i # [Suc i..<k]" using Suc.prems by (simp add: upt_conv_Cons)
  show ?case
  proof (cases "Suc i < k")
    case True
    then have "d = k - Suc i" using Suc.hyps(2) by simp
    from Suc.hyps(1) [OF this True, of "EvSleep 2 # EvGetNode name (Inr node) # tr"] show ?thesis
      using assms(1-3) True by (simp add: u apply_taint_body_def get_node_def emit_def)
  next
    case False
    then show ?thesis using assms(1-3) by (simp add: u apply_taint_body_def get_node_def)
  qed
qed simp

end
