(* ===== verification/Compactor_Bins.thy ===== *)
theory Compactor_Bins
  imports Compactor_Packing
begin

section \<open>Node compactor: lemmas about the bin-packing, the fit check and the reservation\<close>

text \<open>
  The bin-packing opens one node after the other; its invariant says that the open bins are the
  empty ones with the placed pods taken off. The reservation picks the first nodes of a stable sort.
\<close>

subsection \<open>The packing loop\<close>

lemma pack_loop_bounds:
  "0 < length bins \<Longrightarrow> k \<le> length bins \<Longrightarrow> 1 \<le> pack_loop bins k ps \<and> k \<le> pack_loop bins k ps \<and> pack_loop bins k ps \<le> length bins"
proof (induction bins k ps rule: pack_loop.induct)
  case (2 bins k p ps)
  show ?case
  proof (cases "first_fit bin_fits bin_use p (take k bins)")
    case None
    then show ?thesis using 2 by (auto simp: Suc_le_eq)
  next
    case (Some used)
    then have "length used = k" using first_fit_length [OF Some] "2.prems"(2) by simp
    then show ?thesis using "2.IH"(2) [OF Some] "2.prems" Some by simp
  qed
qed (auto simp: Suc_le_eq)

text \<open>\<open>packed start bins k loads\<close>: the first \<open>k\<close> of the bins are the start bins with the loads
  placed, the others are untouched.\<close>

definition packed :: "bin list \<Rightarrow> bin list \<Rightarrow> nat \<Rightarrow> PodInfo list list \<Rightarrow> bool" where
  "packed start bins k loads \<longleftrightarrow> k \<le> length start \<and> loaded bin_fits bin_use (take k start) (take k bins) loads
     \<and> length bins = length start \<and> drop k bins = drop k start"

lemma packed_open:
  assumes "packed start bins k loads" "k < length bins" "bin_fits (start ! k) p"
  shows "packed start (bins[k := bin_use (bins ! k) p]) (Suc k) (loads @ [[p]])"
proof -
  have b: "bins ! k = start ! k" "k < length start"
    using assms(1,2) unfolding packed_def by (metis nth_drop add.right_neutral, simp)
  have lp: "loaded bin_fits bin_use (take k start) (take k bins) loads" using assms(1) by (simp add: packed_def)
  have ll: "length loads = k" using loaded_length [OF lp] b(2) by simp
  have t: "take (Suc k) (bins[k := bin_use (bins ! k) p]) = take k bins @ [bin_use (start ! k) p]"
    using assms(2) b(1) by (simp add: take_Suc_conv_app_nth)
  have s: "take (Suc k) start = take k start @ [start ! k]" using b(2) by (simp add: take_Suc_conv_app_nth)
  have "loaded bin_fits bin_use (take (Suc k) start) (take (Suc k) (bins[k := bin_use (bins ! k) p])) (loads @ [[p]])"
    unfolding t s using lp assms(3) ll b(2) by (simp add: loaded_def schedule_def list_all2_append)
  moreover have "drop (Suc k) (bins[k := bin_use (bins ! k) p]) = drop (Suc k) start"
    using assms(1) unfolding packed_def by simp (metis drop_drop plus_1_eq_Suc)
  ultimately show ?thesis using assms(1) b(2) by (simp add: packed_def)
qed

lemma pack_loop_schedule:
  assumes "packed start bins k loads" "\<forall>b \<in> set start. \<forall>p \<in> set ps. bin_fits b p"
    "pack_loop bins k ps < length start"
  shows "\<exists>loads'. schedule bin_fits bin_use (take (pack_loop bins k ps) start) loads'
     \<and> mset (concat loads') = mset (concat loads) + mset ps"
  using assms
proof (induction bins k ps arbitrary: loads rule: pack_loop.induct)
  case (1 bins k)
  have sch: "schedule bin_fits bin_use (take k start) loads" using "1.prems"(1) by (simp add: packed_def loaded_def)
  show ?case
  proof (cases "k = 0")
    case True
    have "start \<noteq> []" using "1.prems"(3) by auto
    then have "schedule bin_fits bin_use (take 1 start) [[]] \<and> loads = []"
      using sch True by (cases start) (auto simp: schedule_def)
    then show ?thesis using True by (intro exI [of _ "[[]]"]) simp
  next
    case False
    then show ?thesis using sch by (intro exI [of _ loads]) (cases k; simp)
  qed
next
  case (2 bins k p ps)
  show ?case
  proof (cases "first_fit bin_fits bin_use p (take k bins)")
    case None
    show ?thesis
    proof (cases "k < length bins")
      case True
      then have "start ! k \<in> set start" using "2.prems"(1) by (simp add: packed_def)
      then have "packed start (bins[k := bin_use (bins ! k) p]) (Suc k) (loads @ [[p]])"
        using packed_open [OF "2.prems"(1) True] "2.prems"(2) by simp
      from "2.IH"(1) [OF None True this] show ?thesis using "2.prems"(2,3) None True by auto
    next
      case False
      then show ?thesis using "2.prems"(1,3) None by (simp add: packed_def)
    qed
  next
    case (Some used)
    have pk: "loaded bin_fits bin_use (take k start) (take k bins) loads" "length bins = length start"
      "drop k bins = drop k start" "k \<le> length start" using "2.prems"(1) by (simp_all add: packed_def)
    from first_fit_loaded [OF pk(1) Some] obtain loads1 where
      l: "loaded bin_fits bin_use (take k start) used loads1" "mset (concat loads1) = add_mset p (mset (concat loads))"
      by blast
    have len: "length used = k" using first_fit_length [OF Some] pk by simp
    have "packed start (used @ drop k bins) k loads1" using l(1) len pk by (simp add: packed_def)
    from "2.IH"(2) [OF Some this] "2.prems"(2,3) Some l(2) show ?thesis by auto
  qed
qed

lemma sorted_pods_nonempty: "ps \<noteq> [] \<Longrightarrow> sort_pods ps \<noteq> []"
  by (metis mset_sort_pods mset_zero_iff)

lemma length_by_capacity [simp]: "length (by_capacity ns) = length ns"
  by (simp add: by_capacity_def)

lemma set_by_capacity [simp]: "set (by_capacity ns) = set ns"
  by (simp add: by_capacity_def)

lemma set_sort_pods [simp]: "set (sort_pods ps) = set ps"
  by (simp add: sort_pods_def)

subsection \<open>Properties\<close>

lemma sorted_take_le:
  assumes "x \<in> set (take k (sorted_by f xs))" "y \<in> set xs" "y \<notin> set (take k (sorted_by f xs))"
  shows "f x \<le> f y"
proof -
  have "y \<in> set (take k (sorted_by f xs) @ drop k (sorted_by f xs))" using assms(2) by (simp only: append_take_drop_id set_sorted_by)
  then have y: "y \<in> set (drop k (sorted_by f xs))" using assms(3) by (simp only: set_append Un_iff) simp
  have "sorted (map f (take k (sorted_by f xs)) @ map f (drop k (sorted_by f xs)))"
    by (simp flip: map_append)
  then show ?thesis using assms(1) y by (auto simp: sorted_append)
qed

lemma dget_select_pools:
  assumes "distinct (dkeys gs)" "\<And>p. p \<in> set (dkeys gs) \<Longrightarrow> p \<notin> set (dkeys acc)"
  shows "dget (select_pools cfg now gs acc) p =
     (case dget gs p of None \<Rightarrow> dget acc p
      | Some ns \<Rightarrow> if select_in_pool cfg now ns = {} then None else Some (select_in_pool cfg now ns))"
  using assms
proof (induction cfg now gs acc rule: select_pools.induct)
  case (2 cfg now q ns rest result)
  let ?r = "if select_in_pool cfg now ns = {} then result else dset q (select_in_pool cfg now ns) result"
  have q: "dget result q = None" "dget rest q = None"
    using "2.prems" pd.get_keys [of result q] pd.get_keys [of rest q] by (auto simp: dkeys_def)
  have "dget (select_pools cfg now rest ?r) p = (case dget rest p of None \<Rightarrow> dget ?r p
      | Some ns \<Rightarrow> if select_in_pool cfg now ns = {} then None else Some (select_in_pool cfg now ns))"
    proof (rule "2.IH" [OF refl])
    show "distinct (dkeys rest)" using "2.prems"(1) by (simp add: dkeys_def)
    have "q \<notin> set (dkeys rest)" using "2.prems"(1) by (simp add: dkeys_def)
    then show "x \<in> set (dkeys rest) \<Longrightarrow> x \<notin> set (dkeys ?r)" for x
      using "2.prems"(2) [of x] pd.set_keys_put [of q "select_in_pool cfg now ns" result]
      by (auto simp: dkeys_def split: if_splits)
  qed
  then show ?case using q by (auto simp: Let_def dict_simps dget_Cons split: option.splits if_splits)
qed simp

end
