(* ===== verification/Compactor_Properties.thy ===== *)
theory Compactor_Properties
  imports Compactor_Cycle Compactor_Bins
begin

section \<open>Node compactor: properties\<close>

text \<open>
  The properties of the compactor, each with a witness where it has hypotheses: a closed instance on a
  small cluster, with the definitions evaluated.
\<close>

subsection \<open>A small cluster\<close>

definition default_cfg :: Config where
  "default_cfg = \<lparr>interval = 20, max_uptime_hours = 48, nodepool_label = ''osdc.io/node-compactor'',
     cfg_taint_key = ''node-compactor.osdc.io/consolidating'', min_nodes = 1, dry_run = False,
     taint_cooldown = 300, min_node_age = 900, fleet_cooldown = 120, taint_rate = fl (3 / 10),
     spare_capacity_nodes = 3, spare_capacity_ratio = fl (15 / 100), spare_capacity_threshold = fl (4 / 10),
     capacity_reservation_nodes = 0, peak_window_seconds = 1800, pending_pod_max_age_seconds = 14400,
     pending_pod_min_age_seconds = 0\<rparr>"

definition ex_cfg :: Config where
  "ex_cfg = default_cfg\<lparr>min_node_age := 0, taint_rate := 0, spare_capacity_nodes := 1, spare_capacity_ratio := 0,
     spare_capacity_threshold := 1 / 2\<rparr>"

definition ex_pod :: "string \<Rightarrow> flt \<Rightarrow> int \<Rightarrow> PodInfo" where
  "ex_pod n cpu mem = \<lparr>pi_name = n, pi_namespace = ''ci'', cpu_request = cpu, memory_request = mem,
     pi_node_name = n, is_daemonset = False, start_time = Some 0, gpu_request = 0, is_phantom = False\<rparr>"

definition ex_node :: "string \<Rightarrow> bool \<Rightarrow> PodInfo list \<Rightarrow> NodeState" where
  "ex_node n t ps = \<lparr>ns_name = n, nodepool = ''pool'', allocatable_cpu = 8, allocatable_memory = 1000,
     creation_time = 0, allocatable_gpu = 0, pods = ps, is_tainted = t, is_reserved = False,
     node_taints = [], ns_labels = [], ns_annotations = []\<rparr>"

definition ex_states :: "(string, NodeState) dict" where
  "ex_states = [(''a'', ex_node ''a'' False []), (''c'', ex_node ''c'' False [ex_pod ''c'' 4 500])]"

definition ex_tainted :: "(string, NodeState) dict" where
  "ex_tainted = [(''t'', ex_node ''t'' True [])]"

definition ex_waiting :: Pod where
  "ex_waiting = \<lparr>pod_meta = Some \<lparr>meta_name = ''w'', meta_namespace = ''ci'', resource_version = ''1'',
       meta_labels = [], meta_annotations = [], owner_kinds = [], creation_ts = None, deletion_ts = None\<rparr>,
     pod_spec = None, pod_status = None\<rparr>"

definition ex_api_node :: Node where
  "ex_api_node = \<lparr>node_meta = Some \<lparr>meta_name = ''a'', meta_namespace = [], resource_version = ''7'',
       meta_labels = [(''karpenter.sh/nodepool'', ''pool'')], meta_annotations = [], owner_kinds = [],
       creation_ts = Some 0, deletion_ts = None\<rparr>,
     spec_taints = [], status_cpu = Some ''8'', status_memory = Some ''1000'', status_gpu = None\<rparr>"

definition ex_env :: env where
  \<comment> \<open>a server with one node, that accepts every patch\<close>
  "ex_env = \<lparr>get_node_r = (\<lambda>_ _. Inr ex_api_node), patch_node_r = (\<lambda>_ _ _. Inr ()),
     list_nodes_r = (\<lambda>_. Inr [ex_api_node]), list_pools_r = (\<lambda>_. Inr []), list_namespaces_r = (\<lambda>_. Inr []),
     list_pods_r = (\<lambda>_. Inr []), time_r = (\<lambda>_. 0), utcnow_r = (\<lambda>_. 0), monotonic_r = (\<lambda>_ _. 0)\<rparr>"

definition ex_decision :: decision where
  "ex_decision = \<lparr>to_taint = {''a''}, to_untaint = {}, mandatory_untaint = {}, rate_limited = {}\<rparr>"

lemma ex_wf: "wf_states ex_states" "wf_states ex_tainted"
  by code_simp+

lemma ex_peak: "peak_ok ex_cfg (\<lambda>_. 0) None" "peak_ok ex_cfg (\<lambda>_. 0) (Some [(''pool'', [(0, 2)])])"
  by (simp_all add: peak_ok_def ex_cfg_def default_cfg_def)

text \<open>Node \<open>a\<close> is empty and \<open>c\<close> is half full, so one node is enough and \<open>a\<close> is tainted; while the
  peak history remembers a demand for two nodes, none is.\<close>

lemma ex_decides:
  "fst (compute_taints 0 0 (\<lambda>_. 0) ex_states ex_cfg {} None None []) = Inr ex_decision"
  by code_simp

lemma ex_decides_peak:
  "fst (compute_taints 0 0 (\<lambda>_. 0) ex_states ex_cfg {} None (Some [(''pool'', [(0, 2)])]) []) = Inr no_decision"
  by code_simp

subsection \<open>Decisions, cycles and patches\<close>

text \<open>C1: however many groups there are, and whatever the peak history holds, the compactor never
  targets so many nodes of a group that fewer than \<open>min_nodes\<close>, or fewer than the bin-packing
  of its running and pending pods needs, stay outside \<open>to_taint\<close>.\<close>

theorem compute_taints_keeps_min_nodes:
  assumes "wf_states states" "peak_ok cfg mclk hist" "grp = group_of gk states g"
    and "fst (compute_taints now pt mclk states cfg reserved gk hist pending) = Inr d"
  shows "int (card (to_taint d \<inter> names grp))
           \<le> max 0 (int (length grp) - max (int (bin_pack_min_nodes (group_pods cfg now pending grp) grp)) (min_nodes cfg))"
proof (cases "grp = []")
  case False
  from compute_taints_group [OF assms(1-3) False assms(4)] obtain m d0 where
    *: "int (bin_pack_min_nodes (group_pods cfg now pending grp) grp) \<le> m" "min_nodes cfg \<le> m"
    "touched d0 \<inter> names grp = {}" "distinct (map ns_name grp)"
    "decision_on (names grp) d = decision_on (names grp) (taint_group cfg now reserved grp m d0)" .
  show ?thesis using taint_group_surplus [OF *(4,3), of cfg now reserved m] *(1,2) decision_onD(1) [OF *(5)] by simp
qed simp

theorem compute_taints_keeps_min_nodes_witness:
  "int (card (to_taint ex_decision \<inter> names (group_of None ex_states ''pool'')))
     \<le> max 0 (int (length (group_of None ex_states ''pool''))
          - max (int (bin_pack_min_nodes (group_pods ex_cfg 0 [] (group_of None ex_states ''pool''))
                   (group_of None ex_states ''pool''))) (min_nodes ex_cfg))"
  by (rule compute_taints_keeps_min_nodes [OF ex_wf(1) ex_peak(1) refl ex_decides])

text \<open>C3: the peak of the window holds a group back: with a clock that does not run backwards, at most
  \<open>|group| - v\<close> nodes of a group are chosen while a sample \<open>v\<close> of it is in the window.\<close>

theorem compute_taints_respects_peak:
  assumes "wf_states states" "peak_ok cfg mclk hist" "grp = group_of gk states g" "pt \<le> mclk g"
    and "fst (compute_taints now pt mclk states cfg reserved gk hist pending) = Inr d"
    and "(t, v) \<in> set (recent_samples cfg (mclk g) hist g)"
  shows "int (card (to_taint d \<inter> names grp)) \<le> max 0 (int (length grp) - v)"
proof (cases "grp = []")
  case False
  from compute_taints_group [OF assms(1-3) False assms(5)] obtain m d0 where
    *: "peak_bound cfg (mclk g) (map_option (prune_stale_peak_history pt (peak_window_seconds cfg)) hist) g m"
    "touched d0 \<inter> names grp = {}" "distinct (map ns_name grp)"
    "decision_on (names grp) d = decision_on (names grp) (taint_group cfg now reserved grp m d0)" .
  have "v \<le> m" using *(1) assms(6) unfolding peak_bound_def recent_prune [OF assms(4)] by force
  then show ?thesis using taint_group_surplus [OF *(3,2), of cfg now reserved m] decision_onD(1) [OF *(4)] by simp
qed simp

theorem compute_taints_respects_peak_witness:
  "int (card (to_taint no_decision \<inter> names (group_of None ex_states ''pool'')))
     \<le> max 0 (int (length (group_of None ex_states ''pool'')) - 2)"
proof (rule compute_taints_respects_peak [OF ex_wf(1) ex_peak(2) refl _ ex_decides_peak])
  show "(0, 2) \<in> set (recent_samples ex_cfg 0 (Some [(''pool'', [(0, 2)])]) ''pool'')" by code_simp
qed simp

text \<open>the decision is coherent: mandatory untaints are untaints, no node is both to be tainted
  and to be untainted or reported as rate limited, only nodes that carry the taint are untainted,
  and only nodes without it are rate limited.\<close>

theorem compute_taints_consistent:
  assumes "wf_states states" "peak_ok cfg mclk hist"
    and "fst (compute_taints now pt mclk states cfg reserved gk hist pending) = Inr d"
  shows "consistent d \<and> to_untaint d \<subseteq> names (filter is_tainted (dvals states))"
proof -
  have t: "touched d \<subseteq> names (dvals states)"
    using compute_taints_total [OF assms(2), of now pt states reserved gk pending] assms(3) by auto
  have *: "\<exists>A e. x \<in> A \<and> consistent e \<and> decision_on A d = decision_on A e \<and> A \<subseteq> names (dvals states)
     \<and> to_untaint e \<inter> A \<subseteq> names (filter is_tainted (dvals states))" if "x \<in> names (dvals states)" for x
  proof -
    from that obtain n where n: "n \<in> set (dvals states)" "x = ns_name n" by auto
    let ?grp = "group_of gk states (group_fn gk n)"
    from compute_taints_group [OF assms(1,2) refl group_cases(2) [OF n(1)] assms(3)] obtain m d0 where
      m: "touched d0 \<inter> names ?grp = {}" "consistent d0" "distinct (map ns_name ?grp)"
      "decision_on (names ?grp) d = decision_on (names ?grp) (taint_group cfg now reserved ?grp m d0)" .
    have "names (filter is_tainted ?grp) \<subseteq> names (filter is_tainted (dvals states))"
      by (auto simp: group_of_def)
    moreover have "to_untaint d0 \<inter> names ?grp = {}" using m(1) by (auto simp: touched_def)
    ultimately have u: "to_untaint (taint_group cfg now reserved ?grp m d0) \<inter> names ?grp
        \<subseteq> names (filter is_tainted (dvals states))"
      using taint_group_untaint [OF m(3,1), of cfg now reserved m] by blast
    have x: "x \<in> names ?grp" "names ?grp \<subseteq> names (dvals states)"
      using group_cases(1) [OF n(1)] n(2) by (auto simp: group_of_def)
    show ?thesis
      by (intro exI conjI) (rule x(1), rule taint_group_consistent [OF m(3,1,2)], rule m(4), rule x(2), rule u)
  qed
  have "x \<in> names (filter is_tainted (dvals states))" if "x \<in> to_untaint d" for x
  proof -
    from that t have "x \<in> names (dvals states)" by (auto simp: touched_def)
    from * [OF this] obtain A e where "x \<in> A" "decision_on A d = decision_on A e"
      "to_untaint e \<inter> A \<subseteq> names (filter is_tainted (dvals states))" by blast
    then show ?thesis using that decision_onD(2) [of A d e] by blast
  qed
  moreover have "consistent d" using consistent_on [OF t] * by blast
  ultimately show ?thesis by blast
qed

theorem compute_taints_consistent_witness:
  "consistent ex_decision \<and> to_untaint ex_decision \<subseteq> names (filter is_tainted (dvals ex_states))"
  by (rule compute_taints_consistent [OF ex_wf(1) ex_peak(1) ex_decides])

text \<open>C4: no reserved node and no node younger than \<open>min_node_age\<close> is ever chosen for a taint.\<close>

theorem compute_taints_spares_protected:
  assumes "wf_states states" "peak_ok cfg mclk hist" "n \<in> set (dvals states)"
    and "fst (compute_taints now pt mclk states cfg reserved gk hist pending) = Inr d"
    and "ns_name n \<in> to_taint d"
  shows "ns_name n \<notin> reserved \<and> of_int (min_node_age cfg) \<le> uptime_seconds now n"
proof -
  let ?grp = "group_of gk states (group_fn gk n)"
  from compute_taints_group [OF assms(1,2) refl group_cases(2) [OF assms(3)] assms(4)] obtain m d0 where
    m: "touched d0 \<inter> names ?grp = {}" "distinct (map ns_name ?grp)"
    "decision_on (names ?grp) d = decision_on (names ?grp) (taint_group cfg now reserved ?grp m d0)" .
  have n: "n \<in> set ?grp" by (rule group_cases(1) [OF assms(3)])
  then have "ns_name n \<in> to_taint (taint_group cfg now reserved ?grp m d0)" "ns_name n \<notin> to_taint d0"
    using decision_onD(1) [OF m(3)] assms(5) m(1) by (auto simp: touched_def)
  then obtain k where "k \<in> set ?grp" "ns_name k = ns_name n" "\<not> skipped_node cfg now reserved k"
    using taint_group_eligible [OF m(2,1), of cfg now reserved m] by auto
  then have "\<not> skipped_node cfg now reserved n" using same_name [OF m(2)] n by metis
  then show ?thesis by (simp add: skipped_node_def not_less)
qed

theorem compute_taints_spares_protected_witness:
  "ns_name (ex_node ''a'' False []) \<notin> {} \<and> of_int (min_node_age ex_cfg) \<le> uptime_seconds 0 (ex_node ''a'' False [])"
proof (rule compute_taints_spares_protected [OF ex_wf(1) ex_peak(1) _ ex_decides])
  show "ex_node ''a'' False [] \<in> set (dvals ex_states)" by (simp add: ex_states_def dvals_def)
  show "ns_name (ex_node ''a'' False []) \<in> to_taint ex_decision" by (simp add: ex_node_def ex_decision_def)
qed

text \<open>In one cycle at most \<open>max(1, ceil(surplus * taint_rate))\<close> nodes of a group that do not
  carry the taint yet are chosen, for the surplus over the number of nodes the group needs.\<close>

theorem compute_taints_rate_limit:
  assumes "wf_states states" "peak_ok cfg mclk hist" "grp = group_of gk states g" "0 \<le> taint_rate cfg"
    and "fst (compute_taints now pt mclk states cfg reserved gk hist pending) = Inr d"
  shows "int (card (to_taint d \<inter> names (filter (\<lambda>n. \<not> is_tainted n) grp)))
           \<le> max_new_taints cfg (int (length grp)
                - max (int (bin_pack_min_nodes (group_pods cfg now pending grp) grp)) (min_nodes cfg))"
proof (cases "grp = []")
  case False
  from compute_taints_group [OF assms(1-3) False assms(5)] obtain m d0 where
    *: "int (bin_pack_min_nodes (group_pods cfg now pending grp) grp) \<le> m" "min_nodes cfg \<le> m"
    "touched d0 \<inter> names grp = {}" "distinct (map ns_name grp)"
    "decision_on (names grp) d = decision_on (names grp) (taint_group cfg now reserved grp m d0)" .
  let ?N = "names (filter (\<lambda>n. \<not> is_tainted n) grp)"
  have "?N = ?N \<inter> names grp" by auto
  then have "to_taint d \<inter> ?N = to_taint (taint_group cfg now reserved grp m d0) \<inter> ?N"
    using decision_onD(1) [OF *(5)] by blast
  moreover have "max_new_taints cfg (int (length grp) - m) \<le> max_new_taints cfg (int (length grp)
                - max (int (bin_pack_min_nodes (group_pods cfg now pending grp) grp)) (min_nodes cfg))"
    using *(1,2) by (intro max_new_taints_mono [OF assms(4)]) simp
  moreover have "0 \<le> max_new_taints cfg k" for k by (simp add: max_new_taints_def)
  ultimately show ?thesis using taint_group_new_taints [OF *(4,3), of cfg now reserved m]
    by (auto split: if_splits intro: order_trans)
qed (simp add: max_new_taints_def)

theorem compute_taints_rate_limit_witness:
  "int (card (to_taint ex_decision \<inter> names (filter (\<lambda>n. \<not> is_tainted n) (group_of None ex_states ''pool''))))
     \<le> max_new_taints ex_cfg (int (length (group_of None ex_states ''pool''))
          - max (int (bin_pack_min_nodes (group_pods ex_cfg 0 [] (group_of None ex_states ''pool''))
                   (group_of None ex_states ''pool''))) (min_nodes ex_cfg))"
  by (rule compute_taints_rate_limit [OF ex_wf(1) ex_peak(1) refl _ ex_decides]) (simp add: ex_cfg_def)

text \<open>a cycle that chooses any node of a group leaves at least the required number of
  lightly used nodes of the group untainted.\<close>

theorem compute_taints_keeps_spare:
  assumes "wf_states states" "peak_ok cfg mclk hist" "grp = group_of gk states g"
    and "fst (compute_taints now pt mclk states cfg reserved gk hist pending) = Inr d"
    and "to_taint d \<inter> names grp \<noteq> {}"
  shows "required_spare cfg grp \<le> int (count_spare_nodes grp None (to_taint d) (spare_capacity_threshold cfg))"
proof -
  have "grp \<noteq> []" using assms(5) by auto
  from compute_taints_group [OF assms(1-3) this assms(4)] obtain m d0 where
    *: "touched d0 \<inter> names grp = {}" "distinct (map ns_name grp)"
    "decision_on (names grp) d = decision_on (names grp) (taint_group cfg now reserved grp m d0)" .
  show ?thesis
    using taint_group_spare [OF *(2,1), of cfg now reserved m] decision_onD(1) [OF *(3)] assms(5)
      count_spare_on [OF decision_onD(1) [OF *(3)], of None "spare_capacity_threshold cfg"] by auto
qed

theorem compute_taints_keeps_spare_witness:
  "required_spare ex_cfg (group_of None ex_states ''pool'')
     \<le> int (count_spare_nodes (group_of None ex_states ''pool'') None (to_taint ex_decision) (spare_capacity_threshold ex_cfg))"
proof (rule compute_taints_keeps_spare [OF ex_wf(1) ex_peak(1) refl ex_decides])
  show "to_taint ex_decision \<inter> names (group_of None ex_states ''pool'') \<noteq> {}"
    by (simp add: ex_decision_def ex_states_def group_of_def group_fn_def dvals_def ex_node_def)
qed

text \<open>after the recovery a group has its required spare nodes, counting the nodes whose taint is
  to be removed, or every lightly used tainted node of it is to be untainted.\<close>

theorem compute_taints_recovers_spare:
  assumes "wf_states states" "peak_ok cfg mclk hist" "grp = group_of gk states g"
    and "fst (compute_taints now pt mclk states cfg reserved gk hist pending) = Inr d"
  shows "required_spare cfg grp \<le> int (effective_spare grp d (spare_capacity_threshold cfg))
    \<or> (\<forall>n \<in> set grp. is_tainted n \<and> utilization n \<le> spare_capacity_threshold cfg \<longrightarrow> ns_name n \<in> to_untaint d)"
proof (cases "grp = []")
  case False
  from compute_taints_group [OF assms(1-3) False assms(4)] obtain m d0 where
    *: "touched d0 \<inter> names grp = {}" "consistent d0" "distinct (map ns_name grp)"
    "decision_on (names grp) d = decision_on (names grp) (taint_group cfg now reserved grp m d0)" .
  have "required_spare cfg grp \<le> int (effective_spare grp (taint_group cfg now reserved grp m d0) (spare_capacity_threshold cfg))
    \<or> (\<forall>n \<in> set grp. is_tainted n \<and> utilization n \<le> spare_capacity_threshold cfg \<longrightarrow>
         ns_name n \<in> to_untaint (taint_group cfg now reserved grp m d0))"
  proof (cases "m < int (length grp)")
    case True then show ?thesis by (rule taint_group_recovery [OF *(3,1,2)])
  next
    case False then show ?thesis by (auto simp: taint_group_def untaint_all_eq)
  qed
  then show ?thesis using effective_spare_on [OF *(4)] decision_onD(2) [OF *(4)] by auto
qed simp

theorem compute_taints_recovers_spare_witness:
  "required_spare ex_cfg (group_of None ex_states ''pool'')
     \<le> int (effective_spare (group_of None ex_states ''pool'') ex_decision (spare_capacity_threshold ex_cfg))
   \<or> (\<forall>n \<in> set (group_of None ex_states ''pool''). is_tainted n \<and> utilization n \<le> spare_capacity_threshold ex_cfg
        \<longrightarrow> ns_name n \<in> to_untaint ex_decision)"
  by (rule compute_taints_recovers_spare [OF ex_wf(1) ex_peak(1) refl ex_decides])

text \<open>C2: everything a reconcile cycle writes to the cluster: only nodes that discovery found to be
  managed are patched, each patch is one of the four kinds and is based on a read of the same node just
  before it (a reservation is unconditional), and a dry run writes nothing.\<close>

theorem reconcile_patches:
  assumes "iterates ord" "reconcile E ord cfg st tr = (r, st', tr')"
  shows "adds (each_patch (cycle_ok cfg (managed_set (fst (discover_managed_nodes E cfg (EvTouch ''/tmp/healthy'' # tr)))))) tr tr'"
  using assms by (rule reconcile_patches_lemma)

theorem reconcile_patches_witness:
  "adds (each_patch (cycle_ok ex_cfg (managed_set (fst (discover_managed_nodes ex_env ex_cfg [EvTouch ''/tmp/healthy''])))))
     [] (snd (snd (reconcile ex_env sorted_set ex_cfg start_state [])))"
  by (rule reconcile_patches [OF iterates_sorted_set,
        where r = "fst (reconcile ex_env sorted_set ex_cfg start_state [])"
          and st' = "fst (snd (reconcile ex_env sorted_set ex_cfg start_state []))"]) simp

text \<open>A dry run writes nothing: no patch at all is added to the trace by a reconcile cycle.\<close>

theorem reconcile_dry_run:
  assumes "iterates ord" "dry_run cfg" "reconcile E ord cfg st tr = (r, st', tr')"
  shows "patches tr' = patches tr"
proof (rule patches_adds_none)
  show "adds (each_patch (\<lambda>n p tr. False)) tr tr'"
    using reconcile_patches_lemma [OF assms(1,3)] by (rule adds_mono) (simp add: cycle_ok_def assms(2))
qed

theorem reconcile_dry_run_witness:
  "patches (snd (snd (reconcile ex_env sorted_set (ex_cfg\<lparr>dry_run := True\<rparr>) start_state []))) = patches []"
  by (rule reconcile_dry_run [OF iterates_sorted_set,
        where r = "fst (reconcile ex_env sorted_set (ex_cfg\<lparr>dry_run := True\<rparr>) start_state [])"
          and st' = "fst (snd (reconcile ex_env sorted_set (ex_cfg\<lparr>dry_run := True\<rparr>) start_state []))"]) simp_all

text \<open>acting on a decision, whatever the server answers and in whatever order sets are iterated: a
  node is patched only to remove the compactor's taint when that is wanted and either urgent (burst or
  mandatory) or at least \<open>taint_cooldown\<close> seconds after it was tainted; or to add it when that is
  wanted, the node is not being released for a burst, and its fleet's burst cooldown has passed; or to
  reconcile a reservation. The two clock readings are the same for all nodes.\<close>

theorem act_patches:
  assumes "act E ord cfg states reserved burst d st tr = (r, st', tr')"
    and "iterates ord" "finite (to_taint d)" "finite (to_untaint d)" "finite burst"
  shows "\<exists>now_fleet now. adds (each_patch (act_ok cfg states st reserved burst d now_fleet now)) tr tr'"
  using assms by (rule act_patches_lemma)

theorem act_patches_witness:
  "\<exists>now_fleet now. adds (each_patch (act_ok ex_cfg ex_states start_state {} {} ex_decision now_fleet now)) []
     (snd (snd (act ex_env sorted_set ex_cfg ex_states {} {} ex_decision start_state [])))"
  by (rule act_patches [OF _ iterates_sorted_set,
        where r = "fst (act ex_env sorted_set ex_cfg ex_states {} {} ex_decision start_state [])"
          and st' = "fst (snd (act ex_env sorted_set ex_cfg ex_states {} {} ex_decision start_state []))"])
    (simp_all add: ex_decision_def)

text \<open>Whatever the server answers and whoever else writes to the node, \<open>apply_taint\<close> only ever
  sends patches that follow a read of the node, that are conditional on the version read, and that
  add exactly the compactor's taint, and it makes at most two calls per attempt; a dry run makes none.\<close>

theorem apply_taint_patches:
  "adds (justified (apply_ok name key)) tr (snd (apply_taint E name key dry k tr))
   \<and> api_calls (snd (apply_taint E name key dry k tr)) \<le> api_calls tr + (if dry then 0 else 2 * k)"
  by (rule apply_taint_patches_lemma)

text \<open>what a return of \<open>apply_taint\<close> means: the last call read a node that carries the taint, or
  one whose instance-type taint is missing (then nothing was patched), or patched it successfully; an
  exception is the answer of the last call, or the node had no metadata.\<close>

theorem apply_taint_outcome:
  assumes "0 < k" "apply_taint E name key False k tr = (r, tr')"
  shows "apply_outcome name key r tr'"
proof -
  let ?loop = "for_attempts (apply_taint_body E name key k) [0..<k] tr"
  let ?Q = "\<lambda>a tr'. case a of Again \<Rightarrow> True | Return x \<Rightarrow> apply_outcome name key (Inr x) tr'
      | Raise e \<Rightarrow> apply_outcome name key (Inl e) tr'"
  have d: "fst ?loop \<noteq> Again"
    using assms(1) apply_body_decides by (intro apply_loop.decided_loop) auto
  have "?Q (fst ?loop) (snd ?loop)"
    using apply_body_outcome d by (intro for_attempts_result [where Q = ?Q])
  then show ?thesis using assms(2) d
    by (cases ?loop) (auto simp: apply_taint_def finish_def split: attempt.splits)
qed

theorem apply_taint_outcome_witness:
  "apply_outcome ''a'' ''k'' (Inr ())
     [EvPatchNode ''a'' (taint_patch ''k'' ex_api_node ''7'') (Inr ()), EvGetNode ''a'' (Inr ex_api_node)]"
proof (rule apply_taint_outcome [where k = 1 and E = ex_env and tr = "[]"])
  show "apply_taint ex_env ''a'' ''k'' False 1 [] = (Inr (),
      [EvPatchNode ''a'' (taint_patch ''k'' ex_api_node ''7'') (Inr ()), EvGetNode ''a'' (Inr ex_api_node)])"
    by (simp add: apply_taint_def apply_taint_body_def api_defs ex_env_def ex_api_node_def misses_instance_taint_def
        labels_of_def INSTANCE_TYPE_TAINT_KEY_def dget_or_def dget_def finish_def upt_rec)
qed simp

text \<open>\<open>remove_taint\<close> only ever sends patches that follow a read of the node, carry the resource
  version read, and replace the taint list by the taints with another key, all of them, in order.\<close>

theorem remove_taint_patches:
  "adds (justified (remove_ok name key)) tr (snd (remove_taint E name key dry k tr))
   \<and> api_calls (snd (remove_taint E name key dry k tr)) \<le> api_calls tr + (if dry then 0 else 2 * k)"
  by (rule remove_taint_patches_lemma)

text \<open>C5: the nodes released for pending pods are a shortest prefix, by utilisation, of the tainted nodes
  a pending pod could run on once the taint is gone: the compatible pods fit on it, or it is all of
  them, and no shorter non-empty prefix would do.\<close>

theorem check_pending_pods_minimal:
  fixes cfg states pending
  defines "cands \<equiv> sorted_by_desc utilization (compatible_tainted cfg states pending)"
    and "infos \<equiv> map pod_to_podinfo (compatible_pending cfg states pending)"
  assumes "check_pending_pods cfg states pending = (S, c)" "S \<noteq> {}"
  shows "\<exists>k. 0 < k \<and> k \<le> length cands \<and> S = set (map ns_name (take k cands))
    \<and> (pods_fit_on_nodes infos (take k cands) \<or> k = length cands)
    \<and> (\<forall>j. 0 < j \<and> j < k \<longrightarrow> \<not> pods_fit_on_nodes infos (take j cands))
    \<and> (\<forall>t \<in> set (take k cands). t \<in> set (dvals states) \<and> is_tainted t
         \<and> (\<exists>pod \<in> set pending. untainted_match cfg pod t))
    \<and> c = length infos"
proof -
  have r: "compatible_tainted cfg states pending \<noteq> []" "S = set (map ns_name (burst_nodes cfg states pending))"
    "c = length (compatible_pending cfg states pending)"
    using assms(3,4) by (auto simp: check_pending_pods_def split: if_splits)
  then have ne: "cands \<noteq> []" using set_sorted_by_desc [of utilization "compatible_tainted cfg states pending"]
    by (auto simp: cands_def simp del: set_sorted_by_desc)
  obtain k where k: "k \<le> length cands" "untaint_until_fit infos [] cands = take k cands"
    "pods_fit_on_nodes infos (take k cands) \<or> k = length cands"
    "\<forall>j < k. 0 < j \<longrightarrow> \<not> pods_fit_on_nodes infos (take j cands)" "0 < k"
    using untaint_until_fit_prefix [of cands infos "[]"] ne by auto
  have "burst_nodes cfg states pending = take k cands"
    using k(2) by (simp add: burst_nodes_def cands_def infos_def)
  moreover have "t \<in> set (dvals states) \<and> is_tainted t \<and> (\<exists>pod \<in> set pending. untainted_match cfg pod t)"
    if "t \<in> set (take k cands)" for t
  proof -
    have "t \<in> set cands" using that by (rule in_set_takeD)
    then show ?thesis
      by (auto simp: cands_def compatible_tainted_def compatible_pending_def tainted_nodes_def list_ex_iff)
  qed
  ultimately show ?thesis using k r by (intro exI [of _ k]) (auto simp: infos_def)
qed

theorem check_pending_pods_minimal_witness:
  "\<exists>k. 0 < k \<and> k \<le> length (sorted_by_desc utilization (compatible_tainted ex_cfg ex_tainted [ex_waiting]))
    \<and> {''t''} = set (map ns_name (take k (sorted_by_desc utilization (compatible_tainted ex_cfg ex_tainted [ex_waiting]))))"
proof -
  have "check_pending_pods ex_cfg ex_tainted [ex_waiting] = ({''t''}, 1)" by code_simp
  from check_pending_pods_minimal [OF this insert_not_empty] show ?thesis
    by (elim exE conjE, intro exI conjI) assumption+
qed

text \<open>C6: the fit check is sound: if it passes, the pods can be divided among the nodes so that on
  every node they fit one after the other into the CPU, memory and GPUs that are free there, and
  their memory together is at most what is free on it.\<close>

theorem pods_fit_sound:
  assumes "pods_fit_on_nodes ps ns"
  shows "\<exists>loads. length loads = length ns \<and> mset (concat loads) = mset ps
    \<and> (\<forall>i < length ns. fits_seq bin_fits bin_use (free_bin (ns ! i)) (loads ! i)
        \<and> (loads ! i \<noteq> [] \<longrightarrow> sum_list (map memory_request (loads ! i))
             \<le> allocatable_memory (ns ! i) - total_memory_used (ns ! i)))"
proof (cases "ps = []")
  case True
  then show ?thesis by (intro exI [of _ "map (\<lambda>_. []) ns"]) (simp add: concat_eq_Nil_conv)
next
  case False
  from pods_fit_schedule [OF assms this] obtain loads where
    l: "schedule bin_fits bin_use (map free_bin ns) loads" "mset (concat loads) = mset ps" by blast
  then have "\<forall>i < length ns. loads ! i \<noteq> [] \<longrightarrow>
      sum_list (map memory_request (loads ! i)) \<le> mem_remaining (map free_bin ns ! i)"
    using bin.schedule_room [OF l(1)] by simp
  then show ?thesis using l by (intro exI [of _ loads]) (auto simp: schedule_def list_all2_conv_all_nth free_bin_def)
qed

theorem pods_fit_sound_witness:
  "\<exists>loads. length loads = length [ex_node ''a'' False []] \<and> mset (concat loads) = mset [ex_pod ''p'' 1 2]"
proof -
  have "pods_fit_on_nodes [ex_pod ''p'' 1 2] [ex_node ''a'' False []]" by code_simp
  from pods_fit_sound [OF this] show ?thesis by blast
qed

text \<open>the number of nodes a group needs is between one and the size of the group, and zero
  exactly when there are no pods or no nodes.\<close>

theorem bin_pack_bounds:
  "bin_pack_min_nodes ps ns \<le> length ns
   \<and> (bin_pack_min_nodes ps ns = 0 \<longleftrightarrow> ps = [] \<or> ns = [])"
  using pack_loop_bounds [of "map empty_bin (by_capacity ns)" 0 "sort_pods ps"]
  by (auto simp: bin_pack_min_nodes_def)

text \<open>When every pod fits every empty node and the answer is below the number of nodes, the
  pods really can be placed on that many nodes, the largest ones, with the daemon sets running there.\<close>

theorem bin_pack_sound:
  assumes "\<forall>n \<in> set ns. \<forall>p \<in> set ps. bin_fits (empty_bin n) p"
    and "bin_pack_min_nodes ps ns < length ns"
  shows "\<exists>loads. schedule bin_fits bin_use (map empty_bin (take (bin_pack_min_nodes ps ns) (by_capacity ns))) loads
     \<and> mset (concat loads) = mset ps"
proof (cases "ps = [] \<or> ns = []")
  case True
  then show ?thesis using assms(2)
    by (intro exI [of _ "[]"]) (auto simp: bin_pack_min_nodes_def schedule_def)
next
  case False
  let ?start = "map empty_bin (by_capacity ns)"
  have e: "bin_pack_min_nodes ps ns = pack_loop ?start 0 (sort_pods ps)" using False by (simp add: bin_pack_min_nodes_def)
  have "packed ?start ?start 0 []" by (simp add: packed_def loaded_def schedule_def)
  from pack_loop_schedule [OF this, of "sort_pods ps"] assms show ?thesis by (simp add: e take_map)
qed

theorem bin_pack_sound_witness:
  "\<exists>loads. schedule bin_fits bin_use (map empty_bin (take (bin_pack_min_nodes [ex_pod ''p'' 1 2] (dvals ex_states))
       (by_capacity (dvals ex_states)))) loads \<and> mset (concat loads) = mset [ex_pod ''p'' 1 2]"
proof (rule bin_pack_sound)
  show "\<forall>n \<in> set (dvals ex_states). \<forall>p \<in> set [ex_pod ''p'' 1 2]. bin_fits (empty_bin n) p" by code_simp
  show "bin_pack_min_nodes [ex_pod ''p'' 1 2] (dvals ex_states) < length (dvals ex_states)" by code_simp
qed

text \<open>per pool at most the configured number of nodes is reserved, all of them nodes of that pool
  younger than \<open>max_uptime_hours\<close>, and no young node of the pool that is left out comes before a
  reserved one in the order (utilisation, age of the youngest pod, uptime).\<close>

theorem select_reserved_sound:
  fixes pool groups
  defines "young \<equiv> \<lambda>cfg now. filter (\<lambda>n. nodepool n = pool \<and> uptime_hours now n < of_int (max_uptime_hours cfg))
             (concat (dvals groups))"
  assumes "dget (select_reserved_nodes now groups cfg) pool = Some S"
  shows "S \<noteq> {} \<and> S \<subseteq> ns_name ` set (young cfg now) \<and> int (card S) \<le> capacity_reservation_nodes cfg
    \<and> (\<forall>n \<in> set (young cfg now). ns_name n \<notin> S \<longrightarrow>
         (\<forall>s \<in> S. \<exists>m \<in> set (young cfg now). ns_name m = s \<and> reservation_key now m \<le> reservation_key now n))"
proof -
  let ?all = "concat (dvals groups)"
  have pos: "0 < capacity_reservation_nodes cfg" using assms(2) by (auto simp: select_reserved_nodes_def split: if_splits)
  have "dget (select_pools cfg now (group_by nodepool ?all []) []) pool = Some S"
    using assms(2) pos by (simp add: select_reserved_nodes_def)
  then have S: "S = select_in_pool cfg now (filter (\<lambda>n. nodepool n = pool) ?all)" "S \<noteq> {}"
    by (auto simp: dget_select_pools distinct_dkeys_group_by dget_group_by split: if_splits)
  let ?t = "take (nat (capacity_reservation_nodes cfg)) (sorted_by (reservation_key now) (young cfg now))"
  have y: "S = ns_name ` set ?t" by (simp add: S(1) select_in_pool_def young_def conj_commute)
  have "card S \<le> length ?t" unfolding y by (metis card_image_le card_length finite_set order_trans)
  then have "int (card S) \<le> capacity_reservation_nodes cfg" using pos by auto
  moreover have st: "set ?t \<subseteq> set (young cfg now)" by (metis set_sorted_by set_take_subset)
  moreover have "reservation_key now m \<le> reservation_key now n"
    if "m \<in> set ?t" "n \<in> set (young cfg now)" "ns_name n \<notin> S" for m n
    using that sorted_take_le [OF that(1,2)] y by auto
  ultimately show ?thesis using S(2) y by fastforce
qed

theorem select_reserved_sound_witness:
  "{''a''} \<noteq> {} \<and> int (card {''a''}) \<le> capacity_reservation_nodes (ex_cfg\<lparr>capacity_reservation_nodes := 1\<rparr>)"
proof -
  have "dget (select_reserved_nodes 0 [(''pool'', [ex_node ''a'' False []])] (ex_cfg\<lparr>capacity_reservation_nodes := 1\<rparr>)) ''pool''
      = Some {''a''}" by code_simp
  from select_reserved_sound [OF this] show ?thesis by blast
qed

text \<open>the phantom load changes nothing but the pod lists: the nodes and their order stay, a node
  keeps the pods it had and gains phantom pods only, none when it is tainted; the phantom pods of a
  node together stay below the cap in CPU, memory and GPUs, and they never make the requests on the
  node exceed its memory.\<close>

theorem phantom_load_sound:
  assumes "wf_states states" "apply_pending_phantom_load E states pending tr = (states', tr')"
  shows "wf_states states' \<and> dkeys states' = dkeys states
    \<and> (\<forall>k ns. dget states k = Some ns \<longrightarrow> (\<exists>ns'. dget states' k = Some ns' \<and> phantom_node ns ns'))"
  using assms by (rule phantom_load_sound_lemma)

theorem phantom_load_sound_witness:
  "wf_states (fst (apply_pending_phantom_load ex_env ex_states [ex_waiting] []))
   \<and> dkeys (fst (apply_pending_phantom_load ex_env ex_states [ex_waiting] [])) = dkeys ex_states"
  using phantom_load_sound [OF ex_wf(1), of ex_env "[ex_waiting]" "[]"
      "fst (apply_pending_phantom_load ex_env ex_states [ex_waiting] [])"
      "snd (apply_pending_phantom_load ex_env ex_states [ex_waiting] [])"] by simp

text \<open>The pod loop files every pod exactly once: the pending list is extended, in order, by the
  pending pods that pass all exclusion filters, every node by the pods that run on it, and nothing
  else changes. It raises exactly when a pod to be counted has no metadata.\<close>

theorem collect_pods_exact:
  "(case collect_pods cfg now dying ps states pending of
      Inl e \<Rightarrow> e = AttributeError \<and> (\<exists>p k. p \<in> set (counted states k ps) \<and> pod_meta p = None)
    | Inr (states', pending') \<Rightarrow>
        pending' = pending @ filter (\<lambda>p. pod_phase p = ''Pending'' \<and> waits_for_capacity cfg now dying p) ps
        \<and> dkeys states' = dkeys states
        \<and> (\<forall>k p. p \<in> set (counted states k ps) \<longrightarrow> pod_meta p \<noteq> None)
        \<and> (\<forall>k. dget states' k = map_option (\<lambda>ns. ns\<lparr>pods := pods ns @ map info_of (counted states k ps)\<rparr>) (dget states k)))"
  by (rule collect_pods_exact_lemma)

theorem collect_pods_exact_witness:
  "\<exists>states' pending'. collect_pods ex_cfg 0 {} [ex_waiting] ex_states [] = Inr (states', pending') \<and> dkeys states' = dkeys ex_states"
proof -
  have "\<not> counts_on_node ex_states ex_waiting" by code_simp
  then have c: "collect_pods ex_cfg 0 {} [ex_waiting] ex_states [] = Inr (ex_states, [])"
    by (simp add: ex_waiting_def pod_phase_def)
  show ?thesis using collect_pods_exact [where cfg = ex_cfg and now = 0 and dying = "{}" and ps = "[ex_waiting]"
        and states = ex_states and pending = "[]"] unfolding c by auto
qed

text \<open>C7: the snapshot is well formed: every node is stored under its own name, is one of the managed
  nodes, and holds only real pods that are assigned to it.\<close>

theorem build_node_states_wf:
  assumes "build_node_states E cfg managed tr = (Inr (states, pending), tr')"
  shows "wf_states states \<and> set (dkeys states) \<subseteq> set (dkeys managed)
    \<and> (\<forall>k ns p. dget states k = Some ns \<and> p \<in> set (pods ns) \<longrightarrow> pi_node_name p = k \<and> \<not> is_phantom p)"
  using assms by (rule build_node_states_wf_lemma)

theorem build_node_states_wf_witness:
  "\<exists>states pending tr'. build_node_states ex_env ex_cfg [(''a'', ''pool'')] [] = (Inr (states, pending), tr')
     \<and> wf_states states \<and> set (dkeys states) \<subseteq> set (dkeys [(''a'', ''pool'')])"
proof -
  have "\<exists>states pending tr'. build_node_states ex_env ex_cfg [(''a'', ''pool'')] [] = (Inr (states, pending), tr')"
    by (simp add: build_node_states_def api_defs ex_env_def ex_api_node_def dkeys_def)
  then obtain states pending tr' where
    b: "build_node_states ex_env ex_cfg [(''a'', ''pool'')] [] = (Inr (states, pending), tr')" by blast
  from build_node_states_wf [OF this] b show ?thesis by blast
qed

text \<open>\<open>remove_reservation\<close> deletes the \<open>do-not-disrupt\<close> annotation only from a node that it has
  just read with our ownership marker, conditionally on the version read, and together with the marker.\<close>

theorem remove_reservation_patches:
  "adds (justified (unreserve_ok name)) tr (snd (remove_reservation E name dry k tr))
   \<and> api_calls (snd (remove_reservation E name dry k tr)) \<le> api_calls tr + (if dry then 0 else 2 * k)"
  by (rule remove_reservation_patches_lemma)

text \<open>reconciling the reservations reserves only nodes that are wanted and not yet reserved, removes
  the annotations only from nodes that carry the marker and are no longer wanted, reports only those,
  and in a dry run makes no call at all while it reports every one of them.\<close>

theorem reconcile_reservations_patches:
  fixes ns desired
  defines "current \<equiv> set (map ns_name (filter is_reserved ns))"
  assumes "reconcile_reservations E ns desired dry tr = (r, tr')"
  shows "adds (each_patch (reservation_patch_ok (desired - current) (current - desired))) tr tr'
    \<and> (dry \<longrightarrow> tr' = tr \<and> r = Inr (sorted_set (desired - current), sorted_set (current - desired)))
    \<and> (\<forall>added removed. r = Inr (added, removed) \<longrightarrow>
         set added \<subseteq> desired - current \<and> set removed \<subseteq> current - desired)"
  using assms(2) unfolding current_def by (rule reconcile_reservations_patches_lemma)

theorem reconcile_reservations_patches_witness:
  "adds (each_patch (reservation_patch_ok ({''a''} - set (map ns_name (filter is_reserved (dvals ex_states))))
      (set (map ns_name (filter is_reserved (dvals ex_states))) - {''a''}))) []
     (snd (reconcile_reservations ex_env (dvals ex_states) {''a''} False []))"
  using reconcile_reservations_patches [of ex_env "dvals ex_states" "{''a''}" False "[]"
      "fst (reconcile_reservations ex_env (dvals ex_states) {''a''} False [])"
      "snd (reconcile_reservations ex_env (dvals ex_states) {''a''} False [])"] by simp

text \<open>the shutdown clean-up handles every node that carries the marker, whatever happens to the
  others: it raises only when the nodes cannot be listed, and otherwise each owned node is counted
  as released or as failed.\<close>

theorem cleanup_reservations_total:
  "(case list_nodes_r E tr of
      Inl e \<Rightarrow> fst (cleanup_reservations E tr) = Inl e
    | Inr nodes \<Rightarrow> (\<exists>c f. fst (cleanup_reservations E tr) = Inr (c, f) \<and> c + f = length (filter owned nodes)))"
  using unreserve_all_counts [of E _ 0 0]
  by (simp add: cleanup_reservations_def list_nodes_def split: sum.split)

text \<open>a memory quantity of \<open>n\<close> units with any of the eight suffixes is parsed as \<open>n\<close> times
  the unit, exactly, as long as the product is at most \<open>2 ^ 53\<close>; a plain number of bytes is parsed exactly.\<close>

theorem parse_memory_units:
  assumes "(suf, m) \<in> set memory_suffixes" "int n * m \<le> 2 ^ 53"
  shows "parse_memory (str_nat n @ suf) = int n * m \<and> parse_memory (str_nat n) = int n"
proof -
  have m: "1 \<le> m" "m \<le> 2 ^ 53" using assms(1) by (auto simp: memory_suffixes_def)
  then have n: "int n \<le> 2 ^ 53" using assms(2) mult_left_mono [of 1 m "int n"] by simp
  have e: "fmul (fi (int n)) (fi m) = of_int (int n * m)"
    using m n assms(2) fl_of_int [of "int n * m"] fl_of_int [of "int n"] by (simp add: fmul_def fi_def)
  have "ftrunc (fmul (fi (int n)) (fi m)) = int n * m"
    unfolding e ftrunc_def by (simp del: of_int_mult)
  then have "parse_memory (str_nat n @ suf) = int n * m"
    by (simp add: parse_memory_def parse_memory_find [OF assms(1)] py_float_str_nat)
  moreover have "find (\<lambda>(s, _). endswith (str_nat n) s) memory_suffixes = None"
  proof -
    have "\<not> endswith (str_nat n) s" if "(s, k) \<in> set memory_suffixes" for s k
      using that endswith_last [of "str_nat n" s] str_nat_hd_last(2) [of n]
      by (auto simp: memory_suffixes_def is_digit_def)
    then show ?thesis by (auto simp: find_None_iff)
  qed
  ultimately show ?thesis by (simp add: parse_memory_def py_int_str_nat)
qed

theorem parse_memory_units_witness: "parse_memory (str_nat 32 @ ''Gi'') = 32 * 1024 ^ 3 \<and> parse_memory (str_nat 32) = 32"
  using parse_memory_units [of "''Gi''" "1024 ^ 3" 32] by (simp add: memory_suffixes_def)

text \<open>CPU quantities in cores and in millicores up to \<open>2 ^ 53\<close> are the nearest binary64 number.\<close>

theorem parse_cpu_units:
  assumes "int n \<le> 2 ^ 53"
  shows "parse_cpu (str_nat n) = of_nat n \<and> parse_cpu (str_nat n @ ''m'') = fl (of_nat n / 1000)"
proof -
  have "\<not> endswith (str_nat n) ''m''" "\<not> endswith (str_nat n) ''n''"
    using endswith_last [of "str_nat n" "''m''"] endswith_last [of "str_nat n" "''n''"] str_nat_hd_last(2) [of n]
    by (auto simp: is_digit_def)
  moreover have "drop_end 1 (str_nat n @ ''m'') = str_nat n" using drop_end_append [of "''m''" "str_nat n"] by simp
  moreover have "fi (int n) = of_nat n" using assms fl_of_int [of "int n"] by (simp add: fi_def)
  ultimately show ?thesis by (simp add: parse_cpu_def py_float_str_nat fdiv_def)
qed

theorem parse_cpu_units_witness: "parse_cpu (str_nat 4) = 4 \<and> parse_cpu (str_nat 500 @ ''m'') = fl (500 / 1000)"
  using parse_cpu_units [of 4] parse_cpu_units [of 500] by simp

text \<open>a configuration that is accepted has a peak window that is not negative and an age window for
  pending pods that is not empty; everything else about the environment raises before.\<close>

theorem from_env_valid:
  assumes "from_env environ = Inr cfg"
  shows "0 \<le> peak_window_seconds cfg \<and> 0 < pending_pod_max_age_seconds cfg
    \<and> 0 \<le> pending_pod_min_age_seconds cfg \<and> pending_pod_min_age_seconds cfg < pending_pod_max_age_seconds cfg"
  using assms by (auto simp: from_env_def bind_res_Inr_iff check_config_def split: if_splits)

theorem from_env_valid_witness:
  "from_env (\<lambda>_. None) = Inr default_cfg \<and> 0 \<le> peak_window_seconds default_cfg"
proof -
  have d: "from_env (\<lambda>_. None) = Inr default_cfg" by code_simp
  from from_env_valid [OF this] d show ?thesis by simp
qed

text \<open>when the known labels of a gauge are exactly its series, refreshing it leaves exactly the series
  of the current values, and the table of known labels again agrees with them.\<close>

theorem refresh_gauge_exact:
  assumes "refresh_gauge known name current = (stale, sets, known')"
    and "\<forall>l. series l \<noteq> None \<longleftrightarrow> l \<in> dget_or known name {}"
  shows "refreshed series stale sets = dget current
    \<and> (\<forall>l. dget current l \<noteq> None \<longleftrightarrow> l \<in> dget_or known' name {})"
proof -
  have *: "stale = dget_or known name {} - set (dkeys current)" "sets = current"
    "known' = dset name (set (dkeys current)) known"
    using assms(1) by (auto simp: refresh_gauge_def Let_def)
  have "refreshed series stale sets l = dget current l" for l
    using assms(2) dget_set_eq [of current l] by (auto simp: refreshed_def * split: option.split)
  then show ?thesis using dget_set_eq [of current] by (auto simp: * dict_simps)
qed

theorem refresh_gauge_exact_witness:
  "refreshed (\<lambda>l. if l = [''a''] then Some 1 else None) {[''a'']} [([''b''], 2)] = dget [([''b''], 2)]
   \<and> (\<forall>l. dget [([''b''], 2 :: flt)] l \<noteq> None \<longleftrightarrow> l \<in> dget_or [(''g'', {[''b'']})] ''g'' {})"
proof (rule refresh_gauge_exact [where known = "[(''g'', {[''a'']})]" and name = "''g''"])
  show "refresh_gauge [(''g'', {[''a'']})] ''g'' [([''b''], 2)] = ({[''a'']}, [([''b''], 2)], [(''g'', {[''b'']})])"
    by code_simp
qed (simp add: dget_or_def dget_def)

subsection \<open>Where the code does not do what it says\<close>

text \<open>\<open>apply_taint\<close> that gives up on a node whose instance-type taint is missing returns like a
  success: it has read the node once per attempt, patched nothing, and its caller records a taint.\<close>

theorem apply_taint_gives_up:
  assumes "\<And>tr. get_node_r E tr name = Inr node" "misses_instance_taint node"
    "key \<notin> set (map taint_key (spec_taints node))" "dry_run cfg = False" "cfg_taint_key cfg = key"
    "dget states name = Some s" "\<not> is_tainted s"
  shows "\<exists>tr' t. taint_loop E cfg states [name] tms tr = (dset name t tms, tr')
     \<and> hd tr' = EvInc ''node_compactor_taint_operations_total'' [''taint'', ''success''] 1 \<and> patches tr' = patches tr"
proof -
  have "\<exists>tr'. for_attempts (apply_taint_body E name key 5) [0..<5] tr = (Return (), tr') \<and> patches tr' = patches tr
     \<and> (\<exists>rest. tr' = EvGetNode name (Inr node) # rest)"
    by (rule gives_up_loop [OF assms(1-3)]) simp
  then obtain tr' where "apply_taint E name key False 5 tr = (Inr (), tr')" "patches tr' = patches tr"
    by (auto simp: apply_taint_def finish_def)
  then show ?thesis using assms(4-7)
    by (intro exI [of _ "emit (EvInc ''node_compactor_taint_operations_total'' [''taint'', ''success''] 1)
          (EvTime (time_r E tr') # tr')"] exI [of _ "time_r E tr'"])
      (simp add: read_time_def operation_metric_def emit_def)
qed

theorem apply_taint_gives_up_witness:
  "\<exists>tr' t. taint_loop (ex_env\<lparr>get_node_r := \<lambda>_ _. Inr (ex_api_node\<lparr>node_meta := map_option (\<lambda>m. m\<lparr>meta_labels :=
        [(''instance-type'', ''g5'')]\<rparr>) (node_meta ex_api_node)\<rparr>)\<rparr>) ex_cfg ex_states [''a''] [] []
      = (dset ''a'' t [], tr')
     \<and> hd tr' = EvInc ''node_compactor_taint_operations_total'' [''taint'', ''success''] 1 \<and> patches tr' = patches []"
  by (rule apply_taint_gives_up [where node = "ex_api_node\<lparr>node_meta := map_option (\<lambda>m. m\<lparr>meta_labels :=
        [(''instance-type'', ''g5'')]\<rparr>) (node_meta ex_api_node)\<rparr>" and s = "ex_node ''a'' False []"])
    (simp_all add: ex_env_def ex_api_node_def misses_instance_taint_def labels_of_def INSTANCE_TYPE_TAINT_KEY_def
       dget_or_def dget_def ex_cfg_def default_cfg_def ex_states_def ex_node_def)

end
