(* ===== verification/Zombie_Cleanup.thy ===== *)
theory Zombie_Cleanup
  imports Kube
begin

section \<open>Zombie cleanup (\<open>runner_busy.py\<close>, \<open>zombie_cleanup.py\<close>)\<close>

text \<open>
  Pods of the runner namespace that are pending or running for too long are deleted, unless a
  controller manages them or a runner is still alive. One classifier decides for the find pass and for
  the check right before each deletion. The API server is an environment as in the compactor, with its
  own calls; a list call returns its whole list or raises. All pods are read once per run, and a
  pod without metadata makes the run raise before anything is deleted.
\<close>

subsection \<open>Configuration\<close>

record ZConfig =
  z_namespace :: string
  pending_max_hours :: int
  running_max_hours :: int
  busy_max_hours :: int
  z_dry_run :: bool
  pushgateway_url :: string

definition environ_get :: "(string \<Rightarrow> string option) \<Rightarrow> string \<Rightarrow> string \<Rightarrow> string" where
  "environ_get environ key default_v = (case environ key of Some v \<Rightarrow> v | None \<Rightarrow> default_v)"

definition environ_int :: "(string \<Rightarrow> string option) \<Rightarrow> string \<Rightarrow> string \<Rightarrow> int res" where
  "environ_int environ key default_v =
     (case py_int (environ_get environ key default_v) of None \<Rightarrow> Inl ValueError | Some n \<Rightarrow> Inr n)"

definition truthy :: "string \<Rightarrow> bool" where
  "truthy s \<longleftrightarrow> lower s \<in> {''true'', ''1'', ''yes''}"

definition get_config :: "(string \<Rightarrow> string option) \<Rightarrow> ZConfig res" where
  "get_config environ =
     bind_res (environ_int environ ''PENDING_MAX_AGE_HOURS'' ''24'') (\<lambda>p.
     bind_res (environ_int environ ''RUNNING_MAX_AGE_HOURS'' ''24'') (\<lambda>r.
     bind_res (environ_int environ ''BUSY_MAX_AGE_HOURS'' ''48'') (\<lambda>b.
       Inr \<lparr>z_namespace = environ_get environ ''TARGET_NAMESPACE'' ''arc-runners'',
            pending_max_hours = p, running_max_hours = r, busy_max_hours = b,
            z_dry_run = truthy (environ_get environ ''DRY_RUN'' ''false''),
            pushgateway_url = environ_get environ ''PUSHGATEWAY_URL'' []\<rparr>)))"

datatype config_error = RunningMaxNotPositive int | PendingMaxNotPositive int | BusyMaxBelowRunning int int

definition validate_config :: "ZConfig \<Rightarrow> config_error option" where
  "validate_config c =
     (if running_max_hours c \<le> 0 then Some (RunningMaxNotPositive (running_max_hours c))
      else if pending_max_hours c \<le> 0 then Some (PendingMaxNotPositive (pending_max_hours c))
      else if busy_max_hours c < running_max_hours c then
        Some (BusyMaxBelowRunning (busy_max_hours c) (running_max_hours c))
      else None)"

subsection \<open>The classifier\<close>

definition EPHEMERAL_RUNNER_KIND :: string where "EPHEMERAL_RUNNER_KIND = ''EphemeralRunner''"

definition RUNNER_POD_LABEL :: string where "RUNNER_POD_LABEL = ''runner-pod''"

definition TERMINAL_PHASES :: "string set" where "TERMINAL_PHASES = {''Succeeded'', ''Failed''}"

definition MANAGED_OWNER_KINDS :: "string list" where
  "MANAGED_OWNER_KINDS = [''ReplicaSet'', ''DaemonSet'', ''StatefulSet'', ''Job'']"

datatype Decision =
    FAIL_SAFE_PROTECT | BUSY_PROTECT | JOBPOD_PROTECT | HARD_CAP_DELETE | NORMAL_AGE_DELETE | NOT_OVER_AGE_KEEP

definition is_delete :: "Decision \<Rightarrow> bool" where
  "is_delete d \<longleftrightarrow> d \<in> {HARD_CAP_DELETE, NORMAL_AGE_DELETE}"

record RunnerLiveness =
  read_failed :: bool
  runner_busy :: bool
  anchor_present :: bool

definition no_liveness :: RunnerLiveness where
  "no_liveness = \<lparr>read_failed = False, runner_busy = False, anchor_present = False\<rparr>"

definition is_ephemeralrunner_pod :: "ObjectMeta \<Rightarrow> bool" where
  "is_ephemeralrunner_pod m \<longleftrightarrow> EPHEMERAL_RUNNER_KIND \<in> set (owner_kinds m)"

definition get_runner_pod_label :: "ObjectMeta \<Rightarrow> string option" where
  "get_runner_pod_label m = dget (meta_labels m) RUNNER_POD_LABEL"

definition age_over_threshold :: "string \<Rightarrow> flt \<Rightarrow> int \<Rightarrow> int \<Rightarrow> int option" where
  "age_over_threshold ph age pending_max running_max =
     (if ph = ''Pending'' \<and> of_int pending_max < age then Some pending_max
      else if ph \<in> {''Running'', ''Unknown''} \<and> of_int running_max < age then Some running_max
      else None)"

definition age_decision :: "string \<Rightarrow> flt \<Rightarrow> int \<Rightarrow> int \<Rightarrow> Decision" where
  "age_decision ph age pending_max running_max =
     (if age_over_threshold ph age pending_max running_max \<noteq> None then NORMAL_AGE_DELETE else NOT_OVER_AGE_KEEP)"

definition classify_pod :: "ObjectMeta \<Rightarrow> string \<Rightarrow> flt \<Rightarrow> int \<Rightarrow> int \<Rightarrow> int \<Rightarrow> RunnerLiveness \<Rightarrow> Decision" where
  "classify_pod m ph age pending_max running_max busy_max live =
     (if is_ephemeralrunner_pod m then
        (if read_failed live then FAIL_SAFE_PROTECT
         else if runner_busy live \<and> ph \<notin> TERMINAL_PHASES then
           (if of_int busy_max < age then HARD_CAP_DELETE else BUSY_PROTECT)
         else age_decision ph age pending_max running_max)
      else if get_runner_pod_label m \<noteq> None then
        (if read_failed live then FAIL_SAFE_PROTECT
         else if anchor_present live then
           (if of_int busy_max < age then HARD_CAP_DELETE else JOBPOD_PROTECT)
         else age_decision ph age pending_max running_max)
      else age_decision ph age pending_max running_max)"

definition classify :: "ZConfig \<Rightarrow> ObjectMeta \<Rightarrow> string \<Rightarrow> flt \<Rightarrow> RunnerLiveness \<Rightarrow> Decision" where
  \<comment> \<open>\<open>classify_pod\<close> with the three thresholds of the configuration\<close>
  "classify c m ph age live = classify_pod m ph age (pending_max_hours c) (running_max_hours c) (busy_max_hours c) live"

subsection \<open>The API\<close>

text \<open>An EphemeralRunner as it is read: its name, if it has metadata, and its job id, empty if it has none.\<close>

type_synonym Runner = "string option \<times> string"

datatype zevent =
    ZListPods "Pod list res"
  | ZListRunners "Runner list res"
  | ZGetRunner string "string res" \<comment> \<open>the answer is the job id\<close>
  | ZDelete string "unit res"
  | ZNow int
  | ZSet string flt
  | ZInc string "string list"
  | ZPush string

record zenv =
  zlist_pods_r :: "zevent list \<Rightarrow> Pod list res"
  zlist_runners_r :: "zevent list \<Rightarrow> Runner list res"
  zget_runner_r :: "zevent list \<Rightarrow> string \<Rightarrow> string res"
  zdelete_r :: "zevent list \<Rightarrow> string \<Rightarrow> unit res"
  znow_r :: "zevent list \<Rightarrow> int"
  zelapsed_r :: "zevent list \<Rightarrow> flt"

subsection \<open>Busy state of a listing\<close>

record BusyState =
  er_jobid :: "(string, string) dict"
  live_runner_names :: "string set"
  busy_by_workflow :: "string set"
  er_read_failed :: bool

definition is_runner_busy :: "BusyState \<Rightarrow> string \<Rightarrow> bool" where
  "is_runner_busy s n \<longleftrightarrow> dget_or (er_jobid s) n [] \<noteq> [] \<or> n \<in> busy_by_workflow s"

definition liveness_for :: "BusyState \<Rightarrow> ObjectMeta \<Rightarrow> RunnerLiveness" where
  "liveness_for s m =
     (if is_ephemeralrunner_pod m then
        no_liveness\<lparr>read_failed := er_read_failed s, runner_busy := is_runner_busy s (meta_name m)\<rparr>
      else case get_runner_pod_label m of
          Some l \<Rightarrow> no_liveness\<lparr>anchor_present := l \<in> live_runner_names s\<rparr>
        | None \<Rightarrow> no_liveness)"

fun runner_jobids :: "Runner list \<Rightarrow> (string, string) dict \<Rightarrow> (string, string) dict option" where
  \<comment> \<open>the body of the \<open>try\<close>: \<open>None\<close> when a runner has no metadata\<close>
  "runner_jobids [] acc = Some acc"
| "runner_jobids ((None, j) # rs) acc = None"
| "runner_jobids ((Some n, j) # rs) acc = runner_jobids rs (dset n j acc)"

definition read_ephemeralrunner_jobids :: "zenv \<Rightarrow> zevent list \<Rightarrow> ((string, string) dict \<times> bool) \<times> zevent list" where
  "read_ephemeralrunner_jobids E tr =
     (let r = zlist_runners_r E tr in
      ((case r of
          Inl _ \<Rightarrow> ([], True)
        | Inr rs \<Rightarrow> (case runner_jobids rs [] of None \<Rightarrow> ([], True) | Some d \<Rightarrow> (d, False))),
       ZListRunners r # tr))"

type_synonym ZPod = "ObjectMeta \<times> string" \<comment> \<open>metadata and phase, \<open>[]\<close> if unset\<close>

definition live_pods :: "ZPod list \<Rightarrow> ZPod list" where
  "live_pods ps = filter (\<lambda>(m, ph). ph \<notin> TERMINAL_PHASES) ps"

definition build_busy_sets :: "ZPod list \<Rightarrow> string set \<times> string set" where
  "build_busy_sets ps =
     (set (map (\<lambda>(m, ph). meta_name m) (filter (\<lambda>(m, ph). is_ephemeralrunner_pod m) (live_pods ps))),
      set (filter (\<lambda>l. l \<noteq> []) (List.map_filter (\<lambda>(m, ph). get_runner_pod_label m) (live_pods ps))))"

definition gather_busy_state :: "zenv \<Rightarrow> ZPod list \<Rightarrow> zevent list \<Rightarrow> BusyState \<times> zevent list" where
  "gather_busy_state E ps tr =
     (case read_ephemeralrunner_jobids E tr of
        ((jobs, failed), tr1) \<Rightarrow>
          (case build_busy_sets ps of
             (live, busy) \<Rightarrow>
               (\<lparr>er_jobid = jobs, live_runner_names = live, busy_by_workflow = busy, er_read_failed = failed\<rparr>, tr1)))"

subsection \<open>Finding\<close>

definition is_managed_pod :: "ObjectMeta \<Rightarrow> bool" where
  "is_managed_pod m = list_ex (\<lambda>k. k \<in> set MANAGED_OWNER_KINDS) (owner_kinds m)"

definition is_terminating :: "ObjectMeta \<Rightarrow> bool" where
  "is_terminating m \<longleftrightarrow> deletion_ts m \<noteq> None"

definition get_pod_age_hours :: "ObjectMeta \<Rightarrow> int \<Rightarrow> flt" where
  "get_pod_age_hours m now = (case creation_ts m of None \<Rightarrow> -1 | Some t \<Rightarrow> fdiv (total_seconds (now - t)) 3600)"

definition considered :: "int \<Rightarrow> ZPod \<Rightarrow> bool" where
  \<comment> \<open>the pod survives the \<open>continue\<close>s of the find loop\<close>
  "considered now p = (case p of (m, ph) \<Rightarrow>
     \<not> is_managed_pod m \<and> \<not> is_terminating m \<and> \<not> get_pod_age_hours m now < 0)"

definition find_decision :: "ZConfig \<Rightarrow> int \<Rightarrow> BusyState \<Rightarrow> ZPod \<Rightarrow> Decision" where
  "find_decision c now s p = (case p of (m, ph) \<Rightarrow> classify c m ph (get_pod_age_hours m now) (liveness_for s m))"

definition zombies_of :: "ZConfig \<Rightarrow> int \<Rightarrow> BusyState \<Rightarrow> ZPod list \<Rightarrow> ZPod list" where
  "zombies_of c now s ps = filter (\<lambda>p. considered now p \<and> is_delete (find_decision c now s p)) ps"

definition count_decision :: "ZConfig \<Rightarrow> int \<Rightarrow> BusyState \<Rightarrow> ZPod list \<Rightarrow> Decision \<Rightarrow> flt" where
  "count_decision c now s ps d = fi (int (length (filter (\<lambda>p. considered now p \<and> find_decision c now s p = d) ps)))"

definition zpods_of :: "Pod list \<Rightarrow> ZPod list option" where
  \<comment> \<open>\<open>None\<close> when a pod has no metadata\<close>
  "zpods_of ps =
     (if list_ex (\<lambda>p. pod_meta p = None) ps then None
      else Some (List.map_filter (\<lambda>p. map_option (\<lambda>m. (m, pod_phase p)) (pod_meta p)) ps))"

definition find_zombie_pods :: "zenv \<Rightarrow> ZConfig \<Rightarrow> zevent list \<Rightarrow> (ZPod list \<times> nat) res \<times> zevent list" where
  \<comment> \<open>the zombies and the number of pods listed\<close>
  "find_zombie_pods E c tr =
     (let now = znow_r E tr; tr1 = ZNow now # tr; r = zlist_pods_r E tr1; tr2 = ZListPods r # tr1 in
      case r of
        Inl e \<Rightarrow> (Inl e, tr2)
      | Inr ps \<Rightarrow>
          (case zpods_of ps of
             None \<Rightarrow> (Inl AttributeError, snd (read_ephemeralrunner_jobids E tr2))
           | Some zps \<Rightarrow>
               (case gather_busy_state E zps tr2 of
                  (s, tr3) \<Rightarrow>
                    (let zs = zombies_of c now s zps in
                     (Inr (zs, length zps),
                      [ZSet ''zombie_cleanup_ephemeralrunner_read_errors'' (if er_read_failed s then 1 else 0),
                       ZSet ''zombie_cleanup_failsafe_protected'' (count_decision c now s zps FAIL_SAFE_PROTECT),
                       ZSet ''zombie_cleanup_job_pods_protected'' (count_decision c now s zps JOBPOD_PROTECT),
                       ZSet ''zombie_cleanup_runner_pods_busy_skipped'' (count_decision c now s zps BUSY_PROTECT),
                       ZSet ''zombie_cleanup_oldest_zombie_age_hours''
                         (fold max (map (\<lambda>(m, ph). get_pod_age_hours m now) zs) 0),
                       ZSet ''zombie_cleanup_zombies_found'' (fi (int (length zs))),
                       ZSet ''zombie_cleanup_pods_managed_skipped''
                         (fi (int (length (filter (\<lambda>(m, ph). is_managed_pod m) zps)))),
                       ZSet ''zombie_cleanup_pods_total'' (fi (int (length zps)))] @ tr3)))))"

subsection \<open>Deleting\<close>

definition get_ephemeralrunner :: "zenv \<Rightarrow> string \<Rightarrow> zevent list \<Rightarrow> (bool \<times> string \<times> bool) \<times> zevent list" where
  \<comment> \<open>found, job id, read failed\<close>
  "get_ephemeralrunner E n tr =
     (let r = zget_runner_r E tr n in
      ((case r of
          Inr j \<Rightarrow> (True, j, False)
        | Inl e \<Rightarrow> (if e = ApiError 404 then (False, [], False) else (False, [], True))),
       ZGetRunner n r # tr))"

definition recheck_liveness :: "zenv \<Rightarrow> ObjectMeta \<Rightarrow> zevent list \<Rightarrow> RunnerLiveness \<times> zevent list" where
  "recheck_liveness E m tr =
     (if is_ephemeralrunner_pod m then
        (case get_ephemeralrunner E (meta_name m) tr of
           ((found, job, failed), tr1) \<Rightarrow>
             (if failed then no_liveness\<lparr>read_failed := True\<rparr>
              else no_liveness\<lparr>runner_busy := found \<and> job \<noteq> []\<rparr>, tr1))
      else case get_runner_pod_label m of
          Some l \<Rightarrow>
            (case get_ephemeralrunner E l tr of
               ((found, job, failed), tr1) \<Rightarrow>
                 (if failed then no_liveness\<lparr>read_failed := True\<rparr>
                  else no_liveness\<lparr>anchor_present := found\<rparr>, tr1))
        | None \<Rightarrow> (no_liveness, tr))"

record counts =
  deleted_n :: nat
  failed_n :: nat
  skipped_n :: nat

type_synonym del_state = "counts \<times> bool \<times> zevent list" \<comment> \<open>counters, \<open>er_read_failed\<close>, trace\<close>

fun delete_one :: "zenv \<Rightarrow> ZConfig \<Rightarrow> int \<Rightarrow> ZPod \<Rightarrow> del_state \<Rightarrow> del_state" where
  \<comment> \<open>the body of the loop of \<open>delete_zombies\<close>\<close>
  "delete_one E c now (m, ph) (n, er_failed, tr) =
     (case recheck_liveness E m tr of
        (live, tr1) \<Rightarrow>
          (let er_failed' = (er_failed \<or> read_failed live);
               d = classify c m (if ph = [] then ''Unknown'' else ph) (get_pod_age_hours m now) live in
           if \<not> is_delete d then (n\<lparr>skipped_n := Suc (skipped_n n)\<rparr>, er_failed', tr1)
           else if z_dry_run c then (n\<lparr>deleted_n := Suc (deleted_n n)\<rparr>, er_failed', tr1)
           else
             (let r = zdelete_r E tr1 (meta_name m); tr2 = ZDelete (meta_name m) r # tr1 in
              if r = Inr () \<or> r = Inl (ApiError 404) then
                (n\<lparr>deleted_n := Suc (deleted_n n)\<rparr>, er_failed',
                 if d = HARD_CAP_DELETE then ZInc ''zombie_cleanup_busy_hardcap_deletions_total'' [] # tr2 else tr2)
              else (n\<lparr>failed_n := Suc (failed_n n)\<rparr>, er_failed', tr2))))"

definition delete_zombies :: "zenv \<Rightarrow> ZConfig \<Rightarrow> ZPod list \<Rightarrow> zevent list \<Rightarrow> counts \<times> zevent list" where
  "delete_zombies E c zs tr =
     (let now = znow_r E tr in
      case fold (delete_one E c now) zs (\<lparr>deleted_n = 0, failed_n = 0, skipped_n = 0\<rparr>, False, ZNow now # tr) of
        (n, er_failed, tr1) \<Rightarrow>
          (n, if er_failed then ZSet ''zombie_cleanup_ephemeralrunner_read_errors'' 1 # tr1 else tr1))"

subsection \<open>The run\<close>

definition cleanup_cap :: "nat \<Rightarrow> int" where
  "cleanup_cap total_pods = max (ftrunc (fmul (fi (int total_pods)) (fl (1 / 10)))) 10"

definition report :: "zenv \<Rightarrow> ZConfig \<Rightarrow> counts \<Rightarrow> int \<Rightarrow> string \<Rightarrow> zevent list \<Rightarrow> zevent list" where
  \<comment> \<open>the gauges and the counter set at the end of a run, and the push when a gateway is configured\<close>
  "report E c n skipped status tr =
     (let tr1 = [ZSet ''zombie_cleanup_recheck_skipped'' (fi (int (skipped_n n))),
                 ZSet ''zombie_cleanup_pods_skipped'' (fi skipped),
                 ZSet ''zombie_cleanup_pods_failed'' (fi (int (failed_n n))),
                 ZSet ''zombie_cleanup_pods_deleted'' (fi (int (deleted_n n)))] @ tr;
          tr2 = ZInc ''zombie_cleanup_runs_total'' [status]
                # ZSet ''zombie_cleanup_duration_seconds'' (zelapsed_r E tr1) # tr1 in
      if pushgateway_url c \<noteq> [] then ZPush (pushgateway_url c) # tr2 else tr2)"

definition zero_counts :: counts where
  "zero_counts = \<lparr>deleted_n = 0, failed_n = 0, skipped_n = 0\<rparr>"

definition run :: "zenv \<Rightarrow> ZConfig \<Rightarrow> zevent list \<Rightarrow> int \<times> zevent list" where
  \<comment> \<open>\<open>main\<close> after the configuration has been read\<close>
  "run E c tr =
     (if validate_config c \<noteq> None then (1, tr)
      else case find_zombie_pods E c tr of
          (Inl _, tr1) \<Rightarrow> (1, report E c zero_counts 0 ''failure'' tr1)
        | (Inr (zs, total_pods), tr1) \<Rightarrow>
            (if zs = [] then (0, report E c zero_counts 0 ''success'' tr1)
             else
               (let cap = cleanup_cap total_pods;
                    skipped = max (int (length zs) - cap) 0;
                    zs' = (if 0 < skipped then take (nat cap) zs else zs) in
                case delete_zombies E c zs' tr1 of
                  (n, tr2) \<Rightarrow>
                    (if 0 < failed_n n then 1 else 0,
                     report E c n skipped (if failed_n n = 0 then ''success'' else ''failure'') tr2))))"

definition zombie_main :: "zenv \<Rightarrow> (string \<Rightarrow> string option) \<Rightarrow> zevent list \<Rightarrow> int res \<times> zevent list" where
  "zombie_main E environ tr =
     (case get_config environ of
        Inl e \<Rightarrow> (Inl e, tr)
      | Inr c \<Rightarrow> (case run E c tr of (code, tr') \<Rightarrow> (Inr code, tr')))"

end
