(* ===== verification/Zombie_Properties.thy ===== *)
theory Zombie_Properties
  imports Zombie_Cleanup
begin

text \<open>
  What a run of the zombie cleanup deletes. \<open>may_delete\<close> restates the policy over the answers of the API
  server, without the classifier and its decisions; the trace of a run is then shown to delete only
  pods that the policy allows, with the answer that allows it right before the deletion.
\<close>

section \<open>The policy\<close>

definition over_age :: "ZConfig \<Rightarrow> string \<Rightarrow> flt \<Rightarrow> bool" where
  "over_age c ph age \<longleftrightarrow>
     ph = ''Pending'' \<and> of_int (pending_max_hours c) < age
     \<or> ph \<in> {''Running'', ''Unknown'', []} \<and> of_int (running_max_hours c) < age"

fun last_read :: "zevent list \<Rightarrow> (string \<times> string res) option" where
  "last_read (ZGetRunner n r # _) = Some (n, r)"
| "last_read _ = None"

definition may_delete :: "ZConfig \<Rightarrow> ObjectMeta \<Rightarrow> string \<Rightarrow> flt \<Rightarrow> zevent list \<Rightarrow> bool" where
  "may_delete c m ph age h \<longleftrightarrow>
     (if is_ephemeralrunner_pod m then
        \<exists>r. last_read h = Some (meta_name m, r) \<and>
            ((r = Inl (ApiError 404) \<or> r = Inr []) \<and> over_age c ph age
             \<or> (\<exists>j. r = Inr j) \<and> ph \<notin> TERMINAL_PHASES \<and> of_int (busy_max_hours c) < age)
      else case get_runner_pod_label m of
          None \<Rightarrow> over_age c ph age
        | Some l \<Rightarrow>
            \<exists>r. last_read h = Some (l, r) \<and>
                (r = Inl (ApiError 404) \<and> over_age c ph age
                 \<or> (\<exists>j. r = Inr j) \<and> of_int (busy_max_hours c) < age))"

definition listed :: "zevent list \<Rightarrow> ZPod \<Rightarrow> bool" where
  "listed h p \<longleftrightarrow>
     (\<exists>ps. ZListPods (Inr ps) \<in> set h \<and> (\<exists>q \<in> set ps. pod_meta q = Some (fst p) \<and> pod_phase q = snd p))"

definition deletion_ok :: "ZConfig \<Rightarrow> string \<Rightarrow> zevent list \<Rightarrow> bool" where
  \<comment> \<open>the deletion of the pod of that name is right after these events\<close>
  "deletion_ok c n h \<longleftrightarrow>
     \<not> z_dry_run c \<and> validate_config c = None
     \<and> (\<exists>p now. listed h p \<and> ZNow now \<in> set h \<and> meta_name (fst p) = n
          \<and> \<not> is_managed_pod (fst p) \<and> \<not> is_terminating (fst p)
          \<and> (is_ephemeralrunner_pod (fst p) \<longrightarrow> (\<exists>rs. ZListRunners (Inr rs) \<in> set h))
          \<and> may_delete c (fst p) (snd p) (get_pod_age_hours (fst p) now) h)"

fun zdelete_of :: "zevent \<Rightarrow> string option" where
  "zdelete_of (ZDelete n r) = Some n"
| "zdelete_of _ = None"

fun zfailed_of :: "zevent \<Rightarrow> string option" where
  "zfailed_of (ZDelete n r) = (if r = Inr () \<or> r = Inl (ApiError 404) then None else Some n)"
| "zfailed_of _ = None"

section \<open>Library lemmas\<close>

named_theorems zombie

lemma is_delete_simps [simp]:
  "is_delete HARD_CAP_DELETE" "is_delete NORMAL_AGE_DELETE" "\<not> is_delete NOT_OVER_AGE_KEEP"
  "\<not> is_delete BUSY_PROTECT" "\<not> is_delete JOBPOD_PROTECT" "\<not> is_delete FAIL_SAFE_PROTECT"
  by (auto simp: is_delete_def)

lemma is_delete_age_decision:
  "is_delete (age_decision (if ph = [] then ''Unknown'' else ph) age (pending_max_hours c) (running_max_hours c))
   \<longleftrightarrow> over_age c ph age"
  by (auto simp: age_decision_def age_over_threshold_def over_age_def)

lemma over_age_not_terminal: "over_age c ph age \<Longrightarrow> ph \<notin> TERMINAL_PHASES"
  by (auto simp: over_age_def TERMINAL_PHASES_def)

lemma recheck_allows:
  assumes "recheck_liveness E m tr = (live, tr1)"
    and "is_delete (classify c m (if ph = [] then ''Unknown'' else ph) age live)"
  shows "may_delete c m ph age tr1"
proof (cases "is_ephemeralrunner_pod m")
  case True
  with assms show ?thesis
    by (auto simp: recheck_liveness_def get_ephemeralrunner_def classify_def classify_pod_def may_delete_def
      is_delete_age_decision no_liveness_def TERMINAL_PHASES_def over_age_def Let_def
      split: sum.splits if_splits)
next
  case False
  with assms show ?thesis
    by (auto simp: recheck_liveness_def get_ephemeralrunner_def classify_def classify_pod_def may_delete_def
      is_delete_age_decision no_liveness_def Let_def split: sum.splits if_splits option.splits)
qed

lemma recheck_trace:
  "recheck_liveness E m tr = (live, tr1) \<Longrightarrow> tr1 = tr \<or> (\<exists>n r. tr1 = ZGetRunner n r # tr)"
  by (auto simp: recheck_liveness_def get_ephemeralrunner_def Let_def
      split: prod.splits if_splits option.splits sum.splits)

text \<open>The facts that a deletion needs from the find pass; they survive further events.\<close>

definition zombie_found :: "ZPod \<Rightarrow> zevent list \<Rightarrow> bool" where
  "zombie_found p h \<longleftrightarrow> listed h p \<and> \<not> is_managed_pod (fst p) \<and> \<not> is_terminating (fst p)
     \<and> (is_ephemeralrunner_pod (fst p) \<longrightarrow> (\<exists>rs. ZListRunners (Inr rs) \<in> set h))"

lemma zombie_found_mono: "zombie_found p h \<Longrightarrow> set h \<subseteq> set h' \<Longrightarrow> zombie_found p h'"
  unfolding zombie_found_def listed_def by blast

lemma delete_one_cases:
  assumes "delete_one E c now (m, ph) (n, er, tr) = (n', er', tr')"
  obtains (skip) live where "recheck_liveness E m tr = (live, tr')" "n' = n\<lparr>skipped_n := Suc (skipped_n n)\<rparr>"
    | (dry) live where "recheck_liveness E m tr = (live, tr')" "z_dry_run c" "n' = n\<lparr>deleted_n := Suc (deleted_n n)\<rparr>"
    | (gone) es r tr1 where "\<not> z_dry_run c" "may_delete c m ph (get_pod_age_hours m now) tr1"
        "tr1 = tr \<or> (\<exists>k r. tr1 = ZGetRunner k r # tr)" "tr' = es @ ZDelete (meta_name m) r # tr1"
        "es = [] \<or> es = [ZInc ''zombie_cleanup_busy_hardcap_deletions_total'' []]"
        "r = Inr () \<or> r = Inl (ApiError 404)" "n' = n\<lparr>deleted_n := Suc (deleted_n n)\<rparr>"
    | (failed) r tr1 where "\<not> z_dry_run c" "may_delete c m ph (get_pod_age_hours m now) tr1"
        "tr1 = tr \<or> (\<exists>k r. tr1 = ZGetRunner k r # tr)" "tr' = ZDelete (meta_name m) r # tr1"
        "r \<noteq> Inr ()" "r \<noteq> Inl (ApiError 404)" "n' = n\<lparr>failed_n := Suc (failed_n n)\<rparr>"
proof -
  obtain live tr1 where r: "recheck_liveness E m tr = (live, tr1)" by fastforce
  let ?d = "classify c m (if ph = [] then ''Unknown'' else ph) (get_pod_age_hours m now) live"
  let ?r = "zdelete_r E tr1 (meta_name m)"
  consider "\<not> is_delete ?d" | "is_delete ?d" "z_dry_run c"
    | "is_delete ?d" "\<not> z_dry_run c" "?r = Inr () \<or> ?r = Inl (ApiError 404)"
    | "is_delete ?d" "\<not> z_dry_run c" "\<not> (?r = Inr () \<or> ?r = Inl (ApiError 404))"
    by blast
  then show thesis
  proof cases
    case 1 with assms r show thesis by (intro skip[of live]) (auto simp: Let_def)
  next
    case 2 with assms r show thesis by (intro dry[of live]) (auto simp: Let_def)
  next
    case 3
    show thesis
      using assms r 3 recheck_allows[OF r 3(1)] recheck_trace[OF r]
      by (intro gone[of tr1 "if ?d = HARD_CAP_DELETE then [ZInc ''zombie_cleanup_busy_hardcap_deletions_total'' []] else []" ?r])
         (auto simp: Let_def split: if_splits)
  next
    case 4
    show thesis
      using assms r 4 recheck_allows[OF r 4(1)] recheck_trace[OF r]
      by (intro failed[of tr1 ?r]) (auto simp: Let_def split: if_splits)
  qed
qed

lemma gather_busy_state_trace:
  assumes "gather_busy_state E ps tr = (s, tr')"
  obtains r where "tr' = ZListRunners r # tr" "\<not> er_read_failed s \<longrightarrow> (\<exists>rs. r = Inr rs)"
  using assms
  by (cases "zlist_runners_r E tr")
     (auto simp: gather_busy_state_def read_ephemeralrunner_jobids_def Let_def split: prod.splits option.splits)

lemma find_zombie_pods_ok:
  assumes "find_zombie_pods E c tr = (Inr (zs, k), tr')" and "p \<in> set zs"
  shows "zombie_found p tr'"
proof -
  let ?tr1 = "ZNow (znow_r E tr) # tr"
  obtain ps zps where ps: "zlist_pods_r E ?tr1 = Inr ps" "zpods_of ps = Some zps"
    using assms(1) by (auto simp: find_zombie_pods_def Let_def split: sum.splits option.splits)
  obtain s tr3 where g: "gather_busy_state E zps (ZListPods (Inr ps) # ?tr1) = (s, tr3)" by fastforce
  obtain r where r: "tr3 = ZListRunners r # ZListPods (Inr ps) # ?tr1" "\<not> er_read_failed s \<longrightarrow> (\<exists>rs. r = Inr rs)"
    using gather_busy_state_trace[OF g] by blast
  have zs: "zs = zombies_of c (znow_r E tr) s zps" and sub: "set tr3 \<subseteq> set tr'"
    using assms(1) ps g by (auto simp: find_zombie_pods_def Let_def)
  have "zps = List.map_filter (\<lambda>p. map_option (\<lambda>m. (m, pod_phase p)) (pod_meta p)) ps"
    using ps(2) by (simp add: zpods_of_def split: if_splits)
  moreover from assms(2) zs have p: "p \<in> set zps" and con: "considered (znow_r E tr) p"
    and del: "is_delete (find_decision c (znow_r E tr) s p)" by (auto simp: zombies_of_def)
  ultimately obtain q where "q \<in> set ps" "pod_meta q = Some (fst p)" "pod_phase q = snd p"
    by (auto simp: map_filter_def)
  then have "listed tr3 p" unfolding listed_def r(1) by auto
  moreover have "er_read_failed s \<Longrightarrow> \<not> is_ephemeralrunner_pod (fst p)"
    using del by (auto simp: find_decision_def classify_def classify_pod_def liveness_for_def no_liveness_def
      split: prod.splits if_splits)
  ultimately have "zombie_found p tr3"
    using con r by (auto simp: zombie_found_def considered_def)
  with sub show ?thesis by (rule zombie_found_mono[rotated])
qed

text \<open>Events that are no deletions.\<close>

definition quiet :: "zevent list \<Rightarrow> zevent list \<Rightarrow> bool" where
  "quiet tr tr' \<longleftrightarrow> (\<exists>es. tr' = es @ tr \<and> (\<forall>e \<in> set es. zdelete_of e = None \<and> zfailed_of e = None))"

lemma quiet_refl [simp]: "quiet tr tr"
  by (simp add: quiet_def)

lemma quiet_Cons: "quiet tr tr' \<Longrightarrow> zdelete_of e = None \<Longrightarrow> zfailed_of e = None \<Longrightarrow> quiet tr (e # tr')"
  unfolding quiet_def by (metis append_Cons set_ConsD)

lemma find_zombie_pods_trace:
  assumes "find_zombie_pods E c tr = (r, tr')"
  shows "quiet tr tr'"
proof -
  let ?tr1 = "ZNow (znow_r E tr) # tr"
  show ?thesis
  proof (cases "zlist_pods_r E ?tr1")
    case (Inl e)
    with assms show ?thesis by (auto simp: find_zombie_pods_def Let_def intro!: quiet_Cons)
  next
    case (Inr ps)
    show ?thesis
    proof (cases "zpods_of ps")
      case None
      with assms Inr show ?thesis
        by (auto simp: find_zombie_pods_def Let_def read_ephemeralrunner_jobids_def intro!: quiet_Cons)
    next
      case (Some zps)
      obtain s tr3 where g: "gather_busy_state E zps (ZListPods (Inr ps) # ?tr1) = (s, tr3)" by fastforce
      obtain q where "tr3 = ZListRunners q # ZListPods (Inr ps) # ?tr1"
        using gather_busy_state_trace[OF g] by blast
      with assms Inr Some g show ?thesis
        by (auto simp: find_zombie_pods_def Let_def intro!: quiet_Cons)
    qed
  qed
qed

lemma find_zombie_pods_length:
  assumes "find_zombie_pods E c tr = (Inr (zs, k), tr')" shows "length zs \<le> k"
  using assms by (auto simp: find_zombie_pods_def zombies_of_def Let_def
    split: sum.splits option.splits prod.splits)

lemma delete_one_ok:
  assumes "delete_one E c now p (n, er, tr) = (n', er', tr')" "zombie_found p tr" "ZNow now \<in> set tr"
    and "validate_config c = None" "each_call zdelete_of (deletion_ok c) tr"
  shows "each_call zdelete_of (deletion_ok c) tr' \<and> set tr \<subseteq> set tr'"
proof -
  obtain m ph where p: "p = (m, ph)" by (cases p)
  have read: "each_call zdelete_of (deletion_ok c) tr1 \<and> set tr \<subseteq> set tr1"
    if "tr1 = tr \<or> (\<exists>k r. tr1 = ZGetRunner k r # tr)" for tr1
    using that assms(5) by auto
  have ok: "deletion_ok c (meta_name m) tr1"
    if "\<not> z_dry_run c" "may_delete c m ph (get_pod_age_hours m now) tr1" "set tr \<subseteq> set tr1" for tr1
    unfolding deletion_ok_def
    using that assms(3,4) zombie_found_mono[OF assms(2) that(3)] p
    by (fastforce simp: zombie_found_def)
  from assms(1)[unfolded p] show ?thesis
  proof (cases rule: delete_one_cases)
    case (skip live) then show ?thesis using recheck_trace read by blast
  next
    case (dry live) then show ?thesis using recheck_trace read by blast
  next
    case (gone es r tr1) then show ?thesis using read[OF gone(3)] ok by auto
  next
    case (failed r tr1) then show ?thesis using read[OF failed(3)] ok by auto
  qed
qed

lemma delete_fold_ok:
  assumes "\<And>p. p \<in> set zs \<Longrightarrow> zombie_found p tr" "ZNow now \<in> set tr" "validate_config c = None"
    and "each_call zdelete_of (deletion_ok c) tr"
  shows "each_call zdelete_of (deletion_ok c) (snd (snd (fold (delete_one E c now) zs (n, er, tr))))"
proof -
  have "each_call zdelete_of (deletion_ok c) (snd (snd (fold (delete_one E c now) zs (n, er, tr))))
        \<and> set tr \<subseteq> set (snd (snd (fold (delete_one E c now) zs (n, er, tr))))"
  proof (rule fold_inv)
    fix p and s :: del_state assume "p \<in> set zs"
      "each_call zdelete_of (deletion_ok c) (snd (snd s)) \<and> set tr \<subseteq> set (snd (snd s))"
    moreover obtain n1 er1 tr1 where "s = (n1, er1, tr1)" by (cases s)
    moreover obtain n2 er2 tr2 where "delete_one E c now p s = (n2, er2, tr2)" by (cases "delete_one E c now p s")
    ultimately have one: "delete_one E c now p (n1, er1, tr1) = (n2, er2, tr2)" and s: "s = (n1, er1, tr1)"
      and z: "zombie_found p tr1" and sub: "set tr \<subseteq> set tr1" and q: "each_call zdelete_of (deletion_ok c) tr1"
      using zombie_found_mono[OF assms(1)] by auto
    have "each_call zdelete_of (deletion_ok c) tr2 \<and> set tr1 \<subseteq> set tr2"
      using delete_one_ok[OF one z _ assms(3) q] assms(2) sub by auto
    then show "each_call zdelete_of (deletion_ok c) (snd (snd (delete_one E c now p s)))
        \<and> set tr \<subseteq> set (snd (snd (delete_one E c now p s)))"
      using one s sub by auto
  qed (use assms(4) in auto)
  then show ?thesis by blast
qed

text \<open>The counters of the loop against its events.\<close>

definition tally :: "ZConfig \<Rightarrow> nat \<Rightarrow> counts \<Rightarrow> zevent list \<Rightarrow> bool" where
  \<comment> \<open>after \<open>k\<close> candidates, with these new events\<close>
  "tally c k n es \<longleftrightarrow>
     deleted_n n + failed_n n + skipped_n n = k
     \<and> failed_n n = count_calls zfailed_of es
     \<and> count_calls zdelete_of es = (if z_dry_run c then 0 else deleted_n n + failed_n n)"

lemma delete_one_tally:
  assumes "delete_one E c now p (n, er, es @ tr) = (n', er', tr')" "tally c k n es"
  shows "\<exists>es'. tr' = es' @ tr \<and> tally c (Suc k) n' es'"
proof -
  obtain m ph where p: "p = (m, ph)" by (cases p)
  have read: "\<exists>fs. tr1 = (fs @ es) @ tr \<and> count_calls zfailed_of fs = 0 \<and> count_calls zdelete_of fs = 0"
    if "tr1 = es @ tr \<or> (\<exists>k r. tr1 = ZGetRunner k r # es @ tr)" for tr1
  proof -
    from that consider "tr1 = ([] @ es) @ tr" | k r where "tr1 = ([ZGetRunner k r] @ es) @ tr" by auto
    then show ?thesis by cases (fastforce intro: exI[of _ "[]"] exI[of _ "[ZGetRunner _ _]"])+
  qed
  from assms(1)[unfolded p] show ?thesis
  proof (cases rule: delete_one_cases)
    case (skip live)
    from read[OF recheck_trace[OF skip(1)]] obtain fs where "tr' = (fs @ es) @ tr"
      "count_calls zfailed_of fs = 0" "count_calls zdelete_of fs = 0" by blast
    with skip assms(2) show ?thesis by (auto simp: tally_def intro!: exI[of _ "fs @ es"])
  next
    case (dry live)
    from read[OF recheck_trace[OF dry(1)]] obtain fs where "tr' = (fs @ es) @ tr"
      "count_calls zfailed_of fs = 0" "count_calls zdelete_of fs = 0" by blast
    with dry assms(2) show ?thesis by (auto simp: tally_def intro!: exI[of _ "fs @ es"])
  next
    case (gone gs r tr1)
    from read[OF gone(3)] obtain fs where "tr1 = (fs @ es) @ tr"
      "count_calls zfailed_of fs = 0" "count_calls zdelete_of fs = 0" by blast
    with gone assms(2) show ?thesis
      by (auto simp: tally_def intro!: exI[of _ "gs @ ZDelete (meta_name m) r # fs @ es"])
  next
    case (failed r tr1)
    from read[OF failed(3)] obtain fs where "tr1 = (fs @ es) @ tr"
      "count_calls zfailed_of fs = 0" "count_calls zdelete_of fs = 0" by blast
    with failed assms(2) show ?thesis
      by (auto simp: tally_def intro!: exI[of _ "ZDelete (meta_name m) r # fs @ es"])
  qed
qed

lemma delete_fold_tally:
  "tally c k n es \<Longrightarrow> fold (delete_one E c now) zs (n, er, es @ tr) = (n', er', tr')
   \<Longrightarrow> \<exists>es'. tr' = es' @ tr \<and> tally c (k + length zs) n' es'"
proof (induction zs arbitrary: k n er es)
  case (Cons p zs)
  obtain n1 er1 tr1 where one: "delete_one E c now p (n, er, es @ tr) = (n1, er1, tr1)"
    by (cases "delete_one E c now p (n, er, es @ tr)")
  with delete_one_tally[OF one Cons.prems(1)] obtain es1 where "tr1 = es1 @ tr" "tally c (Suc k) n1 es1" by blast
  with Cons.IH[of "Suc k" n1 es1 er1] Cons.prems(2) one show ?case by simp
qed auto

lemma quiet_each: "quiet tr tr' \<Longrightarrow> each_call zdelete_of Q tr \<Longrightarrow> each_call zdelete_of Q tr'"
proof -
  have "each_call zdelete_of Q (es @ tr)"
    if "\<forall>e \<in> set es. zdelete_of e = None \<and> zfailed_of e = None" "each_call zdelete_of Q tr" for es
    using that by (induction es) auto
  then show "quiet tr tr' \<Longrightarrow> each_call zdelete_of Q tr \<Longrightarrow> each_call zdelete_of Q tr'"
    unfolding quiet_def by blast
qed

lemma quiet_count:
  "quiet tr tr' \<Longrightarrow> count_calls zdelete_of tr' = count_calls zdelete_of tr \<and> count_calls zfailed_of tr' = count_calls zfailed_of tr"
  by (auto simp: quiet_def count_calls_def)

lemma quiet_subset: "quiet tr tr' \<Longrightarrow> set tr \<subseteq> set tr'"
  by (auto simp: quiet_def)

lemma report_quiet: "quiet tr (report E c n k st tr)"
  by (auto simp: report_def Let_def intro!: quiet_Cons)

lemma delete_zombies_ok:
  assumes "delete_zombies E c zs tr = (n, tr')" "\<And>p. p \<in> set zs \<Longrightarrow> zombie_found p tr"
    and "validate_config c = None" "each_call zdelete_of (deletion_ok c) tr"
  shows "each_call zdelete_of (deletion_ok c) tr'"
proof -
  let ?now = "znow_r E tr"
  obtain n1 er tr1 where f: "fold (delete_one E c ?now) zs (zero_counts, False, ZNow ?now # tr) = (n1, er, tr1)"
    by (metis prod_cases3)
  have "each_call zdelete_of (deletion_ok c) (snd (snd (fold (delete_one E c ?now) zs (zero_counts, False, ZNow ?now # tr))))"
  proof (rule delete_fold_ok)
    fix p assume "p \<in> set zs"
    then show "zombie_found p (ZNow ?now # tr)"
      by (rule zombie_found_mono[OF assms(2)]) auto
  qed (use assms(3,4) in auto)
  then show ?thesis
    using assms(1) f by (auto simp: delete_zombies_def zero_counts_def Let_def)
qed

lemma delete_zombies_tally:
  assumes "delete_zombies E c zs tr = (n, tr')"
  shows "\<exists>es. tr' = es @ tr \<and> tally c (length zs) n es"
proof -
  let ?now = "znow_r E tr"
  obtain n1 er tr1 where f: "fold (delete_one E c ?now) zs (zero_counts, False, [] @ ZNow ?now # tr) = (n1, er, tr1)"
    by (metis prod_cases3)
  have "tally c 0 zero_counts []" by (simp add: tally_def zero_counts_def)
  from delete_fold_tally[OF this f] obtain es where es: "tr1 = es @ ZNow ?now # tr" "tally c (length zs) n1 es"
    by auto
  let ?es = "(if er then [ZSet ''zombie_cleanup_ephemeralrunner_read_errors'' 1] else []) @ es @ [ZNow ?now]"
  from es assms f have "tr' = ?es @ tr" "tally c (length zs) n ?es"
    by (auto simp: delete_zombies_def zero_counts_def tally_def Let_def split: if_splits)
  then show ?thesis by blast
qed

text \<open>The ways in which a run ends.\<close>

lemma run_cases:
  assumes "run E c tr = (code, tr')"
  obtains (invalid) "validate_config c \<noteq> None" "code = 1" "tr' = tr"
    | (no_list) e tr1 where "validate_config c = None" "find_zombie_pods E c tr = (Inl e, tr1)" "code = 1" "quiet tr1 tr'"
    | (no_zombies) k tr1 where "validate_config c = None" "find_zombie_pods E c tr = (Inr ([], k), tr1)" "code = 0" "quiet tr1 tr'"
    | (cleaned) zs k tr1 n tr2 where "validate_config c = None" "find_zombie_pods E c tr = (Inr (zs, k), tr1)"
        "delete_zombies E c (take (nat (cleanup_cap k)) zs) tr1 = (n, tr2)"
        "code = (if 0 < failed_n n then 1 else 0)" "quiet tr2 tr'"
proof (cases "validate_config c = None")
  case False
  with assms show thesis by (intro invalid) (auto simp: run_def)
next
  case ok: True
  obtain r tr1 where f: "find_zombie_pods E c tr = (r, tr1)" by fastforce
  show thesis
  proof (cases r)
    case (Inl e)
    with assms ok f show thesis by (intro no_list[of e tr1]) (auto simp: run_def report_quiet)
  next
    case (Inr p)
    obtain zs k where p: "p = (zs, k)" by (cases p)
    show thesis
    proof (cases "zs = []")
      case True
      with assms ok f Inr p show thesis by (intro no_zombies[of k tr1]) (auto simp: run_def report_quiet)
    next
      case False
      have cap: "0 \<le> cleanup_cap k" by (simp add: cleanup_cap_def)
      then have tk: "(if 0 < max (int (length zs) - cleanup_cap k) 0 then take (nat (cleanup_cap k)) zs else zs)
                 = take (nat (cleanup_cap k)) zs"
        by auto
      obtain n tr2 where d: "delete_zombies E c (take (nat (cleanup_cap k)) zs) tr1 = (n, tr2)" by fastforce
      from assms ok f Inr p False d show thesis
        by (intro cleaned[of zs k tr1 n tr2]) (auto simp: run_def Let_def tk report_quiet split: prod.splits)
    qed
  qed
qed

lemma delete_zombies_count:
  assumes "delete_zombies E c zs tr = (n, tr')"
  shows "count_calls zdelete_of tr' \<le> count_calls zdelete_of tr + length zs"
    and "count_calls zfailed_of tr' = count_calls zfailed_of tr + failed_n n"
proof -
  from delete_zombies_tally[OF assms] obtain es where "tr' = es @ tr" "tally c (length zs) n es" by blast
  then show "count_calls zdelete_of tr' \<le> count_calls zdelete_of tr + length zs"
    and "count_calls zfailed_of tr' = count_calls zfailed_of tr + failed_n n"
    by (auto simp: tally_def)
qed

lemma length_zpods_of: "zpods_of ps = Some zps \<Longrightarrow> length zps = length ps"
proof -
  have "\<not> list_ex (\<lambda>p. pod_meta p = None) ps
        \<Longrightarrow> length (List.map_filter (\<lambda>p. map_option (\<lambda>m. (m, pod_phase p)) (pod_meta p)) ps) = length ps"
    by (induction ps) (auto simp: map_filter_simps)
  then show "zpods_of ps = Some zps \<Longrightarrow> length zps = length ps"
    by (auto simp: zpods_of_def split: if_splits)
qed

lemma find_zombie_pods_total:
  assumes "find_zombie_pods E c tr = (Inr (zs, k), tr')" "zlist_pods_r E (ZNow (znow_r E tr) # tr) = Inr ps"
  shows "k = length ps"
  using assms by (auto simp: find_zombie_pods_def Let_def length_zpods_of split: option.splits prod.splits)

lemma run_code:
  assumes "run E c [] = (code, tr)"
  shows "code = (if validate_config c \<noteq> None \<or> isl (fst (find_zombie_pods E c [])) \<or> 0 < count_calls zfailed_of tr
                 then 1 else 0)"
  using assms
proof (cases rule: run_cases)
  case (no_zombies k tr1)
  then show ?thesis using quiet_count[OF find_zombie_pods_trace] quiet_count by fastforce
next
  case (cleaned zs k tr1 n tr2)
  have "count_calls zfailed_of tr = failed_n n"
    using quiet_count[OF cleaned(5)] delete_zombies_count(2)[OF cleaned(3)]
      quiet_count[OF find_zombie_pods_trace[OF cleaned(2)]] by simp
  with cleaned show ?thesis by simp
qed auto

section \<open>A run to evaluate\<close>

text \<open>
  Four pods that are 100 hours old: a plain one, an idle runner, a busy runner and a managed one; the
  deletion of the plain pod fails.
\<close>

definition zpod :: "string \<Rightarrow> string list \<Rightarrow> Pod" where
  "zpod n owners =
     \<lparr>pod_meta = Some \<lparr>meta_name = n, meta_namespace = ''arc-runners'', resource_version = ''1'',
        meta_labels = [], meta_annotations = [], owner_kinds = owners, creation_ts = Some 0, deletion_ts = None\<rparr>,
      pod_spec = None, pod_status = Some \<lparr>phase = ''Running'', status_start_time = None, conditions = []\<rparr>\<rparr>"

definition ex_zenv :: zenv where
  "ex_zenv =
     \<lparr>zlist_pods_r = (\<lambda>tr. Inr [zpod ''plain'' [], zpod ''idle'' [''EphemeralRunner''],
        zpod ''busy'' [''EphemeralRunner''], zpod ''listener'' [''ReplicaSet'']]),
      zlist_runners_r = (\<lambda>tr. Inr [(Some ''idle'', []), (Some ''busy'', [])]),
      zget_runner_r = (\<lambda>tr n. if n = ''busy'' then Inr ''job'' else Inr []),
      zdelete_r = (\<lambda>tr n. if n = ''plain'' then Inl (ApiError 500) else Inr ()),
      znow_r = (\<lambda>tr. 360000000000), zelapsed_r = (\<lambda>tr. 1)\<rparr>"

definition ex_zcfg :: ZConfig where
  "ex_zcfg = \<lparr>z_namespace = ''arc-runners'', pending_max_hours = 24, running_max_hours = 24,
     busy_max_hours = 120, z_dry_run = False, pushgateway_url = []\<rparr>"

section \<open>Properties\<close>

definition run_digest :: "zevent list \<Rightarrow> string list \<times> nat" where
  "run_digest tr = (List.map_filter zdelete_of tr, count_calls zfailed_of tr)"

lemma ex_run: "run_digest (snd (run ex_zenv ex_zcfg [])) = ([''idle'', ''plain''], 1)"
  by code_simp

text \<open>C8: A run of the zombie cleanup deletes a pod only if dry run is off and the configuration is
  valid, the pod was listed in this run, no controller manages it and it is not terminating, and the
  answers right before the deletion allow it: a plain pod is over its age limit; for a runner pod the
  runner was just read as gone or without a job and the pod is over its age limit, or the runner exists,
  the pod is not finished and is over the busy limit; for a job pod the same with the runner that its label
  names, which must be gone or the pod over the busy limit. No runner pod is deleted in a run whose
  listing of the runners failed.\<close>

theorem zombie_deletions_justified:
  assumes "run E c [] = (code, tr)"
  shows "each_call zdelete_of (deletion_ok c) tr"
  using assms
proof (cases rule: run_cases)
  case (no_list e tr1)
  then show ?thesis using quiet_each[OF find_zombie_pods_trace] quiet_each by fastforce
next
  case (no_zombies k tr1)
  then show ?thesis using quiet_each[OF find_zombie_pods_trace] quiet_each by fastforce
next
  case (cleaned zs k tr1 n tr2)
  have "each_call zdelete_of (deletion_ok c) tr1"
    using quiet_each[OF find_zombie_pods_trace[OF cleaned(2)]] by simp
  then have "each_call zdelete_of (deletion_ok c) tr2"
    using delete_zombies_ok[OF cleaned(3)] find_zombie_pods_ok[OF cleaned(2)] cleaned(1)
    by (meson in_set_takeD)
  with cleaned(5) show ?thesis by (rule quiet_each)
qed simp

theorem zombie_deletions_justified_witness:
  "each_call zdelete_of (deletion_ok ex_zcfg) (snd (run ex_zenv ex_zcfg []))
   \<and> List.map_filter zdelete_of (snd (run ex_zenv ex_zcfg [])) = [''idle'', ''plain'']"
proof (rule conjI)
  show "List.map_filter zdelete_of (snd (run ex_zenv ex_zcfg [])) = [''idle'', ''plain'']"
    using ex_run by (simp add: run_digest_def)
qed (rule zombie_deletions_justified[OF surjective_pairing])

text \<open>A run tries to delete at most as many pods as the cap allows, a tenth of the listed pods or
  ten, whichever is larger; when the listing fails it deletes nothing.\<close>

theorem zombie_run_bounded:
  assumes "run E c [] = (code, tr)"
  shows "int (count_calls zdelete_of tr) \<le>
    (case zlist_pods_r E [ZNow (znow_r E [])] of Inl e \<Rightarrow> 0 | Inr ps \<Rightarrow> cleanup_cap (length ps))"
proof -
  have nonneg: "0 \<le> (case zlist_pods_r E [ZNow (znow_r E [])] of Inl e \<Rightarrow> 0 | Inr ps \<Rightarrow> cleanup_cap (length ps))"
    by (auto simp: cleanup_cap_def split: sum.split)
  from assms show ?thesis
  proof (cases rule: run_cases)
    case (no_list e tr1)
    then show ?thesis using nonneg quiet_count[OF find_zombie_pods_trace] quiet_count by fastforce
  next
    case (no_zombies k tr1)
    then show ?thesis using nonneg quiet_count[OF find_zombie_pods_trace] quiet_count by fastforce
  next
    case (cleaned zs k tr1 n tr2)
    obtain ps where ps: "zlist_pods_r E [ZNow (znow_r E [])] = Inr ps"
      using cleaned(2) by (auto simp: find_zombie_pods_def Let_def split: sum.splits)
    have "count_calls zdelete_of tr \<le> length (take (nat (cleanup_cap k)) zs)"
      using quiet_count[OF cleaned(5)] delete_zombies_count(1)[OF cleaned(3)]
        quiet_count[OF find_zombie_pods_trace[OF cleaned(2)]] by simp
    moreover have "k = length ps" using find_zombie_pods_total[OF cleaned(2) ps] .
    ultimately show ?thesis using ps nonneg by auto
  qed (use nonneg in auto)
qed

theorem zombie_run_bounded_witness:
  "int (count_calls zdelete_of (snd (run ex_zenv ex_zcfg []))) \<le> cleanup_cap 4"
proof -
  obtain ps where "zlist_pods_r ex_zenv [ZNow (znow_r ex_zenv [])] = Inr ps" "length ps = 4"
    by (simp add: ex_zenv_def)
  with zombie_run_bounded[OF surjective_pairing, of ex_zenv ex_zcfg] show ?thesis by simp
qed

text \<open>The exit code of a run is 1 exactly if the configuration is invalid, the pods cannot be
  listed (or one has no metadata), or the deletion of a pod failed with something other than a 404;
  otherwise it is 0. The recheck counts every candidate exactly once, as deleted, failed or skipped, and
  in a dry run no deletion is sent.\<close>

theorem zombie_outcome:
  assumes "run E c [] = (code, tr)" and "delete_zombies E c zs h = (n, h')"
  shows "code = (if validate_config c \<noteq> None \<or> isl (fst (find_zombie_pods E c [])) \<or> 0 < count_calls zfailed_of tr
                 then 1 else 0)
    \<and> deleted_n n + failed_n n + skipped_n n = length zs
    \<and> count_calls zdelete_of h' = count_calls zdelete_of h + (if z_dry_run c then 0 else deleted_n n + failed_n n)"
proof -
  from delete_zombies_tally[OF assms(2)] obtain es where "h' = es @ h" "tally c (length zs) n es" by blast
  then show ?thesis using run_code[OF assms(1)] by (auto simp: tally_def)
qed

theorem zombie_outcome_witness:
  "fst (run ex_zenv ex_zcfg []) = 1
   \<and> (let n = fst (delete_zombies ex_zenv ex_zcfg [] []) in deleted_n n + failed_n n + skipped_n n = 0)"
proof -
  have "0 < count_calls zfailed_of (snd (run ex_zenv ex_zcfg []))" using ex_run by (simp add: run_digest_def)
  with zombie_outcome[OF surjective_pairing surjective_pairing, of ex_zenv ex_zcfg "[]" "[]"]
  show ?thesis by (simp add: Let_def)
qed

end
