(* ===== verification/Harbor_Recovery.thy ===== *)
theory Harbor_Recovery
  imports Kube
begin

section \<open>Harbor cache recovery (\<open>harbor_cache_recovery.py\<close>)\<close>

text \<open>
  Containers that cannot pull their image because the Harbor proxy cache is corrupt are found among all
  pods, and the cached repository of each image is purged once. Pods and HTTP answers come from an
  environment; the events of a run are recorded, newest first. The cookie jar that stores nothing and
  the retries inside the HTTP adapter belong to the \<open>requests\<close> library: a request here is what the
  session sends in the end.
\<close>

subsection \<open>Constants and configuration\<close>

definition REGISTRY_TO_PROJECT :: "(string, string) dict" where
  "REGISTRY_TO_PROJECT =
     [(''docker.io'', ''dockerhub-cache''), (''ghcr.io'', ''ghcr-cache''),
      (''public.ecr.aws'', ''ecr-public-cache''), (''nvcr.io'', ''nvcr-cache''),
      (''registry.k8s.io'', ''k8s-cache''), (''quay.io'', ''quay-cache'')]"

definition CACHE_CORRUPTION_INDICATORS :: "string list" where
  "CACHE_CORRUPTION_INDICATORS =
     [''failed size validation'', ''failed precondition'', ''unexpected content digest'', ''failed to copy'']"

definition DEFAULT_HARBOR_URL :: string where
  "DEFAULT_HARBOR_URL = ''http://harbor.harbor-system.svc.cluster.local:80''"

record HConfig =
  harbor_url :: string
  harbor_password :: string
  min_pod_age_seconds :: int
  h_dry_run :: bool

definition harbor_config :: "(string \<Rightarrow> string option) \<Rightarrow> HConfig res" where
  \<comment> \<open>\<open>get_config\<close>\<close>
  "harbor_config environ =
     (let env = (\<lambda>k d. case environ k of Some v \<Rightarrow> v | None \<Rightarrow> d) in
      case py_int (env ''MIN_POD_AGE_SECONDS'' ''120'') of
        None \<Rightarrow> Inl ValueError
      | Some n \<Rightarrow>
          Inr \<lparr>harbor_url = env ''HARBOR_URL'' DEFAULT_HARBOR_URL,
               harbor_password = env ''HARBOR_ADMIN_PASSWORD'' [],
               min_pod_age_seconds = n,
               h_dry_run = lower (env ''DRY_RUN'' ''false'') \<in> {''true'', ''1'', ''yes''}\<rparr>)"

subsection \<open>Image references\<close>

definition rsplit_head :: "char \<Rightarrow> string \<Rightarrow> string" where
  \<comment> \<open>\<open>s.rsplit(c, 1)[0]\<close>\<close>
  "rsplit_head c s = (if c \<in> set s then rev (tl (dropWhile (\<lambda>x. x \<noteq> c) (rev s))) else s)"

definition split_once :: "char \<Rightarrow> string \<Rightarrow> string \<times> string option" where
  \<comment> \<open>\<open>s.split(c, 1)\<close>: the head, and the tail if there is one\<close>
  "split_once c s = split_at (\<lambda>x. x = c) s"

definition strip_tag :: "string \<Rightarrow> string" where
  "strip_tag ref =
     (let parts = split_on (CHR ''/'') ref; l = last parts in
      join_on (CHR ''/'')
        (butlast parts @ [if CHR '':'' \<in> set l then rsplit_head (CHR '':'') l else l]))"

definition parse_image_reference :: "string \<Rightarrow> (string \<times> string) option" where
  "parse_image_reference img =
     (let ref = strip_tag (takeWhile (\<lambda>x. x \<noteq> CHR ''@'') img);
          (registry, repo_path) =
            (case split_once (CHR ''/'') ref of
               (p, None) \<Rightarrow> (''docker.io'', ''library/'' @ p)
             | (p, Some rest) \<Rightarrow>
                 (if CHR ''.'' \<in> set p \<or> CHR '':'' \<in> set p then (p, rest) else (''docker.io'', ref))) in
      if dget REGISTRY_TO_PROJECT registry = None then None else Some (registry, repo_path))"

subsection \<open>Pull failures\<close>

record Waiting =
  wait_reason :: string
  wait_message :: string

record ContainerStatus =
  cs_image :: string
  cs_waiting :: "Waiting option"

record HPod =
  hp_name :: string
  hp_namespace :: string
  hp_creation :: "int option"
  hp_status :: "(ContainerStatus list \<times> ContainerStatus list) option"
    \<comment> \<open>container and init container statuses\<close>

definition corrupt :: "ContainerStatus \<Rightarrow> bool" where
  \<comment> \<open>the entry passes the three \<open>continue\<close>s\<close>
  "corrupt cs =
     (case cs_waiting cs of
        None \<Rightarrow> False
      | Some w \<Rightarrow> wait_reason w \<in> {''ImagePullBackOff'', ''ErrImagePull''}
          \<and> list_ex (\<lambda>i. contains_str i (wait_message w)) CACHE_CORRUPTION_INDICATORS)"

definition extract_waiting_failures :: "ContainerStatus list \<Rightarrow> (string \<times> string) list" where
  \<comment> \<open>image and message\<close>
  "extract_waiting_failures sts =
     map (\<lambda>cs. (cs_image cs, case cs_waiting cs of None \<Rightarrow> [] | Some w \<Rightarrow> wait_message w)) (filter corrupt sts)"

record Failure =
  f_pod :: string
  f_namespace :: string
  f_image :: string
  f_project :: string
  f_repo :: string
  f_message :: string

definition failure_of :: "HPod \<Rightarrow> string \<times> string \<Rightarrow> Failure option" where
  "failure_of p e =
     (case e of (img, message) \<Rightarrow>
        (case parse_image_reference img of
           None \<Rightarrow> None
         | Some (registry, repo_path) \<Rightarrow>
             (case dget REGISTRY_TO_PROJECT registry of
                None \<Rightarrow> None
              | Some project \<Rightarrow>
                  Some \<lparr>f_pod = hp_name p, f_namespace = hp_namespace p, f_image = img, f_project = project,
                        f_repo = repo_path, f_message = take 200 message\<rparr>)))"

definition old_enough :: "int \<Rightarrow> int \<Rightarrow> HPod \<Rightarrow> bool" where
  "old_enough now min_age p =
     (case hp_creation p of None \<Rightarrow> False | Some t \<Rightarrow> \<not> total_seconds (now - t) < of_int min_age)"

definition pod_failures :: "int \<Rightarrow> int \<Rightarrow> HPod \<Rightarrow> Failure list" where
  "pod_failures now min_age p =
     (if old_enough now min_age p then
        (case hp_status p of
           None \<Rightarrow> []
         | Some (cs, ics) \<Rightarrow>
             List.map_filter (failure_of p) (extract_waiting_failures cs @ extract_waiting_failures ics))
      else [])"

subsection \<open>The session and its requests\<close>

datatype http_exc = RequestException | OtherException

record Session =
  s_auth :: "string \<times> string"
  s_headers :: "(string, string) dict"

record Response =
  status_code :: int
  csrf_header :: "string option"

datatype hevent =
    HListPods "HPod list res"
  | HNow int
  | HGet string Session "http_exc + Response"
  | HDelete string Session "http_exc + Response"

record henv =
  h_list_r :: "hevent list \<Rightarrow> HPod list res"
  h_now_r :: "hevent list \<Rightarrow> int"
  h_get_r :: "hevent list \<Rightarrow> string \<Rightarrow> Session \<Rightarrow> http_exc + Response"
  h_delete_r :: "hevent list \<Rightarrow> string \<Rightarrow> Session \<Rightarrow> http_exc + Response"

definition find_pull_failures :: "henv \<Rightarrow> int \<Rightarrow> hevent list \<Rightarrow> Failure list res \<times> hevent list" where
  "find_pull_failures E min_age tr =
     (let now = h_now_r E tr; tr1 = HNow now # tr; r = h_list_r E tr1 in
      ((case r of Inl e \<Rightarrow> Inl e | Inr ps \<Rightarrow> Inr (concat (map (pod_failures now min_age) ps))), HListPods r # tr1))"

definition create_harbor_session :: "string \<Rightarrow> Session" where
  "create_harbor_session admin_password =
     \<lparr>s_auth = (''admin'', admin_password),
      s_headers = [(''Content-Type'', ''application/json''), (''Accept'', ''application/json'')]\<rparr>"

definition fetch_csrf_token :: "henv \<Rightarrow> Session \<Rightarrow> string \<Rightarrow> hevent list \<Rightarrow> (http_exc + Session) \<times> hevent list" where
  "fetch_csrf_token E s url tr =
     (let u = url @ ''/api/v2.0/systeminfo''; r = h_get_r E tr u s in
      ((case r of
          Inl e \<Rightarrow> Inl e
        | Inr resp \<Rightarrow>
            (if 400 \<le> status_code resp \<and> status_code resp < 600 then Inl RequestException
             else case csrf_header resp of
                 None \<Rightarrow> Inr s
               | Some t \<Rightarrow> Inr (if t = [] then s else s\<lparr>s_headers := dset ''X-Harbor-CSRF-Token'' t (s_headers s)\<rparr>))),
       HGet u s r # tr))"

definition encode_path :: "string \<Rightarrow> string" where
  "encode_path s = concat (map (\<lambda>c. if c = CHR ''/'' then ''%252F'' else [c]) s)"

definition purge_url :: "string \<Rightarrow> string \<Rightarrow> string \<Rightarrow> string" where
  "purge_url url project repo_path =
     url @ ''/api/v2.0/projects/'' @ project @ ''/repositories/'' @ encode_path repo_path"

definition purge_cached_repo ::
    "henv \<Rightarrow> Session \<Rightarrow> string \<Rightarrow> string \<Rightarrow> string \<Rightarrow> hevent list \<Rightarrow> (http_exc + bool) \<times> hevent list" where
  "purge_cached_repo E s url project repo_path tr =
     (let u = purge_url url project repo_path; r = h_delete_r E tr u s in
      ((case r of
          Inl RequestException \<Rightarrow> Inr False
        | Inl OtherException \<Rightarrow> Inl OtherException
        | Inr resp \<Rightarrow> Inr (status_code resp = 200 \<or> status_code resp = 404)),
       HDelete u s r # tr))"

subsection \<open>The run\<close>

definition repo_key :: "Failure \<Rightarrow> string" where
  "repo_key f = f_project f @ ''/'' @ f_repo f"

definition unique_repos :: "Failure list \<Rightarrow> (string, Failure) dict" where
  "unique_repos fs = fold (\<lambda>f d. if dget d (repo_key f) = None then dset (repo_key f) f d else d) fs []"

fun purge_all :: "henv \<Rightarrow> Session \<Rightarrow> string \<Rightarrow> Failure list \<Rightarrow> nat \<times> nat \<Rightarrow> hevent list
    \<Rightarrow> (http_exc + nat \<times> nat) \<times> hevent list" where
  \<comment> \<open>the counts are \<open>purged\<close> and \<open>failed\<close>\<close>
  "purge_all E s url [] n tr = (Inr n, tr)"
| "purge_all E s url (f # fs) (purged, failed) tr =
     (case purge_cached_repo E s url (f_project f) (f_repo f) tr of
        (Inl e, tr1) \<Rightarrow> (Inl e, tr1)
      | (Inr ok, tr1) \<Rightarrow> purge_all E s url fs (if ok then (Suc purged, failed) else (purged, Suc failed)) tr1)"

datatype outcome = ExitCode int | Raised exc | RaisedHttp http_exc

definition harbor_run :: "henv \<Rightarrow> HConfig \<Rightarrow> hevent list \<Rightarrow> outcome \<times> hevent list" where
  \<comment> \<open>\<open>main\<close> after the configuration has been read\<close>
  "harbor_run E c tr =
     (if harbor_password c = [] then (ExitCode 1, tr)
      else case find_pull_failures E (min_pod_age_seconds c) tr of
          (Inl _, tr1) \<Rightarrow> (ExitCode 1, tr1)
        | (Inr fs, tr1) \<Rightarrow>
            (if fs = [] then (ExitCode 0, tr1)
             else if h_dry_run c then (ExitCode 0, tr1)
             else case fetch_csrf_token E (create_harbor_session (harbor_password c)) (harbor_url c) tr1 of
                 (Inl RequestException, tr2) \<Rightarrow> (ExitCode 1, tr2)
               | (Inl OtherException, tr2) \<Rightarrow> (RaisedHttp OtherException, tr2)
               | (Inr s, tr2) \<Rightarrow>
                   (case purge_all E s (harbor_url c) (map snd (unique_repos fs)) (0, 0) tr2 of
                      (Inl e, tr3) \<Rightarrow> (RaisedHttp e, tr3)
                    | (Inr (purged, failed), tr3) \<Rightarrow> (ExitCode (if 0 < failed then 1 else 0), tr3))))"

definition harbor_main :: "henv \<Rightarrow> (string \<Rightarrow> string option) \<Rightarrow> hevent list \<Rightarrow> outcome \<times> hevent list" where
  "harbor_main E environ tr =
     (case harbor_config environ of Inl e \<Rightarrow> (Raised e, tr) | Inr c \<Rightarrow> harbor_run E c tr)"

end
