(* ===== verification/Harbor_Properties.thy ===== *)
theory Harbor_Properties
  imports Harbor_Recovery
begin

text \<open>
  Image references are parsed back to the registry and repository they were written from, and a run purges
  exactly the repositories of the corrupt images, each of them once.
\<close>

section \<open>Splitting and joining\<close>

lemma dropWhile_notin: "c \<notin> set t \<Longrightarrow> dropWhile (\<lambda>x. x \<noteq> c) t = []"
  by (induction t) auto

lemma rsplit_head_append: "c \<notin> set t \<Longrightarrow> rsplit_head c (x @ c # t) = x"
  by (simp add: rsplit_head_def dropWhile_append3 dropWhile_notin)

lemma strip_tag_plain: "CHR '':'' \<notin> set u \<Longrightarrow> strip_tag u = u"
  using set_last_split[of "CHR ''/''" u] by (auto simp: strip_tag_def Let_def)

lemma strip_tag_tag:
  "CHR '':'' \<notin> set t \<Longrightarrow> CHR ''/'' \<notin> set t \<Longrightarrow> strip_tag (u @ CHR '':'' # t) = u"
  by (simp add: strip_tag_def Let_def split_on_append rsplit_head_append)

lemma takeWhile_at:
  "c \<notin> set u \<Longrightarrow> dg = [] \<or> (\<exists>d. dg = c # d) \<Longrightarrow> takeWhile (\<lambda>x. x \<noteq> c) (u @ dg) = u"
  by (auto simp: takeWhile_append)

lemma split_once_slash [simp]:
  "c \<notin> set p \<Longrightarrow> split_once c (p @ c # r) = (p, Some r)" "c \<notin> set p \<Longrightarrow> split_once c p = (p, None)"
  by (auto simp: split_once_def split_at_def takeWhile_append dropWhile_append3 dropWhile_notin takeWhile_eq_all_conv)

text \<open>The optional tag and digest of a reference.\<close>

definition tag_part :: "string \<Rightarrow> bool" where
  "tag_part tg \<longleftrightarrow> tg = [] \<or> (\<exists>t. tg = CHR '':'' # t \<and> set t \<inter> {CHR '':'', CHR ''/'', CHR ''@''} = {})"

definition digest_part :: "string \<Rightarrow> bool" where
  "digest_part dg \<longleftrightarrow> dg = [] \<or> (\<exists>d. dg = CHR ''@'' # d)"

lemma strip_reference:
  assumes "set u \<inter> {CHR '':'', CHR ''@''} = {}" "tag_part tg" "digest_part dg"
  shows "strip_tag (takeWhile (\<lambda>x. x \<noteq> CHR ''@'') (u @ tg @ dg)) = u"
proof -
  have "takeWhile (\<lambda>x. x \<noteq> CHR ''@'') ((u @ tg) @ dg) = u @ tg"
    by (rule takeWhile_at) (use assms in \<open>auto simp: tag_part_def digest_part_def\<close>)
  moreover have "strip_tag (u @ tg) = u"
    using assms(1,2) strip_tag_plain strip_tag_tag by (auto simp: tag_part_def)
  ultimately show ?thesis by simp
qed

lemma registry_keys:
  "dget REGISTRY_TO_PROJECT r \<noteq> None \<longleftrightarrow>
   r \<in> {''docker.io'', ''ghcr.io'', ''public.ecr.aws'', ''nvcr.io'', ''registry.k8s.io'', ''quay.io''}"
  by (auto simp: REGISTRY_TO_PROJECT_def dget_def)

lemma registry_chars:
  "dget REGISTRY_TO_PROJECT r \<noteq> None \<Longrightarrow>
   CHR ''.'' \<in> set r \<and> set r \<inter> {CHR '':'', CHR ''@'', CHR ''/''} = {}"
  unfolding registry_keys by auto

section \<open>Runs\<close>

definition purge_ok :: "HConfig \<Rightarrow> string \<times> Session \<Rightarrow> hevent list \<Rightarrow> bool" where
  \<comment> \<open>why a repository may be purged, from the events before the request\<close>
  "purge_ok c us h \<longleftrightarrow>
     \<not> h_dry_run c \<and> s_auth (snd us) = (''admin'', harbor_password c)
     \<and> (\<exists>now ps p cs ics st registry project repo.
          HNow now \<in> set h \<and> HListPods (Inr ps) \<in> set h \<and> p \<in> set ps \<and> old_enough now (min_pod_age_seconds c) p
          \<and> hp_status p = Some (cs, ics) \<and> st \<in> set cs \<union> set ics \<and> corrupt st
          \<and> parse_image_reference (cs_image st) = Some (registry, repo)
          \<and> dget REGISTRY_TO_PROJECT registry = Some project
          \<and> fst us = purge_url (harbor_url c) project repo)"

fun hdelete_of :: "hevent \<Rightarrow> (string \<times> Session) option" where
  "hdelete_of (HDelete u s r) = Some (u, s)"
| "hdelete_of _ = None"

lemma in_map_filter: "y \<in> set (List.map_filter g xs) \<longleftrightarrow> (\<exists>x \<in> set xs. g x = Some y)"
  by (induction xs) (auto simp: map_filter_simps split: option.splits)

lemma in_extract:
  "e \<in> set (extract_waiting_failures sts) \<longleftrightarrow>
   (\<exists>st \<in> set sts. corrupt st \<and> e = (cs_image st, case cs_waiting st of None \<Rightarrow> [] | Some w \<Rightarrow> wait_message w))"
  by (auto simp: extract_waiting_failures_def)

lemma in_pod_failures:
  assumes "hp_status p = Some (cs, ics)"
  shows "f \<in> set (pod_failures now min_age p) \<longleftrightarrow> old_enough now min_age p
    \<and> (\<exists>e \<in> set (extract_waiting_failures cs @ extract_waiting_failures ics). failure_of p e = Some f)"
proof (cases "old_enough now min_age p")
  case True
  with assms have "pod_failures now min_age p
      = List.map_filter (failure_of p) (extract_waiting_failures cs @ extract_waiting_failures ics)"
    by (simp add: pod_failures_def)
  with True show ?thesis by (simp only: in_map_filter simp_thms)
qed (simp add: pod_failures_def)

lemma pod_failures_iff:
  "f \<in> set (pod_failures now min_age p) \<longleftrightarrow>
   old_enough now min_age p \<and> (\<exists>cs ics st. hp_status p = Some (cs, ics) \<and> st \<in> set cs \<union> set ics \<and> corrupt st
     \<and> failure_of p (cs_image st, case cs_waiting st of None \<Rightarrow> [] | Some w \<Rightarrow> wait_message w) = Some f)"
proof (cases "hp_status p")
  case (Some q)
  obtain cs ics where q: "q = (cs, ics)" by (cases q)
  have "(\<exists>e \<in> set (extract_waiting_failures cs @ extract_waiting_failures ics). failure_of p e = Some f) \<longleftrightarrow>
      (\<exists>st \<in> set cs \<union> set ics. corrupt st
        \<and> failure_of p (cs_image st, case cs_waiting st of None \<Rightarrow> [] | Some w \<Rightarrow> wait_message w) = Some f)"
    unfolding Bex_def set_append Un_iff in_extract by blast
  then show ?thesis
    unfolding in_pod_failures[OF Some[unfolded q]] Bex_def Some q by blast
next
  case None
  then have "pod_failures now min_age p = []" by (simp add: pod_failures_def)
  with None show ?thesis by (metis empty_iff list.set(1) option.distinct(1))
qed

lemma failure_of_Some:
  "failure_of p (img, msg) = Some f \<longleftrightarrow>
   (\<exists>registry project. parse_image_reference img = Some (registry, f_repo f)
      \<and> dget REGISTRY_TO_PROJECT registry = Some project
      \<and> f = \<lparr>f_pod = hp_name p, f_namespace = hp_namespace p, f_image = img, f_project = project,
              f_repo = f_repo f, f_message = take 200 msg\<rparr>)"
  by (auto simp: failure_of_def split: option.splits)

text \<open>The dictionary of the repositories holds each key once, with a failure that has the key.\<close>

lemma unique_repos_inv:
  "set (unique_repos fs) \<subseteq> {(repo_key f, f) | f. f \<in> set fs} \<and> set (dkeys (unique_repos fs)) = repo_key ` set fs
   \<and> distinct (dkeys (unique_repos fs))"
proof (induction fs rule: rev_induct)
  case (snoc f fs)
  have step: "unique_repos (fs @ [f]) = (if dget (unique_repos fs) (repo_key f) = None
      then dset (repo_key f) f (unique_repos fs) else unique_repos fs)"
    by (simp add: unique_repos_def)
  show ?case
  proof (cases "dget (unique_repos fs) (repo_key f) = None")
    case True
    then have "repo_key f \<notin> set (dkeys (unique_repos fs))"
      by (simp add: dget_def dkeys_def map_of_eq_None_iff)
    with snoc True show ?thesis
      by (auto simp: step dset_new) (auto simp: dkeys_def)
  next
    case False
    then have "repo_key f \<in> set (dkeys (unique_repos fs))"
      by (simp add: dget_def dkeys_def map_of_eq_None_iff)
    with snoc False show ?thesis by (auto simp: step)
  qed
qed (auto simp: unique_repos_def dkeys_def)

lemma purge_all_trace:
  assumes "purge_all E s url fs n tr = (res, tr')"
  shows "\<exists>es. tr' = es @ tr \<and> (\<forall>e \<in> set es. \<exists>f r. f \<in> set fs \<and> e = HDelete (purge_url url (f_project f) (f_repo f)) s r)"
  using assms
proof (induction E s url fs n tr rule: purge_all.induct)
  case (2 E s url f fs purged failed tr)
  let ?u = "purge_url url (f_project f) (f_repo f)"
  obtain q tr1 where one: "purge_cached_repo E s url (f_project f) (f_repo f) tr = (q, tr1)" by fastforce
  then have tr1: "tr1 = HDelete ?u s (h_delete_r E tr ?u s) # tr" by (simp add: purge_cached_repo_def Let_def)
  show ?case
  proof (cases q)
    case (Inl e)
    with "2.prems" one tr1 show ?thesis by auto
  next
    case (Inr ok)
    with "2.prems" one have "purge_all E s url fs (if ok then (Suc purged, failed) else (purged, Suc failed)) tr1 = (res, tr')"
      by simp
    from "2.IH"[OF one[symmetric] Inr this] obtain es where es: "tr' = es @ tr1"
      "\<forall>e \<in> set es. \<exists>f r. f \<in> set fs \<and> e = HDelete (purge_url url (f_project f) (f_repo f)) s r"
      by blast
    then have "tr' = (es @ [HDelete ?u s (h_delete_r E tr ?u s)]) @ tr" using tr1 by simp
    moreover have "\<forall>e \<in> set (es @ [HDelete ?u s (h_delete_r E tr ?u s)]).
        \<exists>g r. g \<in> set (f # fs) \<and> e = HDelete (purge_url url (f_project g) (f_repo g)) s r"
      using es(2) by fastforce
    ultimately show ?thesis by blast
  qed
qed auto

definition purged_ok :: "string \<Rightarrow> hevent list \<Rightarrow> bool" where
  \<comment> \<open>Harbor confirmed that the repository of the URL is gone\<close>
  "purged_ok u tr \<longleftrightarrow> (\<exists>s resp. HDelete u s (Inr resp) \<in> set tr \<and> status_code resp \<in> {200, 404})"

lemma purge_all_result:
  assumes "purge_all E s url fs (p, k) tr = (Inr (p', k'), tr')"
  shows "p' + k' = p + k + length fs \<and> count_calls hdelete_of tr' = count_calls hdelete_of tr + length fs \<and> k \<le> k' \<and> set tr \<subseteq> set tr'
    \<and> (k' = k \<longrightarrow> (\<forall>f \<in> set fs. purged_ok (purge_url url (f_project f) (f_repo f)) tr'))"
  using assms
proof (induction fs arbitrary: p k tr)
  case (Cons f fs)
  let ?u = "purge_url url (f_project f) (f_repo f)"
  let ?r = "h_delete_r E tr ?u s"
  obtain ok where ok: "purge_cached_repo E s url (f_project f) (f_repo f) tr = (Inr ok, HDelete ?u s ?r # tr)"
    using Cons.prems by (auto simp: purge_cached_repo_def Let_def split: sum.splits http_exc.splits)
  show ?case
  proof (cases ok)
    case True
    then have "\<exists>resp. ?r = Inr resp \<and> status_code resp \<in> {200, 404}"
      using ok by (auto simp: purge_cached_repo_def Let_def split: sum.splits http_exc.splits)
    then have "purged_ok ?u tr''" if "set (HDelete ?u s ?r # tr) \<subseteq> set tr''" for tr''
      using that unfolding purged_ok_def by (metis list.set_intros(1) subsetD)
    with Cons.IH[of "Suc p" k "HDelete ?u s ?r # tr"] Cons.prems ok True show ?thesis by auto
  next
    case False
    with Cons.IH[of p "Suc k" "HDelete ?u s ?r # tr"] Cons.prems ok show ?thesis by auto
  qed
qed auto


lemma failure_purge_ok:
  assumes "f \<in> set (pod_failures now (min_pod_age_seconds c) p)" "p \<in> set ps"
    and "HNow now \<in> set h" "HListPods (Inr ps) \<in> set h" "\<not> h_dry_run c" "s_auth s = (''admin'', harbor_password c)"
  shows "purge_ok c (purge_url (harbor_url c) (f_project f) (f_repo f), s) h"
proof -
  from assms(1) obtain cs ics st where st: "old_enough now (min_pod_age_seconds c) p" "hp_status p = Some (cs, ics)"
    "st \<in> set cs \<union> set ics" "corrupt st"
    "failure_of p (cs_image st, case cs_waiting st of None \<Rightarrow> [] | Some w \<Rightarrow> wait_message w) = Some f"
    unfolding pod_failures_iff by blast
  then obtain registry where "parse_image_reference (cs_image st) = Some (registry, f_repo f)"
    "dget REGISTRY_TO_PROJECT registry = Some (f_project f)"
    by (auto simp: failure_of_def split: option.splits)
  with st assms show ?thesis unfolding purge_ok_def fst_conv snd_conv by blast
qed

lemma fetch_csrf_trace:
  "fetch_csrf_token E s url tr = (q, tr') \<Longrightarrow>
   (\<exists>u r. tr' = HGet u s r # tr) \<and> (\<forall>s'. q = Inr s' \<longrightarrow> s_auth s' = s_auth s)"
  by (auto simp: fetch_csrf_token_def Let_def split: sum.splits option.splits if_splits)

lemma each_hdelete:
  assumes "\<forall>e \<in> set es. \<exists>u s r. e = HDelete u s r \<and> Q (u, s) tr" "stable_call (\<lambda>n h. Q n (h :: hevent list))"
    and mono: "\<And>n h e. Q n h \<Longrightarrow> Q n (e # h)" and "each_call hdelete_of Q tr"
  shows "each_call hdelete_of Q (es @ tr)"
  using assms(1)
proof (induction es)
  case (Cons e es)
  have "Q n (es @ tr)" if "Q n tr" for n
    using that by (induction es) (auto intro: mono)
  with Cons show ?case by auto
qed (use assms(4) in simp)

text \<open>The ways in which a run ends.\<close>

lemma harbor_run_cases:
  assumes "harbor_run E c tr = (out, tr')"
  obtains (no_password) "harbor_password c = []" "out = ExitCode 1" "tr' = tr"
    | (no_list) e tr1 where "harbor_password c \<noteq> []" "find_pull_failures E (min_pod_age_seconds c) tr = (Inl e, tr1)"
        "out = ExitCode 1" "tr' = tr1"
    | (idle) fs where "harbor_password c \<noteq> []" "find_pull_failures E (min_pod_age_seconds c) tr = (Inr fs, tr')"
        "fs = [] \<or> h_dry_run c" "out = ExitCode 0"
    | (no_harbor) fs tr1 e where "harbor_password c \<noteq> []" "find_pull_failures E (min_pod_age_seconds c) tr = (Inr fs, tr1)"
        "fs \<noteq> []" "\<not> h_dry_run c"
        "fetch_csrf_token E (create_harbor_session (harbor_password c)) (harbor_url c) tr1 = (Inl e, tr')" "out \<noteq> ExitCode 0"
    | (purging) fs tr1 s tr2 q where "harbor_password c \<noteq> []" "find_pull_failures E (min_pod_age_seconds c) tr = (Inr fs, tr1)"
        "fs \<noteq> []" "\<not> h_dry_run c"
        "fetch_csrf_token E (create_harbor_session (harbor_password c)) (harbor_url c) tr1 = (Inr s, tr2)"
        "purge_all E s (harbor_url c) (map snd (unique_repos fs)) (0, 0) tr2 = (q, tr')"
        "out = (case q of Inl e \<Rightarrow> RaisedHttp e | Inr (p, k) \<Rightarrow> ExitCode (if 0 < k then 1 else 0))"
proof (cases "harbor_password c = []")
  case True
  with assms show thesis by (intro no_password) (auto simp: harbor_run_def)
next
  case pw: False
  obtain r tr1 where f: "find_pull_failures E (min_pod_age_seconds c) tr = (r, tr1)" by fastforce
  show thesis
  proof (cases r)
    case (Inl e)
    with assms pw f show thesis by (intro no_list[of e tr1]) (auto simp: harbor_run_def)
  next
    case (Inr fs)
    show thesis
    proof (cases "fs = [] \<or> h_dry_run c")
      case True
      with assms pw f Inr show thesis by (intro idle[of fs]) (auto simp: harbor_run_def split: if_splits)
    next
      case go: False
      obtain q tr2 where t: "fetch_csrf_token E (create_harbor_session (harbor_password c)) (harbor_url c) tr1 = (q, tr2)"
        by fastforce
      show thesis
      proof (cases q)
        case (Inl e)
        with assms pw f Inr go t show thesis
          by (intro no_harbor[of fs tr1 e]) (auto simp: harbor_run_def split: http_exc.splits)
      next
        case ok: (Inr s)
        obtain res tr3 where "purge_all E s (harbor_url c) (map snd (unique_repos fs)) (0, 0) tr2 = (res, tr3)" by fastforce
        with assms pw f Inr go t ok show thesis
          by (intro purging[of fs tr1 s tr2 res]) (auto simp: harbor_run_def split: sum.splits prod.splits)
      qed
    qed
  qed
qed

lemma stable_purge_ok: "stable_call (purge_ok c)"
  unfolding stable_call_def purge_ok_def set_append by blast

lemma purge_ok_Cons: "purge_ok c n h \<Longrightarrow> purge_ok c n (e # h)"
  unfolding purge_ok_def by (meson list.set_intros(2))

lemma find_pull_failures_Inr:
  assumes "find_pull_failures E min_age tr = (Inr fs, tr')"
  obtains ps where "h_list_r E (HNow (h_now_r E tr) # tr) = Inr ps"
    "tr' = HListPods (Inr ps) # HNow (h_now_r E tr) # tr"
    "fs = concat (map (pod_failures (h_now_r E tr) min_age) ps)"
  using assms by (auto simp: find_pull_failures_def Let_def split: sum.splits)

lemma snd_unique_repos: "set (map snd (unique_repos fs)) \<subseteq> set fs"
  using unique_repos_inv[of fs] by auto

section \<open>A run to evaluate\<close>

text \<open>Two pods fail on the same corrupt image, one of them also on an image of an unknown registry.\<close>

definition stuck :: "string \<Rightarrow> ContainerStatus" where
  "stuck img = \<lparr>cs_image = img,
     cs_waiting = Some \<lparr>wait_reason = ''ErrImagePull'', wait_message = ''x: failed precondition''\<rparr>\<rparr>"

definition ex_henv :: henv where
  "ex_henv =
     \<lparr>h_list_r = (\<lambda>tr. Inr
        [\<lparr>hp_name = ''a'', hp_namespace = ''n'', hp_creation = Some 0, hp_status = Some ([stuck ''g/alloy:1''], [])\<rparr>,
         \<lparr>hp_name = ''b'', hp_namespace = ''n'', hp_creation = Some 0,
          hp_status = Some ([stuck ''g/alloy:2'', stuck ''x.io/y''], [])\<rparr>]),
      h_now_r = (\<lambda>tr. 300000000),
      h_get_r = (\<lambda>tr u s. Inr \<lparr>status_code = 200, csrf_header = Some ''t''\<rparr>),
      h_delete_r = (\<lambda>tr u s. Inr \<lparr>status_code = 404, csrf_header = None\<rparr>)\<rparr>"

definition ex_hcfg :: HConfig where
  "ex_hcfg = \<lparr>harbor_url = ''h'', harbor_password = ''pw'', min_pod_age_seconds = 120, h_dry_run = False\<rparr>"

section \<open>Properties\<close>

text \<open>An image reference with a known registry host is parsed to that host and the repository
  path, whatever tag and digest follow; a reference whose first component has no dot or colon is a
  Docker Hub path, and a bare name is one under \<open>library/\<close>.\<close>

theorem parse_image_reference_roundtrip:
  assumes "tag_part tg" "digest_part dg" "set path \<inter> {CHR '':'', CHR ''@''} = {}"
  shows "(dget REGISTRY_TO_PROJECT registry \<noteq> None \<longrightarrow>
            parse_image_reference (registry @ ''/'' @ path @ tg @ dg) = Some (registry, path))
    \<and> (set user \<inter> {CHR ''.'', CHR '':'', CHR ''@'', CHR ''/''} = {} \<longrightarrow>
            parse_image_reference (user @ ''/'' @ path @ tg @ dg) = Some (''docker.io'', user @ ''/'' @ path))
    \<and> (CHR ''/'' \<notin> set path \<longrightarrow> parse_image_reference (path @ tg @ dg) = Some (''docker.io'', ''library/'' @ path))"
proof -
  have docker: "dget REGISTRY_TO_PROJECT ''docker.io'' \<noteq> None" unfolding registry_keys by simp
  have strip: "strip_tag (takeWhile (\<lambda>x. x \<noteq> CHR ''@'') (p @ ''/'' @ path @ tg @ dg)) = p @ ''/'' @ path"
    if "set p \<inter> {CHR '':'', CHR ''@''} = {}" for p
    using strip_reference[of "p @ ''/'' @ path" tg dg] assms that by auto
  have "parse_image_reference (registry @ ''/'' @ path @ tg @ dg) = Some (registry, path)"
    if r: "dget REGISTRY_TO_PROJECT registry \<noteq> None"
  proof -
    have "CHR ''.'' \<in> set registry" "CHR ''/'' \<notin> set registry" "set registry \<inter> {CHR '':'', CHR ''@''} = {}"
      using registry_chars[OF r] by auto
    with r strip[of registry] show ?thesis by (simp add: parse_image_reference_def Let_def)
  qed
  moreover have "parse_image_reference (user @ ''/'' @ path @ tg @ dg) = Some (''docker.io'', user @ ''/'' @ path)"
    if u: "set user \<inter> {CHR ''.'', CHR '':'', CHR ''@'', CHR ''/''} = {}"
  proof -
    have "CHR ''.'' \<notin> set user" "CHR '':'' \<notin> set user" "CHR ''/'' \<notin> set user" "set user \<inter> {CHR '':'', CHR ''@''} = {}"
      using u by auto
    with docker strip[of user] show ?thesis by (simp add: parse_image_reference_def Let_def)
  qed
  moreover have "parse_image_reference (path @ tg @ dg) = Some (''docker.io'', ''library/'' @ path)" if "CHR ''/'' \<notin> set path"
    using strip_reference[OF assms(3,1,2)] docker that by (simp add: parse_image_reference_def Let_def)
  ultimately show ?thesis by blast
qed

theorem parse_image_reference_roundtrip_witness:
  "parse_image_reference ''ghcr.io/actions/runner:latest@sha256:ab'' = Some (''ghcr.io'', ''actions/runner'')
   \<and> parse_image_reference ''grafana/alloy:v1.14.0'' = Some (''docker.io'', ''grafana/alloy'')"
proof -
  have "dget REGISTRY_TO_PROJECT ''ghcr.io'' \<noteq> None" unfolding registry_keys by simp
  then show ?thesis
    using parse_image_reference_roundtrip[of "'':latest''" "''@sha256:ab''" "''actions/runner''" "''ghcr.io''" "[]"]
      parse_image_reference_roundtrip[of "'':v1.14.0''" "[]" "''alloy''" "[]" "''grafana''"]
    by (simp add: tag_part_def digest_part_def)
qed

text \<open>C13: Every repository that a run purges is the repository of an image of a known registry, on which
  a container of a listed, old enough pod is stuck with a cache corruption message; the request carries
  the administrator's credentials, and nothing is purged in a dry run.\<close>

theorem harbor_purges_justified:
  assumes "harbor_run E c [] = (out, tr)"
  shows "each_call hdelete_of (purge_ok c) tr"
  using assms
proof (cases rule: harbor_run_cases)
  case (no_list e tr1)
  then show ?thesis by (auto simp: find_pull_failures_def Let_def)
next
  case (idle fs)
  then show ?thesis by (auto simp: find_pull_failures_def Let_def)
next
  case (no_harbor fs tr1 e)
  then show ?thesis using fetch_csrf_trace[OF no_harbor(5)] by (auto simp: find_pull_failures_def Let_def)
next
  case (purging fs tr1 s tr2 q)
  obtain ps where ps: "tr1 = [HListPods (Inr ps), HNow (h_now_r E [])]"
    "fs = concat (map (pod_failures (h_now_r E []) (min_pod_age_seconds c)) ps)"
    using find_pull_failures_Inr[OF purging(2)] by metis
  obtain u r where tr2: "tr2 = HGet u (create_harbor_session (harbor_password c)) r # tr1"
    and auth: "s_auth s = (''admin'', harbor_password c)"
    using fetch_csrf_trace[OF purging(5)] by (auto simp: create_harbor_session_def fetch_csrf_token_def Let_def)
  obtain es where es: "tr = es @ tr2" "\<forall>e \<in> set es. \<exists>f r. f \<in> set (map snd (unique_repos fs))
      \<and> e = HDelete (purge_url (harbor_url c) (f_project f) (f_repo f)) s r"
    using purge_all_trace[OF purging(6)] by blast
  have ok: "purge_ok c (purge_url (harbor_url c) (f_project f) (f_repo f), s) tr2" if "f \<in> set fs" for f
    using that ps auth purging(4) failure_purge_ok[of f "h_now_r E []" c _ ps tr2 s] tr2 by auto
  have "each_call hdelete_of (purge_ok c) (es @ tr2)"
  proof (rule each_hdelete)
    show "\<forall>e \<in> set es. \<exists>u s r. e = HDelete u s r \<and> purge_ok c (u, s) tr2"
      using es(2) ok snd_unique_repos[of fs] by blast
    show "each_call hdelete_of (purge_ok c) tr2" using tr2 ps by simp
  qed (simp_all add: stable_purge_ok purge_ok_Cons)
  with es(1) show ?thesis by simp
qed simp

theorem harbor_purges_justified_witness:
  "each_call hdelete_of (purge_ok ex_hcfg) (snd (harbor_run ex_henv ex_hcfg []))
   \<and> map fst (List.map_filter hdelete_of (snd (harbor_run ex_henv ex_hcfg [])))
       = [''h/api/v2.0/projects/dockerhub-cache/repositories/g%252Falloy'']"
proof (rule conjI)
  show "map fst (List.map_filter hdelete_of (snd (harbor_run ex_henv ex_hcfg [])))
       = [''h/api/v2.0/projects/dockerhub-cache/repositories/g%252Falloy'']" by code_simp
qed (rule harbor_purges_justified[OF surjective_pairing])

text \<open>Each corrupt repository is purged by one request, however many containers fail on it; and if the
  run is not dry and ends with exit code 0, Harbor has confirmed for every failure found that its
  repository is gone.\<close>

theorem harbor_success_complete:
  assumes "harbor_run E c [] = (ExitCode 0, tr)" and "\<not> h_dry_run c"
    and "find_pull_failures E (min_pod_age_seconds c) [] = (Inr fs, h)"
  shows "(\<forall>f \<in> set fs. \<exists>g \<in> set fs. repo_key g = repo_key f \<and> purged_ok (purge_url (harbor_url c) (f_project g) (f_repo g)) tr)
    \<and> count_calls hdelete_of tr = card (repo_key ` set fs)"
  using assms(1)
proof (cases rule: harbor_run_cases)
  case (idle fs')
  with assms(2,3) show ?thesis by (auto simp: find_pull_failures_def Let_def)
next
  case (purging fs' tr1 s tr2 q)
  have fs: "fs' = fs" "tr1 = h" using purging(2) assms(3) by auto
  obtain p k where q: "q = Inr (p, k)" "k = 0" using purging(7) by (cases q) (auto split: if_splits)
  note inv = unique_repos_inv[of fs]
  have gone: "\<forall>f \<in> set (map snd (unique_repos fs)). purged_ok (purge_url (harbor_url c) (f_project f) (f_repo f)) tr"
    using purge_all_result[OF purging(6)[unfolded q fs]] q(2) by simp
  have "\<exists>g \<in> set (map snd (unique_repos fs)). repo_key g = repo_key f" if "f \<in> set fs" for f
  proof -
    have "repo_key f \<in> set (dkeys (unique_repos fs))" using inv that by blast
    then obtain v where v: "(repo_key f, v) \<in> set (unique_repos fs)" by (auto simp: dkeys_def)
    then have "(repo_key f, v) \<in> {(repo_key f, f) | f. f \<in> set fs}" using inv by (meson subsetD)
    then have "repo_key v = repo_key f" by simp
    moreover have "v \<in> set (map snd (unique_repos fs))" using v by force
    ultimately show ?thesis by blast
  qed
  with gone snd_unique_repos[of fs] have "\<forall>f \<in> set fs. \<exists>g \<in> set fs. repo_key g = repo_key f
      \<and> purged_ok (purge_url (harbor_url c) (f_project g) (f_repo g)) tr" by blast
  moreover have "count_calls hdelete_of tr = card (repo_key ` set fs)"
  proof -
    have "count_calls hdelete_of tr2 = 0"
      using fetch_csrf_trace[OF purging(5)] purging(2) by (auto simp: find_pull_failures_def Let_def)
    then have "count_calls hdelete_of tr = length (unique_repos fs)"
      using purge_all_result[OF purging(6)[unfolded q fs]] by simp
    also have "\<dots> = card (set (dkeys (unique_repos fs)))"
      using inv by (metis distinct_card dkeys_def length_map)
    finally show ?thesis using inv by simp
  qed
  ultimately show ?thesis by blast
qed auto

theorem harbor_success_complete_witness:
  "count_calls hdelete_of (snd (harbor_run ex_henv ex_hcfg [])) = 1"
proof -
  obtain fs h where f: "find_pull_failures ex_henv (min_pod_age_seconds ex_hcfg) [] = (Inr fs, h)"
    and keys: "repo_key ` set fs = {''dockerhub-cache/g/alloy''}"
  proof -
    have "\<not> isl (fst (find_pull_failures ex_henv (min_pod_age_seconds ex_hcfg) []))
        \<and> map repo_key (projr (fst (find_pull_failures ex_henv (min_pod_age_seconds ex_hcfg) [])))
          = [''dockerhub-cache/g/alloy'', ''dockerhub-cache/g/alloy'']" by code_simp
    then show thesis
      by (intro that[of "projr (fst (find_pull_failures ex_henv (min_pod_age_seconds ex_hcfg) []))"
            "snd (find_pull_failures ex_henv (min_pod_age_seconds ex_hcfg) [])"])
         (auto simp: prod_eq_iff simp flip: list.set_map)
  qed
  have "fst (harbor_run ex_henv ex_hcfg []) = ExitCode 0" by code_simp
  then have "harbor_run ex_henv ex_hcfg [] = (ExitCode 0, snd (harbor_run ex_henv ex_hcfg []))" by (simp add: prod_eq_iff)
  from harbor_success_complete[OF this _ f] show ?thesis by (simp add: keys ex_hcfg_def)
qed

end
