(* ===== verification/Taint_Remover.thy ===== *)
theory Taint_Remover
  imports Kube
begin

section \<open>Node taint remover (\<open>taint_remover.py\<close>)\<close>

text \<open>
  A pod removes one startup taint from its own node and retries as long as the errors are transient. One
  pass of the \<open>while True\<close> loop is \<open>attempt_once\<close>; the loop takes fuel, and \<open>None\<close> is a
  loop that has not ended after that many passes. Environment variables are a function, the token file and the
  API server an environment that sees the events so far, newest first.
\<close>

subsection \<open>Exceptions and requests\<close>

datatype rexc =
    OSFailure \<comment> \<open>\<open>URLError\<close>, \<open>TimeoutError\<close>, \<open>ConnectionError\<close> and every other \<open>OSError\<close>\<close>
  | Transient int
  | Permanent int
  | RuntimeError
  | OtherFailure

datatype patch_op = TestKey nat string | RemoveTaint nat

text \<open>
  The body of a 200 answer is parsed as JSON; what is read of the node are the keys of its taints,
  \<open>None\<close> for a taint without key. A body that is no node makes the parser or a lookup raise.
\<close>

type_synonym taint_keys = "string option list"

datatype revent =
    RToken "rexc + string"
  | RGet string string "rexc + int \<times> (rexc + taint_keys)" \<comment> \<open>URL and token\<close>
  | RPatch string string "patch_op list" "rexc + int"
  | RSleep nat

record renv =
  r_environ :: "string \<Rightarrow> string option"
  r_token_r :: "revent list \<Rightarrow> rexc + string" \<comment> \<open>\<open>_read_token\<close>: a missing file is a \<open>RuntimeError\<close>\<close>
  r_get_r :: "revent list \<Rightarrow> string \<Rightarrow> string \<Rightarrow> rexc + int \<times> (rexc + taint_keys)"
  r_patch_r :: "revent list \<Rightarrow> string \<Rightarrow> string \<Rightarrow> patch_op list \<Rightarrow> rexc + int"

subsection \<open>URLs\<close>

definition BACKOFF_SCHEDULE :: "nat list" where "BACKOFF_SCHEDULE = [5, 10, 30]"

definition k8s_api :: "(string \<Rightarrow> string option) \<Rightarrow> rexc + string" where
  "k8s_api environ =
     (case environ ''KUBERNETES_SERVICE_HOST'' of
        None \<Rightarrow> Inl RuntimeError
      | Some host \<Rightarrow>
          (if host = [] then Inl RuntimeError
           else
             (let port = (case environ ''KUBERNETES_SERVICE_PORT'' of None \<Rightarrow> ''443'' | Some p \<Rightarrow> p);
                  host' = (if CHR '':'' \<in> set host \<and> \<not> startswith host ''['' then ''['' @ host @ '']'' else host) in
              Inr (''https://'' @ host' @ '':'' @ port))))"

definition node_name :: "(string \<Rightarrow> string option) \<Rightarrow> rexc + string" where
  "node_name environ =
     (case environ ''NODE_NAME'' of
        None \<Rightarrow> Inl RuntimeError
      | Some n \<Rightarrow> (if n = [] then Inl RuntimeError else Inr n))"

definition node_url :: "(string \<Rightarrow> string option) \<Rightarrow> rexc + string" where
  "node_url environ =
     (case k8s_api environ of
        Inl e \<Rightarrow> Inl e
      | Inr api \<Rightarrow> (case node_name environ of Inl e \<Rightarrow> Inl e | Inr n \<Rightarrow> Inr (api @ ''/api/v1/nodes/'' @ n)))"

subsection \<open>Reading and patching the node\<close>

definition get_own_node :: "renv \<Rightarrow> string \<Rightarrow> revent list \<Rightarrow> (rexc + taint_keys) \<times> revent list" where
  \<comment> \<open>\<open>_get_node\<close>\<close>
  "get_own_node E token tr =
     (case node_url (r_environ E) of
        Inl e \<Rightarrow> (Inl e, tr)
      | Inr url \<Rightarrow>
          (let r = r_get_r E tr url token in
           ((case r of
               Inl e \<Rightarrow> Inl e
             | Inr (status, body) \<Rightarrow>
                 (if status = 200 then body
                  else if 500 \<le> status \<and> status < 600 \<or> status = 429 then Inl (Transient status)
                  else Inl (Permanent status))),
            RGet url token r # tr)))"

fun find_taint_index :: "taint_keys \<Rightarrow> string \<Rightarrow> nat option" where
  "find_taint_index [] key = None"
| "find_taint_index (t # ts) key = (if t = Some key then Some 0 else map_option Suc (find_taint_index ts key))"

definition remove_ops :: "nat \<Rightarrow> string \<Rightarrow> patch_op list" where
  "remove_ops index key = [TestKey index key, RemoveTaint index]"

definition patch_remove_taint :: "renv \<Rightarrow> string \<Rightarrow> nat \<Rightarrow> string \<Rightarrow> revent list \<Rightarrow> (rexc + int) \<times> revent list" where
  "patch_remove_taint E token index key tr =
     (case node_url (r_environ E) of
        Inl e \<Rightarrow> (Inl e, tr)
      | Inr url \<Rightarrow>
          (let r = r_patch_r E tr url token (remove_ops index key) in
           (r, RPatch url token (remove_ops index key) r # tr)))"

definition next_backoff :: "nat \<Rightarrow> nat" where
  "next_backoff attempt = BACKOFF_SCHEDULE ! min attempt (length BACKOFF_SCHEDULE - 1)"

subsection \<open>The loop\<close>

datatype pass = Returned | RaisedExc rexc | Again nat \<comment> \<open>the next value of \<open>attempt\<close>\<close>

definition caught :: "rexc \<Rightarrow> bool" where
  \<comment> \<open>the first two \<open>except\<close> clauses; the others raise again\<close>
  "caught e = (case e of OSFailure \<Rightarrow> True | Transient _ \<Rightarrow> True | _ \<Rightarrow> False)"

definition back_off :: "nat \<Rightarrow> revent list \<Rightarrow> pass \<times> revent list" where
  "back_off attempt tr = (Again (Suc attempt), RSleep (next_backoff attempt) # tr)"

definition attempt_once :: "renv \<Rightarrow> string \<Rightarrow> nat \<Rightarrow> revent list \<Rightarrow> pass \<times> revent list" where
  "attempt_once E key attempt tr =
     (let t = r_token_r E tr; tr0 = RToken t # tr in
      case t of
        Inl e \<Rightarrow> (RaisedExc e, tr0)
      | Inr token \<Rightarrow>
          (case get_own_node E token tr0 of
             (Inl e, tr1) \<Rightarrow> (if caught e then back_off attempt tr1 else (RaisedExc e, tr1))
           | (Inr ts, tr1) \<Rightarrow>
               (case find_taint_index ts key of
                  None \<Rightarrow> (Returned, tr1)
                | Some index \<Rightarrow>
                    (case patch_remove_taint E token index key tr1 of
                       (Inl e, tr2) \<Rightarrow> (if caught e then back_off attempt tr2 else (RaisedExc e, tr2))
                     | (Inr status, tr2) \<Rightarrow>
                         (if status = 200 then (Returned, tr2)
                          else if status = 409 \<or> status = 422 then (Again 0, tr2)
                          else if status = 401 then (Again 0, tr2)
                          else if 500 \<le> status \<and> status < 600 then back_off attempt tr2
                          else if 400 \<le> status \<and> status < 500 then (RaisedExc (Permanent status), tr2)
                          else back_off attempt tr2)))))"

fun remove_taint_loop :: "nat \<Rightarrow> renv \<Rightarrow> string \<Rightarrow> nat \<Rightarrow> revent list \<Rightarrow> (rexc + unit) option \<times> revent list" where
  "remove_taint_loop 0 E key attempt tr = (None, tr)"
| "remove_taint_loop (Suc fuel) E key attempt tr =
     (case attempt_once E key attempt tr of
        (Returned, tr') \<Rightarrow> (Some (Inr ()), tr')
      | (RaisedExc e, tr') \<Rightarrow> (Some (Inl e), tr')
      | (Again attempt', tr') \<Rightarrow> remove_taint_loop fuel E key attempt' tr')"

definition remove_taint_forever :: "nat \<Rightarrow> renv \<Rightarrow> string \<Rightarrow> revent list \<Rightarrow> (rexc + unit) option \<times> revent list" where
  "remove_taint_forever fuel E key tr = remove_taint_loop fuel E key 0 tr"

definition remover_main :: "nat \<Rightarrow> renv \<Rightarrow> string list \<Rightarrow> revent list \<Rightarrow> (rexc + int) option \<times> revent list" where
  "remover_main fuel E argv tr =
     (if length argv \<noteq> 2 \<or> strip (argv ! 1) = [] then (Some (Inr 1), tr)
      else case remove_taint_forever fuel E (strip (argv ! 1)) tr of
          (None, tr') \<Rightarrow> (None, tr')
        | (Some (Inr u), tr') \<Rightarrow> (Some (Inr 0), tr')
        | (Some (Inl e), tr') \<Rightarrow>
            (case e of
               Permanent _ \<Rightarrow> (Some (Inr 1), tr')
             | RuntimeError \<Rightarrow> (Some (Inr 1), tr')
             | _ \<Rightarrow> (Some (Inl e), tr')))"

end
