(* ===== verification/Taint_Remover_Properties.thy ===== *)
theory Taint_Remover_Properties
  imports Taint_Remover
begin

text \<open>
  Every patch of the remover is the test-and-remove pair for the first taint with the key in the node it has
  just read; the loop ends once the API server recovers, whatever transient answers it gave before; and
  a patch that the server accepts removes one taint with the key and no other, even when the taints
  have changed since the read.
\<close>

section \<open>Finding the taint\<close>

lemma find_taint_index_None: "find_taint_index ts key = None \<longleftrightarrow> Some key \<notin> set ts"
  by (induction ts) auto

lemma find_taint_index_Some:
  "find_taint_index ts key = Some i \<Longrightarrow>
   i < length ts \<and> ts ! i = Some key \<and> (\<forall>j < i. ts ! j \<noteq> Some key)"
proof (induction ts arbitrary: i)
  case (Cons t ts)
  then show ?case by (auto split: if_splits simp: nth_Cons' less_Suc_eq_0_disj)
qed simp

section \<open>One pass\<close>

fun rpatch_of :: "revent \<Rightarrow> patch_op list option" where
  "rpatch_of (RPatch url token ops r) = Some ops"
| "rpatch_of _ = None"

fun rcall_of :: "revent \<Rightarrow> unit option" where
  "rcall_of (RGet url token r) = Some ()"
| "rcall_of (RPatch url token ops r) = Some ()"
| "rcall_of _ = None"

definition patch_ok :: "string \<Rightarrow> patch_op list \<Rightarrow> revent list \<Rightarrow> bool" where
  \<comment> \<open>the event before is the read of the node, and the pair tests and removes its first taint with the key\<close>
  "patch_ok key ops h \<longleftrightarrow>
     (\<exists>url token ts i h'. h = RGet url token (Inr (200, Inr ts)) # h' \<and> i < length ts \<and> ts ! i = Some key
        \<and> (\<forall>j < i. ts ! j \<noteq> Some key) \<and> ops = [TestKey i key, RemoveTaint i])"

definition finished_by :: "string \<Rightarrow> revent list \<Rightarrow> bool" where
  \<comment> \<open>the last answer says that the taint is absent or that its removal was accepted\<close>
  "finished_by key tr \<longleftrightarrow>
     (\<exists>url token ts h. tr = RGet url token (Inr (200, Inr ts)) # h \<and> Some key \<notin> set ts)
     \<or> (\<exists>url token ops h. tr = RPatch url token ops (Inr 200) # h)"

lemma next_backoff_in: "next_backoff a \<in> {5, 10, 30}"
  by (auto simp: next_backoff_def BACKOFF_SCHEDULE_def min_def nth_Cons' numeral_2_eq_2)

lemma get_own_node_trace:
  assumes "get_own_node E token tr = (q, tr1)"
  shows "tr1 = tr \<and> (\<exists>e. q = Inl e)
    \<or> (\<exists>url r. tr1 = RGet url token r # tr \<and> (\<forall>ts. q = Inr ts \<longrightarrow> r = Inr (200, Inr ts)))"
  using assms by (auto simp: get_own_node_def Let_def split: sum.splits prod.splits if_splits)

lemma patch_trace:
  assumes "patch_remove_taint E token i key tr = (q, tr1)"
  shows "tr1 = tr \<and> (\<exists>e. q = Inl e) \<or> (\<exists>url. tr1 = RPatch url token (remove_ops i key) q # tr)"
  using assms by (auto simp: patch_remove_taint_def Let_def split: sum.splits)

definition sleeps_ok :: "revent list \<Rightarrow> bool" where
  "sleeps_ok tr \<longleftrightarrow> (\<forall>s. RSleep s \<in> set tr \<longrightarrow> s \<in> {5, 10, 30})"

definition trace_ok :: "string \<Rightarrow> revent list \<Rightarrow> bool" where
  "trace_ok key tr \<longleftrightarrow> each_call rpatch_of (patch_ok key) tr \<and> sleeps_ok tr"

lemma trace_ok_Cons:
  "trace_ok key tr \<Longrightarrow> trace_ok key (RToken t # tr)"
  "trace_ok key tr \<Longrightarrow> trace_ok key (RGet url token r # tr)"
  "trace_ok key tr \<Longrightarrow> trace_ok key (RSleep (next_backoff a) # tr)"
  "trace_ok key tr \<Longrightarrow> patch_ok key ops tr \<Longrightarrow> trace_ok key (RPatch url token ops q # tr)"
  using next_backoff_in[of a] by (auto simp: trace_ok_def sleeps_ok_def)

lemma back_off_ok:
  assumes "back_off a tr = (p, tr')" "trace_ok key tr"
  shows "trace_ok key tr' \<and> p \<noteq> Returned \<and> tr' \<noteq> []"
  using assms trace_ok_Cons(3)[OF assms(2), of a] by (auto simp: back_off_def)

text \<open>One pass keeps the trace in order, and returns only with the answer that says so.\<close>

lemma attempt_once_ok:
  assumes "attempt_once E key a tr = (p, tr')" "trace_ok key tr"
  shows "trace_ok key tr' \<and> (p = Returned \<longrightarrow> finished_by key tr')"
proof (cases "r_token_r E tr")
  case (Inl e)
  with assms trace_ok_Cons(1)[OF assms(2)] show ?thesis by (auto simp: attempt_once_def Let_def)
next
  case (Inr token)
  let ?tr0 = "RToken (Inr token) # tr"
  have ok0: "trace_ok key ?tr0" by (rule trace_ok_Cons(1)[OF assms(2)])
  obtain q tr1 where g: "get_own_node E token ?tr0 = (q, tr1)" by fastforce
  have ok1: "trace_ok key tr1" using get_own_node_trace[OF g] ok0 trace_ok_Cons(2) by blast
  show ?thesis
  proof (cases q)
    case (Inl e)
    with assms(1) Inr g back_off_ok[OF _ ok1] ok1 show ?thesis
      by (auto simp: attempt_once_def Let_def split: if_splits)
  next
    case (Inr ts)
    then obtain url where tr1: "tr1 = RGet url token (Inr (200, Inr ts)) # ?tr0"
      using get_own_node_trace[OF g] by blast
    show ?thesis
    proof (cases "find_taint_index ts key")
      case None
      then have "finished_by key tr1" using tr1 by (auto simp: finished_by_def find_taint_index_None)
      with assms(1) \<open>r_token_r E tr = Inr token\<close> g Inr None ok1 show ?thesis
        by (auto simp: attempt_once_def Let_def)
    next
      case (Some i)
      obtain w tr2 where p: "patch_remove_taint E token i key tr1 = (w, tr2)" by fastforce
      have "patch_ok key (remove_ops i key) tr1"
        using find_taint_index_Some[OF Some] tr1 by (auto simp: patch_ok_def remove_ops_def)
      then have ok2: "trace_ok key tr2" using patch_trace[OF p] ok1 trace_ok_Cons(4) by blast
      have fin: "finished_by key tr2" if "w = Inr 200" using patch_trace[OF p] that by (auto simp: finished_by_def)
      note eqs = assms(1) \<open>r_token_r E tr = Inr token\<close> g Inr Some p
      show ?thesis
      proof (cases w)
        case (Inl e)
        with eqs ok2 back_off_ok[OF _ ok2] show ?thesis by (auto simp: attempt_once_def Let_def split: if_splits)
      next
        case (Inr status)
        with eqs ok2 back_off_ok[OF _ ok2] fin show ?thesis by (auto simp: attempt_once_def Let_def split: if_splits)
      qed
    qed
  qed
qed

lemma remove_taint_loop_ok:
  "remove_taint_loop fuel E key a tr = (r, tr') \<Longrightarrow> trace_ok key tr
   \<Longrightarrow> trace_ok key tr' \<and> (r = Some (Inr ()) \<longrightarrow> finished_by key tr')"
proof (induction fuel E key a tr rule: remove_taint_loop.induct)
  case (2 fuel E key a tr)
  obtain p tr1 where one: "attempt_once E key a tr = (p, tr1)" by fastforce
  from attempt_once_ok[OF one "2.prems"(2)] have ok: "trace_ok key tr1" "p = Returned \<longrightarrow> finished_by key tr1" by auto
  show ?case
  proof (cases p)
    case (Again a')
    with "2.IH"[OF one[symmetric] Again] "2.prems"(1) one ok show ?thesis by simp
  qed (use "2.prems"(1) one ok in auto)
qed simp

section \<open>Recovery\<close>

definition transient_get :: "rexc + int \<times> (rexc + taint_keys) \<Rightarrow> bool" where
  "transient_get r \<longleftrightarrow> r = Inl OSFailure \<or> (\<exists>st body. r = Inr (st, body) \<and> (500 \<le> st \<and> st < 600 \<or> st = 429))"

definition good_get :: "rexc + int \<times> (rexc + taint_keys) \<Rightarrow> bool" where
  "good_get r \<longleftrightarrow> (\<exists>ts. r = Inr (200, Inr ts))"

definition transient_patch :: "rexc + int \<Rightarrow> bool" where
  "transient_patch r \<longleftrightarrow> r = Inl OSFailure \<or> (\<exists>st. r = Inr st \<and> (500 \<le> st \<and> st < 600 \<or> st \<in> {401, 409, 422}))"

definition recovers :: "nat \<Rightarrow> renv \<Rightarrow> bool" where
  \<comment> \<open>the token can be read, every failure is transient, and after \<open>n\<close> calls the server answers\<close>
  "recovers n E \<longleftrightarrow>
     (\<forall>tr. \<exists>t. r_token_r E tr = Inr t) \<and> (\<exists>url. node_url (r_environ E) = Inr url)
     \<and> (\<forall>tr url t. let r = r_get_r E tr url t in good_get r \<or> transient_get r \<and> count_calls rcall_of tr < n)
     \<and> (\<forall>tr url t ops. let r = r_patch_r E tr url t ops in r = Inr 200 \<or> transient_patch r \<and> count_calls rcall_of tr < n)"

lemma back_off_Again: "back_off a tr = (Again (Suc a), RSleep (next_backoff a) # tr)"
  by (simp add: back_off_def)

text \<open>A pass under such a server ends the loop, or a call before the recovery has been spent.\<close>

lemma attempt_once_recovers:
  assumes "recovers n E" "attempt_once E key a tr = (p, tr')"
  shows "p = Returned \<or> (\<exists>a'. p = Again a') \<and> count_calls rcall_of tr < n \<and> count_calls rcall_of tr < count_calls rcall_of tr'"
proof -
  obtain t url where t: "r_token_r E tr = Inr t" and url: "node_url (r_environ E) = Inr url"
    using assms(1) unfolding recovers_def by blast
  let ?tr0 = "RToken (Inr t) # tr"
  let ?r = "r_get_r E ?tr0 url t"
  let ?tr1 = "RGet url t ?r # ?tr0"
  have get: "good_get ?r \<or> transient_get ?r \<and> count_calls rcall_of ?tr0 < n"
    using assms(1) unfolding recovers_def Let_def by blast
  show ?thesis
  proof (cases "good_get ?r")
    case False
    with get have "get_own_node E t ?tr0 = (Inl OSFailure, ?tr1) \<or> (\<exists>st. get_own_node E t ?tr0 = (Inl (Transient st), ?tr1))"
      by (auto simp: get_own_node_def url transient_get_def Let_def)
    with assms(2) t False get show ?thesis
      by (auto simp: attempt_once_def Let_def caught_def back_off_Again)
  next
    case True
    then obtain ts where ts: "?r = Inr (200, Inr ts)" unfolding good_get_def by blast
    then have g: "get_own_node E t ?tr0 = (Inr ts, ?tr1)" by (simp add: get_own_node_def url Let_def)
    show ?thesis
    proof (cases "find_taint_index ts key")
      case None
      with assms(2) t g show ?thesis by (auto simp: attempt_once_def Let_def)
    next
      case (Some i)
      let ?w = "r_patch_r E ?tr1 url t (remove_ops i key)"
      have p: "patch_remove_taint E t i key ?tr1 = (?w, RPatch url t (remove_ops i key) ?w # ?tr1)"
        by (simp add: patch_remove_taint_def url Let_def)
      have "?w = Inr 200 \<or> transient_patch ?w \<and> count_calls rcall_of ?tr1 < n"
        using assms(1) unfolding recovers_def Let_def by blast
      then consider "?w = Inr 200" | "?w = Inl OSFailure" "count_calls rcall_of ?tr1 < n"
        | st where "?w = Inr st" "500 \<le> st \<and> st < 600 \<or> st \<in> {401, 409, 422}" "count_calls rcall_of ?tr1 < n"
        unfolding transient_patch_def by blast
      then show ?thesis
      proof cases
        case 1
        with assms(2) t g Some p show ?thesis by (simp add: attempt_once_def Let_def)
      next
        case 2
        with assms(2) t g Some p show ?thesis by (auto simp: attempt_once_def Let_def caught_def back_off_Again)
      next
        case 3
        with assms(2) t g Some p show ?thesis by (auto simp: attempt_once_def Let_def back_off_Again split: if_splits)
      qed
    qed
  qed
qed

lemma remove_taint_loop_recovers:
  assumes "recovers n E"
  shows "n - count_calls rcall_of tr < fuel \<Longrightarrow> \<exists>tr'. remove_taint_loop fuel E key a tr = (Some (Inr ()), tr')"
proof (induction fuel arbitrary: a tr)
  case (Suc fuel)
  obtain p tr1 where one: "attempt_once E key a tr = (p, tr1)" by fastforce
  from attempt_once_recovers[OF assms one] show ?case
  proof (elim disjE conjE exE)
    fix a' assume "p = Again a'" "count_calls rcall_of tr < n" "count_calls rcall_of tr < count_calls rcall_of tr1"
    with Suc.IH[of tr1 a'] Suc.prems one show ?thesis by simp
  qed (use one in simp)
qed simp

section \<open>The patch at the server\<close>

text \<open>
  What RFC 6902 says of the two operations on a list of taints, with \<open>key_of\<close> the key of a taint; the
  whole patch is refused when one operation fails.
\<close>

definition json_patch :: "('t \<Rightarrow> string option) \<Rightarrow> (patch_op list \<Rightarrow> 't list \<Rightarrow> 't list option) \<Rightarrow> bool" where
  "json_patch key_of app \<longleftrightarrow>
     (\<forall>ts. app [] ts = Some ts)
     \<and> (\<forall>i k ops ts. app (TestKey i k # ops) ts = (if i < length ts \<and> key_of (ts ! i) = Some k then app ops ts else None))
     \<and> (\<forall>i ops ts. app (RemoveTaint i # ops) ts = (if i < length ts then app ops (take i ts @ drop (Suc i) ts) else None))"

fun ex_apply :: "patch_op list \<Rightarrow> string option list \<Rightarrow> string option list option" where
  "ex_apply [] ts = Some ts"
| "ex_apply (TestKey i k # ops) ts = (if i < length ts \<and> ts ! i = Some k then ex_apply ops ts else None)"
| "ex_apply (RemoveTaint i # ops) ts = (if i < length ts then ex_apply ops (take i ts @ drop (Suc i) ts) else None)"

section \<open>A server to evaluate\<close>

text \<open>The first two calls fail, the third is a conflict, then all is well.\<close>

definition ex_renv :: renv where
  "ex_renv =
     \<lparr>r_environ = (\<lambda>k. if k = ''KUBERNETES_SERVICE_HOST'' then Some ''fd00::1'' else if k = ''NODE_NAME'' then Some ''n1'' else None),
      r_token_r = (\<lambda>tr. Inr ''token''),
      r_get_r = (\<lambda>tr url t. if count_calls rcall_of tr < 2 then Inr (503, Inl OtherFailure) else Inr (200, Inr [None, Some ''k''])),
      r_patch_r = (\<lambda>tr url t ops. if count_calls rcall_of tr < 4 then Inr 409 else Inr 200)\<rparr>"

section \<open>Properties\<close>

text \<open>C12: whatever the API server answers, every patch of the taint remover comes right after a read of the
  node and is the pair that tests the first taint with the key of that read and removes it; sleeps are 5, 10 or
  30 seconds; and the remover returns normally only after the server has said that the taint is absent
  or that the patch was applied.\<close>

theorem taint_remover_safe:
  assumes "remove_taint_forever fuel E key [] = (r, tr)"
  shows "each_call rpatch_of (patch_ok key) tr \<and> sleeps_ok tr \<and> (r = Some (Inr ()) \<longrightarrow> finished_by key tr)"
  using remove_taint_loop_ok[OF assms[unfolded remove_taint_forever_def]]
  by (auto simp: trace_ok_def sleeps_ok_def)

theorem taint_remover_safe_witness:
  "each_call rpatch_of (patch_ok ''k'') (snd (remove_taint_forever 5 ex_renv ''k'' []))
   \<and> List.map_filter rpatch_of (snd (remove_taint_forever 5 ex_renv ''k'' [])) = replicate 2 [TestKey 1 ''k'', RemoveTaint 1]
   \<and> finished_by ''k'' (snd (remove_taint_forever 5 ex_renv ''k'' []))"
proof -
  have "fst (remove_taint_forever 5 ex_renv ''k'' []) = Some (Inr ())"
    "List.map_filter rpatch_of (snd (remove_taint_forever 5 ex_renv ''k'' [])) = replicate 2 [TestKey 1 ''k'', RemoveTaint 1]"
    by code_simp+
  with taint_remover_safe[of 5 ex_renv "''k''" "fst (remove_taint_forever 5 ex_renv ''k'' [])"
      "snd (remove_taint_forever 5 ex_renv ''k'' [])",
      OF prod.collapse[symmetric]] show ?thesis by simp
qed

text \<open>C11: If the token can be read, no answer is a permanent error and the API server answers properly from
  its \<open>n\<close>-th call on, the endless loop ends: it returns after at most \<open>n + 1\<close> passes.\<close>

theorem taint_remover_recovers:
  assumes "recovers n E"
  shows "\<exists>tr. remove_taint_forever (Suc n) E key [] = (Some (Inr ()), tr) \<and> finished_by key tr"
proof -
  from remove_taint_loop_recovers[OF assms, of "[]" "Suc n" key 0]
  obtain tr where r: "remove_taint_loop (Suc n) E key 0 [] = (Some (Inr ()), tr)" by auto
  with remove_taint_loop_ok[OF r] show ?thesis
    by (auto simp: remove_taint_forever_def trace_ok_def sleeps_ok_def)
qed

theorem taint_remover_recovers_witness:
  "recovers 4 ex_renv \<and> (\<exists>tr. remove_taint_forever 5 ex_renv ''k'' [] = (Some (Inr ()), tr) \<and> finished_by ''k'' tr)"
proof -
  have "\<exists>url. node_url (r_environ ex_renv) = Inr url"
    by (simp add: node_url_def k8s_api_def node_name_def ex_renv_def Let_def)
  then have rec: "recovers 4 ex_renv"
    by (auto simp: recovers_def ex_renv_def good_get_def transient_get_def transient_patch_def Let_def)
  with taint_remover_recovers[OF rec, of "''k''"] show ?thesis by (simp add: eval_nat_numeral)
qed

text \<open>If the server applies a JSON patch as RFC 6902 says, an accepted patch of the remover takes one taint
  with the key out of the list of taints that the server has at that time, whatever happened to the list since
  it was read, and keeps all others in order; if the taint is no longer at its place, the patch is refused.\<close>

theorem remove_ops_race_safe:
  assumes "json_patch key_of app"
  shows "app (remove_ops i key) ts =
      (if i < length ts \<and> key_of (ts ! i) = Some key then Some (take i ts @ drop (Suc i) ts) else None)
    \<and> (\<forall>ts'. app (remove_ops i key) ts = Some ts' \<longrightarrow>
         (\<exists>a t b. ts = a @ t # b \<and> ts' = a @ b \<and> length a = i \<and> key_of t = Some key))"
proof -
  have eq: "app (remove_ops i key) ts =
      (if i < length ts \<and> key_of (ts ! i) = Some key then Some (take i ts @ drop (Suc i) ts) else None)"
    using assms by (simp add: json_patch_def remove_ops_def)
  have "ts = take i ts @ (ts ! i) # drop (Suc i) ts \<and> length (take i ts) = i" if "i < length ts"
    using that id_take_nth_drop by simp
  with eq show ?thesis by (metis option.distinct(1) option.inject)
qed

theorem remove_ops_race_safe_witness:
  "json_patch (\<lambda>t. t) ex_apply
   \<and> ex_apply (remove_ops 1 ''k'') [None, Some ''k'', Some ''x''] = Some [None, Some ''x'']"
proof -
  have "json_patch (\<lambda>t. t) ex_apply" by (simp add: json_patch_def)
  with remove_ops_race_safe[OF this, of 1 "''k''" "[None, Some ''k'', Some ''x'']"] show ?thesis by simp
qed

end
