(* ===== verification/Cidr_Blocks.thy ===== *)
theory Cidr_Blocks
  imports Py_Text
begin

section \<open>CIDR simplification (\<open>simplify_cidr_blocks.py\<close>)\<close>

text \<open>
  A list of IPv4 blocks is merged until at most \<open>n\<close> are left. A block is the string of its leading bits,
  here a list of booleans. The trie of nested dictionaries is a datatype, where \<open>Absent\<close> is a key that a
  dictionary does not have; the reference to a node that the list of blocks carries is the path of
  the node from the root, and so is its chain of \<open>parent\<close> links.
\<close>

type_synonym bits = "bool list"

subsection \<open>From text to bits\<close>

fun bin_nat :: "nat \<Rightarrow> bits" where
  \<comment> \<open>\<open>bin(n)[2:]\<close>\<close>
  "bin_nat n = (if n < 2 then [n = 1] else bin_nat (n div 2) @ [n mod 2 = 1])"

declare bin_nat.simps [simp del]

definition zfill8 :: "bits \<Rightarrow> bits" where
  "zfill8 b = replicate (8 - length b) False @ b"

fun all_ints :: "string list \<Rightarrow> nat list res" where
  \<comment> \<open>\<open>int\<close> of each part; the caller lets only digits through, so none is negative\<close>
  "all_ints [] = Inr []"
| "all_ints (s # ss) =
     (case py_int s of None \<Rightarrow> Inl ValueError | Some n \<Rightarrow> bind_res (all_ints ss) (\<lambda>ns. Inr (nat n # ns)))"

definition cidr_to_binary :: "string \<Rightarrow> bits res" where
  "cidr_to_binary ip =
     (case split_on (CHR ''/'') ip of
        [octets, bits] \<Rightarrow>
          bind_res (all_ints (split_on (CHR ''.'') octets)) (\<lambda>ns.
          bind_res (all_ints [bits]) (\<lambda>k.
            Inr (take (hd k) (concat (map (\<lambda>n. zfill8 (bin_nat n)) ns)))))
      | _ \<Rightarrow> Inl ValueError)"

fun ip_to_binary :: "string list \<Rightarrow> bits list res" where
  "ip_to_binary [] = Inr []"
| "ip_to_binary (ip # ips) =
     bind_res (cidr_to_binary ip) (\<lambda>b. bind_res (ip_to_binary ips) (\<lambda>bs. Inr (b # bs)))"

subsection \<open>The trie\<close>

datatype trie = Absent | Node "bits option" trie trie \<comment> \<open>the key \<open>ip\<close>, the children \<open>0\<close> and \<open>1\<close>\<close>

fun child :: "bool \<Rightarrow> trie \<Rightarrow> trie" where
  "child b Absent = Absent"
| "child b (Node ip l r) = (if b then r else l)"

fun insert_ip :: "bits \<Rightarrow> bits \<Rightarrow> trie \<Rightarrow> trie" where
  \<comment> \<open>the loop over the remaining bits, which adds the nodes that are missing\<close>
  "insert_ip ip [] Absent = Node (Some ip) Absent Absent"
| "insert_ip ip (b # bs) Absent =
     (if b then Node None Absent (insert_ip ip bs Absent) else Node None (insert_ip ip bs Absent) Absent)"
| "insert_ip ip [] (Node _ l r) = Node (Some ip) l r"
| "insert_ip ip (b # bs) (Node x l r) =
     (if b then Node x l (insert_ip ip bs r) else Node x (insert_ip ip bs l) r)"

fun subtree :: "bits \<Rightarrow> trie \<Rightarrow> trie" where
  "subtree [] t = t"
| "subtree (b # bs) t = subtree bs (child b t)"

fun update_at :: "bits \<Rightarrow> (trie \<Rightarrow> trie) \<Rightarrow> trie \<Rightarrow> trie" where
  "update_at [] f t = f t"
| "update_at (b # bs) f Absent = Absent"
| "update_at (b # bs) f (Node x l r) =
     (if b then Node x l (update_at bs f r) else Node x (update_at bs f l) r)"

type_synonym entry = "bits \<times> bits" \<comment> \<open>the \<open>ip\<close> of a node and the node\<close>

fun get_leafs :: "bits \<Rightarrow> trie \<Rightarrow> entry list" where
  \<comment> \<open>the stack visits child 1 first\<close>
  "get_leafs path Absent = []"
| "get_leafs path (Node (Some ip) l r) = [(ip, path)]"
| "get_leafs path (Node None l r) = get_leafs (path @ [True]) r @ get_leafs (path @ [False]) l"

definition get_cidr_ip :: "bits \<Rightarrow> bits" where
  \<comment> \<open>the bits up to the root; the root itself has none and gets \<open>'0'\<close>\<close>
  "get_cidr_ip path = (if path = [] then [False] else path)"

subsection \<open>The sorted list\<close>

definition entry_key :: "bits \<Rightarrow> nat \<times> bits" where
  "entry_key ip = (length ip, ip)"

definition bisect_right :: "entry list \<Rightarrow> nat \<times> bits \<Rightarrow> nat" where
  \<comment> \<open>on a sorted list the position after the entries with keys up to \<open>k\<close>\<close>
  "bisect_right xs k = length (takeWhile (\<lambda>x. entry_key (fst x) \<le> k) xs)"

definition insort_entry :: "entry \<Rightarrow> entry list \<Rightarrow> entry list" where
  "insort_entry x xs = (let i = bisect_right xs (entry_key (fst x)) in take i xs @ x # drop i xs)"

definition del_before :: "nat \<Rightarrow> entry list \<Rightarrow> entry list res" where
  \<comment> \<open>\<open>del xs[i - 1]\<close>; index \<open>-1\<close> is the last entry\<close>
  "del_before i xs =
     (if xs = [] then Inl OtherError
      else if i = 0 then Inr (butlast xs)
      else Inr (take (i - 1) xs @ drop i xs))"

fun remove_leafs :: "entry list \<Rightarrow> entry list \<Rightarrow> entry list res" where
  "remove_leafs [] xs = Inr xs"
| "remove_leafs ((ip, node) # ls) xs =
     bind_res (del_before (bisect_right xs (entry_key ip)) xs) (remove_leafs ls)"

subsection \<open>Merging\<close>

fun del_child :: "bool \<Rightarrow> trie \<Rightarrow> trie" where
  "del_child b Absent = Absent"
| "del_child b (Node x l r) = (if b then Node x l Absent else Node x Absent r)"

fun ip_of_node :: "trie \<Rightarrow> bits option" where
  "ip_of_node Absent = None"
| "ip_of_node (Node x l r) = x"

fun set_ip :: "bits \<Rightarrow> trie \<Rightarrow> trie" where
  "set_ip ip Absent = Absent"
| "set_ip ip (Node _ l r) = Node (Some ip) l r"

definition merge_last :: "trie \<times> entry list \<Rightarrow> (trie \<times> entry list) res" where
  \<comment> \<open>the body of the \<open>while\<close> loop\<close>
  "merge_last s =
     (case s of
        (t, xs) \<Rightarrow>
          (if xs = [] then Inl OtherError
           else
             (let path = snd (last xs); xs1 = butlast xs in
              if path = [] then Inl KeyError
              else
                (let pp = butlast path; b = last path; p_ptr = subtree pp t in
                 if child b p_ptr = Absent then Inl KeyError
                 else
                   (let p1 = del_child b p_ptr;
                        new_ip = get_cidr_ip pp;
                        (p2, xs2) =
                          (if ip_of_node p1 = None then (set_ip new_ip p1, insort_entry (new_ip, pp) xs1) else (p1, xs1));
                        leafs = get_leafs (pp @ [False]) (child False p2) @ get_leafs (pp @ [True]) (child True p2) in
                    bind_res (remove_leafs leafs xs2) (\<lambda>xs3. Inr (update_at pp (\<lambda>_. p2) t, xs3)))))))"

definition path_weight :: "entry list \<Rightarrow> nat" where
  "path_weight xs = sum_list (map (\<lambda>x. Suc (length (snd x))) xs)"

lemma path_weight_append [simp]: "path_weight (xs @ ys) = path_weight xs + path_weight ys"
  by (simp add: path_weight_def)

lemma path_weight_split: "path_weight (take i xs) + path_weight (drop i xs) = path_weight xs"
  using path_weight_append[of "take i xs" "drop i xs"] by simp

lemma path_weight_del_before: "del_before i xs = Inr ys \<Longrightarrow> path_weight ys \<le> path_weight xs"
  using path_weight_split[of "length xs - 1" xs] path_weight_split[of "i - 1" xs]
    path_weight_split[of 1 "drop (i - 1) xs"]
  by (auto simp: del_before_def butlast_conv_take drop_Suc[symmetric] split: if_splits)

lemma path_weight_remove_leafs: "remove_leafs ls xs = Inr ys \<Longrightarrow> path_weight ys \<le> path_weight xs"
proof (induction ls xs rule: remove_leafs.induct)
  case (2 ip node ls xs)
  then obtain zs where "del_before (bisect_right xs (entry_key ip)) xs = Inr zs" "remove_leafs ls zs = Inr ys"
    by (auto simp: bind_res_Inr_iff)
  with 2 path_weight_del_before show ?case by (meson le_trans)
qed simp

lemma path_weight_insort: "path_weight (insort_entry x xs) = Suc (length (snd x)) + path_weight xs"
  using path_weight_split[of _ xs] by (simp add: insort_entry_def path_weight_def[of "x # _"] Let_def flip: path_weight_def)

text \<open>A merge makes the paths of the list shorter, so the loop ends, whatever the state it starts from.\<close>

lemma path_weight_merge_last: "merge_last (t, xs) = Inr (t', ys) \<Longrightarrow> path_weight ys < path_weight xs"
proof -
  assume m: "merge_last (t, xs) = Inr (t', ys)"
  then have ne: "xs \<noteq> []" "snd (last xs) \<noteq> []" by (auto simp: merge_last_def Let_def split: if_splits)
  let ?pp = "butlast (snd (last xs))"
  have w: "path_weight xs = path_weight (butlast xs) + Suc (Suc (length ?pp))"
    using ne by (cases xs rule: rev_cases) (auto simp: path_weight_def)
  from m ne obtain ls zs where "remove_leafs ls zs = Inr ys" "zs = butlast xs \<or> zs = insort_entry (get_cidr_ip ?pp, ?pp) (butlast xs)"
    by (fastforce simp: merge_last_def Let_def bind_res_Inr_iff split: if_splits)
  then show "path_weight ys < path_weight xs"
    using path_weight_remove_leafs[of ls zs ys] w path_weight_insort[of "(get_cidr_ip ?pp, ?pp)" "butlast xs"] by auto
qed

function merge_down :: "int \<Rightarrow> trie \<times> entry list \<Rightarrow> (trie \<times> entry list) res" where
  "merge_down n s =
     (if n < int (length (snd s)) then (case merge_last s of Inl e \<Rightarrow> Inl e | Inr s' \<Rightarrow> merge_down n s') else Inr s)"
  by pat_completeness auto
termination
  by (relation "measure (\<lambda>(n, s). path_weight (snd s))") (auto simp: path_weight_merge_last)

declare merge_down.simps [simp del]

definition cidr_list :: "bits list \<Rightarrow> trie \<times> entry list" where
  \<comment> \<open>the trie of all blocks and the sorted list of its topmost ones\<close>
  "cidr_list ips =
     (let root = fold (\<lambda>ip t. insert_ip ip ip t) ips (Node None Absent Absent) in
      (root, sort_key (\<lambda>x. entry_key (fst x)) (get_leafs [] root)))"

fun bits_val :: "bits \<Rightarrow> nat" where
  "bits_val bs = foldl (\<lambda>a b. 2 * a + (if b then 1 else 0)) 0 bs"

declare bits_val.simps [simp del]

definition render_cidr :: "bits \<Rightarrow> string" where
  "render_cidr ip =
     (let x = ip @ replicate (32 - length ip) False in
      join_on (CHR ''.'') (map (\<lambda>i. str_nat (bits_val (take 8 (drop i x)))) [0, 8, 16, 24])
        @ ''/'' @ str_nat (length ip))"

definition merged_blocks :: "bits list \<Rightarrow> int \<Rightarrow> bits list res" where
  "merged_blocks ips n = bind_res (merge_down n (cidr_list ips)) (\<lambda>(t, xs). Inr (map fst xs))"

definition get_cidrs :: "bits list \<Rightarrow> int \<Rightarrow> string list res" where
  "get_cidrs ips n = bind_res (merged_blocks ips n) (\<lambda>bs. Inr (map render_cidr bs))"

subsection \<open>The script\<close>

definition all_digits :: "string \<Rightarrow> bool" where
  "all_digits s \<longleftrightarrow> s \<noteq> [] \<and> list_all is_digit s"

definition is_cidr :: "string \<Rightarrow> bool" where
  \<comment> \<open>the regular expression; \<open>$\<close> also matches before a final newline\<close>
  "is_cidr s =
     (let matches = (\<lambda>s. case split_on (CHR ''/'') s of
            [octets, bits] \<Rightarrow>
              (let os = split_on (CHR ''.'') octets in length os = 4 \<and> list_all all_digits os \<and> all_digits bits)
          | _ \<Rightarrow> False) in
      matches s \<or> (s \<noteq> [] \<and> last s = char_of (10 :: nat) \<and> matches (butlast s)))"

definition simplify :: "string list \<Rightarrow> int \<Rightarrow> string list res" where
  \<comment> \<open>what \<open>main\<close> writes for a list of blocks and the option \<open>--rules-per-sg\<close>\<close>
  "simplify cidrs rules_per_sg =
     bind_res (ip_to_binary (filter is_cidr cidrs)) (\<lambda>ips. get_cidrs ips rules_per_sg)"

definition shipped_cidrs :: "string list" where
  \<comment> \<open>the blocks that \<open>main\<close> lists\<close>
  "shipped_cidrs =
     [''129.134.0.0/19'', ''66.220.144.0/20'', ''34.94.18.0/25'', ''35.192.199.128/25'',
      ''163.114.128.0/20'', ''157.240.128.0/18'', ''102.221.188.0/22'', ''31.13.96.0/19'',
      ''129.134.96.0/20'', ''18.190.96.139/32'', ''185.60.216.0/22'', ''102.132.112.0/20'',
      ''129.134.64.0/20'', ''157.240.192.0/18'', ''185.89.216.0/22'', ''35.239.7.131/32'',
      ''31.13.64.0/19'', ''204.15.20.0/22'', ''157.240.0.0/19'', ''179.60.192.0/22'',
      ''103.4.96.0/22'', ''69.63.176.0/20'', ''74.119.76.0/22'', ''163.70.128.0/17'',
      ''157.240.64.0/19'', ''69.171.224.0/19'', ''173.252.64.0/18'', ''129.134.80.0/20'',
      ''173.252.64.0/22'', ''147.75.208.0/20'', ''199.201.64.0/22'', ''66.111.48.0/22'',
      ''157.240.32.0/19'', ''163.77.128.0/17'', ''34.82.178.0/25'', ''129.134.32.0/19'',
      ''31.13.24.0/21'', ''45.64.40.0/22'', ''129.134.128.0/17'', ''102.132.96.0/20'',
      ''13.248.16.0/25'', ''13.248.48.0/25'', ''15.248.48.0/25'', ''15.248.54.236/31'',
      ''15.248.64.0/25'', ''15.248.70.236/31'', ''27.0.3.144/29'', ''27.0.3.152/29'',
      ''52.46.80.0/25'', ''52.46.208.0/25'', ''52.46.249.224/29'', ''52.46.249.248/29'',
      ''52.82.200.0/25'', ''52.94.36.0/25'', ''52.94.84.0/25'', ''52.94.133.128/25'',
      ''52.94.133.128/30'', ''52.94.133.136/30'', ''52.95.4.0/25'', ''52.95.75.0/25'',
      ''52.119.144.0/25'', ''54.222.61.32/28'', ''54.239.6.176/29'', ''54.239.6.184/29'',
      ''54.239.119.0/25'', ''54.240.193.0/29'', ''54.240.193.128/29'', ''54.240.196.160/27'',
      ''54.240.196.160/28'', ''54.240.196.176/28'', ''54.240.197.224/28'', ''54.240.198.32/29'',
      ''54.240.199.96/28'', ''54.240.217.8/29'', ''54.240.217.16/29'', ''69.157.200.212/32'',
      ''69.165.90.4/32'', ''69.165.90.12/32'', ''70.232.80.0/25'', ''70.232.112.0/25'',
      ''72.21.196.64/29'', ''72.21.198.64/29'', ''99.77.16.0/25'', ''99.77.48.0/25'',
      ''99.78.144.128/25'', ''99.78.200.0/25'', ''99.78.232.0/25'', ''99.82.144.0/25'',
      ''99.87.8.0/25'', ''104.153.113.16/28'', ''104.153.114.16/28'', ''177.72.241.16/29'',
      ''177.72.242.16/29'', ''204.246.162.32/28'', ''205.251.233.48/29'', ''205.251.233.104/29'',
      ''205.251.233.176/29'', ''205.251.233.232/29'', ''205.251.237.64/28'',
      ''205.251.237.96/28'']"

definition script_blocks :: "int option \<Rightarrow> string list res" where
  \<comment> \<open>\<open>main\<close>; the option \<open>--rules-per-sg\<close> has the default 60\<close>
  "script_blocks rules_per_sg =
     simplify shipped_cidrs (case rules_per_sg of None \<Rightarrow> 60 | Some n \<Rightarrow> n)"

end
