(* ===== verification/Cidr_Properties.thy ===== *)
theory Cidr_Properties
  imports Cidr_Blocks "HOL-Library.Sublist"
begin

text \<open>
  The merge of the blocks, seen through the set of the marked paths of the trie: the list of blocks is at all
  times the list of the topmost marked paths, and a merge replaces the longest of them and everything
  under its parent by the parent. From two blocks on the merge never reaches the root, so no address
  is lost; with one block it can, and then half of the addresses are.
\<close>

section \<open>The trie as a set of paths\<close>

definition ip_at :: "trie \<Rightarrow> bits \<Rightarrow> bits option" where
  "ip_at t p = ip_of_node (subtree p t)"

definition marked :: "trie \<Rightarrow> bits set" where
  "marked t = {p. ip_at t p \<noteq> None}"

definition topmost :: "bits set \<Rightarrow> bits set" where
  "topmost A = {p \<in> A. \<forall>q \<in> A. prefix q p \<longrightarrow> q = p}"

definition canonical :: "trie \<Rightarrow> bool" where
  "canonical t \<longleftrightarrow> (\<forall>p ip. ip_at t p = Some ip \<longrightarrow> ip = p)"

lemma subtree_Absent [simp]: "subtree p Absent = Absent"
  by (induction p) auto

lemma ip_at_simps [simp]:
  "ip_at Absent p = None" "ip_at (Node x l r) [] = x"
  "ip_at (Node x l r) (b # p) = ip_at (if b then r else l) p" "ip_at t (b # p) = ip_at (child b t) p"
  by (auto simp: ip_at_def)

lemma subtree_append: "subtree (p @ q) t = subtree q (subtree p t)"
  by (induction p arbitrary: t) auto

lemma ip_at_append: "ip_at t (p @ q) = ip_at (subtree p t) q"
  by (simp add: ip_at_def subtree_append)

lemma ip_at_insert: "ip_at (insert_ip ip p t) q = (if q = p then Some ip else ip_at t q)"
  by (induction ip p t arbitrary: q rule: insert_ip.induct) (case_tac q; auto)+

lemma ip_at_update:
  "subtree pp t \<noteq> Absent \<Longrightarrow>
   ip_at (update_at pp (\<lambda>_. u) t) q = (if prefix pp q then ip_at u (drop (length pp) q) else ip_at t q)"
proof (induction pp "\<lambda>_ :: trie. u" t arbitrary: q rule: update_at.induct)
  case (3 b bs x l r)
  then show ?case by (cases q) auto
qed auto

lemma get_leafs_iff:
  "(ip, q) \<in> set (get_leafs path t) \<longleftrightarrow>
   (\<exists>p. q = path @ p \<and> ip_at t p = Some ip \<and> (\<forall>p'. strict_prefix p' p \<longrightarrow> ip_at t p' = None))"
proof (induction path t rule: get_leafs.induct)
  case (2 path ip' l r)
  have "ip_at (Node (Some ip') l r) p = Some ip \<and> (\<forall>p'. strict_prefix p' p \<longrightarrow> ip_at (Node (Some ip') l r) p' = None)
      \<longleftrightarrow> p = [] \<and> ip = ip'" for p
    by (cases p) (auto intro: exI[of _ "[]"])
  then show ?case by auto
next
  case (3 path l r)
  have "ip_at (Node None l r) p = Some ip \<and> (\<forall>p'. strict_prefix p' p \<longrightarrow> ip_at (Node None l r) p' = None)
      \<longleftrightarrow> (\<exists>b p1. p = b # p1 \<and> ip_at (if b then r else l) p1 = Some ip
            \<and> (\<forall>p'. strict_prefix p' p1 \<longrightarrow> ip_at (if b then r else l) p' = None))" for p
  proof (cases p)
    case (Cons b p1)
    have "(\<forall>p'. strict_prefix p' (b # p1) \<longrightarrow> ip_at (Node None l r) p' = None) \<longleftrightarrow>
        (\<forall>p'. strict_prefix p' p1 \<longrightarrow> ip_at (if b then r else l) p' = None)"
    proof (intro iffI allI impI)
      fix p' assume "\<forall>p'. strict_prefix p' (b # p1) \<longrightarrow> ip_at (Node None l r) p' = None" "strict_prefix p' p1"
      then have "ip_at (Node None l r) (b # p') = None" by (metis strict_prefix_simps(3))
      then show "ip_at (if b then r else l) p' = None" by simp
    next
      fix p' assume "\<forall>p'. strict_prefix p' p1 \<longrightarrow> ip_at (if b then r else l) p' = None" "strict_prefix p' (b # p1)"
      then show "ip_at (Node None l r) p' = None" by (cases p') auto
    qed
    with Cons show ?thesis by simp
  qed simp
  with 3 show ?case by (auto 0 4)
qed auto

lemma get_leafs_below: "x \<in> set (get_leafs path t) \<Longrightarrow> prefix path (snd x)"
  using get_leafs_iff[of "fst x" "snd x" path t] by auto

lemma distinct_get_leafs: "distinct (map snd (get_leafs path t))"
proof (induction path t rule: get_leafs.induct)
  case (3 path l r)
  have "snd x \<noteq> snd y"
    if x: "x \<in> set (get_leafs (path @ [True]) r)" and y: "y \<in> set (get_leafs (path @ [False]) l)" for x y
  proof
    assume eq: "snd x = snd y"
    obtain u v where "snd x = (path @ [True]) @ u" "snd y = (path @ [False]) @ v"
      using get_leafs_below[OF x] get_leafs_below[OF y] unfolding prefix_def by blast
    with eq show False by simp
  qed
  then have "set (map snd (get_leafs (path @ [True]) r)) \<inter> set (map snd (get_leafs (path @ [False]) l)) = {}"
    unfolding set_map by blast
  with 3 show ?case unfolding get_leafs.simps map_append distinct_append by blast
qed auto

text \<open>In a canonical trie every marked node holds its own path.\<close>

lemma topmost_marked:
  "p \<in> topmost (marked t) \<longleftrightarrow> ip_at t p \<noteq> None \<and> (\<forall>p'. strict_prefix p' p \<longrightarrow> ip_at t p' = None)"
  by (auto simp: topmost_def marked_def strict_prefix_def)

lemma strict_prefix_append_cases:
  assumes "strict_prefix p' (path @ p)"
  obtains "strict_prefix p' path" | r where "p' = path @ r" "strict_prefix r p"
proof (cases "prefix path p'")
  case True
  then obtain r where "p' = path @ r" by (auto simp: prefix_def)
  with assms that(2) show thesis by (auto simp: strict_prefix_def)
next
  case False
  with assms have "strict_prefix p' path"
    by (metis prefix_order.less_imp_le prefix_order.less_le prefix_same_cases prefixI)
  then show thesis by (rule that(1))
qed

lemma leafs_canonical:
  assumes "canonical t" and none: "\<And>q. strict_prefix q path \<Longrightarrow> ip_at t q = None"
  shows "set (get_leafs path (subtree path t)) = (\<lambda>p. (p, p)) ` {p \<in> topmost (marked t). prefix path p}"
proof -
  have top: "path @ p \<in> topmost (marked t) \<longleftrightarrow>
      ip_at t (path @ p) \<noteq> None \<and> (\<forall>p'. strict_prefix p' p \<longrightarrow> ip_at t (path @ p') = None)" for p
  proof -
    have "(\<forall>q. strict_prefix q (path @ p) \<longrightarrow> ip_at t q = None) \<longleftrightarrow> (\<forall>p'. strict_prefix p' p \<longrightarrow> ip_at t (path @ p') = None)"
    proof (intro iffI allI impI)
      fix p' assume "\<forall>q. strict_prefix q (path @ p) \<longrightarrow> ip_at t q = None" "strict_prefix p' p"
      then show "ip_at t (path @ p') = None" by (auto simp: strict_prefix_def)
    next
      fix q assume "\<forall>p'. strict_prefix p' p \<longrightarrow> ip_at t (path @ p') = None" "strict_prefix q (path @ p)"
      then show "ip_at t q = None" using none by (elim strict_prefix_append_cases) auto
    qed
    then show ?thesis by (simp add: topmost_marked)
  qed
  have "(ip, q) \<in> set (get_leafs path (subtree path t)) \<longleftrightarrow>
      (\<exists>p. q = path @ p \<and> ip = q \<and> q \<in> topmost (marked t))" for ip q
  proof -
    have "ip_at t (path @ p) = Some ip \<longleftrightarrow> ip = path @ p \<and> ip_at t (path @ p) \<noteq> None" for p
      using assms(1) by (auto simp: canonical_def)
    then show ?thesis
      unfolding get_leafs_iff ip_at_append[symmetric] using top by metis
  qed
  then show ?thesis by (auto simp: prefix_def image_iff)
qed

section \<open>The sorted list\<close>

definition key_of :: "entry \<Rightarrow> nat \<times> bits" where
  "key_of x = entry_key (fst x)"

definition sorted_entries :: "entry list \<Rightarrow> bool" where
  "sorted_entries xs \<longleftrightarrow> sorted_wrt (<) (map key_of xs)"

lemma key_inj: "key_of x = key_of y \<longleftrightarrow> fst x = fst y"
  by (auto simp: key_of_def entry_key_def)

lemma bisect_right_at:
  assumes "sorted_entries (as @ x # bs)"
  shows "bisect_right (as @ x # bs) (key_of x) = Suc (length as)"
proof -
  have "\<forall>y \<in> set as. key_of y \<le> key_of x" "\<forall>y \<in> set bs. key_of x < key_of y"
    using assms by (auto simp: sorted_entries_def sorted_wrt_append intro: less_imp_le)
  then have "takeWhile (\<lambda>y. key_of y \<le> key_of x) (as @ x # bs) = as @ [x]"
    by (cases bs) auto
  then show ?thesis by (simp add: bisect_right_def key_of_def)
qed

lemma del_before_at:
  assumes "sorted_entries xs" "x \<in> set xs"
  shows "del_before (bisect_right xs (key_of x)) xs = Inr (filter (\<lambda>y. fst y \<noteq> fst x) xs)"
proof -
  obtain as bs where xs: "xs = as @ x # bs" using assms(2) by (meson split_list)
  have "\<forall>y \<in> set as \<union> set bs. key_of y \<noteq> key_of x"
    using assms(1) by (auto simp: xs sorted_entries_def sorted_wrt_append)
  then have "filter (\<lambda>y. fst y \<noteq> fst x) xs = as @ bs" by (auto simp: xs key_inj filter_id_conv)
  then show ?thesis using bisect_right_at[OF assms(1)[unfolded xs]] by (simp add: xs del_before_def)
qed

lemma sorted_entries_filter: "sorted_entries xs \<Longrightarrow> sorted_entries (filter P xs)"
  unfolding sorted_entries_def sorted_wrt_map by (rule sorted_wrt_filter)

lemma remove_leafs_eq:
  "sorted_entries xs \<Longrightarrow> set ls \<subseteq> set xs \<Longrightarrow> distinct (map fst ls)
   \<Longrightarrow> remove_leafs ls xs = Inr (filter (\<lambda>y. fst y \<notin> fst ` set ls) xs)"
proof (induction ls arbitrary: xs)
  case (Cons x ls)
  obtain ip node where x: "x = (ip, node)" by (cases x)
  let ?ys = "filter (\<lambda>y. fst y \<noteq> ip) xs"
  have d: "del_before (bisect_right xs (entry_key ip)) xs = Inr ?ys"
    using del_before_at[OF Cons.prems(1), of x] Cons.prems(2) x by (simp add: key_of_def)
  have "set ls \<subseteq> set ?ys" using Cons.prems(2,3) x by force
  from Cons.IH[OF sorted_entries_filter[OF Cons.prems(1)] this] Cons.prems(3) d x show ?case
    by (simp add: conj_commute)
qed simp

lemma insort_sorted:
  assumes "sorted_entries xs" "fst x \<notin> fst ` set xs"
  shows "sorted_entries (insort_entry x xs) \<and> set (insort_entry x xs) = insert x (set xs)"
proof -
  let ?P = "\<lambda>y. key_of y \<le> key_of x"
  have eq: "insort_entry x xs = takeWhile ?P xs @ x # dropWhile ?P xs"
    by (simp add: insort_entry_def bisect_right_def key_of_def Let_def flip: takeWhile_eq_take dropWhile_eq_drop)
  have ne: "key_of y \<noteq> key_of x" if "y \<in> set xs" for y using that assms(2) by (metis image_eqI key_inj)
  have l: "key_of y < key_of x" if "y \<in> set (takeWhile ?P xs)" for y
    using that ne by (meson order_neq_le_trans set_takeWhileD)
  have "sorted_wrt (<) (map key_of (takeWhile ?P xs @ dropWhile ?P xs))"
    using assms(1) by (simp add: sorted_entries_def)
  then have s: "sorted_wrt (<) (map key_of (takeWhile ?P xs))" "sorted_wrt (<) (map key_of (dropWhile ?P xs))"
    "\<forall>y \<in> set (takeWhile ?P xs). \<forall>z \<in> set (dropWhile ?P xs). key_of y < key_of z"
    unfolding map_append sorted_wrt_append by auto
  have g: "key_of x < key_of y" if y: "y \<in> set (dropWhile ?P xs)" for y
  proof (cases "dropWhile ?P xs")
    case (Cons z zs)
    then have "key_of x < key_of z" by (metis hd_dropWhile linorder_not_le list.distinct(1) list.sel(1))
    moreover have "key_of z \<le> key_of y" using s(2) y Cons by (auto intro: less_imp_le)
    ultimately show ?thesis by (rule less_le_trans)
  next
    case Nil
    with y show ?thesis by (metis empty_iff list.set(1))
  qed
  have "sorted_entries (insort_entry x xs)"
    unfolding eq sorted_entries_def map_append sorted_wrt_append using s l g by auto
  moreover have "set (insort_entry x xs) = insert x (set xs)"
    unfolding eq by (metis Un_insert_right list.simps(15) set_append takeWhile_dropWhile_id)
  ultimately show ?thesis by blast
qed

section \<open>Merging\<close>

definition merged :: "bits \<Rightarrow> bits set \<Rightarrow> bits set" where
  \<comment> \<open>the block takes the place of everything under it\<close>
  "merged pp A = insert pp {q \<in> A. \<not> prefix pp q}"

definition cidr_inv :: "trie \<times> entry list \<Rightarrow> bool" where
  "cidr_inv s \<longleftrightarrow>
     (case s of (t, xs) \<Rightarrow> canonical t \<and> sorted_entries xs \<and> set xs = (\<lambda>p. (p, p)) ` topmost (marked t))"

lemma topmost_antichain: "p \<in> topmost A \<Longrightarrow> q \<in> topmost A \<Longrightarrow> prefix p q \<Longrightarrow> p = q"
  by (auto simp: topmost_def)

lemma inv_distinct: "cidr_inv (t, xs) \<Longrightarrow> distinct (map fst xs)"
proof -
  assume "cidr_inv (t, xs)"
  then have "sorted_wrt (<) (map key_of xs)" by (simp add: cidr_inv_def sorted_entries_def)
  then have "distinct (map key_of xs)" by (simp add: strict_sorted_iff)
  then show ?thesis by (simp add: distinct_map inj_on_def key_inj)
qed

lemma last_largest:
  assumes "cidr_inv (t, xs)" "xs \<noteq> []" "q \<in> topmost (marked t)"
  shows "entry_key q \<le> entry_key (fst (last xs))"
proof -
  have "(q, q) \<in> set xs" using assms by (auto simp: cidr_inv_def)
  moreover have "sorted (map key_of xs)" using assms(1) by (auto simp: cidr_inv_def sorted_entries_def strict_sorted_iff)
  ultimately show ?thesis using assms(2)
    by (cases xs rule: rev_cases) (auto simp: sorted_append key_of_def)
qed

text \<open>One merge step, when the parent is not the root.\<close>

lemma merge_last_step:
  assumes inv: "cidr_inv (t, xs)" and xs: "xs \<noteq> []" and p: "snd (last xs) = pp @ [b]" and pp: "pp \<noteq> []"
  shows "\<exists>t' ys. merge_last (t, xs) = Inr (t', ys) \<and> cidr_inv (t', ys)
    \<and> topmost (marked t') = merged pp (topmost (marked t)) \<and> pp @ [b] \<in> topmost (marked t)"
proof -
  let ?p = "pp @ [b]"
  from inv have can: "canonical t" and sorted: "sorted_entries xs" and set: "set xs = (\<lambda>p. (p, p)) ` topmost (marked t)"
    by (auto simp: cidr_inv_def)
  have lastp: "last xs = (?p, ?p)" using set p xs last_in_set[OF xs] by auto
  then have top: "?p \<in> topmost (marked t)" using set xs last_in_set[OF xs] by auto
  then have at: "ip_at t ?p \<noteq> None" and none: "\<And>q. strict_prefix q ?p \<Longrightarrow> ip_at t q = None"
    by (auto simp: topmost_marked)
  obtain x l r where node: "subtree pp t = Node x l r"
    using at by (cases "subtree pp t") (auto simp: ip_at_append)
  have x: "x = None" using none[of pp] node by (auto simp: ip_at_def strict_prefix_def)
  define u where "u = Node (Some pp) (if b then l else Absent) (if b then Absent else r)"
  define t' where "t' = update_at pp (\<lambda>_. u) t"
  define ls where "ls = get_leafs (pp @ [\<not> b]) (subtree (pp @ [\<not> b]) t)"
  have at': "ip_at t' q = (if prefix pp q then ip_at u (drop (length pp) q) else ip_at t q)" for q
    using ip_at_update[of pp t u q] node by (simp add: t'_def)
  have t'_ip: "ip_at t' pp = Some pp" "\<not> prefix pp q \<Longrightarrow> ip_at t' q = ip_at t q"
    "ip_at t' (pp @ c # q) = (if c = b then None else ip_at t (pp @ c # q))" for q c
    by (auto simp: at' u_def ip_at_append[of t] node)
  have can': "canonical t'"
    unfolding canonical_def
  proof (intro allI impI)
    fix q ip assume q: "ip_at t' q = Some ip"
    show "ip = q"
    proof (cases "prefix pp q")
      case True
      then obtain s where s: "q = pp @ s" by (auto simp: prefix_def)
      show ?thesis
      proof (cases s)
        case (Cons c s')
        with q s t'_ip(3) have "ip_at t q = Some ip" by (metis option.distinct(1))
        with can show ?thesis by (simp add: canonical_def)
      qed (use q s t'_ip(1) in auto)
    next
      case False
      with q t'_ip(2) can show ?thesis by (simp add: canonical_def)
    qed
  qed
  have pp_none: "ip_at t q = None" if "prefix q pp" for q
    using that by (intro none) (auto simp: strict_prefix_def prefix_def)
  have top': "topmost (marked t') = merged pp (topmost (marked t))"
  proof (intro set_eqI)
    fix q
    show "q \<in> topmost (marked t') \<longleftrightarrow> q \<in> merged pp (topmost (marked t))"
    proof (cases "prefix pp q")
      case True
      have "strict_prefix q' pp \<Longrightarrow> ip_at t' q' = None" for q'
        using pp_none[of q'] t'_ip(2)[of q'] by (auto simp: strict_prefix_def prefix_order.antisym)
      with True t'_ip(1) show ?thesis
        by (cases "q = pp") (auto simp: merged_def topmost_marked strict_prefix_def)
    next
      case False
      then have "ip_at t' q' = ip_at t q'" if "prefix q' q" for q'
        using that t'_ip(2) prefix_order.trans by blast
      with False show ?thesis by (auto simp: merged_def topmost_marked strict_prefix_def)
    qed
  qed
  have ls: "set ls = (\<lambda>p. (p, p)) ` {q \<in> topmost (marked t). prefix (pp @ [\<not> b]) q}"
    unfolding ls_def by (rule leafs_canonical[OF can]) (auto intro!: pp_none simp: strict_prefix_def)
  define ys where "ys = insort_entry (pp, pp) (butlast xs)"
  have xs_split: "xs = butlast xs @ [(?p, ?p)]" using lastp xs by (metis append_butlast_last_id)
  have bl: "set (butlast xs) = (\<lambda>p. (p, p)) ` (topmost (marked t) - {?p})"
  proof -
    have "distinct (butlast xs @ [(?p, ?p)])"
      using inv_distinct[OF inv] xs_split by (metis distinct_map)
    then have "set (butlast xs) = set (butlast xs @ [(?p, ?p)]) - {(?p, ?p)}" by auto
    then show ?thesis unfolding xs_split[symmetric] set by auto
  qed
  have sbl: "sorted_entries (butlast xs)"
    using sorted xs_split unfolding sorted_entries_def by (metis map_append sorted_wrt_append)
  have ppn: "pp \<notin> topmost (marked t)" using pp_none[of pp] by (auto simp: topmost_marked)
  then have ppbl: "fst (pp, pp) \<notin> fst ` set (butlast xs)" unfolding bl by auto
  then have ys: "sorted_entries ys" "set ys = insert (pp, pp) (set (butlast xs))"
    using insort_sorted[OF sbl, of "(pp, pp)"] ppbl by (auto simp: ys_def)
  have sub: "set ls \<subseteq> set ys" unfolding ls ys(2) bl by (auto simp: prefix_def)
  have "distinct (map fst ls)"
  proof -
    have "\<forall>x \<in> set ls. fst x = snd x" unfolding ls by auto
    then have "map fst ls = map snd ls" by (simp add: map_eq_conv)
    then show ?thesis using distinct_get_leafs[of "pp @ [\<not> b]" "subtree (pp @ [\<not> b]) t"] by (metis ls_def)
  qed
  then have rem: "remove_leafs ls ys = Inr (filter (\<lambda>y. fst y \<notin> fst ` set ls) ys)"
    using remove_leafs_eq[OF ys(1) sub] by simp
  define zs where "zs = filter (\<lambda>y. fst y \<notin> fst ` set ls) ys"
  have leafs: "get_leafs (pp @ [False]) (child False u) @ get_leafs (pp @ [True]) (child True u) = ls"
    by (cases b) (simp_all add: u_def ls_def subtree_append node)
  have step: "merge_last (t, xs) = Inr (t', zs)"
    using xs p pp x node at rem leafs
    by (cases b) (auto simp: merge_last_def Let_def get_cidr_ip_def ip_at_append u_def t'_def ys_def zs_def)
  have "set zs = (\<lambda>p. (p, p)) ` merged pp (topmost (marked t))"
  proof -
    have "q \<in> merged pp (topmost (marked t)) \<longleftrightarrow>
        (q = pp \<or> q \<in> topmost (marked t) \<and> q \<noteq> ?p) \<and> \<not> (q \<in> topmost (marked t) \<and> prefix (pp @ [\<not> b]) q)" for q
    proof (cases "prefix pp q")
      case True
      then obtain s where s: "q = pp @ s" by (auto simp: prefix_def)
      show ?thesis
      proof (cases s)
        case (Cons c s')
        then show ?thesis using s topmost_antichain[OF top, of q] by (cases "c = b") (auto simp: merged_def)
      qed (use s ppn in \<open>auto simp: merged_def\<close>)
    next
      case False
      then have "\<not> prefix (pp @ [\<not> b]) q" "q \<noteq> ?p" by (auto simp: prefix_def)
      with False show ?thesis by (auto simp: merged_def)
    qed
    then have "merged pp (topmost (marked t)) = {q. (q = pp \<or> q \<in> topmost (marked t) \<and> q \<noteq> ?p)
        \<and> \<not> (q \<in> topmost (marked t) \<and> prefix (pp @ [\<not> b]) q)}" by (intro set_eqI) (simp only: mem_Collect_eq)
    moreover have "set zs = (\<lambda>p. (p, p)) ` {q. (q = pp \<or> q \<in> topmost (marked t) \<and> q \<noteq> ?p)
        \<and> \<not> (q \<in> topmost (marked t) \<and> prefix (pp @ [\<not> b]) q)}"
      unfolding zs_def set_filter ys(2) bl ls by auto
    ultimately show ?thesis by (simp only:)
  qed
  then have "cidr_inv (t', zs)"
    using can' top' sorted_entries_filter[OF ys(1)] by (simp add: cidr_inv_def zs_def)
  with step top' top show ?thesis by blast
qed

text \<open>More than two blocks cannot all be as short as one bit.\<close>

lemma parent_not_root:
  assumes inv: "cidr_inv (t, xs)" and len: "2 < length xs"
  obtains pp b where "snd (last xs) = pp @ [b]" "pp \<noteq> []"
proof -
  have xs: "xs \<noteq> []" using len by auto
  have set: "set xs = (\<lambda>p. (p, p)) ` topmost (marked t)" using inv by (simp add: cidr_inv_def)
  have lastp: "fst (last xs) = snd (last xs)" using last_in_set[OF xs] set by auto
  have "\<not> length (snd (last xs)) \<le> 1"
  proof
    assume short: "length (snd (last xs)) \<le> 1"
    have "length q \<le> 1" if "q \<in> topmost (marked t)" for q
      using last_largest[OF inv xs that] short lastp by (auto simp: entry_key_def less_eq_prod_def)
    then have sub: "q \<in> {[], [True], [False]}" if "q \<in> topmost (marked t)" for q
      using that by (cases q) (force, force simp: le_Suc_eq)
    have "card (topmost (marked t)) \<le> 2"
    proof (cases "[] \<in> topmost (marked t)")
      case True
      then have "topmost (marked t) = {[]}" using topmost_antichain[OF True] by auto
      then show ?thesis by simp
    next
      case False
      then have "topmost (marked t) \<subseteq> {[True], [False]}" using sub by auto
      then have "card (topmost (marked t)) \<le> card {[True], [False]}" by (intro card_mono) auto
      also have "\<dots> \<le> 2" by (simp add: card_insert_if)
      finally show ?thesis .
    qed
    moreover have "card (topmost (marked t)) = length xs"
    proof -
      have "fst ` set xs = topmost (marked t)" unfolding set by force
      then show ?thesis using distinct_card[OF inv_distinct[OF inv]] by simp
    qed
    ultimately show False using len by simp
  qed
  then have "snd (last xs) = butlast (snd (last xs)) @ [last (snd (last xs))]" "butlast (snd (last xs)) \<noteq> []"
    by (cases "snd (last xs)" rule: rev_cases; auto)+
  then show thesis by (rule that)
qed

text \<open>What the merge keeps: every input block is covered, and every block covers some input.\<close>

definition covering :: "bits set \<Rightarrow> bits set \<Rightarrow> bool" where
  "covering I B \<longleftrightarrow> (\<forall>i \<in> I. \<exists>p \<in> B. prefix p i) \<and> (\<forall>p \<in> B. \<exists>i \<in> I. prefix p i)"

lemma covering_merged:
  assumes "covering I B" "pp @ [b] \<in> B" shows "covering I (merged pp B)"
  unfolding covering_def
proof (intro conjI ballI)
  fix i assume "i \<in> I"
  then obtain p where p: "p \<in> B" "prefix p i" using assms(1) by (auto simp: covering_def)
  then show "\<exists>p \<in> merged pp B. prefix p i"
    by (cases "prefix pp p") (auto simp: merged_def intro: prefix_order.trans)
next
  fix p assume "p \<in> merged pp B"
  then consider "p = pp" | "p \<in> B" by (auto simp: merged_def)
  then show "\<exists>i \<in> I. prefix p i"
  proof cases
    case 1
    obtain i where "i \<in> I" "prefix (pp @ [b]) i" using assms by (auto simp: covering_def)
    with 1 show ?thesis by (meson append_prefixD)
  qed (use assms(1) in \<open>auto simp: covering_def\<close>)
qed

lemma merge_down_ok:
  assumes "2 \<le> n"
  shows "cidr_inv s \<Longrightarrow> covering I (topmost (marked (fst s))) \<Longrightarrow>
    \<exists>t xs. merge_down n s = Inr (t, xs) \<and> cidr_inv (t, xs) \<and> covering I (topmost (marked t)) \<and> int (length xs) \<le> n"
  using assms
proof (induction n s rule: merge_down.induct)
  case (1 n s)
  obtain t xs where s: "s = (t, xs)" by (cases s)
  show ?case
  proof (cases "n < int (length xs)")
    case False
    with "1.prems" s show ?thesis by (intro exI[of _ t] exI[of _ xs]) (simp add: merge_down.simps[of n "(t, xs)"])
  next
    case True
    with "1.prems"(3) have len: "2 < length xs" by linarith
    then have xs: "xs \<noteq> []" by auto
    obtain pp b where p: "snd (last xs) = pp @ [b]" "pp \<noteq> []"
      using parent_not_root[OF _ len] "1.prems"(1) s by metis
    obtain t' ys where step: "merge_last (t, xs) = Inr (t', ys)" "cidr_inv (t', ys)"
      "topmost (marked t') = merged pp (topmost (marked t))" "pp @ [b] \<in> topmost (marked t)"
      using merge_last_step[OF _ xs p] "1.prems"(1) s by blast
    have "covering I (topmost (marked t'))"
      using covering_merged[OF _ step(4)] "1.prems"(2) s step(3) by simp
    moreover have "merge_down n s = merge_down n (t', ys)"
      using step(1) True s by (simp add: merge_down.simps[of n "(t, xs)"])
    ultimately show ?thesis using "1.IH"[of "(t', ys)"] step(1,2) True s "1.prems"(3) by simp
  qed
qed

text \<open>The state before the first merge.\<close>

lemma ip_at_fold:
  "ip_at (fold (\<lambda>ip t. insert_ip ip ip t) ips t) q = (if q \<in> set ips then Some q else ip_at t q)"
  by (induction ips arbitrary: t) (auto simp: ip_at_insert)

lemma ip_at_empty: "ip_at (Node None Absent Absent) q = None"
  by (cases q) auto

lemma cidr_list_ok:
  "cidr_inv (cidr_list ips) \<and> topmost (marked (fst (cidr_list ips))) = topmost (set ips)"
proof -
  let ?t = "fold (\<lambda>ip t. insert_ip ip ip t) ips (Node None Absent Absent)"
  have at: "ip_at ?t q = (if q \<in> set ips then Some q else None)" for q by (simp add: ip_at_fold ip_at_empty)
  then have marked: "marked ?t = set ips" and can: "canonical ?t"
    by (auto simp: marked_def canonical_def split: if_splits)
  have leafs: "set (get_leafs [] ?t) = (\<lambda>p. (p, p)) ` topmost (marked ?t)"
    using leafs_canonical[OF can, of "[]"] by (simp add: strict_prefix_def)
  have "distinct (map key_of (get_leafs [] ?t))"
  proof -
    have "distinct (map snd (get_leafs [] ?t))" by (rule distinct_get_leafs)
    then have "distinct (get_leafs [] ?t)" by (simp add: distinct_map)
    moreover have "inj_on key_of (set (get_leafs [] ?t))" unfolding leafs by (auto simp: inj_on_def key_inj)
    ultimately show ?thesis by (simp add: distinct_map)
  qed
  then have "sorted_entries (sort_key key_of (get_leafs [] ?t))"
    by (simp add: sorted_entries_def strict_sorted_iff distinct_map)
  then show ?thesis
    using can leafs marked by (simp add: cidr_inv_def cidr_list_def Let_def key_of_def[abs_def])
qed

lemma covering_topmost: "covering I (topmost I)"
proof -
  have "\<exists>p \<in> topmost I. prefix p i" if "i \<in> I" for i
    using that
  proof (induction "length i" arbitrary: i rule: less_induct)
    case less
    show ?case
    proof (cases "i \<in> topmost I")
      case False
      then obtain q where "q \<in> I" "prefix q i" "q \<noteq> i" using less.prems by (auto simp: topmost_def)
      with less.hyps[of q] show ?thesis
        by (meson prefix_length_less prefix_order.le_neq_trans prefix_order.trans strict_prefix_def)
    qed auto
  qed
  then show ?thesis by (auto simp: covering_def topmost_def)
qed

section \<open>Reading the printed blocks\<close>

lemma bits_val_snoc: "bits_val [] = 0" "bits_val (w @ [b]) = 2 * bits_val w + (if b then 1 else 0)"
  by (simp_all add: bits_val.simps)

lemma bits_val_0: "bits_val w = 0 \<longleftrightarrow> w = replicate (length w) False"
proof (induction w rule: rev_induct)
  case (snoc b w)
  have "w @ [b] = replicate (Suc (length w)) False \<longleftrightarrow> w = replicate (length w) False \<and> \<not> b"
    by (simp only: replicate_Suc replicate_append_same[symmetric] append1_eq_conv) simp
  with snoc show ?case by (auto simp: bits_val_snoc)
qed (simp add: bits_val_snoc)

lemma bin_nat_bits_val: "w \<noteq> [] \<Longrightarrow> replicate (length w - length (bin_nat (bits_val w))) False @ bin_nat (bits_val w) = w
    \<and> length (bin_nat (bits_val w)) \<le> length w"
proof (induction w rule: rev_induct)
  case (snoc b w)
  show ?case
  proof (cases "bits_val w = 0")
    case True
    then have w: "w = replicate (length w) False" by (simp add: bits_val_0)
    have "bits_val (w @ [b]) = (if b then 1 else 0)" by (simp add: bits_val_snoc True)
    then have "bin_nat (bits_val (w @ [b])) = [b]" by (simp add: bin_nat.simps)
    with w show ?thesis by simp
  next
    case False
    then have "w \<noteq> []" by (auto simp: bits_val_snoc)
    moreover have "bin_nat (bits_val (w @ [b])) = bin_nat (bits_val w) @ [b]"
      using False by (simp add: bin_nat.simps[of "bits_val (w @ [b])"]) (simp add: bits_val_snoc)
    ultimately show ?thesis using snoc.IH by simp
  qed
qed simp

lemma zfill8_bits: "length w = 8 \<Longrightarrow> zfill8 (bin_nat (bits_val w)) = w"
  using bin_nat_bits_val[of w] by (cases w) (simp_all add: zfill8_def)

lemma all_ints_str_nat: "all_ints (map str_nat ns) = Inr ns"
  by (induction ns) (auto simp: py_int_str_nat)

lemma str_nat_no: "\<not> is_digit c \<Longrightarrow> c \<notin> set (str_nat n)"
  using str_nat_digits[of n] by auto

lemma set_join_on: "set (join_on c ps) \<subseteq> insert c (\<Union> (set ` set ps))"
  by (induction c ps rule: join_on.induct) auto

lemma four_bytes:
  "length x = 32 \<Longrightarrow> concat (map (\<lambda>i. take 8 (drop i x)) [0, 8, 16, 24]) = x"
proof -
  assume x: "length x = 32"
  have "x = take 8 x @ take 8 (drop 8 x) @ take 8 (drop 16 x) @ drop 24 x"
    using append_take_drop_id[of 8 x] append_take_drop_id[of 8 "drop 8 x"] append_take_drop_id[of 8 "drop 16 x"]
    by (metis drop_drop numeral_plus_numeral add_num_simps)
  with x show ?thesis by simp
qed

lemma bytes_back:
  "length x = 32 \<Longrightarrow> map (\<lambda>n. zfill8 (bin_nat n)) (map (\<lambda>i. bits_val (take 8 (drop i x))) [0, 8, 16, 24])
     = map (\<lambda>i. take 8 (drop i x)) [0, 8, 16, 24]"
  by (simp add: zfill8_bits)

lemma split_on_two: "c \<notin> set a \<Longrightarrow> c \<notin> set b \<Longrightarrow> split_on c (a @ c # b) = [a, b]"
  by (simp add: split_on_Cons split_on_plain)

lemma cidr_to_binary_render:
  assumes "length p \<le> 32"
  shows "cidr_to_binary (render_cidr p) = Inr p"
proof -
  let ?x = "p @ replicate (32 - length p) False"
  let ?ns = "map (\<lambda>i. bits_val (take 8 (drop i ?x))) [0, 8, 16, 24]"
  let ?o = "join_on (CHR ''.'') (map str_nat ?ns)"
  have dig: "\<not> is_digit (CHR ''.'')" "\<not> is_digit (CHR ''/'')" by (simp_all add: is_digit_def)
  have slash: "CHR ''/'' \<notin> set ?o"
    using set_join_on[of "CHR ''.''" "map str_nat ?ns"] str_nat_no[OF dig(2)] by auto
  have "render_cidr p = ?o @ CHR ''/'' # str_nat (length p)" by (simp add: render_cidr_def Let_def)
  then have sp: "split_on (CHR ''/'') (render_cidr p) = [?o, str_nat (length p)]"
    using split_on_two[OF slash str_nat_no[OF dig(2)]] by (simp only:)
  have dots: "split_on (CHR ''.'') ?o = map str_nat ?ns"
    by (rule split_join) (auto simp: str_nat_no[OF dig(1)])
  have k: "all_ints [str_nat (length p)] = Inr [length p]" using all_ints_str_nat[of "[length p]"] by simp
  have len: "length ?x = 32" using assms by simp
  then have "map (\<lambda>n. zfill8 (bin_nat n)) ?ns = map (\<lambda>i. take 8 (drop i ?x)) [0, 8, 16, 24]"
    by (rule bytes_back)
  then have "concat (map (\<lambda>n. zfill8 (bin_nat n)) ?ns) = ?x" using four_bytes[OF len] by (simp only:)
  then show ?thesis
    unfolding cidr_to_binary_def sp using k dots all_ints_str_nat[of ?ns] by simp
qed

lemma ip_to_binary_render:
  "\<forall>p \<in> set ps. length p \<le> 32 \<Longrightarrow> ip_to_binary (map render_cidr ps) = Inr ps"
  by (induction ps) (auto simp: cidr_to_binary_render)

section \<open>The result\<close>

lemma merged_blocks_cover_lemma:
  assumes "2 \<le> n"
  shows "\<exists>bs. merged_blocks ips n = Inr bs \<and> int (length bs) \<le> n \<and> distinct bs
    \<and> (\<forall>i \<in> set ips. \<exists>p \<in> set bs. prefix p i) \<and> (\<forall>p \<in> set bs. \<exists>i \<in> set ips. prefix p i)
    \<and> (\<forall>p \<in> set bs. \<forall>q \<in> set bs. prefix p q \<longrightarrow> p = q)
    \<and> (int (card (topmost (set ips))) \<le> n \<longrightarrow> set bs = topmost (set ips))"
proof -
  obtain t0 xs0 where c: "cidr_list ips = (t0, xs0)" by fastforce
  have inv0: "cidr_inv (t0, xs0)" and top0: "topmost (marked t0) = topmost (set ips)"
    using cidr_list_ok[of ips] c by auto
  obtain t xs where m: "merge_down n (t0, xs0) = Inr (t, xs)" "cidr_inv (t, xs)"
    "covering (set ips) (topmost (marked t))" "int (length xs) \<le> n"
    using merge_down_ok[OF assms inv0, of "set ips"] top0 covering_topmost[of "set ips"] by auto
  have fsts: "fst ` set xs = topmost (marked t)" if "cidr_inv (t, xs)" for t xs
    using that by (simp add: cidr_inv_def image_image)
  have exact: "set (map fst xs) = topmost (set ips)" if few: "int (card (topmost (set ips))) \<le> n"
  proof -
    have "length xs0 = card (topmost (set ips))"
      using distinct_card[OF inv_distinct[OF inv0]] fsts[OF inv0] top0 by simp
    with few m(1) have "xs = xs0" by (simp add: merge_down.simps[of n "(t0, xs0)"])
    with fsts[OF inv0] top0 show ?thesis by simp
  qed
  have "merged_blocks ips n = Inr (map fst xs)" by (simp add: merged_blocks_def c m(1))
  moreover have "distinct (map fst xs)" by (rule inv_distinct[OF m(2)])
  moreover have "set (map fst xs) = topmost (marked t)" using fsts[OF m(2)] by simp
  moreover have "\<forall>p \<in> topmost (marked t). \<forall>q \<in> topmost (marked t). prefix p q \<longrightarrow> p = q"
    using topmost_antichain by blast
  moreover have "\<forall>i \<in> set ips. \<exists>p \<in> topmost (marked t). prefix p i" "\<forall>p \<in> topmost (marked t). \<exists>i \<in> set ips. prefix p i"
    using m(3) unfolding covering_def by blast+
  ultimately show ?thesis
    using m(4) exact by (intro exI[of _ "map fst xs"] conjI impI) (simp_all only: length_map)
qed

definition block_has :: "string \<Rightarrow> bits \<Rightarrow> bool" where
  \<comment> \<open>the address, as 32 bits, lies in the block\<close>
  "block_has s a \<longleftrightarrow> (\<exists>p. cidr_to_binary s = Inr p \<and> prefix p a)"

lemma ip_to_binary_set: "ip_to_binary ss = Inr ps \<Longrightarrow> (\<exists>s \<in> set ss. block_has s a) \<longleftrightarrow> (\<exists>p \<in> set ps. prefix p a)"
  by (induction ss arbitrary: ps) (auto simp: bind_res_Inr_iff block_has_def)

section \<open>The shipped list\<close>

definition well_formed :: "string \<Rightarrow> bool" where
  "well_formed s \<longleftrightarrow> is_cidr s \<and> (case cidr_to_binary s of Inl e \<Rightarrow> False | Inr p \<Rightarrow> length p \<le> 32)"

lemma shipped_ok_0: "list_all well_formed (take 20 (drop 0 shipped_cidrs))"
  by code_simp

lemma shipped_ok_1: "list_all well_formed (take 20 (drop 20 shipped_cidrs))"
  by code_simp

lemma shipped_ok_2: "list_all well_formed (take 20 (drop 40 shipped_cidrs))"
  by code_simp

lemma shipped_ok_3: "list_all well_formed (take 20 (drop 60 shipped_cidrs))"
  by code_simp

lemma shipped_ok_4: "list_all well_formed (take 20 (drop 80 shipped_cidrs))"
  by code_simp

lemma shipped_ok: "list_all well_formed shipped_cidrs"
proof -
  have split: "list_all P (drop k xs)" if "list_all P (take 20 (drop k xs))" "list_all P (drop (20 + k) xs)"
    for P k and xs :: "string list"
    using that append_take_drop_id[of 20 "drop k xs"] by (metis drop_drop list_all_append)
  have "drop 100 shipped_cidrs = []" by (simp add: shipped_cidrs_def)
  then have "list_all well_formed (drop 80 shipped_cidrs)" using split[OF shipped_ok_4[simplified]] by simp
  then have "list_all well_formed (drop 60 shipped_cidrs)" using split[OF shipped_ok_3[simplified]] by simp
  then have "list_all well_formed (drop 40 shipped_cidrs)" using split[OF shipped_ok_2[simplified]] by simp
  then have "list_all well_formed (drop 20 shipped_cidrs)" using split[OF shipped_ok_1[simplified]] by simp
  then have "list_all well_formed (drop 0 shipped_cidrs)" using split[of well_formed 0, OF shipped_ok_0[simplified mult_0_right]] by simp
  then show ?thesis by simp
qed

lemma well_formed_binary:
  "list_all well_formed ss \<Longrightarrow>
   filter is_cidr ss = ss \<and> (\<exists>ips. ip_to_binary ss = Inr ips \<and> (\<forall>p \<in> set ips. length p \<le> 32))"
proof (induction ss)
  case (Cons s ss)
  then obtain ips p where "ip_to_binary ss = Inr ips" "\<forall>p \<in> set ips. length p \<le> 32" "cidr_to_binary s = Inr p" "length p \<le> 32"
    by (auto simp: well_formed_def split: sum.splits)
  then have "ip_to_binary (s # ss) = Inr (p # ips) \<and> (\<forall>q \<in> set (p # ips). length q \<le> 32)" by simp
  with Cons show ?case by (auto simp: well_formed_def)
qed simp

section \<open>Properties\<close>

text \<open>C9: With two or more rules allowed, merging always ends with a list of at most \<open>n\<close> blocks, whatever
  the input: every input block lies in one of them, each of them contains an input block, and none lies in
  another. If the topmost input blocks are few enough, they are the result.\<close>

theorem merged_blocks_cover:
  assumes "2 \<le> n"
  shows "\<exists>bs. merged_blocks ips n = Inr bs \<and> int (length bs) \<le> n \<and> distinct bs
    \<and> (\<forall>i \<in> set ips. \<exists>p \<in> set bs. prefix p i) \<and> (\<forall>p \<in> set bs. \<exists>i \<in> set ips. prefix p i)
    \<and> (\<forall>p \<in> set bs. \<forall>q \<in> set bs. prefix p q \<longrightarrow> p = q)
    \<and> (int (card (topmost (set ips))) \<le> n \<longrightarrow> set bs = topmost (set ips))"
  using assms by (rule merged_blocks_cover_lemma)

theorem merged_blocks_cover_witness:
  "\<exists>bs. merged_blocks [[True, False, True], [True, False, False], [False]] 2 = Inr bs \<and> length bs \<le> 2
     \<and> (\<exists>p \<in> set bs. prefix p [True, False, True])"
proof -
  have "(2 :: int) \<le> 2" by simp
  from merged_blocks_cover[OF this, of "[[True, False, True], [True, False, False], [False]]"] show ?thesis by auto
qed

text \<open>C10: The script's answer as text: with two or more rules allowed and well-formed blocks of at most 32
  bits, it prints at most that many blocks, and reading them back, every address of an input block is in a
  printed block; when the topmost input blocks are few enough, the two sets of addresses are equal.\<close>

theorem simplify_keeps_addresses:
  assumes "2 \<le> n" "ip_to_binary (filter is_cidr cidrs) = Inr ips" "\<forall>p \<in> set ips. length p \<le> 32"
  shows "\<exists>res. simplify cidrs n = Inr res \<and> int (length res) \<le> n
    \<and> (\<forall>a. (\<exists>s \<in> set (filter is_cidr cidrs). block_has s a) \<longrightarrow> (\<exists>s \<in> set res. block_has s a))
    \<and> (int (card (topmost (set ips))) \<le> n \<longrightarrow>
         (\<forall>a. (\<exists>s \<in> set (filter is_cidr cidrs). block_has s a) \<longleftrightarrow> (\<exists>s \<in> set res. block_has s a)))"
proof -
  obtain bs where bs: "merged_blocks ips n = Inr bs" "int (length bs) \<le> n"
    "\<forall>i \<in> set ips. \<exists>p \<in> set bs. prefix p i" "\<forall>p \<in> set bs. \<exists>i \<in> set ips. prefix p i"
    "int (card (topmost (set ips))) \<le> n \<longrightarrow> set bs = topmost (set ips)"
    using merged_blocks_cover_lemma[OF assms(1), of ips] by blast
  have "\<forall>p \<in> set bs. length p \<le> 32"
    using bs(4) assms(3) by (meson le_trans prefix_length_le)
  then have reread: "ip_to_binary (map render_cidr bs) = Inr bs" by (rule ip_to_binary_render)
  have text_out: "simplify cidrs n = Inr (map render_cidr bs)"
    by (simp add: simplify_def get_cidrs_def assms(2) bs(1))
  have cover: "\<forall>a. (\<exists>p \<in> set ips. prefix p a) \<longrightarrow> (\<exists>p \<in> set bs. prefix p a)"
    using bs(3) prefix_order.trans by blast
  have exact: "\<forall>a. (\<exists>p \<in> set ips. prefix p a) \<longleftrightarrow> (\<exists>p \<in> set bs. prefix p a)"
    if "int (card (topmost (set ips))) \<le> n"
  proof -
    have "set bs \<subseteq> set ips" using that bs(5) by (auto simp: topmost_def)
    then show ?thesis using cover by blast
  qed
  show ?thesis
    unfolding ip_to_binary_set[OF assms(2)]
  proof (intro exI[of _ "map render_cidr bs"] conjI impI)
    show "simplify cidrs n = Inr (map render_cidr bs)" by (rule text_out)
    show "int (length (map render_cidr bs)) \<le> n" using bs(2) by simp
    show "\<forall>a. (\<exists>p \<in> set ips. prefix p a) \<longrightarrow> (\<exists>s \<in> set (map render_cidr bs). block_has s a)"
      unfolding ip_to_binary_set[OF reread] by (rule cover)
    show "\<forall>a. (\<exists>p \<in> set ips. prefix p a) \<longleftrightarrow> (\<exists>s \<in> set (map render_cidr bs). block_has s a)"
      if "int (card (topmost (set ips))) \<le> n"
      unfolding ip_to_binary_set[OF reread] using that by (rule exact)
  qed
qed

theorem simplify_keeps_addresses_witness:
  "\<exists>res. script_blocks None = Inr res \<and> length res \<le> 60
    \<and> (\<forall>a. (\<exists>s \<in> set shipped_cidrs. block_has s a) \<longrightarrow> (\<exists>s \<in> set res. block_has s a))"
proof -
  obtain ips where ips: "filter is_cidr shipped_cidrs = shipped_cidrs" "ip_to_binary shipped_cidrs = Inr ips"
    "\<forall>p \<in> set ips. length p \<le> 32"
    using well_formed_binary[OF shipped_ok] by blast
  then have "ip_to_binary (filter is_cidr shipped_cidrs) = Inr ips" by simp
  from simplify_keeps_addresses[OF _ this ips(3), of 60]
  obtain res where "simplify shipped_cidrs 60 = Inr res" "int (length res) \<le> 60"
    "\<forall>a. (\<exists>s \<in> set (filter is_cidr shipped_cidrs). block_has s a) \<longrightarrow> (\<exists>s \<in> set res. block_has s a)" by auto
  then show ?thesis by (intro exI[of _ res]) (simp add: script_blocks_def ips(1))
qed

text \<open>
  With one rule allowed, the default of \<open>get_cidrs\<close>, the merge can reach the root, whose block is written as
  the bit \<open>0\<close>: the upper half of the addresses is lost.
\<close>

lemma root_merge_loses_half:
  "get_cidrs [[False], [True]] 1 = Inr [''0.0.0.0/1''] \<and> get_cidrs [[False, True], [True, True]] 1 = Inr [''0.0.0.0/1'']"
  by code_simp

end
