(* ===== verification/Gpu_Capacity.thy ===== *)
theory Gpu_Capacity
  imports Kube
begin

section \<open>Free GPUs of the reservation cluster\<close>

text \<open>
  Two lambdas of the GPU reservation system compute how many GPUs of a type are free: the availability
  updater, which advertises them (\<open>availability_updater/index.py\<close>), and the reservation processor, which
  decides whether a reservation can be placed (\<open>reservation_processor/index.py\<close>). Both are modelled
  here over the same nodes and pods, as the Python client of Kubernetes delivers them. An object or a
  list that is absent is \<open>None\<close> where the code would raise on it, and empty where the code tests its truth.
\<close>

subsection \<open>Objects\<close>

record GStatus =
  g_conditions :: "(string \<times> string) list" \<comment> \<open>type and status\<close>
  g_allocatable :: "(string, string) dict"

record GSpec =
  g_unschedulable :: bool
  g_taints :: "(string \<times> string) list" \<comment> \<open>key and effect\<close>

record GNode =
  g_name :: string
  g_labels :: "(string, string) dict"
  g_status :: "GStatus option"
  g_spec :: "GSpec option"

record GPodSpec =
  gp_node :: string
  gp_requests :: "(string, string) dict list" \<comment> \<open>of each container\<close>

record GPod =
  gp_name :: string
  gp_labels :: "(string, string) dict"
  gp_phase :: "string option" \<comment> \<open>\<open>None\<close>: the pod has no status\<close>
  gp_spec :: "GPodSpec option"

text \<open>The entries of the configuration \<open>SUPPORTED_GPU_TYPES\<close>.\<close>

record GpuCfg =
  cfg_resource :: "string option"
  cfg_node_type :: "string option"
  cfg_per_instance :: "int option"

type_synonym gpu_types = "(string, GpuCfg) dict"

definition gpu_resource_name :: "gpu_types \<Rightarrow> string \<Rightarrow> string" where
  "gpu_resource_name types t =
     (case dget types t of
        None \<Rightarrow> ''nvidia.com/gpu''
      | Some c \<Rightarrow> (case cfg_resource c of None \<Rightarrow> ''nvidia.com/gpu'' | Some r \<Rightarrow> r))"

definition node_label_value :: "gpu_types \<Rightarrow> string \<Rightarrow> string" where
  "node_label_value types t =
     (case dget types t of
        None \<Rightarrow> t
      | Some c \<Rightarrow> (case cfg_node_type c of None \<Rightarrow> t | Some v \<Rightarrow> v))"

subsection \<open>The cluster API\<close>

text \<open>Every call is answered by an environment, which sees the number of calls so far.\<close>

record kapi =
  k_nodes_r :: "nat \<Rightarrow> string option \<Rightarrow> GNode list res" \<comment> \<open>with a value of the label \<open>GpuType\<close>, or all\<close>
  k_pods_on_r :: "nat \<Rightarrow> string \<Rightarrow> GPod list res" \<comment> \<open>the pods of a node\<close>
  k_pods_r :: "nat \<Rightarrow> GPod list res" \<comment> \<open>the pods of the namespace \<open>gpu-dev\<close>\<close>

definition py_int_or :: "string \<Rightarrow> int \<Rightarrow> int" where
  \<comment> \<open>\<open>try: int(s) except (ValueError, TypeError)\<close> with a default\<close>
  "py_int_or s d = (case py_int s of None \<Rightarrow> d | Some n \<Rightarrow> n)"

definition warm_ready :: "GPod \<Rightarrow> bool" where
  "warm_ready p \<longleftrightarrow> dget (gp_labels p) ''app'' = Some ''gpu-dev-warm'' \<and> dget (gp_labels p) ''warm-state'' = Some ''ready''"

subsection \<open>The availability updater\<close>

fun first_ready :: "(string \<times> string) list \<Rightarrow> bool" where
  \<comment> \<open>the status of the first condition \<open>Ready\<close>\<close>
  "first_ready [] = False"
| "first_ready ((t, s) # cs) = (if t = ''Ready'' then s = ''True'' else first_ready cs)"

definition node_ready_upd :: "GNode \<Rightarrow> bool" where
  \<comment> \<open>an exception counts as not ready\<close>
  "node_ready_upd n =
     (case g_status n of
        None \<Rightarrow> False
      | Some st \<Rightarrow>
          first_ready (g_conditions st) \<and> (case g_spec n of None \<Rightarrow> False | Some sp \<Rightarrow> \<not> g_unschedulable sp))"

definition requests_upd :: "string \<Rightarrow> (string, string) dict list \<Rightarrow> int" where
  "requests_upd resource rs = sum_list (map (\<lambda>r. if r = [] then 0 else py_int_or (dget_or r resource ''0'') 0) rs)"

fun used_upd :: "string \<Rightarrow> GPod list \<Rightarrow> int res" where
  "used_upd resource [] = Inr 0"
| "used_upd resource (p # ps) =
     (case gp_phase p of
        None \<Rightarrow> Inl AttributeError
      | Some ph \<Rightarrow>
          (if ph \<in> {''Running'', ''Pending''} \<and> \<not> warm_ready p then
             (case gp_spec p of
                None \<Rightarrow> Inl AttributeError
              | Some sp \<Rightarrow> bind_res (used_upd resource ps) (\<lambda>u. Inr (requests_upd resource (gp_requests sp) + u)))
           else used_upd resource ps))"

definition allocatable_upd :: "string \<Rightarrow> GNode \<Rightarrow> int res" where
  "allocatable_upd resource n =
     (case g_status n of
        None \<Rightarrow> Inl AttributeError
      | Some st \<Rightarrow> Inr (if g_allocatable st = [] then 0 else py_int_or (dget_or (g_allocatable st) resource ''0'') 0))"

definition available_upd :: "kapi \<Rightarrow> string \<Rightarrow> GNode \<Rightarrow> nat \<Rightarrow> int \<times> nat" where
  \<comment> \<open>\<open>get_available_gpus_on_node\<close>: an exception gives 0\<close>
  "available_upd K resource n i =
     ((case bind_res (k_pods_on_r K i (g_name n)) (\<lambda>ps.
             bind_res (used_upd resource ps) (\<lambda>used.
             bind_res (allocatable_upd resource n) (\<lambda>tot. Inr (max 0 (tot - used))))) of
         Inl _ \<Rightarrow> 0
       | Inr a \<Rightarrow> a), Suc i)"

fun sum_available_upd :: "kapi \<Rightarrow> string \<Rightarrow> GNode list \<Rightarrow> nat \<Rightarrow> int \<times> nat" where
  "sum_available_upd K resource [] i = (0, i)"
| "sum_available_upd K resource (n # ns) i =
     (if node_ready_upd n then
        (case available_upd K resource n i of
           (a, i1) \<Rightarrow> (case sum_available_upd K resource ns i1 of (s, i2) \<Rightarrow> (a + s, i2)))
      else sum_available_upd K resource ns i)"

definition schedulable_upd :: "kapi \<Rightarrow> gpu_types \<Rightarrow> string \<Rightarrow> nat \<Rightarrow> int \<times> nat" where
  \<comment> \<open>\<open>check_schedulable_gpus_for_type\<close> of the availability updater\<close>
  "schedulable_upd K types t i =
     (case k_nodes_r K i (Some (node_label_value types t)) of
        Inl _ \<Rightarrow> (0, Suc i)
      | Inr ns \<Rightarrow> sum_available_upd K (gpu_resource_name types t) ns (Suc i))"

subsection \<open>The reservation processor\<close>

definition node_ready_proc :: "GNode \<Rightarrow> bool" where
  "node_ready_proc n \<longleftrightarrow>
     (case g_status n of None \<Rightarrow> False | Some st \<Rightarrow> (''Ready'', ''True'') \<in> set (g_conditions st))
     \<and> (case g_spec n of
          None \<Rightarrow> True
        | Some sp \<Rightarrow>
            \<not> g_unschedulable sp
            \<and> list_all (\<lambda>(key, effect). \<not> (effect = ''NoSchedule'' \<and> key \<noteq> ''nvidia.com/gpu'')) (g_taints sp))"

fun requests_proc :: "string \<Rightarrow> (string, string) dict list \<Rightarrow> int res" where
  "requests_proc resource [] = Inr 0"
| "requests_proc resource (r # rs) =
     (if r = [] then requests_proc resource rs
      else case py_int (dget_or r resource ''0'') of
          None \<Rightarrow> Inl ValueError
        | Some n \<Rightarrow> bind_res (requests_proc resource rs) (\<lambda>u. Inr (n + u)))"

fun used_proc :: "string \<Rightarrow> GPod list \<Rightarrow> int res" where
  "used_proc resource [] = Inr 0"
| "used_proc resource (p # ps) =
     (case gp_phase p of
        None \<Rightarrow> Inl AttributeError
      | Some ph \<Rightarrow>
          (if ph \<in> {''Running'', ''Pending''} \<and> \<not> warm_ready p then
             (case gp_spec p of
                None \<Rightarrow> Inl AttributeError
              | Some sp \<Rightarrow>
                  bind_res (requests_proc resource (gp_requests sp)) (\<lambda>r.
                  bind_res (used_proc resource ps) (\<lambda>u. Inr (r + u))))
           else used_proc resource ps))"

definition allocatable_proc :: "string \<Rightarrow> GNode \<Rightarrow> int res" where
  "allocatable_proc resource n =
     (case g_status n of
        None \<Rightarrow> Inl AttributeError
      | Some st \<Rightarrow>
          (case py_int (dget_or (g_allocatable st) resource ''0'') of None \<Rightarrow> Inl ValueError | Some k \<Rightarrow> Inr k))"

definition available_proc :: "kapi \<Rightarrow> string \<Rightarrow> GNode \<Rightarrow> nat \<Rightarrow> int \<times> nat" where
  "available_proc K resource n i =
     (case allocatable_proc resource n of
        Inl _ \<Rightarrow> (0, i)
      | Inr tot \<Rightarrow>
          (if tot = 0 then (0, i)
           else
             ((case bind_res (k_pods_on_r K i (g_name n)) (\<lambda>ps.
                     bind_res (used_proc resource ps) (\<lambda>used. Inr (max 0 (tot - used)))) of
                 Inl _ \<Rightarrow> 0
               | Inr a \<Rightarrow> a), Suc i)))"

fun gate_nodes :: "kapi \<Rightarrow> gpu_types \<Rightarrow> string \<Rightarrow> GNode list \<Rightarrow> nat \<Rightarrow> int list \<times> nat" where
  \<comment> \<open>the free GPUs of each node that passes the label and readiness checks of the loops\<close>
  "gate_nodes K types t [] i = ([], i)"
| "gate_nodes K types t (n # ns) i =
     (if dget (g_labels n) ''GpuType'' = Some (node_label_value types t) \<and> node_ready_proc n then
        (case available_proc K (gpu_resource_name types t) n i of
           (a, i1) \<Rightarrow> (case gate_nodes K types t ns i1 of (as, i2) \<Rightarrow> (a # as, i2)))
      else gate_nodes K types t ns i)"

definition schedulable_proc :: "kapi \<Rightarrow> gpu_types \<Rightarrow> string \<Rightarrow> nat \<Rightarrow> int \<times> nat" where
  \<comment> \<open>\<open>check_schedulable_gpus_for_type\<close> of the reservation processor\<close>
  "schedulable_proc K types t i =
     (case k_nodes_r K i None of
        Inl _ \<Rightarrow> (0, Suc i)
      | Inr ns \<Rightarrow> (case gate_nodes K types t ns (Suc i) of (as, i1) \<Rightarrow> (sum_list as, i1)))"

definition max_on_single_node :: "kapi \<Rightarrow> gpu_types \<Rightarrow> string \<Rightarrow> nat \<Rightarrow> int \<times> nat" where
  \<comment> \<open>\<open>check_max_gpus_on_single_node\<close>\<close>
  "max_on_single_node K types t i =
     (case k_nodes_r K i None of
        Inl _ \<Rightarrow> (0, Suc i)
      | Inr ns \<Rightarrow> (case gate_nodes K types t ns (Suc i) of (as, i1) \<Rightarrow> (fold max as 0, i1)))"

end
