(* ===== verification/Dynamo.thy ===== *)
theory Dynamo
  imports Py_Text
begin

section \<open>DynamoDB rows\<close>

text \<open>
  The lambdas of the GPU reservation system keep their state in DynamoDB tables. A row, as boto3 delivers
  it, is a dictionary from attribute names to values; numbers are \<open>Decimal\<close>s, so exact rationals. A set
  of DynamoDB is written as a list. The value \<open>None\<close> of Python, which \<open>get\<close> returns for an absent
  attribute, and the DynamoDB value \<open>NULL\<close> are both \<open>DNull\<close>.
\<close>

datatype ddb = DNull | DBool bool | DNum rat | DStr string | DList "ddb list" | DMap "(string \<times> ddb) list"

type_synonym row = "(string, ddb) dict"

definition attr :: "row \<Rightarrow> string \<Rightarrow> ddb" where
  \<comment> \<open>\<open>r.get(a)\<close>\<close>
  "attr r a = dget_or r a DNull"

fun ddb_true :: "ddb \<Rightarrow> bool" where
  "ddb_true DNull = False"
| "ddb_true (DBool b) = b"
| "ddb_true (DNum q) = (q \<noteq> 0)"
| "ddb_true (DStr s) = (s \<noteq> [])"
| "ddb_true (DList l) = (l \<noteq> [])"
| "ddb_true (DMap m) = (m \<noteq> [])"

fun num_to_int :: "ddb \<Rightarrow> int option" where
  \<comment> \<open>\<open>int(float(v))\<close> of a value that is not a string; \<open>None\<close> when it raises\<close>
  "num_to_int (DNum q) = Some (ftrunc (fl q))"
| "num_to_int (DBool b) = Some (if b then 1 else 0)"
| "num_to_int _ = None"

text \<open>
  A scan is paginated; its answer is the pages the loop goes through, and the error that ends it, if any
  (a table is finite, so the loop ends).
\<close>

type_synonym scan = "row list list \<times> exc option"

definition scan_rows :: "scan \<Rightarrow> row list res" where
  "scan_rows sc = (case snd sc of None \<Rightarrow> Inr (concat (fst sc)) | Some e \<Rightarrow> Inl e)"

lemma attr_simps [simp]: "attr [] a = DNull" "attr ((b, v) # r) a = (if b = a then v else attr r a)"
  by (simp_all add: attr_def dget_or_def dict_simps)

end
