(* ===== verification/Gpu_Availability.thy ===== *)
theory Gpu_Availability
  imports Gpu_Capacity Dynamo
begin

section \<open>The availability updater\<close>

text \<open>
  \<open>src/gpu-dev/terraform-gpu-devservers/lambda/availability_updater/index.py\<close>: on every change of an
  auto-scaling group, and every five minutes, the lambda writes for each GPU type how many GPUs are free, the
  largest reservation that fits and when each reservation size first becomes available, removes the rows of
  types that are no longer configured, and scales idle spot groups to zero. The ISO parser of the standard
  library, \<open>datetime.fromisoformat\<close> together with the replacement of an absent time zone by UTC,
  is the argument \<open>isop\<close>: it gives the microseconds since the epoch.
\<close>

definition parse_expires_at :: "(string \<Rightarrow> int option) \<Rightarrow> ddb \<Rightarrow> int option" where
  "parse_expires_at isop v =
     (case v of
        DStr u \<Rightarrow>
          (let s = strip u in
           if s = [] then None
           else case isop (if endswith s ''Z'' then drop_end 1 s @ ''+00:00'' else s) of
                  Some us \<Rightarrow> Some (ftrunc (total_seconds us))
                | None \<Rightarrow> map_option ftrunc (py_float s))
      | _ \<Rightarrow> num_to_int v)"

subsection \<open>When a size becomes available\<close>

record NodeEta =
  eta_capacity :: int
  eta_used :: int
  eta_expirations :: "(int \<times> int) list" \<comment> \<open>time and GPUs\<close>

definition capacity_of :: "string \<Rightarrow> GNode \<Rightarrow> int" where
  "capacity_of resource n =
     (case g_status n of
        None \<Rightarrow> 0 \<comment> \<open>not reached: such a node is not ready\<close>
      | Some st \<Rightarrow> py_int_or (dget_or (g_allocatable st) resource ''0'') 0)"

fun eta_nodes :: "string \<Rightarrow> GNode list \<Rightarrow> (string, NodeEta) dict \<Rightarrow> (string, NodeEta) dict" where
  "eta_nodes resource [] d = d"
| "eta_nodes resource (n # ns) d =
     (if node_ready_upd n \<and> capacity_of resource n \<noteq> 0 then
        eta_nodes resource ns
          (dset (g_name n) \<lparr>eta_capacity = capacity_of resource n, eta_used = 0, eta_expirations = []\<rparr> d)
      else eta_nodes resource ns d)"

definition eta_pod :: "string \<Rightarrow> (string, NodeEta) dict \<Rightarrow> GPod \<Rightarrow> (string \<times> int) option" where
  \<comment> \<open>the node and the GPUs of a pod that is counted\<close>
  "eta_pod resource d p =
     (case gp_spec p of
        None \<Rightarrow> None
      | Some sp \<Rightarrow>
          (if gp_node sp = [] \<or> gp_node sp \<notin> set (dkeys d) then None
           else if (case gp_phase p of None \<Rightarrow> False | Some ph \<Rightarrow> ph \<notin> {''Running'', ''Pending''}) then None
           else let g = requests_upd resource (gp_requests sp) in
                if g > 0 then Some (gp_node sp, g) else None))"

definition add_used :: "string \<Rightarrow> int \<Rightarrow> (string, NodeEta) dict \<Rightarrow> (string, NodeEta) dict" where
  "add_used nm g d =
     (case dget d nm of None \<Rightarrow> d | Some ns \<Rightarrow> dset nm (ns\<lparr>eta_used := eta_used ns + g\<rparr>) d)"

fun eta_pods ::
  "string \<Rightarrow> GPod list \<Rightarrow> (string, string \<times> int) dict \<times> (string, NodeEta) dict \<Rightarrow>
   (string, string \<times> int) dict \<times> (string, NodeEta) dict" where
  "eta_pods resource [] s = s"
| "eta_pods resource (p # ps) (info, d) =
     (case eta_pod resource d p of
        None \<Rightarrow> eta_pods resource ps (info, d)
      | Some (nm, g) \<Rightarrow> eta_pods resource ps (dset (gp_name p) (nm, g) info, add_used nm g d))"

definition same_type :: "string \<Rightarrow> ddb \<Rightarrow> bool" where
  \<comment> \<open>the row is not skipped for its GPU type\<close>
  "same_type t v = (case v of DStr u \<Rightarrow> lower u = lower t | _ \<Rightarrow> True)"

definition eta_expiry ::
  "(string \<Rightarrow> int option) \<Rightarrow> string \<Rightarrow> (string, string \<times> int) dict \<Rightarrow> row \<Rightarrow> (string \<times> int \<times> int) option res" where
  \<comment> \<open>the node, the time and the GPUs that the row's reservation gives back; a list or a map as the
      pod's name cannot be looked up in a dictionary\<close>
  "eta_expiry isop t info r =
     (if \<not> same_type t (dget_or r ''gpu_type'' (DStr [])) then Inr None
      else if \<not> ddb_true (attr r ''pod_name'') \<or> attr r ''expires_at'' = DNull then Inr None
      else case attr r ''pod_name'' of
          DStr pn \<Rightarrow>
            Inr (case dget info pn of
                   None \<Rightarrow> None
                 | Some (nm, g) \<Rightarrow> map_option (\<lambda>ts. (nm, ts, g)) (parse_expires_at isop (attr r ''expires_at'')))
        | DList _ \<Rightarrow> Inl OtherError
        | DMap _ \<Rightarrow> Inl OtherError
        | _ \<Rightarrow> Inr None)"

definition add_expiry :: "string \<Rightarrow> int \<times> int \<Rightarrow> (string, NodeEta) dict \<Rightarrow> (string, NodeEta) dict" where
  "add_expiry nm x d =
     (case dget d nm of None \<Rightarrow> d | Some ns \<Rightarrow> dset nm (ns\<lparr>eta_expirations := eta_expirations ns @ [x]\<rparr>) d)"

fun eta_rows ::
  "(string \<Rightarrow> int option) \<Rightarrow> string \<Rightarrow> (string, string \<times> int) dict \<Rightarrow> row list \<Rightarrow>
   (string, NodeEta) dict \<Rightarrow> (string, NodeEta) dict res" where
  "eta_rows isop t info [] d = Inr d"
| "eta_rows isop t info (r # rs) d =
     bind_res (eta_expiry isop t info r) (\<lambda>o'. case o' of
         None \<Rightarrow> eta_rows isop t info rs d
       | Some (nm, x) \<Rightarrow> eta_rows isop t info rs (add_expiry nm x d))"

definition sort_expirations :: "NodeEta \<Rightarrow> NodeEta" where
  "sort_expirations ns = ns\<lparr>eta_expirations := sort (eta_expirations ns)\<rparr>"

definition free_now :: "NodeEta \<Rightarrow> int" where
  "free_now ns = eta_capacity ns - eta_used ns"

fun first_fit_time :: "int \<Rightarrow> int \<Rightarrow> (int \<times> int) list \<Rightarrow> int option" where
  \<comment> \<open>the first expiration at which the running sum reaches the size\<close>
  "first_fit_time sz cum [] = None"
| "first_fit_time sz cum ((ts, g) # xs) = (if cum + g \<ge> sz then Some ts else first_fit_time sz (cum + g) xs)"

definition earlier :: "int option \<Rightarrow> int option \<Rightarrow> int option" where
  "earlier a b =
     (case b of None \<Rightarrow> a | Some ts \<Rightarrow> (case a of None \<Rightarrow> b | Some e \<Rightarrow> if ts < e then b else a))"

fun fits_single :: "int \<Rightarrow> int \<Rightarrow> int option \<Rightarrow> NodeEta list \<Rightarrow> int option" where
  "fits_single now sz earliest [] = earliest"
| "fits_single now sz earliest (ns # rest) =
     (if free_now ns \<ge> sz then Some now
      else fits_single now sz (earlier earliest (first_fit_time sz (free_now ns) (eta_expirations ns))) rest)"

definition first_time_size_fits_single_node :: "int \<Rightarrow> NodeEta list \<Rightarrow> int \<Rightarrow> int option" where
  "first_time_size_fits_single_node now nss sz = fits_single now sz None nss"

definition node_free_at :: "int \<Rightarrow> NodeEta \<Rightarrow> int option" where
  "node_free_at now ns =
     (if eta_used ns = 0 then Some now
      else if eta_expirations ns \<noteq> [] then Some (Max (fst ` set (eta_expirations ns)))
      else None)"

definition first_time_k_full_nodes :: "int \<Rightarrow> NodeEta list \<Rightarrow> nat \<Rightarrow> int option" where
  "first_time_k_full_nodes now nss k =
     (let free_at = sort (List.map_filter (node_free_at now) nss) in
      if length free_at \<ge> k then Some (free_at ! (k - 1)) else None)"

definition MULTINODE_TYPES :: "string list" where
  "MULTINODE_TYPES = [''h100'', ''h200'', ''b200'', ''a100'']"

definition single_sizes :: "int \<Rightarrow> nat list" where
  \<comment> \<open>\<open>for size in (1, 2, 4, 8)\<close> with the early \<open>break\<close>\<close>
  "single_sizes per = takeWhile (\<lambda>sz. int sz \<le> per) [1, 2, 4, 8]"

definition etas_of :: "int \<Rightarrow> string \<Rightarrow> int \<Rightarrow> NodeEta list \<Rightarrow> (string, int) dict" where
  "etas_of now t per nss =
     (let etas1 = fold (\<lambda>sz d. case first_time_size_fits_single_node now nss (int sz) of
                            None \<Rightarrow> d | Some e \<Rightarrow> dset (str_nat sz) e d) (single_sizes per) []
      in if per = 8 \<and> lower t \<in> set MULTINODE_TYPES then
           fold (\<lambda>k d. case first_time_k_full_nodes now nss k of
                     None \<Rightarrow> d | Some e \<Rightarrow> dset (str_nat (k * nat per)) e d) [2, 3, 4, 5, 6] etas1
         else etas1)"

definition node_states ::
  "(string \<Rightarrow> int option) \<Rightarrow> string \<Rightarrow> string \<Rightarrow> row list \<Rightarrow> GNode list \<Rightarrow> GPod list \<Rightarrow> (string, NodeEta) dict res" where
  \<comment> \<open>steps 1 to 3 of \<open>compute_size_etas\<close>\<close>
  "node_states isop t resource active ns ps =
     (case eta_pods resource ps ([], eta_nodes resource ns []) of
        (info, d) \<Rightarrow>
          bind_res (eta_rows isop t info active d) (\<lambda>d'. Inr (map (\<lambda>(k, x). (k, sort_expirations x)) d')))"

definition compute_size_etas ::
  "(string \<Rightarrow> int option) \<Rightarrow> kapi \<Rightarrow> gpu_types \<Rightarrow> string \<Rightarrow> int \<Rightarrow> row list \<Rightarrow> int \<Rightarrow> nat \<Rightarrow>
   (string, int) dict res \<times> nat" where
  \<comment> \<open>\<open>now\<close> is the clock reading at the start\<close>
  "compute_size_etas isop K types t per active now i =
     (case k_nodes_r K i (Some (node_label_value types t)) of
        Inl _ \<Rightarrow> (Inr [], Suc i)
      | Inr ns \<Rightarrow>
          (if eta_nodes (gpu_resource_name types t) ns [] = [] then (Inr [], Suc i)
           else case k_pods_r K (Suc i) of
               Inl _ \<Rightarrow> (Inr [], Suc (Suc i))
             | Inr ps \<Rightarrow>
                 (bind_res (node_states isop t (gpu_resource_name types t) active ns ps) (\<lambda>d.
                    Inr (etas_of now t per (dvals d))), Suc (Suc i))))"

end
