(* ===== verification/Gpu_Updater.thy ===== *)
theory Gpu_Updater
  imports Gpu_Availability
begin

section \<open>The availability updater: the handler\<close>

text \<open>
  The rest of \<open>availability_updater/index.py\<close>: the row written for a GPU type, the removal of stale rows, and
  the scale-down of idle spot groups. The state of a run is the number of calls made so far, which
  indexes the answers of the environment, and the log of what was read and written, newest first.
\<close>

record ASG =
  asg_name :: string
  asg_desired :: int
  asg_states :: "string list" \<comment> \<open>the life-cycle states of the instances\<close>
  asg_tags :: "(string \<times> string) list"

record AvailRow =
  row_total :: int
  row_available :: int
  row_max_reservable :: int
  row_full_nodes :: int
  row_running :: int
  row_desired :: int
  row_per_instance :: int
  row_last_updated :: string
  row_timestamp :: int
  row_etas :: "(string, int) dict"
  row_spot :: "(string, string) dict" \<comment> \<open>empty: not written\<close>

datatype aevent =
    AvWrite string AvailRow \<comment> \<open>\<open>update_item\<close> of the availability table\<close>
  | AvDeleteRow string
  | AvQuery string "row list" \<comment> \<open>the reservations of a status\<close>
  | AvDescribe string "ASG list"
  | AvTime flt
  | AvStamp string int
  | AvScaleDown string

record aenv = kapi +
  a_setup_r :: "nat \<Rightarrow> unit res" \<comment> \<open>\<open>setup_kubernetes_client\<close>\<close>
  a_asgs_r :: "nat \<Rightarrow> ASG list res"
  a_asg_r :: "nat \<Rightarrow> string \<Rightarrow> ASG list res"
  a_time_r :: "nat \<Rightarrow> flt"
  a_spot_info_r :: "nat \<Rightarrow> string \<Rightarrow> (string, string) dict" \<comment> \<open>\<open>get_spot_price_info\<close>, which never raises\<close>
  a_write_r :: "nat \<Rightarrow> string \<Rightarrow> unit res"
  a_delete_r :: "nat \<Rightarrow> string \<Rightarrow> unit res"
  a_active_r :: "nat \<Rightarrow> scan" \<comment> \<open>the active reservations\<close>
  a_types_r :: "nat \<Rightarrow> scan" \<comment> \<open>the keys of the availability table\<close>
  a_query_r :: "nat \<Rightarrow> string \<Rightarrow> row list res" \<comment> \<open>one page of the index by status\<close>
  a_stamp_r :: "nat \<Rightarrow> string \<Rightarrow> unit res"
  a_desire_r :: "nat \<Rightarrow> string \<Rightarrow> unit res"

record acfg =
  ac_types :: gpu_types \<comment> \<open>\<open>SUPPORTED_GPU_TYPES\<close>\<close>
  ac_spot :: string \<comment> \<open>\<open>SPOT_GPU_TYPES\<close>\<close>
  ac_keepalive :: flt \<comment> \<open>\<open>SPOT_KEEPALIVE_MINUTES\<close>\<close>
  ac_prefix :: string \<comment> \<open>\<open>ASG_NAME_PREFIX\<close>\<close>

type_synonym astate = "nat \<times> aevent list"

subsection \<open>The row of a type\<close>

definition per_instance :: "gpu_types \<Rightarrow> string \<Rightarrow> int" where
  "per_instance types t =
     (case dget types t of None \<Rightarrow> 8 | Some c \<Rightarrow> (case cfg_per_instance c of None \<Rightarrow> 8 | Some n \<Rightarrow> n))"

definition is_mig_sku :: "gpu_types \<Rightarrow> string \<Rightarrow> bool" where
  "is_mig_sku types t = (case dget types t of None \<Rightarrow> False | Some c \<Rightarrow> cfg_resource c \<noteq> None)"

definition matching_asgs :: "gpu_types \<Rightarrow> string \<Rightarrow> ASG list \<Rightarrow> ASG list" where
  "matching_asgs types t asgs =
     filter (\<lambda>a. startswith (asg_name a) (''pytorch-gpu-dev-gpu-nodes-'' @ node_label_value types t)) asgs"

definition running_of :: "ASG list \<Rightarrow> int" where
  "running_of asgs = sum_list (map (\<lambda>a. int (length (filter (\<lambda>s. s = ''InService'') (asg_states a)))) asgs)"

fun measure_nodes :: "('z) kapi_scheme \<Rightarrow> string \<Rightarrow> GNode list \<Rightarrow> nat \<Rightarrow> (int \<times> int) list \<times> nat" where
  \<comment> \<open>the allocatable and the available GPUs of each ready node\<close>
  "measure_nodes K resource [] i = ([], i)"
| "measure_nodes K resource (n # ns) i =
     (if node_ready_upd n then
        (case available_upd (kapi.truncate K) resource n i of
           (a, i1) \<Rightarrow> (case measure_nodes K resource ns i1 of
                        (xs, i2) \<Rightarrow> ((capacity_of resource n, a) # xs, i2)))
      else measure_nodes K resource ns i)"

fun mig_nodes :: "string \<Rightarrow> GNode list \<Rightarrow> int res" where
  \<comment> \<open>the ready nodes that offer the resource; an unparseable quantity raises here\<close>
  "mig_nodes resource [] = Inr 0"
| "mig_nodes resource (n # ns) =
     (if \<not> node_ready_upd n then mig_nodes resource ns
      else case (case g_status n of None \<Rightarrow> None | Some st \<Rightarrow> py_int (dget_or (g_allocatable st) resource ''0'')) of
          None \<Rightarrow> Inl ValueError
        | Some k \<Rightarrow> bind_res (mig_nodes resource ns) (\<lambda>m. Inr (m + (if k > 0 then 1 else 0))))"

definition full_counts :: "(int \<times> int) list \<Rightarrow> int list" where
  "full_counts xs = map fst (filter (\<lambda>(tot, a). tot > 0 \<and> a = tot) xs)"

definition single_node_max :: "(int \<times> int) list \<Rightarrow> int" where
  "single_node_max xs = fold (\<lambda>(tot, a) m. max m a) xs 0"

definition max_reservable :: "string \<Rightarrow> (int \<times> int) list \<Rightarrow> int" where
  "max_reservable t xs =
     (if t \<in> {''h100'', ''h200'', ''b200'', ''a100''} \<and> full_counts xs \<noteq> [] then
        (let m = sum_list (take 4 (sorted_by_desc (\<lambda>x. x) (full_counts xs))) in
         if m = 0 then single_node_max xs else m)
      else single_node_max xs)"

definition gpu_metrics :: "aenv \<Rightarrow> gpu_types \<Rightarrow> string \<Rightarrow> bool \<Rightarrow> int \<Rightarrow> nat \<Rightarrow> (int \<times> int \<times> int \<times> int \<times> int) \<times> nat" where
  \<comment> \<open>total, available, full nodes, largest reservation and running instances of a type with GPUs\<close>
  "gpu_metrics E types t k8s running i =
     (let per = per_instance types t; resource = gpu_resource_name types t; tot0 = running * per in
      if \<not> k8s then ((tot0, tot0, 0, 0, running), i)
      else case schedulable_upd (kapi.truncate E) types t i of
        (avail, i1) \<Rightarrow>
          (case k_nodes_r E i1 (Some (node_label_value types t)) of
             Inl _ \<Rightarrow> ((tot0, avail, (if per > 0 then avail div per else 0), avail, running), Suc i1)
           | Inr ns \<Rightarrow>
               (case measure_nodes E resource ns (Suc i1) of
                  (xs, i2) \<Rightarrow>
                    (let tot = sum_list (map fst xs) in
                     (case (if is_mig_sku types t then mig_nodes resource ns else Inr running) of
                        Inl _ \<Rightarrow> ((tot, avail, (if per > 0 then avail div per else 0), avail, running), i2)
                      | Inr r \<Rightarrow> ((tot, avail, int (length (full_counts xs)), max_reservable t xs, r), i2))))))"

definition cpu_metrics :: "int \<Rightarrow> int \<times> int \<times> int \<times> int \<times> int" where
  \<comment> \<open>three users per node; the query of the pods always raises, since the name \<open>client\<close> is not bound in
      the module, and is answered by the capacity of the group\<close>
  "cpu_metrics running =
     (let slots = running * 3 in (slots, slots, slots, (if slots > 0 then 1 else 0), running))"

definition spot_types :: "acfg \<Rightarrow> string list" where
  "spot_types C = (if strip (ac_spot C) = ''all'' then dkeys (ac_types C)
                   else map strip (split_on (CHR '','') (ac_spot C)))"

definition is_spot :: "acfg \<Rightarrow> string \<Rightarrow> bool" where
  "is_spot C t \<longleftrightarrow> ac_spot C \<noteq> [] \<and>
     (strip (ac_spot C) = ''all'' \<or> t \<in> set (map strip (split_on (CHR '','') (ac_spot C))))"

definition type_etas :: "(string \<Rightarrow> int option) \<Rightarrow> aenv \<Rightarrow> gpu_types \<Rightarrow> string \<Rightarrow> bool \<Rightarrow> row list \<Rightarrow> nat \<Rightarrow>
    (string, int) dict \<times> nat" where
  "type_etas isop E types t k8s active i =
     (if \<not> k8s then ([], i)
      else case compute_size_etas isop (kapi.truncate E) types t (per_instance types t) active
                  (ftrunc (a_time_r E i)) (Suc i) of
          (Inl _, i1) \<Rightarrow> ([], i1)
        | (Inr d, i1) \<Rightarrow> (d, i1))"

definition update_gpu_availability ::
  "(string \<Rightarrow> int option) \<Rightarrow> aenv \<Rightarrow> acfg \<Rightarrow> bool \<Rightarrow> row list \<Rightarrow> string \<Rightarrow> astate \<Rightarrow> unit res \<times> astate" where
  "update_gpu_availability isop E C k8s active t = (\<lambda>(i, lg).
     (case a_asgs_r E i of
        Inl e \<Rightarrow> (Inl e, Suc i, lg)
      | Inr all_asgs \<Rightarrow>
          (let asgs = matching_asgs (ac_types C) t all_asgs; running = running_of asgs;
               per = per_instance (ac_types C) t in
           if asgs = [] then (Inr (), Suc i, lg)
           else case (if per = 0 then (cpu_metrics running, Suc i)
                      else gpu_metrics E (ac_types C) t k8s running (Suc i)) of
             ((tot, avail, full, mx, run), i1) \<Rightarrow>
               (case (if per = 0 then ([], i1) else type_etas isop E (ac_types C) t k8s active i1) of
                  (etas, i2) \<Rightarrow>
                    (case (if is_spot C t then (a_spot_info_r E i2 t, Suc i2) else ([], i2)) of
                       (spot, i3) \<Rightarrow>
                         (case a_write_r E i3 t of
                            Inl e \<Rightarrow> (Inl e, Suc i3, lg)
                          | Inr _ \<Rightarrow>
                              (Inr (), Suc i3,
                               AvWrite t \<lparr>row_total = tot, row_available = avail, row_max_reservable = mx,
                                 row_full_nodes = full, row_running = run,
                                 row_desired = sum_list (map asg_desired asgs), row_per_instance = per,
                                 row_last_updated = ''unknown'', row_timestamp = 0, row_etas = etas,
                                 row_spot = spot\<rparr> # lg)))))))"

fun update_types ::
  "(string \<Rightarrow> int option) \<Rightarrow> aenv \<Rightarrow> acfg \<Rightarrow> bool \<Rightarrow> row list \<Rightarrow> string list \<Rightarrow> astate \<Rightarrow> string list \<times> astate" where
  \<comment> \<open>the types that were updated; an exception skips to the next one\<close>
  "update_types isop E C k8s active [] s = ([], s)"
| "update_types isop E C k8s active (t # ts) s =
     (case update_gpu_availability isop E C k8s active t s of
        (r, s1) \<Rightarrow> (case update_types isop E C k8s active ts s1 of
                     (us, s2) \<Rightarrow> (case r of Inl _ \<Rightarrow> us | Inr _ \<Rightarrow> t # us, s2)))"

subsection \<open>Stale rows\<close>

fun delete_stale :: "aenv \<Rightarrow> gpu_types \<Rightarrow> row list \<Rightarrow> astate \<Rightarrow> unit res \<times> astate" where
  \<comment> \<open>\<open>gpu_type\<close> is the key of the table, so a string\<close>
  "delete_stale E types [] s = (Inr (), s)"
| "delete_stale E types (r # rs) (i, lg) =
     (case attr r ''gpu_type'' of
        DStr gt \<Rightarrow>
          (if gt \<noteq> [] \<and> gt \<notin> set (dkeys types) then
             (case a_delete_r E i gt of
                Inl e \<Rightarrow> (Inl e, Suc i, lg)
              | Inr _ \<Rightarrow> delete_stale E types rs (Suc i, AvDeleteRow gt # lg))
           else delete_stale E types rs (i, lg))
      | _ \<Rightarrow> delete_stale E types rs (i, lg))"

definition cleanup_stale_availability_rows :: "aenv \<Rightarrow> gpu_types \<Rightarrow> astate \<Rightarrow> unit res \<times> astate" where
  "cleanup_stale_availability_rows E types = (\<lambda>(i, lg).
     (case a_types_r E i of
        (pages, err) \<Rightarrow>
          (case delete_stale E types (concat pages) (Suc i, lg) of
             (Inl e, s) \<Rightarrow> (Inl e, s)
           | (Inr _, s) \<Rightarrow> ((case err of None \<Rightarrow> Inr () | Some e \<Rightarrow> Inl e), s))))"

subsection \<open>Idle spot groups\<close>

fun has_type :: "string \<Rightarrow> row list \<Rightarrow> bool res" where
  \<comment> \<open>\<open>(item.get("gpu_type") or "").lower()\<close>, which raises on a value that is not a string\<close>
  "has_type st [] = Inr False"
| "has_type st (r # rs) =
     (if \<not> ddb_true (attr r ''gpu_type'') then (if lower st = [] then Inr True else has_type st rs)
      else case attr r ''gpu_type'' of
          DStr g \<Rightarrow> (if lower g = lower st then Inr True else has_type st rs)
        | _ \<Rightarrow> Inl AttributeError)"

fun seen_active :: "aenv \<Rightarrow> string \<Rightarrow> string list \<Rightarrow> astate \<Rightarrow> bool res \<times> astate" where
  "seen_active E st [] s = (Inr False, s)"
| "seen_active E st (status # sts) (i, lg) =
     (case a_query_r E i status of
        Inl e \<Rightarrow> (Inl e, Suc i, lg)
      | Inr rs \<Rightarrow>
          (case has_type st rs of
             Inl e \<Rightarrow> (Inl e, Suc i, AvQuery status rs # lg)
           | Inr True \<Rightarrow> (Inr True, Suc i, AvQuery status rs # lg)
           | Inr False \<Rightarrow> seen_active E st sts (Suc i, AvQuery status rs # lg)))"

definition LIVE_STATUSES :: "string list" where
  "LIVE_STATUSES = [''active'', ''preparing'', ''queued'', ''pending'']"

definition SPOT_LAST_ACTIVE_TAG :: string where
  "SPOT_LAST_ACTIVE_TAG = ''gpu-dev/spot-last-active''"

definition last_active :: "(string \<times> string) list \<Rightarrow> int" where
  "last_active tags =
     (case dget tags SPOT_LAST_ACTIVE_TAG of None \<Rightarrow> 0 | Some v \<Rightarrow> if v = [] then 0 else py_int_or v 0)"

definition within_grace :: "acfg \<Rightarrow> flt \<Rightarrow> int \<Rightarrow> bool" where
  \<comment> \<open>the group was active less than the grace period ago\<close>
  "within_grace C tm la = (fsub tm (fi la) < fmul (ac_keepalive C) 60)"

definition spot_asg :: "acfg \<Rightarrow> string \<Rightarrow> string" where
  "spot_asg C st = ac_prefix C @ ''-'' @ st"

definition scale_spot :: "aenv \<Rightarrow> acfg \<Rightarrow> string \<Rightarrow> astate \<Rightarrow> astate" where
  \<comment> \<open>the body of the loop over the spot types; exceptions are logged\<close>
  "scale_spot E C st s =
     (case seen_active E st LIVE_STATUSES s of
        (Inl _, s1) \<Rightarrow> s1
      | (Inr True, (i, lg)) \<Rightarrow>
          (let now = ftrunc (a_time_r E i) in
           (case a_stamp_r E (Suc i) (spot_asg C st) of
              Inl _ \<Rightarrow> (Suc (Suc i), AvTime (a_time_r E i) # lg)
            | Inr _ \<Rightarrow> (Suc (Suc i), AvStamp (spot_asg C st) now # AvTime (a_time_r E i) # lg)))
      | (Inr False, (i, lg)) \<Rightarrow>
          (case a_asg_r E i (spot_asg C st) of
             Inl _ \<Rightarrow> (Suc i, lg)
           | Inr gs \<Rightarrow>
               (let lg1 = AvDescribe (spot_asg C st) gs # lg in
                case gs of
                  [] \<Rightarrow> (Suc i, lg1)
                | g # _ \<Rightarrow>
                    (if asg_desired g > 0 then
                       (let la = last_active (asg_tags g);
                            (i2, lg2) = (if la \<noteq> 0 then (Suc (Suc i), AvTime (a_time_r E (Suc i)) # lg1) else (Suc i, lg1)) in
                        if la \<noteq> 0 \<and> within_grace C (a_time_r E (Suc i)) la then (i2, lg2)
                        else case a_desire_r E i2 (spot_asg C st) of
                            Inl _ \<Rightarrow> (Suc i2, lg2)
                          | Inr _ \<Rightarrow> (Suc i2, AvScaleDown (spot_asg C st) # lg2))
                     else (Suc i, lg1)))))"

definition availability_handler :: "(string \<Rightarrow> int option) \<Rightarrow> aenv \<Rightarrow> acfg \<Rightarrow> astate \<Rightarrow> string list \<times> astate" where
  \<comment> \<open>the \<open>updated_gpu_types\<close> of the answer\<close>
  "availability_handler isop E C = (\<lambda>(i, lg).
     (let k8s = (case a_setup_r E i of Inl _ \<Rightarrow> False | Inr _ \<Rightarrow> True);
          active = (case scan_rows (a_active_r E (Suc i)) of Inl _ \<Rightarrow> [] | Inr rs \<Rightarrow> rs) in
      case update_types isop E C k8s active (dkeys (ac_types C)) (Suc (Suc i), lg) of
        (us, s1) \<Rightarrow>
          (case cleanup_stale_availability_rows E (ac_types C) s1 of
             (_, s2) \<Rightarrow> (us, if ac_spot C = [] then s2 else fold (scale_spot E C) (spot_types C) s2))))"

end
