(* ===== verification/Gpu_Properties.thy ===== *)
theory Gpu_Properties
  imports Gpu_Updater
begin

section \<open>GPU availability: properties\<close>

subsection \<open>What a run of the updater writes\<close>

definition idle_reads :: "acfg \<Rightarrow> string \<Rightarrow> aevent list \<Rightarrow> bool" where
  \<comment> \<open>the log ends, newest first, with the description of the group of a spot type and the four queries\<close>
  "idle_reads C st lg \<longleftrightarrow>
     (\<exists>g gs r1 r2 r3 r4 rest.
        lg = [AvDescribe (spot_asg C st) (g # gs), AvQuery ''pending'' r4, AvQuery ''queued'' r3,
              AvQuery ''preparing'' r2, AvQuery ''active'' r1] @ rest \<and>
        asg_desired g > 0 \<and> has_type st r1 = Inr False \<and> has_type st r2 = Inr False \<and>
        has_type st r3 = Inr False \<and> has_type st r4 = Inr False)"

fun grace_over :: "acfg \<Rightarrow> aevent list \<Rightarrow> bool" where
  \<comment> \<open>the group was never stamped, or the clock shows that the grace period has passed\<close>
  "grace_over C (AvDescribe a (g # gs) # _) = (last_active (asg_tags g) = 0)"
| "grace_over C (AvTime tm # AvDescribe a (g # gs) # _) = (\<not> within_grace C tm (last_active (asg_tags g)))"
| "grace_over C _ = False"

fun skip_time :: "aevent list \<Rightarrow> aevent list" where
  "skip_time (AvTime _ # lg) = lg"
| "skip_time lg = lg"

definition scale_down_ok :: "acfg \<Rightarrow> string \<Rightarrow> aevent list \<Rightarrow> bool" where
  "scale_down_ok C a lg \<longleftrightarrow>
     grace_over C lg \<and> (\<exists>st \<in> set (spot_types C). a = spot_asg C st \<and> idle_reads C st (skip_time lg))"

definition updater_ok :: "acfg \<Rightarrow> aevent \<Rightarrow> aevent list \<Rightarrow> bool" where
  "updater_ok C e lg =
     (case e of
        AvDeleteRow gt \<Rightarrow> gt \<notin> set (dkeys (ac_types C))
      | AvWrite t r \<Rightarrow> t \<in> set (dkeys (ac_types C))
      | AvScaleDown a \<Rightarrow> scale_down_ok C a lg
      | _ \<Rightarrow> True)"

abbreviation grows :: "acfg \<Rightarrow> aevent list \<Rightarrow> aevent list \<Rightarrow> bool" where
  "grows C \<equiv> adds (each_call Some (updater_ok C))"

lemma idle_reads_append: "idle_reads C st lg \<Longrightarrow> idle_reads C st (lg @ tr)"
  unfolding idle_reads_def by (metis append.assoc)

lemma grace_over_append: "grace_over C lg \<Longrightarrow> grace_over C (lg @ tr)"
  by (induction C lg rule: grace_over.induct) simp_all

lemma skip_time_append: "lg \<noteq> [] \<Longrightarrow> skip_time (lg @ tr) = skip_time lg @ tr"
  by (induction lg rule: skip_time.induct) simp_all

lemma scale_down_ok_append:
  assumes "scale_down_ok C a lg" shows "scale_down_ok C a (lg @ tr)"
proof -
  have "lg \<noteq> []" using assms by (auto simp: scale_down_ok_def)
  then show ?thesis using assms unfolding scale_down_ok_def
    by (auto simp: skip_time_append intro: idle_reads_append grace_over_append)
qed

lemma stable_updater: "stable_call (updater_ok C)"
  by (rule stable_callI) (auto simp: updater_ok_def intro: scale_down_ok_append split: aevent.splits)

lemma grows_refl [simp, intro]: "grows C lg lg"
  by (rule adds_refl) simp

lemma grows_trans [trans]: "grows C a b \<Longrightarrow> grows C b c \<Longrightarrow> grows C a c"
  unfolding adds_def by (metis append.assoc each_call_append stable_updater)

lemma grows_read: "updater_ok C e [] \<Longrightarrow> grows C lg (e # lg)"
  by (rule adds_event) simp

lemma update_gpu_grows:
  assumes "t \<in> set (dkeys (ac_types C))"
  shows "grows C (snd s) (snd (snd (update_gpu_availability isop E C k8s active t s)))"
  using assms unfolding update_gpu_availability_def
  by (auto split: prod.splits sum.splits simp: Let_def updater_ok_def intro: grows_read)

lemma update_types_grows:
  "set ts \<subseteq> set (dkeys (ac_types C)) \<Longrightarrow> grows C (snd s) (snd (snd (update_types isop E C k8s active ts s)))"
proof (induction ts arbitrary: s)
  case (Cons t ts)
  obtain r s1 where u: "update_gpu_availability isop E C k8s active t s = (r, s1)" by (rule prod.exhaust)
  have "grows C (snd s) (snd s1)" using update_gpu_grows [of t C s isop E k8s active] Cons.prems u by simp
  moreover have "grows C (snd s1) (snd (snd (update_types isop E C k8s active ts s1)))"
    using Cons by simp
  ultimately show ?case using u by (auto split: prod.splits dest: grows_trans)
qed simp

lemma delete_stale_grows: "grows C (snd s) (snd (snd (delete_stale E (ac_types C) rs s)))"
proof (induction rs arbitrary: s)
  case (Cons r rs)
  obtain i lg where s: "s = (i, lg)" by fastforce
  have step: "grows C lg (snd (snd (delete_stale E (ac_types C) rs (Suc i, AvDeleteRow gt # lg))))"
    if "gt \<notin> set (dkeys (ac_types C))" for gt
  proof (rule grows_trans)
    show "grows C lg (AvDeleteRow gt # lg)" using that by (intro grows_read) (simp add: updater_ok_def)
    show "grows C (AvDeleteRow gt # lg) (snd (snd (delete_stale E (ac_types C) rs (Suc i, AvDeleteRow gt # lg))))"
      using Cons.IH [of "(Suc i, AvDeleteRow gt # lg)"] by simp
  qed
  show ?case using Cons.IH [of "(i, lg)"] step unfolding s by (auto split: ddb.splits sum.splits)
qed simp

lemma cleanup_stale_grows: "grows C (snd s) (snd (snd (cleanup_stale_availability_rows E (ac_types C) s)))"
proof -
  obtain i lg where s: "s = (i, lg)" by (rule prod.exhaust)
  have "grows C lg (snd (snd (delete_stale E (ac_types C) rs (Suc i, lg))))" for rs
    using delete_stale_grows [of C "(Suc i, lg)" E rs] by simp
  from this [of "concat (fst (a_types_r E i))"] show ?thesis
    unfolding cleanup_stale_availability_rows_def s by (auto split: prod.splits sum.splits)
qed

subsection \<open>Scaling idle groups down\<close>

fun query_log :: "string \<Rightarrow> string list \<Rightarrow> aevent list \<Rightarrow> aevent list \<Rightarrow> bool" where
  \<comment> \<open>the second log is the first and one query per status, none of which found the type\<close>
  "query_log st [] lg lg' = (lg' = lg)"
| "query_log st (s # ss) lg lg' = (\<exists>rs. has_type st rs = Inr False \<and> query_log st ss (AvQuery s rs # lg) lg')"

lemma seen_active_false:
  "seen_active E st ss (i, lg) = (Inr False, (j, lg')) \<Longrightarrow> query_log st ss lg lg'"
proof (induction ss arbitrary: i lg)
  case (Cons a ss)
  then show ?case by (auto split: sum.splits bool.splits)
qed simp

lemma seen_active_grows: "grows C (snd s) (snd (snd (seen_active E st ss s)))"
proof (induction ss arbitrary: s)
  case (Cons a ss)
  obtain i lg where s: "s = (i, lg)" by fastforce
  have q: "grows C lg (AvQuery a rs # lg)" for rs by (rule grows_read) (simp add: updater_ok_def)
  have "grows C lg (snd (snd (seen_active E st ss (Suc i, AvQuery a rs # lg))))" for rs
    using grows_trans [OF q Cons.IH [of "(Suc i, AvQuery a rs # lg)", simplified]] by simp
  then show ?case using q unfolding s by (auto split: sum.splits bool.splits)
qed simp

lemma query_log_grows:
  assumes "query_log st LIVE_STATUSES l0 lg" "st \<in> set (spot_types C)" "asg_desired g > 0"
  shows "last_active (asg_tags g) = 0 \<Longrightarrow>
           grows C l0 (AvScaleDown (spot_asg C st) # AvDescribe (spot_asg C st) (g # gs) # lg)"
    and "\<not> within_grace C tm (last_active (asg_tags g)) \<Longrightarrow>
           grows C l0 (AvScaleDown (spot_asg C st) # AvTime tm # AvDescribe (spot_asg C st) (g # gs) # lg)"
proof -
  obtain r1 r2 r3 r4 where lg: "lg = [AvQuery ''pending'' r4, AvQuery ''queued'' r3, AvQuery ''preparing'' r2, AvQuery ''active'' r1] @ l0"
    and h: "has_type st r1 = Inr False" "has_type st r2 = Inr False" "has_type st r3 = Inr False" "has_type st r4 = Inr False"
    using assms(1) by (auto simp: LIVE_STATUSES_def)
  let ?q = "[AvQuery ''pending'' r4, AvQuery ''queued'' r3, AvQuery ''preparing'' r2, AvQuery ''active'' r1]"
  have idle: "idle_reads C st (AvDescribe (spot_asg C st) (g # gs) # ?q)"
    using h assms(3) by (auto simp: idle_reads_def)
  show "grows C l0 (AvScaleDown (spot_asg C st) # AvDescribe (spot_asg C st) (g # gs) # lg)"
    if "last_active (asg_tags g) = 0"
  proof -
    have "scale_down_ok C (spot_asg C st) (AvDescribe (spot_asg C st) (g # gs) # ?q)"
      using idle assms(2) that unfolding scale_down_ok_def by auto
    then show ?thesis unfolding lg adds_def
      by (intro exI [of _ "AvScaleDown (spot_asg C st) # AvDescribe (spot_asg C st) (g # gs) # ?q"])
        (simp add: updater_ok_def)
  qed
  show "grows C l0 (AvScaleDown (spot_asg C st) # AvTime tm # AvDescribe (spot_asg C st) (g # gs) # lg)"
    if "\<not> within_grace C tm (last_active (asg_tags g))"
  proof -
    have "scale_down_ok C (spot_asg C st) (AvTime tm # AvDescribe (spot_asg C st) (g # gs) # ?q)"
      using idle assms(2) that unfolding scale_down_ok_def by auto
    then show ?thesis unfolding lg adds_def
      by (intro exI [of _ "AvScaleDown (spot_asg C st) # AvTime tm # AvDescribe (spot_asg C st) (g # gs) # ?q"])
        (simp add: updater_ok_def)
  qed
qed

lemma grows_plain:
  assumes "grows C l0 lg"
  shows "grows C l0 (AvDescribe a gs # lg)" "grows C l0 (AvTime tm # lg)" "grows C l0 (AvStamp a n # lg)"
  by (rule grows_trans [OF assms grows_read], simp add: updater_ok_def)+

lemma scale_spot_grows:
  assumes st: "st \<in> set (spot_types C)"
  shows "grows C (snd s) (snd (scale_spot E C st s))"
proof -
  obtain r i lg where q: "seen_active E st LIVE_STATUSES s = (r, (i, lg))" by (metis prod_cases3)
  have g0: "grows C (snd s) lg" using seen_active_grows [of C s E st LIVE_STATUSES] q by simp
  consider (err) e where "r = Inl e" | (live) "r = Inr True" | (idle) "r = Inr False"
    by (cases r) auto
  then show ?thesis
  proof cases
    case idle
    have ql: "query_log st LIVE_STATUSES (snd s) lg"
      using seen_active_false [of E st LIVE_STATUSES "fst s" "snd s"] q idle by simp
    show ?thesis
      using query_log_grows [OF ql st] g0 grows_plain [OF g0]
        grows_plain(2) [OF grows_plain(1) [OF g0]]
      unfolding scale_spot_def q idle
      by (auto simp: Let_def split: sum.split list.split)
  qed (use q g0 grows_plain [OF g0] grows_plain(3) [OF grows_plain(2) [OF g0]] in
      \<open>auto simp: scale_spot_def Let_def split: sum.split\<close>)
qed

text \<open>C14: whatever Kubernetes, AWS and the other users of the tables answer, a run of the availability updater
  writes rows of configured GPU types only and deletes rows of types that are not configured only; and it sets the
  capacity of an auto-scaling group to zero only if the group belongs to a spot type, the four queries just before
  (active, preparing, queued and pending reservations) show none of that type, the group still
  wants instances, and it either carries no stamp of its last activity or, by the clock read right before,
  the keep-alive period since that stamp is over.
\<close>
theorem updater_actions_justified:
  "grows C (snd s) (snd (snd (availability_handler isop E C s)))"
proof -
  obtain i lg where s: "s = (i, lg)" by (rule prod.exhaust)
  let ?k = "case a_setup_r E i of Inl _ \<Rightarrow> False | Inr _ \<Rightarrow> True"
  let ?a = "case scan_rows (a_active_r E (Suc i)) of Inl _ \<Rightarrow> [] | Inr rs \<Rightarrow> rs"
  obtain us s1 where u: "update_types isop E C ?k ?a (dkeys (ac_types C)) (Suc (Suc i), lg) = (us, s1)"
    by (rule prod.exhaust)
  obtain r s2 where c: "cleanup_stale_availability_rows E (ac_types C) s1 = (r, s2)" by (rule prod.exhaust)
  have "grows C lg (snd s1)"
    using update_types_grows [of "dkeys (ac_types C)" C "(Suc (Suc i), lg)" isop E ?k ?a] u by simp
  also have "grows C (snd s1) (snd s2)" using cleanup_stale_grows [of C s1 E] c by simp
  finally have g: "grows C lg (snd s2)" .
  have "grows C lg (snd (fold (scale_spot E C) (spot_types C) s2))"
    by (rule fold_inv [where I = "\<lambda>x. grows C lg (snd x)", OF g]) (metis grows_trans scale_spot_grows)
  then show ?thesis using g u c by (simp add: availability_handler_def s Let_def)
qed

subsection \<open>When a size becomes available\<close>

definition node_use :: "string \<Rightarrow> (string, NodeEta) dict \<Rightarrow> string \<Rightarrow> GPod list \<Rightarrow> int" where
  \<comment> \<open>the GPUs that the running and pending pods request on a node\<close>
  "node_use resource d nm ps =
     sum_list (map (\<lambda>p. case eta_pod resource d p of None \<Rightarrow> 0 | Some (m, g) \<Rightarrow> if m = nm then g else 0) ps)"

lemma dkeys_add [simp]: "dkeys (add_used nm g d) = dkeys d" "dkeys (add_expiry nm x d) = dkeys d"
  by (auto simp: add_used_def add_expiry_def dkeys_dset split: option.split) (metis option.simps(3) pd.get_keys)+

lemma dget_add_used:
  "dget (add_used nm g d) m = (if m = nm then map_option (\<lambda>s. s\<lparr>eta_used := eta_used s + g\<rparr>) (dget d m) else dget d m)"
  by (auto simp: add_used_def dict_simps split: option.split)

lemma dget_add_expiry:
  "dget (add_expiry nm x d) m =
     (if m = nm then map_option (\<lambda>s. s\<lparr>eta_expirations := eta_expirations s @ [x]\<rparr>) (dget d m) else dget d m)"
  by (auto simp: add_expiry_def dict_simps split: option.split)

lemma eta_pod_keys: "dkeys d = dkeys d' \<Longrightarrow> eta_pod resource d p = eta_pod resource d' p"
  by (simp add: eta_pod_def cong: option.case_cong)

lemma eta_pod_pos: "eta_pod resource d p = Some (nm, g) \<Longrightarrow> 0 < g"
  by (auto simp: eta_pod_def Let_def split: option.splits if_splits)

lemma eta_pods_dget:
  "eta_pods resource ps (info, d) = (info', d') \<Longrightarrow>
     dkeys d' = dkeys d \<and>
     dget d' nm = map_option (\<lambda>s. s\<lparr>eta_used := eta_used s + node_use resource d nm ps\<rparr>) (dget d nm) \<and>
     (\<forall>pn m g. dget info' pn = Some (m, g) \<longrightarrow> dget info pn = Some (m, g) \<or> 0 < g)"
proof (induction ps arbitrary: info d)
  case Nil
  then show ?case by (cases "dget d nm") (simp_all add: node_use_def)
next
  case (Cons p ps)
  show ?case
  proof (cases "eta_pod resource d p")
    case None
    then show ?thesis using Cons by (simp add: node_use_def)
  next
    case (Some x)
    obtain m g where x: "x = (m, g)" by (rule prod.exhaust)
    have eq: "node_use resource (add_used m g d) nm ps = node_use resource d nm ps"
      unfolding node_use_def by (simp cong: map_cong add: eta_pod_keys [of "add_used m g d" d])
    have run: "eta_pods resource ps (dset (gp_name p) (m, g) info, add_used m g d) = (info', d')"
      using Cons.prems Some x by simp
    note ih = Cons.IH [OF run]
    have d': "dget d' nm = map_option (\<lambda>s. s\<lparr>eta_used := eta_used s + node_use resource d nm (p # ps)\<rparr>) (dget d nm)"
      using ih Some x unfolding eq
      by (cases "dget d nm") (auto simp: dget_add_used node_use_def)
    have "\<forall>pn m' g'. dget info' pn = Some (m', g') \<longrightarrow> dget info pn = Some (m', g') \<or> 0 < g'"
      using ih eta_pod_pos [of resource d p m g] Some x by (auto simp: dict_simps split: if_splits)
    then show ?thesis using ih d' by simp
  qed
qed

definition only_expirations :: "NodeEta \<Rightarrow> NodeEta \<Rightarrow> bool" where
  "only_expirations s s' \<longleftrightarrow> eta_capacity s' = eta_capacity s \<and> eta_used s' = eta_used s \<and>
     (\<forall>x \<in> set (eta_expirations s'). x \<in> set (eta_expirations s) \<or> 0 < snd x)"

lemma eta_rows_dget:
  assumes "\<And>pn m g. dget info pn = Some (m, g) \<Longrightarrow> 0 < g"
  shows "eta_rows isop t info rs d = Inr d' \<Longrightarrow>
     dkeys d' = dkeys d \<and> rel_option only_expirations (dget d nm) (dget d' nm)"
proof (induction rs arbitrary: d)
  case Nil
  then show ?case by (cases "dget d' nm") (simp_all add: only_expirations_def)
next
  case (Cons r rs)
  show ?case
  proof (cases "eta_expiry isop t info r")
    case (Inr o')
    show ?thesis
    proof (cases o')
      case (Some x)
      obtain m ts g where x: "x = (m, ts, g)" by (metis prod_cases3)
      have g: "0 < g"
        using Inr Some x assms unfolding eta_expiry_def
        by (auto split: if_splits ddb.splits option.splits)
      have run: "eta_rows isop t info rs (add_expiry m (ts, g) d) = Inr d'" using Cons.prems Inr Some x by simp
      show ?thesis using Cons.IH [OF run] g
        by (cases "dget d nm"; cases "dget d' nm") (auto simp: dget_add_expiry only_expirations_def split: if_splits)
    qed (use Cons Inr in simp)
  qed (use Cons in simp)
qed

lemma eta_nodes_dget:
  "dget (eta_nodes resource ns d) nm = Some s \<Longrightarrow>
     dget d nm = Some s \<or>
     (\<exists>n \<in> set ns. g_name n = nm \<and> node_ready_upd n \<and> capacity_of resource n \<noteq> 0 \<and>
        s = \<lparr>eta_capacity = capacity_of resource n, eta_used = 0, eta_expirations = []\<rparr>)"
  by (induction ns arbitrary: d) (fastforce simp: dict_simps split: if_splits)+

lemma distinct_eta_nodes: "distinct (dkeys d) \<Longrightarrow> distinct (dkeys (eta_nodes resource ns d))"
  by (induction ns arbitrary: d) (auto simp: dict_simps)

lemma node_states_entry:
  assumes "node_states isop t resource active ns ps = Inr st" "(nm, s) \<in> set st"
  shows "\<exists>n \<in> set ns. g_name n = nm \<and> node_ready_upd n \<and> eta_capacity s = capacity_of resource n"
    and "eta_used s = node_use resource (eta_nodes resource ns []) nm ps"
    and "sorted (eta_expirations s)" and "\<forall>x \<in> set (eta_expirations s). 0 < snd x"
proof -
  let ?d0 = "eta_nodes resource ns []"
  obtain info d where p: "eta_pods resource ps ([], ?d0) = (info, d)" by (rule prod.exhaust)
  obtain d' where r: "eta_rows isop t info active d = Inr d'" and st: "st = map (\<lambda>(k, x). (k, sort_expirations x)) d'"
    using assms(1) unfolding node_states_def p by (auto simp: bind_res_Inr_iff)
  obtain s' where s': "(nm, s') \<in> set d'" "s = sort_expirations s'" using assms(2) st by auto
  note pp = eta_pods_dget [where nm = nm, OF p]
  have pos: "0 < g" if "dget info pn = Some (m, g)" for pn m g using pp that by auto
  have rr: "dkeys d' = dkeys d \<and> rel_option only_expirations (dget d nm) (dget d' nm)"
    by (rule eta_rows_dget [OF _ r]) (rule pos)
  have "distinct (dkeys d')" using rr pp distinct_eta_nodes [of "[]" resource ns] by simp
  then have g': "dget d' nm = Some s'" using s'(1) by (simp add: dget_def dkeys_def)
  then obtain s1 where s1: "dget d nm = Some s1" "only_expirations s1 s'" using rr by (cases "dget d nm") auto
  then obtain s0 where s0: "dget ?d0 nm = Some s0" "s1 = s0\<lparr>eta_used := eta_used s0 + node_use resource ?d0 nm ps\<rparr>"
    using pp by (cases "dget ?d0 nm") auto
  obtain n where n: "n \<in> set ns" "g_name n = nm" "node_ready_upd n"
      "s0 = \<lparr>eta_capacity = capacity_of resource n, eta_used = 0, eta_expirations = []\<rparr>"
    using eta_nodes_dget [OF s0(1)] by auto
  show "\<exists>n \<in> set ns. g_name n = nm \<and> node_ready_upd n \<and> eta_capacity s = capacity_of resource n"
    using n s0 s1 s' by (auto simp: only_expirations_def sort_expirations_def)
  show "eta_used s = node_use resource ?d0 nm ps"
    using n s0 s1 s' by (auto simp: only_expirations_def sort_expirations_def)
  show "sorted (eta_expirations s)" using s' by (simp add: sort_expirations_def)
  show "\<forall>x \<in> set (eta_expirations s). 0 < snd x"
    using n s0 s1 s' by (auto simp: only_expirations_def sort_expirations_def)
qed

definition freed_by :: "(int \<times> int) list \<Rightarrow> int \<Rightarrow> int" where
  "freed_by xs T = sum_list (map snd (filter (\<lambda>x. fst x \<le> T) xs))"

definition free_at :: "NodeEta \<Rightarrow> int \<Rightarrow> int" where
  \<comment> \<open>the GPUs that are free at a time, if the reservations end when they expire\<close>
  "free_at s T = free_now s + freed_by (eta_expirations s) T"

lemma freed_by_nonneg: "\<forall>x \<in> set xs. 0 < snd x \<Longrightarrow> 0 \<le> freed_by xs T"
  unfolding freed_by_def by (rule sum_list_nonneg) (auto simp: less_imp_le)

lemma first_fit_time_spec:
  assumes "sorted xs" "\<forall>x \<in> set xs. 0 < snd x" "cum < sz"
  shows "case first_fit_time sz cum xs of
           None \<Rightarrow> \<forall>T. cum + freed_by xs T < sz
         | Some e \<Rightarrow> sz \<le> cum + freed_by xs e \<and> (\<forall>T < e. cum + freed_by xs T < sz)"
  using assms
proof (induction sz cum xs rule: first_fit_time.induct)
  case (2 sz cum ts g xs)
  have le: "\<forall>x \<in> set xs. ts \<le> fst x" using 2(2) by (auto simp: less_eq_prod_def)
  have early: "freed_by ((ts, g) # xs) T = 0" if "T < ts" for T
  proof -
    have "filter (\<lambda>x. fst x \<le> T) ((ts, g) # xs) = []" using le that by (auto simp: filter_empty_conv)
    then show ?thesis unfolding freed_by_def by (metis list.simps(8) sum_list.Nil)
  qed
  have ge: "freed_by ((ts, g) # xs) T = g + freed_by xs T" if "ts \<le> T" for T using that by (simp add: freed_by_def)
  show ?case
  proof (cases "cum + g \<ge> sz")
    case True
    then show ?thesis using ge [of ts] freed_by_nonneg [of xs ts] early 2 by auto
  next
    case False
    have ih: "case first_fit_time sz (cum + g) xs of
           None \<Rightarrow> \<forall>T. cum + g + freed_by xs T < sz
         | Some e \<Rightarrow> sz \<le> cum + g + freed_by xs e \<and> (\<forall>T < e. cum + g + freed_by xs T < sz)"
      using 2 False by simp
    have lt: "cum + freed_by ((ts, g) # xs) T < sz" if "cum + g + freed_by xs T < sz" for T
      using that ge [of T] early [of T] 2(4) by (cases "ts \<le> T") auto
    show ?thesis
    proof (cases "first_fit_time sz (cum + g) xs")
      case None then show ?thesis using ih lt False by auto
    next
      case (Some e)
      have "freed_by xs e > 0" using ih Some False by auto
      then have "\<exists>x \<in> set xs. fst x \<le> e" unfolding freed_by_def by (metis (mono_tags, lifting) filter_False list.simps(8) order_less_irrefl sum_list.Nil)
      then have "ts \<le> e" using le by auto
      then show ?thesis using ih lt False Some ge [of e] by auto
    qed
  qed
qed (simp add: freed_by_def)

definition eta_spec :: "NodeEta list \<Rightarrow> int \<Rightarrow> int option \<Rightarrow> bool" where
  \<comment> \<open>the earliest time at which one of the nodes, none of which fits the size now, fits it\<close>
  "eta_spec nss sz eo \<longleftrightarrow>
     (case eo of
        None \<Rightarrow> \<forall>T. \<forall>s \<in> set nss. free_at s T < sz
      | Some e \<Rightarrow> (\<exists>s \<in> set nss. sz \<le> free_at s e) \<and> (\<forall>T < e. \<forall>s \<in> set nss. free_at s T < sz))"

lemma eta_spec_step:
  assumes "eta_spec nss sz a" "sorted (eta_expirations s)" "\<forall>x \<in> set (eta_expirations s). 0 < snd x" "free_now s < sz"
  shows "eta_spec (nss @ [s]) sz (earlier a (first_fit_time sz (free_now s) (eta_expirations s)))"
  using first_fit_time_spec [OF assms(2-4)] assms(1)
  unfolding eta_spec_def earlier_def free_at_def [symmetric]
  by (cases a; cases "first_fit_time sz (free_now s) (eta_expirations s)") (auto simp: free_at_def [symmetric])

lemma fits_single_spec:
  assumes "eta_spec done_ns sz a" "\<forall>s \<in> set nss. sorted (eta_expirations s) \<and> (\<forall>x \<in> set (eta_expirations s). 0 < snd x)"
  shows "if \<exists>s \<in> set nss. sz \<le> free_now s then fits_single now sz a nss = Some now
         else eta_spec (done_ns @ nss) sz (fits_single now sz a nss)"
  using assms
proof (induction nss arbitrary: done_ns a)
  case (Cons s nss)
  show ?case
  proof (cases "sz \<le> free_now s")
    case False
    have "eta_spec (done_ns @ [s]) sz (earlier a (first_fit_time sz (free_now s) (eta_expirations s)))"
      by (rule eta_spec_step) (use Cons.prems False in auto)
    from Cons.IH [OF this] show ?thesis using Cons.prems(2) False by auto
  qed simp
qed simp

lemma inj_str_nat: "str_nat a = str_nat b \<longleftrightarrow> a = b"
  by (metis digits_value_str_nat of_nat_eq_iff)

lemma dget_fold_opt:
  assumes "\<And>j. h j = h k \<Longrightarrow> j = k" "distinct ks"
  shows "dget (fold (\<lambda>k d. case f k of None \<Rightarrow> d | Some e \<Rightarrow> dset (h k) e d) ks d) (h k) =
     (if k \<in> set ks then (case f k of None \<Rightarrow> dget d (h k) | Some e \<Rightarrow> Some e) else dget d (h k))"
  using assms(2)
proof (induction ks arbitrary: d)
  case (Cons a ks)
  then show ?case using assms(1) by (auto simp: dict_simps split: option.splits)
qed simp

lemma dget_fold_opt_other:
  assumes "\<And>j. j \<in> set ks \<Longrightarrow> h j \<noteq> x"
  shows "dget (fold (\<lambda>k d. case f k of None \<Rightarrow> d | Some e \<Rightarrow> dset (h k) e d) ks d) x = dget d x"
  using assms
proof (induction ks arbitrary: d)
  case (Cons a ks)
  then show ?case by (auto simp: dict_simps split: option.splits)
qed simp

lemma dget_etas_single:
  assumes "sz \<in> {1, 2, 4, 8}" "int sz \<le> per"
  shows "dget (etas_of now t per nss) (str_nat sz) = first_time_size_fits_single_node now nss (int sz)"
proof -
  let ?e1 = "fold (\<lambda>sz d. case first_time_size_fits_single_node now nss (int sz) of
                 None \<Rightarrow> d | Some e \<Rightarrow> dset (str_nat sz) e d) (single_sizes per) []"
  have sz: "sz \<in> set (single_sizes per)" "distinct (single_sizes per)"
    using assms by (auto simp: single_sizes_def)
  have one: "dget ?e1 (str_nat sz) = first_time_size_fits_single_node now nss (int sz)"
    using dget_fold_opt [where h = str_nat and k = sz and d = "[]"
        and f = "\<lambda>sz. first_time_size_fits_single_node now nss (int sz)", OF _ sz(2)] sz(1)
    by (simp add: inj_str_nat split: option.split)
  have two: "dget (fold (\<lambda>k d. case first_time_k_full_nodes now nss k of
                     None \<Rightarrow> d | Some e \<Rightarrow> dset (str_nat (k * nat 8)) e d) [2, 3, 4, 5, 6] ?e1) (str_nat sz) = dget ?e1 (str_nat sz)"
    by (rule dget_fold_opt_other) (use assms(1) in \<open>auto simp: inj_str_nat\<close>)
  show ?thesis unfolding etas_of_def Let_def using one two by auto
qed

lemma first_time_size_fits_spec:
  assumes "\<forall>s \<in> set nss. sorted (eta_expirations s) \<and> (\<forall>x \<in> set (eta_expirations s). 0 < snd x)"
  shows "if \<exists>s \<in> set nss. sz \<le> free_now s then first_time_size_fits_single_node now nss sz = Some now
         else eta_spec nss sz (first_time_size_fits_single_node now nss sz)"
proof -
  have "eta_spec [] sz None" by (simp add: eta_spec_def)
  from fits_single_spec [OF this assms, of now] show ?thesis
    unfolding first_time_size_fits_single_node_def append_Nil .
qed

lemma node_states_empty:
  assumes "node_states isop t resource active ns ps = Inr st"
  shows "eta_nodes resource ns [] = [] \<longleftrightarrow> st = []"
proof -
  obtain info d where p: "eta_pods resource ps ([], eta_nodes resource ns []) = (info, d)" by (rule prod.exhaust)
  have pos: "0 < g" if "dget info pn = Some (m, g)" for pn m g
    using eta_pods_dget [OF p] that by auto
  obtain d' where r: "eta_rows isop t info active d = Inr d'" "st = map (\<lambda>(k, x). (k, sort_expirations x)) d'"
    using assms unfolding node_states_def p by (auto simp: bind_res_Inr_iff)
  have "dkeys d' = dkeys d" using eta_rows_dget [OF _ r(1)] pos by blast
  moreover have "dkeys d = dkeys (eta_nodes resource ns [])" using eta_pods_dget [OF p] by blast
  ultimately show ?thesis using r(2) by (metis dkeys_def map_is_Nil_conv)
qed

text \<open>C15: the estimate written for a size that a single node can hold is exact. Let the node list and the pod list
  be answered, and let the reservations be readable. Then the nodes considered are ready nodes with
  their allocatable GPUs, the GPUs in use on each are those its running and pending pods request, and: if some
  node has room for the size now, the estimate is the current time; otherwise it is the earliest time at which
  some node has room, counting the GPUs of the reservations that expire until then; and if no node
  ever has room there is no estimate. The earliest time can lie in the past, for a size that does not fit: a reservation
  that has expired but whose pod still runs counts as used now and as freed at its expiry. The docstring of the function
  says instead that a timestamp up to now means that the size is available.
\<close>
theorem size_eta_earliest:
  assumes nodes: "k_nodes_r K i (Some (node_label_value types t)) = Inr ns"
    and gpods: "k_pods_r K (Suc i) = Inr ps"
    and st: "node_states isop t (gpu_resource_name types t) active ns ps = Inr st"
    and sz: "sz \<in> {1, 2, 4, 8}" "int sz \<le> per"
  shows "\<exists>etas. fst (compute_size_etas isop K types t per active now i) = Inr etas \<and>
           (if \<exists>s \<in> set (dvals st). int sz \<le> free_now s then dget etas (str_nat sz) = Some now
            else eta_spec (dvals st) (int sz) (dget etas (str_nat sz))) \<and>
           (\<forall>(nm, s) \<in> set st. \<exists>n \<in> set ns. g_name n = nm \<and> node_ready_upd n \<and>
              free_now s = capacity_of (gpu_resource_name types t) n
                - node_use (gpu_resource_name types t) (eta_nodes (gpu_resource_name types t) ns []) nm ps)"
proof -
  let ?etas = "if eta_nodes (gpu_resource_name types t) ns [] = [] then [] else etas_of now t per (dvals st)"
  have ok: "sorted (eta_expirations s) \<and> (\<forall>x \<in> set (eta_expirations s). 0 < snd x)" if s: "s \<in> set (dvals st)" for s
  proof -
    obtain nm where "(nm, s) \<in> set st" using s unfolding dvals_def by auto
    then show ?thesis using node_states_entry(3,4) [OF st] by blast
  qed
  have run: "fst (compute_size_etas isop K types t per active now i) = Inr ?etas"
    using nodes gpods st by (simp add: compute_size_etas_def)
  have single: "if \<exists>s \<in> set (dvals st). int sz \<le> free_now s then dget ?etas (str_nat sz) = Some now
            else eta_spec (dvals st) (int sz) (dget ?etas (str_nat sz))"
  proof (cases "st = []")
    case True
    then show ?thesis using node_states_empty [OF st] by (simp add: dvals_def eta_spec_def)
  next
    case False
    then have "dget ?etas (str_nat sz) = first_time_size_fits_single_node now (dvals st) (int sz)"
      using node_states_empty [OF st] dget_etas_single [OF sz] by simp
    then show ?thesis using first_time_size_fits_spec [of "dvals st" "int sz" now] ok by auto
  qed
  have "\<forall>(nm, s) \<in> set st. \<exists>n \<in> set ns. g_name n = nm \<and> node_ready_upd n \<and>
      free_now s = capacity_of (gpu_resource_name types t) n
        - node_use (gpu_resource_name types t) (eta_nodes (gpu_resource_name types t) ns []) nm ps"
    using node_states_entry(1,2) [OF st] unfolding free_now_def by fastforce
  then show ?thesis using run single by blast
qed

subsection \<open>A small cluster\<close>

definition demo_types :: gpu_types where
  "demo_types = [(''t4'', \<lparr>cfg_resource = None, cfg_node_type = None, cfg_per_instance = Some 4\<rparr>)]"

definition demo_node :: GNode where
  "demo_node = \<lparr>g_name = ''n1'', g_labels = [(''GpuType'', ''t4'')],
     g_status = Some \<lparr>g_conditions = [(''Ready'', ''True'')], g_allocatable = [(''nvidia.com/gpu'', ''4'')]\<rparr>,
     g_spec = Some \<lparr>g_unschedulable = False, g_taints = []\<rparr>\<rparr>"

definition demo_pod :: GPod where
  "demo_pod = \<lparr>gp_name = ''p1'', gp_labels = [], gp_phase = Some ''Running'',
     gp_spec = Some \<lparr>gp_node = ''n1'', gp_requests = [[(''nvidia.com/gpu'', ''3'')]]\<rparr>\<rparr>"

definition demo_row :: "rat \<Rightarrow> row" where
  "demo_row ts = [(''gpu_type'', DStr ''T4''), (''pod_name'', DStr ''p1''), (''expires_at'', DNum ts)]"

definition demo_api :: kapi where
  "demo_api = \<lparr>k_nodes_r = (\<lambda>i v. Inr [demo_node]), k_pods_on_r = (\<lambda>i n. Inr [demo_pod]), k_pods_r = (\<lambda>i. Inr [demo_pod])\<rparr>"

definition demo_state :: "int \<Rightarrow> (string, NodeEta) dict" where
  "demo_state ts = [(''n1'', \<lparr>eta_capacity = 4, eta_used = 3, eta_expirations = [(ts, 3)]\<rparr>)]"

lemma demo_states:
  "node_states (\<lambda>s. None) ''t4'' ''nvidia.com/gpu'' [demo_row 500] [demo_node] [demo_pod] = Inr (demo_state 500)"
  "node_states (\<lambda>s. None) ''t4'' ''nvidia.com/gpu'' [demo_row 50] [demo_node] [demo_pod] = Inr (demo_state 50)"
  by code_simp+

theorem size_eta_earliest_witness:
  "\<exists>etas. fst (compute_size_etas (\<lambda>s. None) demo_api demo_types ''t4'' 4 [demo_row 500] 100 0) = Inr etas \<and>
     eta_spec (dvals (demo_state 500)) 2 (dget etas (str_nat 2)) \<and> dget etas (str_nat 2) = Some 500"
proof -
  have r: "gpu_resource_name demo_types ''t4'' = ''nvidia.com/gpu''" by code_simp
  have p: "k_pods_r demo_api (Suc 0) = Inr [demo_pod]" by (simp add: demo_api_def)
  have n: "k_nodes_r demo_api 0 (Some (node_label_value demo_types ''t4'')) = Inr [demo_node]" by (simp add: demo_api_def)
  have st: "node_states (\<lambda>s. None) ''t4'' (gpu_resource_name demo_types ''t4'') [demo_row 500] [demo_node] [demo_pod]
      = Inr (demo_state 500)" unfolding r by (rule demo_states)
  have v: "fst (compute_size_etas (\<lambda>s. None) demo_api demo_types ''t4'' 4 [demo_row 500] 100 0) =
      Inr [(''1'', 100), (''2'', 500), (''4'', 500)]" by code_simp
  have k: "str_nat 2 = ''2''" by code_simp
  have f: "\<not> (\<exists>s \<in> set (dvals (demo_state 500)). int 2 \<le> free_now s)" by code_simp
  show ?thesis
    using size_eta_earliest [OF n p st, of 2 4 100] v f unfolding k by (auto simp: dict_simps)
qed

text \<open>
  An estimate that is not after the current time does not mean that the size is available: a reservation
  that has expired while its pod still runs gives such an estimate.
\<close>
lemma expired_reservation_eta:
  "fst (compute_size_etas (\<lambda>s. None) demo_api demo_types ''t4'' 4 [demo_row 50] 100 0) =
     Inr [(''1'', 100), (''2'', 50), (''4'', 50)] \<and> free_now (snd (hd (demo_state 50))) = 1"
  by code_simp

end
