(* ===== verification/Gpu_Gate_Properties.thy ===== *)
theory Gpu_Gate_Properties
  imports Gpu_Properties
begin

section \<open>The placement gate and the advertised availability\<close>

text \<open>
  Two lambdas count free GPUs with code of their own. Here both look at the same cluster, which does not change
  between their calls (\<open>quiet_cluster\<close>), and the numbers they get are compared.
\<close>

named_theorems gate \<open>facts on the counting loops\<close>

definition quiet_cluster :: "kapi \<Rightarrow> GNode list \<Rightarrow> (string \<Rightarrow> GPod list) \<Rightarrow> bool" where
  "quiet_cluster K ns podf \<longleftrightarrow>
     (\<forall>i. k_nodes_r K i None = Inr ns) \<and>
     (\<forall>i v. k_nodes_r K i (Some v) = Inr (filter (\<lambda>n. dget (g_labels n) ''GpuType'' = Some v) ns)) \<and>
     (\<forall>i nm. k_pods_on_r K i nm = Inr (podf nm))"

definition well_formed_node :: "GNode \<Rightarrow> bool" where
  \<comment> \<open>what the API server guarantees: a specification, and one condition per type\<close>
  "well_formed_node n \<longleftrightarrow>
     g_spec n \<noteq> None \<and> (case g_status n of None \<Rightarrow> True | Some st \<Rightarrow> distinct (map fst (g_conditions st)))"

definition whole_quantity :: "string \<Rightarrow> (string, string) dict \<Rightarrow> bool" where
  "whole_quantity resource r \<longleftrightarrow> (case py_int (dget_or r resource ''0'') of None \<Rightarrow> False | Some k \<Rightarrow> 0 \<le> k)"

definition whole_quantities :: "string \<Rightarrow> GNode \<Rightarrow> GPod list \<Rightarrow> bool" where
  \<comment> \<open>the allocatable amount and the requests are natural numbers, as for every extended resource\<close>
  "whole_quantities resource n ps \<longleftrightarrow>
     (case g_status n of None \<Rightarrow> True | Some st \<Rightarrow> whole_quantity resource (g_allocatable st)) \<and>
     (\<forall>p \<in> set ps. case gp_spec p of None \<Rightarrow> True | Some sp \<Rightarrow> \<forall>r \<in> set (gp_requests sp). whole_quantity resource r)"

definition blocking_taint :: "GNode \<Rightarrow> bool" where
  "blocking_taint n \<longleftrightarrow>
     (case g_spec n of None \<Rightarrow> False
      | Some sp \<Rightarrow> \<exists>(key, effect) \<in> set (g_taints sp). effect = ''NoSchedule'' \<and> key \<noteq> ''nvidia.com/gpu'')"

definition has_label :: "string \<Rightarrow> GNode \<Rightarrow> bool" where
  "has_label v n \<longleftrightarrow> dget (g_labels n) ''GpuType'' = Some v"

lemma py_int_0 [simp]: "py_int ''0'' = Some 0"
  by code_simp

subsection \<open>Readiness\<close>

lemma first_ready_mem: "first_ready cs \<Longrightarrow> (''Ready'', ''True'') \<in> set cs"
  by (induction cs rule: first_ready.induct) (auto split: if_splits)

lemma first_ready_unique: "(''Ready'', ''True'') \<in> set cs \<Longrightarrow> distinct (map fst cs) \<Longrightarrow> first_ready cs"
  by (induction cs rule: first_ready.induct) (auto simp: rev_image_eqI)

lemma ready_proc_upd: "node_ready_proc n \<Longrightarrow> well_formed_node n \<Longrightarrow> node_ready_upd n"
  by (auto simp: node_ready_proc_def node_ready_upd_def well_formed_node_def first_ready_unique split: option.splits)

lemma ready_upd_proc: "node_ready_upd n \<Longrightarrow> \<not> blocking_taint n \<Longrightarrow> node_ready_proc n"
  by (auto simp: node_ready_proc_def node_ready_upd_def blocking_taint_def first_ready_mem list_all_iff split: option.splits)

subsection \<open>The GPUs of a node\<close>

lemma requests_proc_upd: "requests_proc resource rs = Inr u \<Longrightarrow> requests_upd resource rs = u"
  by (induction rs arbitrary: u)
    (auto simp: requests_upd_def py_int_or_def bind_res_Inr_iff split: if_splits option.splits)

lemma used_proc_upd: "used_proc resource ps = Inr u \<Longrightarrow> used_upd resource ps = Inr u"
  by (induction ps arbitrary: u)
    (auto simp: bind_res_Inr_iff requests_proc_upd split: if_splits option.splits)

lemma requests_whole:
  "\<forall>r \<in> set rs. whole_quantity resource r \<Longrightarrow> requests_proc resource rs = Inr (requests_upd resource rs) \<and> 0 \<le> requests_upd resource rs"
proof (induction rs)
  case (Cons r rs)
  then show ?case
    by (auto simp: requests_upd_def py_int_or_def whole_quantity_def split: option.splits)
qed (simp add: requests_upd_def)

lemma used_whole:
  assumes "\<forall>p \<in> set ps. case gp_spec p of None \<Rightarrow> True | Some sp \<Rightarrow> \<forall>r \<in> set (gp_requests sp). whole_quantity resource r"
  shows "used_upd resource ps = used_proc resource ps \<and> (\<forall>u. used_upd resource ps = Inr u \<longrightarrow> 0 \<le> u)"
  using assms
proof (induction ps)
  case (Cons p ps)
  show ?case
  proof (cases "gp_spec p")
    case None then show ?thesis using Cons by (auto split: option.splits)
  next
    case (Some sp)
    have "requests_proc resource (gp_requests sp) = Inr (requests_upd resource (gp_requests sp)) \<and>
        0 \<le> requests_upd resource (gp_requests sp)"
      by (rule requests_whole) (use Cons.prems Some in auto)
    then show ?thesis using Cons Some by (auto simp: bind_res_Inr_iff split: option.splits)
  qed
qed simp

lemma available_upd_quiet [gate]:
  assumes "quiet_cluster K ns podf"
  shows "fst (available_upd K resource n i) =
     (case bind_res (used_upd resource (podf (g_name n))) (\<lambda>used.
             bind_res (allocatable_upd resource n) (\<lambda>tot. Inr (max 0 (tot - used)))) of Inl _ \<Rightarrow> 0 | Inr a \<Rightarrow> a)"
  using assms by (simp add: available_upd_def quiet_cluster_def)

lemma available_upd_nonneg: "0 \<le> fst (available_upd K resource n i)"
  by (auto simp: available_upd_def bind_res_def split: sum.split)

lemma available_proc_nonneg: "0 \<le> fst (available_proc K resource n i)"
  by (auto simp: available_proc_def bind_res_def split: sum.split)

lemma available_proc_quiet [gate]:
  assumes "quiet_cluster K ns podf"
  shows "fst (available_proc K resource n i) =
     (case allocatable_proc resource n of
        Inl _ \<Rightarrow> 0
      | Inr tot \<Rightarrow> if tot = 0 then 0
          else (case used_proc resource (podf (g_name n)) of Inl _ \<Rightarrow> 0 | Inr used \<Rightarrow> max 0 (tot - used)))"
  using assms by (auto simp: available_proc_def quiet_cluster_def bind_res_def split: sum.split)

lemma allocatable_proc_upd: "allocatable_proc resource n = Inr a \<Longrightarrow> allocatable_upd resource n = Inr a"
  by (auto simp: allocatable_proc_def allocatable_upd_def py_int_or_def split: option.splits)

lemma available_le:
  assumes "quiet_cluster K ns podf"
  shows "fst (available_proc K resource n i) \<le> fst (available_upd K resource n j)"
proof (cases "allocatable_proc resource n")
  case (Inr tot)
  then show ?thesis
    using used_proc_upd [of resource "podf (g_name n)"] available_upd_nonneg [of K resource n j] allocatable_proc_upd [OF Inr]
    unfolding available_proc_quiet [OF assms]
    by (cases "used_proc resource (podf (g_name n))") (auto simp: available_upd_quiet [OF assms])
qed (simp add: available_proc_quiet [OF assms] available_upd_nonneg)

lemma available_eq:
  assumes "quiet_cluster K ns podf" "whole_quantities resource n (podf (g_name n))"
  shows "fst (available_proc K resource n i) = fst (available_upd K resource n j)"
proof (cases "g_status n")
  case None
  then show ?thesis
    unfolding available_proc_quiet [OF assms(1)] available_upd_quiet [OF assms(1)]
    by (auto simp: allocatable_proc_def allocatable_upd_def bind_res_def split: sum.split)
next
  case (Some st)
  obtain k where k: "py_int (dget_or (g_allocatable st) resource ''0'') = Some k" "0 \<le> k"
    using assms(2) Some by (auto simp: whole_quantities_def whole_quantity_def split: option.splits)
  have al: "allocatable_proc resource n = Inr k" using Some k by (simp add: allocatable_proc_def)
  have au: "allocatable_upd resource n = Inr k" using al by (rule allocatable_proc_upd)
  have u: "used_upd resource (podf (g_name n)) = used_proc resource (podf (g_name n))"
      "used_upd resource (podf (g_name n)) = Inr u \<Longrightarrow> 0 \<le> u" for u
    using used_whole [of "podf (g_name n)" resource] assms(2) unfolding whole_quantities_def by auto
  show ?thesis
    unfolding available_proc_quiet [OF assms(1)] available_upd_quiet [OF assms(1)] al au
    using u by (cases "used_proc resource (podf (g_name n))") auto
qed

subsection \<open>The loops\<close>

lemma sum_available_quiet:
  assumes "quiet_cluster K all podf"
  shows "fst (sum_available_upd K resource ns i) =
    sum_list (map (\<lambda>n. fst (available_upd K resource n 0)) (filter node_ready_upd ns))"
proof (induction ns arbitrary: i)
  case (Cons n ns)
  have e: "fst (available_upd K resource n i) = fst (available_upd K resource n 0)"
    unfolding available_upd_quiet [OF assms] ..
  obtain a i1 where a: "available_upd K resource n i = (a, i1)" by (rule prod.exhaust)
  show ?case using Cons [of i] Cons [of i1] e a by (auto split: prod.splits)
qed simp

lemma gate_nodes_quiet:
  assumes "quiet_cluster K all podf"
  shows "fst (gate_nodes K types t ns i) =
    map (\<lambda>n. fst (available_proc K (gpu_resource_name types t) n 0))
      (filter (\<lambda>n. has_label (node_label_value types t) n \<and> node_ready_proc n) ns)"
proof (induction ns arbitrary: i)
  case (Cons n ns)
  have e: "fst (available_proc K (gpu_resource_name types t) n i) = fst (available_proc K (gpu_resource_name types t) n 0)"
    unfolding available_proc_quiet [OF assms] ..
  obtain a i1 where a: "available_proc K (gpu_resource_name types t) n i = (a, i1)" by (rule prod.exhaust)
  show ?case using Cons [of i] Cons [of i1] e a by (auto simp: has_label_def split: prod.splits)
qed simp

lemma sum_list_filter_le:
  assumes "\<And>n. n \<in> set ns \<Longrightarrow> P n \<Longrightarrow> Q n" "\<And>n. n \<in> set ns \<Longrightarrow> f n \<le> g n" "\<And>n. n \<in> set ns \<Longrightarrow> 0 \<le> (g n :: int)"
  shows "sum_list (map f (filter P ns)) \<le> sum_list (map g (filter Q ns))"
  using assms
proof (induction ns)
  case (Cons n ns)
  have "sum_list (map f (filter P ns)) \<le> sum_list (map g (filter Q ns))" using Cons by auto
  moreover have "f n \<le> g n" "0 \<le> g n" "P n \<Longrightarrow> Q n" using Cons.prems by auto
  ultimately show ?case by auto
qed simp

text \<open>C16: on the same unchanging cluster, and where both lambdas are configured with the same resource and node
  label for the type, the reservation processor never counts more schedulable GPUs than the availability updater
  advertises; and the two counts are equal when no node of the type carries a blocking taint (which the
  updater does not look at) and all quantities are natural numbers.
\<close>
theorem gate_agrees_with_advertisement:
  assumes q: "quiet_cluster K ns podf" and wf: "\<forall>n \<in> set ns. well_formed_node n"
    and same: "gpu_resource_name tp t = gpu_resource_name tu t" "node_label_value tp t = node_label_value tu t"
  shows "fst (schedulable_proc K tp t i) \<le> fst (schedulable_upd K tu t j) \<and>
    ((\<forall>n \<in> set ns. has_label (node_label_value tu t) n \<longrightarrow>
        \<not> blocking_taint n \<and> whole_quantities (gpu_resource_name tu t) n (podf (g_name n))) \<longrightarrow>
     fst (schedulable_proc K tp t i) = fst (schedulable_upd K tu t j))"
proof -
  let ?r = "gpu_resource_name tu t" and ?v = "node_label_value tu t"
  let ?p = "\<lambda>n. fst (available_proc K ?r n 0)" and ?u = "\<lambda>n. fst (available_upd K ?r n 0)"
  have nodes: "k_nodes_r K i None = Inr ns" "k_nodes_r K j (Some ?v) = Inr (filter (has_label ?v) ns)"
    using q by (auto simp: quiet_cluster_def has_label_def [abs_def])
  have proc: "fst (schedulable_proc K tp t i) =
      sum_list (map ?p (filter (\<lambda>n. has_label ?v n \<and> node_ready_proc n) ns))"
    using gate_nodes_quiet [OF q, of tp t ns "Suc i"] unfolding schedulable_proc_def nodes same
    by (auto split: prod.splits)
  have upd: "fst (schedulable_upd K tu t j) =
      sum_list (map ?u (filter (\<lambda>n. has_label ?v n \<and> node_ready_upd n) ns))"
    using sum_available_quiet [OF q, of ?r "filter (has_label ?v) ns" "Suc j"] unfolding schedulable_upd_def nodes
    by (auto simp: conj_commute intro!: arg_cong [where f = "\<lambda>x. sum_list (map ?u x)"])
  have "sum_list (map ?p (filter (\<lambda>n. has_label ?v n \<and> node_ready_proc n) ns)) \<le>
      sum_list (map ?u (filter (\<lambda>n. has_label ?v n \<and> node_ready_upd n) ns))"
    by (rule sum_list_filter_le) (use wf ready_proc_upd available_le [OF q] available_upd_nonneg in auto)
  moreover have "sum_list (map ?p (filter (\<lambda>n. has_label ?v n \<and> node_ready_proc n) ns)) =
      sum_list (map ?u (filter (\<lambda>n. has_label ?v n \<and> node_ready_upd n) ns))"
    if ok: "\<forall>n \<in> set ns. has_label ?v n \<longrightarrow> \<not> blocking_taint n \<and> whole_quantities ?r n (podf (g_name n))"
  proof -
    have f: "filter (\<lambda>n. has_label ?v n \<and> node_ready_proc n) ns = filter (\<lambda>n. has_label ?v n \<and> node_ready_upd n) ns"
      by (rule filter_cong) (use wf ok ready_proc_upd ready_upd_proc in auto)
    show ?thesis unfolding f
      by (rule arg_cong [where f = sum_list], rule map_cong) (use ok available_eq [OF q] in auto)
  qed
  ultimately show ?thesis unfolding proc upd by blast
qed

definition demo_quiet :: kapi where
  "demo_quiet = \<lparr>k_nodes_r = (\<lambda>i v. case v of None \<Rightarrow> Inr [demo_node]
                      | Some x \<Rightarrow> Inr (filter (\<lambda>n. dget (g_labels n) ''GpuType'' = Some x) [demo_node])),
     k_pods_on_r = (\<lambda>i n. Inr [demo_pod]), k_pods_r = (\<lambda>i. Inr [demo_pod])\<rparr>"

lemma demo_quiet_holds: "quiet_cluster demo_quiet [demo_node] (\<lambda>n. [demo_pod])"
  by (simp add: quiet_cluster_def demo_quiet_def)

lemma demo_checks:
  "well_formed_node demo_node" "\<not> blocking_taint demo_node"
  "whole_quantities ''nvidia.com/gpu'' demo_node [demo_pod]"
  "gpu_resource_name demo_types ''t4'' = ''nvidia.com/gpu''"
  "node_label_value demo_types ''t4'' = ''t4''" "has_label ''t4'' demo_node"
  by code_simp+

theorem gate_agrees_with_advertisement_witness:
  "fst (schedulable_proc demo_quiet demo_types ''t4'' 0) = fst (schedulable_upd demo_quiet demo_types ''t4'' 7) \<and>
   fst (schedulable_upd demo_quiet demo_types ''t4'' 7) = 1"
proof -
  have v: "fst (schedulable_upd demo_quiet demo_types ''t4'' 7) = 1" by code_simp
  show ?thesis
    using gate_agrees_with_advertisement [OF demo_quiet_holds _ refl refl, of demo_types "''t4''" 0 7] v demo_checks by simp
qed

text \<open>The largest request that the processor lets through on one node is exact: on an unchanging cluster
  a positive number of GPUs is at most \<open>check_max_gpus_on_single_node\<close> if and only if some ready node with
  the label of the type, and without a blocking taint, has that many GPUs left after the requests of its running
  and pending pods; and the largest request is never more than the sum of the schedulable GPUs.
\<close>
theorem single_node_gate_exact:
  assumes q: "quiet_cluster K ns podf" and g: "0 < g"
  shows "(g \<le> fst (max_on_single_node K types t i) \<longleftrightarrow>
     (\<exists>n \<in> set ns. has_label (node_label_value types t) n \<and> node_ready_proc n \<and>
        (\<exists>tot used. allocatable_proc (gpu_resource_name types t) n = Inr tot \<and> tot \<noteq> 0 \<and>
           used_proc (gpu_resource_name types t) (podf (g_name n)) = Inr used \<and> g \<le> tot - used))) \<and>
     fst (max_on_single_node K types t i) \<le> fst (schedulable_proc K types t j)"
proof -
  let ?r = "gpu_resource_name types t"
  let ?e = "filter (\<lambda>n. has_label (node_label_value types t) n \<and> node_ready_proc n) ns"
  let ?p = "\<lambda>n. fst (available_proc K ?r n 0)"
  have nodes: "k_nodes_r K i None = Inr ns" "k_nodes_r K j None = Inr ns" using q by (auto simp: quiet_cluster_def)
  have m: "fst (max_on_single_node K types t i) = fold max (map ?p ?e) 0"
    using gate_nodes_quiet [OF q, of types t ns "Suc i"] unfolding max_on_single_node_def nodes
    by (auto split: prod.splits)
  have s: "fst (schedulable_proc K types t j) = sum_list (map ?p ?e)"
    using gate_nodes_quiet [OF q, of types t ns "Suc j"] unfolding schedulable_proc_def nodes
    by (auto split: prod.splits)
  have mx: "fold max (map ?p ?e) 0 = Max (insert 0 (?p ` set ?e))"
    by (simp add: Max.set_eq_fold [symmetric])
  have p: "g \<le> ?p n \<longleftrightarrow> (\<exists>tot used. allocatable_proc ?r n = Inr tot \<and> tot \<noteq> 0 \<and>
           used_proc ?r (podf (g_name n)) = Inr used \<and> g \<le> tot - used)" for n
    using g unfolding available_proc_quiet [OF q] by (auto split: sum.split)
  have "?p n \<le> sum_list (map ?p ?e)" if "n \<in> set ?e" for n
    by (rule member_le_sum_list) (use that available_proc_nonneg in auto)
  moreover have "0 \<le> sum_list (map ?p ?e)" by (rule sum_list_nonneg) (use available_proc_nonneg in auto)
  ultimately have "Max (insert 0 (?p ` set ?e)) \<le> sum_list (map ?p ?e)" by (intro Max.boundedI) auto
  moreover have "g \<le> Max (insert 0 (?p ` set ?e)) \<longleftrightarrow> (\<exists>n \<in> set ?e. g \<le> ?p n)"
    using g by (subst Max_ge_iff) auto
  ultimately show ?thesis unfolding m s mx p by auto
qed

theorem single_node_gate_exact_witness:
  "1 \<le> fst (max_on_single_node demo_quiet demo_types ''t4'' 0) \<and>
   fst (max_on_single_node demo_quiet demo_types ''t4'' 0) \<le> fst (schedulable_proc demo_quiet demo_types ''t4'' 3)"
proof -
  have "1 \<le> fst (max_on_single_node demo_quiet demo_types ''t4'' 0)" by code_simp
  then show ?thesis
    using single_node_gate_exact [OF demo_quiet_holds, of 1 demo_types "''t4''" 0 3] by simp
qed

subsection \<open>The numbers of a row\<close>

lemma max_list_le_sum: "\<forall>x \<in> set xs. 0 \<le> snd x \<Longrightarrow> 0 \<le> m \<Longrightarrow> m \<le> fold (\<lambda>(tot, a) m. max m a) xs m \<and>
    fold (\<lambda>(tot, a) m. max m a) xs m \<le> m + sum_list (map snd (xs :: (int \<times> int) list))"
  by (induction xs arbitrary: m) (force simp: max_def)+

lemma sum_take_le: "\<forall>x \<in> set xs. (0 :: int) \<le> x \<Longrightarrow> 0 \<le> sum_list (take k xs) \<and> sum_list (take k xs) \<le> sum_list xs"
proof (induction xs arbitrary: k)
  case (Cons x xs)
  then show ?case by (cases k) (auto simp: sum_list_nonneg)
qed simp

lemma full_counts_le: "\<forall>x \<in> set xs. 0 \<le> snd x \<Longrightarrow> sum_list (full_counts xs) \<le> sum_list (map snd xs)"
  by (induction xs) (auto simp: full_counts_def)

lemma full_counts_pos: "\<forall>x \<in> set (full_counts xs). 0 < x"
  by (auto simp: full_counts_def)

lemma max_reservable_bounds:
  assumes "\<forall>x \<in> set xs. 0 \<le> snd x"
  shows "0 \<le> max_reservable t xs \<and> max_reservable t xs \<le> sum_list (map snd xs)"
proof -
  have s: "0 \<le> single_node_max xs \<and> single_node_max xs \<le> sum_list (map snd xs)"
    using max_list_le_sum [OF assms, of 0] by (simp add: single_node_max_def)
  let ?s = "sorted_by_desc (\<lambda>x. x) (full_counts xs)"
  have "sum_list ?s = sum_list (full_counts xs)"
    by (metis mset_sorted_by_desc sum_mset_sum_list)
  moreover have "\<forall>x \<in> set ?s. 0 \<le> x" using full_counts_pos [of xs] by (auto simp: less_imp_le)
  ultimately have "0 \<le> sum_list (take 4 ?s) \<and> sum_list (take 4 ?s) \<le> sum_list (map snd xs)"
    using sum_take_le [of ?s 4] full_counts_le [OF assms] by linarith
  then show ?thesis using s by (simp add: max_reservable_def Let_def)
qed

lemma measure_quiet:
  assumes "quiet_cluster (kapi.truncate K) all podf"
  shows "fst (measure_nodes K resource ns i) =
    map (\<lambda>n. (capacity_of resource n, fst (available_upd (kapi.truncate K) resource n 0))) (filter node_ready_upd ns)"
proof (induction ns arbitrary: i)
  case (Cons n ns)
  let ?K = "kapi.truncate K"
  have e: "fst (available_upd ?K resource n i) = fst (available_upd ?K resource n 0)"
    unfolding available_upd_quiet [OF assms] ..
  obtain a i1 where a: "available_upd ?K resource n i = (a, i1)" by (rule prod.exhaust)
  show ?case using Cons [of i] Cons [of i1] e a by (auto split: prod.splits)
qed simp

lemma available_le_capacity:
  assumes "quiet_cluster K all podf" "whole_quantities resource n (podf (g_name n))" "node_ready_upd n"
  shows "fst (available_upd K resource n i) \<le> capacity_of resource n"
proof -
  obtain st where st: "g_status n = Some st" using assms(3) by (auto simp: node_ready_upd_def split: option.splits)
  obtain k where k: "py_int (dget_or (g_allocatable st) resource ''0'') = Some k" "0 \<le> k"
    using assms(2) st by (auto simp: whole_quantities_def whole_quantity_def split: option.splits)
  have u: "0 \<le> u" if "used_upd resource (podf (g_name n)) = Inr u" for u
    using used_whole [of "podf (g_name n)" resource] assms(2) that unfolding whole_quantities_def by auto
  have al: "allocatable_upd resource n = Inr k" using st k by (auto simp: allocatable_upd_def py_int_or_def)
  have cp: "capacity_of resource n = k" using st k by (simp add: capacity_of_def py_int_or_def)
  show ?thesis unfolding available_upd_quiet [OF assms(1)] al cp
    using u k by (cases "used_upd resource (podf (g_name n))") auto
qed

lemma mig_nodes_whole:
  "\<forall>n \<in> set ns. \<exists>ps. whole_quantities resource n ps \<Longrightarrow> \<exists>m. mig_nodes resource ns = Inr m \<and> 0 \<le> m"
proof (induction ns)
  case (Cons n ns)
  then obtain m where m: "mig_nodes resource ns = Inr m" "0 \<le> m" by auto
  show ?case
  proof (cases "node_ready_upd n")
    case True
    then obtain st where st: "g_status n = Some st" by (auto simp: node_ready_upd_def split: option.splits)
    obtain ps where "whole_quantities resource n ps" using Cons.prems by auto
    then obtain k where "py_int (dget_or (g_allocatable st) resource ''0'') = Some k"
      using st by (auto simp: whole_quantities_def whole_quantity_def split: option.splits)
    then show ?thesis using True st m by simp
  qed (use m in simp)
qed simp

text \<open>The numbers that the updater writes for a type with GPUs are consistent. On an unchanging
  cluster whose quantities are natural numbers, the largest reservation is at most the number of available GPUs, which
  is at most the total; none of them is negative, and the available GPUs are those of the schedulable count.
\<close>
theorem row_numbers_consistent:
  assumes q: "quiet_cluster (kapi.truncate E) ns podf"
    and ok: "\<forall>n \<in> set ns. whole_quantities (gpu_resource_name types t) n (podf (g_name n))"
    and run: "gpu_metrics E types t True running i = ((tot, avail, full, mx, r), j)"
  shows "0 \<le> mx \<and> mx \<le> avail \<and> avail \<le> tot \<and> 0 \<le> full \<and>
    avail = fst (schedulable_upd (kapi.truncate E) types t i)"
proof -
  let ?K = "kapi.truncate E" and ?r = "gpu_resource_name types t" and ?v = "node_label_value types t"
  let ?ns = "filter (has_label ?v) ns"
  have nodes: "k_nodes_r E k (Some ?v) = Inr ?ns" "k_nodes_r ?K k (Some ?v) = Inr ?ns" for k
    using q by (auto simp: quiet_cluster_def has_label_def [abs_def] kapi.defs)
  obtain i1 where a: "schedulable_upd ?K types t i = (avail, i1)"
    using run by (auto simp: gpu_metrics_def Let_def split: prod.splits sum.splits)
  have av: "avail = sum_list (map (\<lambda>n. fst (available_upd ?K ?r n 0)) (filter node_ready_upd ?ns))"
    using a sum_available_quiet [OF q, of ?r ?ns "Suc i"] unfolding schedulable_upd_def nodes by auto
  obtain xs i2 where m: "measure_nodes E ?r ?ns (Suc i1) = (xs, i2)" by (rule prod.exhaust)
  have xs: "xs = map (\<lambda>n. (capacity_of ?r n, fst (available_upd ?K ?r n 0))) (filter node_ready_upd ?ns)"
    using measure_quiet [OF q, of ?r ?ns "Suc i1"] m by simp
  obtain mg where mg: "mig_nodes ?r ?ns = Inr mg" using mig_nodes_whole [of ?ns ?r] ok by auto
  have res: "tot = sum_list (map fst xs)" "full = int (length (full_counts xs))" "mx = max_reservable t xs"
    using run mg unfolding gpu_metrics_def Let_def a nodes m by (auto simp: m nodes split: if_splits)
  have nn: "\<forall>x \<in> set xs. 0 \<le> snd x" using available_upd_nonneg unfolding xs by auto
  have avs: "avail = sum_list (map snd xs)" unfolding av xs by (simp add: comp_def)
  have "sum_list (map snd xs) \<le> sum_list (map fst xs)"
    unfolding xs using available_le_capacity [OF q] ok by (auto intro!: sum_list_mono simp: comp_def)
  then show ?thesis using max_reservable_bounds [OF nn, of t] avs res a by auto
qed

definition demo_env :: aenv where
  "demo_env = \<lparr>k_nodes_r = k_nodes_r demo_quiet, k_pods_on_r = k_pods_on_r demo_quiet, k_pods_r = k_pods_r demo_quiet,
     a_setup_r = (\<lambda>i. Inr ()), a_asgs_r = (\<lambda>i. Inr []), a_asg_r = (\<lambda>i n. Inr []), a_time_r = (\<lambda>i. 0),
     a_spot_info_r = (\<lambda>i t. []), a_write_r = (\<lambda>i t. Inr ()), a_delete_r = (\<lambda>i t. Inr ()),
     a_active_r = (\<lambda>i. ([], None)), a_types_r = (\<lambda>i. ([], None)), a_query_r = (\<lambda>i s. Inr []),
     a_stamp_r = (\<lambda>i a. Inr ()), a_desire_r = (\<lambda>i a. Inr ())\<rparr>"

theorem row_numbers_consistent_witness:
  "gpu_metrics demo_env demo_types ''t4'' True 1 0 = ((4, 1, 0, 1, 1), 4) \<and>
   fst (schedulable_upd (kapi.truncate demo_env) demo_types ''t4'' 0) = 1"
proof -
  have v: "gpu_metrics demo_env demo_types ''t4'' True 1 0 = ((4, 1, 0, 1, 1), 4)" by code_simp
  have q: "quiet_cluster (kapi.truncate demo_env) [demo_node] (\<lambda>n. [demo_pod])"
    using demo_quiet_holds by (simp add: quiet_cluster_def demo_env_def kapi.defs)
  show ?thesis using row_numbers_consistent [OF q _ v] v demo_checks by simp
qed

end
