(* ===== verification/Gpu_Sizing.thy ===== *)
theory Gpu_Sizing
  imports Dynamo
begin

section \<open>Requests and pod sizes of the reservation processor\<close>

text \<open>
  The parts of \<open>src/gpu-dev/terraform-gpu-devservers/lambda/reservation_processor/index.py\<close> that
  compute with values only: the table of GPU types, the validation of a request, the CPU and memory of a pod,
  and the retry of calls that are throttled.
\<close>

subsection \<open>GPU types\<close>

record GpuConfig =
  gc_instance :: string
  gc_max :: int
  gc_cpus :: int
  gc_memory :: int
  gc_efa :: int
  gc_resource :: "string option"
  gc_node_type :: "string option"

definition full_gpu :: "string \<Rightarrow> int \<Rightarrow> int \<Rightarrow> int \<Rightarrow> int \<Rightarrow> GpuConfig" where
  \<comment> \<open>an entry without \<open>k8s_resource\<close>\<close>
  "full_gpu inst mx c m efa = \<lparr>gc_instance = inst, gc_max = mx, gc_cpus = c, gc_memory = m, gc_efa = efa,
     gc_resource = None, gc_node_type = None\<rparr>"

definition mig_gpu :: "string \<Rightarrow> int \<Rightarrow> string \<Rightarrow> string \<Rightarrow> GpuConfig" where
  "mig_gpu inst mx resource node = \<lparr>gc_instance = inst, gc_max = mx, gc_cpus = 192, gc_memory = 2048, gc_efa = 0,
     gc_resource = Some resource, gc_node_type = Some node\<rparr>"

definition GPU_CONFIG :: "(string, GpuConfig) dict" where
  "GPU_CONFIG = [
    (''t4'', full_gpu ''g4dn.12xlarge'' 4 48 192 0),
    (''l4'', full_gpu ''g6.12xlarge'' 4 48 192 1),
    (''a10g'', full_gpu ''g5.12xlarge'' 4 48 192 1),
    (''rtxpro6000'', full_gpu ''g7e.24xlarge'' 4 96 1024 2),
    (''h100-mig-1g'', mig_gpu ''p5.48xlarge'' 16 ''nvidia.com/mig-1g.10gb'' ''h100''),
    (''h100-mig-2g'', mig_gpu ''p5.48xlarge'' 8 ''nvidia.com/mig-2g.20gb'' ''h100''),
    (''h100-mig-3g'', mig_gpu ''p5.48xlarge'' 8 ''nvidia.com/mig-3g.40gb'' ''h100''),
    (''b200-mig-1g'', mig_gpu ''p6-b200.48xlarge'' 4 ''nvidia.com/mig-1g.23gb'' ''b200''),
    (''b200-mig-2g'', mig_gpu ''p6-b200.48xlarge'' 2 ''nvidia.com/mig-2g.45gb'' ''b200''),
    (''b200-mig-3g'', mig_gpu ''p6-b200.48xlarge'' 2 ''nvidia.com/mig-3g.90gb'' ''b200''),
    (''t4-small'', full_gpu ''g4dn.2xlarge'' 1 8 32 0),
    (''g5g'', full_gpu ''g5g.2xlarge'' 2 8 32 0),
    (''a100'', full_gpu ''p4d.24xlarge'' 8 96 1152 4),
    (''h100'', full_gpu ''p5.48xlarge'' 8 192 2048 32),
    (''h200'', full_gpu ''p5e.48xlarge'' 8 192 2048 32),
    (''b200'', full_gpu ''p6-b200.48xlarge'' 8 192 2048 8),
    (''b300'', full_gpu ''p6-b300.48xlarge'' 8 192 2048 8),
    (''cpu-arm'', full_gpu ''c7g.8xlarge'' 0 32 64 0),
    (''cpu-x86'', full_gpu ''c7i.8xlarge'' 0 32 64 0),
    (''cpu-spot'', full_gpu ''c6id.2xlarge'' 0 8 16 0)]"

definition GPU_CONFIG_DEFAULT :: GpuConfig where
  "GPU_CONFIG_DEFAULT = full_gpu ''g4dn.12xlarge'' 4 48 192 0"

definition gpu_config :: "string \<Rightarrow> GpuConfig" where
  \<comment> \<open>\<open>GPU_CONFIG.get(gpu_type, GPU_CONFIG_DEFAULT)\<close>\<close>
  "gpu_config t = dget_or GPU_CONFIG t GPU_CONFIG_DEFAULT"

definition get_gpu_resource_name :: "string \<Rightarrow> string" where
  "get_gpu_resource_name t =
     (case gc_resource (gpu_config t) of None \<Rightarrow> ''nvidia.com/gpu'' | Some r \<Rightarrow> r)"

definition get_node_gpu_type :: "string \<Rightarrow> string" where
  "get_node_gpu_type t =
     (case dget GPU_CONFIG t of None \<Rightarrow> t | Some c \<Rightarrow> (case gc_node_type c of None \<Rightarrow> t | Some v \<Rightarrow> v))"

definition is_spot_type :: "string \<Rightarrow> string \<Rightarrow> bool" where
  \<comment> \<open>\<open>_is_spot_type\<close>; the first argument is \<open>SPOT_GPU_TYPES\<close>\<close>
  "is_spot_type spot t \<longleftrightarrow> spot \<noteq> [] \<and>
     (strip spot = ''all'' \<or> t \<in> set (map strip (split_on (CHR '','') spot)))"

subsection \<open>The pytorch ref\<close>

definition ref_char :: "char \<Rightarrow> bool" where
  \<comment> \<open>the class \<open>[A-Za-z0-9._/#-]\<close>\<close>
  "ref_char c \<longleftrightarrow> (let n = (of_char c :: nat) in
     (65 \<le> n \<and> n \<le> 90) \<or> (97 \<le> n \<and> n \<le> 122) \<or> (48 \<le> n \<and> n \<le> 57)) \<or> c \<in> set ''._/#-''"

definition PYTORCH_REF_SKIP :: "string list" where
  "PYTORCH_REF_SKIP = [''none'', ''off'', ''false'', ''no'', ''skip'']"

definition sanitize_pytorch_ref :: "string option \<Rightarrow> string" where
  \<comment> \<open>\<open>None\<close>: a falsy value; \<open>Some s\<close>: \<open>str(raw)\<close>. No newline is left for \<open>$\<close> to match before\<close>
  "sanitize_pytorch_ref raw =
     (case raw of
        None \<Rightarrow> ''master''
      | Some s \<Rightarrow>
          (let val = strip s in
           if lower val \<in> set PYTORCH_REF_SKIP then ''none''
           else if 1 \<le> length val \<and> length val \<le> 200 \<and> list_all ref_char val then val
           else ''master''))"

subsection \<open>Versions\<close>

definition parse_version :: "string \<Rightarrow> int list" where
  "parse_version v =
     (let ns = map py_int (split_on (CHR ''.'') v) in if None \<in> set ns then [0, 0, 0] else map the ns)"

definition validate_cli_version :: "string \<Rightarrow> string option \<Rightarrow> unit res" where
  \<comment> \<open>the minimum and the version of the message; both errors are a \<open>ValueError\<close>\<close>
  "validate_cli_version min_version v =
     (case v of
        None \<Rightarrow> Inl ValueError
      | Some s \<Rightarrow>
          (if s = [] then Inl ValueError
           else if parse_version s < parse_version min_version then Inl ValueError
           else Inr ()))"

subsection \<open>Validation of a request\<close>

datatype reject =
    MissingField string | InvalidType ddb | UnderMaintenance string | SpotNotConfirmed | CpuWithGpus | InvalidCount | TooLong

fun num_of :: "ddb \<Rightarrow> rat option" where
  \<comment> \<open>the number that a value compares as\<close>
  "num_of (DNum q) = Some q"
| "num_of (DBool b) = Some (if b then 1 else 0)"
| "num_of _ = None"

definition VALID_GPU_TYPES :: "string list" where
  "VALID_GPU_TYPES = [''t4'', ''l4'', ''a10g'', ''rtxpro6000'', ''t4-small'', ''a100'',
     ''h100'', ''h100-mig-1g'', ''h100-mig-2g'', ''h100-mig-3g'',
     ''h200'', ''b200'', ''b300'', ''b200-mig-1g'', ''b200-mig-2g'', ''b200-mig-3g'',
     ''cpu-arm'', ''cpu-x86'', ''cpu-spot'']"

definition duration_check :: "int \<Rightarrow> int \<Rightarrow> row \<Rightarrow> string \<Rightarrow> (reject option) res" where
  \<comment> \<open>comparing a duration that is not a number raises\<close>
  "duration_check default_hours max_hours r t =
     (if startswith t ''cpu-'' then Inr None
      else case num_of (dget_or r ''duration_hours'' (DNum (of_int default_hours))) of
          None \<Rightarrow> Inl OtherError
        | Some h \<Rightarrow> Inr (if h > of_int max_hours then Some TooLong else None))"

definition validate_reservation_request ::
  "int \<Rightarrow> int \<Rightarrow> string \<Rightarrow> (string, string list) dict \<Rightarrow> row \<Rightarrow> (reject option) res" where
  \<comment> \<open>\<open>Inr None\<close> is a valid request; \<open>maintenance\<close> gives the users that may still use a type\<close>
  "validate_reservation_request default_hours max_hours spot maintenance r =
     (if dget r ''user_id'' = None then Inr (Some (MissingField ''user_id''))
      else if dget r ''gpu_count'' = None then Inr (Some (MissingField ''gpu_count''))
      else let gpu_count = num_of (attr r ''gpu_count'') in
       case dget_or r ''gpu_type'' (DStr []) of
         DStr t \<Rightarrow>
           (if t \<notin> set VALID_GPU_TYPES then Inr (Some (InvalidType (DStr t)))
            else if (case dget maintenance t of None \<Rightarrow> False
                     | Some users \<Rightarrow> attr r ''user_id'' \<notin> DStr ` set users) then Inr (Some (UnderMaintenance t))
            else if spot \<noteq> [] \<and> \<not> ddb_true (dget_or r ''spot'' (DBool False)) \<and> is_spot_type spot t
              then Inr (Some SpotNotConfirmed)
            else if startswith t ''cpu-'' \<and> gpu_count = Some 0 then duration_check default_hours max_hours r t
            else if startswith t ''cpu-'' then Inr (Some CpuWithGpus)
            else if gpu_count \<notin> Some ` {1, 2, 4, 8, 16} then Inr (Some InvalidCount)
            else duration_check default_hours max_hours r t)
       | v \<Rightarrow> Inr (Some (InvalidType v)))"

subsection \<open>The size of a pod\<close>

fun after_sub :: "string \<Rightarrow> string \<Rightarrow> string option" where
  \<comment> \<open>what follows the first occurrence of a separator\<close>
  "after_sub sep [] = (if sep = [] then Some [] else None)"
| "after_sub sep (c # s) = (if startswith (c # s) sep then Some (drop (length sep) (c # s)) else after_sub sep s)"

fun before_sub :: "string \<Rightarrow> string \<Rightarrow> string" where
  "before_sub sep [] = []"
| "before_sub sep (c # s) = (if startswith (c # s) sep then [] else c # before_sub sep s)"

definition rstrip_char :: "char \<Rightarrow> string \<Rightarrow> string" where
  "rstrip_char c s = rev (dropWhile (\<lambda>x. x = c) (rev s))"

definition is_mig :: "string \<Rightarrow> bool" where
  "is_mig t \<longleftrightarrow> contains_str ''mig'' t"

definition mig_slice_fraction :: "string \<Rightarrow> flt" where
  "mig_slice_fraction t =
     (if \<not> is_mig t then 1
      else case after_sub ''-mig-'' t of
          None \<Rightarrow> 1
        | Some u \<Rightarrow>
            (case py_int (rstrip_char (CHR ''g'') (before_sub ''-mig-'' u)) of
               None \<Rightarrow> 1
             | Some n \<Rightarrow> fdiv (fi n) 7))"

definition FULL_GPUS_PER_MIG_NODE :: int where
  "FULL_GPUS_PER_MIG_NODE = 8"

definition CPU_POD_CPU_FRACTION :: flt where
  "CPU_POD_CPU_FRACTION = fl (85 / 100)"

definition CPU_POD_MEM_FRACTION :: flt where
  "CPU_POD_MEM_FRACTION = fl (80 / 100)"

definition mig_share :: "int \<Rightarrow> string \<Rightarrow> int \<Rightarrow> flt" where
  \<comment> \<open>the slices' part of a host quantity\<close>
  "mig_share whole t n = fmul (fmul (fdiv (fi whole) (fi FULL_GPUS_PER_MIG_NODE)) (mig_slice_fraction t)) (fi n)"

definition gpu_ratio :: "int \<Rightarrow> int \<Rightarrow> flt" where
  "gpu_ratio n mx = (if mx > 0 then fdiv (fi n) (fi mx) else 1)"

definition cpu_limit :: "int \<Rightarrow> string \<Rightarrow> int" where
  "cpu_limit n t =
     (let c = gpu_config t in
      if startswith t ''cpu-'' then ftrunc (fmul (fi (gc_cpus c)) CPU_POD_CPU_FRACTION)
      else if is_mig t then max 1 (min (gc_cpus c) (ftrunc (fmul (mig_share (gc_cpus c) t n) (3 / 2))))
      else min (gc_cpus c) (ftrunc (fmul (fmul (fi (gc_cpus c)) (gpu_ratio n (gc_max c))) (3 / 2))))"

definition memory_limit :: "int \<Rightarrow> string \<Rightarrow> int" where
  "memory_limit n t =
     (let c = gpu_config t in
      if startswith t ''cpu-'' then ftrunc (fmul (fi (gc_memory c)) CPU_POD_MEM_FRACTION)
      else if is_mig t then max 1 (ftrunc (mig_share (gc_memory c) t n))
      else ftrunc (fmul (fi (gc_memory c)) (gpu_ratio n (gc_max c))))"

definition cpu_request :: "int \<Rightarrow> string \<Rightarrow> int" where
  "cpu_request n t =
     (let c = gpu_config t in
      if startswith t ''cpu-'' then ftrunc (fmul (fi (gc_cpus c)) CPU_POD_CPU_FRACTION)
      else if is_mig t then max 1 (ftrunc (fmul (mig_share (gc_cpus c) t n) (fl (9 / 10))))
      else ftrunc (fmul (fmul (fi (gc_cpus c)) (gpu_ratio n (gc_max c))) (fl (9 / 10))))"

definition memory_request :: "int \<Rightarrow> string \<Rightarrow> int" where
  "memory_request n t =
     (let c = gpu_config t in
      if startswith t ''cpu-'' then ftrunc (fmul (fi (gc_memory c)) CPU_POD_MEM_FRACTION)
      else if is_mig t then max 1 (ftrunc (fmul (mig_share (gc_memory c) t n) (fl (9 / 10))))
      else ftrunc (fmul (fmul (fi (gc_memory c)) (gpu_ratio n (gc_max c))) (fl (9 / 10))))"

definition pod_uses_efa :: "int \<Rightarrow> string \<Rightarrow> bool" where
  "pod_uses_efa n t \<longleftrightarrow> gc_efa (gpu_config t) > 0 \<and> gc_max (gpu_config t) > 0 \<and> n = gc_max (gpu_config t)"

definition efa_entries :: "int \<Rightarrow> string \<Rightarrow> (string, string) dict" where
  "efa_entries n t =
     (if pod_uses_efa n t then [(''vpc.amazonaws.com/efa'', str_int (gc_efa (gpu_config t))), (''hugepages-2Mi'', ''5120Mi'')]
      else [])"

definition sized :: "int \<Rightarrow> string \<Rightarrow> int \<Rightarrow> int \<Rightarrow> (string, string) dict" where
  "sized n t c m =
     (if startswith t ''cpu-'' then [(''cpu'', str_int c), (''memory'', str_int m @ ''Gi'')]
      else if n > 0 then
        [(get_gpu_resource_name t, str_int n), (''cpu'', str_int c), (''memory'', str_int m @ ''Gi'')]
      else []) @ efa_entries n t"

definition get_pod_resource_limits :: "int \<Rightarrow> string \<Rightarrow> (string, string) dict" where
  "get_pod_resource_limits n t = sized n t (cpu_limit n t) (memory_limit n t)"

definition get_pod_resource_requests :: "int \<Rightarrow> string \<Rightarrow> (string, string) dict" where
  "get_pod_resource_requests n t = sized n t (cpu_request n t) (memory_request n t)"

definition thread_count :: "int \<Rightarrow> string \<Rightarrow> int" where
  "thread_count n t =
     (let c = gpu_config t in
      if startswith t ''cpu-'' then max 1 (gc_cpus c - 2)
      else if gc_max c > 0 \<and> n > 0 then
        max 1 (min (gc_cpus c) (ftrunc (fmul (fmul (fi (gc_cpus c)) (fdiv (fi n) (fi (gc_max c)))) (3 / 2))))
      else gc_cpus c)"

definition get_cpu_thread_env_vars :: "int \<Rightarrow> string \<Rightarrow> (string \<times> string) list" where
  "get_cpu_thread_env_vars n t =
     (let s = str_int (thread_count n t) in
      [(''OMP_NUM_THREADS'', s), (''MKL_NUM_THREADS'', s), (''NUMEXPR_MAX_THREADS'', s),
       (''OPENBLAS_NUM_THREADS'', s), (''GOMAXPROCS'', s), (''MAX_JOBS'', s),
       (''CMAKE_BUILD_PARALLEL_LEVEL'', s), (''MAKEFLAGS'', ''-j'' @ s), (''GPU_DEV_THREAD_COUNT'', s),
       (''CCACHE_DIR'', ''/ccache_shared''), (''CCACHE_MAXSIZE'', ''250G''), (''PIP_BREAK_SYSTEM_PACKAGES'', ''1'')])"

definition get_multinode_env_vars :: "string list \<Rightarrow> nat \<Rightarrow> (string \<times> string) list" where
  "get_multinode_env_vars peers rank =
     (if length peers \<le> 1 then []
      else let hosts = map (\<lambda>p. p @ ''-headless.gpu-dev.svc.cluster.local'') peers in
        [(''MULTINODE_HOSTS'', join_on (CHR '','') hosts), (''MULTINODE_PEER_PODS'', join_on (CHR '','') peers),
         (''MULTINODE_RANK'', str_nat rank), (''MULTINODE_SIZE'', str_nat (length peers)),
         (''MASTER_ADDR'', hd hosts), (''MASTER_PORT'', ''29500'')])"

subsection \<open>Throttled calls\<close>

datatype 'a answer = Ok 'a | AwsError string | OtherFailure

definition is_throttle :: "string \<Rightarrow> bool" where
  "is_throttle code \<longleftrightarrow> code \<in> {''Throttling'', ''RequestLimitExceeded'', ''TooManyRequestsException'',
     ''ProvisionedThroughputExceededException''}"

fun retry_loop :: "(nat \<Rightarrow> 'a answer) \<Rightarrow> nat \<Rightarrow> nat \<Rightarrow> nat \<Rightarrow> nat list \<Rightarrow> nat \<Rightarrow> 'a answer option \<times> nat list" where
  \<comment> \<open>the number of attempts, the cap, the attempts left, the sleeps so far, newest first, and the next delay;
      \<open>None\<close> when there is no attempt at all\<close>
  "retry_loop f mx max_delay 0 sl delay = (None, sl)"
| "retry_loop f mx max_delay (Suc k) sl delay =
     (case f (mx - Suc k) of
        AwsError code \<Rightarrow>
          (if \<not> is_throttle code then (Some (AwsError code), sl)
           else if k > 0 then retry_loop f mx max_delay k (delay # sl) (min (delay * 2) max_delay)
           else (Some (AwsError code), sl))
      | r \<Rightarrow> (Some r, sl))"

definition retry_with_backoff :: "(nat \<Rightarrow> 'a answer) \<Rightarrow> nat \<Rightarrow> nat \<Rightarrow> nat \<Rightarrow> 'a answer option \<times> nat list" where
  \<comment> \<open>\<open>f i\<close> is the answer of the call of attempt \<open>i\<close>\<close>
  "retry_with_backoff f max_retries initial_delay max_delay =
     retry_loop f max_retries max_delay max_retries [] initial_delay"

end
