(* ===== verification/Gpu_Sizing_Properties.thy ===== *)
theory Gpu_Sizing_Properties
  imports Gpu_Sizing
begin

section \<open>Requests and pod sizes: properties\<close>

subsection \<open>Rounding\<close>

lemma ftrunc_mono: "a \<le> b \<Longrightarrow> ftrunc a \<le> ftrunc b"
  unfolding ftrunc_def by (auto intro: floor_mono ceiling_mono order_trans [of _ 0])

lemma ftrunc_fi [simp]: "\<bar>n\<bar> \<le> 2 ^ 53 \<Longrightarrow> ftrunc (fi n) = n"
  by (simp add: ftrunc_def fi_def)

lemma fmul_mono1: "0 \<le> c \<Longrightarrow> a \<le> b \<Longrightarrow> fmul a c \<le> fmul b c"
  unfolding fmul_def by (intro fl_mono mult_right_mono)

lemma fmul_mono2: "0 \<le> c \<Longrightarrow> a \<le> b \<Longrightarrow> fmul c a \<le> fmul c b"
  unfolding fmul_def by (intro fl_mono mult_left_mono)

lemma fmul_one: "fmul (fi a) 1 = fi a"
  by (simp add: fmul_def fi_def)

lemma nine_tenths: "0 \<le> fl (9 / 10)" "fl (9 / 10) \<le> 1" "fl (9 / 10) \<le> 3 / 2"
proof -
  have "fl (9 / 10) \<le> fl 1" by (rule fl_mono) simp
  then show "fl (9 / 10) \<le> 1" "fl (9 / 10) \<le> 3 / 2" by simp_all
qed (rule fl_nonneg, simp)

lemma ratio_bounds:
  assumes "0 \<le> n" "n \<le> mx" "0 < mx" "mx \<le> 2 ^ 53"
  shows "0 \<le> gpu_ratio n mx" "gpu_ratio n mx \<le> 1"
proof -
  have n: "fi n = of_int n" "fi mx = of_int mx" using assms by (simp_all add: fi_def)
  show "0 \<le> gpu_ratio n mx" using assms by (simp add: gpu_ratio_def fdiv_def n fl_nonneg)
  have "fl (of_int n / of_int mx) \<le> fl 1" using assms by (intro fl_mono) (simp add: divide_le_eq)
  then show "gpu_ratio n mx \<le> 1" using assms by (simp add: gpu_ratio_def fdiv_def n)
qed

subsection \<open>The table of types\<close>

definition mig_slices :: "string \<Rightarrow> int option" where
  "mig_slices t =
     (case after_sub ''-mig-'' t of None \<Rightarrow> None | Some u \<Rightarrow> py_int (rstrip_char (CHR ''g'') (before_sub ''-mig-'' u)))"

definition config_ok :: "string \<Rightarrow> GpuConfig \<Rightarrow> bool" where
  "config_ok t c \<longleftrightarrow>
     0 < gc_cpus c \<and> gc_cpus c \<le> 192 \<and> 0 < gc_memory c \<and> gc_memory c \<le> 2048 \<and>
     (if startswith t ''cpu-'' then gc_max c = 0 else 0 < gc_max c \<and> gc_max c \<le> 16) \<and>
     (is_mig t \<longrightarrow> gc_cpus c = 192 \<and> gc_memory c = 2048 \<and>
        (case mig_slices t of None \<Rightarrow> False | Some n \<Rightarrow> 1 \<le> n \<and> n \<le> 3))"

lemma GPU_CONFIG_ok: "list_all (\<lambda>(t, c). config_ok t c) GPU_CONFIG"
  by code_simp

lemma GPU_CONFIG_keys: "distinct (dkeys GPU_CONFIG)" "list_all (\<lambda>t. t \<in> set (dkeys GPU_CONFIG)) VALID_GPU_TYPES"
  by code_simp+

lemma valid_config:
  assumes "t \<in> set VALID_GPU_TYPES" shows "config_ok t (gpu_config t)"
proof -
  have "t \<in> set (dkeys GPU_CONFIG)" using GPU_CONFIG_keys(2) assms unfolding list_all_iff by blast
  then obtain c where c: "(t, c) \<in> set GPU_CONFIG" by (auto simp: dkeys_def)
  then have "gpu_config t = c"
    using GPU_CONFIG_keys(1) by (simp add: gpu_config_def dget_or_def dget_def dkeys_def)
  then show ?thesis using GPU_CONFIG_ok c unfolding list_all_iff by auto
qed

lemma mig_share_mono:
  "0 \<le> mig_slice_fraction t \<Longrightarrow> 0 \<le> w \<Longrightarrow> n \<le> m \<Longrightarrow> mig_share w t n \<le> mig_share w t m"
  unfolding mig_share_def
  by (intro fmul_mono2 fmul_nonneg fdiv_nonneg fi_mono) (simp_all add: FULL_GPUS_PER_MIG_NODE_def fi_def fl_nonneg)

lemma mig_share_nonneg: "0 \<le> mig_slice_fraction t \<Longrightarrow> 0 \<le> w \<Longrightarrow> 0 \<le> n \<Longrightarrow> 0 \<le> mig_share w t n"
  unfolding mig_share_def
  by (intro fmul_nonneg fdiv_nonneg) (simp_all add: FULL_GPUS_PER_MIG_NODE_def fi_def fl_nonneg)

lemma mig_slice_bounds:
  assumes "is_mig t" "mig_slices t = Some n" "1 \<le> n" "n \<le> 3"
  shows "0 \<le> mig_slice_fraction t" "mig_slice_fraction t \<le> 1 / 2"
proof -
  have e: "mig_slice_fraction t = fl (of_int n / 7)"
    using assms by (auto simp: mig_slice_fraction_def mig_slices_def fdiv_def fi_def split: option.splits)
  show "0 \<le> mig_slice_fraction t" unfolding e using assms by (intro fl_nonneg) simp
  have "fl (of_int n / 7) \<le> fl (1 / 2)" using assms by (intro fl_mono) linarith
  also have "fl (1 / 2) = 1 / 2" using fl_exact [of "1 / 2" 1 "- 1"] by (simp add: power_int_minus_left)
  finally show "mig_slice_fraction t \<le> 1 / 2" using e by simp
qed

lemma mig_share_le:
  assumes "0 \<le> mig_slice_fraction t" "mig_slice_fraction t \<le> 1 / 2" "0 \<le> n" "n \<le> 16" "w = 192 \<or> w = 2048"
  shows "mig_share w t n \<le> fi w"
proof -
  have d: "fdiv (fi w) (fi FULL_GPUS_PER_MIG_NODE) = of_int (w div 8)"
    using assms(5) by (auto simp: fdiv_def fi_def FULL_GPUS_PER_MIG_NODE_def)
  have h: "fmul (of_int (w div 8)) (1 / 2) = of_int (w div 16)"
    using assms(5) by (auto simp: fmul_def)
  have f: "fmul (of_int (w div 16)) (fi 16) = fi w"
    using assms(5) by (auto simp: fmul_def fi_def)
  have "mig_share w t n \<le> fmul (fmul (of_int (w div 8)) (1 / 2)) (fi n)"
    unfolding mig_share_def d
    by (intro fmul_mono1 fmul_mono2) (use assms in \<open>auto simp: fi_def fl_nonneg\<close>)
  also have "\<dots> \<le> fi w"
    unfolding h f [symmetric] by (intro fmul_mono2 fi_mono) (use assms in auto)
  finally show ?thesis .
qed

lemma scaled:
  \<comment> \<open>nine tenths of a part of a whole number, against the part and one and a half times the part\<close>
  assumes "0 \<le> x" "x \<le> fi w" "0 \<le> w" "w \<le> 2 ^ 53" "fl x = x"
  shows "ftrunc (fmul x (fl (9 / 10))) \<le> ftrunc x" "ftrunc x \<le> w"
    "ftrunc (fmul x (fl (9 / 10))) \<le> ftrunc (fmul x (3 / 2))"
proof -
  show "ftrunc x \<le> w" using ftrunc_mono [OF assms(2)] assms(3,4) by simp
  show "ftrunc (fmul x (fl (9 / 10))) \<le> ftrunc (fmul x (3 / 2))"
    by (intro ftrunc_mono fmul_mono2) (use assms nine_tenths in simp_all)
  have "fmul x (fl (9 / 10)) \<le> fmul x 1" by (intro fmul_mono2) (use assms nine_tenths in simp_all)
  then show "ftrunc (fmul x (fl (9 / 10))) \<le> ftrunc x"
    using assms(5) by (intro ftrunc_mono) (simp add: fmul_def)
qed

lemma fl_fmul [simp]: "fl (fmul a b) = fmul a b"
  by (simp add: fmul_def)

lemma gpu_part_le:
  assumes "0 \<le> n" "n \<le> mx" "0 < mx" "mx \<le> 16" "0 \<le> w"
  shows "0 \<le> fmul (fi w) (gpu_ratio n mx)" "fmul (fi w) (gpu_ratio n mx) \<le> fi w"
proof -
  note r = ratio_bounds [OF assms(1-3)]
  have m: "mx \<le> 2 ^ 53" using assms(4) by simp
  have w: "0 \<le> fi w" using assms(5) by (simp add: fi_def fl_nonneg)
  show "0 \<le> fmul (fi w) (gpu_ratio n mx)" using r m w by (intro fmul_nonneg) auto
  have "fmul (fi w) (gpu_ratio n mx) \<le> fmul (fi w) 1" using r m w by (intro fmul_mono2) auto
  then show "fmul (fi w) (gpu_ratio n mx) \<le> fi w" by (simp add: fmul_one)
qed

definition host_part :: "int \<Rightarrow> string \<Rightarrow> int \<Rightarrow> flt" where
  \<comment> \<open>the part of a host quantity that a pod gets, before the factors\<close>
  "host_part n t w = (if is_mig t then mig_share w t n else fmul (fi w) (gpu_ratio n (gc_max (gpu_config t))))"

lemma host_part_bounds:
  assumes "t \<in> set VALID_GPU_TYPES" "\<not> startswith t ''cpu-''" "0 \<le> n" "n \<le> gc_max (gpu_config t)"
    and "w = gc_cpus (gpu_config t) \<or> w = gc_memory (gpu_config t)"
  shows "0 \<le> host_part n t w" "host_part n t w \<le> fi w" "fl (host_part n t w) = host_part n t w" "0 < w" "w \<le> 2 ^ 53"
proof -
  note c = valid_config [OF assms(1), unfolded config_ok_def]
  show w: "0 < w" "w \<le> 2 ^ 53" using c assms(5) by auto
  show "fl (host_part n t w) = host_part n t w" by (simp add: host_part_def mig_share_def)
  have "0 \<le> host_part n t w \<and> host_part n t w \<le> fi w"
  proof (cases "is_mig t")
    case True
    then obtain k where k: "mig_slices t = Some k" "1 \<le> k" "k \<le> 3" using c by (auto split: option.splits)
    note b = mig_slice_bounds [OF True k]
    have "w = 192 \<or> w = 2048" using c True assms(5) by auto
    then show ?thesis
      using mig_share_le [OF b, of n w] mig_share_nonneg [OF b(1), of w n] assms c True w by (simp add: host_part_def)
  next
    case False
    then show ?thesis
      using gpu_part_le [of n "gc_max (gpu_config t)" w] assms c w by (simp add: host_part_def)
  qed
  then show "0 \<le> host_part n t w" "host_part n t w \<le> fi w" by auto
qed

lemma dget_sized:
  assumes "k \<noteq> ''cpu''" "k \<noteq> ''memory''"
  shows "dget (sized n t c m) k = dget (sized n t c' m') k"
  using assms unfolding sized_def dget_def by (simp add: map_of_eq_None_iff)

text \<open>The sizes of a pod are consistent. For every GPU type that a request may name, and a number of
  GPUs that one host of that type has, the CPU and memory requests are at most the limits, the limits are at most
  what the host nominally has, and the requests and limits name the same resources and
  agree on all the others (GPUs, MIG slices, EFA interfaces and huge pages, which Kubernetes wants equal).
\<close>
theorem pod_requests_within_limits:
  assumes t: "t \<in> set VALID_GPU_TYPES" and n: "0 \<le> n" "n \<le> gc_max (gpu_config t)"
  shows "cpu_request n t \<le> cpu_limit n t \<and> cpu_limit n t \<le> gc_cpus (gpu_config t) \<and>
    memory_request n t \<le> memory_limit n t \<and> memory_limit n t \<le> gc_memory (gpu_config t) \<and>
    dkeys (get_pod_resource_requests n t) = dkeys (get_pod_resource_limits n t) \<and>
    (\<forall>k. k \<noteq> ''cpu'' \<longrightarrow> k \<noteq> ''memory'' \<longrightarrow>
       dget (get_pod_resource_requests n t) k = dget (get_pod_resource_limits n t) k)"
proof -
  let ?c = "gpu_config t"
  have ks: "dkeys (get_pod_resource_requests n t) = dkeys (get_pod_resource_limits n t)"
    by (simp add: get_pod_resource_requests_def get_pod_resource_limits_def sized_def dkeys_def)
  have gs: "dget (get_pod_resource_requests n t) k = dget (get_pod_resource_limits n t) k"
    if "k \<noteq> ''cpu''" "k \<noteq> ''memory''" for k
    unfolding get_pod_resource_requests_def get_pod_resource_limits_def by (rule dget_sized [OF that])
  have "cpu_request n t \<le> cpu_limit n t \<and> cpu_limit n t \<le> gc_cpus ?c \<and>
      memory_request n t \<le> memory_limit n t \<and> memory_limit n t \<le> gc_memory ?c"
  proof (cases "startswith t ''cpu-''")
    case True
    have f: "0 \<le> CPU_POD_CPU_FRACTION" "CPU_POD_CPU_FRACTION \<le> 1" "0 \<le> CPU_POD_MEM_FRACTION" "CPU_POD_MEM_FRACTION \<le> 1"
      using fl_mono [of "85 / 100" 1] fl_mono [of "80 / 100" 1]
      by (simp_all add: CPU_POD_CPU_FRACTION_def CPU_POD_MEM_FRACTION_def fl_nonneg)
    have part: "ftrunc (fmul (fi w) x) \<le> w" if "0 \<le> x" "x \<le> 1" "0 < w" "w \<le> 2048" for x w
    proof -
      have "fmul (fi w) x \<le> fmul (fi w) 1"
        by (rule fmul_mono2) (use that in \<open>simp_all add: fi_def fl_nonneg\<close>)
      then show ?thesis using ftrunc_mono [of "fmul (fi w) x" "fi w"] that by (simp add: fmul_one)
    qed
    show ?thesis using True valid_config [OF t] f part
      by (simp add: cpu_request_def cpu_limit_def memory_request_def memory_limit_def config_ok_def)
  next
    case False
    note pc = host_part_bounds [OF t False n, of "gc_cpus ?c"]
    note pm = host_part_bounds [OF t False n, of "gc_memory ?c"]
    have c: "ftrunc (fmul (host_part n t (gc_cpus ?c)) (fl (9 / 10))) \<le> ftrunc (fmul (host_part n t (gc_cpus ?c)) (3 / 2))"
        "ftrunc (fmul (host_part n t (gc_cpus ?c)) (fl (9 / 10))) \<le> gc_cpus ?c" "0 < gc_cpus ?c"
      using scaled [of "host_part n t (gc_cpus ?c)" "gc_cpus ?c"] pc by auto
    have m: "ftrunc (fmul (host_part n t (gc_memory ?c)) (fl (9 / 10))) \<le> ftrunc (host_part n t (gc_memory ?c))"
        "ftrunc (host_part n t (gc_memory ?c)) \<le> gc_memory ?c" "0 < gc_memory ?c"
      using scaled [of "host_part n t (gc_memory ?c)" "gc_memory ?c"] pm by auto
    show ?thesis using False c m
      by (cases "is_mig t") (auto simp: cpu_request_def cpu_limit_def memory_request_def memory_limit_def host_part_def Let_def)
  qed
  then show ?thesis using ks gs by blast
qed

theorem pod_requests_within_limits_witness:
  "cpu_request 3 ''h100-mig-2g'' \<le> cpu_limit 3 ''h100-mig-2g'' \<and> memory_limit 3 ''h100-mig-2g'' \<le> 2048"
proof -
  have v: "''h100-mig-2g'' \<in> set VALID_GPU_TYPES" by code_simp
  have c: "gc_max (gpu_config ''h100-mig-2g'') = 8" "gc_memory (gpu_config ''h100-mig-2g'') = 2048" by code_simp+
  show ?thesis using pod_requests_within_limits [OF v, of 3] c by simp
qed

text \<open>the number of threads that a pod is told to use is its CPU limit, as the comments promise, for
  every configured type that is neither a CPU type nor a MIG slice.
\<close>
theorem threads_match_cpu_limit:
  assumes t: "t \<in> set VALID_GPU_TYPES" "\<not> startswith t ''cpu-''" "\<not> is_mig t" and n: "0 < n"
  shows "thread_count n t = max 1 (cpu_limit n t)"
proof -
  have "0 < gc_max (gpu_config t)" using valid_config [OF t(1)] t(2) by (simp add: config_ok_def)
  then show ?thesis using t n by (simp add: thread_count_def cpu_limit_def gpu_ratio_def Let_def)
qed

theorem threads_match_cpu_limit_witness: "thread_count 2 ''t4'' = max 1 (cpu_limit 2 ''t4'')"
proof -
  have "''t4'' \<in> set VALID_GPU_TYPES" "\<not> startswith ''t4'' ''cpu-''" "\<not> is_mig ''t4''" by code_simp+
  from threads_match_cpu_limit [OF this, of 2] show ?thesis by simp
qed

text \<open>A MIG slice is told to use far more threads than its limit allows.\<close>

lemma mig_threads_exceed_limit:
  "thread_count 1 ''h100-mig-1g'' = 18 \<and> cpu_limit 1 ''h100-mig-1g'' = 5"
  by code_simp

text \<open>A request for more GPUs than one host has is sized with a CPU request above its limit.\<close>

lemma oversized_request: "cpu_request 8 ''t4'' = 86 \<and> cpu_limit 8 ''t4'' = 48"
  by code_simp

subsection \<open>Throttled calls\<close>

fun backoff :: "nat \<Rightarrow> nat \<Rightarrow> nat \<Rightarrow> nat" where
  \<comment> \<open>the delay before a retry: doubled each time, up to the cap\<close>
  "backoff d m 0 = d"
| "backoff d m (Suc j) = min (backoff d m j * 2) m"

fun throttled :: "'a answer \<Rightarrow> bool" where
  "throttled (AwsError code) = is_throttle code"
| "throttled _ = False"

lemma backoff_le: "d \<le> m \<Longrightarrow> backoff d m j \<le> m"
  by (cases j) auto

lemma retry_loop_spec:
  assumes "k \<le> mx" "0 < k" "\<forall>j < mx - k. throttled (f j)"
  shows "\<exists>j. mx - k \<le> j \<and> j < mx \<and> retry_loop f mx m k sl (backoff d m (mx - k)) =
      (Some (f j), rev (map (backoff d m) [mx - k..<j]) @ sl) \<and>
    (\<forall>i < j. throttled (f i)) \<and> (throttled (f j) \<longrightarrow> j = mx - 1)"
  using assms
proof (induction k arbitrary: sl)
  case (Suc k)
  let ?i = "mx - Suc k"
  show ?case
  proof (cases "throttled (f ?i) \<and> 0 < k")
    case False
    then have "retry_loop f mx m (Suc k) sl (backoff d m ?i) = (Some (f ?i), sl)"
      by (cases "f ?i") auto
    moreover have "throttled (f ?i) \<longrightarrow> ?i = mx - 1" using False Suc.prems by auto
    ultimately show ?thesis using Suc.prems by (intro exI [of _ ?i]) auto
  next
    case True
    then obtain code where c: "f ?i = AwsError code" "is_throttle code" by (cases "f ?i") auto
    have s: "Suc ?i = mx - k" using Suc.prems True by auto
    have d: "min (backoff d m ?i * 2) m = backoff d m (mx - k)" unfolding s [symmetric] by simp
    have pre: "\<forall>j < mx - k. throttled (f j)"
      using Suc.prems(3) True unfolding s [symmetric] by (auto simp: less_Suc_eq)
    have k: "k \<le> mx" "0 < k" using Suc.prems(1) True by auto
    obtain j where j: "mx - k \<le> j" "j < mx"
        "retry_loop f mx m k (backoff d m ?i # sl) (backoff d m (mx - k)) =
           (Some (f j), rev (map (backoff d m) [mx - k..<j]) @ backoff d m ?i # sl)"
        "\<forall>i < j. throttled (f i)" "throttled (f j) \<longrightarrow> j = mx - 1"
      using Suc.IH [OF k pre, of "backoff d m ?i # sl"] by blast
    have "[?i..<j] = ?i # [mx - k..<j]" using j s by (simp add: upt_rec)
    then have "retry_loop f mx m (Suc k) sl (backoff d m ?i) = (Some (f j), rev (map (backoff d m) [?i..<j]) @ sl)"
      using c True d j(3) by simp
    then show ?thesis using j s by (intro exI [of _ j]) auto
  qed
qed simp

text \<open>A call that is retried ends. With at least one attempt it returns the answer of the first
  attempt that is not throttled, or of the last attempt if all are; it sleeps once before each
  repeated attempt, for the initial delay first and then twice as long each time up to the cap, so never longer than the
  cap, and not after the last attempt.
\<close>
theorem retry_with_backoff_outcome:
  assumes "0 < n" "d \<le> m"
  shows "\<exists>k < n. retry_with_backoff f n d m = (Some (f k), rev (map (backoff d m) [0..<k])) \<and>
    (\<forall>i < k. throttled (f i)) \<and> (throttled (f k) \<longrightarrow> k = n - 1) \<and>
    sum_list (snd (retry_with_backoff f n d m)) \<le> (n - 1) * m"
proof -
  obtain k where k: "k < n" "retry_with_backoff f n d m = (Some (f k), rev (map (backoff d m) [0..<k]))"
      "\<forall>i < k. throttled (f i)" "throttled (f k) \<longrightarrow> k = n - 1"
    using retry_loop_spec [of n n f m "[]" d] assms by (auto simp: retry_with_backoff_def)
  have "sum_list (map (backoff d m) xs) \<le> length xs * m" for xs
    by (induction xs) (auto intro: add_mono backoff_le [OF assms(2)])
  from this [of "[0..<k]"] have "sum_list (rev (map (backoff d m) [0..<k])) \<le> k * m" by simp
  also have "\<dots> \<le> (n - 1) * m" using k(1) by (intro mult_right_mono) auto
  finally show ?thesis using k by auto
qed

theorem retry_with_backoff_outcome_witness:
  "retry_with_backoff (\<lambda>i. if i < 2 then AwsError ''Throttling'' else Ok i) 5 1 32 = (Some (Ok 2), [2, 1])"
proof -
  let ?f = "\<lambda>i :: nat. if i < 2 then AwsError ''Throttling'' else Ok i"
  obtain k where k: "k < 5" "retry_with_backoff ?f 5 1 32 = (Some (?f k), rev (map (backoff 1 32) [0..<k]))"
      "\<forall>i < k. throttled (?f i)" "throttled (?f k) \<longrightarrow> k = 4"
    using retry_with_backoff_outcome [of 5 1 32 ?f] by auto
  have "k = 2"
  proof -
    have "\<not> 2 < k" using k(3) by auto
    moreover have "\<not> k < 2" using k(4) by (auto simp: is_throttle_def)
    ultimately show ?thesis by simp
  qed
  then show ?thesis using k(2) by (simp add: upt_rec)
qed

subsection \<open>The pytorch ref\<close>

text \<open>Whatever a user sends as the pytorch ref, the value used in the shell scripts of the pod is not empty, has
  at most 200 characters and consists of letters, digits and the characters . _ / # - only.
\<close>
theorem sanitize_pytorch_ref_safe:
  "sanitize_pytorch_ref raw \<noteq> [] \<and> length (sanitize_pytorch_ref raw) \<le> 200 \<and>
   list_all ref_char (sanitize_pytorch_ref raw)"
proof -
  have m: "list_all ref_char ''master''" "list_all ref_char ''none''" by code_simp+
  show ?thesis
  proof (cases raw)
    case (Some s)
    show ?thesis using m by (auto simp: Some sanitize_pytorch_ref_def Let_def list_all_iff)
  qed (use m in \<open>auto simp: sanitize_pytorch_ref_def list_all_iff\<close>)
qed

end
