(* ===== verification/Gpu_Services.thy ===== *)
theory Gpu_Services
  imports Kube Dynamo
begin

section \<open>The services behind the reservation lambdas\<close>

text \<open>
  The expiry lambda (\<open>reservation_expiry/index.py\<close>) and the snapshot functions it shares with the other
  lambdas (\<open>shared/snapshot_utils.py\<close>) work on two DynamoDB tables, EC2 snapshots and volumes, and
  the pods of the cluster. A run is a log of events, newest first: what was read, and every call that changes
  something together with its result. The services are an environment whose answers may depend on the log.

  Rows have the attributes with which the lambdas write them. A text attribute that is only tested for truth is
  empty when it is absent; times, which the lambdas accept as texts and as numbers, are DynamoDB values.
\<close>

record xrow =
  x_id :: string
  x_status :: string
  x_user :: "string option"
  x_pod :: string
  x_namespace :: "string option"
  x_disk :: string
  x_volume :: string \<comment> \<open>\<open>ebs_volume_id\<close>\<close>
  x_gpu_type :: string
  x_domain :: string
  x_node_ip :: string
  x_node_port :: int
  x_created :: "ddb option"
  x_expires :: "ddb option"
  x_launched :: "ddb option"
  x_failed :: "ddb option"
  x_expired :: "ddb option"
  x_cancelled :: "ddb option"
  x_warnings :: "(string, bool) dict" \<comment> \<open>\<open>warnings_sent\<close>\<close>
  x_oom_count :: int
  x_last_oom :: string

record drow =
  d_user :: string
  d_name :: string
  d_attached :: string
  d_delete_date :: string
  d_marked :: "string option" \<comment> \<open>\<open>marked_deleted_at\<close>\<close>
  d_pending :: int \<comment> \<open>\<open>pending_snapshot_count\<close>, 0 when absent\<close>
  d_backing_up :: bool
  d_snapshots :: int \<comment> \<open>\<open>snapshot_count\<close>\<close>

record snapshot =
  s_id :: string
  s_volume :: string
  s_tags :: "(string \<times> string) list option"
  s_size :: "int option"
  s_start :: int

record xcontainer =
  xc_name :: string
  xc_running :: bool
  xc_restarts :: int
  xc_last_end :: "(string \<times> string) option" \<comment> \<open>\<open>last_state.terminated\<close>: reason, and the time or the empty text\<close>
  xc_end :: "(string \<times> string) option" \<comment> \<open>\<open>state.terminated\<close>\<close>

record xcondition =
  xd_type :: string
  xd_status :: string
  xd_reason :: string
  xd_message :: string

record xstatus =
  xs_phase :: string
  xs_reason :: string
  xs_message :: string
  xs_conditions :: "xcondition list"
  xs_containers :: "xcontainer list"

record xpod =
  xp_user :: string \<comment> \<open>the label \<open>user-id\<close>\<close>
  xp_volumes :: "string option list" \<comment> \<open>the EBS volume of each volume of the pod, if it is one\<close>
  xp_status :: "xstatus option"

record ec2_instance =
  i_state :: string
  i_transition :: string \<comment> \<open>\<open>StateTransitionReason\<close>\<close>

subsection \<open>Calls and events\<close>

datatype upd = Put ddb | Plus string int int \<comment> \<open>\<open>if_not_exists(attribute, default) + n\<close>\<close>

datatype effect =
    SetRow string "(string \<times> ddb) list"
  | SetDisk string string "(string \<times> upd) list" "string list" \<comment> \<open>user, disk, what is set, what is removed\<close>
  | MakeSnapshot string string "(string \<times> string) list" \<comment> \<open>volume, description, tags\<close>
  | WaitSnapshot string
  | TagSnapshot string "(string \<times> string) list"
  | DropSnapshot string
  | DropVolume string
  | DropPod string string int \<comment> \<open>namespace, name, grace period\<close>
  | DropService string string
  | ExecPod string string string
  | PutObject string string string \<comment> \<open>bucket, key, contents\<close>
  | InvokeUpdater string
  | DropDns string string int
  | DropMapping string
  | DropAlb string

datatype snap_query =
    PendingFor string \<comment> \<open>the pending snapshots of a volume\<close>
  | CompletedOf string \<comment> \<open>the completed snapshots of a user\<close>
  | UsableOf string "string option" bool \<comment> \<open>of a user, of a volume if given, the pending ones too\<close>
  | OfUsers \<comment> \<open>with the tag \<open>gpu-dev-user\<close>\<close>
  | OfDisk string string \<comment> \<open>of a user and a disk\<close>
  | CompletedOfDisk string string \<comment> \<open>of a user and a disk, completed\<close>
  | CompletedDisks \<comment> \<open>completed, with the tags \<open>disk_name\<close> and \<open>gpu-dev-user\<close>\<close>
  | Dated \<comment> \<open>with the tag \<open>delete-date\<close>\<close>
  | ById string

datatype xevent =
    Did effect "string res"
  | SawRows string "xrow list res" \<comment> \<open>the query of the status index\<close>
  | SawRow string "xrow option res"
  | SawPrefix string "xrow list res"
  | SawDisks bool "drow list res" \<comment> \<open>the scan for locked or, if not, for deleted disks\<close>
  | SawUserDisks string "drow list res"
  | SawDisk string string "drow option res"
  | SawSnapshots snap_query "snapshot list res"
  | SawVolume string "(string \<times> string) list option res"
  | SawInstances string string "ec2_instance list res" \<comment> \<open>the filter and the address\<close>
  | SawPod string string "xpod res"
  | SawPods "string list res"
  | SawClient "unit res"
  | SawBudget int
  | SawObject string string "string res" \<comment> \<open>bucket and key\<close>

type_synonym xlog = "xevent list" \<comment> \<open>newest first\<close>

record xenv =
  e_do :: "xlog \<Rightarrow> effect \<Rightarrow> string res"
  e_rows :: "xlog \<Rightarrow> string \<Rightarrow> xrow list res"
  e_row :: "xlog \<Rightarrow> string \<Rightarrow> xrow option res"
  e_prefix :: "xlog \<Rightarrow> string \<Rightarrow> xrow list list \<times> exc option" \<comment> \<open>the pages of the scan, and its error\<close>
  e_disks :: "xlog \<Rightarrow> bool \<Rightarrow> drow list list \<times> exc option"
  e_user_disks :: "xlog \<Rightarrow> string \<Rightarrow> drow list res"
  e_disk :: "xlog \<Rightarrow> string \<Rightarrow> string \<Rightarrow> drow option res"
  e_snapshots :: "xlog \<Rightarrow> snap_query \<Rightarrow> snapshot list list \<times> exc option"
  e_volume :: "xlog \<Rightarrow> string \<Rightarrow> (string \<times> string) list option res"
  e_instances :: "xlog \<Rightarrow> string \<Rightarrow> string \<Rightarrow> ec2_instance list res"
  e_pod :: "xlog \<Rightarrow> string \<Rightarrow> string \<Rightarrow> xpod res"
  e_pods :: "xlog \<Rightarrow> string list res"
  e_client :: "xlog \<Rightarrow> unit res" \<comment> \<open>\<open>get_k8s_client\<close>\<close>
  e_budget :: "xlog \<Rightarrow> int" \<comment> \<open>\<open>context.get_remaining_time_in_millis\<close>\<close>
  e_object :: "xlog \<Rightarrow> string \<Rightarrow> string \<Rightarrow> string res"
  e_now :: "xlog \<Rightarrow> int" \<comment> \<open>\<open>int(time.time())\<close>\<close>
  e_utcnow :: "xlog \<Rightarrow> string" \<comment> \<open>\<open>datetime.utcnow().isoformat()\<close>\<close>
  e_stamp :: "xlog \<Rightarrow> string" \<comment> \<open>\<open>datetime.now()\<close> in the format of the warning files\<close>
  e_iso :: "string \<Rightarrow> int option" \<comment> \<open>\<open>int(datetime.fromisoformat(s).timestamp())\<close>; \<open>None\<close> for a \<open>ValueError\<close>\<close>
  e_today :: string \<comment> \<open>\<open>datetime.now().strftime('%Y-%m-%d')\<close>\<close>
  e_text :: "exc \<Rightarrow> string"

definition do_call :: "xenv \<Rightarrow> effect \<Rightarrow> xlog \<Rightarrow> string res \<times> xlog" where
  "do_call E f lg = (e_do E lg f, Did f (e_do E lg f) # lg)"

definition try_call :: "xenv \<Rightarrow> effect \<Rightarrow> xlog \<Rightarrow> xlog" where
  \<comment> \<open>a call whose failure is logged and ignored\<close>
  "try_call E f lg = snd (do_call E f lg)"

definition all_pages :: "'a list list \<times> exc option \<Rightarrow> 'a list res" where
  "all_pages sc = (case snd sc of None \<Rightarrow> Inr (concat (fst sc)) | Some e \<Rightarrow> Inl e)"

definition see_rows :: "xenv \<Rightarrow> string \<Rightarrow> xlog \<Rightarrow> xrow list res \<times> xlog" where
  "see_rows E s lg = (e_rows E lg s, SawRows s (e_rows E lg s) # lg)"

definition see_row :: "xenv \<Rightarrow> string \<Rightarrow> xlog \<Rightarrow> xrow option res \<times> xlog" where
  "see_row E rid lg = (e_row E lg rid, SawRow rid (e_row E lg rid) # lg)"

fun first_page :: "'a list list \<Rightarrow> exc option \<Rightarrow> 'a list res" where
  \<comment> \<open>stops at the first page that has items\<close>
  "first_page [] e = (case e of None \<Rightarrow> Inr [] | Some x \<Rightarrow> Inl x)"
| "first_page (p # ps) e = (if p \<noteq> [] then Inr p else first_page ps e)"

definition see_prefix :: "xenv \<Rightarrow> string \<Rightarrow> xlog \<Rightarrow> xrow list res \<times> xlog" where
  "see_prefix E p lg =
     (let r = first_page (fst (e_prefix E lg p)) (snd (e_prefix E lg p)) in (r, SawPrefix p r # lg))"

definition see_disks :: "xenv \<Rightarrow> bool \<Rightarrow> xlog \<Rightarrow> drow list res \<times> xlog" where
  "see_disks E b lg = (let r = all_pages (e_disks E lg b) in (r, SawDisks b r # lg))"

definition see_user_disks :: "xenv \<Rightarrow> string \<Rightarrow> xlog \<Rightarrow> drow list res \<times> xlog" where
  "see_user_disks E u lg = (e_user_disks E lg u, SawUserDisks u (e_user_disks E lg u) # lg)"

definition see_disk :: "xenv \<Rightarrow> string \<Rightarrow> string \<Rightarrow> xlog \<Rightarrow> drow option res \<times> xlog" where
  "see_disk E u d lg = (e_disk E lg u d, SawDisk u d (e_disk E lg u d) # lg)"

definition see_snapshots :: "xenv \<Rightarrow> snap_query \<Rightarrow> xlog \<Rightarrow> snapshot list res \<times> xlog" where
  "see_snapshots E q lg = (let r = all_pages (e_snapshots E lg q) in (r, SawSnapshots q r # lg))"

definition see_volume :: "xenv \<Rightarrow> string \<Rightarrow> xlog \<Rightarrow> (string \<times> string) list option res \<times> xlog" where
  "see_volume E v lg = (e_volume E lg v, SawVolume v (e_volume E lg v) # lg)"

definition see_instances :: "xenv \<Rightarrow> string \<Rightarrow> string \<Rightarrow> xlog \<Rightarrow> ec2_instance list res \<times> xlog" where
  "see_instances E f ip lg = (e_instances E lg f ip, SawInstances f ip (e_instances E lg f ip) # lg)"

definition see_pod :: "xenv \<Rightarrow> string \<Rightarrow> string \<Rightarrow> xlog \<Rightarrow> xpod res \<times> xlog" where
  "see_pod E ns p lg = (e_pod E lg ns p, SawPod ns p (e_pod E lg ns p) # lg)"

definition see_pods :: "xenv \<Rightarrow> xlog \<Rightarrow> string list res \<times> xlog" where
  "see_pods E lg = (e_pods E lg, SawPods (e_pods E lg) # lg)"

definition see_client :: "xenv \<Rightarrow> xlog \<Rightarrow> unit res \<times> xlog" where
  "see_client E lg = (e_client E lg, SawClient (e_client E lg) # lg)"

definition see_budget :: "xenv \<Rightarrow> xlog \<Rightarrow> int \<times> xlog" where
  "see_budget E lg = (e_budget E lg, SawBudget (e_budget E lg) # lg)"

definition see_object :: "xenv \<Rightarrow> string \<Rightarrow> string \<Rightarrow> xlog \<Rightarrow> string res \<times> xlog" where
  "see_object E b k lg = (e_object E lg b k, SawObject b k (e_object E lg b k) # lg)"

fun did :: "xevent \<Rightarrow> effect option" where
  "did (Did f y) = Some f"
| "did _ = None"

definition dict_of :: "(string \<times> 'a) list \<Rightarrow> (string, 'a) dict" where
  \<comment> \<open>\<open>{k: v for ...}\<close>\<close>
  "dict_of xs = fold (\<lambda>(k, v). dset k v) xs []"

definition tags_of :: "snapshot \<Rightarrow> (string, string) dict" where
  \<comment> \<open>\<open>{tag['Key']: tag['Value'] for tag in snapshot.get('Tags', [])}\<close>\<close>
  "tags_of s = (case s_tags s of None \<Rightarrow> [] | Some ts \<Rightarrow> dict_of ts)"

subsection \<open>An example\<close>

definition calm :: xenv where
  \<comment> \<open>services in which every call succeeds and nothing is found\<close>
  "calm =
     \<lparr>e_do = (\<lambda>_ _. Inr ''ok''), e_rows = (\<lambda>_ _. Inr []), e_row = (\<lambda>_ _. Inr None), e_prefix = (\<lambda>_ _. ([], None)),
      e_disks = (\<lambda>_ _. ([], None)), e_user_disks = (\<lambda>_ _. Inr []), e_disk = (\<lambda>_ _ _. Inr None),
      e_snapshots = (\<lambda>_ _. ([], None)), e_volume = (\<lambda>_ _. Inr None), e_instances = (\<lambda>_ _ _. Inr []),
      e_pod = (\<lambda>_ _ _. Inl (ApiError 404)), e_pods = (\<lambda>_. Inr []), e_client = (\<lambda>_. Inr ()), e_budget = (\<lambda>_. 600000), e_object = (\<lambda>_ _ _. Inr []),
      e_now = (\<lambda>_. 100000), e_utcnow = (\<lambda>_. ''1970-01-02T03:46:40''), e_stamp = (\<lambda>_. ''1970-01-02 03:46:40 UTC''),
      e_iso = (\<lambda>s. if s = [] then None else Some 99000), e_today = ''1970-01-02'', e_text = (\<lambda>_. ''error'')\<rparr>"

end
