(* ===== verification/Gpu_Snapshots.thy ===== *)
theory Gpu_Snapshots
  imports Gpu_Services
begin

section \<open>Snapshots of the persistent disks\<close>

text \<open>
  \<open>shared/snapshot_utils.py\<close>: creating a snapshot, keeping the counters of the disk's row, and
  removing old snapshots. Texts that Python leaves \<open>None\<close> are empty here where they are only tested for truth.
\<close>

fun max_start :: "snapshot \<Rightarrow> snapshot list \<Rightarrow> snapshot" where
  \<comment> \<open>\<open>max(snapshots, key=StartTime)\<close>: the first of the latest\<close>
  "max_start m [] = m"
| "max_start m (s # ss) = max_start (if s_start s > s_start m then s else m) ss"

definition snapshot_tags :: "string \<Rightarrow> string \<Rightarrow> string \<Rightarrow> string \<Rightarrow> string \<Rightarrow> int \<Rightarrow> (string \<times> string) list" where
  "snapshot_tags user kind disk path usage now =
     [(''Name'', ''gpu-dev-'' @ kind @ ''-'' @ hd (split_on (CHR ''@'') user) @ ''-'' @ str_int now),
      (''gpu-dev-user'', user), (''gpu-dev-snapshot-type'', kind), (''SnapshotType'', kind),
      (''created_at'', str_int now)] @
     (if disk = [] then [] else [(''disk_name'', disk)]) @
     (if path = [] then [] else [(''snapshot_content_s3'', path)]) @
     (if usage = [] then [] else [(''disk_size'', usage)])"

definition snapshot_description :: "string \<Rightarrow> string \<Rightarrow> string \<Rightarrow> string \<Rightarrow> string" where
  "snapshot_description user kind disk usage =
     ''gpu-dev '' @ kind @ '' snapshot for '' @ user @
     (if disk = [] then [] else '' (disk: '' @ disk @ '')'') @ (if usage = [] then [] else '' ('' @ usage @ '')'')"

definition safe_create_snapshot ::
  "xenv \<Rightarrow> string \<Rightarrow> string \<Rightarrow> string \<Rightarrow> string \<Rightarrow> string \<Rightarrow> string \<Rightarrow> xlog \<Rightarrow> (string option \<times> bool) \<times> xlog" where
  "safe_create_snapshot E vol user kind disk path usage lg =
     (case see_snapshots E (PendingFor vol) lg of
        (Inl _, lg1) \<Rightarrow> ((None, False), lg1)
      | (Inr (s # ss), lg1) \<Rightarrow> ((Some (s_id (max_start s ss)), False), lg1)
      | (Inr [], lg1) \<Rightarrow>
          (case do_call E (MakeSnapshot vol (snapshot_description user kind disk usage)
                    (snapshot_tags user kind disk path usage (e_now E lg1))) lg1 of
             (Inl _, lg2) \<Rightarrow> ((None, False), lg2)
           | (Inr sid, lg2) \<Rightarrow>
               ((Some sid, True),
                if disk = [] then lg2
                else try_call E (SetDisk user disk
                       [(''is_backing_up'', Put (DBool True)), (''pending_snapshot_count'', Plus ''pending_snapshot_count'' 0 1)] [])
                       lg2)))"

definition create_pod_shutdown_snapshot :: "xenv \<Rightarrow> string \<Rightarrow> string \<Rightarrow> string \<Rightarrow> xlog \<Rightarrow> string option \<times> xlog" where
  "create_pod_shutdown_snapshot E vol user kind lg =
     (if vol = [] then (None, lg)
      else case safe_create_snapshot E vol user kind [] [] [] lg of ((sid, _), lg1) \<Rightarrow> (sid, lg1))"

definition completed_updates :: "int option \<Rightarrow> string option \<Rightarrow> string option \<Rightarrow> string \<Rightarrow> (string \<times> upd) list" where
  "completed_updates gb path usage now =
     [(''snapshot_count'', Plus ''snapshot_count'' 0 1),
      (''pending_snapshot_count'', Plus ''pending_snapshot_count'' 1 (- 1)),
      (''last_used'', Put (DStr now))] @
     (case gb of None \<Rightarrow> [] | Some n \<Rightarrow> [(''size_gb'', Put (DNum (of_int n)))]) @
     (case path of None \<Rightarrow> [] | Some p \<Rightarrow> [(''latest_snapshot_content_s3'', Put (DStr p))]) @
     (case usage of None \<Rightarrow> [] | Some u \<Rightarrow> [(''disk_size'', Put (DStr u))])"

definition not_backing_up :: "(string \<times> upd) list" where
  "not_backing_up = [(''is_backing_up'', Put (DBool False)), (''pending_snapshot_count'', Put (DNum 0))]"

definition update_disk_snapshot_completed ::
  "xenv \<Rightarrow> string \<Rightarrow> string \<Rightarrow> int option \<Rightarrow> string option \<Rightarrow> string option \<Rightarrow> xlog \<Rightarrow> xlog" where
  \<comment> \<open>errors are logged\<close>
  "update_disk_snapshot_completed E user disk gb path usage lg =
     (case do_call E (SetDisk user disk (completed_updates gb path usage (e_utcnow E lg)) []) lg of
        (Inl _, lg1) \<Rightarrow> lg1
      | (Inr _, lg1) \<Rightarrow>
          (case see_disk E user disk lg1 of
             (Inr (Some d), lg2) \<Rightarrow> (if d_pending d \<le> 0 then try_call E (SetDisk user disk not_backing_up []) lg2 else lg2)
           | (_, lg2) \<Rightarrow> lg2))"

subsection \<open>Removing old snapshots\<close>

fun drop_old :: "xenv \<Rightarrow> nat \<Rightarrow> nat \<Rightarrow> int \<Rightarrow> nat \<Rightarrow> snapshot list \<Rightarrow> nat \<Rightarrow> xlog \<Rightarrow> nat \<times> xlog" where
  \<comment> \<open>the loop over \<open>enumerate(snapshots)\<close>, with the number of deletions so far\<close>
  "drop_old E keep limit cutoff i [] n lg = (n, lg)"
| "drop_old E keep limit cutoff i (s # ss) n lg =
     (if n \<ge> limit then (n, lg)
      else if i < keep then drop_old E keep limit cutoff (Suc i) ss n lg
      else if s_start s < cutoff \<or> i \<ge> keep then
        (case do_call E (DropSnapshot (s_id s)) lg of
           (Inl _, lg1) \<Rightarrow> drop_old E keep limit cutoff (Suc i) ss n lg1
         | (Inr _, lg1) \<Rightarrow> drop_old E keep limit cutoff (Suc i) ss (Suc n) lg1)
      else drop_old E keep limit cutoff (Suc i) ss n lg)"

definition cleanup_old_snapshots :: "xenv \<Rightarrow> string \<Rightarrow> nat \<Rightarrow> int \<Rightarrow> nat \<Rightarrow> xlog \<Rightarrow> nat \<times> xlog" where
  \<comment> \<open>start times are seconds since the epoch\<close>
  "cleanup_old_snapshots E user keep days limit lg =
     (case see_snapshots E (CompletedOf user) lg of
        (Inl _, lg1) \<Rightarrow> (0, lg1)
      | (Inr ss, lg1) \<Rightarrow>
          (if length ss \<le> keep then (0, lg1)
           else drop_old E keep limit (e_now E lg1 - days * 86400) 0 (sorted_by_desc s_start ss) 0 lg1))"

definition keep_count :: nat where "keep_count = 3"
definition max_age_days :: int where "max_age_days = 7"
definition max_deletions_per_run :: nat where "max_deletions_per_run = 10"
definition max_users_per_run :: nat where "max_users_per_run = 20"

fun users_snapshots :: "snapshot list \<Rightarrow> (string, snapshot list) dict \<Rightarrow> (string, snapshot list) dict option" where
  \<comment> \<open>\<open>None\<close> for the \<open>KeyError\<close> of a snapshot without tags\<close>
  "users_snapshots [] d = Some d"
| "users_snapshots (s # ss) d =
     (case s_tags s of
        None \<Rightarrow> None
      | Some ts \<Rightarrow>
          users_snapshots ss
            (case map_of ts ''gpu-dev-user'' of
               None \<Rightarrow> d
             | Some u \<Rightarrow> if u = [] then d else dappend u s d))"

fun drop_for_users :: "xenv \<Rightarrow> string list \<Rightarrow> nat \<Rightarrow> nat \<Rightarrow> xlog \<Rightarrow> nat \<times> xlog" where
  \<comment> \<open>the users still to process and the deletions so far\<close>
  "drop_for_users E [] k n lg = (n, lg)"
| "drop_for_users E (u # us) k n lg =
     (if k = 0 then (n, lg)
      else case cleanup_old_snapshots E u keep_count max_age_days max_deletions_per_run lg of
          (m, lg1) \<Rightarrow> drop_for_users E us (k - 1) (n + m) lg1)"

definition cleanup_all_user_snapshots :: "xenv \<Rightarrow> nat \<Rightarrow> xlog \<Rightarrow> nat \<times> xlog" where
  "cleanup_all_user_snapshots E users lg =
     (case see_snapshots E OfUsers lg of
        (Inl _, lg1) \<Rightarrow> (0, lg1)
      | (Inr ss, lg1) \<Rightarrow>
          (case users_snapshots ss [] of
             None \<Rightarrow> (0, lg1)
           | Some d \<Rightarrow> drop_for_users E (sorted_by_desc (\<lambda>u. length (dget_or d u [])) (dkeys d)) users 0 lg1))"

definition get_latest_snapshot :: "xenv \<Rightarrow> string \<Rightarrow> string option \<Rightarrow> bool \<Rightarrow> xlog \<Rightarrow> snapshot option \<times> xlog" where
  "get_latest_snapshot E user vol include_pending lg =
     (case see_snapshots E (UsableOf user vol include_pending) lg of
        (Inl _, lg1) \<Rightarrow> (None, lg1)
      | (Inr ss, lg1) \<Rightarrow>
          (case filter (\<lambda>s. ''delete-date'' \<notin> set (dkeys (tags_of s))) ss of
             [] \<Rightarrow> (None, lg1)
           | s # rest \<Rightarrow> (Some (max_start s rest), lg1)))"

subsection \<open>The contents of a disk\<close>

definition newline :: char where "newline = CHR 0x0A"
definition tabulator :: char where "tabulator = CHR 0x09"

definition disk_usage :: "string \<Rightarrow> string" where
  \<comment> \<open>the first column of the first line of the output of \<open>du -sh\<close>\<close>
  "disk_usage out =
     (let line = hd (split_on newline out) in
      if tabulator \<in> set line then strip (hd (split_on tabulator line)) else [])"

definition listing_command :: "string \<Rightarrow> string" where
  "listing_command mount =
     ''du -sh '' @ mount @ '' 2>/dev/null && echo '' @ [CHR 0x27] @ ''---'' @ [CHR 0x27] @
     '' && if command -v tree >/dev/null 2>&1; then tree -a -L 3 --dirsfirst --noreport -I '' @ [CHR 0x27] @
     ''.oh-my-zsh|.git'' @ [CHR 0x27] @ '' '' @ mount @ '' 2>/dev/null | head -1000; else find '' @ mount @
     '' -maxdepth 3 '' @ [CHR 0x5C] @ ''( -name '' @ [CHR 0x27] @ ''.oh-my-zsh'' @ [CHR 0x27] @ '' -o -name '' @
     [CHR 0x27] @ ''.git'' @ [CHR 0x27] @ '' '' @ [CHR 0x5C] @
     '') -prune -o -print 2>/dev/null | sort | head -1000; fi''"

definition s3_path_of :: "string \<Rightarrow> string \<Rightarrow> string" where
  "s3_path_of bucket key = ''s3://'' @ bucket @ ''/'' @ key"

definition capture_disk_contents ::
  "xenv \<Rightarrow> string \<Rightarrow> string \<Rightarrow> string \<Rightarrow> string \<Rightarrow> string \<Rightarrow> string \<Rightarrow> string \<Rightarrow> xlog \<Rightarrow> (string \<times> string) \<times> xlog" where
  \<comment> \<open>the path and the size, both empty on failure; the output of the command is the result of its call, and
     \<open>bucket\<close> is \<open>DISK_CONTENTS_BUCKET\<close>\<close>
  "capture_disk_contents E bucket pod ns user disk sid mount lg =
     (if bucket = [] then (([], []), lg)
      else case do_call E (ExecPod ns pod (listing_command mount)) lg of
          (r, lg1) \<Rightarrow>
            (case (case r of
                     Inl e \<Rightarrow> (''Failed to capture contents: '' @ e_text E e @ [newline, newline] @
                                 ''This snapshot was created but contents could not be listed.'', [])
                   | Inr out \<Rightarrow>
                       if out = [] then (''Pod '' @ pod @ '' returned empty contents.'' @ [newline, newline] @
                                   ''This snapshot was created but disk may be empty.'', [])
                       else (out, disk_usage out)) of
               (contents, usage) \<Rightarrow>
                 (let key = user @ ''/'' @ disk @ ''/'' @ sid @ ''-contents.txt'' in
                  case do_call E (PutObject bucket key contents) lg1 of
                    (Inl _, lg2) \<Rightarrow> (([], []), lg2)
                  | (Inr _, lg2) \<Rightarrow> ((s3_path_of bucket key, usage), lg2))))"

definition parse_s3_path :: "string \<Rightarrow> (string \<times> string) option" where
  \<comment> \<open>bucket and key\<close>
  "parse_s3_path path =
     (if \<not> startswith path ''s3://'' then None
      else case split_on (CHR ''/'') (drop 5 path) of
          b # k # ks \<Rightarrow> Some (b, join_on (CHR ''/'') (k # ks))
        | _ \<Rightarrow> None)"

definition content_path :: "xenv \<Rightarrow> string \<Rightarrow> string \<Rightarrow> xlog \<Rightarrow> string \<times> xlog" where
  \<comment> \<open>the given path or the tag of the snapshot; empty when there is none\<close>
  "content_path E sid path lg =
     (if sid = [] \<or> path \<noteq> [] then (path, lg)
      else case see_snapshots E (ById sid) lg of
          (Inr (s # _), lg1) \<Rightarrow> (dget_or (tags_of s) ''snapshot_content_s3'' [], lg1)
        | (_, lg1) \<Rightarrow> ([], lg1))"

definition get_snapshot_contents :: "xenv \<Rightarrow> string \<Rightarrow> string \<Rightarrow> xlog \<Rightarrow> string option \<times> xlog" where
  "get_snapshot_contents E sid path lg =
     (case content_path E sid path lg of
        (p, lg1) \<Rightarrow>
          (case (if p = [] then None else parse_s3_path p) of
             None \<Rightarrow> (None, lg1)
           | Some (b, k) \<Rightarrow>
               (case see_object E b k lg1 of (Inl _, lg2) \<Rightarrow> (None, lg2) | (Inr x, lg2) \<Rightarrow> (Some x, lg2))))"

end
