(* ===== verification/Py_Time.thy ===== *)
theory Py_Time
  imports Kube Py_Text
begin

section \<open>Dates and durations\<close>

text \<open>
  \<open>datetime\<close> and \<open>timedelta\<close> of Python as the lambdas use them: a date is its clock reading in microseconds since the
  epoch, with the offset from UTC if it is aware of one. Adding keeps the offset and fails outside the years 1 to 9999;
  the difference of a naive and an aware date is a \<open>TypeError\<close>. How texts are parsed and printed is a
  parameter of the models.
\<close>

type_synonym datetime = "int \<times> int option"

definition dt_min :: int where "dt_min = - 62135596800000000"
definition dt_max :: int where "dt_max = 253402300799999999"

definition dt_plus :: "datetime \<Rightarrow> int \<Rightarrow> datetime res" where
  "dt_plus d us = (if dt_min \<le> fst d + us \<and> fst d + us \<le> dt_max then Inr (fst d + us, snd d) else Inl OtherError)"

definition dt_minus :: "datetime \<Rightarrow> datetime \<Rightarrow> int res" where
  "dt_minus a b =
     (case (snd a, snd b) of
        (None, None) \<Rightarrow> Inr (fst a - fst b)
      | (Some x, Some y) \<Rightarrow> Inr ((fst a - x) - (fst b - y))
      | _ \<Rightarrow> Inl OtherError)"

definition utc_stamp :: "datetime \<Rightarrow> int" where
  \<comment> \<open>\<open>int(d.timestamp())\<close>, where a naive date is taken as UTC\<close>
  "utc_stamp d = ftrunc (total_seconds (fst d - (case snd d of None \<Rightarrow> 0 | Some x \<Rightarrow> x)))"

definition hours_us :: "flt \<Rightarrow> int" where
  \<comment> \<open>\<open>timedelta(hours=x)\<close> in microseconds: the whole hours are exact, the product with the fraction is a float, and
     the sum is rounded half to even\<close>
  "hours_us x =
     round_half_even (of_int (ftrunc x * 3600000000) + fmul 3600000000 (x - of_int (ftrunc x)))"

definition replace_z :: "string \<Rightarrow> string" where
  \<comment> \<open>\<open>s.replace('Z', '+00:00')\<close>\<close>
  "replace_z s = concat (map (\<lambda>c. if c = CHR ''Z'' then ''+00:00'' else [c]) s)"

definition fixed1 :: "flt \<Rightarrow> string" where
  \<comment> \<open>\<open>format(x, '.1f')\<close> of a number that is not negative\<close>
  "fixed1 x = (let n = round_half_even (x * 10) in str_int (n div 10) @ ''.'' @ str_int (n mod 10))"

lemma dt_plus_Inr: "dt_plus d us = Inr e \<Longrightarrow> e = (fst d + us, snd d)"
  by (simp add: dt_plus_def split: if_splits)

lemma hours_us_whole: "hours_us (of_int n) = n * 3600000000"
proof -
  have t: "ftrunc (of_int n) = n" by (simp add: ftrunc_def)
  have z: "fmul 3600000000 0 = 0" by (simp add: fmul_def)
  show ?thesis unfolding hours_us_def t using round_half_even_of_int [of "n * 3600000000"] by (simp add: z)
qed

end
