(* ===== verification/Gpu_Expiry.thy ===== *)
theory Gpu_Expiry
  imports Gpu_Snapshots Py_Time
begin

section \<open>Pods, disks, warnings and out-of-memory events of a reservation\<close>

text \<open>
  \<open>reservation_expiry/index.py\<close>, except the handler and the clean-up of pods. A failure to make the Kubernetes
  client is, in the functions that swallow it together with the failure of their one call, a failure of that
  call. Texts with characters outside ASCII are their UTF-8 bytes.
\<close>

record xcfg =
  k_grace :: int \<comment> \<open>\<open>GRACE_PERIOD_SECONDS\<close>\<close>
  k_spot :: string \<comment> \<open>\<open>SPOT_GPU_TYPES\<close>\<close>
  k_updater :: string \<comment> \<open>\<open>AVAILABILITY_UPDATER_FUNCTION_NAME\<close>\<close>
  k_bucket :: string \<comment> \<open>\<open>DISK_CONTENTS_BUCKET\<close>\<close>
  k_dns :: bool \<comment> \<open>\<open>get_dns_enabled()\<close>\<close>
  k_alb :: bool \<comment> \<open>\<open>is_alb_enabled()\<close>\<close>

definition gpu_ns :: string where "gpu_ns = ''gpu-dev''"
definition MAIN_CONTAINER :: string where "MAIN_CONTAINER = ''gpu-dev''"
definition WARNING_LEVELS :: "int list" where "WARNING_LEVELS = [30, 15, 5]"

definition user_of :: "xrow \<Rightarrow> string" where
  "user_of r = (case x_user r of None \<Rightarrow> [] | Some u \<Rightarrow> u)"

definition namespace_of :: "xrow \<Rightarrow> string" where
  "namespace_of r = (case x_namespace r of None \<Rightarrow> gpu_ns | Some n \<Rightarrow> n)"

subsection \<open>Times\<close>

definition or_empty :: "ddb option \<Rightarrow> ddb" where
  \<comment> \<open>\<open>get(attribute, '')\<close>\<close>
  "or_empty v = (case v of None \<Rightarrow> DStr [] | Some x \<Rightarrow> x)"

definition time_of :: "xenv \<Rightarrow> ddb \<Rightarrow> int res" where
  \<comment> \<open>a text is parsed, anything else is given to \<open>int\<close>\<close>
  "time_of E v =
     (case v of
        DStr s \<Rightarrow> (case e_iso E (replace_z s) of Some t \<Rightarrow> Inr t | None \<Rightarrow> Inl ValueError)
      | DNum q \<Rightarrow> Inr (ftrunc q)
      | DBool b \<Rightarrow> Inr (if b then 1 else 0)
      | _ \<Rightarrow> Inl OtherError)"

definition iso_time :: "xenv \<Rightarrow> ddb \<Rightarrow> int res" where
  \<comment> \<open>the places that take only texts\<close>
  "iso_time E v =
     (case v of
        DStr s \<Rightarrow> (case e_iso E (replace_z s) of Some t \<Rightarrow> Inr t | None \<Rightarrow> Inl ValueError)
      | _ \<Rightarrow> Inl AttributeError)"

definition expires_at :: "xenv \<Rightarrow> xrow \<Rightarrow> int" where
  \<comment> \<open>0 when the time cannot be parsed\<close>
  "expires_at E r = (case iso_time E (or_empty (x_expires r)) of Inr t \<Rightarrow> t | Inl _ \<Rightarrow> 0)"

subsection \<open>The state of a pod\<close>

definition check_pod_exists :: "xenv \<Rightarrow> string \<Rightarrow> xlog \<Rightarrow> bool \<times> xlog" where
  \<comment> \<open>every error is taken as a missing pod\<close>
  "check_pod_exists E pod lg =
     (case see_pod E gpu_ns pod lg of (Inr _, lg1) \<Rightarrow> (True, lg1) | (Inl _, lg1) \<Rightarrow> (False, lg1))"

record oom_info =
  oi_container :: string
  oi_time :: string \<comment> \<open>empty when absent\<close>
  oi_restarts :: int

definition oom_end :: "xcontainer \<Rightarrow> (string \<times> string) option \<Rightarrow> oom_info option" where
  "oom_end c t =
     (case t of
        Some (reason, tm) \<Rightarrow>
          (if reason = ''OOMKilled'' then Some \<lparr>oi_container = xc_name c, oi_time = tm, oi_restarts = xc_restarts c\<rparr> else None)
      | None \<Rightarrow> None)"

fun oom_of :: "xcontainer list \<Rightarrow> oom_info option" where
  "oom_of [] = None"
| "oom_of (c # cs) =
     (case oom_end c (xc_last_end c) of
        Some i \<Rightarrow> Some i
      | None \<Rightarrow> (case oom_end c (xc_end c) of Some i \<Rightarrow> Some i | None \<Rightarrow> oom_of cs))"

definition check_pod_oom_status :: "xenv \<Rightarrow> string \<Rightarrow> xlog \<Rightarrow> oom_info option \<times> xlog" where
  \<comment> \<open>\<open>None\<close> when no out-of-memory end was detected\<close>
  "check_pod_oom_status E pod lg =
     (case see_pod E gpu_ns pod lg of
        (Inl _, lg1) \<Rightarrow> (None, lg1)
      | (Inr p, lg1) \<Rightarrow> ((case xp_status p of None \<Rightarrow> None | Some st \<Rightarrow> oom_of (xs_containers st)), lg1))"

definition short_text :: "string \<Rightarrow> string" where
  "short_text msg = (let m = strip msg in if m = [] then [] else take 300 (hd (split_on newline m)))"

definition with_message :: "string \<Rightarrow> string \<Rightarrow> string" where
  "with_message head_text msg = (if msg = [] then head_text else head_text @ '': '' @ msg)"

definition first_of :: "string \<Rightarrow> string \<Rightarrow> string" where
  \<comment> \<open>\<open>a or b\<close>\<close>
  "first_of a b = (if a = [] then b else a)"

definition dead_reason :: "xstatus \<Rightarrow> string option" where
  "dead_reason st =
     (if xs_phase st = ''Failed'' \<or> xs_phase st = ''Succeeded'' then
        Some (with_message (''Pod '' @ lower (xs_phase st) @ '' ('' @ first_of (xs_reason st) (xs_phase st) @ '')'')
                (short_text (xs_message st)))
      else case dget (dict_of (map (\<lambda>c. (xd_type c, c)) (xs_conditions st))) ''DisruptionTarget'' of
          None \<Rightarrow> None
        | Some c \<Rightarrow>
            (if xd_status c = ''True'' \<and> \<not> list_ex (\<lambda>k. xc_name k = MAIN_CONTAINER \<and> xc_running k) (xs_containers st) then
               Some (with_message (''Pod disrupted ('' @ first_of (xd_reason c) ''Disrupted'' @ '')'') (short_text (xd_message c)))
             else None))"

definition check_pod_dead :: "xenv \<Rightarrow> string \<Rightarrow> xlog \<Rightarrow> string option \<times> xlog" where
  "check_pod_dead E pod lg =
     (case see_pod E gpu_ns pod lg of
        (Inl _, lg1) \<Rightarrow> (None, lg1)
      | (Inr p, lg1) \<Rightarrow> ((case xp_status p of None \<Rightarrow> None | Some st \<Rightarrow> dead_reason st), lg1))"

subsection \<open>The lock of a disk\<close>

definition disk_unlocked :: "string \<Rightarrow> (string \<times> upd) list" where
  "disk_unlocked now = [(''in_use'', Put (DBool False)), (''last_used'', Put (DStr now))]"

definition mark_disk_not_in_use :: "xenv \<Rightarrow> string \<Rightarrow> string \<Rightarrow> xlog \<Rightarrow> xlog" where
  \<comment> \<open>it raises again what it logs; every caller logs and ignores it\<close>
  "mark_disk_not_in_use E user disk lg =
     try_call E (SetDisk user disk (disk_unlocked (e_utcnow E lg)) [''attached_to_reservation'']) lg"

definition attached_to :: "string \<Rightarrow> drow \<Rightarrow> bool" where
  "attached_to rid d \<longleftrightarrow>
     d_attached d \<noteq> [] \<and> (d_attached d = rid \<or> startswith rid (take 8 (d_attached d)))"

definition find_disk_by_reservation :: "xenv \<Rightarrow> string \<Rightarrow> string \<Rightarrow> xlog \<Rightarrow> string \<times> xlog" where
  \<comment> \<open>empty when there is none\<close>
  "find_disk_by_reservation E user rid lg =
     (case see_user_disks E user lg of
        (Inl _, lg1) \<Rightarrow> ([], lg1)
      | (Inr ds, lg1) \<Rightarrow> ((case filter (attached_to rid) ds of [] \<Rightarrow> [] | d # _ \<Rightarrow> d_name d), lg1))"

definition release_disk :: "xenv \<Rightarrow> xrow \<Rightarrow> xlog \<Rightarrow> xlog" where
  \<comment> \<open>the disk of the row or, failing that, the one attached to the reservation\<close>
  "release_disk E r lg =
     (if user_of r = [] then lg
      else case (if x_disk r = [] then find_disk_by_reservation E (user_of r) (x_id r) lg else (x_disk r, lg)) of
          (disk, lg1) \<Rightarrow> (if disk = [] then lg1 else mark_disk_not_in_use E (user_of r) disk lg1))"

definition terminal_status :: "string \<Rightarrow> bool" where
  "terminal_status s \<longleftrightarrow> s = ''expired'' \<or> s = ''cancelled'' \<or> s = ''failed''"

definition sweep_disk :: "xenv \<Rightarrow> drow \<Rightarrow> xlog \<Rightarrow> xlog" where
  "sweep_disk E d lg =
     (if d_attached d = [] \<or> d_user d = [] \<or> d_name d = [] then lg
      else case see_row E (d_attached d) lg of
          (Inl _, lg1) \<Rightarrow> lg1
        | (Inr None, lg1) \<Rightarrow> mark_disk_not_in_use E (d_user d) (d_name d) lg1
        | (Inr (Some r), lg1) \<Rightarrow>
            (if terminal_status (x_status r) then mark_disk_not_in_use E (d_user d) (d_name d) lg1 else lg1))"

definition sweep_stale_disk_locks :: "xenv \<Rightarrow> xlog \<Rightarrow> xlog" where
  "sweep_stale_disk_locks E lg =
     (case see_disks E True lg of (Inl _, lg1) \<Rightarrow> lg1 | (Inr ds, lg1) \<Rightarrow> fold (sweep_disk E) ds lg1)"

subsection \<open>Messages\<close>

definition rule_line :: string where
  "rule_line = concat (replicate 53 [CHR 0xE2, CHR 0x94, CHR 0x81])"

definition text_lines :: "string list \<Rightarrow> string" where
  "text_lines ls = join_on newline ls"

definition create_warning_message :: "xrow \<Rightarrow> int \<Rightarrow> string" where
  "create_warning_message r left =
     (let rid = take 8 (x_id r) in
      if left \<le> 0 then
        [CHR 0xF0, CHR 0x9F, CHR 0x9A, CHR 0xA8] @ '' URGENT: Reservation '' @ rid @
        '' expires in less than 1 minute! Save your work now!''
      else if left \<le> 5 then
        [CHR 0xE2, CHR 0x9A, CHR 0xA0, CHR 0xEF, CHR 0xB8, CHR 0x8F] @ ''  WARNING: Reservation '' @ rid @
        '' expires in '' @ str_int left @ '' minutes! Save your work!''
      else if left \<le> 15 then
        [CHR 0xF0, CHR 0x9F, CHR 0x93, CHR 0xA2] @ '' NOTICE: Reservation '' @ rid @
        '' expires in '' @ str_int left @ '' minutes. Please save your work.''
      else
        [CHR 0xF0, CHR 0x9F, CHR 0x93, CHR 0x9D] @ '' INFO: Reservation '' @ rid @
        '' expires in '' @ str_int left @ '' minutes.'')"

definition quoted :: "string \<Rightarrow> string" where
  "quoted s = CHR 0x22 # s @ [CHR 0x22]"

definition warning_file_command :: "string \<Rightarrow> int \<Rightarrow> string \<Rightarrow> string" where
  \<comment> \<open>the last argument is the text of the current time\<close>
  "warning_file_command msg left stamp =
     ''rm -f /home/dev/WARN_EXPIRES_IN_*MIN.txt 2>/dev/null; echo '' @
     quoted (text_lines
       [[], rule_line,
        [CHR 0xE2, CHR 0x9A, CHR 0xA0, CHR 0xEF, CHR 0xB8, CHR 0x8F] @ ''  GPU RESERVATION EXPIRY WARNING '' @
        [CHR 0xE2, CHR 0x9A, CHR 0xA0, CHR 0xEF, CHR 0xB8, CHR 0x8F],
        rule_line, [], msg, [], ''Time remaining: '' @ str_int left @ '' minutes'', [],
        ''IMPORTANT:'', ''- Save your work immediately'',
        ''- Your reservation will expire and this pod will be deleted'', ''- All unsaved data will be lost'', [],
        ''To extend your reservation, use the CLI:'', ''  gpu-dev extend <reservation-id>'', [],
        rule_line, ''Generated at: '' @ stamp, []]) @
     '' > /home/dev/WARN_EXPIRES_IN_'' @ str_int left @ ''MIN.txt''"

definition create_warning_file_in_pod :: "xenv \<Rightarrow> string \<Rightarrow> string \<Rightarrow> int \<Rightarrow> xlog \<Rightarrow> xlog" where
  "create_warning_file_in_pod E pod msg left lg =
     try_call E (ExecPod gpu_ns pod (warning_file_command msg left (e_stamp E lg))) lg"

definition oom_file_command :: "oom_info \<Rightarrow> int \<Rightarrow> string \<Rightarrow> string" where
  "oom_file_command i n stamp =
     ''echo '' @
     quoted (text_lines
       [[], rule_line,
        [CHR 0xF0, CHR 0x9F, CHR 0x94, CHR 0xB4] @ '' OUT OF MEMORY (OOM) DETECTED '' @
        [CHR 0xF0, CHR 0x9F, CHR 0x94, CHR 0xB4],
        rule_line, [], ''Your container ran out of memory and was killed by the system.'', [],
        ''Container: '' @ oi_container i,
        ''OOM Time: '' @ (if oi_time i = [] then ''None'' else oi_time i),
        ''Total OOM Count: '' @ str_int n, [], ''WHAT HAPPENED:'',
        ''- Your process exceeded the allocated memory limit'', ''- The container was automatically restarted'', [],
        ''SUGGESTIONS:'', ''- Reduce batch size or model size'', ''- Use gradient checkpointing'',
        ''- Enable mixed precision (fp16/bf16)'', ''- Monitor memory with: nvidia-smi or htop'',
        ''- Consider requesting more GPUs for larger memory'', [],
        rule_line, ''Generated at: '' @ stamp, []]) @
     '' > /home/dev/OOM_DETECTED.txt''"

definition create_oom_warning_file :: "xenv \<Rightarrow> string \<Rightarrow> oom_info \<Rightarrow> int \<Rightarrow> xlog \<Rightarrow> xlog" where
  "create_oom_warning_file E pod i n lg =
     try_call E (ExecPod gpu_ns pod (oom_file_command i n (e_stamp E lg))) lg"

definition handle_oom_event :: "xenv \<Rightarrow> xrow \<Rightarrow> oom_info \<Rightarrow> xlog \<Rightarrow> bool \<times> xlog" where
  "handle_oom_event E r i lg =
     (let tm = first_of (oi_time i) (e_utcnow E lg) in
      if x_last_oom r \<noteq> [] \<and> x_last_oom r = tm then (False, lg)
      else case do_call E (SetRow (x_id r)
             [(''last_oom_at'', DStr tm), (''oom_count'', DNum (of_int (x_oom_count r + 1))), (''oom_container'', DStr (oi_container i))]) lg of
          (Inl _, lg1) \<Rightarrow> (False, lg1)
        | (Inr _, lg1) \<Rightarrow>
            (True, if x_pod r = [] then lg1 else create_oom_warning_file E (x_pod r) i (x_oom_count r + 1) lg1))"

end
