(* ===== verification/Gpu_Cleanup.thy ===== *)
theory Gpu_Cleanup
  imports Gpu_Expiry
begin

section \<open>Ending a reservation\<close>

text \<open>
  \<open>reservation_expiry/index.py\<close>: \<open>cleanup_pod\<close> with its shutdown snapshot, and the ways in which a reservation
  is expired, failed or cancelled. \<open>cleanup_pod\<close> is always called with the row of the reservation, so the row is not
  optional here; \<open>send_wall_message_to_pod\<close> only logs.
\<close>

subsection \<open>Clean-up of a pod\<close>

definition cleanup_dns :: "xenv \<Rightarrow> xcfg \<Rightarrow> xrow \<Rightarrow> xlog \<Rightarrow> xlog" where
  "cleanup_dns E c r lg =
     (if k_dns c \<and> x_domain r \<noteq> [] \<and> x_node_ip r \<noteq> [] \<and> x_node_port r \<noteq> 0 then
        try_call E (DropMapping (x_domain r)) (try_call E (DropDns (x_domain r) (x_node_ip r) (x_node_port r)) lg)
      else lg)"

definition cleanup_alb :: "xenv \<Rightarrow> xcfg \<Rightarrow> xrow \<Rightarrow> xlog \<Rightarrow> xlog" where
  "cleanup_alb E c r lg = (if x_id r \<noteq> [] \<and> k_alb c then try_call E (DropAlb (x_id r)) lg else lg)"

fun first_volume :: "string option list \<Rightarrow> string \<Rightarrow> string" where
  "first_volume [] v = v"
| "first_volume (Some w # vs) v = w"
| "first_volume (None # vs) v = first_volume vs v"

definition storage_of :: "xenv \<Rightarrow> string \<Rightarrow> string \<Rightarrow> xrow \<Rightarrow> xlog \<Rightarrow> (string \<times> string) \<times> xlog" where
  \<comment> \<open>user and volume, from the row or else from the pod\<close>
  "storage_of E pod ns r lg =
     (if user_of r \<noteq> [] \<and> x_volume r \<noteq> [] then ((user_of r, x_volume r), lg)
      else case see_pod E ns pod lg of
          (Inl _, lg1) \<Rightarrow> ((user_of r, x_volume r), lg1)
        | (Inr p, lg1) \<Rightarrow> ((first_of (xp_user p) (user_of r), first_volume (xp_volumes p) (x_volume r)), lg1))"

definition disk_name_of :: "xenv \<Rightarrow> xrow \<Rightarrow> string \<Rightarrow> xlog \<Rightarrow> string \<times> xlog" where
  \<comment> \<open>from the row or else from the tags of the volume\<close>
  "disk_name_of E r vol lg =
     (if vol \<noteq> [] \<and> x_disk r = [] then
        (case see_volume E vol lg of
           (Inr (Some ts), lg1) \<Rightarrow> (dget_or (dict_of ts) ''disk_name'' [], lg1)
         | (_, lg1) \<Rightarrow> ([], lg1))
      else (x_disk r, lg))"

definition note_completed :: "xenv \<Rightarrow> string \<Rightarrow> string \<Rightarrow> string \<Rightarrow> xlog \<Rightarrow> xlog" where
  "note_completed E user disk sid lg =
     (if disk = [] then lg
      else case see_snapshots E (ById sid) lg of
          (Inr (s # _), lg1) \<Rightarrow>
            update_disk_snapshot_completed E user disk (s_size s) (dget (tags_of s) ''snapshot_content_s3'')
              (dget (tags_of s) ''disk_size'') lg1
        | (_, lg1) \<Rightarrow> lg1)"

definition finish_snapshot :: "xenv \<Rightarrow> string \<Rightarrow> string \<Rightarrow> string \<Rightarrow> string \<Rightarrow> xlog \<Rightarrow> xlog" where
  \<comment> \<open>wait for the snapshot, write it down, delete the volume and release the disk\<close>
  "finish_snapshot E user vol disk sid lg =
     (case do_call E (WaitSnapshot sid) lg of
        (Inl _, lg1) \<Rightarrow> lg1
      | (Inr _, lg1) \<Rightarrow>
          (case do_call E (DropVolume vol) (note_completed E user disk sid lg1) of
             (Inl _, lg2) \<Rightarrow> lg2
           | (Inr _, lg2) \<Rightarrow> if disk = [] then lg2 else mark_disk_not_in_use E user disk lg2))"

definition snapshot_and_delete :: "xenv \<Rightarrow> xcfg \<Rightarrow> string \<Rightarrow> string \<Rightarrow> string \<Rightarrow> string \<Rightarrow> string \<Rightarrow> xlog \<Rightarrow> xlog" where
  "snapshot_and_delete E c pod ns user vol disk lg =
     (case (if disk = [] then (([], []), lg)
            else capture_disk_contents E (k_bucket c) pod ns user disk (''pending-'' @ str_int (e_now E lg)) ''/home/dev'' lg) of
        ((path, usage), lg1) \<Rightarrow>
          (case safe_create_snapshot E vol user ''shutdown'' disk path usage lg1 of
             ((None, _), lg2) \<Rightarrow> lg2
           | ((Some sid, _), lg2) \<Rightarrow> if sid = [] then lg2 else finish_snapshot E user vol disk sid lg2))"

definition shutdown_snapshot :: "xenv \<Rightarrow> xcfg \<Rightarrow> string \<Rightarrow> string \<Rightarrow> xrow \<Rightarrow> xlog \<Rightarrow> xlog" where
  "shutdown_snapshot E c pod ns r lg =
     (case storage_of E pod ns r lg of
        ((user, vol), lg1) \<Rightarrow>
          (case disk_name_of E r vol lg1 of
             (disk, lg2) \<Rightarrow>
               if user \<noteq> [] \<and> vol \<noteq> [] then snapshot_and_delete E c pod ns user vol disk lg2 else lg2))"

definition delete_pod :: "xenv \<Rightarrow> string \<Rightarrow> string \<Rightarrow> xlog \<Rightarrow> unit res \<times> xlog" where
  \<comment> \<open>with a grace period, and by force if the API refuses\<close>
  "delete_pod E ns pod lg =
     (case do_call E (DropPod ns pod 30) lg of
        (Inr _, lg1) \<Rightarrow> (Inr (), lg1)
      | (Inl (ApiError n), lg1) \<Rightarrow>
          (if n = 404 then (Inr (), lg1)
           else case do_call E (DropPod ns pod 0) lg1 of
               (Inr _, lg2) \<Rightarrow> (Inr (), lg2)
             | (Inl e, lg2) \<Rightarrow> (Inl e, lg2))
      | (Inl e, lg1) \<Rightarrow> (Inl e, lg1))"

definition trigger_availability_update :: "xenv \<Rightarrow> xcfg \<Rightarrow> xlog \<Rightarrow> xlog" where
  "trigger_availability_update E c lg = (if k_updater c = [] then lg else try_call E (InvokeUpdater (k_updater c)) lg)"

definition cleanup_body :: "xenv \<Rightarrow> xcfg \<Rightarrow> string \<Rightarrow> string \<Rightarrow> xrow \<Rightarrow> xlog \<Rightarrow> unit res \<times> xlog" where
  \<comment> \<open>the \<open>try\<close> block up to the deletion of the pod\<close>
  "cleanup_body E c pod ns r lg =
     (case see_client E (cleanup_alb E c r (cleanup_dns E c r lg)) of
        (Inl e, lg1) \<Rightarrow> (Inl e, lg1)
      | (Inr _, lg1) \<Rightarrow>
          delete_pod E ns pod (try_call E (DropService ns (pod @ ''-ssh'')) (shutdown_snapshot E c pod ns r lg1)))"

definition cleanup_pod :: "xenv \<Rightarrow> xcfg \<Rightarrow> string \<Rightarrow> string \<Rightarrow> xrow \<Rightarrow> xlog \<Rightarrow> unit res \<times> xlog" where
  \<comment> \<open>the disk is released in both cases\<close>
  "cleanup_pod E c pod ns r lg =
     (case cleanup_body E c pod ns r lg of
        (Inl e, lg1) \<Rightarrow> (Inl e, release_disk E r lg1)
      | (Inr _, lg1) \<Rightarrow> (Inr (), release_disk E r (trigger_availability_update E c lg1)))"

definition cleanup_stuck_pod_resources :: "xenv \<Rightarrow> string \<Rightarrow> xlog \<Rightarrow> xlog" where
  "cleanup_stuck_pod_resources E pod lg =
     (case see_client E lg of
        (Inl _, lg1) \<Rightarrow> lg1
      | (Inr _, lg1) \<Rightarrow>
          (case do_call E (DropPod gpu_ns pod 0) lg1 of
             (Inl (ApiError _), lg2) \<Rightarrow> try_call E (DropService gpu_ns (pod @ ''-ssh'')) lg2
           | (Inl _, lg2) \<Rightarrow> lg2
           | (Inr _, lg2) \<Rightarrow> try_call E (DropService gpu_ns (pod @ ''-ssh'')) lg2))"

subsection \<open>Writing the end of a reservation\<close>

definition ended :: "string \<Rightarrow> string \<Rightarrow> string \<Rightarrow> (string \<times> ddb) list" where
  \<comment> \<open>status, the attribute with the time, and the time\<close>
  "ended s a now = [(''status'', DStr s), (a, DStr now), (''reservation_ended'', DStr now)]"

definition because :: "string \<Rightarrow> (string \<times> ddb) list" where
  "because reason = [(''failure_reason'', DStr reason)]"

definition upper_char :: "char \<Rightarrow> char" where
  "upper_char c = (if 97 \<le> (of_char c :: nat) \<and> (of_char c :: nat) \<le> 122 then char_of ((of_char c :: nat) - 32) else c)"

definition upper :: "string \<Rightarrow> string" where
  "upper s = map upper_char s"

definition spot_gpu :: "xcfg \<Rightarrow> string \<Rightarrow> bool" where
  "spot_gpu c gpu \<longleftrightarrow>
     strip (k_spot c) = ''all'' \<or>
     gpu \<in> set (map (\<lambda>t. lower (strip t)) (filter (\<lambda>t. strip t \<noteq> []) (split_on (CHR '','') (k_spot c))))"

definition em_dash :: string where "em_dash = [CHR 0xE2, CHR 0x80, CHR 0x94]"

definition in_parens :: "string \<Rightarrow> string" where
  "in_parens gpu = '' ('' @ upper gpu @ '')''"

definition instance_reason :: "string \<Rightarrow> ec2_instance \<Rightarrow> string \<Rightarrow> string" where
  "instance_reason gpu i reason =
     (if contains_str ''Server.SpotInstanceTermination'' (i_transition i) then ''Spot instance reclaimed by AWS'' @ in_parens gpu
      else if i_state i = ''terminated'' then ''Spot node terminated'' @ in_parens gpu @ '' '' @ em_dash @ '' '' @ i_transition i
      else if i_state i = ''running'' \<or> i_state i = ''pending'' then ''Pod removed while node still running'' @ in_parens gpu
      else reason)"

definition missing_reason :: "xenv \<Rightarrow> xcfg \<Rightarrow> xrow \<Rightarrow> xlog \<Rightarrow> string \<times> xlog" where
  "missing_reason E c r lg =
     (let gpu = lower (x_gpu_type r) in
      if \<not> spot_gpu c gpu then (''Pod was removed outside of reservation system'', lg)
      else if x_node_ip r = [] then (''Spot instance reclaimed by AWS'' @ in_parens gpu, lg)
      else case see_instances E ''private-ip-address'' (x_node_ip r) lg of
          (Inl _, lg1) \<Rightarrow> (''Spot instance lost'' @ in_parens gpu, lg1)
        | (Inr is1, lg1) \<Rightarrow>
            (case (if is1 = [] then see_instances E ''ip-address'' (x_node_ip r) lg1 else (Inr is1, lg1)) of
               (Inl _, lg2) \<Rightarrow> (''Spot instance lost'' @ in_parens gpu, lg2)
             | (Inr is2, lg2) \<Rightarrow>
                 (fold (instance_reason gpu) is2 (''Spot instance reclaimed by AWS'' @ in_parens gpu), lg2)))"

definition expire_reservation_due_to_missing_pod :: "xenv \<Rightarrow> xcfg \<Rightarrow> xrow \<Rightarrow> xlog \<Rightarrow> xlog" where
  "expire_reservation_due_to_missing_pod E c r lg =
     (case missing_reason E c r lg of
        (reason, lg1) \<Rightarrow>
          (case do_call E (SetRow (x_id r) (ended ''expired'' ''expired_at'' (e_utcnow E lg1) @ because reason)) lg1 of
             (Inl _, lg2) \<Rightarrow> lg2
           | (Inr _, lg2) \<Rightarrow> release_disk E r lg2))"

definition expire_reservation_due_to_dead_pod :: "xenv \<Rightarrow> xcfg \<Rightarrow> xrow \<Rightarrow> string \<Rightarrow> xlog \<Rightarrow> unit res \<times> xlog" where
  "expire_reservation_due_to_dead_pod E c r reason lg =
     (case do_call E (SetRow (x_id r) (ended ''failed'' ''failed_at'' (e_utcnow E lg) @ because reason)) lg of
        (Inl e, lg1) \<Rightarrow> (Inl e, lg1)
      | (Inr _, lg1) \<Rightarrow>
          (Inr (), release_disk E r
             (if x_pod r = [] then lg1 else snd (cleanup_pod E c (x_pod r) (namespace_of r) r lg1))))"

definition expire_stuck_preparing_reservation :: "xenv \<Rightarrow> xrow \<Rightarrow> xlog \<Rightarrow> xlog" where
  "expire_stuck_preparing_reservation E r lg =
     (case do_call E (SetRow (x_id r) (ended ''failed'' ''failed_at'' (e_utcnow E lg) @
             because ''Reservation stuck in preparing status for more than 1 hour - likely pod creation failed'')) lg of
        (Inl _, lg1) \<Rightarrow> lg1
      | (Inr _, lg1) \<Rightarrow> release_disk E r (if x_pod r = [] then lg1 else cleanup_stuck_pod_resources E (x_pod r) lg1))"

definition expire_reservation :: "xenv \<Rightarrow> xcfg \<Rightarrow> xrow \<Rightarrow> xlog \<Rightarrow> unit res \<times> xlog" where
  "expire_reservation E c r lg =
     (if x_user r = None then (Inl KeyError, lg)
      else case do_call E (SetRow (x_id r) (ended ''expired'' ''expired_at'' (e_utcnow E lg))) lg of
          (Inl e, lg1) \<Rightarrow> (Inl e, lg1)
        | (Inr _, lg1) \<Rightarrow>
            (Inr (), if x_pod r = [] then lg1 else snd (cleanup_pod E c (x_pod r) (namespace_of r) r lg1)))"

definition cancel_stale_reservation :: "xenv \<Rightarrow> xrow \<Rightarrow> xlog \<Rightarrow> xlog" where
  \<comment> \<open>an absent user is \<open>unknown\<close>\<close>
  "cancel_stale_reservation E r lg =
     (case do_call E (SetRow (x_id r) (ended ''cancelled'' ''cancelled_at'' (e_utcnow E lg) @
             because ''Stale reservation - exceeded 5 minute queue time'')) lg of
        (Inl _, lg1) \<Rightarrow> lg1
      | (Inr _, lg1) \<Rightarrow> if user_of r = ''unknown'' then lg1 else release_disk E r lg1)"

definition warning_key :: "int \<Rightarrow> string" where
  "warning_key level = str_int level @ ''min_warning_sent''"

definition warn_user_expiring :: "xenv \<Rightarrow> xcfg \<Rightarrow> xrow \<Rightarrow> int \<Rightarrow> xlog \<Rightarrow> xlog" where
  "warn_user_expiring E c r level lg =
     (let now = e_now E lg; left = (expires_at E r - now) div 60;
          lg2 = (if x_pod r = [] then lg
                 else case check_pod_exists E (x_pod r) lg of
                     (True, lg1) \<Rightarrow> create_warning_file_in_pod E (x_pod r) (create_warning_message r left) left lg1
                   | (False, lg1) \<Rightarrow> expire_reservation_due_to_missing_pod E c r lg1) in
      try_call E (SetRow (x_id r)
        [(''warnings_sent'', DMap (map (\<lambda>(k, b). (k, DBool b)) (dset (warning_key level) True (x_warnings r)))),
         (''last_warning_time'', DNum (of_int now))]) lg2)"

end
