(* ===== verification/Gpu_Tracker.thy ===== *)
theory Gpu_Tracker
  imports Py_Time Dynamo
begin

section \<open>The GPU tracker\<close>

text \<open>
  \<open>shared/k8s_resource_tracker.py\<close>: GPUs of the whole cluster, pods that wait for GPUs, and the estimate of how long
  a reservation has to wait. The cluster answers every call, and may change between calls; the number of calls so far
  is passed along. Nodes have a status and pods a specification, as the API server guarantees for stored objects.
\<close>

record tnode =
  tn_name :: string
  tn_capacity :: "(string, string) dict"
  tn_allocatable :: "(string, string) dict"
  tn_conditions :: "(string \<times> string) list"

record tpod =
  tp_name :: string
  tp_namespace :: string
  tp_phase :: string
  tp_requests :: "(string, string) dict list" \<comment> \<open>of each container\<close>
  tp_created :: int
  tp_labels :: "(string, string) dict"

record tapi =
  t_nodes :: "nat \<Rightarrow> tnode list res"
  t_pods_on :: "nat \<Rightarrow> string \<Rightarrow> tpod list res"
  t_pending :: "nat \<Rightarrow> tpod list res"
  t_events :: "nat \<Rightarrow> string \<Rightarrow> string \<Rightarrow> (string option \<times> string) list res" \<comment> \<open>reason and message\<close>
  t_now :: "nat \<Rightarrow> int"

definition GPU :: string where "GPU = ''nvidia.com/gpu''"

subsection \<open>Capacity\<close>

definition whole :: "string \<Rightarrow> int res" where
  \<comment> \<open>\<open>int(s)\<close>\<close>
  "whole s = (case py_int s of None \<Rightarrow> Inl ValueError | Some n \<Rightarrow> Inr n)"

definition node_gpus :: "(string, string) dict \<Rightarrow> int res" where
  "node_gpus d = (case dget d GPU of None \<Rightarrow> Inr 0 | Some s \<Rightarrow> whole s)"

fun sum_requests :: "(string, string) dict list \<Rightarrow> int res" where
  \<comment> \<open>an absent or empty amount counts nothing\<close>
  "sum_requests [] = Inr 0"
| "sum_requests (r # rs) =
     bind_res (if dget_or r GPU [] = [] then Inr 0 else whole (dget_or r GPU [])) (\<lambda>n.
     bind_res (sum_requests rs) (\<lambda>m. Inr (n + m)))"

fun sum_pods :: "tpod list \<Rightarrow> int res" where
  "sum_pods [] = Inr 0"
| "sum_pods (p # ps) =
     (if tp_phase p = ''Running'' \<or> tp_phase p = ''Pending'' then
        bind_res (sum_requests (tp_requests p)) (\<lambda>n. bind_res (sum_pods ps) (\<lambda>m. Inr (n + m)))
      else sum_pods ps)"

definition get_gpus_used_on_node :: "tapi \<Rightarrow> string \<Rightarrow> nat \<Rightarrow> int \<times> nat" where
  \<comment> \<open>0 when the pods cannot be listed or read\<close>
  "get_gpus_used_on_node K n i =
     ((case bind_res (t_pods_on K i n) sum_pods of Inl _ \<Rightarrow> 0 | Inr u \<Rightarrow> u), Suc i)"

fun tracked_ready :: "(string \<times> string) list \<Rightarrow> bool" where
  \<comment> \<open>the first condition \<open>Ready\<close> decides\<close>
  "tracked_ready [] = False"
| "tracked_ready ((t, s) # cs) = (if t = ''Ready'' then s = ''True'' else tracked_ready cs)"

record node_info =
  ni_name :: string
  ni_capacity :: int
  ni_allocatable :: int
  ni_used :: int
  ni_available :: int
  ni_ready :: bool

definition node_info_of :: "tapi \<Rightarrow> tnode \<Rightarrow> nat \<Rightarrow> node_info res \<times> nat" where
  "node_info_of K n i =
     (case node_gpus (tn_capacity n) of
        Inl e \<Rightarrow> (Inl e, i)
      | Inr c \<Rightarrow>
          (case node_gpus (tn_allocatable n) of
             Inl e \<Rightarrow> (Inl e, i)
           | Inr a \<Rightarrow>
               (case get_gpus_used_on_node K (tn_name n) i of
                  (u, i1) \<Rightarrow>
                    (Inr \<lparr>ni_name = tn_name n, ni_capacity = c, ni_allocatable = a, ni_used = u,
                          ni_available = max 0 (a - u), ni_ready = tracked_ready (tn_conditions n)\<rparr>, i1))))"

fun nodes_info :: "tapi \<Rightarrow> tnode list \<Rightarrow> nat \<Rightarrow> node_info list res \<times> nat" where
  "nodes_info K [] i = (Inr [], i)"
| "nodes_info K (n # ns) i =
     (case node_info_of K n i of
        (Inl e, i1) \<Rightarrow> (Inl e, i1)
      | (Inr x, i1) \<Rightarrow>
          (case nodes_info K ns i1 of (Inl e, i2) \<Rightarrow> (Inl e, i2) | (Inr xs, i2) \<Rightarrow> (Inr (x # xs), i2)))"

record capacity_info =
  ci_total :: int
  ci_available :: int
  ci_used :: int
  ci_nodes :: "node_info list"
  ci_stamp :: int

definition get_gpu_capacity_info :: "tapi \<Rightarrow> nat \<Rightarrow> capacity_info res \<times> nat" where
  "get_gpu_capacity_info K i =
     (case t_nodes K i of
        Inl e \<Rightarrow> (Inl e, Suc i)
      | Inr ns \<Rightarrow>
          (case nodes_info K ns (Suc i) of
             (Inl e, i1) \<Rightarrow> (Inl e, i1)
           | (Inr xs, i1) \<Rightarrow>
               (let c = sum_list (map ni_capacity xs); a = sum_list (map ni_available xs) in
                (Inr \<lparr>ci_total = c, ci_available = a, ci_used = c - a, ci_nodes = xs, ci_stamp = t_now K i1\<rparr>, i1))))"

subsection \<open>Pods that wait for GPUs\<close>

fun pending_message :: "(string option \<times> string) list \<Rightarrow> string" where
  \<comment> \<open>a missing reason cannot be searched, so it ends the loop\<close>
  "pending_message [] = ''Unknown''"
| "pending_message ((r, m) # es) =
     (case r of
        None \<Rightarrow> ''Unknown''
      | Some s \<Rightarrow> (if contains_str ''Insufficient'' s \<or> contains_str ''FailedScheduling'' s then m else pending_message es))"

definition get_pending_reason :: "tapi \<Rightarrow> tpod \<Rightarrow> nat \<Rightarrow> string \<times> nat" where
  "get_pending_reason K p i =
     ((case t_events K i (tp_namespace p) (tp_name p) of Inl _ \<Rightarrow> ''Unknown'' | Inr es \<Rightarrow> pending_message es), Suc i)"

record pending_pod =
  pp_name :: string
  pp_namespace :: string
  pp_gpus :: int
  pp_created :: int
  pp_reason :: string
  pp_labels :: "(string, string) dict"

fun pending_pods :: "tapi \<Rightarrow> tpod list \<Rightarrow> nat \<Rightarrow> pending_pod list res \<times> nat" where
  "pending_pods K [] i = (Inr [], i)"
| "pending_pods K (p # ps) i =
     (case sum_requests (tp_requests p) of
        Inl e \<Rightarrow> (Inl e, i)
      | Inr g \<Rightarrow>
          (if g > 0 then
             (case get_pending_reason K p i of
                (m, i1) \<Rightarrow>
                  (case pending_pods K ps i1 of
                     (Inl e, i2) \<Rightarrow> (Inl e, i2)
                   | (Inr xs, i2) \<Rightarrow>
                       (Inr (\<lparr>pp_name = tp_name p, pp_namespace = tp_namespace p, pp_gpus = g, pp_created = tp_created p,
                              pp_reason = m, pp_labels = tp_labels p\<rparr> # xs), i2)))
           else pending_pods K ps i))"

definition get_pending_gpu_reservations :: "tapi \<Rightarrow> nat \<Rightarrow> pending_pod list \<times> nat" where
  "get_pending_gpu_reservations K i =
     (case t_pending K i of
        Inl _ \<Rightarrow> ([], Suc i)
      | Inr ps \<Rightarrow> (case pending_pods K ps (Suc i) of (Inl _, i1) \<Rightarrow> ([], i1) | (Inr xs, i1) \<Rightarrow> (xs, i1)))"

subsection \<open>The estimate\<close>

definition to_int :: "ddb \<Rightarrow> int res" where
  \<comment> \<open>\<open>int(v)\<close>\<close>
  "to_int v =
     (case v of
        DNum q \<Rightarrow> Inr (ftrunc q)
      | DBool b \<Rightarrow> Inr (if b then 1 else 0)
      | DStr s \<Rightarrow> whole s
      | _ \<Rightarrow> Inl OtherError)"

definition expiry_stamp :: "(string \<Rightarrow> datetime option) \<Rightarrow> ddb \<Rightarrow> int option" where
  \<comment> \<open>\<open>None\<close>: the time is skipped\<close>
  "expiry_stamp parse v =
     (case v of
        DStr s \<Rightarrow> map_option utc_stamp (parse (replace_z s))
      | _ \<Rightarrow> (case to_int v of Inl _ \<Rightarrow> None | Inr n \<Rightarrow> Some n))"

definition freed_minutes :: "(string \<Rightarrow> datetime option) \<Rightarrow> int \<Rightarrow> row \<Rightarrow> int list res" where
  \<comment> \<open>one entry per GPU of a reservation that has not expired\<close>
  "freed_minutes parse now r =
     bind_res (to_int (dget_or r ''gpu_count'' (DNum 1))) (\<lambda>g.
     Inr (case expiry_stamp parse (dget_or r ''expires_at'' (DNum 0)) of
            None \<Rightarrow> []
          | Some t \<Rightarrow> if t > now then replicate (nat g) ((t - now) div 60) else []))"

fun all_freed :: "(string \<Rightarrow> datetime option) \<Rightarrow> int \<Rightarrow> row list \<Rightarrow> int list res" where
  "all_freed parse now [] = Inr []"
| "all_freed parse now (r # rs) =
     bind_res (freed_minutes parse now r) (\<lambda>xs. bind_res (all_freed parse now rs) (\<lambda>ys. Inr (xs @ ys)))"

fun wait_until :: "int \<Rightarrow> int \<Rightarrow> int list \<Rightarrow> int" where
  \<comment> \<open>0 when the GPUs never suffice\<close>
  "wait_until requested available [] = 0"
| "wait_until requested available (x # xs) =
     (if available + 1 \<ge> requested then x else wait_until requested (available + 1) xs)"

record wait_estimate =
  we_now :: bool
  we_minutes :: int
  we_position :: "int option"
  we_available :: "int option"
  we_total :: "int option"
  we_message :: string

definition no_estimate :: wait_estimate where
  "no_estimate = \<lparr>we_now = False, we_minutes = 60, we_position = None, we_available = None, we_total = None,
     we_message = ''Unable to estimate wait time''\<rparr>"

definition estimate_wait_time :: "tapi \<Rightarrow> (string \<Rightarrow> datetime option) \<Rightarrow> int \<Rightarrow> row list \<Rightarrow> nat \<Rightarrow> wait_estimate \<times> nat" where
  "estimate_wait_time K parse requested active i =
     (case get_gpu_capacity_info K i of
        (Inl _, i1) \<Rightarrow> (no_estimate, i1)
      | (Inr c, i1) \<Rightarrow>
          (if ci_available c \<ge> requested then
             (\<lparr>we_now = True, we_minutes = 0, we_position = None, we_available = None, we_total = None,
                we_message = str_int requested @ '' GPU(s) available immediately''\<rparr>, i1)
           else case all_freed parse (t_now K i1) active of
               Inl _ \<Rightarrow> (no_estimate, i1)
             | Inr xs \<Rightarrow>
                 (let w = wait_until requested (ci_available c) (sort xs) in
                  case get_pending_gpu_reservations K i1 of
                    (ps, i2) \<Rightarrow>
                      (let pos = int (length (filter (\<lambda>p. pp_gpus p \<le> requested) ps)) + 1 in
                       (\<lparr>we_now = False, we_minutes = w, we_position = Some pos, we_available = Some (ci_available c),
                          we_total = Some (ci_total c),
                          we_message = ''Expecting '' @ str_int requested @ '' GPU(s) to be freed in ~'' @ str_int w @
                            '' minutes. You are #'' @ str_int pos @ '' in queue.''\<rparr>, i2)))))"

subsection \<open>What the estimate means\<close>

lemma wait_until_nth:
  "requested - available = int k + 1 \<Longrightarrow> k < length xs \<Longrightarrow> wait_until requested available xs = xs ! k"
proof (induction xs arbitrary: available k)
  case (Cons x xs)
  then show ?case by (cases k) auto
qed simp

lemma wait_until_never: "requested - available > int (length xs) \<Longrightarrow> wait_until requested available xs = 0"
  by (induction xs arbitrary: available) auto

lemma count_up_to:
  assumes "sorted xs" "k < length xs"
  shows "k < length (filter (\<lambda>x. x \<le> xs ! k) xs)" and "v < xs ! k \<Longrightarrow> length (filter (\<lambda>x. x \<le> v) xs) \<le> k"
proof -
  have "filter (\<lambda>x. x \<le> xs ! k) (take (Suc k) xs) = take (Suc k) xs"
    using assms by (auto simp: filter_id_conv in_set_conv_nth sorted_iff_nth_mono)
  moreover have "length (filter (\<lambda>x. x \<le> xs ! k) xs) =
      length (filter (\<lambda>x. x \<le> xs ! k) (take (Suc k) xs)) + length (filter (\<lambda>x. x \<le> xs ! k) (drop (Suc k) xs))"
    by (metis append_take_drop_id filter_append length_append)
  ultimately show "k < length (filter (\<lambda>x. x \<le> xs ! k) xs)" using assms by simp
next
  assume v: "v < xs ! k"
  have "v < x" if m: "x \<in> set (drop k xs)" for x
  proof -
    obtain j where j: "j < length xs - k" "x = xs ! (k + j)" 
      using m unfolding in_set_conv_nth by auto
    have "xs ! k \<le> xs ! (k + j)" by (rule sorted_nth_mono [OF assms(1)]) (use j(1) in simp_all)
    with v j(2) show ?thesis by simp
  qed
  then have "filter (\<lambda>x. x \<le> v) (drop k xs) = []" by (auto simp: filter_empty_conv not_le)
  moreover have "length (filter (\<lambda>x. x \<le> v) xs) =
      length (filter (\<lambda>x. x \<le> v) (take k xs)) + length (filter (\<lambda>x. x \<le> v) (drop k xs))"
    by (metis append_take_drop_id filter_append length_append)
  ultimately show "length (filter (\<lambda>x. x \<le> v) xs) \<le> k"
    using le_trans[OF length_filter_le[of _ "take k xs"]] assms by simp
qed

end
