(* ===== verification/Call_Policy.thy ===== *)
theory Call_Policy
  imports Kube
begin

section \<open>Policies for the calls of a program\<close>

text \<open>
  A policy says for every call that changes something which events of the log must come before it. The locale
  holds what is needed to follow a policy through a program: the events known at a point, and that every
  call so far kept to it. The lambdas of the GPU reservation system are its instances.
\<close>

definition traced :: "('e \<Rightarrow> 'f option) \<Rightarrow> ('f \<Rightarrow> 'e set \<Rightarrow> bool) \<Rightarrow> 'e set \<Rightarrow> 'e list \<Rightarrow> bool" where
  "traced d ok K lg \<longleftrightarrow> K \<subseteq> set lg \<and> each_call d (\<lambda>f es. ok f (set es)) lg"

locale call_policy =
  fixes d :: "'e \<Rightarrow> 'f option"
    and ok :: "'f \<Rightarrow> 'e set \<Rightarrow> bool"
  assumes ok_mono: "ok f K \<Longrightarrow> K \<subseteq> L \<Longrightarrow> ok f L"
begin

lemma start: "traced d ok {} []"
  by (simp add: traced_def)

lemma learn: "traced d ok K lg \<Longrightarrow> d e = None \<Longrightarrow> traced d ok (insert e K) (e # lg)"
  by (auto simp: traced_def)

lemma learn_call: "traced d ok K lg \<Longrightarrow> d e = Some f \<Longrightarrow> ok f K \<Longrightarrow> traced d ok (insert e K) (e # lg)"
  by (auto simp: traced_def intro: ok_mono)

lemma weaken: "traced d ok L lg \<Longrightarrow> K \<subseteq> L \<Longrightarrow> traced d ok K lg"
  by (auto simp: traced_def)

lemma see: "traced d ok K lg \<Longrightarrow> d e = None \<Longrightarrow> traced d ok K (e # lg)"
  by (auto simp: traced_def)

lemma call: "traced d ok K lg \<Longrightarrow> d e = Some f \<Longrightarrow> ok f K \<Longrightarrow> traced d ok K (e # lg)"
  by (auto simp: traced_def intro: ok_mono)

lemma fold_log:
  assumes "\<And>x lg. x \<in> set xs \<Longrightarrow> traced d ok K lg \<Longrightarrow> traced d ok K (f x lg)" "traced d ok K lg"
  shows "traced d ok K (fold f xs lg)"
  using assms by (induction xs arbitrary: lg) auto

lemma fold_state:
  assumes "\<And>x st. x \<in> set xs \<Longrightarrow> traced d ok K (snd st) \<Longrightarrow> traced d ok K (snd (f x st))" "traced d ok K (snd st)"
  shows "traced d ok K (snd (fold f xs st))"
  using assms by (induction xs arbitrary: st) auto

lemma calls_ok: "traced d ok K lg \<Longrightarrow> each_call d (\<lambda>f es. ok f (set es)) lg"
  by (simp add: traced_def)

end

lemma each_call_select:
  \<comment> \<open>the calls of one kind\<close>
  assumes "each_call d Q lg"
    and "\<And>e x es. k e = Some x \<Longrightarrow> \<exists>f. d e = Some f \<and> (Q f es \<longrightarrow> R x es)"
  shows "each_call k R lg"
  using assms(1)
proof (induction lg)
  case (Cons e lg)
  show ?case
  proof (cases "k e")
    case (Some x)
    then obtain f where "d e = Some f" "Q f lg \<longrightarrow> R x lg" using assms(2) by blast
    then show ?thesis using Cons Some by simp
  qed (use Cons in simp)
qed simp

end
