(* ===== verification/Gpu_Table.thy ===== *)
theory Gpu_Table
  imports Gpu_Cleanup Gpu_Sizing Gpu_Capacity Gpu_Tracker Call_Policy
begin

section \<open>The tables of the reservation processor\<close>

text \<open>
  \<open>reservation_processor/index.py\<close>: writing a reservation, its status and its history, finding it by a prefix of its
  id, the lock of a disk, and the results of operations. A run is a log, newest first, of what was read and of every
  call that changes something with its result. Calls that the processor makes through functions shared with the
  expiry lambda are events of \<open>Gpu_Services\<close> inside this log.

  A row and a message are what boto3 and \<open>json.loads\<close> deliver. The texts of a message (ids, names, dates) are texts
  or absent, and a whole number in it is an \<open>int\<close>. The condition of a conditional put is evaluated on the row that
  the table holds at that moment, which the environment gives; a read with \<open>ConsistentRead\<close> returns that row,
  other reads may return anything.
\<close>

datatype perr = Conditional | Terminated | SnapshotPending string | Fault exc

type_synonym 'a pres = "perr + 'a"

record wpod =
  w_name :: string
  w_labels :: "(string, string) dict"
  w_notes :: "(string, string) dict" \<comment> \<open>annotations\<close>
  w_phase :: string
  w_node :: string
  w_requests :: "(string, string) dict list"
  w_created :: "flt option"
  w_images :: "(string \<times> string) list" \<comment> \<open>name and image id of each container status\<close>

record spot_group =
  sg_desired :: int
  sg_states :: "string list" \<comment> \<open>\<open>LifecycleState\<close> of the instances\<close>

datatype field = Now ddb | IfNew ddb \<comment> \<open>\<open>if_not_exists(attribute, v)\<close>\<close>

datatype script = CheckJupyter | JupyterLog | StartJupyter | StopJupyter | ReadToken | AddKeys string string | ClaimPod string string row

datatype node_scan = NodesOf string | PendingOf string | QueuedType string | ActiveType string

datatype pcall =
    PutRow row \<comment> \<open>conditional\<close>
  | PutNode row \<comment> \<open>the row of a node of a multinode reservation, without a condition\<close>
  | PutLock row int \<comment> \<open>if there is no such row, or its expiry is before the time\<close>
  | DropRow string
  | SetupSsh "string list" \<comment> \<open>\<open>setup_multinode_ssh\<close>\<close>
  | EditRow string "(string \<times> ddb) list" "string list" \<comment> \<open>\<open>SET\<close> and \<open>REMOVE\<close>\<close>
  | AppendHistory string string string \<comment> \<open>id, time and message, with \<open>list_append\<close>\<close>
  | ResetHistory string string string
  | EditDisk string string "(string \<times> field) list" "string list"
  | PutDisk row \<comment> \<open>only if there is none\<close>
  | DetachVolume string
  | EditMapping string "(string \<times> ddb) list" \<comment> \<open>the SSH domain mapping\<close>
  | PutOperation row
  | SetDesired string int
  | SetAvailability string "(string \<times> int) list"
  | DropMessage string
  | MakeService string string int \<comment> \<open>pod, purpose and port\<close>
  | PatchPod string "(string \<times> string option) list" "(string \<times> string) list" \<comment> \<open>labels and annotations\<close>
  | MakeWarmPod string string int \<comment> \<open>name, GPU type and GPUs\<close>
  | StoreMapping string string int string int \<comment> \<open>domain, address, port, reservation and expiry\<close>
  | PutMapping row
  | PutClaim row \<comment> \<open>without a condition\<close>
  | Trigger string string
  | Allocate string row \<comment> \<open>\<open>allocate_gpu_resources\<close>\<close>

datatype pevent =
    Called pcall "unit pres"
  | Svc xevent
  | SawItem string bool "row option res" \<comment> \<open>\<open>get_item\<close>, and whether the read is consistent\<close>
  | SawMatches string string "row list res" \<comment> \<open>user, if any, and prefix\<close>
  | SawStatus string "row list res"
  | SawQueue string string "row list res" \<comment> \<open>status and GPU type\<close>
  | SawLocks string string "row list res" \<comment> \<open>live reservations of a user with a disk\<close>
  | SawItemDisk string string "row option res"
  | SawFree string "int res"
  | SawLargest string int
  | SawCpuReady string bool
  | SawGroup string "spot_group option res"
  | SawVolumeState string "string res"
  | SawVolumes string string bool "string list res" \<comment> \<open>of a user and a disk, and whether only those in use\<close>
  | SawNodes node_scan "row list res" \<comment> \<open>\<open>scan_dynamodb_paginated\<close>\<close>
  | MadeClient "unit res"
  | MadeId string
  | Ran string string script "string res" \<comment> \<open>namespace, pod, script and output\<close>
  | SawPorts "int list res" \<comment> \<open>the ports of all services\<close>
  | SawPort string "int res"
  | FetchedKeys string "string res"
  | Remembered string string flt \<comment> \<open>\<open>_ssh_key_cache\<close>: user, keys and time\<close>
  | SawWarm "string option" "string option" "wpod list res" \<comment> \<open>GPU type and state\<close>
  | SawDigest "string option"

type_synonym plog = "pevent list" \<comment> \<open>newest first\<close>

record penv =
  p_services :: "plog \<Rightarrow> xenv"
  p_fault :: "plog \<Rightarrow> pcall \<Rightarrow> perr option" \<comment> \<open>the error of a call, other than its condition\<close>
  p_stored :: "plog \<Rightarrow> string \<Rightarrow> row" \<comment> \<open>what the table holds, empty if nothing\<close>
  p_disk_stored :: "plog \<Rightarrow> string \<Rightarrow> string \<Rightarrow> row"
  p_read_fault :: "plog \<Rightarrow> string \<Rightarrow> exc option"
  p_stale :: "plog \<Rightarrow> string \<Rightarrow> row option"
  p_matches :: "plog \<Rightarrow> string \<Rightarrow> string \<Rightarrow> row list list \<times> exc option"
  p_status :: "plog \<Rightarrow> string \<Rightarrow> row list res"
  p_queue :: "plog \<Rightarrow> string \<Rightarrow> string \<Rightarrow> row list res"
  p_locks :: "plog \<Rightarrow> string \<Rightarrow> string \<Rightarrow> row list res"
  p_disk_item :: "plog \<Rightarrow> string \<Rightarrow> string \<Rightarrow> row option res"
  p_cluster :: "plog \<Rightarrow> kapi"
  p_tracker :: "plog \<Rightarrow> tapi"
  p_client :: "plog \<Rightarrow> unit res"
  p_group :: "plog \<Rightarrow> string \<Rightarrow> spot_group option res" \<comment> \<open>\<open>describe_auto_scaling_groups\<close>\<close>
  p_activities :: "plog \<Rightarrow> string \<Rightarrow> (string \<times> string) list res" \<comment> \<open>code and message of the scaling activities\<close>
  p_volume_state :: "plog \<Rightarrow> string \<Rightarrow> string res"
  p_volumes :: "plog \<Rightarrow> string \<Rightarrow> string \<Rightarrow> bool \<Rightarrow> string list res"
  p_nodes :: "plog \<Rightarrow> node_scan \<Rightarrow> row list list \<times> exc option" \<comment> \<open>the pages of a scan, and the error that ends it\<close>
  p_run :: "plog \<Rightarrow> string \<Rightarrow> string \<Rightarrow> script \<Rightarrow> string res"
  p_ports :: "plog \<Rightarrow> int list res"
  p_port :: "plog \<Rightarrow> string \<Rightarrow> int res" \<comment> \<open>the node port of a service, 0 when it has none\<close>
  p_random :: "plog \<Rightarrow> nat \<Rightarrow> int" \<comment> \<open>\<open>random.randint(30000, 32767)\<close>, call by call\<close>
  p_node_ip :: "plog \<Rightarrow> string \<Rightarrow> string res"
  p_private_ip :: "plog \<Rightarrow> string \<Rightarrow> string res"
  p_pod_ip :: "plog \<Rightarrow> string \<Rightarrow> string res"
  p_keys :: "plog \<Rightarrow> string \<Rightarrow> string res" \<comment> \<open>\<open>github.com/<user>.keys\<close>\<close>
  p_time :: "plog \<Rightarrow> flt" \<comment> \<open>\<open>time.time()\<close>\<close>
  p_instance :: "plog \<Rightarrow> string \<Rightarrow> string \<times> string" \<comment> \<open>\<open>get_instance_type_and_gpu_info\<close>\<close>
  p_warm :: "plog \<Rightarrow> string option \<Rightarrow> string option \<Rightarrow> wpod list res"
  p_digest :: "plog \<Rightarrow> string option" \<comment> \<open>\<open>_current_image_digest\<close>\<close>
  p_unique :: "plog \<Rightarrow> string option \<Rightarrow> string res" \<comment> \<open>\<open>generate_unique_name\<close>\<close>
  p_hex :: "plog \<Rightarrow> string" \<comment> \<open>\<open>uuid4().hex[:6]\<close>\<close>
  p_uuid :: "plog \<Rightarrow> string"
  p_now :: "plog \<Rightarrow> int"
  p_utcnow :: "plog \<Rightarrow> int" \<comment> \<open>in microseconds\<close>
  p_iso :: "datetime \<Rightarrow> string" \<comment> \<open>\<open>isoformat\<close>\<close>
  p_parse :: "string \<Rightarrow> datetime option" \<comment> \<open>\<open>fromisoformat\<close>\<close>
  p_clock :: "datetime \<Rightarrow> string" \<comment> \<open>\<open>strftime('%Y-%m-%d %H:%M:%S')\<close>\<close>
  p_decimal :: "flt \<Rightarrow> rat" \<comment> \<open>\<open>Decimal(str(x))\<close>\<close>
  p_repr :: "ddb \<Rightarrow> string" \<comment> \<open>\<open>str\<close> of a value that is neither a text nor an \<open>int\<close>\<close>
  p_text :: "perr \<Rightarrow> string"

record pcfg =
  pc_expiry :: xcfg
  pc_types :: gpu_types
  pc_spot :: string \<comment> \<open>\<open>SPOT_GPU_TYPES\<close>\<close>
  pc_asg_prefix :: string \<comment> \<open>\<open>ASG_NAME_PREFIX\<close>\<close>
  pc_max_hours :: int
  pc_default_hours :: int
  pc_domain :: string \<comment> \<open>\<open>DOMAIN_NAME\<close>\<close>
  pc_warm :: "(string, nat) dict" \<comment> \<open>\<open>WARM_POOL_TARGETS\<close>\<close>
  pc_warm_hours :: flt \<comment> \<open>\<open>WARM_POD_MAX_AGE_HOURS\<close>\<close>
  pc_version :: string \<comment> \<open>\<open>LAMBDA_VERSION\<close>\<close>
  pc_min_cli :: string

definition now_iso :: "penv \<Rightarrow> plog \<Rightarrow> string" where
  \<comment> \<open>\<open>datetime.utcnow().isoformat()\<close>\<close>
  "now_iso E lg = p_iso E (p_utcnow E lg, None)"

definition text_at :: "row \<Rightarrow> string \<Rightarrow> string" where
  \<comment> \<open>a text attribute; absent and empty are the same where the code tests its truth\<close>
  "text_at r a = (case attr r a of DStr s \<Rightarrow> s | _ \<Rightarrow> [])"

definition text_or :: "row \<Rightarrow> string \<Rightarrow> string \<Rightarrow> string" where
  \<comment> \<open>\<open>r.get(a, d)\<close> of a text\<close>
  "text_or r a d = (case dget_or r a (DStr d) of DStr s \<Rightarrow> s | _ \<Rightarrow> [])"

definition shown :: "penv \<Rightarrow> ddb \<Rightarrow> string" where
  \<comment> \<open>\<open>str(v)\<close>\<close>
  "shown E v = (case v of DStr s \<Rightarrow> s | DNum q \<Rightarrow> if q = of_int \<lfloor>q\<rfloor> then str_int \<lfloor>q\<rfloor> else p_repr E v | _ \<Rightarrow> p_repr E v)"

subsection \<open>Calls\<close>

definition TERMINATED_RESERVATION_STATUSES :: "string list" where
  "TERMINATED_RESERVATION_STATUSES = [''cancelled'', ''canceled'', ''expired'', ''failed'', ''completed'']"

definition put_allowed :: "row \<Rightarrow> bool" where
  \<comment> \<open>the \<open>ConditionExpression\<close> of \<open>_put_reservation_record\<close>, on the stored row\<close>
  "put_allowed r \<longleftrightarrow>
     dget r ''reservation_id'' = None \<or>
     (dget r ''cancelled_at'' = None \<and>
      (case dget r ''status'' of
         None \<Rightarrow> True
       | Some v \<Rightarrow> v \<noteq> DStr ''cancelled'' \<and> v \<noteq> DStr ''canceled'' \<and> v \<noteq> DStr ''expired'' \<and> v \<noteq> DStr ''failed'' \<and>
           v \<noteq> DStr ''completed''))"

definition lock_allowed :: "row \<Rightarrow> int \<Rightarrow> bool" where
  \<comment> \<open>the condition of \<open>acquire_multinode_lock\<close>, on the stored row\<close>
  "lock_allowed r now \<longleftrightarrow>
     dget r ''reservation_id'' = None \<or> (case dget r ''expires_at'' of Some (DNum q) \<Rightarrow> q < of_int now | _ \<Rightarrow> False)"

definition answer :: "penv \<Rightarrow> pcall \<Rightarrow> plog \<Rightarrow> unit pres" where
  "answer E c lg =
     (case p_fault E lg c of
        Some e \<Rightarrow> Inl e
      | None \<Rightarrow>
          (case c of
             PutRow r \<Rightarrow> if put_allowed (p_stored E lg (text_at r ''reservation_id'')) then Inr () else Inl Conditional
           | PutLock r now \<Rightarrow>
               if lock_allowed (p_stored E lg (text_at r ''reservation_id'')) now then Inr () else Inl Conditional
           | PutDisk d \<Rightarrow>
               if p_disk_stored E lg (text_at d ''user_id'') (text_at d ''disk_name'') = [] then Inr () else Inl Conditional
           | _ \<Rightarrow> Inr ()))"

definition call :: "penv \<Rightarrow> pcall \<Rightarrow> plog \<Rightarrow> unit pres \<times> plog" where
  "call E c lg = (answer E c lg, Called c (answer E c lg) # lg)"

definition try_pcall :: "penv \<Rightarrow> pcall \<Rightarrow> plog \<Rightarrow> plog" where
  \<comment> \<open>a call whose failure is logged and ignored\<close>
  "try_pcall E c lg = snd (call E c lg)"

definition services :: "penv \<Rightarrow> (xenv \<Rightarrow> xlog \<Rightarrow> 'a \<times> xlog) \<Rightarrow> plog \<Rightarrow> 'a \<times> plog" where
  \<comment> \<open>a function on the services shared by the lambdas\<close>
  "services E f lg = (case f (p_services E lg) [] of (r, xs) \<Rightarrow> (r, map Svc xs @ lg))"

definition get_item :: "penv \<Rightarrow> bool \<Rightarrow> string \<Rightarrow> plog \<Rightarrow> row option res \<times> plog" where
  "get_item E consistent rid lg =
     (let r = (case p_read_fault E lg rid of
                 Some e \<Rightarrow> Inl e
               | None \<Rightarrow>
                   Inr (if \<not> consistent then p_stale E lg rid
                        else if p_stored E lg rid = [] then None else Some (p_stored E lg rid)))
      in (r, SawItem rid consistent r # lg))"

definition see_status :: "penv \<Rightarrow> string \<Rightarrow> plog \<Rightarrow> row list res \<times> plog" where
  "see_status E s lg = (p_status E lg s, SawStatus s (p_status E lg s) # lg)"

definition see_queue :: "penv \<Rightarrow> string \<Rightarrow> string \<Rightarrow> plog \<Rightarrow> row list res \<times> plog" where
  "see_queue E s t lg = (p_queue E lg s t, SawQueue s t (p_queue E lg s t) # lg)"

definition make_client :: "penv \<Rightarrow> plog \<Rightarrow> unit res \<times> plog" where
  \<comment> \<open>\<open>get_k8s_client\<close>\<close>
  "make_client E lg = (p_client E lg, MadeClient (p_client E lg) # lg)"

subsection \<open>Reservations\<close>

definition row_terminated :: "row \<Rightarrow> bool" where
  "row_terminated r \<longleftrightarrow>
     ddb_true (attr r ''cancelled_at'') \<or> attr r ''status'' \<in> set (map DStr TERMINATED_RESERVATION_STATUSES)"

definition reservation_is_terminated :: "penv \<Rightarrow> string \<Rightarrow> plog \<Rightarrow> bool res \<times> plog" where
  \<comment> \<open>\<open>_reservation_is_terminated\<close>\<close>
  "reservation_is_terminated E rid lg =
     (case get_item E True rid lg of
        (Inl e, lg1) \<Rightarrow> (Inl e, lg1)
      | (Inr None, lg1) \<Rightarrow> (Inr False, lg1)
      | (Inr (Some r), lg1) \<Rightarrow> (Inr (row_terminated r), lg1))"

definition put_reservation_record :: "penv \<Rightarrow> row \<Rightarrow> plog \<Rightarrow> unit pres \<times> plog" where
  \<comment> \<open>\<open>_put_reservation_record\<close>\<close>
  "put_reservation_record E r lg =
     (case call E (PutRow r) lg of
        (Inl Conditional, lg1) \<Rightarrow> (Inl Terminated, lg1)
      | st \<Rightarrow> st)"

definition update_fields :: "penv \<Rightarrow> string \<Rightarrow> (string \<times> ddb) list \<Rightarrow> plog \<Rightarrow> plog" where
  \<comment> \<open>\<open>update_reservation_fields\<close>: errors are logged and swallowed\<close>
  "update_fields E rid new lg =
     (if rid = [] \<or> new = [] then lg
      else try_pcall E (EditRow rid ((''last_updated'', DNum (of_int (p_now E lg))) # new) []) lg)"

definition append_status_history :: "penv \<Rightarrow> string \<Rightarrow> string \<Rightarrow> string \<Rightarrow> plog \<Rightarrow> plog" where
  \<comment> \<open>what it raises is logged and ignored by both callers\<close>
  "append_status_history E rid stamp message lg =
     (case call E (AppendHistory rid stamp message) lg of
        (Inr _, lg1) \<Rightarrow> lg1
      | (Inl _, lg1) \<Rightarrow> try_pcall E (ResetHistory rid stamp message) lg1)"

definition update_status :: "penv \<Rightarrow> string \<Rightarrow> string \<Rightarrow> string \<Rightarrow> string \<Rightarrow> plog \<Rightarrow> plog" where
  \<comment> \<open>\<open>update_reservation_status\<close>; an absent text is empty\<close>
  "update_status E rid status detail failure lg =
     (let stamp = now_iso E lg;
          lg1 = update_fields E rid
            ([(''status'', DStr status)] @
             (if detail = [] then [] else [(''current_detailed_status'', DStr detail)]) @
             (if failure \<noteq> [] \<and> status = ''failed'' then [(''failure_reason'', DStr failure)] else [])) lg
      in if detail = [] then lg1 else append_status_history E rid stamp detail lg1)"

definition update_error :: "penv \<Rightarrow> string \<Rightarrow> string \<Rightarrow> string \<Rightarrow> plog \<Rightarrow> plog" where
  \<comment> \<open>\<open>update_reservation_error\<close>: message and field\<close>
  "update_error E rid message f lg = update_fields E rid [(f, DStr message)] lg"

definition is_uuid :: "string \<Rightarrow> bool" where
  "is_uuid s \<longleftrightarrow> length s = 36 \<and> length (filter (\<lambda>c. c = CHR ''-'') s) = 4"

definition exact_match :: "penv \<Rightarrow> string \<Rightarrow> string \<Rightarrow> plog \<Rightarrow> row option \<times> plog" where
  \<comment> \<open>every error, also that of another owner, leads to the search by prefix\<close>
  "exact_match E rid user lg =
     (if \<not> is_uuid rid then (None, lg)
      else case get_item E False rid lg of
          (Inr (Some r), lg1) \<Rightarrow> (if user \<noteq> [] \<and> attr r ''user_id'' \<noteq> DStr user then None else Some r, lg1)
        | (_, lg1) \<Rightarrow> (None, lg1))"

definition see_matches :: "penv \<Rightarrow> string \<Rightarrow> string \<Rightarrow> plog \<Rightarrow> row list res \<times> plog" where
  \<comment> \<open>\<open>query_user_reservations_with_prefix\<close>, or \<open>scan_all_reservations_with_prefix\<close> without a user\<close>
  "see_matches E user prefix lg =
     (let r = all_pages (p_matches E lg user prefix) in (r, SawMatches user prefix r # lg))"

definition find_reservation_by_prefix :: "penv \<Rightarrow> string \<Rightarrow> string \<Rightarrow> plog \<Rightarrow> row res \<times> plog" where
  "find_reservation_by_prefix E rid user lg =
     (case exact_match E rid user lg of
        (Some r, lg1) \<Rightarrow> (Inr r, lg1)
      | (None, lg1) \<Rightarrow>
          (case see_matches E user rid lg1 of
             (Inl e, lg2) \<Rightarrow> (Inl e, lg2)
           | (Inr [r], lg2) \<Rightarrow> (Inr r, lg2)
           | (Inr _, lg2) \<Rightarrow> (Inl ValueError, lg2)))"

subsection \<open>Disks, operations and messages\<close>

definition mark_disk_in_use :: "penv \<Rightarrow> string \<Rightarrow> string \<Rightarrow> bool \<Rightarrow> string \<Rightarrow> plog \<Rightarrow> unit pres \<times> plog" where
  "mark_disk_in_use E user disk in_use rid lg =
     (let now = DStr (now_iso E lg) in
      call E (EditDisk user disk
        ([(''in_use'', Now (DBool in_use)), (''last_used'', Now now), (''size_gb'', IfNew (DNum 1024)),
          (''created_at'', IfNew now), (''snapshot_count'', IfNew (DNum 0))] @
         (if in_use \<and> rid \<noteq> [] then [(''attached_to_reservation'', Now (DStr rid))] else []))
        (if in_use then [] else [''attached_to_reservation''])) lg)"

definition write_operation_result :: "penv \<Rightarrow> string \<Rightarrow> string \<Rightarrow> string \<Rightarrow> plog \<Rightarrow> plog" where
  "write_operation_result E op status error lg =
     (if op = [] then lg
      else try_pcall E (PutOperation
        ([(''operation_id'', DStr op), (''status'', DStr status), (''updated_at'', DStr (now_iso E lg))] @
         (if error = [] then [] else [(''error'', DStr error)]))) lg)"

record sqs =
  sq_source :: string \<comment> \<open>\<open>eventSource\<close>\<close>
  sq_body :: "row option" \<comment> \<open>\<open>None\<close>: not JSON\<close>
  sq_receipt :: string

definition delete_sqs_message :: "penv \<Rightarrow> sqs \<Rightarrow> plog \<Rightarrow> plog" where
  "delete_sqs_message E m lg = (if sq_receipt m = [] then lg else try_pcall E (DropMessage (sq_receipt m)) lg)"

end
