(* ===== verification/Gpu_Requests.thy ===== *)
theory Gpu_Requests
  imports Gpu_Table
begin

section \<open>A request for a reservation\<close>

text \<open>
  \<open>reservation_processor/index.py\<close>: from the message to the allocation or the queue. Free GPUs are counted by the
  model of \<open>Gpu_Capacity\<close> on the cluster as it is at that moment, waiting times by the tracker. The allocation itself
  (\<open>allocate_gpu_resources\<close>, which makes the pod) is a call of the environment, multinode requests are modelled in
  \<open>Gpu_Multinode\<close>. \<open>GPU_MAINTENANCE\<close> is empty in the source. Trace data are not modelled.
\<close>

subsection \<open>Free GPUs\<close>

definition gpus_per_instance :: "string \<Rightarrow> int" where
  "gpus_per_instance t =
     dget_or [(''t4'', 4), (''l4'', 4), (''a10g'', 4), (''rtxpro6000'', 4), (''a100'', 8), (''h100'', 8),
              (''h100-mig-1g'', 16), (''h100-mig-2g'', 8), (''h100-mig-3g'', 8), (''b200-mig-1g'', 4),
              (''b200-mig-2g'', 2), (''b200-mig-3g'', 2), (''h200'', 8), (''b200'', 8), (''b300'', 8)] t 8"

definition update_gpu_availability_table :: "penv \<Rightarrow> pcfg \<Rightarrow> string \<Rightarrow> int \<Rightarrow> plog \<Rightarrow> plog" where
  \<comment> \<open>what it raises is logged and ignored by its caller; the second call of the cluster\<close>
  "update_gpu_availability_table E c t free lg =
     (case k_nodes_r (p_cluster E lg) 0 None of
        Inl _ \<Rightarrow> lg
      | Inr ns \<Rightarrow>
          (let mine = filter (\<lambda>n. dget (g_labels n) ''GpuType'' = Some (node_label_value (pc_types c) t)) ns;
               gs = map (allocatable_proc (gpu_resource_name (pc_types c) t)) mine in
           if list_ex (\<lambda>g. case g of Inl _ \<Rightarrow> True | Inr _ \<Rightarrow> False) gs then lg
           else try_pcall E (SetAvailability t
             [(''total_gpus'', sum_list (map (\<lambda>g. case g of Inl _ \<Rightarrow> 0 | Inr k \<Rightarrow> k) gs)), (''available_gpus'', free),
              (''running_instances'', int (length mine)), (''desired_capacity'', int (length mine)),
              (''gpus_per_instance'', gpus_per_instance t), (''last_updated_timestamp'', p_now E lg)]) lg))"

definition check_gpu_availability :: "penv \<Rightarrow> pcfg \<Rightarrow> string \<Rightarrow> plog \<Rightarrow> int res \<times> plog" where
  "check_gpu_availability E c t lg =
     (case make_client E lg of
        (Inl _, lg1) \<Rightarrow> (Inl OtherError, lg1)
      | (Inr _, lg1) \<Rightarrow>
          (if t = [] then
             (case get_gpu_capacity_info (p_tracker E lg1) 0 of
                (Inl _, _) \<Rightarrow> (Inl OtherError, lg1)
              | (Inr ci, _) \<Rightarrow> (Inr (ci_available ci), SawFree t (Inr (ci_available ci)) # lg1))
           else
             (let n = fst (schedulable_proc (p_cluster E lg1) (pc_types c) t 0) in
              (Inr n, update_gpu_availability_table E c t n (SawFree t (Inr n) # lg1)))))"

definition check_max_gpus_on_single_node :: "penv \<Rightarrow> pcfg \<Rightarrow> string \<Rightarrow> plog \<Rightarrow> int \<times> plog" where
  "check_max_gpus_on_single_node E c t lg =
     (case make_client E lg of
        (Inl _, lg1) \<Rightarrow> (0, SawLargest t 0 # lg1)
      | (Inr _, lg1) \<Rightarrow>
          (let n = fst (max_on_single_node (p_cluster E lg1) (pc_types c) t 0) in (n, SawLargest t n # lg1)))"

subsection \<open>Spot instances\<close>

definition asg_name :: "pcfg \<Rightarrow> string \<Rightarrow> string" where
  "asg_name c t = pc_asg_prefix c @ ''-'' @ t"

definition see_group :: "penv \<Rightarrow> string \<Rightarrow> plog \<Rightarrow> spot_group option res \<times> plog" where
  "see_group E a lg = (p_group E lg a, SawGroup a (p_group E lg a) # lg)"

definition scale_up_spot_asg :: "penv \<Rightarrow> pcfg \<Rightarrow> string \<Rightarrow> plog \<Rightarrow> plog" where
  "scale_up_spot_asg E c t lg =
     (if \<not> is_spot_type (pc_spot c) t then lg
      else case see_group E (asg_name c t) lg of
          (Inr (Some g), lg1) \<Rightarrow> (if sg_desired g > 0 then lg1 else try_pcall E (SetDesired (asg_name c t) 1) lg1)
        | (_, lg1) \<Rightarrow> lg1)"

definition spot_requested :: string where
  "spot_requested = ''Spot instance requested '' @ em_dash @ '' ~1-2 min if available. Fulfillment not guaranteed''"

fun find_az :: "string \<Rightarrow> string option" where
  \<comment> \<open>\<open>re.search(r'us-east-\d[a-f]', reason)\<close>\<close>
  "find_az [] = None"
| "find_az (c # s) =
     (if startswith (c # s) ''us-east-'' \<and> 10 \<le> length (c # s) \<and> is_digit ((c # s) ! 8) \<and> (c # s) ! 9 \<in> set ''abcdef''
      then Some (take 10 (c # s)) else find_az s)"

definition no_capacity :: "string \<times> string \<Rightarrow> bool" where
  "no_capacity a \<longleftrightarrow> fst a = ''Failed'' \<and>
     (contains_str ''insufficient capacity'' (lower (snd a)) \<or> contains_str ''no spot capacity'' (lower (snd a)))"

definition join_str :: "string \<Rightarrow> string list \<Rightarrow> string" where
  "join_str sep xs = (case xs of [] \<Rightarrow> [] | y # ys \<Rightarrow> y @ concat (map (\<lambda>s. sep @ s) ys))"

definition launch_failures :: "string \<Rightarrow> (string \<times> string) list res \<Rightarrow> string" where
  "launch_failures t acts =
     (case acts of
        Inl _ \<Rightarrow> spot_requested
      | Inr as \<Rightarrow>
          (let bad = filter no_capacity as; azs = sorted_list_of_set (set (List.map_filter (\<lambda>a. find_az (snd a)) bad)) in
           if bad = [] then spot_requested
           else ''No '' @ upper t @ '' spot capacity in '' @ (if azs = [] then ''all checked AZs'' else join_str '', '' azs) @
             '' '' @ em_dash @ '' retrying every ~60s''))"

definition has_ready :: "GNode \<Rightarrow> bool res" where
  "has_ready n =
     (case g_status n of None \<Rightarrow> Inl AttributeError | Some st \<Rightarrow> Inr ((''Ready'', ''True'') \<in> set (g_conditions st)))"

definition joining_status :: "string \<Rightarrow> GNode list res \<Rightarrow> string" where
  \<comment> \<open>the first node decides\<close>
  "joining_status t ns =
     (let eta = (if t = ''b300'' \<or> t = ''b200'' then ''10-13 min'' else ''3-5 min'');
          unknown = ''Instance running '' @ em_dash @ '' checking cluster status'' in
      case ns of
        Inl _ \<Rightarrow> unknown
      | Inr [] \<Rightarrow> ''Node found! Booting and registering (~3-4 min remaining)''
      | Inr (n # _) \<Rightarrow>
          (case has_ready n of
             Inl _ \<Rightarrow> unknown
           | Inr False \<Rightarrow> ''Node found! Joining cluster (~3-4 min + drivers remaining)''
           | Inr True \<Rightarrow>
               (case allocatable_proc ''nvidia.com/gpu'' n of
                  Inl _ \<Rightarrow> unknown
                | Inr k \<Rightarrow>
                    (if k > 0 then ''Node ready with '' @ str_int k @ '' GPUs '' @ em_dash @ '' creating pod (~1 min remaining)''
                     else ''Node registered '' @ em_dash @ '' installing GPU drivers (~'' @ eta @ '' remaining)''))))"

definition get_spot_provision_status :: "penv \<Rightarrow> pcfg \<Rightarrow> string \<Rightarrow> plog \<Rightarrow> string \<times> plog" where
  \<comment> \<open>\<open>_get_spot_provision_status\<close>\<close>
  "get_spot_provision_status E c t lg =
     (case see_group E (asg_name c t) lg of
        (Inr (Some g), lg1) \<Rightarrow>
          (case filter (\<lambda>s. s \<notin> {''Terminating'', ''Terminating:Wait'', ''Terminating:Proceed'', ''Terminated''}) (sg_states g) of
             [] \<Rightarrow> (launch_failures t (p_activities E lg1 (asg_name c t)), lg1)
           | state # _ \<Rightarrow>
               (if state \<in> {''Pending'', ''Pending:Wait'', ''Pending:Proceed''} then
                  (''Node allocated! Instance launching (~4-5 min to cluster join)'', lg1)
                else if state = ''InService'' then
                  (case make_client E lg1 of
                     (Inl _, lg2) \<Rightarrow> (joining_status t (Inl OtherError), lg2)
                   | (Inr _, lg2) \<Rightarrow> (joining_status t (k_nodes_r (p_cluster E lg2) 0 (Some (node_label_value (pc_types c) t))), lg2))
                else (''Instance lifecycle: '' @ state, lg1)))
      | (_, lg1) \<Rightarrow> (spot_requested, lg1))"

subsection \<open>The place in the queue\<close>

definition created :: "row \<Rightarrow> string" where
  "created r = text_or r ''created_at'' []"

fun index_of :: "string \<Rightarrow> nat \<Rightarrow> row list \<Rightarrow> nat option" where
  "index_of rid i [] = None"
| "index_of rid i (r # rs) = (if text_at r ''reservation_id'' = rid then Some i else index_of rid (Suc i) rs)"

definition queue_place :: "string \<Rightarrow> row list \<Rightarrow> int" where
  \<comment> \<open>1 when the reservation is not listed\<close>
  "queue_place rid queued =
     (case index_of rid 0 (sorted_by created queued) of None \<Rightarrow> 1 | Some i \<Rightarrow> int i + 1)"

definition tracker_minutes :: "penv \<Rightarrow> int \<Rightarrow> row list \<Rightarrow> int \<Rightarrow> plog \<Rightarrow> int \<times> plog" where
  \<comment> \<open>a quarter of an hour per place when there is no client\<close>
  "tracker_minutes E requested active place lg =
     (case make_client E lg of
        (Inl _, lg1) \<Rightarrow> (place * 15, lg1)
      | (Inr _, lg1) \<Rightarrow> (we_minutes (fst (estimate_wait_time (p_tracker E lg1) (p_parse E) requested active 0)), lg1))"

definition calculate_queue_position_and_wait_time ::
  "penv \<Rightarrow> string \<Rightarrow> int \<Rightarrow> string \<Rightarrow> plog \<Rightarrow> (int \<times> int) option \<times> plog" where
  \<comment> \<open>place and minutes; \<open>None\<close>: both are \<open>?\<close>\<close>
  "calculate_queue_position_and_wait_time E rid requested t lg =
     (case see_status E ''active'' lg of
        (Inl _, lg1) \<Rightarrow> (None, lg1)
      | (Inr active, lg1) \<Rightarrow>
          (case see_queue E ''queued'' t lg1 of
             (Inl _, lg2) \<Rightarrow> (None, lg2)
           | (Inr qs, lg2) \<Rightarrow>
               (case see_queue E ''pending'' t lg2 of
                  (Inl _, lg3) \<Rightarrow> (None, lg3)
                | (Inr ps, lg3) \<Rightarrow>
                    (let place = queue_place rid (qs @ ps) in
                     case tracker_minutes E requested active place lg3 of (w, lg4) \<Rightarrow> (Some (place, w), lg4)))))"

definition update_queue_info :: "penv \<Rightarrow> string \<Rightarrow> ddb \<Rightarrow> ddb \<Rightarrow> int \<Rightarrow> plog \<Rightarrow> plog" where
  \<comment> \<open>\<open>update_reservation_with_queue_info\<close>, with \<open>DNull\<close> for a place or a time that is \<open>?\<close>\<close>
  "update_queue_info E rid place minutes free lg =
     update_fields E rid
       [(''queue_position'', place), (''estimated_wait_minutes'', minutes), (''available_gpus'', DNum (of_int free)),
        (''last_queue_update'', DStr (now_iso E lg))] lg"

subsection \<open>The rows\<close>

definition float_of :: "ddb \<Rightarrow> flt option" where
  \<comment> \<open>\<open>float(v)\<close>\<close>
  "float_of v =
     (case v of
        DNum q \<Rightarrow> Some (fl q)
      | DBool b \<Rightarrow> Some (if b then 1 else 0)
      | DStr s \<Rightarrow> py_float s
      | _ \<Rightarrow> None)"

definition decimal_text :: "string \<Rightarrow> rat option" where
  \<comment> \<open>\<open>Decimal(s)\<close>\<close>
  "decimal_text s =
     (let (sg, u) = split_sign (strip s); (m, ex) = split_at (\<lambda>c. c = CHR ''e'' \<or> c = CHR ''E'') u in
      case mantissa m of
        None \<Rightarrow> None
      | Some (v, k) \<Rightarrow>
          map_option (\<lambda>e. of_int (sg * v) * 10 powi (e - int k)) (case ex of None \<Rightarrow> Some 0 | Some x \<Rightarrow> signed_int x))"

definition decimal_of :: "ddb \<Rightarrow> ddb option" where
  \<comment> \<open>\<open>Decimal(str(v))\<close>; a number of a message is the decimal it is written as\<close>
  "decimal_of v =
     (case v of DNum q \<Rightarrow> Some (DNum q) | DStr s \<Rightarrow> map_option DNum (decimal_text s) | _ \<Rightarrow> None)"

definition expiry_after :: "penv \<Rightarrow> ddb \<Rightarrow> plog \<Rightarrow> string option" where
  \<comment> \<open>\<open>(datetime.utcnow() + timedelta(hours=float(v))).isoformat()\<close>\<close>
  "expiry_after E v lg =
     (case float_of v of
        None \<Rightarrow> None
      | Some h \<Rightarrow> (case dt_plus (p_utcnow E lg, None) (hours_us h) of Inl _ \<Rightarrow> None | Inr d \<Rightarrow> Some (p_iso E d)))"

definition keep_true :: "row \<Rightarrow> string \<Rightarrow> string \<Rightarrow> row" where
  \<comment> \<open>\<open>if request.get(a): record[b] = request[a]\<close>\<close>
  "keep_true m a b = (if ddb_true (attr m a) then [(b, attr m a)] else [])"

definition keep_in :: "row \<Rightarrow> string \<Rightarrow> string \<Rightarrow> row" where
  \<comment> \<open>\<open>if a in request: record[b] = request[a]\<close>\<close>
  "keep_in m a b = (case dget m a of None \<Rightarrow> [] | Some v \<Rightarrow> [(b, v)])"

definition default_name :: "penv \<Rightarrow> row \<Rightarrow> string option" where
  \<comment> \<open>\<open>None\<close>: \<open>upper\<close> of something that is not a text\<close>
  "default_name E m =
     (case dget_or m ''gpu_type'' (DStr ''A100'') of
        DStr t \<Rightarrow> Some (shown E (dget_or m ''gpu_count'' (DNum 1)) @ ''x '' @ upper t @ '' reservation'')
      | _ \<Rightarrow> None)"

definition initial_record :: "penv \<Rightarrow> row \<Rightarrow> plog \<Rightarrow> row option" where
  \<comment> \<open>the record of \<open>process_reservation_request\<close>; \<open>None\<close>: building it raises\<close>
  "initial_record E m lg =
     (let hours = dget_or m ''duration_hours'' (DNum 8) in
      case (expiry_after E hours lg, decimal_of hours, default_name E m) of
        (Some expires, Some d, Some nm) \<Rightarrow>
          Some ([(''reservation_id'', attr m ''reservation_id''), (''user_id'', attr m ''user_id''),
                 (''gpu_count'', dget_or m ''gpu_count'' (DNum 1)), (''gpu_type'', dget_or m ''gpu_type'' (DStr ''a100'')),
                 (''duration_hours'', d), (''name'', dget_or m ''name'' (DStr nm)),
                 (''created_at'', dget_or m ''created_at'' (DStr (now_iso E lg))), (''status'', DStr ''pending''),
                 (''expires_at'', DStr expires)] @
                keep_true m ''github_user'' ''github_user'' @ keep_true m ''dockerfile'' ''dockerfile_base64_data'' @
                keep_true m ''dockerimage'' ''dockerimage'' @ keep_true m ''disk_name'' ''disk_name'' @
                keep_in m ''no_persistent_disk'' ''no_persistent_disk'' @ keep_in m ''recreate_env'' ''recreate_env'' @
                keep_true m ''source_command'' ''source_command'')
      | _ \<Rightarrow> None)"

definition reservation_record :: "penv \<Rightarrow> pcfg \<Rightarrow> string \<Rightarrow> row \<Rightarrow> plog \<Rightarrow> row option" where
  \<comment> \<open>the record of \<open>create_reservation\<close>\<close>
  "reservation_record E c rid m lg =
     (let hours = dget_or m ''duration_hours'' (DNum (of_int (pc_default_hours c))) in
      case (expiry_after E hours lg, decimal_of hours, dget m ''user_id'') of
        (Some expires, Some d, Some user) \<Rightarrow>
          Some ([(''reservation_id'', DStr rid), (''user_id'', user), (''gpu_count'', dget_or m ''gpu_count'' (DNum 1)),
                 (''gpu_type'', dget_or m ''gpu_type'' (DStr ''a100'')), (''status'', DStr ''preparing''),
                 (''created_at'', dget_or m ''created_at'' (DStr (now_iso E lg))), (''expires_at'', DStr expires),
                 (''duration_hours'', d), (''pod_name'', DStr (''gpu-dev-'' @ take 8 rid)), (''namespace'', DStr ''gpu-dev'')] @
                (if ddb_true (attr m ''is_multinode'') then
                   [(''is_multinode'', DBool True), (''master_reservation_id'', dget_or m ''master_reservation_id'' (DStr [])),
                    (''node_index'', dget_or m ''node_index'' (DNum 0)), (''total_nodes'', dget_or m ''total_nodes'' (DNum 1))]
                 else []) @
                keep_in m ''name'' ''name'' @ keep_in m ''instance_preference'' ''instance_preference'' @
                keep_in m ''jupyter_enabled'' ''jupyter_enabled'' @ keep_in m ''github_user'' ''github_user'' @
                keep_in m ''version'' ''cli_version'' @ keep_in m ''preserve_entrypoint'' ''preserve_entrypoint'' @
                keep_in m ''disk_name'' ''disk_name'' @ keep_in m ''no_persistent_disk'' ''no_persistent_disk'' @
                keep_in m ''recreate_env'' ''recreate_env'' @ [(''lambda_version'', DStr (pc_version c))])
      | _ \<Rightarrow> None)"

definition create_reservation :: "penv \<Rightarrow> pcfg \<Rightarrow> row \<Rightarrow> plog \<Rightarrow> string pres \<times> plog" where
  "create_reservation E c m lg =
     (let (rid, lg1) = (case dget m ''reservation_id'' of
            None \<Rightarrow> (Some (p_uuid E lg), MadeId (p_uuid E lg) # lg)
          | Some (DStr s) \<Rightarrow> (Some s, lg)
          | Some _ \<Rightarrow> (None, lg)) in
      case (case rid of None \<Rightarrow> None | Some s \<Rightarrow> map_option (Pair s) (reservation_record E c s m lg1)) of
        None \<Rightarrow> (Inl (Fault OtherError), lg1)
      | Some (s, r) \<Rightarrow>
          (case put_reservation_record E r lg1 of (Inl e, lg2) \<Rightarrow> (Inl e, lg2) | (Inr _, lg2) \<Rightarrow> (Inr s, lg2)))"

end
