(* ===== verification/Gpu_Multinode.thy ===== *)
theory Gpu_Multinode
  imports Gpu_Requests
begin

section \<open>Multinode reservations\<close>

text \<open>
  \<open>reservation_processor/index.py\<close>, lines 2136 to 2740: a reservation over several hosts is a set of rows with the same
  master reservation. Each request writes its row and looks whether all rows are pending; the processor that finds
  them so coordinates the reservation: under a lock in the same table it checks that there are GPUs for all
  nodes and then starts every node, or queues them all. A node is also started by a message of its own. The functions work on
  the table and the log of \<open>Gpu_Table\<close>; the tasks of the thread pool run one after the other in the model. Numbers that
  boto3 reads from the table are decimals, which matters where the source multiplies one by a float.
\<close>

definition see_nodes :: "penv \<Rightarrow> node_scan \<Rightarrow> plog \<Rightarrow> row list res \<times> plog" where
  \<comment> \<open>\<open>scan_dynamodb_paginated\<close>\<close>
  "see_nodes E q lg = (let r = all_pages (p_nodes E lg q) in (r, SawNodes q r # lg))"

definition whole_num :: "ddb \<Rightarrow> int option" where
  \<comment> \<open>a number of nodes or an index of a message, which is whole\<close>
  "whole_num v = (case v of DNum q \<Rightarrow> Some \<lfloor>q\<rfloor> | _ \<Rightarrow> None)"

subsection \<open>Status updates\<close>

definition update_multinode_pod_status :: "penv \<Rightarrow> string \<Rightarrow> string \<Rightarrow> int option \<Rightarrow> int option \<Rightarrow> plog \<Rightarrow> plog" where
  "update_multinode_pod_status E rid what node_index total_nodes lg =
     update_status E rid ''preparing''
       (case (node_index, total_nodes) of
          (Some i, Some n) \<Rightarrow> ''Pod '' @ str_int (i + 1) @ ''/'' @ str_int n @ '': '' @ what
        | _ \<Rightarrow> what) [] lg"

definition mark_node :: "penv \<Rightarrow> string \<Rightarrow> string \<Rightarrow> row \<Rightarrow> plog \<Rightarrow> plog" where
  \<comment> \<open>the reason is the third positional argument, so it becomes the detailed status\<close>
  "mark_node E status reason r lg =
     (if text_at r ''reservation_id'' = [] then lg else update_status E (text_at r ''reservation_id'') status reason [] lg)"

definition update_all_multinode_status :: "penv \<Rightarrow> string \<Rightarrow> string \<Rightarrow> string \<Rightarrow> plog \<Rightarrow> plog" where
  "update_all_multinode_status E master status reason lg =
     (case see_nodes E (NodesOf master) lg of
        (Inl _, lg1) \<Rightarrow> lg1
      | (Inr rs, lg1) \<Rightarrow> fold (mark_node E status reason) rs lg1)"

definition fail_all_multinode_reservations :: "penv \<Rightarrow> string \<Rightarrow> string \<Rightarrow> plog \<Rightarrow> plog" where
  "fail_all_multinode_reservations E master message = update_all_multinode_status E master ''failed'' message"

subsection \<open>The queue\<close>

definition gpus_at :: "row \<Rightarrow> string \<Rightarrow> int \<Rightarrow> (rat \<times> bool) option" where
  \<comment> \<open>\<open>r.get(a, d)\<close> as a number, and whether it is a decimal; \<open>None\<close>: adding it raises\<close>
  "gpus_at r a d =
     (case dget r a of
        None \<Rightarrow> Some (of_int d, False)
      | Some (DNum q) \<Rightarrow> Some (q, True)
      | Some (DBool b) \<Rightarrow> Some (if b then 1 else 0, False)
      | Some _ \<Rightarrow> None)"

type_synonym waiting = "(rat \<times> bool) option \<times> ddb" \<comment> \<open>GPUs and creation time\<close>

fun multinode_groups :: "row list \<Rightarrow> (ddb, waiting) dict \<Rightarrow> (ddb, waiting) dict" where
  \<comment> \<open>the first row of each group gives its GPUs and its time\<close>
  "multinode_groups [] d = d"
| "multinode_groups (r # rs) d =
     multinode_groups rs
       (if ddb_true (attr r ''is_multinode'') \<and> attr r ''master_reservation_id'' \<notin> set (dkeys d) then
          dset (attr r ''master_reservation_id'') (gpus_at r ''total_gpu_count'' 0, attr r ''created_at'') d
        else d)"

definition all_ahead :: "string \<Rightarrow> row list \<Rightarrow> waiting list" where
  "all_ahead master queued =
     map snd (filter (\<lambda>(g, _). g \<noteq> DStr master) (multinode_groups queued [])) @
     map (\<lambda>r. (gpus_at r ''gpu_count'' 1, attr r ''created_at'')) (filter (\<lambda>r. \<not> ddb_true (attr r ''is_multinode'')) queued)"

definition is_text :: "ddb \<Rightarrow> bool" where
  "is_text v = (case v of DStr _ \<Rightarrow> True | _ \<Rightarrow> False)"

definition sortable :: "waiting list \<Rightarrow> bool" where
  \<comment> \<open>values of different types, or two absent ones, cannot be compared\<close>
  "sortable xs \<longleftrightarrow> length xs \<le> 1 \<or> list_all (\<lambda>x. is_text (snd x)) xs \<or> list_all (\<lambda>x. num_of (snd x) \<noteq> None) xs"

definition gpus_ahead :: "waiting list \<Rightarrow> (rat \<times> bool) option" where
  \<comment> \<open>the sum, and whether it is a decimal\<close>
  "gpus_ahead xs =
     (if list_ex (\<lambda>x. fst x = None) xs then None
      else Some (sum_list (map (\<lambda>x. case fst x of None \<Rightarrow> 0 | Some g \<Rightarrow> fst g) xs), list_ex (\<lambda>x. case fst x of None \<Rightarrow> False | Some g \<Rightarrow> snd g) xs))"

definition minutes_until :: "penv \<Rightarrow> int \<Rightarrow> ddb \<Rightarrow> int option" where
  \<comment> \<open>a time with a zone cannot be subtracted from \<open>utcnow()\<close>, and \<open>utcfromtimestamp\<close> does not take a decimal\<close>
  "minutes_until E now v =
     (case v of
        DStr s \<Rightarrow>
          (case p_parse E (replace_z s) of
             None \<Rightarrow> None
           | Some d \<Rightarrow> (case dt_minus d (now, None) of Inl _ \<Rightarrow> None | Inr us \<Rightarrow> Some (ftrunc (fdiv (total_seconds us) 60))))
      | _ \<Rightarrow> None)"

fun earliest_minutes :: "penv \<Rightarrow> int \<Rightarrow> row list \<Rightarrow> int option \<Rightarrow> int option" where
  "earliest_minutes E now [] e = e"
| "earliest_minutes E now (r # rs) e =
     earliest_minutes E now rs
       (if \<not> ddb_true (attr r ''expires_at'') then e
        else case minutes_until E now (attr r ''expires_at'') of
            None \<Rightarrow> e
          | Some m \<Rightarrow> (if m > 0 \<and> (case e of None \<Rightarrow> True | Some x \<Rightarrow> m < x) then Some m else e))"

definition active_wait :: "penv \<Rightarrow> string \<Rightarrow> plog \<Rightarrow> int \<times> plog" where
  \<comment> \<open>the minutes until the first active reservation expires, or an hour\<close>
  "active_wait E t lg =
     (case see_nodes E (ActiveType t) lg of
        (Inl _, lg1) \<Rightarrow> (60, lg1)
      | (Inr rs, lg1) \<Rightarrow>
          ((case earliest_minutes E (p_utcnow E lg1) rs None of None \<Rightarrow> 60 | Some m \<Rightarrow> m), lg1))"

record queue_info =
  qi_position :: int
  qi_wait :: int
  qi_message :: string

definition no_place :: "penv \<Rightarrow> exc \<Rightarrow> queue_info" where
  "no_place E e = \<lparr>qi_position = 999, qi_wait = 999, qi_message = ''Queue calculation error: '' @ p_text E (Fault e)\<rparr>"

definition calculate_multinode_queue_position_and_wait_time ::
  "penv \<Rightarrow> string \<Rightarrow> rat \<Rightarrow> string \<Rightarrow> int \<Rightarrow> plog \<Rightarrow> queue_info \<times> plog" where
  \<comment> \<open>the product of a decimal and the buffer, a float, raises\<close>
  "calculate_multinode_queue_position_and_wait_time E master needed t avail lg =
     (case see_nodes E (QueuedType t) lg of
        (Inl e, lg1) \<Rightarrow> (no_place E e, lg1)
      | (Inr queued, lg1) \<Rightarrow>
          (let ahead = all_ahead master queued; pos = 1 + int (length ahead) in
           if \<not> sortable ahead then (no_place E OtherError, lg1)
           else case gpus_ahead ahead of
               None \<Rightarrow> (no_place E OtherError, lg1)
             | Some (gpus, decimal) \<Rightarrow>
                 (if gpus > 0 \<and> decimal then (no_place E OtherError, lg1)
                  else
                    (case (if gpus > 0 then (ftrunc (fmul (fmul (fdiv (fi \<lfloor>gpus\<rfloor>) (fi (max avail 1))) 240) (3 / 2)), lg1)
                           else if of_int avail \<ge> needed then (0, lg1)
                           else active_wait E t lg1) of
                       (w, lg2) \<Rightarrow>
                         (\<lparr>qi_position = pos, qi_wait = w,
                            qi_message = ''Multinode reservation queued - position '' @ str_int pos @ '' ('' @
                              shown E (DNum gpus) @ '' GPUs ahead)''\<rparr>, lg2)))))"

definition queue_node :: "penv \<Rightarrow> queue_info \<Rightarrow> int \<Rightarrow> row \<Rightarrow> plog \<Rightarrow> plog" where
  "queue_node E q avail r lg =
     (if text_at r ''reservation_id'' = [] then lg
      else update_status E (text_at r ''reservation_id'') ''queued'' (qi_message q) []
             (update_queue_info E (text_at r ''reservation_id'') (DNum (of_int (qi_position q))) (DNum (of_int (qi_wait q))) avail lg))"

definition queue_all_multinode_reservations :: "penv \<Rightarrow> string \<Rightarrow> rat \<Rightarrow> string \<Rightarrow> int \<Rightarrow> plog \<Rightarrow> plog" where
  "queue_all_multinode_reservations E master needed t avail lg =
     (case see_nodes E (NodesOf master) lg of
        (Inl e, lg1) \<Rightarrow> fail_all_multinode_reservations E master (p_text E (Fault e)) lg1
      | (Inr rs, lg1) \<Rightarrow>
          (case calculate_multinode_queue_position_and_wait_time E master needed t avail lg1 of
             (q, lg2) \<Rightarrow> fold (queue_node E q avail) rs lg2))"

subsection \<open>One node\<close>

definition with_peers :: "ddb \<Rightarrow> row \<Rightarrow> row" where
  "with_peers peers r = (if ddb_true peers then dset ''multinode_peer_pods'' peers r else r)"

definition start_node :: "penv \<Rightarrow> pcfg \<Rightarrow> string \<Rightarrow> int option \<Rightarrow> int option \<Rightarrow> row \<Rightarrow> plog \<Rightarrow> bool \<times> plog" where
  \<comment> \<open>from the row of the node on; a failed attempt only changes the status\<close>
  "start_node E c rid ix tot node lg =
     (case create_reservation E c node (update_multinode_pod_status E rid ''preparing pod'' ix tot lg) of
        (Inl _, lg1) \<Rightarrow> (False, update_multinode_pod_status E rid ''processing failed'' ix tot lg1)
      | (Inr cid, lg1) \<Rightarrow>
          (if cid = [] then (False, update_multinode_pod_status E rid ''failed to create'' ix tot lg1)
           else case call E (Allocate cid node) (update_multinode_pod_status E rid ''allocating resources'' ix tot lg1) of
               (Inl _, lg2) \<Rightarrow> (False, update_multinode_pod_status E rid ''processing failed'' ix tot lg2)
             | (Inr _, lg2) \<Rightarrow> (True, lg2)))"

definition process_multinode_individual_node ::
  "penv \<Rightarrow> pcfg \<Rightarrow> string \<Rightarrow> int option \<Rightarrow> int option \<Rightarrow> ddb \<Rightarrow> plog \<Rightarrow> bool \<times> plog" where
  \<comment> \<open>adding one to an absent index raises in the first message to the log\<close>
  "process_multinode_individual_node E c rid ix tot peers lg =
     (if ix = None then (False, update_multinode_pod_status E rid ''processing failed'' ix tot lg)
      else case get_item E False rid lg of
          (Inl _, lg1) \<Rightarrow> (False, update_multinode_pod_status E rid ''processing failed'' ix tot lg1)
        | (Inr None, lg1) \<Rightarrow> (False, update_multinode_pod_status E rid ''not found'' ix tot lg1)
        | (Inr (Some r), lg1) \<Rightarrow> start_node E c rid ix tot (with_peers peers r) lg1)"

fun run_nodes :: "penv \<Rightarrow> pcfg \<Rightarrow> int \<Rightarrow> ddb \<Rightarrow> nat \<Rightarrow> row list \<Rightarrow> plog \<Rightarrow> bool list \<times> plog" where
  \<comment> \<open>the tasks of the pool; the results, in the order of the nodes\<close>
  "run_nodes E c tot peers i [] lg = ([], lg)"
| "run_nodes E c tot peers i (r # rs) lg =
     (case (case to_int (dget_or r ''node_index'' (DNum (of_nat i))) of
              Inl _ \<Rightarrow> (False, lg)
            | Inr k \<Rightarrow> process_multinode_individual_node E c (text_at r ''reservation_id'') (Some k) (Some tot) peers lg) of
        (b, lg1) \<Rightarrow> (case run_nodes E c tot peers (Suc i) rs lg1 of (bs, lg2) \<Rightarrow> (b # bs, lg2)))"

subsection \<open>The lock\<close>

definition lock_id :: "string \<Rightarrow> string" where
  "lock_id master = ''lock:'' @ master"

definition lock_row :: "penv \<Rightarrow> string \<Rightarrow> plog \<Rightarrow> row" where
  "lock_row E master lg =
     [(''reservation_id'', DStr (lock_id master)), (''lock_owner'', DStr ''coordinator''), (''master_reservation_id'', DStr master),
      (''created_at'', DStr (now_iso E lg)), (''expires_at'', DNum (of_int (p_now E lg + 300))), (''type'', DStr ''lock'')]"

definition acquire_multinode_lock :: "penv \<Rightarrow> string \<Rightarrow> plog \<Rightarrow> bool \<times> plog" where
  \<comment> \<open>every error counts as a refusal\<close>
  "acquire_multinode_lock E master lg =
     (case call E (PutLock (lock_row E master lg) (p_now E lg)) lg of
        (Inl _, lg1) \<Rightarrow> (False, lg1)
      | (Inr _, lg1) \<Rightarrow> (True, lg1))"

definition release_multinode_lock :: "penv \<Rightarrow> string \<Rightarrow> plog \<Rightarrow> plog" where
  "release_multinode_lock E master lg = try_pcall E (DropRow (lock_id master)) lg"

subsection \<open>The coordinator\<close>

definition pod_name_of :: "row \<Rightarrow> string" where
  "pod_name_of r = ''gpu-dev-'' @ take 8 (text_at r ''reservation_id'')"

definition peer_pod_names :: "row list \<Rightarrow> string list res" where
  \<comment> \<open>by the index of the node, 0 if it is absent\<close>
  "peer_pod_names nodes =
     (if list_ex (\<lambda>r. \<not> is_text (attr r ''reservation_id'') \<or>
           (case to_int (dget_or r ''node_index'' (DNum 0)) of Inl _ \<Rightarrow> True | Inr _ \<Rightarrow> False)) nodes then Inl OtherError
      else Inr (map pod_name_of (sorted_by (\<lambda>r. case to_int (dget_or r ''node_index'' (DNum 0)) of Inl _ \<Rightarrow> 0 | Inr k \<Rightarrow> k) nodes)))"

definition gpus_needed :: "row \<Rightarrow> int \<Rightarrow> rat option" where
  \<comment> \<open>the count of the first row for every node\<close>
  "gpus_needed first tot = map_option (\<lambda>q. q * of_int tot) (num_of (dget_or first ''gpu_count'' (DNum 1)))"

definition start_nodes :: "penv \<Rightarrow> pcfg \<Rightarrow> string \<Rightarrow> int \<Rightarrow> row list \<Rightarrow> plog \<Rightarrow> bool res \<times> plog" where
  \<comment> \<open>after the lock has been released early\<close>
  "start_nodes E c master tot nodes lg =
     (case peer_pod_names nodes of
        Inl e \<Rightarrow> (Inl e, lg)
      | Inr peers \<Rightarrow>
          (case run_nodes E c tot (DList (map DStr peers)) 0 nodes lg of
             (bs, lg1) \<Rightarrow>
               (let done_nodes = int (length (filter (\<lambda>b. b) bs)) in
                if done_nodes = tot then (Inr True, try_pcall E (SetupSsh (map pod_name_of nodes)) lg1)
                else (Inr False, fail_all_multinode_reservations E master
                        (''Partial processing failure ('' @ str_int done_nodes @ ''/'' @ str_int tot @ '')'') lg1))))"

definition coordinate_body :: "penv \<Rightarrow> pcfg \<Rightarrow> string \<Rightarrow> int \<Rightarrow> plog \<Rightarrow> bool res \<times> plog" where
  \<comment> \<open>the \<open>try\<close> block\<close>
  "coordinate_body E c master tot lg =
     (case acquire_multinode_lock E master lg of
        (False, lg1) \<Rightarrow> (Inr True, lg1)
      | (True, lg1) \<Rightarrow>
          (case see_nodes E (PendingOf master) lg1 of
             (Inl e, lg2) \<Rightarrow> (Inl e, lg2)
           | (Inr nodes, lg2) \<Rightarrow>
               (if int (length nodes) \<noteq> tot then
                  (Inr False, fail_all_multinode_reservations E master ''Incomplete node set'' lg2)
                else case nodes of
                    [] \<Rightarrow> (Inl OtherError, lg2)
                  | first # _ \<Rightarrow>
                      (case gpus_needed first tot of
                         None \<Rightarrow> (Inl OtherError, lg2)
                       | Some needed \<Rightarrow>
                           (case check_gpu_availability E c (text_or first ''gpu_type'' ''a100'') lg2 of
                              (Inl e, lg3) \<Rightarrow> (Inl e, lg3)
                            | (Inr a, lg3) \<Rightarrow>
                                (if of_int a \<ge> needed then
                                   start_nodes E c master tot nodes (release_multinode_lock E master lg3)
                                 else
                                   (Inr True, queue_all_multinode_reservations E master needed
                                      (text_or first ''gpu_type'' ''a100'') a lg3)))))))"

definition coordinate_multinode_reservation :: "penv \<Rightarrow> pcfg \<Rightarrow> string \<Rightarrow> int \<Rightarrow> plog \<Rightarrow> bool \<times> plog" where
  \<comment> \<open>the lock is deleted in the \<open>finally\<close> block, whoever holds it\<close>
  "coordinate_multinode_reservation E c master tot lg =
     (case coordinate_body E c master tot lg of
        (Inl e, lg1) \<Rightarrow> (False, release_multinode_lock E master (fail_all_multinode_reservations E master (p_text E (Fault e)) lg1))
      | (Inr b, lg1) \<Rightarrow> (b, release_multinode_lock E master lg1))"

subsection \<open>A request\<close>

definition check_all_multinode_nodes_ready :: "penv \<Rightarrow> string \<Rightarrow> int option \<Rightarrow> plog \<Rightarrow> bool \<times> plog" where
  \<comment> \<open>a number of nodes that is not a number cannot be compared\<close>
  "check_all_multinode_nodes_ready E master tot lg =
     (case see_nodes E (NodesOf master) lg of
        (Inl _, lg1) \<Rightarrow> (False, lg1)
      | (Inr nodes, lg1) \<Rightarrow>
          ((case tot of
              None \<Rightarrow> False
            | Some n \<Rightarrow> int (length nodes) \<ge> n \<and> list_all (\<lambda>r. attr r ''status'' = DStr ''pending'') nodes), lg1))"

definition node_record :: "penv \<Rightarrow> pcfg \<Rightarrow> row \<Rightarrow> rat \<Rightarrow> plog \<Rightarrow> row option" where
  \<comment> \<open>the record of \<open>process_multinode_reservation_request\<close> for the node with this index; \<open>None\<close>: building it raises\<close>
  "node_record E c m ix lg =
     (let hours = dget_or m ''duration_hours'' (DNum 8) in
      case (expiry_after E hours lg, decimal_of hours) of
        (Some expires, Some d) \<Rightarrow>
          Some ([(''reservation_id'', attr m ''reservation_id''), (''master_reservation_id'', attr m ''master_reservation_id''),
                 (''node_index'', dget_or m ''node_index'' (DNum 0)), (''total_nodes'', dget_or m ''total_nodes'' (DNum 1)),
                 (''user_id'', attr m ''user_id''), (''gpu_count'', dget_or m ''gpu_count'' (DNum 1)),
                 (''total_gpu_count'', dget_or m ''total_gpu_count'' (DNum 1)),
                 (''gpu_type'', dget_or m ''gpu_type'' (DStr ''a100'')), (''duration_hours'', d),
                 (''name'', dget_or m ''name'' (DStr (''Multinode '' @ shown E (DNum (ix + 1)) @ ''/'' @
                    shown E (dget_or m ''total_nodes'' (DNum 1))))),
                 (''created_at'', dget_or m ''created_at'' (DStr (now_iso E lg))), (''status'', DStr ''pending''),
                 (''expires_at'', DStr expires), (''is_multinode'', DBool True)] @
                keep_true m ''github_user'' ''github_user'' @ keep_true m ''version'' ''cli_version'' @
                keep_true m ''source_command'' ''source_command'' @ [(''lambda_version'', DStr (pc_version c))])
      | _ \<Rightarrow> None)"

definition put_node :: "penv \<Rightarrow> pcfg \<Rightarrow> row \<Rightarrow> rat \<Rightarrow> plog \<Rightarrow> plog" where
  \<comment> \<open>errors are logged and ignored\<close>
  "put_node E c m ix lg =
     (if text_at m ''reservation_id'' = [] then lg
      else case node_record E c m ix lg of None \<Rightarrow> lg | Some r \<Rightarrow> try_pcall E (PutNode r) lg)"

definition process_multinode_reservation_request :: "penv \<Rightarrow> pcfg \<Rightarrow> row \<Rightarrow> plog \<Rightarrow> bool \<times> plog" where
  \<comment> \<open>an index that is not a number raises in the first message to the log\<close>
  "process_multinode_reservation_request E c m lg =
     (let master = text_at m ''master_reservation_id''; tot = whole_num (dget_or m ''total_nodes'' (DNum 1)) in
      case num_of (dget_or m ''node_index'' (DNum 0)) of
        None \<Rightarrow> (False, if master = [] then lg else fail_all_multinode_reservations E master (p_text E (Fault OtherError)) lg)
      | Some ix \<Rightarrow>
          (case check_all_multinode_nodes_ready E master tot (put_node E c m ix lg) of
             (ready, lg1) \<Rightarrow>
               (case tot of
                  Some n \<Rightarrow> (if ready then coordinate_multinode_reservation E c master n lg1 else (True, lg1))
                | None \<Rightarrow> (True, lg1))))"

end
