(* ===== verification/Gpu_Processing.thy ===== *)
theory Gpu_Processing
  imports Gpu_Multinode
begin

section \<open>Processing requests and the queue\<close>

text \<open>
  \<open>reservation_processor/index.py\<close>: \<open>process_reservation_request\<close>, which places a reservation or queues it, and
  \<open>process_scheduled_queue_management\<close>, which goes through the queue every minute. A result is \<open>Inl\<close> of the exception
  that leaves the function.
\<close>

subsection \<open>A request\<close>

definition reject_text :: "penv \<Rightarrow> pcfg \<Rightarrow> row \<Rightarrow> reject \<Rightarrow> string" where
  "reject_text E c m rj =
     (let t = text_at m ''gpu_type'' in
      case rj of
        MissingField f \<Rightarrow> ''Missing required field: '' @ f
      | InvalidType v \<Rightarrow> ''Invalid GPU type: '' @ shown E v @ ''. Must be one of: '' @ join_str '', '' VALID_GPU_TYPES
      | UnderMaintenance g \<Rightarrow> ''GPU type '' @ upper g @ '' is currently unavailable: under maintenance''
      | SpotNotConfirmed \<Rightarrow>
          upper t @ '' is only available as a spot instance in this environment. '' @
          ''Spot instances are ~1/3 the cost but can be reclaimed by AWS with 2-min notice. '' @
          ''Even if availability shows 0/0, a spot node will be requested from AWS when you reserve '' @ em_dash @
          '' it'' @ [CHR 0x27] @ ''s worth trying. '' @
          ''Pass --spot to confirm: gpu-dev reserve --gpu-type '' @ t @ '' --spot''
      | CpuWithGpus \<Rightarrow>
          ''CPU instances (gpu_type: '' @ t @ '') must have gpu_count=0, got '' @ shown E (attr m ''gpu_count'')
      | InvalidCount \<Rightarrow>
          ''Invalid GPU count: '' @ shown E (attr m ''gpu_count'') @ ''. Must be one of: 1, 2, 4, 8, 16''
      | TooLong \<Rightarrow>
          ''Duration exceeds maximum: '' @ shown E (dget_or m ''duration_hours'' (DNum (of_int (pc_default_hours c)))) @
          '' > '' @ str_int (pc_max_hours c) @ '' hours'')"

definition write_initial_record :: "penv \<Rightarrow> row \<Rightarrow> plog \<Rightarrow> bool \<times> plog" where
  \<comment> \<open>whether the reservation turned out to be terminated; other errors are ignored\<close>
  "write_initial_record E m lg =
     (if text_at m ''reservation_id'' = [] then (False, lg)
      else case initial_record E m lg of
          None \<Rightarrow> (False, lg)
        | Some r \<Rightarrow>
            (case put_reservation_record E r lg of
               (Inl Terminated, lg1) \<Rightarrow> (True, lg1)
             | (_, lg1) \<Rightarrow> (False, lg1)))"

definition requested :: "row \<Rightarrow> rat" where
  "requested m = (case num_of (dget_or m ''gpu_count'' (DNum 1)) of None \<Rightarrow> 0 | Some q \<Rightarrow> q)"

definition requeue_pending :: "penv \<Rightarrow> string \<Rightarrow> string \<Rightarrow> plog \<Rightarrow> unit pres \<times> plog" where
  \<comment> \<open>the handler of \<open>SnapshotPendingError\<close>\<close>
  "requeue_pending E rid reason lg =
     (case reservation_is_terminated E rid lg of
        (Inl e, lg1) \<Rightarrow> (Inl (Fault e), lg1)
      | (Inr b, lg1) \<Rightarrow> (Inr (), if b then lg1 else update_status E rid ''queued'' reason [] lg1))"

definition allocate_now :: "penv \<Rightarrow> pcfg \<Rightarrow> row \<Rightarrow> string \<Rightarrow> int \<Rightarrow> plog \<Rightarrow> bool pres \<times> plog" where
  "allocate_now E c m t free lg =
     (let rid = text_at m ''reservation_id'';
          lg1 = (if rid = [] then lg
                 else update_status E rid ''preparing''
                   (''Found '' @ str_int free @ '' available '' @ upper t @ '' GPUs - preparing resources'') [] lg) in
      case create_reservation E c m lg1 of
        (Inl Terminated, lg2) \<Rightarrow> (Inr True, lg2)
      | (Inl e, lg2) \<Rightarrow> (Inl e, lg2)
      | (Inr rid1, lg2) \<Rightarrow>
          (case call E (Allocate rid1 m) lg2 of
             (Inr _, lg3) \<Rightarrow> (Inr True, lg3)
           | (Inl (SnapshotPending s), lg3) \<Rightarrow>
               (case requeue_pending E rid1 s lg3 of (Inl e, lg4) \<Rightarrow> (Inl e, lg4) | (Inr _, lg4) \<Rightarrow> (Inr True, lg4))
           | (Inl e, lg3) \<Rightarrow> (Inl e, lg3)))"

definition place_text :: "(int \<times> int) option \<Rightarrow> string" where
  "place_text q = (case q of None \<Rightarrow> ''?'' | Some (p, _) \<Rightarrow> str_int p)"

definition queue_request :: "penv \<Rightarrow> pcfg \<Rightarrow> row \<Rightarrow> string \<Rightarrow> int \<Rightarrow> int \<Rightarrow> plog \<Rightarrow> plog" where
  "queue_request E c m t free largest lg =
     (let rid = text_at m ''reservation_id''; n = shown E (dget_or m ''gpu_count'' (DNum 1)) in
      if rid = [] then lg
      else case calculate_queue_position_and_wait_time E rid \<lfloor>requested m\<rfloor> t lg of
          (q, lg1) \<Rightarrow>
            (let lg2 = (case q of
                   None \<Rightarrow> update_queue_info E rid DNull DNull free lg1
                 | Some (p, w) \<Rightarrow> update_queue_info E rid (DNum (of_int p)) (DNum (of_int w)) free lg1);
                 lg3 = (if free = 0 \<and> is_spot_type (pc_spot c) t then scale_up_spot_asg E c t lg2 else lg2);
                 message =
                   (if free = 0 then
                      (if is_spot_type (pc_spot c) t then
                         ''Spot instance requested for '' @ upper t @ '' '' @ em_dash @ '' ~1-2 min if available. Fulfillment not guaranteed''
                       else ''No '' @ upper t @ '' nodes available - position #'' @ place_text q @ '' in queue'')
                    else if of_int free \<ge> requested m \<and> of_int largest < requested m then
                      ''Need '' @ n @ '' '' @ upper t @ '' GPUs on one node, max available on single node is '' @ str_int largest @
                      '' - position #'' @ place_text q
                    else ''Need '' @ n @ '' '' @ upper t @ '' GPUs, only '' @ str_int free @ '' available - position #'' @ place_text q)
             in update_status E rid ''queued'' message [] lg3))"

definition place_request :: "penv \<Rightarrow> pcfg \<Rightarrow> row \<Rightarrow> plog \<Rightarrow> bool pres \<times> plog" where
  \<comment> \<open>a valid request\<close>
  "place_request E c m lg =
     (let t = text_or m ''gpu_type'' ''a100'' in
      case check_gpu_availability E c t lg of
        (Inl e, lg1) \<Rightarrow> (Inl (Fault e), lg1)
      | (Inr free, lg1) \<Rightarrow>
          (case check_max_gpus_on_single_node E c t lg1 of
             (largest, lg2) \<Rightarrow>
               (case (if is_spot_type (pc_spot c) t \<and> startswith t ''cpu-'' then check_gpu_availability E c t lg2
                      else (Inr 1, lg2)) of
                  (Inl e, lg3) \<Rightarrow> (Inl (Fault e), lg3)
                | (Inr again, lg3) \<Rightarrow>
                    (if of_int free \<ge> requested m \<and> of_int largest \<ge> requested m \<and> \<not> (again = 0 \<and> largest = 0)
                     then allocate_now E c m t free lg3
                     else (Inr True, queue_request E c m t free largest lg3)))))"

definition validate_and_place :: "penv \<Rightarrow> pcfg \<Rightarrow> row \<Rightarrow> plog \<Rightarrow> bool pres \<times> plog" where
  "validate_and_place E c m lg =
     (case validate_reservation_request (pc_default_hours c) (pc_max_hours c) (pc_spot c) [] m of
        Inl e \<Rightarrow> (Inl (Fault e), lg)
      | Inr (Some rj) \<Rightarrow>
          (Inr False, update_status E (text_at m ''reservation_id'') ''failed'' (''Validation error: '' @ reject_text E c m rj) [] lg)
      | Inr None \<Rightarrow> place_request E c m lg)"

definition request_body :: "penv \<Rightarrow> pcfg \<Rightarrow> row \<Rightarrow> plog \<Rightarrow> bool pres \<times> plog" where
  \<comment> \<open>the \<open>try\<close> block after the message has been parsed\<close>
  "request_body E c m lg =
     (let rid = text_at m ''reservation_id'' in
      case (if rid = [] then (Inr False, lg) else reservation_is_terminated E rid lg) of
        (Inl e, lg1) \<Rightarrow> (Inl (Fault e), lg1)
      | (Inr True, lg1) \<Rightarrow> (Inr True, lg1)
      | (Inr False, lg1) \<Rightarrow>
          (if ddb_true (attr m ''is_multinode'') then
             (case process_multinode_reservation_request E c m lg1 of (b, lg2) \<Rightarrow> (Inr b, lg2))
           else case write_initial_record E m lg1 of
               (True, lg2) \<Rightarrow> (Inr True, lg2)
             | (False, lg2) \<Rightarrow> validate_and_place E c m lg2))"

definition process_reservation_request :: "penv \<Rightarrow> pcfg \<Rightarrow> row option \<Rightarrow> plog \<Rightarrow> bool pres \<times> plog" where
  \<comment> \<open>an error is written to the row and raised again; \<open>Inr False\<close> is the \<open>None\<close> of a rejected request\<close>
  "process_reservation_request E c body lg =
     (case body of
        None \<Rightarrow> (Inl (Fault ValueError), lg)
      | Some m \<Rightarrow>
          (case request_body E c m lg of
             (Inl e, lg1) \<Rightarrow>
               (Inl e, if text_at m ''reservation_id'' = [] then lg1
                       else update_status E (text_at m ''reservation_id'') ''failed'' (''Processing error: '' @ p_text E e) [] lg1)
           | st \<Rightarrow> st))"

subsection \<open>The queue\<close>

text \<open>
  The function imports \<open>datetime\<close> again in one of its branches, which makes the name local to the whole function: the
  first use, for the age of a reservation, raises for a creation time that is a text, and the handler of that
  error keeps the reservation. The text for spot reservations is a variable of the function, so the loop carries it from one
  reservation to the next.
\<close>

definition old_enough :: "int \<Rightarrow> row \<Rightarrow> bool" where
  \<comment> \<open>not created within 30 seconds, where that can be computed\<close>
  "old_enough now r =
     (case dget_or r ''created_at'' (DStr []) of
        DStr _ \<Rightarrow> True
      | v \<Rightarrow> (case to_int v of Inl _ \<Rightarrow> True | Inr t \<Rightarrow> now - t > 30))"

fun any_ready :: "GNode list \<Rightarrow> bool" where
  \<comment> \<open>a node without a status raises, which counts as none\<close>
  "any_ready [] = False"
| "any_ready (n # ns) = (case has_ready n of Inl _ \<Rightarrow> False | Inr b \<Rightarrow> b \<or> any_ready ns)"

definition cpu_spot_ready :: "penv \<Rightarrow> pcfg \<Rightarrow> string \<Rightarrow> int \<Rightarrow> plog \<Rightarrow> bool \<times> plog" where
  "cpu_spot_ready E c t n lg =
     (if startswith t ''cpu-'' \<and> n = 0 \<and> is_spot_type (pc_spot c) t then
        (let b = (case k_nodes_r (p_cluster E lg) 0 (Some (node_label_value (pc_types c) t)) of
                    Inl _ \<Rightarrow> False | Inr ns \<Rightarrow> any_ready ns)
         in (b, SawCpuReady t b # lg))
      else (True, lg))"

record queue_state =
  qs_processed :: nat
  qs_allocated :: nat
  qs_updated :: nat
  qs_spot :: "string option" \<comment> \<open>\<open>spot_status\<close>, once it has been assigned\<close>

definition allocate_queued :: "penv \<Rightarrow> row \<Rightarrow> string \<Rightarrow> string \<Rightarrow> int \<Rightarrow> plog \<Rightarrow> bool pres \<times> plog" where
  \<comment> \<open>whether it was allocated; the errors of \<open>_reservation_is_terminated\<close> leave the inner \<open>try\<close>\<close>
  "allocate_queued E r rid t free lg =
     (let lg1 = update_status E rid ''preparing''
            (''Found '' @ str_int free @ '' available '' @ upper t @ '' GPUs - preparing environment'') [] lg in
      case call E (Allocate rid r) lg1 of
        (Inr _, lg2) \<Rightarrow> (Inr True, lg2)
      | (Inl (SnapshotPending s), lg2) \<Rightarrow>
          (case requeue_pending E rid s lg2 of (Inl e, lg3) \<Rightarrow> (Inl e, lg3) | (Inr _, lg3) \<Rightarrow> (Inr False, lg3))
      | (Inl e, lg2) \<Rightarrow> (Inr False, update_status E rid ''queued'' (''Allocation error: '' @ p_text E e) [] lg2))"

definition elapsed_text :: "penv \<Rightarrow> row \<Rightarrow> plog \<Rightarrow> string \<Rightarrow> string" where
  \<comment> \<open>the spot status with the minutes since the creation, if they can be computed\<close>
  "elapsed_text E r lg s =
     (case attr r ''created_at'' of
        DStr cs \<Rightarrow>
          (case (if cs = [] then None else p_parse E (replace_z cs)) of
             None \<Rightarrow> s
           | Some d \<Rightarrow> s @ '' ['' @ str_int (ftrunc (fdiv (total_seconds (p_utcnow E lg - fst d)) 60)) @ ''m elapsed]'')
      | _ \<Rightarrow> s)"

definition queued_wait :: "penv \<Rightarrow> pcfg \<Rightarrow> row \<Rightarrow> row list \<Rightarrow> string \<Rightarrow> int \<Rightarrow> int \<Rightarrow> nat \<Rightarrow> string option \<Rightarrow> plog \<Rightarrow> (string \<times> string option) \<times> plog" where
  \<comment> \<open>the estimate as a text, and the spot status\<close>
  "queued_wait E c r active t n free i spot lg =
     (if free = 0 then
        (if is_spot_type (pc_spot c) t then
           (case get_spot_provision_status E c t (scale_up_spot_asg E c t lg) of
              (s, lg1) \<Rightarrow> ((''None'', Some (elapsed_text E r lg1 s)), lg1))
         else ((''999999'', spot), lg))
      else ((str_int (we_minutes (fst (estimate_wait_time (p_tracker E lg) (p_parse E) n active 0))), spot), lg))"

definition keep_queued ::
  "penv \<Rightarrow> pcfg \<Rightarrow> row \<Rightarrow> row list \<Rightarrow> string \<Rightarrow> string \<Rightarrow> int \<Rightarrow> int \<Rightarrow> nat \<Rightarrow> queue_state \<Rightarrow> plog \<Rightarrow> queue_state pres \<times> plog" where
  "keep_queued E c r active rid t n free i st lg =
     (case queued_wait E c r active t n free i (qs_spot st) lg of
        ((wait, spot), lg1) \<Rightarrow>
          (let lg2 = update_queue_info E rid (DStr (str_int (int i + 1))) (DStr wait) free lg1;
               finished = st\<lparr>qs_processed := Suc (qs_processed st), qs_updated := Suc (qs_updated st), qs_spot := spot\<rparr> in
           if is_spot_type (pc_spot c) t then
             (case spot of
                None \<Rightarrow> (Inl (Fault OtherError), lg2)
              | Some s \<Rightarrow> (Inr finished, update_status E rid ''queued'' s [] lg2))
           else
             (Inr finished,
              if text_or r ''status'' ''pending'' = ''pending'' then
                update_status E rid ''queued''
                  (''In queue position #'' @ str_int (int i + 1) @
                   (if free = 0 then '' - No '' @ upper t @ '' GPUs available, contact oncall:pytorch_release_engineering'' else [])) [] lg2
              else lg2)))"

definition queue_row ::
  "penv \<Rightarrow> pcfg \<Rightarrow> row list \<Rightarrow> nat \<Rightarrow> row \<Rightarrow> queue_state \<Rightarrow> plog \<Rightarrow> queue_state pres \<times> plog" where
  \<comment> \<open>the body of the loop\<close>
  "queue_row E c active i r st lg =
     (case (dget r ''reservation_id'', to_int (dget_or r ''gpu_count'' (DNum 1))) of
        (Some (DStr rid), Inr n) \<Rightarrow>
          (let t = text_or r ''gpu_type'' ''h100'' in
           case check_gpu_availability E c t lg of
             (Inl e, lg1) \<Rightarrow> (Inl (Fault e), lg1)
           | (Inr free, lg1) \<Rightarrow>
               (case check_max_gpus_on_single_node E c t lg1 of
                  (largest, lg2) \<Rightarrow>
                    (case cpu_spot_ready E c t n lg2 of
                       (ready, lg3) \<Rightarrow>
                         (if free \<ge> n \<and> largest \<ge> n \<and> ready then
                            (case get_item E False rid lg3 of
                               (Inl e, lg4) \<Rightarrow> (Inl (Fault e), lg4)
                             | (Inr cur, lg4) \<Rightarrow>
                                 (if text_or (case cur of None \<Rightarrow> [] | Some x \<Rightarrow> x) ''status'' ''queued'' \<noteq> ''queued'' then
                                    (Inr (st\<lparr>qs_processed := Suc (qs_processed st)\<rparr>), lg4)
                                  else case allocate_queued E r rid t free lg4 of
                                      (Inl e, lg5) \<Rightarrow> (Inl e, lg5)
                                    | (Inr b, lg5) \<Rightarrow>
                                        (Inr (st\<lparr>qs_processed := Suc (qs_processed st),
                                                 qs_allocated := (if b then Suc (qs_allocated st) else qs_allocated st)\<rparr>), lg5)))
                          else keep_queued E c r active rid t n free i st lg3))))
      | _ \<Rightarrow> (Inl (Fault OtherError), lg))"

fun queue_loop :: "penv \<Rightarrow> pcfg \<Rightarrow> row list \<Rightarrow> nat \<Rightarrow> row list \<Rightarrow> queue_state \<Rightarrow> plog \<Rightarrow> queue_state \<times> plog" where
  \<comment> \<open>an error ends the body for one reservation; the spot status assigned before it stays\<close>
  "queue_loop E c active i [] st lg = (st, lg)"
| "queue_loop E c active i (r # rs) st lg =
     (case queue_row E c active i r st lg of
        (Inl _, lg1) \<Rightarrow> queue_loop E c active (Suc i) rs st lg1
      | (Inr st1, lg1) \<Rightarrow> queue_loop E c active (Suc i) rs st1 lg1)"

definition process_scheduled_queue_management :: "penv \<Rightarrow> pcfg \<Rightarrow> plog \<Rightarrow> queue_state res \<times> plog" where
  "process_scheduled_queue_management E c lg =
     (let none = \<lparr>qs_processed = 0, qs_allocated = 0, qs_updated = 0, qs_spot = None\<rparr> in
      case see_status E ''queued'' lg of
        (q, lg1) \<Rightarrow>
          (let rows = (case q of Inl _ \<Rightarrow> [] | Inr rs \<Rightarrow> filter (old_enough (p_now E lg)) rs) in
           if rows = [] then (Inr none, lg1)
           else case make_client E lg1 of
               (Inl e, lg2) \<Rightarrow> (Inl e, lg2)
             | (Inr _, lg2) \<Rightarrow>
                 (case see_status E ''active'' lg2 of
                    (a, lg3) \<Rightarrow>
                      (case queue_loop E c (case a of Inl _ \<Rightarrow> [] | Inr rs \<Rightarrow> rs) 0 (sorted_by created rows) none lg3 of
                         (st, lg4) \<Rightarrow> (Inr st, lg4)))))"

end
