(* ===== verification/Gpu_Actions.thy ===== *)
theory Gpu_Actions
  imports Gpu_Processing
begin

section \<open>Actions on reservations and disks\<close>

text \<open>
  \<open>reservation_processor/index.py\<close>: extending and cancelling a reservation, and the actions on persistent disks. The
  result tells the handler whether to delete the message. The monitoring threads that a cancellation stops are not
  modelled.
\<close>

subsection \<open>Extending a reservation\<close>

definition MAX_TOTAL_HOURS :: flt where "MAX_TOTAL_HOURS = 48"

definition date_of :: "penv \<Rightarrow> ddb \<Rightarrow> datetime res" where
  \<comment> \<open>\<open>fromisoformat\<close> takes only texts\<close>
  "date_of E v =
     (case v of
        DStr s \<Rightarrow> (case p_parse E (replace_z s) of None \<Rightarrow> Inl ValueError | Some d \<Rightarrow> Inr d)
      | _ \<Rightarrow> Inl OtherError)"

definition total_hours :: "datetime \<Rightarrow> datetime \<Rightarrow> flt res" where
  \<comment> \<open>from the launch to the new expiry\<close>
  "total_hours launch expiry = bind_res (dt_minus expiry launch) (\<lambda>us. Inr (fdiv (total_seconds us) 3600))"

definition too_long_text :: "penv \<Rightarrow> flt \<Rightarrow> ddb \<Rightarrow> string" where
  "too_long_text E hours launched =
     ''Cannot extend reservation beyond 48 hours total. Current total would be '' @ fixed1 hours @
     '' hours (launched at '' @ shown E launched @ '')''"

definition new_expiry :: "penv \<Rightarrow> row \<Rightarrow> ddb \<Rightarrow> (string + datetime) res" where
  \<comment> \<open>the \<open>try\<close> block: an error, a refusal or the new date\<close>
  "new_expiry E r hours =
     (if \<not> ddb_true (attr r ''expires_at'') then
        Inr (Inl (''No expiration time found for reservation '' @ text_at r ''reservation_id''))
      else bind_res (date_of E (attr r ''expires_at'')) (\<lambda>old.
        case float_of hours of
          None \<Rightarrow> Inl ValueError
        | Some h \<Rightarrow> bind_res (dt_plus old (hours_us h)) (\<lambda>d.
            if \<not> ddb_true (attr r ''launched_at'') then Inr (Inr d)
            else bind_res (date_of E (attr r ''launched_at'')) (\<lambda>launch.
              bind_res (total_hours launch d) (\<lambda>total_h.
              Inr (if total_h > MAX_TOTAL_HOURS then Inl (too_long_text E total_h (attr r ''launched_at'')) else Inr d))))))"

definition clear_warning_command :: string where
  "clear_warning_command =
     ''rm -f /home/dev/WARN_EXPIRES_IN_*MIN.txt 2>/dev/null || true; echo '' @ [CHR 0x27] @ ''Warning files cleared'' @ [CHR 0x27]"

definition clear_warning_files_from_pod :: "xenv \<Rightarrow> string \<Rightarrow> string \<Rightarrow> xlog \<Rightarrow> unit \<times> xlog" where
  \<comment> \<open>its result is not used\<close>
  "clear_warning_files_from_pod X pod ns lg =
     (case see_client X lg of
        (Inl _, lg1) \<Rightarrow> ((), lg1)
      | (Inr _, lg1) \<Rightarrow> ((), try_call X (ExecPod ns pod clear_warning_command) lg1))"

definition new_duration :: "penv \<Rightarrow> row \<Rightarrow> ddb \<Rightarrow> (string \<times> ddb) list option" where
  \<comment> \<open>\<open>None\<close>: it cannot be computed\<close>
  "new_duration E r hours =
     (case dget r ''duration_hours'' of
        None \<Rightarrow> Some []
      | Some v \<Rightarrow>
          (case (float_of v, float_of hours) of
             (Some a, Some b) \<Rightarrow> Some [(''duration_hours'', DNum (p_decimal E (fadd a b)))]
           | _ \<Rightarrow> None))"

definition after_extension :: "penv \<Rightarrow> row \<Rightarrow> ddb \<Rightarrow> datetime \<Rightarrow> plog \<Rightarrow> plog" where
  \<comment> \<open>the domain mapping, the warning files and the history\<close>
  "after_extension E r hours d lg =
     (let lg1 = (if text_at r ''domain_name'' = [] then lg
                 else try_pcall E (EditMapping (text_at r ''domain_name'')
                        [(''expires_at'', DStr (p_iso E d)), (''updated_at'', DStr (now_iso E lg))]) lg);
          lg2 = (if text_at r ''status'' = ''active'' \<and> text_at r ''pod_name'' \<noteq> [] then
                   snd (services E (\<lambda>X. clear_warning_files_from_pod X (text_at r ''pod_name'') (text_or r ''namespace'' gpu_ns)) lg1)
                 else lg1)
      in append_status_history E (text_at r ''reservation_id'') (now_iso E lg2)
           (''Extended by '' @ shown E hours @ '' hours (new expiry: '' @ p_clock E d @ '')'') lg2)"

definition extend_to :: "penv \<Rightarrow> row \<Rightarrow> ddb \<Rightarrow> datetime \<Rightarrow> plog \<Rightarrow> bool \<times> plog" where
  "extend_to E r hours d lg =
     (let rid = text_at r ''reservation_id'';
          failed = (\<lambda>e l. (False, update_error E rid (''Database error during extension: '' @ p_text E e) ''extension_error'' l)) in
      case new_duration E r hours of
        None \<Rightarrow> failed (Fault ValueError) lg
      | Some dur \<Rightarrow>
          (case call E (EditRow rid
                  ([(''expires_at'', DStr (p_iso E d)), (''last_updated'', DNum (of_int (p_now E lg)))] @ dur)
                  [''extension_error'', ''warnings_sent'', ''last_warning_time'']) lg of
             (Inl e, lg1) \<Rightarrow> failed e lg1
           | (Inr _, lg1) \<Rightarrow> (True, after_extension E r hours d lg1)))"

definition extend_found :: "penv \<Rightarrow> row \<Rightarrow> ddb \<Rightarrow> plog \<Rightarrow> bool \<times> plog" where
  "extend_found E r hours lg =
     (let rid = text_at r ''reservation_id'' in
      if attr r ''status'' \<notin> {DStr ''active'', DStr ''preparing''} then
        (True, update_error E rid
           (''Cannot extend reservation in status '' @ shown E (attr r ''status'')) ''extension_error'' lg)
      else case new_expiry E r hours of
          Inl e \<Rightarrow> (True, update_error E rid (''Error calculating new expiration time: '' @ p_text E (Fault e)) ''extension_error'' lg)
        | Inr (Inl refusal) \<Rightarrow> (True, update_error E rid refusal ''extension_error'' lg)
        | Inr (Inr d) \<Rightarrow> extend_to E r hours d lg)"

definition process_extend_reservation_action :: "penv \<Rightarrow> row option \<Rightarrow> plog \<Rightarrow> bool \<times> plog" where
  \<comment> \<open>the user is optional\<close>
  "process_extend_reservation_action E body lg =
     (case body of
        None \<Rightarrow> (False, lg)
      | Some m \<Rightarrow>
          (if text_at m ''reservation_id'' = [] \<or> \<not> ddb_true (attr m ''extension_hours'') then (True, lg)
           else case find_reservation_by_prefix E (text_at m ''reservation_id'') (text_at m ''user_id'') lg of
               (Inl e, lg1) \<Rightarrow> (e = ValueError, lg1)
             | (Inr r, lg1) \<Rightarrow> extend_found E r (attr m ''extension_hours'') lg1))"

subsection \<open>Cancelling a reservation\<close>

definition cleanup_pod_resources :: "xenv \<Rightarrow> string \<Rightarrow> string \<Rightarrow> xlog \<Rightarrow> unit res \<times> xlog" where
  "cleanup_pod_resources X pod ns lg =
     (case see_client X lg of
        (Inl e, lg1) \<Rightarrow> (Inl e, lg1)
      | (Inr _, lg1) \<Rightarrow>
          (case do_call X (DropService ns (pod @ ''-ssh'')) lg1 of
             (Inl (ApiError _), lg2) \<Rightarrow> delete_pod X ns pod lg2
           | (Inl e, lg2) \<Rightarrow> (Inl e, lg2)
           | (Inr _, lg2) \<Rightarrow> delete_pod X ns pod lg2))"

definition cancellation_snapshot :: "xcfg \<Rightarrow> string \<Rightarrow> string \<Rightarrow> string \<Rightarrow> string \<Rightarrow> string \<Rightarrow> xenv \<Rightarrow> xlog \<Rightarrow> unit \<times> xlog" where
  \<comment> \<open>the contents of a named disk are captured first, if the client can be made\<close>
  "cancellation_snapshot c pod ns user disk vol X lg =
     (case (if disk = [] then (([], []), lg)
            else case see_client X lg of
                (Inl _, lg1) \<Rightarrow> (([], []), lg1)
              | (Inr _, lg1) \<Rightarrow>
                  capture_disk_contents X (k_bucket c) pod ns user disk (''pending-'' @ str_int (e_now X lg)) ''/home/dev'' lg1) of
        ((path, usage), lg2) \<Rightarrow> ((), snd (safe_create_snapshot X vol user ''cancellation'' disk path usage lg2)))"

definition force_detach :: "penv \<Rightarrow> string \<Rightarrow> plog \<Rightarrow> plog" where
  "force_detach E vol lg =
     (let s = p_volume_state E lg vol; lg1 = SawVolumeState vol s # lg in
      if s = Inr ''in-use'' then try_pcall E (DetachVolume vol) lg1 else lg1)"

definition release_lock :: "penv \<Rightarrow> string \<Rightarrow> string \<Rightarrow> plog \<Rightarrow> plog" where
  \<comment> \<open>\<open>mark_disk_in_use(..., False)\<close>, whose error is logged\<close>
  "release_lock E user disk lg = snd (mark_disk_in_use E user disk False [] lg)"

definition cancel_active :: "penv \<Rightarrow> pcfg \<Rightarrow> row \<Rightarrow> plog \<Rightarrow> plog" where
  "cancel_active E c r lg =
     (let pod = text_at r ''pod_name''; ns = text_or r ''namespace'' gpu_ns; user = text_at r ''user_id'';
          disk = text_at r ''disk_name''; vol = text_at r ''ebs_volume_id'' in
      if pod = [] \<or> user = [] then lg
      else let lg1 = (if vol = [] then lg
                      else snd (services E (cancellation_snapshot (pc_expiry c) pod ns user disk vol) lg));
               lg2 = (case services E (\<lambda>X. cleanup_pod_resources X pod ns) lg1 of
                        (Inl _, l) \<Rightarrow> l
                      | (Inr _, l) \<Rightarrow> if vol = [] then l else force_detach E vol l)
           in if disk = [] then lg2 else release_lock E user disk lg2)"

definition cancel_found :: "penv \<Rightarrow> pcfg \<Rightarrow> string \<Rightarrow> row \<Rightarrow> plog \<Rightarrow> plog" where
  "cancel_found E c user r lg =
     (let rid = text_at r ''reservation_id''; status = text_at r ''status''; now = now_iso E lg; disk = text_at r ''disk_name'';
          lg1 = update_fields E rid
                  [(''status'', DStr ''cancelled''), (''cancelled_at'', DStr now), (''reservation_ended'', DStr now)] lg;
          lg2 = (if status = ''active'' then cancel_active E c r lg1 else lg1);
          lg3 = (if text_at r ''domain_name'' = [] then lg2
                 else try_pcall E (EditMapping (text_at r ''domain_name'')
                        [(''active'', DBool False), (''inactive_at'', DStr now), (''updated_at'', DStr now)]) lg2)
      in if disk \<noteq> [] \<and> status \<noteq> ''active'' then release_lock E user disk lg3 else lg3)"

definition cancellable :: "string list" where
  "cancellable = [''active'', ''queued'', ''pending'', ''preparing'']"

definition process_cancellation_request :: "penv \<Rightarrow> pcfg \<Rightarrow> row option \<Rightarrow> plog \<Rightarrow> bool \<times> plog" where
  "process_cancellation_request E c body lg =
     (case body of
        None \<Rightarrow> (False, lg)
      | Some m \<Rightarrow>
          (let user = text_at m ''user_id'' in
           if text_at m ''reservation_id'' = [] \<or> user = [] then (True, lg)
           else case find_reservation_by_prefix E (text_at m ''reservation_id'') user lg of
               (Inl e, lg1) \<Rightarrow> (e = ValueError, lg1)
             | (Inr r, lg1) \<Rightarrow>
                 (True, if attr r ''status'' \<in> set (map DStr cancellable) then cancel_found E c user r lg1 else lg1)))"

subsection \<open>Disks\<close>

definition see_volumes :: "penv \<Rightarrow> string \<Rightarrow> string \<Rightarrow> bool \<Rightarrow> plog \<Rightarrow> string list res \<times> plog" where
  "see_volumes E user disk used lg =
     (p_volumes E lg user disk used, SawVolumes user disk used (p_volumes E lg user disk used) # lg)"

fun detach_all :: "penv \<Rightarrow> string list \<Rightarrow> plog \<Rightarrow> plog" where
  \<comment> \<open>the first failure ends the loop\<close>
  "detach_all E [] lg = lg"
| "detach_all E (v # vs) lg =
     (case call E (DetachVolume v) lg of (Inl _, lg1) \<Rightarrow> lg1 | (Inr _, lg1) \<Rightarrow> detach_all E vs lg1)"

definition process_clear_disk_lock_action :: "penv \<Rightarrow> row option \<Rightarrow> plog \<Rightarrow> bool pres \<times> plog" where
  "process_clear_disk_lock_action E body lg =
     (case body of
        None \<Rightarrow> (Inl (Fault ValueError), lg)
      | Some m \<Rightarrow>
          (let user = text_at m ''user_id''; disk = text_at m ''disk_name'' in
           if user = [] \<or> disk = [] then (Inr True, lg)
           else let q = p_locks E lg user disk; lg1 = SawLocks user disk q # lg in
             case q of
               Inl e \<Rightarrow> (Inl (Fault e), lg1)
             | Inr (_ # _) \<Rightarrow> (Inr True, lg1)
             | Inr [] \<Rightarrow>
                 (case mark_disk_in_use E user disk False [] lg1 of
                    (Inl e, lg2) \<Rightarrow> (Inl e, lg2)
                  | (Inr _, lg2) \<Rightarrow>
                      (case see_volumes E user disk True lg2 of
                         (Inl _, lg3) \<Rightarrow> (Inr True, lg3)
                       | (Inr vs, lg3) \<Rightarrow> (Inr True, detach_all E vs lg3)))))"

definition tag_snapshot :: "xenv \<Rightarrow> string \<Rightarrow> string \<Rightarrow> snapshot \<Rightarrow> xlog \<Rightarrow> xlog" where
  "tag_snapshot X date marked_at s lg =
     (if ''delete-date'' \<in> set (dkeys (tags_of s)) then lg
      else try_call X (TagSnapshot (s_id s) [(''delete-date'', date), (''marked-deleted-at'', marked_at)]) lg)"

definition tag_snapshots :: "string \<Rightarrow> string \<Rightarrow> string \<Rightarrow> string \<Rightarrow> xenv \<Rightarrow> xlog \<Rightarrow> unit \<times> xlog" where
  "tag_snapshots user disk date marked_at X lg =
     (case see_snapshots X (OfDisk user disk) lg of
        (Inl _, lg1) \<Rightarrow> ((), lg1)
      | (Inr ss, lg1) \<Rightarrow> ((), fold (tag_snapshot X date marked_at) ss lg1))"

definition process_delete_disk_action :: "penv \<Rightarrow> row option \<Rightarrow> plog \<Rightarrow> bool \<times> plog" where
  "process_delete_disk_action E body lg =
     (case body of
        None \<Rightarrow> (False, lg)
      | Some m \<Rightarrow>
          (let user = text_at m ''user_id''; disk = text_at m ''disk_name''; date = text_at m ''delete_date'';
               marked_at = text_or m ''requested_at'' (str_int (p_now E lg)) in
           if text_at m ''action'' = [] \<or> user = [] \<or> disk = [] \<or> date = [] then (True, lg)
           else case call E (EditDisk user disk
                  [(''is_deleted'', Now (DBool True)), (''delete_date'', Now (DStr date)),
                   (''marked_deleted_at'', Now (DStr marked_at))] []) lg of
               (Inl _, lg1) \<Rightarrow> (False, lg1)
             | (Inr _, lg1) \<Rightarrow> (True, snd (services E (tag_snapshots user disk date marked_at) lg1))))"

definition new_disk :: "string \<Rightarrow> string \<Rightarrow> string \<Rightarrow> row" where
  "new_disk user disk now =
     [(''user_id'', DStr user), (''disk_name'', DStr disk), (''size_gb'', DNum 1024), (''created_at'', DStr now),
      (''last_used'', DStr now), (''snapshot_count'', DNum 0), (''pending_snapshot_count'', DNum 0),
      (''in_use'', DBool False), (''is_deleted'', DBool False)]"

definition put_disk :: "penv \<Rightarrow> string \<Rightarrow> row \<Rightarrow> plog \<Rightarrow> bool pres \<times> plog" where
  \<comment> \<open>an existing disk is left alone and counts as success\<close>
  "put_disk E op d lg =
     (case call E (PutDisk d) lg of
        (Inl Conditional, lg1) \<Rightarrow> (Inr True, write_operation_result E op ''completed'' [] lg1)
      | (Inl e, lg1) \<Rightarrow> (Inl e, lg1)
      | (Inr _, lg1) \<Rightarrow> (Inr True, write_operation_result E op ''completed'' [] lg1))"

definition process_create_disk_action :: "penv \<Rightarrow> row option \<Rightarrow> plog \<Rightarrow> bool \<times> plog" where
  "process_create_disk_action E body lg =
     (case body of
        None \<Rightarrow> (False, lg)
      | Some m \<Rightarrow>
          (let user = text_at m ''user_id''; disk = text_at m ''disk_name''; op = text_at m ''operation_id'' in
           if text_at m ''action'' = [] \<or> user = [] \<or> disk = [] then (True, lg)
           else case put_disk E op (new_disk user disk (now_iso E lg)) lg of
               (Inl e, lg1) \<Rightarrow> (False, write_operation_result E op ''failed'' (p_text E e) lg1)
             | (Inr b, lg1) \<Rightarrow> (b, lg1)))"

definition live_snapshot :: "string \<Rightarrow> string \<Rightarrow> string \<Rightarrow> xenv \<Rightarrow> xlog \<Rightarrow> snapshot res \<times> xlog" where
  \<comment> \<open>a snapshot of the volume in use, once it has completed\<close>
  "live_snapshot user disk vol X lg =
     (case do_call X (MakeSnapshot vol (''gpu-dev live clone snapshot for '' @ user @ '' (disk: '' @ disk @ '')'')
              [(''gpu-dev-user'', user), (''disk_name'', disk), (''Name'', ''gpu-dev-'' @ disk @ ''-live-clone'')]) lg of
        (Inl e, lg1) \<Rightarrow> (Inl e, lg1)
      | (Inr sid, lg1) \<Rightarrow>
          (case do_call X (WaitSnapshot sid) lg1 of
             (Inl e, lg2) \<Rightarrow> (Inl e, lg2)
           | (Inr _, lg2) \<Rightarrow>
               (case see_snapshots X (ById sid) lg2 of
                  (Inl e, lg3) \<Rightarrow> (Inl e, lg3)
                | (Inr [], lg3) \<Rightarrow> (Inl OtherError, lg3)
                | (Inr (s # _), lg3) \<Rightarrow> (Inr s, lg3))))"

definition clone_source :: "penv \<Rightarrow> string \<Rightarrow> string \<Rightarrow> plog \<Rightarrow> snapshot option res \<times> plog" where
  \<comment> \<open>the latest completed snapshot that is not marked for deletion, or else one of a volume; \<open>None\<close>: there is neither\<close>
  "clone_source E user disk lg =
     (case services E (\<lambda>X. see_snapshots X (CompletedOfDisk user disk)) lg of
        (Inl e, lg1) \<Rightarrow> (Inl e, lg1)
      | (Inr ss, lg1) \<Rightarrow>
          (case filter (\<lambda>s. ''delete-date'' \<notin> set (dkeys (tags_of s))) ss of
             s # rest \<Rightarrow> (Inr (Some (max_start s rest)), lg1)
           | [] \<Rightarrow>
               (case see_volumes E user disk False lg1 of
                  (Inl e, lg2) \<Rightarrow> (Inl e, lg2)
                | (Inr [], lg2) \<Rightarrow> (Inr None, lg2)
                | (Inr (v # _), lg2) \<Rightarrow>
                    (case services E (live_snapshot user disk v) lg2 of
                       (Inl e, lg3) \<Rightarrow> (Inl e, lg3)
                     | (Inr s, lg3) \<Rightarrow> (Inr (Some s), lg3)))))"

definition clone_row :: "string \<Rightarrow> string \<Rightarrow> string \<Rightarrow> string \<Rightarrow> string \<Rightarrow> row \<Rightarrow> row" where
  "clone_row user source_disk target sid now source =
     new_disk user target now @ [(''cloned_from'', DStr source_disk), (''clone_source_snapshot'', DStr sid)] @
     keep_true source ''latest_snapshot_content_s3'' ''latest_snapshot_content_s3'' @ keep_true source ''disk_size'' ''disk_size''"

definition clone_body :: "penv \<Rightarrow> string \<Rightarrow> string \<Rightarrow> string \<Rightarrow> string \<Rightarrow> plog \<Rightarrow> bool pres \<times> plog" where
  "clone_body E user source_disk target op lg =
     (case clone_source E user source_disk lg of
        (Inl e, lg1) \<Rightarrow> (Inl (Fault e), lg1)
      | (Inr None, lg1) \<Rightarrow>
          (Inr True, write_operation_result E op ''failed''
             (''No snapshots or volumes found for source disk '' @ [CHR 0x27] @ source_disk @ [CHR 0x27, CHR ''.'']) lg1)
      | (Inr (Some s), lg1) \<Rightarrow>
          (let d = p_disk_item E lg1 user source_disk; lg2 = SawItemDisk user source_disk d # lg1;
               source = (case d of Inr (Some x) \<Rightarrow> x | _ \<Rightarrow> []) in
           put_disk E op (clone_row user source_disk target (s_id s) (now_iso E lg1) source) lg2))"

definition process_clone_disk_action :: "penv \<Rightarrow> row option \<Rightarrow> plog \<Rightarrow> bool pres \<times> plog" where
  \<comment> \<open>for a body that is not JSON, the handler of the error uses \<open>operation_id\<close> before it is assigned\<close>
  "process_clone_disk_action E body lg =
     (case body of
        None \<Rightarrow> (Inl (Fault OtherError), lg)
      | Some m \<Rightarrow>
          (let user = text_at m ''user_id''; source_disk = text_at m ''source_disk''; target = text_at m ''target_disk'';
               op = text_at m ''operation_id'' in
           if user = [] \<or> source_disk = [] \<or> target = [] then (Inr True, lg)
           else case clone_body E user source_disk target op lg of
               (Inl e, lg1) \<Rightarrow> (Inr False, write_operation_result E op ''failed'' (p_text E e) lg1)
             | st \<Rightarrow> st))"

end
