(* ===== verification/Gpu_Pods.thy ===== *)
theory Gpu_Pods
  imports Gpu_Actions
begin

section \<open>Actions inside a pod\<close>

text \<open>
  \<open>reservation_processor/index.py\<close>: node ports, the SSH keys of GitHub users, Jupyter in a running pod and further users
  of a pod. The shell scripts that run in the pod are named, not written out; the code looks only for texts in their output. The
  cache of keys in memory is read off the log. The cache in the table is not used: the code refers to a table variable that
  no module defines, and ignores the error.
\<close>

subsection \<open>Ports\<close>

fun random_port :: "(nat \<Rightarrow> int) \<Rightarrow> int list \<Rightarrow> nat \<Rightarrow> nat \<Rightarrow> int option" where
  \<comment> \<open>number of the next draw, and draws left\<close>
  "random_port rnd used i 0 = None"
| "random_port rnd used i (Suc n) = (if rnd i \<notin> set used then Some (rnd i) else random_port rnd used (Suc i) n)"

definition first_free :: "int list \<Rightarrow> int option" where
  "first_free used = List.find (\<lambda>p. p \<notin> set used) [30000..32767]"

definition find_available_node_port :: "penv \<Rightarrow> plog \<Rightarrow> int \<times> plog" where
  \<comment> \<open>after any error a random port\<close>
  "find_available_node_port E lg =
     (let q = p_ports E lg; lg1 = SawPorts q # lg in
      case q of
        Inl _ \<Rightarrow> (p_random E lg1 0, lg1)
      | Inr used \<Rightarrow>
          ((case random_port (p_random E lg1) used 0 10 of
              Some p \<Rightarrow> p
            | None \<Rightarrow> (case first_free used of Some p \<Rightarrow> p | None \<Rightarrow> p_random E lg1 10)), lg1))"

subsection \<open>Keys\<close>

definition SSH_KEY_CACHE_TTL :: flt where "SSH_KEY_CACHE_TTL = 604800"

fun key_cache :: "string \<Rightarrow> plog \<Rightarrow> (string \<times> flt) option" where
  \<comment> \<open>the entry of \<open>_ssh_key_cache\<close>\<close>
  "key_cache u [] = None"
| "key_cache u (e # lg) =
     (case e of Remembered v k t \<Rightarrow> if v = u then Some (k, t) else key_cache u lg | _ \<Rightarrow> key_cache u lg)"

definition valid_key :: "string \<Rightarrow> bool" where
  "valid_key l \<longleftrightarrow> l \<noteq> [] \<and> (startswith l ''ssh-rsa'' \<or> startswith l ''ssh-ed25519'' \<or> startswith l ''ssh-ecdsa'')"

definition usable_keys :: "bool \<Rightarrow> string \<Rightarrow> string" where
  \<comment> \<open>of the answer of GitHub; empty when there are none\<close>
  "usable_keys validate ans =
     (let ks = strip ans in
      if ks = [] \<or> \<not> validate then ks
      else join_on newline (filter valid_key (map strip (split_on newline ks))))"

definition fetch_keys :: "penv \<Rightarrow> string \<Rightarrow> bool \<Rightarrow> plog \<Rightarrow> string \<times> plog" where
  \<comment> \<open>from GitHub, and into the cache; empty for \<open>None\<close>\<close>
  "fetch_keys E user validate lg =
     (let r = p_keys E lg user; lg1 = FetchedKeys user r # lg in
      case r of
        Inl _ \<Rightarrow> ([], lg1)
      | Inr ans \<Rightarrow>
          (let ks = usable_keys validate ans in
           (ks, if ks = [] then lg1 else Remembered (lower user) ks (p_time E lg1) # lg1)))"

definition get_github_public_key :: "penv \<Rightarrow> string \<Rightarrow> bool \<Rightarrow> plog \<Rightarrow> string \<times> plog" where
  "get_github_public_key E user validate lg =
     (case key_cache (lower user) lg of
        Some (k, t) \<Rightarrow> if fsub (p_time E lg) t < SSH_KEY_CACHE_TTL then (k, lg) else fetch_keys E user validate lg
      | None \<Rightarrow> fetch_keys E user validate lg)"

subsection \<open>Jupyter\<close>

definition run_script :: "penv \<Rightarrow> string \<Rightarrow> string \<Rightarrow> script \<Rightarrow> plog \<Rightarrow> string res \<times> plog" where
  "run_script E ns pod s lg = (p_run E lg ns pod s, Ran ns pod s (p_run E lg ns pod s) # lg)"

definition update_jupyter_status :: "penv \<Rightarrow> string \<Rightarrow> bool \<Rightarrow> plog \<Rightarrow> plog" where
  "update_jupyter_status E rid b lg = update_fields E rid [(''jupyter_enabled'', DBool b)] lg"

definition get_jupyter_token_from_pod :: "penv \<Rightarrow> string \<Rightarrow> plog \<Rightarrow> string \<times> plog" where
  \<comment> \<open>empty for \<open>None\<close>\<close>
  "get_jupyter_token_from_pod E pod lg =
     (case run_script E gpu_ns pod ReadToken lg of
        (Inl _, lg1) \<Rightarrow> ([], lg1)
      | (Inr out, lg1) \<Rightarrow> (if strip out = ''TOKEN_NOT_READY'' then [] else strip out, lg1))"

definition make_jupyter_service :: "penv \<Rightarrow> string \<Rightarrow> plog \<Rightarrow> int pres \<times> plog" where
  "make_jupyter_service E pod lg =
     (case find_available_node_port E lg of
        (n, lg1) \<Rightarrow>
          (case call E (MakeService pod ''jupyter'' n) lg1 of (Inl e, lg2) \<Rightarrow> (Inl e, lg2) | (Inr _, lg2) \<Rightarrow> (Inr n, lg2)))"

definition jupyter_port_of :: "penv \<Rightarrow> string \<Rightarrow> plog \<Rightarrow> int pres \<times> plog" where
  \<comment> \<open>the port of the service of the pod, which is made if there is none\<close>
  "jupyter_port_of E pod lg =
     (let q = p_port E lg (pod @ ''-jupyter''); lg1 = SawPort (pod @ ''-jupyter'') q # lg in
      case q of
        Inr p \<Rightarrow> if p \<noteq> 0 then (Inr p, lg1) else make_jupyter_service E pod lg1
      | Inl e \<Rightarrow> if e = ApiError 404 then make_jupyter_service E pod lg1 else (Inl (Fault e), lg1))"

definition jupyter_url :: "string \<Rightarrow> string \<Rightarrow> string \<Rightarrow> int \<Rightarrow> string \<Rightarrow> string" where
  "jupyter_url domain suffix ip port token =
     ''http://'' @ (if domain \<noteq> [] \<and> suffix \<noteq> [] then domain @ ''.'' @ suffix else ip) @ '':'' @ str_int port @
     (if token = [] then [] else ''?token='' @ token)"

definition expose_jupyter :: "penv \<Rightarrow> pcfg \<Rightarrow> string \<Rightarrow> string \<Rightarrow> plog \<Rightarrow> unit pres \<times> plog" where
  "expose_jupyter E c pod rid lg =
     (case jupyter_port_of E pod lg of
        (Inl e, lg1) \<Rightarrow> (Inl e, lg1)
      | (Inr port, lg1) \<Rightarrow>
          (case p_node_ip E lg1 pod of
             Inl e \<Rightarrow> (Inl (Fault e), lg1)
           | Inr ip \<Rightarrow>
               (case get_jupyter_token_from_pod E pod lg1 of
                  (token, lg2) \<Rightarrow>
                    (case get_item E False rid lg2 of
                       (Inl e, lg3) \<Rightarrow> (Inl (Fault e), lg3)
                     | (Inr r, lg3) \<Rightarrow>
                         (Inr (), update_fields E rid
                            [(''jupyter_enabled'', DBool True), (''jupyter_port'', DNum (of_int port)),
                             (''jupyter_url'', DStr (jupyter_url (case r of None \<Rightarrow> [] | Some x \<Rightarrow> text_at x ''domain_name'')
                                (pc_domain c) ip port token)),
                             (''jupyter_token'', DStr token)] lg3)))))"

definition enable_jupyter_in_pod :: "penv \<Rightarrow> pcfg \<Rightarrow> string \<Rightarrow> string \<Rightarrow> string \<Rightarrow> plog \<Rightarrow> bool \<times> plog" where
  "enable_jupyter_in_pod E c pod ns rid lg =
     (case run_script E ns pod CheckJupyter lg of
        (chk, lg1) \<Rightarrow>
          (if (case chk of Inl _ \<Rightarrow> False | Inr out \<Rightarrow> contains_str ''jupyter'' out) then (True, update_jupyter_status E rid True lg1)
           else case run_script E ns pod StartJupyter lg1 of
               (Inl _, lg2) \<Rightarrow> (False, lg2)
             | (Inr out, lg2) \<Rightarrow>
                 (if \<not> contains_str ''Jupyter Lab started successfully'' out then (False, lg2)
                  else case expose_jupyter E c pod rid lg2 of
                      (Inl _, lg3) \<Rightarrow> (True, update_jupyter_status E rid True lg3)
                    | (Inr _, lg3) \<Rightarrow> (True, lg3))))"

definition disable_jupyter_in_pod :: "penv \<Rightarrow> string \<Rightarrow> string \<Rightarrow> string \<Rightarrow> plog \<Rightarrow> bool \<times> plog" where
  "disable_jupyter_in_pod E pod ns rid lg =
     (case run_script E ns pod StopJupyter lg of
        (Inl _, lg1) \<Rightarrow> (False, lg1)
      | (Inr out, lg1) \<Rightarrow>
          (if \<not> (contains_str ''Stopping Jupyter Lab'' out \<or> contains_str ''Jupyter Lab stopped successfully'' out \<or>
                contains_str ''Jupyter Lab force-stopped'' out) then (False, lg1)
           else case services E (\<lambda>X. do_call X (DropService ns (pod @ ''-jupyter''))) lg1 of
               (r, lg2) \<Rightarrow>
                 (if (case r of Inl (ApiError _) \<Rightarrow> False | Inl _ \<Rightarrow> True | Inr _ \<Rightarrow> False) then (False, lg2)
                  else case call E (EditRow rid
                         [(''jupyter_enabled'', DBool False), (''last_updated'', DNum (of_int (p_now E lg2)))]
                         [''jupyter_url'', ''jupyter_token'', ''jupyter_port'']) lg2 of
                      (Inl _, lg3) \<Rightarrow> (False, lg3)
                    | (Inr _, lg3) \<Rightarrow> (True, lg3))))"

subsection \<open>Further users\<close>

definition add_secondary_user :: "penv \<Rightarrow> string \<Rightarrow> string \<Rightarrow> plog \<Rightarrow> plog" where
  \<comment> \<open>a value that is not a list, or an error of the table, is logged and ignored\<close>
  "add_secondary_user E rid user lg =
     (case get_item E False rid lg of
        (Inl _, lg1) \<Rightarrow> lg1
      | (Inr r, lg1) \<Rightarrow>
          (case dget_or (case r of None \<Rightarrow> [] | Some x \<Rightarrow> x) ''secondary_users'' (DList []) of
             DList us \<Rightarrow>
               (if DStr user \<in> set us then lg1 else update_fields E rid [(''secondary_users'', DList (us @ [DStr user]))] lg1)
           | _ \<Rightarrow> lg1))"

definition add_user_to_pod :: "penv \<Rightarrow> string \<Rightarrow> string \<Rightarrow> string \<Rightarrow> string \<Rightarrow> plog \<Rightarrow> bool \<times> plog" where
  "add_user_to_pod E pod ns rid user lg =
     (case get_github_public_key E user True lg of
        (ks, lg1) \<Rightarrow>
          (if ks = [] then (False, lg1)
           else case run_script E ns pod (AddKeys user ks) lg1 of
               (Inl _, lg2) \<Rightarrow> (False, lg2)
             | (Inr out, lg2) \<Rightarrow>
                 (if contains_str (''SSH keys for '' @ user @ '' added successfully'') out then
                    (True, add_secondary_user E rid user lg2)
                  else (False, lg2))))"

subsection \<open>The actions\<close>

definition for_active :: "penv \<Rightarrow> row \<Rightarrow> (string \<Rightarrow> string \<Rightarrow> string \<Rightarrow> plog \<Rightarrow> bool \<times> plog) \<Rightarrow> plog \<Rightarrow> bool \<times> plog" where
  \<comment> \<open>both actions: the caller's own active reservation that has a pod; \<open>f\<close> gets the pod, the namespace and the id\<close>
  "for_active E m f lg =
     (let user = text_at m ''user_id'' in
      case find_reservation_by_prefix E (text_at m ''reservation_id'') user lg of
        (Inl e, lg1) \<Rightarrow> (e = ValueError, lg1)
      | (Inr r, lg1) \<Rightarrow>
          (if attr r ''user_id'' \<noteq> DStr user \<or> attr r ''status'' \<noteq> DStr ''active'' \<or> text_at r ''pod_name'' = [] then (True, lg1)
           else case make_client E lg1 of
               (Inl _, lg2) \<Rightarrow> (False, lg2)
             | (Inr _, lg2) \<Rightarrow> f (text_at r ''pod_name'') (text_or r ''namespace'' gpu_ns) (text_at r ''reservation_id'') lg2))"

definition process_jupyter_action :: "penv \<Rightarrow> pcfg \<Rightarrow> row option \<Rightarrow> plog \<Rightarrow> bool \<times> plog" where
  "process_jupyter_action E c body lg =
     (case body of
        None \<Rightarrow> (False, lg)
      | Some m \<Rightarrow>
          (let action = text_at m ''action'' in
           if action = [] \<or> text_at m ''reservation_id'' = [] \<or> text_at m ''user_id'' = [] then (True, lg)
           else for_active E m (\<lambda>pod ns rid l.
                  if action = ''enable_jupyter'' then enable_jupyter_in_pod E c pod ns rid l
                  else if action = ''disable_jupyter'' then disable_jupyter_in_pod E pod ns rid l
                  else (False, l)) lg))"

definition process_add_user_action :: "penv \<Rightarrow> row option \<Rightarrow> plog \<Rightarrow> bool \<times> plog" where
  \<comment> \<open>a failure is written for the CLI, not retried\<close>
  "process_add_user_action E body lg =
     (case body of
        None \<Rightarrow> (False, lg)
      | Some m \<Rightarrow>
          (let user = text_at m ''github_username'' in
           if text_at m ''action'' = [] \<or> text_at m ''reservation_id'' = [] \<or> text_at m ''user_id'' = [] \<or> user = [] then (True, lg)
           else for_active E m (\<lambda>pod ns rid l.
                  case add_user_to_pod E pod ns rid user l of
                    (b, l1) \<Rightarrow>
                      (True, update_fields E rid [(''add_user_error'', DStr (if b then []
                         else ''Failed to add user '' @ user @ '' - check that the GitHub user has public SSH keys at github.com/'' @
                           user @ ''.keys''))] l1)) lg))"

end
