(* ===== verification/Gpu_Warm.thy ===== *)
theory Gpu_Warm
  imports Gpu_Pods
begin

section \<open>The warm pool\<close>

text \<open>
  \<open>reservation_processor/index.py\<close>: pods that are booted in advance. A scheduled tick keeps as many of each GPU type as
  configured, a reservation can claim one of them, and a request for more GPUs than any node has free evicts them. A pod has
  its labels and annotations as they were listed. The resolution of the image digest and the creation of a pod are calls of the
  environment.
\<close>

definition see_warm :: "penv \<Rightarrow> string option \<Rightarrow> string option \<Rightarrow> plog \<Rightarrow> wpod list res \<times> plog" where
  \<comment> \<open>\<open>_list_warm_pods\<close>\<close>
  "see_warm E t s lg = (p_warm E lg t s, SawWarm t s (p_warm E lg t s) # lg)"

definition warm_state :: "wpod \<Rightarrow> string" where
  "warm_state p = dget_or (w_labels p) ''warm-state'' []"

definition warm_gpu_count :: "string \<Rightarrow> int" where
  "warm_gpu_count t = (if startswith t ''cpu-'' then 0 else 1)"

definition dash :: string where "dash = ''-''"

definition no_grace :: int where
  \<comment> \<open>no \<open>grace_period_seconds\<close> is passed\<close>
  "no_grace = -1"

subsection \<open>Recycling\<close>

definition recycle_warm_pod :: "wpod \<Rightarrow> xenv \<Rightarrow> xlog \<Rightarrow> bool \<times> xlog" where
  \<comment> \<open>the pod, its service and its domain mapping\<close>
  "recycle_warm_pod p X lg =
     (case do_call X (DropPod gpu_ns (w_name p) no_grace) lg of
        (Inl _, lg1) \<Rightarrow> (False, lg1)
      | (Inr _, lg1) \<Rightarrow>
          (let lg2 = try_call X (DropService gpu_ns (w_name p @ ''-ssh'')) lg1;
               domain = dget_or (w_notes p) ''warm-domain'' []
           in (True, if domain \<noteq> [] \<and> domain \<noteq> dash then try_call X (DropMapping domain) lg2 else lg2)))"

definition recycle :: "penv \<Rightarrow> wpod \<Rightarrow> plog \<Rightarrow> bool \<times> plog" where
  "recycle E p lg = services E (recycle_warm_pod p) lg"

record pool_state =
  ps_created :: nat
  ps_recycled :: nat

definition recycle_counted :: "penv \<Rightarrow> wpod \<Rightarrow> pool_state \<times> plog \<Rightarrow> pool_state \<times> plog" where
  "recycle_counted E p st =
     (case recycle E p (snd st) of
        (b, lg) \<Rightarrow> ((fst st)\<lparr>ps_recycled := (if b then Suc (ps_recycled (fst st)) else ps_recycled (fst st))\<rparr>, lg))"

definition age_of :: "penv \<Rightarrow> plog \<Rightarrow> wpod \<Rightarrow> flt" where
  "age_of E lg p = fsub (p_time E lg) (case w_created p of None \<Rightarrow> p_time E lg | Some t \<Rightarrow> t)"

definition worn_out :: "penv \<Rightarrow> pcfg \<Rightarrow> plog \<Rightarrow> wpod \<Rightarrow> bool" where
  "worn_out E c lg p \<longleftrightarrow>
     w_phase p = ''Failed'' \<or> w_phase p = ''Succeeded'' \<or>
     warm_state p = ''ready'' \<and> age_of E lg p > fmul (pc_warm_hours c) 3600"

definition standby_step :: "penv \<Rightarrow> pcfg \<Rightarrow> wpod \<Rightarrow> wpod list \<times> pool_state \<times> plog \<Rightarrow> wpod list \<times> pool_state \<times> plog" where
  \<comment> \<open>claimed pods are neither counted nor touched\<close>
  "standby_step E c p st =
     (case st of (live, ps, lg) \<Rightarrow>
        if warm_state p = ''claimed'' then (live, ps, lg)
        else if worn_out E c lg p then (live, recycle_counted E p (ps, lg))
        else (live @ [p], ps, lg))"

definition image_digest :: "wpod \<Rightarrow> string" where
  \<comment> \<open>\<open>_pod_image_digest\<close>; empty for \<open>None\<close>\<close>
  "image_digest p =
     (case List.find (\<lambda>(n, i). n = ''gpu-dev'' \<and> CHR ''@'' \<in> set i) (w_images p) of
        None \<Rightarrow> []
      | Some (_, i) \<Rightarrow> (case snd (split_at (\<lambda>c. c = CHR ''@'') i) of None \<Rightarrow> [] | Some d \<Rightarrow> d))"

definition stale_image :: "string \<Rightarrow> wpod \<Rightarrow> bool" where
  "stale_image digest p \<longleftrightarrow> warm_state p = ''ready'' \<and> image_digest p \<noteq> [] \<and> image_digest p \<noteq> digest"

definition rotate :: "penv \<Rightarrow> string option \<Rightarrow> wpod list \<Rightarrow> pool_state \<Rightarrow> plog \<Rightarrow> wpod list \<times> pool_state \<times> plog" where
  \<comment> \<open>one ready pod with another image, if the digest is known\<close>
  "rotate E digest live ps lg =
     (case digest of
        None \<Rightarrow> (live, ps, lg)
      | Some d \<Rightarrow>
          (if d = [] then (live, ps, lg)
           else case List.find (stale_image d) live of
               None \<Rightarrow> (live, ps, lg)
             | Some p \<Rightarrow>
                 (case recycle E p lg of
                    (b, lg1) \<Rightarrow>
                      (if b then remove1 p live else live,
                       ps\<lparr>ps_recycled := (if b then Suc (ps_recycled ps) else ps_recycled ps)\<rparr>, lg1))))"

subsection \<open>Provisioning and creation\<close>

definition provision_warm_pod :: "penv \<Rightarrow> pcfg \<Rightarrow> wpod \<Rightarrow> plog \<Rightarrow> plog" where
  \<comment> \<open>every error is ignored, here or by the caller\<close>
  "provision_warm_pod E c p lg =
     (if dget_or (w_notes p) ''warm-domain'' [] \<noteq> [] \<or> w_phase p \<noteq> ''Running'' then lg
      else let q = p_port E lg (w_name p @ ''-ssh''); lg1 = SawPort (w_name p @ ''-ssh'') q # lg in
        case (q, p_node_ip E lg1 (w_name p), p_private_ip E lg1 (w_name p), p_pod_ip E lg1 (w_name p)) of
          (Inr port, Inr ip, Inr private, Inr pod_ip) \<Rightarrow>
            (let (domain, lg2) =
               (if \<not> k_dns (pc_expiry c) then (dash, lg1)
                else case p_unique E lg1 None of
                    Inl _ \<Rightarrow> (dash, lg1)
                  | Inr nm \<Rightarrow>
                      (case call E (StoreMapping nm (first_of private ip) port ''warm''
                              (p_now E lg1 + ftrunc (fmul (pc_warm_hours c) 3600) + 7200)) lg1 of
                         (Inl _, l) \<Rightarrow> (dash, l)
                       | (Inr _, l) \<Rightarrow> (nm, l)))
             in try_pcall E (PatchPod (w_name p) []
                  [(''warm-node-ip'', ip), (''warm-node-private-ip'', private), (''warm-pod-ip'', pod_ip),
                   (''warm-node-port'', str_int port), (''warm-domain'', domain)]) lg2)
        | _ \<Rightarrow> lg1)"

definition create_warm_pod :: "penv \<Rightarrow> string \<Rightarrow> plog \<Rightarrow> unit pres \<times> plog" where
  \<comment> \<open>the service is optional\<close>
  "create_warm_pod E t lg =
     (case make_client E lg of
        (Inl e, lg1) \<Rightarrow> (Inl (Fault e), lg1)
      | (Inr _, lg1) \<Rightarrow>
          (let nm = ''gpu-dev-'' @ t @ ''-'' @ p_hex E lg in
           case call E (MakeWarmPod nm t (warm_gpu_count t)) lg1 of
             (Inl e, lg2) \<Rightarrow> (Inl e, lg2)
           | (Inr _, lg2) \<Rightarrow>
               (case find_available_node_port E lg2 of
                  (n, lg3) \<Rightarrow> (Inr (), try_pcall E (MakeService nm ''ssh'' n) lg3))))"

fun create_warm_pods :: "penv \<Rightarrow> string \<Rightarrow> nat \<Rightarrow> pool_state \<Rightarrow> plog \<Rightarrow> pool_state \<times> plog" where
  \<comment> \<open>until one fails\<close>
  "create_warm_pods E t 0 ps lg = (ps, lg)"
| "create_warm_pods E t (Suc n) ps lg =
     (case create_warm_pod E t lg of
        (Inl _, lg1) \<Rightarrow> (ps, lg1)
      | (Inr _, lg1) \<Rightarrow> create_warm_pods E t n (ps\<lparr>ps_created := Suc (ps_created ps)\<rparr>) lg1)"

subsection \<open>One tick\<close>

definition reconcile_type :: "penv \<Rightarrow> pcfg \<Rightarrow> string option \<Rightarrow> string \<times> nat \<Rightarrow> pool_state \<times> plog \<Rightarrow> pool_state \<times> plog" where
  \<comment> \<open>recycle, scale down, rotate, provision and top up\<close>
  "reconcile_type E c digest tt st =
     (case see_warm E (Some (fst tt)) None (snd st) of
        (Inl _, lg1) \<Rightarrow> (fst st, lg1)
      | (Inr pods, lg1) \<Rightarrow>
          (case fold (standby_step E c) pods ([], fst st, lg1) of
             (live, ps2, lg2) \<Rightarrow>
               (case fold (recycle_counted E) (drop (snd tt) live) (ps2, lg2) of
                  (ps3, lg3) \<Rightarrow>
                    (case rotate E digest (take (snd tt) live) ps3 lg3 of
                       (live4, ps4, lg4) \<Rightarrow>
                         create_warm_pods E (fst tt) (snd tt - length live4) ps4
                           (fold (provision_warm_pod E c) (filter (\<lambda>p. warm_state p = ''ready'') live4) lg4)))))"

definition retired :: "pcfg \<Rightarrow> wpod \<Rightarrow> bool" where
  \<comment> \<open>not claimed, and of a type that is no longer configured\<close>
  "retired c p \<longleftrightarrow>
     warm_state p \<noteq> ''claimed'' \<and>
     (case dget (w_labels p) ''warm-gpu-type'' of None \<Rightarrow> True | Some t \<Rightarrow> t \<notin> set (dkeys (pc_warm c)))"

definition recycle_retired :: "penv \<Rightarrow> pcfg \<Rightarrow> pool_state \<times> plog \<Rightarrow> pool_state \<times> plog" where
  "recycle_retired E c st =
     (case see_warm E None None (snd st) of
        (Inl _, lg1) \<Rightarrow> (fst st, lg1)
      | (Inr pods, lg1) \<Rightarrow> fold (recycle_counted E) (filter (retired c) pods) (fst st, lg1))"

definition reconcile_warm_pool :: "penv \<Rightarrow> pcfg \<Rightarrow> plog \<Rightarrow> pool_state res \<times> plog" where
  "reconcile_warm_pool E c lg =
     (case make_client E lg of
        (Inl e, lg1) \<Rightarrow> (Inl e, lg1)
      | (Inr _, lg1) \<Rightarrow>
          (let d = p_digest E lg1 in
           case recycle_retired E c
                  (fold (reconcile_type E c d) (pc_warm c) (\<lparr>ps_created = 0, ps_recycled = 0\<rparr>, SawDigest d # lg1)) of
             (ps, lg2) \<Rightarrow> (Inr ps, lg2)))"

subsection \<open>Eviction\<close>

record room =
  ro_node :: string
  ro_az :: string
  ro_free :: int

definition held_by :: "string \<Rightarrow> wpod \<Rightarrow> int res" where
  "held_by resource p = requests_proc resource (w_requests p)"

definition evictable :: "string \<Rightarrow> wpod \<Rightarrow> bool" where
  "evictable node p \<longleftrightarrow> node \<noteq> [] \<and> w_node p = node \<and> w_phase p = ''Running''"

fun holders :: "string \<Rightarrow> wpod list \<Rightarrow> (wpod \<times> int) list res" where
  \<comment> \<open>the running pods with a node that hold something\<close>
  "holders resource [] = Inr []"
| "holders resource (p # ps) =
     (if w_node p = [] \<or> w_phase p \<noteq> ''Running'' then holders resource ps
      else bind_res (held_by resource p) (\<lambda>h. bind_res (holders resource ps) (\<lambda>hs.
           Inr (if h > 0 then (p, h) # hs else hs))))"

fun pick_evictions :: "int \<Rightarrow> int \<Rightarrow> (wpod \<times> int) list \<Rightarrow> wpod list \<times> int" where
  \<comment> \<open>the pods to evict and what they free; the second argument is what is free without them\<close>
  "pick_evictions needed free [] = ([], free)"
| "pick_evictions needed free ((p, h) # ps) =
     (if free \<ge> needed then ([], free)
      else case pick_evictions needed (free + h) ps of (qs, f) \<Rightarrow> (p # qs, f))"

definition idle_warm :: "wpod \<Rightarrow> bool" where
  "idle_warm p \<longleftrightarrow> dget (w_labels p) ''app'' = Some ''gpu-dev-warm'' \<and> dget (w_labels p) ''warm-state'' = Some ''ready''"

definition evict_pod :: "xenv \<Rightarrow> wpod \<Rightarrow> xlog \<Rightarrow> xlog" where
  "evict_pod X p lg =
     (if \<not> idle_warm p then lg
      else case do_call X (DropPod gpu_ns (w_name p) no_grace) lg of
          (Inl _, lg1) \<Rightarrow> lg1
        | (Inr _, lg1) \<Rightarrow> try_call X (DropService gpu_ns (w_name p @ ''-ssh'')) lg1)"

fun evict_on :: "penv \<Rightarrow> int \<Rightarrow> (wpod \<times> int) list \<Rightarrow> room list \<Rightarrow> plog \<Rightarrow> room option \<times> plog" where
  \<comment> \<open>the first node on which evictions make enough room\<close>
  "evict_on E needed hs [] lg = (None, lg)"
| "evict_on E needed hs (n # ns) lg =
     (case pick_evictions needed (ro_free n) (filter (\<lambda>(p, h). w_node p = ro_node n) hs) of
        (ps, f) \<Rightarrow>
          (if ps \<noteq> [] \<and> f \<ge> needed then
             (Some n, snd (services E (\<lambda>X xl. ((), fold (evict_pod X) ps xl)) lg))
           else evict_on E needed hs ns lg))"

definition evict_warm_for_capacity :: "penv \<Rightarrow> pcfg \<Rightarrow> string \<Rightarrow> int \<Rightarrow> room list \<Rightarrow> plog \<Rightarrow> room option \<times> plog" where
  "evict_warm_for_capacity E c t needed nodes lg =
     (case see_warm E (Some t) (Some ''ready'') lg of
        (Inl _, lg1) \<Rightarrow> (None, lg1)
      | (Inr pods, lg1) \<Rightarrow>
          (case holders (gpu_resource_name (pc_types c) t) pods of
             Inl _ \<Rightarrow> (None, lg1)
           | Inr hs \<Rightarrow> evict_on E needed hs nodes lg1))"

definition zone_of :: "GNode \<Rightarrow> string" where
  "zone_of n =
     first_of (dget_or (g_labels n) ''topology.kubernetes.io/zone'' [])
       (dget_or (g_labels n) ''failure-domain.beta.kubernetes.io/zone'' [])"

definition placeable :: "GNode \<Rightarrow> bool" where
  \<comment> \<open>ready, schedulable, and with a zone\<close>
  "placeable n \<longleftrightarrow>
     (case g_status n of None \<Rightarrow> False | Some st \<Rightarrow> (''Ready'', ''True'') \<in> set (g_conditions st)) \<and>
     (case g_spec n of None \<Rightarrow> True | Some sp \<Rightarrow> \<not> g_unschedulable sp) \<and> zone_of n \<noteq> []"

fun rooms :: "kapi \<Rightarrow> string \<Rightarrow> GNode list \<Rightarrow> nat \<Rightarrow> room list" where
  \<comment> \<open>what counts as free on every such node, the GPUs of idle warm pods included; a node costs a call when it has GPUs\<close>
  "rooms K resource [] i = []"
| "rooms K resource (n # ns) i =
     (if placeable n then
        (case available_proc K resource n i of
           (a, i1) \<Rightarrow> \<lparr>ro_node = g_name n, ro_az = zone_of n, ro_free = a\<rparr> # rooms K resource ns i1)
      else rooms K resource ns i)"

definition best_fit :: "int \<Rightarrow> room list \<Rightarrow> room option" where
  \<comment> \<open>the fullest node on which the request fits, ties broken by name\<close>
  "best_fit needed rs =
     (case sorted_by (\<lambda>r. (ro_free r, ro_node r)) (filter (\<lambda>r. ro_free r \<ge> needed) rs) of
        [] \<Rightarrow> None
      | r # _ \<Rightarrow> Some r)"

fun roomiest :: "room \<Rightarrow> room list \<Rightarrow> room" where
  \<comment> \<open>\<open>max\<close> with a key: the first of the largest\<close>
  "roomiest r [] = r"
| "roomiest r (s # ss) = roomiest (if ro_free s > ro_free r then s else r) ss"

record target =
  ta_az :: string \<comment> \<open>empty for \<open>None\<close>\<close>
  ta_node :: string

definition get_target_az_for_reservation :: "penv \<Rightarrow> pcfg \<Rightarrow> string \<Rightarrow> string \<Rightarrow> int \<Rightarrow> plog \<Rightarrow> target \<times> plog" where
  \<comment> \<open>the first text is \<open>PRIMARY_AVAILABILITY_ZONE\<close>\<close>
  "get_target_az_for_reservation E c primary t needed lg =
     (case make_client E lg of
        (Inl _, lg1) \<Rightarrow> (\<lparr>ta_az = primary, ta_node = []\<rparr>, lg1)
      | (Inr _, lg1) \<Rightarrow>
          (case k_nodes_r (p_cluster E lg1) 0 (Some (node_label_value (pc_types c) t)) of
             Inl _ \<Rightarrow> (\<lparr>ta_az = primary, ta_node = []\<rparr>, lg1)
           | Inr ns \<Rightarrow>
               (let rs = rooms (p_cluster E lg1) (gpu_resource_name (pc_types c) t) ns 1 in
                case best_fit needed rs of
                  Some r \<Rightarrow> (\<lparr>ta_az = ro_az r, ta_node = ro_node r\<rparr>, lg1)
                | None \<Rightarrow>
                    (case rs of
                       [] \<Rightarrow> (\<lparr>ta_az = [], ta_node = []\<rparr>, lg1)
                     | r # rs1 \<Rightarrow>
                         (case (if t \<in> set (dkeys (pc_warm c))
                                then evict_warm_for_capacity E c t needed (sorted_by (\<lambda>x. - ro_free x) rs) lg1
                                else (None, lg1)) of
                            (Some n, lg2) \<Rightarrow> (\<lparr>ta_az = ro_az n, ta_node = ro_node n\<rparr>, lg2)
                          | (None, lg2) \<Rightarrow> (\<lparr>ta_az = ro_az (roomiest r rs1), ta_node = []\<rparr>, lg2))))))"

end
