(* ===== verification/Gpu_Claim.thy ===== *)
theory Gpu_Claim
  imports Gpu_Warm
begin

section \<open>Claiming a warm pod, and the handler\<close>

text \<open>
  \<open>reservation_processor/index.py\<close>: a request that fits the shape of a warm pod takes one instead of making a pod, and the
  handler, which reads the messages of the queue and hands each to the function for its action. The type of the node on which a
  pod runs is read by a call of the environment. Trace data and the log query are not modelled.
\<close>

subsection \<open>The connection of a reservation\<close>

record connection =
  cn_ssh :: string
  cn_pod :: string
  cn_port :: int
  cn_ip :: string
  cn_private :: string
  cn_pod_ip :: string
  cn_jupyter_port :: int
  cn_jupyter_url :: string
  cn_jupyter :: bool
  cn_volume :: string
  cn_zone :: string
  cn_domain :: string
  cn_keep_entrypoint :: bool

definition jupyter_runs :: "penv \<Rightarrow> string \<Rightarrow> plog \<Rightarrow> (bool \<times> string) \<times> plog" where
  \<comment> \<open>of a pod for which it was requested: whether it runs, and the error; if that cannot be checked it is believed\<close>
  "jupyter_runs E pod lg =
     (case run_script E gpu_ns pod CheckJupyter lg of
        (Inl _, lg1) \<Rightarrow> ((True, []), lg1)
      | (Inr out, lg1) \<Rightarrow>
          (if strip out \<noteq> [] then ((True, []), lg1)
           else case run_script E gpu_ns pod JupyterLog lg1 of
               (Inl _, lg2) \<Rightarrow> ((True, []), lg2)
             | (Inr l, lg2) \<Rightarrow> ((False, ''Jupyter failed to start: '' @ take 200 (strip l)), lg2)))"

definition opt_text :: "string \<Rightarrow> string \<Rightarrow> (string \<times> ddb) list" where
  "opt_text a s = (if s = [] then [] else [(a, DStr s)])"

definition connection_fields :: "pcfg \<Rightarrow> connection \<Rightarrow> string \<Rightarrow> string \<Rightarrow> string \<times> string \<Rightarrow> string \<Rightarrow> bool \<times> string \<Rightarrow> (string \<times> ddb) list" where
  \<comment> \<open>expiry, launch, instance and GPU type, token, and the check of Jupyter\<close>
  "connection_fields c n expires launched inst token jup =
     [(''pod_name'', DStr (cn_pod n)), (''expires_at'', DStr expires), (''launched_at'', DStr launched),
      (''namespace'', DStr gpu_ns), (''instance_type'', DStr (fst inst)), (''gpu_type'', DStr (snd inst)),
      (''jupyter_port'', DNum (of_int (cn_jupyter_port n))),
      (''jupyter_url'', DStr (if token \<noteq> [] \<and> fst jup then cn_jupyter_url n @ ''?token='' @ token else cn_jupyter_url n)),
      (''jupyter_token'', DStr token), (''jupyter_enabled'', DBool (fst jup)), (''status'', DStr ''active'')] @
     (if cn_keep_entrypoint n then []
      else [(''ssh_command'', DStr (cn_ssh n)), (''node_port'', DNum (of_int (cn_port n))), (''node_ip'', DStr (cn_ip n))]) @
     opt_text ''pod_ip'' (cn_pod_ip n) @
     (if cn_volume n = [] then [] else [(''ebs_volume_id'', DStr (cn_volume n)), (''ebs_volume_reserved'', DBool False)]) @
     opt_text ''ebs_availability_zone'' (cn_zone n) @ opt_text ''jupyter_error'' (snd jup) @
     (if cn_domain n = [] then []
      else [(''domain_name'', DStr (cn_domain n)),
            (''fqdn'', DStr (if pc_domain c = [] then cn_domain n else cn_domain n @ ''.'' @ pc_domain c))])"

definition mapping_row :: "connection \<Rightarrow> string \<Rightarrow> string \<Rightarrow> string \<Rightarrow> row" where
  "mapping_row n rid expires now =
     [(''domain_name'', DStr (cn_domain n)), (''target_host'', DStr (first_of (cn_private n) (cn_ip n))),
      (''target_port'', DNum (of_int (cn_port n))), (''reservation_id'', DStr rid), (''pod_name'', DStr (cn_pod n)),
      (''active'', DBool True), (''expires_at'', DStr expires), (''created_at'', DStr now), (''updated_at'', DStr now)]"

definition update_reservation_connection_info :: "penv \<Rightarrow> pcfg \<Rightarrow> string \<Rightarrow> connection \<Rightarrow> plog \<Rightarrow> unit pres \<times> plog" where
  \<comment> \<open>the reservation becomes active, with its full duration from now\<close>
  "update_reservation_connection_info E c rid n lg =
     (case get_item E False rid lg of
        (Inl e, lg1) \<Rightarrow> (Inl (Fault e), lg1)
      | (Inr None, lg1) \<Rightarrow> (Inl (Fault ValueError), lg1)
      | (Inr (Some r), lg1) \<Rightarrow>
          (case expiry_after E (dget_or r ''duration_hours'' (DNum 2)) lg1 of
             None \<Rightarrow> (Inl (Fault OtherError), lg1)
           | Some expires \<Rightarrow>
               (case get_jupyter_token_from_pod E (cn_pod n) lg1 of
                  (token, lg2) \<Rightarrow>
                    (case (if cn_jupyter n then jupyter_runs E (cn_pod n) lg2 else ((False, []), lg2)) of
                       (jup, lg3) \<Rightarrow>
                         (let lg4 = update_fields E rid
                                (connection_fields c n expires (now_iso E lg1) (p_instance E lg1 (cn_pod n)) token jup) lg3
                          in (Inr (), if cn_domain n = [] then lg4
                                      else try_pcall E (PutMapping (mapping_row n rid expires (now_iso E lg1))) lg4))))))"

subsection \<open>The claim\<close>

definition warm_pool_eligible :: "pcfg \<Rightarrow> row \<Rightarrow> bool" where
  "warm_pool_eligible c m \<longleftrightarrow>
     text_at m ''gpu_type'' \<in> set (dkeys (pc_warm c)) \<and>
     \<not> list_ex (\<lambda>a. ddb_true (attr m a)) [''dockerimage'', ''dockerfile'', ''spot'', ''is_multinode'', ''disk_name''] \<and>
     sanitize_pytorch_ref (if ddb_true (attr m ''ref'') then Some (text_at m ''ref'') else None) = ''master''"

definition claimable :: "int \<Rightarrow> wpod \<Rightarrow> bool" where
  "claimable n p \<longleftrightarrow> w_phase p = ''Running'' \<and> dget (w_labels p) ''warm-gpu-count'' = Some (str_int n)"

definition graduate :: "wpod \<Rightarrow> string \<Rightarrow> pcall" where
  \<comment> \<open>the pod leaves the pool: it becomes a pod of a reservation, without the labels of the pool\<close>
  "graduate p user =
     PatchPod (w_name p)
       [(''app'', Some ''gpu-dev-pod''), (''warm-state'', None), (''warm-gpu-type'', None), (''warm-gpu-count'', None)]
       [(''gpu-dev-user-id'', user)]"

definition claim_row :: "penv \<Rightarrow> pcfg \<Rightarrow> row \<Rightarrow> int \<Rightarrow> flt \<Rightarrow> string \<Rightarrow> plog \<Rightarrow> row" where
  "claim_row E c m n h expires lg =
     [(''reservation_id'', attr m ''reservation_id''), (''user_id'', attr m ''user_id''), (''gpu_count'', DNum (of_int n)),
      (''gpu_type'', attr m ''gpu_type''), (''duration_hours'', DNum (p_decimal E h)),
      (''name'', dget_or m ''name'' (DStr (str_int n @ ''x '' @ text_at m ''gpu_type''))),
      (''created_at'', dget_or m ''created_at'' (DStr (now_iso E lg))), (''status'', DStr ''preparing''),
      (''expires_at'', DStr expires), (''github_user'', dget_or m ''github_user'' (DStr [])),
      (''lambda_version'', DStr (pc_version c)), (''source_command'', dget_or m ''source_command'' (DStr ''reserve'')),
      (''warm_claimed'', DBool True)]"

record endpoint =
  en_port :: int
  en_ip :: string
  en_private :: string
  en_pod_ip :: string
  en_domain :: string

definition stored_endpoint :: "wpod \<Rightarrow> endpoint res option" where
  \<comment> \<open>from the annotations of a provisioned pod\<close>
  "stored_endpoint p =
     (let a = (\<lambda>k. dget_or (w_notes p) k []) in
      if a ''warm-node-port'' = [] \<or> a ''warm-domain'' = [] then None
      else Some (bind_res (whole (a ''warm-node-port'')) (\<lambda>port.
        Inr \<lparr>en_port = port, en_ip = a ''warm-node-ip'', en_private = a ''warm-node-private-ip'', en_pod_ip = a ''warm-pod-ip'',
             en_domain = (if a ''warm-domain'' = dash then [] else a ''warm-domain'')\<rparr>)))"

definition live_endpoint :: "penv \<Rightarrow> pcfg \<Rightarrow> wpod \<Rightarrow> row \<Rightarrow> plog \<Rightarrow> endpoint pres \<times> plog" where
  "live_endpoint E c p m lg =
     (let q = p_port E lg (w_name p @ ''-ssh''); lg1 = SawPort (w_name p @ ''-ssh'') q # lg in
      case (case q of
              Inr n \<Rightarrow> (Inr n, lg1)
            | Inl _ \<Rightarrow>
                (case find_available_node_port E lg1 of
                   (n, lg2) \<Rightarrow>
                     (case call E (MakeService (w_name p) ''ssh'' n) lg2 of (Inl e, l) \<Rightarrow> (Inl e, l) | (Inr _, l) \<Rightarrow> (Inr n, l)))) of
        (Inl e, lg3) \<Rightarrow> (Inl e, lg3)
      | (Inr port, lg3) \<Rightarrow>
          (case (p_node_ip E lg3 (w_name p), p_private_ip E lg3 (w_name p), p_pod_ip E lg3 (w_name p),
                 if k_dns (pc_expiry c) then p_unique E lg3 (if text_at m ''name'' = [] then None else Some (text_at m ''name''))
                 else Inr []) of
             (Inr ip, Inr private, Inr pod_ip, Inr domain) \<Rightarrow>
               (Inr \<lparr>en_port = port, en_ip = ip, en_private = private, en_pod_ip = pod_ip, en_domain = domain\<rparr>, lg3)
           | _ \<Rightarrow> (Inl (Fault OtherError), lg3)))"

definition proxy_command :: "string \<Rightarrow> string" where
  "proxy_command full_name =
     ''ssh -o ProxyCommand='' @ [CHR 0x27] @ ''gpu-dev-ssh-proxy %h %p'' @ [CHR 0x27] @
     '' -o StrictHostKeyChecking=no -o UserKnownHostsFile=/dev/null dev@'' @ full_name"

definition bind_domain :: "penv \<Rightarrow> pcfg \<Rightarrow> string \<Rightarrow> flt \<Rightarrow> endpoint \<Rightarrow> plog \<Rightarrow> (string \<times> string) \<times> plog" where
  \<comment> \<open>the domain, empty if it could not be stored, and the SSH command\<close>
  "bind_domain E c rid h n lg =
     (let direct = ([], ''ssh -p '' @ str_int (en_port n) @ '' dev@'' @ en_ip n) in
      if en_domain n = [] then (direct, lg)
      else case call E (StoreMapping (en_domain n) (first_of (en_private n) (en_ip n)) (en_port n) rid
                 (p_now E lg + ftrunc (fmul h 3600))) lg of
          (Inl _, lg1) \<Rightarrow> (direct, lg1)
        | (Inr _, lg1) \<Rightarrow>
            ((en_domain n, proxy_command (if pc_domain c = [] then en_domain n else en_domain n @ ''.'' @ pc_domain c)), lg1))"

definition finish_claim :: "penv \<Rightarrow> pcfg \<Rightarrow> row \<Rightarrow> wpod \<Rightarrow> flt \<Rightarrow> endpoint \<Rightarrow> plog \<Rightarrow> bool \<times> plog" where
  "finish_claim E c m p h n lg =
     (let rid = text_at m ''reservation_id'' in
      case bind_domain E c rid h n lg of
        ((domain, ssh), lg1) \<Rightarrow>
          (case update_reservation_connection_info E c rid
                  \<lparr>cn_ssh = ssh, cn_pod = w_name p, cn_port = en_port n, cn_ip = en_ip n, cn_private = en_private n,
                   cn_pod_ip = en_pod_ip n, cn_jupyter_port = 0, cn_jupyter_url = [], cn_jupyter = False, cn_volume = [],
                   cn_zone = [], cn_domain = domain, cn_keep_entrypoint = False\<rparr> lg1 of
             (Inl _, lg2) \<Rightarrow> (False, lg2)
           | (Inr _, lg2) \<Rightarrow>
               (True, try_pcall E (Trigger ''availability_updater'' [])
                        (if text_at m ''user_id'' = [] then try_pcall E (Trigger ''warm_pool_reconcile'' []) lg2
                         else try_pcall E (Trigger ''mount_efs'' rid) (try_pcall E (Trigger ''warm_pool_reconcile'' []) lg2)))))"

definition claim_pod :: "penv \<Rightarrow> pcfg \<Rightarrow> row \<Rightarrow> int \<Rightarrow> string \<Rightarrow> wpod \<Rightarrow> plog \<Rightarrow> bool \<times> plog" where
  \<comment> \<open>once a pod has been chosen; every error leads to the cold path\<close>
  "claim_pod E c m n keys p lg =
     (case call E (graduate p (text_at m ''user_id'')) lg of
        (Inl _, lg1) \<Rightarrow> (False, lg1)
      | (Inr _, lg1) \<Rightarrow>
          (case run_script E gpu_ns (w_name p) (ClaimPod keys (text_at m ''user_id'') m) lg1 of
             (Inl _, lg2) \<Rightarrow> (False, lg2)
           | (Inr _, lg2) \<Rightarrow>
               (case (float_of (dget_or m ''duration_hours'' (DNum 8)), expiry_after E (dget_or m ''duration_hours'' (DNum 8)) lg2) of
                  (Some h, Some expires) \<Rightarrow>
                    (case call E (PutClaim (claim_row E c m n h expires lg2)) lg2 of
                       (Inl _, lg3) \<Rightarrow> (False, lg3)
                     | (Inr _, lg3) \<Rightarrow>
                         (case stored_endpoint p of
                            Some (Inr en) \<Rightarrow> finish_claim E c m p h en lg3
                          | Some (Inl _) \<Rightarrow> (False, lg3)
                          | None \<Rightarrow>
                              (case live_endpoint E c p m lg3 of
                                 (Inl _, lg4) \<Rightarrow> (False, lg4)
                               | (Inr en, lg4) \<Rightarrow> finish_claim E c m p h en lg4)))
                | _ \<Rightarrow> (False, lg2))))"

definition try_claim_warm_pod :: "penv \<Rightarrow> pcfg \<Rightarrow> row \<Rightarrow> plog \<Rightarrow> bool \<times> plog" where
  "try_claim_warm_pod E c m lg =
     (let t = text_at m ''gpu_type'' in
      case to_int (dget_or m ''gpu_count'' (DNum 0)) of
        Inl _ \<Rightarrow> (False, lg)
      | Inr n \<Rightarrow>
          (if n \<noteq> warm_gpu_count t then (False, lg)
           else case get_github_public_key E (text_at m ''github_user'') True lg of
               (keys, lg1) \<Rightarrow>
                 (if keys = [] then (False, lg1)
                  else case make_client E lg1 of
                      (Inl _, lg2) \<Rightarrow> (False, lg2)
                    | (Inr _, lg2) \<Rightarrow>
                        (case see_warm E (Some t) (Some ''ready'') lg2 of
                           (Inl _, lg3) \<Rightarrow> (False, lg3)
                         | (Inr ps, lg3) \<Rightarrow>
                             (case List.find (claimable n) ps of
                                None \<Rightarrow> (False, lg3)
                              | Some p \<Rightarrow> claim_pod E c m n keys p lg3)))))"

datatype direct = NotClaimed string | Claimed row

definition cli_version_ok :: "pcfg \<Rightarrow> row \<Rightarrow> unit res" where
  "cli_version_ok c m =
     validate_cli_version (pc_min_cli c) (if ddb_true (attr m ''version'') then Some (text_at m ''version'') else None)"

definition outdated_text :: "pcfg \<Rightarrow> row \<Rightarrow> string" where
  "outdated_text c m =
     (if \<not> ddb_true (attr m ''version'') then
        ''Your gpu-dev CLI is outdated and no longer supported. Please upgrade by running: pip install --upgrade gpu-dev''
      else ''Your gpu-dev CLI version '' @ text_at m ''version'' @ '' is outdated. Minimum required version is '' @ pc_min_cli c @
        ''. Please upgrade by running: pip install --upgrade gpu-dev'')"

definition handle_direct_claim :: "penv \<Rightarrow> pcfg \<Rightarrow> row option \<Rightarrow> plog \<Rightarrow> direct \<times> plog" where
  \<comment> \<open>the row that is read back, empty if that fails\<close>
  "handle_direct_claim E c body lg =
     (case body of
        None \<Rightarrow> (NotClaimed ''bad_json'', lg)
      | Some m \<Rightarrow>
          (if \<not> warm_pool_eligible c m then (NotClaimed ''ineligible'', lg)
           else if cli_version_ok c m \<noteq> Inr () then (NotClaimed (outdated_text c m), lg)
           else case try_claim_warm_pod E c m lg of
               (False, lg1) \<Rightarrow> (NotClaimed ''no_warm_pod'', lg1)
             | (True, lg1) \<Rightarrow>
                 (case get_item E False (text_at m ''reservation_id'') lg1 of
                    (Inr (Some r), lg2) \<Rightarrow> (Claimed r, lg2)
                  | (_, lg2) \<Rightarrow> (Claimed [], lg2))))"

subsection \<open>The handler\<close>

definition for_action :: "penv \<Rightarrow> pcfg \<Rightarrow> row \<Rightarrow> plog \<Rightarrow> bool pres \<times> plog" where
  \<comment> \<open>the function for a message that has passed the version check\<close>
  "for_action E c m lg =
     (let total_of = (\<lambda>(b, l). (Inr b, l)); action = text_at m ''action''; kind = text_or m ''type'' ''reservation'' in
      if kind = ''cancellation'' then total_of (process_cancellation_request E c (Some m) lg)
      else if action \<in> {''enable_jupyter'', ''disable_jupyter''} then total_of (process_jupyter_action E c (Some m) lg)
      else if action = ''add_user'' then total_of (process_add_user_action E (Some m) lg)
      else if action = ''extend_reservation'' then total_of (process_extend_reservation_action E (Some m) lg)
      else if action = ''clear_disk_lock'' then process_clear_disk_lock_action E (Some m) lg
      else if action = ''delete_disk'' then total_of (process_delete_disk_action E (Some m) lg)
      else if action = ''create_disk'' then total_of (process_create_disk_action E (Some m) lg)
      else if action = ''clone_disk'' then process_clone_disk_action E (Some m) lg
      else if action = ''process_multinode_individual'' then
        total_of (process_multinode_individual_node E c (text_at m ''reservation_id'') (whole_num (attr m ''node_index''))
          (whole_num (attr m ''total_nodes'')) (attr m ''multinode_peer_pods'') lg)
      else
        (case (if kind = ''reservation'' \<and> action = [] \<and> warm_pool_eligible c m then try_claim_warm_pod E c m lg else (False, lg)) of
           (True, lg1) \<Rightarrow> (Inr True, lg1)
         | (False, lg1) \<Rightarrow> process_reservation_request E c (Some m) lg1))"

definition reject_version :: "penv \<Rightarrow> pcfg \<Rightarrow> row \<Rightarrow> plog \<Rightarrow> plog" where
  "reject_version E c m lg =
     (let lg1 = write_operation_result E (text_at m ''operation_id'') ''failed'' (outdated_text c m) lg;
          rid = text_at m ''reservation_id'' in
      if rid = [] then lg1 else update_status E rid ''failed'' ''CLI version validation failed'' (outdated_text c m) lg1)"

definition handle_message :: "penv \<Rightarrow> pcfg \<Rightarrow> sqs \<Rightarrow> plog \<Rightarrow> plog" where
  \<comment> \<open>an error is logged; the message is deleted on success\<close>
  "handle_message E c s lg =
     (if sq_source s \<noteq> ''aws:sqs'' then lg
      else case sq_body s of
          None \<Rightarrow> lg
        | Some m \<Rightarrow>
            (if text_or m ''type'' ''reservation'' = ''reservation'' \<and> text_at m ''action'' = [] \<and> cli_version_ok c m \<noteq> Inr () then
               delete_sqs_message E s (reject_version E c m lg)
             else case for_action E c m lg of
                 (Inr True, lg1) \<Rightarrow> delete_sqs_message E s lg1
               | (_, lg1) \<Rightarrow> lg1))"

datatype trigger = WarmTick | QueueTick | Messages "sqs list"

definition processor_handler :: "penv \<Rightarrow> pcfg \<Rightarrow> trigger \<Rightarrow> plog \<Rightarrow> unit res \<times> plog" where
  \<comment> \<open>\<open>Inl\<close>: the exception that leaves the handler\<close>
  "processor_handler E c ev lg =
     (case ev of
        WarmTick \<Rightarrow> (case reconcile_warm_pool E c lg of (Inl e, lg1) \<Rightarrow> (Inl e, lg1) | (Inr _, lg1) \<Rightarrow> (Inr (), lg1))
      | QueueTick \<Rightarrow> (case process_scheduled_queue_management E c lg of (Inl e, lg1) \<Rightarrow> (Inl e, lg1) | (Inr _, lg1) \<Rightarrow> (Inr (), lg1))
      | Messages ms \<Rightarrow> (Inr (), fold (handle_message E c) ms lg))"

end
