(* ===== verification/Gpu_Processor_Policy.thy ===== *)
theory Gpu_Processor_Policy
  imports Gpu_Claim
begin

section \<open>When the reservation processor may change something\<close>

text \<open>
  For every call that changes something: which events of the log must come before it. Calls of the processor itself
  (\<open>Own\<close>) and those it makes through the shared functions (\<open>Shared\<close>) are under one policy, an instance of
  \<open>call_policy\<close>. An allocation has one of two justifications, for a request or for the queue.
\<close>

datatype change = Own pcall | Shared effect

fun change_of :: "pevent \<Rightarrow> change option" where
  "change_of (Called c y) = Some (Own c)"
| "change_of (Svc x) = map_option Shared (did x)"
| "change_of _ = None"

datatype route = ByRequest "row list" | ByQueue \<comment> \<open>the messages of the run\<close>

definition found :: "string \<Rightarrow> string \<Rightarrow> row \<Rightarrow> pevent set \<Rightarrow> bool" where
  \<comment> \<open>the search for a reservation of the user by a prefix yields the row\<close>
  "found rid user r K \<longleftrightarrow>
     (is_uuid rid \<and> SawItem rid False (Inr (Some r)) \<in> K \<and> (user \<noteq> [] \<longrightarrow> attr r ''user_id'' = DStr user)) \<or>
     SawMatches user rid (Inr [r]) \<in> K"

definition seen_room :: "string \<Rightarrow> rat \<Rightarrow> pevent set \<Rightarrow> bool" where
  \<comment> \<open>enough GPUs were free, and on one node\<close>
  "seen_room t q K \<longleftrightarrow>
     (\<exists>free. SawFree t (Inr free) \<in> K \<and> q \<le> of_int free) \<and> (\<exists>largest. SawLargest t largest \<in> K \<and> q \<le> of_int largest)"

definition accepted :: "string \<Rightarrow> pevent set \<Rightarrow> bool" where
  \<comment> \<open>the conditional put of the reservation succeeded\<close>
  "accepted rid K \<longleftrightarrow>
     (\<exists>r. Called (PutRow r) (Inr ()) \<in> K \<and> attr r ''reservation_id'' = DStr rid \<and> attr r ''status'' = DStr ''preparing'')"

definition still_queued :: "string \<Rightarrow> pevent set \<Rightarrow> bool" where
  "still_queued rid K \<longleftrightarrow>
     (\<exists>cur. SawItem rid False (Inr cur) \<in> K \<and> text_or (case cur of None \<Rightarrow> [] | Some x \<Rightarrow> x) ''status'' ''queued'' = ''queued'')"

definition counted :: "string \<Rightarrow> pevent set \<Rightarrow> bool" where
  \<comment> \<open>with the lock of a master reservation, the row was one of its pending rows, and there were GPUs for as many nodes
    as there are rows, at the count of the first\<close>
  "counted rid K \<longleftrightarrow>
     (\<exists>master r now nodes a q. Called (PutLock r now) (Inr ()) \<in> K \<and> text_at r ''reservation_id'' = lock_id master \<and>
        SawNodes (PendingOf master) (Inr nodes) \<in> K \<and> rid \<in> (\<lambda>x. text_at x ''reservation_id'') ` set nodes \<and>
        SawFree (text_or (hd nodes) ''gpu_type'' ''a100'') (Inr a) \<in> K \<and>
        gpus_needed (hd nodes) (int (length nodes)) = Some q \<and> q \<le> of_int a)"

definition named :: "row list \<Rightarrow> string \<Rightarrow> bool" where
  \<comment> \<open>a message asks for this node of a multinode reservation\<close>
  "named ms rid \<longleftrightarrow>
     (\<exists>x. x \<in> set ms \<and> text_at x ''action'' = ''process_multinode_individual'' \<and> text_at x ''reservation_id'' = rid)"

definition node_ok :: "row list \<Rightarrow> row \<Rightarrow> pevent set \<Rightarrow> bool" where
  \<comment> \<open>the row of a node that the coordinator has counted, or that a message names\<close>
  "node_ok ms m K \<longleftrightarrow>
     (\<exists>rid row peers. SawItem rid False (Inr (Some row)) \<in> K \<and> m = with_peers peers row \<and> (counted rid K \<or> named ms rid))"

fun allocate_ok :: "route \<Rightarrow> string \<Rightarrow> row \<Rightarrow> pevent set \<Rightarrow> bool" where
  "allocate_ok (ByRequest ms) rid m K =
     (accepted rid K \<and> (seen_room (text_or m ''gpu_type'' ''a100'') (requested m) K \<or> node_ok ms m K))"
| "allocate_ok ByQueue rid m K =
     (still_queued rid K \<and>
      (\<exists>n. to_int (dget_or m ''gpu_count'' (DNum 1)) = Inr n \<and> seen_room (text_or m ''gpu_type'' ''h100'') (of_int n) K))"

definition cancelled_row :: "string \<Rightarrow> row \<Rightarrow> pevent set \<Rightarrow> bool" where
  \<comment> \<open>a reservation found for the user, which could be cancelled, and whose cancellation the table was asked to write\<close>
  "cancelled_row user r K \<longleftrightarrow>
     (\<exists>rid. found rid user r K) \<and> user \<noteq> [] \<and> attr r ''status'' \<in> set (map DStr cancellable) \<and>
     (text_at r ''reservation_id'' \<noteq> [] \<longrightarrow>
        (\<exists>ch y. Called (EditRow (text_at r ''reservation_id'') ch []) y \<in> K \<and> dget ch ''status'' = Some (DStr ''cancelled'')))"

definition warm_listed :: "string \<Rightarrow> (wpod \<Rightarrow> bool) \<Rightarrow> pevent set \<Rightarrow> bool" where
  "warm_listed p Q K \<longleftrightarrow> (\<exists>t s ps w. SawWarm t s (Inr ps) \<in> K \<and> w \<in> set ps \<and> w_name w = p \<and> Q w)"

definition claimed :: "string \<Rightarrow> pevent set \<Rightarrow> bool" where
  \<comment> \<open>a running pod of the pool was taken out of it, and the reservation written\<close>
  "claimed rid K \<longleftrightarrow>
     (\<exists>p user. Called (graduate p user) (Inr ()) \<in> K \<and> warm_listed (w_name p) (\<lambda>w. w_phase w = ''Running'') K) \<and>
     (\<exists>r. Called (PutClaim r) (Inr ()) \<in> K \<and> text_at r ''reservation_id'' = rid)"

definition edit_ok :: "penv \<Rightarrow> string \<Rightarrow> (string \<times> ddb) list \<Rightarrow> pevent set \<Rightarrow> bool" where
  "edit_ok E rid ch K \<longleftrightarrow>
     (case dget ch ''status'' of
        Some v \<Rightarrow>
          (v = DStr ''cancelled'' \<longrightarrow>
             (\<exists>prefix user r. found prefix user r K \<and> user \<noteq> [] \<and> text_at r ''reservation_id'' = rid \<and>
                attr r ''status'' \<in> set (map DStr cancellable))) \<and>
          (v = DStr ''active'' \<longrightarrow> claimed rid K)
      | None \<Rightarrow>
          (case dget ch ''expires_at'' of
             None \<Rightarrow> True
           | Some v \<Rightarrow>
               \<exists>prefix user r hours d. found prefix user r K \<and> text_at r ''reservation_id'' = rid \<and>
                 attr r ''status'' \<in> {DStr ''active'', DStr ''preparing''} \<and> new_expiry E r hours = Inr (Inr d) \<and>
                 v = DStr (p_iso E d)))"

definition frees :: "(string \<times> field) list \<Rightarrow> bool" where
  "frees ch \<longleftrightarrow> dget ch ''in_use'' = Some (Now (DBool False))"

definition free_ok :: "string \<Rightarrow> string \<Rightarrow> pevent set \<Rightarrow> bool" where
  \<comment> \<open>no live reservation of the user was found with the disk, or a cancelled reservation names it\<close>
  "free_ok u d K \<longleftrightarrow>
     SawLocks u d (Inr []) \<in> K \<or>
     (\<exists>user r. cancelled_row user r K \<and> text_at r ''disk_name'' = d \<and> (u = user \<or> u = text_at r ''user_id''))"

definition detach_ok :: "string \<Rightarrow> pevent set \<Rightarrow> bool" where
  "detach_ok v K \<longleftrightarrow>
     (\<exists>user r. cancelled_row user r K \<and> attr r ''status'' = DStr ''active'' \<and> text_at r ''ebs_volume_id'' = v \<and>
        SawVolumeState v (Inr ''in-use'') \<in> K) \<or>
     (\<exists>u d vs. SawLocks u d (Inr []) \<in> K \<and> SawVolumes u d True (Inr vs) \<in> K \<and> v \<in> set vs)"

definition drop_pod_ok :: "string \<Rightarrow> pevent set \<Rightarrow> bool" where
  "drop_pod_ok p K \<longleftrightarrow>
     (\<exists>user r. cancelled_row user r K \<and> attr r ''status'' = DStr ''active'' \<and> text_at r ''pod_name'' = p) \<or>
     warm_listed p (\<lambda>w. warm_state w \<noteq> ''claimed'') K"

definition make_snapshot_ok :: "string \<Rightarrow> pevent set \<Rightarrow> bool" where
  "make_snapshot_ok v K \<longleftrightarrow>
     Svc (SawSnapshots (PendingFor v) (Inr [])) \<in> K \<or> (\<exists>u d vs. SawVolumes u d False (Inr vs) \<in> K \<and> v \<in> set vs)"

fun change_ok :: "route \<Rightarrow> penv \<Rightarrow> change \<Rightarrow> pevent set \<Rightarrow> bool" where
  "change_ok w E (Own (Allocate rid m)) K = allocate_ok w rid m K"
| "change_ok w E (Own (EditRow rid ch rm)) K = edit_ok E rid ch K"
| "change_ok w E (Own (EditDisk u d ch rm)) K = (frees ch \<longrightarrow> free_ok u d K)"
| "change_ok w E (Own (DetachVolume v)) K = detach_ok v K"
| "change_ok w E (Own (SetDesired a n)) K = (n = 1 \<and> (\<exists>g. SawGroup a (Inr (Some g)) \<in> K \<and> sg_desired g \<le> 0))"
| "change_ok w E (Own (PatchPod p ls ns)) K = (ls \<noteq> [] \<longrightarrow> warm_listed p (\<lambda>x. w_phase x = ''Running'') K)"
| "change_ok w E (Own (PutClaim r)) K =
     (\<exists>p user. Called (graduate p user) (Inr ()) \<in> K \<and> warm_listed (w_name p) (\<lambda>x. w_phase x = ''Running'') K)"
| "change_ok w E (Shared (DropPod ns p g)) K = drop_pod_ok p K"
| "change_ok w E (Shared (MakeSnapshot v t ts)) K = make_snapshot_ok v K"
| "change_ok w E f K = True"

subsection \<open>More events do not undo a justification\<close>

named_theorems more \<open>facts about known events that more events do not change\<close>

lemmas more_rules = ex_mono conj_mono disj_mono imp_mono in_mono imp_refl

lemma found_mono [more]: "K \<subseteq> L \<Longrightarrow> found rid u r K \<longrightarrow> found rid u r L"
  unfolding found_def by (intro more_rules)

lemma seen_room_mono [more]: "K \<subseteq> L \<Longrightarrow> seen_room t q K \<longrightarrow> seen_room t q L"
  unfolding seen_room_def by (intro more_rules)

lemma accepted_mono [more]: "K \<subseteq> L \<Longrightarrow> accepted rid K \<longrightarrow> accepted rid L"
  unfolding accepted_def by (intro more_rules)

lemma still_queued_mono [more]: "K \<subseteq> L \<Longrightarrow> still_queued rid K \<longrightarrow> still_queued rid L"
  unfolding still_queued_def by (intro more_rules)

lemma counted_mono [more]: "K \<subseteq> L \<Longrightarrow> counted rid K \<longrightarrow> counted rid L"
  unfolding counted_def by (intro more_rules)

lemma node_ok_mono [more]: "K \<subseteq> L \<Longrightarrow> node_ok ms m K \<longrightarrow> node_ok ms m L"
  unfolding node_ok_def by (intro more_rules more)

lemma allocate_ok_mono [more]: "K \<subseteq> L \<Longrightarrow> allocate_ok w rid m K \<longrightarrow> allocate_ok w rid m L"
  by (cases w; simp only: allocate_ok.simps; intro more_rules more)

lemma cancelled_row_mono [more]: "K \<subseteq> L \<Longrightarrow> cancelled_row u r K \<longrightarrow> cancelled_row u r L"
  unfolding cancelled_row_def by (intro more_rules more)

lemma warm_listed_mono [more]: "K \<subseteq> L \<Longrightarrow> warm_listed p Q K \<longrightarrow> warm_listed p Q L"
  unfolding warm_listed_def by (intro more_rules)

lemma claimed_mono [more]: "K \<subseteq> L \<Longrightarrow> claimed rid K \<longrightarrow> claimed rid L"
  unfolding claimed_def by (intro more_rules more)

lemma edit_ok_mono [more]: "K \<subseteq> L \<Longrightarrow> edit_ok E rid ch K \<longrightarrow> edit_ok E rid ch L"
  unfolding edit_ok_def
  by (cases "dget ch ''status''"; cases "dget ch ''expires_at''"; simp only: option.case; intro more_rules more)

lemma free_ok_mono [more]: "K \<subseteq> L \<Longrightarrow> free_ok u d K \<longrightarrow> free_ok u d L"
  unfolding free_ok_def by (intro more_rules more)

lemma detach_ok_mono [more]: "K \<subseteq> L \<Longrightarrow> detach_ok v K \<longrightarrow> detach_ok v L"
  unfolding detach_ok_def by (intro more_rules more)

lemma drop_pod_ok_mono [more]: "K \<subseteq> L \<Longrightarrow> drop_pod_ok p K \<longrightarrow> drop_pod_ok p L"
  unfolding drop_pod_ok_def by (intro more_rules more)

lemma make_snapshot_ok_mono [more]: "K \<subseteq> L \<Longrightarrow> make_snapshot_ok v K \<longrightarrow> make_snapshot_ok v L"
  unfolding make_snapshot_ok_def by (intro more_rules)

lemma change_ok_mono: "K \<subseteq> L \<Longrightarrow> change_ok w E f K \<longrightarrow> change_ok w E f L"
proof (cases f)
  case (Own x)
  assume "K \<subseteq> L"
  then show ?thesis unfolding Own by (cases x; simp only: change_ok.simps; intro more_rules more)
next
  case (Shared x)
  assume "K \<subseteq> L"
  then show ?thesis unfolding Shared by (cases x; simp only: change_ok.simps; intro more_rules more)
qed

interpretation pp: call_policy change_of "change_ok w E" for w E
  by unfold_locales (use change_ok_mono in blast)

end
