(* ===== verification/Gpu_Processor_Trace.thy ===== *)
theory Gpu_Processor_Trace
  imports Gpu_Processor_Policy
begin

section \<open>The reservation processor keeps to its policy: requests and the queue\<close>

text \<open>One lemma per operation: from the events known before it, every call it makes is one that the policy allows.\<close>

abbreviation tr :: "route \<Rightarrow> penv \<Rightarrow> pevent set \<Rightarrow> plog \<Rightarrow> bool" where
  "tr w E K lg \<equiv> traced change_of (change_ok w E) K lg"

lemmas tr_see [simp] = pp.see

lemma tr_less: "tr w E L lg \<Longrightarrow> K \<subseteq> L \<Longrightarrow> tr w E K lg"
  by (rule pp.weaken)

lemma tr_eq: "tr w E K (snd p) \<Longrightarrow> p = (a, b) \<Longrightarrow> tr w E K b"
  by simp

lemma tr_forget: "tr w E (insert e K) lg \<Longrightarrow> tr w E K lg"
  by (erule pp.weaken) auto

lemma tr_learn: "tr w E K lg \<Longrightarrow> change_of e = None \<Longrightarrow> tr w E (insert e K) (e # lg)"
  by (rule pp.learn)

lemma tr_call: "tr w E K lg \<Longrightarrow> change_ok w E (Own c) K \<Longrightarrow> tr w E K (snd (call X c lg))"
  by (simp add: call_def pp.call)

lemma tr_call_known:
  "tr w E K lg \<Longrightarrow> change_ok w E (Own c) K \<Longrightarrow> call X c lg = (r, lg1) \<Longrightarrow> tr w E (insert (Called c r) K) lg1"
  by (auto simp: call_def pp.learn_call)

lemma tr_call_eq: "tr w E K lg \<Longrightarrow> call X c lg = (r, lg1) \<Longrightarrow> change_ok w E (Own c) K \<Longrightarrow> tr w E K lg1"
  using tr_call [of w E K lg c X] by simp

lemma tr_try [simp]: "tr w E K lg \<Longrightarrow> change_ok w E (Own c) K \<Longrightarrow> tr w E K (try_pcall X c lg)"
  by (simp add: try_pcall_def tr_call)

subsection \<open>Shared functions\<close>

interpretation sp: call_policy did "\<lambda>f L. change_ok w E (Shared f) (K \<union> Svc ` L)" for w E K
proof unfold_locales
  fix f and A B :: "xevent set"
  assume ok: "change_ok w E (Shared f) (K \<union> Svc ` A)" and "A \<subseteq> B"
  then have "K \<union> Svc ` A \<subseteq> K \<union> Svc ` B" by blast
  from change_ok_mono [OF this] ok show "change_ok w E (Shared f) (K \<union> Svc ` B)" by blast
qed

abbreviation inner :: "route \<Rightarrow> penv \<Rightarrow> pevent set \<Rightarrow> xevent set \<Rightarrow> xlog \<Rightarrow> bool" where
  "inner w E K L lg \<equiv> traced did (\<lambda>f L. change_ok w E (Shared f) (K \<union> Svc ` L)) L lg"

lemmas inner_see [simp] = sp.see

lemma inner_try [simp]: "inner w E K L lg \<Longrightarrow> change_ok w E (Shared f) (K \<union> Svc ` L) \<Longrightarrow> inner w E K L (try_call X f lg)"
  by (simp add: try_call_def do_call_def sp.call)

lemma inner_do: "inner w E K L lg \<Longrightarrow> change_ok w E (Shared f) (K \<union> Svc ` L) \<Longrightarrow> inner w E K L (Did f y # lg)"
  by (simp add: sp.call)

lemma tr_map_Svc:
  assumes "tr w E K lg" "inner w E K L xs"
  shows "tr w E (K \<union> Svc ` L) (map Svc xs @ lg)"
proof -
  have "each_call change_of (\<lambda>f es. change_ok w E f (set es)) (map Svc xs @ lg)"
    if "each_call did (\<lambda>f es. change_ok w E (Shared f) (K \<union> Svc ` set es)) xs" for xs
    using that
  proof (induction xs)
    case (Cons x xs)
    have s: "K \<union> Svc ` set xs \<subseteq> set (map Svc xs @ lg)" using assms(1) by (auto simp: traced_def)
    show ?case
    proof (cases "did x")
      case (Some f)
      then have "change_ok w E (Shared f) (set (map Svc xs @ lg))" using Cons.prems change_ok_mono [OF s] by simp
      then show ?thesis using Cons Some by simp
    qed (use Cons in simp)
  qed (use assms(1) in \<open>simp add: traced_def\<close>)
  then show ?thesis using assms by (auto simp: traced_def)
qed

lemma tr_services:
  assumes "tr w E K lg" "\<And>X. inner w E K {} (snd (f X []))"
  shows "tr w E K (snd (services P f lg))"
  using tr_map_Svc [OF assms(1) assms(2) [of "p_services P lg"]]
  by (simp add: services_def case_prod_beta)

lemma tr_services_eq:
  "tr w E K lg \<Longrightarrow> services P f lg = (r, lg1) \<Longrightarrow> (\<And>X. inner w E K {} (snd (f X []))) \<Longrightarrow> tr w E K lg1"
  using tr_services [of w E K lg f P] by simp

lemma inner_start [simp]: "inner w E K {} []"
  by (rule sp.start)

subsection \<open>The table\<close>

lemma tr_get_item: "tr w E K lg \<Longrightarrow> get_item X b rid lg = (r, lg1) \<Longrightarrow> tr w E (insert (SawItem rid b r) K) lg1"
  by (auto simp: get_item_def Let_def tr_learn)

lemma tr_get [simp]: "tr w E K lg \<Longrightarrow> tr w E K (snd (get_item X b rid lg))"
  by (simp add: get_item_def Let_def)

lemma tr_quiet [simp]:
  "tr w E K lg \<Longrightarrow> tr w E K (snd (see_status X s lg))" "tr w E K lg \<Longrightarrow> tr w E K (snd (see_queue X s t lg))"
  "tr w E K lg \<Longrightarrow> tr w E K (snd (make_client X lg))"
  by (simp_all add: see_status_def see_queue_def make_client_def)

lemma tr_client_eq: "tr w E K lg \<Longrightarrow> make_client X lg = (r, lg1) \<Longrightarrow> tr w E K lg1"
  using tr_quiet(3) [of w E K lg X] by simp

lemma tr_terminated: "tr w E K lg \<Longrightarrow> tr w E K (snd (reservation_is_terminated X rid lg))"
  by (auto simp: reservation_is_terminated_def get_item_def Let_def split: sum.split option.split)

lemma tr_put: "tr w E K lg \<Longrightarrow> put_reservation_record X r lg = (y, lg1) \<Longrightarrow> tr w E (insert (Called (PutRow r) (fst (call X (PutRow r) lg))) K) lg1"
  by (auto simp: put_reservation_record_def call_def pp.learn_call split: prod.splits sum.splits perr.splits)

lemma tr_put_quiet [simp]: "tr w E K lg \<Longrightarrow> tr w E K (snd (put_reservation_record X r lg))"
  using tr_put [of w E K lg X r] by (cases "put_reservation_record X r lg") (auto dest: tr_forget)

lemma edit_ok_touch [simp]: "edit_ok E rid ((''last_updated'', v) # ch) K = edit_ok E rid ch K"
  by (simp add: edit_ok_def dict_simps cong: option.case_cong)

lemma edit_ok_other:
  "dget ch ''status'' = None \<Longrightarrow> dget ch ''expires_at'' = None \<Longrightarrow> edit_ok E rid ch K"
  by (simp add: edit_ok_def)

lemma edit_ok_status:
  "dget ch ''status'' = Some (DStr s) \<Longrightarrow> s \<noteq> ''cancelled'' \<Longrightarrow> s \<noteq> ''active'' \<Longrightarrow> edit_ok E rid ch K"
  by (simp add: edit_ok_def)

lemma tr_update_fields [simp]: "tr w E K lg \<Longrightarrow> edit_ok E rid ch K \<Longrightarrow> tr w E K (update_fields X rid ch lg)"
  by (simp add: update_fields_def)

lemma tr_history [simp]: "tr w E K lg \<Longrightarrow> tr w E K (append_status_history X rid s m lg)"
  by (auto simp: append_status_history_def dest: tr_call_eq split: prod.split sum.split)

lemma tr_update_status [simp]:
  "tr w E K lg \<Longrightarrow> s \<noteq> ''cancelled'' \<Longrightarrow> s \<noteq> ''active'' \<Longrightarrow> tr w E K (update_status X rid s d f lg)"
  by (simp add: update_status_def Let_def edit_ok_status dict_simps)

lemma tr_update_error [simp]:
  "tr w E K lg \<Longrightarrow> f \<noteq> ''status'' \<Longrightarrow> f \<noteq> ''expires_at'' \<Longrightarrow> tr w E K (update_error X rid m f lg)"
  by (simp add: update_error_def edit_ok_other dict_simps)

lemma tr_queue_info [simp]: "tr w E K lg \<Longrightarrow> tr w E K (update_queue_info X rid p m f lg)"
  by (simp add: update_queue_info_def edit_ok_other dict_simps)

lemma tr_operation [simp]: "tr w E K lg \<Longrightarrow> tr w E K (write_operation_result X op s e lg)"
  by (simp add: write_operation_result_def)

lemma tr_delete_message [simp]: "tr w E K lg \<Longrightarrow> tr w E K (delete_sqs_message X m lg)"
  by (simp add: delete_sqs_message_def)

lemma tr_exact:
  assumes "tr w E K lg" "exact_match X rid user lg = (ro, lg1)"
  obtains L where "K \<subseteq> L" "tr w E L lg1" "\<forall>r. ro = Some r \<longrightarrow> found rid user r L"
proof (cases "is_uuid rid")
  case False
  then show thesis using assms that [of K] by (auto simp: exact_match_def)
next
  case True
  obtain y lg2 where g: "get_item X False rid lg = (y, lg2)" by (rule prod.exhaust)
  have t: "tr w E (insert (SawItem rid False y) K) lg2" by (rule tr_get_item [OF assms(1) g])
  have "lg1 = lg2 \<and> (\<forall>r. ro = Some r \<longrightarrow> y = Inr (Some r) \<and> (user \<noteq> [] \<longrightarrow> attr r ''user_id'' = DStr user))"
    using assms(2) True g by (auto simp: exact_match_def split: sum.splits option.splits if_splits)
  then show thesis using that [of "insert (SawItem rid False y) K"] t True by (auto simp: found_def)
qed

lemma tr_find:
  assumes "tr w E K lg" "find_reservation_by_prefix X rid user lg = (y, lg1)"
  obtains L where "K \<subseteq> L" "tr w E L lg1" "\<forall>r. y = Inr r \<longrightarrow> found rid user r L"
proof -
  obtain ro lg2 where e: "exact_match X rid user lg = (ro, lg2)" by (rule prod.exhaust)
  obtain L where L: "K \<subseteq> L" "tr w E L lg2" "\<forall>r. ro = Some r \<longrightarrow> found rid user r L" by (rule tr_exact [OF assms(1) e])
  show thesis
  proof (cases ro)
    case (Some r)
    then show thesis using assms(2) e L that [of L] by (auto simp: find_reservation_by_prefix_def)
  next
    case None
    let ?q = "all_pages (p_matches X lg2 user rid)"
    have t: "tr w E (insert (SawMatches user rid ?q) L) (SawMatches user rid ?q # lg2)" by (rule tr_learn [OF L(2)]) simp
    have "lg1 = SawMatches user rid ?q # lg2 \<and> (\<forall>r. y = Inr r \<longrightarrow> ?q = Inr [r])"
      using assms(2) e None
      by (auto simp: find_reservation_by_prefix_def see_matches_def Let_def split: sum.splits list.splits)
    then show thesis using that [of "insert (SawMatches user rid ?q) L"] t L(1) by (auto simp: found_def)
  qed
qed

subsection \<open>Requests\<close>

lemma tr_availability [simp]: "tr w E K lg \<Longrightarrow> tr w E K (update_gpu_availability_table X c t n lg)"
  by (simp add: update_gpu_availability_table_def Let_def split: sum.split)

lemma tr_free:
  assumes "tr w E K lg" "check_gpu_availability X c t lg = (y, lg1)"
  obtains L where "K \<subseteq> L" "tr w E L lg1" "\<forall>n. y = Inr n \<longrightarrow> SawFree t (Inr n) \<in> L"
proof -
  obtain z lg2 where m: "make_client X lg = (z, lg2)" by (rule prod.exhaust)
  have t2: "tr w E K lg2" using tr_client_eq [OF assms(1) m] .
  have t3: "tr w E (insert (SawFree t (Inr n)) K) (SawFree t (Inr n) # lg2)" for n by (rule tr_learn [OF t2]) simp
  show thesis
  proof (cases y)
    case (Inl e)
    then have "lg1 = lg2" using assms(2) m
      by (auto simp: check_gpu_availability_def Let_def split: sum.splits if_splits prod.splits)
    then show thesis using that [of K] t2 Inl by simp
  next
    case (Inr n)
    then have "lg1 = SawFree t (Inr n) # lg2 \<or> lg1 = update_gpu_availability_table X c t n (SawFree t (Inr n) # lg2)"
      using assms(2) m by (auto simp: check_gpu_availability_def Let_def split: sum.splits if_splits prod.splits)
    then have "tr w E (insert (SawFree t (Inr n)) K) lg1" using t3 tr_availability by auto
    then show thesis using that [of "insert (SawFree t (Inr n)) K"] Inr by auto
  qed
qed

lemma tr_largest:
  assumes "tr w E K lg" "check_max_gpus_on_single_node X c t lg = (n, lg1)"
  shows "tr w E (insert (SawLargest t n) K) lg1"
proof -
  obtain z lg2 where m: "make_client X lg = (z, lg2)" by (rule prod.exhaust)
  have t2: "tr w E K lg2" using tr_client_eq [OF assms(1) m] .
  then show ?thesis using assms(2) m
    by (auto simp: check_max_gpus_on_single_node_def Let_def tr_learn split: sum.splits)
qed

lemma tr_scale_up [simp]: "tr w E K lg \<Longrightarrow> tr w E K (scale_up_spot_asg X c t lg)"
proof -
  assume t: "tr w E K lg"
  let ?e = "SawGroup (asg_name c t) (p_group X lg (asg_name c t))"
  have t1: "tr w E (insert ?e K) (?e # lg)" by (rule tr_learn [OF t]) simp
  have "tr w E (insert ?e K) (try_pcall X (SetDesired (asg_name c t) 1) (?e # lg))"
    if "p_group X lg (asg_name c t) = Inr (Some g)" "\<not> 0 < sg_desired g" for g
    by (rule tr_try [OF t1]) (use that in auto)
  then show ?thesis using t
    by (auto simp: scale_up_spot_asg_def see_group_def dest: tr_forget split: sum.split option.split)
qed

lemma tr_spot_status [simp]: "tr w E K lg \<Longrightarrow> tr w E K (snd (get_spot_provision_status X c t lg))"
  by (auto simp: get_spot_provision_status_def see_group_def make_client_def split: sum.split option.split list.split)

lemma tr_tracker [simp]: "tr w E K lg \<Longrightarrow> tr w E K (snd (tracker_minutes X n a p lg))"
  by (auto simp: tracker_minutes_def make_client_def split: sum.split)

lemma tr_position [simp]: "tr w E K lg \<Longrightarrow> tr w E K (snd (calculate_queue_position_and_wait_time X rid n t lg))"
  by (auto simp: calculate_queue_position_and_wait_time_def see_status_def see_queue_def Let_def tracker_minutes_def
      make_client_def split: sum.split prod.split)

lemma record_has:
  assumes "reservation_record X c rid m lg = Some r"
  shows "attr r ''reservation_id'' = DStr rid" "attr r ''status'' = DStr ''preparing''"
  using assms by (auto simp: reservation_record_def Let_def split: option.splits)

lemma tr_create:
  assumes "tr w E K lg" "create_reservation X c m lg = (y, lg1)"
  obtains L where "K \<subseteq> L" "tr w E L lg1" "\<forall>rid. y = Inr rid \<longrightarrow> accepted rid L"
proof -
  define lg0 where "lg0 = (if dget m ''reservation_id'' = None then MadeId (p_uuid X lg) # lg else lg)"
  have t0: "tr w E K lg0" using assms(1) by (simp add: lg0_def)
  consider "y = Inl (Fault OtherError)" "lg1 = lg0"
    | rid r z lg2 where "reservation_record X c rid m lg0 = Some r" "put_reservation_record X r lg0 = (z, lg2)"
        "lg1 = lg2" "y = (case z of Inl e \<Rightarrow> Inl e | Inr _ \<Rightarrow> Inr rid)"
    using assms(2) unfolding create_reservation_def lg0_def
    by (auto simp: Let_def split: option.splits ddb.splits prod.splits sum.splits)
  then show thesis
  proof cases
    case 1
    then show thesis using t0 that [of K] by simp
  next
    case (2 rid r z lg2)
    have t2: "tr w E (insert (Called (PutRow r) (fst (call X (PutRow r) lg0))) K) lg2" by (rule tr_put [OF t0 2(2)])
    have "fst (call X (PutRow r) lg0) = Inr ()" if "z = Inr u" for u
      using 2(2) that by (auto simp: put_reservation_record_def split: prod.splits sum.splits perr.splits)
    then show thesis using that [OF _ t2 [folded 2(3)]] 2(4) record_has [OF 2(1)]
      by (auto simp: accepted_def split: sum.splits)
  qed
qed

lemma tr_initial [simp]: "tr w E K lg \<Longrightarrow> tr w E K (snd (write_initial_record X m lg))"
  by (auto simp: write_initial_record_def intro: tr_put_quiet [THEN tr_eq]
      split: option.split prod.split sum.split perr.split)

lemma tr_requeue:
  assumes "tr w E K lg" shows "tr w E K (snd (requeue_pending X rid s lg))"
proof -
  obtain y lg1 where y: "reservation_is_terminated X rid lg = (y, lg1)" by (rule prod.exhaust)
  have "tr w E K lg1" using tr_terminated [OF assms, of X rid] y by simp
  then show ?thesis using y by (auto simp: requeue_pending_def split: sum.split)
qed

lemma tr_allocate_now:
  assumes "tr (ByRequest ms) E K lg" "t = text_or m ''gpu_type'' ''a100''" "seen_room t (requested m) K"
  shows "tr (ByRequest ms) E K (snd (allocate_now X c m t free lg))"
proof -
  define lg1 where "lg1 = (if text_at m ''reservation_id'' = [] then lg
    else update_status X (text_at m ''reservation_id'') ''preparing''
      (''Found '' @ str_int free @ '' available '' @ upper t @ '' GPUs - preparing resources'') [] lg)"
  have t1: "tr (ByRequest ms) E K lg1" using assms(1) by (simp add: lg1_def)
  obtain y lg2 where y: "create_reservation X c m lg1 = (y, lg2)" by (rule prod.exhaust)
  obtain L where L: "K \<subseteq> L" "tr (ByRequest ms) E L lg2" "\<forall>rid. y = Inr rid \<longrightarrow> accepted rid L"
    by (rule tr_create [OF t1 y])
  have "tr (ByRequest ms) E L (snd (allocate_now X c m t free lg))"
  proof (cases y)
    case (Inl e)
    then show ?thesis using L(2) unfolding allocate_now_def Let_def lg1_def [symmetric] y by (cases e) simp_all
  next
    case (Inr rid)
    have ok: "change_ok (ByRequest ms) E (Own (Allocate rid m)) L"
      using L(1,3) Inr assms(2,3) seen_room_mono by auto
    obtain z lg3 where z: "call X (Allocate rid m) lg2 = (z, lg3)" by (rule prod.exhaust)
    have t3: "tr (ByRequest ms) E L lg3" by (rule tr_call_eq [OF L(2) z ok])
    have t4: "tr (ByRequest ms) E L (snd (requeue_pending X rid r lg3))" for r by (rule tr_requeue [OF t3])
    show ?thesis using t3 unfolding allocate_now_def Let_def lg1_def [symmetric] y Inr prod.case sum.case z
      by (auto intro: t4 [THEN tr_eq] split: sum.split perr.split prod.split)
  qed
  then show ?thesis using L(1) by (rule tr_less)
qed

lemma tr_queue_request [simp]: "tr w E K lg \<Longrightarrow> tr w E K (queue_request X c m t free largest lg)"
proof -
  assume t: "tr w E K lg"
  obtain q lg1 where q: "calculate_queue_position_and_wait_time X (text_at m ''reservation_id'') \<lfloor>requested m\<rfloor> t lg = (q, lg1)"
    by (rule prod.exhaust)
  have "tr w E K lg1" using tr_position [OF t] q by (metis snd_conv)
  then show ?thesis using t q by (auto simp: queue_request_def Let_def split: option.split)
qed

lemma tr_place:
  assumes "tr (ByRequest ms) E K lg" shows "tr (ByRequest ms) E K (snd (place_request X c m lg))"
proof -
  define t where "t = text_or m ''gpu_type'' ''a100''"
  obtain y lg1 where y: "check_gpu_availability X c t lg = (y, lg1)" by (rule prod.exhaust)
  obtain L where L: "K \<subseteq> L" "tr (ByRequest ms) E L lg1" "\<forall>n. y = Inr n \<longrightarrow> SawFree t (Inr n) \<in> L" by (rule tr_free [OF assms y])
  show ?thesis
  proof (cases y)
    case (Inl e)
    then show ?thesis using tr_less [OF L(2,1)] unfolding place_request_def Let_def t_def [symmetric] y by simp
  next
    case (Inr free)
    obtain largest lg2 where l: "check_max_gpus_on_single_node X c t lg1 = (largest, lg2)" by (rule prod.exhaust)
    let ?M = "insert (SawLargest t largest) L"
    have t2: "tr (ByRequest ms) E ?M lg2" by (rule tr_largest [OF L(2) l])
    define again where "again = (if is_spot_type (pc_spot c) t \<and> startswith t ''cpu-'' then check_gpu_availability X c t lg2 else (Inr 1, lg2))"
    obtain z lg3 where z: "again = (z, lg3)" by (rule prod.exhaust)
    have "\<exists>N. ?M \<subseteq> N \<and> tr (ByRequest ms) E N lg3"
    proof (cases "is_spot_type (pc_spot c) t \<and> startswith t ''cpu-''")
      case True
      then have "check_gpu_availability X c t lg2 = (z, lg3)" using z by (simp add: again_def)
      from tr_free [OF t2 this] show ?thesis by metis
    next
      case False
      then have "lg3 = lg2" using z by (auto simp: again_def)
      then show ?thesis using t2 by blast
    qed
    then obtain N where N: "?M \<subseteq> N" "tr (ByRequest ms) E N lg3" by blast
    have room: "seen_room t (requested m) N" if "requested m \<le> of_int free" "requested m \<le> of_int largest"
      using that L(3) Inr N(1) unfolding seen_room_def by blast
    have "tr (ByRequest ms) E N (snd (allocate_now X c m t free lg3))"
      if "requested m \<le> of_int free" "requested m \<le> of_int largest"
      by (rule tr_allocate_now [OF N(2) t_def room [OF that]])
    then have "tr (ByRequest ms) E N (snd (place_request X c m lg))"
      using N(2) tr_queue_request [OF N(2), of X c m t free largest]
      unfolding place_request_def Let_def t_def [symmetric] y Inr prod.case sum.case l again_def [symmetric] z
      by (cases z; simp only: sum.case snd_conv simp_thms split: if_split) blast
    then show ?thesis by (rule tr_less) (use N(1) L(1) in blast)
  qed
qed

subsection \<open>Multinode reservations\<close>

lemma tr_see_nodes: "tr w E K lg \<Longrightarrow> see_nodes X q lg = (r, lg1) \<Longrightarrow> tr w E (insert (SawNodes q r) K) lg1"
  by (auto simp: see_nodes_def Let_def tr_learn)

lemma tr_see_nodes_quiet: "tr w E K lg \<Longrightarrow> tr w E K (snd (see_nodes X q lg))"
  by (simp add: see_nodes_def Let_def)

lemma tr_pod_status [simp]: "tr w E K lg \<Longrightarrow> tr w E K (update_multinode_pod_status X rid s i n lg)"
  by (simp add: update_multinode_pod_status_def)

lemma tr_mark_node: "s \<noteq> ''cancelled'' \<Longrightarrow> s \<noteq> ''active'' \<Longrightarrow> tr w E K lg \<Longrightarrow> tr w E K (mark_node X s d r lg)"
  by (simp add: mark_node_def)

lemma tr_fail_all [simp]: "tr w E K lg \<Longrightarrow> tr w E K (fail_all_multinode_reservations X m d lg)"
  by (auto simp: fail_all_multinode_reservations_def update_all_multinode_status_def see_nodes_def Let_def
      intro!: pp.fold_log tr_mark_node split: sum.split)

lemma tr_multi_position: "tr w E K lg \<Longrightarrow> tr w E K (snd (calculate_multinode_queue_position_and_wait_time X m n t a lg))"
  by (auto simp: calculate_multinode_queue_position_and_wait_time_def active_wait_def see_nodes_def Let_def
      split: sum.split option.split)

lemma tr_queue_all [simp]:
  assumes "tr w E K lg" shows "tr w E K (queue_all_multinode_reservations X m n t a lg)"
proof -
  obtain sc lg1 where sc: "see_nodes X (NodesOf m) lg = (sc, lg1)" by (rule prod.exhaust)
  have t1: "tr w E K lg1" using tr_see_nodes_quiet [OF assms, of X "NodesOf m"] sc by simp
  obtain q lg2 where q: "calculate_multinode_queue_position_and_wait_time X m n t a lg1 = (q, lg2)" by (rule prod.exhaust)
  have t2: "tr w E K lg2" using tr_multi_position [OF t1, of X m n t a] q by simp
  have "tr w E K (fold (queue_node X q a) rs lg2)" for rs
    by (rule pp.fold_log [OF _ t2]) (simp add: queue_node_def)
  then show ?thesis using t1 by (simp add: queue_all_multinode_reservations_def sc q split: sum.split)
qed

lemma tr_start_node:
  assumes "tr (ByRequest ms) E K lg" "node_ok ms node K"
  shows "tr (ByRequest ms) E K (snd (start_node X c rid i n node lg))"
proof -
  let ?w = "ByRequest ms"
  obtain y lg1 where y: "create_reservation X c node (update_multinode_pod_status X rid ''preparing pod'' i n lg) = (y, lg1)"
    by (rule prod.exhaust)
  obtain L where L: "K \<subseteq> L" "tr ?w E L lg1" "\<forall>rid. y = Inr rid \<longrightarrow> accepted rid L"
    by (rule tr_create [OF tr_pod_status [OF assms(1)] y])
  have "tr ?w E L (snd (start_node X c rid i n node lg))"
  proof (cases y)
    case (Inl e)
    then show ?thesis using L(2) by (simp add: start_node_def y)
  next
    case (Inr cid)
    have ok: "change_ok ?w E (Own (Allocate cid node)) L"
      using L(1,3) Inr node_ok_mono [OF L(1)] assms(2) by simp
    obtain z lg3 where z: "call X (Allocate cid node) (update_multinode_pod_status X rid ''allocating resources'' i n lg1) = (z, lg3)"
      by (rule prod.exhaust)
    have "tr ?w E L lg3" by (rule tr_call_eq [OF tr_pod_status [OF L(2)] z ok])
    then show ?thesis using L(2) by (simp add: start_node_def y Inr z split: sum.split)
  qed
  then show ?thesis using L(1) by (rule tr_less)
qed

lemma tr_individual:
  assumes "tr (ByRequest ms) E K lg" "counted rid K \<or> named ms rid"
  shows "tr (ByRequest ms) E K (snd (process_multinode_individual_node X c rid i n peers lg))"
proof -
  obtain y lg1 where y: "get_item X False rid lg = (y, lg1)" by (rule prod.exhaust)
  let ?L = "insert (SawItem rid False y) K"
  have t1: "tr (ByRequest ms) E ?L lg1" by (rule tr_get_item [OF assms(1) y])
  have "node_ok ms (with_peers peers r) ?L" if "y = Inr (Some r)" for r
    using assms(2) counted_mono [of K ?L rid] that unfolding node_ok_def by blast
  then have "tr (ByRequest ms) E ?L (snd (start_node X c rid i n (with_peers peers r) lg1))" if "y = Inr (Some r)" for r
    using tr_start_node [OF t1] that by blast
  then have "tr (ByRequest ms) E K (snd (start_node X c rid i n (with_peers peers r) lg1))" if "y = Inr (Some r)" for r
    using that tr_forget by blast
  then show ?thesis using assms(1) tr_forget [OF t1]
    by (simp add: process_multinode_individual_node_def y split: sum.split option.split)
qed

lemma tr_run_nodes:
  "tr (ByRequest ms) E K lg \<Longrightarrow> \<forall>r \<in> set rs. counted (text_at r ''reservation_id'') K \<Longrightarrow>
   tr (ByRequest ms) E K (snd (run_nodes X c n peers i rs lg))"
proof (induction rs arbitrary: i lg)
  case (Cons r rs)
  obtain b lg1 where b: "(case to_int (dget_or r ''node_index'' (DNum (of_nat i))) of Inl _ \<Rightarrow> (False, lg)
      | Inr k \<Rightarrow> process_multinode_individual_node X c (text_at r ''reservation_id'') (Some k) (Some n) peers lg) = (b, lg1)"
    by (rule prod.exhaust)
  have "tr (ByRequest ms) E K lg1"
    using b Cons.prems tr_individual [OF Cons.prems(1), of "text_at r ''reservation_id''"] by (auto split: sum.splits) (metis snd_conv)
  then show ?case using Cons by (simp add: b split: prod.split) (metis snd_conv)
qed simp

lemma tr_unlock [simp]: "tr w E K lg \<Longrightarrow> tr w E K (release_multinode_lock X m lg)"
  by (simp add: release_multinode_lock_def)

lemma tr_start_nodes:
  assumes "tr (ByRequest ms) E K lg" "\<forall>r \<in> set nodes. counted (text_at r ''reservation_id'') K"
  shows "tr (ByRequest ms) E K (snd (start_nodes X c m n nodes lg))"
proof (cases "peer_pod_names nodes")
  case (Inr peers)
  obtain bs lg1 where r: "run_nodes X c n (DList (map DStr peers)) 0 nodes lg = (bs, lg1)" by (rule prod.exhaust)
  have "tr (ByRequest ms) E K lg1" using tr_run_nodes [OF assms, of X c n "DList (map DStr peers)" 0] r by simp
  then show ?thesis by (simp add: start_nodes_def Inr r Let_def)
qed (use assms(1) in \<open>simp add: start_nodes_def\<close>)

lemma tr_coordinate_body:
  assumes "tr (ByRequest ms) E K lg" shows "tr (ByRequest ms) E K (snd (coordinate_body X c m n lg))"
proof -
  let ?w = "ByRequest ms" and ?l = "PutLock (lock_row X m lg) (p_now X lg)"
  obtain y lg1 where y: "call X ?l lg = (y, lg1)" by (rule prod.exhaust)
  let ?K1 = "insert (Called ?l y) K"
  have t1: "tr ?w E ?K1 lg1" by (rule tr_call_known [OF assms _ y]) simp
  obtain sc lg2 where sc: "see_nodes X (PendingOf m) lg1 = (sc, lg2)" by (rule prod.exhaust)
  let ?K2 = "insert (SawNodes (PendingOf m) sc) ?K1"
  have t2: "tr ?w E ?K2 lg2" by (rule tr_see_nodes [OF t1 sc])
  have k1: "tr ?w E K lg1" by (rule tr_less [OF t1]) blast
  have k2: "tr ?w E K lg2" by (rule tr_less [OF t2]) blast
  show ?thesis
  proof (cases "\<exists>u first rest q. y = Inr u \<and> sc = Inr (first # rest) \<and> int (length (first # rest)) = n \<and> gpus_needed first n = Some q")
    case False
    then show ?thesis using k1 k2
      by (auto simp: coordinate_body_def acquire_multinode_lock_def y sc split: sum.split list.split option.split)
  next
    case True
    then obtain u first rest q where n: "y = Inr u" "sc = Inr (first # rest)" "int (length (first # rest)) = n"
      "gpus_needed first n = Some q" by blast
    let ?t = "text_or first ''gpu_type'' ''a100''"
    obtain av lg3 where av: "check_gpu_availability X c ?t lg2 = (av, lg3)" by (rule prod.exhaust)
    obtain L where L: "?K2 \<subseteq> L" "tr ?w E L lg3" "\<forall>a. av = Inr a \<longrightarrow> SawFree ?t (Inr a) \<in> L" by (rule tr_free [OF t2 av])
    have k3: "tr ?w E K lg3" by (rule tr_less [OF L(2)]) (use L(1) in blast)
    have "counted (text_at r ''reservation_id'') L" if "r \<in> set (first # rest)" "av = Inr a" "q \<le> of_int a" for r a
      unfolding counted_def
      by (rule exI [of _ m], rule exI [of _ "lock_row X m lg"], rule exI [of _ "p_now X lg"], rule exI [of _ "first # rest"])
        (use that L n in \<open>auto simp: lock_row_def text_at_def attr_def dget_or_def dict_simps\<close>)
    then have "tr ?w E L (snd (start_nodes X c m n (first # rest) (release_multinode_lock X m lg3)))" if "av = Inr a" "q \<le> of_int a" for a
      using tr_start_nodes [OF tr_unlock [OF L(2)], of "first # rest"] that by blast
    then have "tr ?w E K (snd (start_nodes X c m n (first # rest) (release_multinode_lock X m lg3)))" if "av = Inr a" "q \<le> of_int a" for a
      using that tr_less [of ?w E L _ K] L(1) by blast
    then show ?thesis using k3 n
      by (simp add: coordinate_body_def acquire_multinode_lock_def y sc av split: sum.split)
  qed
qed

lemma tr_coordinate: "tr (ByRequest ms) E K lg \<Longrightarrow> tr (ByRequest ms) E K (snd (coordinate_multinode_reservation X c m n lg))"
proof -
  assume t: "tr (ByRequest ms) E K lg"
  obtain y lg1 where y: "coordinate_body X c m n lg = (y, lg1)" by (rule prod.exhaust)
  have "tr (ByRequest ms) E K lg1" using tr_coordinate_body [OF t, of X c m n] y by simp
  then show ?thesis by (simp add: coordinate_multinode_reservation_def y split: sum.split)
qed

lemma tr_multinode:
  assumes "tr (ByRequest ms) E K lg" shows "tr (ByRequest ms) E K (snd (process_multinode_reservation_request X c m lg))"
proof (cases "num_of (dget_or m ''node_index'' (DNum 0))")
  case (Some ix)
  let ?m = "text_at m ''master_reservation_id''" and ?n = "whole_num (dget_or m ''total_nodes'' (DNum 1))"
  have t1: "tr (ByRequest ms) E K (put_node X c m ix lg)"
    using assms by (simp add: put_node_def split: option.split)
  obtain b lg1 where b: "check_all_multinode_nodes_ready X ?m ?n (put_node X c m ix lg) = (b, lg1)" by (rule prod.exhaust)
  have "tr (ByRequest ms) E K lg1"
    using t1 b by (auto simp: check_all_multinode_nodes_ready_def see_nodes_def Let_def split: sum.splits)
  then show ?thesis using Some b by (simp add: process_multinode_reservation_request_def Let_def tr_coordinate split: option.split)
qed (use assms in \<open>simp add: process_multinode_reservation_request_def Let_def\<close>)

subsection \<open>The request\<close>

lemma tr_validate: "tr (ByRequest ms) E K lg \<Longrightarrow> tr (ByRequest ms) E K (snd (validate_and_place X c m lg))"
  by (simp add: validate_and_place_def tr_place split: sum.split option.split)

lemma tr_body:
  assumes "tr (ByRequest ms) E K lg" shows "tr (ByRequest ms) E K (snd (request_body X c m lg))"
proof -
  define chk where "chk = (if text_at m ''reservation_id'' = [] then (Inr False, lg) else reservation_is_terminated X (text_at m ''reservation_id'') lg)"
  obtain y lg1 where y: "chk = (y, lg1)" by (rule prod.exhaust)
  have t1: "tr (ByRequest ms) E K lg1"
    using tr_terminated [OF assms, of X "text_at m ''reservation_id''"] assms y by (auto simp: chk_def split: if_splits)
  obtain b lg2 where b: "write_initial_record X m lg1 = (b, lg2)" by (rule prod.exhaust)
  have t2: "tr (ByRequest ms) E K lg2" using tr_initial [OF t1, of X m] b by simp
  obtain v lg3 where v: "process_multinode_reservation_request X c m lg1 = (v, lg3)" by (rule prod.exhaust)
  have "tr (ByRequest ms) E K lg3" using tr_multinode [OF t1, of X c m] v by simp
  then show ?thesis using y b v t1 t2 tr_validate [OF t2]
    by (auto simp: request_body_def chk_def [symmetric] split: sum.split bool.split)
qed

lemma tr_request:
  assumes "tr (ByRequest ms) E K lg" shows "tr (ByRequest ms) E K (snd (process_reservation_request X c body lg))"
proof (cases body)
  case (Some m)
  obtain y lg1 where y: "request_body X c m lg = (y, lg1)" by (rule prod.exhaust)
  have "tr (ByRequest ms) E K lg1" using tr_body [OF assms, of X c m] y by simp
  then show ?thesis using Some y by (cases y) (simp_all add: process_reservation_request_def)
qed (use assms in \<open>simp add: process_reservation_request_def\<close>)

subsection \<open>The queue\<close>

lemma tr_cpu_ready: "tr w E K lg \<Longrightarrow> tr w E K (snd (cpu_spot_ready X c t n lg))"
  by (simp add: cpu_spot_ready_def Let_def)

lemma tr_allocate_queued:
  assumes "tr ByQueue E K lg" "allocate_ok ByQueue rid r K"
  shows "tr ByQueue E K (snd (allocate_queued X r rid t free lg))"
proof -
  define lg1 where "lg1 = update_status X rid ''preparing''
    (''Found '' @ str_int free @ '' available '' @ upper t @ '' GPUs - preparing environment'') [] lg"
  have t1: "tr ByQueue E K lg1" using assms(1) by (simp add: lg1_def)
  obtain z lg2 where z: "call X (Allocate rid r) lg1 = (z, lg2)" by (rule prod.exhaust)
  have t2: "tr ByQueue E K lg2" by (rule tr_call_eq [OF t1 z]) (use assms(2) in simp)
  have t3: "tr ByQueue E K (snd (requeue_pending X rid s lg2))" for s by (rule tr_requeue [OF t2])
  show ?thesis using t2 unfolding allocate_queued_def Let_def lg1_def [symmetric] z
    by (auto intro: t3 [THEN tr_eq] split: sum.split perr.split prod.split)
qed

lemma tr_queued_wait: "tr w E K lg \<Longrightarrow> tr w E K (snd (queued_wait X c r active t n free i spot lg))"
  by (auto simp: queued_wait_def intro: tr_spot_status [OF tr_scale_up, THEN tr_eq] split: prod.split)

lemma tr_keep_queued:
  assumes "tr w E K lg" shows "tr w E K (snd (keep_queued X c r active rid t n free i st lg))"
proof -
  obtain wait spot lg1 where q: "queued_wait X c r active t n free i (qs_spot st) lg = ((wait, spot), lg1)"
    by (metis prod.exhaust)
  have "tr w E K lg1" using tr_queued_wait [OF assms] q by (metis snd_conv)
  then show ?thesis using q by (auto simp: keep_queued_def Let_def split: option.split)
qed

lemma tr_queue_row:
  assumes "tr ByQueue E K lg" shows "tr ByQueue E K (snd (queue_row X c active i r st lg))"
proof (cases "\<exists>rid n. dget r ''reservation_id'' = Some (DStr rid) \<and> to_int (dget_or r ''gpu_count'' (DNum 1)) = Inr n")
  case False
  then show ?thesis using assms by (auto simp: queue_row_def split: option.split ddb.split sum.split)
next
  case True
  then obtain rid n where rn: "dget r ''reservation_id'' = Some (DStr rid)" "to_int (dget_or r ''gpu_count'' (DNum 1)) = Inr n" by blast
  define t where "t = text_or r ''gpu_type'' ''h100''"
  obtain y lg1 where y: "check_gpu_availability X c t lg = (y, lg1)" by (rule prod.exhaust)
  obtain L where L: "K \<subseteq> L" "tr ByQueue E L lg1" "\<forall>n. y = Inr n \<longrightarrow> SawFree t (Inr n) \<in> L" by (rule tr_free [OF assms y])
  show ?thesis
  proof (cases y)
    case (Inl e)
    then show ?thesis using tr_less [OF L(2,1)] unfolding queue_row_def Let_def t_def [symmetric] y rn by simp
  next
    case (Inr free)
    obtain largest lg2 where l: "check_max_gpus_on_single_node X c t lg1 = (largest, lg2)" by (rule prod.exhaust)
    let ?M = "insert (SawLargest t largest) L"
    have t2: "tr ByQueue E ?M lg2" by (rule tr_largest [OF L(2) l])
    obtain ready lg3 where d: "cpu_spot_ready X c t n lg2 = (ready, lg3)" by (rule prod.exhaust)
    have t3: "tr ByQueue E ?M lg3" using tr_cpu_ready [OF t2, of X c t n] d by simp
    obtain cur lg4 where g: "get_item X False rid lg3 = (cur, lg4)" by (rule prod.exhaust)
    let ?N = "insert (SawItem rid False cur) ?M"
    have t4: "tr ByQueue E ?N lg4" by (rule tr_get_item [OF t3 g])
    have room: "seen_room t (of_int n) ?N" if "n \<le> free" "n \<le> largest"
      using that L(3) Inr unfolding seen_room_def by auto
    have alloc: "tr ByQueue E ?N (snd (allocate_queued X r rid t free lg4))"
      if "n \<le> free" "n \<le> largest" "cur = Inr x" "text_or (case x of None \<Rightarrow> [] | Some x \<Rightarrow> x) ''status'' ''queued'' = ''queued''" for x
      by (rule tr_allocate_queued [OF t4]) (use room [OF that(1,2)] rn(2) that(3,4) in \<open>auto simp: still_queued_def t_def [symmetric]\<close>)
    have "tr ByQueue E ?M (snd (queue_row X c active i r st lg))"
    proof (cases "n \<le> free \<and> n \<le> largest \<and> ready")
      case False
      then show ?thesis using tr_keep_queued [OF t3]
        unfolding queue_row_def Let_def t_def [symmetric] y rn Inr l d option.case ddb.case prod.case sum.case by auto
    next
      case True
      show ?thesis
      proof (cases "\<exists>x. cur = Inr x \<and> text_or (case x of None \<Rightarrow> [] | Some x \<Rightarrow> x) ''status'' ''queued'' = ''queued''")
        case False
        then show ?thesis using True tr_forget [OF t4]
          unfolding queue_row_def Let_def t_def [symmetric] y rn Inr l d g option.case ddb.case prod.case sum.case
          by (cases cur) simp_all
      next
        case q: True
        then obtain x where x: "cur = Inr x" "text_or (case x of None \<Rightarrow> [] | Some x \<Rightarrow> x) ''status'' ''queued'' = ''queued''" by blast
        obtain z lg5 where z: "allocate_queued X r rid t free lg4 = (z, lg5)" by (rule prod.exhaust)
        have "tr ByQueue E ?N lg5" using alloc [OF _ _ x] True z by simp
        then have t5: "tr ByQueue E ?M lg5" by (rule tr_forget)
        have "snd (queue_row X c active i r st lg) = lg5"
          using True x(2)
          unfolding queue_row_def Let_def t_def [symmetric] y rn Inr l d g x(1) z option.case ddb.case prod.case sum.case
          by (cases z) (simp_all only: sum.case prod.case snd_conv simp_thms if_True if_False)
        then show ?thesis using t5 by (simp only:)
      qed
    qed
    then show ?thesis by (rule tr_less) (use L(1) in blast)
  qed
qed

lemma tr_queue_loop: "tr ByQueue E K lg \<Longrightarrow> tr ByQueue E K (snd (queue_loop X c active i rs st lg))"
proof (induction rs arbitrary: i st lg)
  case (Cons r rs)
  obtain y lg1 where y: "queue_row X c active i r st lg = (y, lg1)" by (rule prod.exhaust)
  have "tr ByQueue E K lg1" using tr_queue_row [OF Cons.prems, of X c active i r st] y by simp
  then show ?case using y Cons.IH by (cases y) simp_all
qed simp

lemma tr_scheduled:
  assumes "tr ByQueue E K lg" shows "tr ByQueue E K (snd (process_scheduled_queue_management X c lg))"
proof -
  have r: "tr ByQueue E K (snd (queue_loop X c a 0 rs st (SawStatus s1 q1 # MadeClient b # SawStatus s2 q2 # lg)))"
    for a rs st s1 q1 b s2 q2
    by (rule tr_queue_loop) (use assms in simp)
  show ?thesis using assms
    by (auto simp: process_scheduled_queue_management_def Let_def see_status_def make_client_def
        intro: r [THEN tr_eq] split: prod.split sum.split)
qed

end
