(* ===== verification/Gpu_Request_Properties.thy ===== *)
theory Gpu_Request_Properties
  imports Gpu_Claim
begin

section \<open>Properties of single operations of the reservation processor\<close>

text \<open>
  The two tests for a reservation that has ended, what a request does that finds one, the estimated waiting time, the choice of
  node ports, and the node for a pod with the eviction of warm pods.
\<close>

subsection \<open>Examples\<close>

definition no_nodes :: kapi where
  "no_nodes = \<lparr>k_nodes_r = (\<lambda>_ _. Inr []), k_pods_on_r = (\<lambda>_ _. Inr []), k_pods_r = (\<lambda>_. Inr [])\<rparr>"

definition no_gpus :: tapi where
  "no_gpus = \<lparr>t_nodes = (\<lambda>_. Inr []), t_pods_on = (\<lambda>_ _. Inr []), t_pending = (\<lambda>_. Inr []), t_events = (\<lambda>_ _ _. Inr []), t_now = (\<lambda>_. 1000)\<rparr>"

definition idle :: penv where
  \<comment> \<open>empty tables, an empty cluster, and calls that succeed\<close>
  "idle =
     \<lparr>p_services = (\<lambda>_. calm), p_fault = (\<lambda>_ _. None), p_stored = (\<lambda>_ _. []), p_disk_stored = (\<lambda>_ _ _. []),
      p_read_fault = (\<lambda>_ _. None), p_stale = (\<lambda>_ _. None), p_matches = (\<lambda>_ _ _. ([], None)), p_status = (\<lambda>_ _. Inr []),
      p_queue = (\<lambda>_ _ _. Inr []), p_locks = (\<lambda>_ _ _. Inr []), p_disk_item = (\<lambda>_ _ _. Inr None), p_cluster = (\<lambda>_. no_nodes),
      p_tracker = (\<lambda>_. no_gpus), p_client = (\<lambda>_. Inr ()), p_group = (\<lambda>_ _. Inr None), p_activities = (\<lambda>_ _. Inr []),
      p_volume_state = (\<lambda>_ _. Inr ''available''), p_volumes = (\<lambda>_ _ _ _. Inr []), p_nodes = (\<lambda>_ _. ([], None)),
      p_run = (\<lambda>_ _ _ _. Inr []), p_ports = (\<lambda>_. Inr [30000, 30001]), p_port = (\<lambda>_ _. Inr 30000), p_random = (\<lambda>_ _. 30000),
      p_node_ip = (\<lambda>_ _. Inr ''10.0.0.1''), p_private_ip = (\<lambda>_ _. Inr ''10.0.0.1''), p_pod_ip = (\<lambda>_ _. Inr ''10.0.0.2''),
      p_keys = (\<lambda>_ _. Inr ''ssh-rsa AAAA''), p_time = (\<lambda>_. 1000), p_instance = (\<lambda>_ _. (''g4dn.12xlarge'', ''t4'')),
      p_warm = (\<lambda>_ _ _. Inr []), p_digest = (\<lambda>_. None), p_unique = (\<lambda>_ _. Inr ''blue-fox''), p_hex = (\<lambda>_. ''0a1b2c''),
      p_uuid = (\<lambda>_. ''id''), p_now = (\<lambda>_. 1000), p_utcnow = (\<lambda>_. 1000000000), p_iso = (\<lambda>_. ''1970-01-01T00:16:40''),
      p_parse = (\<lambda>_. Some (1000000000, None)), p_clock = (\<lambda>_. ''1970-01-01 00:16:40''), p_decimal = (\<lambda>x. x), p_repr = (\<lambda>_. ''value''),
      p_text = (\<lambda>_. ''error'')\<rparr>"

subsection \<open>Reservations that have ended\<close>

text \<open>The condition of the conditional put and the test for a reservation that has ended agree on every row that the code
  writes: with an id, and a cancellation time that is absent or not empty. So a put is refused exactly if the reservation
  has ended.\<close>

theorem put_guard_agrees:
  assumes "dget r ''reservation_id'' = Some x" "dget r ''cancelled_at'' = None \<or> ddb_true (attr r ''cancelled_at'')"
  shows "put_allowed r = (\<not> row_terminated r)"
proof (cases "dget r ''cancelled_at''")
  case None
  show ?thesis
  proof (cases "dget r ''status''")
    case (Some v)
    then show ?thesis using assms(1) None
      by (auto simp: put_allowed_def row_terminated_def attr_def dget_or_def TERMINATED_RESERVATION_STATUSES_def)
  qed (use assms(1) None in \<open>auto simp: put_allowed_def row_terminated_def attr_def dget_or_def TERMINATED_RESERVATION_STATUSES_def\<close>)
qed (use assms in \<open>auto simp: put_allowed_def row_terminated_def attr_def\<close>)

theorem put_guard_agrees_witness:
  "put_allowed [(''reservation_id'', DStr ''r-1''), (''status'', DStr ''expired'')] = False \<and>
   put_allowed [(''reservation_id'', DStr ''r-1''), (''status'', DStr ''active'')] = True"
  using put_guard_agrees [of "[(''reservation_id'', DStr ''r-1''), (''status'', DStr ''expired'')]"]
    put_guard_agrees [of "[(''reservation_id'', DStr ''r-1''), (''status'', DStr ''active'')]"]
  by (simp add: row_terminated_def attr_def dget_or_def dict_simps TERMINATED_RESERVATION_STATUSES_def)

lemma put_guard_differs:
  \<comment> \<open>an empty cancellation time: the put is refused although the reservation counts as live\<close>
  "\<not> put_allowed [(''reservation_id'', DStr ''r-1''), (''cancelled_at'', DStr [])]"
  "\<not> row_terminated [(''reservation_id'', DStr ''r-1''), (''cancelled_at'', DStr [])]"
  by (simp_all add: put_allowed_def row_terminated_def attr_def dget_or_def dict_simps TERMINATED_RESERVATION_STATUSES_def)

text \<open>A request for a reservation that has ended changes nothing. If the consistent read of its row succeeds and shows a
  reservation that has ended, the request is done, and reading the row is all it does.\<close>

theorem ended_request_ignored:
  assumes "text_at m ''reservation_id'' = rid" "rid \<noteq> []" "p_read_fault E lg rid = None"
    "p_stored E lg rid = r" "r \<noteq> []" "row_terminated r"
  shows "process_reservation_request E c (Some m) lg = (Inr True, SawItem rid True (Inr (Some r)) # lg)"
  using assms
  by (simp add: process_reservation_request_def request_body_def reservation_is_terminated_def get_item_def Let_def)

definition cancelled_example :: penv where
  "cancelled_example = idle\<lparr>p_stored := (\<lambda>_ _. [(''reservation_id'', DStr ''r-1''), (''status'', DStr ''cancelled'')])\<rparr>"

theorem ended_request_ignored_witness:
  "\<forall>c. fst (process_reservation_request cancelled_example c (Some [(''reservation_id'', DStr ''r-1'')]) []) = Inr True"
  using ended_request_ignored [of "[(''reservation_id'', DStr ''r-1'')]" "''r-1''" cancelled_example "[]"
      "[(''reservation_id'', DStr ''r-1''), (''status'', DStr ''cancelled'')]"]
  by (simp add: cancelled_example_def idle_def text_at_def row_terminated_def attr_def dget_or_def dict_simps
      TERMINATED_RESERVATION_STATUSES_def)

subsection \<open>Waiting times\<close>

text \<open>The estimated waiting time is exact. Let the capacity be known, let fewer GPUs be free than requested, and let the
  active reservations be readable. Then the estimate is the first whole minute at which the GPUs that are free now and those of
  the reservations that end until then suffice, or 0 minutes if they never do.\<close>

theorem estimate_wait_exact:
  assumes "get_gpu_capacity_info K i = (Inr ci, i1)" "ci_available ci < wanted"
    "all_freed parse (t_now K i1) active = Inr xs"
  shows "let w = we_minutes (fst (estimate_wait_time K parse wanted active i));
             gpus_at = (\<lambda>v. ci_available ci + int (length (filter (\<lambda>x. x \<le> v) xs))) in
         if wanted \<le> ci_available ci + int (length xs) then wanted \<le> gpus_at w \<and> (\<forall>v < w. gpus_at v < wanted)
         else w = 0"
proof -
  have w: "we_minutes (fst (estimate_wait_time K parse wanted active i)) = wait_until wanted (ci_available ci) (sort xs)"
    using assms by (simp add: estimate_wait_time_def Let_def split: prod.split)
  have n: "length (filter P (sort xs)) = length (filter P xs)" for P
    by (metis mset_filter mset_sort size_mset)
  show ?thesis
  proof (cases "wanted \<le> ci_available ci + int (length xs)")
    case True
    define k where "k = nat (wanted - ci_available ci - 1)"
    have k: "wanted - ci_available ci = int k + 1" "k < length (sort xs)"
      using True assms(2) by (auto simp: k_def)
    have "wait_until wanted (ci_available ci) (sort xs) = sort xs ! k" by (rule wait_until_nth [OF k])
    moreover have "k < length (filter (\<lambda>x. x \<le> sort xs ! k) xs)"
      using count_up_to(1) [OF sorted_sort k(2)] by (simp only: n)
    moreover have "length (filter (\<lambda>x. x \<le> v) xs) \<le> k" if "v < sort xs ! k" for v
      using count_up_to(2) [OF sorted_sort k(2) that] by (simp only: n)
    ultimately show ?thesis using True k(1) unfolding Let_def w by force
  next
    case False
    then show ?thesis unfolding Let_def w using wait_until_never [of "sort xs" wanted "ci_available ci"] by simp
  qed
qed

theorem estimate_wait_exact_witness:
  "we_minutes (fst (estimate_wait_time no_gpus (\<lambda>_. None) 2
     [[(''gpu_count'', DNum 1), (''expires_at'', DNum 1600)], [(''gpu_count'', DNum 2), (''expires_at'', DNum 1300)]] 0)) = 5"
proof -
  have i: "get_gpu_capacity_info no_gpus 0 = (Inr \<lparr>ci_total = 0, ci_available = 0, ci_used = 0, ci_nodes = [], ci_stamp = 1000\<rparr>, 1)"
    by (simp add: get_gpu_capacity_info_def no_gpus_def)
  have f: "all_freed (\<lambda>_. None) (t_now no_gpus 1)
     [[(''gpu_count'', DNum 1), (''expires_at'', DNum 1600)], [(''gpu_count'', DNum 2), (''expires_at'', DNum 1300)]] = Inr [10, 5, 5]"
    by (simp add: freed_minutes_def to_int_def expiry_stamp_def no_gpus_def dget_or_def dict_simps ftrunc_def bind_res_def numeral_eq_Suc)
  have r: "w = 5" if "2 \<le> length (filter (\<lambda>x. x \<le> w) [10, 5, 5])" "\<forall>v<w. length (filter (\<lambda>x. x \<le> v) [10, 5, 5]) < 2"
    for w :: int
    using that(1) that(2) [rule_format, of 5] by (cases "w < 5"; cases "5 < w") simp_all
  show ?thesis by (rule r) (use estimate_wait_exact [OF i _ f, of 2] in \<open>simp_all add: Let_def\<close>)
qed

subsection \<open>Ports\<close>

lemma random_port_unused: "random_port rnd used i n = Some p \<Longrightarrow> p \<notin> set used \<and> (\<exists>j. p = rnd j)"
  by (induction n arbitrary: i) (auto split: if_splits)

lemma find_in_range: "List.find P [a..b] = Some p \<Longrightarrow> p \<in> {a..b} \<and> P p"
  by (auto simp: find_Some_iff)

lemma find_range_finds: "q \<in> {a..b} \<Longrightarrow> P q \<Longrightarrow> \<exists>p. List.find P [a..b] = Some p"
  by (metis find_None_iff not_Some_eq set_upto)

text \<open>a node port is chosen that no service has. If the services can be listed, one of the ports 30000 to 32767 is
  unused, and random numbers are in this range, then the port that is found is in this range and unused, however often a
  random choice hits a used one.\<close>

theorem node_port_unused:
  assumes "p_ports E lg = Inr used" "q \<in> {30000..32767} - set used" "\<And>l i. p_random E l i \<in> {30000..32767}"
  shows "fst (find_available_node_port E lg) \<in> {30000..32767} - set used"
proof (cases "random_port (p_random E (SawPorts (Inr used) # lg)) used 0 10")
  case (Some p)
  then show ?thesis using assms(1) random_port_unused [OF Some] assms(3) by (auto simp: find_available_node_port_def Let_def)
next
  case None
  obtain p where p: "first_free used = Some p"
    using find_range_finds [of q 30000 32767 "\<lambda>p. p \<notin> set used"] assms(2) unfolding first_free_def by blast
  then have "p \<in> {30000..32767} - set used"
    using find_in_range [of "\<lambda>p. p \<notin> set used" 30000 32767 p] unfolding first_free_def by blast
  then show ?thesis using assms(1) None p by (simp add: find_available_node_port_def Let_def)
qed

theorem node_port_unused_witness: "fst (find_available_node_port idle []) \<in> {30000..32767} - {30000, 30001}"
  using node_port_unused [of idle "[]" "[30000, 30001]" 30002] by (simp add: idle_def)

subsection \<open>The node for a pod\<close>

lemma best_fit_least:
  assumes "best_fit n rs = Some r"
  shows "r \<in> set rs" "n \<le> ro_free r" "\<forall>s \<in> set rs. n \<le> ro_free s \<longrightarrow> ro_free r \<le> ro_free s"
proof -
  let ?k = "\<lambda>r. (ro_free r, ro_node r)" and ?f = "filter (\<lambda>r. n \<le> ro_free r) rs"
  obtain xs where x: "sorted_by ?k ?f = r # xs" using assms by (auto simp: best_fit_def split: list.splits)
  have "set (r # xs) = set ?f" unfolding x [symmetric] by (simp add: sorted_by_def)
  then have r: "r \<in> set ?f" "set ?f = set (r # xs)" by auto
  have "sorted (map ?k (r # xs))" unfolding x [symmetric] by (simp add: sorted_by_def)
  then have "\<forall>s \<in> set (r # xs). ro_free r \<le> ro_free s" by auto
  with r show "r \<in> set rs" "n \<le> ro_free r" "\<forall>s \<in> set rs. n \<le> ro_free s \<longrightarrow> ro_free r \<le> ro_free s" by auto
qed

lemma best_fit_none: "best_fit n rs = None \<Longrightarrow> s \<in> set rs \<Longrightarrow> ro_free s < n"
proof -
  assume b: "best_fit n rs = None" and s: "s \<in> set rs"
  let ?k = "\<lambda>r. (ro_free r, ro_node r)" and ?f = "filter (\<lambda>r. n \<le> ro_free r) rs"
  have "sorted_by ?k ?f = []" using b by (auto simp: best_fit_def split: list.splits)
  moreover have "set (sorted_by ?k ?f) = set ?f" by (simp add: sorted_by_def)
  ultimately show ?thesis using s by auto
qed

lemma pick_evictions_minimal:
  assumes "pick_evictions n f hs = (ps, g)"
  shows "\<exists>k \<le> length hs. ps = map fst (take k hs) \<and> g = f + sum_list (map snd (take k hs)) \<and>
    (\<forall>j < k. f + sum_list (map snd (take j hs)) < n)"
  using assms
proof (induction n f hs arbitrary: ps g rule: pick_evictions.induct)
  case (2 n f p h hs)
  show ?case
  proof (cases "n \<le> f")
    case True
    then show ?thesis using 2 by (intro exI [of _ 0]) auto
  next
    case False
    obtain qs e where q: "pick_evictions n (f + h) hs = (qs, e)" by (rule prod.exhaust)
    obtain k where k: "k \<le> length hs" "qs = map fst (take k hs)" "e = f + h + sum_list (map snd (take k hs))"
      "\<forall>j < k. f + h + sum_list (map snd (take j hs)) < n"
      using 2(1) [OF False q] by blast
    have "\<forall>j < Suc k. f + sum_list (map snd (take j ((p, h) # hs))) < n"
    proof (intro allI impI)
      fix j assume "j < Suc k"
      then show "f + sum_list (map snd (take j ((p, h) # hs))) < n" using False k(4) by (cases j) (auto simp: add.assoc)
    qed
    then show ?thesis using 2(2) False q k(1-3) by (intro exI [of _ "Suc k"]) auto
  qed
qed auto

lemma evict_on_enough:
  assumes "evict_on E n hs ns lg = (Some r, lg1)"
  shows "r \<in> set ns \<and> (\<exists>k xs. xs = take k (filter (\<lambda>(p, h). w_node p = ro_node r) hs) \<and>
    lg1 = snd (services E (\<lambda>X xl. ((), fold (evict_pod X) (map fst xs) xl)) lg) \<and>
    n \<le> ro_free r + sum_list (map snd xs) \<and> (\<forall>j < length xs. ro_free r + sum_list (map snd (take j xs)) < n))"
  using assms
proof (induction ns arbitrary: lg)
  case (Cons s ns)
  let ?h = "filter (\<lambda>(p, h). w_node p = ro_node s) hs"
  obtain ps g where p: "pick_evictions n (ro_free s) ?h = (ps, g)" by (rule prod.exhaust)
  show ?case
  proof (cases "ps \<noteq> [] \<and> g \<ge> n")
    case True
    obtain k where k: "k \<le> length ?h" "ps = map fst (take k ?h)" "g = ro_free s + sum_list (map snd (take k ?h))"
      "\<forall>j < k. ro_free s + sum_list (map snd (take j ?h)) < n"
      using pick_evictions_minimal [OF p] by blast
    have r: "r = s" "lg1 = snd (services E (\<lambda>X xl. ((), fold (evict_pod X) ps xl)) lg)" using Cons.prems p True by auto
    show ?thesis unfolding r(1)
      by (intro conjI exI [of _ k] exI [of _ "take k ?h"]) (use r(2) k True in \<open>auto simp: min_def\<close>)
  next
    case False
    then have "evict_on E n hs ns lg = (Some r, lg1)" using Cons.prems p by auto
    from Cons.IH [OF this] show ?thesis by simp
  qed
qed simp

text \<open>What the choice of a node goes by. If a node is chosen for a request, it is one of the ready and schedulable nodes of its type, and
  the zone is the node's. Either the request fits into what counts as free there, and no node on which it fits has less free; or it
  fits nowhere, and running pods of the warm pool on this node are chosen for eviction, just so many, in the order of the list, that it
  fits with what they free. Since the GPUs of idle pods of the warm pool count as free before they are evicted, neither means
  that the pod really fits (\<open>pinned_without_eviction\<close>, \<open>eviction_counts_twice\<close>).\<close>

theorem target_has_room:
  assumes "get_target_az_for_reservation E c primary t n lg = (ta, lg1)" "ta_node ta \<noteq> []"
  shows "\<exists>ns rs r lg2. k_nodes_r (p_cluster E lg2) 0 (Some (node_label_value (pc_types c) t)) = Inr ns \<and>
    rs = rooms (p_cluster E lg2) (gpu_resource_name (pc_types c) t) ns 1 \<and> r \<in> set rs \<and> ta = \<lparr>ta_az = ro_az r, ta_node = ro_node r\<rparr> \<and>
    (n \<le> ro_free r \<and> (\<forall>s \<in> set rs. n \<le> ro_free s \<longrightarrow> ro_free r \<le> ro_free s) \<or>
     (\<forall>s \<in> set rs. ro_free s < n) \<and>
     (\<exists>ps hs k xs lg3. SawWarm (Some t) (Some ''ready'') (Inr ps) \<in> set lg3 \<and> holders (gpu_resource_name (pc_types c) t) ps = Inr hs \<and>
        xs = take k (filter (\<lambda>(p, h). w_node p = ro_node r) hs) \<and>
        lg1 = snd (services E (\<lambda>X xl. ((), fold (evict_pod X) (map fst xs) xl)) lg3) \<and>
        n \<le> ro_free r + sum_list (map snd xs) \<and> (\<forall>j < length xs. ro_free r + sum_list (map snd (take j xs)) < n)))"
proof -
  obtain y lg2 where y: "make_client E lg = (y, lg2)" by (rule prod.exhaust)
  have "\<exists>u ns. y = Inr u \<and> k_nodes_r (p_cluster E lg2) 0 (Some (node_label_value (pc_types c) t)) = Inr ns"
    using assms y by (auto simp: get_target_az_for_reservation_def split: sum.splits)
  then obtain u ns where ns: "y = Inr u" "k_nodes_r (p_cluster E lg2) 0 (Some (node_label_value (pc_types c) t)) = Inr ns" by blast
  define rs where "rs = rooms (p_cluster E lg2) (gpu_resource_name (pc_types c) t) ns 1"
  show ?thesis
  proof (cases "best_fit n rs")
    case (Some r)
    then have "ta = \<lparr>ta_az = ro_az r, ta_node = ro_node r\<rparr>"
      using assms(1) unfolding get_target_az_for_reservation_def Let_def y prod.case ns sum.case rs_def [symmetric] by simp
    then show ?thesis using ns(2) rs_def best_fit_least [OF Some] by blast
  next
    case None
    then have small: "\<forall>s \<in> set rs. ro_free s < n" using best_fit_none by blast
    obtain r lg3 where e: "evict_warm_for_capacity E c t n (sorted_by (\<lambda>x. - ro_free x) rs) lg2 = (Some r, lg3)"
      "ta = \<lparr>ta_az = ro_az r, ta_node = ro_node r\<rparr>" "lg1 = lg3"
      using assms None unfolding get_target_az_for_reservation_def Let_def y prod.case ns sum.case rs_def [symmetric]
      by (auto split: list.splits if_splits prod.splits option.splits)
    let ?w = "p_warm E lg2 (Some t) (Some ''ready'')"
    let ?l = "SawWarm (Some t) (Some ''ready'') ?w # lg2"
    obtain ps hs where h: "?w = Inr ps" "holders (gpu_resource_name (pc_types c) t) ps = Inr hs"
      "evict_on E n hs (sorted_by (\<lambda>x. - ro_free x) rs) ?l = (Some r, lg3)"
      using e(1) by (auto simp: evict_warm_for_capacity_def see_warm_def split: sum.splits)
    have "SawWarm (Some t) (Some ''ready'') (Inr ps) \<in> set ?l" using h(1) by simp
    moreover have r: "r \<in> set rs" using evict_on_enough [OF h(3)] by (simp add: sorted_by_def)
    moreover obtain k xs where "xs = take k (filter (\<lambda>(p, h). w_node p = ro_node r) hs)"
      "lg3 = snd (services E (\<lambda>X xl. ((), fold (evict_pod X) (map fst xs) xl)) ?l)"
      "n \<le> ro_free r + sum_list (map snd xs)" "\<forall>j < length xs. ro_free r + sum_list (map snd (take j xs)) < n"
      using evict_on_enough [OF h(3)] by blast
    ultimately show ?thesis using h(2) e(2,3) small ns(2) rs_def by blast
  qed
qed

definition one_node :: penv where
  "one_node = idle\<lparr>p_cluster := (\<lambda>_. no_nodes\<lparr>k_nodes_r := (\<lambda>_ _. Inr [\<lparr>g_name = ''n1'',
     g_labels = [(''topology.kubernetes.io/zone'', ''us-east-2a'')],
     g_status = Some \<lparr>g_conditions = [(''Ready'', ''True'')], g_allocatable = [(''nvidia.com/gpu'', ''8'')]\<rparr>,
     g_spec = Some \<lparr>g_unschedulable = False, g_taints = []\<rparr>\<rparr>])\<rparr>)\<rparr>"

definition plain_pcfg :: pcfg where
  "plain_pcfg =
     \<lparr>pc_expiry = \<lparr>k_grace = 120, k_spot = [], k_updater = [], k_bucket = [], k_dns = False, k_alb = False\<rparr>, pc_types = [],
      pc_spot = [], pc_asg_prefix = ''gpu-dev'', pc_max_hours = 24, pc_default_hours = 8, pc_domain = [], pc_warm = [],
      pc_warm_hours = 12, pc_version = ''1'', pc_min_cli = ''0.1.0''\<rparr>"

theorem target_has_room_witness:
  "\<exists>ns r lg. k_nodes_r (p_cluster one_node lg) 0 (Some (node_label_value [] ''t4'')) = Inr ns \<and>
     r \<in> set (rooms (p_cluster one_node lg) (gpu_resource_name [] ''t4'') ns 1) \<and> ro_node r = ''n1'' \<and> ro_az r = ''us-east-2a''"
proof -
  have t: "get_target_az_for_reservation one_node plain_pcfg [] ''t4'' 4 [] = (\<lparr>ta_az = ''us-east-2a'', ta_node = ''n1''\<rparr>, [MadeClient (Inr ())])"
    by code_simp
  have c: "pc_types plain_pcfg = []" by (simp add: plain_pcfg_def)
  have n: "ta_node \<lparr>ta_az = ''us-east-2a'', ta_node = ''n1''\<rparr> \<noteq> []" by simp
  from target_has_room [OF t n] obtain ns r lg where "k_nodes_r (p_cluster one_node lg) 0 (Some (node_label_value [] ''t4'')) = Inr ns"
    "r \<in> set (rooms (p_cluster one_node lg) (gpu_resource_name [] ''t4'') ns 1)"
    "\<lparr>ta_az = ''us-east-2a'', ta_node = ''n1''\<rparr> = \<lparr>ta_az = ro_az r, ta_node = ro_node r\<rparr>" unfolding c by blast
  then show ?thesis by auto
qed

subsection \<open>Warm pods count as free\<close>

definition full_node :: penv where
  \<comment> \<open>a node with 8 GPUs, 4 of them in use by a reservation and 4 held by an idle pod of the warm pool\<close>
  "full_node = one_node\<lparr>
     p_cluster := (\<lambda>lg. (p_cluster one_node lg)\<lparr>k_pods_on_r := (\<lambda>_ _. Inr
       [\<lparr>gp_name = ''gpu-dev-1'', gp_labels = [], gp_phase = Some ''Running'',
         gp_spec = Some \<lparr>gp_node = ''n1'', gp_requests = [[(''nvidia.com/gpu'', ''4'')]]\<rparr>\<rparr>,
        \<lparr>gp_name = ''warm-1'', gp_labels = [(''app'', ''gpu-dev-warm''), (''warm-state'', ''ready'')], gp_phase = Some ''Running'',
         gp_spec = Some \<lparr>gp_node = ''n1'', gp_requests = [[(''nvidia.com/gpu'', ''4'')]]\<rparr>\<rparr>])\<rparr>),
     p_warm := (\<lambda>_ _ _. Inr [\<lparr>w_name = ''warm-1'', w_labels = [(''app'', ''gpu-dev-warm''), (''warm-state'', ''ready'')], w_notes = [],
       w_phase = ''Running'', w_node = ''n1'', w_requests = [[(''nvidia.com/gpu'', ''4'')]], w_created = None, w_images = []\<rparr>])\<rparr>"

lemma pinned_without_eviction:
  \<comment> \<open>nothing is free, but a request for 4 GPUs is pinned to the node, and no pod is evicted\<close>
  "get_target_az_for_reservation full_node (plain_pcfg\<lparr>pc_warm := [(''t4'', 1)]\<rparr>) [] ''t4'' 4 [] =
     (\<lparr>ta_az = ''us-east-2a'', ta_node = ''n1''\<rparr>, [MadeClient (Inr ())])"
  by code_simp

lemma eviction_counts_twice:
  \<comment> \<open>a request for 8 GPUs is pinned to the node after the pod has been evicted, which leaves 4 in use\<close>
  "ta_node (fst (get_target_az_for_reservation full_node (plain_pcfg\<lparr>pc_warm := [(''t4'', 1)]\<rparr>) [] ''t4'' 8 [])) = ''n1''"
  by code_simp

end
