(* ===== verification/Gpu_Multinode_Properties.thy ===== *)
theory Gpu_Multinode_Properties
  imports Gpu_Processor_Trace Gpu_Request_Properties
begin

section \<open>Multinode reservations: properties\<close>

text \<open>
  When the coordinator asks for GPUs, what it leaves behind, and what its queue estimate and its lock do not achieve. A step is
  calm if it neither allocates GPUs nor deletes a row.
\<close>

subsection \<open>Calm steps\<close>

fun alloc_of :: "pevent \<Rightarrow> (string \<times> row) option" where
  "alloc_of (Called (Allocate cid node) y) = Some (cid, node)"
| "alloc_of e = None"

fun drops_row :: "pevent \<Rightarrow> bool" where
  "drops_row (Called (DropRow rid) y) = True"
| "drops_row e = False"

definition calm_event :: "pevent \<Rightarrow> bool" where
  "calm_event e \<longleftrightarrow> alloc_of e = None \<and> \<not> drops_row e"

abbreviation quiet :: "plog \<Rightarrow> plog \<Rightarrow> bool" where
  "quiet \<equiv> adds (list_all calm_event)"

lemma quiet_same [simp]: "quiet lg lg"
  by (simp add: adds_def)

lemma quiet_step: "quiet lg lg1 \<Longrightarrow> calm_event e \<Longrightarrow> quiet lg (e # lg1)"
  unfolding adds_def by (metis append_Cons list.pred_inject(2))

lemma quiet_trans: "quiet lg lg1 \<Longrightarrow> quiet lg1 lg2 \<Longrightarrow> quiet lg lg2"
  unfolding adds_def by (metis append_assoc list_all_append)

lemma quiet_call: "quiet lg lg1 \<Longrightarrow> calm_event (Called c (answer E c lg1)) \<Longrightarrow> quiet lg (snd (call E c lg1))"
  by (simp add: call_def quiet_step)

lemma quiet_fields [simp]: "quiet lg lg1 \<Longrightarrow> quiet lg (update_fields E rid ch lg1)"
  by (simp add: update_fields_def try_pcall_def quiet_call calm_event_def)

lemma quiet_history [simp]: "quiet lg lg1 \<Longrightarrow> quiet lg (append_status_history E rid s m lg1)"
  by (simp add: append_status_history_def try_pcall_def call_def quiet_step calm_event_def split: sum.split)

lemma quiet_status [simp]: "quiet lg lg1 \<Longrightarrow> quiet lg (update_status E rid s d f lg1)"
  by (simp add: update_status_def Let_def)

lemma quiet_pod_status [simp]: "quiet lg lg1 \<Longrightarrow> quiet lg (update_multinode_pod_status E rid s i n lg1)"
  by (simp add: update_multinode_pod_status_def)

lemma quiet_queue_info [simp]: "quiet lg lg1 \<Longrightarrow> quiet lg (update_queue_info E rid p m f lg1)"
  by (simp add: update_queue_info_def)

lemma quiet_fold: "(\<And>x l. quiet lg l \<Longrightarrow> quiet lg (f x l)) \<Longrightarrow> quiet lg lg1 \<Longrightarrow> quiet lg (fold f xs lg1)"
  by (induction xs arbitrary: lg1) auto

lemma quiet_nodes: "quiet lg lg1 \<Longrightarrow> see_nodes E q lg1 = (r, lg2) \<Longrightarrow> quiet lg lg2"
  by (auto simp: see_nodes_def Let_def quiet_step calm_event_def)

lemma quiet_fail [simp]: "quiet lg lg1 \<Longrightarrow> quiet lg (fail_all_multinode_reservations E m d lg1)"
  by (auto simp: fail_all_multinode_reservations_def update_all_multinode_status_def mark_node_def intro: quiet_nodes intro!: quiet_fold
      split: sum.split prod.split)

lemma quiet_position:
  "quiet lg lg1 \<Longrightarrow> calculate_multinode_queue_position_and_wait_time E m n t a lg1 = (q, lg2) \<Longrightarrow> quiet lg lg2"
  by (auto simp: calculate_multinode_queue_position_and_wait_time_def active_wait_def see_nodes_def Let_def quiet_step calm_event_def
      split: sum.splits option.splits if_splits)

lemma quiet_queue_all [simp]: "quiet lg lg1 \<Longrightarrow> quiet lg (queue_all_multinode_reservations E m n t a lg1)"
proof -
  assume q: "quiet lg lg1"
  obtain sc lg2 where sc: "see_nodes E (NodesOf m) lg1 = (sc, lg2)" by (rule prod.exhaust)
  obtain qi lg3 where p: "calculate_multinode_queue_position_and_wait_time E m n t a lg2 = (qi, lg3)" by (rule prod.exhaust)
  note q2 = quiet_nodes [OF q sc]
  have "quiet lg (fold (queue_node E qi a) rs lg3)" for rs
    by (rule quiet_fold [OF _ quiet_position [OF q2 p]]) (simp add: queue_node_def)
  then show ?thesis using q2 by (simp add: queue_all_multinode_reservations_def sc p split: sum.split)
qed

lemma quiet_free:
  "check_gpu_availability E c t lg = (Inr a, lg1) \<Longrightarrow>
     \<exists>av z. lg1 = av @ SawFree t (Inr a) # MadeClient z # lg \<and> list_all calm_event av"
  by (auto simp: check_gpu_availability_def make_client_def update_gpu_availability_table_def try_pcall_def call_def calm_event_def Let_def
      intro: exI [of _ "[]"] exI [of _ "[x]" for x] split: sum.splits if_splits prod.splits)

lemma quiet_free_error: "check_gpu_availability E c t lg = (Inl e, lg1) \<Longrightarrow> quiet lg lg1"
  by (auto simp: check_gpu_availability_def make_client_def calm_event_def Let_def quiet_step split: sum.splits if_splits prod.splits)

lemma quiet_create:
  assumes "create_reservation E c m lg = (y, lg1)"
  shows "\<exists>es. lg1 = es @ lg \<and> list_all calm_event es \<and> (\<forall>cid. y = Inr cid \<longrightarrow> accepted cid (set es))"
proof -
  define pre where "pre = (if dget m ''reservation_id'' = None then [MadeId (p_uuid E lg)] else [])"
  consider "y = Inl (Fault OtherError)" "lg1 = pre @ lg"
    | rid r z where "reservation_record E c rid m (pre @ lg) = Some r" "put_reservation_record E r (pre @ lg) = (z, lg1)"
        "y = (case z of Inl e \<Rightarrow> Inl e | Inr _ \<Rightarrow> Inr rid)"
    using assms unfolding create_reservation_def pre_def
    by (auto simp: Let_def split: option.splits ddb.splits prod.splits sum.splits)
  then show ?thesis
  proof cases
    case 1
    then show ?thesis by (intro exI [of _ pre]) (simp add: pre_def calm_event_def)
  next
    case (2 rid r z)
    let ?e = "Called (PutRow r) (answer E (PutRow r) (pre @ lg))"
    have "lg1 = ?e # pre @ lg" "z = Inr u \<Longrightarrow> answer E (PutRow r) (pre @ lg) = Inr ()" for u
      using 2(2) by (auto simp: put_reservation_record_def call_def split: sum.splits perr.splits)
    with 2(3) record_has [OF 2(1)] show ?thesis
      by (intro exI [of _ "?e # pre"]) (auto simp: pre_def calm_event_def accepted_def split: sum.splits)
  qed
qed

subsection \<open>When GPUs are allocated\<close>

definition started :: "string \<Rightarrow> int \<Rightarrow> row list \<Rightarrow> plog \<Rightarrow> bool" where
  \<comment> \<open>the lock was taken, the pending rows were read, the free GPUs were counted, and only then was the lock given up\<close>
  "started m tot nodes es \<longleftrightarrow>
     (\<exists>post y held r now rest a q. es = post @ Called (DropRow (lock_id m)) y # held @
          SawNodes (PendingOf m) (Inr nodes) # Called (PutLock r now) (Inr ()) # rest \<and>
        list_all calm_event held \<and> SawFree (text_or (hd nodes) ''gpu_type'' ''a100'') (Inr a) \<in> set held \<and>
        text_at r ''reservation_id'' = lock_id m \<and> nodes \<noteq> [] \<and> int (length nodes) = tot \<and>
        gpus_needed (hd nodes) tot = Some q \<and> q \<le> of_int a)"

definition alloc_ok :: "string \<Rightarrow> int \<Rightarrow> string \<times> row \<Rightarrow> plog \<Rightarrow> bool" where
  \<comment> \<open>and the row of the node was read again and the reservation written, with the condition of the put\<close>
  "alloc_ok m tot = (\<lambda>(cid, node) before.
     \<exists>nodes rid row peers. started m tot nodes before \<and> rid \<in> (\<lambda>r. text_at r ''reservation_id'') ` set nodes \<and>
       SawItem rid False (Inr (Some row)) \<in> set before \<and> node = with_peers peers row \<and> cid \<noteq> [] \<and> accepted cid (set before))"

definition run_inv :: "string \<Rightarrow> int \<Rightarrow> plog \<Rightarrow> pevent set \<Rightarrow> row list option \<Rightarrow> plog \<Rightarrow> bool" where
  \<comment> \<open>what a run has added since \<open>l0\<close>: known events, and the nodes that it starts\<close>
  "run_inv m tot l0 K no lg \<longleftrightarrow>
     (\<exists>es. lg = es @ l0 \<and> each_call alloc_of (alloc_ok m tot) es \<and> K \<subseteq> set es \<and>
        (case no of None \<Rightarrow> True | Some nodes \<Rightarrow> started m tot nodes es))"

lemma started_app:
  assumes "started m tot nodes es" shows "started m tot nodes (fs @ es)"
proof -
  obtain post y held r now rest a q where s: "es = post @ Called (DropRow (lock_id m)) y # held @
      SawNodes (PendingOf m) (Inr nodes) # Called (PutLock r now) (Inr ()) # rest"
    "list_all calm_event held \<and> SawFree (text_or (hd nodes) ''gpu_type'' ''a100'') (Inr a) \<in> set held \<and>
     text_at r ''reservation_id'' = lock_id m \<and> nodes \<noteq> [] \<and> int (length nodes) = tot \<and>
     gpus_needed (hd nodes) tot = Some q \<and> q \<le> of_int a"
    using assms unfolding started_def by blast
  have "fs @ es = (fs @ post) @ Called (DropRow (lock_id m)) y # held @
      SawNodes (PendingOf m) (Inr nodes) # Called (PutLock r now) (Inr ()) # rest"
    by (simp add: s(1))
  with s(2) show ?thesis unfolding started_def by blast
qed

lemma inv_base: "run_inv m tot l0 {} None l0"
  by (simp add: run_inv_def)

lemma inv_weaken: "run_inv m tot l0 K no lg \<Longrightarrow> run_inv m tot l0 {} None lg"
  by (auto simp: run_inv_def)

lemma inv_known: "run_inv m tot l0 K no lg \<Longrightarrow> L \<subseteq> K \<Longrightarrow> run_inv m tot l0 L no lg"
  by (auto simp: run_inv_def)

lemma inv_add:
  assumes "run_inv m tot l0 K no lg" "\<And>e. e \<in> set fs \<Longrightarrow> alloc_of e = None"
  shows "run_inv m tot l0 (set fs \<union> K) no (fs @ lg)"
proof -
  obtain es where es: "lg = es @ l0" "each_call alloc_of (alloc_ok m tot) es" "K \<subseteq> set es"
    "case no of None \<Rightarrow> True | Some nodes \<Rightarrow> started m tot nodes es"
    using assms(1) by (auto simp: run_inv_def)
  have "each_call alloc_of (alloc_ok m tot) (fs @ es)"
    using assms(2) by (induction fs) (auto simp: es(2))
  then show ?thesis unfolding run_inv_def using es
    by (intro exI [of _ "fs @ es"]) (auto intro: started_app split: option.splits)
qed

lemma inv_event: "run_inv m tot l0 K no lg \<Longrightarrow> alloc_of e = None \<Longrightarrow> run_inv m tot l0 (insert e K) no (e # lg)"
  using inv_add [of m tot l0 K no lg "[e]"] by simp

lemma inv_quiet:
  assumes "run_inv m tot l0 K no lg" "quiet lg lg1"
  shows "run_inv m tot l0 K no lg1"
proof -
  obtain es where es: "lg1 = es @ lg" "list_all calm_event es" using assms(2) unfolding adds_def by blast
  have "run_inv m tot l0 (set es \<union> K) no (es @ lg)"
    by (rule inv_add [OF assms(1)]) (use es(2) in \<open>simp add: list_all_iff calm_event_def\<close>)
  then show ?thesis unfolding es(1) by (rule inv_known) blast
qed

lemma inv_alloc:
  assumes "run_inv m tot l0 K (Some nodes) lg" "rid \<in> (\<lambda>r. text_at r ''reservation_id'') ` set nodes"
    "SawItem rid False (Inr (Some row)) \<in> K" "accepted cid K" "cid \<noteq> []"
  shows "run_inv m tot l0 K (Some nodes) (Called (Allocate cid (with_peers peers row)) z # lg)"
proof -
  obtain es where es: "lg = es @ l0" "each_call alloc_of (alloc_ok m tot) es" "K \<subseteq> set es" "started m tot nodes es"
    using assms(1) by (auto simp: run_inv_def)
  have "accepted cid (set es)" using accepted_mono [OF es(3)] assms(4) by blast
  then have "alloc_ok m tot (cid, with_peers peers row) es"
    using assms(2,3,5) es(3,4) unfolding alloc_ok_def prod.case by blast
  then show ?thesis unfolding run_inv_def using es started_app [OF es(4), of "[e]" for e]
    by (intro exI [of _ "Called (Allocate cid (with_peers peers row)) z # es"]) auto
qed

lemma inv_start_node:
  assumes "run_inv m tot l0 K (Some nodes) lg" "rid \<in> (\<lambda>r. text_at r ''reservation_id'') ` set nodes"
    "SawItem rid False (Inr (Some row)) \<in> K"
  shows "run_inv m tot l0 K (Some nodes) (snd (start_node E c rid i n (with_peers peers row) lg))"
proof -
  let ?lg1 = "update_multinode_pod_status E rid ''preparing pod'' i n lg" and ?node = "with_peers peers row"
  have i1: "run_inv m tot l0 K (Some nodes) ?lg1" by (rule inv_quiet [OF assms(1)]) simp
  obtain y lg2 where y: "create_reservation E c ?node ?lg1 = (y, lg2)" by (rule prod.exhaust)
  obtain es where es: "lg2 = es @ ?lg1" "list_all calm_event es" "\<forall>cid. y = Inr cid \<longrightarrow> accepted cid (set es)"
    using quiet_create [OF y] by blast
  have i2: "run_inv m tot l0 (set es \<union> K) (Some nodes) lg2"
    unfolding es(1) by (rule inv_add [OF i1]) (use es(2) in \<open>auto simp: list_all_iff calm_event_def\<close>)
  have "run_inv m tot l0 (set es \<union> K) (Some nodes) (snd (start_node E c rid i n ?node lg))"
  proof (cases y)
    case (Inl e)
    show ?thesis by (rule inv_quiet [OF i2]) (simp add: start_node_def y Inl)
  next
    case (Inr cid)
    let ?lg3 = "update_multinode_pod_status E rid ''allocating resources'' i n lg2"
    have i3: "run_inv m tot l0 (set es \<union> K) (Some nodes) ?lg3" by (rule inv_quiet [OF i2]) simp
    have acc: "accepted cid (set es \<union> K)" using accepted_mono [of "set es" "set es \<union> K"] es(3) Inr by blast
    let ?z = "answer E (Allocate cid ?node) ?lg3"
    have i4: "run_inv m tot l0 (set es \<union> K) (Some nodes) (Called (Allocate cid ?node) ?z # ?lg3)" if "cid \<noteq> []"
      by (rule inv_alloc [OF i3 assms(2) _ acc that]) (use assms(3) in simp)
    have i5: "run_inv m tot l0 (set es \<union> K) (Some nodes)
        (update_multinode_pod_status E rid ''processing failed'' i n (Called (Allocate cid ?node) ?z # ?lg3))" if "cid \<noteq> []"
      by (rule inv_quiet [OF i4 [OF that]]) simp
    have i6: "run_inv m tot l0 (set es \<union> K) (Some nodes) (update_multinode_pod_status E rid ''failed to create'' i n lg2)"
      by (rule inv_quiet [OF i2]) simp
    show ?thesis
    proof (cases "cid = []")
      case True
      then show ?thesis using i6 by (simp add: start_node_def y Inr)
    next
      case False
      from i4 [OF False] i5 [OF False] show ?thesis
        unfolding start_node_def y Inr prod.case sum.case call_def if_not_P [OF False] by (cases ?z) (simp_all only: sum.case prod.case snd_conv)
    qed
  qed
  then show ?thesis by (rule inv_known) blast
qed

lemma inv_node:
  assumes "run_inv m tot l0 K (Some nodes) lg" "rid \<in> (\<lambda>r. text_at r ''reservation_id'') ` set nodes"
  shows "run_inv m tot l0 K (Some nodes) (snd (process_multinode_individual_node E c rid i n peers lg))"
proof -
  obtain y lg1 where y: "get_item E False rid lg = (y, lg1)" by (rule prod.exhaust)
  let ?K = "insert (SawItem rid False y) K"
  have i1: "run_inv m tot l0 ?K (Some nodes) lg1"
    using inv_event [OF assms(1), of "SawItem rid False y"] y by (auto simp: get_item_def Let_def)
  have i2: "run_inv m tot l0 ?K (Some nodes) (update_multinode_pod_status E rid s i n lg1)" for s
    by (rule inv_quiet [OF i1]) simp
  have i3: "run_inv m tot l0 K (Some nodes) (update_multinode_pod_status E rid s i n lg)" for s
    by (rule inv_quiet [OF assms(1)]) simp
  have i4: "run_inv m tot l0 ?K (Some nodes) (snd (start_node E c rid i n (with_peers peers row) lg1))" if "y = Inr (Some row)" for row
    by (rule inv_start_node [OF i1 assms(2)]) (simp add: that)
  have drop: "run_inv m tot l0 ?K (Some nodes) l \<Longrightarrow> run_inv m tot l0 K (Some nodes) l" for l
    by (erule inv_known) blast
  show ?thesis
  proof (cases "i = None")
    case False
    then obtain k where k: "i = Some k" by blast
    show ?thesis
    proof (cases y)
      case (Inl e)
      then show ?thesis using drop [OF i2] by (simp add: process_multinode_individual_node_def y k)
    next
      case (Inr ro)
      then show ?thesis using drop [OF i2] drop [OF i4] by (cases ro) (simp_all add: process_multinode_individual_node_def y k)
    qed
  qed (use i3 in \<open>simp add: process_multinode_individual_node_def\<close>)
qed

lemma inv_run_nodes:
  assumes "run_inv m tot l0 K (Some nodes) lg" "set rs \<subseteq> set nodes"
  shows "run_inv m tot l0 K (Some nodes) (snd (run_nodes E c n peers i rs lg))"
  using assms
proof (induction rs arbitrary: i lg)
  case (Cons r rs)
  obtain b lg1 where b: "(case to_int (dget_or r ''node_index'' (DNum (of_nat i))) of Inl _ \<Rightarrow> (False, lg)
      | Inr k \<Rightarrow> process_multinode_individual_node E c (text_at r ''reservation_id'') (Some k) (Some n) peers lg) = (b, lg1)"
    by (rule prod.exhaust)
  have "run_inv m tot l0 K (Some nodes) lg1"
    using b Cons.prems inv_node [OF Cons.prems(1), of "text_at r ''reservation_id''"]
    by (auto split: sum.splits) (metis (no_types, lifting) snd_conv imageI)
  then show ?case using Cons by (simp add: b split: prod.split) (metis snd_conv)
qed simp


lemma inv_start_nodes:
  assumes "run_inv m tot l0 K (Some nodes) lg"
  shows "run_inv m tot l0 {} None (snd (start_nodes E c m' n nodes lg))"
proof (cases "peer_pod_names nodes")
  case (Inl e)
  then show ?thesis using inv_weaken [OF assms] by (simp add: start_nodes_def)
next
  case (Inr peers)
  obtain bs lg1 where r: "run_nodes E c n (DList (map DStr peers)) 0 nodes lg = (bs, lg1)" by (rule prod.exhaust)
  have i1: "run_inv m tot l0 {} None lg1"
    using inv_run_nodes [OF assms subset_refl, of E c n "DList (map DStr peers)" 0] r by (auto intro: inv_weaken)
  have i2: "run_inv m tot l0 {} None (try_pcall E (SetupSsh ps) lg1)" for ps
    by (rule inv_quiet [OF i1]) (simp add: try_pcall_def call_def calm_event_def quiet_step)
  have i3: "run_inv m tot l0 {} None (fail_all_multinode_reservations E m' d lg1)" for d
    by (rule inv_quiet [OF i1]) simp
  show ?thesis using i2 i3 by (simp add: start_nodes_def Inr r Let_def)
qed

lemma release_event: "release_multinode_lock E m lg = Called (DropRow (lock_id m)) (answer E (DropRow (lock_id m)) lg) # lg"
  by (simp add: release_multinode_lock_def try_pcall_def call_def)

lemma inv_release: "run_inv m tot l0 K no lg \<Longrightarrow> run_inv m tot l0 K no (release_multinode_lock E m' lg)"
  unfolding release_event by (rule inv_known [OF inv_event]) auto

lemma lock_row_id [simp]: "text_at (lock_row E m lg) ''reservation_id'' = lock_id m"
  by (simp add: lock_row_def text_at_def attr_def dget_or_def dict_simps)

lemma inv_body: "run_inv m tot l0 {} None (snd (coordinate_body E c m tot l0))"
proof -
  let ?c = "PutLock (lock_row E m l0) (p_now E l0)"
  obtain y l1 where y: "call E ?c l0 = (y, l1)" by (rule prod.exhaust)
  obtain sc l2 where sc: "see_nodes E (PendingOf m) l1 = (sc, l2)" by (rule prod.exhaust)
  have l1: "l1 = Called ?c y # l0" using y by (auto simp: call_def)
  have l2: "l2 = SawNodes (PendingOf m) sc # l1" using sc by (auto simp: see_nodes_def Let_def)
  have i1: "run_inv m tot l0 {} None l1" by (rule inv_quiet [OF inv_base]) (simp add: l1 quiet_step calm_event_def)
  have i2: "run_inv m tot l0 {} None l2" by (rule inv_quiet [OF i1 quiet_nodes [OF quiet_same sc]])
  have i3: "run_inv m tot l0 {} None (fail_all_multinode_reservations E m d l2)" for d by (rule inv_quiet [OF i2]) simp
  note body = coordinate_body_def acquire_multinode_lock_def y sc prod.case
  show ?thesis
  proof (cases "\<exists>first rest q. y = Inr () \<and> sc = Inr (first # rest) \<and> int (length (first # rest)) = tot \<and> gpus_needed first tot = Some q")
    case False
    show ?thesis unfolding body using False i1 i2 i3
      by (cases y; cases sc; cases "tot = 0") (simp_all add: sc split: list.split option.split)
  next
    case True
    then obtain first rest q where n: "y = Inr ()" "sc = Inr (first # rest)" "int (length (first # rest)) = tot"
      "gpus_needed first tot = Some q" by blast
    let ?t = "text_or first ''gpu_type'' ''a100''"
    obtain av l3 where av: "check_gpu_availability E c ?t l2 = (av, l3)" by (rule prod.exhaust)
    show ?thesis
    proof (cases av)
      case (Inl e)
      have "run_inv m tot l0 {} None l3" by (rule inv_quiet [OF i2 quiet_free_error [OF av [unfolded Inl]]])
      then show ?thesis unfolding body using n Inl by (simp add: sc av)
    next
      case (Inr free)
      obtain up z where l3: "l3 = up @ SawFree ?t (Inr free) # MadeClient z # l2" "list_all calm_event up"
        using quiet_free [OF av [unfolded Inr]] by blast
      let ?held = "up @ [SawFree ?t (Inr free), MadeClient z]"
      let ?es = "[Called (DropRow (lock_id m)) (answer E (DropRow (lock_id m)) l3)] @ ?held @
        [SawNodes (PendingOf m) (Inr (first # rest)), Called ?c (Inr ())]"
      have q3: "quiet l2 l3" unfolding adds_def using l3 by (intro exI [of _ ?held]) (simp add: calm_event_def)
      have i4: "run_inv m tot l0 {} None (queue_all_multinode_reservations E m q ?t free l3)"
        by (rule inv_quiet [OF inv_quiet [OF i2 q3]]) simp
      have st: "started m tot (first # rest) ?es" if "q \<le> of_int free"
        unfolding started_def
        by (rule exI [of _ "[]"], rule exI, rule exI [of _ ?held], rule exI [of _ "lock_row E m l0"], rule exI [of _ "p_now E l0"],
            rule exI [of _ "[]"], rule exI [of _ free], rule exI [of _ q])
          (use that n l3(2) in \<open>simp add: calm_event_def\<close>)
      have none: "each_call alloc_of (alloc_ok m tot) ?es"
        by (rule each_call_none) (use l3(2) in \<open>auto simp: list_all_iff calm_event_def\<close>)
      have eq: "release_multinode_lock E m l3 = ?es @ l0" by (simp add: release_event l3(1) l2 l1 n(1,2))
      have "run_inv m tot l0 {} (Some (first # rest)) (release_multinode_lock E m l3)" if "q \<le> of_int free"
        unfolding run_inv_def eq using st [OF that] none by (intro exI [of _ ?es]) simp
      then have i5: "run_inv m tot l0 {} None (snd (start_nodes E c m tot (first # rest) (release_multinode_lock E m l3)))" if "q \<le> of_int free"
        using inv_start_nodes that by blast
      show ?thesis unfolding body using n Inr i4 i5 by (simp add: sc av)
    qed
  qed
qed


subsection \<open>How a run ends\<close>

fun status_write :: "pevent \<Rightarrow> (string \<times> ddb) option" where
  "status_write (Called (EditRow rid ch rm) (Inr u)) = map_option (Pair rid) (dget ch ''status'')"
| "status_write e = None"

fun last_status :: "string \<Rightarrow> plog \<Rightarrow> ddb option" where
  \<comment> \<open>the last status that was written to a row with success\<close>
  "last_status rid [] = None"
| "last_status rid (e # es) =
     (case status_write e of Some (k, v) \<Rightarrow> if k = rid then Some v else last_status rid es | None \<Rightarrow> last_status rid es)"

definition status_marked :: "string \<Rightarrow> string \<Rightarrow> plog \<Rightarrow> bool" where
  \<comment> \<open>the nodes of the reservation were read, and at the end each of their rows has the status\<close>
  "status_marked status m es \<longleftrightarrow>
     (\<exists>rs. SawNodes (NodesOf m) (Inr rs) \<in> set es \<and>
        (\<forall>r \<in> set rs. text_at r ''reservation_id'' \<noteq> [] \<longrightarrow> last_status (text_at r ''reservation_id'') es = Some (DStr status)))"

definition node_done :: "string \<Rightarrow> pevent set \<Rightarrow> bool" where
  \<comment> \<open>the row of the node was read, and the call for its GPUs has returned\<close>
  "node_done rid K \<longleftrightarrow>
     (\<exists>row peers cid. SawItem rid False (Inr (Some row)) \<in> K \<and> Called (Allocate cid (with_peers peers row)) (Inr ()) \<in> K)"

definition all_started :: "string \<Rightarrow> int \<Rightarrow> plog \<Rightarrow> bool" where
  \<comment> \<open>the pending rows were as many as asked for, and all have been done\<close>
  "all_started m tot es \<longleftrightarrow>
     (\<exists>nodes. SawNodes (PendingOf m) (Inr nodes) \<in> set es \<and> int (length nodes) = tot \<and>
        (\<forall>r \<in> set nodes. node_done (text_at r ''reservation_id'') (set es)))"

definition nodes_readable :: "penv \<Rightarrow> string \<Rightarrow> bool" where
  "nodes_readable E m \<longleftrightarrow> (\<forall>lg. snd (p_nodes E lg (NodesOf m)) = None)"

definition rows_writable :: "penv \<Rightarrow> bool" where
  "rows_writable E \<longleftrightarrow> (\<forall>lg rid ch rm. p_fault E lg (EditRow rid ch rm) = None)"

definition sets :: "string list \<Rightarrow> string \<Rightarrow> plog \<Rightarrow> bool" where
  \<comment> \<open>the events write the status to these rows and leave the others\<close>
  "sets ks status es \<longleftrightarrow>
     (\<forall>k X. last_status k (es @ X) = (if k \<in> set ks then Some (DStr status) else last_status k X))"

lemma sets_Nil [simp]: "sets [] s []"
  by (simp add: sets_def)

lemma sets_app: "sets ks s es \<Longrightarrow> sets js s fs \<Longrightarrow> sets (js @ ks) s (fs @ es)"
  by (auto simp: sets_def)

lemma sets_event: "status_write e = None \<Longrightarrow> sets ks s es \<Longrightarrow> sets ks s (e # es)"
  by (simp add: sets_def)

lemma adds_sets: "adds (sets ks s) lg l1 \<Longrightarrow> adds (sets js s) l1 l2 \<Longrightarrow> adds (sets (js @ ks) s) lg l2"
  unfolding adds_def using sets_app by (metis append_assoc)

lemma sets_history: "adds (sets ks s) lg l1 \<Longrightarrow> adds (sets ks s) lg (append_status_history E rid x d l1)"
proof -
  have e: "adds (sets ks s) lg l1 \<Longrightarrow> status_write e = None \<Longrightarrow> adds (sets ks s) lg (e # l1)" for e l1
    unfolding adds_def by (metis append_Cons sets_event)
  then show "adds (sets ks s) lg l1 \<Longrightarrow> adds (sets ks s) lg (append_status_history E rid x d l1)"
    by (simp add: append_status_history_def try_pcall_def call_def split: sum.split)
qed

lemma sets_status:
  assumes "rows_writable E" "rid \<noteq> []"
  shows "adds (sets [rid] s) lg (update_status E rid s d f lg)"
proof -
  define ch where "ch = (''last_updated'', DNum (of_int (p_now E lg))) # [(''status'', DStr s)] @
    (if d = [] then [] else [(''current_detailed_status'', DStr d)]) @ (if f \<noteq> [] \<and> s = ''failed'' then [(''failure_reason'', DStr f)] else [])"
  have ans: "answer E (EditRow rid ch []) lg = Inr ()" using assms(1) by (simp add: answer_def rows_writable_def)
  have step: "adds (sets [rid] s) lg (Called (EditRow rid ch []) (Inr ()) # lg)"
    unfolding adds_def sets_def by (intro exI [of _ "[Called (EditRow rid ch []) (Inr ())]"]) (simp add: ch_def dict_simps)
  have u: "update_status E rid s d f lg =
      (let l1 = snd (call E (EditRow rid ch []) lg) in if d = [] then l1 else append_status_history E rid (now_iso E lg) d l1)"
    using assms(2) by (simp add: update_status_def Let_def update_fields_def try_pcall_def ch_def)
  show ?thesis unfolding u call_def ans snd_conv Let_def using step sets_history [OF step] by (cases "d = []") simp_all
qed

lemma sets_fold:
  assumes "\<And>r l. adds (sets (filter (\<lambda>k. k \<noteq> []) [text_at r ''reservation_id'']) s) l (f r l)"
  shows "\<exists>ks. set ks = {k \<in> (\<lambda>r. text_at r ''reservation_id'') ` set rs. k \<noteq> []} \<and> adds (sets ks s) lg (fold f rs lg)"
proof (induction rs arbitrary: lg)
  case (Cons r rs)
  let ?k = "filter (\<lambda>k. k \<noteq> []) [text_at r ''reservation_id'']"
  obtain ks where "set ks = {k \<in> (\<lambda>r. text_at r ''reservation_id'') ` set rs. k \<noteq> []}" "adds (sets ks s) (f r lg) (fold f rs (f r lg))"
    using Cons.IH by blast
  with adds_sets [OF assms this(2)] show ?case by (intro exI [of _ "ks @ ?k"]) auto
qed (simp add: adds_def exI [of _ "[]"])

lemma marked_by:
  assumes "set ks = {k \<in> (\<lambda>r. text_at r ''reservation_id'') ` set rs. k \<noteq> []}" "sets ks s es"
    "SawNodes (NodesOf m) (Inr rs) \<in> set X"
  shows "status_marked s m (es @ X)"
  unfolding status_marked_def
  by (rule exI [of _ rs]) (use assms in \<open>auto simp: sets_def\<close>)

definition ends :: "string \<Rightarrow> string \<Rightarrow> plog \<Rightarrow> plog \<Rightarrow> bool" where
  "ends s m lg lg' \<longleftrightarrow> (\<exists>es. lg' = es @ lg \<and> (\<forall>X. status_marked s m (es @ X)))"

lemma ends_after: "ends s m l1 l2 \<Longrightarrow> l1 = fs @ lg \<Longrightarrow> \<exists>es. l2 = es @ lg \<and> status_marked s m es"
  unfolding ends_def by (metis append_assoc)

lemma ends_marking:
  assumes "see_nodes E (NodesOf m) lg = (Inr rs, l1)" "adds (sets [] s) l1 l2"
    "\<And>r l. adds (sets (filter (\<lambda>k. k \<noteq> []) [text_at r ''reservation_id'']) s) l (f r l)"
  shows "ends s m lg (fold f rs l2)"
proof -
  have l1: "l1 = SawNodes (NodesOf m) (Inr rs) # lg" using assms(1) by (auto simp: see_nodes_def Let_def)
  obtain ks where ks: "set ks = {k \<in> (\<lambda>r. text_at r ''reservation_id'') ` set rs. k \<noteq> []}" "adds (sets ks s) l2 (fold f rs l2)"
    using sets_fold [OF assms(3)] by blast
  obtain es where es: "fold f rs l2 = es @ l1" "sets (ks @ []) s es"
    using adds_sets [OF assms(2) ks(2)] unfolding adds_def by auto
  have "status_marked s m ((es @ [SawNodes (NodesOf m) (Inr rs)]) @ X)" for X
    using marked_by [OF ks(1), of s es m "SawNodes (NodesOf m) (Inr rs) # X"] es(2) by simp
  then show ?thesis unfolding ends_def using es(1) l1
    by (intro exI [of _ "es @ [SawNodes (NodesOf m) (Inr rs)]"]) simp
qed

lemma readable:
  assumes "nodes_readable E m"
  obtains rs where "see_nodes E (NodesOf m) lg = (Inr rs, SawNodes (NodesOf m) (Inr rs) # lg)"
proof -
  have "all_pages (p_nodes E lg (NodesOf m)) = Inr (concat (fst (p_nodes E lg (NodesOf m))))"
    using assms by (simp add: nodes_readable_def all_pages_def)
  then show thesis using that unfolding see_nodes_def Let_def by metis
qed

lemma adds_none: "adds (sets [] s) lg lg"
  by (simp add: adds_def)

lemma fail_ends:
  assumes "nodes_readable E m" "rows_writable E"
  shows "ends ''failed'' m lg (fail_all_multinode_reservations E m d lg)"
proof -
  obtain rs where sc: "see_nodes E (NodesOf m) lg = (Inr rs, SawNodes (NodesOf m) (Inr rs) # lg)" by (rule readable [OF assms(1)])
  have "ends ''failed'' m lg (fold (mark_node E ''failed'' d) rs (SawNodes (NodesOf m) (Inr rs) # lg))"
    by (rule ends_marking [OF sc adds_none])
      (use assms(2) in \<open>simp add: mark_node_def sets_status adds_none\<close>)
  then show ?thesis by (simp add: fail_all_multinode_reservations_def update_all_multinode_status_def sc)
qed

lemma position_sets:
  "calculate_multinode_queue_position_and_wait_time E m n t a lg = (q, l1) \<Longrightarrow> adds (sets [] s) lg l1"
proof -
  have e: "adds (sets [] s) lg (SawNodes k r # l)" if "adds (sets [] s) lg l" for k r l
  proof -
    note h = that
    obtain es where "l = es @ lg" "sets [] s es" using h unfolding adds_def by blast
    then show ?thesis unfolding adds_def by (intro exI [of _ "SawNodes k r # es"]) (simp add: sets_event)
  qed
  show "calculate_multinode_queue_position_and_wait_time E m n t a lg = (q, l1) \<Longrightarrow> adds (sets [] s) lg l1"
    by (auto simp: calculate_multinode_queue_position_and_wait_time_def active_wait_def see_nodes_def Let_def e adds_none
        split: sum.splits option.splits if_splits)
qed

lemma queue_ends:
  assumes "nodes_readable E m" "rows_writable E"
  shows "ends ''queued'' m lg (queue_all_multinode_reservations E m n t a lg)"
proof -
  obtain rs where sc: "see_nodes E (NodesOf m) lg = (Inr rs, SawNodes (NodesOf m) (Inr rs) # lg)" by (rule readable [OF assms(1)])
  let ?l1 = "SawNodes (NodesOf m) (Inr rs) # lg"
  obtain q l2 where q: "calculate_multinode_queue_position_and_wait_time E m n t a ?l1 = (q, l2)" by (rule prod.exhaust)
  have i: "adds (sets [] ''queued'') l (update_queue_info E rid p w f l)" for l rid p w f
    by (auto simp: update_queue_info_def update_fields_def try_pcall_def call_def adds_def dict_simps sets_def answer_def
        split: option.split)
  have "ends ''queued'' m lg (fold (queue_node E q a) rs l2)"
  proof (rule ends_marking [OF sc position_sets [OF q]])
    fix r l
    show "adds (sets (filter (\<lambda>k. k \<noteq> []) [text_at r ''reservation_id'']) ''queued'') l (queue_node E q a r l)"
      using adds_sets [OF i sets_status [OF assms(2)]] by (simp add: queue_node_def adds_none)
  qed
  then show ?thesis by (simp add: queue_all_multinode_reservations_def sc q)
qed

subsection \<open>The nodes\<close>

abbreviation grows :: "plog \<Rightarrow> plog \<Rightarrow> bool" where
  "grows lg lg' \<equiv> \<exists>es. lg' = es @ lg"

lemma grows_quiet: "quiet lg lg1 \<Longrightarrow> grows lg lg1"
  by (auto simp: adds_def)

lemma grows_set: "grows lg lg1 \<Longrightarrow> set lg \<subseteq> set lg1"
  by auto

lemma grows_further: "grows lg l1 \<Longrightarrow> grows l1 l2 \<Longrightarrow> grows lg l2"
  by auto

lemma grows_pod_status: "grows lg (update_multinode_pod_status E rid s i n lg)"
  by (rule grows_quiet) simp

lemma start_node_result:
  assumes "start_node E c rid i n node lg = (b, lg')"
  shows "grows lg lg' \<and> (b \<longrightarrow> (\<exists>cid. Called (Allocate cid node) (Inr ()) \<in> set lg'))"
proof -
  let ?lg1 = "update_multinode_pod_status E rid ''preparing pod'' i n lg"
  obtain y lg2 where y: "create_reservation E c node ?lg1 = (y, lg2)" by (rule prod.exhaust)
  have g2: "grows lg lg2" using quiet_create [OF y] grows_further [OF grows_pod_status] by blast
  show ?thesis
  proof (cases y)
    case (Inl e)
    then have "b = False" "lg' = update_multinode_pod_status E rid ''processing failed'' i n lg2"
      using assms by (simp_all add: start_node_def y)
    then show ?thesis using grows_further [OF g2 grows_pod_status] by simp
  next
    case (Inr cid)
    let ?lg3 = "update_multinode_pod_status E rid ''allocating resources'' i n lg2"
    obtain z lg4 where z: "call E (Allocate cid node) ?lg3 = (z, lg4)" by (rule prod.exhaust)
    have z': "lg4 = Called (Allocate cid node) z # ?lg3" using z by (auto simp: call_def)
    have g4: "grows lg lg4" using grows_further [OF g2 grows_further [OF grows_pod_status]] unfolding z'
      by (metis append_Cons append_Nil)
    consider "b = False" "lg' = update_multinode_pod_status E rid ''failed to create'' i n lg2"
      | "b = False" "lg' = update_multinode_pod_status E rid ''processing failed'' i n lg4"
      | "z = Inr ()" "lg' = lg4"
      using assms unfolding start_node_def y Inr prod.case sum.case z by (cases "cid = []"; cases z) auto
    then show ?thesis
    proof cases
      case 1
      then show ?thesis using grows_further [OF g2 grows_pod_status] by simp
    next
      case 2
      then show ?thesis using grows_further [OF g4 grows_pod_status] by simp
    next
      case 3
      then have "Called (Allocate cid node) (Inr ()) \<in> set lg'" by (simp add: z')
      with 3 g4 show ?thesis by blast
    qed
  qed
qed

lemma node_result:
  assumes "process_multinode_individual_node E c rid (Some k) n peers lg = (b, lg')"
  shows "grows lg lg' \<and> (b \<longrightarrow> node_done rid (set lg'))"
proof -
  obtain y lg1 where y: "get_item E False rid lg = (y, lg1)" by (rule prod.exhaust)
  have l1: "lg1 = SawItem rid False y # lg" using y by (auto simp: get_item_def Let_def)
  show ?thesis
  proof (cases "\<exists>row. y = Inr (Some row)")
    case True
    then obtain row where row: "y = Inr (Some row)" by blast
    have r: "start_node E c rid (Some k) n (with_peers peers row) lg1 = (b, lg')"
      using assms by (simp add: process_multinode_individual_node_def y row)
    from start_node_result [OF r] have "grows lg1 lg'" by blast
    then have "grows lg lg'" "SawItem rid False (Inr (Some row)) \<in> set lg'" using l1 row by auto
    with start_node_result [OF r] show ?thesis unfolding node_done_def by blast
  next
    case False
    then obtain s where "b = False" "lg' = update_multinode_pod_status E rid s (Some k) n lg1"
      using assms by (cases y) (auto simp: process_multinode_individual_node_def y split: option.splits)
    moreover have "grows lg lg1" using l1 by simp
    ultimately show ?thesis using grows_further [OF _ grows_pod_status] by blast
  qed
qed

lemma node_done_mono: "node_done rid K \<Longrightarrow> K \<subseteq> L \<Longrightarrow> node_done rid L"
  unfolding node_done_def by blast

lemma run_nodes_result:
  "run_nodes E c n peers i rs lg = (bs, lg') \<Longrightarrow>
     grows lg lg' \<and> length bs = length rs \<and> (list_all (\<lambda>b. b) bs \<longrightarrow> (\<forall>r \<in> set rs. node_done (text_at r ''reservation_id'') (set lg')))"
proof (induction rs arbitrary: i lg bs)
  case (Cons r rs)
  define one where "one = (case to_int (dget_or r ''node_index'' (DNum (of_nat i))) of Inl _ \<Rightarrow> (False, lg)
      | Inr k \<Rightarrow> process_multinode_individual_node E c (text_at r ''reservation_id'') (Some k) (Some n) peers lg)"
  obtain b l1 where b: "one = (b, l1)" by (rule prod.exhaust)
  have g: "grows lg l1 \<and> (b \<longrightarrow> node_done (text_at r ''reservation_id'') (set l1))"
    using b node_result unfolding one_def by (auto split: sum.splits)
  obtain bs' where bs: "run_nodes E c n peers (Suc i) rs l1 = (bs', lg')" "bs = b # bs'"
    using Cons.prems b unfolding one_def by (auto split: prod.splits)
  note ih = Cons.IH [OF bs(1)]
  then have "grows lg lg'" "set l1 \<subseteq> set lg'" using g by auto
  then show ?case using ih g bs(2) node_done_mono by auto
qed simp

lemma all_true: "length (filter (\<lambda>b. b) bs) = length bs \<Longrightarrow> list_all (\<lambda>b. b) bs"
  by (metis length_filter_less less_irrefl list_all_iff)

lemma marked_release: "status_marked s m es \<Longrightarrow> status_marked s m (release_multinode_lock E k es)"
  by (auto simp: status_marked_def release_event)

lemma all_started_mono:
  assumes "all_started m tot es" "set es \<subseteq> set fs" shows "all_started m tot fs"
proof -
  obtain nodes where "SawNodes (PendingOf m) (Inr nodes) \<in> set es" "int (length nodes) = tot"
    "\<forall>r \<in> set nodes. node_done (text_at r ''reservation_id'') (set es)"
    using assms(1) unfolding all_started_def by blast
  then show ?thesis using assms(2) node_done_mono unfolding all_started_def by blast
qed

lemma all_started_release: "all_started m tot es \<Longrightarrow> all_started m tot (release_multinode_lock E k es)"
  by (erule all_started_mono) (auto simp: release_event)

lemma ends_marked: "ends s m lg lg' \<Longrightarrow> status_marked s m lg'"
  unfolding ends_def by auto

lemma start_nodes_outcome:
  assumes "start_nodes E c m tot nodes lg = (Inr b, lg')" "int (length nodes) = tot" "SawNodes (PendingOf m) (Inr nodes) \<in> set lg"
    "nodes_readable E m" "rows_writable E"
  shows "if b then all_started m tot lg' else status_marked ''failed'' m lg'"
proof -
  obtain peers where p: "peer_pod_names nodes = Inr peers"
    using assms(1) by (cases "peer_pod_names nodes") (auto simp: start_nodes_def)
  obtain bs l1 where r: "run_nodes E c tot (DList (map DStr peers)) 0 nodes lg = (bs, l1)" by (rule prod.exhaust)
  note res = run_nodes_result [OF r]
  show ?thesis
  proof (cases "int (length (filter (\<lambda>b. b) bs)) = tot")
    case True
    then have "list_all (\<lambda>b. b) bs" using res assms(2) by (intro all_true) simp
    then have "all_started m tot l1" using res assms(2,3) unfolding all_started_def by auto
    moreover have "b" "set l1 \<subseteq> set lg'"
      using assms(1) True by (auto simp: start_nodes_def p r try_pcall_def call_def)
    ultimately show ?thesis using all_started_mono by simp
  next
    case False
    then obtain d where "b = False" "lg' = fail_all_multinode_reservations E m d l1"
      using assms(1) by (auto simp: start_nodes_def p r Let_def)
    then show ?thesis using ends_marked [OF fail_ends [OF assms(4,5)]] by simp
  qed
qed

lemma body_outcome:
  assumes "coordinate_body E c m tot [] = (Inr b, lg)" "nodes_readable E m" "rows_writable E"
  shows "if b then (\<exists>r now e. lg = [Called (PutLock r now) (Inl e)]) \<or> all_started m tot lg \<or> status_marked ''queued'' m lg
    else status_marked ''failed'' m lg"
proof -
  let ?c = "PutLock (lock_row E m []) (p_now E [])"
  obtain y l1 where y: "call E ?c [] = (y, l1)" by (rule prod.exhaust)
  obtain sc l2 where sc: "see_nodes E (PendingOf m) l1 = (sc, l2)" by (rule prod.exhaust)
  have l1: "l1 = [Called ?c y]" using y by (auto simp: call_def)
  have l2: "l2 = SawNodes (PendingOf m) sc # l1" using sc by (auto simp: see_nodes_def Let_def)
  note body = assms(1) [unfolded coordinate_body_def acquire_multinode_lock_def y prod.case]
  note failed = ends_marked [OF fail_ends [OF assms(2,3)]]
  show ?thesis
  proof (cases y)
    case (Inl e)
    then show ?thesis using body l1 by auto
  next
    case (Inr u)
    obtain nodes where n: "sc = Inr nodes" using body by (cases sc) (simp_all add: Inr sc)
    show ?thesis
    proof (cases "int (length nodes) = tot")
      case False
      then have "b = False" "lg = fail_all_multinode_reservations E m ''Incomplete node set'' l2" using body by (simp_all add: Inr sc n)
      then show ?thesis using failed by simp
    next
      case tot: True
      obtain first rest where f: "nodes = first # rest" using body tot by (cases nodes) (simp_all add: Inr sc n)
      obtain q where q: "gpus_needed first tot = Some q" using body tot by (cases "gpus_needed first tot") (simp_all add: Inr sc n f)
      let ?t = "text_or first ''gpu_type'' ''a100''"
      obtain av l3 where av: "check_gpu_availability E c ?t l2 = (av, l3)" by (rule prod.exhaust)
      obtain a where a: "av = Inr a" using body tot by (cases av) (simp_all add: Inr sc n f q av)
      have grow: "set l2 \<subseteq> set l3" using quiet_free [OF av [unfolded a]] by auto
      show ?thesis
      proof (cases "q \<le> of_int a")
        case True
        then have "start_nodes E c m tot nodes (release_multinode_lock E m l3) = (Inr b, lg)"
          using body tot by (simp add: Inr sc n f q av a)
        then have "if b then all_started m tot lg else status_marked ''failed'' m lg"
          by (rule start_nodes_outcome [OF _ tot _ assms(2,3)]) (use grow l2 n in \<open>auto simp: release_event\<close>)
        then show ?thesis by auto
      next
        case False
        then have "b" "lg = queue_all_multinode_reservations E m q ?t a l3" using body tot by (simp_all add: Inr sc n f q av a)
        then show ?thesis using ends_marked [OF queue_ends [OF assms(2,3)]] by simp
      qed
    qed
  qed
qed

text \<open>C18: a run of the coordinator leaves the rows of the reservation in a known state, as long as the rows of its nodes can be
  read and statuses can be written. If it reports success, then it was refused the lock and has done nothing else but delete the lock
  row, or the calls for the GPUs of all pending nodes have returned (which they also do after a failed build of a
  Docker image, so this does not mean that the pods run), or at the end the last status of every row of the reservation is
  queued. If it reports a failure, the last status of every row is failed. A failure does not release the
  GPUs of the nodes that were started.
\<close>
theorem multinode_outcome:
  assumes "nodes_readable E m" "rows_writable E"
  shows "case coordinate_multinode_reservation E c m tot [] of (b, es) \<Rightarrow>
     if b then (\<exists>z r now e. es = [Called (DropRow (lock_id m)) z, Called (PutLock r now) (Inl e)]) \<or>
               all_started m tot es \<or> status_marked ''queued'' m es
     else status_marked ''failed'' m es"
proof -
  obtain y lg where y: "coordinate_body E c m tot [] = (y, lg)" by (rule prod.exhaust)
  show ?thesis
  proof (cases y)
    case (Inl e)
    have "status_marked ''failed'' m (fail_all_multinode_reservations E m d lg)" for d by (rule ends_marked [OF fail_ends [OF assms]])
    then show ?thesis by (simp add: coordinate_multinode_reservation_def y Inl marked_release)
  next
    case (Inr b)
    from body_outcome [OF y [unfolded Inr] assms] show ?thesis
      by (cases b) (auto simp: coordinate_multinode_reservation_def y Inr release_event
          intro: marked_release [unfolded release_event] all_started_release [unfolded release_event])
  qed
qed

definition node_row :: "string \<Rightarrow> rat \<Rightarrow> row" where
  "node_row rid i = [(''reservation_id'', DStr rid), (''master_reservation_id'', DStr ''m-1''), (''status'', DStr ''pending''),
     (''node_index'', DNum i), (''total_nodes'', DNum 2), (''user_id'', DStr ''u''), (''gpu_type'', DStr ''cpu-x86''),
     (''gpu_count'', DNum 0), (''duration_hours'', DNum 8), (''is_multinode'', DBool True)]"

definition second_fails :: penv where
  \<comment> \<open>two nodes without GPUs; the allocation of the second raises\<close>
  "second_fails = idle\<lparr>
     p_nodes := (\<lambda>_ q. case q of NodesOf _ \<Rightarrow> ([[node_row ''n-1'' 0, node_row ''n-2'' 1]], None)
       | PendingOf _ \<Rightarrow> ([[node_row ''n-1'' 0], [node_row ''n-2'' 1]], None) | _ \<Rightarrow> ([], None)),
     p_stale := (\<lambda>_ rid. Some (node_row rid 0)),
     p_fault := (\<lambda>_ x. case x of Allocate rid _ \<Rightarrow> (if rid = ''n-2'' then Some (Fault OtherError) else None) | _ \<Rightarrow> None)\<rparr>"

definition started_ids :: "plog \<Rightarrow> string list" where
  "started_ids lg = List.map_filter (\<lambda>e. case e of Called (Allocate cid _) (Inr _) \<Rightarrow> Some cid | _ \<Rightarrow> None) lg"

theorem multinode_outcome_witness:
  "status_marked ''failed'' ''m-1'' (snd (coordinate_multinode_reservation second_fails plain_pcfg ''m-1'' 2 [])) \<and>
   started_ids (snd (coordinate_multinode_reservation second_fails plain_pcfg ''m-1'' 2 [])) = [''n-1'']"
proof -
  have r: "nodes_readable second_fails ''m-1''" "rows_writable second_fails"
    by (simp_all add: nodes_readable_def rows_writable_def second_fails_def)
  have f: "fst (coordinate_multinode_reservation second_fails plain_pcfg ''m-1'' 2 []) = False"
    and s: "started_ids (snd (coordinate_multinode_reservation second_fails plain_pcfg ''m-1'' 2 [])) = [''n-1'']"
    by code_simp+
  show ?thesis using multinode_outcome [OF r, where c = plain_pcfg and tot = 2] f s by (simp split: prod.splits)
qed

subsection \<open>What the coordinator does not achieve\<close>

text \<open>A processor that is refused the lock deletes it all the same.\<close>

lemma refused_lock_is_deleted:
  assumes "answer E (PutLock (lock_row E m lg) (p_now E lg)) lg = Inl e"
  shows "coordinate_multinode_reservation E c m tot lg =
    (True, release_multinode_lock E m (Called (PutLock (lock_row E m lg) (p_now E lg)) (Inl e) # lg))"
  by (simp add: coordinate_multinode_reservation_def coordinate_body_def acquire_multinode_lock_def call_def assms)

text \<open>The lock row has the master reservation too, but no status, so while it is there no processor finds the nodes ready. A lock that
  a coordinator has left behind is therefore never taken over, although its put allows it after 300 seconds.\<close>

lemma lock_row_not_ready:
  assumes "all_pages (p_nodes E lg (NodesOf m)) = Inr rs" "lock_row E' m lg' \<in> set rs"
  shows "fst (check_all_multinode_nodes_ready E m tot lg) = False"
proof -
  have "attr (lock_row E' m lg') ''status'' = DNull" by (simp add: lock_row_def attr_def dget_or_def dict_simps)
  then have "\<not> list_all (\<lambda>r. attr r ''status'' = DStr ''pending'') rs"
    using assms(2) by (force simp: list_all_iff)
  then show ?thesis using assms(1) by (simp add: check_all_multinode_nodes_ready_def see_nodes_def Let_def split: option.split)
qed

text \<open>The estimate for the queue fails as soon as a queued reservation is ahead that has a number of GPUs: the sum is a decimal, and
  its product with the buffer of 1.5 raises.\<close>

lemma multinode_estimate_fails:
  assumes "all_pages (p_nodes E lg (QueuedType t)) = Inr rs" "gpus_ahead (all_ahead m rs) = Some (gpus, True)" "gpus > 0"
  shows "fst (calculate_multinode_queue_position_and_wait_time E m n t a lg) = no_place E OtherError"
  using assms by (simp add: calculate_multinode_queue_position_and_wait_time_def see_nodes_def Let_def)

section \<open>The coordination lock\<close>

text \<open>
  Several processors may find the rows of the same reservation pending at the same time. The lock row of the
  reservations table decides which of them coordinates. A state has the lock row, if there is one, by its expiry
  time, the clock in seconds, and for each processor how far its run of \<open>coordinate_multinode_reservation\<close> has
  come: not started, refused, coordinating, starting the nodes after the early release, or finished. The flag says
  whether a processor deletes the lock row although it does not hold the lock, as the \<open>finally\<close> block does.
\<close>

datatype progress = Waiting | Refused | Coordinating | Starting | Finished

record lock_state =
  lk_expires :: "int option"
  lk_now :: int
  lk_progress :: "nat \<Rightarrow> progress"

definition lock_free :: "lock_state \<Rightarrow> bool" where
  \<comment> \<open>the condition of the put: no row, or one that has expired\<close>
  "lock_free s = (case lk_expires s of None \<Rightarrow> True | Some e \<Rightarrow> e < lk_now s)"

definition set_progress :: "nat \<Rightarrow> progress \<Rightarrow> int option \<Rightarrow> lock_state \<Rightarrow> lock_state" where
  "set_progress i p l s = s\<lparr>lk_progress := (lk_progress s)(i := p), lk_expires := l\<rparr>"

inductive lock_step :: "bool \<Rightarrow> lock_state \<Rightarrow> lock_state \<Rightarrow> bool" for del :: bool where
  take: "lk_progress s i = Waiting \<Longrightarrow> lock_free s \<Longrightarrow>
     lock_step del s (set_progress i Coordinating (Some (lk_now s + 300)) s)"
| refuse: "lk_progress s i = Waiting \<Longrightarrow> \<not> lock_free s \<Longrightarrow> lock_step del s (set_progress i Refused (lk_expires s) s)"
| leave_refused: "lk_progress s i = Refused \<Longrightarrow>
     lock_step del s (set_progress i Finished (if del then None else lk_expires s) s)"
| early_release: "lk_progress s i = Coordinating \<Longrightarrow> lock_step del s (set_progress i Starting None s)"
| leave_coordinating: "lk_progress s i = Coordinating \<Longrightarrow> lock_step del s (set_progress i Finished None s)"
| leave_starting: "lk_progress s i = Starting \<Longrightarrow>
     lock_step del s (set_progress i Finished (if del then None else lk_expires s) s)"
| tick: "0 \<le> d \<Longrightarrow> lock_step del s (s\<lparr>lk_now := lk_now s + d\<rparr>)"

definition lock_init :: lock_state where
  "lock_init = \<lparr>lk_expires = None, lk_now = 0, lk_progress = (\<lambda>_. Waiting)\<rparr>"

inductive lock_reachable :: "bool \<Rightarrow> lock_state \<Rightarrow> bool" for del :: bool where
  init: "lock_reachable del lock_init"
| step: "lock_reachable del s \<Longrightarrow> lock_step del s s' \<Longrightarrow> lock_reachable del s'"

inductive_cases lock_stepE: "lock_step del s s'"

lemma set_progress_simps [simp]:
  "lk_progress (set_progress i p l s) = (lk_progress s)(i := p)"
  "lk_expires (set_progress i p l s) = l" "lk_now (set_progress i p l s) = lk_now s"
  by (simp_all add: set_progress_def)

definition exclusive :: "lock_state \<Rightarrow> bool" where
  \<comment> \<open>the row is there while somebody coordinates, for at least the first 300 seconds, and one at most does\<close>
  "exclusive s \<longleftrightarrow>
     (\<forall>i. lk_progress s i = Coordinating \<longrightarrow> (\<exists>e. lk_expires s = Some e \<and> 300 \<le> e)) \<and>
     (\<forall>i j. lk_progress s i = Coordinating \<longrightarrow> lk_progress s j = Coordinating \<longrightarrow> i = j)"

lemma lock_now_nonneg: "lock_reachable del s \<Longrightarrow> 0 \<le> lk_now s"
  by (induction rule: lock_reachable.induct) (auto simp: lock_init_def elim!: lock_stepE)

lemma exclusive_step:
  assumes "lock_step False s s'" "exclusive s" "0 \<le> lk_now s" "lk_now s' \<le> 300"
  shows "exclusive s'"
  using assms(1)
proof (cases rule: lock_step.cases)
  case (take i)
  have "lk_progress s j \<noteq> Coordinating" for j
    using assms(2-4) take by (force simp: exclusive_def lock_free_def)
  then show ?thesis using take assms(3) by (auto simp: exclusive_def)
qed (use assms(2) in \<open>auto simp: exclusive_def split: if_splits\<close>)

text \<open>The lock does not keep two processors from coordinating the same reservation at the same time, although
  its time to live has not passed, because a processor that was refused the lock deletes it; if the lock
  were deleted only by the processor that holds it, then within the first 300 seconds at most one processor
  would coordinate, in every reachable state.
\<close>
theorem lock_exclusion:
  "(\<exists>s. lock_reachable True s \<and> lk_now s = 0 \<and> lk_progress s 0 = Coordinating \<and> lk_progress s 2 = Coordinating) \<and>
   (\<forall>s i j. lock_reachable False s \<longrightarrow> lk_now s \<le> 300 \<longrightarrow> lk_progress s i = Coordinating \<longrightarrow>
      lk_progress s j = Coordinating \<longrightarrow> i = j)"
proof (intro conjI allI impI)
  let ?a = "set_progress 0 Coordinating (Some 300) lock_init"
  let ?b = "set_progress 1 Refused (Some 300) ?a"
  let ?c = "set_progress 1 Finished None ?b"
  let ?d = "set_progress 2 Coordinating (Some 300) ?c"
  have "lock_step True lock_init ?a"
    using lock_step.take [of lock_init 0 True] by (simp add: lock_init_def lock_free_def)
  moreover have "lock_step True ?a ?b"
    using lock_step.refuse [of ?a 1 True] by (simp add: lock_init_def lock_free_def)
  moreover have "lock_step True ?b ?c"
    using lock_step.leave_refused [of ?b 1 True] by simp
  moreover have "lock_step True ?c ?d"
    using lock_step.take [of ?c 2 True] by (simp add: lock_init_def lock_free_def)
  ultimately have "lock_reachable True ?d" using lock_reachable.init lock_reachable.step by metis
  then show "\<exists>s. lock_reachable True s \<and> lk_now s = 0 \<and> lk_progress s 0 = Coordinating \<and> lk_progress s 2 = Coordinating"
    by (intro exI [of _ ?d]) (simp add: lock_init_def)
next
  fix s i j
  assume r: "lock_reachable False s" and t: "lk_now s \<le> 300"
    and c: "lk_progress s i = Coordinating" "lk_progress s j = Coordinating"
  have "lk_now s \<le> 300 \<longrightarrow> exclusive s" using r
  proof (induction rule: lock_reachable.induct)
    case init
    then show ?case by (simp add: exclusive_def lock_init_def)
  next
    case (step s s')
    have "lk_now s \<le> lk_now s'" using step.hyps(2) by (auto elim!: lock_stepE)
    then show ?case using exclusive_step [OF step.hyps(2)] lock_now_nonneg [OF step.hyps(1)] step.IH by auto
  qed
  then show "i = j" using t c by (auto simp: exclusive_def)
qed

theorem lock_exclusion_witness:
  "lock_reachable False (set_progress 0 Coordinating (Some 300) lock_init) \<and>
   lk_progress (set_progress 0 Coordinating (Some 300) lock_init) 1 \<noteq> Coordinating"
proof -
  let ?a = "set_progress 0 Coordinating (Some 300) lock_init"
  have "lock_step False lock_init ?a"
    using lock_step.take [of lock_init 0 False] by (simp add: lock_init_def lock_free_def)
  then have r: "lock_reachable False ?a" using lock_reachable.init lock_reachable.step by metis
  have n: "lk_now ?a \<le> 300" "lk_progress ?a 0 = Coordinating" by (simp_all add: lock_init_def)
  have "lk_progress ?a 1 = Coordinating \<Longrightarrow> (0 :: nat) = 1" using lock_exclusion r n by blast
  then show ?thesis using r by auto
qed

end
