(* ===== verification/Gpu_Expiry_Handler.thy ===== *)
theory Gpu_Expiry_Handler
  imports Gpu_Cleanup
begin

section \<open>The expiry handler\<close>

text \<open>
  \<open>reservation_expiry/index.py\<close>, the handler: it runs every minute, ends the reservations whose time is over or whose
  pod is gone, warns users, cancels old queued requests, frees disks, and cleans up after ended reservations, as
  long as there is time.
\<close>

record counts =
  n_warned :: nat
  n_expired :: nat
  n_stale :: nat
  n_oom :: nat

type_synonym xstate = "counts \<times> xlog"

definition bump_expired :: "counts \<Rightarrow> counts" where "bump_expired n = n\<lparr>n_expired := Suc (n_expired n)\<rparr>"

subsection \<open>Preparing and active reservations\<close>

definition preparing_step :: "xenv \<Rightarrow> int \<Rightarrow> xrow \<Rightarrow> xstate \<Rightarrow> xstate" where
  "preparing_step E now r st =
     (case time_of E (or_empty (x_created r)) of
        Inl _ \<Rightarrow> st
      | Inr t \<Rightarrow>
          (if t < now - 3600 then (bump_expired (fst st), expire_stuck_preparing_reservation E r (snd st)) else st))"

definition just_launched :: "xenv \<Rightarrow> int \<Rightarrow> xrow \<Rightarrow> bool" where
  \<comment> \<open>\<open>skip_pod_check\<close>\<close>
  "just_launched E now r \<longleftrightarrow>
     ddb_true (or_empty (x_launched r)) \<and>
     (case iso_time E (or_empty (x_launched r)) of Inl _ \<Rightarrow> False | Inr t \<Rightarrow> now < t + 10 * 60)"

definition pod_checks :: "xenv \<Rightarrow> xcfg \<Rightarrow> int \<Rightarrow> xrow \<Rightarrow> xstate \<Rightarrow> bool \<times> xstate" where
  \<comment> \<open>whether the reservation was ended, so that the loop continues with the next one\<close>
  "pod_checks E c now r st =
     (if x_pod r = [] \<or> just_launched E now r then (False, st)
      else case check_pod_exists E (x_pod r) (snd st) of
          (False, lg1) \<Rightarrow> (True, bump_expired (fst st), expire_reservation_due_to_missing_pod E c r lg1)
        | (True, lg1) \<Rightarrow>
            (case check_pod_dead E (x_pod r) lg1 of
               (None, lg2) \<Rightarrow> (False, fst st, lg2)
             | (Some reason, lg2) \<Rightarrow>
                 (case expire_reservation_due_to_dead_pod E c r reason lg2 of
                    (Inl _, lg3) \<Rightarrow> (False, fst st, lg3)
                  | (Inr _, lg3) \<Rightarrow> (True, bump_expired (fst st), lg3))))"

definition warning_to_send :: "(string, bool) dict \<Rightarrow> int \<Rightarrow> int option" where
  \<comment> \<open>the minutes that are left, and the warnings sent so far\<close>
  "warning_to_send sent left =
     find (\<lambda>level. left \<le> level \<and> \<not> dget_or sent (warning_key level) False) (sorted_by_desc (\<lambda>x. x) WARNING_LEVELS)"

definition send_warning :: "xenv \<Rightarrow> xcfg \<Rightarrow> int \<Rightarrow> xrow \<Rightarrow> xstate \<Rightarrow> xstate" where
  "send_warning E c now r st =
     (case warning_to_send (x_warnings r) ((expires_at E r - now) div 60) of
        None \<Rightarrow> st
      | Some level \<Rightarrow> ((fst st)\<lparr>n_warned := Suc (n_warned (fst st))\<rparr>, warn_user_expiring E c r level (snd st)))"

definition oom_check :: "xenv \<Rightarrow> int \<Rightarrow> xrow \<Rightarrow> xstate \<Rightarrow> xstate" where
  "oom_check E now r st =
     (if x_pod r = [] \<or> just_launched E now r then st
      else case check_pod_oom_status E (x_pod r) (snd st) of
          (None, lg1) \<Rightarrow> (fst st, lg1)
        | (Some i, lg1) \<Rightarrow>
            (case handle_oom_event E r i lg1 of
               (b, lg2) \<Rightarrow> ((if b then (fst st)\<lparr>n_oom := Suc (n_oom (fst st))\<rparr> else fst st), lg2)))"

definition active_step :: "xenv \<Rightarrow> xcfg \<Rightarrow> int \<Rightarrow> xrow \<Rightarrow> xstate \<Rightarrow> xstate" where
  "active_step E c now r st =
     (if expires_at E r + k_grace c < now then
        (case expire_reservation E c r (snd st) of
           (Inl _, lg1) \<Rightarrow> (fst st, lg1)
         | (Inr _, lg1) \<Rightarrow> (bump_expired (fst st), lg1))
      else case pod_checks E c now r st of
          (True, st1) \<Rightarrow> st1
        | (False, st1) \<Rightarrow> oom_check E now r (send_warning E c now r st1))"

definition see_running :: "xenv \<Rightarrow> xlog \<Rightarrow> (xrow list \<times> xrow list) \<times> xlog" where
  \<comment> \<open>active and preparing reservations; none if a query fails\<close>
  "see_running E lg =
     (case see_rows E ''active'' lg of
        (Inl _, lg1) \<Rightarrow> (([], []), lg1)
      | (Inr act, lg1) \<Rightarrow>
          (case see_rows E ''preparing'' lg1 of
             (Inl _, lg2) \<Rightarrow> (([], []), lg2)
           | (Inr prep, lg2) \<Rightarrow> ((act, prep), lg2)))"

subsection \<open>Queued reservations\<close>

definition see_both :: "xenv \<Rightarrow> string \<Rightarrow> string \<Rightarrow> xlog \<Rightarrow> xrow list res \<times> xlog" where
  "see_both E s t lg =
     (case see_rows E s lg of
        (Inl e, lg1) \<Rightarrow> (Inl e, lg1)
      | (Inr rs, lg1) \<Rightarrow>
          (case see_rows E t lg1 of (Inl e, lg2) \<Rightarrow> (Inl e, lg2) | (Inr qs, lg2) \<Rightarrow> (Inr (rs @ qs), lg2)))"

definition stale_step :: "xenv \<Rightarrow> int \<Rightarrow> xrow \<Rightarrow> xstate \<Rightarrow> xstate" where
  "stale_step E now r st =
     (case time_of E (or_empty (x_created r)) of
        Inl _ \<Rightarrow> st
      | Inr t \<Rightarrow>
          (if t < now - 48 * 60 * 60 then
             ((fst st)\<lparr>n_stale := Suc (n_stale (fst st))\<rparr>, cancel_stale_reservation E r (snd st))
           else st))"

subsection \<open>Clean-up after ended reservations\<close>

definition cleanup_if_there :: "xenv \<Rightarrow> xcfg \<Rightarrow> xrow \<Rightarrow> xlog \<Rightarrow> xlog" where
  "cleanup_if_there E c r lg =
     (case check_pod_exists E (x_pod r) lg of
        (False, lg1) \<Rightarrow> release_disk E r lg1
      | (True, lg1) \<Rightarrow> snd (cleanup_pod E c (x_pod r) gpu_ns r lg1))"

definition caught :: "exc \<Rightarrow> bool" where
  \<comment> \<open>\<open>except (ValueError, AttributeError)\<close>\<close>
  "caught e \<longleftrightarrow> e = ValueError \<or> e = AttributeError"

fun failed_loop :: "xenv \<Rightarrow> xcfg \<Rightarrow> int \<Rightarrow> xrow list \<Rightarrow> xlog \<Rightarrow> xlog" where
  \<comment> \<open>an exception that is not caught in the loop ends it\<close>
  "failed_loop E c now [] lg = lg"
| "failed_loop E c now (r # rs) lg =
     (if x_pod r = [] then failed_loop E c now rs lg
      else case time_of E (case x_failed r of Some v \<Rightarrow> v | None \<Rightarrow> or_empty (x_created r)) of
          Inl e \<Rightarrow> (if caught e then failed_loop E c now rs lg else lg)
        | Inr t \<Rightarrow>
            (if t < now - 24 * 3600 then failed_loop E c now rs lg
             else failed_loop E c now rs (cleanup_if_there E c r lg)))"

definition failed_cleanup :: "xenv \<Rightarrow> xcfg \<Rightarrow> int \<Rightarrow> xlog \<Rightarrow> xlog" where
  "failed_cleanup E c now lg =
     (case see_rows E ''failed'' lg of (Inl _, lg1) \<Rightarrow> lg1 | (Inr rs, lg1) \<Rightarrow> failed_loop E c now rs lg1)"

definition pod_prefix :: string where "pod_prefix = ''gpu-dev-''"

definition min_budget :: int where "min_budget = 120000"

fun pods_loop :: "xenv \<Rightarrow> xcfg \<Rightarrow> string list \<Rightarrow> xlog \<Rightarrow> xlog" where
  "pods_loop E c [] lg = lg"
| "pods_loop E c (p # ps) lg =
     (case see_budget E lg of
        (ms, lg1) \<Rightarrow>
          (if ms < min_budget then lg1
           else case see_prefix E (drop (length pod_prefix) p) lg1 of
               (Inr (r # _), lg2) \<Rightarrow>
                 pods_loop E c ps (if terminal_status (x_status r) then snd (cleanup_pod E c p gpu_ns r lg2) else lg2)
             | (_, lg2) \<Rightarrow> pods_loop E c ps lg2))"

definition pod_centric_cleanup :: "xenv \<Rightarrow> xcfg \<Rightarrow> xlog \<Rightarrow> xlog" where
  "pod_centric_cleanup E c lg =
     (case see_client E lg of
        (Inl _, lg1) \<Rightarrow> lg1
      | (Inr _, lg1) \<Rightarrow>
          (case see_pods E lg1 of
             (Inl _, lg2) \<Rightarrow> lg2
           | (Inr ps, lg2) \<Rightarrow> pods_loop E c (filter (\<lambda>p. startswith p pod_prefix) ps) lg2))"

fun ended_loop :: "xenv \<Rightarrow> xcfg \<Rightarrow> int \<Rightarrow> xrow list \<Rightarrow> xlog \<Rightarrow> xlog" where
  "ended_loop E c now [] lg = lg"
| "ended_loop E c now (r # rs) lg =
     (case see_budget E lg of
        (ms, lg1) \<Rightarrow>
          (if ms < min_budget then lg1
           else let v = (case x_expired r of Some v \<Rightarrow> v | None \<Rightarrow> or_empty (x_cancelled r)) in
             if x_pod r = [] \<or> \<not> ddb_true v then ended_loop E c now rs lg1
             else case time_of E v of
                 Inl e \<Rightarrow> (if caught e then ended_loop E c now rs lg1 else lg1)
               | Inr t \<Rightarrow>
                   (if t < now - 7 * 24 * 3600 then ended_loop E c now rs lg1
                    else ended_loop E c now rs (cleanup_if_there E c r lg1))))"

definition ended_cleanup :: "xenv \<Rightarrow> xcfg \<Rightarrow> int \<Rightarrow> xlog \<Rightarrow> xlog" where
  "ended_cleanup E c now lg =
     (case see_both E ''expired'' ''cancelled'' lg of (Inl _, lg1) \<Rightarrow> lg1 | (Inr rs, lg1) \<Rightarrow> ended_loop E c now rs lg1)"

subsection \<open>Snapshots\<close>

definition tag_snapshot :: "xenv \<Rightarrow> drow \<Rightarrow> snapshot \<Rightarrow> nat \<times> xlog \<Rightarrow> nat \<times> xlog" where
  "tag_snapshot E d s st =
     (if ''delete-date'' \<in> set (dkeys (tags_of s)) then st
      else case do_call E (TagSnapshot (s_id s)
               [(''delete-date'', d_delete_date d),
                (''marked-deleted-at'', case d_marked d of None \<Rightarrow> str_int (e_now E (snd st)) | Some m \<Rightarrow> m)]) (snd st) of
          (Inl _, lg1) \<Rightarrow> (fst st, lg1)
        | (Inr _, lg1) \<Rightarrow> (Suc (fst st), lg1))"

definition tag_disk :: "xenv \<Rightarrow> drow \<Rightarrow> nat \<times> xlog \<Rightarrow> nat \<times> xlog" where
  "tag_disk E d st =
     (if d_user d = [] \<or> d_name d = [] \<or> d_delete_date d = [] then st
      else case see_snapshots E (OfDisk (d_user d) (d_name d)) (snd st) of
          (Inl _, lg1) \<Rightarrow> (fst st, lg1)
        | (Inr ss, lg1) \<Rightarrow> fold (tag_snapshot E d) ss (fst st, lg1))"

definition sync_disk_deleted_snapshots :: "xenv \<Rightarrow> xlog \<Rightarrow> nat \<times> xlog" where
  "sync_disk_deleted_snapshots E lg =
     (case see_disks E False lg of (Inl _, lg1) \<Rightarrow> (0, lg1) | (Inr ds, lg1) \<Rightarrow> fold (tag_disk E) ds (0, lg1))"

definition sync_snapshot :: "xenv \<Rightarrow> snapshot \<Rightarrow> nat \<times> xlog \<Rightarrow> nat \<times> xlog" where
  "sync_snapshot E s st =
     (let user = dget_or (tags_of s) ''gpu-dev-user'' []; disk = dget_or (tags_of s) ''disk_name'' [] in
      if user = [] \<or> disk = [] then st
      else case see_disk E user disk (snd st) of
          (Inr (Some d), lg1) \<Rightarrow>
            (if d_pending d \<noteq> 0 \<or> d_backing_up d then
               (Suc (fst st), update_disk_snapshot_completed E user disk (s_size s) None None lg1)
             else (fst st, lg1))
        | (_, lg1) \<Rightarrow> (fst st, lg1))"

definition sync_completed_snapshots :: "xenv \<Rightarrow> xlog \<Rightarrow> nat \<times> xlog" where
  "sync_completed_snapshots E lg =
     (case see_snapshots E CompletedDisks lg of (Inl _, lg1) \<Rightarrow> (0, lg1) | (Inr ss, lg1) \<Rightarrow> fold (sync_snapshot E) ss (0, lg1))"

definition drop_dated :: "xenv \<Rightarrow> snapshot \<Rightarrow> nat \<times> xlog \<Rightarrow> nat \<times> xlog" where
  "drop_dated E s st =
     (let date = dget_or (tags_of s) ''delete-date'' [] in
      if date \<noteq> [] \<and> date \<le> e_today E then
        (case do_call E (DropSnapshot (s_id s)) (snd st) of
           (Inl _, lg1) \<Rightarrow> (fst st, lg1)
         | (Inr _, lg1) \<Rightarrow> (Suc (fst st), lg1))
      else st)"

definition cleanup_soft_deleted_snapshots :: "xenv \<Rightarrow> xlog \<Rightarrow> nat \<times> xlog" where
  "cleanup_soft_deleted_snapshots E lg =
     (case see_snapshots E Dated lg of (Inl _, lg1) \<Rightarrow> (0, lg1) | (Inr ss, lg1) \<Rightarrow> fold (drop_dated E) ss (0, lg1))"

subsection \<open>The handler\<close>

datatype xanswer =
    SnapshotRun nat
  | ExpiryRun nat nat counts nat nat nat
    \<comment> \<open>active and queued reservations, the counters, deleted and tagged snapshots, synchronised disks\<close>

definition heavy_cleanup :: "xenv \<Rightarrow> xcfg \<Rightarrow> int \<Rightarrow> xlog \<Rightarrow> xlog" where
  "heavy_cleanup E c now lg = ended_cleanup E c now (pod_centric_cleanup E c (failed_cleanup E c now lg))"

definition finish_run :: "xenv \<Rightarrow> xcfg \<Rightarrow> int \<Rightarrow> nat \<Rightarrow> counts \<Rightarrow> xlog \<Rightarrow> xanswer res \<times> xlog" where
  \<comment> \<open>the handler after the active reservations, with their number\<close>
  "finish_run E c now active n lg =
     (case see_both E ''queued'' ''pending'' lg of
        (Inl e, lg1) \<Rightarrow> (Inl e, lg1)
      | (Inr waiting, lg1) \<Rightarrow>
          (case fold (stale_step E now) waiting (n, lg1) of
             (n1, lg2) \<Rightarrow>
               (case sync_disk_deleted_snapshots E (heavy_cleanup E c now (sweep_stale_disk_locks E lg2)) of
                  (tagged, lg3) \<Rightarrow>
                    (case sync_completed_snapshots E lg3 of
                       (synced, lg4) \<Rightarrow>
                         (case cleanup_soft_deleted_snapshots E lg4 of
                            (deleted, lg5) \<Rightarrow> (Inr (ExpiryRun active (length waiting) n1 deleted tagged synced), lg5))))))"

definition no_counts :: counts where
  "no_counts = \<lparr>n_warned = 0, n_expired = 0, n_stale = 0, n_oom = 0\<rparr>"

definition end_and_warn :: "xenv \<Rightarrow> xcfg \<Rightarrow> int \<Rightarrow> xrow list \<Rightarrow> xrow list \<Rightarrow> xlog \<Rightarrow> xstate" where
  \<comment> \<open>the two first loops\<close>
  "end_and_warn E c now prep act lg =
     fold (active_step E c now) act (fold (preparing_step E now) prep (no_counts, lg))"

definition expiry_run :: "xenv \<Rightarrow> xcfg \<Rightarrow> int \<Rightarrow> xlog \<Rightarrow> xanswer res \<times> xlog" where
  "expiry_run E c now lg =
     (case see_running E lg of
        ((act, prep), lg1) \<Rightarrow>
          (case end_and_warn E c now prep act lg1 of (n, lg2) \<Rightarrow> finish_run E c now (length act) n lg2))"

definition expiry_handler :: "xenv \<Rightarrow> xcfg \<Rightarrow> bool \<Rightarrow> xlog \<Rightarrow> xanswer res \<times> xlog" where
  \<comment> \<open>the flag says that the event is the scheduled clean-up of snapshots\<close>
  "expiry_handler E c scheduled lg =
     (if scheduled then
        (case cleanup_all_user_snapshots E max_users_per_run lg of (n, lg1) \<Rightarrow> (Inr (SnapshotRun n), lg1))
      else expiry_run E c (e_now E lg) lg)"

end
