(* ===== verification/Gpu_Expiry_Trace.thy ===== *)
theory Gpu_Expiry_Trace
  imports Gpu_Expiry_Handler Call_Policy
begin

section \<open>When the expiry lambda may change something\<close>

text \<open>
  The policy of the expiry lambda: for every call that changes something, which events of the log must come
  before it. It is an instance of \<open>call_policy\<close>.
\<close>

subsection \<open>The policy\<close>

definition row_ended :: "string \<Rightarrow> xevent set \<Rightarrow> bool" where
  \<comment> \<open>a terminal status was written to the row\<close>
  "row_ended rid K \<longleftrightarrow>
     (\<exists>ch y s. Did (SetRow rid ch) (Inr y) \<in> K \<and> dget ch ''status'' = Some (DStr s) \<and> terminal_status s)"

definition listed :: "string \<Rightarrow> xrow \<Rightarrow> xevent set \<Rightarrow> bool" where
  \<comment> \<open>the query for the status returned the row\<close>
  "listed s r K \<longleftrightarrow> (\<exists>rs. SawRows s (Inr rs) \<in> K \<and> r \<in> set rs)"

definition over :: "xrow \<Rightarrow> xevent set \<Rightarrow> bool" where
  "over r K \<longleftrightarrow>
     (\<exists>s. listed s r K \<and> (terminal_status s \<or> row_ended (x_id r) K)) \<or>
     (\<exists>pre rest. SawPrefix pre (Inr (r # rest)) \<in> K \<and> terminal_status (x_status r))"

definition pod_of :: "xrow \<Rightarrow> string \<Rightarrow> xevent set \<Rightarrow> bool" where
  "pod_of r p K \<longleftrightarrow> x_pod r = p \<or> (\<exists>pre rest. SawPrefix pre (Inr (r # rest)) \<in> K \<and> p = pod_prefix @ pre)"

definition created_before :: "xenv \<Rightarrow> xrow \<Rightarrow> int \<Rightarrow> bool" where
  "created_before E r limit \<longleftrightarrow> (\<exists>t. time_of E (or_empty (x_created r)) = Inr t \<and> t < limit)"

definition pod_unreadable :: "xrow \<Rightarrow> xevent set \<Rightarrow> bool" where
  "pod_unreadable r K \<longleftrightarrow> x_pod r \<noteq> [] \<and> (\<exists>e. SawPod gpu_ns (x_pod r) (Inl e) \<in> K)"

definition pod_dead :: "xrow \<Rightarrow> xevent set \<Rightarrow> bool" where
  "pod_dead r K \<longleftrightarrow>
     (\<exists>p st. SawPod gpu_ns (x_pod r) (Inr p) \<in> K \<and> xp_status p = Some st \<and> dead_reason st \<noteq> None)"

definition may_end :: "xenv \<Rightarrow> xcfg \<Rightarrow> int \<Rightarrow> xrow \<Rightarrow> string \<Rightarrow> xevent set \<Rightarrow> bool" where
  "may_end E c now r s K \<longleftrightarrow>
     s = ''expired'' \<and> listed ''active'' r K \<and>
       (expires_at E r + k_grace c < now \<or>
        pod_unreadable r K \<and> (just_launched E now r \<longrightarrow> (expires_at E r - now) div 60 \<le> 30)) \<or>
     s = ''failed'' \<and>
       (listed ''preparing'' r K \<and> created_before E r (now - 3600) \<or>
        listed ''active'' r K \<and> \<not> just_launched E now r \<and> pod_dead r K) \<or>
     s = ''cancelled'' \<and>
       (listed ''queued'' r K \<or> listed ''pending'' r K) \<and> created_before E r (now - 48 * 3600)"

definition row_ok :: "xenv \<Rightarrow> xcfg \<Rightarrow> int \<Rightarrow> string \<Rightarrow> (string \<times> ddb) list \<Rightarrow> xevent set \<Rightarrow> bool" where
  "row_ok E c now rid ch K \<longleftrightarrow>
     (case dget ch ''status'' of
        None \<Rightarrow> True
      | Some v \<Rightarrow> \<exists>r s. x_id r = rid \<and> v = DStr s \<and> may_end E c now r s K)"

definition pod_ok :: "string \<Rightarrow> xevent set \<Rightarrow> bool" where
  "pod_ok p K \<longleftrightarrow> (\<exists>r. over r K \<and> pod_of r p K)"

definition snapshot_of :: "string \<Rightarrow> string \<Rightarrow> xevent set \<Rightarrow> bool" where
  "snapshot_of vol sid K \<longleftrightarrow>
     (\<exists>ss s. SawSnapshots (PendingFor vol) (Inr ss) \<in> K \<and> s \<in> set ss \<and> s_id s = sid) \<or>
     (\<exists>t ts. Did (MakeSnapshot vol t ts) (Inr sid) \<in> K)"

definition volume_ok :: "string \<Rightarrow> xevent set \<Rightarrow> bool" where
  "volume_ok vol K \<longleftrightarrow> (\<exists>sid y. snapshot_of vol sid K \<and> Did (WaitSnapshot sid) (Inr y) \<in> K) \<and> (\<exists>r. over r K)"

definition disk_of :: "xrow \<Rightarrow> string \<Rightarrow> xevent set \<Rightarrow> bool" where
  "disk_of r d K \<longleftrightarrow>
     x_disk r = d \<or>
     x_disk r = [] \<and> (\<exists>ds x. SawUserDisks (user_of r) (Inr ds) \<in> K \<and> x \<in> set ds \<and> d_name x = d \<and> attached_to (x_id r) x)"

definition orphaned :: "string \<Rightarrow> string \<Rightarrow> xevent set \<Rightarrow> bool" where
  "orphaned u d K \<longleftrightarrow>
     (\<exists>ds x. SawDisks True (Inr ds) \<in> K \<and> x \<in> set ds \<and> d_user x = u \<and> d_name x = d \<and>
        (SawRow (d_attached x) (Inr None) \<in> K \<or>
         (\<exists>r. SawRow (d_attached x) (Inr (Some r)) \<in> K \<and> terminal_status (x_status r))))"

definition unlock_ok :: "string \<Rightarrow> string \<Rightarrow> xevent set \<Rightarrow> bool" where
  "unlock_ok u d K \<longleftrightarrow>
     orphaned u d K \<or>
     (\<exists>r. over r K \<and> (user_of r = u \<and> disk_of r d K \<or> (\<exists>v y. Did (DropVolume v) (Inr y) \<in> K)))"

definition unlocks :: "(string \<times> upd) list \<Rightarrow> bool" where
  "unlocks up \<longleftrightarrow> dget up ''in_use'' = Some (Put (DBool False))"

definition tag_ok :: "string \<Rightarrow> xevent set \<Rightarrow> bool" where
  "tag_ok sid K \<longleftrightarrow>
     (\<exists>ds d ss s. SawDisks False (Inr ds) \<in> K \<and> d \<in> set ds \<and> SawSnapshots (OfDisk (d_user d) (d_name d)) (Inr ss) \<in> K \<and>
        s \<in> set ss \<and> s_id s = sid \<and> ''delete-date'' \<notin> set (dkeys (tags_of s)))"

definition drop_ok :: "xenv \<Rightarrow> string \<Rightarrow> xevent set \<Rightarrow> bool" where
  "drop_ok E sid K \<longleftrightarrow>
     (\<exists>ss s. SawSnapshots Dated (Inr ss) \<in> K \<and> s \<in> set ss \<and> s_id s = sid \<and>
        dget_or (tags_of s) ''delete-date'' [] \<noteq> [] \<and> dget_or (tags_of s) ''delete-date'' [] \<le> e_today E) \<or>
     (\<exists>u ss s. SawSnapshots (CompletedOf u) (Inr ss) \<in> K \<and> s \<in> set (drop keep_count (sorted_by_desc s_start ss)) \<and> s_id s = sid)"

fun effect_ok :: "xenv \<Rightarrow> xcfg \<Rightarrow> int \<Rightarrow> effect \<Rightarrow> xevent set \<Rightarrow> bool" where
  "effect_ok E c now (SetRow rid ch) K = row_ok E c now rid ch K"
| "effect_ok E c now (SetDisk u d up rm) K = (unlocks up \<longrightarrow> unlock_ok u d K)"
| "effect_ok E c now (DropPod ns p g) K = pod_ok p K"
| "effect_ok E c now (DropVolume v) K = volume_ok v K"
| "effect_ok E c now (MakeSnapshot v t ts) K = (SawSnapshots (PendingFor v) (Inr []) \<in> K)"
| "effect_ok E c now (TagSnapshot sid ts) K = tag_ok sid K"
| "effect_ok E c now (DropSnapshot sid) K = drop_ok E sid K"
| "effect_ok E c now _ K = True"

named_theorems grows \<open>facts about known events that more events do not change\<close>

lemma row_ended_mono [grows]: "row_ended rid K \<Longrightarrow> K \<subseteq> L \<Longrightarrow> row_ended rid L"
  unfolding row_ended_def by blast

lemma listed_mono [grows]: "listed s r K \<Longrightarrow> K \<subseteq> L \<Longrightarrow> listed s r L"
  unfolding listed_def by blast

lemma over_mono [grows]: "over r K \<Longrightarrow> K \<subseteq> L \<Longrightarrow> over r L"
  unfolding over_def by (meson listed_mono row_ended_mono subsetD)

lemma pod_of_mono [grows]: "pod_of r p K \<Longrightarrow> K \<subseteq> L \<Longrightarrow> pod_of r p L"
  unfolding pod_of_def by blast

lemma pod_unreadable_mono [grows]: "pod_unreadable r K \<Longrightarrow> K \<subseteq> L \<Longrightarrow> pod_unreadable r L"
  unfolding pod_unreadable_def by blast

lemma pod_dead_mono [grows]: "pod_dead r K \<Longrightarrow> K \<subseteq> L \<Longrightarrow> pod_dead r L"
  unfolding pod_dead_def by blast

lemma may_end_mono [grows]: "may_end E c now r s K \<Longrightarrow> K \<subseteq> L \<Longrightarrow> may_end E c now r s L"
  unfolding may_end_def by (elim disjE conjE) (auto intro: grows)

lemma row_ok_mono [grows]: "row_ok E c now rid ch K \<Longrightarrow> K \<subseteq> L \<Longrightarrow> row_ok E c now rid ch L"
  unfolding row_ok_def by (auto intro: may_end_mono split: option.splits)

lemma pod_ok_mono [grows]: "pod_ok p K \<Longrightarrow> K \<subseteq> L \<Longrightarrow> pod_ok p L"
  unfolding pod_ok_def by (meson over_mono pod_of_mono)

lemma snapshot_of_mono [grows]: "snapshot_of v s K \<Longrightarrow> K \<subseteq> L \<Longrightarrow> snapshot_of v s L"
  unfolding snapshot_of_def by blast

lemma volume_ok_mono [grows]: "volume_ok v K \<Longrightarrow> K \<subseteq> L \<Longrightarrow> volume_ok v L"
  unfolding volume_ok_def by (meson snapshot_of_mono over_mono subsetD)

lemma disk_of_mono [grows]: "disk_of r d K \<Longrightarrow> K \<subseteq> L \<Longrightarrow> disk_of r d L"
  unfolding disk_of_def by blast

lemma orphaned_mono [grows]: "orphaned u d K \<Longrightarrow> K \<subseteq> L \<Longrightarrow> orphaned u d L"
  unfolding orphaned_def by blast

lemma unlock_ok_mono [grows]: "unlock_ok u d K \<Longrightarrow> K \<subseteq> L \<Longrightarrow> unlock_ok u d L"
  using orphaned_mono [of u d K L] over_mono [of _ K L] disk_of_mono [of _ d K L] unfolding unlock_ok_def by blast

lemma tag_ok_mono [grows]: "tag_ok s K \<Longrightarrow> K \<subseteq> L \<Longrightarrow> tag_ok s L"
  unfolding tag_ok_def by blast

lemma drop_ok_mono [grows]: "drop_ok E s K \<Longrightarrow> K \<subseteq> L \<Longrightarrow> drop_ok E s L"
  unfolding drop_ok_def by blast

lemma effect_ok_mono: "effect_ok E c now f K \<Longrightarrow> K \<subseteq> L \<Longrightarrow> effect_ok E c now f L"
  by (cases f) (auto intro: grows)

interpretation xp: call_policy did "effect_ok E c now" for E c now
  by unfold_locales (rule effect_ok_mono)

section \<open>The expiry lambda keeps to its policy\<close>

text \<open>One lemma per operation: from the events known before it, every call it makes is one that the policy allows.\<close>

abbreviation keeps :: "xenv \<Rightarrow> xcfg \<Rightarrow> int \<Rightarrow> xevent set \<Rightarrow> xlog \<Rightarrow> bool" where
  "keeps E c now K lg \<equiv> traced did (effect_ok E c now) K lg"

lemmas keeps_see [simp] = xp.see
lemmas call_defs = do_call_def try_call_def
lemmas see_defs = see_rows_def see_row_def see_prefix_def see_disks_def see_user_disks_def see_disk_def
  see_snapshots_def see_volume_def see_instances_def see_pod_def see_pods_def see_client_def see_budget_def Let_def

lemma keeps_try [simp]: "keeps E c now K lg \<Longrightarrow> effect_ok E c now f K \<Longrightarrow> keeps E c now K (try_call X f lg)"
  by (simp add: call_defs xp.call)

lemma keeps_do: "keeps E c now K lg \<Longrightarrow> effect_ok E c now f K \<Longrightarrow> keeps E c now K (snd (do_call X f lg))"
  by (simp add: call_defs xp.call)

lemma keeps_did: "keeps E c now K lg \<Longrightarrow> effect_ok E c now f K \<Longrightarrow> keeps E c now K (Did f y # lg)"
  by (simp add: xp.call)

lemma keeps_learn_did: "keeps E c now K lg \<Longrightarrow> effect_ok E c now f K \<Longrightarrow> keeps E c now (insert (Did f y) K) (Did f y # lg)"
  by (simp add: xp.learn_call)

lemma keeps_less: "keeps E c now (insert e K) lg \<Longrightarrow> keeps E c now K lg"
  by (erule xp.weaken) auto

subsection \<open>Disks\<close>

lemma unlocks_other [simp]:
  "\<not> unlocks [(''is_backing_up'', x), (''pending_snapshot_count'', y)]"
  "\<not> unlocks not_backing_up" "\<not> unlocks (completed_updates gb path usage t)"
  by (auto simp: unlocks_def not_backing_up_def completed_updates_def dget_def split: option.splits)

lemma keeps_mark: "keeps E c now K lg \<Longrightarrow> unlock_ok u d K \<Longrightarrow> keeps E c now K (mark_disk_not_in_use X u d lg)"
  by (simp add: mark_disk_not_in_use_def)

lemma unlock_row: "over r K \<Longrightarrow> disk_of r d K \<Longrightarrow> unlock_ok (user_of r) d K"
  unfolding unlock_ok_def by (intro disjI2) blast

lemma unlock_orphan:
  assumes "SawDisks True (Inr ds) \<in> K" "x \<in> set ds"
    and "SawRow (d_attached x) (Inr None) \<in> K \<or> (\<exists>r. SawRow (d_attached x) (Inr (Some r)) \<in> K \<and> terminal_status (x_status r))"
  shows "unlock_ok (d_user x) (d_name x) K"
  using assms unfolding unlock_ok_def orphaned_def by (intro disjI1) blast

lemma keeps_release:
  assumes "over r K" "keeps E c now K lg" shows "keeps E c now K (release_disk X r lg)"
proof (cases "user_of r = [] \<or> x_disk r \<noteq> []")
  case True
  have "unlock_ok (user_of r) (x_disk r) K" by (rule unlock_row [OF assms(1)]) (simp add: disk_of_def)
  then show ?thesis using True assms(2) by (auto simp: release_disk_def intro: keeps_mark)
next
  case False
  let ?e = "SawUserDisks (user_of r) (e_user_disks X lg (user_of r))"
  have k: "keeps E c now (insert ?e K) (?e # lg)" using assms(2) by (rule xp.learn) simp
  show ?thesis
  proof (cases "\<exists>ds x xs. e_user_disks X lg (user_of r) = Inr ds \<and> filter (attached_to (x_id r)) ds = x # xs")
    case True
    then obtain ds x xs where ds: "e_user_disks X lg (user_of r) = Inr ds" "filter (attached_to (x_id r)) ds = x # xs" by blast
    then have "x \<in> set ds \<and> attached_to (x_id r) x" by (metis filter_eq_Cons_iff in_set_conv_decomp)
    then have "unlock_ok (user_of r) (d_name x) (insert ?e K)"
      using ds(1) False by (intro unlock_row over_mono [OF assms(1)]) (auto simp: disk_of_def)
    from keeps_less [OF keeps_mark [OF k this]] show ?thesis using False ds keeps_less [OF k]
      by (auto simp: release_disk_def find_disk_by_reservation_def see_user_disks_def)
  next
    case none: False
    then show ?thesis using False keeps_less [OF k]
      by (auto simp: release_disk_def find_disk_by_reservation_def see_user_disks_def split: sum.split list.split)
  qed
qed

lemma keeps_sweep_disk:
  assumes "keeps E c now K lg" "SawDisks True (Inr ds) \<in> K" "d \<in> set ds"
  shows "keeps E c now K (sweep_disk X d lg)"
proof -
  let ?e = "SawRow (d_attached d) (e_row X lg (d_attached d))"
  have k: "keeps E c now (insert ?e K) (?e # lg)" using assms(1) by (rule xp.learn) simp
  have "keeps E c now K (mark_disk_not_in_use X (d_user d) (d_name d) (?e # lg))"
    if "e_row X lg (d_attached d) = Inr None \<or> (\<exists>r. e_row X lg (d_attached d) = Inr (Some r) \<and> terminal_status (x_status r))"
    by (rule keeps_less [OF keeps_mark [OF k]], rule unlock_orphan [of ds]) (use assms(2,3) that in auto)
  then show ?thesis using keeps_less [OF k] assms(1)
    by (auto simp: sweep_disk_def see_row_def split: sum.split option.split)
qed

lemma keeps_sweep: "keeps E c now K lg \<Longrightarrow> keeps E c now K (sweep_stale_disk_locks X lg)"
proof -
  assume a: "keeps E c now K lg"
  let ?e = "SawDisks True (all_pages (e_disks X lg True))"
  have k: "keeps E c now (insert ?e K) (?e # lg)" using a by (rule xp.learn) simp
  have "keeps E c now (insert ?e K) (fold (sweep_disk X) ds (?e # lg))" if "all_pages (e_disks X lg True) = Inr ds" for ds
    by (rule xp.fold_log [OF keeps_sweep_disk k]) (use that in auto)
  then show ?thesis using keeps_less [of E c now ?e K] k
    by (auto simp: sweep_stale_disk_locks_def see_disks_def Let_def split: sum.split)
qed

subsection \<open>Snapshots\<close>

lemma max_start_in: "max_start s ss \<in> set (s # ss)"
  by (induction s ss rule: max_start.induct) auto

lemma snapshot_pending:
  "SawSnapshots (PendingFor vol) (Inr ss) \<in> K \<Longrightarrow> s \<in> set ss \<Longrightarrow> snapshot_of vol (s_id s) K"
  unfolding snapshot_of_def by blast

lemma unlock_volume: "over r K \<Longrightarrow> Did (DropVolume v) (Inr y) \<in> K \<Longrightarrow> unlock_ok u d K"
  unfolding unlock_ok_def by blast

lemma volume_okI:
  "snapshot_of vol sid K \<Longrightarrow> Did (WaitSnapshot sid) (Inr y) \<in> K \<Longrightarrow> over r K \<Longrightarrow> volume_ok vol K"
  unfolding volume_ok_def by blast

lemma keeps_completed: "keeps E c now K lg \<Longrightarrow> keeps E c now K (update_disk_snapshot_completed X u d gb path usage lg)"
  by (auto simp: update_disk_snapshot_completed_def do_call_def see_disk_def keeps_did split: sum.split option.split)

lemma keeps_note: "keeps E c now K lg \<Longrightarrow> keeps E c now K (note_completed X u d sid lg)"
  by (auto simp: note_completed_def see_snapshots_def Let_def keeps_completed split: sum.split list.split)

lemma keeps_capture: "keeps E c now K lg \<Longrightarrow> keeps E c now K (snd (capture_disk_contents X b p ns u d sid m lg))"
  by (auto simp: capture_disk_contents_def do_call_def Let_def keeps_did split: sum.split prod.split)

lemma safe_create_cases:
  assumes k: "keeps E c now K lg" and s: "safe_create_snapshot X vol u kd d path usage lg = ((so, b), lg1)"
  obtains "so = None" "keeps E c now K lg1"
  | L sid where "so = Some sid" "K \<subseteq> L" "keeps E c now L lg1" "snapshot_of vol sid L"
proof -
  let ?q = "all_pages (e_snapshots X lg (PendingFor vol))"
  let ?e = "SawSnapshots (PendingFor vol) ?q"
  have k1: "keeps E c now (insert ?e K) (?e # lg)" using k by (rule xp.learn) simp
  show thesis
  proof (cases ?q)
    case (Inl x)
    then show thesis using s that(1) keeps_less [OF k1]
      by (auto simp: safe_create_snapshot_def see_snapshots_def Let_def)
  next
    case (Inr ss)
    show thesis
    proof (cases ss)
      case (Cons z zs)
      then have "snapshot_of vol (s_id (max_start z zs)) (insert ?e K)"
        using Inr max_start_in [of z zs] by (intro snapshot_pending [of _ ss]) simp_all
      then show thesis using that(2) [of "s_id (max_start z zs)" "insert ?e K"] k1 s Inr Cons
        by (auto simp: safe_create_snapshot_def see_snapshots_def Let_def)
    next
      case Nil
      let ?f = "MakeSnapshot vol (snapshot_description u kd d usage)
                    (snapshot_tags u kd d path usage (e_now X (?e # lg)))"
      let ?y = "e_do X (?e # lg) ?f"
      have k2: "keeps E c now (insert (Did ?f ?y) (insert ?e K)) (Did ?f ?y # ?e # lg)"
        by (rule keeps_learn_did [OF k1]) (use Inr Nil in simp)
      show thesis
      proof (cases ?y)
        case (Inl x)
        then show thesis using s that(1) keeps_less [OF keeps_less [OF k2]] Inr Nil
          by (auto simp: safe_create_snapshot_def see_snapshots_def do_call_def Let_def)
      next
        case y: (Inr sid)
        have o: "snapshot_of vol sid (insert (Did ?f ?y) (insert ?e K))" using y unfolding snapshot_of_def by auto
        show thesis
          by (rule that(2) [OF _ _ _ o]) (use s y k2 Inr Nil in \<open>auto simp: safe_create_snapshot_def see_snapshots_def do_call_def Let_def\<close>)
      qed
    qed
  qed
qed

lemma keeps_finish:
  assumes k: "keeps E c now K lg" and o: "over r K" and s: "snapshot_of vol sid K"
  shows "keeps E c now K (finish_snapshot X u vol d sid lg)"
proof (cases "e_do X lg (WaitSnapshot sid)")
  case (Inl x)
  then show ?thesis using k by (simp add: finish_snapshot_def do_call_def keeps_did)
next
  case (Inr y)
  let ?w = "Did (WaitSnapshot sid) (Inr y)"
  let ?l1 = "note_completed X u d sid (?w # lg)"
  have k1: "keeps E c now (insert ?w K) ?l1" by (rule keeps_note, rule keeps_learn_did [OF k]) simp
  have v: "volume_ok vol (insert ?w K)"
    by (rule volume_okI [OF snapshot_of_mono [OF s] _ over_mono [OF o]]) auto
  let ?z = "e_do X ?l1 (DropVolume vol)"
  have k2: "keeps E c now (insert (Did (DropVolume vol) ?z) (insert ?w K)) (Did (DropVolume vol) ?z # ?l1)"
    by (rule keeps_learn_did [OF k1]) (use v in simp)
  have k3: "keeps E c now K (mark_disk_not_in_use X u d (Did (DropVolume vol) ?z # ?l1))" if "?z = Inr q" for q
  proof -
    have "over r (insert (Did (DropVolume vol) ?z) (insert ?w K))" by (rule over_mono [OF o]) auto
    then have "unlock_ok u d (insert (Did (DropVolume vol) ?z) (insert ?w K))"
      by (rule unlock_volume [where y = q and v = vol]) (use that in simp)
    from keeps_less [OF keeps_less [OF keeps_mark [OF k2 this]]] show ?thesis .
  qed
  show ?thesis
  proof (cases ?z)
    case (Inl x)
    then show ?thesis using Inr keeps_less [OF keeps_less [OF k2]] by (simp add: finish_snapshot_def do_call_def)
  next
    case q: (Inr q)
    show ?thesis using Inr q keeps_less [OF keeps_less [OF k2]] k3 [OF q] by (auto simp: finish_snapshot_def do_call_def)
  qed
qed

lemma keeps_snapshot_and_delete:
  assumes k: "keeps E c now K lg" and o: "over r K"
  shows "keeps E c now K (snapshot_and_delete X g p ns u vol d lg)"
proof -
  obtain path usage lg1 where a: "(if d = [] then (([], []), lg)
      else capture_disk_contents X (k_bucket g) p ns u d (''pending-'' @ str_int (e_now X lg)) ''/home/dev'' lg) = ((path, usage), lg1)"
    by (metis prod.exhaust)
  have k1: "keeps E c now K lg1" using a k keeps_capture [OF k] by (metis snd_conv)
  obtain so b lg2 where s: "safe_create_snapshot X vol u ''shutdown'' d path usage lg1 = ((so, b), lg2)" by (metis prod.exhaust)
  show ?thesis
    using safe_create_cases [OF k1 s]
  proof cases
    case 1
    then show ?thesis unfolding snapshot_and_delete_def a by (simp add: s)
  next
    case (2 L sid)
    have "keeps E c now L (finish_snapshot X u vol d sid lg2)"
      by (rule keeps_finish [OF 2(3) over_mono [OF o 2(2)] 2(4)])
    then have "keeps E c now K (finish_snapshot X u vol d sid lg2)" "keeps E c now K lg2" using 2 xp.weaken by blast+
    then show ?thesis unfolding snapshot_and_delete_def a using 2(1) by (simp add: s)
  qed
qed

lemma keeps_shutdown:
  assumes k: "keeps E c now K lg" and o: "over r K"
  shows "keeps E c now K (shutdown_snapshot X g p ns r lg)"
proof -
  obtain u vol lg1 where a: "storage_of X p ns r lg = ((u, vol), lg1)" by (metis prod.exhaust)
  have k1: "keeps E c now K lg1" using a k
    by (auto simp: storage_of_def see_pod_def split: if_splits sum.splits)
  obtain d lg2 where b: "disk_name_of X r vol lg1 = (d, lg2)" by (rule prod.exhaust)
  have "keeps E c now K lg2" using b k1
    by (auto simp: disk_name_of_def see_volume_def split: if_splits sum.splits option.splits)
  then show ?thesis unfolding shutdown_snapshot_def a using o by (simp add: b keeps_snapshot_and_delete)
qed

subsection \<open>Pods and the end of a reservation\<close>

lemma pod_okI: "over r K \<Longrightarrow> pod_of r p K \<Longrightarrow> pod_ok p K"
  unfolding pod_ok_def by blast

lemma keeps_delete_pod:
  "keeps E c now K lg \<Longrightarrow> pod_ok p K \<Longrightarrow> keeps E c now K (snd (delete_pod X ns p lg))"
  by (auto simp: delete_pod_def do_call_def keeps_did split: sum.split exc.split)

lemma keeps_cleanup_dns: "keeps E c now K lg \<Longrightarrow> keeps E c now K (cleanup_dns X g r lg)"
  by (simp add: cleanup_dns_def)

lemma keeps_cleanup_alb: "keeps E c now K lg \<Longrightarrow> keeps E c now K (cleanup_alb X g r lg)"
  by (simp add: cleanup_alb_def)

lemma keeps_cleanup_body:
  assumes k: "keeps E c now K lg" and o: "over r K" and p: "pod_of r p K"
  shows "keeps E c now K (snd (cleanup_body X g p ns r lg))"
proof -
  obtain q lg1 where q: "see_client X (cleanup_alb X g r (cleanup_dns X g r lg)) = (q, lg1)" by (rule prod.exhaust)
  have "keeps E c now K lg1" using q keeps_cleanup_alb [OF keeps_cleanup_dns [OF k]] by (auto simp: see_client_def)
  then show ?thesis using keeps_delete_pod [OF keeps_try [OF keeps_shutdown [OF _ o]] pod_okI [OF o p]]
    unfolding cleanup_body_def q by (auto split: sum.split)
qed

lemma keeps_cleanup_pod:
  assumes "keeps E c now K lg" "over r K" "pod_of r p K"
  shows "keeps E c now K (snd (cleanup_pod X g p ns r lg))"
proof -
  obtain q lg1 where q: "cleanup_body X g p ns r lg = (q, lg1)" by (rule prod.exhaust)
  have k: "keeps E c now K lg1" using q keeps_cleanup_body [OF assms] by (metis snd_conv)
  then have "keeps E c now K (trigger_availability_update X g lg1)" by (simp add: trigger_availability_update_def)
  then show ?thesis using keeps_release [OF assms(2)] k unfolding cleanup_pod_def q by (auto split: sum.split)
qed

lemma keeps_stuck:
  assumes "keeps E c now K lg" "pod_ok p K" shows "keeps E c now K (cleanup_stuck_pod_resources X p lg)"
proof -
  obtain q lg1 where q: "see_client X lg = (q, lg1)" by (rule prod.exhaust)
  then have k: "keeps E c now K lg1" using assms(1) by (auto simp: see_client_def)
  then have "keeps E c now K (snd (do_call X (DropPod gpu_ns p 0) lg1))" using assms(2) by (simp add: keeps_do)
  then show ?thesis using k unfolding cleanup_stuck_pod_resources_def q
    by (auto split: sum.split exc.split prod.split)
qed

lemma row_ok_ended:
  "may_end E c now r s K \<Longrightarrow> row_ok E c now (x_id r) (ended s a t @ rest) K"
  by (auto simp: row_ok_def ended_def dget_def)

lemma over_ended:
  assumes "listed st r K" "terminal_status s" "Did (SetRow (x_id r) (ended s a t @ rest)) (Inr y) \<in> K"
  shows "over r K"
proof -
  have "row_ended (x_id r) K" unfolding row_ended_def
    by (rule exI [of _ "ended s a t @ rest"], rule exI [of _ y], rule exI [of _ s])
      (use assms(2,3) in \<open>simp add: ended_def dget_def\<close>)
  then show ?thesis using assms(1) unfolding over_def by blast
qed

lemma listed_may_end: "may_end E c now r s K \<Longrightarrow> \<exists>st. listed st r K"
  unfolding may_end_def by blast

lemma terminal_may_end: "may_end E c now r s K \<Longrightarrow> terminal_status s"
  unfolding may_end_def terminal_status_def by blast

lemma ending:
  \<comment> \<open>the write of a terminal status, and what is known after it\<close>
  assumes k: "keeps E c now K lg" and m: "may_end E c now r s K"
    and d: "do_call X (SetRow (x_id r) (ended s a t @ rest)) lg = (y, lg1)"
  obtains e where "y = Inl e" "keeps E c now K lg1"
  | z L where "y = Inr z" "K \<subseteq> L" "keeps E c now L lg1" "over r L"
proof -
  let ?f = "SetRow (x_id r) (ended s a t @ rest)"
  have l: "lg1 = Did ?f y # lg" using d by (auto simp: do_call_def)
  have k1: "keeps E c now (insert (Did ?f y) K) lg1" unfolding l
    by (rule keeps_learn_did [OF k]) (simp add: row_ok_ended [OF m])
  show thesis
  proof (cases y)
    case (Inl e)
    then show thesis using that(1) keeps_less [OF k1] by blast
  next
    case (Inr z)
    obtain st where "listed st r K" using listed_may_end [OF m] by blast
    then have "over r (insert (Did ?f y) K)"
      by (rule over_ended [OF listed_mono terminal_may_end [OF m], where y = z]) (use Inr in auto)
    then show thesis using that(2) [OF Inr _ k1] by blast
  qed
qed

lemma keeps_missing:
  assumes k: "keeps E c now K lg" and m: "may_end E c now r ''expired'' K"
  shows "keeps E c now K (expire_reservation_due_to_missing_pod X g r lg)"
proof -
  obtain reason lg1 where a: "missing_reason X g r lg = (reason, lg1)" by (rule prod.exhaust)
  have k1: "keeps E c now K lg1" using a k
    by (auto simp: missing_reason_def see_instances_def Let_def split: if_splits sum.splits)
  obtain y lg2 where d: "do_call X (SetRow (x_id r) (ended ''expired'' ''expired_at'' (e_utcnow X lg1) @ because reason)) lg1 = (y, lg2)"
    by (rule prod.exhaust)
  show ?thesis using ending [OF k1 m d]
  proof cases
    case (2 z L)
    then show ?thesis using xp.weaken [OF keeps_release [OF 2(4,3)] 2(2)]
      by (simp add: expire_reservation_due_to_missing_pod_def a d)
  qed (simp add: expire_reservation_due_to_missing_pod_def a d)
qed

lemma keeps_dead:
  assumes k: "keeps E c now K lg" and m: "may_end E c now r ''failed'' K"
  shows "keeps E c now K (snd (expire_reservation_due_to_dead_pod X g r reason lg))"
proof -
  obtain y lg2 where d: "do_call X (SetRow (x_id r) (ended ''failed'' ''failed_at'' (e_utcnow X lg) @ because reason)) lg = (y, lg2)"
    by (rule prod.exhaust)
  show ?thesis using ending [OF k m d]
  proof cases
    case (2 z L)
    have "keeps E c now L (if x_pod r = [] then lg2 else snd (cleanup_pod X g (x_pod r) (namespace_of r) r lg2))"
      using 2 by (simp add: keeps_cleanup_pod pod_of_def)
    then show ?thesis using xp.weaken [OF keeps_release [OF 2(4)] 2(2)] 2(1)
      by (simp add: expire_reservation_due_to_dead_pod_def d)
  qed (simp add: expire_reservation_due_to_dead_pod_def d)
qed

lemma keeps_stuck_preparing:
  assumes k: "keeps E c now K lg" and m: "may_end E c now r ''failed'' K"
  shows "keeps E c now K (expire_stuck_preparing_reservation X r lg)"
proof -
  obtain y lg2 where d: "do_call X (SetRow (x_id r) (ended ''failed'' ''failed_at'' (e_utcnow X lg) @
      because ''Reservation stuck in preparing status for more than 1 hour - likely pod creation failed'')) lg = (y, lg2)"
    by (rule prod.exhaust)
  show ?thesis using ending [OF k m d]
  proof cases
    case (2 z L)
    have "pod_ok (x_pod r) L" by (rule pod_okI [OF 2(4)]) (simp add: pod_of_def)
    then have "keeps E c now L (if x_pod r = [] then lg2 else cleanup_stuck_pod_resources X (x_pod r) lg2)"
      using 2 by (simp add: keeps_stuck)
    then show ?thesis using xp.weaken [OF keeps_release [OF 2(4)] 2(2)] 2(1)
      by (simp add: expire_stuck_preparing_reservation_def d)
  qed (simp add: expire_stuck_preparing_reservation_def d)
qed

lemma keeps_expire:
  assumes k: "keeps E c now K lg" and m: "may_end E c now r ''expired'' K"
  shows "keeps E c now K (snd (expire_reservation X g r lg))"
proof -
  obtain y lg2 where d: "do_call X (SetRow (x_id r) (ended ''expired'' ''expired_at'' (e_utcnow X lg) @ [])) lg = (y, lg2)"
    by (rule prod.exhaust)
  show ?thesis using ending [OF k m d]
  proof cases
    case (2 z L)
    have "keeps E c now L (if x_pod r = [] then lg2 else snd (cleanup_pod X g (x_pod r) (namespace_of r) r lg2))"
      using 2 by (simp add: keeps_cleanup_pod pod_of_def)
    then show ?thesis using xp.weaken [OF _ 2(2)] 2(1) d k by (simp add: expire_reservation_def)
  qed (use d k in \<open>simp add: expire_reservation_def\<close>)
qed

lemma keeps_cancel:
  assumes k: "keeps E c now K lg" and m: "may_end E c now r ''cancelled'' K"
  shows "keeps E c now K (cancel_stale_reservation X r lg)"
proof -
  obtain y lg2 where d: "do_call X (SetRow (x_id r) (ended ''cancelled'' ''cancelled_at'' (e_utcnow X lg) @
      because ''Stale reservation - exceeded 5 minute queue time'')) lg = (y, lg2)"
    by (rule prod.exhaust)
  show ?thesis using ending [OF k m d]
  proof cases
    case (2 z L)
    then show ?thesis using xp.weaken [OF keeps_release [OF 2(4,3)] 2(2)] xp.weaken [OF 2(3,2)]
      by (simp add: cancel_stale_reservation_def d)
  qed (simp add: cancel_stale_reservation_def d)
qed

subsection \<open>The handler\<close>

lemma row_ok_other: "dget ch ''status'' = None \<Longrightarrow> row_ok E c now rid ch K"
  by (simp add: row_ok_def)

lemma keeps_preparing:
  assumes l: "listed ''preparing'' r K" and k: "keeps E c now K (snd st)"
  shows "keeps E c now K (snd (preparing_step E now r st))"
proof (cases "time_of E (or_empty (x_created r))")
  case (Inr t)
  have "may_end E c now r ''failed'' K" if "t < now - 3600"
    using that l Inr unfolding may_end_def created_before_def by blast
  then show ?thesis using Inr k keeps_stuck_preparing [OF k] by (simp add: preparing_step_def)
qed (use k in \<open>simp add: preparing_step_def\<close>)

lemma warning_level:
  "warning_to_send sent left = Some level \<Longrightarrow> left \<le> 30"
  by (auto simp: warning_to_send_def WARNING_LEVELS_def sorted_by_desc_def split: if_splits)

lemma may_expire_unreadable:
  assumes "listed ''active'' r K" "x_pod r \<noteq> []" "SawPod gpu_ns (x_pod r) (Inl e) \<in> K"
    and "just_launched E now r \<Longrightarrow> (expires_at E r - now) div 60 \<le> 30"
  shows "may_end E c now r ''expired'' K"
  using assms unfolding may_end_def pod_unreadable_def by blast

lemma keeps_warn:
  assumes l: "listed ''active'' r K" and k: "keeps E c now K lg" and w: "(expires_at E r - now) div 60 \<le> 30"
  shows "keeps E c now K (warn_user_expiring E c r level lg)"
proof -
  let ?e = "SawPod gpu_ns (x_pod r) (e_pod E lg gpu_ns (x_pod r))"
  have k1: "keeps E c now (insert ?e K) (?e # lg)" using k by (rule xp.learn) simp
  have m: "keeps E c now K (expire_reservation_due_to_missing_pod E c r (?e # lg))"
    if "e_pod E lg gpu_ns (x_pod r) = Inl x" "x_pod r \<noteq> []" for x
    by (rule keeps_less [OF keeps_missing [OF k1]], rule may_expire_unreadable [OF listed_mono [OF l], where e = x])
      (use that w in auto)
  have e: "row_ok E c now rid [(''warnings_sent'', a), (''last_warning_time'', b)] K" for rid a b
    by (rule row_ok_other) (simp add: dget_def)
  have "keeps E c now K (create_warning_file_in_pod E p msg left lg')" if "keeps E c now K lg'" for p msg left lg'
    using that by (simp add: create_warning_file_in_pod_def)
  then show ?thesis using k m keeps_less [OF k1]
    by (auto simp: warn_user_expiring_def Let_def check_pod_exists_def see_pod_def e split: sum.split)
qed

lemma keeps_send_warning:
  assumes "listed ''active'' r K" "keeps E c now K (snd st)"
  shows "keeps E c now K (snd (send_warning E c now r st))"
  using keeps_warn [OF assms warning_level] assms(2) by (auto simp: send_warning_def split: option.split)

lemma keeps_oom:
  assumes "keeps E c now K (snd st)" shows "keeps E c now K (snd (oom_check E now r st))"
proof -
  have h: "keeps E c now K (snd (handle_oom_event E r i lg))" if "keeps E c now K lg" for i lg
    using that
    by (auto simp: handle_oom_event_def Let_def do_call_def create_oom_warning_file_def row_ok_other dget_def keeps_did split: sum.split)
  obtain i lg1 where i: "check_pod_oom_status E (x_pod r) (snd st) = (i, lg1)" by (rule prod.exhaust)
  then have k: "keeps E c now K lg1"
    using assms by (auto simp: check_pod_oom_status_def see_pod_def split: sum.splits)
  show ?thesis
  proof (cases i)
    case (Some info)
    obtain b lg2 where b: "handle_oom_event E r info lg1 = (b, lg2)" by (rule prod.exhaust)
    have "keeps E c now K lg2" using h [OF k, of info] unfolding b by simp
    then show ?thesis using assms by (simp add: oom_check_def i Some b)
  qed (use assms k in \<open>simp add: oom_check_def i\<close>)
qed

lemma keeps_pod_checks:
  assumes l: "listed ''active'' r K" and k: "keeps E c now K (snd st)"
  shows "keeps E c now K (snd (snd (pod_checks E c now r st)))"
proof (cases "x_pod r = [] \<or> just_launched E now r")
  case False
  let ?e = "SawPod gpu_ns (x_pod r) (e_pod E (snd st) gpu_ns (x_pod r))"
  have k1: "keeps E c now (insert ?e K) (?e # snd st)" using k by (rule xp.learn) simp
  show ?thesis
  proof (cases "e_pod E (snd st) gpu_ns (x_pod r)")
    case (Inl x)
    have "keeps E c now K (expire_reservation_due_to_missing_pod E c r (?e # snd st))"
      by (rule keeps_less [OF keeps_missing [OF k1]], rule may_expire_unreadable [OF listed_mono [OF l], where e = x])
        (use Inl False in auto)
    then show ?thesis using False Inl by (simp add: pod_checks_def check_pod_exists_def see_pod_def)
  next
    case (Inr p)
    let ?e2 = "SawPod gpu_ns (x_pod r) (e_pod E (?e # snd st) gpu_ns (x_pod r))"
    have k2: "keeps E c now (insert ?e2 K) (?e2 # ?e # snd st)" by (rule xp.learn [OF keeps_less [OF k1]]) simp
    have d: "keeps E c now K (snd (expire_reservation_due_to_dead_pod E c r reason (?e2 # ?e # snd st)))"
      if "e_pod E (?e # snd st) gpu_ns (x_pod r) = Inr q" "xp_status q = Some t" "dead_reason t = Some reason" for q t reason
    proof (rule keeps_less [OF keeps_dead [OF k2]])
      have "pod_dead r (insert ?e2 K)" using that unfolding pod_dead_def by auto
      then show "may_end E c now r ''failed'' (insert ?e2 K)"
        using False listed_mono [OF l, of "insert ?e2 K"] unfolding may_end_def by blast
    qed
    obtain rd lg2 where rd: "check_pod_dead E (x_pod r) (?e # snd st) = (rd, lg2)" by (rule prod.exhaust)
    then have lg2: "lg2 = ?e2 # ?e # snd st" by (auto simp: check_pod_dead_def see_pod_def split: sum.splits)
    have rd1: "check_pod_dead E (x_pod r) (SawPod gpu_ns (x_pod r) (Inr p) # snd st) = (rd, lg2)" using rd Inr by simp
    have k3: "keeps E c now K lg2" using keeps_less [OF k2] lg2 by simp
    show ?thesis
    proof (cases rd)
      case None
      then show ?thesis using False Inr k3 rd1 by (simp add: pod_checks_def check_pod_exists_def see_pod_def)
    next
      case (Some reason)
      obtain y lg3 where y: "expire_reservation_due_to_dead_pod E c r reason lg2 = (y, lg3)" by (rule prod.exhaust)
      obtain q t where "e_pod E (?e # snd st) gpu_ns (x_pod r) = Inr q" "xp_status q = Some t" "dead_reason t = Some reason"
        using rd Some by (auto simp: check_pod_dead_def see_pod_def split: sum.splits option.splits)
      from d [OF this] have "keeps E c now K lg3" using y unfolding lg2 by simp
      then show ?thesis using False Inr rd1 Some y
        by (simp add: pod_checks_def check_pod_exists_def see_pod_def split: sum.split)
    qed
  qed
qed (use k in \<open>auto simp: pod_checks_def\<close>)

lemma keeps_active:
  assumes l: "listed ''active'' r K" and k: "keeps E c now K (snd st)"
  shows "keeps E c now K (snd (active_step E c now r st))"
proof (cases "expires_at E r + k_grace c < now")
  case True
  then have m: "may_end E c now r ''expired'' K" using l unfolding may_end_def by blast
  obtain q lg1 where q: "expire_reservation E c r (snd st) = (q, lg1)" by (rule prod.exhaust)
  have "keeps E c now K lg1" using keeps_expire [OF k m, of E c] unfolding q by simp
  then show ?thesis using True by (simp add: active_step_def q split: sum.split)
next
  case False
  then show ?thesis using keeps_pod_checks [OF l k] keeps_oom [OF keeps_send_warning [OF l]]
    by (auto simp: active_step_def split: prod.split bool.split)
qed

lemma keeps_stale:
  assumes l: "listed ''queued'' r K \<or> listed ''pending'' r K" and k: "keeps E c now K (snd st)"
  shows "keeps E c now K (snd (stale_step E now r st))"
proof (cases "time_of E (or_empty (x_created r))")
  case (Inr t)
  have "may_end E c now r ''cancelled'' K" if "t < now - 48 * 60 * 60"
    using that l Inr unfolding may_end_def created_before_def by auto
  then show ?thesis using Inr k keeps_cancel [OF k] by (simp add: stale_step_def)
qed (use k in \<open>simp add: stale_step_def\<close>)

lemma keeps_if_there:
  assumes k: "keeps E c now K lg" and o: "over r K" shows "keeps E c now K (cleanup_if_there X g r lg)"
proof -
  have "keeps E c now K (snd (check_pod_exists X (x_pod r) lg))"
    using k by (simp add: check_pod_exists_def see_pod_def split: sum.split)
  then show ?thesis using keeps_release [OF o] keeps_cleanup_pod [OF _ o, of _ _ _ _ "x_pod r"]
    by (auto simp: cleanup_if_there_def pod_of_def split: prod.split bool.split)
qed

lemma over_listed: "listed s r K \<Longrightarrow> terminal_status s \<Longrightarrow> over r K"
  unfolding over_def by blast

lemma keeps_failed_loop:
  "keeps E c now K lg \<Longrightarrow> (\<And>r. r \<in> set rs \<Longrightarrow> over r K) \<Longrightarrow> keeps E c now K (failed_loop X g t rs lg)"
  by (induction X g t rs lg rule: failed_loop.induct) (auto simp: keeps_if_there split: sum.split)

lemma keeps_ended_loop:
  "keeps E c now K lg \<Longrightarrow> (\<And>r. r \<in> set rs \<Longrightarrow> over r K) \<Longrightarrow> keeps E c now K (ended_loop X g t rs lg)"
proof (induction rs arbitrary: lg)
  case (Cons r rs)
  then show ?case by (auto simp: keeps_if_there see_budget_def Let_def split: sum.split)
qed simp

lemma learn_listed:
  assumes "keeps E c now K lg" "see_rows X s lg = (Inr rs, lg1)"
  obtains L where "K \<subseteq> L" "keeps E c now L lg1" "\<And>r. r \<in> set rs \<Longrightarrow> listed s r L"
proof (rule that)
  show "keeps E c now (insert (SawRows s (Inr rs)) K) lg1"
    using xp.learn [OF assms(1), of "SawRows s (Inr rs)"] assms(2) by (auto simp: see_rows_def)
qed (auto simp: listed_def)

lemma see_rows_keeps: "keeps E c now K lg \<Longrightarrow> see_rows X s lg = (q, lg1) \<Longrightarrow> keeps E c now K lg1"
  by (auto simp: see_rows_def)

end
