(* ===== verification/Gpu_Expiry_Run.thy ===== *)
theory Gpu_Expiry_Run
  imports Gpu_Expiry_Trace
begin

section \<open>A run of the expiry lambda\<close>

text \<open>The loops of the handler and the handler itself keep to the policy.\<close>

subsection \<open>The loops of a run\<close>

lemma keeps_pods_loop:
  assumes "keeps E c now K lg" "list_all (\<lambda>p. startswith p pod_prefix) ps"
  shows "keeps E c now K (pods_loop X g ps lg)"
  using assms
proof (induction ps arbitrary: lg)
  case (Cons p ps)
  let ?b = "e_budget X lg"
  let ?l1 = "SawBudget ?b # lg"
  let ?pre = "drop (length pod_prefix) p"
  let ?q = "first_page (fst (e_prefix X ?l1 ?pre)) (snd (e_prefix X ?l1 ?pre))"
  let ?e = "SawPrefix ?pre ?q"
  have k1: "keeps E c now K ?l1" using Cons.prems by simp
  have k2: "keeps E c now (insert ?e K) (?e # ?l1)" using k1 by (rule xp.learn) simp
  have p: "p = pod_prefix @ ?pre" using Cons.prems(2)
    by (simp add: startswith_def) (metis append_take_drop_id)
  have cl: "keeps E c now K (snd (cleanup_pod X g p gpu_ns r (?e # ?l1)))"
    if "?q = Inr (r # rest)" "terminal_status (x_status r)" for r rest
  proof (rule keeps_less [OF keeps_cleanup_pod [OF k2]])
    show "over r (insert ?e K)" using that unfolding over_def by auto
    show "pod_of r p (insert ?e K)" unfolding pod_of_def
      by (rule disjI2, rule exI [of _ ?pre], rule exI [of _ rest], rule conjI [OF _ p]) (simp add: that(1))
  qed
  have see: "see_budget X lg = (?b, ?l1)" "see_prefix X ?pre ?l1 = (?q, ?e # ?l1)"
    by (simp_all add: see_budget_def see_prefix_def Let_def)
  have ps: "list_all (\<lambda>p. startswith p pod_prefix) ps" using Cons.prems(2) by simp
  show ?case
  proof (cases "?b < min_budget")
    case False
    show ?thesis
    proof (cases ?q)
      case (Inl x)
      then show ?thesis using False Cons.IH [OF keeps_less [OF k2] ps] by (simp add: see)
    next
      case q: (Inr rs)
      show ?thesis
      proof (cases rs)
        case (Cons r rest)
        then show ?thesis
          using False q Cons.IH [OF keeps_less [OF k2] ps] Cons.IH [OF cl ps, of r rest] by (simp add: see)
      qed (use False q Cons.IH [OF keeps_less [OF k2] ps] in \<open>simp add: see\<close>)
    qed
  qed (use k1 in \<open>simp add: see\<close>)
qed simp

lemma keeps_pod_centric: "keeps E c now K lg \<Longrightarrow> keeps E c now K (pod_centric_cleanup X g lg)"
  by (auto simp: pod_centric_cleanup_def see_client_def see_pods_def list_all_iff intro!: keeps_pods_loop split: sum.split)

lemma keeps_failed:
  assumes "keeps E c now K lg" shows "keeps E c now K (failed_cleanup X g t lg)"
proof -
  obtain q lg1 where q: "see_rows X ''failed'' lg = (q, lg1)" by (rule prod.exhaust)
  show ?thesis
  proof (cases q)
    case (Inr rs)
    obtain L where L: "K \<subseteq> L" "keeps E c now L lg1" "\<And>r. r \<in> set rs \<Longrightarrow> listed ''failed'' r L"
      using learn_listed [OF assms q [unfolded Inr]] by blast
    have "keeps E c now L (failed_loop X g t rs lg1)"
      by (rule keeps_failed_loop [OF L(2)], rule over_listed [OF L(3)]) (auto simp: terminal_status_def)
    then show ?thesis using xp.weaken [OF _ L(1)] by (simp add: failed_cleanup_def q Inr)
  qed (use see_rows_keeps [OF assms q] in \<open>simp add: failed_cleanup_def q\<close>)
qed

lemma learn_both:
  assumes k: "keeps E c now K lg" and s: "see_both X s t lg = (y, lg1)"
  obtains L where "K \<subseteq> L" "keeps E c now L lg1"
    "\<And>rs r. y = Inr rs \<Longrightarrow> r \<in> set rs \<Longrightarrow> listed s r L \<or> listed t r L"
proof -
  obtain q lg2 where q: "see_rows X s lg = (q, lg2)" by (rule prod.exhaust)
  show thesis
  proof (cases q)
    case (Inl e)
    then show thesis using see_rows_keeps [OF k q] s q by (intro that [of K]) (auto simp: see_both_def)
  next
    case (Inr rs1)
    obtain L1 where L1: "K \<subseteq> L1" "keeps E c now L1 lg2" "\<And>r. r \<in> set rs1 \<Longrightarrow> listed s r L1"
      using learn_listed [OF k q [unfolded Inr]] by blast
    obtain q2 lg3 where q2: "see_rows X t lg2 = (q2, lg3)" by (rule prod.exhaust)
    show thesis
    proof (cases q2)
      case (Inl e)
      then show thesis using L1(1) see_rows_keeps [OF L1(2) q2] s q Inr q2 by (intro that [of L1]) (auto simp: see_both_def)
    next
      case r2: (Inr rs2)
      obtain L2 where L2: "L1 \<subseteq> L2" "keeps E c now L2 lg3" "\<And>r. r \<in> set rs2 \<Longrightarrow> listed t r L2"
        using learn_listed [OF L1(2) q2 [unfolded r2]] by blast
      have y: "y = Inr (rs1 @ rs2)" "lg1 = lg3" using s q Inr q2 r2 by (auto simp: see_both_def)
      show thesis
      proof (rule that [of L2])
        show "listed s r L2 \<or> listed t r L2" if "y = Inr rs" "r \<in> set rs" for rs r
          using that y(1) L1(3) listed_mono [OF _ L2(1)] L2(3) by auto
      qed (use L1(1) L2 y(2) in auto)
    qed
  qed
qed

lemma keeps_ended:
  assumes "keeps E c now K lg" shows "keeps E c now K (ended_cleanup X g t lg)"
proof -
  obtain q lg1 where q: "see_both X ''expired'' ''cancelled'' lg = (q, lg1)" by (rule prod.exhaust)
  obtain L where L: "K \<subseteq> L" "keeps E c now L lg1"
    "\<And>rs r. q = Inr rs \<Longrightarrow> r \<in> set rs \<Longrightarrow> listed ''expired'' r L \<or> listed ''cancelled'' r L"
    using learn_both [OF assms q] by blast
  show ?thesis
  proof (cases q)
    case (Inr rs)
    have "over r L" if "r \<in> set rs" for r using L(3) [OF Inr that] over_listed by (auto simp: terminal_status_def)
    then have "keeps E c now L (ended_loop X g t rs lg1)" by (rule keeps_ended_loop [OF L(2)])
    then show ?thesis using xp.weaken [OF _ L(1)] by (simp add: ended_cleanup_def q Inr)
  qed (use xp.weaken [OF L(2,1)] in \<open>simp add: ended_cleanup_def q\<close>)
qed

lemma tag_okI:
  "SawDisks False (Inr ds) \<in> K \<Longrightarrow> d \<in> set ds \<Longrightarrow> SawSnapshots (OfDisk (d_user d) (d_name d)) (Inr ss) \<in> K \<Longrightarrow>
   s \<in> set ss \<Longrightarrow> ''delete-date'' \<notin> set (dkeys (tags_of s)) \<Longrightarrow> tag_ok (s_id s) K"
  unfolding tag_ok_def by blast

lemma keeps_tag_disk:
  assumes d: "SawDisks False (Inr ds) \<in> K" "d \<in> set ds" and k: "keeps E c now K (snd st)"
  shows "keeps E c now K (snd (tag_disk X d st))"
proof -
  let ?q = "all_pages (e_snapshots X (snd st) (OfDisk (d_user d) (d_name d)))"
  let ?e = "SawSnapshots (OfDisk (d_user d) (d_name d)) ?q"
  have k1: "keeps E c now (insert ?e K) (?e # snd st)" using k by (rule xp.learn) simp
  have f: "keeps E c now (insert ?e K) (snd (fold (tag_snapshot X d) ss (fst st, ?e # snd st)))" if q: "?q = Inr ss" for ss
  proof (rule xp.fold_state)
    fix s and st' :: "nat \<times> xlog" assume s: "s \<in> set ss" and k': "keeps E c now (insert ?e K) (snd st')"
    have "tag_ok (s_id s) (insert ?e K)" if "''delete-date'' \<notin> set (dkeys (tags_of s))"
      by (rule tag_okI [OF _ d(2) _ s that]) (use d(1) q in auto)
    then show "keeps E c now (insert ?e K) (snd (tag_snapshot X d s st'))"
      using k' by (auto simp: tag_snapshot_def do_call_def keeps_did split: sum.split)
  qed (use k1 in simp)
  show ?thesis
  proof (cases ?q)
    case (Inr ss)
    then show ?thesis using k keeps_less [OF f [OF Inr]] by (simp add: tag_disk_def see_snapshots_def Let_def)
  qed (use k in \<open>simp add: tag_disk_def see_snapshots_def Let_def\<close>)
qed

lemma keeps_sync_deleted:
  assumes k: "keeps E c now K lg" shows "keeps E c now K (snd (sync_disk_deleted_snapshots X lg))"
proof -
  let ?q = "all_pages (e_disks X lg False)"
  let ?e = "SawDisks False ?q"
  have k1: "keeps E c now (insert ?e K) (?e # lg)" using k by (rule xp.learn) simp
  show ?thesis
  proof (cases ?q)
    case (Inr ds)
    have "keeps E c now (insert ?e K) (snd (fold (tag_disk X) ds (0, ?e # lg)))"
      by (rule xp.fold_state [OF keeps_tag_disk]) (use Inr k1 in auto)
    from keeps_less [OF this] show ?thesis using Inr by (simp add: sync_disk_deleted_snapshots_def see_disks_def Let_def)
  qed (use k in \<open>simp add: sync_disk_deleted_snapshots_def see_disks_def Let_def\<close>)
qed

lemma keeps_sync_completed:
  assumes k: "keeps E c now K lg" shows "keeps E c now K (snd (sync_completed_snapshots X lg))"
proof -
  have s: "keeps E c now K (snd (sync_snapshot X s st))" if "keeps E c now K (snd st)" for s st
    using that by (auto simp: sync_snapshot_def Let_def see_disk_def keeps_completed split: sum.split option.split)
  show ?thesis
    using k by (auto simp: sync_completed_snapshots_def see_snapshots_def Let_def intro!: xp.fold_state s split: sum.split)
qed

lemma keeps_soft_deleted:
  assumes k: "keeps E c now K lg" shows "keeps E c now K (snd (cleanup_soft_deleted_snapshots E lg))"
proof -
  let ?q = "all_pages (e_snapshots E lg Dated)"
  let ?e = "SawSnapshots Dated ?q"
  have k1: "keeps E c now (insert ?e K) (?e # lg)" using k by (rule xp.learn) simp
  show ?thesis
  proof (cases ?q)
    case (Inr ss)
    have "keeps E c now (insert ?e K) (snd (fold (drop_dated E) ss (0, ?e # lg)))"
    proof (rule xp.fold_state)
      fix s and st :: "nat \<times> xlog" assume s: "s \<in> set ss" and k': "keeps E c now (insert ?e K) (snd st)"
      have "drop_ok E (s_id s) (insert ?e K)"
        if "dget_or (tags_of s) ''delete-date'' [] \<noteq> []" "dget_or (tags_of s) ''delete-date'' [] \<le> e_today E"
        unfolding drop_ok_def by (intro disjI1 exI [of _ ss] exI [of _ s]) (use that s Inr in auto)
      then show "keeps E c now (insert ?e K) (snd (drop_dated E s st))"
        using k' by (auto simp: drop_dated_def Let_def do_call_def keeps_did split: sum.split)
    qed (use k1 in simp)
    from keeps_less [OF this] show ?thesis using Inr by (simp add: cleanup_soft_deleted_snapshots_def see_snapshots_def Let_def)
  qed (use k in \<open>simp add: cleanup_soft_deleted_snapshots_def see_snapshots_def Let_def\<close>)
qed

lemma drop_okI:
  "SawSnapshots (CompletedOf u) (Inr ss) \<in> K \<Longrightarrow> s \<in> set (drop keep_count (sorted_by_desc s_start ss)) \<Longrightarrow> drop_ok E (s_id s) K"
  unfolding drop_ok_def by blast

lemma keeps_drop_old:
  assumes "\<And>s. s \<in> set (drop (keep - i) ss) \<Longrightarrow> drop_ok E (s_id s) K" "keeps E c now K lg"
  shows "keeps E c now K (snd (drop_old X keep limit cutoff i ss n lg))"
  using assms
proof (induction ss arbitrary: i n lg)
  case (Cons s ss)
  show ?case
  proof (cases "i < keep")
    case True
    then have "drop (keep - i) (s # ss) = drop (keep - Suc i) ss" by (simp add: drop_Cons' Suc_diff_Suc)
    then show ?thesis using True Cons by simp
  next
    case False
    then have d: "drop_ok E (s_id x) K" if "x \<in> set (s # ss)" for x using Cons.prems(1) that by simp
    have k: "keeps E c now K (Did (DropSnapshot (s_id s)) y # lg)" for y
      by (rule keeps_did [OF Cons.prems(2)]) (simp add: d)
    have ih: "keeps E c now K (snd (drop_old X keep limit cutoff (Suc i) ss m lg'))" if "keeps E c now K lg'" for m lg'
      by (rule Cons.IH) (use that d False in \<open>auto dest: in_set_dropD\<close>)
    show ?thesis using False Cons.prems(2) ih [OF k] by (simp add: do_call_def split: sum.split)
  qed
qed simp

lemma keeps_cleanup_old:
  assumes k: "keeps E c now K lg" shows "keeps E c now K (snd (cleanup_old_snapshots X u keep_count days limit lg))"
proof -
  let ?q = "all_pages (e_snapshots X lg (CompletedOf u))"
  let ?e = "SawSnapshots (CompletedOf u) ?q"
  have k1: "keeps E c now (insert ?e K) (?e # lg)" using k by (rule xp.learn) simp
  show ?thesis
  proof (cases ?q)
    case (Inr ss)
    have "keeps E c now (insert ?e K) (snd (drop_old X keep_count limit t 0 (sorted_by_desc s_start ss) 0 (?e # lg)))" for t
      by (rule keeps_drop_old [OF drop_okI k1]) (use Inr in auto)
    from keeps_less [OF this] show ?thesis using Inr k by (simp add: cleanup_old_snapshots_def see_snapshots_def Let_def)
  qed (use k in \<open>simp add: cleanup_old_snapshots_def see_snapshots_def Let_def\<close>)
qed

lemma keeps_for_users: "keeps E c now K lg \<Longrightarrow> keeps E c now K (snd (drop_for_users X us k n lg))"
proof (induction us arbitrary: k n lg)
  case (Cons u us)
  obtain m lg1 where m: "cleanup_old_snapshots X u keep_count max_age_days max_deletions_per_run lg = (m, lg1)" by (rule prod.exhaust)
  have "keeps E c now K lg1" using keeps_cleanup_old [OF Cons.prems] m by (metis snd_conv)
  then show ?case using Cons by (simp add: m)
qed simp

lemma keeps_cleanup_all: "keeps E c now K lg \<Longrightarrow> keeps E c now K (snd (cleanup_all_user_snapshots X n lg))"
  by (auto simp: cleanup_all_user_snapshots_def see_snapshots_def Let_def keeps_for_users split: sum.split option.split)

subsection \<open>A run\<close>

lemma learn_running:
  assumes k: "keeps E c now K lg" and s: "see_running X lg = ((act, prep), lg1)"
  obtains L where "K \<subseteq> L" "keeps E c now L lg1" "\<And>r. r \<in> set act \<Longrightarrow> listed ''active'' r L"
    "\<And>r. r \<in> set prep \<Longrightarrow> listed ''preparing'' r L"
proof -
  obtain q lg2 where q: "see_rows X ''active'' lg = (q, lg2)" by (rule prod.exhaust)
  show thesis
  proof (cases q)
    case (Inl e)
    then show thesis using see_rows_keeps [OF k q] s q by (intro that [of K]) (auto simp: see_running_def)
  next
    case (Inr rs)
    obtain L1 where L1: "K \<subseteq> L1" "keeps E c now L1 lg2" "\<And>r. r \<in> set rs \<Longrightarrow> listed ''active'' r L1"
      using learn_listed [OF k q [unfolded Inr]] by blast
    obtain q2 lg3 where q2: "see_rows X ''preparing'' lg2 = (q2, lg3)" by (rule prod.exhaust)
    show thesis
    proof (cases q2)
      case (Inl e)
      then show thesis using L1(1) see_rows_keeps [OF L1(2) q2] s q Inr q2 by (intro that [of L1]) (auto simp: see_running_def)
    next
      case r2: (Inr rs2)
      obtain L2 where L2: "L1 \<subseteq> L2" "keeps E c now L2 lg3" "\<And>r. r \<in> set rs2 \<Longrightarrow> listed ''preparing'' r L2"
        using learn_listed [OF L1(2) q2 [unfolded r2]] by blast
      have "act = rs" "prep = rs2" "lg1 = lg3" using s q Inr q2 r2 by (auto simp: see_running_def)
      then show thesis using L1 L2 listed_mono [OF _ L2(1)] by (intro that [of L2]) auto
    qed
  qed
qed

lemma keeps_finish_run:
  assumes k: "keeps E c now K lg" shows "keeps E c now K (snd (finish_run E c now active n lg))"
proof -
  obtain y lg1 where y: "see_both E ''queued'' ''pending'' lg = (y, lg1)" by (rule prod.exhaust)
  obtain M where M: "K \<subseteq> M" "keeps E c now M lg1"
    "\<And>rs r. y = Inr rs \<Longrightarrow> r \<in> set rs \<Longrightarrow> listed ''queued'' r M \<or> listed ''pending'' r M" using learn_both [OF k y] by blast
  show ?thesis
  proof (cases y)
    case (Inl e)
    then show ?thesis using xp.weaken [OF M(2,1)] by (simp add: finish_run_def y)
  next
    case (Inr waiting)
    obtain n1 lg2 where st: "fold (stale_step E now) waiting (n, lg1) = (n1, lg2)" by (rule prod.exhaust)
    have "keeps E c now M (snd (fold (stale_step E now) waiting (n, lg1)))"
      by (rule xp.fold_state [OF keeps_stale [OF M(3) [OF Inr]]]) (use M(2) in auto)
    then have "keeps E c now M lg2" by (simp add: st)
    then have h: "keeps E c now M (heavy_cleanup E c now (sweep_stale_disk_locks E lg2))"
      unfolding heavy_cleanup_def by (intro keeps_ended keeps_pod_centric keeps_failed keeps_sweep)
    obtain tg lg3 where tg: "sync_disk_deleted_snapshots E (heavy_cleanup E c now (sweep_stale_disk_locks E lg2)) = (tg, lg3)" by (rule prod.exhaust)
    have k3: "keeps E c now M lg3" using keeps_sync_deleted [OF h] tg by (metis snd_conv)
    obtain sy lg4 where sy: "sync_completed_snapshots E lg3 = (sy, lg4)" by (rule prod.exhaust)
    have k4: "keeps E c now M lg4" using keeps_sync_completed [OF k3] sy by (metis snd_conv)
    obtain de lg5 where de: "cleanup_soft_deleted_snapshots E lg4 = (de, lg5)" by (rule prod.exhaust)
    have "keeps E c now M lg5" using keeps_soft_deleted [OF k4] de by (metis snd_conv)
    then show ?thesis using xp.weaken [OF _ M(1)] by (simp add: finish_run_def y Inr st tg sy de)
  qed
qed

lemma keeps_end_and_warn:
  assumes "keeps E c now K lg" "\<And>r. r \<in> set act \<Longrightarrow> listed ''active'' r K" "\<And>r. r \<in> set prep \<Longrightarrow> listed ''preparing'' r K"
  shows "keeps E c now K (snd (end_and_warn E c now prep act lg))"
proof -
  have "keeps E c now K (snd (fold (preparing_step E now) prep (no_counts, lg)))"
    by (rule xp.fold_state [OF keeps_preparing]) (use assms in auto)
  then show ?thesis unfolding end_and_warn_def
    by (intro xp.fold_state [OF keeps_active]) (use assms in auto)
qed

lemma keeps_run:
  assumes k: "keeps E c now K lg" shows "keeps E c now K (snd (expiry_run E c now lg))"
proof -
  obtain act prep lg1 where s: "see_running E lg = ((act, prep), lg1)" by (metis prod.exhaust)
  obtain L where L: "K \<subseteq> L" "keeps E c now L lg1" "\<And>r. r \<in> set act \<Longrightarrow> listed ''active'' r L"
    "\<And>r. r \<in> set prep \<Longrightarrow> listed ''preparing'' r L" using learn_running [OF k s] by blast
  obtain n lg2 where n: "end_and_warn E c now prep act lg1 = (n, lg2)" by (rule prod.exhaust)
  have "keeps E c now L lg2" using keeps_end_and_warn [OF L(2,3,4), of act prep] unfolding n by simp
  from xp.weaken [OF keeps_finish_run [OF this] L(1)] show ?thesis by (simp add: expiry_run_def s n)
qed

lemma expiry_policy:
  "each_call did (\<lambda>f es. effect_ok E c (e_now E []) f (set es)) (snd (expiry_handler E c b []))"
proof (rule xp.calls_ok)
  show "keeps E c (e_now E []) {} (snd (expiry_handler E c b []))"
    using keeps_run [OF xp.start, of E c "e_now E []"] keeps_cleanup_all [OF xp.start, of E c "e_now E []"]
    by (auto simp: expiry_handler_def split: prod.split) (metis snd_conv)
qed

end
