(* ===== verification/Gpu_Expiry_Properties.thy ===== *)
theory Gpu_Expiry_Properties
  imports Gpu_Expiry_Run
begin

section \<open>The expiry lambda: properties\<close>

text \<open>
  What follows from the policy for each kind of change, the choice of the warnings, the answer of the handler and the removal
  of old snapshots.
\<close>

subsection \<open>Justified changes\<close>

fun ending_of :: "xevent \<Rightarrow> (string \<times> string) option" where
  \<comment> \<open>a write of a status: the reservation and the status\<close>
  "ending_of (Did (SetRow rid ch) y) = (case dget ch ''status'' of Some (DStr s) \<Rightarrow> Some (rid, s) | _ \<Rightarrow> None)"
| "ending_of _ = None"

fun pod_drop_of :: "xevent \<Rightarrow> string option" where
  "pod_drop_of (Did (DropPod ns p g) y) = Some p"
| "pod_drop_of _ = None"

fun volume_drop_of :: "xevent \<Rightarrow> string option" where
  "volume_drop_of (Did (DropVolume v) y) = Some v"
| "volume_drop_of _ = None"

fun unlock_of :: "xevent \<Rightarrow> (string \<times> string) option" where
  "unlock_of (Did (SetDisk u d up rm) y) = (if unlocks up then Some (u, d) else None)"
| "unlock_of _ = None"

fun snapshot_drop_of :: "xevent \<Rightarrow> string option" where
  "snapshot_drop_of (Did (DropSnapshot s) y) = Some s"
| "snapshot_drop_of _ = None"

lemma select_effect:
  assumes "each_call did (\<lambda>f es. effect_ok E c now f (set es)) lg"
    and "\<And>f y x K. k (Did f y) = Some x \<Longrightarrow> effect_ok E c now f K \<Longrightarrow> R x K"
    and "\<And>e. did e = None \<Longrightarrow> k e = None"
  shows "each_call k (\<lambda>x es. R x (set es)) lg"
proof (rule each_call_select [OF assms(1)])
  fix e x es assume k: "k e = Some x"
  then obtain f where f: "did e = Some f" using assms(3) [of e] by (cases "did e") auto
  then obtain y where "e = Did f y" by (cases e) auto
  then show "\<exists>f. did e = Some f \<and> (effect_ok E c now f (set es) \<longrightarrow> R x (set es))" using f assms(2) k by blast
qed

lemma did_none_simps: "did e = None \<Longrightarrow> ending_of e = None" "did e = None \<Longrightarrow> pod_drop_of e = None"
  "did e = None \<Longrightarrow> volume_drop_of e = None" "did e = None \<Longrightarrow> unlock_of e = None" "did e = None \<Longrightarrow> snapshot_drop_of e = None"
  by (cases e; simp)+

text \<open>C27: a reservation is ended only for a reason. Whenever a run of the expiry lambda writes a status to a reservation, the
  query for its former status returned it in that run, and: the status is \<open>expired\<close>, the reservation was active, and
  its time and the grace period are over or its pod could not be read (for a reservation launched less than ten
  minutes ago only if it has half an hour left at most); or it is \<open>failed\<close>, and the reservation had been preparing for
  more than an hour, or was active, was not just launched and its pod was read as dead; or it is \<open>cancelled\<close>, and the
  reservation had been queued or pending for more than 48 hours.
\<close>
theorem expiry_ends_justified:
  "each_call ending_of (\<lambda>(rid, s) es. \<exists>r. x_id r = rid \<and> may_end E c (e_now E []) r s (set es))
     (snd (expiry_handler E c b []))"
proof -
  have "each_call ending_of (\<lambda>x es. (case x of (rid, s) \<Rightarrow> \<lambda>K. \<exists>r. x_id r = rid \<and> may_end E c (e_now E []) r s K) (set es))
     (snd (expiry_handler E c b []))"
  proof (rule select_effect [OF expiry_policy])
    fix f y x K assume k: "ending_of (Did f y) = Some x" and ok: "effect_ok E c (e_now E []) f K"
    obtain rid s where x: "x = (rid, s)" by (rule prod.exhaust)
    show "(case x of (rid, s) \<Rightarrow> \<lambda>K. \<exists>r. x_id r = rid \<and> may_end E c (e_now E []) r s K) K"
      using k ok unfolding x by (cases f) (auto simp: row_ok_def split: option.splits ddb.splits)
  qed (rule did_none_simps)
  then show ?thesis by (simp add: case_prod_beta')
qed

text \<open>Only pods of ended reservations are deleted. Whenever a run of the expiry lambda deletes a pod, it has before
  found a reservation of that pod which was over: it was listed as expired, cancelled or failed, or the run itself had
  successfully written such a status to it.
\<close>
theorem expiry_deletes_ended_pods:
  "each_call pod_drop_of (\<lambda>p es. \<exists>r. over r (set es) \<and> pod_of r p (set es)) (snd (expiry_handler E c b []))"
proof (rule select_effect [OF expiry_policy])
  fix f y x K assume "pod_drop_of (Did f y) = Some x" "effect_ok E c (e_now E []) f K"
  then show "\<exists>r. over r K \<and> pod_of r x K" by (cases f) (auto simp: pod_ok_def)
qed (rule did_none_simps)

text \<open>C26: no disk is deleted without its snapshot. Whenever a run of the expiry lambda deletes an EBS volume, then before,
  in the same run, it had found a pending snapshot of that volume or created one, had waited until that
  snapshot was complete, and had found a reservation that was over.
\<close>
theorem volumes_deleted_after_snapshot:
  "each_call volume_drop_of
     (\<lambda>v es. (\<exists>sid y. snapshot_of v sid (set es) \<and> Did (WaitSnapshot sid) (Inr y) \<in> set es) \<and> (\<exists>r. over r (set es)))
     (snd (expiry_handler E c b []))"
proof (rule select_effect [OF expiry_policy])
  fix f y x K assume "volume_drop_of (Did f y) = Some x" "effect_ok E c (e_now E []) f K"
  then show "(\<exists>sid y. snapshot_of x sid K \<and> Did (WaitSnapshot sid) (Inr y) \<in> K) \<and> (\<exists>r. over r K)"
    by (cases f) (auto simp: volume_ok_def)
qed (rule did_none_simps)

text \<open>the lock of a disk is released only for a reason. Whenever a run of the expiry lambda marks a disk as not in use,
  the disk was listed as locked by a reservation that does not exist or has ended, or it belongs to a reservation
  that was over by then, or a volume had been deleted after its snapshot.
\<close>
theorem disks_unlocked_justified:
  "each_call unlock_of (\<lambda>(u, d) es. unlock_ok u d (set es)) (snd (expiry_handler E c b []))"
proof -
  have "each_call unlock_of (\<lambda>x es. (case x of (u, d) \<Rightarrow> unlock_ok u d) (set es)) (snd (expiry_handler E c b []))"
  proof (rule select_effect [OF expiry_policy])
    fix f y x K assume k: "unlock_of (Did f y) = Some x" and ok: "effect_ok E c (e_now E []) f K"
    obtain u d where x: "x = (u, d)" by (rule prod.exhaust)
    show "(case x of (u, d) \<Rightarrow> unlock_ok u d) K" using k ok unfolding x by (cases f) (auto split: if_splits)
  qed (rule did_none_simps)
  then show ?thesis by (simp add: case_prod_beta')
qed

text \<open>snapshots are deleted only when they are due. Whenever a run of the expiry lambda deletes a snapshot, it is one whose
  tag \<open>delete-date\<close> is today or earlier, or, in the scheduled clean-up, a completed snapshot of a user of whom
  at least three other snapshots are listed before it in the order from the newest to the oldest.
\<close>
theorem snapshots_deleted_when_due:
  "each_call snapshot_drop_of (\<lambda>s es. drop_ok E s (set es)) (snd (expiry_handler E c b []))"
proof (rule select_effect [OF expiry_policy])
  fix f y x K assume "snapshot_drop_of (Did f y) = Some x" "effect_ok E c (e_now E []) f K"
  then show "drop_ok E x K" by (cases f) auto
qed (rule did_none_simps)

subsection \<open>Concrete runs\<close>

definition plain_row :: xrow where
  "plain_row =
     \<lparr>x_id = ''0123456789'', x_status = ''active'', x_user = Some ''alice'', x_pod = ''gpu-dev-01234567'', x_namespace = None,
      x_disk = ''main'', x_volume = [], x_gpu_type = ''t4'', x_domain = [], x_node_ip = [], x_node_port = 0, x_created = None,
      x_expires = Some (DStr ''1970-01-02T03:30:00''), x_launched = None, x_failed = None, x_expired = None, x_cancelled = None,
      x_warnings = [], x_oom_count = 0, x_last_oom = []\<rparr>"

definition plain_cfg :: xcfg where
  "plain_cfg = \<lparr>k_grace = 120, k_spot = [], k_updater = [], k_bucket = [], k_dns = False, k_alb = False\<rparr>"

subsection \<open>Warnings\<close>

fun warning_runs :: "int list \<Rightarrow> (string, bool) dict \<Rightarrow> int list" where
  \<comment> \<open>the warnings of successive runs, from the minutes left in each of them and what was sent before\<close>
  "warning_runs [] sent = []"
| "warning_runs (left # ls) sent =
     (case warning_to_send sent left of
        None \<Rightarrow> warning_runs ls sent
      | Some level \<Rightarrow> level # warning_runs ls (dset (warning_key level) True sent))"

definition sent_exactly :: "int list \<Rightarrow> (string, bool) dict \<Rightarrow> bool" where
  "sent_exactly ls sent \<longleftrightarrow> (\<forall>l \<in> {30, 15, 5}. dget_or sent (warning_key l) False \<longleftrightarrow> l \<in> set ls)"

lemma warning_keys: "l \<in> {30, 15, 5} \<Longrightarrow> m \<in> {30, 15, 5} \<Longrightarrow> warning_key l = warning_key m \<longleftrightarrow> l = (m :: int)"
  by (elim insertE; simp add: warning_key_def str_int_def; code_simp?)

lemma levels_sorted: "sorted_by_desc (\<lambda>x. x) WARNING_LEVELS = [30, 15, 5]"
  by (simp add: sorted_by_desc_def WARNING_LEVELS_def)

lemma sent_step:
  assumes "sent_exactly (take k [30, 15, 5]) sent" "warning_to_send sent left = Some w"
  shows "k < 3 \<and> w = [30, 15, 5] ! k \<and> left \<le> w \<and> sent_exactly (take (Suc k) [30, 15, 5]) (dset (warning_key w) True sent)"
proof -
  have get: "dget_or sent (warning_key l) False \<longleftrightarrow> l \<in> set (take k [30, 15, 5])" if "l \<in> {30, 15, 5}" for l
    using assms(1) that unfolding sent_exactly_def by blast
  have k: "k = 0 \<or> k = 1 \<or> k = 2 \<or> k \<ge> 3" by auto
  have w: "k < 3 \<and> w = [30, 15, 5] ! k \<and> left \<le> w"
    using assms(2) get [of 30] get [of 15] get [of 5] k
    by (auto simp: warning_to_send_def levels_sorted take_Cons' split: if_splits)
  have "dget_or (dset (warning_key w) True sent) (warning_key l) False \<longleftrightarrow> l \<in> set (take (Suc k) [30, 15, 5])"
    if l: "l \<in> {30, 15, 5}" for l
  proof -
    have "w \<in> {30, 15, 5}" using w k by auto
    then have e: "warning_key l = warning_key w \<longleftrightarrow> l = w" using warning_keys l by blast
    have "set (take (Suc k) [30, 15, 5]) = insert w (set (take k [30, 15, 5]))" using w k by (elim disjE) auto
    then show ?thesis using get [OF l] by (simp add: dget_or_dset e)
  qed
  then show ?thesis using w by (simp add: sent_exactly_def)
qed

lemma warning_runs_prefix:
  "sent_exactly (take k [30, 15, 5]) sent \<Longrightarrow> \<exists>m. warning_runs ls sent = take m (drop k [30, 15, 5])"
proof (induction ls arbitrary: k sent)
  case (Cons left ls)
  show ?case
  proof (cases "warning_to_send sent left")
    case (Some w)
    note st = sent_step [OF Cons.prems Some]
    obtain m where m: "warning_runs ls (dset (warning_key w) True sent) = take m (drop (Suc k) [30, 15, 5])"
      using Cons.IH st by blast
    have "drop k [30, 15, 5] = w # drop (Suc k) [30, 15, 5]" using st Cons_nth_drop_Suc [of k "[30, 15, 5 :: int]"] by simp
    then have "warning_runs (left # ls) sent = take (Suc m) (drop k [30, 15, 5])" using Some m by simp
    then show ?thesis by blast
  qed (use Cons in simp)
qed (metis take0 warning_runs.simps(1))

text \<open>the warnings of a reservation come in the order 30, 15, 5 minutes, each at most once, whatever times are left
  in the successive runs: the warnings that the choice gives, with each one noted as sent, are the beginning of this
  list. The note is written to the row: the last thing that sending a warning does is to store the sent warnings
  with the new one.
\<close>
theorem warnings_in_order:
  "(\<exists>m. warning_runs lefts [] = take m [30, 15, 5]) \<and>
   (\<exists>y t rest. warn_user_expiring E c r level lg =
      Did (SetRow (x_id r)
        [(''warnings_sent'', DMap (map (\<lambda>(k, b). (k, DBool b)) (dset (warning_key level) True (x_warnings r)))),
         (''last_warning_time'', t)]) y # rest)"
proof
  have "sent_exactly (take 0 [30, 15, 5]) []" by (simp add: sent_exactly_def dget_or_def dict_simps)
  then show "\<exists>m. warning_runs lefts [] = take m [30, 15, 5]" using warning_runs_prefix [of 0 "[]" lefts] by simp
qed (auto simp: warn_user_expiring_def Let_def call_defs)

lemma late_warning:
  \<comment> \<open>with two minutes left and nothing sent, the first warning is the one for half an hour\<close>
  "warning_to_send [] 2 = Some 30"
  by (simp add: warning_to_send_def levels_sorted dget_or_def dict_simps)

subsection \<open>The removal of old snapshots\<close>

definition dropped :: "xlog \<Rightarrow> string list" where
  \<comment> \<open>the snapshots whose deletion was tried, oldest first\<close>
  "dropped lg = List.map_filter snapshot_drop_of (rev lg)"

definition dropped_well :: "xlog \<Rightarrow> nat" where
  "dropped_well lg = length (filter (\<lambda>e. case e of Did (DropSnapshot s) (Inr y) \<Rightarrow> True | _ \<Rightarrow> False) lg)"

lemma dropped_simps [simp]:
  "dropped [] = []" "dropped (Did (DropSnapshot s) y # lg) = dropped lg @ [s]"
  "dropped (SawSnapshots q z # lg) = dropped lg"
  "dropped_well [] = 0" "dropped_well (Did (DropSnapshot s) (Inr v) # lg) = Suc (dropped_well lg)"
  "dropped_well (Did (DropSnapshot s) (Inl x) # lg) = dropped_well lg" "dropped_well (SawSnapshots q z # lg) = dropped_well lg"
  by (simp_all add: dropped_def dropped_well_def List.map_filter_def)

lemma drop_old_spec:
  assumes "drop_old X keep limit cutoff i ss n lg = (n1, lg1)" "n \<le> limit"
  shows "n1 \<le> limit \<and> set lg \<subseteq> set lg1 \<and> n1 + dropped_well lg = n + dropped_well lg1 \<and>
    (\<exists>m. dropped lg1 = dropped lg @ map s_id (take m (drop (keep - i) ss)) \<and> (n1 < limit \<longrightarrow> length (drop (keep - i) ss) \<le> m))"
  using assms
proof (induction ss arbitrary: i n lg)
  case (Cons s ss)
  show ?case
  proof (cases "n \<ge> limit")
    case True
    then show ?thesis using Cons.prems by (auto intro: exI [of _ 0])
  next
    case n: False
    show ?thesis
    proof (cases "i < keep")
      case True
      then have "drop (keep - i) (s # ss) = drop (keep - Suc i) ss" by (simp add: drop_Cons' Suc_diff_Suc)
      moreover have "drop_old X keep limit cutoff (Suc i) ss n lg = (n1, lg1)" using Cons.prems n True by simp
      ultimately show ?thesis using Cons.IH Cons.prems(2) by metis
    next
      case False
      let ?y = "e_do X lg (DropSnapshot (s_id s))"
      let ?n = "(case ?y of Inl _ \<Rightarrow> n | Inr _ \<Rightarrow> Suc n)"
      have r: "drop_old X keep limit cutoff (Suc i) ss ?n (Did (DropSnapshot (s_id s)) ?y # lg) = (n1, lg1)"
        using Cons.prems(1) n False by (simp add: do_call_def split: sum.splits)
      have b: "?n \<le> limit" using n by (simp split: sum.split)
      have ki: "keep - i = 0" "keep - Suc i = 0" using False by auto
      have w: "dropped_well (Did (DropSnapshot (s_id s)) ?y # lg) + n = dropped_well lg + ?n"
        by (cases ?y) simp_all
      obtain m where ih: "n1 \<le> limit" "set lg \<subseteq> set lg1" "n1 + dropped_well (Did (DropSnapshot (s_id s)) ?y # lg) = ?n + dropped_well lg1"
        "dropped lg1 = (dropped lg @ [s_id s]) @ map s_id (take m ss)" "n1 < limit \<longrightarrow> length ss \<le> m"
        using Cons.IH [OF r b] ki by auto
      show ?thesis
        by (intro conjI exI [of _ "Suc m"]) (use ih w ki in auto)
    qed
  qed
qed (auto intro: exI [of _ 0])

text \<open>C29: the clean-up of a user's snapshots. It tries to delete, from the newest to the oldest, the completed snapshots of the
  user after the first three, whatever their age, without a gap; it stops only when ten deletions have succeeded or there is no
  snapshot left, and it returns the number of successful deletions. The docstring says that snapshots older than max_age_days
  are deleted, but the age has no influence.
\<close>
theorem snapshot_retention:
  "case cleanup_old_snapshots E u keep_count days max_deletions_per_run [] of (n, lg) \<Rightarrow>
     n \<le> 10 \<and> n = dropped_well lg \<and>
     (\<exists>q m. SawSnapshots (CompletedOf u) q \<in> set lg \<and>
        dropped lg = map s_id (take m (drop 3 (sorted_by_desc s_start (case q of Inl _ \<Rightarrow> [] | Inr ss \<Rightarrow> ss)))) \<and>
        (n = 10 \<or> m \<ge> length (case q of Inl _ \<Rightarrow> [] | Inr ss \<Rightarrow> ss) - 3))"
proof -
  let ?q = "all_pages (e_snapshots E [] (CompletedOf u))"
  let ?l = "[SawSnapshots (CompletedOf u) ?q]"
  show ?thesis
  proof (cases "\<exists>ss. ?q = Inr ss \<and> length ss > 3")
    case False
    then show ?thesis
      by (auto simp: cleanup_old_snapshots_def see_snapshots_def Let_def keep_count_def split: sum.split intro!: exI [of _ 0])
  next
    case True
    then obtain ss where ss: "?q = Inr ss" "length ss > 3" by blast
    obtain n lg where r: "drop_old E keep_count max_deletions_per_run (e_now E ?l - days * 86400) 0 (sorted_by_desc s_start ss) 0 ?l = (n, lg)"
      by (rule prod.exhaust)
    have c: "cleanup_old_snapshots E u keep_count days max_deletions_per_run [] = (n, lg)"
      using ss r by (simp add: cleanup_old_snapshots_def see_snapshots_def Let_def keep_count_def)
    obtain m where m: "n \<le> 10" "?l ! 0 \<in> set lg" "n = dropped_well lg"
      "dropped lg = map s_id (take m (drop 3 (sorted_by_desc s_start ss)))" "n < 10 \<longrightarrow> length ss - 3 \<le> m"
      using drop_old_spec [OF r] by (auto simp: keep_count_def max_deletions_per_run_def)
    have "n = 10 \<or> length ss - 3 \<le> m" using m(1,5) by linarith
    then show ?thesis unfolding c prod.case
      by (intro conjI exI [of _ "Inr ss :: snapshot list res"] exI [of _ m]) (use m ss in simp_all)
  qed
qed

subsection \<open>The listing of a disk\<close>

lemma split_first: "c \<notin> set p \<Longrightarrow> split_on c (p @ c # s) = p # split_on c s"
  by (simp add: split_on_Cons split_on_plain)

lemma parse_s3_path_of: "CHR ''/'' \<notin> set bucket \<Longrightarrow> parse_s3_path (s3_path_of bucket key) = Some (bucket, key)"
proof -
  assume b: "CHR ''/'' \<notin> set bucket"
  obtain k ks where k: "split_on (CHR ''/'') key = k # ks" by (cases "split_on (CHR ''/'') key") auto
  have "startswith (''s3://'' @ bucket @ ''/'' @ key) ''s3://''" by (simp add: startswith_def)
  moreover have "split_on (CHR ''/'') (drop 5 (''s3://'' @ bucket @ ''/'' @ key)) = bucket # k # ks"
    using split_first [OF b, of key] k by simp
  moreover have "join_on (CHR ''/'') (k # ks) = key" using join_split [of "CHR ''/''" key] k by simp
  ultimately show ?thesis by (simp add: parse_s3_path_def s3_path_of_def)
qed

text \<open>What was listed of a disk can be read again. If listing the contents of a disk returns a path, then the last call wrote an
  object, and reading with that path reads the object of the same bucket and key. (A bucket name has no slash.)
\<close>
theorem capture_roundtrip:
  assumes "capture_disk_contents E bucket pod ns user disk sid mount lg = ((path, usage), lg1)" "path \<noteq> []"
    and "CHR ''/'' \<notin> set bucket"
  shows "\<exists>key contents y rest. lg1 = Did (PutObject bucket key contents) (Inr y) # rest \<and>
     get_snapshot_contents X [] path lg2 =
       ((case e_object X lg2 bucket key of Inl _ \<Rightarrow> None | Inr x \<Rightarrow> Some x), SawObject bucket key (e_object X lg2 bucket key) # lg2)"
proof -
  obtain key contents y rest where k: "lg1 = Did (PutObject bucket key contents) (Inr y) # rest" "path = s3_path_of bucket key"
    using assms(1,2) by (auto simp: capture_disk_contents_def do_call_def Let_def split: if_splits sum.splits prod.splits)
  have "get_snapshot_contents X [] path lg2 =
       ((case e_object X lg2 bucket key of Inl _ \<Rightarrow> None | Inr x \<Rightarrow> Some x), SawObject bucket key (e_object X lg2 bucket key) # lg2)"
    using assms(2) parse_s3_path_of [OF assms(3), of key]
    by (simp add: k(2) get_snapshot_contents_def content_path_def see_object_def split: sum.split)
  then show ?thesis using k(1) by blast
qed

definition disk_listing :: "(string \<times> string) \<times> xlog" where
  "disk_listing = capture_disk_contents calm ''contents'' ''gpu-dev-01234567'' gpu_ns ''alice'' ''main'' ''snap-1'' ''/home/dev'' []"

theorem capture_roundtrip_witness:
  "fst (get_snapshot_contents (calm\<lparr>e_object := \<lambda>_ b k. Inr k\<rparr>) [] (fst (fst disk_listing)) []) = Some ''alice/main/snap-1-contents.txt''"
proof -
  have l: "disk_listing = ((''s3://contents/alice/main/snap-1-contents.txt'', []), snd disk_listing)" by code_simp
  obtain key contents y rest where k: "snd disk_listing = Did (PutObject ''contents'' key contents) (Inr y) # rest"
    "fst (get_snapshot_contents (calm\<lparr>e_object := \<lambda>_ b k. Inr k\<rparr>) [] ''s3://contents/alice/main/snap-1-contents.txt'' []) = Some key"
    using capture_roundtrip [OF l [unfolded disk_listing_def], where X = "calm\<lparr>e_object := \<lambda>_ b k. Inr k\<rparr>" and ?lg2.0 = "[]"]
    by (auto simp: disk_listing_def)
  have "hd (snd disk_listing) = Did (PutObject ''contents'' ''alice/main/snap-1-contents.txt'' ''ok'') (Inr ''ok'')" by code_simp
  then have "key = ''alice/main/snap-1-contents.txt''" using k(1) by simp
  moreover have "fst (fst disk_listing) = ''s3://contents/alice/main/snap-1-contents.txt''" by (subst l) simp
  ultimately show ?thesis using k(2) by simp
qed

subsection \<open>The end of a reservation whose time is over\<close>

definition ending_tried :: "xrow \<Rightarrow> string \<Rightarrow> xlog \<Rightarrow> bool" where
  "ending_tried r s lg \<longleftrightarrow> (\<exists>a t rest y. Did (SetRow (x_id r) (ended s a t @ rest)) y \<in> set lg)"

lemma active_step_ends:
  assumes l: "listed ''active'' r K" and k: "keeps E c now K (snd st)"
    and o: "expires_at E r + k_grace c < now" "x_user r \<noteq> None"
  shows "\<exists>t y. keeps E c now (insert (Did (SetRow (x_id r) (ended ''expired'' ''expired_at'' t @ [])) y) K) (snd (active_step E c now r st))"
proof -
  have m: "may_end E c now r ''expired'' K" using l o(1) unfolding may_end_def by blast
  let ?f = "SetRow (x_id r) (ended ''expired'' ''expired_at'' (e_utcnow E (snd st)) @ [])"
  let ?y = "e_do E (snd st) ?f"
  have k1: "keeps E c now (insert (Did ?f ?y) K) (Did ?f ?y # snd st)"
    by (rule keeps_learn_did [OF k]) (simp only: effect_ok.simps row_ok_ended [OF m])
  have "keeps E c now (insert (Did ?f ?y) K) (snd (active_step E c now r st))"
  proof (cases ?y)
    case (Inl e)
    then show ?thesis using k1 o by (auto simp: active_step_def expire_reservation_def do_call_def)
  next
    case (Inr z)
    have "over r (insert (Did ?f ?y) K)"
      by (rule over_ended [OF listed_mono [OF l] terminal_may_end [OF m], where y = z]) (use Inr in auto)
    then have "keeps E c now (insert (Did ?f ?y) K) (snd (cleanup_pod E c (x_pod r) (namespace_of r) r (Did ?f ?y # snd st)))"
      by (rule keeps_cleanup_pod [OF k1]) (simp add: pod_of_def)
    then show ?thesis using k1 o Inr by (auto simp: active_step_def expire_reservation_def do_call_def)
  qed
  then show ?thesis by blast
qed

text \<open>C28: a reservation whose time is over is ended. If in a run the queries for active and preparing reservations succeed and the first
  returns a reservation with a user whose time and grace period are over, then the run writes \<open>expired\<close> to it, whatever the pods,
  the other reservations and the services do.
\<close>
theorem over_reservations_ended:
  assumes "see_running E [] = ((act, prep), found)" "r \<in> set act" "expires_at E r + k_grace c < e_now E []" "x_user r \<noteq> None"
  shows "ending_tried r ''expired'' (snd (expiry_handler E c False []))"
proof -
  let ?now = "e_now E []"
  obtain L where L: "keeps E c ?now L found" "\<And>r. r \<in> set act \<Longrightarrow> listed ''active'' r L"
    "\<And>r. r \<in> set prep \<Longrightarrow> listed ''preparing'' r L" using learn_running [OF xp.start [of E c ?now] assms(1)] by metis
  obtain as bs where act: "act = as @ r # bs" using assms(2) by (meson split_list)
  let ?st = "fold (active_step E c ?now) as (fold (preparing_step E ?now) prep (no_counts, found))"
  have "keeps E c ?now L (snd (end_and_warn E c ?now prep as found))"
    by (rule keeps_end_and_warn) (use L act in auto)
  then have k: "keeps E c ?now L (snd ?st)" by (simp add: end_and_warn_def)
  obtain t y where ty: "keeps E c ?now (insert (Did (SetRow (x_id r) (ended ''expired'' ''expired_at'' t @ [])) y) L)
      (snd (active_step E c ?now r ?st))" (is "keeps E c ?now ?K _")
    using active_step_ends [OF L(2) [OF assms(2)] k assms(3,4)] by blast
  obtain n lg2 where n: "end_and_warn E c ?now prep act found = (n, lg2)" by (rule prod.exhaust)
  have "keeps E c ?now ?K (snd (fold (active_step E c ?now) bs (active_step E c ?now r ?st)))"
  proof (rule xp.fold_state)
    fix x and st' :: xstate assume x: "x \<in> set bs" and k': "keeps E c ?now ?K (snd st')"
    have "listed ''active'' x ?K" by (rule listed_mono [OF L(2)]) (use x act in auto)
    from keeps_active [OF this k'] show "keeps E c ?now ?K (snd (active_step E c ?now x st'))" .
  qed (rule ty)
  then have "keeps E c ?now ?K lg2" using n by (simp add: end_and_warn_def act)
  from keeps_finish_run [OF this] have "keeps E c ?now ?K (snd (expiry_handler E c False []))"
    by (simp add: expiry_handler_def expiry_run_def assms(1) n)
  then have "?K \<subseteq> set (snd (expiry_handler E c False []))" by (simp only: traced_def)
  then show ?thesis unfolding ending_tried_def
    by (intro exI [of _ "''expired_at''"] exI [of _ t] exI [of _ "[]"] exI [of _ y]) simp
qed

theorem over_reservations_ended_witness:
  "ending_tried plain_row ''expired''
     (snd (expiry_handler (calm\<lparr>e_rows := \<lambda>_ s. Inr (if s = ''active'' then [plain_row] else [])\<rparr>) plain_cfg False []))"
  by (rule over_reservations_ended [where act = "[plain_row]" and prep = "[]" and
        found = "[SawRows ''preparing'' (Inr []), SawRows ''active'' (Inr [plain_row])]"])
    (simp_all add: see_running_def see_rows_def calm_def plain_row_def plain_cfg_def expires_at_def or_empty_def iso_time_def replace_z_def)

subsection \<open>The answer\<close>

definition spent :: "counts \<Rightarrow> nat" where "spent n = n_expired n + n_warned n"

lemma preparing_counts: "spent (fst (preparing_step E now r st)) \<le> Suc (spent (fst st)) \<and> n_oom (fst (preparing_step E now r st)) = n_oom (fst st)
    \<and> n_stale (fst (preparing_step E now r st)) = n_stale (fst st)"
  by (auto simp: preparing_step_def bump_expired_def spent_def split: sum.split)

lemma active_counts: "spent (fst (active_step E c now r st)) \<le> Suc (spent (fst st)) \<and> n_oom (fst (active_step E c now r st)) \<le> Suc (n_oom (fst st))
    \<and> n_stale (fst (active_step E c now r st)) = n_stale (fst st)"
proof -
  have w: "spent (fst (send_warning E c now r st)) \<le> Suc (spent (fst st)) \<and> n_oom (fst (send_warning E c now r st)) = n_oom (fst st)
      \<and> n_stale (fst (send_warning E c now r st)) = n_stale (fst st)" for st
    by (simp add: send_warning_def spent_def split: option.split)
  have o: "spent (fst (oom_check E now r st)) = spent (fst st) \<and> n_oom (fst (oom_check E now r st)) \<le> Suc (n_oom (fst st))
      \<and> n_stale (fst (oom_check E now r st)) = n_stale (fst st)" for st
    by (simp add: oom_check_def spent_def split: option.split prod.split)
  have p: "case pod_checks E c now r st of (b, st1) \<Rightarrow> fst st1 = (if b then bump_expired (fst st) else fst st)"
    by (simp add: pod_checks_def split: prod.split bool.split option.split sum.split)
  obtain b st1 where b: "pod_checks E c now r st = (b, st1)" by (rule prod.exhaust)
  have s1: "fst st1 = (if b then bump_expired (fst st) else fst st)" using p b by simp
  have e: "spent (bump_expired n) = Suc (spent n)" "n_oom (bump_expired n) = n_oom n" "n_stale (bump_expired n) = n_stale n" for n
    by (simp_all add: bump_expired_def spent_def)
  obtain q lg1 where q: "expire_reservation E c r (snd st) = (q, lg1)" by (rule prod.exhaust)
  show ?thesis
  proof (cases "expires_at E r + k_grace c < now")
    case True
    then show ?thesis by (simp add: active_step_def q e split: sum.split)
  next
    case False
    then show ?thesis using w [of st1] o [of "send_warning E c now r st1"] s1
      by (cases b) (simp_all add: active_step_def b e)
  qed
qed

lemma fold_count:
  assumes "\<And>x st. m (fst (f x st)) \<le> m (fst st) + (k :: nat)"
  shows "m (fst (fold f xs st)) \<le> m (fst st) + k * length xs"
proof (induction xs arbitrary: st)
  case (Cons x xs)
  have "m (fst (fold f xs (f x st))) \<le> m (fst (f x st)) + k * length xs" by (rule Cons.IH)
  also have "\<dots> \<le> m (fst st) + k + k * length xs" using assms [of x st] by simp
  finally show ?case by simp
qed simp

lemma end_and_warn_counts:
  "spent (fst (end_and_warn E c now prep act lg)) \<le> length act + length prep"
  "n_oom (fst (end_and_warn E c now prep act lg)) \<le> length act"
  "n_stale (fst (end_and_warn E c now prep act lg)) = 0"
proof -
  let ?st = "fold (preparing_step E now) prep (no_counts, lg)"
  have "spent (fst (fold (active_step E c now) act ?st)) \<le> spent (fst ?st) + 1 * length act"
    "spent (fst ?st) \<le> spent (fst (no_counts, lg)) + 1 * length prep"
    "n_oom (fst (fold (active_step E c now) act ?st)) \<le> n_oom (fst ?st) + 1 * length act"
    "n_oom (fst ?st) \<le> n_oom (fst (no_counts, lg)) + 0 * length prep"
    "n_stale (fst (fold (active_step E c now) act ?st)) \<le> n_stale (fst ?st) + 0 * length act"
    "n_stale (fst ?st) \<le> n_stale (fst (no_counts, lg)) + 0 * length prep"
    using active_counts preparing_counts by (intro fold_count; simp)+
  then show "spent (fst (end_and_warn E c now prep act lg)) \<le> length act + length prep"
    "n_oom (fst (end_and_warn E c now prep act lg)) \<le> length act"
    "n_stale (fst (end_and_warn E c now prep act lg)) = 0"
    by (simp_all add: end_and_warn_def no_counts_def spent_def)
qed

lemma stale_counts: "spent (fst (stale_step E now r st)) = spent (fst st) \<and> n_oom (fst (stale_step E now r st)) = n_oom (fst st)
    \<and> n_stale (fst (stale_step E now r st)) \<le> Suc (n_stale (fst st))"
  by (simp add: stale_step_def spent_def split: sum.split)

lemma see_both_cases:
  "see_both E s t lg = (Inl e, lg1) \<Longrightarrow> \<exists>u rest. lg1 = SawRows u (Inl e) # rest \<and> (u = s \<or> u = t)"
  by (auto simp: see_both_def see_rows_def split: sum.splits)

text \<open>how a run of the expiry lambda ends. It fails only when the query for queued or for pending reservations fails, and that query is
  then the last thing it did; otherwise it answers with the number of active reservations, and its counters are bounded by what the
  queries returned: reservations expired and reservations warned are together at most the active and the preparing ones, a
  reservation being counted once, and out-of-memory events and cancelled requests are at most one for each.
\<close>
theorem expiry_outcome:
  "case see_running E [] of ((act, prep), _) \<Rightarrow>
     (case expiry_handler E c False [] of
        (Inl e, lg) \<Rightarrow> (\<exists>s rest. lg = SawRows s (Inl e) # rest \<and> (s = ''queued'' \<or> s = ''pending''))
      | (Inr a, lg) \<Rightarrow>
          (\<exists>waiting n d t y. a = ExpiryRun (length act) waiting n d t y \<and>
             n_expired n + n_warned n \<le> length act + length prep \<and> n_oom n \<le> length act \<and> n_stale n \<le> waiting))"
proof -
  let ?now = "e_now E []"
  obtain act prep lg1 where s: "see_running E [] = ((act, prep), lg1)" by (metis prod.exhaust)
  obtain n lg2 where n: "end_and_warn E c ?now prep act lg1 = (n, lg2)" by (rule prod.exhaust)
  have b: "spent n \<le> length act + length prep" "n_oom n \<le> length act" "n_stale n = 0"
    using end_and_warn_counts [of E c ?now prep act lg1] n by simp_all
  have h: "expiry_handler E c False [] = finish_run E c ?now (length act) n lg2"
    by (simp add: expiry_handler_def expiry_run_def s n)
  obtain y lg3 where y: "see_both E ''queued'' ''pending'' lg2 = (y, lg3)" by (rule prod.exhaust)
  show ?thesis
  proof (cases y)
    case (Inl e)
    then show ?thesis using see_both_cases [of E "''queued''" "''pending''" lg2 e lg3] y by (simp add: s h finish_run_def)
  next
    case (Inr waiting)
    obtain n1 lg4 where st: "fold (stale_step E ?now) waiting (n, lg3) = (n1, lg4)" by (rule prod.exhaust)
    have "spent (fst (fold (stale_step E ?now) waiting (n, lg3))) \<le> spent (fst (n, lg3)) + 0 * length waiting"
      "n_oom (fst (fold (stale_step E ?now) waiting (n, lg3))) \<le> n_oom (fst (n, lg3)) + 0 * length waiting"
      "n_stale (fst (fold (stale_step E ?now) waiting (n, lg3))) \<le> n_stale (fst (n, lg3)) + 1 * length waiting"
      using stale_counts by (intro fold_count; simp)+
    then have "n_expired n1 + n_warned n1 \<le> length act + length prep" "n_oom n1 \<le> length act" "n_stale n1 \<le> length waiting"
      using b by (simp_all add: st spent_def)
    then show ?thesis by (simp add: s h finish_run_def y Inr st split: prod.split)
  qed
qed

subsection \<open>What the code does beside its intention\<close>

lemma unreachable_api_expires:
  \<comment> \<open>an error of the API counts as a missing pod\<close>
  assumes "e_pod E (snd st) gpu_ns (x_pod r) = Inl (ApiError 503)" "x_pod r \<noteq> []" "\<not> just_launched E now r"
  shows "pod_checks E c now r st =
    (True, bump_expired (fst st), expire_reservation_due_to_missing_pod E c r (SawPod gpu_ns (x_pod r) (Inl (ApiError 503)) # snd st))"
  using assms by (simp add: pod_checks_def check_pod_exists_def see_pod_def)

lemma numeric_expiry: "x_expires r = Some (DNum q) \<Longrightarrow> expires_at E r = 0"
  by (simp add: expires_at_def or_empty_def iso_time_def)

lemma null_time_ends_loop:
  "x_pod r \<noteq> [] \<Longrightarrow> x_failed r = Some DNull \<Longrightarrow> failed_loop E c now (r # rs) lg = lg"
  by (simp add: time_of_def caught_def)

lemma age_does_not_matter: "drop_old E keep limit cutoff i ss n lg = drop_old E keep limit cutoff' i ss n lg"
proof (induction ss arbitrary: i n lg)
  case (Cons s ss)
  show ?case by (simp add: Cons.IH [of "Suc i"] split: prod.split sum.split)
qed simp

definition snap_of :: "string \<Rightarrow> int \<Rightarrow> string \<Rightarrow> snapshot" where
  "snap_of sid t d =
     \<lparr>s_id = sid, s_volume = d, s_tags = Some [(''gpu-dev-user'', ''alice''), (''disk_name'', d)], s_size = Some 100, s_start = t\<rparr>"

definition two_disks :: "snapshot list" where
  "two_disks = [snap_of ''a1'' 20 ''first'', snap_of ''a2'' 30 ''first'', snap_of ''a3'' 40 ''first'', snap_of ''b1'' 10 ''second'']"

lemma only_snapshot_is_dropped:
  \<comment> \<open>three snapshots of one disk push out the only one of another\<close>
  "dropped (snd (cleanup_old_snapshots (calm\<lparr>e_snapshots := \<lambda>_ _. ([two_disks], None)\<rparr>) ''alice'' keep_count max_age_days
     max_deletions_per_run [])) = [''b1'']"
  by code_simp

fun pending_change :: "xlog \<Rightarrow> int" where
  \<comment> \<open>what the writes of the log add to the pending snapshots of the disk\<close>
  "pending_change [] = 0"
| "pending_change (e # lg) =
     (case e of
        Did (SetDisk u d up rm) (Inr y) \<Rightarrow>
          (case dget up ''pending_snapshot_count'' of Some (Plus a n k) \<Rightarrow> k | _ \<Rightarrow> 0)
      | _ \<Rightarrow> 0) + pending_change lg"

definition backing_up_disk :: "int \<Rightarrow> drow" where
  "backing_up_disk n =
     \<lparr>d_user = ''alice'', d_name = ''first'', d_attached = [], d_delete_date = [], d_marked = None, d_pending = n, d_backing_up = True,
      d_snapshots = 1\<rparr>"

definition backup_env :: xenv where
  \<comment> \<open>one old snapshot is complete, and a new one is pending\<close>
  "backup_env = calm\<lparr>e_snapshots := \<lambda>_ q. (if q = CompletedDisks then [[snap_of ''a1'' 20 ''first'']] else [], None),
     e_disk := \<lambda>lg _ _. Inr (Some (backing_up_disk (1 + pending_change lg)))\<rparr>"

lemma old_snapshot_completes_new_one:
  \<comment> \<open>the old snapshot is taken for the completion of the pending one\<close>
  "hd (snd (sync_completed_snapshots backup_env [])) = Did (SetDisk ''alice'' ''first'' not_backing_up []) (Inr ''ok'')"
  by code_simp

end
