(* ===== verification/Gpu_Handler_Trace.thy ===== *)
theory Gpu_Handler_Trace
  imports Gpu_Processor_Trace
begin

section \<open>The reservation processor keeps to its policy: actions\<close>

text \<open>Extensions, cancellations and the actions on disks.\<close>

lemma edit_ok_extension:
  assumes "found prefix user r K" "attr r ''status'' \<in> {DStr ''active'', DStr ''preparing''}"
    "new_expiry E r hours = Inr (Inr d)" "new_duration E r hours = Some dur"
  shows "edit_ok E (text_at r ''reservation_id'') ((''expires_at'', DStr (p_iso E d)) # (''last_updated'', v) # dur) K"
proof -
  have "dget dur ''status'' = None"
    using assms(4) by (auto simp: new_duration_def dict_simps split: option.splits)
  moreover have "\<exists>prefix user q h e. found prefix user q K \<and> text_at q ''reservation_id'' = text_at r ''reservation_id'' \<and>
      attr q ''status'' \<in> {DStr ''active'', DStr ''preparing''} \<and> new_expiry E q h = Inr (Inr e) \<and>
      DStr (p_iso E d) = DStr (p_iso E e)"
    using assms(1-3) by blast
  ultimately show ?thesis unfolding edit_ok_def by (simp only: dict_simps) (simp add: dict_simps)
qed

subsection \<open>Extending\<close>

lemma inner_clear_warnings [simp]: "inner w E K {} (snd (clear_warning_files_from_pod X p ns []))"
  by (auto simp: clear_warning_files_from_pod_def see_client_def Let_def split: sum.split)

lemma tr_after_extension [simp]: "tr w E K lg \<Longrightarrow> tr w E K (after_extension E r h d lg)"
  by (simp add: after_extension_def Let_def tr_services)

lemma tr_extend_to:
  assumes "tr w E K lg" "found prefix user r K" "attr r ''status'' \<in> {DStr ''active'', DStr ''preparing''}"
    "new_expiry E r h = Inr (Inr d)"
  shows "tr w E K (snd (extend_to E r h d lg))"
proof (cases "new_duration E r h")
  case None
  then show ?thesis using assms(1) by (simp add: extend_to_def Let_def)
next
  case (Some dur)
  obtain y lg1 where y: "call E (EditRow (text_at r ''reservation_id'')
      ([(''expires_at'', DStr (p_iso E d)), (''last_updated'', DNum (of_int (p_now E lg)))] @ dur)
      [''extension_error'', ''warnings_sent'', ''last_warning_time'']) lg = (y, lg1)" by (rule prod.exhaust)
  have "tr w E K lg1"
    by (rule tr_call_eq [OF assms(1) y]) (use edit_ok_extension [OF assms(2-4) Some] in simp)
  then show ?thesis unfolding extend_to_def Let_def Some option.case y prod.case by (cases y) simp_all
qed

lemma tr_extend_found:
  assumes "tr w E K lg" "found prefix user r K"
  shows "tr w E K (snd (extend_found E r h lg))"
proof (cases "attr r ''status'' \<in> {DStr ''active'', DStr ''preparing''}")
  case False
  then show ?thesis using assms(1) by (simp add: extend_found_def Let_def)
next
  case True
  show ?thesis
  proof (cases "new_expiry E r h")
    case (Inl e)
    then show ?thesis using True assms(1) by (auto simp: extend_found_def Let_def)
  next
    case (Inr x)
    show ?thesis
    proof (cases x)
      case (Inl refusal)
      then show ?thesis using True assms(1) Inr by (auto simp: extend_found_def Let_def)
    next
      case d: (Inr d)
      have "tr w E K (snd (extend_to E r h d lg))" by (rule tr_extend_to [OF assms True]) (simp add: Inr d)
      then show ?thesis using True Inr d by (simp add: extend_found_def Let_def)
    qed
  qed
qed

lemma tr_extend:
  assumes "tr w E K lg" shows "tr w E K (snd (process_extend_reservation_action E body lg))"
proof (cases body)
  case (Some m)
  obtain y lg1 where y: "find_reservation_by_prefix E (text_at m ''reservation_id'') (text_at m ''user_id'') lg = (y, lg1)"
    by (rule prod.exhaust)
  obtain L where L: "K \<subseteq> L" "tr w E L lg1" "\<forall>r. y = Inr r \<longrightarrow> found (text_at m ''reservation_id'') (text_at m ''user_id'') r L"
    by (rule tr_find [OF assms y])
  have "tr w E L (snd (extend_found E r h lg1))" if "y = Inr r" for r h
    by (rule tr_extend_found [OF L(2)]) (use that L(3) in blast)
  then have "tr w E K (snd (extend_found E r h lg1))" if "y = Inr r" for r h
    using that tr_less L(1) by blast
  moreover have "tr w E K lg1" by (rule tr_less [OF L(2,1)])
  ultimately show ?thesis unfolding process_extend_reservation_action_def Some option.case Let_def y prod.case
    using assms by (cases y) simp_all
qed (use assms in \<open>simp add: process_extend_reservation_action_def\<close>)

subsection \<open>Cancelling\<close>

lemma inner_capture: "inner w E K L lg \<Longrightarrow> inner w E K L (snd (capture_disk_contents X b p ns u d sid m lg))"
  by (auto simp: capture_disk_contents_def do_call_def Let_def inner_do split: sum.split prod.split)

lemma inner_safe_create:
  assumes "inner w E K L lg" shows "inner w E K L (snd (safe_create_snapshot X v u kd d path usage lg))"
proof -
  let ?e = "SawSnapshots (PendingFor v) (all_pages (e_snapshots X lg (PendingFor v)))"
  have "inner w E K (insert ?e L) (?e # lg)" by (rule sp.learn [OF assms]) simp
  then have made: "inner w E K L (Did (MakeSnapshot v t ts) y # ?e # lg)"
    if "all_pages (e_snapshots X lg (PendingFor v)) = Inr []" for t ts y
    by (rule sp.weaken [OF inner_do]) (use that in \<open>auto simp: make_snapshot_ok_def\<close>)
  show ?thesis using assms made
    by (auto simp: safe_create_snapshot_def see_snapshots_def do_call_def Let_def split: sum.split list.split prod.split)
qed

lemma inner_cancellation [simp]: "inner w E K {} (snd (cancellation_snapshot c p ns u d v X []))"
proof -
  have "inner w E K {} (snd (capture_disk_contents X b p ns u d sid m (SawClient q # [])))" for b sid m q
    by (rule inner_capture) simp
  then show ?thesis
    by (auto simp: cancellation_snapshot_def see_client_def Let_def split: sum.split prod.split
        intro!: inner_safe_create) (metis snd_conv)+
qed

lemma inner_delete_pod: "inner w E K L lg \<Longrightarrow> drop_pod_ok p (K \<union> Svc ` L) \<Longrightarrow> inner w E K L (snd (delete_pod X ns p lg))"
  by (auto simp: delete_pod_def do_call_def Let_def inner_do split: sum.split exc.split)

lemma inner_cleanup_pod:
  "drop_pod_ok p K \<Longrightarrow> inner w E K {} (snd (cleanup_pod_resources X p ns []))"
  by (auto simp: cleanup_pod_resources_def see_client_def do_call_def Let_def inner_do inner_delete_pod
      split: sum.split exc.split)

lemma tr_force_detach:
  assumes "tr w E K lg" "cancelled_row user r K" "attr r ''status'' = DStr ''active''"
  shows "tr w E K (force_detach X (text_at r ''ebs_volume_id'') lg)"
proof -
  let ?v = "text_at r ''ebs_volume_id''"
  let ?e = "SawVolumeState ?v (p_volume_state X lg ?v)"
  have t: "tr w E (insert ?e K) (?e # lg)" by (rule tr_learn [OF assms(1)]) simp
  have "tr w E (insert ?e K) (try_pcall X (DetachVolume ?v) (?e # lg))" if "p_volume_state X lg ?v = Inr ''in-use''"
    by (rule tr_try [OF t])
      (use that assms(2,3) cancelled_row_mono [of K "insert ?e K" user r] in \<open>auto simp: detach_ok_def\<close>)
  then show ?thesis using assms(1) by (auto simp: force_detach_def Let_def dest: tr_forget)
qed

lemma tr_mark [simp]: "tr w E K lg \<Longrightarrow> (\<not> b \<Longrightarrow> free_ok u d K) \<Longrightarrow> tr w E K (snd (mark_disk_in_use X u d b rid lg))"
  by (auto simp: mark_disk_in_use_def Let_def frees_def dict_simps intro!: tr_call)

lemma tr_mark_eq:
  "tr w E K lg \<Longrightarrow> mark_disk_in_use X u d b rid lg = (y, lg1) \<Longrightarrow> (\<not> b \<Longrightarrow> free_ok u d K) \<Longrightarrow> tr w E K lg1"
  using tr_mark [of w E K lg b u d X rid] by simp

lemma tr_release [simp]: "tr w E K lg \<Longrightarrow> free_ok u d K \<Longrightarrow> tr w E K (release_lock X u d lg)"
  by (simp add: release_lock_def)

lemma text_attr: "text_at r a = s \<Longrightarrow> s \<noteq> [] \<Longrightarrow> attr r a = DStr s"
  by (auto simp: text_at_def split: ddb.splits)

lemma tr_cancel_active:
  assumes t: "tr w E K lg" and c: "cancelled_row user r K" and a: "attr r ''status'' = DStr ''active''"
  shows "tr w E K (cancel_active X c r lg)"
proof -
  let ?p = "text_at r ''pod_name''" and ?ns = "text_or r ''namespace'' gpu_ns" and ?v = "text_at r ''ebs_volume_id''"
  define lg1 where "lg1 = (if ?v = [] then lg
    else snd (services X (cancellation_snapshot (pc_expiry c) ?p ?ns (text_at r ''user_id'') (text_at r ''disk_name'') ?v) lg))"
  have t1: "tr w E K lg1" using t by (simp add: lg1_def tr_services)
  obtain y lg2 where y: "services X (\<lambda>X. cleanup_pod_resources X ?p ?ns) lg1 = (y, lg2)" by (rule prod.exhaust)
  have "drop_pod_ok ?p K" using c a by (auto simp: drop_pod_ok_def)
  then have t2: "tr w E K lg2" by (intro tr_services_eq [OF t1 y] inner_cleanup_pod)
  then have t3: "tr w E K (force_detach X ?v lg2)" by (rule tr_force_detach [OF _ c a])
  have f: "free_ok (text_at r ''user_id'') (text_at r ''disk_name'') K" using c by (auto simp: free_ok_def)
  show ?thesis
    unfolding cancel_active_def Let_def lg1_def [symmetric] y prod.case using t t2 t3 f by (cases y) simp_all
qed

lemma tr_cancel_found:
  assumes t: "tr w E K lg" and f: "found prefix user r K" and u: "user \<noteq> []" and s: "attr r ''status'' \<in> set (map DStr cancellable)"
  shows "tr w E K (cancel_found X c user r lg)"
proof -
  let ?rid = "text_at r ''reservation_id''"
  let ?ch = "[(''status'', DStr ''cancelled''), (''cancelled_at'', DStr (now_iso X lg)), (''reservation_ended'', DStr (now_iso X lg))]"
  define lg1 where "lg1 = update_fields X ?rid ?ch lg"
  have ok: "edit_ok E ?rid ((''last_updated'', v) # ?ch) K" for v using f u s by (auto simp: edit_ok_def dict_simps)
  obtain L where L: "K \<subseteq> L" "tr w E L lg1" "cancelled_row user r L"
  proof (cases "?rid = []")
    case True
    then have "cancelled_row user r K" using f u s by (auto simp: cancelled_row_def)
    then show thesis using that [of K] t True by (simp add: lg1_def update_fields_def)
  next
    case False
    let ?c = "EditRow ?rid ((''last_updated'', DNum (of_int (p_now X lg))) # ?ch) []"
    obtain y l where y: "call X ?c lg = (y, l)" by (rule prod.exhaust)
    have t1: "tr w E (insert (Called ?c y) K) l" by (rule tr_call_known [OF t _ y]) (use ok in simp)
    have l: "lg1 = l" using False y by (simp add: lg1_def update_fields_def try_pcall_def)
    have "cancelled_row user r (insert (Called ?c y) K)"
      unfolding cancelled_row_def using found_mono [of K "insert (Called ?c y) K" prefix user r] f u s
      by (auto simp: dict_simps)
    then show thesis using that [of "insert (Called ?c y) K"] t1 l by auto
  qed
  have fr: "free_ok user (text_at r ''disk_name'') L" using L(3) by (auto simp: free_ok_def)
  define lg2 where "lg2 = (if text_at r ''status'' = ''active'' then cancel_active X c r lg1 else lg1)"
  have t2: "tr w E L lg2"
    using tr_cancel_active [OF L(2,3)] L(2) text_attr [of r "''status''" "''active''"] by (simp add: lg2_def)
  have "tr w E L (cancel_found X c user r lg)"
    unfolding cancel_found_def Let_def lg1_def [symmetric] lg2_def [symmetric] using t2 fr by simp
  then show ?thesis using L(1) by (rule tr_less)
qed

lemma tr_cancellation:
  assumes "tr w E K lg" shows "tr w E K (snd (process_cancellation_request X c body lg))"
proof (cases body)
  case (Some m)
  let ?u = "text_at m ''user_id''"
  obtain y lg1 where y: "find_reservation_by_prefix X (text_at m ''reservation_id'') ?u lg = (y, lg1)"
    by (rule prod.exhaust)
  obtain L where L: "K \<subseteq> L" "tr w E L lg1" "\<forall>r. y = Inr r \<longrightarrow> found (text_at m ''reservation_id'') ?u r L"
    by (rule tr_find [OF assms y])
  have "tr w E L (cancel_found X c ?u r lg1)"
    if "y = Inr r" "?u \<noteq> []" "attr r ''status'' \<in> set (map DStr cancellable)" for r
    by (rule tr_cancel_found [OF L(2) _ that(2,3)]) (use that(1) L(3) in blast)
  then have "tr w E K (cancel_found X c ?u r lg1)"
    if "y = Inr r" "?u \<noteq> []" "attr r ''status'' \<in> set (map DStr cancellable)" for r
    using that tr_less L(1) by blast
  moreover have "tr w E K lg1" by (rule tr_less [OF L(2,1)])
  ultimately show ?thesis unfolding process_cancellation_request_def Some option.case Let_def y prod.case
    using assms by (cases y) (auto simp del: set_map)
qed (use assms in \<open>simp add: process_cancellation_request_def\<close>)

section \<open>The reservation processor keeps to its policy: disks, pods and messages\<close>

text \<open>The other actions, the warm pool, the claim of a warm pod, and from these the handler.\<close>

subsection \<open>Disks\<close>

lemma tr_after: "p = (a, b) \<Longrightarrow> tr w E K (snd p) \<Longrightarrow> tr w E K b"
  by simp

lemma tr_detach_all: "tr w E K lg \<Longrightarrow> \<forall>v \<in> set vs. detach_ok v K \<Longrightarrow> tr w E K (detach_all X vs lg)"
  by (induction vs arbitrary: lg) (auto dest: tr_call_eq split: prod.split sum.split)

lemma tr_clear_lock:
  assumes "tr w E K lg" shows "tr w E K (snd (process_clear_disk_lock_action X body lg))"
proof (cases "\<exists>m. body = Some m \<and> text_at m ''user_id'' \<noteq> [] \<and> text_at m ''disk_name'' \<noteq> [] \<and>
    p_locks X lg (text_at m ''user_id'') (text_at m ''disk_name'') = Inr []")
  case False
  then show ?thesis using assms
    by (auto simp: process_clear_disk_lock_action_def Let_def split: option.split sum.split list.split)
next
  case True
  then obtain m where m: "body = Some m" "text_at m ''user_id'' \<noteq> []" "text_at m ''disk_name'' \<noteq> []"
    "p_locks X lg (text_at m ''user_id'') (text_at m ''disk_name'') = Inr []" by blast
  let ?u = "text_at m ''user_id''" and ?d = "text_at m ''disk_name''"
  let ?e = "SawLocks ?u ?d (Inr [])"
  have t: "tr w E (insert ?e K) (?e # lg)" by (rule tr_learn [OF assms]) simp
  obtain y lg1 where y: "mark_disk_in_use X ?u ?d False [] (?e # lg) = (y, lg1)" by (rule prod.exhaust)
  have t1: "tr w E (insert ?e K) lg1" by (rule tr_mark_eq [OF t y]) (simp add: free_ok_def)
  let ?q = "p_volumes X lg1 ?u ?d True"
  have t2: "tr w E (insert (SawVolumes ?u ?d True ?q) (insert ?e K)) (SawVolumes ?u ?d True ?q # lg1)"
    by (rule tr_learn [OF t1]) simp
  have "tr w E (insert (SawVolumes ?u ?d True ?q) (insert ?e K)) (detach_all X vs (SawVolumes ?u ?d True ?q # lg1))"
    if "?q = Inr vs" for vs
    by (rule tr_detach_all [OF t2]) (unfold detach_ok_def that, blast)
  then have "tr w E K (detach_all X vs (SawVolumes ?u ?d True ?q # lg1))" if "?q = Inr vs" for vs
    using that tr_forget by blast
  moreover have "tr w E K lg1" by (rule tr_forget [OF t1])
  ultimately show ?thesis using m
    by (auto simp: process_clear_disk_lock_action_def Let_def y see_volumes_def split: sum.split)
qed

lemma inner_tag_snapshots [simp]: "inner w E K {} (snd (tag_snapshots u d date at' X []))"
proof -
  have "inner w E K {} (fold (tag_snapshot X date at') ss lg)" if "inner w E K {} lg" for ss lg
    by (rule sp.fold_log [OF _ that]) (simp add: tag_snapshot_def)
  then show ?thesis by (auto simp: tag_snapshots_def see_snapshots_def Let_def split: sum.split)
qed

lemma tr_delete_disk: "tr w E K lg \<Longrightarrow> tr w E K (snd (process_delete_disk_action X body lg))"
  by (auto simp: process_delete_disk_action_def Let_def frees_def dict_simps intro!: tr_services
      dest: tr_call_eq split: option.split prod.split sum.split)

lemma tr_put_disk [simp]: "tr w E K lg \<Longrightarrow> tr w E K (snd (put_disk X op d lg))"
  by (auto simp: put_disk_def dest: tr_call_eq split: prod.split sum.split perr.split)

lemma tr_create_disk: "tr w E K lg \<Longrightarrow> tr w E K (snd (process_create_disk_action X body lg))"
  by (auto simp: process_create_disk_action_def Let_def intro: tr_put_disk [THEN tr_eq] intro!: tr_operation
      split: option.split prod.split sum.split)

lemma snapshot_of_listed: "SawVolumes u d False (Inr vs) \<in> K \<Longrightarrow> v \<in> set vs \<Longrightarrow> make_snapshot_ok v K"
  unfolding make_snapshot_ok_def by blast

lemma inner_live_snapshot:
  "make_snapshot_ok v K \<Longrightarrow> inner w E K {} (snd (live_snapshot u d v X []))"
  by (auto simp: live_snapshot_def do_call_def see_snapshots_def Let_def inner_do split: sum.split list.split)

lemma inner_see_snapshots [simp]: "inner w E K {} (snd (see_snapshots X q []))"
  by (simp add: see_snapshots_def Let_def)

lemma tr_clone_source:
  assumes "tr w E K lg" shows "tr w E K (snd (clone_source X u d lg))"
proof -
  obtain y lg1 where y: "services X (\<lambda>X. see_snapshots X (CompletedOfDisk u d)) lg = (y, lg1)" by (rule prod.exhaust)
  have t1: "tr w E K lg1" by (rule tr_services_eq [OF assms y]) simp
  let ?q = "p_volumes X lg1 u d False"
  let ?e = "SawVolumes u d False ?q"
  have t2: "tr w E (insert ?e K) (?e # lg1)" by (rule tr_learn [OF t1]) simp
  have "tr w E (insert ?e K) (snd (services X (live_snapshot u d v) (?e # lg1)))" if "?q = Inr (v # vs)" for v vs
    by (intro tr_services t2 inner_live_snapshot snapshot_of_listed [of u d "v # vs"]) (simp_all add: that)
  then have "tr w E K (snd (services X (live_snapshot u d v) (?e # lg1)))" if "?q = Inr (v # vs)" for v vs
    using that tr_forget by blast
  then show ?thesis using t1 unfolding clone_source_def y prod.case
    by (auto simp: see_volumes_def intro: tr_eq split: sum.split list.split prod.split)
qed

lemma tr_clone_body: "tr w E K lg \<Longrightarrow> tr w E K (snd (clone_body X u s t op lg))"
  by (auto simp: clone_body_def Let_def intro: tr_clone_source [THEN tr_eq] intro!: tr_put_disk tr_operation tr_see
      split: sum.split prod.split option.split)

lemma tr_clone: "tr w E K lg \<Longrightarrow> tr w E K (snd (process_clone_disk_action X body lg))"
  by (auto simp: process_clone_disk_action_def Let_def intro: tr_clone_body [THEN tr_eq] intro!: tr_operation
      split: sum.split prod.split option.split)

subsection \<open>Pods of a reservation\<close>

lemma tr_run [simp]: "tr w E K lg \<Longrightarrow> tr w E K (snd (run_script X ns p s lg))"
  by (simp add: run_script_def)

lemma tr_node_port [simp]: "tr w E K lg \<Longrightarrow> tr w E K (snd (find_available_node_port X lg))"
  by (auto simp: find_available_node_port_def Let_def split: sum.split)

lemma tr_keys [simp]: "tr w E K lg \<Longrightarrow> tr w E K (snd (get_github_public_key X u v lg))"
  by (auto simp: get_github_public_key_def fetch_keys_def Let_def split: sum.split option.split)

lemma tr_token [simp]: "tr w E K lg \<Longrightarrow> tr w E K (snd (get_jupyter_token_from_pod X p lg))"
  by (auto simp: get_jupyter_token_from_pod_def run_script_def split: sum.split)

lemma tr_jupyter_status [simp]: "tr w E K lg \<Longrightarrow> tr w E K (update_jupyter_status X rid b lg)"
  by (simp add: update_jupyter_status_def edit_ok_other dict_simps)

lemma tr_make_jupyter: "tr w E K lg \<Longrightarrow> tr w E K (snd (make_jupyter_service X p lg))"
  by (auto simp: make_jupyter_service_def intro: tr_node_port [THEN tr_eq] dest!: tr_call_eq [rotated]
      split: prod.split sum.split)

lemma tr_make_jupyter_eq: "tr w E K lg \<Longrightarrow> make_jupyter_service X p lg = (y, lg1) \<Longrightarrow> tr w E K lg1"
  using tr_make_jupyter [of w E K lg X p] by simp

lemma tr_jupyter_port [simp]: "tr w E K lg \<Longrightarrow> tr w E K (snd (jupyter_port_of X p lg))"
  by (auto simp: jupyter_port_of_def Let_def tr_make_jupyter split: sum.split)

lemma tr_expose: "tr w E K lg \<Longrightarrow> tr w E K (snd (expose_jupyter X c p rid lg))"
proof -
  assume t: "tr w E K lg"
  obtain y lg1 where y: "jupyter_port_of X p lg = (y, lg1)" by (rule prod.exhaust)
  obtain token lg2 where z: "get_jupyter_token_from_pod X p lg1 = (token, lg2)" by (rule prod.exhaust)
  obtain g lg3 where g: "get_item X False rid lg2 = (g, lg3)" by (rule prod.exhaust)
  have t1: "tr w E K lg1" using tr_jupyter_port [OF t, of X p] y by simp
  then have t2: "tr w E K lg2" using tr_token [of w E K lg1 X p] z by simp
  then have t3: "tr w E K lg3" using tr_get [of w E K lg2 X False rid] g by simp
  show ?thesis using t1 t3
    by (auto simp: expose_jupyter_def y z g edit_ok_other dict_simps split: sum.split)
qed

lemma tr_enable: "tr w E K lg \<Longrightarrow> tr w E K (snd (enable_jupyter_in_pod X c p ns rid lg))"
  by (auto simp: enable_jupyter_in_pod_def run_script_def intro: tr_after [OF _ tr_expose] intro!: tr_jupyter_status
      split: sum.split prod.split)

lemma inner_drop_service [simp]: "inner w E K {} (snd (do_call X (DropService ns p) []))"
  by (simp add: do_call_def inner_do)

lemma tr_disable: "tr w E K lg \<Longrightarrow> tr w E K (snd (disable_jupyter_in_pod X p ns rid lg))"
proof -
  assume t: "tr w E K lg"
  define q where "q = p_run X lg ns p StopJupyter"
  let ?e = "Ran ns p StopJupyter q"
  obtain y lg1 where y: "services X (\<lambda>X. do_call X (DropService ns (p @ ''-jupyter''))) (?e # lg) = (y, lg1)" by (rule prod.exhaust)
  have t1: "tr w E K lg1" by (rule tr_services_eq [OF _ y]) (use t in simp_all)
  let ?c = "EditRow rid [(''jupyter_enabled'', DBool False), (''last_updated'', DNum (of_int (p_now X lg1)))]
    [''jupyter_url'', ''jupyter_token'', ''jupyter_port'']"
  obtain z lg2 where z: "call X ?c lg1 = (z, lg2)" by (rule prod.exhaust)
  have t2: "tr w E K lg2" by (rule tr_call_eq [OF t1 z]) (simp add: edit_ok_other dict_simps)
  show ?thesis unfolding disable_jupyter_in_pod_def run_script_def q_def [symmetric] y z prod.case using t t1 t2
    by (cases q; cases z) simp_all
qed

lemma tr_for_active:
  assumes "tr w E K lg" "\<And>p ns rid l. tr w E K l \<Longrightarrow> tr w E K (snd (f p ns rid l))"
  shows "tr w E K (snd (for_active X m f lg))"
proof -
  obtain y lg1 where y: "find_reservation_by_prefix X (text_at m ''reservation_id'') (text_at m ''user_id'') lg = (y, lg1)"
    by (rule prod.exhaust)
  obtain L where L: "K \<subseteq> L" "tr w E L lg1" by (rule tr_find [OF assms(1) y])
  obtain z lg2 where z: "make_client X lg1 = (z, lg2)" by (rule prod.exhaust)
  have t1: "tr w E K lg1" using L tr_less by blast
  have t2: "tr w E K lg2" using tr_client_eq [OF t1 z] .
  show ?thesis unfolding for_active_def Let_def y prod.case z using t1 t2 assms(2) [OF t2]
    by (cases y; cases z) (simp_all only: sum.case snd_conv simp_thms split: if_split)
qed

lemma tr_jupyter: "tr w E K lg \<Longrightarrow> tr w E K (snd (process_jupyter_action X c body lg))"
  by (auto simp: process_jupyter_action_def Let_def tr_enable tr_disable intro!: tr_for_active split: option.split)

lemma tr_secondary [simp]: "tr w E K lg \<Longrightarrow> tr w E K (add_secondary_user X rid u lg)"
proof -
  assume t: "tr w E K lg"
  obtain g lg1 where g: "get_item X False rid lg = (g, lg1)" by (rule prod.exhaust)
  have "tr w E K lg1" using tr_get [OF t, of X False rid] g by simp
  then show ?thesis by (auto simp: add_secondary_user_def g edit_ok_other dict_simps split: sum.split ddb.split)
qed

lemma tr_add_to_pod: "tr w E K lg \<Longrightarrow> tr w E K (snd (add_user_to_pod X p ns rid u lg))"
  by (auto simp: add_user_to_pod_def run_script_def intro: tr_keys [THEN tr_eq] intro!: tr_secondary tr_see
      split: sum.split prod.split)

lemma tr_add_user: "tr w E K lg \<Longrightarrow> tr w E K (snd (process_add_user_action X body lg))"
  by (auto simp: process_add_user_action_def Let_def edit_ok_other dict_simps intro!: tr_for_active tr_update_fields
      intro: tr_add_to_pod [THEN tr_eq] split: option.split prod.split)

subsection \<open>The warm pool\<close>

lemma tr_see_warm:
  "tr w E K lg \<Longrightarrow> see_warm X t s lg = (y, lg1) \<Longrightarrow> tr w E (insert (SawWarm t s y) K) lg1"
  by (auto simp: see_warm_def tr_learn)

lemma inner_recycle: "drop_pod_ok (w_name p) K \<Longrightarrow> inner w E K {} (snd (recycle_warm_pod p X []))"
  by (auto simp: recycle_warm_pod_def do_call_def Let_def inner_do split: sum.split)

lemma tr_recycle: "tr w E K lg \<Longrightarrow> drop_pod_ok (w_name p) K \<Longrightarrow> tr w E K (snd (recycle X p lg))"
  by (simp add: recycle_def tr_services inner_recycle)

lemma tr_recycle_eq: "tr w E K lg \<Longrightarrow> recycle X p lg = (b, lg1) \<Longrightarrow> drop_pod_ok (w_name p) K \<Longrightarrow> tr w E K lg1"
  using tr_recycle [of w E K lg p X] by simp

lemma tr_recycle_counted:
  "tr w E K (snd st) \<Longrightarrow> drop_pod_ok (w_name p) K \<Longrightarrow> tr w E K (snd (recycle_counted X p st))"
  by (auto simp: recycle_counted_def dest: tr_recycle_eq split: prod.split)

lemma tr_recycle_all:
  "tr w E K (snd st) \<Longrightarrow> \<forall>p \<in> set ps. drop_pod_ok (w_name p) K \<Longrightarrow> tr w E K (snd (fold (recycle_counted X) ps st))"
  by (rule pp.fold_state) (auto intro: tr_recycle_counted)

lemma listed_drop:
  "SawWarm t s (Inr ps) \<in> K \<Longrightarrow> p \<in> set ps \<Longrightarrow> warm_state p \<noteq> ''claimed'' \<Longrightarrow> drop_pod_ok (w_name p) K"
  unfolding drop_pod_ok_def warm_listed_def by blast

lemma tr_standby:
  assumes "tr w E K (snd (snd st))" "\<forall>p \<in> set (fst st). drop_pod_ok (w_name p) K"
    "\<forall>p \<in> set ps. warm_state p \<noteq> ''claimed'' \<longrightarrow> drop_pod_ok (w_name p) K"
  shows "tr w E K (snd (snd (fold (standby_step X c) ps st))) \<and>
    (\<forall>p \<in> set (fst (fold (standby_step X c) ps st)). drop_pod_ok (w_name p) K)"
  using assms
proof (induction ps arbitrary: st)
  case (Cons p ps)
  obtain live s lg where st: "st = (live, s, lg)" by (metis prod.exhaust)
  have t: "tr w E K (snd (recycle_counted X p (s, lg)))" if "warm_state p \<noteq> ''claimed''"
    by (rule tr_recycle_counted) (use Cons.prems that st in simp_all)
  have "tr w E K (snd (snd (standby_step X c p st))) \<and> (\<forall>q \<in> set (fst (standby_step X c p st)). drop_pod_ok (w_name q) K)"
    using Cons.prems(1,2) Cons.prems(3) t by (auto simp: standby_step_def st)
  then show ?case using Cons.IH [of "standby_step X c p st"] Cons.prems(3) by simp
qed simp

lemma tr_rotate:
  assumes "tr w E K lg" "\<forall>p \<in> set live. drop_pod_ok (w_name p) K"
  shows "tr w E K (snd (snd (rotate X digest live ps lg)))"
proof -
  have "tr w E K (snd (recycle X p lg))" if "List.find (stale_image d) live = Some p" for d p
    by (rule tr_recycle [OF assms(1)]) (use that assms(2) in \<open>auto simp: find_Some_iff\<close>)
  then show ?thesis using assms(1)
    by (auto simp: rotate_def intro: tr_eq split: option.split prod.split)
qed

lemma tr_provision [simp]: "tr w E K lg \<Longrightarrow> tr w E K (provision_warm_pod X c p lg)"
proof -
  assume t: "tr w E K lg"
  have s: "tr w E K (snd (call X (StoreMapping a b i d e) lg1))" if "tr w E K lg1" for a b i d e lg1
    by (rule tr_call [OF that]) simp
  show ?thesis using t
    by (auto simp: provision_warm_pod_def Let_def call_def pp.call split: sum.split prod.split)
qed

lemma tr_create_warm: "tr w E K lg \<Longrightarrow> tr w E K (snd (create_warm_pod X t lg))"
  by (auto simp: create_warm_pod_def make_client_def Let_def call_def pp.call
      intro!: tr_try intro: tr_after [OF _ tr_node_port] split: sum.split prod.split)

lemma tr_create_warms: "tr w E K lg \<Longrightarrow> tr w E K (snd (create_warm_pods X t n ps lg))"
proof (induction n arbitrary: ps lg)
  case (Suc n)
  obtain y lg1 where y: "create_warm_pod X t lg = (y, lg1)" by (rule prod.exhaust)
  have "tr w E K lg1" using tr_create_warm [OF Suc.prems, of X t] y by simp
  then show ?case using y Suc.IH by (cases y) simp_all
qed simp

lemma tr_reconcile_type:
  assumes "tr w E K (snd st)" shows "tr w E K (snd (reconcile_type X c digest tt st))"
proof -
  obtain y lg1 where y: "see_warm X (Some (fst tt)) None (snd st) = (y, lg1)" by (rule prod.exhaust)
  let ?e = "SawWarm (Some (fst tt)) None y"
  let ?L = "insert ?e K"
  have t1: "tr w E ?L lg1" by (rule tr_see_warm [OF assms y])
  show ?thesis
  proof (cases y)
    case (Inl e)
    then show ?thesis using tr_forget [OF t1] by (simp add: reconcile_type_def y)
  next
    case (Inr ps)
    have ok: "drop_pod_ok (w_name p) ?L" if "p \<in> set ps" "warm_state p \<noteq> ''claimed''" for p
      by (rule listed_drop [of "Some (fst tt)" None ps]) (simp_all add: Inr that)
    obtain live s2 lg2 where f: "fold (standby_step X c) ps ([], fst st, lg1) = (live, s2, lg2)" by (metis prod.exhaust)
    have t2: "tr w E ?L lg2" and l: "\<forall>p \<in> set live. drop_pod_ok (w_name p) ?L"
      using tr_standby [of w E ?L "([], fst st, lg1)" ps X c] t1 ok unfolding f by simp_all
    obtain s3 lg3 where d: "fold (recycle_counted X) (drop (snd tt) live) (s2, lg2) = (s3, lg3)" by (rule prod.exhaust)
    have t3: "tr w E ?L lg3"
      using tr_recycle_all [of w E ?L "(s2, lg2)" "drop (snd tt) live" X] t2 l unfolding d by (auto dest: in_set_dropD)
    obtain live4 s4 lg4 where r: "rotate X digest (take (snd tt) live) s3 lg3 = (live4, s4, lg4)" by (metis prod.exhaust)
    have t4: "tr w E ?L lg4"
      using tr_rotate [OF t3, of "take (snd tt) live" X digest s3] l unfolding r by (auto dest: in_set_takeD)
    have "tr w E ?L (fold (provision_warm_pod X c) qs lg4)" for qs
      by (rule pp.fold_log [OF _ t4]) simp
    then have "tr w E ?L (snd (reconcile_type X c digest tt st))"
      unfolding reconcile_type_def y prod.case Inr sum.case f d r by (rule tr_create_warms)
    then show ?thesis by (rule tr_forget)
  qed
qed

lemma tr_recycle_retired:
  assumes "tr w E K (snd st)" shows "tr w E K (snd (recycle_retired X c st))"
proof -
  obtain y lg1 where y: "see_warm X None None (snd st) = (y, lg1)" by (rule prod.exhaust)
  let ?L = "insert (SawWarm None None y) K"
  have t1: "tr w E ?L lg1" by (rule tr_see_warm [OF assms y])
  have "tr w E ?L (snd (fold (recycle_counted X) (filter (retired c) ps) (fst st, lg1)))" if "y = Inr ps" for ps
    by (rule tr_recycle_all) (use t1 that in \<open>auto simp: retired_def intro: listed_drop [of None None ps]\<close>)
  then have "tr w E ?L (snd (recycle_retired X c st))"
    using t1 by (cases y) (simp_all add: recycle_retired_def y)
  then show ?thesis by (rule tr_forget)
qed

lemma tr_reconcile:
  assumes "tr w E K lg" shows "tr w E K (snd (reconcile_warm_pool X c lg))"
proof -
  obtain y lg1 where y: "make_client X lg = (y, lg1)" by (rule prod.exhaust)
  have t1: "tr w E K lg1" using tr_client_eq [OF assms y] .
  have "tr w E K (snd (fold (reconcile_type X c d) tts (s, SawDigest d # lg1)))" for d tts s
    by (rule pp.fold_state) (use t1 in \<open>auto intro: tr_reconcile_type\<close>)
  then have "tr w E K (snd (recycle_retired X c (fold (reconcile_type X c d) tts (s, SawDigest d # lg1))))" for d tts s
    by (rule tr_recycle_retired)
  then show ?thesis using t1 unfolding reconcile_warm_pool_def y prod.case Let_def
    by (cases y) (simp_all add: case_prod_beta)
qed

subsection \<open>Eviction\<close>

lemma inner_evict:
  assumes "idle_warm p \<Longrightarrow> drop_pod_ok (w_name p) (K \<union> Svc ` L)" "inner w E K L lg"
  shows "inner w E K L (evict_pod X p lg)"
proof (cases "idle_warm p")
  case True
  have "inner w E K L (Did (DropPod gpu_ns (w_name p) no_grace) y # lg)" for y
    by (rule inner_do) (use assms True in simp_all)
  then show ?thesis using assms(2) by (auto simp: evict_pod_def do_call_def split: sum.split)
qed (use assms(2) in \<open>simp add: evict_pod_def\<close>)

lemma inner_evict_all:
  "\<forall>p \<in> set ps. idle_warm p \<longrightarrow> drop_pod_ok (w_name p) K \<Longrightarrow> inner w E K {} lg \<Longrightarrow> inner w E K {} (fold (evict_pod X) ps lg)"
  by (rule sp.fold_log) (auto intro: inner_evict)

lemma picked_from: "p \<in> set (fst (pick_evictions n f hs)) \<Longrightarrow> p \<in> fst ` set hs"
  by (induction n f hs rule: pick_evictions.induct) (auto split: if_splits prod.splits)

lemma holders_from: "holders resource ps = Inr hs \<Longrightarrow> x \<in> set hs \<Longrightarrow> fst x \<in> set ps"
  by (induction ps arbitrary: hs) (auto simp: bind_res_Inr_iff split: if_splits)

lemma idle_not_claimed: "idle_warm p \<Longrightarrow> warm_state p \<noteq> ''claimed''"
  by (simp add: idle_warm_def warm_state_def dget_or_def)

lemma tr_evict_on:
  assumes "tr w E K lg" "\<forall>p \<in> fst ` set hs. idle_warm p \<longrightarrow> drop_pod_ok (w_name p) K"
  shows "tr w E K (snd (evict_on X n hs ns lg))"
  using assms(1)
proof (induction ns arbitrary: lg)
  case (Cons r ns)
  let ?h = "filter (\<lambda>(p, h). w_node p = ro_node r) hs"
  obtain ps f where p: "pick_evictions n (ro_free r) ?h = (ps, f)" by (rule prod.exhaust)
  have "\<forall>q \<in> set ps. idle_warm q \<longrightarrow> drop_pod_ok (w_name q) K"
    using picked_from [of _ n "ro_free r" ?h] assms(2) unfolding p by fastforce
  then have "tr w E K (snd (services X (\<lambda>X xl. ((), fold (evict_pod X) ps xl)) lg))"
    using Cons.prems by (intro tr_services) (simp_all add: inner_evict_all)
  then show ?case using Cons p by simp
qed simp

lemma tr_evict:
  assumes "tr w E K lg" shows "tr w E K (snd (evict_warm_for_capacity X c t n ns lg))"
proof -
  obtain y lg1 where y: "see_warm X (Some t) (Some ''ready'') lg = (y, lg1)" by (rule prod.exhaust)
  let ?L = "insert (SawWarm (Some t) (Some ''ready'') y) K"
  have t1: "tr w E ?L lg1" by (rule tr_see_warm [OF assms y])
  have "tr w E ?L (snd (evict_on X n hs ns lg1))" if "y = Inr ps" "holders (gpu_resource_name (pc_types c) t) ps = Inr hs" for ps hs
    by (rule tr_evict_on [OF t1])
      (use holders_from [OF that(2)] that(1) listed_drop [of "Some t" "Some ''ready''" ps] idle_not_claimed in auto)
  then have "tr w E ?L (snd (evict_warm_for_capacity X c t n ns lg))"
    using t1 by (auto simp: evict_warm_for_capacity_def y split: sum.split)
  then show ?thesis by (rule tr_forget)
qed

lemma tr_target:
  assumes "tr w E K lg" shows "tr w E K (snd (get_target_az_for_reservation X c primary t n lg))"
proof -
  have "tr w E K (snd (evict_warm_for_capacity X c t n ns (MadeClient y # lg)))" for ns y
    by (rule tr_evict) (use assms in simp)
  then show ?thesis using assms
    by (auto simp: get_target_az_for_reservation_def make_client_def Let_def intro: tr_eq
        split: sum.split option.split list.split prod.split)
qed

subsection \<open>The claim\<close>

lemma tr_jupyter_runs: "tr w E K lg \<Longrightarrow> tr w E K (snd (jupyter_runs X p lg))"
  by (auto simp: jupyter_runs_def run_script_def split: sum.split)

lemma edit_ok_connection:
  "claimed rid K \<Longrightarrow> edit_ok E rid (connection_fields c n x l i token jup) K"
  by (simp add: edit_ok_def connection_fields_def dict_simps)

lemma tr_connect:
  assumes "tr w E K lg" "claimed rid K"
  shows "tr w E K (snd (update_reservation_connection_info X c rid n lg))"
proof -
  obtain y lg1 where y: "get_item X False rid lg = (y, lg1)" by (rule prod.exhaust)
  have t1: "tr w E K lg1" using tr_get [OF assms(1), of X False rid] y by simp
  obtain token lg2 where t: "get_jupyter_token_from_pod X (cn_pod n) lg1 = (token, lg2)" by (rule prod.exhaust)
  have t2: "tr w E K lg2" using tr_token [OF t1, of X "cn_pod n"] t by simp
  define chk where "chk = (if cn_jupyter n then jupyter_runs X (cn_pod n) lg2 else ((False, []), lg2))"
  obtain jup lg3 where j: "chk = (jup, lg3)" by (rule prod.exhaust)
  have t3: "tr w E K lg3" using tr_jupyter_runs [OF t2, of X "cn_pod n"] t2 j by (auto simp: chk_def split: if_splits)
  show ?thesis using t1 t3 edit_ok_connection [OF assms(2)]
    by (simp add: update_reservation_connection_info_def y t chk_def [symmetric] j Let_def split: sum.split option.split)
qed

lemma tr_bind_domain: "tr w E K lg \<Longrightarrow> tr w E K (snd (bind_domain X c rid h n lg))"
  by (auto simp: bind_domain_def Let_def call_def pp.call split: sum.split)

lemma tr_finish:
  assumes "tr w E K lg" "claimed (text_at m ''reservation_id'') K"
  shows "tr w E K (snd (finish_claim X c m p h n lg))"
proof -
  obtain domain ssh lg1 where b: "bind_domain X c (text_at m ''reservation_id'') h n lg = ((domain, ssh), lg1)"
    by (metis prod.exhaust)
  have t1: "tr w E K lg1" using tr_bind_domain [OF assms(1)] b by (metis snd_conv)
  have "tr w E K (snd (update_reservation_connection_info X c (text_at m ''reservation_id'') r lg1))" for r
    by (rule tr_connect [OF t1 assms(2)])
  then show ?thesis
    by (auto simp: finish_claim_def b Let_def intro!: tr_try intro: tr_eq split: sum.split prod.split)
qed

lemma tr_live:
  assumes "tr w E K lg" shows "tr w E K (snd (live_endpoint X c p m lg))"
proof -
  let ?s = "w_name p @ ''-ssh''"
  define q where "q = p_port X lg ?s"
  let ?e = "SawPort ?s q"
  obtain n lg1 where n: "find_available_node_port X (?e # lg) = (n, lg1)" by (rule prod.exhaust)
  have "tr w E K lg1" using tr_node_port [of w E K "?e # lg" X] assms n by simp
  then have "tr w E K (Called (MakeService q s i) y # lg1)" for q s i y by (simp add: pp.call)
  then show ?thesis using assms unfolding live_endpoint_def Let_def q_def [symmetric] n
    by (cases q) (auto simp: call_def split: sum.split)
qed

lemma claim_row_id [simp]: "text_at (claim_row X c m n h x lg) ''reservation_id'' = text_at m ''reservation_id''"
  by (simp add: claim_row_def text_at_def attr_def dget_or_def dict_simps)

lemma claimed_after:
  assumes "warm_listed (w_name p) (\<lambda>x. w_phase x = ''Running'') K" "K \<subseteq> L" "Called (graduate p user) (Inr ()) \<in> L"
    "Called (PutClaim (claim_row X c m n h x lg)) (Inr ()) \<in> L"
  shows "claimed (text_at m ''reservation_id'') L"
  unfolding claimed_def using assms(3,4) warm_listed_mono [OF assms(2), THEN mp, OF assms(1)] claim_row_id by blast

lemma tr_claim_pod:
  assumes t: "tr w E K lg" and l: "warm_listed (w_name p) (\<lambda>x. w_phase x = ''Running'') K"
  shows "tr w E K (snd (claim_pod X c m n keys p lg))"
proof -
  let ?g = "graduate p (text_at m ''user_id'')"
  obtain y lg1 where y: "call X ?g lg = (y, lg1)" by (rule prod.exhaust)
  have t1: "tr w E (insert (Called ?g y) K) lg1"
    by (rule tr_call_known [OF t _ y]) (use l in \<open>simp add: graduate_def\<close>)
  show ?thesis
  proof (cases y)
    case (Inl e)
    then show ?thesis using tr_forget [OF t1] by (simp add: claim_pod_def y)
  next
    case (Inr u)
    let ?L = "insert (Called ?g y) K"
    have l1: "warm_listed (w_name p) (\<lambda>x. w_phase x = ''Running'') ?L"
      by (rule warm_listed_mono [THEN mp, OF _ l]) blast
    let ?s = "ClaimPod keys (text_at m ''user_id'') m"
    define q where "q = p_run X lg1 gpu_ns (w_name p) ?s"
    define lg2 where "lg2 = Ran gpu_ns (w_name p) ?s q # lg1"
    have t2: "tr w E ?L lg2" using t1 by (simp add: lg2_def)
    have t4: "tr w E K lg2" by (rule tr_forget [OF t2])
    let ?c = "\<lambda>h x. PutClaim (claim_row X c m n h x lg2)"
    have done': "tr w E K (snd (finish_claim X c m p h en lg4))" "tr w E K lg3" "tr w E K (snd (live_endpoint X c p m lg3))"
      if k: "call X (?c h x) lg2 = (Inr v, lg3)" and s: "lg4 = lg3 \<or> live_endpoint X c p m lg3 = (r, lg4)" for h x v lg3 lg4 r en
    proof -
      have t3: "tr w E (insert (Called (?c h x) (Inr v)) ?L) lg3"
        by (rule tr_call_known [OF t2 _ k]) (use l1 Inr in auto)
      have cl: "claimed (text_at m ''reservation_id'') (insert (Called (?c h x) (Inr v)) ?L)"
        using Inr by (intro claimed_after [OF l1]) auto
      have t5: "tr w E (insert (Called (?c h x) (Inr v)) ?L) lg4"
        using s t3 tr_live [OF t3, of X c p m] by auto
      have "tr w E (insert (Called (?c h x) (Inr v)) ?L) (snd (finish_claim X c m p h en lg4))"
        by (rule tr_finish [OF t5 cl])
      then show "tr w E K (snd (finish_claim X c m p h en lg4))" by (rule tr_less) blast
      show "tr w E K lg3" by (rule tr_less [OF t3]) blast
      then show "tr w E K (snd (live_endpoint X c p m lg3))" by (rule tr_live)
    qed
    have failed: "tr w E K lg3" if "call X (?c h x) lg2 = (Inl e, lg3)" for h x e lg3
      by (rule tr_less [OF tr_call_known [OF t2 _ that]]) (use l1 Inr in auto)
    show ?thesis using t4
      unfolding claim_pod_def y prod.case Inr sum.case run_script_def q_def [symmetric] lg2_def [symmetric]
      by (auto intro: done' failed done'(3) [THEN tr_eq] split: sum.split option.split prod.split)
  qed
qed

lemma tr_try_claim:
  assumes "tr w E K lg" shows "tr w E K (snd (try_claim_warm_pod X c m lg))"
proof (cases "to_int (dget_or m ''gpu_count'' (DNum 0))")
  case (Inl e)
  then show ?thesis using assms by (simp add: try_claim_warm_pod_def Let_def)
next
  case (Inr n)
  let ?t = "text_at m ''gpu_type''"
  obtain keys lg1 where k: "get_github_public_key X (text_at m ''github_user'') True lg = (keys, lg1)" by (rule prod.exhaust)
  have t1: "tr w E K lg1" using tr_keys [OF assms, of X "text_at m ''github_user''" True] k by simp
  obtain z lg2 where z: "make_client X lg1 = (z, lg2)" by (rule prod.exhaust)
  have t2: "tr w E K lg2" using tr_client_eq [OF t1 z] .
  obtain y lg3 where y: "see_warm X (Some ?t) (Some ''ready'') lg2 = (y, lg3)" by (rule prod.exhaust)
  let ?L = "insert (SawWarm (Some ?t) (Some ''ready'') y) K"
  have t3: "tr w E ?L lg3" by (rule tr_see_warm [OF t2 y])
  have "tr w E ?L (snd (claim_pod X c m n keys p lg3))" if "y = Inr ps" "List.find (claimable n) ps = Some p" for ps p
  proof (rule tr_claim_pod [OF t3])
    have "p \<in> set ps" "w_phase p = ''Running''" using that(2) by (auto simp: find_Some_iff claimable_def)
    then show "warm_listed (w_name p) (\<lambda>x. w_phase x = ''Running'') ?L"
      unfolding warm_listed_def that(1) by blast
  qed
  then have cl: "tr w E K (snd (claim_pod X c m n keys p lg3))" if "y = Inr ps" "List.find (claimable n) ps = Some p" for ps p
    using that tr_forget by blast
  show ?thesis unfolding try_claim_warm_pod_def Let_def Inr sum.case k z y prod.case
    using assms t1 t2 tr_forget [OF t3] cl by (auto split: sum.split option.split)
qed

lemma tr_direct:
  assumes "tr w E K lg" shows "tr w E K (snd (handle_direct_claim X c body lg))"
proof (cases body)
  case (Some m)
  obtain b lg1 where b: "try_claim_warm_pod X c m lg = (b, lg1)" by (rule prod.exhaust)
  have t1: "tr w E K lg1" using tr_try_claim [OF assms, of X c m] b by simp
  obtain y lg2 where y: "get_item X False (text_at m ''reservation_id'') lg1 = (y, lg2)" by (rule prod.exhaust)
  have "tr w E K lg2" using tr_get [OF t1, of X False "text_at m ''reservation_id''"] y by simp
  then show ?thesis using assms t1 Some
    by (cases b) (auto simp: handle_direct_claim_def b y split: sum.split option.split)
qed (use assms in \<open>simp add: handle_direct_claim_def\<close>)

subsection \<open>The handler\<close>

lemma snd_total: "snd ((\<lambda>(b, l). (Inr b, l)) p) = snd p"
  by (simp add: case_prod_beta)

lemma tr_action:
  assumes "tr (ByRequest ms) E K lg" "m \<in> set ms" shows "tr (ByRequest ms) E K (snd (for_action E c m lg))"
proof -
  define r where "r = (if text_or m ''type'' ''reservation'' = ''reservation'' \<and> text_at m ''action'' = [] \<and>
    warm_pool_eligible c m then try_claim_warm_pod E c m lg else (False, lg))"
  obtain b lg1 where b: "r = (b, lg1)" by (rule prod.exhaust)
  have "tr (ByRequest ms) E K lg1" using tr_try_claim [OF assms(1), of E c m] assms b by (auto simp: r_def split: if_splits)
  then have q: "tr (ByRequest ms) E K (snd (case r of (True, lg1) \<Rightarrow> (Inr True, lg1) | (False, lg1) \<Rightarrow> process_reservation_request E c (Some m) lg1))"
    by (cases b) (simp_all add: b tr_request)
  have n: "tr (ByRequest ms) E K (snd (process_multinode_individual_node E c (text_at m ''reservation_id'') i n p lg))"
    if "text_at m ''action'' = ''process_multinode_individual''" for i n p
    by (rule tr_individual [OF assms(1)]) (use that assms(2) in \<open>auto simp: named_def\<close>)
  show ?thesis
    unfolding for_action_def Let_def r_def [symmetric] using assms(1) q n
    by (simp add: snd_total tr_cancellation tr_jupyter tr_add_user tr_extend tr_clear_lock tr_delete_disk tr_create_disk tr_clone)
qed

lemma tr_message:
  assumes "tr (ByRequest ms) E K lg" "set_option (sq_body s) \<subseteq> set ms" shows "tr (ByRequest ms) E K (handle_message E c s lg)"
proof (cases "sq_source s = ''aws:sqs'' \<and> (\<exists>m. sq_body s = Some m)")
  case False
  then show ?thesis using assms(1) by (auto simp: handle_message_def split: option.split)
next
  case True
  then obtain m where m: "sq_source s = ''aws:sqs''" "sq_body s = Some m" by blast
  obtain y lg1 where y: "for_action E c m lg = (y, lg1)" by (rule prod.exhaust)
  have t: "tr (ByRequest ms) E K lg1" using tr_action [OF assms(1), of m c] assms(2) m y by simp
  have "tr (ByRequest ms) E K (reject_version E c m lg)" using assms(1) by (simp add: reject_version_def Let_def)
  with t show ?thesis by (auto simp: handle_message_def m y split: sum.split bool.split)
qed

definition route_of :: "trigger \<Rightarrow> route" where
  "route_of ev = (case ev of QueueTick \<Rightarrow> ByQueue | WarmTick \<Rightarrow> ByRequest [] | Messages ms \<Rightarrow> ByRequest (List.map_filter sq_body ms))"

lemma tr_handler: "tr (route_of ev) E K lg \<Longrightarrow> tr (route_of ev) E K (snd (processor_handler E c ev lg))"
proof (cases ev)
  case WarmTick
  assume "tr (route_of ev) E K lg"
  from tr_reconcile [OF this] show ?thesis unfolding WarmTick processor_handler_def trigger.case
    by (auto intro: tr_eq split: prod.split sum.split)
next
  case QueueTick
  assume "tr (route_of ev) E K lg"
  then have "tr ByQueue E K lg" by (simp add: QueueTick route_of_def)
  from tr_scheduled [OF this] show ?thesis unfolding QueueTick processor_handler_def trigger.case route_of_def
    by (auto intro: tr_eq split: prod.split sum.split)
next
  case (Messages ms)
  assume "tr (route_of ev) E K lg"
  then have t: "tr (ByRequest (List.map_filter sq_body ms)) E K lg" by (simp add: Messages route_of_def)
  have "set_option (sq_body s) \<subseteq> set (List.map_filter sq_body ms)" if "s \<in> set ms" for s
    using that by (force simp: List.map_filter_def)
  then have "tr (ByRequest (List.map_filter sq_body ms)) E K (fold (handle_message E c) ms lg)"
    by (intro pp.fold_log [OF _ t]) (blast intro: tr_message)
  then show ?thesis by (simp add: Messages processor_handler_def route_of_def)
qed

theorem processor_policy: "each_call change_of (\<lambda>f es. change_ok (route_of ev) E f (set es)) (snd (processor_handler E c ev []))"
  by (rule pp.calls_ok [OF tr_handler [OF pp.start]])

end
