(* ===== verification/Gpu_Processor_Properties.thy ===== *)
theory Gpu_Processor_Properties
  imports Gpu_Handler_Trace
begin

section \<open>Properties of the reservation processor\<close>

text \<open>
  What a run of the handler may do, from the policy that \<open>Gpu_Handler_Trace\<close> shows it to keep to, and what single
  operations of the processor do.
\<close>

subsection \<open>Calls of one kind\<close>

fun gpus_asked :: "pevent \<Rightarrow> (string \<times> row) option" where
  "gpus_asked (Called (Allocate rid m) y) = Some (rid, m)"
| "gpus_asked e = None"

fun row_edit :: "pevent \<Rightarrow> (string \<times> (string \<times> ddb) list) option" where
  "row_edit (Called (EditRow rid ch rm) y) = Some (rid, ch)"
| "row_edit e = None"

definition row_cancelled :: "pevent \<Rightarrow> string option" where
  "row_cancelled e =
     (case row_edit e of
        Some (rid, ch) \<Rightarrow> if dget ch ''status'' = Some (DStr ''cancelled'') then Some rid else None
      | None \<Rightarrow> None)"

definition row_activated :: "pevent \<Rightarrow> string option" where
  "row_activated e =
     (case row_edit e of
        Some (rid, ch) \<Rightarrow> if dget ch ''status'' = Some (DStr ''active'') then Some rid else None
      | None \<Rightarrow> None)"

definition row_extended :: "pevent \<Rightarrow> (string \<times> ddb) option" where
  \<comment> \<open>a new expiry for a reservation whose status is left alone\<close>
  "row_extended e =
     (case row_edit e of
        Some (rid, ch) \<Rightarrow>
          if dget ch ''status'' = None then map_option (Pair rid) (dget ch ''expires_at'') else None
      | None \<Rightarrow> None)"

fun disk_freed :: "pevent \<Rightarrow> (string \<times> string) option" where
  "disk_freed (Called (EditDisk u d ch rm) y) = (if frees ch then Some (u, d) else None)"
| "disk_freed e = None"

fun volume_detached :: "pevent \<Rightarrow> string option" where
  "volume_detached (Called (DetachVolume v) y) = Some v"
| "volume_detached e = None"

definition pod_dropped :: "pevent \<Rightarrow> string option" where
  "pod_dropped e = (case change_of e of Some (Shared (DropPod ns p g)) \<Rightarrow> Some p | _ \<Rightarrow> None)"

lemma row_edit_change: "row_edit e = Some (rid, ch) \<Longrightarrow> \<exists>rm y. e = Called (EditRow rid ch rm) y"
  by (cases e rule: row_edit.cases) auto

text \<open>One rule for all of them: what the policy says of a call holds of every call of its kind.\<close>

lemmas calls_of_kind = each_call_select [OF processor_policy]

subsection \<open>Allocations\<close>

lemma named_bodies:
  "named (List.map_filter sq_body ms) node \<longleftrightarrow>
     (\<exists>s x. s \<in> set ms \<and> sq_body s = Some x \<and> text_at x ''action'' = ''process_multinode_individual'' \<and>
        text_at x ''reservation_id'' = node)"
  by (force simp: named_def List.map_filter_def)

text \<open>C19: a run on messages asks for GPUs only for a reservation that it has just accepted, and only after a check of
  the free GPUs, with one exception. Whenever a run of the handler on messages asks for the allocation of GPUs, for a request
  for one host or for a node of a multinode reservation, then before, in the same run, the row of the reservation
  was written by a put whose condition (not cancelled, expired, failed or completed) held, with status preparing. Further, either
  the count of the free GPUs of the type and the largest number free on a single node both reached the requested number; or the GPUs
  are for a row that was read from the table, and this row was, when the lock of its master reservation was taken, one of the
  pending rows, and the free GPUs of the first row's type reached the first row's count times the number of rows; or the GPUs
  are for a row that was read from the table because a message with the action process_multinode_individual names it. In the last case, and on
  a single node in the second, nothing is checked.\<close>

theorem requests_allocated_justified:
  "each_call gpus_asked (\<lambda>(rid, m) es.
       (\<exists>r. Called (PutRow r) (Inr ()) \<in> set es \<and> attr r ''reservation_id'' = DStr rid \<and> attr r ''status'' = DStr ''preparing'') \<and>
       ((\<exists>free. SawFree (text_or m ''gpu_type'' ''a100'') (Inr free) \<in> set es \<and> requested m \<le> of_int free) \<and>
        (\<exists>n. SawLargest (text_or m ''gpu_type'' ''a100'') n \<in> set es \<and> requested m \<le> of_int n) \<or>
        (\<exists>node row peers. SawItem node False (Inr (Some row)) \<in> set es \<and> m = with_peers peers row \<and>
           ((\<exists>master r now nodes free q. Called (PutLock r now) (Inr ()) \<in> set es \<and> text_at r ''reservation_id'' = lock_id master \<and>
               SawNodes (PendingOf master) (Inr nodes) \<in> set es \<and> node \<in> (\<lambda>x. text_at x ''reservation_id'') ` set nodes \<and>
               SawFree (text_or (hd nodes) ''gpu_type'' ''a100'') (Inr free) \<in> set es \<and>
               gpus_needed (hd nodes) (int (length nodes)) = Some q \<and> q \<le> of_int free) \<or>
            (\<exists>s x. s \<in> set ms \<and> sq_body s = Some x \<and> text_at x ''action'' = ''process_multinode_individual'' \<and>
               text_at x ''reservation_id'' = node)))))
     (snd (processor_handler E c (Messages ms) []))"
proof (rule calls_of_kind)
  fix e and y :: "string \<times> row" and es :: plog
  let ?R = "\<lambda>(rid, m) es.
       (\<exists>r. Called (PutRow r) (Inr ()) \<in> set es \<and> attr r ''reservation_id'' = DStr rid \<and> attr r ''status'' = DStr ''preparing'') \<and>
       ((\<exists>free. SawFree (text_or m ''gpu_type'' ''a100'') (Inr free) \<in> set es \<and> requested m \<le> of_int free) \<and>
        (\<exists>n. SawLargest (text_or m ''gpu_type'' ''a100'') n \<in> set es \<and> requested m \<le> of_int n) \<or>
        (\<exists>node row peers. SawItem node False (Inr (Some row)) \<in> set es \<and> m = with_peers peers row \<and>
           ((\<exists>master r now nodes free q. Called (PutLock r now) (Inr ()) \<in> set es \<and> text_at r ''reservation_id'' = lock_id master \<and>
               SawNodes (PendingOf master) (Inr nodes) \<in> set es \<and> node \<in> (\<lambda>x. text_at x ''reservation_id'') ` set nodes \<and>
               SawFree (text_or (hd nodes) ''gpu_type'' ''a100'') (Inr free) \<in> set es \<and>
               gpus_needed (hd nodes) (int (length nodes)) = Some q \<and> q \<le> of_int free) \<or>
            (\<exists>s x. s \<in> set ms \<and> sq_body s = Some x \<and> text_at x ''action'' = ''process_multinode_individual'' \<and>
               text_at x ''reservation_id'' = node))))"
  assume "gpus_asked e = Some y"
  then obtain rid m z where e: "e = Called (Allocate rid m) z" "y = (rid, m)" by (elim gpus_asked.elims) auto
  have "?R (rid, m) es" if "allocate_ok (ByRequest (List.map_filter sq_body ms)) rid m (set es)"
    using that unfolding allocate_ok.simps accepted_def seen_room_def node_ok_def counted_def named_bodies prod.case .
  then show "\<exists>f. change_of e = Some f \<and> (change_ok (route_of (Messages ms)) E f (set es) \<longrightarrow> ?R y es)"
    by (simp add: e route_of_def)
qed

text \<open>C20: a queued reservation gets GPUs only if it still waits and there are any for it. Whenever a queue run of the
  handler asks for the allocation of GPUs, then before, in the same run, its row was read with status queued (or without a row
  or status), and the free GPUs of its type, in all and on a single node, reached the number of GPUs of the reservation.\<close>

theorem queue_allocated_justified:
  "each_call gpus_asked (\<lambda>(rid, m) es.
       (\<exists>cur. SawItem rid False (Inr cur) \<in> set es \<and>
          text_or (case cur of None \<Rightarrow> [] | Some x \<Rightarrow> x) ''status'' ''queued'' = ''queued'') \<and>
       (\<exists>n free largest. to_int (dget_or m ''gpu_count'' (DNum 1)) = Inr n \<and>
          SawFree (text_or m ''gpu_type'' ''h100'') (Inr free) \<in> set es \<and> n \<le> free \<and>
          SawLargest (text_or m ''gpu_type'' ''h100'') largest \<in> set es \<and> n \<le> largest))
     (snd (processor_handler E c QueueTick []))"
  by (rule calls_of_kind, erule gpus_asked.elims) (auto simp: route_of_def still_queued_def seen_room_def)

subsection \<open>Reservations\<close>


text \<open>C24: a reservation becomes active only with its pod. Apart from the allocation of a new pod, the handler writes the
  status active to a row only after it has written the row for a claim and has taken a pod that was listed as running out of the
  warm pool, both with success.\<close>

theorem activations_justified:
  "each_call row_activated (\<lambda>rid es.
       (\<exists>p user. Called (graduate p user) (Inr ()) \<in> set es \<and>
          warm_listed (w_name p) (\<lambda>w. w_phase w = ''Running'') (set es)) \<and>
       (\<exists>r. Called (PutClaim r) (Inr ()) \<in> set es \<and> text_at r ''reservation_id'' = rid))
     (snd (processor_handler E c ev []))"
  by (rule calls_of_kind)
    (auto simp: row_activated_def edit_ok_def claimed_def dest!: row_edit_change split: option.splits if_splits)

subsection \<open>Extensions\<close>

lemma too_long:
  assumes "172800000000 < us" shows "48 < fdiv (total_seconds us) 3600"
proof -
  have "48 < fdiv (total_seconds 172800000001) 3600" by code_simp
  also have "\<dots> \<le> fdiv (total_seconds us) 3600"
    by (intro fdiv_mono total_seconds_mono) (use assms in simp_all)
  finally show ?thesis .
qed

lemma new_expiry_bound:
  assumes "new_expiry E r h = Inr (Inr d)" "ddb_true (attr r ''launched_at'')"
  obtains launch us where "date_of E (attr r ''launched_at'') = Inr launch" "dt_minus d launch = Inr us" "us \<le> 48 * 3600 * 1000000"
proof -
  obtain launch us where l: "date_of E (attr r ''launched_at'') = Inr launch" "dt_minus d launch = Inr us"
    "\<not> fdiv (total_seconds us) 3600 > MAX_TOTAL_HOURS"
    using assms by (auto simp: new_expiry_def total_hours_def bind_res_Inr_iff split: if_splits option.splits)
  have "us \<le> 48 * 3600 * 1000000" using too_long [of us] l(3) unfolding MAX_TOTAL_HOURS_def by linarith
  with l show thesis using that by blast
qed

lemma new_expiry_added:
  assumes "new_expiry E r h = Inr (Inr d)"
  obtains old x where "date_of E (attr r ''expires_at'') = Inr old" "float_of h = Some x" "d = (fst old + hours_us x, snd old)"
  using assms
  by (auto simp: new_expiry_def bind_res_Inr_iff split: if_splits option.splits dest!: dt_plus_Inr)

lemma new_expiry_in_bounds:
  assumes "new_expiry E r h = Inr (Inr d)"
  shows "if ddb_true (attr r ''launched_at'')
    then \<exists>launch us. date_of E (attr r ''launched_at'') = Inr launch \<and> dt_minus d launch = Inr us \<and> us \<le> 48 * 3600 * 1000000
    else True"
proof (cases "ddb_true (attr r ''launched_at'')")
  case True
  obtain launch us where l: "date_of E (attr r ''launched_at'') = Inr launch" "dt_minus d launch = Inr us"
    "us \<le> 48 * 3600 * 1000000"
    by (rule new_expiry_bound [OF assms True])
  show ?thesis unfolding if_P [OF True] using l by (intro exI conjI)
qed simp

text \<open>C22: an extension is bounded. Whenever the handler writes a new expiry to a row and leaves its status alone, a
  reservation with this id was found whose status was active or preparing, the new expiry is its old one plus a number of
  hours, and if the reservation has a launch time, which then can be read, the new expiry is at most 48 hours after it,
  to the microsecond and in spite of the rounding of the hours in floating point.\<close>

theorem extensions_bounded:
  "each_call row_extended (\<lambda>(rid, v) es.
       \<exists>prefix user r old x d. found prefix user r (set es) \<and> text_at r ''reservation_id'' = rid \<and>
         attr r ''status'' \<in> {DStr ''active'', DStr ''preparing''} \<and>
         date_of E (attr r ''expires_at'') = Inr old \<and> d = (fst old + hours_us x, snd old) \<and> v = DStr (p_iso E d) \<and>
         (if ddb_true (attr r ''launched_at'')
          then \<exists>launch us. date_of E (attr r ''launched_at'') = Inr launch \<and> dt_minus d launch = Inr us \<and> us \<le> 48 * 3600 * 1000000
          else True))
     (snd (processor_handler E c ev []))"
proof (rule calls_of_kind)
  fix e and y :: "string \<times> ddb" and es :: plog
  assume "row_extended e = Some y"
  then obtain rid ch rm z v where e: "e = Called (EditRow rid ch rm) z" and y: "y = (rid, v)"
    and v: "dget ch ''status'' = None" "dget ch ''expires_at'' = Some v"
    by (auto simp: row_extended_def dest!: row_edit_change split: option.splits if_splits)
  let ?R = "\<lambda>(rid, v) es.
       \<exists>prefix user r old x d. found prefix user r (set es) \<and> text_at r ''reservation_id'' = rid \<and>
         attr r ''status'' \<in> {DStr ''active'', DStr ''preparing''} \<and>
         date_of E (attr r ''expires_at'') = Inr old \<and> d = (fst old + hours_us x, snd old) \<and> v = DStr (p_iso E d) \<and>
         (if ddb_true (attr r ''launched_at'')
          then \<exists>launch us. date_of E (attr r ''launched_at'') = Inr launch \<and> dt_minus d launch = Inr us \<and> us \<le> 48 * 3600 * 1000000
          else True)"
  have "?R y es" if ok: "edit_ok E rid ch (set es)"
  proof -
    obtain prefix user r h d where r: "found prefix user r (set es)" "text_at r ''reservation_id'' = rid"
      "attr r ''status'' \<in> {DStr ''active'', DStr ''preparing''}" "new_expiry E r h = Inr (Inr d)" "v = DStr (p_iso E d)"
      using ok unfolding edit_ok_def v option.case by blast
    obtain old x where "date_of E (attr r ''expires_at'') = Inr old" "d = (fst old + hours_us x, snd old)"
      by (rule new_expiry_added [OF r(4)])
    moreover have "if ddb_true (attr r ''launched_at'')
      then \<exists>launch us. date_of E (attr r ''launched_at'') = Inr launch \<and> dt_minus d launch = Inr us \<and> us \<le> 48 * 3600 * 1000000
      else True"
      by (rule new_expiry_in_bounds [OF r(4)])
    ultimately show ?thesis unfolding y using r by blast
  qed
  then show "\<exists>f. change_of e = Some f \<and> (change_ok (route_of ev) E f (set es) \<longrightarrow> ?R y es)"
    by (simp add: e)
qed

subsection \<open>Disks and pods\<close>

text \<open>The processor releases a disk only for a reason. Whenever a run of the handler marks a disk as not in use, either
  the query for live reservations of its user with this disk found none, or the disk is named by a reservation that could be
  cancelled, was found for a user who is the owner of the disk or whose row names the owner, and whose cancellation the table
  was asked to write before.\<close>

theorem disks_freed_justified:
  "each_call disk_freed (\<lambda>(u, d) es.
       SawLocks u d (Inr []) \<in> set es \<or>
       (\<exists>user r. cancelled_row user r (set es) \<and> text_at r ''disk_name'' = d \<and> (u = user \<or> u = text_at r ''user_id'')))
     (snd (processor_handler E c ev []))"
  by (rule calls_of_kind, erule disk_freed.elims) (auto simp: free_ok_def split: if_splits)

text \<open>the processor detaches a volume by force only if it is left over. Whenever a run of the handler detaches a volume, it
  is the volume of a cancelled active reservation, whose cancellation the table was asked to write before and which EC2 still reports as in use,
  or one of the volumes in use of a disk for which no live reservation was found.\<close>

theorem volumes_detached_justified:
  "each_call volume_detached (\<lambda>v es.
       (\<exists>user r. cancelled_row user r (set es) \<and> attr r ''status'' = DStr ''active'' \<and> text_at r ''ebs_volume_id'' = v \<and>
          SawVolumeState v (Inr ''in-use'') \<in> set es) \<or>
       (\<exists>u d vs. SawLocks u d (Inr []) \<in> set es \<and> SawVolumes u d True (Inr vs) \<in> set es \<and> v \<in> set vs))
     (snd (processor_handler E c ev []))"
  by (rule calls_of_kind, erule volume_detached.elims) (auto simp: detach_ok_def)

text \<open>C23: the handler itself deletes only pods of cancelled reservations and unused pods of the warm pool. Whenever a run of the
  handler, outside of the allocation of new pods, deletes a pod, it is the pod of a reservation that was read as active, that could be
  cancelled by the user who asked for it, and whose cancellation the table was asked to write before, or a pod of the warm pool that was
  listed without the state claimed. The cancellation need not have been written: the source logs a failed write and deletes the pod
  all the same. Not covered are the deletions inside of allocate_gpu_resources, which is one call of the model: its monitoring
  thread deletes pods of reservations that are still being prepared.\<close>

theorem processor_deletes_unused_pods:
  "each_call pod_dropped (\<lambda>p es.
       (\<exists>user r. cancelled_row user r (set es) \<and> attr r ''status'' = DStr ''active'' \<and> text_at r ''pod_name'' = p) \<or>
       (\<exists>t s ps w. SawWarm t s (Inr ps) \<in> set es \<and> w \<in> set ps \<and> w_name w = p \<and> warm_state w \<noteq> ''claimed''))
     (snd (processor_handler E c ev []))"
  by (rule calls_of_kind)
    (auto simp: pod_dropped_def drop_pod_ok_def warm_listed_def split: option.splits change.splits effect.splits)

end
