(* ===== verification/Py_Json.thy ===== *)
theory Py_Json
  imports Py_Text
begin

section \<open>JSON values and lines of text\<close>

text \<open>
  The values of \<open>json.loads\<close>, their truth and their fields. An object is a dictionary in the order of its keys. How a text
  is parsed is a parameter of the models that parse one. \<open>None\<close> stands for the \<open>AttributeError\<close>, \<open>TypeError\<close>,
  \<open>KeyError\<close> or \<open>IndexError\<close> of an access. \<open>splitlines\<close> is the method of \<open>str\<close>, for ASCII texts.
\<close>

datatype json = JNull | JBool bool | JNum rat | JStr string | JArr "json list" | JObj "(string \<times> json) list"

fun json_true :: "json \<Rightarrow> bool" where
  "json_true JNull = False"
| "json_true (JBool b) = b"
| "json_true (JNum n) = (n \<noteq> 0)"
| "json_true (JStr s) = (s \<noteq> [])"
| "json_true (JArr xs) = (xs \<noteq> [])"
| "json_true (JObj d) = (d \<noteq> [])"

text \<open>\<open>j.get(k, default)\<close>, \<open>j[k]\<close>, \<open>j[-1]\<close>, \<open>a or b\<close>, and the elements of a list that is not empty or of any list.\<close>

fun json_get :: "json \<Rightarrow> string \<Rightarrow> json \<Rightarrow> json option" where
  "json_get (JObj d) k v = Some (dget_or d k v)"
| "json_get _ k v = None"

fun json_at :: "json \<Rightarrow> string \<Rightarrow> json option" where
  "json_at (JObj d) k = dget d k"
| "json_at _ k = None"

fun json_last :: "json \<Rightarrow> json option" where
  "json_last (JArr xs) = (if xs = [] then None else Some (last xs))"
| "json_last _ = None"

definition json_or :: "json \<Rightarrow> json \<Rightarrow> json" where
  "json_or a b = (if json_true a then a else b)"

fun json_list :: "json \<Rightarrow> json list option" where
  "json_list (JArr xs) = Some xs"
| "json_list _ = None"

definition jint :: "int \<Rightarrow> json" where
  "jint n = JNum (of_int n)"

text \<open>\<open>{k: v, ..., **j}\<close>: the fields of \<open>j\<close> win over those given.\<close>

fun json_merge :: "(string, json) dict \<Rightarrow> json \<Rightarrow> json option" where
  "json_merge d (JObj e) = Some (JObj (fold (\<lambda>(k, v). dset k v) e d))"
| "json_merge d _ = None"

subsection \<open>Lines\<close>

definition is_eol :: "char \<Rightarrow> bool" where
  "is_eol c = (let n = (of_char c :: nat) in (10 \<le> n \<and> n \<le> 13) \<or> (28 \<le> n \<and> n \<le> 30))"

fun lines_from :: "string \<Rightarrow> string \<Rightarrow> string list" where
  \<comment> \<open>the line read so far is reversed\<close>
  "lines_from acc [] = (if acc = [] then [] else [rev acc])"
| "lines_from acc [c] = (if is_eol c then [rev acc] else [rev (c # acc)])"
| "lines_from acc (c # d # s) =
     (if c = CHR 0x0D \<and> d = CHR 0x0A then rev acc # lines_from [] s
      else if is_eol c then rev acc # lines_from [] (d # s)
      else lines_from (c # acc) (d # s))"

definition splitlines :: "string \<Rightarrow> string list" where
  "splitlines s = lines_from [] s"

lemma lines_from_plain:
  "\<forall>c \<in> set l. \<not> is_eol c \<Longrightarrow> lines_from acc (l @ CHR 0x0A # s) = (rev acc @ l) # lines_from [] s"
proof (induction l arbitrary: acc)
  case Nil
  then show ?case by (cases s) (simp_all add: is_eol_def)
next
  case (Cons c l)
  have "\<not> is_eol c" "c \<noteq> CHR 0x0D" using Cons.prems by (auto simp: is_eol_def)
  then show ?case using Cons by (cases l) simp_all
qed

lemma splitlines_join:
  assumes "\<forall>l \<in> set ls. \<forall>c \<in> set l. \<not> is_eol c"
  shows "splitlines (concat (map (\<lambda>l. l @ [CHR 0x0A]) ls)) = ls"
  using assms by (induction ls) (simp_all add: splitlines_def lines_from_plain)

end
