(* ===== verification/Sandbox_Dispatcher.thy ===== *)
theory Sandbox_Dispatcher
  imports Py_Json
begin

section \<open>The dispatcher of sandbox tasks\<close>

text \<open>
  \<open>modules/agent-sandbox/dispatcher/dispatcher.py\<close>: a request becomes a Kubernetes Job, the dispatcher waits for it and reads
  the result out of the log of its pod. The answers of the API server, the clock, the token file and the parser of JSON are
  fields of \<open>denv\<close> and may depend on the log of what happened so far (newest first). The table of tasks is the dictionary that
  the threads share; what a thread does under its lock is one function on it, and \<open>step\<close> below interleaves the threads.
\<close>

definition POLL_INTERVAL_S :: int where "POLL_INTERVAL_S = 2"
definition JOB_TTL_S :: int where "JOB_TTL_S = 3600"
definition MAX_BODY_BYTES :: int where "MAX_BODY_BYTES = 64 * 1024"
definition MAX_LOG_BYTES :: nat where "MAX_LOG_BYTES = 1024 * 1024"

text \<open>
  The exceptions by the classes that the source tells apart, with \<open>str\<close> of them. \<open>ApiErr\<close> and \<open>RuntimeErr\<close> are both a
  \<open>RuntimeError\<close> of Python; only the first is the subclass \<open>ApiError\<close>.
\<close>

datatype derr = ApiErr string | OsErr string | RuntimeErr string | ValueErr string | OtherErr

text \<open>What a call of the server gives: the whole body, an \<open>HTTPError\<close> with its body, or a failure of the transport.\<close>

datatype reply = Body string | HttpError int string | Broken derr

datatype devent = Request string string string "json option" reply | Slept

type_synonym dlog = "devent list"

record denv =
  k8s_host :: string
  k8s_port :: string
  token_file :: "dlog \<Rightarrow> derr + string option" \<comment> \<open>\<open>Inr None\<close>: the file does not exist\<close>
  server :: "dlog \<Rightarrow> string \<Rightarrow> string \<Rightarrow> json option \<Rightarrow> reply"
  monotonic :: "dlog \<Rightarrow> flt"
  loads :: "string \<Rightarrow> string + json" \<comment> \<open>\<open>Inl\<close>: the text of the \<open>ValueError\<close>\<close>
  text_of :: "json \<Rightarrow> string"
  NAMESPACE :: string
  AGENT_IMAGE :: string
  REGION :: string
  SIGV4_PROXY :: string
  DEFAULT_MODEL :: string
  MAX_CONCURRENT_TASKS :: int
  TASK_DEADLINE_S :: int
  RESULT_RETENTION_S :: int
  SLOT_CPU :: string
  SLOT_MEMORY :: string
  SLOT_DISK :: string

subsection \<open>The API server\<close>

definition api_base :: "denv \<Rightarrow> derr + string" where
  "api_base E =
     (let host = k8s_host E in
      if host = [] then Inl (RuntimeErr ''KUBERNETES_SERVICE_HOST not set -- not running inside a pod?'')
      else Inr (''https://'' @ (if contains_str '':'' host \<and> \<not> startswith host ''['' then ''['' @ host @ '']'' else host)
                @ '':'' @ k8s_port E))"

definition read_token :: "denv \<Rightarrow> dlog \<Rightarrow> derr + string" where
  "read_token E lg =
     (case token_file E lg of
        Inl e \<Rightarrow> Inl e
      | Inr None \<Rightarrow> Inl (RuntimeErr ''ServiceAccount token not found at /var/run/secrets/kubernetes.io/serviceaccount/token'')
      | Inr (Some s) \<Rightarrow> Inr (strip s))"

text \<open>One call, up to the payload that is read of it; \<open>api_text\<close> is \<open>api_request\<close> with \<open>raw=True\<close>.\<close>

definition api_text :: "denv \<Rightarrow> string \<Rightarrow> string \<Rightarrow> json option \<Rightarrow> dlog \<Rightarrow> (derr + string) \<times> dlog" where
  "api_text E m path body lg =
     (case api_base E of Inl e \<Rightarrow> (Inl e, lg)
      | Inr url \<Rightarrow>
         (case read_token E lg of Inl e \<Rightarrow> (Inl e, lg)
          | Inr token \<Rightarrow>
             let r = server E lg m path body; lg = Request token m (url @ path) body r # lg in
             (case r of
                Body s \<Rightarrow> (Inr (take MAX_LOG_BYTES s), lg)
              | HttpError code detail \<Rightarrow>
                  (Inl (ApiErr (m @ '' '' @ path @ '' -> '' @ str_int code @ '': '' @ take 500 (take (nat MAX_BODY_BYTES) detail))), lg)
              | Broken e \<Rightarrow> (Inl e, lg))))"

definition api_request :: "denv \<Rightarrow> string \<Rightarrow> string \<Rightarrow> json option \<Rightarrow> dlog \<Rightarrow> (derr + json) \<times> dlog" where
  "api_request E m path body lg =
     (case api_text E m path body lg of
        (Inl e, lg) \<Rightarrow> (Inl e, lg)
      | (Inr s, lg) \<Rightarrow>
          (case loads E (if s = [] then ''{}'' else s) of
             Inr j \<Rightarrow> (Inr j, lg)
           | Inl msg \<Rightarrow> (Inl (ApiErr (m @ '' '' @ path @ '' -> unparseable response: '' @ msg)), lg)))"

subsection \<open>Jobs\<close>

text \<open>The request of a task, as \<open>_read_spec\<close> accepted it.\<close>

type_synonym spec = "(string, json) dict"

definition job_manifest :: "denv \<Rightarrow> string \<Rightarrow> spec \<Rightarrow> json option" where
  "job_manifest E tid sp =
     map_option (\<lambda>repo.
       let labels = JObj [(''app'', JStr ''sandbox-task''), (''osdc.io/module'', JStr ''agent-sandbox'')];
           var = (\<lambda>n v. JObj [(''name'', JStr n), (''value'', v)]);
           slot = JObj [(''cpu'', JStr (SLOT_CPU E)), (''memory'', JStr (SLOT_MEMORY E)), (''ephemeral-storage'', JStr (SLOT_DISK E))]
       in JObj
         [(''apiVersion'', JStr ''batch/v1''),
          (''kind'', JStr ''Job''),
          (''metadata'', JObj
            [(''name'', JStr (''sandbox-task-'' @ tid)), (''namespace'', JStr (NAMESPACE E)), (''labels'', labels)]),
          (''spec'', JObj
            [(''backoffLimit'', jint 0),
             (''activeDeadlineSeconds'', jint (TASK_DEADLINE_S E)),
             (''ttlSecondsAfterFinished'', jint JOB_TTL_S),
             (''template'', JObj
               [(''metadata'', JObj [(''labels'', labels)]),
                (''spec'', JObj
                  [(''restartPolicy'', JStr ''Never''),
                   (''runtimeClassName'', JStr ''gvisor''),
                   (''serviceAccountName'', JStr ''sandbox-agent''),
                   (''automountServiceAccountToken'', JBool False),
                   (''containers'', JArr [JObj
                     [(''name'', JStr ''task''),
                      (''image'', JStr (AGENT_IMAGE E)),
                      (''env'', JArr
                        [var ''PYTHONUNBUFFERED'' (JStr ''1''),
                         var ''AWS_REGION'' (JStr (REGION E)),
                         var ''SIGV4_PROXY'' (JStr (SIGV4_PROXY E)),
                         var ''BEDROCK_DEFAULT_MODEL_ID'' (JStr (DEFAULT_MODEL E)),
                         var ''SANDBOX_REPO'' repo,
                         var ''SANDBOX_REF'' (dget_or sp ''ref'' (JStr '''')),
                         var ''SANDBOX_TASK'' (dget_or sp ''task'' (JStr '''')),
                         var ''SANDBOX_MODEL'' (dget_or sp ''model'' (JStr ''''))]),
                      (''securityContext'', JObj
                        [(''runAsNonRoot'', JBool True), (''runAsUser'', jint 1000), (''allowPrivilegeEscalation'', JBool False)]),
                      (''resources'', JObj [(''requests'', slot), (''limits'', slot)])]])])])])]) (dget sp ''repo'')"

definition jobs_path :: "denv \<Rightarrow> string" where
  "jobs_path E = ''/apis/batch/v1/namespaces/'' @ NAMESPACE E @ ''/jobs''"

definition job_path :: "denv \<Rightarrow> string \<Rightarrow> string" where
  "job_path E tid = jobs_path E @ ''/sandbox-task-'' @ tid"

definition create_job :: "denv \<Rightarrow> string \<Rightarrow> spec \<Rightarrow> dlog \<Rightarrow> (derr + unit) \<times> dlog" where
  "create_job E tid sp lg =
     (case job_manifest E tid sp of None \<Rightarrow> (Inl OtherErr, lg)
      | Some j \<Rightarrow>
         (case api_request E ''POST'' (jobs_path E) (Some j) lg of
            (Inl e, lg) \<Rightarrow> (Inl e, lg) | (Inr _, lg) \<Rightarrow> (Inr (), lg)))"

text \<open>Whether a condition says that the Job failed, and why; \<open>None\<close> if it is not an object.\<close>

definition failed_cond :: "json \<Rightarrow> json option option" where
  "failed_cond c =
     (case c of
        JObj d \<Rightarrow> Some
          (if dget_or d ''type'' JNull = JStr ''Failed'' \<and> dget_or d ''status'' JNull = JStr ''True''
           then Some (json_or (json_or (dget_or d ''reason'' JNull) (dget_or d ''message'' JNull)) (JStr ''Job failed''))
           else None)
      | _ \<Rightarrow> None)"

fun failed_conds :: "json list \<Rightarrow> json option option" where
  "failed_conds [] = Some None"
| "failed_conds (c # cs) =
     (case failed_cond c of None \<Rightarrow> None | Some (Some d) \<Rightarrow> Some (Some d) | Some None \<Rightarrow> failed_conds cs)"

datatype jstate = Succeeded | Failed json | Pending

definition read_state :: "json \<Rightarrow> jstate option" where
  "read_state job =
     Option.bind (json_get job ''status'' (JObj [])) (\<lambda>status.
     Option.bind (json_get status ''succeeded'' JNull) (\<lambda>ok.
     if json_true ok then Some Succeeded
     else Option.bind (json_get status ''conditions'' JNull) (\<lambda>cs.
          Option.bind (json_list (json_or cs (JArr []))) (\<lambda>cs.
          map_option (\<lambda>f. case f of Some d \<Rightarrow> Failed d | None \<Rightarrow> Pending) (failed_conds cs)))))"

definition job_state :: "denv \<Rightarrow> string \<Rightarrow> dlog \<Rightarrow> (derr + jstate) \<times> dlog" where
  "job_state E tid lg =
     (case api_request E ''GET'' (job_path E tid) None lg of
        (Inl e, lg) \<Rightarrow> (Inl e, lg)
      | (Inr job, lg) \<Rightarrow> (case read_state job of None \<Rightarrow> Inl OtherErr | Some st \<Rightarrow> Inr st, lg))"

text \<open>The last line of a log that starts with a brace and is JSON.\<close>

fun last_result :: "denv \<Rightarrow> string list \<Rightarrow> json option" where
  \<comment> \<open>the lines are reversed\<close>
  "last_result E [] = None"
| "last_result E (l # ls) =
     (let s = strip l in
      if startswith s ''{'' then (case loads E s of Inr j \<Rightarrow> Some j | Inl _ \<Rightarrow> last_result E ls)
      else last_result E ls)"

definition pods_path :: "denv \<Rightarrow> string" where
  "pods_path E = ''/api/v1/namespaces/'' @ NAMESPACE E @ ''/pods''"

definition task_result :: "denv \<Rightarrow> string \<Rightarrow> dlog \<Rightarrow> (derr + json) \<times> dlog" where
  "task_result E tid lg =
     (case api_request E ''GET'' (pods_path E @ ''?labelSelector=job-name%3Dsandbox-task-'' @ tid) None lg of
        (Inl e, lg) \<Rightarrow> (Inl e, lg)
      | (Inr ps, lg) \<Rightarrow>
         (case json_get ps ''items'' JNull of None \<Rightarrow> (Inl OtherErr, lg)
          | Some items \<Rightarrow>
             if \<not> json_true items then (Inl (ApiErr (''no pod found for sandbox-task-'' @ tid)), lg)
             else
               (case Option.bind (json_last items) (\<lambda>p. Option.bind (json_at p ''metadata'') (\<lambda>m. json_at m ''name'')) of
                  None \<Rightarrow> (Inl OtherErr, lg)
                | Some name \<Rightarrow>
                   (case api_text E ''GET'' (pods_path E @ ''/'' @ text_of E name @ ''/log'') None lg of
                      (Inl e, lg) \<Rightarrow> (Inl e, lg)
                    | (Inr out, lg) \<Rightarrow>
                        (case last_result E (rev (splitlines out)) of
                           Some j \<Rightarrow> Inr j
                         | None \<Rightarrow> Inl (ApiErr (''sandbox-task-'' @ tid @ '' printed no result JSON'')), lg)))))"

text \<open>\<open>except (ApiError, OSError) as exc\<close>: the text of an exception of these classes.\<close>

fun caught_text :: "derr \<Rightarrow> string option" where
  "caught_text (ApiErr s) = Some s"
| "caught_text (OsErr s) = Some s"
| "caught_text _ = None"

definition delete_job :: "denv \<Rightarrow> string \<Rightarrow> dlog \<Rightarrow> (derr + unit) \<times> dlog" where
  "delete_job E tid lg =
     (case api_request E ''DELETE'' (job_path E tid) (Some (JObj [(''propagationPolicy'', JStr ''Background'')])) lg of
        (Inl e, lg) \<Rightarrow> (if caught_text e = None then Inl e else Inr (), lg)
      | (Inr _, lg) \<Rightarrow> (Inr (), lg))"

subsection \<open>Waiting for a task\<close>

definition errors :: "string \<Rightarrow> string \<Rightarrow> json" where
  "errors stage msg = JObj [(''errors'', JObj [(stage, JStr msg)])]"

definition dispatch_error :: "derr + json \<Rightarrow> derr + json" where
  "dispatch_error r =
     (case r of Inr j \<Rightarrow> Inr j
      | Inl e \<Rightarrow> (case caught_text e of Some msg \<Rightarrow> Inr (errors ''dispatch'' msg) | None \<Rightarrow> Inl e))"

fun poll :: "denv \<Rightarrow> nat \<Rightarrow> flt \<Rightarrow> string \<Rightarrow> dlog \<Rightarrow> ((derr + json) \<times> dlog) option" where
  \<comment> \<open>the \<open>while True\<close> of the source; \<open>None\<close>: the fuel is used up\<close>
  "poll E 0 deadline tid lg = None"
| "poll E (Suc n) deadline tid lg =
     (if monotonic E lg > deadline
      then Some (Inr (errors ''dispatch'' (''task did not finish within '' @ str_int (TASK_DEADLINE_S E) @ ''s'')), lg)
      else
        (case job_state E tid lg of
           (Inl e, lg) \<Rightarrow> Some (Inl e, lg)
         | (Inr Succeeded, lg) \<Rightarrow> Some (task_result E tid lg)
         | (Inr (Failed detail), lg) \<Rightarrow>
             (case task_result E tid lg of
                (Inl (ApiErr _), lg) \<Rightarrow> Some (Inr (errors ''task'' (''pod failed: '' @ text_of E detail)), lg)
              | r \<Rightarrow> Some r)
         | (Inr Pending, lg) \<Rightarrow> poll E n deadline tid (Slept # lg)))"

definition deadline_of :: "denv \<Rightarrow> dlog \<Rightarrow> flt" where
  "deadline_of E lg = fadd (fadd (monotonic E lg) (fi (TASK_DEADLINE_S E))) (fi (POLL_INTERVAL_S * 3))"

definition run_to_completion :: "denv \<Rightarrow> nat \<Rightarrow> string \<Rightarrow> spec \<Rightarrow> dlog \<Rightarrow> ((derr + json) \<times> dlog) option" where
  "run_to_completion E n tid sp lg =
     (let deadline = deadline_of E lg in
      case create_job E tid sp lg of
        (Inl e, lg) \<Rightarrow> Some (dispatch_error (Inl e), lg)
      | (Inr _, lg) \<Rightarrow>
         (case poll E n deadline tid lg of None \<Rightarrow> None
          | Some (r, lg) \<Rightarrow>
             (case delete_job E tid lg of
                (Inl e, lg) \<Rightarrow> Some (Inl e, lg)
              | (Inr _, lg) \<Rightarrow> Some (dispatch_error r, lg))))"

end
