(* ===== verification/Sandbox_Tasks.thy ===== *)
theory Sandbox_Tasks
  imports Sandbox_Dispatcher
begin

section \<open>The table of sandbox tasks and the HTTP handlers\<close>

text \<open>
  The second half of \<open>dispatcher.py\<close>. Every access to the table happens under one lock, so \<open>start_task\<close>, \<open>finish_task\<close>
  and the reads are atomic. A handler of \<open>POST /run\<close> is two such accesses with \<open>run_to_completion\<close> between them, in the thread
  of the connection or in one of its own; \<open>step\<close> interleaves them in any order, while the clock moves on.
\<close>

record task_entry =
  done_with :: "json option" \<comment> \<open>\<open>None\<close>: \<open>state\<close> is \<open>running\<close>\<close>
  finished_at :: flt

type_synonym table = "(string, task_entry) dict"

definition is_running :: "task_entry \<Rightarrow> bool" where
  "is_running t = (done_with t = None)"

definition running :: "table \<Rightarrow> int" where
  "running ts = int (length (filter is_running (dvals ts)))"

definition is_stale :: "denv \<Rightarrow> flt \<Rightarrow> task_entry \<Rightarrow> bool" where
  "is_stale E now t = (\<not> is_running t \<and> fsub now (finished_at t) > of_int (RESULT_RETENTION_S E))"

definition prune :: "denv \<Rightarrow> flt \<Rightarrow> table \<Rightarrow> table" where
  "prune E now ts = fold ddel (map fst (filter (\<lambda>(_, t). is_stale E now t) ts)) ts"

definition finish_task :: "string \<Rightarrow> json \<Rightarrow> flt \<Rightarrow> table \<Rightarrow> table" where
  "finish_task tid j now ts = dset tid \<lparr>done_with = Some j, finished_at = now\<rparr> ts"

text \<open>\<open>uid\<close> is \<open>uuid.uuid4().hex[:12]\<close>.\<close>

definition start_task :: "denv \<Rightarrow> flt \<Rightarrow> string \<Rightarrow> table \<Rightarrow> string option \<times> table" where
  "start_task E now uid ts =
     (let ts = prune E now ts in
      if running ts \<ge> MAX_CONCURRENT_TASKS E then (None, ts)
      else (Some uid, dset uid \<lparr>done_with = None, finished_at = 0\<rparr> ts))"

subsection \<open>Requests\<close>

text \<open>\<open>TASK_ID_RE.match\<close>: the dollar also matches before a newline at the end.\<close>

definition is_hex :: "char \<Rightarrow> bool" where
  "is_hex c = (c \<in> set ''0123456789abcdef'')"

definition is_task_id :: "string \<Rightarrow> bool" where
  "is_task_id s = (length (takeWhile is_hex s) = 12 \<and> (drop 12 s = [] \<or> drop 12 s = [CHR 0x0A]))"

text \<open>An answer of a handler, or no answer because an exception left it.\<close>

datatype 'a http = Answer int json | Dropped | Accepted 'a

definition send_merged :: "int \<Rightarrow> (string, json) dict \<Rightarrow> json \<Rightarrow> 'a http" where
  "send_merged code d j = (case json_merge d j of Some j \<Rightarrow> Answer code j | None \<Rightarrow> Dropped)"

definition error_json :: "string \<Rightarrow> json" where
  "error_json msg = JObj [(''error'', JStr msg)]"

definition do_GET :: "denv \<Rightarrow> string \<Rightarrow> table \<Rightarrow> unit http" where
  "do_GET E path ts =
     (if path = ''/healthz''
      then Answer 200 (JObj [(''status'', JStr ''ok''), (''in_flight'', jint (running ts)),
                             (''capacity'', jint (MAX_CONCURRENT_TASKS E))])
      else if startswith path ''/status/'' then
        (let tid = drop (length ''/status/'') path in
         if \<not> is_task_id tid then Answer 400 (error_json ''malformed task id'')
         else
           (case dget ts tid of
              None \<Rightarrow> Answer 404 (error_json ''unknown task id'')
            | Some t \<Rightarrow>
               (case done_with t of
                  None \<Rightarrow> Answer 200 (JObj [(''state'', JStr ''running''), (''task_id'', JStr tid)])
                | Some j \<Rightarrow> send_merged 200 [(''state'', JStr ''done''), (''task_id'', JStr tid)] j)))
      else Answer 404 (error_json ''not found''))"

text \<open>The strings of \<open>spec[k]\<close> for the keys that may be absent.\<close>

definition text_or_absent :: "(string, json) dict \<Rightarrow> string \<Rightarrow> bool" where
  "text_or_absent d k = (case dget d k of None \<Rightarrow> True | Some (JStr _) \<Rightarrow> True | Some _ \<Rightarrow> False)"

fun first_bad :: "(string, json) dict \<Rightarrow> string list \<Rightarrow> string option" where
  "first_bad d [] = None"
| "first_bad d (k # ks) = (if text_or_absent d k then first_bad d ks else Some k)"

definition flag_or_absent :: "(string, json) dict \<Rightarrow> string \<Rightarrow> bool" where
  "flag_or_absent d k = (case dget d k of None \<Rightarrow> True | Some (JBool _) \<Rightarrow> True | Some _ \<Rightarrow> False)"

text \<open>
  \<open>raw\<close> is the header \<open>Content-Length\<close>, the string \<open>0\<close> if there is none, and \<open>body n\<close> what reading \<open>n\<close> bytes of the
  request gives. \<open>quoted\<close> is \<open>repr\<close> of a string.
\<close>

definition check_spec :: "json \<Rightarrow> derr + spec" where
  "check_spec j =
     (case j of
        JObj d \<Rightarrow>
          (case dget d ''repo'' of
             Some (JStr (c # s)) \<Rightarrow>
               (case first_bad d [''ref'', ''task'', ''model''] of
                  Some k \<Rightarrow> Inl (ValueErr (CHR 0x27 # k @ CHR 0x27 # '' must be a string''))
                | None \<Rightarrow>
                    if flag_or_absent d ''wait'' then Inr d
                    else Inl (ValueErr (CHR 0x27 # ''wait'' @ CHR 0x27 # '' must be a boolean'')))
           | _ \<Rightarrow> Inl (ValueErr (''missing '' @ CHR 0x27 # ''repo'' @ [CHR 0x27])))
      | _ \<Rightarrow> Inl (ValueErr ''body must be a JSON object''))"

definition read_spec :: "denv \<Rightarrow> (string \<Rightarrow> string) \<Rightarrow> string \<Rightarrow> (int \<Rightarrow> derr + string) \<Rightarrow> derr + spec" where
  "read_spec E quoted raw body =
     (case py_int raw of
        None \<Rightarrow> Inl (ValueErr (''invalid Content-Length: '' @ quoted raw))
      | Some n \<Rightarrow>
         if \<not> (0 \<le> n \<and> n \<le> MAX_BODY_BYTES)
         then Inl (ValueErr (''Content-Length must be between 0 and '' @ str_int MAX_BODY_BYTES @ '', got '' @ str_int n))
         else
           (case body n of Inl e \<Rightarrow> Inl e
            | Inr s \<Rightarrow>
               (case loads E (if s = [] then ''{}'' else s) of
                  Inl msg \<Rightarrow> Inl (ValueErr msg)
                | Inr j \<Rightarrow> check_spec j)))"

text \<open>\<open>do_POST\<close> up to the slot, and the answers after it: \<open>Accepted (tid, spec, wait)\<close> has a slot.\<close>

definition post_begin ::
  "denv \<Rightarrow> string \<Rightarrow> derr + spec \<Rightarrow> flt \<Rightarrow> string \<Rightarrow> table \<Rightarrow> (string \<times> spec \<times> bool) http \<times> table" where
  "post_begin E path sp now uid ts =
     (if path \<noteq> ''/run'' then (Answer 404 (error_json ''not found''), ts)
      else case sp of
        Inl (ValueErr msg) \<Rightarrow> (Answer 400 (error_json msg), ts)
      | Inl _ \<Rightarrow> (Dropped, ts)
      | Inr d \<Rightarrow>
          if AGENT_IMAGE E = [] then (Answer 500 (error_json ''AGENT_IMAGE not set -- deploy.sh did not substitute the task image''), ts)
          else
            (case start_task E now uid ts of
               (None, ts) \<Rightarrow> (Answer 429 (error_json (''at capacity: '' @ str_int (MAX_CONCURRENT_TASKS E) @ '' tasks in flight'')), ts)
             | (Some tid, ts) \<Rightarrow> (Accepted (tid, d, json_true (dget_or d ''wait'' (JBool True))), ts)))"

definition answer_waiting :: "string \<Rightarrow> json \<Rightarrow> unit http" where
  "answer_waiting tid j = send_merged 200 [(''task_id'', JStr tid)] j"

definition answer_started :: "string \<Rightarrow> unit http" where
  "answer_started tid = Answer 202 (JObj [(''task_id'', JStr tid), (''state'', JStr ''running'')])"

subsection \<open>All threads together\<close>

text \<open>
  \<open>workers\<close> are the threads inside \<open>run_to_completion\<close>, with their tasks. What the server, the clock of a thread and the parser
  do for it is an environment of its own, with the same configuration. Identifiers are fresh, as those of \<open>uuid4\<close> are expected to be.
\<close>

record dstate =
  tasks :: table
  workers :: "(string \<times> spec) list"
  clock :: flt

definition same_config :: "denv \<Rightarrow> denv \<Rightarrow> bool" where
  "same_config E F =
     (MAX_CONCURRENT_TASKS F = MAX_CONCURRENT_TASKS E \<and> TASK_DEADLINE_S F = TASK_DEADLINE_S E \<and>
      RESULT_RETENTION_S F = RESULT_RETENTION_S E \<and> NAMESPACE F = NAMESPACE E \<and> AGENT_IMAGE F = AGENT_IMAGE E)"

inductive step :: "denv \<Rightarrow> dstate \<Rightarrow> dstate \<Rightarrow> bool" for E :: denv where
  tick: "clock s \<le> t \<Longrightarrow> step E s (s\<lparr>clock := t\<rparr>)"
| accept: "post_begin E path sp (clock s) uid (tasks s) = (Accepted (tid, d, w), ts) \<Longrightarrow> uid \<notin> set (dkeys (tasks s)) \<Longrightarrow>
    step E s (s\<lparr>tasks := ts, workers := (tid, d) # workers s\<rparr>)"
| refuse: "post_begin E path sp (clock s) uid (tasks s) = (Answer code j, ts) \<Longrightarrow> step E s (s\<lparr>tasks := ts\<rparr>)"
| finish: "(tid, d) \<in> set (workers s) \<Longrightarrow> same_config E F \<Longrightarrow> run_to_completion F n tid d lg = Some (Inr j, lg') \<Longrightarrow>
    step E s (s\<lparr>tasks := finish_task tid j (clock s) (tasks s), workers := remove1 (tid, d) (workers s)\<rparr>)"
| crash: "(tid, d) \<in> set (workers s) \<Longrightarrow> same_config E F \<Longrightarrow> run_to_completion F n tid d lg = Some (Inl e, lg') \<Longrightarrow>
    step E s (s\<lparr>workers := remove1 (tid, d) (workers s)\<rparr>)"

inductive steps :: "denv \<Rightarrow> dstate \<Rightarrow> dstate \<Rightarrow> bool" for E :: denv where
  stay: "steps E s s"
| more: "steps E s t \<Longrightarrow> step E t u \<Longrightarrow> steps E s u"

definition booted :: "dstate \<Rightarrow> bool" where
  "booted s = (tasks s = [] \<and> workers s = [])"

inductive_cases stepE: "step E s t"

end
