(* ===== verification/Sandbox_Properties.thy ===== *)
theory Sandbox_Properties
  imports Sandbox_Tasks
begin

section \<open>Properties of the sandbox dispatcher\<close>

text \<open>
  The invariant of the table and the threads, by rule induction on \<open>steps\<close>: every thread holds the entry of its task as running,
  and no more tasks run than the configuration allows. The rest is about the wait of one thread: it ends, and it removes its Job.
\<close>

subsection \<open>The table\<close>

definition running_ids :: "table \<Rightarrow> string set" where
  "running_ids ts = {k. \<exists>t. dget ts k = Some t \<and> is_running t}"

definition lookup_ok :: "table \<Rightarrow> bool" where
  "lookup_ok ts = distinct (dkeys ts)"

lemma running_ids_image: "lookup_ok ts \<Longrightarrow> running_ids ts = fst ` set (filter (\<lambda>(k, t). is_running t) ts)"
  by (force simp: running_ids_def lookup_ok_def dget_def dkeys_def)

lemma finite_running_ids [simp]: "lookup_ok ts \<Longrightarrow> finite (running_ids ts)"
  by (simp add: running_ids_image)

lemma running_card: "lookup_ok ts \<Longrightarrow> running ts = int (card (running_ids ts))"
proof -
  assume ok: "lookup_ok ts"
  have "distinct (map fst (filter (\<lambda>(k, t). is_running t) ts))"
    using ok by (simp add: lookup_ok_def dkeys_def distinct_map_filter)
  then have "card (running_ids ts) = length (filter (\<lambda>(k, t). is_running t) ts)"
    by (metis distinct_card length_map list.set_map ok running_ids_image)
  also have "\<dots> = length (filter is_running (dvals ts))"
    by (simp add: dvals_def filter_map comp_def split_def)
  finally show ?thesis by (simp add: running_def)
qed

lemma fold_ddel: "fold ddel ks ts = filter (\<lambda>(k, _). k \<notin> set ks) ts"
  by (induction ks arbitrary: ts) (auto simp: ddel_def AList.delete_eq intro: filter_cong)

lemma prune_filter: "lookup_ok ts \<Longrightarrow> prune E now ts = filter (\<lambda>(_, t). \<not> is_stale E now t) ts"
  unfolding prune_def fold_ddel lookup_ok_def dkeys_def
  by (rule filter_cong) (force dest: eq_key_imp_eq_value)+

lemma lookup_ok_prune: "lookup_ok ts \<Longrightarrow> lookup_ok (prune E now ts)"
  by (simp add: prune_filter) (simp add: lookup_ok_def dkeys_def distinct_map_filter)

lemma dget_pruned:
  assumes "lookup_ok ts"
  shows "dget (prune E now ts) k = (case dget ts k of None \<Rightarrow> None | Some t \<Rightarrow> if is_stale E now t then None else Some t)"
proof -
  have "dget (filter (\<lambda>(_, t). \<not> is_stale E now t) ts) k =
    (case dget ts k of None \<Rightarrow> None | Some t \<Rightarrow> if is_stale E now t then None else Some t)"
    using assms unfolding lookup_ok_def dget_def dkeys_def
  proof (induction ts)
    case (Cons x ts)
    have "k \<notin> fst ` set ts \<Longrightarrow> map_of (filter (\<lambda>(_, t). \<not> is_stale E now t) ts) k = None"
      by (auto simp: map_of_eq_None_iff)
    then show ?case using Cons by (cases x) auto
  qed simp
  then show ?thesis by (simp add: prune_filter [OF assms])
qed

lemma lookup_ok_dset: "lookup_ok ts \<Longrightarrow> lookup_ok (dset k t ts)"
  by (simp add: lookup_ok_def dset_def dkeys_def distinct_update)

lemma dget_dset_entry: "dget (dset k t ts) j = (if j = k then Some t else dget ts j)"
  by (simp add: dget_def dset_def update_conv')

lemmas table_lookups = dget_dset_entry dget_pruned lookup_ok_dset lookup_ok_prune

lemma running_ids_prune: "lookup_ok ts \<Longrightarrow> running_ids (prune E now ts) = running_ids ts"
  by (auto simp: running_ids_def dget_pruned is_stale_def split: option.splits if_splits)

lemma running_ids_dset:
  "running_ids (dset k t ts) = (if is_running t then insert k (running_ids ts) else running_ids ts - {k})"
  by (auto simp: running_ids_def dget_dset_entry split: if_splits)

subsection \<open>The invariant\<close>

definition dispatcher_ok :: "denv \<Rightarrow> dstate \<Rightarrow> bool" where
  "dispatcher_ok E s =
     (lookup_ok (tasks s) \<and> distinct (map fst (workers s)) \<and> fst ` set (workers s) \<subseteq> running_ids (tasks s) \<and>
      running (tasks s) \<le> max 0 (MAX_CONCURRENT_TASKS E))"

lemma dispatcher_ok_booted: "booted s \<Longrightarrow> dispatcher_ok E s"
  by (simp add: booted_def dispatcher_ok_def lookup_ok_def running_def dvals_def)

text \<open>What a request may do to the table.\<close>

lemma post_begin_table:
  assumes "post_begin E path sp now uid ts = (h, ts')"
  shows "ts' = ts \<and> (\<forall>x. h \<noteq> Accepted x) \<or> ts' = prune E now ts \<and> (\<forall>x. h \<noteq> Accepted x)
    \<or> running (prune E now ts) < MAX_CONCURRENT_TASKS E \<and> ts' = dset uid \<lparr>done_with = None, finished_at = 0\<rparr> (prune E now ts) \<and>
      (\<exists>d w. h = Accepted (uid, d, w))"
  using assms
  by (auto simp: post_begin_def start_task_def Let_def split: if_splits sum.splits derr.splits option.splits prod.splits)

lemma dispatcher_ok_accept:
  assumes "dispatcher_ok E s" "post_begin E path sp (clock s) uid (tasks s) = (Accepted (tid, d, w), ts)" "uid \<notin> set (dkeys (tasks s))"
  shows "dispatcher_ok E (s\<lparr>tasks := ts, workers := (tid, d) # workers s\<rparr>)"
proof -
  let ?p = "prune E (clock s) (tasks s)"
  have ok: "lookup_ok (tasks s)" and pok: "lookup_ok ?p" using assms(1) by (simp_all add: dispatcher_ok_def lookup_ok_prune)
  have free: "uid \<notin> running_ids (tasks s)"
    using assms(3) by (force simp: running_ids_def dget_def dkeys_def dest!: map_of_SomeD)
  have ts: "ts = dset uid \<lparr>done_with = None, finished_at = 0\<rparr> ?p" "tid = uid" "running ?p < MAX_CONCURRENT_TASKS E"
    using post_begin_table [OF assms(2)] by auto
  have ids: "running_ids ts = insert uid (running_ids (tasks s))"
    by (simp add: ts running_ids_dset is_running_def running_ids_prune ok)
  have tok: "lookup_ok ts" by (simp add: ts lookup_ok_dset pok)
  have "running ts = running ?p + 1"
    using free ok by (simp add: running_card tok pok ids running_ids_prune)
  then show ?thesis
    using assms(1) free ts(2,3) tok unfolding dispatcher_ok_def by (auto simp: ids)
qed

lemma dispatcher_ok_refuse:
  assumes "dispatcher_ok E s" "post_begin E path sp (clock s) uid (tasks s) = (Answer code j, ts)"
  shows "dispatcher_ok E (s\<lparr>tasks := ts\<rparr>)"
  using post_begin_table [OF assms(2)] assms(1)
  by (auto simp: dispatcher_ok_def lookup_ok_prune running_ids_prune running_card)

lemma dispatcher_ok_finish:
  assumes "dispatcher_ok E s" "(tid, d) \<in> set (workers s)"
  shows "dispatcher_ok E (s\<lparr>tasks := finish_task tid j t (tasks s), workers := remove1 (tid, d) (workers s)\<rparr>)"
proof -
  have ok: "lookup_ok (tasks s)" "lookup_ok (finish_task tid j t (tasks s))" "distinct (map fst (workers s))"
    using assms by (simp_all add: dispatcher_ok_def finish_task_def lookup_ok_dset)
  have ids: "running_ids (finish_task tid j t (tasks s)) = running_ids (tasks s) - {tid}"
    by (simp add: finish_task_def running_ids_dset is_running_def)
  have w: "distinct (map fst (remove1 (tid, d) (workers s)))"
    using ok(3) by (metis distinct_map distinct_remove1 inj_on_subset set_remove1_subset)
  have "tid \<notin> fst ` set (remove1 (tid, d) (workers s))"
    using ok(3) assms(2) by (force simp: distinct_map inj_on_def set_remove1_eq)
  moreover have "fst ` set (remove1 (tid, d) (workers s)) \<subseteq> fst ` set (workers s)"
    using set_remove1_subset by fast
  moreover have "card (running_ids (tasks s) - {tid}) \<le> card (running_ids (tasks s))"
    using ok by (simp add: card_mono)
  ultimately show ?thesis using assms(1) ok w unfolding dispatcher_ok_def by (auto simp: running_card ids)
qed

lemma dispatcher_ok_crash:
  assumes "dispatcher_ok E s"
  shows "dispatcher_ok E (s\<lparr>workers := remove1 x (workers s)\<rparr>)"
  using assms set_remove1_subset [of x "workers s"] unfolding dispatcher_ok_def
  by (auto simp: distinct_map dest: inj_on_subset)

lemma dispatcher_ok_step: "step E s t \<Longrightarrow> dispatcher_ok E s \<Longrightarrow> dispatcher_ok E t"
proof (induction rule: step.induct)
  case (tick s t)
  then show ?case by (simp add: dispatcher_ok_def)
qed (blast intro: dispatcher_ok_accept dispatcher_ok_refuse dispatcher_ok_finish dispatcher_ok_crash)+

lemma dispatcher_ok_steps: "steps E s t \<Longrightarrow> dispatcher_ok E s \<Longrightarrow> dispatcher_ok E t"
  by (induction rule: steps.induct) (blast intro: dispatcher_ok_step)+

lemma workers_bounded:
  assumes "dispatcher_ok E s" shows "int (length (workers s)) \<le> running (tasks s)"
proof -
  have "length (workers s) = card (fst ` set (workers s))"
    using assms by (metis dispatcher_ok_def distinct_card length_map list.set_map)
  also have "\<dots> \<le> card (running_ids (tasks s))"
    using assms by (simp add: dispatcher_ok_def card_mono)
  finally show ?thesis using assms by (simp add: dispatcher_ok_def running_card)
qed

text \<open>C30: the dispatcher keeps to its capacity. However requests, results and failures interleave after it has started,
  no more threads wait for a task, and no more entries of its table count as running, than \<open>MAX_CONCURRENT_TASKS\<close>.\<close>

theorem sandbox_capacity:
  assumes "booted s" "steps E s t"
  shows "int (length (workers t)) \<le> running (tasks t) \<and> running (tasks t) \<le> max 0 (MAX_CONCURRENT_TASKS E)"
proof -
  have "dispatcher_ok E t" using dispatcher_ok_steps [OF assms(2)] dispatcher_ok_booted [OF assms(1)] by blast
  then show ?thesis using workers_bounded by (auto simp: dispatcher_ok_def)
qed

text \<open>The machine at rest, with room for two tasks.\<close>

definition sandbox_config :: denv where
  "sandbox_config =
     \<lparr>k8s_host = ''api'', k8s_port = ''443'', token_file = (\<lambda>_. Inr (Some ''t'')), server = (\<lambda>_ _ _ _. Body []),
      monotonic = (\<lambda>lg. of_nat (2 * length lg)), loads = (\<lambda>_. Inr (JObj [])), text_of = (\<lambda>_. []),
      NAMESPACE = ''ai-sandbox'', AGENT_IMAGE = ''agent:1'', REGION = ''us-east-1'', SIGV4_PROXY = ''proxy'', DEFAULT_MODEL = [],
      MAX_CONCURRENT_TASKS = 1, TASK_DEADLINE_S = 10, RESULT_RETENTION_S = 3600, SLOT_CPU = ''2'', SLOT_MEMORY = ''4Gi'',
      SLOT_DISK = ''20Gi''\<rparr>"

definition sandbox_boot :: dstate where
  "sandbox_boot = \<lparr>tasks = [], workers = [], clock = 0\<rparr>"

definition sandbox_spec :: spec where
  "sandbox_spec = [(''repo'', JStr ''r'')]"

lemma sandbox_accept:
  "steps sandbox_config sandbox_boot
     \<lparr>tasks = [(''0123456789ab'', \<lparr>done_with = None, finished_at = 0\<rparr>)], workers = [(''0123456789ab'', sandbox_spec)], clock = 0\<rparr>"
proof -
  have "step sandbox_config sandbox_boot (sandbox_boot\<lparr>tasks := [(''0123456789ab'', \<lparr>done_with = None, finished_at = 0\<rparr>)],
    workers := (''0123456789ab'', sandbox_spec) # workers sandbox_boot\<rparr>)"
    by (rule step.accept [where path = "''/run''" and sp = "Inr sandbox_spec" and uid = "''0123456789ab''" and w = True])
      (simp_all add: post_begin_def start_task_def prune_def running_def dvals_def sandbox_config_def sandbox_boot_def dset_def
        sandbox_spec_def dget_or_def dict_simps)
  from steps.more [OF steps.stay this] show ?thesis by (simp add: sandbox_boot_def)
qed

theorem sandbox_capacity_witness:
  "\<exists>t. steps sandbox_config sandbox_boot t \<and> length (workers t) = 1 \<and> running (tasks t) = 1 \<and> MAX_CONCURRENT_TASKS sandbox_config = 1"
proof -
  have "int (length (workers \<lparr>tasks = [(''0123456789ab'', \<lparr>done_with = None, finished_at = 0\<rparr>)], workers = [(''0123456789ab'', sandbox_spec)], clock = 0\<rparr>))
    \<le> running (tasks \<lparr>tasks = [(''0123456789ab'', \<lparr>done_with = None, finished_at = 0\<rparr>)], workers = [(''0123456789ab'', sandbox_spec)], clock = 0\<rparr>)"
    using sandbox_capacity [OF _ sandbox_accept] by (simp add: booted_def sandbox_boot_def)
  with sandbox_accept show ?thesis
    by (intro exI [of _ "\<lparr>tasks = [(''0123456789ab'', \<lparr>done_with = None, finished_at = 0\<rparr>)], workers = [(''0123456789ab'', sandbox_spec)], clock = 0\<rparr>"])
      (simp add: sandbox_config_def running_def dvals_def is_running_def)
qed

subsection \<open>Results\<close>

lemma clock_step: "step E s t \<Longrightarrow> clock s \<le> clock t"
  by (induction rule: step.induct) simp_all

lemma kept_by_prune:
  assumes "lookup_ok ts" "dget ts k = Some t" "fsub now (finished_at t) \<le> of_int (RESULT_RETENTION_S E)"
  shows "dget (prune E now ts) k = Some t"
  using assms by (simp add: dget_pruned is_stale_def)

lemma fsub_mono: "a \<le> b \<Longrightarrow> fsub a c \<le> fsub b c"
  by (simp add: fsub_def fl_mono)

lemma result_kept_step:
  assumes "step E s u" "dispatcher_ok E s" "dget (tasks s) k = Some t" "done_with t \<noteq> None"
    "fsub (clock u) (finished_at t) \<le> of_int (RESULT_RETENTION_S E)"
  shows "dget (tasks u) k = Some t"
  using assms
proof (cases rule: step.cases)
  case (accept path sp uid tid d w ts)
  have "k \<noteq> uid" using accept(3) assms(3) by (force simp: dget_def dkeys_def dest!: map_of_SomeD)
  moreover have "dget (prune E (clock s) (tasks s)) k = Some t"
    using kept_by_prune assms accept(1) by (simp add: dispatcher_ok_def)
  ultimately show ?thesis using post_begin_table [OF accept(2)] accept(1) by (auto simp: dget_dset_entry)
next
  case (refuse path sp uid code j ts)
  have "dget (prune E (clock s) (tasks s)) k = Some t"
    using kept_by_prune assms refuse(1) by (simp add: dispatcher_ok_def)
  then show ?thesis using post_begin_table [OF refuse(2)] refuse(1) assms(3) by auto
next
  case (finish tid d F n lg j lg')
  have "tid \<in> running_ids (tasks s)" using finish(2) assms(2) by (force simp: dispatcher_ok_def)
  then have "k \<noteq> tid" using assms(3,4) by (auto simp: running_ids_def is_running_def)
  then show ?thesis using finish(1) assms(3) by (simp add: finish_task_def dget_dset_entry)
qed simp_all

lemma result_kept:
  assumes "steps E s u" "dispatcher_ok E s" "dget (tasks s) k = Some t" "done_with t \<noteq> None"
    "fsub (clock u) (finished_at t) \<le> of_int (RESULT_RETENTION_S E)"
  shows "dget (tasks u) k = Some t"
  using assms
proof (induction rule: steps.induct)
  case (more s t' u)
  have "fsub (clock t') (finished_at t) \<le> of_int (RESULT_RETENTION_S E)"
    using fsub_mono [OF clock_step [OF more.hyps(2)], of "finished_at t"] more.prems(4) by linarith
  then have "dget (tasks t') k = Some t" by (rule more.IH [OF more.prems(1-3)])
  then show ?case
    using result_kept_step [OF more.hyps(2) dispatcher_ok_steps [OF more.hyps(1) more.prems(1)]] more.prems by blast
qed simp

text \<open>C31: a caller can fetch a result for as long as the dispatcher promises. Once a thread has finished a task with a result,
  every later \<open>GET /status\<close> of that task answers with it until more than \<open>RESULT_RETENTION_S\<close> seconds have passed, whatever
  the other requests and threads do in between.\<close>

theorem sandbox_result_kept:
  assumes "booted s0" "steps E s0 s" "(tid, d) \<in> set (workers s)" "same_config E F"
    "run_to_completion F n tid d lg = Some (Inr j, lg')" "is_task_id tid"
    "t = s\<lparr>tasks := finish_task tid j (clock s) (tasks s), workers := remove1 (tid, d) (workers s)\<rparr>"
  shows "step E s t \<and> (\<forall>u. steps E t u \<longrightarrow> fsub (clock u) (clock s) \<le> of_int (RESULT_RETENTION_S E) \<longrightarrow>
     do_GET E (''/status/'' @ tid) (tasks u) = send_merged 200 [(''state'', JStr ''done''), (''task_id'', JStr tid)] j)"
proof (intro conjI allI impI)
  show st: "step E s t" unfolding assms(7) by (rule step.finish [OF assms(3,4,5)])
  fix u assume u: "steps E t u" "fsub (clock u) (clock s) \<le> of_int (RESULT_RETENTION_S E)"
  have "dispatcher_ok E t"
    by (rule dispatcher_ok_step [OF st dispatcher_ok_steps [OF assms(2) dispatcher_ok_booted [OF assms(1)]]])
  moreover have "dget (tasks t) tid = Some \<lparr>done_with = Some j, finished_at = clock s\<rparr>"
    by (simp add: finish_task_def dget_dset_entry assms(7))
  ultimately have "dget (tasks u) tid = Some \<lparr>done_with = Some j, finished_at = clock s\<rparr>"
    using result_kept [OF u(1)] u(2) by simp
  then show "do_GET E (''/status/'' @ tid) (tasks u) = send_merged 200 [(''state'', JStr ''done''), (''task_id'', JStr tid)] j"
    using assms(6) by (simp add: do_GET_def startswith_def)
qed

lemma api_refused:
  assumes "api_base E = Inr url" "token_file E lg = Inr (Some tok)" "\<And>m p b. server E lg m p b = HttpError c d"
  shows "\<exists>msg. fst (api_request E m p b lg) = Inl (ApiErr msg)"
  using assms by (simp add: api_request_def api_text_def read_token_def)

lemma create_refused:
  assumes "create_job E tid sp lg = (Inl e, lg')" "caught_text e = Some msg"
  shows "run_to_completion E n tid sp lg = Some (Inr (errors ''dispatch'' msg), lg')"
  using assms by (simp add: run_to_completion_def dispatch_error_def)

lemma run_refused:
  assumes "api_base E = Inr url" "token_file E lg = Inr (Some tok)" "\<And>m p b. server E lg m p b = HttpError c d" "dget sp ''repo'' = Some r"
  shows "\<exists>msg lg'. run_to_completion E n tid sp lg = Some (Inr (errors ''dispatch'' msg), lg')"
proof -
  obtain j where j: "job_manifest E tid sp = Some j" using assms(4) by (simp add: job_manifest_def)
  obtain msg lg' where "api_request E ''POST'' (jobs_path E) (Some j) lg = (Inl (ApiErr msg), lg')"
    using api_refused [OF assms(1-3)] by (metis prod.collapse)
  then have "create_job E tid sp lg = (Inl (ApiErr msg), lg')" by (simp add: create_job_def j)
  then show ?thesis using create_refused by fastforce
qed

definition sandbox_refusing :: denv where
  "sandbox_refusing = sandbox_config\<lparr>server := (\<lambda>_ _ _ _. HttpError 403 ''quota'')\<rparr>"

lemma sandbox_refusing_base: "api_base sandbox_refusing = Inr ''https://api:443''"
  by (simp add: api_base_def sandbox_refusing_def sandbox_config_def startswith_def)

theorem sandbox_result_kept_witness:
  "\<exists>t j. steps sandbox_config sandbox_boot t \<and>
     do_GET sandbox_config ''/status/0123456789ab'' (tasks t) = send_merged 200 [(''state'', JStr ''done''), (''task_id'', JStr ''0123456789ab'')] j"
proof -
  let ?s = "\<lparr>tasks = [(''0123456789ab'', \<lparr>done_with = None, finished_at = 0\<rparr>)], workers = [(''0123456789ab'', sandbox_spec)], clock = 0\<rparr>"
  obtain msg lg' where r: "run_to_completion sandbox_refusing 1 ''0123456789ab'' sandbox_spec [] = Some (Inr (errors ''dispatch'' msg), lg')"
    using run_refused [OF sandbox_refusing_base, of "[]" "''t''" 403 "''quota''" sandbox_spec "JStr ''r''" 1 "''0123456789ab''"]
    by (auto simp: sandbox_refusing_def sandbox_config_def sandbox_spec_def dict_simps)
  let ?t = "?s\<lparr>tasks := finish_task ''0123456789ab'' (errors ''dispatch'' msg) (clock ?s) (tasks ?s),
    workers := remove1 (''0123456789ab'', sandbox_spec) (workers ?s)\<rparr>"
  have "step sandbox_config ?s ?t \<and> (\<forall>u. steps sandbox_config ?t u \<longrightarrow>
      fsub (clock u) (clock ?s) \<le> of_int (RESULT_RETENTION_S sandbox_config) \<longrightarrow>
      do_GET sandbox_config (''/status/'' @ ''0123456789ab'') (tasks u) =
        send_merged 200 [(''state'', JStr ''done''), (''task_id'', JStr ''0123456789ab'')] (errors ''dispatch'' msg))"
    by (rule sandbox_result_kept [OF _ sandbox_accept _ _ r _ refl])
      (simp_all add: booted_def sandbox_boot_def same_config_def is_task_id_def is_hex_def sandbox_refusing_def)
  then have t: "step sandbox_config ?s ?t" "fsub (clock ?t) (clock ?s) \<le> of_int (RESULT_RETENTION_S sandbox_config) \<longrightarrow>
      do_GET sandbox_config (''/status/'' @ ''0123456789ab'') (tasks ?t) =
        send_merged 200 [(''state'', JStr ''done''), (''task_id'', JStr ''0123456789ab'')] (errors ''dispatch'' msg)"
    using steps.stay by blast+
  have "fsub (clock ?t) (clock ?s) \<le> of_int (RESULT_RETENTION_S sandbox_config)"
    by (simp add: sandbox_config_def fsub_def)
  with t(2) have "do_GET sandbox_config ''/status/0123456789ab'' (tasks ?t) =
      send_merged 200 [(''state'', JStr ''done''), (''task_id'', JStr ''0123456789ab'')] (errors ''dispatch'' msg)" by simp
  with steps.more [OF sandbox_accept t(1)] show ?thesis by blast
qed

subsection \<open>A slot that is never given back\<close>

definition slot_lost :: "string \<Rightarrow> dstate \<Rightarrow> bool" where
  "slot_lost tid s = (tid \<in> running_ids (tasks s) \<and> tid \<notin> fst ` set (workers s))"

lemma slot_lost_step:
  assumes "step E s u" "dispatcher_ok E s" "slot_lost tid s"
  shows "slot_lost tid u"
  using assms
proof (cases rule: step.cases)
  case (accept path sp uid i d w ts)
  have "tid \<noteq> uid" using accept(3) assms(3) by (force simp: slot_lost_def running_ids_def dget_def dkeys_def dest!: map_of_SomeD)
  moreover have "tid \<in> running_ids (prune E (clock s) (tasks s))"
    using assms(2,3) by (simp add: slot_lost_def running_ids_prune dispatcher_ok_def)
  moreover have "ts = dset uid \<lparr>done_with = None, finished_at = 0\<rparr> (prune E (clock s) (tasks s))" "i = uid"
    using post_begin_table [OF accept(2)] by auto
  ultimately show ?thesis using accept(1) assms(3) by (simp add: slot_lost_def running_ids_dset)
next
  case (refuse path sp uid code j ts)
  have "tid \<in> running_ids (prune E (clock s) (tasks s))"
    using assms(2,3) by (simp add: slot_lost_def running_ids_prune dispatcher_ok_def)
  then show ?thesis using post_begin_table [OF refuse(2)] refuse(1) assms(3) by (auto simp: slot_lost_def)
next
  case (finish i d F n lg j lg')
  have "i \<noteq> tid" using finish(2) assms(3) by (force simp: slot_lost_def)
  then show ?thesis using finish(1) assms(3) set_remove1_subset [of "(i, d)" "workers s"]
    by (auto simp: slot_lost_def finish_task_def running_ids_dset image_iff dest: subsetD)
next
  case (crash i d F n lg e lg')
  then show ?thesis using assms(3) set_remove1_subset [of "(i, d)" "workers s"]
    by (auto simp: slot_lost_def image_iff dest: subsetD)
qed (simp add: slot_lost_def)

lemma slot_lost_steps: "steps E s u \<Longrightarrow> dispatcher_ok E s \<Longrightarrow> slot_lost tid s \<Longrightarrow> slot_lost tid u"
proof (induction rule: steps.induct)
  case (more s t u)
  show ?case
    by (rule slot_lost_step [OF more.hyps(2) dispatcher_ok_steps [OF more.hyps(1) more.prems(1)] more.IH [OF more.prems]])
qed simp

lemma slot_lost_crash:
  assumes "dispatcher_ok E s" "(tid, d) \<in> set (workers s)"
  shows "slot_lost tid (s\<lparr>workers := remove1 (tid, d) (workers s)\<rparr>)"
proof -
  have "tid \<notin> fst ` set (remove1 (tid, d) (workers s))"
    using assms by (force simp: dispatcher_ok_def distinct_map inj_on_def set_remove1_eq)
  moreover have "tid \<in> running_ids (tasks s)" using assms by (force simp: dispatcher_ok_def)
  ultimately show ?thesis by (simp add: slot_lost_def)
qed

text \<open>C33: an exception that leaves \<open>run_to_completion\<close> costs a slot for good. The source says that it never raises, and only
  catches \<open>ApiError\<close> and \<open>OSError\<close>; once any other exception has left it, as when the token file is missing, the task is reported as
  running for ever, no thread will finish it, and it counts against the capacity in every later state.\<close>

theorem sandbox_slot_lost:
  assumes "booted s0" "steps E s0 s" "(tid, d) \<in> set (workers s)" "same_config E F"
    "run_to_completion F n tid d lg = Some (Inl e, lg')" "is_task_id tid"
    "t = s\<lparr>workers := remove1 (tid, d) (workers s)\<rparr>"
  shows "step E s t \<and> (\<forall>u. steps E t u \<longrightarrow> int (length (workers u)) < running (tasks u) \<and>
     do_GET E (''/status/'' @ tid) (tasks u) = Answer 200 (JObj [(''state'', JStr ''running''), (''task_id'', JStr tid)]))"
proof (intro conjI allI impI)
  show st: "step E s t" unfolding assms(7) by (rule step.crash [OF assms(3,4,5)])
  have c: "dispatcher_ok E s" by (rule dispatcher_ok_steps [OF assms(2) dispatcher_ok_booted [OF assms(1)]])
  fix u assume u: "steps E t u"
  have cu: "dispatcher_ok E u" by (rule dispatcher_ok_steps [OF u dispatcher_ok_step [OF st c]])
  have lost: "slot_lost tid u"
    by (rule slot_lost_steps [OF u dispatcher_ok_step [OF st c]]) (simp add: assms(7) slot_lost_crash [OF c assms(3)])
  have "card (fst ` set (workers u)) < card (running_ids (tasks u))"
    by (rule psubset_card_mono) (use cu lost in \<open>auto simp: dispatcher_ok_def slot_lost_def\<close>)
  moreover have "length (workers u) = card (fst ` set (workers u))"
    using cu by (metis dispatcher_ok_def distinct_card length_map list.set_map)
  ultimately show "int (length (workers u)) < running (tasks u)" using cu by (simp add: running_card dispatcher_ok_def)
  show "do_GET E (''/status/'' @ tid) (tasks u) = Answer 200 (JObj [(''state'', JStr ''running''), (''task_id'', JStr tid)])"
    using lost assms(6) by (auto simp: slot_lost_def running_ids_def is_running_def do_GET_def startswith_def)
qed

lemma run_without_token:
  assumes "api_base E = Inr url" "token_file E lg = Inr None" "dget sp ''repo'' = Some r"
  shows "\<exists>msg. run_to_completion E n tid sp lg = Some (Inl (RuntimeErr msg), lg)"
  using assms
  by (simp add: run_to_completion_def create_job_def job_manifest_def api_request_def api_text_def read_token_def dispatch_error_def)

definition sandbox_unmounted :: denv where
  "sandbox_unmounted = sandbox_config\<lparr>token_file := (\<lambda>_. Inr None)\<rparr>"

theorem sandbox_slot_lost_witness:
  "\<exists>t. steps sandbox_config sandbox_boot t \<and> workers t = [] \<and> running (tasks t) = 1 \<and>
     do_GET sandbox_config ''/status/0123456789ab'' (tasks t) = Answer 200 (JObj [(''state'', JStr ''running''), (''task_id'', JStr ''0123456789ab'')])"
proof -
  let ?s = "\<lparr>tasks = [(''0123456789ab'', \<lparr>done_with = None, finished_at = 0\<rparr>)], workers = [(''0123456789ab'', sandbox_spec)], clock = 0\<rparr>"
  have b: "api_base sandbox_unmounted = Inr ''https://api:443''"
    by (simp add: api_base_def sandbox_unmounted_def sandbox_config_def startswith_def)
  obtain msg where r: "run_to_completion sandbox_unmounted 1 ''0123456789ab'' sandbox_spec [] = Some (Inl (RuntimeErr msg), [])"
    using run_without_token [OF b, of "[]" sandbox_spec "JStr ''r''" 1 "''0123456789ab''"]
    by (auto simp: sandbox_unmounted_def sandbox_config_def sandbox_spec_def dict_simps)
  let ?t = "?s\<lparr>workers := remove1 (''0123456789ab'', sandbox_spec) (workers ?s)\<rparr>"
  have "step sandbox_config ?s ?t \<and> (\<forall>u. steps sandbox_config ?t u \<longrightarrow> int (length (workers u)) < running (tasks u) \<and>
      do_GET sandbox_config (''/status/'' @ ''0123456789ab'') (tasks u) =
        Answer 200 (JObj [(''state'', JStr ''running''), (''task_id'', JStr ''0123456789ab'')]))"
    by (rule sandbox_slot_lost [OF _ sandbox_accept _ _ r _ refl])
      (simp_all add: booted_def sandbox_boot_def same_config_def is_task_id_def is_hex_def sandbox_unmounted_def)
  then have t: "step sandbox_config ?s ?t" "do_GET sandbox_config ''/status/0123456789ab'' (tasks ?t) =
      Answer 200 (JObj [(''state'', JStr ''running''), (''task_id'', JStr ''0123456789ab'')])"
    using steps.stay [of sandbox_config ?t] by (blast, metis append_Cons append_Nil)
  have "workers ?t = []" "running (tasks ?t) = 1" by (simp_all add: running_def dvals_def is_running_def)
  with t(2) steps.more [OF sandbox_accept t(1)] show ?thesis by blast
qed

subsection \<open>The wait of one thread\<close>

definition longer :: "dlog \<Rightarrow> dlog \<Rightarrow> bool" where
  "longer lg lg' = (\<exists>es. lg' = es @ lg)"

lemma longer_refl [simp]: "longer lg lg"
  by (simp add: longer_def)

lemma longer_trans [trans]: "longer a b \<Longrightarrow> longer b c \<Longrightarrow> longer a c"
  by (auto simp: longer_def)

lemma api_text_longer: "api_text E m p b lg = (r, lg') \<Longrightarrow> longer lg lg'"
  by (auto simp: api_text_def longer_def Let_def split: sum.splits reply.splits)

lemma api_request_longer: "api_request E m p b lg = (r, lg') \<Longrightarrow> longer lg lg'"
  by (auto simp: api_request_def split: sum.splits prod.splits dest: api_text_longer)

lemma create_job_longer: "create_job E tid sp lg = (r, lg') \<Longrightarrow> longer lg lg'"
  by (auto simp: create_job_def split: sum.splits prod.splits option.splits dest: api_request_longer)

lemma job_state_longer: "job_state E tid lg = (r, lg') \<Longrightarrow> longer lg lg'"
  by (auto simp: job_state_def split: sum.splits prod.splits dest: api_request_longer)

text \<open>A clock that no call turns back, and that a pause of two seconds moves on by at least one.\<close>

definition clock_runs :: "denv \<Rightarrow> bool" where
  "clock_runs E = ((\<forall>e lg. monotonic E lg \<le> monotonic E (e # lg)) \<and> (\<forall>lg. monotonic E lg + 1 \<le> monotonic E (Slept # lg)))"

lemma clock_call: "clock_runs E \<Longrightarrow> monotonic E lg \<le> monotonic E (e # lg)"
  by (simp add: clock_runs_def)

lemma clock_pause: "clock_runs E \<Longrightarrow> monotonic E lg + 1 \<le> monotonic E (Slept # lg)"
  by (simp add: clock_runs_def)

lemma clock_longer: "clock_runs E \<Longrightarrow> longer lg lg' \<Longrightarrow> monotonic E lg \<le> monotonic E lg'"
proof -
  assume c: "clock_runs E" and l: "longer lg lg'"
  have "monotonic E lg \<le> monotonic E (es @ lg)" for es
  proof (induction es)
    case (Cons e es)
    then show ?case using clock_call [OF c, of "es @ lg" e] by simp
  qed simp
  with l show ?thesis by (auto simp: longer_def)
qed

lemma poll_ends:
  assumes "clock_runs E"
  shows "deadline < monotonic E lg + of_nat n \<Longrightarrow> \<exists>x. poll E (Suc n) deadline tid lg = Some x"
proof (induction n arbitrary: lg)
  case 0
  then show ?case by simp
next
  case (Suc n)
  obtain r lg1 where js: "job_state E tid lg = (r, lg1)" by (cases "job_state E tid lg")
  have "monotonic E lg + 1 \<le> monotonic E (Slept # lg1)"
    using clock_longer [OF assms job_state_longer [OF js]] clock_pause [OF assms, of lg1] by linarith
  then have "deadline < monotonic E (Slept # lg1) + of_nat n" using Suc.prems by simp
  note IH = Suc.IH [OF this]
  show ?case
    by (subst poll.simps, unfold js)
      (use IH in \<open>auto split: sum.splits jstate.splits prod.splits derr.splits\<close>)
qed

lemma whole_seconds:
  assumes "(0 :: int) \<le> m" "m \<le> 2 ^ 50" "0 \<le> d" "d \<le> 2 ^ 50"
  shows "\<bar>m + d\<bar> \<le> 2 ^ 53" "\<bar>m + d + 6\<bar> \<le> 2 ^ 53"
  using assms by simp_all

lemma deadline_bound:
  assumes "0 \<le> monotonic E lg" "monotonic E lg \<le> 2 ^ 50" "0 \<le> TASK_DEADLINE_S E" "TASK_DEADLINE_S E \<le> 2 ^ 50"
  shows "deadline_of E lg < monotonic E lg + of_int (TASK_DEADLINE_S E) + 7"
proof -
  let ?m = "\<lceil>monotonic E lg\<rceil>" and ?D = "TASK_DEADLINE_S E"
  have "0 \<le> ?m" "?m \<le> 2 ^ 50" using assms(1,2) by (simp_all add: ceiling_le_iff)
  note m = whole_seconds [OF this assms(3,4)]
  have D: "fi ?D = of_int ?D" using assms(3,4) by (simp add: fi_def)
  have "fadd (monotonic E lg) (fi ?D) \<le> fl (of_int (?m + ?D))"
    unfolding fadd_def D by (rule fl_mono) (simp add: le_of_int_ceiling)
  also have "\<dots> = of_int (?m + ?D)" by (rule fl_of_int) (rule m)
  finally have "deadline_of E lg \<le> fl (of_int (?m + ?D + 6))"
    unfolding deadline_of_def POLL_INTERVAL_S_def by (simp add: fadd_def [of "fadd _ _"] fi_def fl_mono)
  also have "\<dots> = of_int (?m + ?D + 6)" by (rule fl_of_int) (rule m)
  finally show ?thesis using ceiling_correct [of "monotonic E lg"] by simp
qed

text \<open>C32: a caller is not kept waiting for ever. With a clock that a pause moves on by at least a second, \<open>run_to_completion\<close>
  ends after at most \<open>TASK_DEADLINE_S + 8\<close> rounds of its loop, whatever the server answers, and in spite of the rounding of the
  deadline.\<close>

theorem sandbox_wait_ends:
  assumes "clock_runs E" "0 \<le> monotonic E lg" "monotonic E lg \<le> 2 ^ 50" "0 \<le> TASK_DEADLINE_S E" "TASK_DEADLINE_S E \<le> 2 ^ 50"
  shows "\<exists>r lg'. run_to_completion E (nat (TASK_DEADLINE_S E) + 8) tid sp lg = Some (r, lg')"
proof -
  obtain c lg1 where c: "create_job E tid sp lg = (c, lg1)" by (cases "create_job E tid sp lg")
  have "deadline_of E lg < monotonic E lg1 + of_nat (nat (TASK_DEADLINE_S E) + 7)"
    using deadline_bound [OF assms(2-5)] clock_longer [OF assms(1) create_job_longer [OF c]] assms(4) by simp
  from poll_ends [OF assms(1) this, of tid] obtain x where
    "poll E (nat (TASK_DEADLINE_S E) + 8) (deadline_of E lg) tid lg1 = Some x" by (auto simp: numeral_eq_Suc)
  then show ?thesis by (auto simp: run_to_completion_def c Let_def split: sum.splits prod.splits)
qed

lemma run_of_poll:
  assumes "create_job E tid sp lg = (Inr (), lg1)" "poll E n (deadline_of E lg) tid lg1 = Some x"
  shows "\<exists>r lg'. run_to_completion E n tid sp lg = Some (r, lg')"
proof -
  obtain q lg2 where x: "x = (q, lg2)" by (cases x)
  obtain e lg3 where d: "delete_job E tid lg2 = (e, lg3)" by (cases "delete_job E tid lg2")
  show ?thesis using assms by (cases e) (simp_all add: run_to_completion_def x d)
qed

lemma sandbox_config_clock: "clock_runs sandbox_config"
  by (simp add: clock_runs_def sandbox_config_def)

theorem sandbox_wait_ends_witness:
  "\<exists>r lg'. run_to_completion sandbox_config 18 ''0123456789ab'' sandbox_spec [] = Some (r, lg')"
  using sandbox_wait_ends [OF sandbox_config_clock, of "[]" "''0123456789ab''" sandbox_spec] by (simp add: sandbox_config_def)

text \<open>The request that removes a Job.\<close>

definition deletes_job :: "denv \<Rightarrow> string \<Rightarrow> devent \<Rightarrow> bool" where
  "deletes_job E tid e =
     (case e of
        Request tok m url body r \<Rightarrow> m = ''DELETE'' \<and> (case api_base E of Inl _ \<Rightarrow> False | Inr b \<Rightarrow> url = b @ job_path E tid)
      | Slept \<Rightarrow> False)"

lemma delete_job_event:
  assumes "api_base E = Inr b" "token_file E lg = Inr (Some s)" "delete_job E tid lg = (r, lg')"
  shows "\<exists>e. lg' = e # lg \<and> deletes_job E tid e"
  using assms
  by (auto simp: delete_job_def api_request_def api_text_def read_token_def deletes_job_def Let_def split: prod.splits sum.splits reply.splits if_splits)

lemma create_job_base: "create_job E tid sp lg = (Inr x, lg') \<Longrightarrow> \<exists>b. api_base E = Inr b"
  by (auto simp: create_job_def api_request_def api_text_def split: prod.splits sum.splits option.splits)

text \<open>A Job never outlives the wait for it unnoticed. If its creation has succeeded and the token can be read, the last thing
  that \<open>run_to_completion\<close> does, on every path, is to ask for the deletion of this Job.\<close>

theorem sandbox_job_deleted:
  assumes "create_job E tid sp lg = (Inr (), lg1)" "run_to_completion E n tid sp lg = Some (r, lg')"
    "\<forall>lg. \<exists>s. token_file E lg = Inr (Some s)"
  shows "deletes_job E tid (hd lg') \<and> lg' \<noteq> []"
proof -
  obtain b where b: "api_base E = Inr b" using create_job_base [OF assms(1)] by blast
  obtain q lg2 x where p: "delete_job E tid lg2 = (x, lg')"
    using assms(1,2) by (auto simp: run_to_completion_def Let_def split: option.splits prod.splits sum.splits)
  obtain s where "token_file E lg2 = Inr (Some s)" using assms(3) by blast
  from delete_job_event [OF b this p] show ?thesis by auto
qed

theorem sandbox_job_deleted_witness:
  "\<exists>r lg'. run_to_completion sandbox_config 18 ''0123456789ab'' sandbox_spec [] = Some (r, lg') \<and>
     deletes_job sandbox_config ''0123456789ab'' (hd lg')"
proof -
  have b: "api_base sandbox_config = Inr ''https://api:443''"
    by (simp add: api_base_def sandbox_config_def startswith_def)
  have tok: "token_file sandbox_config lg = Inr (Some ''t'')" for lg by (simp add: sandbox_config_def)
  obtain j where j: "job_manifest sandbox_config ''0123456789ab'' sandbox_spec = Some j"
    by (simp add: job_manifest_def sandbox_spec_def dict_simps)
  have "\<exists>lg1. create_job sandbox_config ''0123456789ab'' sandbox_spec [] = (Inr (), lg1)"
    by (simp add: create_job_def j api_request_def api_text_def b read_token_def tok) (simp add: sandbox_config_def Let_def)
  then obtain lg1 where c: "create_job sandbox_config ''0123456789ab'' sandbox_spec [] = (Inr (), lg1)" by blast
  have "0 \<le> monotonic sandbox_config []" "monotonic sandbox_config [] \<le> 2 ^ 50" "TASK_DEADLINE_S sandbox_config = 10"
    by (simp_all add: sandbox_config_def)
  then obtain x where x: "poll sandbox_config 18 (deadline_of sandbox_config []) ''0123456789ab'' lg1 = Some x"
    using poll_ends [OF sandbox_config_clock, of "deadline_of sandbox_config []" lg1 17 "''0123456789ab''"]
      deadline_bound [of sandbox_config "[]"] clock_longer [OF sandbox_config_clock create_job_longer [OF c]]
    by (auto simp: numeral_eq_Suc)
  from run_of_poll [OF c x] obtain r lg' where
    r: "run_to_completion sandbox_config 18 ''0123456789ab'' sandbox_spec [] = Some (r, lg')" by blast
  show ?thesis using sandbox_job_deleted [OF c r] tok r by blast
qed

end
