(* ===== verification/Py_Regex.thy ===== *)
theory Py_Regex
  imports Py_Text
begin

section \<open>Regular expressions\<close>

text \<open>
  The matching of \<open>re\<close>, for the expressions without backreferences and assertions that the sources use. \<open>re_run r s\<close> lists the
  ways in which \<open>r\<close> matches a prefix of \<open>s\<close>, in the order in which Python's engine tries them, each with the texts of its
  groups and the rest of \<open>s\<close>; the first one is the match. A repetition is greedy and goes on only after a round that consumed something.
\<close>

datatype re = One "char \<Rightarrow> bool" | Eps | Seq re re | Alt re re | Star re | Grp re

fun re_star :: "nat \<Rightarrow> (string \<Rightarrow> (string list \<times> string) list) \<Rightarrow> string \<Rightarrow> (string list \<times> string) list" where
  "re_star 0 f s = [([], s)]"
| "re_star (Suc n) f s =
     concat (map (\<lambda>(c, r). if length r < length s then map (\<lambda>(d, q). (c @ d, q)) (re_star n f r) else []) (f s)) @ [([], s)]"

primrec re_run :: "re \<Rightarrow> string \<Rightarrow> (string list \<times> string) list" where
  "re_run (One p) s = (case s of [] \<Rightarrow> [] | c # r \<Rightarrow> if p c then [([], r)] else [])"
| "re_run Eps s = [([], s)]"
| "re_run (Seq a b) s = concat (map (\<lambda>(c, r). map (\<lambda>(d, q). (c @ d, q)) (re_run b r)) (re_run a s))"
| "re_run (Alt a b) s = re_run a s @ re_run b s"
| "re_run (Star a) s = re_star (length s) (re_run a) s"
| "re_run (Grp a) s = map (\<lambda>(c, r). (take (length s - length r) s # c, r)) (re_run a s)"

fun re_search :: "re \<Rightarrow> string \<Rightarrow> string list option" where
  "re_search r s =
     (case re_run r s of
        (c, _) # _ \<Rightarrow> Some c
      | [] \<Rightarrow> (case s of [] \<Rightarrow> None | _ # t \<Rightarrow> re_search r t))"

declare re_search.simps [simp del]

definition re_lit :: "string \<Rightarrow> re" where
  "re_lit s = foldr (\<lambda>c r. Seq (One (\<lambda>d. d = c)) r) s Eps"

definition re_plus :: "re \<Rightarrow> re" where
  "re_plus r = Seq r (Star r)"

fun re_alts :: "re list \<Rightarrow> re" where
  "re_alts [] = One (\<lambda>_. False)"
| "re_alts [r] = r"
| "re_alts (r # rs) = Alt r (re_alts rs)"

definition is_upper :: "char \<Rightarrow> bool" where
  "is_upper c = (let n = (of_char c :: nat) in 65 \<le> n \<and> n \<le> 90)"

definition is_letter :: "char \<Rightarrow> bool" where
  "is_letter c = (let n = (of_char c :: nat) in (65 \<le> n \<and> n \<le> 90) \<or> (97 \<le> n \<and> n \<le> 122))"

definition is_word :: "char \<Rightarrow> bool" where
  "is_word c = (is_letter c \<or> is_digit c \<or> c = CHR ''_'')"

subsection \<open>What a match consumes\<close>

text \<open>\<open>re_over P r\<close>: \<open>r\<close> only matches texts of characters in \<open>P\<close>. \<open>re_plain r\<close>: it has no groups.\<close>

primrec re_over :: "(char \<Rightarrow> bool) \<Rightarrow> re \<Rightarrow> bool" where
  "re_over P (One p) = (\<forall>c. p c \<longrightarrow> P c)"
| "re_over P Eps = True"
| "re_over P (Seq a b) = (re_over P a \<and> re_over P b)"
| "re_over P (Alt a b) = (re_over P a \<and> re_over P b)"
| "re_over P (Star a) = re_over P a"
| "re_over P (Grp a) = re_over P a"

primrec re_plain :: "re \<Rightarrow> bool" where
  "re_plain (One p) = True"
| "re_plain Eps = True"
| "re_plain (Seq a b) = (re_plain a \<and> re_plain b)"
| "re_plain (Alt a b) = (re_plain a \<and> re_plain b)"
| "re_plain (Star a) = re_plain a"
| "re_plain (Grp a) = False"

lemma re_star_over:
  assumes "\<And>s c r. (c, r) \<in> set (f s) \<Longrightarrow> \<exists>u. s = u @ r \<and> (\<forall>x \<in> set u. P x)"
  shows "(c, r) \<in> set (re_star n f s) \<Longrightarrow> \<exists>u. s = u @ r \<and> (\<forall>x \<in> set u. P x)"
proof (induction n arbitrary: s c)
  case (Suc n)
  show ?case
  proof (cases "(c, r) = ([], s)")
    case False
    then obtain c1 r1 d where x: "(c1, r1) \<in> set (f s)" "(d, r) \<in> set (re_star n f r1)"
      using Suc.prems by (auto split: if_splits)
    show ?thesis using assms [OF x(1)] Suc.IH [OF x(2)] by (metis Un_iff append.assoc set_append)
  qed simp
qed simp

lemma re_run_over: "re_over P r \<Longrightarrow> (c, q) \<in> set (re_run r s) \<Longrightarrow> \<exists>u. s = u @ q \<and> (\<forall>x \<in> set u. P x)"
proof (induction r arbitrary: s c q)
  case (Seq a b)
  obtain c1 r1 d where x: "(c1, r1) \<in> set (re_run a s)" "(d, q) \<in> set (re_run b r1)" using Seq.prems(2) by auto
  show ?case using Seq.IH(1) [OF _ x(1)] Seq.IH(2) [OF _ x(2)] Seq.prems(1) by (metis Un_iff append.assoc re_over.simps(3) set_append)
next
  case (Star a)
  show ?case by (rule re_star_over [of "re_run a" P c q]) (use Star in auto)
qed (auto split: list.splits if_splits)

lemma re_star_plain: "(\<And>s c r. (c, r) \<in> set (f s) \<Longrightarrow> c = []) \<Longrightarrow> (c, r) \<in> set (re_star n f s) \<Longrightarrow> c = []"
  by (induction n arbitrary: s c) (auto split: if_splits)

lemma re_run_plain: "re_plain r \<Longrightarrow> (c, q) \<in> set (re_run r s) \<Longrightarrow> c = []"
  by (induction r arbitrary: s c q) (auto split: list.splits if_splits dest: re_star_plain [rotated])

lemma re_run_Seq: "(c, q) \<in> set (re_run (Seq a b) s) \<longleftrightarrow>
  (\<exists>c1 r c2. (c1, r) \<in> set (re_run a s) \<and> (c2, q) \<in> set (re_run b r) \<and> c = c1 @ c2)"
proof
  assume "\<exists>c1 r c2. (c1, r) \<in> set (re_run a s) \<and> (c2, q) \<in> set (re_run b r) \<and> c = c1 @ c2"
  then obtain c1 r c2 where x: "(c1, r) \<in> set (re_run a s)" "(c2, q) \<in> set (re_run b r)" "c = c1 @ c2" by blast
  then have "(c, q) \<in> set (map (\<lambda>(d, q). (c1 @ d, q)) (re_run b r))" by force
  with x(1) show "(c, q) \<in> set (re_run (Seq a b) s)" by (auto intro!: bexI [OF _ x(1)])
qed auto

lemma re_run_Grp_over:
  assumes "re_over P a" "(c, q) \<in> set (re_run (Grp a) s)"
  shows "\<exists>u d. c = u # d \<and> s = u @ q \<and> (\<forall>x \<in> set u. P x) \<and> (d, q) \<in> set (re_run a s)"
proof -
  obtain d where d: "(d, q) \<in> set (re_run a s)" "c = take (length s - length q) s # d" using assms(2) by auto
  from re_run_over [OF assms(1) d(1)] obtain u where "s = u @ q" "\<forall>x \<in> set u. P x" by blast
  with d show ?thesis by simp
qed

text \<open>Along a sequence, a part without groups is skipped, and a group gives its text.\<close>

lemma re_skip: "(c, q) \<in> set (re_run (Seq a b) s) \<Longrightarrow> re_plain a \<Longrightarrow> \<exists>r. (c, q) \<in> set (re_run b r)"
  unfolding re_run_Seq by (force dest: re_run_plain)

lemma re_group:
  assumes "(c, q) \<in> set (re_run (Seq (Grp a) b) s)" "re_over P a" "re_plain a"
  obtains u d r where "c = u # d" "\<forall>x \<in> set u. P x" "(d, q) \<in> set (re_run b r)"
proof -
  obtain c1 r c2 where x: "(c1, r) \<in> set (re_run (Grp a) s)" "(c2, q) \<in> set (re_run b r)" "c = c1 @ c2"
    using assms(1) unfolding re_run_Seq by blast
  from re_run_Grp_over [OF assms(2) x(1)] obtain u e where u: "c1 = u # e" "\<forall>x \<in> set u. P x" "(e, r) \<in> set (re_run a s)" by blast
  have "e = []" by (rule re_run_plain [OF assms(3) u(3)])
  with x u that show thesis by simp
qed

lemma re_over_lit: "re_over P (re_lit s) \<longleftrightarrow> (\<forall>c \<in> set s. P c)"
  by (induction s) (auto simp: re_lit_def)

lemma re_plain_lit [simp]: "re_plain (re_lit s)"
  by (induction s) (simp_all add: re_lit_def)

lemma re_search_run: "re_search r s = Some c \<Longrightarrow> \<exists>t q. (c, q) \<in> set (re_run r t)"
proof (induction s)
  case Nil
  then have "(c, snd (hd (re_run r []))) \<in> set (re_run r [])"
    by (subst (asm) re_search.simps) (cases "re_run r []", auto)
  then show ?case by blast
next
  case (Cons a s)
  show ?case
  proof (cases "re_run r (a # s)")
    case Nil
    then show ?thesis using Cons by (subst (asm) (2) re_search.simps) simp
  next
    case (Cons x xs)
    then have "(c, snd x) \<in> set (re_run r (a # s))"
      using Cons.prems by (subst (asm) re_search.simps) (cases x, simp)
    then show ?thesis by blast
  qed
qed

lemma re_plus_nonempty: "(c, q) \<in> set (re_run (re_plus (One p)) s) \<Longrightarrow> length q < length s"
proof -
  assume "(c, q) \<in> set (re_run (re_plus (One p)) s)"
  then obtain x r c2 where x: "s = x # r" "(c2, q) \<in> set (re_run (Star (One p)) r)"
    unfolding re_plus_def re_run_Seq by (auto split: list.splits if_splits)
  from re_run_over [OF _ x(2), of "\<lambda>_. True"] have "length q \<le> length r" by auto
  then show ?thesis by (simp add: x(1))
qed

end
