(* ===== verification/Pypi_Wants.thy ===== *)
theory Pypi_Wants
  imports Py_Regex Py_Json
begin

section \<open>The collector of wanted wheels\<close>

text \<open>
  \<open>modules/pypi-cache/scripts/python/wants_collector.py\<close>: every cycle reads the packages out of the access logs, drops those for
  which PyPI has wheels for all targets, and uploads the rest and a cache of the dropped ones to S3. The cache is shared by all clusters.
  PyPI, S3, the directory of logs and the date are fields of \<open>wenv\<close>, and may depend on the log of events (newest first).
\<close>

subsection \<open>Lines of the access log\<close>

definition is_name_sep :: "char \<Rightarrow> bool" where
  "is_name_sep c = (c \<in> set ''-_.'')"

fun hyphens :: "bool \<Rightarrow> string \<Rightarrow> string" where
  \<comment> \<open>\<open>RE_NORMALIZE.sub\<close>; whether the last character was part of a run\<close>
  "hyphens in_run [] = []"
| "hyphens in_run (c # s) =
     (if is_name_sep c then (if in_run then [] else ''-'') @ hyphens True s else c # hyphens False s)"

definition normalize_name :: "string \<Rightarrow> string" where
  "normalize_name s = lower (hyphens False s)"

definition RE_SIMPLE :: re where
  "RE_SIMPLE = Seq (re_lit ''GET /simple/'') (Seq (Grp (re_plus (One (\<lambda>c. c \<noteq> CHR ''/'')))) (re_lit ''/''))"

definition is_name_char :: "char \<Rightarrow> bool" where
  "is_name_char c = (is_letter c \<or> is_digit c \<or> c = CHR ''_'' \<or> c = CHR ''.'' \<or> c = CHR ''-'')"

definition RE_VERSION :: re where
  "RE_VERSION =
     (let d = One is_digit; dot = re_lit ''.'' in
      Seq (re_plus d) (Seq (Star (Seq dot (re_plus d)))
        (Star (Seq dot (Seq (re_alts (map re_lit [''post'', ''dev'', ''a'', ''b'', ''rc''])) (Star d))))))"

definition RE_DOWNLOAD :: re where
  "RE_DOWNLOAD =
     Seq (re_lit ''GET /'') (Seq (re_plus (One (\<lambda>c. \<not> is_space c))) (Seq (re_lit ''/'')
       (Seq (Grp (re_plus (One is_name_char))) (Seq (re_lit ''-'') (Seq (Grp RE_VERSION)
         (Seq (re_plus (One (\<lambda>c. c = CHR ''-'' \<or> c = CHR ''.''))) (Seq (Star (One (\<lambda>c. c \<noteq> CHR ''/'')))
           (Seq (re_lit ''.'') (re_alts (map re_lit [''whl'', ''tar.gz'', ''zip'']))))))))))"

definition parse_log_line :: "string \<Rightarrow> (string \<times> string) option" where
  "parse_log_line line =
     (case re_search RE_DOWNLOAD line of
        Some cs \<Rightarrow> Some (normalize_name (cs ! 0), cs ! 1)
      | None \<Rightarrow> (case re_search RE_SIMPLE line of Some cs \<Rightarrow> Some (normalize_name (cs ! 0), '''') | None \<Rightarrow> None))"

text \<open>A file of the directory: its name, whether it is a regular file, and its lines up to the first error.\<close>

type_synonym log_file = "string \<times> bool \<times> string list"

fun parse_file :: "string list \<Rightarrow> (string \<times> string) set \<Rightarrow> (string \<times> string) set" where
  "parse_file [] rs = rs"
| "parse_file (l # ls) rs =
     (case parse_log_line l of
        Some (p, v) \<Rightarrow> parse_file ls (if v \<noteq> [] then insert (p, v) rs else rs)
      | None \<Rightarrow> parse_file ls rs)"

definition scan_logs :: "log_file list option \<Rightarrow> (string \<times> string) set" where
  \<comment> \<open>\<open>None\<close>: not a directory\<close>
  "scan_logs dir =
     (case dir of None \<Rightarrow> {}
      | Some fs \<Rightarrow> fold (\<lambda>(n, f, ls) rs. if f \<and> endswith n ''.log'' then parse_file ls rs else rs) (sorted_by fst fs) {})"

subsection \<open>Wheels on PyPI\<close>

definition build_matrix :: "string list \<Rightarrow> string list \<Rightarrow> string \<Rightarrow> string \<times> (string \<times> string) set" where
  "build_matrix versions archs manylinux =
     (join_on CHR '','' (map (\<lambda>v. ''py'' @ v) versions) @ '' '' @ join_on CHR '','' archs @ '' manylinux_'' @ manylinux,
      set (concat (map (\<lambda>v. map (\<lambda>a. (''cp'' @ filter (\<lambda>c. c \<noteq> CHR ''.'') v, a)) archs) versions)))"

text \<open>The pieces of \<open>s.split(sep)\<close> for a separator that is not empty.\<close>

fun str_split :: "string \<Rightarrow> nat \<Rightarrow> string \<Rightarrow> string \<Rightarrow> string list" where
  \<comment> \<open>how much of a separator is still to be skipped, and the current piece reversed\<close>
  "str_split sep k acc [] = [rev acc]"
| "str_split sep (Suc k) acc (c # s) = str_split sep k acc s"
| "str_split sep 0 acc (c # s) =
     (if startswith (c # s) sep then rev acc # str_split sep (length sep - 1) [] s else str_split sep 0 (c # acc) s)"

definition MANYLINUX_ALIASES :: "(string \<times> int \<times> int) list" where
  "MANYLINUX_ALIASES = [(''manylinux1'', 2, 5), (''manylinux2010'', 2, 12), (''manylinux2014'', 2, 17)]"

definition RE_MANYLINUX :: re where
  "RE_MANYLINUX =
     Seq (re_lit ''manylinux_'') (Seq (Grp (re_plus (One is_digit))) (Seq (re_lit ''_'')
       (Seq (Grp (re_plus (One is_digit))) (Seq (re_lit ''_'') (Grp (re_plus (One is_word)))))))"

fun manylinux_alias :: "(string \<times> int \<times> int) list \<Rightarrow> int \<times> int \<Rightarrow> string \<Rightarrow> (bool \<times> string) option" where
  "manylinux_alias [] target tag = None"
| "manylinux_alias ((alias, v) # as) target tag =
     (if contains_str alias tag
      then Some (v \<le> target, dropWhile (\<lambda>c. c = CHR ''_'') (last (str_split alias 0 [] tag)))
      else manylinux_alias as target tag)"

definition target_version :: "string \<Rightarrow> (int \<times> int) option" where
  "target_version t =
     (case split_on CHR ''_'' t of
        a # b # _ \<Rightarrow> (case (py_int a, py_int b) of (Some m, Some n) \<Rightarrow> Some (m, n) | _ \<Rightarrow> None)
      | _ \<Rightarrow> None)"

text \<open>\<open>None\<close> is an exception; an architecture that is empty or \<open>None\<close> is the empty text, as only its truth is tested.\<close>

definition is_manylinux_compatible :: "string \<Rightarrow> string \<Rightarrow> (bool \<times> string) option" where
  "is_manylinux_compatible tag target =
     (case target_version target of None \<Rightarrow> None
      | Some t \<Rightarrow>
         (case manylinux_alias MANYLINUX_ALIASES t tag of
            Some r \<Rightarrow> Some r
          | None \<Rightarrow>
             (case re_search RE_MANYLINUX tag of
                Some cs \<Rightarrow> Some ((digits_value (map digit_val (cs ! 0)), digits_value (map digit_val (cs ! 1))) \<le> t, cs ! 2)
              | None \<Rightarrow> Some (False, ''''))))"

definition json_text :: "json \<Rightarrow> string option" where
  "json_text j = (case j of JStr s \<Rightarrow> Some s | _ \<Rightarrow> None)"

text \<open>The file name of an entry of PyPI if it is a wheel, the empty text if it is not one.\<close>

definition wheel_name :: "json \<Rightarrow> string option option" where
  "wheel_name e =
     Option.bind (json_get e ''packagetype'' JNull) (\<lambda>p.
     if p = JStr ''bdist_wheel''
     then Option.bind (json_get e ''filename'' (JStr '''')) (\<lambda>f. map_option Some (json_text f))
     else Some None)"

fun has_pure_wheel :: "json list \<Rightarrow> bool option" where
  "has_pure_wheel [] = Some False"
| "has_pure_wheel (e # es) =
     (case wheel_name e of None \<Rightarrow> None
      | Some None \<Rightarrow> has_pure_wheel es
      | Some (Some f) \<Rightarrow> if endswith f ''-py3-none-any.whl'' \<or> contains_str ''-none-any'' f then Some True else has_pure_wheel es)"

text \<open>The targets that a wheel covers. A name that ends in \<open>.whl\<close> loses these four characters in \<open>rsplit('.', 1)\<close>.\<close>

definition wheel_covers :: "string \<Rightarrow> (string \<times> string) set \<Rightarrow> string \<Rightarrow> (string \<times> string) set option" where
  "wheel_covers target combos f =
     (let parts = if endswith f ''.whl'' then split_on CHR ''-'' (drop_end 4 f) else [] in
      if length parts < 5 then Some {}
      else map_option (\<lambda>(ok, arch).
             if \<not> ok \<or> arch = [] then {}
             else Set.filter (\<lambda>(cp, a). arch = a \<and> contains_str cp (parts ! (length parts - 3))) combos)
           (is_manylinux_compatible (last parts) target))"

fun covered_by :: "string \<Rightarrow> (string \<times> string) set \<Rightarrow> json list \<Rightarrow> (string \<times> string) set option" where
  "covered_by target combos [] = Some {}"
| "covered_by target combos (e # es) =
     (case wheel_name e of None \<Rightarrow> None
      | Some None \<Rightarrow> covered_by target combos es
      | Some (Some f) \<Rightarrow>
          (case wheel_covers target combos f of None \<Rightarrow> None
           | Some A \<Rightarrow> map_option (\<lambda>B. A \<union> B) (covered_by target combos es)))"

definition needs_build :: "(string \<Rightarrow> json option) \<Rightarrow> (string \<times> string) set \<Rightarrow> string \<Rightarrow> int \<times> string \<Rightarrow> bool option" where
  \<comment> \<open>\<open>check_pypi\<close> after the answer of PyPI\<close>
  "needs_build loads combos target ans =
     (if fst ans = 404 then Some False
      else
        Option.bind (loads (snd ans)) (\<lambda>data.
        Option.bind (json_get data ''urls'' (JArr [])) (\<lambda>u.
        Option.bind (json_list u) (\<lambda>urls.
        Option.bind (has_pure_wheel urls) (\<lambda>pure.
        if pure then Some False
        else map_option (\<lambda>A. A \<noteq> combos) (covered_by target combos urls))))))"

subsection \<open>The cycle\<close>

datatype wevent =
    Fetched string
  | Napped
  | ReadObject string
  | WroteObject string string bool
  | RemovedLog string bool

type_synonym wlog = "wevent list"

datatype s3_object = Found string | NoSuchKey | Unreachable

record wenv =
  pypi :: "wlog \<Rightarrow> string \<Rightarrow> (int \<times> string) option" \<comment> \<open>\<open>None\<close>: an exception\<close>
  wjson :: "string \<Rightarrow> json option"
  s3_get :: "wlog \<Rightarrow> string \<Rightarrow> s3_object"
  s3_put :: "wlog \<Rightarrow> string \<Rightarrow> bool"
  log_dir :: "wlog \<Rightarrow> log_file list option"
  unlinks :: "wlog \<Rightarrow> string \<Rightarrow> bool"
  today :: "wlog \<Rightarrow> int"
  iso_date :: "string \<Rightarrow> int option"

record wargs =
  cluster_id :: string
  target_python :: string
  target_arch :: string
  target_manylinux :: string
  max_log_age_days :: int

definition check_pypi :: "wenv \<Rightarrow> (string \<times> string) set \<Rightarrow> string \<Rightarrow> string \<Rightarrow> string \<Rightarrow> wlog \<Rightarrow> bool option \<times> wlog" where
  "check_pypi E combos target package version lg =
     (let url = ''https://pypi.org/pypi/'' @ package @ ''/'' @ version @ ''/json'' in
      (Option.bind (pypi E lg url) (needs_build (wjson E) combos target), Fetched url # lg))"

definition entry_of :: "string \<times> string \<Rightarrow> string" where
  "entry_of x = fst x @ ''=='' @ snd x"

fun filter_loop :: "wenv \<Rightarrow> (string \<times> string) set \<Rightarrow> string \<Rightarrow> string set \<Rightarrow> (string \<times> string) list \<Rightarrow> nat \<Rightarrow> string set \<Rightarrow> string set
    \<Rightarrow> wlog \<Rightarrow> (string set \<times> string set) option \<times> wlog" where
  "filter_loop E combos target needbuild [] checked wants prebuilt lg = (Some (wants, prebuilt), lg)"
| "filter_loop E combos target needbuild ((pkg, ver) # xs) checked wants prebuilt lg =
     (let entry = entry_of (pkg, ver) in
      if pkg \<in> needbuild then filter_loop E combos target needbuild xs checked (insert entry wants) prebuilt lg
      else if entry \<in> prebuilt then filter_loop E combos target needbuild xs checked wants prebuilt lg
      else
        (case check_pypi E combos target pkg ver (if checked > 0 then Napped # lg else lg) of
           (None, lg) \<Rightarrow> (None, lg)
         | (Some True, lg) \<Rightarrow> filter_loop E combos target needbuild xs (Suc checked) (insert entry wants) prebuilt lg
         | (Some False, lg) \<Rightarrow> filter_loop E combos target needbuild xs (Suc checked) wants (insert entry prebuilt) lg))"

definition filter_packages :: "wenv \<Rightarrow> (string \<times> string) set \<Rightarrow> (string \<times> string) set \<Rightarrow> string \<Rightarrow> string set \<Rightarrow> string set \<Rightarrow> wlog
    \<Rightarrow> (string set \<times> string set) option \<times> wlog" where
  "filter_packages E packages combos target prebuilt needbuild lg =
     filter_loop E combos target needbuild (sorted_list_of_set packages) 0 {} prebuilt lg"

definition format_wants :: "string set \<Rightarrow> string" where
  "format_wants A = (if A = {} then '''' else join_on CHR 0x0A (sorted_set A) @ [CHR 0x0A])"

definition parse_prebuilt_cache :: "string option \<Rightarrow> string \<Rightarrow> string set" where
  "parse_prebuilt_cache content header =
     (case content of None \<Rightarrow> {}
      | Some s \<Rightarrow>
         (case splitlines (strip s) of [] \<Rightarrow> {}
          | l # ls \<Rightarrow>
             if \<not> startswith l ''# matrix: '' then {}
             else if drop (length ''# matrix: '') l \<noteq> header then {}
             else set (filter (\<lambda>x. x \<noteq> []) (map strip ls))))"

definition parse_needbuild :: "string option \<Rightarrow> string set" where
  "parse_needbuild content =
     (case content of None \<Rightarrow> {}
      | Some s \<Rightarrow> set (map normalize_name (filter (\<lambda>x. x \<noteq> [] \<and> \<not> startswith x ''#'') (map strip (splitlines (strip s))))))"

definition format_prebuilt_cache :: "string \<Rightarrow> string set \<Rightarrow> string" where
  "format_prebuilt_cache header A = join_on CHR 0x0A ((''# matrix: '' @ header) # sorted_set A) @ [CHR 0x0A]"

text \<open>A file of the log that is older than the limit; other names are left alone.\<close>

definition old_log :: "wenv \<Rightarrow> int \<Rightarrow> log_file \<Rightarrow> bool" where
  "old_log E cutoff x =
     (case x of (n, f, _) \<Rightarrow>
        f \<and> startswith n ''fallback.'' \<and> endswith n ''.log'' \<and>
        (case iso_date E (drop (length ''fallback.'') (drop_end (length ''.log'') n)) of None \<Rightarrow> False | Some d \<Rightarrow> d < cutoff))"

definition cleanup_fallback_logs :: "wenv \<Rightarrow> int \<Rightarrow> wlog \<Rightarrow> wlog" where
  "cleanup_fallback_logs E max_age lg =
     (case log_dir E lg of None \<Rightarrow> lg
      | Some fs \<Rightarrow>
         let cutoff = today E lg - max_age in
         fold (\<lambda>(n, _) lg. RemovedLog n (unlinks E lg n) # lg) (filter (old_log E cutoff) (sorted_by fst fs)) lg)"

text \<open>\<open>NoSuchKey\<close> is \<open>None\<close> in the source; any other failure leaves the loop.\<close>

definition download_from_s3 :: "wenv \<Rightarrow> string \<Rightarrow> wlog \<Rightarrow> string option option \<times> wlog" where
  "download_from_s3 E key lg =
     (case s3_get E lg key of Found s \<Rightarrow> Some (Some s) | NoSuchKey \<Rightarrow> Some None | Unreachable \<Rightarrow> None, ReadObject key # lg)"

definition upload_to_s3 :: "wenv \<Rightarrow> string \<Rightarrow> string \<Rightarrow> wlog \<Rightarrow> bool \<times> wlog" where
  "upload_to_s3 E content key lg = (s3_put E lg key, WroteObject key content (s3_put E lg key) # lg)"

datatype cycle_end = NoPackages | CheckFailed | Uploaded | Crashed

definition collect :: "wenv \<Rightarrow> wargs \<Rightarrow> wlog \<Rightarrow> cycle_end \<times> wlog" where
  \<comment> \<open>one round of the loop of \<open>run\<close>, without the pause at its end\<close>
  "collect E args lg =
     (let (header, combos) = build_matrix (split_on CHR '','' (target_python args)) (split_on CHR '','' (target_arch args)) (target_manylinux args);
          packages = scan_logs (log_dir E lg) in
      if packages = {} then (NoPackages, lg)
      else
        (case download_from_s3 E ''prebuilt-cache.txt'' lg of
           (None, lg) \<Rightarrow> (Crashed, lg)
         | (Some cache, lg) \<Rightarrow>
            (case download_from_s3 E ''needbuild.txt'' lg of
               (None, lg) \<Rightarrow> (Crashed, lg)
             | (Some nb, lg) \<Rightarrow>
                (case filter_packages E packages combos (target_manylinux args) (parse_prebuilt_cache cache header) (parse_needbuild nb) lg of
                   (None, lg) \<Rightarrow> (CheckFailed, lg)
                 | (Some (wants, prebuilt), lg) \<Rightarrow>
                    (case upload_to_s3 E (format_wants wants) (''wants/'' @ cluster_id args @ ''.txt'') lg of
                       (False, lg) \<Rightarrow> (Crashed, lg)
                     | (True, lg) \<Rightarrow>
                        (case upload_to_s3 E (format_prebuilt_cache header prebuilt) ''prebuilt-cache.txt'' lg of
                           (False, lg) \<Rightarrow> (Crashed, lg)
                         | (True, lg) \<Rightarrow> (Uploaded, cleanup_fallback_logs E (max_log_age_days args) lg)))))))"

end
