(* ===== verification/Pypi_Properties.thy ===== *)
theory Pypi_Properties
  imports Pypi_Wants
begin

section \<open>Properties of the collector of wanted wheels\<close>

text \<open>
  Names are normalised once and for all, the cache that a cycle uploads is the one that the next cycle reads, and the lists of a
  cycle are exactly the packages for which PyPI gave the reason.
\<close>

subsection \<open>Names\<close>

lemma char_code: "c = d \<longleftrightarrow> (of_char c :: nat) = of_char d"
  by simp

lemma is_name_sep_code: "is_name_sep c \<longleftrightarrow> (of_char c :: nat) \<in> {45, 95, 46}"
  by (simp add: is_name_sep_def char_code [of c] del: of_char_eq_iff)

lemma lower_char_code: "(of_char (lower_char c) :: nat) = (if 65 \<le> (of_char c :: nat) \<and> (of_char c :: nat) \<le> 90 then of_char c + 32 else of_char c)"
  by (simp add: lower_char_def)

lemma is_name_sep_lower [simp]: "is_name_sep (lower_char c) = is_name_sep c"
  by (simp add: is_name_sep_code lower_char_code)

lemma lower_char_idem [simp]: "lower_char (lower_char c) = lower_char c"
  unfolding lower_char_def [of "lower_char c"] lower_char_code by auto

lemma lower_char_sep: "is_name_sep c \<Longrightarrow> lower_char c = c"
  by (auto simp: is_name_sep_code lower_char_def)

lemma hyphens_lower: "hyphens b (lower s) = lower (hyphens b s)"
  by (induction b s rule: hyphens.induct) (simp_all add: lower_def lower_char_sep [of "CHR ''-''"] is_name_sep_def [of "CHR ''-''"])

lemma hyphens_idem: "hyphens b (hyphens b s) = hyphens b s"
  by (induction b s rule: hyphens.induct) (simp_all add: is_name_sep_def)

text \<open>The normal form of a package name is stable. Normalising a normalised name changes nothing, so that the names of the
  access logs and of \<open>needbuild.txt\<close>, which are normalised apart, can be compared as texts.\<close>

theorem normalize_name_idem: "normalize_name (normalize_name s) = normalize_name s"
  by (simp add: normalize_name_def hyphens_lower hyphens_idem) (simp add: lower_def)

subsection \<open>Texts without spaces\<close>

lemma is_eol_space: "is_eol c \<Longrightarrow> is_space c"
  by (auto simp: is_eol_def is_space_def Let_def)

definition tidy :: "string \<Rightarrow> bool" where
  \<comment> \<open>a line that stripping leaves alone\<close>
  "tidy l = (l \<noteq> [] \<and> \<not> is_space (hd l) \<and> \<not> is_space (last l) \<and> (\<forall>c \<in> set l. \<not> is_eol c))"

lemma strip_tidy: "tidy l \<Longrightarrow> strip l = l"
  by (simp add: tidy_def strip_no_space)

lemma dropWhile_hd: "dropWhile P s \<noteq> [] \<Longrightarrow> \<not> P (hd (dropWhile P s))"
  by (rule hd_dropWhile)

lemma tidy_strip: "strip s \<noteq> [] \<Longrightarrow> \<forall>c \<in> set s. \<not> is_eol c \<Longrightarrow> tidy (strip s)"
proof -
  assume ne: "strip s \<noteq> []" and eol: "\<forall>c \<in> set s. \<not> is_eol c"
  let ?u = "dropWhile is_space s"
  obtain v where v: "?u = strip s @ v" unfolding strip_def by (metis rev_append rev_rev_ident takeWhile_dropWhile_id)
  have "\<not> is_space (hd ?u)" using ne v by (intro hd_dropWhile) auto
  moreover have "\<not> is_space (last (strip s))"
    using ne unfolding strip_def by (simp add: last_rev hd_dropWhile)
  moreover have "set (strip s) \<subseteq> set s" using v set_dropWhileD [of _ is_space s] by (metis Un_iff set_append subsetI)
  ultimately show ?thesis using ne eol v by (auto simp: tidy_def)
qed

lemma lines_from_tail: "\<forall>c \<in> set l. \<not> is_eol c \<Longrightarrow> lines_from acc l = (if rev acc @ l = [] then [] else [rev acc @ l])"
proof (induction l arbitrary: acc)
  case (Cons c l)
  have "\<not> is_eol c" "c \<noteq> CHR 0x0D" using Cons.prems by (auto simp: is_eol_def)
  then show ?case using Cons by (cases l) simp_all
qed simp

lemma splitlines_join_on:
  assumes "\<forall>l \<in> set ls. \<forall>c \<in> set l. \<not> is_eol c" "ls \<noteq> []" "last ls \<noteq> []"
  shows "splitlines (join_on CHR 0x0A ls) = ls"
  using assms
proof (induction "CHR 0x0A" ls rule: join_on.induct)
  case (3 p q ps)
  then show ?case by (simp add: splitlines_def lines_from_plain)
qed (simp_all add: splitlines_def lines_from_tail)

lemma lines_from_no_eol: "\<forall>c \<in> set acc. \<not> is_eol c \<Longrightarrow> l \<in> set (lines_from acc s) \<Longrightarrow> \<forall>c \<in> set l. \<not> is_eol c"
proof (induction acc s arbitrary: l rule: lines_from.induct)
  case (3 acc c d s)
  show ?case
  proof (cases "c = CHR 0x0D \<and> d = CHR 0x0A")
    case True
    then have "l = rev acc \<or> l \<in> set (lines_from [] s)" using "3.prems"(2) by (simp only: lines_from.simps) simp
    then show ?thesis
    proof
      assume "l \<in> set (lines_from [] s)"
      with "3.IH"(1) [OF True] show ?thesis by simp
    qed (use "3.prems"(1) in simp)
  next
    case False
    then have l: "l \<in> set (if is_eol c then rev acc # lines_from [] (d # s) else lines_from (c # acc) (d # s))"
      using "3.prems"(2) by (simp only: lines_from.simps if_False)
    show ?thesis
    proof (cases "is_eol c")
      case True
      then have "l = rev acc \<or> l \<in> set (lines_from [] (d # s))" using l by (simp only: if_True set_simps insert_iff)
      then show ?thesis
      proof
        assume "l \<in> set (lines_from [] (d # s))"
        then show ?thesis by (rule "3.IH"(2) [OF False True, rotated]) simp
      qed (use "3.prems"(1) in simp)
    next
      case plain: False
      then have "l \<in> set (lines_from (c # acc) (d # s))" using l by (simp only: if_False)
      moreover have "\<forall>x \<in> set (c # acc). \<not> is_eol x" using "3.prems"(1) plain by simp
      ultimately show ?thesis using "3.IH"(3) [OF False plain] by blast
    qed
  qed
qed (simp_all split: if_splits)

subsection \<open>Entries\<close>

definition no_space :: "string \<Rightarrow> bool" where
  "no_space s = (\<forall>c \<in> set s. \<not> is_space c)"

lemma tidy_no_space: "s \<noteq> [] \<Longrightarrow> no_space s \<Longrightarrow> tidy s"
  by (auto simp: no_space_def tidy_def dest: is_eol_space)

definition is_entry_char :: "char \<Rightarrow> bool" where
  "is_entry_char c = (\<not> is_space c \<and> c \<noteq> CHR ''='')"

lemma name_char_entry: "is_name_char c \<Longrightarrow> is_entry_char c"
  by (auto simp: is_name_char_def is_entry_char_def is_letter_def is_digit_def is_space_def Let_def)

lemma is_entry_char_lower: "is_entry_char c \<Longrightarrow> is_entry_char (lower_char c)"
  by (auto simp: is_entry_char_def is_space_def char_code [of _ "CHR ''=''"] lower_char_code simp del: of_char_eq_iff)

lemma set_hyphens: "c \<in> set (hyphens b s) \<Longrightarrow> c \<in> set s \<or> c = CHR ''-''"
  by (induction b s rule: hyphens.induct) (auto split: if_splits)

lemma normalize_entry_chars: "\<forall>c \<in> set s. is_entry_char c \<Longrightarrow> \<forall>c \<in> set (normalize_name s). is_entry_char c"
proof -
  have "is_entry_char CHR ''-''" by (simp add: is_entry_char_def is_space_def)
  then show "\<forall>c \<in> set s. is_entry_char c \<Longrightarrow> ?thesis"
    by (auto simp: normalize_name_def lower_def dest!: set_hyphens intro: is_entry_char_lower)
qed

lemma re_over_version: "re_over is_entry_char RE_VERSION"
  by (auto simp: RE_VERSION_def Let_def re_plus_def re_over_lit is_entry_char_def is_space_def is_digit_def)

lemma re_over_name: "re_over is_entry_char (re_plus (One is_name_char))"
  by (simp add: re_plus_def name_char_entry)

lemma re_plain_version: "re_plain RE_VERSION"
  by (simp add: RE_VERSION_def Let_def re_plus_def)

lemma re_plain_plus: "re_plain (re_plus (One p))"
  by (simp add: re_plus_def)

lemma download_groups:
  assumes "re_search RE_DOWNLOAD line = Some cs"
  obtains u v where "cs = [u, v]" "\<forall>c \<in> set u. is_entry_char c" "\<forall>c \<in> set v. is_entry_char c"
proof -
  obtain t q where m: "(cs, q) \<in> set (re_run RE_DOWNLOAD t)" using re_search_run [OF assms] by blast
  obtain t1 where m1: "(cs, q) \<in> set (re_run (Seq (Grp (re_plus (One is_name_char))) (Seq (re_lit ''-'') (Seq (Grp RE_VERSION)
         (Seq (re_plus (One (\<lambda>c. c = CHR ''-'' \<or> c = CHR ''.''))) (Seq (Star (One (\<lambda>c. c \<noteq> CHR ''/'')))
           (Seq (re_lit ''.'') (re_alts (map re_lit [''whl'', ''tar.gz'', ''zip'']))))))))  t1)"
    using m unfolding RE_DOWNLOAD_def by (blast dest: re_skip [OF _ re_plain_lit] re_skip [OF _ re_plain_plus])
  obtain u d r where u: "cs = u # d" "\<forall>c \<in> set u. is_entry_char c" "(d, q) \<in> set (re_run (Seq (re_lit ''-'') (Seq (Grp RE_VERSION)
         (Seq (re_plus (One (\<lambda>c. c = CHR ''-'' \<or> c = CHR ''.''))) (Seq (Star (One (\<lambda>c. c \<noteq> CHR ''/'')))
           (Seq (re_lit ''.'') (re_alts (map re_lit [''whl'', ''tar.gz'', ''zip'']))))))) r)"
    by (rule re_group [OF m1 re_over_name re_plain_plus])
  obtain t2 where m2: "(d, q) \<in> set (re_run (Seq (Grp RE_VERSION)
         (Seq (re_plus (One (\<lambda>c. c = CHR ''-'' \<or> c = CHR ''.''))) (Seq (Star (One (\<lambda>c. c \<noteq> CHR ''/'')))
           (Seq (re_lit ''.'') (re_alts (map re_lit [''whl'', ''tar.gz'', ''zip'']))))))  t2)"
    using re_skip [OF u(3) re_plain_lit] by blast
  obtain v e r2 where v: "d = v # e" "\<forall>c \<in> set v. is_entry_char c" "(e, q) \<in> set (re_run
         (Seq (re_plus (One (\<lambda>c. c = CHR ''-'' \<or> c = CHR ''.''))) (Seq (Star (One (\<lambda>c. c \<noteq> CHR ''/'')))
           (Seq (re_lit ''.'') (re_alts (map re_lit [''whl'', ''tar.gz'', ''zip'']))))) r2)"
    by (rule re_group [OF m2 re_over_version re_plain_version])
  have "e = []" by (rule re_run_plain [OF _ v(3)]) (simp add: re_plus_def)
  with that u(1,2) v(1,2) show thesis by simp
qed

lemma parse_log_line_chars:
  assumes "parse_log_line line = Some (p, v)" "v \<noteq> []"
  shows "\<forall>c \<in> set p. is_entry_char c" "\<forall>c \<in> set v. is_entry_char c"
proof -
  obtain cs where cs: "re_search RE_DOWNLOAD line = Some cs" "p = normalize_name (cs ! 0)" "v = cs ! 1"
    using assms by (auto simp: parse_log_line_def split: option.splits)
  obtain a b where "cs = [a, b]" "\<forall>c \<in> set a. is_entry_char c" "\<forall>c \<in> set b. is_entry_char c"
    by (rule download_groups [OF cs(1)])
  then show "\<forall>c \<in> set p. is_entry_char c" "\<forall>c \<in> set v. is_entry_char c"
    using cs(2,3) normalize_entry_chars by auto
qed

definition good_package :: "string \<times> string \<Rightarrow> bool" where
  "good_package x = ((\<forall>c \<in> set (fst x). is_entry_char c) \<and> (\<forall>c \<in> set (snd x). is_entry_char c))"

definition good_packages :: "(string \<times> string) set \<Rightarrow> bool" where
  "good_packages A = (finite A \<and> (\<forall>x \<in> A. good_package x))"

lemma parse_file_good: "good_packages rs \<Longrightarrow> good_packages (parse_file ls rs)"
proof (induction ls rs rule: parse_file.induct)
  case (2 l ls rs)
  show ?case
  proof (cases "parse_log_line l")
    case None
    then show ?thesis using 2 by simp
  next
    case (Some x)
    obtain p v where x: "x = (p, v)" by (cases x)
    have "good_packages (if v \<noteq> [] then insert (p, v) rs else rs)"
    proof (cases "v = []")
      case False
      have "good_package (p, v)"
        using parse_log_line_chars [OF Some [unfolded x] False] unfolding good_package_def fst_conv snd_conv by (rule conjI)
      with 2(3) False show ?thesis unfolding good_packages_def by simp
    qed (use 2(3) in simp)
    from "2.IH"(2) [OF Some x [symmetric] this] show ?thesis by (simp add: Some x)
  qed
qed simp

lemma scan_logs_good: "good_packages (scan_logs dir)"
proof -
  have "good_packages (fold (\<lambda>(n, f, ls) rs. if f \<and> endswith n ''.log'' then parse_file ls rs else rs) xs {})" for xs
    by (rule fold_inv) (auto simp: good_packages_def [of "{}"] intro: parse_file_good)
  then show ?thesis unfolding scan_logs_def by (cases dir) (simp_all add: good_packages_def [of "{}"])
qed

lemma tidy_entry: "good_package x \<Longrightarrow> tidy (entry_of x)"
proof (rule tidy_no_space)
  assume g: "good_package x"
  have "\<not> is_space CHR ''=''" by (simp add: is_space_def)
  then show "no_space (entry_of x)"
    using g by (simp add: entry_of_def no_space_def good_package_def is_entry_char_def ball_Un)
qed (simp add: entry_of_def)

lemma entry_of_inj: "inj_on entry_of {x. good_package x}"
proof (rule inj_onI)
  fix x y assume g: "x \<in> {x. good_package x}" "y \<in> {x. good_package x}" and e: "entry_of x = entry_of y"
  have no: "\<forall>c \<in> set (fst z). c \<noteq> CHR ''=''" if "good_package z" for z
    using that by (auto simp: good_package_def is_entry_char_def)
  have split: "takeWhile (\<lambda>c. c \<noteq> CHR ''='') (entry_of z) = fst z \<and> dropWhile (\<lambda>c. c \<noteq> CHR ''='') (entry_of z) = ''=='' @ snd z"
    if "good_package z" for z
    using no [OF that] by (simp add: entry_of_def takeWhile_append2 dropWhile_append2)
  have "fst x = fst y" "''=='' @ snd x = ''=='' @ snd y" using split [of x] split [of y] g e by simp_all
  then show "x = y" by (simp add: prod_eq_iff)
qed

subsection \<open>The shared cache\<close>

lemma filter_loop_prebuilt:
  "filter_loop E combos target nb xs n w p lg = (Some (w', p'), lg') \<Longrightarrow> p \<subseteq> p' \<and> p' \<subseteq> p \<union> entry_of ` set xs"
proof (induction E combos target nb xs n w p lg rule: filter_loop.induct)
  case (2 E combos target nb pkg ver xs n w p lg)
  then show ?case
    by (auto simp: Let_def split: if_splits option.splits bool.splits prod.splits) (blast | fastforce)+
qed simp

lemma filter_packages_prebuilt:
  "filter_packages E packages combos target p nb lg = (Some (w', p'), lg') \<Longrightarrow> finite packages \<Longrightarrow>
    p \<subseteq> p' \<and> p' \<subseteq> p \<union> entry_of ` packages"
  unfolding filter_packages_def using filter_loop_prebuilt by fastforce

lemma parse_prebuilt_tidy: "finite (parse_prebuilt_cache content header) \<and> (\<forall>l \<in> parse_prebuilt_cache content header. tidy l)"
proof -
  have "tidy (strip l)" if "l \<in> set (splitlines s)" "strip l \<noteq> []" for l s
    using tidy_strip [OF that(2)] lines_from_no_eol [of "[]" l s] that(1) by (simp add: splitlines_def)
  then show ?thesis
    unfolding parse_prebuilt_cache_def by (auto split: option.splits list.splits) (metis list.set_intros(2))
qed

lemma strip_newline: "s \<noteq> [] \<Longrightarrow> \<not> is_space (hd s) \<Longrightarrow> \<not> is_space (last s) \<Longrightarrow> strip (s @ [CHR 0x0A]) = s"
proof -
  assume s: "s \<noteq> []" "\<not> is_space (hd s)" "\<not> is_space (last s)"
  have "is_space CHR 0x0A" by (simp add: is_space_def)
  moreover have "dropWhile is_space (rev s) = rev s" using s by (simp add: dropWhile_eq_self_iff hd_rev)
  moreover have "dropWhile is_space (s @ [CHR 0x0A]) = s @ [CHR 0x0A]" using s by (cases s) simp_all
  ultimately show ?thesis by (simp add: strip_def)
qed

lemma join_on_last: "ls \<noteq> [] \<Longrightarrow> last ls \<noteq> [] \<Longrightarrow> join_on c ls \<noteq> [] \<and> last (join_on c ls) = last (last ls)"
  by (induction c ls rule: join_on.induct) (simp_all add: last_append)

lemma join_on_hd: "p \<noteq> [] \<Longrightarrow> hd (join_on c (p # ls)) = hd p"
  by (cases ls) simp_all

lemma prebuilt_cache_parsed:
  assumes "finite A" "\<forall>l \<in> A. tidy l" "header \<noteq> []" "\<not> is_space (last header)" "\<forall>c \<in> set header. \<not> is_eol c"
  shows "parse_prebuilt_cache (Some (format_prebuilt_cache header A)) header = A"
proof -
  let ?ls = "(''# matrix: '' @ header) # sorted_set A"
  have els: "set (sorted_set A) = A" using assms(1) by (simp add: sorted_set_def)
  have last: "tidy (last (sorted_set A))" if "sorted_set A \<noteq> []" using assms(2) els that by (metis last_in_set)
  have ends: "last ?ls \<noteq> [] \<and> \<not> is_space (last (last ?ls))"
    using last assms(3,4) by (cases "sorted_set A = []") (auto simp: tidy_def)
  have lines: "\<forall>l \<in> set ?ls. \<forall>c \<in> set l. \<not> is_eol c"
    using assms(2,5) els by (auto simp: tidy_def is_eol_def)
  have "strip (join_on CHR 0x0A ?ls @ [CHR 0x0A]) = join_on CHR 0x0A ?ls"
    by (rule strip_newline) (use join_on_last [of ?ls "CHR 0x0A"] ends in \<open>simp_all add: join_on_hd is_space_def\<close>)
  moreover have "splitlines (join_on CHR 0x0A ?ls) = ?ls" by (rule splitlines_join_on) (use lines ends in auto)
  moreover have "map strip (sorted_set A) = sorted_set A" by (rule map_idI) (use assms(2) els in \<open>simp add: strip_tidy\<close>)
  moreover have "filter (\<lambda>x. x \<noteq> []) (sorted_set A) = sorted_set A" using assms(2) els by (simp add: filter_id_conv tidy_def)
  ultimately show ?thesis
    using els by (simp add: parse_prebuilt_cache_def format_prebuilt_cache_def startswith_def flip: set_map set_filter)
qed

text \<open>C35: the shared cache survives a cycle. Let a cycle filter the packages of its access logs with the cache that it has read. Then
  the text that it uploads is read back, by the next cycle of any cluster with the same targets, as exactly the cache that this cycle
  computed, and that cache keeps every entry of the old one. The names and versions that the log lines can contain never break the format.\<close>

theorem prebuilt_cache_roundtrip:
  assumes "filter_packages E (scan_logs dir) combos target (parse_prebuilt_cache content header) needbuild lg = (Some (wants, prebuilt), lg')"
    "header \<noteq> []" "\<not> is_space (last header)" "\<forall>c \<in> set header. \<not> is_eol c"
  shows "parse_prebuilt_cache (Some (format_prebuilt_cache header prebuilt)) header = prebuilt \<and>
    parse_prebuilt_cache content header \<subseteq> prebuilt"
proof -
  have g: "good_packages (scan_logs dir)" by (rule scan_logs_good)
  have p: "parse_prebuilt_cache content header \<subseteq> prebuilt" "prebuilt \<subseteq> parse_prebuilt_cache content header \<union> entry_of ` scan_logs dir"
    using filter_packages_prebuilt [OF assms(1)] g by (auto simp: good_packages_def)
  have old: "finite (parse_prebuilt_cache content header)" "\<forall>l \<in> parse_prebuilt_cache content header. tidy l"
    using parse_prebuilt_tidy by blast+
  have "finite prebuilt" using finite_subset [OF p(2)] old(1) g by (simp add: good_packages_def)
  moreover have "\<forall>l \<in> prebuilt. tidy l" using p(2) old(2) g tidy_entry by (force simp: good_packages_def)
  ultimately show ?thesis using prebuilt_cache_parsed assms(2-4) p(1) by simp
qed

definition pypi_example :: wenv where
  "pypi_example =
     \<lparr>pypi = (\<lambda>_ _. Some (404, [])), wjson = (\<lambda>_. None), s3_get = (\<lambda>_ _. NoSuchKey), s3_put = (\<lambda>_ _. True), log_dir = (\<lambda>_. None),
      unlinks = (\<lambda>_ _. True), today = (\<lambda>_. 0), iso_date = (\<lambda>_. None)\<rparr>"

theorem prebuilt_cache_roundtrip_witness:
  "parse_prebuilt_cache (Some (format_prebuilt_cache ''py3.12 x86_64 manylinux_2_17'' {''six==1.0''})) ''py3.12 x86_64 manylinux_2_17'' = {''six==1.0''}"
proof -
  let ?h = "''py3.12 x86_64 manylinux_2_17''"
  have c: "parse_prebuilt_cache (Some (format_prebuilt_cache ?h {''six==1.0''})) ?h = {''six==1.0''}"
    by (rule prebuilt_cache_parsed) (simp_all add: tidy_def is_space_def is_eol_def)
  have "filter_packages pypi_example (scan_logs None) {} ''2_17''
      (parse_prebuilt_cache (Some (format_prebuilt_cache ?h {''six==1.0''})) ?h) {} [] = (Some ({}, {''six==1.0''}), [])"
    unfolding c by (simp add: filter_packages_def scan_logs_def)
  from prebuilt_cache_roundtrip [OF this] show ?thesis by (simp add: is_space_def is_eol_def)
qed

subsection \<open>The lists of a cycle\<close>

text \<open>The verdict on a package if PyPI always answers alike, and the list and the cache from it.\<close>

definition verdict :: "(string \<Rightarrow> json option) \<Rightarrow> (string \<Rightarrow> (int \<times> string) option) \<Rightarrow> (string \<times> string) set \<Rightarrow> string \<Rightarrow> string \<times> string
    \<Rightarrow> bool option" where
  "verdict loads answers combos target x =
     Option.bind (answers (''https://pypi.org/pypi/'' @ fst x @ ''/'' @ snd x @ ''/json'')) (needs_build loads combos target)"

lemma check_pypi_verdict:
  "\<forall>lg. pypi E lg = g \<Longrightarrow> fst (check_pypi E combos target p v lg) = verdict (wjson E) g combos target (p, v)"
  by (simp add: check_pypi_def verdict_def Let_def)

lemma agree_insert: "p \<inter> insert a A = q \<inter> insert a A \<Longrightarrow> p \<inter> A = q \<inter> A \<and> (a \<in> p \<longleftrightarrow> a \<in> q)"
  by blast

lemma agree_with: "p \<inter> A = q \<inter> A \<Longrightarrow> a \<notin> A \<Longrightarrow> insert a p \<inter> A = q \<inter> A"
  by blast

lemma filter_loop_exact:
  assumes "\<forall>lg. pypi E lg = g" "inj_on entry_of (set xs)" "distinct xs" "p \<inter> entry_of ` set xs = q \<inter> entry_of ` set xs"
    "filter_loop E combos target nb xs n w p lg = (Some (w', p'), lg')"
  shows "w' = w \<union> entry_of ` {x \<in> set xs. fst x \<in> nb \<or> entry_of x \<notin> q \<and> verdict (wjson E) g combos target x = Some True} \<and>
    p' = p \<union> entry_of ` {x \<in> set xs. fst x \<notin> nb \<and> entry_of x \<notin> q \<and> verdict (wjson E) g combos target x = Some False}"
  using assms(2-)
proof (induction xs arbitrary: n w p lg)
  case (Cons x xs)
  obtain pkg ver where x: "x = (pkg, ver)" by (cases x)
  let ?T = "{y \<in> set xs. fst y \<in> nb \<or> entry_of y \<notin> q \<and> verdict (wjson E) g combos target y = Some True}"
  let ?F = "{y \<in> set xs. fst y \<notin> nb \<and> entry_of y \<notin> q \<and> verdict (wjson E) g combos target y = Some False}"
  have i: "inj_on entry_of (set xs)" "distinct xs" "entry_of x \<notin> entry_of ` set xs" using Cons.prems(1,2) by auto
  have pq: "p \<inter> entry_of ` set xs = q \<inter> entry_of ` set xs" "entry_of x \<in> p \<longleftrightarrow> entry_of x \<in> q"
    using agree_insert [OF Cons.prems(3) [unfolded list.set image_insert]] by blast+
  have pq': "insert (entry_of x) p \<inter> entry_of ` set xs = q \<inter> entry_of ` set xs" by (rule agree_with [OF pq(1) i(3)])
  note IH = Cons.IH [OF i(1,2) pq(1)] and IH' = Cons.IH [OF i(1,2) pq']
  let ?lg = "if n > 0 then Napped # lg else lg"
  obtain b lg1 where c: "check_pypi E combos target pkg ver ?lg = (b, lg1)" by (cases "check_pypi E combos target pkg ver ?lg")
  have b: "b = verdict (wjson E) g combos target x" using check_pypi_verdict [OF assms(1), of combos target pkg ver ?lg] by (simp add: c x)
  consider (need) "pkg \<in> nb" | (old) "pkg \<notin> nb" "entry_of x \<in> q" | (yes) "pkg \<notin> nb" "entry_of x \<notin> q" "b = Some True"
    | (no) "pkg \<notin> nb" "entry_of x \<notin> q" "b = Some False" | (bad) "pkg \<notin> nb" "entry_of x \<notin> q" "b = None" by (cases b) auto
  then show ?case
  proof cases
    case need
    then have "filter_loop E combos target nb xs n (insert (entry_of x) w) p lg = (Some (w', p'), lg')"
      using Cons.prems(4) by (simp add: x)
    from IH [OF this] show ?thesis using need by (auto simp: x)
  next
    case old
    then have "filter_loop E combos target nb xs n w p lg = (Some (w', p'), lg')" using Cons.prems(4) pq(2) by (simp add: x)
    from IH [OF this] show ?thesis using old by (auto simp: x)
  next
    case yes
    then have "filter_loop E combos target nb xs (Suc n) (insert (entry_of x) w) p lg1 = (Some (w', p'), lg')"
      using Cons.prems(4) pq(2) c by (simp add: x)
    from IH [OF this] show ?thesis using yes b by (auto simp: x)
  next
    case no
    then have "filter_loop E combos target nb xs (Suc n) w (insert (entry_of x) p) lg1 = (Some (w', p'), lg')"
      using Cons.prems(4) pq(2) c by (simp add: x)
    from IH' [OF this] show ?thesis using no b by (auto simp: x)
  next
    case bad
    then show ?thesis using Cons.prems(4) pq(2) c by (simp add: x)
  qed
qed simp

text \<open>A cycle wants what it should, on the verdicts of \<open>needs_build\<close>. If PyPI answers alike during the cycle and no check fails, the wanted packages are those of the
  access logs that \<open>needbuild.txt\<close> names, and those not in the cache that PyPI has not for all targets; the cache grows by exactly
  those that need no build.\<close>

theorem filter_packages_exact:
  assumes "\<forall>lg. pypi E lg = g"
    "filter_packages E (scan_logs dir) combos target prebuilt needbuild lg = (Some (wants, prebuilt'), lg')"
  shows "wants = entry_of ` {x \<in> scan_logs dir. fst x \<in> needbuild \<or>
      entry_of x \<notin> prebuilt \<and> verdict (wjson E) g combos target x = Some True} \<and>
    prebuilt' = prebuilt \<union> entry_of ` {x \<in> scan_logs dir. fst x \<notin> needbuild \<and>
      entry_of x \<notin> prebuilt \<and> verdict (wjson E) g combos target x = Some False}"
proof -
  have g: "good_packages (scan_logs dir)" by (rule scan_logs_good)
  then have f: "set (sorted_list_of_set (scan_logs dir)) = scan_logs dir" by (simp add: good_packages_def)
  have "inj_on entry_of (scan_logs dir)"
    by (rule inj_on_subset [OF entry_of_inj]) (use g in \<open>auto simp: good_packages_def\<close>)
  then show ?thesis
    using filter_loop_exact [OF assms(1), of "sorted_list_of_set (scan_logs dir)" prebuilt prebuilt combos target needbuild 0 "{}" lg]
      assms(2) by (simp add: f filter_packages_def)
qed

lemma scan_nothing: "scan_logs None = {}"
  by (simp add: scan_logs_def)

theorem filter_packages_exact_witness:
  "filter_packages pypi_example (scan_logs None) {} ''2_17'' {''six==1.0''} {''torch''} [] = (Some ({}, {''six==1.0''}), [])"
proof -
  have f: "filter_packages pypi_example (scan_logs None) {} ''2_17'' {''six==1.0''} {''torch''} [] = (Some ({}, {''six==1.0''}), [])"
    by (simp add: filter_packages_def scan_nothing)
  have "\<forall>lg. pypi pypi_example lg = (\<lambda>_. Some (404, []))" by (simp add: pypi_example_def)
  from filter_packages_exact [OF this f] show ?thesis using f by simp
qed

subsection \<open>Names of platforms\<close>

text \<open>The order of the tags of a wheel decides whether it counts. A name may list the new tag before its old alias or after it. The
  first form covers its target, but for the second \<open>is_manylinux_compatible\<close> takes everything after the alias as the architecture,
  no target has that name, and the wheel is built although PyPI has it.\<close>

theorem manylinux_alias_first:
  "is_manylinux_compatible ''manylinux2014_x86_64.manylinux_2_17_x86_64'' ''2_17'' = Some (True, ''x86_64.manylinux_2_17_x86_64'') \<and>
   wheel_covers ''2_17'' {(''cp312'', ''x86_64'')} ''a-1-cp312-cp312-manylinux2014_x86_64.manylinux_2_17_x86_64.whl'' = Some {} \<and>
   wheel_covers ''2_17'' {(''cp312'', ''x86_64'')} ''a-1-cp312-cp312-manylinux_2_17_x86_64.manylinux2014_x86_64.whl'' = Some {(''cp312'', ''x86_64'')}"
  by code_simp

subsection \<open>The verdict\<close>

definition is_pure :: "string \<Rightarrow> bool" where
  "is_pure f = (endswith f ''-py3-none-any.whl'' \<or> contains_str ''-none-any'' f)"

definition wheels :: "json list \<Rightarrow> string set" where
  "wheels urls = {f. \<exists>e \<in> set urls. wheel_name e = Some (Some f)}"

lemma wheels_Cons: "wheel_name e = Some r \<Longrightarrow> wheels (e # es) = (case r of None \<Rightarrow> {} | Some f \<Rightarrow> {f}) \<union> wheels es"
  by (auto simp: wheels_def split: option.splits)

lemma has_pure_wheel_iff: "has_pure_wheel urls = Some b \<Longrightarrow> b \<longleftrightarrow> (\<exists>f \<in> wheels urls. is_pure f)"
proof (induction urls)
  case (Cons e es)
  obtain r where r: "wheel_name e = Some r" using Cons.prems by (cases "wheel_name e") simp_all
  note w = wheels_Cons [OF r, of es]
  show ?case
  proof (cases r)
    case None
    then show ?thesis using Cons r w by simp
  next
    case (Some f)
    have b: "(if is_pure f then Some True else has_pure_wheel es) = Some b"
      using Cons.prems by (simp add: r Some is_pure_def)
    show ?thesis using b Cons.IH w Some by (cases "is_pure f") auto
  qed
qed (simp add: wheels_def)

lemma covered_by_iff: "covered_by target combos urls = Some A \<Longrightarrow> A = (\<Union>f \<in> wheels urls. case wheel_covers target combos f of None \<Rightarrow> {} | Some B \<Rightarrow> B)"
proof (induction urls arbitrary: A)
  case (Cons e es)
  obtain r where r: "wheel_name e = Some r" using Cons.prems by (cases "wheel_name e") simp_all
  note w = wheels_Cons [OF r, of es]
  show ?case
  proof (cases r)
    case None
    then show ?thesis using Cons r w by simp
  next
    case (Some f)
    obtain B C where "wheel_covers target combos f = Some B" "covered_by target combos es = Some C" "A = B \<union> C"
      using Cons.prems by (auto simp: r Some split: option.splits)
    then show ?thesis using Cons.IH w Some by simp
  qed
qed (simp add: wheels_def)

lemma wheel_covers_targets: "wheel_covers target combos f = Some B \<Longrightarrow> B \<subseteq> combos"
  by (auto simp: wheel_covers_def Let_def split: if_splits)

text \<open>The verdict is the intended one. If PyPI knows the version, the package is built if and only if none of its wheels is pure
  Python and some target has no wheel that covers it.\<close>

theorem needs_build_iff:
  assumes "fst ans \<noteq> 404" "loads (snd ans) = Some data" "json_get data ''urls'' (JArr []) = Some (JArr urls)"
    "needs_build loads combos target ans = Some b"
  shows "b \<longleftrightarrow> \<not> (\<exists>f \<in> wheels urls. is_pure f) \<and>
    (\<exists>c \<in> combos. \<not> (\<exists>f \<in> wheels urls. \<exists>B. wheel_covers target combos f = Some B \<and> c \<in> B))"
proof -
  obtain p where p: "has_pure_wheel urls = Some p"
    "(if p then Some False else map_option (\<lambda>A. A \<noteq> combos) (covered_by target combos urls)) = Some b"
    using assms by (auto simp: needs_build_def bind_eq_Some_conv)
  show ?thesis
  proof (cases p)
    case True
    then show ?thesis using p has_pure_wheel_iff by auto
  next
    case False
    then obtain A where A: "covered_by target combos urls = Some A" "b \<longleftrightarrow> A \<noteq> combos" using p(2) by auto
    have sub: "A \<subseteq> combos" unfolding covered_by_iff [OF A(1)] using wheel_covers_targets by (fastforce split: option.splits)
    have "c \<in> A \<longleftrightarrow> (\<exists>f \<in> wheels urls. \<exists>B. wheel_covers target combos f = Some B \<and> c \<in> B)" for c
      unfolding covered_by_iff [OF A(1)] by (auto split: option.splits)
    then show ?thesis using A(2) sub has_pure_wheel_iff [OF p(1)] False by blast
  qed
qed

theorem needs_build_iff_witness:
  "needs_build (\<lambda>_. Some (JObj [(''urls'', JArr [JObj [(''packagetype'', JStr ''sdist'')]])])) {(''cp312'', ''x86_64'')} ''2_17'' (200, []) = Some True"
proof -
  let ?u = "[JObj [(''packagetype'', JStr ''sdist'')]]"
  let ?l = "\<lambda>_ :: string. Some (JObj [(''urls'', JArr ?u)])"
  have "needs_build ?l {(''cp312'', ''x86_64'')} ''2_17'' (200, []) \<noteq> None"
    by (simp add: needs_build_def wheel_name_def dget_or_def dict_simps)
  then obtain b where b: "needs_build ?l {(''cp312'', ''x86_64'')} ''2_17'' (200, []) = Some b" by blast
  have w: "wheels ?u = {}" by (simp add: wheels_def wheel_name_def dget_or_def dict_simps)
  show ?thesis using needs_build_iff [OF _ _ _ b, of _ ?u] b by (simp add: w dget_or_def dict_simps)
qed

end
