(* ===== verification/Pypi_Wheels.thy ===== *)
theory Pypi_Wheels
  imports Kube
begin

section \<open>The wheel syncer and the log rotator\<close>

text \<open>
  \<open>wheel_syncer.py\<close> copies the wheels of S3 into the directories that the package index serves; \<open>log_rotator.py\<close> stands between
  the index and its access logs, the files that the collector of wanted wheels reads. Files and S3 are fields of the environments.
\<close>

subsection \<open>Wheels\<close>

datatype vevent =
    ListedPage string "string option"
  | MadeDir string
  | Downloaded string string bool \<comment> \<open>key, file, whether it succeeded\<close>
  | Renamed string string bool
  | RemovedTmp string

type_synonym vlog = "vevent list"

record s3_page =
  contents :: "(string \<times> int) list"
  next_token :: "string option" \<comment> \<open>\<open>Some\<close>: \<open>IsTruncated\<close>\<close>

record venv =
  s3_list :: "vlog \<Rightarrow> string \<Rightarrow> string option \<Rightarrow> s3_page option" \<comment> \<open>\<open>None\<close>: an exception\<close>
  make_dir :: "vlog \<Rightarrow> string \<Rightarrow> bool"
  resolve_dir :: "vlog \<Rightarrow> string \<Rightarrow> string" \<comment> \<open>\<open>(wheelhouse_dir / slug).resolve()\<close>\<close>
  resolve_in :: "vlog \<Rightarrow> string \<Rightarrow> string \<Rightarrow> string" \<comment> \<open>\<open>(wheelhouse_dir / slug / filename).resolve()\<close>\<close>
  file_exists :: "vlog \<Rightarrow> string \<Rightarrow> bool option"
  fetch :: "vlog \<Rightarrow> string \<Rightarrow> string \<Rightarrow> bool"
  rename :: "vlog \<Rightarrow> string \<Rightarrow> string \<Rightarrow> bool"

text \<open>The pages of a prefix, at most as many as the fuel; the outer \<open>None\<close> is a list that has more.\<close>

fun list_pages :: "venv \<Rightarrow> nat \<Rightarrow> string \<Rightarrow> string option \<Rightarrow> (string \<times> int) list \<Rightarrow> vlog \<Rightarrow> ((string \<times> int) list option \<times> vlog) option" where
  "list_pages E 0 prefix tok ws lg = None"
| "list_pages E (Suc n) prefix tok ws lg =
     (case s3_list E lg prefix tok of
        None \<Rightarrow> Some (None, ListedPage prefix tok # lg)
      | Some p \<Rightarrow>
          let ws = ws @ filter (\<lambda>(k, _). endswith k ''.whl'') (contents p); lg = ListedPage prefix tok # lg in
          (case next_token p of None \<Rightarrow> Some (Some ws, lg) | Some t \<Rightarrow> list_pages E n prefix (Some t) ws lg))"

definition list_wheels :: "venv \<Rightarrow> nat \<Rightarrow> string \<Rightarrow> vlog \<Rightarrow> ((string \<times> int) list option \<times> vlog) option" where
  "list_wheels E n prefix lg = list_pages E n prefix None [] lg"

text \<open>One wheel: the new numbers of downloaded and skipped ones, or an exception.\<close>

definition sync_wheel :: "venv \<Rightarrow> string \<Rightarrow> string \<Rightarrow> nat \<times> nat \<Rightarrow> vlog \<Rightarrow> (nat \<times> nat) option \<times> vlog" where
  "sync_wheel E slug key c lg =
     (let filename = drop (length (slug @ ''/'')) key in
      if filename = [] then (Some c, lg)
      else
        let final = resolve_in E lg slug filename in
        if \<not> startswith final (resolve_dir E lg slug @ ''/'') then (Some c, lg)
        else
          (case file_exists E lg final of
             None \<Rightarrow> (None, lg)
           | Some True \<Rightarrow> (Some (fst c, snd c + 1), lg)
           | Some False \<Rightarrow>
               let tmp = final @ ''.tmp''; ok = fetch E lg key tmp; lg = Downloaded key tmp ok # lg in
               if \<not> ok then (Some c, RemovedTmp tmp # lg)
               else
                 let moved = rename E lg tmp final; lg = Renamed tmp final moved # lg in
                 if moved then (Some (fst c + 1, snd c), lg) else (Some c, RemovedTmp tmp # lg)))"

fun sync_wheels :: "venv \<Rightarrow> string \<Rightarrow> string list \<Rightarrow> nat \<times> nat \<Rightarrow> vlog \<Rightarrow> (nat \<times> nat) option \<times> vlog" where
  "sync_wheels E slug [] c lg = (Some c, lg)"
| "sync_wheels E slug (k # ks) c lg =
     (case sync_wheel E slug k c lg of (None, lg) \<Rightarrow> (None, lg) | (Some c, lg) \<Rightarrow> sync_wheels E slug ks c lg)"

definition sync_slug :: "venv \<Rightarrow> nat \<Rightarrow> string \<Rightarrow> vlog \<Rightarrow> ((nat \<times> nat) option \<times> vlog) option" where
  "sync_slug E n slug lg =
     (case list_wheels E n (slug @ ''/'') lg of
        None \<Rightarrow> None
      | Some (None, lg) \<Rightarrow> Some (None, lg)
      | Some (Some ws, lg) \<Rightarrow>
          if \<not> make_dir E lg slug then Some (None, MadeDir slug # lg)
          else Some (sync_wheels E slug (map fst ws) (0, 0) (MadeDir slug # lg)))"

fun sync_cycle :: "venv \<Rightarrow> nat \<Rightarrow> string list \<Rightarrow> nat \<times> nat \<Rightarrow> vlog \<Rightarrow> ((nat \<times> nat) \<times> vlog) option" where
  "sync_cycle E n [] c lg = Some (c, lg)"
| "sync_cycle E n (s # ss) c lg =
     (case sync_slug E n s lg of
        None \<Rightarrow> None
      | Some (None, lg) \<Rightarrow> sync_cycle E n ss c lg
      | Some (Some (d, k), lg) \<Rightarrow> sync_cycle E n ss (fst c + d, snd c + k) lg)"

text \<open>\<open>args.slugs\<close>: the names between the commas that are not empty.\<close>

definition slugs_of :: "string \<Rightarrow> string list" where
  "slugs_of s = filter (\<lambda>x. x \<noteq> []) (map strip (split_on CHR '','' s))"

subsection \<open>Logs\<close>

text \<open>
  The directory is a dictionary from the names of its files to their texts. Dates are day numbers; \<open>show_date\<close> prints one and
  \<open>read_date\<close> reads it. A line comes with the signal that may have arrived, the date that the loop reads after it, the date
  that a cleanup then reads, and which files cannot be removed.
\<close>

record rot =
  rfiles :: "(string, string) dict"
  rout :: string
  rdate :: int

record rline =
  rtext :: string
  rstop :: bool
  rtoday :: int
  rclean :: int
  rlocked :: "string list"

definition log_filename :: "(int \<Rightarrow> string) \<Rightarrow> string \<Rightarrow> int \<Rightarrow> string" where
  "log_filename show_date prefix d = prefix @ ''.'' @ show_date d @ ''.log''"

definition is_old_log :: "(string \<Rightarrow> int option) \<Rightarrow> string \<Rightarrow> int \<Rightarrow> string \<Rightarrow> bool" where
  "is_old_log read_date prefix cutoff name =
     (startswith name (prefix @ ''.'') \<and> endswith name ''.log'' \<and>
      (case read_date (drop (length (prefix @ ''.'')) (drop_end (length ''.log'') name)) of None \<Rightarrow> False | Some d \<Rightarrow> d < cutoff))"

text \<open>Files are removed one by one until one of them cannot be; \<open>False\<close>: the exception of that one.\<close>

fun remove_logs :: "string list \<Rightarrow> string list \<Rightarrow> (string, string) dict \<Rightarrow> bool \<times> (string, string) dict" where
  "remove_logs locked [] fs = (True, fs)"
| "remove_logs locked (n # ns) fs = (if n \<in> set locked then (False, fs) else remove_logs locked ns (ddel n fs))"

definition cleanup_logs :: "(string \<Rightarrow> int option) \<Rightarrow> string \<Rightarrow> int \<Rightarrow> int \<Rightarrow> string list \<Rightarrow> (string, string) dict \<Rightarrow> bool \<times> (string, string) dict" where
  "cleanup_logs read_date prefix max_age now locked fs =
     remove_logs locked (filter (is_old_log read_date prefix (now - max_age)) (dkeys fs)) fs"

text \<open>\<open>open(path, 'a')\<close> and \<open>write\<close>.\<close>

definition append_to :: "string \<Rightarrow> string \<Rightarrow> (string, string) dict \<Rightarrow> (string, string) dict" where
  "append_to n s fs = dset n (dget_or fs n [] @ s) fs"

fun rotate_lines :: "(int \<Rightarrow> string) \<Rightarrow> (string \<Rightarrow> int option) \<Rightarrow> string \<Rightarrow> int \<Rightarrow> rline list \<Rightarrow> rot \<Rightarrow> bool \<times> rot" where
  "rotate_lines show_date read_date prefix max_age [] st = (True, st)"
| "rotate_lines show_date read_date prefix max_age (l # ls) st =
     (if rstop l then (True, st)
      else
        let st = st\<lparr>rout := rout st @ rtext l\<rparr>;
            (ok, st) = (if rtoday l \<noteq> rdate st
                        then (case cleanup_logs read_date prefix max_age (rclean l) (rlocked l) (rfiles st) of
                                (True, fs) \<Rightarrow> (True, st\<lparr>rdate := rtoday l, rfiles := append_to (log_filename show_date prefix (rtoday l)) [] fs\<rparr>)
                              | (False, fs) \<Rightarrow> (False, st\<lparr>rfiles := fs\<rparr>))
                        else (True, st)) in
        if \<not> ok then (False, st)
        else rotate_lines show_date read_date prefix max_age ls
               (st\<lparr>rfiles := append_to (log_filename show_date prefix (rdate st)) (rtext l) (rfiles st)\<rparr>))"

definition run_rotator :: "(int \<Rightarrow> string) \<Rightarrow> (string \<Rightarrow> int option) \<Rightarrow> string \<Rightarrow> int \<Rightarrow> int \<Rightarrow> int \<Rightarrow> string list \<Rightarrow> rline list
    \<Rightarrow> (string, string) dict \<Rightarrow> bool \<times> rot" where
  "run_rotator show_date read_date prefix max_age clean now locked ls fs =
     (case cleanup_logs read_date prefix max_age clean locked fs of
        (False, fs) \<Rightarrow> (False, \<lparr>rfiles = fs, rout = [], rdate = now\<rparr>)
      | (True, fs) \<Rightarrow>
          rotate_lines show_date read_date prefix max_age ls
            \<lparr>rfiles = append_to (log_filename show_date prefix now) [] fs, rout = [], rdate = now\<rparr>)"

subsection \<open>What the syncer may do to files\<close>

definition renames :: "vevent \<Rightarrow> (string \<times> string) option" where
  "renames e = (case e of Renamed t f _ \<Rightarrow> Some (t, f) | _ \<Rightarrow> None)"

definition listed :: "venv \<Rightarrow> string \<Rightarrow> string \<Rightarrow> vlog \<Rightarrow> bool" where
  \<comment> \<open>the key was in a page of the slug's listing\<close>
  "listed E slug key es =
     (\<exists>post tok pre p. es = post @ ListedPage (slug @ ''/'') tok # pre \<and> s3_list E pre (slug @ ''/'') tok = Some p \<and>
        key \<in> fst ` set (contents p) \<and> endswith key ''.whl'')"

definition placed_well :: "venv \<Rightarrow> string list \<Rightarrow> string \<times> string \<Rightarrow> vlog \<Rightarrow> bool" where
  \<comment> \<open>the step before was the complete download of the key of this file, to its name inside the directory of the slug\<close>
  "placed_well E slugs = (\<lambda>(tmp, final) es.
     \<exists>slug key lg. slug \<in> set slugs \<and> es = Downloaded key tmp True # lg \<and> listed E slug key lg \<and> tmp = final @ ''.tmp'' \<and>
       final = resolve_in E lg slug (drop (length (slug @ ''/'')) key) \<and> startswith final (resolve_dir E lg slug @ ''/'') \<and>
       file_exists E lg final = Some False)"

lemma listed_more: "listed E slug key es \<Longrightarrow> listed E slug key (fs @ es)"
  unfolding listed_def by (metis append_assoc)

lemma sync_wheel_placed:
  assumes "each_call renames (placed_well E slugs) lg" "sync_wheel E slug k c lg = (r, lg')" "slug \<in> set slugs" "listed E slug k lg"
  shows "each_call renames (placed_well E slugs) lg' \<and> (\<exists>es. lg' = es @ lg)"
  using assms by (auto simp: sync_wheel_def Let_def renames_def placed_well_def split: if_splits option.splits bool.splits)

lemma sync_wheels_placed:
  "each_call renames (placed_well E slugs) lg \<Longrightarrow> sync_wheels E slug ks c lg = (r, lg') \<Longrightarrow> slug \<in> set slugs \<Longrightarrow>
   \<forall>k \<in> set ks. listed E slug k lg \<Longrightarrow> each_call renames (placed_well E slugs) lg'"
proof (induction E slug ks c lg rule: sync_wheels.induct)
  case (2 E slug k ks c lg)
  obtain x lg1 where x: "sync_wheel E slug k c lg = (x, lg1)" by (cases "sync_wheel E slug k c lg")
  have "each_call renames (placed_well E slugs) lg1 \<and> (\<exists>es. lg1 = es @ lg)"
    by (rule sync_wheel_placed [OF 2(2) x 2(4)]) (use 2(5) in simp)
  moreover from this have "\<forall>k \<in> set ks. listed E slug k lg1" using 2(5) listed_more by auto
  ultimately show ?case using 2(1) [OF x [symmetric]] 2(3,4) x by (cases x) auto
qed simp

lemma list_pages_placed:
  "each_call renames Q lg \<Longrightarrow> list_pages E n prefix tok ws lg = Some (r, lg') \<Longrightarrow> each_call renames Q lg'"
  by (induction E n prefix tok ws lg rule: list_pages.induct) (auto simp: Let_def renames_def split: option.splits)

lemma list_pages_listed:
  "list_pages E n (slug @ ''/'') tok ws lg = Some (Some ws', lg') \<Longrightarrow> \<forall>k \<in> fst ` set ws. listed E slug k lg \<Longrightarrow>
   \<forall>k \<in> fst ` set ws'. listed E slug k lg'"
proof (induction n arbitrary: tok ws lg)
  case (Suc n)
  then obtain p where p: "s3_list E lg (slug @ ''/'') tok = Some p" by (auto split: option.splits)
  let ?ws = "ws @ filter (\<lambda>(k, _). endswith k ''.whl'') (contents p)" and ?lg = "ListedPage (slug @ ''/'') tok # lg"
  have "listed E slug k ?lg" if "k \<in> fst ` set (contents p)" "endswith k ''.whl''" for k
    unfolding listed_def by (rule exI [of _ "[]"], rule exI [of _ tok], rule exI [of _ lg], rule exI [of _ p]) (use p that in simp)
  moreover have "listed E slug k ?lg" if "k \<in> fst ` set ws" for k
    using listed_more [of E slug k lg "[ListedPage (slug @ ''/'') tok]"] Suc.prems(2) that by simp
  ultimately have all: "\<forall>k \<in> fst ` set ?ws. listed E slug k ?lg" by (simp add: image_Un ball_Un) fastforce
  show ?case
  proof (cases "next_token p")
    case None
    then show ?thesis using Suc.prems(1) p all by simp
  next
    case (Some t)
    then have "list_pages E n (slug @ ''/'') (Some t) ?ws ?lg = Some (Some ws', lg')" using Suc.prems(1) p by simp
    then show ?thesis by (rule Suc.IH) (rule all)
  qed
qed simp

lemma sync_slug_placed:
  assumes "each_call renames (placed_well E slugs) lg" "sync_slug E n slug lg = Some (r, lg')" "slug \<in> set slugs"
  shows "each_call renames (placed_well E slugs) lg'"
proof -
  obtain ws lg1 where l: "list_wheels E n (slug @ ''/'') lg = Some (ws, lg1)"
    using assms(2) by (auto simp: sync_slug_def split: option.splits prod.splits)
  have "each_call renames (placed_well E slugs) lg1" using list_pages_placed [OF assms(1)] l by (simp add: list_wheels_def)
  then have m: "each_call renames (placed_well E slugs) (MadeDir slug # lg1)" "each_call renames (placed_well E slugs) lg1"
    by (simp_all add: renames_def)
  show ?thesis
  proof (cases ws)
    case None
    then show ?thesis using assms(2) m by (simp add: sync_slug_def l)
  next
    case (Some ks)
    have "\<forall>k \<in> fst ` set ks. listed E slug k lg1"
      by (rule list_pages_listed [of E n slug None "[]" lg]) (use l Some in \<open>simp_all add: list_wheels_def\<close>)
    then have k: "\<forall>k \<in> set (map fst ks). listed E slug k (MadeDir slug # lg1)"
      using listed_more [of E slug _ lg1 "[MadeDir slug]"] by simp
    show ?thesis
    proof (cases "make_dir E lg1 slug")
      case True
      then have "sync_wheels E slug (map fst ks) (0, 0) (MadeDir slug # lg1) = (r, lg')"
        using assms(2) by (simp add: sync_slug_def l Some)
      then show ?thesis by (rule sync_wheels_placed [OF m(1) _ assms(3) k])
    qed (use assms(2) m in \<open>auto simp: sync_slug_def l Some\<close>)
  qed
qed

lemma sync_cycle_placed:
  "sync_cycle E n ss c lg = Some (r, lg') \<Longrightarrow> set ss \<subseteq> set slugs \<Longrightarrow> each_call renames (placed_well E slugs) lg \<Longrightarrow>
   each_call renames (placed_well E slugs) lg'"
proof (induction E n ss c lg rule: sync_cycle.induct)
  case (2 E n s ss c lg)
  obtain x lg1 where x: "sync_slug E n s lg = Some (x, lg1)" using 2(3) by (auto split: option.splits)
  have "each_call renames (placed_well E slugs) lg1" by (rule sync_slug_placed [OF 2(5) x]) (use 2(4) in simp)
  with 2 x show ?case by (cases x) auto
qed simp

lemma sync_slug_ends: "\<forall>lg. list_wheels E n (slug @ ''/'') lg \<noteq> None \<Longrightarrow> \<exists>r. sync_slug E n slug lg = Some r"
  by (auto simp: sync_slug_def split: option.splits prod.splits)

lemma sync_cycle_ends: "\<forall>slug lg. list_wheels E n (slug @ ''/'') lg \<noteq> None \<Longrightarrow> \<exists>r lg'. sync_cycle E n ss c lg = Some (r, lg')"
proof (induction ss arbitrary: c lg)
  case (Cons s ss)
  obtain x lg1 where x: "sync_slug E n s lg = Some (x, lg1)" using sync_slug_ends [of E n s lg] Cons.prems by auto
  then show ?case using Cons.IH [OF Cons.prems] by (cases x) auto
qed simp


definition wheels_example :: venv where
  "wheels_example =
     \<lparr>s3_list = (\<lambda>_ _ _. Some \<lparr>contents = [(''cpu/a.whl'', 1), (''cpu/../b.whl'', 1), (''cpu/c.txt'', 1)], next_token = None\<rparr>), make_dir = (\<lambda>_ _. True),
      resolve_dir = (\<lambda>_ _. ''/w/cpu''), resolve_in = (\<lambda>_ _ f. if f = ''a.whl'' then ''/w/cpu/a.whl'' else ''/w/b.whl''),
      file_exists = (\<lambda>_ _. Some False), fetch = (\<lambda>_ _ _. True), rename = (\<lambda>_ _ _. True)\<rparr>"


subsection \<open>What happens to a line\<close>

definition readable_dates :: "(int \<Rightarrow> string) \<Rightarrow> (string \<Rightarrow> int option) \<Rightarrow> bool" where
  "readable_dates show_date read_date = (\<forall>d. read_date (show_date d) = Some d)"

lemma is_old_log_filename:
  "readable_dates show_date read_date \<Longrightarrow> is_old_log read_date prefix cutoff (log_filename show_date prefix d) \<longleftrightarrow> d < cutoff"
  using endswith_append [of "prefix @ ''.'' @ show_date d" "''.log''"] drop_end_append [of "''.log''" "prefix @ ''.'' @ show_date d"]
  by (simp add: is_old_log_def log_filename_def startswith_def readable_dates_def)

lemma log_filename_inj: "readable_dates show_date read_date \<Longrightarrow> log_filename show_date prefix d = log_filename show_date prefix e \<longleftrightarrow> d = e"
  by (auto simp: log_filename_def readable_dates_def) (metis option.inject)

lemma remove_logs_keeps: "remove_logs locked ns fs = (ok, fs') \<Longrightarrow> n \<notin> set ns \<Longrightarrow> dget fs' n = dget fs n"
  by (induction locked ns fs rule: remove_logs.induct) (auto split: if_splits simp: dict_simps)

lemma cleanup_logs_keeps:
  assumes "readable_dates show_date read_date" "now - max_age \<le> d"
    "cleanup_logs read_date prefix max_age now locked fs = (ok, fs')"
  shows "dget_or fs' (log_filename show_date prefix d) v = dget_or fs (log_filename show_date prefix d) v"
  using remove_logs_keeps [OF assms(3) [unfolded cleanup_logs_def]] assms(2)
  by (simp add: dget_or_def is_old_log_filename [OF assms(1)])

lemma dget_append_to: "dget_or (append_to n s fs) m [] = (if m = n then dget_or fs n [] @ s else dget_or fs m [])"
  by (simp add: append_to_def dict_simps)

definition echoed :: "rline list \<Rightarrow> rline list" where
  "echoed ls = takeWhile (\<lambda>l. \<not> rstop l) ls"

definition lines_of :: "int \<Rightarrow> rline list \<Rightarrow> string" where
  "lines_of d ls = concat (map rtext (filter (\<lambda>l. rtoday l = d) (echoed ls)))"

lemma rotate_lines_content:
  assumes "readable_dates show_date read_date"
  shows "rotate_lines show_date read_date prefix max_age ls st = (True, st') \<Longrightarrow> \<forall>l \<in> set ls. rclean l - max_age \<le> d \<Longrightarrow>
    dget_or (rfiles st') (log_filename show_date prefix d) [] = dget_or (rfiles st) (log_filename show_date prefix d) [] @ lines_of d ls \<and>
    rout st' = rout st @ concat (map rtext (echoed ls))"
proof (induction ls arbitrary: st)
  case (Cons l ls)
  let ?f = "log_filename show_date prefix"
  show ?case
  proof (cases "rstop l")
    case True
    then show ?thesis using Cons.prems by (simp add: lines_of_def echoed_def)
  next
    case go: False
    obtain ok fs where c: "cleanup_logs read_date prefix max_age (rclean l) (rlocked l) (rfiles st) = (ok, fs)"
      by (cases "cleanup_logs read_date prefix max_age (rclean l) (rlocked l) (rfiles st)")
    have keep: "dget_or fs (?f d) [] = dget_or (rfiles st) (?f d) []"
      using cleanup_logs_keeps [OF assms _ c, of d] Cons.prems(2) by simp
    define st1 where "st1 = (if rtoday l \<noteq> rdate st
      then st\<lparr>rout := rout st @ rtext l, rdate := rtoday l, rfiles := append_to (?f (rtoday l)) (rtext l) (append_to (?f (rtoday l)) [] fs)\<rparr>
      else st\<lparr>rout := rout st @ rtext l, rfiles := append_to (?f (rtoday l)) (rtext l) (rfiles st)\<rparr>)"
    have r: "rotate_lines show_date read_date prefix max_age ls st1 = (True, st')"
      using Cons.prems(1) go c unfolding st1_def by (cases ok) (auto simp: Let_def split: if_splits)
    have "dget_or (rfiles st1) (?f d) [] = dget_or (rfiles st) (?f d) [] @ (if rtoday l = d then rtext l else [])"
      using keep by (auto simp: st1_def dget_append_to log_filename_inj [OF assms])
    moreover have "rout st1 = rout st @ rtext l" by (simp add: st1_def)
    ultimately show ?thesis using Cons.IH [OF r] Cons.prems(2) go by (simp add: lines_of_def echoed_def)
  qed
qed (simp add: lines_of_def echoed_def)

text \<open>No access is lost or logged twice. Unless removing an old file fails, the rotator echoes every line until it is told to stop,
  and the file of a day gets, in order, the lines that were read on that day, after what it already held, as long as no cleanup
  considers that day old. The line that arrives after the signal is dropped.\<close>

theorem rotator_conserves:
  assumes "readable_dates show_date read_date" "run_rotator show_date read_date prefix max_age clean now locked ls fs = (True, st)"
    "clean - max_age \<le> d" "\<forall>l \<in> set ls. rclean l - max_age \<le> d"
  shows "rout st = concat (map rtext (echoed ls)) \<and>
    dget_or (rfiles st) (log_filename show_date prefix d) [] = dget_or fs (log_filename show_date prefix d) [] @ lines_of d ls"
proof -
  obtain gs where c: "cleanup_logs read_date prefix max_age clean locked fs = (True, gs)"
    and r: "rotate_lines show_date read_date prefix max_age ls
      \<lparr>rfiles = append_to (log_filename show_date prefix now) [] gs, rout = [], rdate = now\<rparr> = (True, st)"
    using assms(2) by (auto simp: run_rotator_def split: prod.splits bool.splits)
  show ?thesis
    using rotate_lines_content [OF assms(1) r assms(4)] cleanup_logs_keeps [OF assms(1,3) c]
    by (simp add: dget_append_to split: if_splits)
qed

definition day_text :: "int \<Rightarrow> string" where
  "day_text d = replicate (nat (if 0 \<le> d then 2 * d else - 2 * d - 1)) CHR ''1''"

definition day_of_text :: "string \<Rightarrow> int option" where
  "day_of_text s = Some (let n = int (length s) in if even n then n div 2 else - ((n + 1) div 2))"

lemma readable_day_text: "readable_dates day_text day_of_text"
proof -
  have "day_of_text (day_text d) = Some d" for d
  proof (cases "0 \<le> d")
    case False
    have "odd (- 2 * d - 1)" by simp
    moreover have "(- 2 * d - 1 + 1) div 2 = - d" by simp
    ultimately show ?thesis using False by (simp add: day_of_text_def day_text_def Let_def)
  qed (simp add: day_of_text_def day_text_def)
  then show ?thesis by (simp add: readable_dates_def)
qed

lemma remove_logs_unlocked: "\<exists>fs'. remove_logs [] ns fs = (True, fs')"
  by (induction ns arbitrary: fs) auto

lemma cleanup_logs_unlocked: "\<exists>fs'. cleanup_logs read_date prefix max_age now [] fs = (True, fs')"
  unfolding cleanup_logs_def by (rule remove_logs_unlocked)

lemma rotate_lines_unlocked:
  "\<forall>l \<in> set ls. rlocked l = [] \<Longrightarrow> \<exists>st'. rotate_lines show_date read_date prefix max_age ls st = (True, st')"
proof (induction ls arbitrary: st)
  case (Cons l ls)
  obtain fs where "cleanup_logs read_date prefix max_age (rclean l) (rlocked l) (rfiles st) = (True, fs)"
    using cleanup_logs_unlocked [of read_date prefix max_age "rclean l" "rfiles st"] Cons.prems by auto
  then show ?case using Cons by (simp add: Let_def)
qed simp

definition two_days :: "rline list" where
  "two_days = [\<lparr>rtext = ''a'', rstop = False, rtoday = 0, rclean = 0, rlocked = []\<rparr>,
               \<lparr>rtext = ''b'', rstop = False, rtoday = 1, rclean = 1, rlocked = []\<rparr>,
               \<lparr>rtext = ''c'', rstop = True, rtoday = 1, rclean = 1, rlocked = []\<rparr>]"

theorem rotator_conserves_witness:
  "rout (snd (run_rotator day_text day_of_text ''p'' 30 0 0 [] two_days [])) = ''ab'' \<and>
   dget_or (rfiles (snd (run_rotator day_text day_of_text ''p'' 30 0 0 [] two_days []))) (log_filename day_text ''p'' 1) [] = ''b''"
proof -
  obtain fs where fs: "cleanup_logs day_of_text ''p'' 30 0 [] [] = (True, fs)" using cleanup_logs_unlocked by blast
  have "\<forall>l \<in> set two_days. rlocked l = []" by (simp add: two_days_def)
  from rotate_lines_unlocked [OF this, of day_text day_of_text "''p''" 30
      "\<lparr>rfiles = append_to (log_filename day_text ''p'' 0) [] fs, rout = [], rdate = 0\<rparr>"]
  obtain st where st: "run_rotator day_text day_of_text ''p'' 30 0 0 [] two_days [] = (True, st)"
    by (auto simp: run_rotator_def fs)
  have "lines_of 1 two_days = ''b''" "concat (map rtext (echoed two_days)) = ''ab''" "\<forall>l \<in> set two_days. rclean l - 30 \<le> 1"
    by (simp_all add: lines_of_def echoed_def two_days_def)
  then show ?thesis using rotator_conserves [OF readable_day_text st, of 1] by (simp add: st)
qed

end
