(* ===== verification/Gpu_Dns.thy ===== *)
theory Gpu_Dns
  imports Dynamo Py_Time
begin

section \<open>Names of reservations\<close>

text \<open>
  \<open>lambda/shared/dns_utils.py\<close>: the name of a reservation in the domain of the service, its records in Route53 and its row in
  the table of domain mappings, which the SSH proxy reads. Route53, the table, the clock and the random choices are fields of
  \<open>dns_env\<close>, and may depend on the log of events (newest first). Texts are ASCII.
\<close>

definition ADJECTIVES :: "string list" where
  "ADJECTIVES =
   [''brave'', ''clever'', ''swift'', ''mighty'', ''gentle'', ''bright'', ''calm'', ''bold'', ''cheerful'', ''eager'',
    ''quick'', ''wise'', ''kind'', ''loyal'', ''proud'', ''strong'', ''happy'', ''lucky'', ''smart'', ''noble'', ''keen'',
    ''agile'', ''sharp'', ''witty'', ''fierce'', ''steady'', ''quiet'', ''wild'', ''free'', ''rare'', ''pure'', ''cool'',
    ''warm'', ''fresh'', ''crisp'', ''smooth'', ''solid'', ''grand'', ''fine'', ''neat'', ''tough'', ''light'', ''dark'',
    ''deep'', ''high'', ''fast'', ''slow'', ''old'', ''new'', ''silent'', ''stormy'', ''sunny'', ''misty'', ''foggy'',
    ''snowy'', ''windy'', ''cloudy'', ''golden'', ''silver'', ''copper'', ''bronze'', ''crystal'', ''diamond'', ''ruby'',
    ''emerald'', ''scarlet'', ''crimson'', ''azure'', ''violet'', ''amber'', ''jade'', ''coral'', ''ivory'', ''velvet'',
    ''silk'', ''satin'', ''leather'', ''marble'', ''granite'', ''steel'', ''iron'', ''ancient'', ''modern'', ''cosmic'',
    ''stellar'', ''lunar'', ''solar'', ''arctic'', ''desert'', ''mountain'', ''valley'', ''forest'', ''ocean'', ''river'',
    ''lake'', ''meadow'', ''prairie'', ''mystic'', ''magic'', ''electric'', ''atomic'', ''cyber'', ''digital'', ''quantum'',
    ''neural'']"

definition ANIMALS :: "string list" where
  "ANIMALS =
   [''bear'', ''wolf'', ''fox'', ''eagle'', ''hawk'', ''lion'', ''tiger'', ''panda'', ''owl'', ''raven'', ''deer'', ''elk'',
    ''moose'', ''bison'', ''otter'', ''seal'', ''whale'', ''dolphin'', ''shark'', ''turtle'', ''penguin'', ''falcon'',
    ''sparrow'', ''robin'', ''blue'', ''cardinal'', ''jay'', ''crow'', ''finch'', ''wren'', ''cat'', ''dog'', ''horse'',
    ''rabbit'', ''squirrel'', ''chipmunk'', ''beaver'', ''raccoon'', ''skunk'', ''possum'', ''bat'', ''mouse'', ''rat'',
    ''hamster'', ''ferret'', ''mink'', ''stoat'', ''weasel'', ''badger'', ''wolverine'', ''leopard'', ''cheetah'', ''lynx'',
    ''bobcat'', ''cougar'', ''jaguar'', ''zebra'', ''giraffe'', ''elephant'', ''rhino'', ''hippo'', ''buffalo'',
    ''antelope'', ''gazelle'', ''impala'', ''kudu'', ''oryx'', ''springbok'', ''kangaroo'', ''koala'', ''platypus'',
    ''echidna'', ''wallaby'', ''wombat'', ''dingo'', ''tasmanian'', ''mongoose'', ''meerkat'', ''lemur'', ''sloth'',
    ''armadillo'', ''anteater'', ''capybara'', ''chinchilla'', ''hedgehog'', ''porcupine'', ''pangolin'', ''aardvark'',
    ''okapi'', ''tapir'', ''manatee'', ''dugong'', ''narwhal'', ''beluga'', ''orca'', ''walrus'', ''seahorse'',
    ''starfish'', ''octopus'', ''squid'', ''crab'', ''lobster'', ''shrimp'', ''jellyfish'', ''barracuda'', ''marlin'',
    ''swordfish'', ''tuna'', ''salmon'', ''trout'', ''bass'', ''pike'', ''carp'', ''catfish'', ''goldfish'', ''angelfish'',
    ''butterfly'', ''dragonfly'', ''firefly'', ''beetle'', ''mantis'', ''cricket'', ''grasshopper'', ''ant'', ''bee'',
    ''wasp'', ''hornet'', ''spider'', ''scorpion'', ''gecko'', ''iguana'', ''chameleon'']"

datatype zone_change = CreateRecord string string string | DeleteRecord string string string \<comment> \<open>name, type, value\<close>

datatype zone_answer = Applied | ClientError string | ZoneBroken

datatype dns_event =
    Chose nat
  | ScannedMappings
  | ScannedZone
  | ChangedZone "zone_change list" zone_answer
  | PutMapping row bool bool \<comment> \<open>the item, whether unconditionally, whether it was stored\<close>
  | GotMapping string
  | DeletedMapping string bool

type_synonym dns_log = "dns_event list"

record dns_env =
  DOMAIN_NAME :: string
  HOSTED_ZONE_ID :: string
  MAPPINGS_TABLE :: string
  ALB_DNS :: string
  choice :: "dns_log \<Rightarrow> nat \<Rightarrow> nat" \<comment> \<open>an index below the second argument\<close>
  wall_clock :: "dns_log \<Rightarrow> flt"
  mappings :: "dns_log \<Rightarrow> row list option" \<comment> \<open>the first page of the scan; \<open>None\<close>: an exception\<close>
  zone_records :: "dns_log \<Rightarrow> (string \<times> string) list option" \<comment> \<open>types and names\<close>
  iso_stamp :: "string \<Rightarrow> flt option" \<comment> \<open>\<open>datetime.fromisoformat(s).timestamp()\<close>\<close>
  change_zone :: "dns_log \<Rightarrow> zone_change list \<Rightarrow> zone_answer"
  table_down :: "dns_log \<Rightarrow> bool"
  mapping_of :: "dns_log \<Rightarrow> string \<Rightarrow> row option"

subsection \<open>Names\<close>

definition random_of :: "dns_env \<Rightarrow> string list \<Rightarrow> dns_log \<Rightarrow> string \<times> dns_log" where
  \<comment> \<open>\<open>random.choice\<close>\<close>
  "random_of E xs lg = (let i = choice E lg (length xs) mod length xs in (xs ! i, Chose i # lg))"

definition generate_random_name :: "dns_env \<Rightarrow> dns_log \<Rightarrow> string \<times> dns_log" where
  "generate_random_name E lg =
     (let (a, lg) = random_of E ADJECTIVES lg; (b, lg) = random_of E ANIMALS lg in (a @ ''_'' @ b, lg))"

definition is_lower :: "char \<Rightarrow> bool" where
  "is_lower c = (let n = (of_char c :: nat) in 97 \<le> n \<and> n \<le> 122)"

definition keep_char :: "char \<Rightarrow> string" where
  "keep_char c =
     (if is_lower c \<or> is_digit c \<or> c = CHR ''_'' then [c]
      else if c = CHR '' '' \<or> c = CHR ''.'' \<or> c = CHR ''-'' then ''-''
      else [])"

fun replace_hyphens :: "string \<Rightarrow> string" where
  \<comment> \<open>\<open>s.replace('--', '-')\<close>\<close>
  "replace_hyphens (c # d # s) =
     (if c = CHR ''-'' \<and> d = CHR ''-'' then CHR ''-'' # replace_hyphens s else c # replace_hyphens (d # s))"
| "replace_hyphens s = s"

lemma replace_hyphens_length: "length (replace_hyphens s) \<le> length s"
  by (induction s rule: replace_hyphens.induct) auto

lemma replace_hyphens_less: "contains_str ''--'' s \<Longrightarrow> length (replace_hyphens s) < length s"
proof (induction s rule: replace_hyphens.induct)
  case (1 c d s)
  then show ?case using replace_hyphens_length [of s] by (auto simp: startswith_def)
qed (auto simp: startswith_def)

function single_hyphens :: "string \<Rightarrow> string" where
  "single_hyphens s = (if contains_str ''--'' s then single_hyphens (replace_hyphens s) else s)"
  by auto
termination
  by (relation "measure length") (simp_all add: replace_hyphens_less)

declare single_hyphens.simps [simp del]

definition is_edge :: "char \<Rightarrow> bool" where
  "is_edge c = (c = CHR ''-'' \<or> c = CHR ''_'')"

definition rstrip_edge :: "string \<Rightarrow> string" where
  "rstrip_edge s = rev (dropWhile is_edge (rev s))"

definition strip_edges :: "string \<Rightarrow> string" where
  "strip_edges s = rstrip_edge (dropWhile is_edge s)"

definition clean_name :: "string \<Rightarrow> string" where
  \<comment> \<open>\<open>sanitize_name\<close> before its last line\<close>
  "clean_name name =
     (let s = strip_edges (single_hyphens (concat (map keep_char (lower name)))) in
      if length s > 63 then rstrip_edge (take 63 s) else s)"

definition sanitize_name :: "dns_env \<Rightarrow> string \<Rightarrow> dns_log \<Rightarrow> string \<times> dns_log" where
  "sanitize_name E name lg =
     (if name = [] then ([], lg)
      else if clean_name name \<noteq> [] then (clean_name name, lg) else generate_random_name E lg)"

definition is_reserved_name :: "dns_env \<Rightarrow> string \<Rightarrow> bool" where
  "is_reserved_name E name =
     (DOMAIN_NAME E = ''devservers.io'' \<and> lower name = ''test'' \<or>
      lower name \<in> set [''www'', ''api'', ''admin'', ''root'', ''mail'', ''ftp'', ''ns'', ''ns1'', ''ns2''])"

text \<open>When a mapping ends: \<open>float(expires_at)\<close>, and 0 for a value that cannot be read.\<close>

fun expiry_of :: "dns_env \<Rightarrow> ddb \<Rightarrow> flt option" where
  "expiry_of E (DStr s) = iso_stamp E s"
| "expiry_of E (DNum q) = Some (fl q)"
| "expiry_of E (DBool b) = Some (if b then 1 else 0)"
| "expiry_of E _ = None"

definition live_mapping :: "dns_env \<Rightarrow> flt \<Rightarrow> row \<Rightarrow> string option" where
  "live_mapping E now r =
     (case attr r ''domain_name'' of
        DStr n \<Rightarrow>
          if n \<noteq> [] \<and> (case expiry_of E (dget_or r ''expires_at'' (DNum 0)) of None \<Rightarrow> 0 | Some t \<Rightarrow> t) > now then Some n else None
      | _ \<Rightarrow> None)"

text \<open>\<open>record['Name'].replace(suffix, '')\<close> for a name that ends with the suffix removes every occurrence of it.\<close>

fun remove_all :: "string \<Rightarrow> nat \<Rightarrow> string \<Rightarrow> string" where
  "remove_all sub k [] = []"
| "remove_all sub (Suc k) (c # s) = remove_all sub k s"
| "remove_all sub 0 (c # s) =
     (if startswith (c # s) sub then remove_all sub (length sub - 1) s else c # remove_all sub 0 s)"

definition zone_names :: "dns_env \<Rightarrow> (string \<times> string) list \<Rightarrow> string list" where
  "zone_names E rs =
     (let suffix = ''.'' @ DOMAIN_NAME E @ ''.'' in
      map (\<lambda>(_, n). remove_all suffix 0 n)
        (filter (\<lambda>(t, n). (t = ''A'' \<or> t = ''CNAME'') \<and> endswith n suffix) rs))"

definition get_existing_dns_names :: "dns_env \<Rightarrow> dns_log \<Rightarrow> string list \<times> dns_log" where
  "get_existing_dns_names E lg =
     (if DOMAIN_NAME E = [] \<or> HOSTED_ZONE_ID E = [] then ([], lg)
      else if MAPPINGS_TABLE E = [] then ([], lg)
      else
        (case mappings E lg of
           Some rs \<Rightarrow>
             let lg = ScannedMappings # lg in (List.map_filter (live_mapping E (wall_clock E lg)) rs, lg)
         | None \<Rightarrow>
             let lg = ScannedMappings # lg in
             (case zone_records E lg of Some rs \<Rightarrow> zone_names E rs | None \<Rightarrow> [], ScannedZone # lg)))"

definition is_free :: "dns_env \<Rightarrow> string list \<Rightarrow> string \<Rightarrow> bool" where
  "is_free E existing n = (n \<notin> set existing \<and> \<not> is_reserved_name E n)"

fun numbered_name :: "dns_env \<Rightarrow> string list \<Rightarrow> string \<Rightarrow> int list \<Rightarrow> string option" where
  "numbered_name E existing base [] = None"
| "numbered_name E existing base (i # is) =
     (let c = base @ ''-'' @ str_int i in
      if length c \<le> 63 \<and> is_free E existing c then Some c else numbered_name E existing base is)"

fun free_random_name :: "dns_env \<Rightarrow> string list \<Rightarrow> nat \<Rightarrow> dns_log \<Rightarrow> string option \<times> dns_log" where
  "free_random_name E existing 0 lg = (None, lg)"
| "free_random_name E existing (Suc k) lg =
     (case generate_random_name E lg of
        (n, lg) \<Rightarrow> if is_free E existing n then (Some n, lg) else free_random_name E existing k lg)"

definition base_name :: "dns_env \<Rightarrow> string option \<Rightarrow> dns_log \<Rightarrow> string \<times> dns_log" where
  "base_name E preferred lg =
     (case preferred of
        Some (c # s) \<Rightarrow>
          (case sanitize_name E (c # s) lg of
             (b, lg) \<Rightarrow>
               (case (if b = [] then generate_random_name E lg else (b, lg)) of
                  (b, lg) \<Rightarrow> (if is_reserved_name E b then b @ ''-alt'' else b, lg)))
      | _ \<Rightarrow> generate_random_name E lg)"

definition generate_unique_name :: "dns_env \<Rightarrow> string option \<Rightarrow> dns_log \<Rightarrow> string \<times> dns_log" where
  "generate_unique_name E preferred lg =
     (case get_existing_dns_names E lg of
        (existing, lg) \<Rightarrow>
          (case base_name E preferred lg of
             (base, lg) \<Rightarrow>
               if is_free E existing base then (base, lg)
               else
                 (case numbered_name E existing base [2..999] of
                    Some c \<Rightarrow> (c, lg)
                  | None \<Rightarrow>
                      (case free_random_name E existing 100 lg of
                         (Some n, lg) \<Rightarrow> (n, lg)
                       | (None, lg) \<Rightarrow> (''dev-'' @ str_int (ftrunc (wall_clock E lg)), lg)))))"

subsection \<open>Records and mappings\<close>

definition dns_on :: "dns_env \<Rightarrow> bool" where
  \<comment> \<open>\<open>get_dns_enabled\<close>\<close>
  "dns_on E = (DOMAIN_NAME E \<noteq> [] \<and> HOSTED_ZONE_ID E \<noteq> [])"

definition fqdn :: "dns_env \<Rightarrow> string \<Rightarrow> string" where
  "fqdn E sub = sub @ ''.'' @ DOMAIN_NAME E"

definition port_record :: "dns_env \<Rightarrow> string \<Rightarrow> int \<Rightarrow> string \<times> string" where
  "port_record E sub port = (''_port.'' @ fqdn E sub, CHR 0x22 # str_int port @ [CHR 0x22])"

definition change_records :: "dns_env \<Rightarrow> zone_change list \<Rightarrow> dns_log \<Rightarrow> bool \<times> dns_log" where
  "change_records E cs lg = (change_zone E lg cs = Applied, ChangedZone cs (change_zone E lg cs) # lg)"

definition create_dns_record :: "dns_env \<Rightarrow> string \<Rightarrow> string \<Rightarrow> int \<Rightarrow> dns_log \<Rightarrow> bool \<times> dns_log" where
  "create_dns_record E sub ip port lg =
     (if \<not> dns_on E then (True, lg)
      else if ALB_DNS E = [] then (False, lg)
      else let (p, v) = port_record E sub port in
        change_records E [CreateRecord (fqdn E sub) ''CNAME'' (ALB_DNS E), CreateRecord p ''TXT'' v] lg)"

definition delete_dns_record :: "dns_env \<Rightarrow> string \<Rightarrow> string \<Rightarrow> int \<Rightarrow> dns_log \<Rightarrow> bool \<times> dns_log" where
  "delete_dns_record E sub ip port lg =
     (if \<not> dns_on E then (True, lg)
      else let (p, v) = port_record E sub port in
        change_records E [DeleteRecord (fqdn E sub) ''A'' ip, DeleteRecord p ''TXT'' v] lg)"

definition format_ssh_command_with_domain :: "dns_env \<Rightarrow> string \<Rightarrow> int \<Rightarrow> string" where
  "format_ssh_command_with_domain E sub port =
     (if DOMAIN_NAME E = [] then [] else ''ssh -p '' @ str_int port @ '' dev@'' @ sub @ ''.'' @ DOMAIN_NAME E)"

text \<open>The condition of the write, as DynamoDB evaluates it: a text is never less than a number.\<close>

definition may_replace :: "row option \<Rightarrow> int \<Rightarrow> bool" where
  "may_replace old now =
     (case old of None \<Rightarrow> True
      | Some r \<Rightarrow> (case dget r ''expires_at'' of None \<Rightarrow> True | Some (DNum q) \<Rightarrow> q < of_int now | Some _ \<Rightarrow> False))"

datatype put_answer = Stored | ConditionFailed | PutBroken

definition put_mapping :: "dns_env \<Rightarrow> row \<Rightarrow> string \<Rightarrow> bool \<Rightarrow> dns_log \<Rightarrow> put_answer \<times> dns_log" where
  "put_mapping E item sub force lg =
     (let ans = (if table_down E lg then PutBroken
                 else if force \<or> may_replace (mapping_of E lg sub) (ftrunc (wall_clock E lg)) then Stored
                 else ConditionFailed) in
      (ans, PutMapping item force (ans = Stored) # lg))"

definition store_domain_mapping :: "dns_env \<Rightarrow> string \<Rightarrow> string \<Rightarrow> int \<Rightarrow> string \<Rightarrow> int \<Rightarrow> dns_log \<Rightarrow> bool \<times> dns_log" where
  "store_domain_mapping E sub ip port rid expires lg =
     (if MAPPINGS_TABLE E = [] then (True, lg)
      else
        let item = [(''domain_name'', DStr sub), (''node_ip'', DStr ip), (''node_port'', DNum (of_int port)),
                    (''reservation_id'', DStr rid), (''expires_at'', DNum (of_int expires))] in
        (case put_mapping E item sub False lg of
           (Stored, lg) \<Rightarrow> (True, lg)
         | (PutBroken, lg) \<Rightarrow> (False, lg)
         | (ConditionFailed, lg) \<Rightarrow>
             if table_down E lg then (False, GotMapping sub # lg)
             else
               (case expiry_of E (dget_or (case mapping_of E lg sub of None \<Rightarrow> [] | Some r \<Rightarrow> r) ''expires_at'' (DNum 0)) of
                  None \<Rightarrow> (False, GotMapping sub # lg)
                | Some t \<Rightarrow>
                    let lg = GotMapping sub # lg in
                    if t < wall_clock E lg
                    then (case put_mapping E item sub True lg of (ans, lg) \<Rightarrow> (ans = Stored, lg))
                    else (False, lg))))"

definition delete_domain_mapping :: "dns_env \<Rightarrow> string \<Rightarrow> dns_log \<Rightarrow> bool \<times> dns_log" where
  "delete_domain_mapping E sub lg =
     (if MAPPINGS_TABLE E = [] then (True, lg)
      else (\<not> table_down E lg, DeletedMapping sub (\<not> table_down E lg) # lg))"

subsection \<open>The SSH proxy\<close>

text \<open>
  \<open>ssh-proxy/proxy.py\<close>: the target of a host name, from the row that the mapping table has for its first label. \<open>row\<close> is the
  answer of the table, \<open>Inl ()\<close> an exception. The connection itself is not modelled, only the decision before it.
\<close>

fun int_of_ddb :: "ddb \<Rightarrow> int option" where
  \<comment> \<open>\<open>int(v)\<close>\<close>
  "int_of_ddb (DNum q) = Some (ftrunc q)"
| "int_of_ddb (DStr s) = py_int s"
| "int_of_ddb (DBool b) = Some (if b then 1 else 0)"
| "int_of_ddb _ = None"

definition ddb_or :: "ddb \<Rightarrow> ddb \<Rightarrow> ddb" where
  "ddb_or a b = (if ddb_true a then a else b)"

definition subdomain_of :: "string \<Rightarrow> string" where
  "subdomain_of host = hd (split_on CHR ''.'' host)"

definition get_target_from_hostname :: "string \<Rightarrow> (string \<Rightarrow> unit + row option) \<Rightarrow> string \<Rightarrow> (ddb \<times> int) option" where
  "get_target_from_hostname table get host =
     (if table = [] then None
      else
        (case get (subdomain_of host) of
           Inr (Some r) \<Rightarrow>
             map_option (\<lambda>p. (ddb_or (attr r ''target_host'') (attr r ''node_ip''), p))
               (int_of_ddb (ddb_or (attr r ''target_port'') (dget_or r ''node_port'' (DNum 22))))
         | _ \<Rightarrow> None))"

datatype tunnel = Close int string | Tunnel ddb int

definition handle_connection :: "string \<Rightarrow> (string \<Rightarrow> unit + row option) \<Rightarrow> string \<Rightarrow> tunnel" where
  "handle_connection table get path =
     (if \<not> startswith path ''/tunnel/'' then Close 4000 ''Invalid path - use /tunnel/<hostname>''
      else
        let host = drop 8 path in
        if host = [] then Close 4000 ''Hostname required''
        else
          (case get_target_from_hostname table get host of
             Some (ip, port) \<Rightarrow>
               if \<not> ddb_true ip \<or> port = 0 then Close 4004 (''Host not found: '' @ host) else Tunnel ip port
           | None \<Rightarrow> Close 4004 (''Host not found: '' @ host)))"

end
