(* ===== verification/Gpu_Dns_Properties.thy ===== *)
theory Gpu_Dns_Properties
  imports Gpu_Dns
begin

section \<open>Properties of the names of reservations\<close>

text \<open>
  A generated name is a label of the domain and new; a mapping in use is not overwritten; and the records that are created are not
  the ones that are deleted.
\<close>

subsection \<open>Labels\<close>

definition label_char :: "char \<Rightarrow> bool" where
  "label_char c = (is_lower c \<or> is_digit c \<or> c = CHR ''_'' \<or> c = CHR ''-'')"

definition label_ok :: "string \<Rightarrow> bool" where
  "label_ok n = (n \<noteq> [] \<and> length n \<le> 63 \<and> (\<forall>c \<in> set n. label_char c) \<and> \<not> is_edge (hd n) \<and> \<not> is_edge (last n))"

lemma set_replace_hyphens: "set (replace_hyphens s) \<subseteq> set s"
  by (induction s rule: replace_hyphens.induct) auto

lemma set_single_hyphens: "set (single_hyphens s) \<subseteq> set s"
proof (induction s rule: single_hyphens.induct)
  case (1 s)
  then show ?case using set_replace_hyphens [of s] by (subst single_hyphens.simps) auto
qed

lemma rstrip_edge_prefix: "\<exists>t. s = rstrip_edge s @ t"
proof -
  have "s = rev (dropWhile is_edge (rev s)) @ rev (takeWhile is_edge (rev s))"
    by (metis rev_append rev_rev_ident takeWhile_dropWhile_id)
  then show ?thesis unfolding rstrip_edge_def by blast
qed

lemma rstrip_edge_last: "rstrip_edge s \<noteq> [] \<Longrightarrow> \<not> is_edge (last (rstrip_edge s))"
  by (simp add: rstrip_edge_def last_rev hd_dropWhile)

lemma rstrip_edge_hd: "rstrip_edge s \<noteq> [] \<Longrightarrow> hd (rstrip_edge s) = hd s"
  using rstrip_edge_prefix [of s] by (metis hd_append2)

lemma rstrip_edge_set: "set (rstrip_edge s) \<subseteq> set s"
  using rstrip_edge_prefix [of s] by (metis Un_upper1 set_append)

lemma rstrip_edge_length: "length (rstrip_edge s) \<le> length s"
  using rstrip_edge_prefix [of s] by (metis length_append le_add1)

lemma strip_edges_ok:
  "strip_edges s \<noteq> [] \<Longrightarrow> \<not> is_edge (hd (strip_edges s)) \<and> \<not> is_edge (last (strip_edges s))"
  unfolding strip_edges_def
  by (metis hd_dropWhile list.size(3) rstrip_edge_hd rstrip_edge_last rstrip_edge_length le_zero_eq length_0_conv)

lemma strip_edges_set: "set (strip_edges s) \<subseteq> set s"
  using rstrip_edge_set [of "dropWhile is_edge s"] set_dropWhileD [of _ is_edge s] unfolding strip_edges_def by blast

lemma keep_char_label: "c \<in> set (keep_char d) \<Longrightarrow> label_char c"
  by (auto simp: keep_char_def label_char_def split: if_splits)

lemma clean_name_ok: "clean_name name \<noteq> [] \<Longrightarrow> label_ok (clean_name name)"
proof -
  assume ne: "clean_name name \<noteq> []"
  define s where "s = strip_edges (single_hyphens (concat (map keep_char (lower name))))"
  have chars: "\<forall>c \<in> set s. label_char c"
  proof
    fix c assume "c \<in> set s"
    then have "c \<in> set (concat (map keep_char (lower name)))"
      using strip_edges_set set_single_hyphens unfolding s_def by blast
    then obtain d where "c \<in> set (keep_char d)" by (metis (mono_tags, lifting) in_set_conv_decomp image_iff list.set_map set_concat UN_iff)
    then show "label_char c" by (rule keep_char_label)
  qed
  have clean: "clean_name name = (if length s > 63 then rstrip_edge (take 63 s) else s)"
    by (simp add: clean_name_def s_def)
  show ?thesis
  proof (cases "length s > 63")
    case True
    have c: "clean_name name = rstrip_edge (take 63 s)" using True clean by simp
    have "s \<noteq> []" using True by auto
    then have "\<not> is_edge (hd s)" using strip_edges_ok unfolding s_def by blast
    moreover have "hd (rstrip_edge (take 63 s)) = hd s" using rstrip_edge_hd [of "take 63 s"] ne c \<open>s \<noteq> []\<close> by simp
    moreover have "set (rstrip_edge (take 63 s)) \<subseteq> set s" using rstrip_edge_set [of "take 63 s"] set_take_subset by fast
    moreover have "length (rstrip_edge (take 63 s)) \<le> 63" using rstrip_edge_length [of "take 63 s"] by simp
    ultimately show ?thesis using chars ne rstrip_edge_last [of "take 63 s"] unfolding label_ok_def c by auto
  next
    case False
    then show ?thesis using ne chars strip_edges_ok unfolding clean label_ok_def by (simp add: s_def)
  qed
qed

definition word_ok :: "string \<Rightarrow> bool" where
  "word_ok w = (w \<noteq> [] \<and> length w \<le> 30 \<and> list_all is_lower w)"

lemma adjectives_ok: "list_all word_ok ADJECTIVES"
  by code_simp

lemma animals_ok: "list_all word_ok ANIMALS"
  by code_simp

lemma names_nonempty: "ADJECTIVES \<noteq> []" "ANIMALS \<noteq> []"
  by (simp_all add: ADJECTIVES_def ANIMALS_def)

lemma random_of_in: "xs \<noteq> [] \<Longrightarrow> fst (random_of E xs lg) \<in> set xs"
  by (simp add: random_of_def Let_def)

lemma is_lower_not_edge: "is_lower c \<Longrightarrow> \<not> is_edge c"
  by (auto simp: is_lower_def is_edge_def)

lemma word_label: "word_ok a \<Longrightarrow> word_ok b \<Longrightarrow> label_ok (a @ ''_'' @ b)"
proof -
  assume ab: "word_ok a" "word_ok b"
  have a: "a \<noteq> []" "length a \<le> 30" "\<forall>c \<in> set a. is_lower c" and b: "b \<noteq> []" "length b \<le> 30" "\<forall>c \<in> set b. is_lower c"
    using ab by (simp_all add: word_ok_def list_all_iff)
  have "is_lower (hd a)" "is_lower (last b)" using a b by simp_all
  then show ?thesis using a b by (auto simp: label_ok_def label_char_def is_lower_not_edge)
qed

lemma generate_random_name_ok: "label_ok (fst (generate_random_name E lg))"
proof -
  obtain a lg1 where a: "random_of E ADJECTIVES lg = (a, lg1)" by (cases "random_of E ADJECTIVES lg")
  obtain b lg2 where b: "random_of E ANIMALS lg1 = (b, lg2)" by (cases "random_of E ANIMALS lg1")
  have "a \<in> set ADJECTIVES" "b \<in> set ANIMALS"
    using random_of_in [OF names_nonempty(1), of E lg] random_of_in [OF names_nonempty(2), of E lg1] a b by simp_all
  then have "word_ok a" "word_ok b" using adjectives_ok animals_ok by (simp_all add: list_all_iff)
  then show ?thesis using word_label by (simp add: generate_random_name_def a b)
qed

text \<open>Whatever a user asks for becomes a name of the domain. For every text that is not empty the sanitised name is not empty, has at
  most 63 characters, lower case letters, digits, hyphens and underscores only, and begins and ends with a letter or digit.\<close>

theorem sanitize_name_ok:
  assumes "name \<noteq> []"
  shows "label_ok (fst (sanitize_name E name lg))"
  using assms clean_name_ok generate_random_name_ok by (simp add: sanitize_name_def)

subsection \<open>Fresh names\<close>

definition free_label :: "dns_env \<Rightarrow> string list \<Rightarrow> string \<Rightarrow> bool" where
  "free_label E existing n = (is_free E existing n \<and> label_ok n)"

lemma label_char_digit: "is_digit c \<Longrightarrow> label_char c \<and> \<not> is_edge c"
  by (auto simp: label_char_def is_edge_def is_digit_def)

lemma numbered_ok: "label_ok b \<Longrightarrow> 0 \<le> i \<Longrightarrow> length (b @ ''-'' @ str_int i) \<le> 63 \<Longrightarrow> label_ok (b @ ''-'' @ str_int i)"
proof -
  assume b: "label_ok b" "0 \<le> i" "length (b @ ''-'' @ str_int i) \<le> 63"
  have s: "str_int i \<noteq> []" "\<forall>c \<in> set (str_int i). is_digit c"
    using b(2) str_nat_digits [of "nat i"] by (simp_all add: str_int_def)
  then have "is_digit (last (str_int i))" by simp
  then show ?thesis using b s label_char_digit by (auto simp: label_ok_def label_char_def [of "CHR ''-''"])
qed

lemma numbered_name_ok:
  "label_ok b \<Longrightarrow> \<forall>i \<in> set is. 0 \<le> i \<Longrightarrow> numbered_name E existing b is = Some c \<Longrightarrow> free_label E existing c"
  by (induction "is") (auto simp: free_label_def Let_def numbered_ok [simplified] split: if_splits)

lemma free_random_name_ok: "free_random_name E existing k lg = (Some n, lg') \<Longrightarrow> free_label E existing n"
proof (induction k arbitrary: lg)
  case (Suc k)
  obtain m lg1 where m: "generate_random_name E lg = (m, lg1)" by (cases "generate_random_name E lg")
  then show ?case using Suc generate_random_name_ok [of E lg] by (auto simp: free_label_def split: if_splits)
qed simp

lemma reserved_short: "is_reserved_name E n \<Longrightarrow> length n \<le> 5"
proof -
  assume "is_reserved_name E n"
  then have "length (lower n) \<le> 5" by (auto simp: is_reserved_name_def)
  then show ?thesis by (simp add: lower_def)
qed

lemma base_name_ok: "label_ok (fst (base_name E preferred lg))"
proof -
  have ok: "label_ok (fst (case (if b = [] then generate_random_name E l else (b, l)) of
      (b, l) \<Rightarrow> (if is_reserved_name E b then b @ ''-alt'' else b, l)))" if "b = [] \<or> label_ok b" for b l
  proof -
    obtain n l' where n: "(if b = [] then generate_random_name E l else (b, l)) = (n, l')" by fastforce
    have lab: "label_ok n" using n that generate_random_name_ok [of E l] by (auto split: if_splits)
    have "label_ok (n @ ''-alt'')" if "is_reserved_name E n"
      using lab reserved_short [OF that] by (auto simp: label_ok_def label_char_def is_lower_def is_edge_def)
    then show ?thesis using lab by (simp add: n)
  qed
  show ?thesis
  proof (cases "preferred = None \<or> preferred = Some []")
    case True
    then show ?thesis using generate_random_name_ok by (auto simp: base_name_def)
  next
    case False
    then obtain c s where p: "preferred = Some (c # s)" by (metis list.exhaust option.exhaust)
    obtain b l where b: "sanitize_name E (c # s) lg = (b, l)" by (cases "sanitize_name E (c # s) lg")
    have "label_ok b" using sanitize_name_ok [of "c # s" E lg] b by simp
    then show ?thesis using ok [of b l] by (simp add: base_name_def p b)
  qed
qed

definition last_resort :: "dns_env \<Rightarrow> dns_log \<Rightarrow> string" where
  "last_resort E lg = ''dev-'' @ str_int (ftrunc (wall_clock E lg))"

lemma numbered_none:
  "numbered_name E ex b is = None \<Longrightarrow> \<forall>i \<in> set is. length (b @ ''-'' @ str_int i) \<le> 63 \<longrightarrow> \<not> is_free E ex (b @ ''-'' @ str_int i)"
  by (induction "is") (auto simp: Let_def split: if_splits)

text \<open>Two reservations do not get the same name. The generated name is a label of the domain that is not reserved and not among
  the existing names that were read at the beginning; only if all 998 numbered variants of the wanted name and a hundred random names
  are taken, it is the time instead.\<close>

theorem unique_name_fresh:
  assumes "generate_unique_name E preferred lg = (n, lg')"
  shows "free_label E (fst (get_existing_dns_names E lg)) n \<or> n = last_resort E lg' \<and>
    (\<exists>b. \<forall>i \<in> {2..999}. length (b @ ''-'' @ str_int i) \<le> 63 \<longrightarrow> \<not> is_free E (fst (get_existing_dns_names E lg)) (b @ ''-'' @ str_int i))"
proof -
  obtain ex lg1 where ex: "get_existing_dns_names E lg = (ex, lg1)" by (cases "get_existing_dns_names E lg")
  obtain b lg2 where b: "base_name E preferred lg1 = (b, lg2)" by (cases "base_name E preferred lg1")
  have lab: "label_ok b" using base_name_ok [of E preferred lg1] b by simp
  define xs where "xs = [2..(999 :: int)]"
  have xs: "set xs = {2..999}" unfolding xs_def by (rule set_upto)
  obtain r lg3 where r: "free_random_name E ex 100 lg2 = (r, lg3)" by (cases "free_random_name E ex 100 lg2")
  have n: "(n, lg') = (if is_free E ex b then (b, lg2)
      else case numbered_name E ex b xs of Some c \<Rightarrow> (c, lg2)
        | None \<Rightarrow> (case r of Some m \<Rightarrow> (m, lg3) | None \<Rightarrow> (last_resort E lg3, lg3)))"
    using assms unfolding generate_unique_name_def ex b xs_def [symmetric] last_resort_def prod.case r
    by (simp split: option.splits)
  consider (base) "is_free E ex b" | (numbered) c where "\<not> is_free E ex b" "numbered_name E ex b xs = Some c"
    | (random) m where "\<not> is_free E ex b" "numbered_name E ex b xs = None" "r = Some m"
    | (resort) "\<not> is_free E ex b" "numbered_name E ex b xs = None" "r = None"
    by (cases "numbered_name E ex b xs"; cases r) blast+
  then show ?thesis
  proof cases
    case base
    then show ?thesis using n lab by (simp add: ex free_label_def)
  next
    case (numbered c)
    have "free_label E ex c" by (rule numbered_name_ok [OF lab _ numbered(2)]) (simp add: xs)
    then show ?thesis using n numbered by (simp add: ex)
  next
    case (random m)
    have "free_label E ex m" by (rule free_random_name_ok [OF r [unfolded random(3)]])
    then show ?thesis using n random by (simp add: ex)
  next
    case resort
    have "\<forall>i \<in> set xs. length (b @ ''-'' @ str_int i) \<le> 63 \<longrightarrow> \<not> is_free E ex (b @ ''-'' @ str_int i)"
      by (rule numbered_none [OF resort(2)])
    moreover have "n = last_resort E lg'" using n resort by simp
    ultimately show ?thesis unfolding ex fst_conv xs by blast
  qed
qed

definition dns_example :: dns_env where
  "dns_example =
     \<lparr>DOMAIN_NAME = ''devservers.io'', HOSTED_ZONE_ID = ''Z1'', MAPPINGS_TABLE = ''m'', ALB_DNS = ''alb'', choice = (\<lambda>_ _. 0),
      wall_clock = (\<lambda>_. 100),
      mappings = (\<lambda>_. Some [[(''domain_name'', DStr ''my-box''), (''expires_at'', DNum 200)], [(''domain_name'', DStr ''old''), (''expires_at'', DNum 50)]]),
      zone_records = (\<lambda>_. None), iso_stamp = (\<lambda>_. None), change_zone = (\<lambda>_ _. Applied), table_down = (\<lambda>_. False), mapping_of = (\<lambda>_ _. None)\<rparr>"

theorem unique_name_fresh_witness:
  "fst (generate_unique_name dns_example (Some ''old'') []) = ''old'' \<and> free_label dns_example [''my-box''] ''old''"
proof -
  have ex: "get_existing_dns_names dns_example [] = ([''my-box''], [ScannedMappings])"
    by (simp add: get_existing_dns_names_def dns_example_def live_mapping_def List.map_filter_def dget_or_def dict_simps)
  have c: "clean_name ''old'' = ''old''" by code_simp
  have g: "generate_unique_name dns_example (Some ''old'') [] = (''old'', [ScannedMappings])"
    by (simp add: generate_unique_name_def ex base_name_def sanitize_name_def c is_free_def is_reserved_name_def lower_def lower_char_def)
  have "last_resort dns_example l \<noteq> ''old''" for l by (simp add: last_resort_def)
  then have "free_label dns_example [''my-box''] ''old''" using unique_name_fresh [OF g] unfolding ex fst_conv by metis
  then show ?thesis using g by (simp only: fst_conv simp_thms)
qed

subsection \<open>Records\<close>

text \<open>
  The part of Route53's contract that matters: a batch is applied as a whole, the deletion of a record that does not exist
  rejects it, and a name with a \<open>CNAME\<close> has no record of another type. \<open>zone\<close> are the records before the next call.
\<close>

definition route53 :: "dns_env \<Rightarrow> (dns_log \<Rightarrow> (string \<times> string \<times> string) set) \<Rightarrow> bool" where
  "route53 E zone =
     ((\<forall>lg cs n t v. DeleteRecord n t v \<in> set cs \<longrightarrow> (n, t, v) \<notin> zone lg \<longrightarrow> change_zone E lg cs \<noteq> Applied) \<and>
      (\<forall>lg n v t w. (n, ''CNAME'', v) \<in> zone lg \<longrightarrow> (n, t, w) \<in> zone lg \<longrightarrow> t = ''CNAME''))"

text \<open>A record that was created is never deleted. \<open>create_dns_record\<close> makes a \<open>CNAME\<close>, but \<open>delete_dns_record\<close> asks for the
  deletion of an \<open>A\<close> record: while the \<open>CNAME\<close> of a reservation is in the zone, the deletion fails for every address and port.\<close>

theorem dns_record_stays:
  assumes "route53 E zone" "dns_on E" "(fqdn E sub, ''CNAME'', v) \<in> zone lg"
  shows "fst (delete_dns_record E sub ip port lg) = False"
proof -
  have "(fqdn E sub, ''A'', ip) \<notin> zone lg" using assms(1,3) unfolding route53_def by fastforce
  then have "change_zone E lg [DeleteRecord (fqdn E sub) ''A'' ip, DeleteRecord p ''TXT'' w] \<noteq> Applied" for p w
    using assms(1) unfolding route53_def by (meson list.set_intros(1))
  then show ?thesis using assms(2) by (simp add: delete_dns_record_def change_records_def split: prod.splits)
qed

definition dns_zone :: "dns_log \<Rightarrow> (string \<times> string \<times> string) set" where
  "dns_zone lg = (if lg = [] then {} else {(''my-box.devservers.io'', ''CNAME'', ''alb'')})"

definition dns_zone_example :: dns_env where
  "dns_zone_example = dns_example\<lparr>change_zone :=
     (\<lambda>lg cs. if \<exists>c \<in> set cs. case c of DeleteRecord n t v \<Rightarrow> (n, t, v) \<notin> dns_zone lg | CreateRecord n t v \<Rightarrow> (n, t, v) \<in> dns_zone lg
              then ClientError ''InvalidChangeBatch'' else Applied)\<rparr>"

theorem dns_record_stays_witness:
  "\<exists>lg. create_dns_record dns_zone_example ''my-box'' ''10.0.0.1'' 30000 [] = (True, lg) \<and>
     fst (delete_dns_record dns_zone_example ''my-box'' ''10.0.0.1'' 30000 lg) = False"
proof -
  have z: "route53 dns_zone_example dns_zone"
    by (force simp: route53_def dns_zone_example_def dns_zone_def split: if_splits)
  obtain lg where c: "create_dns_record dns_zone_example ''my-box'' ''10.0.0.1'' 30000 [] = (True, lg)" "lg \<noteq> []"
    by (simp add: create_dns_record_def dns_on_def change_records_def dns_zone_example_def dns_example_def dns_zone_def port_record_def)
  have "(fqdn dns_zone_example ''my-box'', ''CNAME'', ''alb'') \<in> dns_zone lg"
    using c(2) by (simp add: dns_zone_def fqdn_def dns_zone_example_def dns_example_def)
  from dns_record_stays [OF z _ this] c(1) show ?thesis by (auto simp: dns_on_def dns_zone_example_def dns_example_def)
qed

subsection \<open>Mappings\<close>

definition stored_mapping :: "dns_event \<Rightarrow> row option" where
  "stored_mapping e = (case e of PutMapping item _ True \<Rightarrow> Some item | _ \<Rightarrow> None)"

text \<open>A name in use keeps its target. If the table has, at both accesses of \<open>store_domain_mapping\<close>, a row for this name whose
  numeric expiry has not passed, then nothing is stored and the function reports a failure.\<close>

theorem live_mapping_kept:
  assumes "MAPPINGS_TABLE E \<noteq> []" "\<forall>lg. mapping_of E lg sub = Some r \<and> wall_clock E lg \<le> fl q \<and> of_int (ftrunc (wall_clock E lg)) \<le> q"
    "dget r ''expires_at'' = Some (DNum q)" "store_domain_mapping E sub ip port rid expires lg = (ok, lg')"
  shows "\<not> ok \<and> (\<exists>es. lg' = es @ lg \<and> (\<forall>e \<in> set es. stored_mapping e = None))"
proof -
  have no: "\<not> may_replace (mapping_of E lg sub) (ftrunc (wall_clock E lg))" for lg
    using assms(2,3) by (simp add: may_replace_def not_less)
  have ex: "expiry_of E (dget_or (case mapping_of E lg sub of None \<Rightarrow> [] | Some r \<Rightarrow> r) ''expires_at'' (DNum 0)) = Some (fl q)" for lg
    using assms(2,3) by (simp add: dget_or_def)
  have late: "\<not> fl q < wall_clock E lg" for lg using assms(2) by (simp add: not_less)
  show ?thesis
    using assms(1,4) no ex late
    by (auto simp: store_domain_mapping_def put_mapping_def stored_mapping_def Let_def split: if_splits)
qed

definition taken_example :: dns_env where
  "taken_example = dns_example\<lparr>mapping_of := (\<lambda>_ _. Some [(''domain_name'', DStr ''my-box''), (''expires_at'', DNum 200)])\<rparr>"

theorem live_mapping_kept_witness:
  "fst (store_domain_mapping taken_example ''my-box'' ''10.0.0.2'' 30001 ''r-2'' 300 []) = False"
proof -
  obtain ok lg' where s: "store_domain_mapping taken_example ''my-box'' ''10.0.0.2'' 30001 ''r-2'' 300 [] = (ok, lg')"
    by (cases "store_domain_mapping taken_example ''my-box'' ''10.0.0.2'' 30001 ''r-2'' 300 []")
  have "\<forall>lg. mapping_of taken_example lg ''my-box'' = Some [(''domain_name'', DStr ''my-box''), (''expires_at'', DNum 200)] \<and>
      wall_clock taken_example lg \<le> fl 200 \<and> of_int (ftrunc (wall_clock taken_example lg)) \<le> (200 :: rat)"
    by (simp add: taken_example_def dns_example_def ftrunc_def)
  from live_mapping_kept [OF _ this _ s] show ?thesis
    using s by (simp add: taken_example_def dns_example_def dict_simps)
qed

subsection \<open>From the name to the machine\<close>

lemma label_no_dot: "label_ok n \<Longrightarrow> CHR ''.'' \<notin> set n"
  by (auto simp: label_ok_def label_char_def is_lower_def is_digit_def)

lemma subdomain_of_label: "CHR ''.'' \<notin> set n \<Longrightarrow> subdomain_of (n @ ''.'' @ d) = n"
  using split_on_Cons [of "CHR ''.''" n d] by (simp add: subdomain_of_def split_on_plain)

lemma stored_item:
  "store_domain_mapping E sub ip port rid expires lg = (True, lg') \<Longrightarrow> MAPPINGS_TABLE E \<noteq> [] \<Longrightarrow>
    List.map_filter stored_mapping (take (length lg' - length lg) lg') =
      [[(''domain_name'', DStr sub), (''node_ip'', DStr ip), (''node_port'', DNum (of_int port)), (''reservation_id'', DStr rid),
        (''expires_at'', DNum (of_int expires))]]"
  by (auto simp: store_domain_mapping_def put_mapping_def stored_mapping_def Let_def map_filter_simps split: if_splits option.splits)

text \<open>C37: a user who follows the name reaches the machine. The row that \<open>store_domain_mapping\<close> stores for a name of the domain is read by
  the SSH proxy, for the host name of the same name in the domain, as exactly the address and port that were stored.\<close>

theorem proxy_finds_mapping:
  assumes "store_domain_mapping E sub ip port rid expires lg = (True, lg')" "MAPPINGS_TABLE E \<noteq> []" "label_ok sub" "ip \<noteq> []" "port \<noteq> 0"
  shows "\<exists>item. List.map_filter stored_mapping (take (length lg' - length lg) lg') = [item] \<and>
    handle_connection (MAPPINGS_TABLE E) (\<lambda>n. Inr (if n = sub then Some item else None)) (''/tunnel/'' @ fqdn E sub) = Tunnel (DStr ip) port"
proof -
  have sub: "subdomain_of (fqdn E sub) = sub" unfolding fqdn_def by (rule subdomain_of_label [OF label_no_dot [OF assms(3)]])
  have ne: "fqdn E sub \<noteq> []" by (simp add: fqdn_def)
  have "ftrunc (of_int port) = port" by (simp add: ftrunc_def)
  then show ?thesis
    using stored_item [OF assms(1,2)] assms(2,4,5) ne
    by (simp add: handle_connection_def startswith_def get_target_from_hostname_def sub ddb_or_def dget_or_def dict_simps)
qed

theorem proxy_finds_mapping_witness:
  "\<exists>item. handle_connection ''m'' (\<lambda>n. Inr (if n = ''my-box'' then Some item else None)) ''/tunnel/my-box.devservers.io'' = Tunnel (DStr ''10.0.0.1'') 30000"
proof -
  obtain lg' where s: "store_domain_mapping dns_example ''my-box'' ''10.0.0.1'' 30000 ''r-1'' 300 [] = (True, lg')"
    by (simp add: store_domain_mapping_def put_mapping_def dns_example_def may_replace_def)
  have l: "label_ok ''my-box''" by code_simp
  from proxy_finds_mapping [OF s _ l] show ?thesis by (auto simp: dns_example_def fqdn_def)
qed

end
