(* ===== verification/Image_Janitor.thy ===== *)
theory Image_Janitor
  imports Py_Json
begin

section \<open>The image cache janitor\<close>

text \<open>
  \<open>base/kubernetes/image-cache-janitor/scripts/python/janitor_lib.py\<close>, the functions of the script in \<open>configmap.yaml\<close>: the images
  of a node, which of them are removed when the cache is over its limit, the counters, and the cycle of the script around them. The
  answers of \<open>crictl\<close>, the clock and the texts of numbers are parameters. The properties follow at the end.
\<close>

record image =
  im_id :: string
  repo_tags :: "string list"
  repo_digests :: "string list"
  im_size :: int
  pinned :: bool

fun texts_of :: "json list \<Rightarrow> string list option" where
  "texts_of [] = Some []"
| "texts_of (JStr s # js) = map_option ((#) s) (texts_of js)"
| "texts_of _ = None"

text \<open>\<open>None\<close> is an exception. Identifiers and tags are texts, and sizes whole numbers or texts of them, as \<open>crictl\<close> prints them.\<close>

definition parse_image :: "json \<Rightarrow> image option" where
  "parse_image j =
     Option.bind (json_get j ''size'' (jint 0)) (\<lambda>sz.
     Option.bind (case sz of JStr s \<Rightarrow> py_int s | JNum q \<Rightarrow> Some \<lfloor>q\<rfloor> | _ \<Rightarrow> None) (\<lambda>n.
     Option.bind (json_get j ''id'' (JStr '''')) (\<lambda>i. case i of JStr i \<Rightarrow>
     Option.bind (json_get j ''repoTags'' JNull) (\<lambda>t.
     Option.bind (Option.bind (json_list (json_or t (JArr []))) texts_of) (\<lambda>tags.
     Option.bind (json_get j ''repoDigests'' JNull) (\<lambda>d.
     Option.bind (Option.bind (json_list (json_or d (JArr []))) texts_of) (\<lambda>digests.
     map_option (\<lambda>p. \<lparr>im_id = i, repo_tags = tags, repo_digests = digests, im_size = n, pinned = json_true p\<rparr>)
       (json_get j ''pinned'' (JBool False)))))) | _ \<Rightarrow> None)))"

fun parse_images :: "json list \<Rightarrow> image list option" where
  "parse_images [] = Some []"
| "parse_images (j # js) = Option.bind (parse_image j) (\<lambda>i. map_option ((#) i) (parse_images js))"

definition parse_crictl_images :: "(string \<Rightarrow> json option) \<Rightarrow> string \<Rightarrow> image list option" where
  "parse_crictl_images loads s =
     Option.bind (loads s) (\<lambda>data.
     Option.bind (json_get data ''images'' (JArr [])) (\<lambda>js.
     Option.bind (json_list js) parse_images))"

definition calculate_total_cache_size :: "image list \<Rightarrow> int" where
  "calculate_total_cache_size images = sum_list (map im_size images)"

fun take_until :: "int \<Rightarrow> int \<Rightarrow> image list \<Rightarrow> image list" where
  \<comment> \<open>the loop over the removable images, with the projected size\<close>
  "take_until target projected [] = []"
| "take_until target projected (i # is) = (if projected \<le> target then [] else i # take_until target (projected - im_size i) is)"

definition removable :: "image list \<Rightarrow> image list" where
  "removable images = sorted_by_desc im_size (filter (\<lambda>i. \<not> pinned i) images)"

definition select_images_to_remove :: "image list \<Rightarrow> int \<Rightarrow> int \<Rightarrow> int \<Rightarrow> image list" where
  "select_images_to_remove images total_size limit target =
     (if total_size \<le> limit then [] else take_until target total_size (removable images))"

subsection \<open>Metrics\<close>

definition METRIC_DEFS :: "(string \<times> string \<times> string) list" where
  "METRIC_DEFS =
     [(''image_cache_janitor_cache_size_bytes'', ''gauge'', ''Total size of container image cache in bytes''),
      (''image_cache_janitor_cache_image_count'', ''gauge'', ''Number of container images in the cache''),
      (''image_cache_janitor_gc_cycles_total'', ''counter'', ''Total number of GC check cycles run''),
      (''image_cache_janitor_gc_evictions_total'', ''counter'', ''Total number of images evicted''),
      (''image_cache_janitor_gc_eviction_errors_total'', ''counter'', ''Total number of image eviction failures (in-use images)''),
      (''image_cache_janitor_gc_evicted_bytes_total'', ''counter'', ''Total bytes freed by eviction''),
      (''image_cache_janitor_last_cycle_timestamp'', ''gauge'', ''Unix timestamp of the last GC cycle''),
      (''image_cache_janitor_cache_limit_bytes'', ''gauge'', ''Configured cache size limit in bytes''),
      (''image_cache_janitor_cache_target_bytes'', ''gauge'', ''Configured cache target size in bytes'')]"

type_synonym meters = "(string, flt) dict"

definition new_meters :: meters where
  "new_meters = map (\<lambda>(n, _). (n, 0)) METRIC_DEFS"

definition meter_set :: "string \<Rightarrow> flt \<Rightarrow> meters \<Rightarrow> meters" where
  "meter_set n v ms = dset n v ms"

definition meter_inc :: "string \<Rightarrow> flt \<Rightarrow> meters \<Rightarrow> meters" where
  "meter_inc n d ms = dset n (fadd (dget_or ms n 0) d) ms"

definition meter_text :: "(flt \<Rightarrow> string) \<Rightarrow> meters \<Rightarrow> string" where
  \<comment> \<open>\<open>format\<close>\<close>
  "meter_text show_float ms =
     join_on CHR 0x0A
       (concat (map (\<lambda>(n, t, h). [''# HELP '' @ n @ '' '' @ h, ''# TYPE '' @ n @ '' '' @ t, n @ '' '' @ show_float (dget_or ms n 0)]) METRIC_DEFS)
        @ [''''])"

subsection \<open>The cycle\<close>

datatype jevent = ListedImages | RemovedImage string bool

type_synonym jlog = "jevent list"

record jenv =
  images_out :: "jlog \<Rightarrow> string option" \<comment> \<open>\<open>None\<close>: a \<open>CalledProcessError\<close>\<close>
  jloads :: "string \<Rightarrow> json option"
  rmi :: "jlog \<Rightarrow> string \<Rightarrow> bool"
  jtime :: "jlog \<Rightarrow> flt"
  LIMIT_BYTES :: int
  TARGET_BYTES :: int

fun evict :: "jenv \<Rightarrow> image list \<Rightarrow> meters \<times> jlog \<Rightarrow> meters \<times> jlog" where
  "evict E [] s = s"
| "evict E (i # is) (ms, lg) =
     (let ok = rmi E lg (im_id i); lg = RemovedImage (im_id i) ok # lg in
      evict E is
        (if ok then meter_inc ''image_cache_janitor_gc_evicted_bytes_total'' (fi (im_size i))
                      (meter_inc ''image_cache_janitor_gc_evictions_total'' 1 ms)
         else meter_inc ''image_cache_janitor_gc_eviction_errors_total'' 1 ms, lg))"

definition run_gc_cycle :: "jenv \<Rightarrow> meters \<times> jlog \<Rightarrow> bool \<times> meters \<times> jlog" where
  \<comment> \<open>\<open>False\<close>: an exception leaves the cycle\<close>
  "run_gc_cycle E s =
     (let lg = snd s;
          ms = meter_set ''image_cache_janitor_last_cycle_timestamp'' (jtime E lg)
                 (meter_inc ''image_cache_janitor_gc_cycles_total'' 1 (fst s)) in
      case images_out E lg of
        None \<Rightarrow> (True, ms, ListedImages # lg)
      | Some out \<Rightarrow>
          let lg = ListedImages # lg in
          (case parse_crictl_images (jloads E) out of
             None \<Rightarrow> (False, ms, lg)
           | Some images \<Rightarrow>
               let total_size = calculate_total_cache_size images;
                   ms = meter_set ''image_cache_janitor_cache_image_count'' (fi (int (length images)))
                          (meter_set ''image_cache_janitor_cache_size_bytes'' (fi total_size) ms) in
               if total_size \<le> LIMIT_BYTES E then (True, ms, lg)
               else (True, evict E (select_images_to_remove images total_size (LIMIT_BYTES E) (TARGET_BYTES E)) (ms, lg))))"

subsection \<open>Properties\<close>

abbreviation bytes :: "image list \<Rightarrow> int" where
  "bytes is \<equiv> calculate_total_cache_size is"

lemma take_until_spec:
  "\<exists>rest. is = take_until target p is @ rest \<and> (rest \<noteq> [] \<longrightarrow> p - bytes (take_until target p is) \<le> target) \<and>
    (\<forall>k < length (take_until target p is). p - bytes (take k (take_until target p is)) > target)"
proof (induction target p "is" rule: take_until.induct)
  case (2 target p i "is")
  show ?case
  proof (cases "p \<le> target")
    case False
    obtain rest where r: "is = take_until target (p - im_size i) is @ rest"
      "rest \<noteq> [] \<longrightarrow> p - im_size i - bytes (take_until target (p - im_size i) is) \<le> target"
      "\<forall>k < length (take_until target (p - im_size i) is). p - im_size i - bytes (take k (take_until target (p - im_size i) is)) > target"
      using 2 [OF False] by blast
    have "p - bytes (take k (take_until target p (i # is))) > target" if "k < length (take_until target p (i # is))" for k
      using that r(3) False by (cases k) (auto simp: calculate_total_cache_size_def algebra_simps)
    then show ?thesis using r(1,2) False by (intro exI [of _ rest]) (simp add: calculate_total_cache_size_def algebra_simps)
  qed (simp add: calculate_total_cache_size_def)
qed simp

lemma removable_set: "set (removable images) = {i \<in> set images. \<not> pinned i}"
  by (simp add: removable_def)

lemma removable_sorted: "sorted_wrt (\<lambda>i j. im_size j \<le> im_size i) (removable images)"
  using sorted_sorted_by_desc [of im_size "filter (\<lambda>i. \<not> pinned i) images"] by (simp add: removable_def sorted_wrt_map)

text \<open>C38: the janitor removes the right images. Over the limit it selects images that are not pinned, none of which is smaller than an
  unpinned one that is kept; either they bring the cache down to the target or nothing else can be removed; and before each of them the
  cache was still over the target. Up to the limit it selects none.\<close>

theorem selection_exact:
  "let sel = select_images_to_remove images total_size limit target in
   (if total_size \<le> limit then sel = []
    else \<exists>rest. sel @ rest = removable images \<and> (rest = [] \<or> total_size - bytes sel \<le> target) \<and>
      list_all (\<lambda>i. \<not> pinned i) sel \<and> list_all (\<lambda>i. list_all (\<lambda>j. im_size j \<le> im_size i) rest) sel \<and>
      list_all (\<lambda>k. total_size - bytes (take k sel) > target) [0 ..< length sel])"
proof (cases "total_size \<le> limit")
  case False
  define sel where "sel = take_until target total_size (removable images)"
  obtain rest where r: "removable images = sel @ rest" "rest \<noteq> [] \<longrightarrow> total_size - bytes sel \<le> target"
    "\<forall>k < length sel. total_size - bytes (take k sel) > target"
    using take_until_spec [of "removable images" target total_size] unfolding sel_def by blast
  have "\<forall>i \<in> set sel. \<not> pinned i" using removable_set [of images] unfolding r(1) by auto
  moreover have "\<forall>i \<in> set sel. \<forall>j \<in> set rest. im_size j \<le> im_size i"
    using removable_sorted [of images] unfolding r(1) by (simp add: sorted_wrt_append)
  ultimately show ?thesis using False r unfolding select_images_to_remove_def sel_def [symmetric]
    by (auto simp: list_all_iff)
qed (simp add: select_images_to_remove_def)

definition removed_id :: "jevent \<Rightarrow> string option" where
  "removed_id e = (case e of RemovedImage i _ \<Rightarrow> Some i | ListedImages \<Rightarrow> None)"

lemma evict_log: "evict E is (ms, lg) = (ms', lg') \<Longrightarrow> List.map_filter removed_id lg' = rev (map im_id is) @ List.map_filter removed_id lg"
proof (induction "is" arbitrary: ms lg)
  case (Cons i "is")
  show ?case using Cons.IH [OF Cons.prems [unfolded evict.simps Let_def]] by (simp add: removed_id_def map_filter_simps)
qed simp

text \<open>A cycle of the janitor asks for the removal of exactly the selected images, the largest first.\<close>

theorem gc_cycle_removes_selection:
  assumes "images_out E lg = Some out" "parse_crictl_images (jloads E) out = Some images" "run_gc_cycle E (ms, lg) = (ok, ms', lg')"
  shows "List.map_filter removed_id lg' =
    rev (map im_id (select_images_to_remove images (bytes images) (LIMIT_BYTES E) (TARGET_BYTES E))) @ List.map_filter removed_id lg"
  using assms evict_log [of E "select_images_to_remove images (bytes images) (LIMIT_BYTES E) (TARGET_BYTES E)" _ "ListedImages # lg" ms' lg']
  by (auto simp: run_gc_cycle_def Let_def select_images_to_remove_def removed_id_def map_filter_simps split: if_splits)

definition janitor_example :: jenv where
  "janitor_example =
     \<lparr>images_out = (\<lambda>_. Some ''x''), jloads = (\<lambda>_. Some (JObj [(''images'', JArr
        [JObj [(''id'', JStr ''a''), (''size'', JStr ''5'')], JObj [(''id'', JStr ''b''), (''size'', JStr ''9'')],
         JObj [(''id'', JStr ''c''), (''size'', JStr ''20''), (''pinned'', JBool True)]])])),
      rmi = (\<lambda>_ i. i = ''b''), jtime = (\<lambda>_. 0), LIMIT_BYTES = 30, TARGET_BYTES = 26\<rparr>"

theorem gc_cycle_removes_selection_witness:
  "List.map_filter removed_id (snd (snd (run_gc_cycle janitor_example (new_meters, [])))) = [''b'']"
proof -
  let ?im = "\<lambda>i n p. \<lparr>im_id = i, repo_tags = [], repo_digests = [], im_size = n, pinned = p\<rparr>"
  have p: "parse_crictl_images (jloads janitor_example) ''x'' = Some [?im ''a'' 5 False, ?im ''b'' 9 False, ?im ''c'' 20 True]"
    by code_simp
  have s: "select_images_to_remove [?im ''a'' 5 False, ?im ''b'' 9 False, ?im ''c'' 20 True] 34 30 26 = [?im ''b'' 9 False]"
    by code_simp
  obtain ok ms' lg' where r: "run_gc_cycle janitor_example (new_meters, []) = (ok, ms', lg')"
    by (cases "run_gc_cycle janitor_example (new_meters, [])")
  have "images_out janitor_example [] = Some ''x''" by (simp add: janitor_example_def)
  from gc_cycle_removes_selection [OF this p r] show ?thesis
    using s r by (simp add: calculate_total_cache_size_def janitor_example_def map_filter_simps)
qed

end
