(* ===== verification/Cluster_Capacity.thy ===== *)
theory Cluster_Capacity
  imports Py_Text
begin

section \<open>The capacity of nodes\<close>

text \<open>
  \<open>scripts/python\<close>: \<open>instance_specs.py\<close>, \<open>daemonset_overhead.py\<close> and \<open>analyze_node_utilization.py\<close>. What a node of a type
  offers to runners after the kubelet and the DaemonSets, and which combinations of runners fill it. Reading YAML files and printing
  are not modelled; a value of YAML that is parsed here is its text, \<open>str(value)\<close>. \<open>None\<close> is a \<open>ValueError\<close>.
\<close>

subsection \<open>Instance types\<close>

record instance_spec =
  sp_vcpu :: int
  sp_memory_gib :: int
  sp_memory_mi :: int
  sp_gpu :: int
  sp_arch :: string

definition spec_of :: "int \<Rightarrow> int \<Rightarrow> int \<Rightarrow> int \<Rightarrow> string \<Rightarrow> instance_spec" where
  "spec_of v g m n a = \<lparr>sp_vcpu = v, sp_memory_gib = g, sp_memory_mi = m, sp_gpu = n, sp_arch = a\<rparr>"

definition INSTANCE_SPECS :: "(string, instance_spec) dict" where
  "INSTANCE_SPECS =
  [(''c7a.2xlarge'', spec_of 8 16 15155 0 ''amd64''),
   (''c7a.4xlarge'', spec_of 16 32 30310 0 ''amd64''),
   (''c7a.8xlarge'', spec_of 32 64 60620 0 ''amd64''),
   (''c7a.12xlarge'', spec_of 48 96 90931 0 ''amd64''),
   (''c7a.16xlarge'', spec_of 64 128 121241 0 ''amd64''),
   (''c7a.24xlarge'', spec_of 96 192 181862 0 ''amd64''),
   (''c7a.48xlarge'', spec_of 192 384 363724 0 ''amd64''),
   (''c7i.8xlarge'', spec_of 32 64 60620 0 ''amd64''),
   (''c7i.12xlarge'', spec_of 48 96 90931 0 ''amd64''),
   (''c7i.16xlarge'', spec_of 64 128 121241 0 ''amd64''),
   (''c7i.24xlarge'', spec_of 96 192 181862 0 ''amd64''),
   (''c7i.metal-24xl'', spec_of 96 192 181862 0 ''amd64''),
   (''c7i.48xlarge'', spec_of 192 384 363724 0 ''amd64''),
   (''m6i.32xlarge'', spec_of 128 512 485081 0 ''amd64''),
   (''m7i.8xlarge'', spec_of 32 128 121241 0 ''amd64''),
   (''m7i.12xlarge'', spec_of 48 192 181862 0 ''amd64''),
   (''m7i.16xlarge'', spec_of 64 256 242540 0 ''amd64''),
   (''m7i.24xlarge'', spec_of 96 384 363724 0 ''amd64''),
   (''m7i.48xlarge'', spec_of 192 768 727449 0 ''amd64''),
   (''r5.8xlarge'', spec_of 32 256 242540 0 ''amd64''),
   (''r5.12xlarge'', spec_of 48 384 363724 0 ''amd64''),
   (''r5.16xlarge'', spec_of 64 512 485081 0 ''amd64''),
   (''r5.24xlarge'', spec_of 96 768 727449 0 ''amd64''),
   (''r7a.8xlarge'', spec_of 32 256 242540 0 ''amd64''),
   (''r7a.12xlarge'', spec_of 48 384 363724 0 ''amd64''),
   (''r7a.16xlarge'', spec_of 64 512 485081 0 ''amd64''),
   (''r7a.24xlarge'', spec_of 96 768 727449 0 ''amd64''),
   (''r7a.48xlarge'', spec_of 192 1536 1454899 0 ''amd64''),
   (''r7i.8xlarge'', spec_of 32 256 242540 0 ''amd64''),
   (''r7i.16xlarge'', spec_of 64 512 485081 0 ''amd64''),
   (''r7i.24xlarge'', spec_of 96 768 727449 0 ''amd64''),
   (''r7i.48xlarge'', spec_of 192 1536 1454899 0 ''amd64''),
   (''m8g.8xlarge'', spec_of 32 128 121241 0 ''arm64''),
   (''m8g.12xlarge'', spec_of 48 192 181862 0 ''arm64''),
   (''m8g.16xlarge'', spec_of 64 256 242540 0 ''arm64''),
   (''m8g.24xlarge'', spec_of 96 384 363724 0 ''arm64''),
   (''m8g.metal-24xl'', spec_of 96 384 363724 0 ''arm64''),
   (''m8g.48xlarge'', spec_of 192 768 727449 0 ''arm64''),
   (''r7g.12xlarge'', spec_of 48 384 363724 0 ''arm64''),
   (''r7g.16xlarge'', spec_of 64 512 485081 0 ''arm64''),
   (''t4g.2xlarge'', spec_of 8 32 30310 0 ''arm64''),
   (''m7g.8xlarge'', spec_of 32 128 121241 0 ''arm64''),
   (''m7g.12xlarge'', spec_of 48 192 181862 0 ''arm64''),
   (''m7g.16xlarge'', spec_of 64 256 242540 0 ''arm64''),
   (''m7g.metal'', spec_of 64 256 242540 0 ''arm64''),
   (''g4dn.8xlarge'', spec_of 32 128 121241 1 ''amd64''),
   (''g4dn.16xlarge'', spec_of 64 256 242540 1 ''amd64''),
   (''g5.8xlarge'', spec_of 32 128 121241 1 ''amd64''),
   (''g5.16xlarge'', spec_of 64 256 242540 1 ''amd64''),
   (''g6.8xlarge'', spec_of 32 128 121241 1 ''amd64''),
   (''g6.16xlarge'', spec_of 64 256 242540 1 ''amd64''),
   (''g4dn.12xlarge'', spec_of 48 192 181862 4 ''amd64''),
   (''g5.12xlarge'', spec_of 48 192 181862 4 ''amd64''),
   (''g5.24xlarge'', spec_of 96 384 363724 4 ''amd64''),
   (''g6.12xlarge'', spec_of 48 192 181862 4 ''amd64''),
   (''g6.24xlarge'', spec_of 96 384 363724 4 ''amd64''),
   (''g4dn.metal'', spec_of 96 384 363724 8 ''amd64''),
   (''g5.48xlarge'', spec_of 192 768 727449 8 ''amd64''),
   (''g6.48xlarge'', spec_of 192 768 727449 8 ''amd64''),
   (''p4d.24xlarge'', spec_of 96 1152 1090765 8 ''amd64''),
   (''p5.48xlarge'', spec_of 192 2048 1939865 8 ''amd64''),
   (''p6-b200.48xlarge'', spec_of 192 2048 1939865 8 ''amd64''),
   (''r7i.2xlarge'', spec_of 8 64 60620 0 ''amd64''),
   (''r7i.12xlarge'', spec_of 48 384 363724 0 ''amd64''),
   (''r5d.12xlarge'', spec_of 48 384 363724 0 ''amd64''),
   (''m8gd.24xlarge'', spec_of 96 384 363724 0 ''arm64''),
   (''m6id.24xlarge'', spec_of 96 384 363724 0 ''amd64''),
   (''c7gd.16xlarge'', spec_of 64 128 121241 0 ''arm64''),
   (''m7gd.16xlarge'', spec_of 64 256 242540 0 ''arm64''),
   (''m8gd.16xlarge'', spec_of 64 256 242540 0 ''arm64'')]"

definition ENI_MAX_PODS :: "(string, int) dict" where
  "ENI_MAX_PODS =
  [(''c7a.2xlarge'', 58), (''c7a.4xlarge'', 234), (''c7a.8xlarge'', 234), (''c7a.12xlarge'', 234),
   (''c7a.16xlarge'', 737), (''c7a.24xlarge'', 737), (''c7a.48xlarge'', 737), (''c7i.8xlarge'', 234),
   (''c7i.12xlarge'', 234), (''c7i.16xlarge'', 737), (''c7i.24xlarge'', 737), (''c7i.metal-24xl'', 737),
   (''c7i.48xlarge'', 737), (''m6i.32xlarge'', 737), (''m7i.8xlarge'', 234), (''m7i.12xlarge'', 234),
   (''m7i.16xlarge'', 737), (''m7i.24xlarge'', 737), (''m7i.48xlarge'', 737), (''r5.8xlarge'', 234),
   (''r5.12xlarge'', 234), (''r5.16xlarge'', 737), (''r5.24xlarge'', 737), (''r7a.8xlarge'', 234),
   (''r7a.12xlarge'', 234), (''r7a.16xlarge'', 737), (''r7a.24xlarge'', 737), (''r7a.48xlarge'', 737),
   (''r7i.8xlarge'', 234), (''r7i.16xlarge'', 737), (''r7i.24xlarge'', 737), (''r7i.48xlarge'', 737),
   (''m8g.8xlarge'', 234), (''m8g.12xlarge'', 234), (''m8g.16xlarge'', 737), (''m8g.24xlarge'', 737),
   (''m8g.metal-24xl'', 737), (''m8g.48xlarge'', 737), (''r7g.12xlarge'', 234), (''r7g.16xlarge'', 737),
   (''t4g.2xlarge'', 58), (''m7g.8xlarge'', 234), (''m7g.12xlarge'', 234), (''m7g.16xlarge'', 737),
   (''m7g.metal'', 737), (''g4dn.8xlarge'', 58), (''g4dn.16xlarge'', 234), (''g4dn.12xlarge'', 234),
   (''g4dn.metal'', 737), (''g5.8xlarge'', 234), (''g5.16xlarge'', 234), (''g5.12xlarge'', 737),
   (''g5.24xlarge'', 737), (''g5.48xlarge'', 345), (''g6.8xlarge'', 234), (''g6.16xlarge'', 234),
   (''g6.12xlarge'', 234), (''g6.24xlarge'', 234), (''g6.48xlarge'', 737), (''p4d.24xlarge'', 250),
   (''p5.48xlarge'', 198), (''p6-b200.48xlarge'', 198), (''r7i.2xlarge'', 56), (''r7i.12xlarge'', 234),
   (''r5d.12xlarge'', 234), (''m8gd.24xlarge'', 737), (''m6id.24xlarge'', 737), (''c7gd.16xlarge'', 737),
   (''m7gd.16xlarge'', 737), (''m8gd.16xlarge'', 737)]"

subsection \<open>DaemonSets\<close>

record daemonset =
  ds_name :: string
  ds_cpu :: int
  ds_mem :: int
  ds_gpu_only :: bool
  ds_source :: string

definition HF_CACHE_BASE_MIB :: int where "HF_CACHE_BASE_MIB = 640"

definition daemonset_of :: "string \<Rightarrow> int \<Rightarrow> int \<Rightarrow> string \<Rightarrow> daemonset" where
  "daemonset_of n c m src = \<lparr>ds_name = n, ds_cpu = c, ds_mem = m, ds_gpu_only = False, ds_source = src\<rparr>"

definition HELM_DAEMONSETS :: "daemonset list" where
  "HELM_DAEMONSETS =
     [daemonset_of ''node-exporter'' 15 32 ''constant:helm:kube-prometheus-stack'',
      daemonset_of ''alloy-logging'' 100 256 ''constant:helm:alloy-logging'']"

definition EKS_ADDON_DAEMONSETS :: "daemonset list" where
  "EKS_ADDON_DAEMONSETS =
     [daemonset_of ''kube-proxy'' 50 80 ''constant:eks-addon'', daemonset_of ''vpc-cni'' 50 128 ''constant:eks-addon'',
      daemonset_of ''ebs-csi-node'' 10 50 ''constant:eks-addon'']"

definition TEMPLATED_DAEMONSETS :: "daemonset list" where
  "TEMPLATED_DAEMONSETS = [daemonset_of ''hf-cache-mount'' 100 HF_CACHE_BASE_MIB ''constant:tpl:modules/hf-cache'']"

definition HF_CACHE_TIER_MIB :: "(int, int) dict" where
  "HF_CACHE_TIER_MIB = [(1, 640), (2, 1024), (4, 2048), (8, 4096)]"

definition hf_cache_gpu_topup_mib :: "int \<Rightarrow> int" where
  "hf_cache_gpu_topup_mib n = dget_or HF_CACHE_TIER_MIB n HF_CACHE_BASE_MIB - HF_CACHE_BASE_MIB"

definition parse_cpu_millicores :: "string \<Rightarrow> int option" where
  "parse_cpu_millicores s =
     Option.bind (if endswith s ''m'' then py_int (drop_end 1 s) else map_option (\<lambda>x. ftrunc (fmul x 1000)) (py_float s))
       (\<lambda>n. if n < 0 then None else Some n)"

definition parse_memory_mib :: "string \<Rightarrow> int option" where
  "parse_memory_mib s =
     (if endswith s ''Gi'' then map_option (\<lambda>x. ftrunc (fmul x 1024)) (py_float (drop_end 2 s))
      else if endswith s ''Mi'' then map_option ftrunc (py_float (drop_end 2 s))
      else if endswith s ''Ki'' then map_option (\<lambda>x. ftrunc (fdiv x 1024)) (py_float (drop_end 2 s))
      else map_option (\<lambda>n. ftrunc (fdiv (of_int n) (1024 * 1024))) (py_int s))"

text \<open>The parts of a pod template that are read: the keys of the node selector, those of the required node affinity, and the requests.\<close>

record template =
  t_selector :: "string list"
  t_affinity :: "string list list" \<comment> \<open>the keys of the expressions of every term\<close>
  t_requests :: "(string option \<times> string option) list"

definition is_gpu_only :: "template \<Rightarrow> bool" where
  "is_gpu_only t =
     (list_ex (contains_str ''nvidia.com/gpu'') (t_selector t) \<or> list_ex (list_ex (contains_str ''nvidia.com/gpu'')) (t_affinity t))"

fun extract_container_resources :: "(string option \<times> string option) list \<Rightarrow> int \<Rightarrow> int \<Rightarrow> (int \<times> int) option" where
  "extract_container_resources [] cpu mem = Some (cpu, mem)"
| "extract_container_resources ((c, m) # cs) cpu mem =
     Option.bind (case c of None \<Rightarrow> Some 0 | Some s \<Rightarrow> parse_cpu_millicores s) (\<lambda>dc.
     Option.bind (case m of None \<Rightarrow> Some 0 | Some s \<Rightarrow> parse_memory_mib s) (\<lambda>dm.
     extract_container_resources cs (cpu + dc) (mem + dm)))"

text \<open>A document of kind \<open>DaemonSet\<close>: its name, its template and the file it is from.\<close>

fun discover_from :: "(string \<times> template \<times> string) list \<Rightarrow> daemonset list option" where
  "discover_from [] = Some []"
| "discover_from ((name, t, src) # ds) =
     Option.bind (extract_container_resources (t_requests t) 0 0) (\<lambda>(cpu, mem).
     map_option ((#) \<lparr>ds_name = name, ds_cpu = cpu, ds_mem = mem, ds_gpu_only = is_gpu_only t, ds_source = src\<rparr>) (discover_from ds))"

definition discover_daemonsets :: "bool \<Rightarrow> bool \<Rightarrow> (string \<times> template \<times> string) list \<Rightarrow> daemonset list option" where
  "discover_daemonsets include_helm include_eks docs =
     map_option (\<lambda>found.
       dvals (fold (\<lambda>d seen. dset (ds_name d) d seen)
         (found @ TEMPLATED_DAEMONSETS @ (if include_helm then HELM_DAEMONSETS else []) @ (if include_eks then EKS_ADDON_DAEMONSETS else [])) []))
       (discover_from docs)"

subsection \<open>What a node offers\<close>

definition HOOKS_OVERHEAD_CPU_M :: int where "HOOKS_OVERHEAD_CPU_M = 320"
definition HOOKS_OVERHEAD_MEM_MI :: int where "HOOKS_OVERHEAD_MEM_MI = 522"

definition kubelet_reserved :: "int \<Rightarrow> int \<Rightarrow> int \<Rightarrow> int \<times> int" where
  "kubelet_reserved vcpu memory_gib max_pods =
     ((if vcpu \<le> 1 then 60 else if vcpu \<le> 2 then 70 else if vcpu \<le> 4 then 80
       else 80 + ftrunc (fmul (fi (vcpu - 4)) (5 / 2))),
      255 + 11 * max_pods + 100)"

fun compute_daemonset_overhead :: "daemonset list \<Rightarrow> bool \<Rightarrow> int \<Rightarrow> int \<Rightarrow> int \<times> int" where
  \<comment> \<open>with the sums so far\<close>
  "compute_daemonset_overhead [] is_gpu cpu mem = (cpu, mem)"
| "compute_daemonset_overhead (d # ds) is_gpu cpu mem =
     (if ds_gpu_only d \<and> \<not> is_gpu then compute_daemonset_overhead ds is_gpu cpu mem
      else compute_daemonset_overhead ds is_gpu (cpu + ds_cpu d) (mem + ds_mem d))"

record alloc =
  total_cpu_m :: int
  total_mem_mi :: int
  kube_reserved_cpu_m :: int
  kube_reserved_mem_mi :: int
  ds_cpu_m :: int
  ds_mem_mi :: int
  allocatable_cpu_m :: int
  allocatable_mem_mi :: int
  allocatable_gpu :: int
  is_gpu_node :: bool

definition compute_allocatable :: "string \<Rightarrow> daemonset list \<Rightarrow> alloc option" where
  "compute_allocatable type ds =
     map_option (\<lambda>sp.
       let gpu = sp_gpu sp > 0;
           (kc, km) = kubelet_reserved (sp_vcpu sp) (sp_memory_gib sp) (dget_or ENI_MAX_PODS type (sp_vcpu sp));
           (dc, dm) = compute_daemonset_overhead ds gpu 0 0;
           dm = dm + hf_cache_gpu_topup_mib (sp_gpu sp);
           c = sp_vcpu sp * 1000; m = sp_memory_mi sp in
       \<lparr>total_cpu_m = c, total_mem_mi = m, kube_reserved_cpu_m = kc, kube_reserved_mem_mi = km, ds_cpu_m = dc, ds_mem_mi = dm,
        allocatable_cpu_m = c - kc - dc, allocatable_mem_mi = m - km - dm, allocatable_gpu = sp_gpu sp, is_gpu_node = gpu\<rparr>)
       (dget INSTANCE_SPECS type)"

record runner =
  r_name :: string
  r_instance :: string
  r_vcpu :: int
  r_memory_mi :: int
  r_gpu :: int

definition per_runner_total :: "runner \<Rightarrow> int \<times> int \<times> int" where
  "per_runner_total r = (r_vcpu r * 1000 + HOOKS_OVERHEAD_CPU_M, r_memory_mi r + HOOKS_OVERHEAD_MEM_MI, r_gpu r)"

subsection \<open>Combinations\<close>

fun cwr :: "nat \<Rightarrow> 'a list \<Rightarrow> 'a list list" where
  \<comment> \<open>\<open>itertools.combinations_with_replacement\<close>\<close>
  "cwr 0 xs = [[]]"
| "cwr (Suc k) [] = []"
| "cwr (Suc k) (x # xs) = map ((#) x) (cwr k (x # xs)) @ cwr (Suc k) xs"

record combo =
  c_runners :: "string list"
  c_count :: nat
  cpu_used :: int
  mem_used :: int
  gpu_used :: int
  cpu_util :: flt
  mem_util :: flt
  gpu_util :: flt
  cpu_waste :: int
  mem_waste :: int
  gpu_waste :: int

definition util :: "int \<Rightarrow> int \<Rightarrow> flt" where
  "util used avail = (if avail > 0 then fmul (fdiv (of_int used) (of_int avail)) 100 else 0)"

fun sum_totals :: "runner list \<Rightarrow> int \<times> int \<times> int" where
  "sum_totals [] = (0, 0, 0)"
| "sum_totals (r # rs) =
     (case (per_runner_total r, sum_totals rs) of ((c, m, g), (c', m', g')) \<Rightarrow> (c + c', m + m', g + g'))"

definition fits_node :: "alloc \<Rightarrow> int \<times> int \<times> int \<Rightarrow> bool" where
  "fits_node a t = (case t of (c, m, g) \<Rightarrow> c \<le> allocatable_cpu_m a \<and> m \<le> allocatable_mem_mi a \<and> g \<le> allocatable_gpu a)"

definition combo_of :: "alloc \<Rightarrow> runner list \<Rightarrow> combo" where
  "combo_of a rs =
     (case sum_totals rs of (c, m, g) \<Rightarrow>
       \<lparr>c_runners = map r_name rs, c_count = length rs, cpu_used = c, mem_used = m, gpu_used = g,
        cpu_util = util c (allocatable_cpu_m a), mem_util = util m (allocatable_mem_mi a), gpu_util = util g (allocatable_gpu a),
        cpu_waste = allocatable_cpu_m a - c, mem_waste = allocatable_mem_mi a - m, gpu_waste = allocatable_gpu a - g\<rparr>)"

definition max_combo :: "alloc \<Rightarrow> int \<Rightarrow> int" where
  "max_combo a max_pods = min max_pods (max 1 (allocatable_cpu_m a div 1000))"

definition find_valid_combos :: "runner list \<Rightarrow> alloc \<Rightarrow> int \<Rightarrow> combo list" where
  "find_valid_combos runners a max_pods =
     concat (map (\<lambda>k. map (combo_of a) (filter (\<lambda>rs. fits_node a (sum_totals rs)) (cwr k runners))) [1 ..< Suc (nat (max_combo a max_pods))])"

definition can_add :: "alloc \<Rightarrow> combo \<Rightarrow> runner \<Rightarrow> bool" where
  "can_add a c r =
     (case per_runner_total r of (dc, dm, dg) \<Rightarrow> fits_node a (cpu_used c + dc, mem_used c + dm, gpu_used c + dg))"

definition find_maximal_combos :: "combo list \<Rightarrow> alloc \<Rightarrow> runner list \<Rightarrow> combo list" where
  "find_maximal_combos combos a runners = filter (\<lambda>c. \<not> list_ex (can_add a c) runners) combos"

text \<open>How many runners of one kind fit: \<open>max_by_cpu\<close>, \<open>max_by_mem\<close> and \<open>max_by_gpu\<close>, and their minimum.\<close>

definition times_in :: "int \<Rightarrow> int \<Rightarrow> int" where
  "times_in avail need = (if need > 0 then avail div need else 999)"

definition max_alone :: "alloc \<Rightarrow> runner \<Rightarrow> int" where
  "max_alone a r =
     (case per_runner_total r of (c, m, g) \<Rightarrow>
        min (min (times_in (allocatable_cpu_m a) c) (times_in (allocatable_mem_mi a) m)) (times_in (allocatable_gpu a) g))"

record slack =
  min_cpu_m :: int
  max_cpu_m :: int
  min_mem_mi :: int
  max_mem_mi :: int

definition slack_of :: "(int \<times> int) list \<Rightarrow> slack option" where
  "slack_of xs =
     (if xs = [] then None
      else Some \<lparr>min_cpu_m = Min (set (map fst xs)), max_cpu_m = Max (set (map fst xs)),
                 min_mem_mi = Min (set (map snd xs)), max_mem_mi = Max (set (map snd xs))\<rparr>)"

definition alone_slack :: "alloc \<Rightarrow> runner \<Rightarrow> (int \<times> int) option" where
  "alone_slack a r =
     (let k = max_alone a r in
      if k = 0 then None
      else (case per_runner_total r of (c, m, _) \<Rightarrow> Some (allocatable_cpu_m a - k * c, allocatable_mem_mi a - k * m)))"

definition compute_node_slack :: "alloc \<Rightarrow> runner list \<Rightarrow> bool \<Rightarrow> slack option" where
  "compute_node_slack a runners homogeneous_only =
     (if homogeneous_only \<or> length runners > 8 then slack_of (List.map_filter (alone_slack a) runners)
      else slack_of (map (\<lambda>c. (cpu_waste c, mem_waste c)) (find_maximal_combos (find_valid_combos runners a 20) a runners)))"

end
