(* ===== verification/Cluster_Simulation.thy ===== *)
theory Cluster_Simulation
  imports Cluster_Capacity
begin

section \<open>The simulation of a cluster\<close>

text \<open>
  \<open>scripts/python/simulate_cluster.py\<close>: runners are drawn at random, by the peaks that were observed, and placed on the tightest
  node that has room, or on a new one, until the deployed numbers are close enough to the peaks. The random choice is a parameter.
\<close>

record sim_node =
  n_type :: string
  n_cpu :: int
  n_mem :: int
  n_gpu :: int
  n_used_cpu :: int
  n_used_mem :: int
  n_used_gpu :: int
  n_runners :: int

definition node_fits :: "sim_node \<Rightarrow> int \<Rightarrow> int \<Rightarrow> int \<Rightarrow> bool" where
  "node_fits n c m g = (n_cpu n - n_used_cpu n \<ge> c \<and> n_mem n - n_used_mem n \<ge> m \<and> n_gpu n - n_used_gpu n \<ge> g)"

fun build_peak_targets :: "(string, string) dict \<Rightarrow> (string \<times> int) list \<Rightarrow> (string, int) dict \<Rightarrow> (string, string) dict
    \<Rightarrow> (string, int) dict \<times> (string, string) dict" where
  "build_peak_targets m [] targets skipped = (targets, skipped)"
| "build_peak_targets m ((old, peak) # ps) targets skipped =
     (case dget m old of
        None \<Rightarrow> build_peak_targets m ps targets (dset old ''no mapping'' skipped)
      | Some new \<Rightarrow> build_peak_targets m ps (dset new (dget_or targets new 0 + peak) targets) skipped)"

definition build_weighted_pool :: "(string, int) dict \<Rightarrow> (string \<times> int) list" where
  "build_weighted_pool targets = filter (\<lambda>(_, w). w > 0) targets"

text \<open>The score of a node: what remains of it, with the GPUs scaled to the size of the rest.\<close>

definition node_score :: "sim_node \<Rightarrow> rat" where
  "node_score n =
     (let r = (n_cpu n - n_used_cpu n) + (n_mem n - n_used_mem n) in
      if n_gpu n > 0
      then fadd (fi r) (fmul (fi (n_gpu n - n_used_gpu n)) (fdiv (of_int (n_cpu n + n_mem n)) (of_int (max (n_gpu n) 1))))
      else of_int r)"

fun best_fit_from :: "nat \<Rightarrow> sim_node list \<Rightarrow> int \<Rightarrow> int \<Rightarrow> int \<Rightarrow> string \<Rightarrow> (nat \<times> rat) option \<Rightarrow> (nat \<times> rat) option" where
  "best_fit_from i [] c m g ty best = best"
| "best_fit_from i (n # ns) c m g ty best =
     best_fit_from (Suc i) ns c m g ty
       (if n_type n \<noteq> ty \<or> \<not> node_fits n c m g then best
        else (case best of
                None \<Rightarrow> Some (i, node_score n)
              | Some (_, s) \<Rightarrow> if node_score n < s then Some (i, node_score n) else best))"

definition best_fit_place :: "sim_node list \<Rightarrow> int \<Rightarrow> int \<Rightarrow> int \<Rightarrow> string \<Rightarrow> nat option" where
  "best_fit_place ns c m g ty = map_option fst (best_fit_from 0 ns c m g ty None)"

definition provision_node :: "string \<Rightarrow> daemonset list \<Rightarrow> sim_node option" where
  "provision_node ty ds =
     map_option (\<lambda>a. \<lparr>n_type = ty, n_cpu = allocatable_cpu_m a, n_mem = allocatable_mem_mi a, n_gpu = allocatable_gpu a,
                      n_used_cpu = 0, n_used_mem = 0, n_used_gpu = 0, n_runners = 0\<rparr>) (compute_allocatable ty ds)"

definition weighted_mape :: "(string, int) dict \<Rightarrow> (string, int) dict \<Rightarrow> flt" where
  "weighted_mape deployed targets =
     (let t = sum_list (dvals targets) in
      if t = 0 then 0 else fdiv (of_int (sum_list (map (\<lambda>(k, v). \<bar>dget_or deployed k 0 - v\<bar>) targets))) (of_int t))"

record sim_state =
  s_nodes :: "sim_node list"
  s_deployed :: "(string, int) dict"
  s_total :: int
  s_failed :: "string list"
  s_pool :: "(string \<times> int) list" \<comment> \<open>\<open>names\<close> with their \<open>weights\<close>\<close>
  s_draws :: nat

record sim_env =
  e_runner :: "string \<Rightarrow> runner" \<comment> \<open>\<open>runner_by_name\<close>, on the names of the pool\<close>
  e_daemonsets :: "daemonset list"
  e_targets :: "(string, int) dict"
  e_max :: int
  e_threshold :: flt
  e_draw :: "nat \<Rightarrow> (string \<times> int) list \<Rightarrow> nat"

definition use_node :: "int \<Rightarrow> int \<Rightarrow> int \<Rightarrow> sim_node \<Rightarrow> sim_node" where
  "use_node c m g n =
     n\<lparr>n_used_cpu := n_used_cpu n + c, n_used_mem := n_used_mem n + m, n_used_gpu := n_used_gpu n + g, n_runners := n_runners n + 1\<rparr>"

text \<open>The nodes after the placement of a runner; \<open>None\<close>: no node of its type can be made.\<close>

definition place_runner :: "sim_env \<Rightarrow> runner \<Rightarrow> sim_node list \<Rightarrow> sim_node list option" where
  "place_runner E r ns =
     (case per_runner_total r of (c, m, g) \<Rightarrow>
        (case best_fit_place ns c m g (r_instance r) of
           Some i \<Rightarrow> Some (ns[i := use_node c m g (ns ! i)])
         | None \<Rightarrow>
             map_option (\<lambda>n. ns @ [n\<lparr>n_used_cpu := c, n_used_mem := m, n_used_gpu := g, n_runners := 1\<rparr>])
               (provision_node (r_instance r) (e_daemonsets E))))"

text \<open>The first place of the pool with a name: \<open>names.index(chosen)\<close>, and the pool without it.\<close>

fun drop_first :: "string \<Rightarrow> (string \<times> int) list \<Rightarrow> (string \<times> int) list" where
  "drop_first n [] = []"
| "drop_first n (p # ps) = (if fst p = n then ps else p # drop_first n ps)"

definition sim_done :: "sim_env \<Rightarrow> sim_state \<Rightarrow> bool" where
  "sim_done E s =
     (s_total s > 0 \<and> weighted_mape (s_deployed s) (e_targets E) \<le> e_threshold E \<or> s_total s \<ge> e_max E \<or> s_pool s = [])"

definition drawn :: "sim_env \<Rightarrow> sim_state \<Rightarrow> string" where
  "drawn E s = fst (s_pool s ! (e_draw E (s_draws s) (s_pool s) mod length (s_pool s)))"

definition sim_step :: "sim_env \<Rightarrow> sim_state \<Rightarrow> sim_state" where
  "sim_step E s =
     (let name = drawn E s; r = e_runner E name; s = s\<lparr>s_draws := Suc (s_draws s)\<rparr> in
      if r_instance r \<in> set (s_failed s) then s\<lparr>s_pool := drop_first name (s_pool s)\<rparr>
      else
        (case place_runner E r (s_nodes s) of
           None \<Rightarrow> s\<lparr>s_failed := r_instance r # s_failed s\<rparr>
         | Some ns \<Rightarrow>
             s\<lparr>s_nodes := ns, s_deployed := dset name (dget_or (s_deployed s) name 0 + 1) (s_deployed s), s_total := s_total s + 1\<rparr>))"

lemma drop_first_length: "n \<in> fst ` set ps \<Longrightarrow> length (drop_first n ps) < length ps"
  by (induction ps) auto

lemma drawn_in: "s_pool s \<noteq> [] \<Longrightarrow> drawn E s \<in> fst ` set (s_pool s)"
  by (simp add: drawn_def)

definition open_types :: "sim_env \<Rightarrow> sim_state \<Rightarrow> string set" where
  "open_types E s = {r_instance (e_runner E n) | n. n \<in> fst ` set (s_pool s)} - set (s_failed s)"

lemma finite_open_types [simp]: "finite (open_types E s)"
  by (simp add: open_types_def)

text \<open>Every round deploys a runner, or shortens the pool, or finds one more type that cannot be made.\<close>

lemma sim_step_progress:
  assumes "\<not> sim_done E s"
  shows "s_total (sim_step E s) = s_total s + 1 \<or>
    s_total (sim_step E s) = s_total s \<and> length (s_pool (sim_step E s)) < length (s_pool s) \<or>
    s_total (sim_step E s) = s_total s \<and> s_pool (sim_step E s) = s_pool s \<and> card (open_types E (sim_step E s)) < card (open_types E s)"
proof -
  let ?r = "e_runner E (drawn E s)"
  have pool: "s_pool s \<noteq> []" using assms by (simp add: sim_done_def)
  show ?thesis
  proof (cases "r_instance ?r \<in> set (s_failed s)")
    case True
    then show ?thesis using drop_first_length [OF drawn_in [OF pool]] by (simp add: sim_step_def)
  next
    case new: False
    show ?thesis
    proof (cases "place_runner E ?r (s_nodes s)")
      case None
      have "open_types E (sim_step E s) = open_types E s - {r_instance ?r}"
        using new None by (auto simp: sim_step_def open_types_def)
      moreover have "r_instance ?r \<in> open_types E s" using new drawn_in [OF pool, of E] by (auto simp: open_types_def)
      ultimately have "card (open_types E (sim_step E s)) < card (open_types E s)" by (metis card_Diff1_less finite_open_types)
      then show ?thesis using new None by (simp add: sim_step_def)
    qed (use new in \<open>simp add: sim_step_def Let_def\<close>)
  qed
qed

function sim_loop :: "sim_env \<Rightarrow> sim_state \<Rightarrow> sim_state" where
  "sim_loop E s = (if sim_done E s then s else sim_loop E (sim_step E s))"
  by auto
termination
proof (relation "measures [\<lambda>(E, s). nat (e_max E - s_total s), \<lambda>(E, s). length (s_pool s), \<lambda>(E, s). card (open_types E s)]")
  fix E s assume d: "\<not> sim_done E s"
  have "s_total s < e_max E" using d by (simp add: sim_done_def)
  then show "((E, sim_step E s), (E, s)) \<in> measures
    [\<lambda>(E, s). nat (e_max E - s_total s), \<lambda>(E, s). length (s_pool s), \<lambda>(E, s). card (open_types E s)]"
    using sim_step_progress [OF d] by auto
qed simp

declare sim_loop.simps [simp del]

record sim_result =
  res_nodes :: "sim_node list"
  res_deployed :: "(string, int) dict"
  res_targets :: "(string, int) dict"
  res_skipped :: "(string, string) dict"

definition active_targets :: "(string \<Rightarrow> runner option) \<Rightarrow> (string, int) dict \<Rightarrow> (string, int) dict" where
  "active_targets defs targets = filter (\<lambda>(n, _). defs n \<noteq> None) targets"

definition skipped_labels :: "(string \<Rightarrow> runner option) \<Rightarrow> (string, int) dict \<Rightarrow> (string, string) dict" where
  "skipped_labels defs targets = map (\<lambda>(n, _). (n, ''no runner def'')) (filter (\<lambda>(n, _). defs n = None) targets)"

text \<open>\<open>defs\<close> is \<open>runner_by_name.get\<close>; \<open>targets\<close> is a dictionary, so its names are distinct.\<close>

definition sim_env_of :: "(string \<Rightarrow> runner option) \<Rightarrow> (string, int) dict \<Rightarrow> daemonset list \<Rightarrow> (nat \<Rightarrow> (string \<times> int) list \<Rightarrow> nat) \<Rightarrow> flt \<Rightarrow> sim_env" where
  "sim_env_of defs active ds draw threshold =
     \<lparr>e_runner = (\<lambda>n. the (defs n)), e_daemonsets = ds, e_targets = active,
      e_max = ftrunc (fmul (fi (sum_list (dvals active))) (fl (105 / 100))), e_threshold = threshold, e_draw = draw\<rparr>"

definition sim_start :: "(string, int) dict \<Rightarrow> sim_state" where
  "sim_start active =
     \<lparr>s_nodes = [], s_deployed = map (\<lambda>(n, _). (n, 0)) active, s_total = 0, s_failed = [], s_pool = build_weighted_pool active, s_draws = 0\<rparr>"

definition run_simulation :: "(string \<Rightarrow> runner option) \<Rightarrow> (string, int) dict \<Rightarrow> daemonset list \<Rightarrow> (nat \<Rightarrow> (string \<times> int) list \<Rightarrow> nat) \<Rightarrow> flt
    \<Rightarrow> sim_result" where
  "run_simulation defs targets ds draw threshold =
     (let active = active_targets defs targets; skipped = skipped_labels defs targets in
      if active = [] then \<lparr>res_nodes = [], res_deployed = [], res_targets = targets, res_skipped = skipped\<rparr>
      else if build_weighted_pool active = [] then \<lparr>res_nodes = [], res_deployed = [], res_targets = active, res_skipped = skipped\<rparr>
      else
        let s = sim_loop (sim_env_of defs active ds draw threshold) (sim_start active) in
        \<lparr>res_nodes = s_nodes s, res_deployed = s_deployed s, res_targets = active, res_skipped = skipped\<rparr>)"

record cluster_use =
  cpu_pct :: flt
  mem_pct :: flt
  gpu_pct :: flt
  u_total_nodes :: nat
  u_gpu_nodes :: nat

definition percent :: "int \<Rightarrow> int \<Rightarrow> flt" where
  "percent used all_of = (if all_of > 0 then fmul (fdiv (of_int used) (of_int all_of)) 100 else 0)"

definition compute_utilization :: "sim_result \<Rightarrow> cluster_use" where
  "compute_utilization r =
     (let ns = res_nodes r; gs = filter (\<lambda>n. n_gpu n > 0) ns in
      \<lparr>cpu_pct = percent (sum_list (map n_used_cpu ns)) (sum_list (map n_cpu ns)),
       mem_pct = percent (sum_list (map n_used_mem ns)) (sum_list (map n_mem ns)),
       gpu_pct = percent (sum_list (map n_used_gpu gs)) (sum_list (map n_gpu gs)),
       u_total_nodes = length ns, u_gpu_nodes = length gs\<rparr>)"

end
