(* ===== verification/Cluster_Properties.thy ===== *)
theory Cluster_Properties
  imports Cluster_Simulation
begin

section \<open>Properties of the capacity of clusters\<close>

text \<open>
  The combinations that the analysis lists are all that fit, up to order; a runner alone is packed as often as it fits; and the
  simulation fills no node beyond its capacity except by the one runner that the node was made for.
\<close>

subsection \<open>Combinations\<close>

lemma cwr_sound: "ys \<in> set (cwr k xs) \<Longrightarrow> length ys = k \<and> set ys \<subseteq> set xs"
  by (induction k xs arbitrary: ys rule: cwr.induct) fastforce+

lemma cwr_complete: "length ys = k \<Longrightarrow> set ys \<subseteq> set xs \<Longrightarrow> \<exists>zs \<in> set (cwr k xs). mset zs = mset ys"
proof (induction k xs arbitrary: ys rule: cwr.induct)
  case (3 k x xs)
  show ?case
  proof (cases "x \<in> set ys")
    case True
    have "length (remove1 x ys) = k" "set (remove1 x ys) \<subseteq> set (x # xs)"
      using 3(3,4) True set_remove1_subset [of x ys] by (simp add: length_remove1, blast)
    from "3.IH"(1) [OF this] obtain zs where zs: "zs \<in> set (cwr k (x # xs))" "mset zs = mset (remove1 x ys)" by blast
    then have "mset (x # zs) = mset ys" using True by simp
    then show ?thesis using zs(1) by (intro bexI [of _ "x # zs"]) auto
  next
    case False
    then have "set ys \<subseteq> set xs" using 3(4) by auto
    from "3.IH"(2) [OF 3(3) this] show ?thesis by auto
  qed
qed auto

lemma sum_totals_eq:
  "sum_totals rs = (sum_list (map (\<lambda>r. fst (per_runner_total r)) rs), sum_list (map (\<lambda>r. fst (snd (per_runner_total r))) rs),
    sum_list (map (\<lambda>r. snd (snd (per_runner_total r))) rs))"
  by (induction rs) (auto split: prod.splits)

lemma sum_totals_mset:
  assumes "mset rs = mset rs'" shows "sum_totals rs = sum_totals rs'"
proof -
  have "sum_list (map f rs) = sum_list (map f rs')" for f :: "runner \<Rightarrow> int"
    using arg_cong [OF assms, of "\<lambda>M. sum_mset (image_mset f M)"] by (simp add: sum_mset_sum_list flip: mset_map)
  then show ?thesis unfolding sum_totals_eq by simp
qed

lemma can_add_combo: "can_add a (combo_of a rs) r = fits_node a (sum_totals (r # rs))"
proof -
  obtain c m g where t: "sum_totals rs = (c, m, g)" by (cases "sum_totals rs")
  obtain dc dm dg where d: "per_runner_total r = (dc, dm, dg)" by (cases "per_runner_total r")
  show ?thesis unfolding can_add_def combo_of_def sum_totals.simps t d prod.case combo.simps
    by (simp only: add.commute)
qed

definition extensible :: "alloc \<Rightarrow> runner list \<Rightarrow> runner list \<Rightarrow> bool" where
  "extensible a runners rs = list_ex (\<lambda>r. fits_node a (sum_totals (r # rs))) runners"

definition full_packing :: "alloc \<Rightarrow> runner list \<Rightarrow> runner list \<Rightarrow> bool" where
  "full_packing a runners rs =
     (rs \<noteq> [] \<and> set rs \<subseteq> set runners \<and> fits_node a (sum_totals rs) \<and> \<not> extensible a runners rs)"

lemma full_packing_mset:
  assumes "mset rs = mset rs'" shows "full_packing a runners rs = full_packing a runners rs'"
proof -
  have "sum_totals (r # rs) = sum_totals (r # rs')" for r by (rule sum_totals_mset) (simp add: assms)
  then show ?thesis
    using sum_totals_mset [OF assms] mset_eq_setD [OF assms] assms unfolding full_packing_def extensible_def by force
qed

text \<open>The packings in the order of the search.\<close>

definition packings :: "alloc \<Rightarrow> runner list \<Rightarrow> int \<Rightarrow> runner list list" where
  "packings a runners max_pods =
     filter (\<lambda>rs. fits_node a (sum_totals rs) \<and> \<not> extensible a runners rs)
       (concat (map (\<lambda>k. cwr k runners) [1 ..< Suc (nat (max_combo a max_pods))]))"

lemma maximal_combos_packings:
  "find_maximal_combos (find_valid_combos runners a max_pods) a runners = map (combo_of a) (packings a runners max_pods)"
proof -
  have "filter P (concat (map (\<lambda>k. map f (filter Q (g k))) ks)) = map f (filter (\<lambda>x. Q x \<and> P (f x)) (concat (map g ks)))"
    for P :: "combo \<Rightarrow> bool" and f and Q :: "runner list \<Rightarrow> bool" and g :: "nat \<Rightarrow> runner list list" and ks
    by (induction ks) (simp_all add: filter_map comp_def conj_commute)
  moreover have "list_ex (can_add a (combo_of a rs)) runners = extensible a runners rs" for rs
    by (simp add: extensible_def list_ex_iff can_add_combo)
  ultimately show ?thesis
    unfolding find_maximal_combos_def find_valid_combos_def packings_def by simp
qed

text \<open>C40: the analysis of a node misses no way to fill it. The maximal combinations that it lists are, up to the order of the runners,
  exactly the ways to put at least one and at most the searched number of runners on the node such that they fit and no
  further runner does.\<close>

theorem maximal_combos_exact:
  "find_maximal_combos (find_valid_combos runners a max_pods) a runners = map (combo_of a) (packings a runners max_pods) \<and>
   mset ` set (packings a runners max_pods) = {mset rs | rs. full_packing a runners rs \<and> int (length rs) \<le> max_combo a max_pods}"
proof (rule conjI [OF maximal_combos_packings], intro equalityI subsetI)
  fix M assume "M \<in> mset ` set (packings a runners max_pods)"
  then obtain rs k where rs: "M = mset rs" "k \<in> set [1 ..< Suc (nat (max_combo a max_pods))]" "rs \<in> set (cwr k runners)"
    "fits_node a (sum_totals rs)" "\<not> extensible a runners rs" by (auto simp: packings_def)
  have "length rs = k" "set rs \<subseteq> set runners" using cwr_sound [OF rs(3)] by auto
  with rs have "full_packing a runners rs" "int (length rs) \<le> max_combo a max_pods" by (auto simp: full_packing_def)
  with rs(1) show "M \<in> {mset rs | rs. full_packing a runners rs \<and> int (length rs) \<le> max_combo a max_pods}" by blast
next
  fix M assume "M \<in> {mset rs | rs. full_packing a runners rs \<and> int (length rs) \<le> max_combo a max_pods}"
  then obtain rs where rs: "M = mset rs" "full_packing a runners rs" "int (length rs) \<le> max_combo a max_pods" by blast
  obtain zs where zs: "zs \<in> set (cwr (length rs) runners)" "mset zs = mset rs"
    using cwr_complete [OF refl, of rs runners] rs(2) by (auto simp: full_packing_def)
  have "full_packing a runners zs" using full_packing_mset [OF zs(2)] rs(2) by simp
  moreover have "length rs \<in> set [1 ..< Suc (nat (max_combo a max_pods))]"
    using rs(2,3) by (cases rs) (auto simp: full_packing_def)
  ultimately have "zs \<in> set (packings a runners max_pods)"
    using zs(1) unfolding packings_def full_packing_def set_filter set_concat set_map by blast
  then show "M \<in> mset ` set (packings a runners max_pods)" using rs(1) zs(2) by (metis image_eqI)
qed

subsection \<open>One kind of runner\<close>

definition repeated_fits :: "alloc \<Rightarrow> runner \<Rightarrow> int \<Rightarrow> bool" where
  "repeated_fits a r k = (case per_runner_total r of (c, m, g) \<Rightarrow> fits_node a (k * c, k * m, k * g))"

lemma times_in_iff: "0 \<le> need \<Longrightarrow> 0 \<le> avail \<Longrightarrow> 0 \<le> k \<Longrightarrow> k \<le> 999 \<Longrightarrow> k * need \<le> avail \<longleftrightarrow> k \<le> times_in avail need"
proof -
  assume h: "0 \<le> need" "0 \<le> avail" "0 \<le> k" "k \<le> 999"
  show ?thesis
  proof (cases "need = 0")
    case False
    with h(1) have "0 < need" by simp
    have "k * need \<le> avail \<longleftrightarrow> k \<le> avail div need"
    proof
      assume "k * need \<le> avail"
      then have "k * need div need \<le> avail div need" using \<open>0 < need\<close> by (rule zdiv_mono1)
      then show "k \<le> avail div need" using \<open>0 < need\<close> by simp
    next
      assume "k \<le> avail div need"
      then have "k * need \<le> avail div need * need" using \<open>0 < need\<close> by (simp add: mult_right_mono)
      also have "\<dots> \<le> avail" using \<open>0 < need\<close> pos_mod_sign [of need avail] div_mult_mod_eq [of avail need] by linarith
      finally show "k * need \<le> avail" .
    qed
    then show ?thesis using \<open>0 < need\<close> by (simp add: times_in_def)
  qed (use h in \<open>simp add: times_in_def\<close>)
qed

lemma repeated_fits_iff:
  assumes "0 \<le> r_vcpu r" "0 \<le> r_memory_mi r" "0 \<le> r_gpu r" "0 \<le> allocatable_cpu_m a" "0 \<le> allocatable_mem_mi a" "0 \<le> allocatable_gpu a"
    "0 \<le> k" "k \<le> 999"
  shows "repeated_fits a r k \<longleftrightarrow> k \<le> max_alone a r"
  using assms times_in_iff
  by (simp add: repeated_fits_def max_alone_def per_runner_total_def fits_node_def HOOKS_OVERHEAD_CPU_M_def HOOKS_OVERHEAD_MEM_MI_def)

text \<open>The homogeneous packing is exact. For a runner and a node whose numbers are not negative, the number that the analysis computes
  says, for every number of copies up to 999, whether they fit together.\<close>

theorem alone_exact:
  assumes "0 \<le> r_vcpu r" "0 \<le> r_memory_mi r" "0 \<le> r_gpu r" "0 \<le> allocatable_cpu_m a" "0 \<le> allocatable_mem_mi a" "0 \<le> allocatable_gpu a"
  shows "\<forall>k \<in> {0..999}. repeated_fits a r k \<longleftrightarrow> k \<le> max_alone a r"
  using repeated_fits_iff [OF assms] by simp

definition small_runner :: runner where
  "small_runner = \<lparr>r_name = ''l-x86'', r_instance = ''c7a.2xlarge'', r_vcpu = 2, r_memory_mi = 4096, r_gpu = 0\<rparr>"

lemma small_node: "compute_allocatable ''c7a.2xlarge'' [] =
  Some \<lparr>total_cpu_m = 8000, total_mem_mi = 15155, kube_reserved_cpu_m = 90, kube_reserved_mem_mi = 993, ds_cpu_m = 0, ds_mem_mi = 0,
    allocatable_cpu_m = 7910, allocatable_mem_mi = 14162, allocatable_gpu = 0, is_gpu_node = False\<rparr>"
  by code_simp

theorem alone_exact_witness:
  "case compute_allocatable ''c7a.2xlarge'' [] of None \<Rightarrow> False
   | Some a \<Rightarrow> repeated_fits a small_runner 3 \<and> \<not> repeated_fits a small_runner 4 \<and> max_alone a small_runner = 3"
  using alone_exact [of small_runner "the (compute_allocatable ''c7a.2xlarge'' [])"]
  unfolding small_node option.sel option.case
  by (simp add: small_runner_def max_alone_def times_in_def per_runner_total_def HOOKS_OVERHEAD_CPU_M_def HOOKS_OVERHEAD_MEM_MI_def)

subsection \<open>The simulated nodes\<close>

text \<open>What the runners with some labels ask for, and what a node of a type can give, both apart from the counters of the simulation.\<close>

definition load :: "(string \<Rightarrow> runner option) \<Rightarrow> string list \<Rightarrow> int \<times> int \<times> int" where
  "load defs ls =
     (let ts = map (\<lambda>l. per_runner_total (the (defs l))) ls in
      (sum_list (map fst ts), sum_list (map (\<lambda>t. fst (snd t)) ts), sum_list (map (\<lambda>t. snd (snd t)) ts)))"

definition carries :: "daemonset list \<Rightarrow> string \<Rightarrow> int \<times> int \<times> int \<Rightarrow> bool" where
  "carries ds ty x =
     (case (compute_allocatable ty ds, x) of
        (Some a, c, m, g) \<Rightarrow> c \<le> allocatable_cpu_m a \<and> m \<le> allocatable_mem_mi a \<and> g \<le> allocatable_gpu a
      | _ \<Rightarrow> False)"

definition sized :: "daemonset list \<Rightarrow> sim_node \<Rightarrow> bool" where
  "sized ds n =
     (case compute_allocatable (n_type n) ds of
        None \<Rightarrow> False
      | Some a \<Rightarrow> n_cpu n = allocatable_cpu_m a \<and> n_mem n = allocatable_mem_mi a \<and> n_gpu n = allocatable_gpu a)"

text \<open>The node has exactly the runners with these labels: they are of its type, its counters are theirs, and it carries them, unless
  there is only the one for which it was made.\<close>

definition has_runners :: "(string \<Rightarrow> runner option) \<Rightarrow> daemonset list \<Rightarrow> sim_node \<Rightarrow> string list \<Rightarrow> bool" where
  "has_runners defs ds n ls =
     (ls \<noteq> [] \<and> list_all (\<lambda>l. map_option r_instance (defs l) = Some (n_type n)) ls \<and> sized ds n \<and>
      n_runners n = int (length ls) \<and> (n_used_cpu n, n_used_mem n, n_used_gpu n) = load defs ls \<and>
      (length ls = 1 \<or> carries ds (n_type n) (load defs ls)))"

lemma best_fit_from_fits:
  assumes "best_fit_from i ns c m g ty best = Some (j, s)" "best = Some (j, s) \<Longrightarrow> P" "\<And>k. k < length ns \<Longrightarrow> j = i + k \<Longrightarrow> n_type (ns ! k) = ty \<Longrightarrow> node_fits (ns ! k) c m g \<Longrightarrow> P"
  shows P
  using assms
proof (induction ns arbitrary: i best)
  case (Cons n ns)
  let ?b = "if n_type n \<noteq> ty \<or> \<not> node_fits n c m g then best
        else (case best of None \<Rightarrow> Some (i, node_score n) | Some (_, s) \<Rightarrow> if node_score n < s then Some (i, node_score n) else best)"
  have "best_fit_from (Suc i) ns c m g ty ?b = Some (j, s)" using Cons.prems(1) by simp
  then show ?case
  proof (rule Cons.IH)
    assume "?b = Some (j, s)"
    then consider "best = Some (j, s)" | "j = i" "n_type n = ty" "node_fits n c m g" by (auto split: if_splits option.splits)
    then show P using Cons.prems(2) Cons.prems(3) [of 0] by cases auto
  next
    fix k assume "k < length ns" "j = Suc i + k" "n_type (ns ! k) = ty" "node_fits (ns ! k) c m g"
    then show P using Cons.prems(3) [of "Suc k"] by simp
  qed
qed simp

lemma best_fit_place_fits:
  assumes "best_fit_place ns c m g ty = Some i"
  shows "i < length ns \<and> n_type (ns ! i) = ty \<and> node_fits (ns ! i) c m g"
proof -
  obtain s where "best_fit_from 0 ns c m g ty None = Some (i, s)" using assms by (auto simp: best_fit_place_def)
  then show ?thesis by (rule best_fit_from_fits) auto
qed

lemma load_Cons:
  "per_runner_total (the (defs l)) = (c, m, g) \<Longrightarrow> load defs ls = (a, b, d) \<Longrightarrow> load defs (l # ls) = (c + a, m + b, g + d)"
  by (auto simp: load_def Let_def)

lemma has_one_runner:
  assumes "provision_node (r_instance r) ds = Some n" "per_runner_total r = (c, m, g)" "defs l = Some r"
  shows "has_runners defs ds (n\<lparr>n_used_cpu := c, n_used_mem := m, n_used_gpu := g, n_runners := 1\<rparr>) [l]"
  using assms by (auto simp: has_runners_def provision_node_def sized_def load_def)

lemma has_one_more:
  assumes "has_runners defs ds n ls" "node_fits n c m g" "n_type n = r_instance r" "per_runner_total r = (c, m, g)" "defs l = Some r"
  shows "has_runners defs ds (use_node c m g n) (l # ls)"
proof -
  obtain x y z where x: "load defs ls = (x, y, z)" by (metis prod_cases3)
  have "load defs (l # ls) = (c + x, m + y, g + z)" by (rule load_Cons) (use assms(4,5) x in simp_all)
  then show ?thesis using assms x
    by (auto simp: has_runners_def use_node_def sized_def carries_def node_fits_def split: option.splits)
qed

lemma place_runner_assigned:
  assumes "place_runner E r ns = Some ns'" "list_all2 (has_runners defs (e_daemonsets E)) ns A" "defs l = Some r"
  shows "\<exists>A'. list_all2 (has_runners defs (e_daemonsets E)) ns' A' \<and> mset (concat A') = add_mset l (mset (concat A))"
proof -
  obtain c m g where t: "per_runner_total r = (c, m, g)" by (metis prod_cases3)
  show ?thesis
  proof (cases "best_fit_place ns c m g (r_instance r)")
    case None
    then obtain n where n: "provision_node (r_instance r) (e_daemonsets E) = Some n"
      "ns' = ns @ [n\<lparr>n_used_cpu := c, n_used_mem := m, n_used_gpu := g, n_runners := 1\<rparr>]"
      using assms(1) by (auto simp: place_runner_def t)
    have "list_all2 (has_runners defs (e_daemonsets E)) ns' (A @ [[l]])"
      unfolding n(2) using assms(2) has_one_runner [of r "e_daemonsets E" n c m g defs l] n(1) t assms(3) by (intro list_all2_appendI) auto
    then show ?thesis by (intro exI [of _ "A @ [[l]]"]) simp
  next
    case (Some i)
    note i = best_fit_place_fits [OF Some]
    have len: "i < length A" using i list_all2_lengthD [OF assms(2)] by simp
    have ns': "ns' = ns[i := use_node c m g (ns ! i)]" using assms(1) Some by (simp add: place_runner_def t)
    have "has_runners defs (e_daemonsets E) (ns ! i) (A ! i)" using assms(2) i by (simp add: list_all2_conv_all_nth)
    then have "has_runners defs (e_daemonsets E) (use_node c m g (ns ! i)) (l # A ! i)"
      by (rule has_one_more) (use i t assms(3) in simp_all)
    then have "list_all2 (has_runners defs (e_daemonsets E)) ns' (A[i := l # A ! i])"
      unfolding ns' by (rule list_all2_update_cong [OF assms(2)])
    moreover have "mset (concat A) = mset (concat (take i A)) + (mset (A ! i) + mset (concat (drop (Suc i) A)))"
      using arg_cong [OF id_take_nth_drop [OF len], of "\<lambda>x. mset (concat x)"] by simp
    then have "mset (concat (A[i := l # A ! i])) = add_mset l (mset (concat A))"
      by (simp add: upd_conv_take_nth_drop [OF len])
    ultimately show ?thesis by blast
  qed
qed

definition sim_sound :: "(string \<Rightarrow> runner option) \<Rightarrow> sim_env \<Rightarrow> sim_state \<Rightarrow> bool" where
  "sim_sound defs E s =
     ((\<forall>l \<in> fst ` set (s_pool s). defs l = Some (e_runner E l)) \<and>
      (\<exists>A. list_all2 (has_runners defs (e_daemonsets E)) (s_nodes s) A \<and>
         (\<forall>l. dget_or (s_deployed s) l 0 = int (count (mset (concat A)) l))))"

lemma set_drop_first: "set (drop_first n ps) \<subseteq> set ps"
  by (induction ps) auto

lemma sim_step_sound:
  assumes "sim_sound defs E s" "\<not> sim_done E s" shows "sim_sound defs E (sim_step E s)"
proof -
  let ?l = "drawn E s" and ?r = "e_runner E (drawn E s)"
  have l: "defs ?l = Some ?r" using assms drawn_in [of s E] by (auto simp: sim_sound_def sim_done_def)
  show ?thesis
  proof (cases "r_instance ?r \<in> set (s_failed s)")
    case True
    then show ?thesis using assms(1) set_drop_first [of ?l "s_pool s"] by (auto simp: sim_sound_def sim_step_def Let_def)
  next
    case new: False
    show ?thesis
    proof (cases "place_runner E ?r (s_nodes s)")
      case None
      then show ?thesis using assms(1) new by (simp add: sim_sound_def sim_step_def Let_def)
    next
      case (Some ns)
      obtain A where A: "list_all2 (has_runners defs (e_daemonsets E)) (s_nodes s) A"
        "\<forall>l. dget_or (s_deployed s) l 0 = int (count (mset (concat A)) l)"
        using assms(1) unfolding sim_sound_def by blast
      obtain A' where A': "list_all2 (has_runners defs (e_daemonsets E)) ns A'" "mset (concat A') = add_mset ?l (mset (concat A))"
        using place_runner_assigned [OF Some A(1) l] by blast
      have "sim_step E s = s\<lparr>s_draws := Suc (s_draws s), s_nodes := ns,
          s_deployed := dset ?l (dget_or (s_deployed s) ?l 0 + 1) (s_deployed s), s_total := s_total s + 1\<rparr>"
        using new Some by (simp add: sim_step_def Let_def)
      then show ?thesis using assms(1) A(2) A'
        unfolding sim_sound_def by (intro conjI exI [of _ A']) (simp_all add: dget_or_dset)
    qed
  qed
qed

lemma sim_loop_sound: "sim_sound defs E s \<Longrightarrow> sim_sound defs E (sim_loop E s)"
proof (induction E s rule: sim_loop.induct)
  case (1 E s)
  then show ?case using sim_step_sound by (subst sim_loop.simps) auto
qed

lemma sim_start_sound:
  "sim_sound defs (sim_env_of defs (active_targets defs targets) ds draw threshold) (sim_start (active_targets defs targets))"
proof -
  have "dget_or (map (\<lambda>(n, _). (n, 0)) active) l 0 = (0 :: int)" for active :: "(string, int) dict" and l
    by (induction active) (auto simp: dget_or_def dget_def)
  then show ?thesis
    by (auto simp: sim_sound_def sim_start_def sim_env_of_def active_targets_def build_weighted_pool_def intro!: exI [of _ "[]"])
qed

text \<open>C39: the simulation packs soundly, with one exception. It always ends, and the runners that it counts as deployed are on its
  nodes: there is a list of labels for each node such that the node has at least one, all are of the type of the node, the
  resources used on the node are the sums of what their runners ask for, and if there is more than one, then these sums are within what a
  node of that type can give; and every label is in these lists as often as it is counted as deployed. A node with a
  single runner may be overfull, as the room of a new node is not checked.\<close>

theorem simulation_sound:
  "let res = run_simulation defs targets ds draw threshold in
   \<exists>A. list_all2 (has_runners defs ds) (res_nodes res) A \<and>
     (\<forall>l. dget_or (res_deployed res) l 0 = int (count (mset (concat A)) l))"
proof -
  let ?a = "active_targets defs targets"
  let ?E = "sim_env_of defs ?a ds draw threshold"
  have "sim_sound defs ?E (sim_loop ?E (sim_start ?a))" using sim_loop_sound sim_start_sound by blast
  then have "\<exists>A. list_all2 (has_runners defs ds) (s_nodes (sim_loop ?E (sim_start ?a))) A \<and>
     (\<forall>l. dget_or (s_deployed (sim_loop ?E (sim_start ?a))) l 0 = int (count (mset (concat A)) l))"
    by (simp add: sim_sound_def sim_env_of_def)
  moreover have "dget_or [] l (0 :: int) = 0" for l :: string by (simp add: dget_or_def dget_def)
  ultimately show ?thesis by (auto simp: run_simulation_def Let_def intro!: exI [of _ "[]"])
qed

text \<open>The exception is real: a runner that asks for all cores of the type of its node gets a node that it overfills.\<close>

definition big_runner :: runner where
  "big_runner = \<lparr>r_name = ''l-big'', r_instance = ''c7a.2xlarge'', r_vcpu = 8, r_memory_mi = 4096, r_gpu = 0\<rparr>"

lemma simulation_overfills:
  "list_ex (\<lambda>n. n_used_cpu n > n_cpu n) (the (place_runner (sim_env_of (\<lambda>_. Some big_runner) [(''l-big'', 1)] [] (\<lambda>_ _. 0) 0) big_runner []))"
  by code_simp

end
