(* ===== verification/Fleet_Naming.thy ===== *)
theory Fleet_Naming
  imports Py_Json Py_Base "HOL-Library.Product_Lexorder"
begin

section \<open>Fleets of nodes and the runners that name them\<close>

text \<open>
  \<open>scripts/python/fleet_naming.py\<close>, \<open>nodepool_defs.py\<close> and \<open>runner_fleet_validator.py\<close>: a runner's workflow pods go to the
  fleet that its definition names, or to the family of its instance type; the validator rejects a cluster in which no node pool
  defines that fleet. A YAML file is its parsed document, or \<open>None\<close> if it does not parse; a directory is the list of its files by name,
  or \<open>None\<close> if it does not exist. A region and an instance type are
  texts. An outer \<open>None\<close> stands for an exception that the source does not catch.
\<close>

type_synonym yaml_dir = "(string \<times> json option) list option"

fun fold_opt :: "('a \<Rightarrow> 's \<Rightarrow> 's option) \<Rightarrow> 'a list \<Rightarrow> 's \<Rightarrow> 's option" where
  \<comment> \<open>a loop that an exception may leave\<close>
  "fold_opt f [] s = Some s"
| "fold_opt f (x # xs) s = (case f x s of None \<Rightarrow> None | Some s \<Rightarrow> fold_opt f xs s)"

text \<open>\<open>for x in j\<close> and \<open>t in j\<close>.\<close>

fun json_iter :: "json \<Rightarrow> json list option" where
  "json_iter (JArr xs) = Some xs"
| "json_iter (JObj d) = Some (map JStr (dkeys d))"
| "json_iter (JStr s) = Some (map (\<lambda>c. JStr [c]) s)"
| "json_iter _ = None"

fun json_has :: "string \<Rightarrow> json \<Rightarrow> bool option" where
  "json_has t (JArr xs) = Some (JStr t \<in> set xs)"
| "json_has t (JObj d) = Some (t \<in> set (dkeys d))"
| "json_has t (JStr s) = Some (contains_str t s)"
| "json_has t _ = None"

subsection \<open>Names\<close>

definition RESERVED_NODE_FLEET_NAMES :: "string set" where
  "RESERVED_NODE_FLEET_NAMES = {''c7i-runner''}"

definition is_label_edge :: "char \<Rightarrow> bool" where
  "is_label_edge c = (let n = (of_char c :: nat) in (97 \<le> n \<and> n \<le> 122) \<or> (48 \<le> n \<and> n \<le> 57))"

definition is_fleet_label :: "string \<Rightarrow> bool" where
  \<comment> \<open>\<open>^[a-z0-9]([-a-z0-9]{0,61}[a-z0-9])?$\<close>; the dollar also matches before a newline at the end\<close>
  "is_fleet_label s =
     (let t = (if endswith s [CHR 0x0A] then drop_end 1 s else s) in
      t \<noteq> [] \<and> length t \<le> 63 \<and> is_label_edge (hd t) \<and> is_label_edge (last t) \<and>
      list_all (\<lambda>c. is_label_edge c \<or> c = CHR ''-'') t)"

datatype fleet_error = NotAText | NotALabel | Reserved string

fun validate_node_fleet :: "json \<Rightarrow> fleet_error option" where
  \<comment> \<open>\<open>None\<close> is \<open>(True, None)\<close>\<close>
  "validate_node_fleet (JStr s) =
     (if \<not> is_fleet_label s then Some NotALabel
      else if s \<in> RESERVED_NODE_FLEET_NAMES then Some (Reserved s) else None)"
| "validate_node_fleet _ = Some NotAText"

definition derive_release_runner_group :: "string \<Rightarrow> string" where
  "derive_release_runner_group g = (if g \<noteq> [] then g @ ''-release-runners'' else ''default'')"

definition family :: "string \<Rightarrow> string" where
  "family t = hd (split_on CHR ''.'' t)"

definition derive_fleet_name :: "string \<Rightarrow> json \<Rightarrow> fleet_error + string" where
  \<comment> \<open>\<open>override=None\<close> is \<open>JNull\<close>\<close>
  "derive_fleet_name t ov =
     (if ov = JNull then Inr (family t)
      else (case validate_node_fleet ov of Some e \<Rightarrow> Inl e | None \<Rightarrow> (case ov of JStr s \<Rightarrow> Inr s | _ \<Rightarrow> Inl NotAText)))"

subsection \<open>Definitions of node pools\<close>

fun is_excluded_for_region :: "json \<Rightarrow> string \<Rightarrow> bool option" where
  "is_excluded_for_region (JObj d) region =
     (if region = [] then Some False else json_has region (json_or (dget_or d ''exclude_regions'' JNull) (JArr [])))"
| "is_excluded_for_region _ region = Some False"

definition text_field :: "(string, json) dict \<Rightarrow> string \<Rightarrow> string option" where
  \<comment> \<open>\<open>isinstance(x, str) and x\<close>\<close>
  "text_field d k = (case dget_or d k JNull of JStr s \<Rightarrow> if s = [] then None else Some s | _ \<Rightarrow> None)"

fun add_instance_type :: "json \<Rightarrow> string set \<Rightarrow> string set" where
  "add_instance_type (JObj d) A = (case text_field d ''type'' of Some t \<Rightarrow> insert t A | None \<Rightarrow> A)"
| "add_instance_type _ A = A"

fun collect_excluded_from_fleet :: "string \<Rightarrow> json \<Rightarrow> string set \<Rightarrow> string set option" where
  "collect_excluded_from_fleet region (JObj d) A =
     (case is_excluded_for_region (JObj d) region of
        None \<Rightarrow> None
      | Some False \<Rightarrow> Some A
      | Some True \<Rightarrow> map_option (\<lambda>is. fold add_instance_type is A) (json_iter (json_or (dget_or d ''instances'' JNull) (JArr []))))"
| "collect_excluded_from_fleet region _ A = Some A"

fun collect_excluded_from_nodepool :: "string \<Rightarrow> json \<Rightarrow> string set \<Rightarrow> string set option" where
  "collect_excluded_from_nodepool region (JObj d) A =
     (case is_excluded_for_region (JObj d) region of
        None \<Rightarrow> None
      | Some False \<Rightarrow> Some A
      | Some True \<Rightarrow> Some (case text_field d ''instance_type'' of Some t \<Rightarrow> insert t A | None \<Rightarrow> A))"
| "collect_excluded_from_nodepool region _ A = Some A"

text \<open>\<open>isinstance(x, list)\<close>, else no elements.\<close>

fun elements :: "json \<Rightarrow> json list" where
  "elements (JArr xs) = xs"
| "elements _ = []"

text \<open>\<open>yaml.safe_load(...) or {}\<close>\<close>

definition or_empty :: "json \<Rightarrow> json" where
  "or_empty j = json_or j (JObj [])"

fun excluded_in_doc :: "string \<Rightarrow> json \<Rightarrow> string set \<Rightarrow> string set option" where
  "excluded_in_doc region (JObj d) A =
     Option.bind (collect_excluded_from_fleet region (dget_or d ''fleet'' JNull) A) (\<lambda>A.
     Option.bind (fold_opt (collect_excluded_from_fleet region) (elements (dget_or d ''fleets'' JNull)) A) (\<lambda>A.
     collect_excluded_from_nodepool region (dget_or d ''nodepool'' JNull) A))"
| "excluded_in_doc region _ A = Some A"

definition load_excluded_instance_types :: "yaml_dir \<Rightarrow> string \<Rightarrow> string set option" where
  "load_excluded_instance_types dir region =
     (case dir of
        None \<Rightarrow> Some {}
      | Some files \<Rightarrow>
          if region = [] then Some {}
          else fold_opt (\<lambda>(_, doc) A. case doc of None \<Rightarrow> Some A | Some j \<Rightarrow> excluded_in_doc region (or_empty j) A) (sorted_by fst files) {})"

definition fleet_names_of :: "string \<Rightarrow> json \<Rightarrow> string list option" where
  "fleet_names_of region j =
     (case j of
        JObj d \<Rightarrow> (case is_excluded_for_region j region of
                     None \<Rightarrow> None
                   | Some True \<Rightarrow> Some []
                   | Some False \<Rightarrow> Some (case text_field d ''name'' of Some n \<Rightarrow> [n] | None \<Rightarrow> []))
      | _ \<Rightarrow> Some [])"

definition nodepool_names_of :: "string \<Rightarrow> json \<Rightarrow> string list option" where
  "nodepool_names_of region j =
     (case j of
        JObj d \<Rightarrow> (case is_excluded_for_region j region of
                     None \<Rightarrow> None
                   | Some True \<Rightarrow> Some []
                   | Some False \<Rightarrow> Some (case text_field d ''instance_type'' of Some t \<Rightarrow> [family t] | None \<Rightarrow> []))
      | _ \<Rightarrow> Some [])"

fun names_of_fleets :: "string \<Rightarrow> json list \<Rightarrow> string list option" where
  "names_of_fleets region [] = Some []"
| "names_of_fleets region (j # js) =
     Option.bind (fleet_names_of region j) (\<lambda>ns. map_option ((@) ns) (names_of_fleets region js))"

fun iter_fleet_names :: "json \<Rightarrow> string \<Rightarrow> string list option" where
  "iter_fleet_names (JObj d) region =
     Option.bind (fleet_names_of region (dget_or d ''fleet'' JNull)) (\<lambda>a.
     Option.bind (names_of_fleets region (elements (dget_or d ''fleets'' JNull))) (\<lambda>b.
     map_option (\<lambda>c. a @ b @ c) (nodepool_names_of region (dget_or d ''nodepool'' JNull))))"
| "iter_fleet_names _ region = Some []"

subsection \<open>The validator\<close>

text \<open>A root of the repository gives the directory \<open>defs\<close> of each module.\<close>

type_synonym root = "string \<Rightarrow> yaml_dir"

definition collect_excluded_instance_types :: "root list \<Rightarrow> string list \<Rightarrow> string \<Rightarrow> string set option" where
  "collect_excluded_instance_types roots modules region =
     fold_opt (\<lambda>(r, m) A. map_option ((\<union>) A) (load_excluded_instance_types (r m) region))
       (List.product roots modules) {}"

fun resolve_region :: "(string, json) dict \<Rightarrow> json \<Rightarrow> string option" where
  \<comment> \<open>\<open>None\<close> also when the region is not a text\<close>
  "resolve_region cfg defaults =
     (if json_true (dget_or cfg ''region'' JNull) then (case dget_or cfg ''region'' JNull of JStr s \<Rightarrow> Some s | _ \<Rightarrow> None)
      else (case json_get defaults ''region'' (JStr []) of Some (JStr s) \<Rightarrow> Some s | Some JNull \<Rightarrow> Some [] | _ \<Rightarrow> None))"

definition module_enabled :: "string \<Rightarrow> json \<Rightarrow> string option" where
  "module_enabled prefix j =
     (case j of JStr m \<Rightarrow> if m = prefix \<or> startswith m (prefix @ ''-'') then Some m else None | _ \<Rightarrow> None)"

definition enabled_modules :: "(string, json) dict \<Rightarrow> string \<Rightarrow> string list option" where
  "enabled_modules cfg prefix =
     map_option (List.map_filter (module_enabled prefix)) (json_iter (json_or (dget_or cfg ''modules'' JNull) (JArr [])))"

datatype validation_error =
    UnknownCluster
  | NoNodepools "string list"
  | BadNodepoolFile string string \<comment> \<open>module and file\<close>
  | Collision string "string \<times> string" "string \<times> string"
  | BadRunnerFile string string
  | BadOverride json string fleet_error
  | OrphanRunner json string "string set" \<comment> \<open>the name, the fleet, and those that are available\<close>

type_synonym owners = "(string, string \<times> string) dict"

definition own_fleet :: "string \<times> string \<Rightarrow> string \<Rightarrow> owners \<times> validation_error list \<Rightarrow> owners \<times> validation_error list" where
  "own_fleet origin name st =
     (case dget (fst st) name of
        None \<Rightarrow> (dset name origin (fst st), snd st)
      | Some prior \<Rightarrow> if prior = origin then st else (fst st, snd st @ [Collision name prior origin]))"

definition scan_nodepool_file ::
  "string \<Rightarrow> string \<Rightarrow> string \<times> json option \<Rightarrow> owners \<times> validation_error list \<Rightarrow> (owners \<times> validation_error list) option" where
  "scan_nodepool_file region m f st =
     (case snd f of
        None \<Rightarrow> Some (fst st, snd st @ [BadNodepoolFile m (fst f)])
      | Some j \<Rightarrow> map_option (\<lambda>ns. fold (own_fleet (m, fst f)) ns st) (iter_fleet_names (or_empty j) region))"

definition collect_available_fleets :: "root list \<Rightarrow> string list \<Rightarrow> string \<Rightarrow> (string set \<times> validation_error list) option" where
  "collect_available_fleets roots modules region =
     map_option (\<lambda>(owners, es). (set (dkeys owners) - RESERVED_NODE_FLEET_NAMES, es))
       (fold_opt (\<lambda>(r, m) st. case r m of None \<Rightarrow> Some st | Some files \<Rightarrow> fold_opt (scan_nodepool_file region m) (sorted_by fst files) st)
         (List.product roots modules) ([], []))"

definition collect_runner_defs :: "root list \<Rightarrow> string list \<Rightarrow> ((string \<times> string) \<times> json option) list" where
  \<comment> \<open>a later root replaces a file of an earlier one\<close>
  "collect_runner_defs roots modules =
     sorted_by fst (fold (\<lambda>(r, m) d. case r m of None \<Rightarrow> d | Some files \<Rightarrow> fold (\<lambda>(f, j) d. dset (m, f) j d) (sorted_by fst files) d)
       (List.product roots modules) [])"

definition validate_runner :: "(string, json) dict \<Rightarrow> string set \<Rightarrow> string set \<Rightarrow> validation_error option option" where
  "validate_runner runner available excluded =
     (let name = dget_or runner ''name'' JNull; ty = dget_or runner ''instance_type'' JNull in
      if \<not> json_true name \<or> \<not> json_true ty then Some None
      else
        (case ty of
           JStr t \<Rightarrow>
             if t \<in> excluded then Some None
             else
               (case derive_fleet_name t (dget_or runner ''node_fleet'' JNull) of
                  Inl e \<Rightarrow> Some (Some (BadOverride name t e))
                | Inr fleet \<Rightarrow> Some (if fleet \<in> available then None else Some (OrphanRunner name fleet available)))
         | _ \<Rightarrow> None))"

definition validate_one_runner :: "(string \<times> string) \<times> json option \<Rightarrow> string set \<Rightarrow> string set \<Rightarrow> validation_error option option" where
  "validate_one_runner f available excluded =
     (case snd f of
        None \<Rightarrow> Some (Some (BadRunnerFile (fst (fst f)) (snd (fst f))))
      | Some j \<Rightarrow>
          (case json_get (or_empty j) ''runner'' JNull of
             None \<Rightarrow> None
           | Some r \<Rightarrow> (case or_empty r of JObj runner \<Rightarrow> validate_runner runner available excluded | _ \<Rightarrow> Some None)))"

definition validate_runners ::
  "((string \<times> string) \<times> json option) list \<Rightarrow> string set \<Rightarrow> string set \<Rightarrow> validation_error list \<Rightarrow> validation_error list option" where
  "validate_runners defs available excluded es =
     fold_opt (\<lambda>f es. map_option (\<lambda>e. case e of None \<Rightarrow> es | Some e \<Rightarrow> es @ [e]) (validate_one_runner f available excluded)) defs es"

definition validate_cluster_runner_fleets :: "string \<Rightarrow> json \<Rightarrow> root list \<Rightarrow> validation_error list option" where
  "validate_cluster_runner_fleets cid clusters_yaml roots =
     (case json_get clusters_yaml ''clusters'' JNull of
        None \<Rightarrow> None
      | Some cs \<Rightarrow>
          (case json_get (or_empty cs) cid JNull of
             None \<Rightarrow> None
           | Some (JObj cfg) \<Rightarrow>
               Option.bind (json_get clusters_yaml ''defaults'' JNull) (\<lambda>defaults.
               Option.bind (enabled_modules cfg ''arc-runners'') (\<lambda>runner_modules.
               if runner_modules = [] then Some []
               else
                 Option.bind (enabled_modules cfg ''nodepools'') (\<lambda>nodepool_modules.
                 if nodepool_modules = [] then Some [NoNodepools runner_modules]
                 else
                   Option.bind (resolve_region cfg (or_empty defaults)) (\<lambda>region.
                   Option.bind (collect_excluded_instance_types roots nodepool_modules region) (\<lambda>excluded.
                   Option.bind (collect_available_fleets roots nodepool_modules region) (\<lambda>(available, es).
                   validate_runners (collect_runner_defs roots runner_modules) available excluded es))))))
           | Some _ \<Rightarrow> Some [UnknownCluster]))"

section \<open>What the validation of a cluster guarantees\<close>

text \<open>
  The scan of the node pools is related to the set of its pairs of a fleet and the file that defines it; from there, a validation
  without errors gives every runner a fleet.
\<close>

lemma fold_opt_inv:
  assumes "fold_opt f xs s = Some s'" "P {} s"
    and "\<And>x A s s'. x \<in> set xs \<Longrightarrow> P A s \<Longrightarrow> f x s = Some s' \<Longrightarrow> P (A \<union> g x) s'"
  shows "P (\<Union> (g ` set xs)) s'"
proof -
  have "fold_opt f ys s = Some s' \<Longrightarrow> set ys \<subseteq> set xs \<Longrightarrow> P A s \<Longrightarrow> P (A \<union> \<Union> (g ` set ys)) s'" for ys A s
  proof (induction ys arbitrary: A s)
    case (Cons y ys)
    then obtain s1 where s1: "f y s = Some s1" "fold_opt f ys s1 = Some s'" by (auto split: option.splits)
    have "P (A \<union> g y) s1" using assms(3) [OF _ Cons.prems(3) s1(1)] Cons.prems(2) by simp
    from Cons.IH [OF s1(2) _ this] Cons.prems(2) show ?case by (simp add: Un_assoc)
  qed simp
  from this [OF assms(1) subset_refl assms(2)] show ?thesis by simp
qed

lemma product_Nil: "List.product xs [] = []"
  by (induction xs) simp_all

text \<open>\<open>owns S st\<close>: without an error so far, the dictionary is the relation \<open>S\<close>.\<close>

definition owns :: "(string \<times> string \<times> string) set \<Rightarrow> owners \<times> validation_error list \<Rightarrow> bool" where
  "owns S st = (snd st = [] \<longrightarrow> (\<forall>name orig. (name, orig) \<in> S \<longleftrightarrow> dget (fst st) name = Some orig))"

lemma owns_start: "owns {} ([], [])"
  by (simp add: owns_def)

lemma own_fleet_owns: "owns S st \<Longrightarrow> owns (insert (name, orig) S) (own_fleet orig name st)"
  by (cases "dget (fst st) name") (auto simp: owns_def own_fleet_def dict_simps)

lemma own_fleets_owns: "owns S st \<Longrightarrow> owns (S \<union> (\<lambda>n. (n, orig)) ` set ns) (fold (own_fleet orig) ns st)"
proof (induction ns arbitrary: S st)
  case (Cons n ns)
  from Cons.IH [OF own_fleet_owns [OF Cons.prems]] show ?case by simp
qed simp

definition names_in_file :: "string \<Rightarrow> string \<Rightarrow> string \<times> json option \<Rightarrow> (string \<times> string \<times> string) set" where
  "names_in_file region m f =
     (case snd f of None \<Rightarrow> {}
      | Some j \<Rightarrow> (case iter_fleet_names (or_empty j) region of None \<Rightarrow> {} | Some ns \<Rightarrow> (\<lambda>n. (n, m, fst f)) ` set ns))"

lemma scan_file_owns:
  "owns S st \<Longrightarrow> scan_nodepool_file region m f st = Some st' \<Longrightarrow> owns (S \<union> names_in_file region m f) st'"
proof (cases "snd f")
  case None
  then show "owns S st \<Longrightarrow> scan_nodepool_file region m f st = Some st' \<Longrightarrow> ?thesis"
    by (auto simp: scan_nodepool_file_def names_in_file_def owns_def)
next
  case (Some j)
  then show "owns S st \<Longrightarrow> scan_nodepool_file region m f st = Some st' \<Longrightarrow> ?thesis"
    by (cases "iter_fleet_names (or_empty j) region") (auto simp: scan_nodepool_file_def names_in_file_def intro: own_fleets_owns)
qed

definition scanned :: "string \<Rightarrow> root list \<Rightarrow> string list \<Rightarrow> (string \<times> string \<times> string) set" where
  "scanned region roots modules =
     (\<Union>(r, m) \<in> set roots \<times> set modules. case r m of None \<Rightarrow> {} | Some files \<Rightarrow> \<Union> (names_in_file region m ` set files))"

lemma scan_dir_owns:
  assumes "owns B st" "fold_opt (scan_nodepool_file region m) files st = Some st'"
  shows "owns (B \<union> \<Union> (names_in_file region m ` set files)) st'"
proof (rule fold_opt_inv [where P = "\<lambda>S st. owns (B \<union> S) st", OF assms(2)])
  show "owns (B \<union> {}) st" using assms(1) by simp
  fix x A s s' assume "owns (B \<union> A) s" "scan_nodepool_file region m x s = Some s'"
  from scan_file_owns [OF this] show "owns (B \<union> (A \<union> names_in_file region m x)) s'" by (simp add: Un_assoc)
qed

lemma collect_available_owns:
  assumes "collect_available_fleets roots modules region = Some (available, [])"
  shows "available = fst ` scanned region roots modules - RESERVED_NODE_FLEET_NAMES \<and>
    (\<forall>name orig1 orig2. (name, orig1) \<in> scanned region roots modules \<longrightarrow> (name, orig2) \<in> scanned region roots modules \<longrightarrow> orig1 = orig2)"
proof -
  let ?f = "\<lambda>(r, m) st. case r m of None \<Rightarrow> Some st | Some files \<Rightarrow> fold_opt (scan_nodepool_file region m) (sorted_by fst files) st"
  obtain owners where o: "fold_opt ?f (List.product roots modules) ([], []) = Some (owners, [])"
    and av: "available = set (dkeys owners) - RESERVED_NODE_FLEET_NAMES"
    using assms by (auto simp: collect_available_fleets_def)
  let ?g = "\<lambda>(r, m). case r m of None \<Rightarrow> {} | Some files \<Rightarrow> \<Union> (names_in_file region m ` set files)"
  have "owns (\<Union> (?g ` set (List.product roots modules))) (owners, [])"
  proof (rule fold_opt_inv [where P = owns, OF o owns_start])
    fix x A s s'
    assume a: "owns A s" "?f x s = Some s'"
    obtain r m where x: "x = (r, m)" by (cases x)
    show "owns (A \<union> ?g x) s'"
    proof (cases "r m")
      case None
      with a x show ?thesis by simp
    next
      case (Some files)
      with a(2) x have "fold_opt (scan_nodepool_file region m) (sorted_by fst files) s = Some s'" by simp
      from scan_dir_owns [OF a(1) this] show ?thesis using Some x by simp
    qed
  qed
  then have own: "(name, orig) \<in> scanned region roots modules \<longleftrightarrow> dget owners name = Some orig" for name orig
    by (cases orig) (auto simp: owns_def scanned_def)
  have "set (dkeys owners) = fst ` scanned region roots modules"
  proof -
    have "name \<in> set (dkeys owners) \<longleftrightarrow> dget owners name \<noteq> None" for name
      by (simp add: dkeys_def dget_def map_of_eq_None_iff)
    then have "set (dkeys owners) = {name. \<exists>orig. (name, orig) \<in> scanned region roots modules}"
      unfolding own not_None_eq [symmetric] by blast
    then show ?thesis by (simp add: image_def Bex_def)
  qed
  with av own show ?thesis by (metis option.inject)
qed

subsection \<open>The runners\<close>

lemma validate_runners_grow:
  "validate_runners defs available excluded es = Some es' \<Longrightarrow> \<exists>xs. es' = es @ xs"
proof (induction defs arbitrary: es)
  case (Cons f defs)
  from Cons.prems obtain e where "validate_one_runner f available excluded = Some e"
    "validate_runners defs available excluded (case e of None \<Rightarrow> es | Some e \<Rightarrow> es @ [e]) = Some es'"
    by (auto simp: validate_runners_def split: option.splits)
  with Cons.IH show ?case by (cases e) (auto, metis append.assoc)
qed (simp add: validate_runners_def)

lemma validate_runners_none:
  "validate_runners defs available excluded es = Some [] \<Longrightarrow> es = [] \<and> (\<forall>f \<in> set defs. validate_one_runner f available excluded = Some None)"
proof (induction defs arbitrary: es)
  case (Cons f defs)
  from Cons.prems obtain e where e: "validate_one_runner f available excluded = Some e"
    "validate_runners defs available excluded (case e of None \<Rightarrow> es | Some e \<Rightarrow> es @ [e]) = Some []"
    by (auto simp: validate_runners_def split: option.splits)
  then show ?case using Cons.IH [OF e(2)] by (cases e) auto
qed (simp add: validate_runners_def)

definition cluster_in :: "json \<Rightarrow> string \<Rightarrow> (string, json) dict option" where
  "cluster_in y cid =
     (case json_get y ''clusters'' JNull of
        Some cs \<Rightarrow> (case json_get (or_empty cs) cid JNull of Some (JObj cfg) \<Rightarrow> Some cfg | _ \<Rightarrow> None)
      | None \<Rightarrow> None)"

definition region_in :: "json \<Rightarrow> string \<Rightarrow> string option" where
  "region_in y cid =
     Option.bind (cluster_in y cid) (\<lambda>cfg. Option.bind (json_get y ''defaults'' JNull) (\<lambda>d. resolve_region cfg (or_empty d)))"

lemma validated_parts:
  assumes "validate_cluster_runner_fleets cid y roots = Some []" "cluster_in y cid = Some cfg"
    "enabled_modules cfg ''arc-runners'' = Some rms" "rms \<noteq> []"
  obtains nms region excluded available where
    "enabled_modules cfg ''nodepools'' = Some nms" "region_in y cid = Some region"
    "collect_excluded_instance_types roots nms region = Some excluded"
    "collect_available_fleets roots nms region = Some (available, [])"
    "\<forall>f \<in> set (collect_runner_defs roots rms). validate_one_runner f available excluded = Some None"
proof -
  from assms obtain defaults nms region excluded available es where
    "json_get y ''defaults'' JNull = Some defaults" "enabled_modules cfg ''nodepools'' = Some nms"
    "resolve_region cfg (or_empty defaults) = Some region"
    "collect_excluded_instance_types roots nms region = Some excluded"
    "collect_available_fleets roots nms region = Some (available, es)"
    "validate_runners (collect_runner_defs roots rms) available excluded es = Some []"
    by (auto simp: validate_cluster_runner_fleets_def cluster_in_def bind_eq_Some_conv
        split: option.splits json.splits if_splits prod.splits)
  with validate_runners_none [OF this(6)] assms(2) that show ?thesis by (simp add: region_in_def)
qed

text \<open>The definition of a runner in a file.\<close>

definition runner_in :: "json \<Rightarrow> (string, json) dict option" where
  "runner_in j = (case json_get (or_empty j) ''runner'' JNull of Some r \<Rightarrow> (case or_empty r of JObj d \<Rightarrow> Some d | _ \<Rightarrow> None) | None \<Rightarrow> None)"

definition defines_fleet :: "root list \<Rightarrow> string list \<Rightarrow> string \<Rightarrow> string \<Rightarrow> string \<times> string \<Rightarrow> bool" where
  "defines_fleet roots modules region fleet orig =
     (fst orig \<in> set modules \<and>
      (\<exists>r \<in> set roots. \<exists>files. r (fst orig) = Some files \<and>
         (\<exists>j ns. (snd orig, Some j) \<in> set files \<and> iter_fleet_names (or_empty j) region = Some ns \<and> fleet \<in> set ns)))"

lemma names_in_file_iff:
  "(n, y, g) \<in> names_in_file region m f \<longleftrightarrow>
     y = m \<and> g = fst f \<and> (\<exists>j ns. snd f = Some j \<and> iter_fleet_names (or_empty j) region = Some ns \<and> n \<in> set ns)"
  by (auto simp: names_in_file_def split: option.splits)

lemma scanned_file:
  "(fleet, m, g) \<in> scanned region roots modules \<longleftrightarrow>
     (\<exists>r \<in> set roots. m \<in> set modules \<and> (\<exists>files. r m = Some files \<and> (\<exists>f \<in> set files. (fleet, m, g) \<in> names_in_file region m f)))"
  (is "?l = ?r")
proof
  assume ?l
  then obtain r y files f where "r \<in> set roots" "y \<in> set modules" "r y = Some files" "f \<in> set files" "(fleet, m, g) \<in> names_in_file region y f"
    unfolding scanned_def by (auto split: option.splits)
  moreover then have "y = m" by (simp add: names_in_file_iff)
  ultimately show ?r by blast
next
  assume ?r
  then show ?l unfolding scanned_def by force
qed

lemma scanned_iff: "(fleet, orig) \<in> scanned region roots modules \<longleftrightarrow> defines_fleet roots modules region fleet orig"
proof (cases orig)
  case (Pair m g)
  have f: "(\<exists>f \<in> set files. g = fst f \<and> (\<exists>j ns. snd f = Some j \<and> Q j ns)) \<longleftrightarrow> (\<exists>j ns. (g, Some j) \<in> set files \<and> Q j ns)"
    for files :: "(string \<times> json option) list" and Q :: "json \<Rightarrow> string list \<Rightarrow> bool"
    by (metis fst_conv snd_conv prod.collapse)
  show ?thesis unfolding Pair scanned_file names_in_file_iff defines_fleet_def fst_conv snd_conv simp_thms f by blast
qed

text \<open>No job waits for a fleet that does not exist. If the validation of a cluster finds no error, every runner of the cluster's
  enabled modules is either on an instance type that the region excludes, or its fleet, from its override or the family of its type, is
  not reserved and is defined for the region in exactly one file of the enabled node pools.\<close>

theorem validated_runners_have_fleets:
  assumes "validate_cluster_runner_fleets cid y roots = Some []" "cluster_in y cid = Some cfg"
    "enabled_modules cfg ''arc-runners'' = Some rms" "(mf, Some j) \<in> set (collect_runner_defs roots rms)"
    "runner_in j = Some runner" "json_true (dget_or runner ''name'' JNull)" "dget runner ''instance_type'' = Some (JStr t)" "t \<noteq> []"
  shows "\<exists>nms region excluded. enabled_modules cfg ''nodepools'' = Some nms \<and> region_in y cid = Some region \<and>
    collect_excluded_instance_types roots nms region = Some excluded \<and>
    (t \<in> excluded \<or>
     (\<exists>fleet. derive_fleet_name t (dget_or runner ''node_fleet'' JNull) = Inr fleet \<and> fleet \<notin> RESERVED_NODE_FLEET_NAMES \<and>
        (\<exists>!orig. defines_fleet roots nms region fleet orig)))"
proof -
  have ne: "rms \<noteq> []"
  proof
    assume "rms = []"
    with assms(4) show False by (simp add: collect_runner_defs_def sorted_by_def product_Nil)
  qed
  obtain nms region excluded available where v: "enabled_modules cfg ''nodepools'' = Some nms" "region_in y cid = Some region"
    "collect_excluded_instance_types roots nms region = Some excluded"
    "collect_available_fleets roots nms region = Some (available, [])"
    "\<forall>f \<in> set (collect_runner_defs roots rms). validate_one_runner f available excluded = Some None"
    by (rule validated_parts [OF assms(1-3) ne])
  have "validate_one_runner (mf, Some j) available excluded = Some None" using v(5) assms(4) by blast
  then have r: "validate_runner runner available excluded = Some None"
    using assms(5) by (auto simp: validate_one_runner_def runner_in_def split: option.splits json.splits)
  have t: "dget_or runner ''instance_type'' JNull = JStr t" using assms(7) by (simp add: dget_or_def dget_def)
  note c = collect_available_owns [OF v(4)]
  show ?thesis
  proof (cases "t \<in> excluded")
    case False
    with r t assms(6,8) obtain fleet where f: "derive_fleet_name t (dget_or runner ''node_fleet'' JNull) = Inr fleet" "fleet \<in> available"
      by (auto simp: validate_runner_def Let_def split: sum.splits if_splits)
    from f(2) c obtain orig where o: "(fleet, orig) \<in> scanned region roots nms" "fleet \<notin> RESERVED_NODE_FLEET_NAMES" by auto
    have "\<exists>!orig. defines_fleet roots nms region fleet orig"
    proof (rule ex1I [of _ orig])
      show "defines_fleet roots nms region fleet orig" using o(1) by (simp add: scanned_iff)
      fix orig' assume "defines_fleet roots nms region fleet orig'"
      then show "orig' = orig" using c o(1) unfolding scanned_iff [symmetric] by blast
    qed
    with f(1) o(2) v show ?thesis by blast
  qed (use v in blast)
qed

definition fleet_clusters :: json where
  "fleet_clusters =
     JObj [(''clusters'', JObj [(''lf'', JObj [(''region'', JStr ''us-east-2''), (''modules'', JArr [JStr ''nodepools'', JStr ''arc-runners''])])])]"

definition fleet_root :: root where
  "fleet_root m =
     (if m = ''nodepools'' then Some [(''c7i.yaml'', Some (JObj [(''fleet'', JObj [(''name'', JStr ''c7i'')])]))]
      else if m = ''arc-runners'' then Some [(''l.yaml'', Some (JObj [(''runner'', JObj [(''name'', JStr ''l''), (''instance_type'', JStr ''c7i.large'')])]))]
      else None)"

theorem validated_runners_have_fleets_witness:
  "\<exists>nms region excluded. enabled_modules [(''region'', JStr ''us-east-2''), (''modules'', JArr [JStr ''nodepools'', JStr ''arc-runners''])] ''nodepools'' = Some nms \<and>
    region_in fleet_clusters ''lf'' = Some region \<and> collect_excluded_instance_types [fleet_root] nms region = Some excluded \<and>
    (''c7i.large'' \<in> excluded \<or>
     (\<exists>fleet. derive_fleet_name ''c7i.large'' JNull = Inr fleet \<and> fleet \<notin> RESERVED_NODE_FLEET_NAMES \<and>
        (\<exists>!orig. defines_fleet [fleet_root] nms region fleet orig)))"
proof -
  let ?r = "[(''name'', JStr ''l''), (''instance_type'', JStr ''c7i.large'')]"
  let ?c = "[(''region'', JStr ''us-east-2''), (''modules'', JArr [JStr ''nodepools'', JStr ''arc-runners''])]"
  have v: "validate_cluster_runner_fleets ''lf'' fleet_clusters [fleet_root] = Some []" by code_simp
  have d: "collect_runner_defs [fleet_root] [''arc-runners''] = [((''arc-runners'', ''l.yaml''), Some (JObj [(''runner'', JObj ?r)]))]"
    by code_simp
  have e: "enabled_modules ?c ''arc-runners'' = Some [''arc-runners'']" "cluster_in fleet_clusters ''lf'' = Some ?c"
    "runner_in (JObj [(''runner'', JObj ?r)]) = Some ?r" "dget ?r ''instance_type'' = Some (JStr ''c7i.large'')"
    "json_true (dget_or ?r ''name'' JNull)" "dget_or ?r ''node_fleet'' JNull = JNull"
    by code_simp+
  show ?thesis
    using validated_runners_have_fleets [OF v e(2,1) _ e(3,5,4)] d e(6) by simp
qed

end
