(* ===== verification/Runner_Generation.thy ===== *)
theory Runner_Generation
  imports Fleet_Naming
begin

section \<open>The generator of runner configurations\<close>

text \<open>
  \<open>modules/arc-runners/scripts/python/generate_runners.py\<close>, \<open>runner_max_map.py\<close> and \<open>scripts/python/conditional_blocks.py\<close>: a
  definition of a runner becomes the configuration of a scale set, and the map gives each scale set the limit to which it is set
  after a drain. Documents and directories are as in \<open>Fleet_Naming\<close>; names and instance types are texts, the modules of a
  cluster a list. How Python prints a value in
  a template is the parameter \<open>show\<close>.
\<close>

subsection \<open>Values of the cluster\<close>

definition field :: "json \<Rightarrow> string \<Rightarrow> json" where
  \<comment> \<open>\<open>v.get(part) if isinstance(v, dict) else None\<close>\<close>
  "field v p = (case v of JObj d \<Rightarrow> dget_or d p JNull | _ \<Rightarrow> JNull)"

definition resolve_value :: "json \<Rightarrow> json \<Rightarrow> string \<Rightarrow> json" where
  "resolve_value cfg defaults path =
     (let parts = split_on CHR ''.'' path; v = foldl field cfg parts in
      if v \<noteq> JNull then v else foldl field defaults parts)"

definition is_py_int :: "json \<Rightarrow> bool" where
  \<comment> \<open>\<open>isinstance(v, int)\<close>, of which a bool is an instance\<close>
  "is_py_int j = (case j of JNum n \<Rightarrow> of_int \<lfloor>n\<rfloor> = n | JBool _ \<Rightarrow> True | _ \<Rightarrow> False)"

fun json_num :: "json \<Rightarrow> rat option" where
  "json_num (JNum n) = Some n"
| "json_num (JBool b) = Some (if b then 1 else 0)"
| "json_num _ = None"

definition is_pos_int :: "json \<Rightarrow> bool" where
  "is_pos_int j = (is_py_int j \<and> (case json_num j of Some n \<Rightarrow> 1 \<le> n | None \<Rightarrow> False))"

datatype max_error = NoDefault | BadEntry string | BadMax

fun resolve_max_runners :: "json \<Rightarrow> string \<Rightarrow> max_error + json" where
  "resolve_max_runners JNull cid = Inr JNull"
| "resolve_max_runners (JObj d) cid =
     (case dget d ''default'' of
        None \<Rightarrow> Inl NoDefault
      | Some v \<Rightarrow>
          (case List.find (\<lambda>(_, w). \<not> is_pos_int w) d of
             Some (k, _) \<Rightarrow> Inl (BadEntry k)
           | None \<Rightarrow> Inr (dget_or d cid v)))"
| "resolve_max_runners v cid = (if is_pos_int v then Inr v else Inl BadMax)"

definition replace_char :: "char \<Rightarrow> char \<Rightarrow> string \<Rightarrow> string" where
  "replace_char a b s = map (\<lambda>c. if c = a then b else c) s"

definition normalize_runner_name :: "string \<Rightarrow> string" where
  "normalize_runner_name s = replace_char CHR ''_'' CHR ''-'' (replace_char CHR ''.'' CHR ''-'' s)"

definition K8S_MEMORY_SUFFIXES :: "(string, int) dict" where
  "K8S_MEMORY_SUFFIXES =
     [(''Ki'', 1024), (''Mi'', 1024 ^ 2), (''Gi'', 1024 ^ 3), (''Ti'', 1024 ^ 4),
      (''K'', 1000), (''M'', 1000 ^ 2), (''G'', 1000 ^ 3), (''T'', 1000 ^ 4)]"

definition memory_suffix :: "nat \<Rightarrow> string \<Rightarrow> int option" where
  "memory_suffix n s = (if length s > n then dget K8S_MEMORY_SUFFIXES (drop (length s - n) s) else None)"

definition parse_memory_bytes :: "string \<Rightarrow> int option" where
  "parse_memory_bytes s =
     (case memory_suffix 2 s of
        Some k \<Rightarrow> map_option (\<lambda>n. n * k) (py_int (drop_end 2 s))
      | None \<Rightarrow>
          (case memory_suffix 1 s of
             Some k \<Rightarrow> map_option (\<lambda>n. n * k) (py_int (drop_end 1 s))
           | None \<Rightarrow> py_int s))"

subsection \<open>Shards\<close>

definition removesuffix :: "string \<Rightarrow> string \<Rightarrow> string" where
  "removesuffix s suf = (if suf \<noteq> [] \<and> endswith s suf then drop_end (length suf) s else s)"

fun any_module :: "string \<Rightarrow> json list \<Rightarrow> bool option" where
  "any_module base [] = Some False"
| "any_module base (JStr m # ms) = (if removesuffix m ''-opt'' = base then Some True else any_module base ms)"
| "any_module base (_ # ms) = None"

definition is_peer :: "string \<Rightarrow> string \<Rightarrow> json \<Rightarrow> bool option" where
  "is_peer base target cfg =
     Option.bind (json_get cfg ''modules'' JNull) (\<lambda>ms.
     Option.bind (json_iter (json_or ms (JArr []))) (\<lambda>ms.
     Option.bind (any_module base ms) (\<lambda>deployed.
     if \<not> deployed then Some False
     else
       Option.bind (json_get cfg ''arc-runners'' JNull) (\<lambda>block.
       map_option (\<lambda>p. json_or p (JStr []) = JStr target) (json_get (or_empty block) ''runner_name_prefix'' JNull)))))"

fun peers_of :: "string \<Rightarrow> string \<Rightarrow> (string, json) dict \<Rightarrow> string list option" where
  "peers_of base target [] = Some []"
| "peers_of base target ((c, cfg) # cs) =
     Option.bind (is_peer base target cfg) (\<lambda>b. map_option (\<lambda>ps. if b then c # ps else ps) (peers_of base target cs))"

definition index_of :: "'a \<Rightarrow> 'a list \<Rightarrow> nat" where
  "index_of x xs = length (takeWhile (\<lambda>y. y \<noteq> x) xs)"

definition compute_cluster_sharding :: "json \<Rightarrow> string \<Rightarrow> string \<Rightarrow> string \<Rightarrow> (nat \<times> nat) option" where
  "compute_cluster_sharding y cid mname prefix =
     (case json_get y ''clusters'' JNull of
        None \<Rightarrow> None
      | Some cs \<Rightarrow>
          (case or_empty cs of
             JObj d \<Rightarrow>
               map_option (\<lambda>ps. let ps = sort ps in if cid \<notin> set ps then (0, 1) else (index_of cid ps, length ps))
                 (peers_of (removesuffix mname ''-opt'') prefix d)
           | _ \<Rightarrow> None))"

subsection \<open>Templates\<close>

fun strip_lines :: "string \<Rightarrow> string \<Rightarrow> bool \<Rightarrow> bool \<Rightarrow> string list \<Rightarrow> string list" where
  "strip_lines begin_m end_m keep inside [] = []"
| "strip_lines begin_m end_m keep inside (l # ls) =
     (if strip l = begin_m then strip_lines begin_m end_m keep True ls
      else if strip l = end_m then strip_lines begin_m end_m keep False ls
      else if \<not> keep \<and> inside then strip_lines begin_m end_m keep inside ls
      else l # strip_lines begin_m end_m keep inside ls)"

definition strip_conditional_block :: "string \<Rightarrow> string \<Rightarrow> bool \<Rightarrow> string" where
  "strip_conditional_block s tag keep =
     join_on CHR 0x0A (strip_lines (''# BEGIN_'' @ tag) (''# END_'' @ tag) keep False (split_on CHR 0x0A s))"

function str_replace :: "string \<Rightarrow> string \<Rightarrow> string \<Rightarrow> string" where
  \<comment> \<open>\<open>s.replace(old, new)\<close>, for an \<open>old\<close> that is not empty\<close>
  "str_replace old new s =
     (case s of
        [] \<Rightarrow> []
      | c # cs \<Rightarrow>
          if old \<noteq> [] \<and> startswith s old then new @ str_replace old new (drop (length old) s) else c # str_replace old new cs)"
  by pat_completeness auto
termination by (relation "measure (\<lambda>(old, new, s). length s)") auto

declare str_replace.simps [simp del]

definition three_newlines :: string where
  "three_newlines = [CHR 0x0A, CHR 0x0A, CHR 0x0A]"

lemma str_replace_hit: "old \<noteq> [] \<Longrightarrow> s \<noteq> [] \<Longrightarrow> startswith s old \<Longrightarrow> str_replace old new s = new @ str_replace old new (drop (length old) s)"
  by (subst str_replace.simps, cases s) (simp_all only: list.case simp_thms if_True if_False)

lemma str_replace_miss: "\<not> (old \<noteq> [] \<and> startswith (c # cs) old) \<Longrightarrow> str_replace old new (c # cs) = c # str_replace old new cs"
  by (subst str_replace.simps) (simp only: list.case if_False)

lemma str_replace_longer: "length new \<le> length old \<Longrightarrow> length (str_replace old new s) \<le> length s"
proof (induction old new s rule: str_replace.induct)
  case (1 old new s)
  show ?case
  proof (cases s)
    case (Cons c cs)
    show ?thesis
    proof (cases "old \<noteq> [] \<and> startswith s old")
      case True
      then have "length old \<le> length s" by (auto simp: startswith_def dest: arg_cong [of _ _ length])
      moreover have "length (str_replace old new (drop (length old) s)) \<le> length (drop (length old) s)"
        using 1(1) [OF Cons True 1(3)] Cons by simp
      ultimately show ?thesis using str_replace_hit [of old s new] True Cons 1(3) by simp
    next
      case False
      then show ?thesis using 1(2) [OF Cons False 1(3)] Cons str_replace_miss [of old c cs new] by simp
    qed
  qed (subst str_replace.simps, simp)
qed

lemma str_replace_shorter:
  "length new < length old \<Longrightarrow> contains_str old s \<Longrightarrow> length (str_replace old new s) < length s"
proof (induction old new s rule: str_replace.induct)
  case (1 old new s)
  show ?case
  proof (cases s)
    case Nil
    with 1(3,4) show ?thesis by (simp add: startswith_def)
  next
    case (Cons c cs)
    show ?thesis
    proof (cases "old \<noteq> [] \<and> startswith s old")
      case True
      then have "length old \<le> length s" by (auto simp: startswith_def dest: arg_cong [of _ _ length])
      moreover have "length (str_replace old new (drop (length old) s)) \<le> length (drop (length old) s)"
        using str_replace_longer [of new old "drop (length old) s"] 1(3) by linarith
      ultimately show ?thesis using str_replace_hit [of old s new] True Cons 1(3) by simp
    next
      case False
      then have "contains_str old cs" using 1(3,4) Cons by auto
      then show ?thesis using 1(2) [OF Cons False 1(3)] Cons str_replace_miss [of old c cs new] False by simp
    qed
  qed
qed

function collapse_newlines :: "string \<Rightarrow> string" where
  "collapse_newlines s =
     (if contains_str three_newlines s then collapse_newlines (str_replace three_newlines [CHR 0x0A, CHR 0x0A] s) else s)"
  by pat_completeness auto
termination
  by (relation "measure length") (auto simp: three_newlines_def intro!: str_replace_shorter)

declare collapse_newlines.simps [simp del]

subsection \<open>One scale set\<close>

text \<open>What the cluster gives to every definition: its block \<open>arc-runners\<close>, and the keys that \<open>main\<close> adds to it.\<close>

record gen_config =
  c_block :: "(string, json) dict"
  c_image :: string
  c_proactive :: json
  c_paused :: bool
  c_region :: string
  c_excluded :: "string set"
  c_id :: string
  c_shard :: "nat \<times> nat"
  c_age :: json
  c_module :: string
  c_cluster :: "(string, json) dict"
  c_pypi :: bool
  c_hf :: bool
  c_modules :: "string set"

record runner_values =
  v_name :: string
  v_type :: string
  v_fleet :: string
  v_max :: json
  v_proactive :: json
  v_burst :: json
  v_hud :: json
  v_group :: json
  v_class :: json
  v_scheduler :: json
  v_gpu :: json
  v_memory :: int
  v_fresh :: flt

text \<open>\<open>Refused\<close> is the result \<open>False\<close>; \<open>Died\<close> is an exception or \<open>sys.exit\<close>.\<close>

datatype 'a gen = Refused | Died | Done 'a

definition burst_below :: "json \<Rightarrow> json \<Rightarrow> bool option" where
  \<comment> \<open>\<open>burst > 0 and x > 0 and burst < x\<close>, with the types checked from left to right\<close>
  "burst_below burst x =
     (case json_num burst of
        None \<Rightarrow> None
      | Some b \<Rightarrow> if b \<le> 0 then Some False else (case json_num x of None \<Rightarrow> None | Some n \<Rightarrow> Some (n > 0 \<and> b < n)))"

definition py_min :: "json \<Rightarrow> json \<Rightarrow> json option" where
  "py_min a b = (case (json_num a, json_num b) of (Some m, Some n) \<Rightarrow> Some (if n < m then b else a) | _ \<Rightarrow> None)"

definition to_float :: "json \<Rightarrow> flt option" where
  "to_float j = (case j of JStr s \<Rightarrow> py_float s | _ \<Rightarrow> map_option fl (json_num j))"

definition fresh_of :: "gen_config \<Rightarrow> (string, json) dict \<Rightarrow> flt option" where
  "fresh_of G runner =
     (let v = dget_or runner ''fresh_multiplier'' JNull in
      if v \<noteq> JNull then to_float v
      else Option.bind (json_get (or_empty (dget_or (c_cluster G) (c_module G) JNull)) ''capacity_aware_fresh_multiplier'' (jint 1)) to_float)"

fun rstrip_slash :: "string \<Rightarrow> string" where
  "rstrip_slash s = rev (dropWhile (\<lambda>c. c = CHR ''/'') (rev s))"

fun after_first :: "string \<Rightarrow> string \<Rightarrow> string option" where
  \<comment> \<open>the part after the first occurrence\<close>
  "after_first sep [] = None"
| "after_first sep (c # s) = (if startswith (c # s) sep then Some (drop (length sep) (c # s)) else after_first sep s)"

definition repo_scoped :: "string \<Rightarrow> bool" where
  "repo_scoped url =
     (contains_str ''github.com/'' url \<and>
      CHR ''/'' \<in> set (let s = rstrip_slash url in case after_first ''github.com/'' s of Some t \<Rightarrow> t | None \<Rightarrow> s))"

text \<open>The group of a runner; the group of the cluster and the address are texts.\<close>

definition runner_group_of :: "gen_config \<Rightarrow> (string, json) dict \<Rightarrow> json option" where
  "runner_group_of G runner =
     (let cg = dget_or (c_block G) ''runner_group'' JNull;
          g = (if json_true cg then cg else dget_or runner ''runner_group'' (JStr ''default''));
          release = (dget_or runner ''runner_class'' (JStr []) = JStr ''release'') in
      case (cg, dget_or (c_block G) ''github_config_url'' (JStr [])) of
        (JNull, JStr url) \<Rightarrow>
          (let g = (if release then JStr (derive_release_runner_group []) else g) in
           Some (if g \<noteq> JStr ''default'' \<and> repo_scoped url then JStr ''default'' else g))
      | (JStr c, JStr url) \<Rightarrow>
          (let g = (if release then JStr (derive_release_runner_group c) else g) in
           Some (if g \<noteq> JStr ''default'' \<and> repo_scoped url then JStr ''default'' else g))
      | _ \<Rightarrow> None)"

definition scheduler_of :: "gen_config \<Rightarrow> (string, json) dict \<Rightarrow> json" where
  "scheduler_of G runner =
     (let s = json_or (dget_or runner ''scheduler_name'' (JStr [])) (dget_or (c_block G) ''scheduler_name'' (JStr [])) in
      if json_true s \<and> s \<notin> JStr ` c_modules G then JStr [] else s)"

definition capacity_of :: "gen_config \<Rightarrow> (string, json) dict \<Rightarrow> string \<Rightarrow> json \<Rightarrow> json \<Rightarrow> json \<times> json \<times> json" where
  \<comment> \<open>\<open>max_runners\<close>, \<open>proactive_capacity\<close> and \<open>hud_failure_base_capacity\<close> after the pause and the excluded region\<close>
  "capacity_of G runner ty mx pro =
     (let hud = dget_or runner ''hud_failure_base_capacity'' (jint 0);
          (mx, hud) = (if c_paused G then (jint 0, jint 0) else (mx, hud)) in
      if ty \<in> c_excluded G then (jint 0, jint 0, jint 0) else (mx, pro, hud))"

definition bad_burst :: "json \<Rightarrow> bool" where
  "bad_burst j = (j \<noteq> JNull \<and> (\<not> is_py_int j \<or> (case json_num j of Some n \<Rightarrow> n < 0 | None \<Rightarrow> True)))"

definition memory_of :: "json \<Rightarrow> int option" where
  \<comment> \<open>\<open>parse_memory_bytes(str(memory))\<close>\<close>
  "memory_of j =
     (case j of JStr s \<Rightarrow> parse_memory_bytes s | JNum n \<Rightarrow> if of_int \<lfloor>n\<rfloor> = n then parse_memory_bytes (str_int \<lfloor>n\<rfloor>) else None | _ \<Rightarrow> None)"

definition runner_limits :: "gen_config \<Rightarrow> (string, json) dict \<Rightarrow> string \<Rightarrow> string \<Rightarrow> json \<Rightarrow> runner_values gen" where
  "runner_limits G runner name ty pro =
     (case resolve_max_runners (dget_or runner ''max_runners'' JNull) (c_id G) of
        Inl _ \<Rightarrow> Died
      | Inr mx \<Rightarrow>
          (case (capacity_of G runner ty mx pro, dget_or runner ''max_burst_capacity'' (jint 0)) of ((mx, pro, hud), burst) \<Rightarrow>
             if bad_burst burst then Refused
             else
               (case burst_below burst pro of
                  None \<Rightarrow> Died
                | Some True \<Rightarrow> Refused
                | Some False \<Rightarrow>
                    (case burst_below burst hud of
                       None \<Rightarrow> Died
                     | Some True \<Rightarrow> Refused
                     | Some False \<Rightarrow>
                         (case derive_fleet_name ty (dget_or runner ''node_fleet'' JNull) of
                            Inl _ \<Rightarrow> Refused
                          | Inr fleet \<Rightarrow>
                              (case (runner_group_of G runner, json_num (dget_or runner ''gpu'' (jint 0)), fresh_of G runner,
                                     memory_of (dget_or runner ''memory'' JNull)) of
                                 (Some g, Some _, Some fresh, Some mem) \<Rightarrow>
                                   Done \<lparr>v_name = name, v_type = ty, v_fleet = fleet, v_max = mx, v_proactive = pro, v_burst = burst,
                                     v_hud = hud, v_group = g, v_class = dget_or runner ''runner_class'' (JStr []),
                                     v_scheduler = scheduler_of G runner, v_gpu = dget_or runner ''gpu'' (jint 0),
                                     v_memory = mem, v_fresh = fresh\<rparr>
                               | _ \<Rightarrow> Died))))))"

definition generate_runner :: "gen_config \<Rightarrow> json \<Rightarrow> runner_values gen" where
  "generate_runner G doc =
     (case json_get doc ''runner'' (JObj []) of
        Some (JObj runner) \<Rightarrow>
          (case (if c_proactive G = JNull then Some (dget_or runner ''proactive_capacity'' (jint 0))
                 else py_min (dget_or runner ''proactive_capacity'' (jint 0)) (c_proactive G)) of
             None \<Rightarrow> Died
           | Some pro \<Rightarrow>
               if fresh_of G runner = None then Died
               else
                 (case (dget_or runner ''name'' JNull, dget_or runner ''instance_type'' JNull) of
                    (JStr name, JStr ty) \<Rightarrow> if name = [] \<or> ty = [] then Refused else runner_limits G runner name ty pro
                  | (n, t) \<Rightarrow> if \<not> json_true n \<or> \<not> json_true t then Refused else Died))
      | _ \<Rightarrow> Died)"

subsection \<open>The text of a configuration\<close>

definition text_lines :: "string list \<Rightarrow> string" where
  \<comment> \<open>every line after a newline\<close>
  "text_lines ls = concat (map (\<lambda>l. CHR 0x0A # l) ls)"

definition quoted :: "string \<Rightarrow> string" where
  "quoted s = CHR 0x22 # s @ [CHR 0x22]"

definition gpu_job_tolerations :: "bool \<Rightarrow> string" where
  "gpu_job_tolerations gpu =
     (if gpu then text_lines [''        - key: nvidia.com/gpu'', ''          operator: Equal'', ''          value: '' @ quoted ''true'',
        ''          effect: NoSchedule''] else [])"

definition gpu_node_selector_affinity :: "bool \<Rightarrow> string" where
  "gpu_node_selector_affinity gpu =
     (if gpu then text_lines [''                  - key: nvidia.com/gpu'', ''                    operator: In'',
        ''                    values:'', ''                      - '' @ quoted ''true''] else [])"

definition gpu_quantity :: "bool \<Rightarrow> string \<Rightarrow> string" where
  "gpu_quantity gpu n = (if gpu then text_lines [''              nvidia.com/gpu: '' @ quoted n] else [])"

definition imex_env :: "(json \<Rightarrow> string) \<Rightarrow> json \<Rightarrow> string" where
  "imex_env show j =
     (if j \<noteq> JNull then text_lines [''            - name: NVIDIA_IMEX_CHANNELS'', ''              value: '' @ quoted (show j)] else [])"

definition runner_class_job_affinity :: "(json \<Rightarrow> string) \<Rightarrow> json \<Rightarrow> string" where
  "runner_class_job_affinity show c =
     concat (map (\<lambda>l. l @ [CHR 0x0A])
       ([''          requiredDuringSchedulingIgnoredDuringExecution:'', ''            nodeSelectorTerms:'',
         ''              - matchExpressions:'', ''                  - key: osdc.io/runner-class''] @
        (if json_true c then [''                    operator: In'', ''                    values:'', ''                      - '' @ quoted (show c)]
         else [''                    operator: DoesNotExist''])))"

definition block_text :: "(json \<Rightarrow> string) \<Rightarrow> gen_config \<Rightarrow> string \<Rightarrow> string" where
  "block_text show G k = show (dget_or (c_block G) k (JStr []))"

definition replacements :: "(json \<Rightarrow> string) \<Rightarrow> gen_config \<Rightarrow> (string, json) dict \<Rightarrow> runner_values \<Rightarrow> (string \<times> string) list" where
  "replacements show G runner v =
     (let gpu = (case json_num (v_gpu v) of Some n \<Rightarrow> n > 0 | None \<Rightarrow> False) in
      [(''{{GITHUB_CONFIG_URL}}'', block_text show G ''github_config_url''),
       (''{{GITHUB_SECRET_NAME}}'', block_text show G ''github_secret_name''),
       (''{{RUNNER_NAME_PREFIX}}'', block_text show G ''runner_name_prefix''),
       (''{{RUNNER_NAME}}'', v_name v),
       (''{{RUNNER_NAME_NORMALIZED}}'', normalize_runner_name (v_name v)),
       (''{{INSTANCE_TYPE}}'', v_type v),
       (''{{NODE_FLEET}}'', v_fleet v),
       (''{{VCPU}}'', show (dget_or runner ''vcpu'' JNull)),
       (''{{MEMORY}}'', show (dget_or runner ''memory'' JNull)),
       (''{{MEMORY_BYTES}}'', str_int (v_memory v)),
       (''{{DISK_SIZE}}'', show (dget_or runner ''disk_size'' (jint 100)) @ ''Gi''),
       (''{{GPU_JOB_TOLERATIONS}}'', gpu_job_tolerations gpu),
       (''{{GPU_NODE_SELECTOR_AFFINITY}}'', gpu_node_selector_affinity gpu),
       (''{{GPU_REQUEST}}'', gpu_quantity gpu (show (v_gpu v))),
       (''{{GPU_LIMIT}}'', gpu_quantity gpu (show (v_gpu v))),
       (''{{IMEX_ENV}}'', imex_env show (dget_or runner ''imex_channels'' JNull)),
       (''{{MODULE_NAME}}'', c_module G),
       (''{{RUNNER_IMAGE}}'', c_image G),
       (''{{HF_CACHE_BUCKET}}'', ''pytorch-hf-model-cache-'' @ c_id G),
       (''{{HF_CACHE_REGION}}'', c_region G),
       (''{{RUNNER_GROUP}}'', show (v_group v)),
       (''{{RUNNER_CLASS_JOB_AFFINITY}}'', runner_class_job_affinity show (v_class v)),
       (''{{MAX_RUNNERS_LINE}}'', if v_max v \<noteq> JNull then ''maxRunners: '' @ show (v_max v) else []),
       (''{{GPU_COUNT}}'', show (v_gpu v)),
       (''{{RUNNER_CLASS}}'', show (v_class v)),
       (''{{PROACTIVE_CAPACITY}}'', show (v_proactive v)),
       (''{{MAX_BURST_CAPACITY}}'', show (v_burst v)),
       (''{{HUD_FAILURE_BASE_CAPACITY}}'', show (v_hud v)),
       (''{{SCHEDULER_NAME_LINE}}'', if json_true (v_scheduler v) then ''      schedulerName: '' @ show (v_scheduler v) else []),
       (''{{SCHEDULER_NAME}}'', show (v_scheduler v)),
       (''{{CAPACITY_AWARE_CLUSTER_INDEX}}'', str_int (int (fst (c_shard G)))),
       (''{{CAPACITY_AWARE_CLUSTER_COUNT}}'', str_int (int (snd (c_shard G)))),
       (''{{CAPACITY_AWARE_AGE_THRESHOLD_SECONDS}}'', show (c_age G)),
       (''{{CAPACITY_AWARE_FRESH_MULTIPLIER}}'', show (JNum (v_fresh v)))])"

definition render_runner :: "(json \<Rightarrow> string) \<Rightarrow> gen_config \<Rightarrow> string \<Rightarrow> (string, json) dict \<Rightarrow> runner_values \<Rightarrow> string" where
  "render_runner show G template runner v =
     collapse_newlines (fold (\<lambda>(old, new) s. str_replace old new s) (replacements show G runner v)
       (strip_conditional_block (strip_conditional_block template ''PYPI_CACHE'' (c_pypi G)) ''HF_CACHE'' (c_hf G)))"

subsection \<open>The generator\<close>

record gen_env =
  e_clusters :: json
  e_repo :: root
  e_consumers :: "root list" \<comment> \<open>the root of the consumer, if there is another\<close>
  e_image :: "string option"
  e_defs :: yaml_dir
  e_nodepools :: yaml_dir
  e_module :: string

definition cluster_region :: "(string, json) dict \<Rightarrow> string option" where
  "cluster_region cfg = (case dget_or cfg ''region'' (JStr []) of JStr s \<Rightarrow> Some s | JNull \<Rightarrow> Some [] | _ \<Rightarrow> None)"

definition text_set :: "json \<Rightarrow> string set option" where
  \<comment> \<open>\<open>set(modules or [])\<close>, of which only the texts matter\<close>
  "text_set j = map_option (\<lambda>ms. set (List.map_filter (\<lambda>m. case m of JStr s \<Rightarrow> Some s | _ \<Rightarrow> None) ms)) (json_iter (json_or j (JArr [])))"

definition bad_cap :: "json \<Rightarrow> bool" where
  "bad_cap j = (j \<noteq> JNull \<and> (case j of JNum n \<Rightarrow> of_int \<lfloor>n\<rfloor> \<noteq> n \<or> n < 0 | _ \<Rightarrow> True))"

definition config_of :: "gen_env \<Rightarrow> string \<Rightarrow> (string, json) dict \<Rightarrow> (string, json) dict \<Rightarrow> gen_config gen" where
  \<comment> \<open>from the cluster and its block; \<open>Refused\<close> is the exit code 1\<close>
  "config_of E cid cfg block =
     (if \<not> json_true (dget_or block ''github_config_url'' JNull) then Refused
      else if e_image E = None then Died
      else if bad_cap (dget_or cfg ''proactive_capacity_max'' JNull) then Refused
      else
        (case (cluster_region cfg, text_set (dget_or cfg ''modules'' JNull),
               json_or (dget_or block ''runner_name_prefix'' JNull) (JStr [])) of
           (Some region, Some mods, JStr prefix) \<Rightarrow>
             (case (load_excluded_instance_types (e_nodepools E) region,
                    compute_cluster_sharding (e_clusters E) cid (e_module E) prefix) of
                (Some excluded, Some shard) \<Rightarrow>
                  Done \<lparr>c_block = block, c_image = the (e_image E), c_proactive = dget_or cfg ''proactive_capacity_max'' JNull,
                    c_paused = json_true (dget_or cfg ''pause_runners'' JNull), c_region = region, c_excluded = excluded, c_id = cid,
                    c_shard = shard, c_age = dget_or cfg ''capacity_aware_age_threshold_seconds'' (jint 900), c_module = e_module E,
                    c_cluster = cfg, c_pypi = ''pypi-cache'' \<in> mods, c_hf = ''hf-cache'' \<in> mods, c_modules = mods\<rparr>
              | _ \<Rightarrow> Died)
         | _ \<Rightarrow> Died))"

fun generate_all :: "gen_config \<Rightarrow> (string \<times> json option) list \<Rightarrow> runner_values list gen" where
  "generate_all G [] = Done []"
| "generate_all G ((_, None) # fs) = Died"
| "generate_all G ((_, Some doc) # fs) =
     (case generate_runner G doc of
        Died \<Rightarrow> Died
      | Refused \<Rightarrow> generate_all G fs
      | Done v \<Rightarrow> (case generate_all G fs of Done vs \<Rightarrow> Done (v # vs) | r \<Rightarrow> r))"

definition cluster_config :: "gen_env \<Rightarrow> string \<Rightarrow> gen_config gen" where
  "cluster_config E cid =
     (case (json_get (e_clusters E) ''defaults'' (JObj []), json_get (e_clusters E) ''clusters'' (JObj [])) of
        (Some defaults, Some (JObj clusters)) \<Rightarrow>
          (case dget clusters cid of
             None \<Rightarrow> Refused
           | Some cfg \<Rightarrow>
               if cfg = JNull then Refused
               else
                 (case (cfg, or_empty (resolve_value cfg defaults ''arc-runners'')) of
                    (JObj cfg, JObj block) \<Rightarrow> config_of E cid cfg block
                  | (_, JObj block) \<Rightarrow> if json_true (dget_or block ''github_config_url'' JNull) then Died else Refused
                  | _ \<Rightarrow> Died))
      | _ \<Rightarrow> Died)"

definition generate_main :: "gen_env \<Rightarrow> string \<Rightarrow> runner_values list gen" where
  \<comment> \<open>\<open>Refused\<close> is the exit code 1\<close>
  "generate_main E cid =
     (case cluster_config E cid of
        Refused \<Rightarrow> Refused
      | Died \<Rightarrow> Died
      | Done G \<Rightarrow>
          (case validate_cluster_runner_fleets cid (e_clusters E) (e_repo E # e_consumers E) of
             None \<Rightarrow> Died
           | Some es \<Rightarrow>
               if es \<noteq> [] then Died
               else
                 (case e_defs E of
                    None \<Rightarrow> Refused
                  | Some files \<Rightarrow> if files = [] then Refused else generate_all G (sorted_by fst files))))"

subsection \<open>The map of limits\<close>

definition MAX_INT32 :: json where "MAX_INT32 = jint (2 ^ 31 - 1)"

definition get_cluster :: "json \<Rightarrow> string \<Rightarrow> json option" where
  "get_cluster y cid =
     (case json_get y ''clusters'' (JObj []) of Some (JObj cs) \<Rightarrow> dget cs cid | _ \<Rightarrow> None)"

definition resolve_runner_name_prefix :: "json \<Rightarrow> string \<Rightarrow> string option" where
  "resolve_runner_name_prefix y cid =
     Option.bind (get_cluster y cid) (\<lambda>cfg.
     Option.bind (json_get y ''defaults'' (JObj [])) (\<lambda>defaults.
     Option.bind (json_get (or_empty (resolve_value cfg defaults ''arc-runners'')) ''runner_name_prefix'' (JStr [])) (\<lambda>p.
     case json_or p (JStr []) of JStr s \<Rightarrow> Some s | _ \<Rightarrow> None)))"

fun arc_modules :: "json list \<Rightarrow> string list option" where
  "arc_modules [] = Some []"
| "arc_modules (JStr m # ms) =
     map_option (\<lambda>r. if m = ''arc-runners'' \<or> startswith m ''arc-runners-'' then m # r else r) (arc_modules ms)"
| "arc_modules (_ # ms) = None"

definition enabled_arc_runner_modules :: "json \<Rightarrow> string \<Rightarrow> string list option" where
  "enabled_arc_runner_modules y cid =
     Option.bind (get_cluster y cid) (\<lambda>cfg.
     Option.bind (json_get cfg ''modules'' (JArr [])) (\<lambda>ms.
     Option.bind (json_iter (json_or ms (JArr []))) arc_modules))"

definition compute_ars_name :: "string \<Rightarrow> string \<Rightarrow> string" where
  "compute_ars_name prefix name = replace_char CHR ''_'' CHR ''-'' (prefix @ name)"

definition parse_def :: "json option \<Rightarrow> string \<Rightarrow> (string \<times> string option \<times> json) option" where
  "parse_def doc cid =
     Option.bind doc (\<lambda>j.
     Option.bind (json_get (or_empty j) ''runner'' JNull) (\<lambda>r.
     case or_empty r of
       JObj runner \<Rightarrow>
         (case (text_field runner ''name'', dget_or runner ''instance_type'' JNull, resolve_max_runners (dget_or runner ''max_runners'' JNull) cid) of
            (Some n, JNull, Inr mx) \<Rightarrow> Some (n, None, mx)
          | (Some n, JStr t, Inr mx) \<Rightarrow> Some (n, Some t, mx)
          | _ \<Rightarrow> None)
     | _ \<Rightarrow> None))"

definition iter_def_files :: "root \<Rightarrow> string \<Rightarrow> (string \<times> json option) list" where
  "iter_def_files repo m = (case repo m of None \<Rightarrow> [] | Some files \<Rightarrow> sorted_by fst files)"

definition limit_entry ::
  "string \<Rightarrow> bool \<Rightarrow> string set \<Rightarrow> string \<Rightarrow> string \<times> json option \<Rightarrow> (string, json) dict \<Rightarrow> (string, json) dict option" where
  "limit_entry prefix paused excluded cid f res =
     map_option (\<lambda>(name, ty, mx).
       dset (compute_ars_name prefix name)
         (if paused \<or> ty \<in> Some ` excluded then jint 0 else if mx \<noteq> JNull then mx else MAX_INT32) res)
       (parse_def (snd f) cid)"

definition build_max_runners_map :: "root \<Rightarrow> json \<Rightarrow> string \<Rightarrow> (string, json) dict option" where
  "build_max_runners_map repo y cid =
     Option.bind (resolve_runner_name_prefix y cid) (\<lambda>prefix.
     Option.bind (enabled_arc_runner_modules y cid) (\<lambda>mods.
     Option.bind (get_cluster y cid) (\<lambda>cfg.
     case cfg of
       JObj cfg \<Rightarrow>
         Option.bind (cluster_region cfg) (\<lambda>region.
         Option.bind (load_excluded_instance_types (repo ''nodepools'') region) (\<lambda>excluded.
         fold_opt (limit_entry prefix (json_true (dget_or cfg ''pause_runners'' JNull)) excluded cid)
           (concat (map (iter_def_files repo) mods)) []))
     | _ \<Rightarrow> None)))"

section \<open>Shards, limits and templates: properties\<close>

text \<open>Shards partition the clusters that share a queue; a template loses its optional blocks; after a drain the map gives every scale set the limit
  that the generator gives it.\<close>

subsection \<open>Shards\<close>

lemma index_of_less: "x \<in> set xs \<Longrightarrow> index_of x xs < length xs"
  unfolding index_of_def by (induction xs) auto

lemma nth_index_of: "x \<in> set xs \<Longrightarrow> xs ! index_of x xs = x"
  unfolding index_of_def by (induction xs) auto

lemma index_of_bij: "distinct xs \<Longrightarrow> bij_betw (\<lambda>x. index_of x xs) (set xs) {0..<length xs}"
proof (rule bij_betw_imageI)
  show "inj_on (\<lambda>x. index_of x xs) (set xs)" by (rule inj_onI) (metis nth_index_of)
  assume d: "distinct xs"
  show "(\<lambda>x. index_of x xs) ` set xs = {0..<length xs}"
  proof
    show "{0..<length xs} \<subseteq> (\<lambda>x. index_of x xs) ` set xs"
    proof
      fix i assume i: "i \<in> {0..<length xs}"
      then have "xs ! index_of (xs ! i) xs = xs ! i" "index_of (xs ! i) xs < length xs"
        by (simp_all add: nth_index_of index_of_less)
      with d i have "index_of (xs ! i) xs = i" by (simp add: nth_eq_iff_index_eq)
      with i show "i \<in> (\<lambda>x. index_of x xs) ` set xs" by (metis atLeastLessThan_iff image_eqI nth_mem)
    qed
  qed (auto simp: index_of_less)
qed

lemma peers_of_sub: "peers_of base target cs = Some ps \<Longrightarrow> set ps \<subseteq> set (dkeys cs) \<and> (distinct (dkeys cs) \<longrightarrow> distinct ps)"
proof (induction base target cs arbitrary: ps rule: peers_of.induct)
  case (2 base target c cfg cs)
  from 2(2) obtain b qs where b: "is_peer base target cfg = Some b" "peers_of base target cs = Some qs" "ps = (if b then c # qs else qs)"
    by (auto simp: bind_eq_Some_conv)
  from 2(1) [OF b(1,2)] b(3) show ?case by (auto simp: dkeys_def)
qed (simp add: dkeys_def)

lemma peers_of_iff:
  "peers_of base target cs = Some ps \<Longrightarrow> distinct (dkeys cs) \<Longrightarrow> (c, cfg) \<in> set cs \<Longrightarrow> c \<in> set ps \<longleftrightarrow> is_peer base target cfg = Some True"
proof (induction base target cs arbitrary: ps rule: peers_of.induct)
  case (2 base target c1 cfg1 cs)
  from 2(2) obtain b qs where b: "is_peer base target cfg1 = Some b" "peers_of base target cs = Some qs" "ps = (if b then c1 # qs else qs)"
    by (auto simp: bind_eq_Some_conv)
  note s = peers_of_sub [OF b(2)]
  show ?case
  proof (cases "c = c1")
    case True
    with 2(3,4) have "cfg = cfg1" "c1 \<notin> set qs" using s by (auto simp: dkeys_def image_iff)
    with True b show ?thesis by auto
  next
    case False
    with 2(3,4) have "(c, cfg) \<in> set cs" "distinct (dkeys cs)" by (auto simp: dkeys_def)
    from 2(1) [OF b(1,2) this(2,1)] False b(3) show ?thesis by auto
  qed
qed simp

text \<open>The clusters that offer the same runners share the queue exactly. Each peer, whether it deploys the base module or its
  \<open>-opt\<close> variant, computes the same number of shards, and their indices are all the numbers below it, each once.\<close>

theorem shards_partition:
  assumes "json_get y ''clusters'' JNull = Some (JObj d)" "distinct (dkeys d)"
    "peers = {c. \<exists>cfg. (c, cfg) \<in> set d \<and> is_peer base prefix cfg = Some True}"
    "\<forall>(c, cfg) \<in> set d. is_peer base prefix cfg \<noteq> None"
    "\<forall>c \<in> peers. removesuffix (mname c) ''-opt'' = base"
  shows "bij_betw (\<lambda>c. fst (the (compute_cluster_sharding y c (mname c) prefix))) peers {0..<card peers} \<and>
    (\<forall>c \<in> peers. \<exists>k < card peers. compute_cluster_sharding y c (mname c) prefix = Some (k, card peers))"
proof -
  have "\<exists>ps. peers_of base prefix d = Some ps"
    using assms(4)
  proof (induction d)
    case (Cons x d)
    then obtain ps where "peers_of base prefix d = Some ps" by auto
    with Cons.prems show ?case by (cases x) auto
  qed simp
  then obtain ps where ps: "peers_of base prefix d = Some ps" by blast
  note s = peers_of_sub [OF ps]
  have set: "set ps = peers"
  proof
    show "set ps \<subseteq> peers"
    proof
      fix c assume c: "c \<in> set ps"
      with s obtain cfg where "(c, cfg) \<in> set d" by (auto simp: dkeys_def)
      with c peers_of_iff [OF ps assms(2) this] assms(3) show "c \<in> peers" by blast
    qed
    show "peers \<subseteq> set ps" using peers_of_iff [OF ps assms(2)] assms(3) by blast
  qed
  have sh: "compute_cluster_sharding y c (mname c) prefix = Some (index_of c (sort ps), card peers)" if "c \<in> peers" for c
  proof -
    have "length ps = card peers" using s assms(2) set by (metis distinct_card)
    moreover have "or_empty (JObj d) = JObj d" by (simp add: or_empty_def json_or_def)
    ultimately show ?thesis using that assms(1,5) ps set by (simp add: compute_cluster_sharding_def Let_def)
  qed
  have bij: "bij_betw (\<lambda>c. index_of c (sort ps)) peers {0..<card peers}"
    using index_of_bij [of "sort ps"] s assms(2) set by (metis distinct_card distinct_sort length_sort set_sort)
  then have "bij_betw (\<lambda>c. fst (the (compute_cluster_sharding y c (mname c) prefix))) peers {0..<card peers}"
    by (subst bij_betw_cong [of _ _ "\<lambda>c. index_of c (sort ps)"]) (simp_all add: sh)
  moreover have "index_of c (sort ps) < card peers" if "c \<in> peers" for c
    using bij that by (metis atLeastLessThan_iff bij_betwE)
  ultimately show ?thesis using sh by blast
qed

definition shard_clusters :: "(string, json) dict" where
  "shard_clusters =
     [(''ue2'', JObj [(''modules'', JArr [JStr ''arc-runners''])]), (''ue1'', JObj [(''modules'', JArr [JStr ''arc-runners-opt''])]),
      (''lf'', JObj [(''modules'', JArr [JStr ''arc-runners'']), (''arc-runners'', JObj [(''runner_name_prefix'', JStr ''lf-'')])])]"

theorem shards_partition_witness:
  "bij_betw (\<lambda>c. fst (the (compute_cluster_sharding (JObj [(''clusters'', JObj shard_clusters)]) c
      (if c = ''ue2'' then ''arc-runners'' else ''arc-runners-opt'') [])))
     {''ue2'', ''ue1''} {0..<card {''ue2'', ''ue1''}}"
proof -
  have p: "{c. \<exists>cfg. (c, cfg) \<in> set shard_clusters \<and> is_peer ''arc-runners'' [] cfg = Some True} = {''ue2'', ''ue1''}"
    by (auto simp: shard_clusters_def is_peer_def removesuffix_def endswith_def drop_end_def json_or_def or_empty_def dict_simps dget_or_def)
  have c: "json_get (JObj [(''clusters'', JObj shard_clusters)]) ''clusters'' JNull = Some (JObj shard_clusters)"
    "distinct (dkeys shard_clusters)" "\<forall>(c, cfg) \<in> set shard_clusters. is_peer ''arc-runners'' [] cfg \<noteq> None"
    "\<forall>c \<in> {''ue2'', ''ue1''}. removesuffix (if c = ''ue2'' then ''arc-runners'' else ''arc-runners-opt'') ''-opt'' = ''arc-runners''"
    by code_simp+
  from shards_partition [OF c(1,2) p [symmetric] c(3,4)] show ?thesis by (rule conjunct1)
qed

subsection \<open>Templates\<close>

lemma collapse_newlines_done: "\<not> contains_str three_newlines (collapse_newlines s)"
proof (induction s rule: collapse_newlines.induct)
  case (1 s)
  then show ?case by (subst collapse_newlines.simps) simp
qed

lemma strip_lines_drop: "set (strip_lines b e False i ls) \<subseteq> {l \<in> set ls. strip l \<noteq> b \<and> strip l \<noteq> e}"
  by (induction b e False i ls rule: strip_lines.induct) auto

subsection \<open>The limits after a drain\<close>

text \<open>The entry of the map that a file makes.\<close>

definition entry_for :: "string \<Rightarrow> bool \<Rightarrow> string set \<Rightarrow> string \<Rightarrow> json option \<Rightarrow> (string \<times> json) option" where
  "entry_for prefix paused excluded cid doc =
     map_option (\<lambda>(n, ty, mx). (compute_ars_name prefix n,
       if paused \<or> ty \<in> Some ` excluded then jint 0 else if mx \<noteq> JNull then mx else MAX_INT32)) (parse_def doc cid)"

lemma limit_entry_dget:
  "limit_entry prefix paused excluded cid x res = Some res' \<Longrightarrow>
     \<exists>k v. entry_for prefix paused excluded cid (snd x) = Some (k, v) \<and> dget res' j = (if k = j then Some v else dget res j)"
proof (cases "parse_def (snd x) cid")
  case (Some p)
  assume l: "limit_entry prefix paused excluded cid x res = Some res'"
  obtain n ty mx where p: "p = (n, ty, mx)" by (cases p)
  define v where "v = (if paused \<or> ty \<in> Some ` excluded then jint 0 else if mx \<noteq> JNull then mx else MAX_INT32)"
  have "res' = dset (compute_ars_name prefix n) v res" "entry_for prefix paused excluded cid (snd x) = Some (compute_ars_name prefix n, v)"
    using l Some p by (simp_all add: limit_entry_def entry_for_def v_def)
  then show ?thesis by (simp add: dict_simps)
qed (simp add: limit_entry_def)

lemma limits_dget:
  assumes "fold_opt (limit_entry prefix paused excluded cid) xs res = Some m"
    "\<And>x w. x \<in> set xs \<Longrightarrow> entry_for prefix paused excluded cid (snd x) = Some (k, w) \<Longrightarrow> w = v"
    "dget res k = Some v \<or> (\<exists>x \<in> set xs. entry_for prefix paused excluded cid (snd x) = Some (k, v))"
  shows "dget m k = Some v"
  using assms
proof (induction xs arbitrary: res)
  case (Cons x xs)
  from Cons.prems(1) obtain res1 where r: "limit_entry prefix paused excluded cid x res = Some res1"
    "fold_opt (limit_entry prefix paused excluded cid) xs res1 = Some m" by (auto split: option.splits)
  from limit_entry_dget [OF r(1), of k] obtain j w where e: "entry_for prefix paused excluded cid (snd x) = Some (j, w)"
    "dget res1 k = (if j = k then Some w else dget res k)" by blast
  show ?case
  proof (rule Cons.IH [OF r(2)])
    show "w = v" if "x' \<in> set xs" "entry_for prefix paused excluded cid (snd x') = Some (k, w)" for x' w
      using Cons.prems(2) [of x' w] that by simp
    show "dget res1 k = Some v \<or> (\<exists>x \<in> set xs. entry_for prefix paused excluded cid (snd x) = Some (k, v))"
    proof (cases "j = k")
      case True
      with e Cons.prems(2) [of x w] show ?thesis by simp
    next
      case False
      with e Cons.prems(3) show ?thesis by auto
    qed
  qed
qed simp

lemma generated_parts:
  assumes "generate_runner G doc = Done v"
  obtains mx where "parse_def (Some doc) (c_id G) = Some (v_name v, Some (v_type v), mx)"
    "v_max v = (if c_paused G \<or> v_type v \<in> c_excluded G then jint 0 else mx)"
proof -
  from assms obtain runner pro name ty where r: "json_get doc ''runner'' (JObj []) = Some (JObj runner)"
    "dget_or runner ''name'' JNull = JStr name" "dget_or runner ''instance_type'' JNull = JStr ty" "name \<noteq> []" "ty \<noteq> []"
    "runner_limits G runner name ty pro = Done v"
    by (auto simp: generate_runner_def split: option.splits json.splits if_splits)
  from r(6) obtain mx where m: "resolve_max_runners (dget_or runner ''max_runners'' JNull) (c_id G) = Inr mx" "v_name v = name" "v_type v = ty"
    "v_max v = (if c_paused G \<or> ty \<in> c_excluded G then jint 0 else mx)"
    by (auto simp: runner_limits_def capacity_of_def Let_def split: sum.splits option.splits if_splits bool.splits prod.splits)
  from r(1) obtain d where d: "doc = JObj d" "dget_or d ''runner'' (JObj []) = JObj runner" by (cases doc) auto
  from r(2) have "runner \<noteq> []" by auto
  with d(2) have "dget_or d ''runner'' JNull = JObj runner" by (auto simp: dget_or_def dget_def split: option.splits)
  moreover have "d \<noteq> []"
    using calculation by (auto simp: dget_or_def)
  ultimately have "parse_def (Some doc) (c_id G) = Some (v_name v, Some (v_type v), mx)"
    using d m(1-3) r(2-4) \<open>runner \<noteq> []\<close> by (simp add: parse_def_def or_empty_def json_or_def text_field_def)
  with m(3,4) that show ?thesis by blast
qed

lemma config_parts:
  assumes "cluster_config E cid = Done G"
  obtains cfg where "get_cluster (e_clusters E) cid = Some (JObj cfg)" "cluster_region cfg = Some (c_region G)"
    "load_excluded_instance_types (e_nodepools E) (c_region G) = Some (c_excluded G)"
    "c_paused G = json_true (dget_or cfg ''pause_runners'' JNull)" "c_id G = cid"
proof -
  from assms obtain clusters cfg block where c: "json_get (e_clusters E) ''clusters'' (JObj []) = Some (JObj clusters)"
    "dget clusters cid = Some (JObj cfg)" "config_of E cid cfg block = Done G"
    by (auto simp: cluster_config_def split: option.splits json.splits if_splits)
  from c(1,2) have "get_cluster (e_clusters E) cid = Some (JObj cfg)" by (simp add: get_cluster_def)
  moreover from c(3) have "cluster_region cfg = Some (c_region G) \<and>
    load_excluded_instance_types (e_nodepools E) (c_region G) = Some (c_excluded G) \<and>
    c_paused G = json_true (dget_or cfg ''pause_runners'' JNull) \<and> c_id G = cid"
    by (auto simp: config_of_def split: option.splits json.splits if_splits)
  ultimately show ?thesis using that by blast
qed

text \<open>Resuming after a drain restores what was deployed. For a definition of an enabled module from which the generator renders a
  scale set, and whose name no other definition shares up to underscores, the map gives this scale set the limit that was
  rendered, or the largest 32-bit number where none was, also when the cluster is paused or its region excludes the instance type.\<close>

theorem resume_matches_generator:
  assumes "build_max_runners_map (e_repo E) (e_clusters E) cid = Some m" "cluster_config E cid = Done G"
    "e_nodepools E = e_repo E ''nodepools''" "resolve_runner_name_prefix (e_clusters E) cid = Some prefix"
    "enabled_arc_runner_modules (e_clusters E) cid = Some mods"
    "(f, Some doc) \<in> (\<Union>md \<in> set mods. set (iter_def_files (e_repo E) md))" "generate_runner G doc = Done v"
    "\<forall>x \<in> (\<Union>md \<in> set mods. set (iter_def_files (e_repo E) md)). \<forall>n t mx. parse_def (snd x) cid = Some (n, t, mx) \<longrightarrow>
       compute_ars_name prefix n = compute_ars_name prefix (v_name v) \<longrightarrow> snd x = Some doc"
  shows "dget m (compute_ars_name prefix (v_name v)) = Some (if v_max v = JNull then MAX_INT32 else v_max v)"
proof -
  obtain cfg where c: "get_cluster (e_clusters E) cid = Some (JObj cfg)" "cluster_region cfg = Some (c_region G)"
    "load_excluded_instance_types (e_nodepools E) (c_region G) = Some (c_excluded G)"
    "c_paused G = json_true (dget_or cfg ''pause_runners'' JNull)" "c_id G = cid"
    by (rule config_parts [OF assms(2)])
  let ?defs = "concat (map (iter_def_files (e_repo E)) mods)"
  have m: "fold_opt (limit_entry prefix (c_paused G) (c_excluded G) cid) ?defs [] = Some m"
    using assms(1,3,4,5) c by (simp add: build_max_runners_map_def)
  obtain mx where p: "parse_def (Some doc) cid = Some (v_name v, Some (v_type v), mx)"
    "v_max v = (if c_paused G \<or> v_type v \<in> c_excluded G then jint 0 else mx)"
    using generated_parts [OF assms(7)] c(5) by metis
  let ?k = "compute_ars_name prefix (v_name v)" and ?v = "if v_max v = JNull then MAX_INT32 else v_max v"
  have e: "entry_for prefix (c_paused G) (c_excluded G) cid (Some doc) = Some (?k, ?v)"
    using p by (auto simp: entry_for_def jint_def)
  show ?thesis
  proof (rule limits_dget [OF m])
    fix x w assume x: "x \<in> set ?defs" "entry_for prefix (c_paused G) (c_excluded G) cid (snd x) = Some (?k, w)"
    then obtain n t mx where "parse_def (snd x) cid = Some (n, t, mx)" "compute_ars_name prefix n = ?k"
      by (auto simp: entry_for_def)
    with assms(8) x(1) have "snd x = Some doc" by auto
    with e x(2) show "w = ?v" by simp
  next
    show "dget [] ?k = Some ?v \<or> (\<exists>x \<in> set ?defs. entry_for prefix (c_paused G) (c_excluded G) cid (snd x) = Some (?k, ?v))"
      using e assms(6) by force
  qed
qed

definition limit_clusters :: json where
  "limit_clusters =
     JObj [(''clusters'', JObj [(''lf'', JObj [(''modules'', JArr [JStr ''nodepools'', JStr ''arc-runners'']),
        (''arc-runners'', JObj [(''github_config_url'', JStr ''https://github.com/pytorch''), (''runner_name_prefix'', JStr ''lf-'')])])])]"

definition limit_def :: json where
  "limit_def = JObj [(''runner'', JObj [(''name'', JStr ''l_8''), (''instance_type'', JStr ''c7i.large''), (''memory'', JStr ''8Gi''),
     (''max_runners'', JObj [(''default'', jint 5), (''lf'', jint 9)])])]"

definition limit_env :: gen_env where
  "limit_env = \<lparr>e_clusters = limit_clusters, e_repo = (\<lambda>md. if md = ''arc-runners'' then Some [(''l.yaml'', Some limit_def)] else None),
     e_consumers = [], e_image = Some ''runner'', e_defs = Some [(''l.yaml'', Some limit_def)], e_nodepools = None, e_module = ''arc-runners''\<rparr>"

theorem resume_matches_generator_witness:
  "\<exists>m G v. build_max_runners_map (e_repo limit_env) limit_clusters ''lf'' = Some m \<and> cluster_config limit_env ''lf'' = Done G \<and>
     generate_runner G limit_def = Done v \<and> v_max v = jint 9 \<and> dget m ''lf-l-8'' = Some (jint 9)"
proof -
  have n: "compute_ars_name ''lf-'' ''l_8'' = ''lf-l-8''" "iter_def_files (e_repo limit_env) ''arc-runners'' = [(''l.yaml'', Some limit_def)]"
    "resolve_runner_name_prefix (e_clusters limit_env) ''lf'' = Some ''lf-''"
    "enabled_arc_runner_modules (e_clusters limit_env) ''lf'' = Some [''arc-runners'']"
    "e_nodepools limit_env = e_repo limit_env ''nodepools''" "limit_clusters = e_clusters limit_env"
    by code_simp+
  have "build_max_runners_map (e_repo limit_env) (e_clusters limit_env) ''lf'' \<noteq> None" by code_simp
  then obtain m where m: "build_max_runners_map (e_repo limit_env) (e_clusters limit_env) ''lf'' = Some m" by blast
  have "case cluster_config limit_env ''lf'' of Done G \<Rightarrow>
      (case generate_runner G limit_def of Done v \<Rightarrow> v_max v = jint 9 \<and> v_name v = ''l_8'' | _ \<Rightarrow> False) | _ \<Rightarrow> False"
    by code_simp
  then obtain G v where g: "cluster_config limit_env ''lf'' = Done G" "generate_runner G limit_def = Done v" "v_max v = jint 9" "v_name v = ''l_8''"
    by (auto split: gen.splits)
  have d: "(''l.yaml'', Some limit_def) \<in> (\<Union>md \<in> set [''arc-runners'']. set (iter_def_files (e_repo limit_env) md))" using n(2) by simp
  have "dget m (compute_ars_name ''lf-'' (v_name v)) = Some (if v_max v = JNull then MAX_INT32 else v_max v)"
    by (rule resume_matches_generator [OF m g(1) n(5,3,4) d g(2)]) (simp add: n(2))
  with m g n(1,6) show ?thesis by (auto simp: jint_def)
qed

text \<open>A region that only the defaults give: the validator takes the instance type for excluded and reports nothing, but the generator
  reads the region of the cluster alone and renders the runner without a limit, on a fleet that the region does not have.\<close>

definition default_region_env :: gen_env where
  "default_region_env =
     \<lparr>e_clusters = JObj [(''defaults'', JObj [(''region'', JStr ''us-east-2'')]),
        (''clusters'', JObj [(''lf'', JObj [(''modules'', JArr [JStr ''nodepools'', JStr ''arc-runners'']),
           (''arc-runners'', JObj [(''github_config_url'', JStr ''https://github.com/pytorch'')])])])],
      e_repo = (\<lambda>md. if md = ''nodepools'' then Some [(''c7i.yaml'', Some (JObj [(''fleet'', JObj [(''name'', JStr ''c7i''),
           (''exclude_regions'', JArr [JStr ''us-east-2'']), (''instances'', JArr [JObj [(''type'', JStr ''c7i.large'')]])])]))]
        else if md = ''arc-runners'' then Some [(''l.yaml'', Some (JObj [(''runner'', JObj [(''name'', JStr ''l''),
           (''instance_type'', JStr ''c7i.large''), (''memory'', JStr ''8Gi'')])]))] else None),
      e_consumers = [], e_image = Some ''runner'',
      e_defs = Some [(''l.yaml'', Some (JObj [(''runner'', JObj [(''name'', JStr ''l''), (''instance_type'', JStr ''c7i.large''), (''memory'', JStr ''8Gi'')])]))],
      e_nodepools = Some [(''c7i.yaml'', Some (JObj [(''fleet'', JObj [(''name'', JStr ''c7i''),
           (''exclude_regions'', JArr [JStr ''us-east-2'']), (''instances'', JArr [JObj [(''type'', JStr ''c7i.large'')]])])]))],
      e_module = ''arc-runners''\<rparr>"

lemma default_region_not_excluded:
  "case generate_main default_region_env ''lf'' of
     Done [v] \<Rightarrow> v_max v = JNull \<and> collect_available_fleets [e_repo default_region_env] [''nodepools''] ''us-east-2'' = Some ({}, [])
   | _ \<Rightarrow> False"
  by code_simp

end
