(* ===== verification/Runner_Versions.thy ===== *)
theory Runner_Versions
  imports Py_Json Py_Base Kube
begin

section \<open>The image that a commit is pinned to\<close>

text \<open>
  \<open>modules/arc-runners/scripts/python/resolve_runner_version.py\<close>: the first deployment of a commit resolves the latest image and records
  it in a ConfigMap; later deployments read it back. The ConfigMap is shared with other deployments, so the state has the store of
  the API server, and before every call \<open>rest\<close> says what the others have made of it. The store counts its versions; a replacement
  with an old \<open>resourceVersion\<close> is refused. \<open>broken\<close> is an error of the server before it acts, \<open>lost\<close> a connection that ends after it
  has. The payload has the type \<open>'p\<close>, since the source only prints and parses it; both,
  the clock, git, GitHub and crane are parameters.
\<close>

type_synonym history = "(string, json) dict list"

record 'p cmap =
  cm_rv :: nat
  cm_data :: "(string, 'p) dict"

record 'p store =
  st_cm :: "'p cmap option"
  st_ver :: nat

datatype 'p rev =
    Fetched
  | Replaced "'p cmap option" "'p cmap" \<comment> \<open>what the server had, and has now\<close>
  | Refused_write
  | Asked_github

type_synonym 'p rlog = "'p rev list"

record 'p renv =
  rest :: "'p rlog \<Rightarrow> 'p store \<Rightarrow> 'p store"
  broken :: "'p rlog \<Rightarrow> int option"
  lost :: "'p rlog \<Rightarrow> bool"
  rloads :: "'p \<Rightarrow> json option"
  rdumps :: "json \<Rightarrow> 'p"
  now_text :: "'p rlog \<Rightarrow> string"
  git_sha :: "string res"
  latest_release :: "'p rlog \<Rightarrow> json res" \<comment> \<open>\<open>data.get("tag_name")\<close>\<close>
  crane_digest :: "string \<Rightarrow> 'p rlog \<Rightarrow> string res"
  readonly :: bool

definition CM_KEY :: string where "CM_KEY = ''history.json''"
definition HISTORY_MAX :: nat where "HISTORY_MAX = 20"
definition MAX_WRITE_ATTEMPTS :: nat where "MAX_WRITE_ATTEMPTS = 5"

subsection \<open>The calls\<close>

definition get_config_map :: "'p renv \<Rightarrow> 'p store \<times> 'p rlog \<Rightarrow> 'p cmap res \<times> 'p store \<times> 'p rlog" where
  "get_config_map E st =
     (case st of (s, lg) \<Rightarrow>
        let s = rest E lg s in
        case broken E lg of
          Some code \<Rightarrow> (Inl (ApiError code), s, Fetched # lg)
        | None \<Rightarrow>
            if lost E lg then (Inl OtherError, s, Fetched # lg)
            else (case st_cm s of None \<Rightarrow> (Inl (ApiError 404), s, Fetched # lg) | Some c \<Rightarrow> (Inr c, s, Fetched # lg)))"

definition put_config_map :: "'p renv \<Rightarrow> bool \<Rightarrow> nat option \<Rightarrow> 'p \<Rightarrow> 'p store \<times> 'p rlog \<Rightarrow> unit res \<times> 'p store \<times> 'p rlog" where
  \<comment> \<open>\<open>client.replace\<close> or \<open>client.create\<close>\<close>
  "put_config_map E replace rv payload st =
     (case st of (s, lg) \<Rightarrow>
        let s = rest E lg s in
        case broken E lg of
          Some code \<Rightarrow> (Inl (ApiError code), s, Refused_write # lg)
        | None \<Rightarrow>
            let refused = (case st_cm s of
                             None \<Rightarrow> if replace then Some 404 else None
                           | Some c \<Rightarrow> if \<not> replace then Some 409
                                       else (case rv of None \<Rightarrow> None | Some v \<Rightarrow> if v = cm_rv c then None else Some 409)) in
            (case refused of
               Some code \<Rightarrow> (Inl (ApiError code), s, Refused_write # lg)
             | None \<Rightarrow>
                 let c = \<lparr>cm_rv = Suc (st_ver s), cm_data = [(CM_KEY, payload)]\<rparr>;
                     s' = \<lparr>st_cm = Some c, st_ver = Suc (st_ver s)\<rparr> in
                 (if lost E lg then Inl OtherError else Inr (), s', Replaced (st_cm s) c # lg)))"

subsection \<open>The history\<close>

definition entry_ok :: "json \<Rightarrow> bool" where
  "entry_ok j = (case j of JObj d \<Rightarrow> {''osdc_sha'', ''tag'', ''digest''} \<subseteq> set (dkeys d) | _ \<Rightarrow> False)"

definition entry_dict :: "json \<Rightarrow> (string, json) dict" where
  "entry_dict j = (case j of JObj d \<Rightarrow> d | _ \<Rightarrow> [])"

definition parse_history :: "'p renv \<Rightarrow> 'p \<Rightarrow> history res" where
  "parse_history E raw =
     (case rloads E raw of
        None \<Rightarrow> Inl OtherError
      | Some (JArr es) \<Rightarrow> if list_all entry_ok es then Inr (map entry_dict es) else Inl ValueError
      | Some _ \<Rightarrow> Inl ValueError)"

definition read_history :: "'p renv \<Rightarrow> 'p store \<times> 'p rlog \<Rightarrow> (history \<times> bool \<times> nat option) res \<times> 'p store \<times> 'p rlog" where
  "read_history E st =
     (case get_config_map E st of
        (Inl (ApiError code), st) \<Rightarrow> (if code = 404 then Inr ([], False, None) else Inl (ApiError code), st)
      | (Inl e, st) \<Rightarrow> (Inl e, st)
      | (Inr c, st) \<Rightarrow>
          (case dget (cm_data c) CM_KEY of
             None \<Rightarrow> (Inr ([], True, Some (cm_rv c)), st)
           | Some raw \<Rightarrow> (case parse_history E raw of Inl e \<Rightarrow> (Inl e, st) | Inr h \<Rightarrow> (Inr (h, True, Some (cm_rv c)), st))))"

definition is_for :: "string \<Rightarrow> (string, json) dict \<Rightarrow> bool" where
  "is_for sha e = (dget_or e ''osdc_sha'' JNull = JStr sha)"

definition find_cached_entry :: "history \<Rightarrow> string \<Rightarrow> (string, json) dict option" where
  "find_cached_entry h sha = List.find (is_for sha) h"

definition new_entry :: "string \<Rightarrow> string \<Rightarrow> string \<Rightarrow> string \<Rightarrow> (string, json) dict" where
  "new_entry sha tag digest now =
     [(''osdc_sha'', JStr sha), (''tag'', JStr tag), (''digest'', JStr digest), (''resolved_at'', JStr now)]"

definition update_history :: "history \<Rightarrow> string \<Rightarrow> string \<Rightarrow> string \<Rightarrow> string \<Rightarrow> history" where
  "update_history h sha tag digest now = take HISTORY_MAX (new_entry sha tag digest now # filter (\<lambda>e. \<not> is_for sha e) h)"

definition write_history :: "'p renv \<Rightarrow> history \<Rightarrow> bool \<Rightarrow> nat option \<Rightarrow> 'p store \<times> 'p rlog \<Rightarrow> unit res \<times> 'p store \<times> 'p rlog" where
  "write_history E h cm_exists rv st = put_config_map E cm_exists (if cm_exists then rv else None) (rdumps E (JArr (map JObj h))) st"

subsection \<open>A run\<close>

text \<open>An image is its tag and its digest.\<close>

type_synonym image_ref = "json \<times> json"

definition image_of :: "(string, json) dict \<Rightarrow> image_ref" where
  "image_of e = (dget_or e ''tag'' JNull, dget_or e ''digest'' JNull)"

definition fetch_latest_tag :: "'p renv \<Rightarrow> 'p rlog \<Rightarrow> string res" where
  "fetch_latest_tag E lg =
     bind_res (latest_release E lg) (\<lambda>j. case j of JStr t \<Rightarrow> if t = [] then Inl ValueError else Inr (dropWhile (\<lambda>c. c = CHR ''v'') t) | _ \<Rightarrow> Inl ValueError)"

definition resolve_digest :: "'p renv \<Rightarrow> string \<Rightarrow> 'p rlog \<Rightarrow> string res" where
  "resolve_digest E tag lg =
     bind_res (crane_digest E tag lg) (\<lambda>out. let d = strip out in if startswith d ''sha256:'' then Inr d else Inl ValueError)"

fun write_attempts ::
  "'p renv \<Rightarrow> string \<Rightarrow> string \<Rightarrow> string \<Rightarrow> nat list \<Rightarrow> history \<times> bool \<times> nat option \<Rightarrow> 'p store \<times> 'p rlog \<Rightarrow> image_ref res \<times> 'p store \<times> 'p rlog" where
  "write_attempts E sha tag digest [] r st = (Inl OtherError, st)"
| "write_attempts E sha tag digest (i # is) r st =
     (case (if i > 0 then read_history E st else (Inr r, st)) of
        (Inl e, st) \<Rightarrow> (Inl e, st)
      | (Inr (h, ex, rv), st) \<Rightarrow>
          (case (if i > 0 then find_cached_entry h sha else None) of
             Some e \<Rightarrow> (Inr (image_of e), st)
           | None \<Rightarrow>
               (case write_history E (update_history h sha tag digest (now_text E (snd st))) ex rv st of
                  (Inr _, st) \<Rightarrow> (Inr (JStr tag, JStr digest), st)
                | (Inl e, st) \<Rightarrow>
                    if e = ApiError 409 \<and> i < MAX_WRITE_ATTEMPTS - 1 then write_attempts E sha tag digest is (h, ex, rv) st
                    else (Inl e, st))))"

definition resolve_run :: "'p renv \<Rightarrow> 'p store \<times> 'p rlog \<Rightarrow> image_ref res \<times> 'p store \<times> 'p rlog" where
  "resolve_run E st =
     (case bind_res (git_sha E) (\<lambda>out. let sha = strip out in if sha = [] then Inl ValueError else Inr sha) of
        Inl e \<Rightarrow> (Inl e, st)
      | Inr sha \<Rightarrow>
          (case read_history E st of
             (Inl e, st) \<Rightarrow> (Inl e, st)
           | (Inr (h, ex, rv), st) \<Rightarrow>
               (case find_cached_entry h sha of
                  Some e \<Rightarrow> (Inr (image_of e), st)
                | None \<Rightarrow>
                    if readonly E then ((case h of [] \<Rightarrow> Inl ValueError | e # _ \<Rightarrow> Inr (image_of e)), st)
                    else
                      let st = (fst st, Asked_github # snd st) in
                      (case fetch_latest_tag E (snd st) of
                         Inl e \<Rightarrow> (Inl e, st)
                       | Inr tag \<Rightarrow>
                           (case resolve_digest E tag (snd st) of
                              Inl e \<Rightarrow> (Inl e, st)
                            | Inr digest \<Rightarrow> write_attempts E sha tag digest [0..<MAX_WRITE_ATTEMPTS] (h, ex, rv) st)))))"

section \<open>A commit keeps its image\<close>

definition history_in :: "'p renv \<Rightarrow> 'p cmap option \<Rightarrow> history" where
  "history_in E c =
     (case c of None \<Rightarrow> []
      | Some c \<Rightarrow> (case dget (cm_data c) CM_KEY of None \<Rightarrow> [] | Some raw \<Rightarrow> (case parse_history E raw of Inl _ \<Rightarrow> [] | Inr h \<Rightarrow> h)))"

definition pin_of :: "history \<Rightarrow> string \<Rightarrow> image_ref option" where
  "pin_of h sha = map_option image_of (find_cached_entry h sha)"

definition faithful_json :: "'p renv \<Rightarrow> bool" where
  \<comment> \<open>\<open>json.loads\<close> reads back what \<open>json.dumps\<close> has printed\<close>
  "faithful_json E = (\<forall>j. rloads E (rdumps E j) = Some j)"

definition ok_history :: "history \<Rightarrow> bool" where
  "ok_history h = list_all (\<lambda>d. entry_ok (JObj d)) h"

subsection \<open>Reading and writing\<close>

lemma parse_history_ok: "parse_history E raw = Inr h \<Longrightarrow> ok_history h"
  by (auto simp: parse_history_def ok_history_def list_all_iff entry_ok_def entry_dict_def split: option.splits json.splits if_splits)

lemma parse_printed:
  "faithful_json E \<Longrightarrow> ok_history h \<Longrightarrow> parse_history E (rdumps E (JArr (map JObj h))) = Inr h"
  by (auto simp: parse_history_def faithful_json_def ok_history_def list_all_iff entry_dict_def comp_def)

lemma update_history_ok: "ok_history h \<Longrightarrow> ok_history (update_history h sha tag digest now)"
  by (auto simp: ok_history_def update_history_def HISTORY_MAX_def list_all_iff new_entry_def entry_ok_def dkeys_def dest!: in_set_takeD)

lemma find_updated: "find_cached_entry (update_history h sha tag digest now) sha = Some (new_entry sha tag digest now)"
  by (simp add: update_history_def find_cached_entry_def HISTORY_MAX_def is_for_def new_entry_def dget_or_def dict_simps)

lemma get_config_map_store: "get_config_map E st = (r, s', lg') \<Longrightarrow> s' = rest E (snd st) (fst st) \<and> lg' = Fetched # snd st \<and> (\<forall>c. r = Inr c \<longrightarrow> st_cm s' = Some c)"
  by (auto simp: get_config_map_def Let_def split: prod.splits option.splits if_splits)

lemma get_config_map_missing: "get_config_map E st = (Inl (ApiError 404), s', lg') \<Longrightarrow> broken E (snd st) = None \<Longrightarrow> st_cm s' = None"
  by (auto simp: get_config_map_def Let_def split: prod.splits option.splits if_splits)

lemma read_history_found:
  assumes "read_history E st = (Inr (h, ex, rv), s', lg')"
  shows "ok_history h \<and> s' = rest E (snd st) (fst st) \<and> lg' = Fetched # snd st \<and>
    (if ex then h = history_in E (st_cm s') \<and> (\<exists>c. st_cm s' = Some c \<and> rv = Some (cm_rv c)) else h = [])"
proof -
  obtain r s1 lg1 where g: "get_config_map E st = (r, s1, lg1)" by (metis prod_cases3)
  note st = get_config_map_store [OF g]
  show ?thesis
  proof (cases r)
    case (Inl e)
    with assms g st show ?thesis by (auto simp: read_history_def ok_history_def split: exc.splits if_splits)
  next
    case (Inr c)
    with assms g st show ?thesis
      by (auto simp: read_history_def history_in_def intro: parse_history_ok split: option.splits sum.splits)
        (simp add: ok_history_def)
  qed
qed

lemma put_config_map_store:
  assumes "put_config_map E replace rv payload st = (r, s', lg')"
  shows "(r = Inr () \<longrightarrow> (\<exists>c. st_cm s' = Some c \<and> cm_data c = [(CM_KEY, payload)])) \<and>
    (lg' = Refused_write # snd st \<and> s' = rest E (snd st) (fst st) \<or>
     (\<exists>c. cm_data c = [(CM_KEY, payload)] \<and> lg' = Replaced (st_cm (rest E (snd st) (fst st))) c # snd st \<and> s' = \<lparr>st_cm = Some c, st_ver = cm_rv c\<rparr> \<and>
        (case st_cm (rest E (snd st) (fst st)) of None \<Rightarrow> \<not> replace | Some old \<Rightarrow> replace \<and> (\<forall>v. rv = Some v \<longrightarrow> v = cm_rv old))))"
  using assms by (auto simp: put_config_map_def Let_def split: prod.splits option.splits if_splits)

lemma written_pin:
  assumes "faithful_json E" "ok_history h" "write_history E (update_history h sha tag digest now) ex rv st = (Inr u, s', lg')"
  shows "pin_of (history_in E (st_cm s')) sha = Some (JStr tag, JStr digest)"
proof -
  obtain c where c: "st_cm s' = Some c" "cm_data c = [(CM_KEY, rdumps E (JArr (map JObj (update_history h sha tag digest now))))]"
    using put_config_map_store [OF assms(3) [unfolded write_history_def]] by auto
  then have "history_in E (st_cm s') = update_history h sha tag digest now"
    by (simp add: history_in_def dict_simps parse_printed [OF assms(1) update_history_ok [OF assms(2)]])
  then show ?thesis
    by (simp add: pin_of_def find_updated image_of_def new_entry_def dget_or_def dict_simps)
qed

lemma found_is_pinned:
  "read_history E st = (Inr (h, ex, rv), s', lg') \<Longrightarrow> find_cached_entry h sha = Some e \<Longrightarrow> pin_of (history_in E (st_cm s')) sha = Some (image_of e)"
  by (drule read_history_found) (auto simp: pin_of_def find_cached_entry_def split: if_splits)

text \<open>The forms of an attempt.\<close>

lemma attempt_cases:
  assumes "write_attempts E sha tag digest (i # is) r st = (res, st')"
  obtains (unread) e where "(if i > 0 then read_history E st else (Inr r, st)) = (Inl e, st')" "res = Inl e"
  | (hit) h ex rv e where "read_history E st = (Inr (h, ex, rv), st')" "find_cached_entry h sha = Some e" "res = Inr (image_of e)"
  | (written) h ex rv st1 where "(if i > 0 then read_history E st else (Inr r, st)) = (Inr (h, ex, rv), st1)"
      "write_history E (update_history h sha tag digest (now_text E (snd st1))) ex rv st1 = (Inr (), st')" "res = Inr (JStr tag, JStr digest)"
  | (failed) h ex rv st1 e where "(if i > 0 then read_history E st else (Inr r, st)) = (Inr (h, ex, rv), st1)"
      "write_history E (update_history h sha tag digest (now_text E (snd st1))) ex rv st1 = (Inl e, st')" "res = Inl e"
  | (again) h ex rv st1 st2 where "(if i > 0 then read_history E st else (Inr r, st)) = (Inr (h, ex, rv), st1)"
      "write_history E (update_history h sha tag digest (now_text E (snd st1))) ex rv st1 = (Inl (ApiError 409), st2)"
      "write_attempts E sha tag digest is (h, ex, rv) st2 = (res, st')"
proof -
  obtain q st1 where Pair: "(if i > 0 then read_history E st else (Inr r, st)) = (q, st1)"
    by (cases "if i > 0 then read_history E st else (Inr r, st)") blast
  show ?thesis
  proof (cases q)
    case (Inl e)
    with Pair assms show ?thesis by (intro unread [of e]) (simp_all split: if_splits)
  next
    case (Inr hx)
    obtain h ex rv where hx: "hx = (h, ex, rv)" by (metis prod_cases3)
    note eq = Pair [unfolded Inr hx]
    show ?thesis
    proof (cases "if i > 0 then find_cached_entry h sha else None")
      case (Some e)
      with eq assms show ?thesis by (intro hit [of h ex rv e]) (auto split: if_splits)
    next
      case None
      obtain w st2 where w: "write_history E (update_history h sha tag digest (now_text E (snd st1))) ex rv st1 = (w, st2)"
        by (cases "write_history E (update_history h sha tag digest (now_text E (snd st1))) ex rv st1")
      have body: "(case w of Inr _ \<Rightarrow> (Inr (JStr tag, JStr digest), st2)
          | Inl e \<Rightarrow> if e = ApiError 409 \<and> i < MAX_WRITE_ATTEMPTS - 1 then write_attempts E sha tag digest is (h, ex, rv) st2
                     else (Inl e, st2)) = (res, st')"
        using assms unfolding write_attempts.simps eq prod.case sum.case None option.case w by (cases w) simp_all
      show ?thesis
      proof (cases w)
        case (Inr u)
        with body w written [OF eq] show ?thesis by simp
      next
        case (Inl e)
        show ?thesis
        proof (cases "e = ApiError 409 \<and> i < MAX_WRITE_ATTEMPTS - 1")
          case True
          with body w Inl again [OF eq] show ?thesis by simp
        next
          case False
          with body w Inl failed [OF eq] show ?thesis by auto
        qed
      qed
    qed
  qed
qed

lemma first_or_read:
  "(if i > 0 then read_history E st else (Inr r, st)) = (Inr (h, ex, rv), st1) \<Longrightarrow> ok_history (fst r) \<Longrightarrow> ok_history h"
  by (cases st1) (auto split: if_splits dest: read_history_found)

lemma write_attempts_pinned:
  assumes "faithful_json E"
  shows "write_attempts E sha tag digest is r st = (Inr img, s', lg') \<Longrightarrow> ok_history (fst r) \<Longrightarrow>
    pin_of (history_in E (st_cm s')) sha = Some img"
proof (induction "is" arbitrary: r st)
  case (Cons i "is")
  from Cons.prems(1) show ?case
  proof (cases rule: attempt_cases)
    case (hit h ex rv e)
    from found_is_pinned [OF hit(1,2)] hit(3) show ?thesis by simp
  next
    case (written h ex rv st1)
    then show ?thesis using written_pin [OF assms first_or_read [OF written(1) Cons.prems(2)] written(2)] by simp
  next
    case (again h ex rv st1 st2)
    show ?thesis by (rule Cons.IH [OF again(3)]) (simp add: first_or_read [OF again(1) Cons.prems(2)])
  qed simp_all
qed simp

definition commit_of :: "'p renv \<Rightarrow> string option" where
  "commit_of E = (case git_sha E of Inr out \<Rightarrow> if strip out = [] then None else Some (strip out) | Inl _ \<Rightarrow> None)"

lemma resolve_run_pinned:
  assumes "faithful_json E" "commit_of E = Some sha" "\<not> readonly E" "resolve_run E st = (Inr img, s', lg')"
  shows "pin_of (history_in E (st_cm s')) sha = Some img"
proof -
  have sha: "bind_res (git_sha E) (\<lambda>out. let sha = strip out in if sha = [] then Inl ValueError else Inr sha) = Inr sha"
    using assms(2) by (auto simp: commit_of_def Let_def split: sum.splits if_splits)
  obtain q st1 where r: "read_history E st = (q, st1)" by (cases "read_history E st")
  obtain h ex rv where q: "q = Inr (h, ex, rv)"
    using assms(4) unfolding resolve_run_def sha sum.case r by (cases q) auto
  obtain s1 lg1 where st1: "st1 = (s1, lg1)" by (cases st1)
  note rd = r [unfolded q st1]
  show ?thesis
  proof (cases "find_cached_entry h sha")
    case (Some e)
    with assms(4) have "s1 = s'" "img = image_of e" unfolding resolve_run_def sha sum.case rd by simp_all
    with found_is_pinned [OF rd Some] show ?thesis by simp
  next
    case None
    with assms(3,4) obtain tag digest where
      "write_attempts E sha tag digest [0..<MAX_WRITE_ATTEMPTS] (h, ex, rv) (s1, Asked_github # lg1) = (Inr img, s', lg')"
      unfolding resolve_run_def sha sum.case rd by (auto simp: Let_def split: sum.splits)
    from write_attempts_pinned [OF assms(1) this] read_history_found [OF rd] show ?thesis by simp
  qed
qed

subsection \<open>The window\<close>

definition position :: "history \<Rightarrow> string \<Rightarrow> nat" where
  "position h sha = length (takeWhile (\<lambda>e. \<not> is_for sha e) h)"

lemma find_filter_other: "sha' \<noteq> sha \<Longrightarrow> find_cached_entry (filter (\<lambda>e. \<not> is_for sha' e) h) sha = find_cached_entry h sha"
  by (induction h) (auto simp: find_cached_entry_def is_for_def)

lemma position_filter: "position (filter P h) sha \<le> position h sha"
  if "\<And>e. is_for sha e \<Longrightarrow> P e"
  using that by (induction h) (auto simp: position_def)

lemma find_take: "find_cached_entry h sha = Some e \<Longrightarrow> position h sha < n \<Longrightarrow>
    find_cached_entry (take n h) sha = Some e \<and> position (take n h) sha = position h sha"
proof (induction h arbitrary: n)
  case (Cons x h)
  then show ?case by (cases n) (auto simp: find_cached_entry_def position_def split: if_splits)
qed (simp add: find_cached_entry_def)

lemma update_keeps:
  assumes "pin_of h sha = Some img" "sha' \<noteq> sha" "position h sha < HISTORY_MAX - 1"
  shows "pin_of (update_history h sha' tag digest now) sha = Some img \<and> position (update_history h sha' tag digest now) sha \<le> Suc (position h sha)"
proof -
  let ?h = "new_entry sha' tag digest now # filter (\<lambda>e. \<not> is_for sha' e) h"
  obtain e where e: "find_cached_entry h sha = Some e" "img = image_of e" using assms(1) by (auto simp: pin_of_def)
  have nf: "\<not> is_for sha (new_entry sha' tag digest now)"
    using assms(2) by (simp add: is_for_def new_entry_def dget_or_def dict_simps)
  have f: "find_cached_entry ?h sha = Some e"
    using nf e(1) find_filter_other [OF assms(2), of h] by (simp add: find_cached_entry_def)
  have p: "position ?h sha \<le> Suc (position h sha)"
    using nf position_filter [of sha "\<lambda>e. \<not> is_for sha' e" h] assms(2) by (auto simp: position_def is_for_def)
  then have "position ?h sha < HISTORY_MAX" using assms(3) by simp
  from find_take [OF f this] p e(2) show ?thesis by (simp add: update_history_def pin_of_def)
qed

lemma updates_keep:
  assumes "\<forall>(c, _) \<in> set us. c \<noteq> sha"
  shows "pin_of h sha = Some img \<Longrightarrow> position h sha + length us < HISTORY_MAX \<Longrightarrow>
    pin_of (fold (\<lambda>(c, tag, digest, now) h. update_history h c tag digest now) us h) sha = Some img"
  using assms
proof (induction us arbitrary: h)
  case (Cons u us)
  obtain c tag digest now where u: "u = (c, tag, digest, now)" by (metis prod_cases4)
  have "pin_of (update_history h c tag digest now) sha = Some img \<and> position (update_history h c tag digest now) sha \<le> Suc (position h sha)"
    using Cons.prems u by (intro update_keeps) auto
  with Cons.IH [of "update_history h c tag digest now"] Cons.prems u show ?case by simp
qed simp

text \<open>Deploying a commit again gives the same image. After a deployment that returned an image, and while the deployments of
  other commits have not pushed its entry out of the window of 20, the next deployment of the same commit, by whomever, returns this
  image without asking GitHub; it fails only if the read of the ConfigMap fails.\<close>

theorem same_commit_same_image:
  assumes "faithful_json E" "commit_of E = Some sha" "\<not> readonly E" "resolve_run E st = (Inr img, s1, lg1)"
    and "\<forall>(c, _) \<in> set us. c \<noteq> sha" "position (history_in E (st_cm s1)) sha + length us < HISTORY_MAX"
    and "commit_of F = Some sha" "rloads F = rloads E" "broken F lg2 \<noteq> Some 404"
    and "history_in E (st_cm (rest F lg2 s2)) = fold (\<lambda>(c, tag, digest, now) h. update_history h c tag digest now) us (history_in E (st_cm s1))"
    and "resolve_run F (s2, lg2) = (res, s3, lg3)"
  shows "(res = Inr img \<or> (broken F lg2 \<noteq> None \<or> lost F lg2) \<and> (\<exists>e. res = Inl e)) \<and> lg3 = Fetched # lg2"
proof -
  have pin: "pin_of (history_in E (st_cm (rest F lg2 s2))) sha = Some img"
    unfolding assms(10) using updates_keep [OF assms(5) resolve_run_pinned [OF assms(1-4)] assms(6)] .
  have "parse_history F = parse_history E" by (rule ext) (simp add: parse_history_def assms(8))
  then have hist: "history_in F c = history_in E c" for c unfolding history_in_def by presburger
  have sha: "bind_res (git_sha F) (\<lambda>out. let sha = strip out in if sha = [] then Inl ValueError else Inr sha) = Inr sha"
    using assms(7) by (auto simp: commit_of_def Let_def split: sum.splits if_splits)
  obtain q st1 where r: "read_history F (s2, lg2) = (q, st1)" by (cases "read_history F (s2, lg2)")
  obtain s4 lg4 where st1: "st1 = (s4, lg4)" by (cases st1)
  show ?thesis
  proof (cases q)
    case (Inl e)
    have "lg4 = Fetched # lg2"
      using r [unfolded Inl st1]
      by (auto simp: read_history_def get_config_map_def Let_def split: prod.splits option.splits sum.splits exc.splits if_splits)
    moreover have "res = Inl e" "lg3 = lg4" using assms(11) unfolding resolve_run_def sha sum.case r Inl st1 by simp_all
    moreover have "broken F lg2 \<noteq> None \<or> lost F lg2"
    proof (rule ccontr)
      assume ok: "\<not> (broken F lg2 \<noteq> None \<or> lost F lg2)"
      obtain c where c: "st_cm (rest F lg2 s2) = Some c" using pin by (auto simp: history_in_def pin_of_def find_cached_entry_def split: option.splits)
      obtain raw where raw: "dget (cm_data c) CM_KEY = Some raw"
        using pin c by (auto simp: history_in_def pin_of_def find_cached_entry_def split: option.splits)
      obtain h where "parse_history F raw = Inr h"
        using pin c raw hist [of "Some c"] by (auto simp: history_in_def pin_of_def find_cached_entry_def split: option.splits sum.splits)
      with r [unfolded Inl] ok c raw show False by (simp add: read_history_def get_config_map_def Let_def)
    qed
    ultimately show ?thesis by simp
  next
    case (Inr hx)
    obtain h ex rv where hx: "hx = (h, ex, rv)" by (metis prod_cases3)
    note rd = read_history_found [OF r [unfolded Inr hx st1]]
    show ?thesis
    proof (cases ex)
      case True
      with rd pin hist obtain e where "find_cached_entry h sha = Some e" "image_of e = img" by (auto simp: pin_of_def)
      with assms(11) rd show ?thesis unfolding resolve_run_def sha sum.case r Inr hx st1 by simp
    next
      case False
      then have "h = []" "rv = None" "q = Inr ([], False, None)"
        using r [unfolded Inr hx st1] Inr hx
        by (auto simp: read_history_def split: prod.splits option.splits sum.splits exc.splits if_splits)
      with r st1 have "get_config_map F (s2, lg2) = (Inl (ApiError 404), s4, lg4)"
        by (auto simp: read_history_def split: prod.splits option.splits sum.splits exc.splits if_splits)
      moreover from this assms(9) have "broken F lg2 = None" by (auto simp: get_config_map_def Let_def split: option.splits if_splits)
      ultimately have "st_cm (rest F lg2 s2) = None" using get_config_map_missing get_config_map_store by fastforce
      with pin show ?thesis by (simp add: history_in_def pin_of_def find_cached_entry_def)
    qed
  qed
qed

definition window_env :: "json renv" where
  "window_env = \<lparr>rest = (\<lambda>_ s. s), broken = (\<lambda>_. None), lost = (\<lambda>_. False), rloads = Some, rdumps = (\<lambda>j. j), now_text = (\<lambda>_. ''2025''),
     git_sha = Inr ''abc'', latest_release = (\<lambda>_. Inr (JStr ''v2.333.1'')), crane_digest = (\<lambda>_ _. Inr ''sha256:0''), readonly = False\<rparr>"

theorem same_commit_same_image_witness:
  "\<exists>s1 lg1. resolve_run window_env (\<lparr>st_cm = None, st_ver = 0\<rparr>, []) = (Inr (JStr ''2.333.1'', JStr ''sha256:0''), s1, lg1) \<and>
     fst (resolve_run window_env (s1, [])) = Inr (JStr ''2.333.1'', JStr ''sha256:0'') \<and> snd (snd (resolve_run window_env (s1, []))) = [Fetched]"
proof -
  define s1 :: "json store" where "s1 = fst (snd (resolve_run window_env (\<lparr>st_cm = None, st_ver = 0\<rparr>, [])))"
  define lg1 where "lg1 = snd (snd (resolve_run window_env (\<lparr>st_cm = None, st_ver = 0\<rparr>, [])))"
  have img: "fst (resolve_run window_env (\<lparr>st_cm = None, st_ver = 0\<rparr>, [])) = Inr (JStr ''2.333.1'', JStr ''sha256:0'')" by code_simp
  then have run: "resolve_run window_env (\<lparr>st_cm = None, st_ver = 0\<rparr>, []) = (Inr (JStr ''2.333.1'', JStr ''sha256:0''), s1, lg1)"
    by (simp add: s1_def lg1_def prod_eq_iff)
  have pos: "position (history_in window_env (st_cm s1)) ''abc'' = 0" unfolding s1_def by code_simp
  obtain res s3 lg3 where run2: "resolve_run window_env (s1, []) = (res, s3, lg3)" by (metis prod_cases3)
  have env: "faithful_json window_env" "\<not> readonly window_env" "broken window_env [] \<noteq> Some 404" "broken window_env [] = None"
    "\<not> lost window_env []" "rest window_env [] s1 = s1"
    by (simp_all add: faithful_json_def window_env_def)
  have commit: "commit_of window_env = Some ''abc''" by code_simp
  have room: "position (history_in window_env (st_cm s1)) ''abc'' + List.length [] < HISTORY_MAX" by (simp add: pos HISTORY_MAX_def)
  have "(res = Inr (JStr ''2.333.1'', JStr ''sha256:0'') \<or> (broken window_env [] \<noteq> None \<or> lost window_env []) \<and> (\<exists>e. res = Inl e)) \<and> lg3 = Fetched # []"
    by (rule same_commit_same_image [OF env(1) commit env(2) run _ room commit refl env(3) _ run2]) (simp_all add: env(6))
  with run run2 env(4,5) show ?thesis by simp
qed

subsection \<open>Concurrent deployments\<close>

text \<open>The other writers: whatever they make of the ConfigMap gets a new version. \<open>knows\<close> says what a read history tells of the store.\<close>

definition versions_ok :: "'p store \<Rightarrow> bool" where
  "versions_ok s = (case st_cm s of None \<Rightarrow> True | Some c \<Rightarrow> cm_rv c \<le> st_ver s)"

definition versioned :: "'p renv \<Rightarrow> bool" where
  "versioned E = (\<forall>lg s. versions_ok s \<longrightarrow> versions_ok (rest E lg s) \<and> st_ver s \<le> st_ver (rest E lg s) \<and>
     (st_cm (rest E lg s) = st_cm s \<or> (case st_cm (rest E lg s) of None \<Rightarrow> True | Some c \<Rightarrow> st_ver s < cm_rv c)))"

definition knows :: "'p renv \<Rightarrow> 'p store \<Rightarrow> history \<times> bool \<times> nat option \<Rightarrow> bool" where
  "knows E s r = (case r of (h, ex, rv) \<Rightarrow>
     if ex then (\<exists>v. rv = Some v \<and> v \<le> st_ver s \<and> (\<forall>c. st_cm s = Some c \<longrightarrow> cm_rv c = v \<longrightarrow> history_in E (Some c) = h)) else h = [])"

definition replaced :: "'p rev \<Rightarrow> ('p cmap option \<times> 'p cmap) option" where
  "replaced e = (case e of Replaced old new \<Rightarrow> Some (old, new) | _ \<Rightarrow> None)"

definition extends :: "'p renv \<Rightarrow> string \<Rightarrow> 'p cmap option \<times> 'p cmap \<Rightarrow> bool" where
  \<comment> \<open>the new history is an entry of the commit before all entries of the others, up to 20\<close>
  "extends E sha = (\<lambda>(old, new). \<exists>e. dget e ''osdc_sha'' = Some (JStr sha) \<and>
     history_in E (Some new) = take 20 (e # filter (\<lambda>d. dget d ''osdc_sha'' \<noteq> Some (JStr sha)) (history_in E old)))"

lemma extends_updated:
  "history_in E (Some new) = update_history (history_in E old) sha tag digest now \<Longrightarrow> extends E sha (old, new)"
proof -
  assume h: "history_in E (Some new) = update_history (history_in E old) sha tag digest now"
  have "is_for sha d \<longleftrightarrow> dget d ''osdc_sha'' = Some (JStr sha)" for d
    by (cases "dget d ''osdc_sha''") (simp_all add: is_for_def dget_or_def)
  then show "extends E sha (old, new)" unfolding extends_def prod.case
    by (intro exI [of _ "new_entry sha tag digest now"]) (simp add: h update_history_def HISTORY_MAX_def new_entry_def dict_simps)
qed

lemma replaced_simps [simp]:
  "replaced Fetched = None" "replaced Refused_write = None" "replaced Asked_github = None" "replaced (Replaced old new) = Some (old, new)"
  by (simp_all add: replaced_def)

lemma knows_rest:
  assumes "versioned E" "versions_ok s" "knows E s r"
  shows "knows E (rest E lg s) r"
proof -
  obtain h ex rv where r: "r = (h, ex, rv)" by (metis prod_cases3)
  have step: "st_ver s \<le> st_ver (rest E lg s)"
    "st_cm (rest E lg s) = st_cm s \<or> (case st_cm (rest E lg s) of None \<Rightarrow> True | Some c \<Rightarrow> st_ver s < cm_rv c)"
    using assms(1,2) by (simp_all add: versioned_def)
  show ?thesis
  proof (cases "st_cm (rest E lg s) = st_cm s")
    case True
    with assms(3) step(1) show ?thesis by (auto simp: knows_def r)
  next
    case False
    with assms(3) step show ?thesis by (cases "st_cm (rest E lg s)") (auto simp: knows_def r)
  qed
qed

lemma read_knows:
  assumes "versioned E" "versions_ok (fst st)" "read_history E st = (q, s', lg')"
  shows "versions_ok s' \<and> lg' = Fetched # snd st \<and> (\<forall>h ex rv. q = Inr (h, ex, rv) \<longrightarrow> knows E s' (h, ex, rv))"
proof -
  obtain g s1 lg1 where g: "get_config_map E st = (g, s1, lg1)" by (metis prod_cases3)
  have s: "s' = rest E (snd st) (fst st)" "lg' = Fetched # snd st"
    using assms(3) get_config_map_store [OF g] g
    by (auto simp: read_history_def split: sum.splits exc.splits option.splits if_splits)
  then have v: "versions_ok s'" using assms(1,2) by (simp add: versioned_def)
  have "knows E s' (h, ex, rv)" if "q = Inr (h, ex, rv)" for h ex rv
    using read_history_found [OF assms(3) [unfolded that]] v by (auto simp: knows_def versions_ok_def split: if_splits)
  with s v show ?thesis by blast
qed

lemma write_extends:
  assumes "versioned E" "faithful_json E" "versions_ok (fst st)" "knows E (fst st) (h, ex, rv)" "ok_history h"
    "write_history E (update_history h sha tag digest now) ex rv st = (w, s', lg')"
    "each_call replaced (\<lambda>x _. extends E sha x) (snd st)"
  shows "each_call replaced (\<lambda>x _. extends E sha x) lg' \<and> versions_ok s' \<and> (w = Inl (ApiError 409) \<longrightarrow> knows E s' (h, ex, rv))"
proof -
  let ?s = "rest E (snd st) (fst st)" and ?h = "update_history h sha tag digest now"
  have v: "versions_ok ?s" using assms(1,3) by (simp add: versioned_def)
  have k: "knows E ?s (h, ex, rv)" by (rule knows_rest [OF assms(1,3,4)])
  from put_config_map_store [OF assms(6) [unfolded write_history_def]] show ?thesis
  proof (elim conjE disjE exE)
    assume "lg' = Refused_write # snd st" "s' = ?s"
    with v k assms(7) show ?thesis by simp
  next
    fix c assume c: "cm_data c = [(CM_KEY, rdumps E (JArr (map JObj ?h)))]" "lg' = Replaced (st_cm ?s) c # snd st"
      "s' = \<lparr>st_cm = Some c, st_ver = cm_rv c\<rparr>"
      "case st_cm ?s of None \<Rightarrow> \<not> ex | Some old \<Rightarrow> ex \<and> (\<forall>v. (if ex then rv else None) = Some v \<longrightarrow> v = cm_rv old)"
    have new: "history_in E (Some c) = ?h"
      by (simp add: history_in_def c(1) dict_simps parse_printed [OF assms(2) update_history_ok [OF assms(5)]])
    have "history_in E (st_cm ?s) = h"
      using c(4) k by (cases "st_cm ?s") (auto simp: knows_def history_in_def [of E None])
    with new c assms(7) have "each_call replaced (\<lambda>x _. extends E sha x) lg'" by (auto intro: extends_updated)
    moreover have "w \<noteq> Inl (ApiError 409)"
      using assms(6) c(2) by (auto simp: write_history_def put_config_map_def Let_def split: prod.splits option.splits if_splits)
    ultimately show ?thesis using c(3) by (simp add: versions_ok_def)
  qed
qed

lemma attempts_extend:
  assumes "versioned E" "faithful_json E"
  shows "write_attempts E sha tag digest is r (s, lg) = (res, s', lg') \<Longrightarrow> versions_ok s \<Longrightarrow> knows E s r \<Longrightarrow> ok_history (fst r) \<Longrightarrow>
    each_call replaced (\<lambda>x _. extends E sha x) lg \<Longrightarrow> each_call replaced (\<lambda>x _. extends E sha x) lg'"
proof (induction "is" arbitrary: r s lg)
  case (Cons i "is")
  have first: "versions_ok s1 \<and> ok_history h \<and> knows E s1 (h, ex, rv) \<and> each_call replaced (\<lambda>x _. extends E sha x) lg1"
    if "(if i > 0 then read_history E (s, lg) else (Inr r, s, lg)) = (Inr (h, ex, rv), s1, lg1)" for h ex rv s1 lg1
  proof (cases "i > 0")
    case True
    with that have rd: "read_history E (s, lg) = (Inr (h, ex, rv), s1, lg1)" by simp
    show ?thesis
      using read_knows [OF assms(1) _ rd] read_history_found [OF rd] Cons.prems(2,5) by simp
  next
    case False
    with that Cons.prems show ?thesis by simp
  qed
  from Cons.prems(1) show ?case
  proof (cases rule: attempt_cases)
    case (unread e)
    show ?thesis
    proof (cases "i > 0")
      case True
      with unread have "read_history E (s, lg) = (Inl e, s', lg')" by simp
      from read_knows [OF assms(1) _ this] Cons.prems(2,5) show ?thesis by simp
    qed (use unread in simp)
  next
    case (hit h ex rv e)
    from read_knows [OF assms(1) _ hit(1)] Cons.prems(2,5) show ?thesis by simp
  next
    case (written h ex rv st1)
    obtain s1 lg1 where st1: "st1 = (s1, lg1)" by (cases st1)
    from first [OF written(1) [unfolded st1]] write_extends [OF assms _ _ _ written(2)] show ?thesis by (simp add: st1)
  next
    case (failed h ex rv st1 e)
    obtain s1 lg1 where st1: "st1 = (s1, lg1)" by (cases st1)
    from first [OF failed(1) [unfolded st1]] write_extends [OF assms _ _ _ failed(2)] show ?thesis by (simp add: st1)
  next
    case (again h ex rv st1 st2)
    obtain s1 lg1 where st1: "st1 = (s1, lg1)" by (cases st1)
    obtain s2 lg2 where st2: "st2 = (s2, lg2)" by (cases st2)
    from first [OF again(1) [unfolded st1]] have "ok_history h" by blast
    from first [OF again(1) [unfolded st1]] write_extends [OF assms _ _ _ again(2) [unfolded st2]] this
    have "each_call replaced (\<lambda>x _. extends E sha x) lg2 \<and> versions_ok s2 \<and> knows E s2 (h, ex, rv)" by (simp add: st1)
    then show ?thesis using Cons.IH [OF again(3) [unfolded st2]] \<open>ok_history h\<close> by simp
  qed
qed simp

text \<open>C25: no deployment loses what another one has recorded. However other deployments change the ConfigMap between the calls of a run,
  as long as every change gives it a new version, each write of the run puts the entry of its own commit in front of exactly
  the history that the server has at that moment: no entry of another commit is lost but by the limit of 20.\<close>

theorem no_update_lost:
  assumes "versioned E" "faithful_json E" "commit_of E = Some sha" "versions_ok s" "resolve_run E (s, []) = (res, s', lg')"
  shows "each_call replaced (\<lambda>x _. extends E sha x) lg'"
proof -
  have sha: "bind_res (git_sha E) (\<lambda>out. let sha = strip out in if sha = [] then Inl ValueError else Inr sha) = Inr sha"
    using assms(3) by (auto simp: commit_of_def Let_def split: sum.splits if_splits)
  obtain q s1 lg1 where r: "read_history E (s, []) = (q, s1, lg1)" by (metis prod_cases3)
  note k = read_knows [OF assms(1) _ r, simplified, OF assms(4)]
  show ?thesis
  proof (cases q)
    case (Inl e)
    with assms(5) have "lg' = lg1" unfolding resolve_run_def sha sum.case r by simp
    with k show ?thesis by simp
  next
    case (Inr hx)
    obtain h ex rv where hx: "hx = (h, ex, rv)" by (metis prod_cases3)
    note res = assms(5) [unfolded resolve_run_def sha sum.case r Inr hx prod.case]
    have one: "each_call replaced (\<lambda>x _. extends E sha x) lg1" "each_call replaced (\<lambda>x _. extends E sha x) (Asked_github # lg1)"
      using k by simp_all
    show ?thesis
    proof (cases "find_cached_entry h sha")
      case (Some e)
      with res one show ?thesis by simp
    next
      case None
      show ?thesis
      proof (cases "readonly E")
        case True
        with res None one show ?thesis by simp
      next
        case False
        consider "lg' = Asked_github # lg1" |
          tag digest where "write_attempts E sha tag digest [0..<MAX_WRITE_ATTEMPTS] (h, ex, rv) (s1, Asked_github # lg1) = (res, s', lg')"
          using res None False by (auto simp: Let_def split: sum.splits)
        then show ?thesis
        proof cases
          case 2
          from attempts_extend [OF assms(1,2) 2] k one read_history_found [OF r [unfolded Inr hx]] Inr hx show ?thesis by simp
        qed (use one in simp)
      qed
    qed
  qed
qed

theorem no_update_lost_witness:
  "\<exists>s' lg'. resolve_run window_env (\<lparr>st_cm = None, st_ver = 0\<rparr>, []) = (Inr (JStr ''2.333.1'', JStr ''sha256:0''), s', lg') \<and>
     each_call replaced (\<lambda>x _. extends window_env ''abc'' x) lg'"
proof -
  have img: "fst (resolve_run window_env (\<lparr>st_cm = None, st_ver = 0\<rparr>, [])) = Inr (JStr ''2.333.1'', JStr ''sha256:0'')" by code_simp
  then obtain s' lg' where r: "resolve_run window_env (\<lparr>st_cm = None, st_ver = 0\<rparr>, []) = (Inr (JStr ''2.333.1'', JStr ''sha256:0''), s', lg')"
    by (metis fst_conv prod_cases3)
  have c: "commit_of window_env = Some ''abc''" by code_simp
  have "each_call replaced (\<lambda>x _. extends window_env ''abc'' x) lg'"
    by (rule no_update_lost [OF _ _ c _ r]) (simp_all add: versioned_def versions_ok_def faithful_json_def window_env_def)
  with r show ?thesis by blast
qed

end
