(* ===== verification/Load_Distribution.thy ===== *)
theory Load_Distribution
  imports Py_Float Py_Regex Fleet_Naming
begin

section \<open>The distribution of jobs over runners\<close>

text \<open>
  \<open>integration-tests/load-test/scripts/python/distribution.py\<close>: a load test spreads its jobs over the available types of runners in
  proportion to what production runs, with the method of largest remainders. The shares are floats.
\<close>

definition OLD_TO_OSDC_LABEL :: "(string, string) dict" where
  "OLD_TO_OSDC_LABEL =
     [(''linux.large'', ''l-x86iavx512-2-4''), (''linux.c7i.large'', ''l-x86iavx512-2-4''), (''linux.2xlarge'', ''l-x86iavx512-8-16''),
      (''linux.c7i.2xlarge'', ''l-x86iavx512-8-16''), (''linux.4xlarge'', ''l-x86iavx512-16-32''),
      (''linux.4xlarge.for.testing.donotuse'', ''l-x86iavx512-16-32''), (''linux.c7i.4xlarge'', ''l-x86iavx512-16-32''),
      (''linux.9xlarge.ephemeral'', ''l-x86iavx512-37-68''), (''linux.12xlarge'', ''l-x86iavx512-46-85''),
      (''linux.12xlarge.ephemeral'', ''l-x86iavx512-46-85''), (''linux.c7i.12xlarge'', ''l-x86iavx512-46-85''),
      (''linux.24xlarge'', ''l-x86iavx512-94-192''), (''linux.24xlarge.ephemeral'', ''l-x86iavx512-94-192''),
      (''linux.c7i.24xlarge'', ''l-x86iavx512-94-192''), (''linux.24xl.spr-metal'', ''l-bx86iamx-92-167''),
      (''linux.2xlarge.amx'', ''l-x86iamx-8-32''), (''linux.8xlarge.amx'', ''l-x86iamx-32-128''), (''linux.2xlarge.avx2'', ''l-x86iavx2-8-32''),
      (''linux.10xlarge.avx2'', ''l-x86iavx2-40-160''), (''linux.r7i.2xlarge'', ''l-x86iavx512-8-64''),
      (''linux.r7i.4xlarge'', ''l-x86iavx512-16-128''), (''linux.r7i.8xlarge'', ''l-x86iavx512-32-256''),
      (''linux.r7i.12xlarge'', ''l-x86iavx512-48-384''), (''linux.2xlarge.memory'', ''l-x86iavx512-8-64''),
      (''linux.4xlarge.memory'', ''l-x86iavx512-16-128''), (''linux.8xlarge.memory'', ''l-x86iavx512-32-256''),
      (''linux.12xlarge.memory'', ''l-x86iavx512-48-384''), (''linux.12xlarge.memory.ephemeral'', ''l-x86iavx512-48-384''),
      (''linux.24xlarge.memory'', ''l-x86iavx512-94-768''), (''linux.24xlarge.amd'', ''l-x86aavx512-125-463''),
      (''linux.4xlarge.nvidia.gpu'', ''l-x86iavx512-29-115-t4''), (''linux.g4dn.4xlarge.nvidia.gpu'', ''l-x86iavx512-29-115-t4''),
      (''linux.g4dn.12xlarge.nvidia.gpu'', ''l-x86iavx512-45-172-t4-4''), (''linux.g4dn.metal.nvidia.gpu'', ''l-bx86iavx512-94-344-t4-8''),
      (''linux.g5.4xlarge.nvidia.gpu'', ''l-x86aavx2-29-113-a10g''), (''linux.g5.12xlarge.nvidia.gpu'', ''l-x86aavx2-45-167-a10g-4''),
      (''linux.g5.48xlarge.nvidia.gpu'', ''l-x86aavx2-189-704-a10g-8''), (''linux.g6.4xlarge.experimental.nvidia.gpu'', ''l-x86aavx2-29-113-l4''),
      (''linux.g6.12xlarge.nvidia.gpu'', ''l-x86aavx2-45-172-l4-4''), (''linux.arm64.m7g.4xlarge'', ''l-arm64g3-16-62''),
      (''linux.arm64.m7g.4xlarge.ephemeral'', ''l-arm64g3-16-62''), (''linux.arm64.m8g.4xlarge'', ''l-arm64g4-16-62''),
      (''linux.arm64.m8g.4xlarge.ephemeral'', ''l-arm64g4-16-62''), (''linux.arm64.r7g.12xlarge.memory'', ''l-arm64g3-61-463''),
      (''linux.arm64.m7g.metal'', ''l-barm64g4-62-226'')]"

definition PRODUCTION_JOB_COUNTS :: "(string, int) dict" where
  "PRODUCTION_JOB_COUNTS =
     [(''linux.2xlarge'', 491396), (''linux.c7i.2xlarge'', 350911), (''linux.4xlarge'', 279660), (''linux.g5.4xlarge.nvidia.gpu'', 93759),
      (''linux.g6.4xlarge.experimental.nvidia.gpu'', 61263), (''linux.2xlarge.amx'', 46174), (''linux.large'', 37043), (''linux.12xlarge'', 31542),
      (''linux.c7i.4xlarge'', 29111), (''linux.arm64.m7g.4xlarge'', 23594), (''linux.g4dn.metal.nvidia.gpu'', 19040),
      (''linux.arm64.m8g.4xlarge'', 17935), (''linux.g4dn.12xlarge.nvidia.gpu'', 17625), (''linux.12xlarge.memory'', 10978),
      (''linux.4xlarge.memory'', 10695), (''linux.12xlarge.memory.ephemeral'', 9815), (''linux.g5.12xlarge.nvidia.gpu'', 7932),
      (''linux.9xlarge.ephemeral'', 7678), (''linux.8xlarge.amx'', 7663), (''linux.24xl.spr-metal'', 6983), (''linux.r7i.2xlarge'', 5173),
      (''linux.arm64.r7g.12xlarge.memory'', 5046), (''linux.24xlarge.memory'', 3652), (''linux.g4dn.4xlarge.nvidia.gpu'', 3651),
      (''linux.g5.48xlarge.nvidia.gpu'', 3465), (''linux.g6.12xlarge.nvidia.gpu'', 3261), (''linux.8xlarge.memory'', 1522),
      (''linux.r7i.4xlarge'', 1449), (''linux.10xlarge.avx2'', 1290), (''linux.arm64.m7g.metal'', 1170), (''linux.c7i.12xlarge'', 858),
      (''linux.24xlarge.amd'', 720), (''linux.2xlarge.avx2'', 534), (''linux.4xlarge.nvidia.gpu'', 468), (''linux.2xlarge.memory'', 15),
      (''linux.24xlarge'', 14)]"

subsection \<open>Labels\<close>

text \<open>\<open>re.search\<close> for an expression that ends with a dollar, which also matches before a newline at the end.\<close>

fun re_search_end :: "re \<Rightarrow> string \<Rightarrow> string list option" where
  "re_search_end r s =
     (case List.find (\<lambda>(c, rest). rest = [] \<or> rest = [CHR 0x0A]) (re_run r s) of
        Some (c, _) \<Rightarrow> Some c
      | None \<Rightarrow> (case s of [] \<Rightarrow> None | _ # t \<Rightarrow> re_search_end r t))"

declare re_search_end.simps [simp del]

definition OSDC_GPU_PATTERN :: re where
  "OSDC_GPU_PATTERN =
     Seq (re_lit ''-'') (Seq (Grp (re_alts [re_lit ''t4'', re_lit ''a10g'', re_lit ''l4'']))
       (Alt (Seq (re_lit ''-'') (Grp (re_plus (One is_digit)))) Eps))"

definition EXCLUDED_GPU_PATTERN :: re where
  "EXCLUDED_GPU_PATTERN =
     Seq (re_lit ''-'') (Seq (Grp (re_alts (map re_lit [''a100'', ''h100'', ''b200'', ''h200'', ''mi300'', ''mi325''])))
       (Alt (Seq (re_lit ''-'') (re_plus (One is_digit))) Eps))"

definition excluded_from_load_test :: "string \<Rightarrow> bool" where
  "excluded_from_load_test name =
     (re_search_end EXCLUDED_GPU_PATTERN name \<noteq> None \<or>
      contains_str ''arm64g2-'' name \<or> re_search_end (re_lit ''arm64g2'') name \<noteq> None)"

definition classify_runner :: "string \<Rightarrow> bool \<times> bool \<times> int" where
  "classify_runner label =
     (let arm = contains_str ''arm64'' label in
      case re_search_end OSDC_GPU_PATTERN label of
        Some (_ # d # _) \<Rightarrow> (True, arm, the (py_int d))
      | Some _ \<Rightarrow> (True, arm, 1)
      | None \<Rightarrow> (False, arm, 0))"

subsection \<open>Available runners\<close>

text \<open>The parsed documents of a directory, in the order of \<open>glob\<close>; \<open>None\<close> in the result is an exception.\<close>

definition scan_fleet :: "json \<Rightarrow> (string, json) dict \<Rightarrow> (string, json) dict option" where
  "scan_fleet data ex =
     (if \<not> json_true data then Some ex
      else
        (case json_at data ''fleet'' of
           None \<Rightarrow> if json_has ''fleet'' data = Some False then Some ex else None
         | Some fleet \<Rightarrow>
             (case json_get fleet ''exclude_regions'' (JArr []) of
                None \<Rightarrow> None
              | Some regions \<Rightarrow>
                  if \<not> json_true regions then Some ex
                  else (case json_at fleet ''name'' of Some (JStr n) \<Rightarrow> Some (dset n regions ex) | _ \<Rightarrow> None))))"

definition load_fleet_exclusions :: "json list \<Rightarrow> json list \<Rightarrow> (string, json) dict option" where
  "load_fleet_exclusions upstream consumer = fold_opt scan_fleet (upstream @ consumer) []"

definition runner_excluded :: "(string, json) dict \<Rightarrow> string \<Rightarrow> json \<Rightarrow> bool option" where
  \<comment> \<open>a runner in a region: whether its fleet excludes it\<close>
  "runner_excluded ex region runner =
     (case json_at runner ''instance_type'' of
        None \<Rightarrow> Some False
      | Some (JStr t) \<Rightarrow>
          Option.bind (json_get runner ''node_fleet'' JNull) (\<lambda>ov.
          case derive_fleet_name t ov of Inl _ \<Rightarrow> None | Inr fleet \<Rightarrow> json_has region (dget_or ex fleet (JArr [])))
      | Some _ \<Rightarrow> None)"

definition scan_runner :: "string \<Rightarrow> (string, json) dict \<Rightarrow> json \<Rightarrow> string set \<times> nat \<Rightarrow> (string set \<times> nat) option" where
  "scan_runner region ex data st =
     (if \<not> json_true data then Some st
      else
        (case json_at data ''runner'' of
           None \<Rightarrow> if json_has ''runner'' data = Some False then Some st else None
         | Some runner \<Rightarrow>
             (case json_at runner ''name'' of
                Some (JStr name) \<Rightarrow>
                  if excluded_from_load_test name then Some (fst st, snd st + 1)
                  else if region = [] then Some (insert name (fst st), snd st)
                  else map_option (\<lambda>b. if b then (fst st, snd st + 1) else (insert name (fst st), snd st)) (runner_excluded ex region runner)
              | _ \<Rightarrow> None)))"

definition get_available_runners :: "json list \<Rightarrow> json list \<Rightarrow> json list \<Rightarrow> json list \<Rightarrow> string \<Rightarrow> (string set \<times> nat) option" where
  \<comment> \<open>the node pools and the runners of both roots; the region is empty if there is none\<close>
  "get_available_runners pools_up pools_root runners_up runners_root region =
     Option.bind (if region = [] then Some [] else load_fleet_exclusions pools_up pools_root) (\<lambda>ex.
     fold_opt (scan_runner region ex) (runners_up @ runners_root) ({}, 0))"

subsection \<open>Shares\<close>

definition aggregate_production_counts :: "(string, int) dict" where
  "aggregate_production_counts =
     fold (\<lambda>(old, osdc) d. let c = dget_or PRODUCTION_JOB_COUNTS old 0 in if c > 0 then dbump osdc c d else d) OLD_TO_OSDC_LABEL []"

record runner_allocation =
  osdc_label :: string
  job_count :: int
  source_job_count :: int
  proportion :: flt
  ra_is_gpu :: bool
  ra_is_arm64 :: bool
  ra_gpu_count :: int

definition allocation :: "(string, int) dict \<Rightarrow> string \<Rightarrow> int \<Rightarrow> runner_allocation" where
  "allocation active label jobs =
     (let (g, a, n) = classify_runner label; total = sum_list (dvals active) in
      \<lparr>osdc_label = label, job_count = jobs, source_job_count = dget_or active label 0,
       proportion = (if total > 0 then fdiv (of_int (dget_or active label 0)) (of_int total) else fdiv 1 (of_nat (length active))),
       ra_is_gpu = g, ra_is_arm64 = a, ra_gpu_count = n\<rparr>)"

definition raw_share :: "int \<Rightarrow> int \<Rightarrow> int \<Rightarrow> int \<Rightarrow> int \<Rightarrow> flt" where
  "raw_share total_jobs least num total_source c =
     (if total_source > 0 then fadd (fi least) (fmul (fi (total_jobs - num * least)) (fdiv (of_int c) (of_int total_source)))
      else fdiv (of_int total_jobs) (of_int num))"

fun give_out :: "string list \<Rightarrow> int \<Rightarrow> (string, int) dict \<Rightarrow> (string, int) dict" where
  "give_out [] diff d = d"
| "give_out (l # ls) diff d = (if diff \<le> 0 then d else give_out ls (diff - 1) (dbump l 1 d))"

definition job_counts :: "int \<Rightarrow> int \<Rightarrow> (string, int) dict \<Rightarrow> (string, int) dict" where
  "job_counts total_jobs least active =
     (let raw = map (\<lambda>(l, c). (l, raw_share total_jobs least (int (length active)) (sum_list (dvals active)) c)) active;
          floored = map (\<lambda>(l, x). (l, ftrunc x)) raw;
          remainders = map (\<lambda>(l, x). (l, fsub x (fi (ftrunc x)))) raw;
          diff = total_jobs - sum_list (dvals floored) in
      give_out (sorted_by_desc (\<lambda>l. dget_or remainders l 0) (dkeys remainders)) diff floored)"

definition compute_distribution :: "int \<Rightarrow> string set \<Rightarrow> int \<Rightarrow> runner_allocation list" where
  "compute_distribution total_jobs available least =
     (if available = {} \<or> total_jobs \<le> 0 then []
      else
        let labels = sorted_set available;
            active = map (\<lambda>l. (l, dget_or aggregate_production_counts l 0)) labels in
        if total_jobs < int (length active) * least
        then map (\<lambda>(i, l). allocation active l (if int i < total_jobs then 1 else 0)) (enumerate 0 labels)
        else let d = job_counts total_jobs least active in map (\<lambda>l. allocation active l (dget_or d l 0)) labels)"

section \<open>The load test runs as many jobs as it is asked to\<close>

subsection \<open>The error of rounding\<close>

lemma round_half_even_error: "\<bar>of_int (round_half_even x) - x\<bar> \<le> 1 / 2"
proof -
  let ?d = "x - of_int \<lfloor>x\<rfloor>"
  have "0 \<le> ?d" "?d < 1" using floor_correct [of x] by linarith+
  consider "?d < 1 / 2" | "1 / 2 < ?d" | "?d = 1 / 2" by linarith
  then show ?thesis
  proof cases
    case 1
    then show ?thesis using \<open>0 \<le> ?d\<close> by (simp add: round_half_even_def Let_def abs_le_iff)
  next
    case 2
    then have "round_half_even x = \<lfloor>x\<rfloor> + 1" by (simp add: round_half_even_def Let_def)
    then show ?thesis using 2 \<open>?d < 1\<close> by (simp add: abs_le_iff)
  next
    case 3
    then show ?thesis by (auto simp: round_half_even_def Let_def abs_le_iff)
  qed
qed

lemma fl_error: "\<bar>fl x - x\<bar> \<le> \<bar>x\<bar> / 2 ^ 53"
proof (cases "x = 0")
  case False
  let ?u = "2 powi (bin_exp x - 52) :: rat"
  have u: "0 < ?u" by simp
  have "fl x - x = (of_int (round_half_even (x / ?u)) - x / ?u) * ?u"
    using False u by (simp add: fl_def Let_def left_diff_distrib)
  then have "\<bar>fl x - x\<bar> = \<bar>of_int (round_half_even (x / ?u)) - x / ?u\<bar> * ?u" using u by (simp add: abs_mult)
  also have "\<dots> \<le> 1 / 2 * ?u" using round_half_even_error u by (intro mult_right_mono) simp_all
  also have "?u = 2 powi (bin_exp x) / 2 ^ 52" by (simp add: power_int_diff)
  also have "1 / 2 * (2 powi (bin_exp x) / 2 ^ 52) \<le> \<bar>x\<bar> / (2 ^ 53 :: rat)"
    using bin_exp_bounds [OF False] by simp
  finally show ?thesis .
qed simp

lemma fl_error_pos: "0 \<le> x \<Longrightarrow> x \<le> b \<Longrightarrow> \<bar>fl x - x\<bar> \<le> b / 2 ^ 53"
  using fl_error [of x] by (simp add: field_simps)

text \<open>The float of a share is so near to the share that its whole part is at most one below.\<close>

lemma raw_share_error:
  assumes "0 \<le> least" "0 \<le> R" "0 \<le> c" "c \<le> T" "0 < T" "least + R \<le> 2 ^ 40"
  shows "\<bar>fadd (fi least) (fmul (fi R) (fdiv (of_int c) (of_int T))) - (of_int least + of_int R * (of_int c / of_int T))\<bar>
    \<le> 5 * (of_int (least + R)) / 2 ^ 53"
proof -
  define a where "a = (of_int c / of_int T :: rat)"
  define M where "M = (of_int (least + R) :: rat)"
  have a: "0 \<le> a" "a \<le> 1" using assms by (simp_all add: a_def)
  have fi: "fi least = of_int least" "fi R = of_int R" using assms by (simp_all add: fi_def)
  have M: "0 \<le> M" "of_int least \<le> M" "of_int R \<le> M" "of_int least + of_int R = M" using assms by (simp_all add: M_def)
  have R: "(0 :: rat) \<le> of_int R" "(0 :: rat) \<le> of_int least" using assms by simp_all
  have fa: "\<bar>fl a - a\<bar> \<le> 1 / 2 ^ 53" "0 \<le> fl a" "fl a \<le> 1"
    using fl_error_pos [OF a] fl_nonneg [OF a(1)] fl_mono [OF a(2)] by simp_all
  have b: "\<bar>of_int R * fl a - of_int R * a\<bar> \<le> M * (1 / 2 ^ 53)"
  proof -
    have "\<bar>of_int R * fl a - of_int R * a\<bar> = of_int R * \<bar>fl a - a\<bar>"
      using R by (simp add: right_diff_distrib [symmetric] abs_mult)
    also have "\<dots> \<le> M * (1 / 2 ^ 53)" using fa(1) M R by (intro mult_mono) simp_all
    finally show ?thesis .
  qed
  have Ra: "0 \<le> of_int R * fl a" "of_int R * fl a \<le> of_int R"
    using R fa by (simp_all add: mult_left_le)
  have fb: "\<bar>fl (of_int R * fl a) - of_int R * fl a\<bar> \<le> M / 2 ^ 53"
    using fl_error_pos [of "of_int R * fl a" M] Ra M by linarith
  have fR: "0 \<le> fl (of_int R * fl a)" "fl (of_int R * fl a) \<le> of_int R"
    using fl_nonneg [OF Ra(1)] fl_mono [OF Ra(2)] fi(2) by (simp_all add: fi_def)
  have fs: "\<bar>fl (of_int least + fl (of_int R * fl a)) - (of_int least + fl (of_int R * fl a))\<bar> \<le> M / 2 ^ 53"
    using fl_error_pos [of "of_int least + fl (of_int R * fl a)" M] fR R M by linarith
  have e: "0 \<le> M / 2 ^ 53" using M by simp
  have "\<bar>fl (of_int least + fl (of_int R * fl a)) - (of_int least + of_int R * a)\<bar> \<le> 5 * (M / 2 ^ 53)"
    using b fb fs e unfolding abs_le_iff by (simp only: times_divide_eq_right mult_1_right) linarith
  then show ?thesis by (simp add: fadd_def fmul_def fdiv_def fi a_def M_def)
qed

lemma floor_near:
  fixes raw q :: rat
  assumes "0 < T" "q * of_int T = of_int k" "\<bar>raw - q\<bar> < 1 / of_int T"
  shows "of_int \<lfloor>raw\<rfloor> \<le> q \<and> q \<le> of_int \<lfloor>raw\<rfloor> + 1"
proof -
  have T: "(0 :: rat) < of_int T" using assms(1) by simp
  have d: "\<bar>raw * of_int T - of_int k\<bar> < 1"
  proof -
    have "raw * of_int T - of_int k = (raw - q) * of_int T" by (simp add: left_diff_distrib assms(2))
    then have "\<bar>raw * of_int T - of_int k\<bar> = \<bar>raw - q\<bar> * of_int T" using T by (simp add: abs_mult)
    also have "\<dots> < 1 / of_int T * of_int T" using assms(3) T by (intro mult_strict_right_mono)
    finally show ?thesis using T by simp
  qed
  have "of_int (\<lfloor>raw\<rfloor> * T) \<le> raw * of_int T" using T by (simp add: mult_right_mono)
  with d have "of_int (\<lfloor>raw\<rfloor> * T) < (of_int (k + 1) :: rat)" by simp
  then have 1: "\<lfloor>raw\<rfloor> * T \<le> k" by (simp only: of_int_less_iff)
  have "raw < of_int (\<lfloor>raw\<rfloor> + 1)" using floor_correct [of raw] by simp
  then have "raw * of_int T < of_int ((\<lfloor>raw\<rfloor> + 1) * T)" using T by (simp only: of_int_mult mult_strict_right_mono)
  with d have "(of_int (k - 1) :: rat) < of_int ((\<lfloor>raw\<rfloor> + 1) * T)" by simp
  then have 2: "k \<le> (\<lfloor>raw\<rfloor> + 1) * T" by (simp only: of_int_less_iff)
  have "(of_int (\<lfloor>raw\<rfloor> * T) :: rat) \<le> q * of_int T" "q * of_int T \<le> of_int ((\<lfloor>raw\<rfloor> + 1) * T)"
    using 1 2 by (simp_all only: assms(2) of_int_le_iff)
  then show ?thesis using T by (simp add: mult_le_cancel_right)
qed

subsection \<open>The remainders\<close>

lemma give_out_get:
  "distinct ls \<Longrightarrow> dget_or (give_out ls diff d) l 0 = dget_or d l 0 + (if l \<in> set (take (nat diff) ls) then 1 else 0)"
proof (induction ls diff d rule: give_out.induct)
  case (2 x ls diff d)
  show ?case
  proof (cases "diff \<le> 0")
    case False
    then obtain k where k: "nat diff = Suc k" "nat (diff - 1) = k" by (cases "nat diff") auto
    with 2 False have "dget_or (give_out (x # ls) diff d) l 0 = dget_or (dbump x 1 d) l 0 + (if l \<in> set (take k ls) then 1 else 0)"
      by simp
    moreover have "l \<in> set (take k ls) \<Longrightarrow> l \<noteq> x" using 2(2) by (auto dest: in_set_takeD)
    ultimately show ?thesis using k by (auto simp: dict_simps)
  qed simp
qed simp

lemma sum_list_indicator:
  "distinct xs \<Longrightarrow> A \<subseteq> set xs \<Longrightarrow> sum_list (map (\<lambda>x. if x \<in> A then 1 else 0 :: int) xs) = int (card A)"
proof -
  assume d: "distinct xs" and A: "A \<subseteq> set xs"
  have "sum_list (map (\<lambda>x. if x \<in> A then 1 else 0 :: int) xs) = (\<Sum>x\<in>set xs. if x \<in> A then 1 else 0)"
    using d by (simp add: sum_list_distinct_conv_sum_set)
  also have "\<dots> = int (card (set xs \<inter> A))" by (simp add: sum.If_cases Int_def)
  also have "set xs \<inter> A = A" using A by blast
  finally show ?thesis .
qed

lemma dget_or_map: "distinct xs \<Longrightarrow> x \<in> set xs \<Longrightarrow> dget_or (map (\<lambda>l. (l, f l)) xs) x u = f x"
  by (induction xs) (auto simp: dget_or_def dict_simps)

text \<open>\<open>share_floor\<close>: what a label gets before the remainders are given out.\<close>

definition share_floor :: "int \<Rightarrow> int \<Rightarrow> int \<Rightarrow> int \<Rightarrow> int \<Rightarrow> int" where
  "share_floor total_jobs least num T c = ftrunc (raw_share total_jobs least num T c)"

lemma job_counts_get:
  assumes "distinct labels" "active = map (\<lambda>l. (l, g l)) labels"
    and "n = int (length labels)" "T = sum_list (map g labels)"
    and "diff = total_jobs - sum_list (map (\<lambda>l. share_floor total_jobs least n T (g l)) labels)"
  shows "\<exists>order. mset order = mset labels \<and>
    (\<forall>l \<in> set labels. dget_or (job_counts total_jobs least active) l 0 =
       share_floor total_jobs least n T (g l) + (if l \<in> set (take (nat diff) order) then 1 else 0))"
proof -
  define fl0 where "fl0 = map (\<lambda>l. (l, share_floor total_jobs least n T (g l))) labels"
  have T: "sum_list (dvals active) = T" "length active = length labels"
    by (simp_all add: assms(2,4) dvals_def comp_def)
  have sum: "total_jobs - sum_list (dvals fl0) = diff"
    by (simp add: assms(5) fl0_def dvals_def comp_def)
  define order where "order = sorted_by_desc (\<lambda>l. dget_or (map (\<lambda>l. (l, fsub (raw_share total_jobs least n T (g l))
      (fi (ftrunc (raw_share total_jobs least n T (g l)))))) labels) l 0) labels"
  have m: "mset order = mset labels" by (simp add: order_def)
  then have d: "distinct order" using assms(1) mset_eq_imp_distinct_iff by blast
  have "job_counts total_jobs least active = give_out order diff fl0"
    unfolding job_counts_def Let_def T sum [symmetric]
    by (simp add: assms(2,3) fl0_def order_def share_floor_def comp_def dkeys_def)
  with give_out_get [OF d] m assms(1) show ?thesis
    by (intro exI [of _ order]) (simp add: fl0_def dget_or_map)
qed

lemma counts_sum:
  assumes "distinct labels" "mset order = mset labels" "diff = tot - sum_list (map f labels)"
    "0 \<le> diff" "diff \<le> int (length labels)"
    "\<forall>l \<in> set labels. h l = f l + (if l \<in> set (take (nat diff) order) then 1 else 0)"
  shows "sum_list (map h labels) = (tot :: int)"
proof -
  let ?A = "set (take (nat diff) order)"
  have o: "distinct order" "set order = set labels" "length order = length labels"
    using assms(1,2) mset_eq_imp_distinct_iff mset_eq_setD mset_eq_length by blast+
  have "sum_list (map h labels) = sum_list (map (\<lambda>l. f l + (if l \<in> ?A then 1 else 0)) labels)"
    using assms(6) by (intro arg_cong [of _ _ sum_list]) simp
  also have "\<dots> = sum_list (map f labels) + sum_list (map (\<lambda>l. if l \<in> ?A then 1 else 0) labels)"
    by (rule sum_list_addf)
  also have "sum_list (map (\<lambda>l. if l \<in> ?A then 1 else 0 :: int) labels) = int (card ?A)"
    using assms(1) o(2) by (intro sum_list_indicator) (auto dest: in_set_takeD)
  also have "card ?A = nat diff" using o assms(4,5) by (simp add: distinct_card)
  finally show ?thesis using assms(3,4) by simp
qed

text \<open>The exact share of a label.\<close>

definition exact_share :: "int \<Rightarrow> int \<Rightarrow> int \<Rightarrow> int \<Rightarrow> int \<Rightarrow> rat" where
  "exact_share total_jobs least num T c =
     (if T > 0 then of_int least + of_int (total_jobs - num * least) * (of_int c / of_int T) else of_int total_jobs / of_int num)"

lemma share_floor_near:
  assumes "0 < num" "0 \<le> least" "num * least \<le> total_jobs" "0 < total_jobs" "total_jobs \<le> 2 ^ 26" "0 \<le> c" "c \<le> T" "T \<le> 2 ^ 21"
  shows "of_int (share_floor total_jobs least num T c) \<le> exact_share total_jobs least num T c \<and>
    exact_share total_jobs least num T c \<le> of_int (share_floor total_jobs least num T c) + 1 \<and>
    least \<le> share_floor total_jobs least num T c"
proof -
  let ?raw = "raw_share total_jobs least num T c" and ?q = "exact_share total_jobs least num T c"
  have ln: "least \<le> num * least" using assms(1,2) by (simp add: mult_le_cancel_right1)
  have big: "least + (total_jobs - num * least) \<le> total_jobs" using ln by simp
  have fil: "fl (of_int least) = of_int least" using ln assms(2,3,5) by simp
  have nn: "0 \<le> ?raw" "of_int least \<le> ?raw"
  proof -
    have "fl (of_int least) \<le> ?raw"
    proof (cases "T > 0")
      case True
      have "0 \<le> fmul (fi (total_jobs - num * least)) (fdiv (of_int c) (of_int T))"
        using fi_mono [of 0 "total_jobs - num * least"] assms(3,6) True by (intro fmul_nonneg fdiv_nonneg) simp_all
      then have "fl (of_int least) \<le> fadd (of_int least) (fmul (fi (total_jobs - num * least)) (fdiv (of_int c) (of_int T)))"
        unfolding fadd_def by (intro fl_mono) simp
      then show ?thesis using True fil by (simp add: raw_share_def fi_def)
    next
      case False
      have "of_int least \<le> (of_int total_jobs / of_int num :: rat)"
        using assms(1,3) by (simp add: le_divide_eq) (metis mult.commute of_int_le_iff of_int_mult)
      then show ?thesis using False by (simp add: raw_share_def fdiv_def fl_mono)
    qed
    with fil show "of_int least \<le> ?raw" by simp
    with assms(2) show "0 \<le> ?raw" by (metis of_int_0_le_iff order_trans)
  qed
  have "of_int \<lfloor>?raw\<rfloor> \<le> ?q \<and> ?q \<le> of_int \<lfloor>?raw\<rfloor> + 1"
  proof (cases "T > 0")
    case True
    have "\<bar>?raw - ?q\<bar> \<le> 5 * of_int (least + (total_jobs - num * least)) / 2 ^ 53"
      using raw_share_error [of least "total_jobs - num * least" c T] assms True big by (simp add: raw_share_def exact_share_def)
    also have "\<dots> \<le> 5 * 2 ^ 26 / 2 ^ 53"
    proof -
      have "(of_int (least + (total_jobs - num * least)) :: rat) \<le> of_int (2 ^ 26)"
        using big assms(5) by (simp only: of_int_le_iff)
      then show ?thesis by simp
    qed
    also have "\<dots> < 1 / 2 ^ 21" by simp
    also have "\<dots> \<le> 1 / of_int T"
    proof -
      have "(of_int T :: rat) \<le> of_int (2 ^ 21)" using assms(8) by (simp only: of_int_le_iff)
      then show ?thesis using True by (intro divide_left_mono) simp_all
    qed
    finally have "\<bar>?raw - ?q\<bar> < 1 / of_int T" .
    moreover have "?q * of_int T = of_int (least * T + (total_jobs - num * least) * c)"
      using True by (simp add: exact_share_def distrib_right)
    ultimately show ?thesis using floor_near [OF True] by blast
  next
    case False
    have n: "(1 :: rat) \<le> of_int num" using assms(1) by simp
    have "\<bar>?raw - ?q\<bar> \<le> \<bar>of_int total_jobs / of_int num\<bar> / 2 ^ 53"
      using False by (simp only: raw_share_def exact_share_def fdiv_def if_False) (rule fl_error)
    also have "\<dots> = of_int total_jobs / 2 ^ 53 / of_int num" using assms(1,4) by simp
    also have "\<dots> < 1 / of_int num"
    proof -
      have "(of_int total_jobs :: rat) \<le> of_int (2 ^ 26)" using assms(5) by (simp only: of_int_le_iff)
      then have "(of_int total_jobs :: rat) / 2 ^ 53 < 1" by simp
      then show ?thesis using n by (intro divide_strict_right_mono) simp_all
    qed
    finally have "\<bar>?raw - ?q\<bar> < 1 / of_int num" .
    moreover have "?q * of_int num = of_int total_jobs" using False assms(1) by (simp add: exact_share_def)
    ultimately show ?thesis using floor_near [OF assms(1)] by blast
  qed
  moreover have "share_floor total_jobs least num T c = \<lfloor>?raw\<rfloor>" using nn(1) by (simp add: share_floor_def ftrunc_def)
  moreover have "least \<le> \<lfloor>?raw\<rfloor>" using nn(2) by (simp add: le_floor_iff)
  ultimately show ?thesis by simp
qed

subsection \<open>The source counts\<close>

lemma sum_dget_bound:
  assumes "distinct ls" "\<forall>(k, v) \<in> set d. (0 :: int) \<le> v"
  shows "sum_list (map (\<lambda>l. dget_or d l 0) ls) \<le> sum_list (dvals d)"
  using assms
proof (induction d arbitrary: ls)
  case (Cons x d)
  obtain k v where x: "x = (k, v)" by (cases x)
  have v: "0 \<le> v" "\<forall>(k, v) \<in> set d. (0 :: int) \<le> v" using Cons.prems(2) x by auto
  have "sum_list (map (\<lambda>l. dget_or (x # d) l 0) ls) \<le> v + sum_list (map (\<lambda>l. dget_or d l 0) (filter (\<lambda>l. l \<noteq> k) ls))"
    using Cons.prems(1) v(1)
  proof (induction ls)
    case (Cons l ls)
    show ?case
    proof (cases "l = k")
      case True
      with Cons.prems(1) have "k \<notin> set ls" by simp
      then have "map (\<lambda>l. dget_or (x # d) l 0) ls = map (\<lambda>l. dget_or d l 0) ls" and f: "filter (\<lambda>l. l \<noteq> k) ls = ls"
        by (auto simp: x dget_or_def dict_simps intro!: filter_True)
      then have "sum_list (map (\<lambda>l. dget_or (x # d) l 0) ls) = sum_list (map (\<lambda>l. dget_or d l 0) ls)" by (simp only:)
      moreover have "dget_or (x # d) l 0 = v" using True by (simp add: x dget_or_def dict_simps)
      ultimately show ?thesis using True f by simp
    next
      case False
      with Cons show ?thesis by (simp add: x dget_or_def dict_simps)
    qed
  qed simp
  also have "\<dots> \<le> v + sum_list (dvals d)"
    using Cons.IH [OF _ v(2)] Cons.prems(1) by simp
  finally show ?case by (simp add: x dvals_def)
qed (simp add: dvals_def)

lemma production_count_values:
  "dvals aggregate_production_counts =
    [37043, 842307, 308771, 7678, 32400, 14, 6983, 46174, 7663, 534, 1290, 5188, 12144, 1522, 20793, 3652, 720, 4119, 17625,
     19040, 93759, 7932, 3465, 61263, 3261, 23594, 17935, 5046, 1170]"
  by code_simp

lemma production_counts:
  "\<forall>(k, v) \<in> set aggregate_production_counts. 0 \<le> v" "sum_list (dvals aggregate_production_counts) \<le> 2 ^ 21"
proof -
  have "\<forall>v \<in> set (dvals aggregate_production_counts). 0 \<le> v" unfolding production_count_values by simp
  then show "\<forall>(k, v) \<in> set aggregate_production_counts. 0 \<le> v" by (auto simp: dvals_def)
  show "sum_list (dvals aggregate_production_counts) \<le> 2 ^ 21" unfolding production_count_values by simp
qed

text \<open>C34: a load test runs exactly the jobs it is asked for, and spreads them fairly. For at most \<open>2 ^ 26\<close> jobs and in spite of the
  rounding of the shares, every available runner gets one entry, the entries add up to the number of jobs, and each of them
  is at least the minimum and within one job of its exact share. With fewer jobs than the minima ask for, it is at most one each.\<close>

theorem distribution_exact:
  assumes "finite available" "available \<noteq> {}" "0 < total_jobs" "total_jobs \<le> 2 ^ 26" "0 \<le> least"
    and "n = int (card available)" and "source = dget_or aggregate_production_counts"
  shows "let r = compute_distribution total_jobs available least in
    map osdc_label r = sorted_set available \<and>
    (if total_jobs < n * least then map job_count r = map (\<lambda>i. if int i < total_jobs then 1 else 0) [0..<card available]
     else sum_list (map job_count r) = total_jobs \<and>
       list_all (\<lambda>a. least \<le> job_count a \<and>
         \<bar>of_int (job_count a) - exact_share total_jobs least n (\<Sum>l\<in>available. source l 0) (source (osdc_label a) 0)\<bar> \<le> 1) r)"
proof -
  let ?labels = "sorted_set available" and ?g = "\<lambda>l. source l 0"
  let ?active = "map (\<lambda>l. (l, ?g l)) ?labels"
  have l: "distinct ?labels" "set ?labels = available" "length ?labels = card available"
    using assms(1) by (simp_all add: sorted_set_def)
  have n: "0 < n" using assms(1,2,6) by (simp add: card_gt_0_iff)
  have lab: "osdc_label (allocation act lb j) = lb" "job_count (allocation act lb j) = j" for act lb j
    by (simp_all add: allocation_def Let_def split: prod.split)
  show ?thesis
  proof (cases "total_jobs < n * least")
    case True
    have "compute_distribution total_jobs available least =
        map (\<lambda>(i, l). allocation ?active l (if int i < total_jobs then 1 else 0)) (enumerate 0 ?labels)"
      using assms True l(3) by (simp add: compute_distribution_def Let_def)
    then show ?thesis using True l(3)
      by (simp add: Let_def comp_def case_prod_beta lab map_fst_enumerate map_snd_enumerate
          flip: map_map [of "\<lambda>i. if int i < total_jobs then 1 else 0" fst, unfolded comp_def])
  next
    case False
    define T where "T = sum_list (map ?g ?labels)"
    have T: "T = (\<Sum>l\<in>available. ?g l)" using l(1,2) by (simp add: T_def sum_list_distinct_conv_sum_set)
    have g: "0 \<le> ?g x" for x
      using production_counts(1) by (auto simp: assms(7) dget_or_def dget_def split: option.split dest!: map_of_SomeD)
    have gT: "?g x \<le> T" if "x \<in> available" for x
      using that assms(1) g unfolding T by (intro member_le_sum) auto
    have T21: "T \<le> 2 ^ 21"
      using sum_dget_bound [OF l(1) production_counts(1)] production_counts(2) by (simp add: T_def assms(7))
    let ?f = "\<lambda>x. share_floor total_jobs least n T (?g x)" and ?q = "\<lambda>x. exact_share total_jobs least n T (?g x)"
    have near: "of_int (?f x) \<le> ?q x \<and> ?q x \<le> of_int (?f x) + 1 \<and> least \<le> ?f x" if "x \<in> available" for x
      by (rule share_floor_near [OF n assms(5) _ assms(3,4) g gT [OF that] T21]) (use False in simp)
    define diff where "diff = total_jobs - sum_list (map ?f ?labels)"
    have jc: "\<exists>order. mset order = mset ?labels \<and> (\<forall>l \<in> set ?labels. dget_or (job_counts total_jobs least ?active) l 0 =
        ?f l + (if l \<in> set (take (nat diff) order) then 1 else 0))"
      by (rule job_counts_get [OF l(1) refl _ T_def diff_def]) (simp add: assms(6) l(3))
    then obtain order where o: "mset order = mset ?labels" "\<forall>l \<in> set ?labels. dget_or (job_counts total_jobs least ?active) l 0 =
        ?f l + (if l \<in> set (take (nat diff) order) then 1 else 0)" by blast
    have qsum: "(\<Sum>x\<in>available. ?q x) = of_int total_jobs"
    proof (cases "T > 0")
      case True
      have "(\<Sum>x\<in>available. ?q x) = of_nat (card available) * of_int least +
          of_int (total_jobs - n * least) * ((\<Sum>x\<in>available. of_int (?g x)) / of_int T)"
        using True by (simp add: exact_share_def sum.distrib sum_distrib_left sum_divide_distrib)
      also have "(\<Sum>x\<in>available. of_int (?g x)) = (of_int T :: rat)" by (simp add: T)
      finally show ?thesis using True by (simp add: assms(6))
    next
      case False
      then show ?thesis using n by (simp add: exact_share_def assms(6))
    qed
    have "(of_int (sum_list (map ?f ?labels)) :: rat) = (\<Sum>x\<in>available. of_int (?f x))"
      using l(1,2) by (simp add: sum_list_distinct_conv_sum_set)
    moreover have "(\<Sum>x\<in>available. of_int (?f x)) \<le> (\<Sum>x\<in>available. ?q x)" by (intro sum_mono) (use near in simp)
    moreover have "(\<Sum>x\<in>available. ?q x) \<le> (\<Sum>x\<in>available. of_int (?f x) + 1)" by (intro sum_mono) (use near in simp)
    moreover have "(\<Sum>x\<in>available. of_int (?f x) + 1) = (\<Sum>x\<in>available. of_int (?f x)) + (of_int n :: rat)"
      by (simp add: sum.distrib assms(6))
    ultimately have "(of_int (sum_list (map ?f ?labels)) :: rat) \<le> of_int total_jobs \<and> of_int total_jobs \<le> (of_int (sum_list (map ?f ?labels) + n) :: rat)"
      unfolding qsum by simp
    then have "0 \<le> diff" "diff \<le> int (length ?labels)"
      unfolding of_int_le_iff by (simp_all add: diff_def l(3) assms(6))
    from counts_sum [OF l(1) o(1) diff_def this o(2)]
    have sum: "sum_list (map (\<lambda>x. dget_or (job_counts total_jobs least ?active) x 0) ?labels) = total_jobs" .
    have r: "compute_distribution total_jobs available least =
        map (\<lambda>x. allocation ?active x (dget_or (job_counts total_jobs least ?active) x 0)) ?labels"
      using assms False l(3) by (simp add: compute_distribution_def Let_def)
    have "least \<le> dget_or (job_counts total_jobs least ?active) x 0 \<and>
        \<bar>of_int (dget_or (job_counts total_jobs least ?active) x 0) - ?q x\<bar> \<le> 1" if "x \<in> available" for x
      using near [OF that] o(2) that l(2) by (auto simp: abs_le_iff)
    then show ?thesis using False sum l(2) unfolding r by (simp add: Let_def comp_def lab list_all_iff T)
  qed
qed

theorem distribution_exact_witness:
  "sum_list (map job_count (compute_distribution 100 {''l-x86iavx512-8-16'', ''l-x86iavx2-8-32'', ''l-arm64g3-16-62''} 1)) = 100"
proof -
  let ?A = "{''l-x86iavx512-8-16'', ''l-x86iavx2-8-32'', ''l-arm64g3-16-62''}"
  have "card ?A = 3" by simp
  with distribution_exact [of ?A 100 1, OF _ _ _ _ _ refl refl] show ?thesis by (simp add: Let_def)
qed

end
